(* ===== verification/Prelude.thy ===== *)
theory Prelude
  imports Main "HOL-Library.Word"
begin

unbundle bit_operations_syntax

text \<open>
  The prelude of the development: names for the machine types the C++ sources use, the named
  theorem collections the component theories fill, and the generic facts on lists, options and
  words that several components share.

  Conventions of the whole development.
  \<^item> \<open>wchar_t\<close> is an unsigned 16-bit code unit on Windows: \<open>wchar\<close> is \<open>16 word\<close>, its comparisons
    are the unsigned ones.
  \<^item> \<open>size_t\<close>, \<open>uint64_t\<close> and \<open>uintptr_t\<close> are 64-bit: values that are shifted or masked are
    \<open>64 word\<close>; lengths and indices of containers are \<open>nat\<close>.
  \<^item> \<open>int32_t\<close> (\<open>VTInt\<close>, \<open>til::CoordType\<close>) is \<open>int\<close>; where the code checks or relies on the
    32-bit range, \<open>in_int32\<close> is the predicate and a lemma states that the range is respected.
\<close>

subsection \<open>Machine types\<close>

type_synonym wchar = "16 word"
type_synonym wstring = "wchar list"
type_synonym byte = "8 word"
type_synonym u32 = "32 word"
type_synonym u64 = "64 word"

definition int32_min :: int where
  "int32_min = - 2147483648"

definition int32_max :: int where
  "int32_max = 2147483647"

definition in_int32 :: "int \<Rightarrow> bool" where
  "in_int32 x \<longleftrightarrow> int32_min \<le> x \<and> x \<le> int32_max"

subsection \<open>Collections\<close>

named_theorems vt_defs \<open>definitions of the state machine's actions and transitions\<close>
named_theorems vt_frame \<open>which fields an operation of the state machine leaves unchanged\<close>
named_theorems geom_simps \<open>unfolding of the geometry types\<close>
named_theorems rle_simps \<open>expansion of run length encoded sequences\<close>

subsection \<open>Words\<close>

lemma in_int32_simps [simp]:
  "in_int32 0" "in_int32 1"
  by (simp_all add: in_int32_def int32_min_def int32_max_def)

text \<open>The digits of a number in base 256 are unique.\<close>

lemma base256_unique:
  fixes a b c d :: nat
  assumes "256 * a + c = 256 * b + d" and "c < 256" and "d < 256"
  shows "c = d" and "a = b"
proof -
  show "c = d" using assms by (metis mod_mult_self4 mod_less)
  with assms show "a = b" by simp
qed

text \<open>Bounds on code units transfer to their unsigned values.\<close>

lemma wchar_le_unat: "(a :: wchar) \<le> b \<longleftrightarrow> unat a \<le> unat b"
  by (rule word_le_nat_alt)

lemma unat_wchar_lt: "unat (c :: wchar) < 65536"
  using unsigned_less [of c] by simp

lemma unat_byte_lt: "unat (b :: byte) < 256"
  using unsigned_less [of b] by simp

lemma unat_of_char:
  assumes "8 \<le> LENGTH('a)"
  shows "unat (of_char c :: 'a::len word) = of_char c"
proof -
  have "(of_char c :: nat) < 2 ^ 8" using nat_of_char_less_256 [of c] by simp
  also have "\<dots> \<le> 2 ^ LENGTH('a)" using assms by (rule power_increasing) simp
  finally have "unat (word_of_nat (of_char c) :: 'a word) = of_char c"
    by (simp add: unat_of_nat)
  then show ?thesis by (simp add: of_nat_of_char)
qed

lemma ucast_of_char:
  assumes "8 \<le> LENGTH('a)"
  shows "ucast (of_char c :: 'a::len word) = (of_char c :: 'b::len word)"
  by (metis assms unat_of_char of_nat_of_char of_nat_unat)

subsection \<open>Lists\<close>

text \<open>Replacing the last element, the effect of assigning to \<open>vector::back()\<close>.\<close>

definition set_last :: "'a \<Rightarrow> 'a list \<Rightarrow> 'a list" where
  "set_last x xs = butlast xs @ [x]"

lemma set_last_simps [simp]:
  "set_last x (ys @ [y]) = ys @ [x]"
  "set_last x xs \<noteq> []"
  "last (set_last x xs) = x"
  "butlast (set_last x xs) = butlast xs"
  by (simp_all add: set_last_def)

lemma length_set_last: "length (set_last x xs) = (if xs = [] then 1 else length xs)"
  by (simp add: set_last_def)

lemma set_set_last: "set (set_last x xs) \<subseteq> insert x (set xs)"
  by (auto simp: set_last_def dest: in_set_butlastD)

lemma list_all_set_last: "list_all P xs \<Longrightarrow> P x \<Longrightarrow> list_all P (set_last x xs)"
  using set_set_last [of x xs] by (auto simp: list_all_iff)

lemma take_drop_append_Cons:
  "i < length xs \<Longrightarrow> take n (drop i xs) @ drop (i + n) xs = drop i xs"
  by (metis add.commute append_take_drop_id drop_drop)

subsection \<open>Bytes bit by bit\<close>

lemma bit_byte_ge: "8 \<le> k \<Longrightarrow> \<not> bit (w :: byte) k"
  using bit_imp_le_length [of w k] by auto

lemma unat_byte_less: "unat (b :: byte) < 256"
  using unsigned_less [of b, where ?'a = nat] by simp

lemma unat_ucast_byte [simp]: "unat (ucast (b :: byte) :: wchar) = unat b"
  using unat_byte_less [of b] by (simp add: unsigned_ucast_eq take_bit_nat_eq_self)

lemma byte_eq_bits:
  fixes a b :: byte
  assumes "bit a 0 = bit b 0" "bit a 1 = bit b 1" "bit a 2 = bit b 2" "bit a 3 = bit b 3"
    "bit a 4 = bit b 4" "bit a 5 = bit b 5" "bit a 6 = bit b 6" "bit a 7 = bit b 7"
  shows "a = b"
proof (rule bit_word_eqI)
  fix n :: nat assume "n < LENGTH(8)"
  then consider "n = 0" | "n = 1" | "n = 2" | "n = 3" | "n = 4" | "n = 5" | "n = 6" | "n = 7"
    by fastforce
  then show "bit a n = bit b n" using assms by cases simp_all
qed

lemma byte_and_mask:
  "(a :: byte) AND 3 = take_bit 2 a" "a AND 15 = take_bit 4 a" "a AND 63 = take_bit 6 a"
  by (simp_all add: take_bit_eq_mask mask_eq_exp_minus_1)

lemma word_less_exp:
  fixes w :: "'a::len word"
  assumes "n < LENGTH('a)"
  shows "w < 2 ^ n \<longleftrightarrow> (\<forall>k. n \<le> k \<longrightarrow> \<not> bit w k)"
proof -
  have "unat (2 ^ n :: 'a word) = 2 ^ n"
    using assms unat_of_nat [where 'a = 'a, of "2 ^ n"] by simp
  then have "w < 2 ^ n \<longleftrightarrow> unat w < 2 ^ n" by (simp add: word_less_nat_alt)
  also have "\<dots> \<longleftrightarrow> take_bit n (unat w) = unat w" by (simp add: take_bit_nat_eq_self_iff)
  also have "\<dots> \<longleftrightarrow> take_bit n w = w"
    by (metis unsigned_take_bit_eq unsigned_word_eqI)
  also have "\<dots> \<longleftrightarrow> (\<forall>k. n \<le> k \<longrightarrow> \<not> bit w k)"
    by (metis bit_take_bit_iff bit_word_eqI not_le)
  finally show ?thesis .
qed

lemma byte_less_64: "(n :: byte) < 64 \<longleftrightarrow> \<not> bit n 6 \<and> \<not> bit n 7"
proof -
  have "(\<forall>k. 6 \<le> k \<longrightarrow> \<not> bit n k) \<longleftrightarrow> \<not> bit n 6 \<and> \<not> bit n 7"
  proof
    assume b: "\<not> bit n 6 \<and> \<not> bit n 7"
    show "\<forall>k. 6 \<le> k \<longrightarrow> \<not> bit n k"
    proof (intro allI impI)
      fix k :: nat assume "6 \<le> k"
      then consider "k = 6" | "k = 7" | "8 \<le> k" by linarith
      then show "\<not> bit n k" using b bit_imp_le_length [of n k] by cases auto
    qed
  qed auto
  then show ?thesis using word_less_exp [of 6 n] by simp
qed

subsection \<open>Decimal numbers\<close>

text \<open>
  Numbers in control sequences are read one digit at a time and clamped after every digit. The
  reference is the value of the digits, and the printer the usual one.
\<close>

definition dec_value :: "nat \<Rightarrow> nat list \<Rightarrow> nat" where
  "dec_value = foldl (\<lambda>v d. v * 10 + d)"

fun dec_digits :: "nat \<Rightarrow> nat list" where
  "dec_digits n = (if n < 10 then [n] else dec_digits (n div 10) @ [n mod 10])"

declare dec_digits.simps [simp del]

definition dec_char :: "nat \<Rightarrow> wchar" where
  "dec_char d = 0x30 + word_of_nat d"

definition dec_string :: "nat \<Rightarrow> wstring" where
  "dec_string n = map dec_char (dec_digits n)"

lemma dec_value_simps [simp]:
  "dec_value v [] = v" "dec_value v (d # ds) = dec_value (v * 10 + d) ds"
  by (simp_all add: dec_value_def)

lemma dec_value_append [simp]: "dec_value v (xs @ ys) = dec_value (dec_value v xs) ys"
  by (simp add: dec_value_def)

lemma dec_value_mono: "v \<le> w \<Longrightarrow> dec_value v ds \<le> dec_value w ds"
  by (induction ds arbitrary: v w) simp_all

lemma dec_value_ge: "v \<le> dec_value v ds"
proof (induction ds arbitrary: v)
  case (Cons d ds)
  have "v \<le> v * 10 + d" by simp
  also have "\<dots> \<le> dec_value (v * 10 + d) ds" by (rule Cons)
  finally show ?case by simp
qed simp

lemma dec_value_digits [simp]: "dec_value 0 (dec_digits n) = n"
proof (induction n rule: dec_digits.induct)
  case (1 n)
  then show ?case by (subst dec_digits.simps) simp
qed

lemma dec_digits_less: "d \<in> set (dec_digits n) \<Longrightarrow> d < 10"
proof (induction n rule: dec_digits.induct)
  case (1 n)
  show ?case
  proof (cases "n < 10")
    case True
    with "1.prems" show ?thesis by (simp add: dec_digits.simps [of n])
  next
    case False
    with "1.prems" have "d \<in> set (dec_digits (n div 10)) \<or> d = n mod 10"
      by (auto simp: dec_digits.simps [of n])
    with "1.IH" [OF False] show ?thesis by auto
  qed
qed

lemma dec_digits_Nil [simp]: "dec_digits n \<noteq> []"
  by (subst dec_digits.simps) simp

lemma dec_string_Nil [simp]: "dec_string n \<noteq> []"
  by (simp add: dec_string_def)

text \<open>Clamping after every digit gives the clamped value of the whole number.\<close>

lemma dec_value_clamp:
  "foldl (\<lambda>v d. min (v * 10 + d) k) (min v k) ds = min (dec_value v ds) k"
proof (induction ds arbitrary: v)
  case (Cons d ds)
  have "min (min v k * 10 + d) k = min (v * 10 + d) k" by (simp add: min_def)
  with Cons show ?case by simp
qed simp

lemma dec_char_less: "d < 10 \<Longrightarrow> unat (dec_char d) = 48 + d"
  by (simp add: dec_char_def unat_word_ariths unat_of_nat)

lemma dec_char_range: "d < 10 \<Longrightarrow> 0x30 \<le> dec_char d \<and> dec_char d \<le> 0x39"
  by (simp add: word_le_nat_alt dec_char_less)

lemma dec_char_digit: "d < 10 \<Longrightarrow> dec_char d - 0x30 = word_of_nat d"
  by (simp add: dec_char_def)

end
