(* ===== verification/Control_Scan.thy ===== *)
theory Control_Scan
  imports Prelude
begin

text \<open>
  The scan for the next control character, \<open>Utils::FindActionableControlCharacter\<close> of
  \<open>src/src/types/utils.cpp\<close>, which \<open>StateMachine::ProcessString\<close> uses to cut a string into
  printable runs. The function has a plain loop and two vectorised loops (SSE2 and NEON), chosen
  at compile time; all three are modelled, the vector registers as lists of eight 16-bit lanes,
  and shown to find the same position: the first actionable character, or the end.

  A pointer into the string is the number of characters before it.
\<close>

subsection \<open>Model\<close>

definition isActionableFromGround :: "wchar \<Rightarrow> bool" where
  "isActionableFromGround wch \<longleftrightarrow> wch \<le> 0x1f \<or> wch - 0x7f \<le> 0x20"

fun plainSearch :: "wstring \<Rightarrow> nat" where
  "plainSearch [] = 0"
| "plainSearch (c # cs) = (if isActionableFromGround c then 0 else Suc (plainSearch cs))"

text \<open>The SSE2 intrinsics the loop uses, per lane.\<close>

definition mm_subs_epu16 :: "wchar \<Rightarrow> wchar \<Rightarrow> wchar" where
  "mm_subs_epu16 a b = (if a \<le> b then 0 else a - b)"

definition mm_cmpeq_epi16 :: "wchar \<Rightarrow> wchar \<Rightarrow> wchar" where
  "mm_cmpeq_epi16 a b = (if a = b then 0xFFFF else 0)"

text \<open>
  \<open>_mm_movemask_epi8\<close> collects the top bit of each of the sixteen bytes; the mask is given by
  the list of its bits, lowest first. \<open>_BitScanForward\<close> is the index of the lowest set bit.
\<close>

definition mm_movemask_epi8 :: "wchar list \<Rightarrow> bool list" where
  "mm_movemask_epi8 lanes = concat (map (\<lambda>l. [bit l 7, bit l 15]) lanes)"

fun bitScanForward :: "bool list \<Rightarrow> nat" where
  "bitScanForward [] = 0"
| "bitScanForward (b # bs) = (if b then 0 else Suc (bitScanForward bs))"

definition sseLane :: "wchar \<Rightarrow> wchar" where
  "sseLane wch =
     (let a = mm_cmpeq_epi16 (mm_subs_epu16 wch 0x1f) 0;
          b = mm_cmpeq_epi16 (mm_subs_epu16 (wch + 0xff81) 0x20) 0
      in a OR b)"

fun findSse :: "wstring \<Rightarrow> nat" where
  "findSse xs =
     (if length xs \<ge> 8
      then (let mask = mm_movemask_epi8 (map sseLane (take 8 xs))
            in if True \<in> set mask then bitScanForward mask div 2
               else 8 + findSse (drop 8 xs))
      else plainSearch xs)"

declare findSse.simps [simp del]

text \<open>
  The NEON loop compares unsigned lanes directly and examines the two 64-bit halves of the
  result in turn; each lane contributes sixteen equal bits to the mask.
\<close>

definition neonLane :: "wchar \<Rightarrow> wchar" where
  "neonLane wch =
     ((if wch \<le> 0x1f then 0xFFFF else 0) OR (if wch - 0x7f \<le> 0x20 then 0xFFFF else 0))"

definition neonHalfMask :: "wchar list \<Rightarrow> bool list" where
  "neonHalfMask lanes = concat (map (\<lambda>l. map (bit l) [0..<16]) lanes)"

fun findNeon :: "wstring \<Rightarrow> nat" where
  "findNeon xs =
     (if length xs \<ge> 8
      then (let c = map neonLane (take 8 xs); lo = neonHalfMask (take 4 c); hi = neonHalfMask (drop 4 c)
            in if True \<in> set lo then bitScanForward lo div 16
               else if True \<in> set hi then 4 + bitScanForward hi div 16
               else 8 + findNeon (drop 8 xs))
      else plainSearch xs)"

declare findNeon.simps [simp del]

subsection \<open>The character class\<close>

lemma isActionableFromGround_ranges:
  "isActionableFromGround wch \<longleftrightarrow> wch \<le> 0x1f \<or> 0x7f \<le> wch \<and> wch \<le> 0x9f"
  unfolding isActionableFromGround_def by (auto simp: word_le_nat_alt unat_sub_if')

lemma mm_subs_epu16_eq_0 [simp]: "mm_subs_epu16 a b = 0 \<longleftrightarrow> a \<le> b"
  by (auto simp: mm_subs_epu16_def)

lemma sseLane_eq: "sseLane wch = (if isActionableFromGround wch then 0xFFFF else 0)"
proof -
  have "(0xff81 :: wchar) = - 0x7f" by simp
  then have eq: "wch + 0xff81 = wch - 0x7f" by (metis diff_conv_add_uminus)
  show ?thesis
    unfolding sseLane_def eq by (simp add: mm_cmpeq_epi16_def isActionableFromGround_def)
qed

lemma neonLane_eq: "neonLane wch = (if isActionableFromGround wch then 0xFFFF else 0)"
  by (simp add: neonLane_def isActionableFromGround_def)

subsection \<open>Equivalence of the three searches\<close>

lemma plainSearch_takeWhile: "plainSearch xs = length (takeWhile (Not \<circ> isActionableFromGround) xs)"
  by (induction xs) auto

lemma plainSearch_append:
  "plainSearch (xs @ ys) =
     (if \<exists>c \<in> set xs. isActionableFromGround c then plainSearch xs
      else length xs + plainSearch ys)"
  by (induction xs) auto

lemma bitScanForward_replicate_False:
  "bitScanForward (replicate k False @ bs) = k + bitScanForward bs"
  by (induction k) auto

lemma bitScan_lanes:
  assumes "0 < k"
  shows "True \<in> set (concat (map (\<lambda>c. replicate k (P c)) cs)) \<longleftrightarrow> (\<exists>c \<in> set cs. P c)"
    and "\<exists>c \<in> set cs. P c \<Longrightarrow>
      bitScanForward (concat (map (\<lambda>c. replicate k (P c)) cs)) = k * length (takeWhile (Not \<circ> P) cs)"
proof -
  show "True \<in> set (concat (map (\<lambda>c. replicate k (P c)) cs)) \<longleftrightarrow> (\<exists>c \<in> set cs. P c)"
    using assms by auto
  show "\<exists>c \<in> set cs. P c \<Longrightarrow>
      bitScanForward (concat (map (\<lambda>c. replicate k (P c)) cs)) = k * length (takeWhile (Not \<circ> P) cs)"
  proof (induction cs)
    case (Cons c cs)
    show ?case
    proof (cases "P c")
      case True
      with assms show ?thesis by (cases k) auto
    next
      case False
      with Cons show ?thesis by (simp add: bitScanForward_replicate_False)
    qed
  qed simp
qed

lemma sse_mask: "mm_movemask_epi8 (map sseLane cs) = concat (map (\<lambda>c. replicate 2 (isActionableFromGround c)) cs)"
  by (induction cs) (auto simp: mm_movemask_epi8_def sseLane_eq numeral_2_eq_2)

lemma neon_mask:
  "neonHalfMask (map neonLane cs) = concat (map (\<lambda>c. replicate 16 (isActionableFromGround c)) cs)"
proof -
  have "map (bit (0xFFFF :: wchar)) [0..<16] = replicate 16 True" by code_simp
  moreover have "map (bit (0 :: wchar)) [0..<16] = replicate 16 False" by code_simp
  ultimately show ?thesis
    by (induction cs) (auto simp: neonHalfMask_def neonLane_eq)
qed

lemma findSse_eq: "findSse xs = plainSearch xs"
proof (induction xs rule: findSse.induct)
  case (1 xs)
  show ?case
  proof (cases "length xs \<ge> 8")
    case True
    have split: "plainSearch xs = plainSearch (take 8 xs @ drop 8 xs)" by simp
    show ?thesis
      using True "1" split [unfolded plainSearch_append]
        bitScan_lanes [where k = 2 and P = isActionableFromGround and cs = "take 8 xs"]
      by (simp add: findSse.simps [of xs] sse_mask Let_def plainSearch_takeWhile [symmetric]
          del: append_take_drop_id)
  next
    case False
    then show ?thesis by (simp add: findSse.simps [of xs])
  qed
qed

lemma findNeon_eq: "findNeon xs = plainSearch xs"
proof (induction xs rule: findNeon.induct)
  case (1 xs)
  show ?case
  proof (cases "length xs \<ge> 8")
    case True
    define a b where "a = take 4 xs" and "b = take 4 (drop 4 xs)"
    have parts: "take 4 (map neonLane (take 8 xs)) = map neonLane a"
      "drop 4 (map neonLane (take 8 xs)) = map neonLane b"
      by (simp_all add: a_def b_def take_map drop_map drop_take)
    have xs: "xs = a @ b @ drop 8 xs"
      by (simp add: a_def b_def) (metis append_take_drop_id drop_drop add_numeral_left numeral_Bit0)
    have len: "length a = 4" "length b = 4" using True by (simp_all add: a_def b_def)
    have "plainSearch xs = plainSearch (a @ b @ drop 8 xs)" using xs by simp
    then show ?thesis
      using True "1" len
        bitScan_lanes [where k = 16 and P = isActionableFromGround and cs = a]
        bitScan_lanes [where k = 16 and P = isActionableFromGround and cs = b]
      by (simp add: findNeon.simps [of xs] parts neon_mask Let_def plainSearch_append
          plainSearch_takeWhile [symmetric])
  next
    case False
    then show ?thesis by (simp add: findNeon.simps [of xs])
  qed
qed

text \<open>
  C27. The two vectorised searches of \<open>FindActionableControlCharacter\<close>, eight characters at a time
  with SSE2 or NEON and the plain loop for the rest, return the index the plain loop returns: the
  first C0, DEL or C1 character of the text, or its length.
\<close>

theorem vector_search_equivalent: "findSse xs = plainSearch xs \<and> findNeon xs = plainSearch xs"
  by (simp add: findSse_eq findNeon_eq)

subsection \<open>What the scan returns\<close>

lemma plainSearch_le: "plainSearch xs \<le> length xs"
  by (induction xs) auto

lemma plainSearch_prefix: "c \<in> set (take (plainSearch xs) xs) \<Longrightarrow> \<not> isActionableFromGround c"
  by (induction xs) (auto split: if_splits)

lemma plainSearch_stop: "plainSearch xs < length xs \<Longrightarrow> isActionableFromGround (xs ! plainSearch xs)"
  by (induction xs) auto

end
