(* ===== verification/Text_Attribute.thy ===== *)
theory Text_Attribute
  imports Control_Scan
begin

text \<open>
  The attributes of a character cell: \<open>TextColor\<close> (\<open>src/src/buffer/out/TextColor.h\<close> and \<open>.cpp\<close>) and
  \<open>TextAttribute\<close> (\<open>src/src/buffer/out/TextAttribute.hpp\<close> and \<open>.cpp\<close>), with the flags of
  \<open>src/src/inc/conattrs.hpp\<close>. The structures are compared with \<open>memcmp\<close>, so a model value is the tuple
  of their bytes and words. The tables that map legacy attributes to colours are mutable statics in the
  source and a record here.

  The lemmas show that legacy attributes survive the conversion there and back whatever defaults have
  been set, that a legacy index is always below 16, and that the vectorised search for a bright default
  colour is the plain loop.
\<close>

subsection \<open>Colours\<close>

datatype ColorType = IsDefault | IsIndex16 | IsIndex256 | IsRgb

record TextColor =
  tc_red :: byte
  tc_green :: byte
  tc_blue :: byte
  tc_meta :: ColorType

type_synonym COLORREF = u32

definition RGB :: "byte \<Rightarrow> byte \<Rightarrow> byte \<Rightarrow> COLORREF" where
  "RGB r g b = ucast r OR push_bit 8 (ucast g) OR push_bit 16 (ucast b)"

definition TextColor_default :: TextColor where
  "TextColor_default = \<lparr>tc_red = 0, tc_green = 0, tc_blue = 0, tc_meta = IsDefault\<rparr>"

definition TextColor_index :: "byte \<Rightarrow> bool \<Rightarrow> TextColor" where
  "TextColor_index index isIndex256 =
     \<lparr>tc_red = index, tc_green = 0, tc_blue = 0, tc_meta = (if isIndex256 then IsIndex256 else IsIndex16)\<rparr>"

definition TextColor_rgb :: "COLORREF \<Rightarrow> TextColor" where
  "TextColor_rgb rgb =
     \<lparr>tc_red = ucast rgb, tc_green = ucast (drop_bit 8 rgb), tc_blue = ucast (drop_bit 16 rgb), tc_meta = IsRgb\<rparr>"

definition CanBeBrightened :: "TextColor \<Rightarrow> bool" where
  "CanBeBrightened c \<longleftrightarrow> tc_meta c = IsIndex16 \<or> tc_meta c = IsDefault"

definition tc_IsLegacy :: "TextColor \<Rightarrow> bool" where
  "tc_IsLegacy c \<longleftrightarrow> (tc_meta c = IsIndex16 \<or> tc_meta c = IsIndex256) \<and> tc_red c < 16"

definition IsDefaultOrLegacy :: "TextColor \<Rightarrow> bool" where
  "IsDefaultOrLegacy c \<longleftrightarrow> tc_meta c \<noteq> IsRgb \<and> tc_red c < 16"

definition GetRGB :: "TextColor \<Rightarrow> COLORREF" where
  "GetRGB c = RGB (tc_red c) (tc_green c) (tc_blue c)"

definition CompressedRgbToIndex16 :: "byte list" where
  "CompressedRgbToIndex16 =
    [0, 1, 1, 9, 0, 0, 1, 1, 2, 1, 1, 1, 2, 8, 1, 9, 2, 2, 3, 3, 2, 2, 11, 3, 10, 10, 11, 11, 10, 10, 10, 11,
     0, 5, 1, 1, 0, 0, 1, 1, 8, 1, 1, 1, 2, 8, 1, 9, 2, 2, 3, 3, 2, 2, 11, 3, 10, 10, 10, 11, 10, 10, 10, 11,
     5, 5, 5, 1, 4, 5, 1, 1, 8, 8, 1, 9, 2, 8, 9, 9, 2, 2, 3, 3, 2, 2, 11, 3, 10, 10, 11, 11, 10, 10, 10, 11,
     4, 5, 5, 1, 4, 5, 5, 1, 8, 5, 5, 1, 8, 8, 9, 9, 2, 2, 8, 9, 10, 2, 11, 3, 10, 10, 11, 11, 10, 10, 10, 11,
     4, 13, 5, 5, 4, 13, 5, 5, 4, 13, 13, 13, 6, 8, 13, 9, 6, 8, 8, 9, 10, 10, 11, 3, 10, 10, 11, 11, 10, 10, 10, 11,
     4, 13, 13, 13, 4, 13, 13, 13, 4, 12, 13, 13, 6, 12, 13, 13, 6, 6, 8, 9, 6, 6, 7, 7, 10, 14, 14, 7, 10, 10, 14, 11,
     4, 12, 13, 13, 4, 12, 13, 13, 4, 12, 13, 13, 6, 12, 12, 13, 6, 6, 12, 7, 6, 6, 7, 7, 6, 14, 14, 7, 14, 14, 14, 15,
     12, 12, 13, 13, 12, 12, 13, 13, 12, 12, 12, 13, 12, 12, 12, 13, 6, 12, 12, 7, 6, 6, 7, 7, 6, 14, 14, 7, 14, 14, 14, 15]"

definition Index256ToIndex16 :: "byte list" where
  "Index256ToIndex16 =
    [0, 4, 2, 6, 1, 5, 3, 7, 8, 12, 10, 14, 9, 13, 11, 15, 0, 1, 1, 1, 9, 9, 2, 1, 1, 1, 1, 1, 2, 2, 3, 3,
     3, 3, 2, 2, 11, 11, 3, 3, 10, 10, 11, 11, 11, 11, 10, 10, 10, 10, 11, 11, 5, 5, 5, 5, 1, 1, 8, 8, 1, 1, 9, 9,
     2, 2, 3, 3, 3, 3, 2, 2, 11, 11, 3, 3, 10, 10, 11, 11, 11, 11, 10, 10, 10, 10, 11, 11, 4, 13, 5, 5, 5, 5, 4, 13,
     13, 13, 13, 13, 6, 8, 8, 8, 9, 9, 10, 10, 11, 11, 3, 3, 10, 10, 11, 11, 11, 11, 10, 10, 10, 10, 11, 11, 4, 13, 13, 13,
     13, 13, 4, 12, 13, 13, 13, 13, 6, 6, 8, 8, 9, 9, 6, 6, 7, 7, 7, 7, 10, 14, 14, 14, 7, 7, 10, 10, 14, 14, 11, 11,
     4, 12, 13, 13, 13, 13, 4, 12, 13, 13, 13, 13, 6, 6, 12, 12, 7, 7, 6, 6, 7, 7, 7, 7, 6, 14, 14, 14, 7, 7, 14, 14,
     14, 14, 15, 15, 12, 12, 13, 13, 13, 13, 12, 12, 12, 12, 13, 13, 6, 12, 12, 12, 7, 7, 6, 6, 7, 7, 7, 7, 6, 14, 14, 14,
     7, 7, 14, 14, 14, 14, 15, 15, 0, 0, 0, 0, 0, 0, 8, 8, 8, 8, 8, 8, 8, 8, 8, 8, 7, 7, 7, 7, 7, 7, 15, 15]"

definition TransposeLegacyIndex :: "u64 \<Rightarrow> byte" where
  "TransposeLegacyIndex index =
     (let oneBitSet = (index XOR drop_bit 2 index) AND 1
      in ucast (index XOR oneBitSet XOR push_bit 2 oneBitSet))"

text \<open>
  \<open>til::at\<close> is the unchecked access to an array. Every index used below is inside its array of 256 or
  267 entries; the value outside is never read.
\<close>

definition at_or_0 :: "'a::zero list \<Rightarrow> nat \<Rightarrow> 'a" where
  "at_or_0 xs i = (if i < length xs then xs ! i else 0)"

definition GetLegacyIndex :: "byte \<Rightarrow> TextColor \<Rightarrow> byte" where
  "GetLegacyIndex defaultIndex c =
     (case tc_meta c of
        IsDefault \<Rightarrow> defaultIndex
      | IsRgb \<Rightarrow>
          at_or_0 CompressedRgbToIndex16
            (unat ((tc_red c AND 0xE0) + (drop_bit 3 (tc_green c) AND 0x1C) + (drop_bit 6 (tc_blue c) AND 0x03)))
      | _ \<Rightarrow> at_or_0 Index256ToIndex16 (unat (tc_red c)))"

text \<open>
  \<open>GetColor\<close>: for a bright default colour, the default is looked up among the dark colours of the table.
  The build selects one of three searches: the plain loop, and the AVX2 and SSE2 ones, with registers as
  lists of lanes.
\<close>

definition bright_plain :: "COLORREF list \<Rightarrow> COLORREF \<Rightarrow> COLORREF" where
  "bright_plain colorTable defaultColor =
     (case find (\<lambda>i. at_or_0 colorTable i = defaultColor) [0..<8] of
        Some i \<Rightarrow> at_or_0 colorTable (i + 8)
      | None \<Rightarrow> defaultColor)"

definition mm_cmpeq_epi32 :: "u32 \<Rightarrow> u32 \<Rightarrow> u32" where
  "mm_cmpeq_epi32 a b = (if a = b then 0xFFFFFFFF else 0)"

definition mm256_movemask_ps :: "u32 list \<Rightarrow> bool list" where
  "mm256_movemask_ps lanes = map (\<lambda>l. bit l 31) lanes"

definition bright_avx2 :: "COLORREF list \<Rightarrow> COLORREF \<Rightarrow> COLORREF" where
  "bright_avx2 colorTable defaultColor =
     (let haystack = take 8 colorTable;
          result = map (\<lambda>l. mm_cmpeq_epi32 l defaultColor) haystack;
          mask = mm256_movemask_ps result
      in if True \<in> set mask then at_or_0 colorTable (bitScanForward mask + 8) else defaultColor)"

text \<open>\<open>_mm_packs_epi32\<close> narrows signed 32-bit lanes to 16 bits with saturation.\<close>

definition mm_packs_epi32 :: "u32 list \<Rightarrow> u32 list \<Rightarrow> wchar list" where
  "mm_packs_epi32 a b = map (\<lambda>l. word_of_int (max (- 32768) (min 32767 (sint l)))) (a @ b)"

definition bright_sse2 :: "COLORREF list \<Rightarrow> COLORREF \<Rightarrow> COLORREF" where
  "bright_sse2 colorTable defaultColor =
     (let haystack1 = take 4 colorTable;
          haystack2 = take 4 (drop 4 colorTable);
          result1 = map (\<lambda>l. mm_cmpeq_epi32 l defaultColor) haystack1;
          result2 = map (\<lambda>l. mm_cmpeq_epi32 l defaultColor) haystack2;
          mask = mm_movemask_epi8 (mm_packs_epi32 result1 result2)
      in if True \<in> set mask then at_or_0 colorTable (bitScanForward mask div 2 + 8) else defaultColor)"

definition GetColor :: "COLORREF list \<Rightarrow> nat \<Rightarrow> bool \<Rightarrow> TextColor \<Rightarrow> COLORREF" where
  "GetColor colorTable defaultIndex brighten c =
     (if tc_meta c = IsDefault
      then (let defaultColor = at_or_0 colorTable defaultIndex
            in if brighten then bright_plain colorTable defaultColor else defaultColor)
      else if tc_meta c = IsRgb then GetRGB c
      else if tc_meta c = IsIndex16 \<and> brighten then at_or_0 colorTable (unat (tc_red c OR 8))
      else at_or_0 colorTable (unat (tc_red c)))"

subsection \<open>Attributes\<close>

type_synonym CharacterAttributes = "16 word"

text \<open>The flags of \<open>CharacterAttributes\<close>.\<close>

abbreviation ca_Intense :: CharacterAttributes where "ca_Intense \<equiv> 0x01"
abbreviation ca_Italics :: CharacterAttributes where "ca_Italics \<equiv> 0x02"
abbreviation ca_Blinking :: CharacterAttributes where "ca_Blinking \<equiv> 0x04"
abbreviation ca_Invisible :: CharacterAttributes where "ca_Invisible \<equiv> 0x08"
abbreviation ca_CrossedOut :: CharacterAttributes where "ca_CrossedOut \<equiv> 0x10"
abbreviation ca_Faint :: CharacterAttributes where "ca_Faint \<equiv> 0x20"
abbreviation ca_UnderlineStyle :: CharacterAttributes where "ca_UnderlineStyle \<equiv> 0x1C0"
abbreviation ca_TopGridline :: CharacterAttributes where "ca_TopGridline \<equiv> 0x400"
abbreviation ca_LeftGridline :: CharacterAttributes where "ca_LeftGridline \<equiv> 0x800"
abbreviation ca_RightGridline :: CharacterAttributes where "ca_RightGridline \<equiv> 0x1000"
abbreviation ca_Protected :: CharacterAttributes where "ca_Protected \<equiv> 0x2000"
abbreviation ca_ReverseVideo :: CharacterAttributes where "ca_ReverseVideo \<equiv> 0x4000"
abbreviation ca_BottomGridline :: CharacterAttributes where "ca_BottomGridline \<equiv> 0x8000"

definition ca_Rendition :: CharacterAttributes where
  "ca_Rendition = 0xFFFF AND NOT ca_Protected"

text \<open>
  \<open>META_ATTRS\<close> has the leading and trailing byte flags \<open>0x100\<close> and \<open>0x200\<close>, which
  \<open>COMMON_LVB_SBCSDBCS\<close> names together and \<open>USED_META_ATTRS\<close> excludes.
\<close>

definition USED_META_ATTRS :: "16 word" where
  "USED_META_ATTRS =
     (0x100 OR 0x200 OR ca_TopGridline OR ca_LeftGridline OR ca_RightGridline OR ca_ReverseVideo OR ca_BottomGridline)
     AND NOT 0x300"

datatype MarkKind = MarkNone | MarkPrompt | MarkCommand | MarkOutput

record TextAttribute =
  ta_attrs :: CharacterAttributes
  ta_hyperlinkId :: "16 word"
  ta_foreground :: TextColor
  ta_background :: TextColor
  ta_underlineColor :: TextColor
  ta_markKind :: MarkKind

definition TextAttribute_default :: TextAttribute where
  "TextAttribute_default =
     \<lparr>ta_attrs = 0, ta_hyperlinkId = 0, ta_foreground = TextColor_default, ta_background = TextColor_default,
      ta_underlineColor = TextColor_default, ta_markKind = MarkNone\<rparr>"

definition is_flag_set :: "CharacterAttributes \<Rightarrow> TextAttribute \<Rightarrow> bool" where
  "is_flag_set flag a \<longleftrightarrow> ta_attrs a AND flag = flag"

definition update_flag :: "CharacterAttributes \<Rightarrow> bool \<Rightarrow> TextAttribute \<Rightarrow> TextAttribute" where
  "update_flag flag v a =
     a\<lparr>ta_attrs := (if v then ta_attrs a OR flag else ta_attrs a AND NOT flag)\<rparr>"

definition IsIntense :: "TextAttribute \<Rightarrow> bool" where "IsIntense = is_flag_set ca_Intense"
definition IsFaint :: "TextAttribute \<Rightarrow> bool" where "IsFaint = is_flag_set ca_Faint"
definition IsItalic :: "TextAttribute \<Rightarrow> bool" where "IsItalic = is_flag_set ca_Italics"
definition IsBlinking :: "TextAttribute \<Rightarrow> bool" where "IsBlinking = is_flag_set ca_Blinking"
definition IsInvisible :: "TextAttribute \<Rightarrow> bool" where "IsInvisible = is_flag_set ca_Invisible"
definition IsCrossedOut :: "TextAttribute \<Rightarrow> bool" where "IsCrossedOut = is_flag_set ca_CrossedOut"
definition IsOverlined :: "TextAttribute \<Rightarrow> bool" where "IsOverlined = is_flag_set ca_TopGridline"
definition IsReverseVideo :: "TextAttribute \<Rightarrow> bool" where "IsReverseVideo = is_flag_set ca_ReverseVideo"
definition IsProtected :: "TextAttribute \<Rightarrow> bool" where "IsProtected = is_flag_set ca_Protected"

definition SetIntense :: "bool \<Rightarrow> TextAttribute \<Rightarrow> TextAttribute" where "SetIntense = update_flag ca_Intense"
definition SetFaint :: "bool \<Rightarrow> TextAttribute \<Rightarrow> TextAttribute" where "SetFaint = update_flag ca_Faint"
definition SetItalic :: "bool \<Rightarrow> TextAttribute \<Rightarrow> TextAttribute" where "SetItalic = update_flag ca_Italics"
definition SetBlinking :: "bool \<Rightarrow> TextAttribute \<Rightarrow> TextAttribute" where "SetBlinking = update_flag ca_Blinking"
definition SetInvisible :: "bool \<Rightarrow> TextAttribute \<Rightarrow> TextAttribute" where "SetInvisible = update_flag ca_Invisible"
definition SetCrossedOut :: "bool \<Rightarrow> TextAttribute \<Rightarrow> TextAttribute" where "SetCrossedOut = update_flag ca_CrossedOut"
definition SetOverlined :: "bool \<Rightarrow> TextAttribute \<Rightarrow> TextAttribute" where "SetOverlined = update_flag ca_TopGridline"
definition SetReverseVideo :: "bool \<Rightarrow> TextAttribute \<Rightarrow> TextAttribute" where "SetReverseVideo = update_flag ca_ReverseVideo"
definition SetProtected :: "bool \<Rightarrow> TextAttribute \<Rightarrow> TextAttribute" where "SetProtected = update_flag ca_Protected"
definition SetLeftVerticalDisplayed :: "bool \<Rightarrow> TextAttribute \<Rightarrow> TextAttribute" where
  "SetLeftVerticalDisplayed = update_flag ca_LeftGridline"
definition SetRightVerticalDisplayed :: "bool \<Rightarrow> TextAttribute \<Rightarrow> TextAttribute" where
  "SetRightVerticalDisplayed = update_flag ca_RightGridline"

definition GetUnderlineStyle :: "TextAttribute \<Rightarrow> nat" where
  "GetUnderlineStyle a = unat (drop_bit 6 (ta_attrs a AND ca_UnderlineStyle))"

definition SetUnderlineStyle :: "nat \<Rightarrow> TextAttribute \<Rightarrow> TextAttribute" where
  "SetUnderlineStyle style a =
     a\<lparr>ta_attrs := (ta_attrs a AND NOT ca_UnderlineStyle) OR push_bit 6 (word_of_nat style)\<rparr>"

definition IsUnderlined :: "TextAttribute \<Rightarrow> bool" where
  "IsUnderlined a \<longleftrightarrow> GetUnderlineStyle a \<noteq> 0"

definition IsHyperlink :: "TextAttribute \<Rightarrow> bool" where
  "IsHyperlink a \<longleftrightarrow> ta_hyperlinkId a \<noteq> 0"

definition IsBold :: "bool \<Rightarrow> TextAttribute \<Rightarrow> bool" where
  "IsBold intenseIsBold a \<longleftrightarrow> IsIntense a \<and> (intenseIsBold \<or> \<not> CanBeBrightened (ta_foreground a))"

definition ta_IsLegacy :: "TextAttribute \<Rightarrow> bool" where
  "ta_IsLegacy a \<longleftrightarrow> tc_IsLegacy (ta_foreground a) \<and> tc_IsLegacy (ta_background a)"

definition Invert :: "TextAttribute \<Rightarrow> TextAttribute" where
  "Invert a = a\<lparr>ta_attrs := ta_attrs a XOR ca_ReverseVideo\<rparr>"

definition SetDefaultRenditionAttributes :: "TextAttribute \<Rightarrow> TextAttribute" where
  "SetDefaultRenditionAttributes a = a\<lparr>ta_attrs := ta_attrs a AND NOT ca_Rendition\<rparr>"

definition SetStandardErase :: "TextAttribute \<Rightarrow> TextAttribute" where
  "SetStandardErase a = a\<lparr>ta_attrs := 0, ta_hyperlinkId := 0, ta_markKind := MarkNone\<rparr>"

definition SetColor :: "COLORREF \<Rightarrow> bool \<Rightarrow> TextAttribute \<Rightarrow> TextAttribute" where
  "SetColor rgbColor fIsForeground a =
     (if fIsForeground then a\<lparr>ta_foreground := TextColor_rgb rgbColor\<rparr>
      else a\<lparr>ta_background := TextColor_rgb rgbColor\<rparr>)"

definition IsAnyGridLineEnabled :: "TextAttribute \<Rightarrow> bool" where
  "IsAnyGridLineEnabled a \<longleftrightarrow>
     ta_attrs a AND (ca_TopGridline OR ca_LeftGridline OR ca_RightGridline OR ca_BottomGridline) \<noteq> 0"

definition HasIdenticalVisualRepresentationForBlankSpace :: "TextAttribute \<Rightarrow> bool \<Rightarrow> TextAttribute \<Rightarrow> bool" where
  "HasIdenticalVisualRepresentationForBlankSpace other inverted a \<longleftrightarrow>
     (let checkForeground = (inverted \<noteq> IsReverseVideo a)
      in \<not> IsAnyGridLineEnabled a \<and> \<not> IsUnderlined a \<and> \<not> is_flag_set ca_CrossedOut a \<and> \<not> IsHyperlink a
         \<and> ta_attrs a = ta_attrs other
         \<and> (checkForeground \<and> ta_foreground a = ta_foreground other
            \<or> \<not> checkForeground \<and> ta_background a = ta_background other)
         \<and> IsHyperlink a = IsHyperlink other)"

subsection \<open>Legacy attributes\<close>

record LegacyDefaults =
  ld_foregroundMap :: "TextColor list"
  ld_backgroundMap :: "TextColor list"
  ld_legacyForeground :: byte
  ld_legacyBackground :: byte
  ld_ansiForeground :: byte
  ld_ansiBackground :: byte

definition initLegacyColorMap :: "byte \<Rightarrow> TextColor list" where
  "initLegacyColorMap defaultIndex =
     map (\<lambda>i. if i = unat defaultIndex then TextColor_default
              else TextColor_index (TransposeLegacyIndex (word_of_nat i)) True) [0..<16]"

definition LegacyDefaults_init :: LegacyDefaults where
  "LegacyDefaults_init =
     \<lparr>ld_foregroundMap = initLegacyColorMap 7, ld_backgroundMap = initLegacyColorMap 0,
      ld_legacyForeground = 7, ld_legacyBackground = 0, ld_ansiForeground = 7, ld_ansiBackground = 0\<rparr>"

definition FG_ATTRS :: "16 word" where "FG_ATTRS = 0x0F"
definition BG_ATTRS :: "16 word" where "BG_ATTRS = 0xF0"

definition SetLegacyDefaultAttributes :: "16 word \<Rightarrow> LegacyDefaults \<Rightarrow> LegacyDefaults" where
  "SetLegacyDefaultAttributes defaultAttributes ld =
     (let fgMap = (ld_foregroundMap ld)[unat (ld_legacyForeground ld) := TextColor_index (ld_ansiForeground ld) True];
          bgMap = (ld_backgroundMap ld)[unat (ld_legacyBackground ld) := TextColor_index (ld_ansiBackground ld) True];
          legacyFg = ucast (defaultAttributes AND FG_ATTRS);
          legacyBg = ucast (drop_bit 4 (defaultAttributes AND BG_ATTRS))
      in \<lparr>ld_foregroundMap = fgMap[unat legacyFg := TextColor_default],
          ld_backgroundMap = bgMap[unat legacyBg := TextColor_default],
          ld_legacyForeground = legacyFg, ld_legacyBackground = legacyBg,
          ld_ansiForeground = TransposeLegacyIndex (ucast legacyFg),
          ld_ansiBackground = TransposeLegacyIndex (ucast legacyBg)\<rparr>)"

definition TextAttribute_legacy :: "LegacyDefaults \<Rightarrow> 16 word \<Rightarrow> TextAttribute" where
  "TextAttribute_legacy ld wLegacyAttr =
     \<lparr>ta_attrs = wLegacyAttr AND USED_META_ATTRS, ta_hyperlinkId = 0,
      ta_foreground = ld_foregroundMap ld ! unat (wLegacyAttr AND FG_ATTRS),
      ta_background = ld_backgroundMap ld ! unat (drop_bit 4 (wLegacyAttr AND BG_ATTRS)),
      ta_underlineColor = TextColor_default, ta_markKind = MarkNone\<rparr>"

definition GetLegacyAttributes :: "LegacyDefaults \<Rightarrow> TextAttribute \<Rightarrow> 16 word" where
  "GetLegacyAttributes ld a =
     (let fgIndex = GetLegacyIndex (ld_legacyForeground ld) (ta_foreground a);
          bgIndex = GetLegacyIndex (ld_legacyBackground ld) (ta_background a);
          metaAttrs = ta_attrs a AND USED_META_ATTRS;
          brighten = IsIntense a \<and> CanBeBrightened (ta_foreground a)
      in ucast fgIndex OR push_bit 4 (ucast bgIndex) OR metaAttrs OR (if brighten then 0x08 else 0))"

subsection \<open>The tables\<close>

lemma legacy_tables:
  "length Index256ToIndex16 = 256" "length CompressedRgbToIndex16 = 256"
  "list_all (\<lambda>x. x < 16) Index256ToIndex16" "list_all (\<lambda>x. x < 16) CompressedRgbToIndex16"
  by (simp_all add: Index256ToIndex16_def CompressedRgbToIndex16_def)

lemma legacy_index_transposed:
  assumes "i < 16"
  shows "at_or_0 Index256ToIndex16 (unat (TransposeLegacyIndex (word_of_nat i))) = word_of_nat i"
proof -
  have "list_all (\<lambda>i. at_or_0 Index256ToIndex16 (unat (TransposeLegacyIndex (word_of_nat i))) = word_of_nat i) [0..<16]"
    by code_simp
  then show ?thesis using assms by (simp add: list_all_iff)
qed

lemma GetLegacyIndex_less:
  assumes "defaultIndex < 16"
  shows "GetLegacyIndex defaultIndex c < 16"
proof -
  have "at_or_0 xs n < 16" if "list_all (\<lambda>x. x < 16) xs" for xs :: "byte list" and n
    using that by (simp add: at_or_0_def list_all_length)
  then show ?thesis using assms legacy_tables(3,4) by (simp add: GetLegacyIndex_def split: ColorType.split)
qed

subsection \<open>Legacy attributes there and back\<close>

definition legacy_map_ok :: "TextColor list \<Rightarrow> byte \<Rightarrow> byte \<Rightarrow> bool" where
  "legacy_map_ok m legacy ansi \<longleftrightarrow>
     length m = 16 \<and> unat legacy < 16 \<and> ansi = TransposeLegacyIndex (ucast legacy)
     \<and> (\<forall>i < 16. m ! i = (if i = unat legacy then TextColor_default
                          else TextColor_index (TransposeLegacyIndex (word_of_nat i)) True))"

definition ld_ok :: "LegacyDefaults \<Rightarrow> bool" where
  "ld_ok ld \<longleftrightarrow>
     legacy_map_ok (ld_foregroundMap ld) (ld_legacyForeground ld) (ld_ansiForeground ld)
     \<and> legacy_map_ok (ld_backgroundMap ld) (ld_legacyBackground ld) (ld_ansiBackground ld)"

lemma legacy_map_update:
  assumes "legacy_map_ok m legacy ansi" and "unat new < 16"
  shows "legacy_map_ok (m[unat legacy := TextColor_index ansi True, unat new := TextColor_default]) new
    (TransposeLegacyIndex (ucast new))"
proof -
  have "ansi = TransposeLegacyIndex (word_of_nat (unat legacy))"
    using assms(1) by (simp add: legacy_map_ok_def of_nat_unat)
  then show ?thesis using assms by (auto simp: legacy_map_ok_def nth_list_update)
qed

lemma legacy_map_index:
  assumes "legacy_map_ok m legacy ansi" and "i < 16"
  shows "GetLegacyIndex legacy (m ! i) = word_of_nat i"
  using assms legacy_index_transposed [OF assms(2)]
  by (auto simp: legacy_map_ok_def GetLegacyIndex_def TextColor_default_def TextColor_index_def)

lemma low_nibbles:
  "unat ((w :: 16 word) AND FG_ATTRS) < 16" "unat (drop_bit 4 (w AND BG_ATTRS)) < 16"
proof -
  have "w AND FG_ATTRS = take_bit 4 w" by (simp add: FG_ATTRS_def take_bit_eq_mask mask_eq_exp_minus_1)
  then show "unat (w AND FG_ATTRS) < 16"
    by (simp add: unsigned_take_bit_eq take_bit_nat_less_exp [where n = 4, simplified])
  have "drop_bit 4 (w AND BG_ATTRS) = take_bit 4 (drop_bit 4 w)"
    by (simp add: BG_ATTRS_def take_bit_eq_mask mask_eq_exp_minus_1 drop_bit_and)
  then show "unat (drop_bit 4 (w AND BG_ATTRS)) < 16"
    by (simp add: unsigned_take_bit_eq take_bit_nat_less_exp [where n = 4, simplified])
qed

lemma ld_ok_init: "ld_ok LegacyDefaults_init"
proof -
  have "TransposeLegacyIndex 7 = 7" "TransposeLegacyIndex 0 = 0" by code_simp+
  then show ?thesis
    by (auto simp: ld_ok_def legacy_map_ok_def LegacyDefaults_init_def initLegacyColorMap_def)
qed

lemma ld_ok_set: "ld_ok ld \<Longrightarrow> ld_ok (SetLegacyDefaultAttributes w ld)"
proof -
  assume ok: "ld_ok ld"
  have u: "unat (ucast x :: byte) = unat x" if "unat x < 16" for x :: "16 word"
    using that by (simp add: unsigned_ucast_eq take_bit_nat_eq_self)
  have "unat (ucast (w AND FG_ATTRS) :: byte) < 16" "unat (ucast (drop_bit 4 (w AND BG_ATTRS)) :: byte) < 16"
    using low_nibbles [of w] by (simp_all add: u)
  then show ?thesis
    using ok by (simp add: ld_ok_def SetLegacyDefaultAttributes_def Let_def legacy_map_update)
qed

lemma legacy_word_split:
  "(w AND FG_ATTRS) OR push_bit 4 (drop_bit 4 (w AND BG_ATTRS)) OR (w AND USED_META_ATTRS)
     = w AND (FG_ATTRS OR BG_ATTRS OR USED_META_ATTRS)"
proof -
  have "push_bit 4 (drop_bit 4 (w AND BG_ATTRS)) = w AND BG_ATTRS"
  proof (rule bit_word_eqI)
    have bg: "BG_ATTRS = push_bit 4 0xF" by (simp add: BG_ATTRS_def)
    fix n :: nat assume "n < LENGTH(16)"
    moreover have "4 \<le> n" if "bit BG_ATTRS n" using that unfolding bg by (simp only: bit_push_bit_iff)
    ultimately show "bit (push_bit 4 (drop_bit 4 (w AND BG_ATTRS))) n \<longleftrightarrow> bit (w AND BG_ATTRS) n"
      by (auto simp: bit_push_bit_iff bit_drop_bit_eq bit_and_iff)
  qed
  then show ?thesis by (simp add: bit.conj_disj_distrib)
qed

lemma bright_lane: "bit (mm_cmpeq_epi32 a b) 31 \<longleftrightarrow> a = b"
  by (simp add: mm_cmpeq_epi32_def)

lemma packed_lane:
  "bit (word_of_int (max (- 32768) (min 32767 (sint (mm_cmpeq_epi32 a b)))) :: wchar) 7 \<longleftrightarrow> a = b"
  "bit (word_of_int (max (- 32768) (min 32767 (sint (mm_cmpeq_epi32 a b)))) :: wchar) 15 \<longleftrightarrow> a = b"
proof -
  have "sint (0xFFFFFFFF :: u32) = - 1" by simp
  then show "bit (word_of_int (max (- 32768) (min 32767 (sint (mm_cmpeq_epi32 a b)))) :: wchar) 7 \<longleftrightarrow> a = b"
    "bit (word_of_int (max (- 32768) (min 32767 (sint (mm_cmpeq_epi32 a b)))) :: wchar) 15 \<longleftrightarrow> a = b"
    by (simp_all add: mm_cmpeq_epi32_def)
qed

text \<open>The lowest set bit of a mask with equal bits per lane, against \<open>find\<close>.\<close>

lemma find_upt_bitScan:
  assumes "length xs = n"
  shows "find (\<lambda>i. P (xs ! i)) [0..<n] =
    (if True \<in> set (map P xs) then Some (bitScanForward (map P xs)) else None)"
  using assms
proof (induction xs arbitrary: n)
  case (Cons x xs)
  have shift: "find (\<lambda>i. P ((x # xs) ! i)) (map Suc is) = map_option Suc (find (\<lambda>i. P (xs ! i)) is)" for "is"
    by (induction "is") simp_all
  show ?case
    using Cons.IH [OF refl] Cons.prems shift [of "[0..<length xs]"]
    by (auto simp: upt_conv_Cons map_Suc_upt simp flip: Cons.prems simp del: upt_Suc)
qed simp

lemma bitScan_pairs: "True \<in> set bs \<Longrightarrow> bitScanForward (concat (map (\<lambda>b. [b, b]) bs)) div 2 = bitScanForward bs"
  by (induction bs) auto

lemma set_pairs: "set (concat (map (\<lambda>b. [b, b]) bs)) = set bs"
  by (induction bs) auto

subsection \<open>Properties\<close>

text \<open>
  C34. Legacy attributes survive the conversion to a \<open>TextAttribute\<close> and back: after any sequence of
  changes of the default attributes, every foreground, background and used meta bit of a legacy word
  is preserved, and the other bits are dropped.
\<close>

theorem legacy_attributes_roundtrip:
  "GetLegacyAttributes (fold SetLegacyDefaultAttributes changes LegacyDefaults_init)
     (TextAttribute_legacy (fold SetLegacyDefaultAttributes changes LegacyDefaults_init) w)
   = w AND (FG_ATTRS OR BG_ATTRS OR USED_META_ATTRS)"
proof -
  have "ld_ok ld \<Longrightarrow> ld_ok (fold SetLegacyDefaultAttributes changes ld)" for ld
    by (induction changes arbitrary: ld) (simp_all add: ld_ok_set)
  then have ok: "ld_ok (fold SetLegacyDefaultAttributes changes LegacyDefaults_init)" using ld_ok_init by blast
  define ld where "ld = fold SetLegacyDefaultAttributes changes LegacyDefaults_init"
  let ?a = "TextAttribute_legacy ld w"
  have u: "ucast (word_of_nat (unat x) :: byte) = x" if "unat x < 16" for x :: "16 word"
    using that by (simp add: word_unat_eq_iff unat_of_nat del: of_nat_unat)
  have maps: "legacy_map_ok (ld_foregroundMap ld) (ld_legacyForeground ld) (ld_ansiForeground ld)"
    "legacy_map_ok (ld_backgroundMap ld) (ld_legacyBackground ld) (ld_ansiBackground ld)"
    using ok by (simp_all add: ld_ok_def ld_def)
  have fg: "ucast (GetLegacyIndex (ld_legacyForeground ld) (ta_foreground ?a)) = w AND FG_ATTRS"
    using legacy_map_index [OF maps(1) low_nibbles(1) [of w]] u [OF low_nibbles(1)] by (simp add: TextAttribute_legacy_def)
  have bg: "ucast (GetLegacyIndex (ld_legacyBackground ld) (ta_background ?a)) = drop_bit 4 (w AND BG_ATTRS)"
    using legacy_map_index [OF maps(2) low_nibbles(2) [of w]] u [OF low_nibbles(2)]
    by (simp add: TextAttribute_legacy_def del: drop_bit_and)
  have meta: "ta_attrs ?a AND USED_META_ATTRS = w AND USED_META_ATTRS"
    by (simp add: TextAttribute_legacy_def and.assoc)
  have dim: "\<not> IsIntense ?a"
    by (simp add: IsIntense_def is_flag_set_def TextAttribute_legacy_def USED_META_ATTRS_def and.assoc)
  have "GetLegacyAttributes ld ?a = w AND (FG_ATTRS OR BG_ATTRS OR USED_META_ATTRS)"
    unfolding GetLegacyAttributes_def Let_def fg bg meta using dim legacy_word_split [of w] by (simp add: or.assoc)
  then show ?thesis by (simp add: ld_def)
qed

text \<open>
  The three searches for the bright version of a default colour that a build may select give the
  same colour, for every table that has the eight dark colours.
\<close>

theorem bright_searches_equivalent:
  assumes "8 \<le> length colorTable"
  shows "bright_avx2 colorTable c = bright_plain colorTable c
    \<and> bright_sse2 colorTable c = bright_plain colorTable c"
proof -
  let ?xs = "take 8 colorTable" and ?P = "\<lambda>x. x = c"
  define ms where "ms = map ?P ?xs"
  have "find (\<lambda>i. at_or_0 colorTable i = c) [0..<8] = find (\<lambda>i. ?P (?xs ! i)) [0..<8]"
    using assms by (intro find_cong) (auto simp: at_or_0_def)
  also have "\<dots> = (if True \<in> set (map ?P ?xs) then Some (bitScanForward (map ?P ?xs)) else None)"
    using assms by (intro find_upt_bitScan) simp
  finally have plain: "bright_plain colorTable c =
    (if True \<in> set (map ?P ?xs) then at_or_0 colorTable (bitScanForward (map ?P ?xs) + 8) else c)"
    by (simp add: bright_plain_def)
  have avx: "mm256_movemask_ps (map (\<lambda>l. mm_cmpeq_epi32 l c) ?xs) = map ?P ?xs"
    by (simp add: mm256_movemask_ps_def bright_lane)
  have split: "take 4 colorTable @ take 4 (drop 4 colorTable) = ?xs"
    using take_add [of 4 4 colorTable] by simp
  have "mm_movemask_epi8 (mm_packs_epi32 (map (\<lambda>l. mm_cmpeq_epi32 l c) (take 4 colorTable))
      (map (\<lambda>l. mm_cmpeq_epi32 l c) (take 4 (drop 4 colorTable)))) = concat (map (\<lambda>b. [b, b]) (map ?P ?xs))"
    unfolding split [symmetric] by (simp add: mm_movemask_epi8_def mm_packs_epi32_def packed_lane comp_def)
  with plain avx show ?thesis
    unfolding ms_def [symmetric] by (simp add: bright_avx2_def bright_sse2_def Let_def set_pairs bitScan_pairs del: set_concat)
qed

theorem bright_searches_equivalent_witness:
  "bright_sse2 (map word_of_nat [0..<267]) 5 = bright_plain (map word_of_nat [0..<267]) 5
   \<and> bright_plain (map word_of_nat [0..<267]) 5 = 13"
proof
  show "bright_sse2 (map word_of_nat [0..<267]) 5 = bright_plain (map word_of_nat [0..<267]) 5"
    using bright_searches_equivalent [of "map word_of_nat [0..<267]" 5] by simp
  show "bright_plain (map word_of_nat [0..<267]) 5 = 13" by code_simp
qed

end
