(* ===== verification/Vt_Types.thy ===== *)
theory Vt_Types
  imports Prelude
begin

text \<open>
  The vocabulary shared by the parser and the engines
  (\<open>src/src/terminal/adapter/DispatchTypes.hpp\<close> and \<open>src/src/terminal/parser/ascii.hpp\<close>): control
  characters, sequence identifiers (\<open>VTID\<close>), the builder that packs intermediates and the final
  character into an identifier (\<open>VTIDBuilder\<close>), and parameter lists with their sub-parameter
  ranges (\<open>VTParameter\<close>, \<open>VTSubParameters\<close>, \<open>VTParameters\<close>).

  The lemmas show that the identifier built incrementally by the parser is the one the engines'
  tables were written with, that identifiers determine the sequence of characters, and what a
  parameter reads as when it was omitted.
\<close>

subsection \<open>Control characters\<close>

text \<open>The enumerators of \<open>AsciiChars\<close> the modelled code uses.\<close>

abbreviation NUL :: wchar where "NUL \<equiv> 0x00"
abbreviation ENQ :: wchar where "ENQ \<equiv> 0x05"
abbreviation BEL :: wchar where "BEL \<equiv> 0x07"
abbreviation BS :: wchar where "BS \<equiv> 0x08"
abbreviation TAB :: wchar where "TAB \<equiv> 0x09"
abbreviation LF :: wchar where "LF \<equiv> 0x0A"
abbreviation VT :: wchar where "VT \<equiv> 0x0B"
abbreviation FF :: wchar where "FF \<equiv> 0x0C"
abbreviation CR :: wchar where "CR \<equiv> 0x0D"
abbreviation SO :: wchar where "SO \<equiv> 0x0E"
abbreviation SI :: wchar where "SI \<equiv> 0x0F"
abbreviation ETB :: wchar where "ETB \<equiv> 0x17"
abbreviation CAN :: wchar where "CAN \<equiv> 0x18"
abbreviation EM :: wchar where "EM \<equiv> 0x19"
abbreviation SUB :: wchar where "SUB \<equiv> 0x1A"
abbreviation ESC :: wchar where "ESC \<equiv> 0x1B"
abbreviation FS :: wchar where "FS \<equiv> 0x1C"
abbreviation US :: wchar where "US \<equiv> 0x1F"
abbreviation SPC :: wchar where "SPC \<equiv> 0x20"
abbreviation DEL :: wchar where "DEL \<equiv> 0x7F"

subsection \<open>Identifiers\<close>

type_synonym VTInt = int
type_synonym VTID = u64

definition VTID_from_value :: "u64 \<Rightarrow> VTID" where
  "VTID_from_value value = value AND 0x00FFFFFFFFFFFFFF"

text \<open>
  \<open>VTID::_FromString\<close> walks the literal from its last character to its first, shifting the
  value left by one byte before it adds the character: the first character ends up in the
  lowest byte.
\<close>

primrec VTID_FromString :: "string \<Rightarrow> VTID" where
  "VTID_FromString [] = 0"
| "VTID_FromString (c # cs) = push_bit 8 (VTID_FromString cs) + of_char c"

definition VTID_SubSequence :: "VTID \<Rightarrow> nat \<Rightarrow> VTID" where
  "VTID_SubSequence i offset = VTID_from_value (drop_bit (8 * offset) i)"

definition VTID_at :: "VTID \<Rightarrow> nat \<Rightarrow> u64" where
  "VTID_at i offset = VTID_SubSequence i offset AND 0xFF"

record VTIDBuilder =
  idAccumulator :: u64
  idShift :: nat

definition VTIDBuilder_Clear :: VTIDBuilder where
  "VTIDBuilder_Clear = \<lparr>idAccumulator = 0, idShift = 0\<rparr>"

definition VTIDBuilder_AddIntermediate :: "wchar \<Rightarrow> VTIDBuilder \<Rightarrow> VTIDBuilder" where
  "VTIDBuilder_AddIntermediate intermediateChar b =
     (if idShift b + 8 * 2 \<ge> 64 then b\<lparr>idAccumulator := 0\<rparr>
      else b\<lparr>idAccumulator := idAccumulator b + push_bit (idShift b) (ucast intermediateChar),
             idShift := idShift b + 8\<rparr>)"

definition VTIDBuilder_Finalize :: "wchar \<Rightarrow> VTIDBuilder \<Rightarrow> VTID" where
  "VTIDBuilder_Finalize finalChar b =
     VTID_from_value (idAccumulator b + push_bit (idShift b) (ucast finalChar))"

subsection \<open>Parameters\<close>

datatype VTParameter = VTParameter (param_value: VTInt)

definition VTParameter_default :: VTParameter where
  "VTParameter_default = VTParameter (- 1)"

definition VTParameter_has_value :: "VTParameter \<Rightarrow> bool" where
  "VTParameter_has_value p \<longleftrightarrow> param_value p \<ge> 0"

definition VTParameter_value_or :: "VTParameter \<Rightarrow> VTInt \<Rightarrow> VTInt" where
  "VTParameter_value_or p defaultValue = (if param_value p < 0 then defaultValue else param_value p)"

text \<open>The two conversion operators: to an enumeration, and to a number.\<close>

definition VTParameter_to_enum :: "VTParameter \<Rightarrow> VTInt" where
  "VTParameter_to_enum p = VTParameter_value_or p 0"

definition VTParameter_to_int :: "VTParameter \<Rightarrow> VTInt" where
  "VTParameter_to_int p = (if param_value p \<le> 0 then 1 else param_value p)"

text \<open>
  \<open>std::span::subspan\<close> has the precondition that the range lies inside the span: \<open>None\<close> is its
  violation.
\<close>

definition span_subspan :: "'a list \<Rightarrow> nat \<Rightarrow> nat \<Rightarrow> 'a list option" where
  "span_subspan xs offset count =
     (if offset + count \<le> length xs then Some (take count (drop offset xs)) else None)"

definition VTSubParameters_at :: "VTParameter list \<Rightarrow> nat \<Rightarrow> VTParameter" where
  "VTSubParameters_at sub index = (if index < length sub then sub ! index else VTParameter_default)"

record VTParameters =
  vp_params :: "VTParameter list"
  vp_subParams :: "VTParameter list"
  vp_subParamRanges :: "(byte \<times> byte) list"

definition VTParameters_plain :: "VTParameter list \<Rightarrow> VTParameters" where
  "VTParameters_plain ps = \<lparr>vp_params = ps, vp_subParams = [], vp_subParamRanges = []\<rparr>"

definition VTParameters_at :: "VTParameters \<Rightarrow> nat \<Rightarrow> VTParameter" where
  "VTParameters_at ps index =
     (if index < length (vp_params ps) then vp_params ps ! index else VTParameter_default)"

definition VTParameters_empty :: "VTParameters \<Rightarrow> bool" where
  "VTParameters_empty ps \<longleftrightarrow> vp_params ps = []"

definition VTParameters_size :: "VTParameters \<Rightarrow> nat" where
  "VTParameters_size ps = max (length (vp_params ps)) 1"

definition VTParameters_subspan :: "VTParameters \<Rightarrow> nat \<Rightarrow> VTParameters" where
  "VTParameters_subspan ps offset =
     \<lparr>vp_params = drop (min offset (length (vp_params ps))) (vp_params ps),
      vp_subParams = vp_subParams ps,
      vp_subParamRanges =
        drop (min offset (length (vp_subParamRanges ps))) (vp_subParamRanges ps)\<rparr>"

definition VTParameters_subParamsFor :: "VTParameters \<Rightarrow> nat \<Rightarrow> VTParameter list option" where
  "VTParameters_subParamsFor ps index =
     (if index < length (vp_subParamRanges ps)
      then (let range = vp_subParamRanges ps ! index
            in span_subspan (vp_subParams ps) (unat (fst range))
                 (nat (uint (snd range) - uint (fst range))))
      else Some [])"

definition VTParameters_hasSubParams :: "VTParameters \<Rightarrow> bool" where
  "VTParameters_hasSubParams ps \<longleftrightarrow> vp_subParams ps \<noteq> []"

definition VTParameters_hasSubParamsFor :: "VTParameters \<Rightarrow> nat \<Rightarrow> bool" where
  "VTParameters_hasSubParamsFor ps index =
     (if index < length (vp_subParamRanges ps)
      then (let range = vp_subParamRanges ps ! index in snd range > fst range)
      else False)"

text \<open>\<open>for_each\<close> passes the values its predicate is called with, in order.\<close>

definition VTParameters_for_each :: "VTParameters \<Rightarrow> VTParameter list" where
  "VTParameters_for_each ps =
     (if vp_params ps = [] then [VTParameter_default] else vp_params ps)"

subsection \<open>Parameters: omitted values\<close>

lemma VTParameters_for_each_length: "length (VTParameters_for_each ps) = VTParameters_size ps"
  by (cases "vp_params ps") (auto simp: VTParameters_for_each_def VTParameters_size_def)

lemma VTParameters_for_each_at:
  "i < VTParameters_size ps \<Longrightarrow> VTParameters_for_each ps ! i = VTParameters_at ps i"
  by (cases "vp_params ps")
    (auto simp: VTParameters_for_each_def VTParameters_size_def VTParameters_at_def)

lemma VTParameters_at_subspan:
  "VTParameters_at (VTParameters_subspan ps k) i = VTParameters_at ps (k + i)"
  by (auto simp: VTParameters_at_def VTParameters_subspan_def min_def add.commute)

lemma VTParameter_to_int_pos: "VTParameter_to_int p \<ge> 1"
  by (simp add: VTParameter_to_int_def)

subsection \<open>Identifiers: the builder against the literals\<close>

lemma VTID_FromString_append:
  "VTID_FromString (xs @ [f]) = VTID_FromString xs + push_bit (8 * length xs) (of_char f)"
proof (induction xs)
  case Nil
  then show ?case by simp
next
  case (Cons c xs)
  have "push_bit 8 (push_bit (8 * length xs) (of_char f)) =
      (push_bit (8 * length (c # xs)) (of_char f) :: u64)"
    by (simp add: push_bit_push_bit add.commute)
  with Cons show ?case by (simp add: push_bit_add)
qed

text \<open>The parser reads code units; \<open>wchar_of_char\<close> is the code unit of an ASCII character.\<close>

definition wchar_of_char :: "char \<Rightarrow> wchar" where
  "wchar_of_char c = of_char c"

lemma ucast_wchar_of_char [simp]: "(ucast (wchar_of_char c) :: u64) = of_char c"
  by (simp add: wchar_of_char_def ucast_of_char)

lemma VTIDBuilder_literal:
  assumes "length xs \<le> 6"
  shows "fold (VTIDBuilder_AddIntermediate \<circ> wchar_of_char) xs VTIDBuilder_Clear =
    \<lparr>idAccumulator = VTID_FromString xs, idShift = 8 * length xs\<rparr>"
  using assms
proof (induction xs rule: rev_induct)
  case Nil
  then show ?case by (simp add: VTIDBuilder_Clear_def)
next
  case (snoc c xs)
  then show ?case
    by (simp add: VTIDBuilder_AddIntermediate_def VTID_FromString_append)
qed

lemma unat_VTID_FromString:
  assumes "length xs \<le> 7"
  shows "unat (VTID_FromString xs) < 2 ^ (8 * length xs) \<and>
    (xs = c # cs \<longrightarrow> unat (VTID_FromString xs) = 256 * unat (VTID_FromString cs) + of_char c)"
  using assms
proof (induction xs arbitrary: c cs)
  case Nil
  then show ?case by simp
next
  case (Cons x xs)
  have IH: "unat (VTID_FromString xs) < 2 ^ (8 * length xs)"
    using Cons by simp
  have x: "(of_char x :: nat) < 256" by simp
  have step: "256 * unat (VTID_FromString xs) + of_char x < 2 ^ (8 * length (x # xs))"
  proof -
    have "unat (VTID_FromString xs) + 1 \<le> 2 ^ (8 * length xs)" using IH by simp
    then have "256 * (unat (VTID_FromString xs) + 1) \<le> 256 * 2 ^ (8 * length xs)" by simp
    then show ?thesis using x by (simp add: power_add del: nat_of_char_less_256)
  qed
  have "(2::nat) ^ (8 * length (x # xs)) \<le> 2 ^ 56"
    using Cons.prems by (intro power_increasing) auto
  with step have lt: "256 * unat (VTID_FromString xs) + of_char x < 2 ^ 64"
    by (rule order_less_trans [OF order_less_le_trans]) simp
  have "unat (push_bit 8 (VTID_FromString xs)) = 256 * unat (VTID_FromString xs)"
    using lt by (simp add: push_bit_eq_mult unat_word_ariths)
  then have "unat (VTID_FromString (x # xs)) = 256 * unat (VTID_FromString xs) + of_char x"
    using lt by (simp add: unat_word_ariths unat_of_char)
  with step show ?case by auto
qed

lemmas unat_VTID_FromString_lt = unat_VTID_FromString [THEN conjunct1]

lemma unat_VTID_FromString_Cons:
  "length cs \<le> 6 \<Longrightarrow>
     unat (VTID_FromString (c # cs)) = 256 * unat (VTID_FromString cs) + of_char c"
  using unat_VTID_FromString [of "c # cs" c cs] by simp

text \<open>The mask of the \<open>VTID\<close> constructor keeps every identifier of up to seven characters.\<close>

lemma VTID_from_value_id: "unat v < 2 ^ 56 \<Longrightarrow> VTID_from_value v = v"
proof -
  assume "unat v < 2 ^ 56"
  then have "unat (take_bit 56 v) = unat v"
    by (simp add: unsigned_take_bit_eq take_bit_nat_eq_self)
  then have "take_bit 56 v = v" by (simp only: word_unat_eq_iff)
  moreover have "(0x00FFFFFFFFFFFFFF :: u64) = mask 56"
    by (simp add: mask_eq_exp_minus_1)
  ultimately show ?thesis
    unfolding VTID_from_value_def by (metis take_bit_eq_mask)
qed

lemma VTID_FromString_masked:
  assumes "length xs \<le> 7"
  shows "VTID_from_value (VTID_FromString xs) = VTID_FromString xs"
proof -
  have "unat (VTID_FromString xs) < 2 ^ (8 * length xs)"
    using assms by (rule unat_VTID_FromString_lt)
  also have "\<dots> \<le> 2 ^ 56" using assms by (intro power_increasing) auto
  finally show ?thesis by (rule VTID_from_value_id)
qed

text \<open>
  The identifier the parser builds from the intermediates it collected and the final character is
  the literal the engines' tables spell.
\<close>

lemma Finalize_literal:
  assumes "length xs \<le> 6"
  shows "VTIDBuilder_Finalize (wchar_of_char f)
      (fold (VTIDBuilder_AddIntermediate \<circ> wchar_of_char) xs VTIDBuilder_Clear) =
    VTID_FromString (xs @ [f])"
  using assms VTID_FromString_masked [of "xs @ [f]"]
  by (simp add: VTIDBuilder_Finalize_def VTIDBuilder_literal VTID_FromString_append)

lemma of_char_0_iff: "(of_char c :: nat) = 0 \<longleftrightarrow> c = CHR 0x00"
proof -
  have "(of_char (CHR 0x00) :: nat) = 0" by simp
  then show ?thesis by (metis of_char_eq_iff)
qed

lemma VTID_FromString_eq_0_iff:
  "length xs \<le> 7 \<Longrightarrow> CHR 0x00 \<notin> set xs \<Longrightarrow> VTID_FromString xs = 0 \<longleftrightarrow> xs = []"
proof (cases xs)
  case (Cons d ds)
  assume "length xs \<le> 7" "CHR 0x00 \<notin> set xs"
  with Cons have "unat (VTID_FromString xs) \<noteq> 0"
    by (auto simp: unat_VTID_FromString_Cons of_char_0_iff simp del: VTID_FromString.simps)
  then show ?thesis using Cons by fastforce
qed simp

text \<open>Different literals (of at most seven non-null characters) are different identifiers.\<close>

lemma VTID_FromString_inj:
  assumes "length xs \<le> 7" "length ys \<le> 7" "CHR 0x00 \<notin> set xs" "CHR 0x00 \<notin> set ys"
    and "VTID_FromString xs = VTID_FromString ys"
  shows "xs = ys"
  using assms
proof (induction xs arbitrary: ys)
  case Nil
  then show ?case by (metis VTID_FromString_eq_0_iff VTID_FromString.simps(1))
next
  case (Cons c cs)
  then obtain d ds where ys: "ys = d # ds"
    by (metis VTID_FromString_eq_0_iff VTID_FromString.simps(1) neq_Nil_conv)
  have "unat (VTID_FromString (c # cs)) = unat (VTID_FromString (d # ds))"
    using Cons.prems(5) ys by (simp only:)
  then have "256 * unat (VTID_FromString cs) + of_char c =
      256 * unat (VTID_FromString ds) + (of_char d :: nat)"
    using Cons.prems(1,2) ys by (simp add: unat_VTID_FromString_Cons del: VTID_FromString.simps)
  from base256_unique [OF this] have "(of_char c :: nat) = of_char d"
    "unat (VTID_FromString cs) = unat (VTID_FromString ds)" by simp_all
  then have "c = d" and "VTID_FromString cs = VTID_FromString ds"
    by (simp_all only: of_char_eq_iff word_unat_eq_iff)
  with Cons ys show ?case by simp
qed

text \<open>
  More than six intermediates: the accumulator is reset, so that the six low bytes of the
  identifier are zero and it matches no literal.
\<close>

lemma AddIntermediate_overflow:
  "idShift b = 48 \<Longrightarrow>
     fold VTIDBuilder_AddIntermediate (c # cs) b = \<lparr>idAccumulator = 0, idShift = 48\<rparr>"
proof (induction cs arbitrary: c b)
  case Nil
  then show ?case by (cases b) (simp add: VTIDBuilder_AddIntermediate_def)
next
  case (Cons d ds)
  have "fold VTIDBuilder_AddIntermediate (d # ds) (VTIDBuilder_AddIntermediate c b) =
      \<lparr>idAccumulator = 0, idShift = 48\<rparr>"
    using Cons.prems by (intro Cons.IH) (simp add: VTIDBuilder_AddIntermediate_def)
  then show ?case by simp
qed

end
