(* ===== verification/Til_Enumset.thy ===== *)
theory Til_Enumset
  imports Prelude
begin

text \<open>
  The bit set of enumerators \<open>til::enumset\<close> (\<open>src/src/inc/til/enumset.h\<close>) with its default
  underlying type \<open>uintptr_t\<close>. A set is the word of its bits; an enumerator is its position.
  Every member function of the class is a definition here. The lemmas relate each of them to
  the set of positions that test true, and the set operations are the interface that the
  parser modes use.
\<close>

subsection \<open>Model\<close>

type_synonym enumset = u64

primrec enumset_to_underlying :: "nat list \<Rightarrow> u64" where
  "enumset_to_underlying [] = 0"
| "enumset_to_underlying (p # ps) = push_bit p 1 OR enumset_to_underlying ps"

definition enumset_from_bits :: "u64 \<Rightarrow> enumset" where
  "enumset_from_bits d = d"

definition enumset_of :: "nat list \<Rightarrow> enumset" where
  "enumset_of ps = enumset_to_underlying ps"

definition enumset_bits :: "enumset \<Rightarrow> u64" where
  "enumset_bits s = s"

definition enumset_test :: "enumset \<Rightarrow> nat \<Rightarrow> bool" where
  "enumset_test s p \<longleftrightarrow> s AND enumset_to_underlying [p] \<noteq> 0"

definition enumset_any :: "enumset \<Rightarrow> bool" where
  "enumset_any s \<longleftrightarrow> s \<noteq> 0"

definition enumset_any_of :: "enumset \<Rightarrow> nat list \<Rightarrow> bool" where
  "enumset_any_of s ps \<longleftrightarrow> s AND enumset_to_underlying ps \<noteq> 0"

definition enumset_all :: "enumset \<Rightarrow> bool" where
  "enumset_all s \<longleftrightarrow> s = NOT 0"

definition enumset_all_of :: "enumset \<Rightarrow> nat list \<Rightarrow> bool" where
  "enumset_all_of s ps \<longleftrightarrow>
     s AND enumset_to_underlying ps = enumset_to_underlying ps"

definition enumset_set :: "nat list \<Rightarrow> enumset \<Rightarrow> enumset" where
  "enumset_set ps s = s OR enumset_to_underlying ps"

text \<open>\<open>-val\<close> is the all-ones word for true and zero for false.\<close>

definition enumset_set_val :: "nat \<Rightarrow> bool \<Rightarrow> enumset \<Rightarrow> enumset" where
  "enumset_set_val p v s =
     (s AND NOT (enumset_to_underlying [p])) OR ((- of_bool v) AND enumset_to_underlying [p])"

definition enumset_reset :: "nat list \<Rightarrow> enumset \<Rightarrow> enumset" where
  "enumset_reset ps s = s AND NOT (enumset_to_underlying ps)"

definition enumset_flip :: "nat list \<Rightarrow> enumset \<Rightarrow> enumset" where
  "enumset_flip ps s = s XOR enumset_to_underlying ps"

subsection \<open>The positions of a set\<close>

lemmas word64_eq_iff = bit_eq_iff [where 'a = "64 word"]

lemma bit_to_underlying: "bit (enumset_to_underlying ps) n \<longleftrightarrow> n < 64 \<and> n \<in> set ps"
  by (induction ps) (auto simp: bit_simps)

lemma enumset_test_bit: "p < 64 \<Longrightarrow> enumset_test s p \<longleftrightarrow> bit s p"
  by (auto simp: enumset_test_def word64_eq_iff bit_and_iff bit_to_underlying
      simp del: enumset_to_underlying.simps)

lemma enumset_any_of_iff:
  assumes "\<forall>p \<in> set ps. p < 64"
  shows "enumset_any_of s ps \<longleftrightarrow> (\<exists>p \<in> set ps. enumset_test s p)"
  using assms
  by (auto simp: enumset_any_of_def enumset_test_bit word64_eq_iff bit_and_iff bit_to_underlying)

lemma enumset_all_of_iff:
  assumes "\<forall>p \<in> set ps. p < 64"
  shows "enumset_all_of s ps \<longleftrightarrow> (\<forall>p \<in> set ps. enumset_test s p)"
  using assms
  by (auto simp: enumset_all_of_def enumset_test_bit word64_eq_iff bit_and_iff bit_to_underlying)

lemma enumset_test_of [simp]: "p < 64 \<Longrightarrow> enumset_test (enumset_of ps) p \<longleftrightarrow> p \<in> set ps"
  by (simp add: enumset_test_bit enumset_of_def bit_to_underlying)

lemma enumset_test_set [simp]:
  "p < 64 \<Longrightarrow> enumset_test (enumset_set ps s) p \<longleftrightarrow> p \<in> set ps \<or> enumset_test s p"
  by (auto simp: enumset_test_bit enumset_set_def bit_or_iff bit_to_underlying)

lemma enumset_test_set_val [simp]:
  "p < 64 \<Longrightarrow> q < 64 \<Longrightarrow>
     enumset_test (enumset_set_val p v s) q \<longleftrightarrow> (if q = p then v else enumset_test s q)"
  by (cases v) (auto simp: enumset_test_bit enumset_set_val_def bit_simps bit_to_underlying
      simp del: enumset_to_underlying.simps)

lemma enumset_test_reset [simp]:
  "p < 64 \<Longrightarrow> enumset_test (enumset_reset ps s) p \<longleftrightarrow> p \<notin> set ps \<and> enumset_test s p"
  by (auto simp: enumset_test_bit enumset_reset_def bit_simps bit_to_underlying)

lemma enumset_test_flip [simp]:
  "p < 64 \<Longrightarrow> enumset_test (enumset_flip ps s) p \<longleftrightarrow> (p \<in> set ps) \<noteq> enumset_test s p"
  by (auto simp: enumset_test_bit enumset_flip_def bit_simps bit_to_underlying)

end
