(* ===== verification/Graphics_Rendition.thy ===== *)
theory Graphics_Rendition
  imports Text_Attribute Vt_Types Til_Enumset
begin

text \<open>
  Select graphic rendition: \<open>src/src/terminal/adapter/adaptDispatchGraphics.cpp\<close>, and the stack of saved
  renditions \<open>SgrStack\<close> of \<open>src/src/types/sgrStack.cpp\<close>. The operations work on the attributes of the
  active page, which are their argument and result here. Enumerators are the numbers of
  \<open>DispatchTypes.hpp\<close>.

  The lemmas give the meaning of every parameter list that is a sequence of complete options, show
  that rendition and protection do not interfere, and that the ring buffer of the stack is a stack
  of the ten latest entries.
\<close>

subsection \<open>SGR\<close>

text \<open>
  \<open>switch (option)\<close> on a \<open>VTParameter\<close> uses its conversion to a number, \<open>DispatchTypes::GraphicsOptions\<close>
  the conversion to an enumeration.
\<close>

definition SetUnderlineStyleHelper :: "VTParameter \<Rightarrow> TextAttribute \<Rightarrow> TextAttribute" where
  "SetUnderlineStyleHelper option attr =
     (let style = VTParameter_value_or option 0
      in if style \<ge> 0 \<and> style \<le> 5 then SetUnderlineStyle (nat style) attr else attr)"

definition byte_of :: "VTInt \<Rightarrow> byte" where
  "byte_of v = word_of_int v"

definition SetRgbColorsHelper :: "VTParameters \<Rightarrow> TextAttribute \<Rightarrow> bool \<Rightarrow> nat \<times> TextAttribute" where
  "SetRgbColorsHelper options attr isForeground =
     (let typeOpt = VTParameter_to_enum (VTParameters_at options 0)
      in if typeOpt = 2
         then (let red = VTParameter_value_or (VTParameters_at options 1) 0;
                   green = VTParameter_value_or (VTParameters_at options 2) 0;
                   blue = VTParameter_value_or (VTParameters_at options 3) 0
               in (4, if red \<le> 255 \<and> green \<le> 255 \<and> blue \<le> 255
                      then SetColor (RGB (byte_of red) (byte_of green) (byte_of blue)) isForeground attr
                      else attr))
         else if typeOpt = 5
         then (let tableIndex = VTParameter_value_or (VTParameters_at options 1) 0
               in (2, if tableIndex \<le> 255
                      then (let adjustedIndex = byte_of tableIndex
                            in if isForeground then attr\<lparr>ta_foreground := TextColor_index adjustedIndex True\<rparr>
                               else attr\<lparr>ta_background := TextColor_index adjustedIndex True\<rparr>)
                      else attr))
         else (1, attr))"

definition applyColor :: "VTInt \<Rightarrow> TextColor \<Rightarrow> TextAttribute \<Rightarrow> TextAttribute" where
  "applyColor colorItem color attr =
     (if colorItem = 38 then attr\<lparr>ta_foreground := color\<rparr>
      else if colorItem = 48 then attr\<lparr>ta_background := color\<rparr>
      else if colorItem = 58 then attr\<lparr>ta_underlineColor := color\<rparr>
      else attr)"

definition SetRgbColorsHelperFromSubParams :: "VTParameter \<Rightarrow> VTParameter list \<Rightarrow> TextAttribute \<Rightarrow> TextAttribute" where
  "SetRgbColorsHelperFromSubParams colorItem options attr =
     (let typeOpt = VTParameter_to_enum (VTSubParameters_at options 0)
      in if typeOpt = 2
         then (let validColorSpace = (VTParameter_value_or (VTSubParameters_at options 1) 0 = 0);
                   red = VTParameter_value_or (VTSubParameters_at options 2) 0;
                   green = VTParameter_value_or (VTSubParameters_at options 3) 0;
                   blue = VTParameter_value_or (VTSubParameters_at options 4) 0
               in if validColorSpace \<and> red \<le> 255 \<and> green \<le> 255 \<and> blue \<le> 255
                  then applyColor (VTParameter_to_int colorItem)
                         (TextColor_rgb (RGB (byte_of red) (byte_of green) (byte_of blue))) attr
                  else attr)
         else if typeOpt = 5
         then (let tableIndex = VTParameter_value_or (VTSubParameters_at options 1) 0
               in if tableIndex \<le> 255
                  then applyColor (VTParameter_to_int colorItem) (TextColor_index (byte_of tableIndex) True) attr
                  else attr)
         else attr)"

definition ApplyGraphicsOptionWithSubParams :: "VTParameter \<Rightarrow> VTParameter list \<Rightarrow> TextAttribute \<Rightarrow> TextAttribute" where
  "ApplyGraphicsOptionWithSubParams option subParams attr =
     (let opt = VTParameter_to_int option
      in if opt = 4 then SetUnderlineStyleHelper (VTSubParameters_at subParams 0) attr
         else if opt \<in> {38, 48, 58} then SetRgbColorsHelperFromSubParams option subParams attr
         else attr)"

text \<open>
  The cases of the \<open>switch\<close> that consume one option: the resets and flags, and the four ranges of
  indexed colours, whose enumerators are consecutive in the order of the colour indices.
\<close>

definition sgr_flag :: "VTInt \<Rightarrow> TextAttribute \<Rightarrow> TextAttribute" where
  "sgr_flag opt attr =
     (if opt = 0 then
        SetDefaultRenditionAttributes
          (attr\<lparr>ta_foreground := TextColor_default, ta_background := TextColor_default,
                ta_underlineColor := TextColor_default\<rparr>)
      else if opt = 39 then attr\<lparr>ta_foreground := TextColor_default\<rparr>
      else if opt = 49 then attr\<lparr>ta_background := TextColor_default\<rparr>
      else if opt = 59 then attr\<lparr>ta_underlineColor := TextColor_default\<rparr>
      else if opt = 1 then SetIntense True attr
      else if opt = 2 then SetFaint True attr
      else if opt = 22 then SetFaint False (SetIntense False attr)
      else if opt = 3 then SetItalic True attr
      else if opt = 23 then SetItalic False attr
      else if opt = 5 \<or> opt = 6 then SetBlinking True attr
      else if opt = 25 then SetBlinking False attr
      else if opt = 8 then SetInvisible True attr
      else if opt = 28 then SetInvisible False attr
      else if opt = 9 then SetCrossedOut True attr
      else if opt = 29 then SetCrossedOut False attr
      else if opt = 7 then SetReverseVideo True attr
      else if opt = 27 then SetReverseVideo False attr
      else if opt = 4 then SetUnderlineStyle 1 attr
      else if opt = 21 then SetUnderlineStyle 2 attr
      else if opt = 24 then SetUnderlineStyle 0 attr
      else if opt = 53 then SetOverlined True attr
      else if opt = 55 then SetOverlined False attr
      else attr)"

definition sgr_indexed :: "VTInt \<Rightarrow> TextAttribute \<Rightarrow> TextAttribute" where
  "sgr_indexed opt attr =
     (if 30 \<le> opt \<and> opt \<le> 37 then attr\<lparr>ta_foreground := TextColor_index (byte_of (opt - 30)) False\<rparr>
      else if 40 \<le> opt \<and> opt \<le> 47 then attr\<lparr>ta_background := TextColor_index (byte_of (opt - 40)) False\<rparr>
      else if 90 \<le> opt \<and> opt \<le> 97 then attr\<lparr>ta_foreground := TextColor_index (byte_of (opt - 90 + 8)) False\<rparr>
      else if 100 \<le> opt \<and> opt \<le> 107 then attr\<lparr>ta_background := TextColor_index (byte_of (opt - 100 + 8)) False\<rparr>
      else attr)"

text \<open>\<open>subParamsFor\<close> cannot fail on the parameters of the parser; a failing \<open>subspan\<close> ends the program.\<close>

definition ApplyGraphicsOption :: "VTParameters \<Rightarrow> nat \<Rightarrow> TextAttribute \<Rightarrow> (nat \<times> TextAttribute) option" where
  "ApplyGraphicsOption options optionIndex attr =
     (let opt = VTParameter_to_enum (VTParameters_at options optionIndex)
      in if VTParameters_hasSubParamsFor options optionIndex
         then (case VTParameters_subParamsFor options optionIndex of
                 None \<Rightarrow> None
               | Some subParams \<Rightarrow> Some (1, ApplyGraphicsOptionWithSubParams (VTParameter opt) subParams attr))
         else if opt = 38 \<or> opt = 48
         then (let (consumed, attr') = SetRgbColorsHelper (VTParameters_subspan options (optionIndex + 1)) attr (opt = 38)
               in Some (1 + consumed, attr'))
         else Some (1, sgr_indexed opt (sgr_flag opt attr)))"

lemma ApplyGraphicsOption_consumes: "ApplyGraphicsOption options i attr = Some (n, attr') \<Longrightarrow> 0 < n"
  by (auto simp: ApplyGraphicsOption_def Let_def split: if_splits option.splits prod.splits)

function ApplyGraphicsOptions_from :: "VTParameters \<Rightarrow> nat \<Rightarrow> TextAttribute \<Rightarrow> TextAttribute option" where
  "ApplyGraphicsOptions_from options i attr =
     (if i < VTParameters_size options
      then (case ApplyGraphicsOption options i attr of
              None \<Rightarrow> None
            | Some (n, attr') \<Rightarrow> ApplyGraphicsOptions_from options (i + n) attr')
      else Some attr)"
  by pat_completeness auto
termination
  by (relation "measure (\<lambda>(options, i, attr). VTParameters_size options - i)")
    (auto dest: ApplyGraphicsOption_consumes)

declare ApplyGraphicsOptions_from.simps [simp del]

definition ApplyGraphicsOptions :: "VTParameters \<Rightarrow> TextAttribute \<Rightarrow> TextAttribute option" where
  "ApplyGraphicsOptions options attr = ApplyGraphicsOptions_from options 0 attr"

text \<open>\<open>SetGraphicsRendition\<close> and \<open>SetCharacterProtectionAttribute\<close> on the attributes of the active page.\<close>

definition SetGraphicsRendition :: "VTParameters \<Rightarrow> TextAttribute \<Rightarrow> TextAttribute option" where
  "SetGraphicsRendition options attr = ApplyGraphicsOptions options attr"

definition protect_option :: "VTInt \<Rightarrow> TextAttribute \<Rightarrow> TextAttribute" where
  "protect_option opt attr =
     (if opt = 0 then SetProtected False attr
      else if opt = 1 then SetProtected True attr
      else if opt = 2 then SetProtected False attr
      else attr)"

definition SetCharacterProtectionAttribute :: "VTParameters \<Rightarrow> TextAttribute \<Rightarrow> TextAttribute" where
  "SetCharacterProtectionAttribute options attr =
     fold (\<lambda>i. protect_option (VTParameter_to_enum (VTParameters_at options i))) [0..<VTParameters_size options] attr"

subsection \<open>The stack of saved renditions\<close>

record SavedSgrAttributes =
  saved_TextAttributes :: TextAttribute
  saved_ValidParts :: enumset

record SgrStack =
  sgr_nextPushIndex :: nat
  sgr_numSavedAttrs :: nat
  sgr_storedSgrAttributes :: "SavedSgrAttributes list"

definition c_MaxStoredSgrPushes :: nat where
  "c_MaxStoredSgrPushes = 10"

definition SgrStack_init :: SgrStack where
  "SgrStack_init =
     \<lparr>sgr_nextPushIndex = 0, sgr_numSavedAttrs = 0,
      sgr_storedSgrAttributes =
        replicate c_MaxStoredSgrPushes \<lparr>saved_TextAttributes = TextAttribute_default, saved_ValidParts = 0\<rparr>\<rparr>"

definition sgr_validParts :: "VTParameters \<Rightarrow> enumset" where
  "sgr_validParts options =
     (if VTParameters_empty options then enumset_set [0] 0
      else fold (\<lambda>i parts. let option = VTParameter_value_or (VTParameters_at options i) 0
                           in if option > 0 \<and> option \<le> 31 then enumset_set [nat option] parts else parts)
             [0..<VTParameters_size options] 0)"

definition SgrStack_Push :: "TextAttribute \<Rightarrow> VTParameters \<Rightarrow> SgrStack \<Rightarrow> SgrStack" where
  "SgrStack_Push currentAttributes options s =
     (let saved = \<lparr>saved_TextAttributes = currentAttributes, saved_ValidParts = sgr_validParts options\<rparr>;
          capacity = length (sgr_storedSgrAttributes s)
      in s\<lparr>sgr_numSavedAttrs := (if sgr_numSavedAttrs s < capacity then sgr_numSavedAttrs s + 1 else sgr_numSavedAttrs s),
           sgr_storedSgrAttributes := (sgr_storedSgrAttributes s)[sgr_nextPushIndex s := saved],
           sgr_nextPushIndex := (sgr_nextPushIndex s + 1) mod capacity\<rparr>)"

definition combine_underline :: "enumset \<Rightarrow> TextAttribute \<Rightarrow> TextAttribute \<Rightarrow> TextAttribute" where
  "combine_underline validParts savedAttribute result =
     (let isUnderlinedValid = enumset_test validParts 4;
          isDoublyUnderlinedValid = enumset_test validParts 21;
          savedUl = GetUnderlineStyle savedAttribute
      in if isUnderlinedValid \<and> isDoublyUnderlinedValid then SetUnderlineStyle savedUl result
         else if isUnderlinedValid
         then (if savedUl \<noteq> 0 \<and> savedUl \<noteq> 2 then SetUnderlineStyle savedUl result
               else if GetUnderlineStyle result \<noteq> 2 then SetUnderlineStyle 0 result else result)
         else if isDoublyUnderlinedValid
         then (if savedUl = 2 then SetUnderlineStyle 2 result
               else if GetUnderlineStyle result = 2 then SetUnderlineStyle 0 result else result)
         else result)"

definition when_valid :: "enumset \<Rightarrow> nat \<Rightarrow> ('a \<Rightarrow> 'a) \<Rightarrow> 'a \<Rightarrow> 'a" where
  "when_valid validParts p f x = (if enumset_test validParts p then f x else x)"

definition CombineWithCurrentAttributes :: "TextAttribute \<Rightarrow> TextAttribute \<Rightarrow> enumset \<Rightarrow> TextAttribute" where
  "CombineWithCurrentAttributes currentAttributes savedAttribute validParts =
     (let r = currentAttributes;
          r = when_valid validParts 1 (SetIntense (IsIntense savedAttribute)) r;
          r = when_valid validParts 2 (SetFaint (IsFaint savedAttribute)) r;
          r = when_valid validParts 3 (SetItalic (IsItalic savedAttribute)) r;
          r = combine_underline validParts savedAttribute r;
          r = when_valid validParts 5 (SetBlinking (IsBlinking savedAttribute)) r;
          r = when_valid validParts 7 (SetReverseVideo (IsReverseVideo savedAttribute)) r;
          r = when_valid validParts 8 (SetInvisible (IsInvisible savedAttribute)) r;
          r = when_valid validParts 9 (SetCrossedOut (IsCrossedOut savedAttribute)) r;
          r = when_valid validParts 30 (\<lambda>r. r\<lparr>ta_foreground := ta_foreground savedAttribute\<rparr>) r;
          r = when_valid validParts 31 (\<lambda>r. r\<lparr>ta_background := ta_background savedAttribute\<rparr>) r
      in r)"

definition sgr_restore :: "SavedSgrAttributes \<Rightarrow> TextAttribute \<Rightarrow> TextAttribute" where
  "sgr_restore restoreMe currentAttributes =
     (if enumset_test (saved_ValidParts restoreMe) 0 then saved_TextAttributes restoreMe
      else CombineWithCurrentAttributes currentAttributes (saved_TextAttributes restoreMe) (saved_ValidParts restoreMe))"

definition SgrStack_Pop :: "TextAttribute \<Rightarrow> SgrStack \<Rightarrow> TextAttribute \<times> SgrStack" where
  "SgrStack_Pop currentAttributes s =
     (if sgr_numSavedAttrs s > 0
      then (let s' = s\<lparr>sgr_numSavedAttrs := sgr_numSavedAttrs s - 1,
                       sgr_nextPushIndex := (if sgr_nextPushIndex s = 0 then length (sgr_storedSgrAttributes s) - 1
                                             else sgr_nextPushIndex s - 1)\<rparr>
            in (sgr_restore (sgr_storedSgrAttributes s' ! sgr_nextPushIndex s') currentAttributes, s'))
      else (currentAttributes, s))"

definition PushGraphicsRendition :: "VTParameters \<Rightarrow> TextAttribute \<times> SgrStack \<Rightarrow> TextAttribute \<times> SgrStack" where
  "PushGraphicsRendition options s = (fst s, SgrStack_Push (fst s) options (snd s))"

definition PopGraphicsRendition :: "TextAttribute \<times> SgrStack \<Rightarrow> TextAttribute \<times> SgrStack" where
  "PopGraphicsRendition s = SgrStack_Pop (fst s) (snd s)"

subsection \<open>Flags\<close>

text \<open>Setting one of the flags below, or the underline style, leaves the others and the rest alone.\<close>

lemma bit_exp16: "k < 16 \<Longrightarrow> bit (2 ^ k :: 16 word) n \<longleftrightarrow> n = k"
  by (auto simp: bit_exp_iff)

lemma underline_mask: "(0x1C0 :: 16 word) = push_bit 6 (mask 3)"
  by (simp add: mask_eq_exp_minus_1)

lemma bit_underline_mask: "bit (push_bit 6 (mask 3) :: 16 word) n \<longleftrightarrow> 6 \<le> n \<and> n < 9"
  by (auto simp: bit_push_bit_iff bit_mask_iff)

lemma is_flag_set_exp: "k < 16 \<Longrightarrow> is_flag_set (2 ^ k) a \<longleftrightarrow> bit (ta_attrs a) k"
  unfolding is_flag_set_def bit_eq_iff bit_and_iff by (auto simp: bit_exp16)

lemma bit_update_flag:
  assumes "k < 16"
  shows "bit (ta_attrs (update_flag (2 ^ k) v a)) n \<longleftrightarrow> (if n = k then v else bit (ta_attrs a) n)"
proof -
  have "bit w n \<Longrightarrow> n < 16" for w :: "16 word" using bit_imp_le_length [of w n] by simp
  then show ?thesis using assms by (auto simp: update_flag_def bit_or_iff bit_and_iff bit_not_iff bit_exp16)
qed

lemmas flag_tests = IsIntense_def IsFaint_def IsItalic_def IsBlinking_def IsInvisible_def IsCrossedOut_def
  IsOverlined_def IsReverseVideo_def IsProtected_def

lemmas flag_updates = SetIntense_def SetFaint_def SetItalic_def SetBlinking_def SetInvisible_def SetCrossedOut_def
  SetOverlined_def SetReverseVideo_def SetProtected_def

lemma flag_bits:
  "IsIntense a \<longleftrightarrow> bit (ta_attrs a) 0" "IsItalic a \<longleftrightarrow> bit (ta_attrs a) 1" "IsBlinking a \<longleftrightarrow> bit (ta_attrs a) 2"
  "IsInvisible a \<longleftrightarrow> bit (ta_attrs a) 3" "IsCrossedOut a \<longleftrightarrow> bit (ta_attrs a) 4" "IsFaint a \<longleftrightarrow> bit (ta_attrs a) 5"
  "IsOverlined a \<longleftrightarrow> bit (ta_attrs a) 10" "IsProtected a \<longleftrightarrow> bit (ta_attrs a) 13" "IsReverseVideo a \<longleftrightarrow> bit (ta_attrs a) 14"
  using is_flag_set_exp [of 0 a] is_flag_set_exp [of 1 a] is_flag_set_exp [of 2 a] is_flag_set_exp [of 3 a]
    is_flag_set_exp [of 4 a] is_flag_set_exp [of 5 a] is_flag_set_exp [of 10 a] is_flag_set_exp [of 13 a]
    is_flag_set_exp [of 14 a]
  by (simp_all add: flag_tests)

lemma bit_flag_updates:
  "bit (ta_attrs (SetIntense v a)) n \<longleftrightarrow> (if n = 0 then v else bit (ta_attrs a) n)"
  "bit (ta_attrs (SetItalic v a)) n \<longleftrightarrow> (if n = 1 then v else bit (ta_attrs a) n)"
  "bit (ta_attrs (SetBlinking v a)) n \<longleftrightarrow> (if n = 2 then v else bit (ta_attrs a) n)"
  "bit (ta_attrs (SetInvisible v a)) n \<longleftrightarrow> (if n = 3 then v else bit (ta_attrs a) n)"
  "bit (ta_attrs (SetCrossedOut v a)) n \<longleftrightarrow> (if n = 4 then v else bit (ta_attrs a) n)"
  "bit (ta_attrs (SetFaint v a)) n \<longleftrightarrow> (if n = 5 then v else bit (ta_attrs a) n)"
  "bit (ta_attrs (SetOverlined v a)) n \<longleftrightarrow> (if n = 10 then v else bit (ta_attrs a) n)"
  "bit (ta_attrs (SetProtected v a)) n \<longleftrightarrow> (if n = 13 then v else bit (ta_attrs a) n)"
  "bit (ta_attrs (SetReverseVideo v a)) n \<longleftrightarrow> (if n = 14 then v else bit (ta_attrs a) n)"
  using bit_update_flag [of 0 v a n] bit_update_flag [of 1 v a n] bit_update_flag [of 2 v a n]
    bit_update_flag [of 3 v a n] bit_update_flag [of 4 v a n] bit_update_flag [of 5 v a n]
    bit_update_flag [of 10 v a n] bit_update_flag [of 13 v a n] bit_update_flag [of 14 v a n]
  by (simp_all add: flag_updates)

lemma bit_SetUnderlineStyle:
  assumes "style < 8"
  shows "bit (ta_attrs (SetUnderlineStyle style a)) n \<longleftrightarrow>
    (if 6 \<le> n \<and> n < 9 then bit style (n - 6) else bit (ta_attrs a) n)"
proof -
  have "take_bit 3 style = style" using assms by (simp add: take_bit_nat_eq_self)
  then have high: "bit style k \<Longrightarrow> k < 3" for k by (metis bit_take_bit_iff)
  have len: "bit (ta_attrs a) n \<Longrightarrow> n < 16" using bit_imp_le_length [of "ta_attrs a" n] by simp
  show ?thesis
    unfolding SetUnderlineStyle_def underline_mask
    using high [of "n - 6"] len
    by (auto simp: bit_simps)
qed

lemma GetUnderlineStyle_bit: "bit (GetUnderlineStyle a) k \<longleftrightarrow> k < 3 \<and> bit (ta_attrs a) (k + 6)"
  unfolding GetUnderlineStyle_def underline_mask
  by (auto simp: bit_unsigned_iff bit_drop_bit_eq bit_and_iff bit_underline_mask add.commute dest: bit_imp_le_length)

subsection \<open>Rendition and protection\<close>

text \<open>What a rendition does not touch.\<close>

definition unrendered :: "TextAttribute \<Rightarrow> bool \<times> 16 word \<times> MarkKind" where
  "unrendered a = (bit (ta_attrs a) 13, ta_hyperlinkId a, ta_markKind a)"

lemma update_flag_kept [simp]:
  "ta_foreground (update_flag f v a) = ta_foreground a" "ta_background (update_flag f v a) = ta_background a"
  "ta_underlineColor (update_flag f v a) = ta_underlineColor a" "ta_hyperlinkId (update_flag f v a) = ta_hyperlinkId a"
  "ta_markKind (update_flag f v a) = ta_markKind a"
  by (simp_all add: update_flag_def)

lemma SetUnderlineStyle_kept [simp]:
  "ta_foreground (SetUnderlineStyle n a) = ta_foreground a" "ta_background (SetUnderlineStyle n a) = ta_background a"
  "ta_underlineColor (SetUnderlineStyle n a) = ta_underlineColor a"
  "ta_hyperlinkId (SetUnderlineStyle n a) = ta_hyperlinkId a" "ta_markKind (SetUnderlineStyle n a) = ta_markKind a"
  by (simp_all add: SetUnderlineStyle_def)

lemma flag_updates_kept [simp]:
  "ta_hyperlinkId (SetIntense v a) = ta_hyperlinkId a" "ta_markKind (SetIntense v a) = ta_markKind a"
  "ta_hyperlinkId (SetItalic v a) = ta_hyperlinkId a" "ta_markKind (SetItalic v a) = ta_markKind a"
  "ta_hyperlinkId (SetBlinking v a) = ta_hyperlinkId a" "ta_markKind (SetBlinking v a) = ta_markKind a"
  "ta_hyperlinkId (SetInvisible v a) = ta_hyperlinkId a" "ta_markKind (SetInvisible v a) = ta_markKind a"
  "ta_hyperlinkId (SetCrossedOut v a) = ta_hyperlinkId a" "ta_markKind (SetCrossedOut v a) = ta_markKind a"
  "ta_hyperlinkId (SetFaint v a) = ta_hyperlinkId a" "ta_markKind (SetFaint v a) = ta_markKind a"
  "ta_hyperlinkId (SetOverlined v a) = ta_hyperlinkId a" "ta_markKind (SetOverlined v a) = ta_markKind a"
  "ta_hyperlinkId (SetReverseVideo v a) = ta_hyperlinkId a" "ta_markKind (SetReverseVideo v a) = ta_markKind a"
  "ta_foreground (SetProtected v a) = ta_foreground a" "ta_background (SetProtected v a) = ta_background a"
  "ta_underlineColor (SetProtected v a) = ta_underlineColor a"
  "ta_hyperlinkId (SetProtected v a) = ta_hyperlinkId a" "ta_markKind (SetProtected v a) = ta_markKind a"
  by (simp_all add: flag_updates)

lemma SetDefaultRendition_unrendered: "unrendered (SetDefaultRenditionAttributes a) = unrendered a"
proof -
  have "NOT ca_Rendition = 2 ^ 13" by (simp add: ca_Rendition_def)
  then have "bit (NOT ca_Rendition) n \<longleftrightarrow> n = 13" for n using bit_exp16 [of 13 n] by (simp only:)
  then show ?thesis
    by (simp add: unrendered_def SetDefaultRenditionAttributes_def bit_and_iff)
qed

lemma sgr_flag_unrendered: "unrendered (sgr_flag opt a) = unrendered a"
proof -
  have colours: "unrendered (a\<lparr>ta_foreground := x\<rparr>) = unrendered a" "unrendered (a\<lparr>ta_background := x\<rparr>) = unrendered a"
    "unrendered (a\<lparr>ta_underlineColor := x\<rparr>) = unrendered a" for a x
    by (simp_all add: unrendered_def)
  have flags: "unrendered (SetIntense v a) = unrendered a" "unrendered (SetFaint v a) = unrendered a"
    "unrendered (SetItalic v a) = unrendered a" "unrendered (SetBlinking v a) = unrendered a"
    "unrendered (SetInvisible v a) = unrendered a" "unrendered (SetCrossedOut v a) = unrendered a"
    "unrendered (SetReverseVideo v a) = unrendered a" "unrendered (SetOverlined v a) = unrendered a" for a v
    by (simp_all add: unrendered_def bit_flag_updates)
  have style: "unrendered (SetUnderlineStyle n a) = unrendered a" if "n < 8" for n a
    using that by (simp add: unrendered_def bit_SetUnderlineStyle)
  show ?thesis
    by (simp add: sgr_flag_def colours flags style SetDefaultRendition_unrendered)
qed

lemma sgr_indexed_unrendered: "unrendered (sgr_indexed opt a) = unrendered a"
  by (simp add: unrendered_def sgr_indexed_def)

lemma SetRgbColorsHelper_unrendered: "unrendered (snd (SetRgbColorsHelper ps a fg)) = unrendered a"
  by (simp add: unrendered_def SetRgbColorsHelper_def SetColor_def Let_def)

lemma applyColor_unrendered: "unrendered (applyColor i c a) = unrendered a"
  by (simp add: unrendered_def applyColor_def)

lemma SubParams_unrendered: "unrendered (ApplyGraphicsOptionWithSubParams p subs a) = unrendered a"
proof -
  have "unrendered (SetUnderlineStyleHelper q a) = unrendered a" for q
    by (auto simp: unrendered_def SetUnderlineStyleHelper_def Let_def bit_SetUnderlineStyle)
  then show ?thesis
    by (simp add: ApplyGraphicsOptionWithSubParams_def SetRgbColorsHelperFromSubParams_def Let_def applyColor_unrendered)
qed

lemma ApplyGraphicsOption_unrendered:
  "ApplyGraphicsOption ps i a = Some (n, a') \<Longrightarrow> unrendered a' = unrendered a"
  using SetRgbColorsHelper_unrendered [of "VTParameters_subspan ps (i + 1)" a]
  by (auto simp: ApplyGraphicsOption_def Let_def sgr_indexed_unrendered SubParams_unrendered sgr_flag_unrendered
      split: if_splits option.splits prod.splits) (metis snd_conv)+

lemma ApplyGraphicsOptions_unrendered:
  "ApplyGraphicsOptions_from ps i a = Some a' \<Longrightarrow> unrendered a' = unrendered a"
proof (induction ps i a rule: ApplyGraphicsOptions_from.induct)
  case (1 ps i a)
  show ?case
  proof (cases "i < VTParameters_size ps")
    case True
    with "1.prems" obtain n b where "ApplyGraphicsOption ps i a = Some (n, b)"
      "ApplyGraphicsOptions_from ps (i + n) b = Some a'"
      by (auto simp: ApplyGraphicsOptions_from.simps [of ps i a] split: option.splits)
    then show ?thesis using "1.IH" [OF True, of "(n, b)" n b] ApplyGraphicsOption_unrendered by simp
  next
    case False
    with "1.prems" show ?thesis by (simp add: ApplyGraphicsOptions_from.simps [of ps i a])
  qed
qed

lemma protect_options_kept:
  "\<exists>v. fold (\<lambda>i. protect_option (f i)) is a = a \<or> fold (\<lambda>i. protect_option (f i)) is a = SetProtected v a"
proof (induction "is" arbitrary: a)
  case (Cons i "is")
  have twice: "SetProtected v (SetProtected w a) = SetProtected v a" for v w a
  proof -
    have "ta_attrs (SetProtected v (SetProtected w a)) = ta_attrs (SetProtected v a)"
      by (simp add: bit_eq_iff bit_flag_updates)
    then show ?thesis by (simp add: SetProtected_def update_flag_def)
  qed
  have "protect_option (f i) a = a \<or> (\<exists>v. protect_option (f i) a = SetProtected v a)"
    by (auto simp: protect_option_def)
  with Cons.IH [of "protect_option (f i) a"] twice show ?case by (metis fold_simps(2))
qed simp

subsection \<open>The ring buffer is a bounded stack\<close>

text \<open>The contract of a stack that forgets its oldest entries, and what its client sees.\<close>

locale bounded_stack =
  fixes ok :: "'s \<Rightarrow> bool"
    and content :: "'s \<Rightarrow> 'e list"
    and push :: "'e \<Rightarrow> 's \<Rightarrow> 's"
    and pop :: "'s \<Rightarrow> 'e option \<times> 's"
    and cap :: nat
  assumes push_ok: "ok s \<Longrightarrow> ok (push e s)"
    and push_content: "ok s \<Longrightarrow> content (push e s) = take cap (e # content s)"
    and pop_ok: "ok s \<Longrightarrow> ok (snd (pop s))"
    and pop_content: "ok s \<Longrightarrow> content (snd (pop s)) = tl (content s)"
    and pop_top: "ok s \<Longrightarrow> fst (pop s) = (case content s of [] \<Rightarrow> None | e # es \<Rightarrow> Some e)"
begin

lemma pushes_content:
  "ok s \<Longrightarrow> length (content s) \<le> cap \<Longrightarrow>
     ok (fold push es s) \<and> content (fold push es s) = take cap (rev es @ content s)"
proof (induction es arbitrary: s)
  case (Cons e es)
  have "length (content (push e s)) \<le> cap" using push_content [OF Cons.prems(1), of e] by simp
  then have "ok (fold push es (push e s)) \<and> content (fold push es (push e s)) = take cap (rev es @ take cap (e # content s))"
    using Cons.IH [OF push_ok [OF Cons.prems(1)], of e] push_content [OF Cons.prems(1), of e] by simp
  moreover have "take cap (rev es @ take cap (e # content s)) = take cap (rev es @ e # content s)"
    by (simp add: min_def take_Cons')
  ultimately show ?case by simp
qed simp

primrec pops :: "nat \<Rightarrow> 's \<Rightarrow> 'e option list" where
  "pops 0 s = []"
| "pops (Suc n) s = fst (pop s) # pops n (snd (pop s))"

lemma pops_content: "ok s \<Longrightarrow> n \<le> length (content s) \<Longrightarrow> pops n s = map Some (take n (content s))"
proof (induction n arbitrary: s)
  case (Suc n)
  then obtain e es where c: "content s = e # es" by (cases "content s") auto
  then show ?case
    using Suc.IH [OF pop_ok [OF Suc.prems(1)]] Suc.prems pop_content [of s] pop_top [of s] by simp
qed simp

lemma last_in_first_out:
  assumes "ok s" and "length (content s) \<le> cap" and "n \<le> cap" and "n \<le> length es"
  shows "pops n (fold push es s) = map Some (take n (rev es))"
proof -
  have "ok (fold push es s)" "content (fold push es s) = take cap (rev es @ content s)"
    using pushes_content [OF assms(1,2), of es] by auto
  then show ?thesis using pops_content [of "fold push es s" n] assms(3,4) by (simp add: min_def)
qed

end

definition sgr_ok :: "SgrStack \<Rightarrow> bool" where
  "sgr_ok s \<longleftrightarrow> length (sgr_storedSgrAttributes s) = 10 \<and> sgr_nextPushIndex s < 10 \<and> sgr_numSavedAttrs s \<le> 10"

text \<open>The saved entries, the latest first.\<close>

definition sgr_content :: "SgrStack \<Rightarrow> SavedSgrAttributes list" where
  "sgr_content s =
     map (\<lambda>i. sgr_storedSgrAttributes s ! ((sgr_nextPushIndex s + 9 - i) mod 10)) [0..<sgr_numSavedAttrs s]"

definition sgr_push :: "SavedSgrAttributes \<Rightarrow> SgrStack \<Rightarrow> SgrStack" where
  "sgr_push e s =
     \<lparr>sgr_nextPushIndex = (sgr_nextPushIndex s + 1) mod 10, sgr_numSavedAttrs = min 10 (sgr_numSavedAttrs s + 1),
      sgr_storedSgrAttributes = (sgr_storedSgrAttributes s)[sgr_nextPushIndex s := e]\<rparr>"

definition sgr_pop :: "SgrStack \<Rightarrow> SavedSgrAttributes option \<times> SgrStack" where
  "sgr_pop s =
     (if sgr_numSavedAttrs s = 0 then (None, s)
      else (Some (sgr_storedSgrAttributes s ! ((sgr_nextPushIndex s + 9) mod 10)),
            s\<lparr>sgr_numSavedAttrs := sgr_numSavedAttrs s - 1, sgr_nextPushIndex := (sgr_nextPushIndex s + 9) mod 10\<rparr>))"

lemma SgrStack_Push_eq:
  "sgr_ok s \<Longrightarrow> SgrStack_Push a options s =
     sgr_push \<lparr>saved_TextAttributes = a, saved_ValidParts = sgr_validParts options\<rparr> s"
  by (simp add: SgrStack_Push_def sgr_push_def sgr_ok_def Let_def)

lemma SgrStack_Pop_eq:
  assumes "sgr_ok s"
  shows "SgrStack_Pop a s = (case fst (sgr_pop s) of None \<Rightarrow> a | Some e \<Rightarrow> sgr_restore e a, snd (sgr_pop s))"
proof -
  have "(if sgr_nextPushIndex s = 0 then 9 else sgr_nextPushIndex s - 1) = (sgr_nextPushIndex s + 9) mod 10"
    using assms by (auto simp: sgr_ok_def mod_if)
  then show ?thesis
    using assms by (cases "sgr_nextPushIndex s = 0") (simp_all add: SgrStack_Pop_def sgr_pop_def sgr_ok_def Let_def)
qed

lemma sgr_content_nth:
  "length (sgr_content s) = sgr_numSavedAttrs s"
  "i < sgr_numSavedAttrs s \<Longrightarrow>
     sgr_content s ! i = sgr_storedSgrAttributes s ! ((sgr_nextPushIndex s + 9 - i) mod 10)"
  by (simp_all add: sgr_content_def)

lemma sgr_push_index:
  assumes "p < 10" and "i < 10"
  shows "((p + 1) mod 10 + 9 - i) mod 10 = (p + 10 - i) mod (10 :: nat)"
proof (cases "p = 9")
  case True
  then show ?thesis using assms by (simp add: mod_if)
next
  case False
  then show ?thesis using assms by (simp add: add.commute)
qed

lemma sgr_push_content:
  assumes "sgr_ok s"
  shows "sgr_content (sgr_push e s) = take 10 (e # sgr_content s)"
proof (rule nth_equalityI)
  have num: "sgr_numSavedAttrs (sgr_push e s) = min 10 (sgr_numSavedAttrs s + 1)" by (simp add: sgr_push_def)
  then show "length (sgr_content (sgr_push e s)) = length (take 10 (e # sgr_content s))"
    by (simp add: sgr_content_nth min_def)
  fix i assume "i < length (sgr_content (sgr_push e s))"
  then have i: "i < 10" "i < sgr_numSavedAttrs s + 1" using num by (simp_all add: sgr_content_nth)
  let ?p = "sgr_nextPushIndex s"
  have p: "?p < 10" "length (sgr_storedSgrAttributes s) = 10" using assms by (auto simp: sgr_ok_def)
  have "sgr_content (sgr_push e s) ! i = (sgr_storedSgrAttributes s)[?p := e] ! ((?p + 10 - i) mod 10)"
    using i num sgr_push_index [OF p(1) i(1)] by (simp add: sgr_content_nth) (simp add: sgr_push_def)
  also have "\<dots> = (e # sgr_content s) ! i"
  proof (cases i)
    case (Suc k)
    have "(?p + 10 - i) mod 10 \<noteq> ?p" using p i Suc by (auto simp: mod_if)
    then show ?thesis using i Suc by (simp add: sgr_content_nth add.commute)
  qed (use p in simp)
  finally show "sgr_content (sgr_push e s) ! i = take 10 (e # sgr_content s) ! i" unfolding nth_take [OF i(1)] .
qed

lemma sgr_pop_content:
  assumes "sgr_ok s"
  shows "sgr_content (snd (sgr_pop s)) = tl (sgr_content s)"
    and "fst (sgr_pop s) = (case sgr_content s of [] \<Rightarrow> None | e # es \<Rightarrow> Some e)"
proof -
  let ?p = "sgr_nextPushIndex s"
  show "fst (sgr_pop s) = (case sgr_content s of [] \<Rightarrow> None | e # es \<Rightarrow> Some e)"
    by (cases "sgr_numSavedAttrs s") (simp_all add: sgr_pop_def sgr_content_def upt_conv_Cons del: upt_Suc)
  show "sgr_content (snd (sgr_pop s)) = tl (sgr_content s)"
  proof (cases "sgr_numSavedAttrs s")
    case (Suc n)
    have "((?p + 9) mod 10 + 9 - i) mod 10 = (?p + 9 - Suc i) mod 10" if "i < n" for i
      using that Suc assms by (auto simp: sgr_ok_def mod_if)
    then show ?thesis
      using Suc by (auto simp: sgr_pop_def sgr_content_def upt_conv_Cons map_Suc_upt [symmetric] simp del: upt_Suc)
  qed (simp add: sgr_pop_def sgr_content_def)
qed

interpretation sgr_ring: bounded_stack sgr_ok sgr_content sgr_push sgr_pop 10
proof
  show "sgr_ok s \<Longrightarrow> sgr_ok (sgr_push e s)" for s e by (simp add: sgr_ok_def sgr_push_def)
  show "sgr_ok s \<Longrightarrow> sgr_ok (snd (sgr_pop s))" for s by (auto simp: sgr_ok_def sgr_pop_def)
qed (simp_all add: sgr_push_content sgr_pop_content)

subsection \<open>Restoring\<close>

lemma fold_enumset_set:
  assumes "p < 64"
  shows "enumset_test (fold (\<lambda>i parts. if P i then enumset_set [f i] parts else parts) is parts) p
    \<longleftrightarrow> enumset_test parts p \<or> (\<exists>i \<in> set is. P i \<and> f i = p)"
  by (induction "is" arbitrary: parts) (auto simp: assms)

lemma sgr_validParts_test:
  assumes "\<not> VTParameters_empty ps" and "p < 64"
  shows "enumset_test (sgr_validParts ps) p \<longleftrightarrow> 0 < p \<and> p \<le> 31 \<and> VTParameter (int p) \<in> set (vp_params ps)"
proof -
  let ?opt = "\<lambda>i. VTParameter_value_or (VTParameters_at ps i) 0"
  have size: "VTParameters_size ps = length (vp_params ps)"
    using assms(1) by (cases "vp_params ps") (simp_all add: VTParameters_size_def VTParameters_empty_def)
  have zero: "\<not> enumset_test 0 p" using assms(2) by (simp add: enumset_test_bit)
  have "enumset_test (sgr_validParts ps) p \<longleftrightarrow> (\<exists>i < length (vp_params ps). (?opt i > 0 \<and> ?opt i \<le> 31) \<and> nat (?opt i) = p)"
    using assms fold_enumset_set [OF assms(2), of "\<lambda>i. ?opt i > 0 \<and> ?opt i \<le> 31" "\<lambda>i. nat (?opt i)"] zero
    by (auto simp: sgr_validParts_def Let_def size)
  also have "\<dots> \<longleftrightarrow> (\<exists>i < length (vp_params ps). 0 < p \<and> p \<le> 31 \<and> vp_params ps ! i = VTParameter (int p))"
  proof (rule iff_exI, rule conj_cong, rule refl)
    fix i assume "i < length (vp_params ps)"
    then show "(?opt i > 0 \<and> ?opt i \<le> 31) \<and> nat (?opt i) = p \<longleftrightarrow> 0 < p \<and> p \<le> 31 \<and> vp_params ps ! i = VTParameter (int p)"
      by (cases "vp_params ps ! i") (auto simp: VTParameters_at_def VTParameter_value_or_def)
  qed
  finally show ?thesis by (auto simp: in_set_conv_nth)
qed

lemma when_valid_flags:
  "bit (ta_attrs (when_valid vp p (SetIntense v) a)) n = (if n = 0 \<and> enumset_test vp p then v else bit (ta_attrs a) n)"
  "bit (ta_attrs (when_valid vp p (SetItalic v) a)) n = (if n = 1 \<and> enumset_test vp p then v else bit (ta_attrs a) n)"
  "bit (ta_attrs (when_valid vp p (SetBlinking v) a)) n = (if n = 2 \<and> enumset_test vp p then v else bit (ta_attrs a) n)"
  "bit (ta_attrs (when_valid vp p (SetInvisible v) a)) n = (if n = 3 \<and> enumset_test vp p then v else bit (ta_attrs a) n)"
  "bit (ta_attrs (when_valid vp p (SetCrossedOut v) a)) n = (if n = 4 \<and> enumset_test vp p then v else bit (ta_attrs a) n)"
  "bit (ta_attrs (when_valid vp p (SetFaint v) a)) n = (if n = 5 \<and> enumset_test vp p then v else bit (ta_attrs a) n)"
  "bit (ta_attrs (when_valid vp p (SetReverseVideo v) a)) n = (if n = 14 \<and> enumset_test vp p then v else bit (ta_attrs a) n)"
  "ta_attrs (when_valid vp p (\<lambda>r. r\<lparr>ta_foreground := c\<rparr>) a) = ta_attrs a"
  "ta_attrs (when_valid vp p (\<lambda>r. r\<lparr>ta_background := c\<rparr>) a) = ta_attrs a"
  by (simp_all add: when_valid_def bit_flag_updates)

lemma when_valid_colours:
  assumes "\<And>a. ta_foreground (f a) = ta_foreground a" and "\<And>a. ta_background (f a) = ta_background a"
  shows "ta_foreground (when_valid vp p f a) = ta_foreground a" "ta_background (when_valid vp p f a) = ta_background a"
  by (simp_all add: when_valid_def assms)

text \<open>The bits of the flags that a push can name, and the underline bits.\<close>

definition sgr_part :: "nat \<Rightarrow> nat option" where
  "sgr_part n = map_of [(0, 1), (1, 3), (2, 5), (3, 8), (4, 9), (5, 2), (14, 7)] n"

lemma GetUnderlineStyle_less: "GetUnderlineStyle a < 8"
proof -
  have "take_bit 3 (GetUnderlineStyle a) = GetUnderlineStyle a"
    by (rule bit_eqI) (auto simp: bit_take_bit_iff GetUnderlineStyle_bit)
  moreover have "take_bit 3 (GetUnderlineStyle a) < 2 ^ 3" by (rule take_bit_nat_less_exp)
  ultimately show ?thesis by simp
qed

lemma combine_underline_bits:
  "n < 6 \<or> 9 \<le> n \<Longrightarrow> bit (ta_attrs (combine_underline vp saved a)) n = bit (ta_attrs a) n"
  "ta_foreground (combine_underline vp saved a) = ta_foreground a"
  "ta_background (combine_underline vp saved a) = ta_background a"
  using GetUnderlineStyle_less [of saved]
  by (auto simp: combine_underline_def Let_def bit_SetUnderlineStyle)

lemma CombineWithCurrentAttributes_bits:
  assumes "n < 6 \<or> 9 \<le> n"
  shows "bit (ta_attrs (CombineWithCurrentAttributes a saved vp)) n =
    (case sgr_part n of Some p \<Rightarrow> if enumset_test vp p then bit (ta_attrs saved) n else bit (ta_attrs a) n
     | None \<Rightarrow> bit (ta_attrs a) n)"
proof -
  consider "n = 0" | "n = 1" | "n = 2" | "n = 3" | "n = 4" | "n = 5" | "n = 14"
    | "n \<notin> {0, 1, 2, 3, 4, 5, 14}" by fastforce
  then show ?thesis
    using assms
    by cases
      (simp_all add: CombineWithCurrentAttributes_def Let_def when_valid_flags combine_underline_bits
        flag_bits sgr_part_def)
qed


lemma CombineWithCurrentAttributes_colours:
  "ta_foreground (CombineWithCurrentAttributes a saved vp) =
     (if enumset_test vp 30 then ta_foreground saved else ta_foreground a)"
  "ta_background (CombineWithCurrentAttributes a saved vp) =
     (if enumset_test vp 31 then ta_background saved else ta_background a)"
proof -
  have "ta_foreground (when_valid vp p (\<lambda>r. r\<lparr>ta_background := c\<rparr>) b) = ta_foreground b"
    "ta_foreground (when_valid vp p (\<lambda>r. r\<lparr>ta_foreground := c\<rparr>) b) = (if enumset_test vp p then c else ta_foreground b)"
    "ta_background (when_valid vp p (\<lambda>r. r\<lparr>ta_background := c\<rparr>) b) = (if enumset_test vp p then c else ta_background b)"
    "ta_background (when_valid vp p (\<lambda>r. r\<lparr>ta_foreground := c\<rparr>) b) = ta_background b" for p c and b :: TextAttribute
    by (simp_all add: when_valid_def)
  then show
    "ta_foreground (CombineWithCurrentAttributes a saved vp) =
       (if enumset_test vp 30 then ta_foreground saved else ta_foreground a)"
    "ta_background (CombineWithCurrentAttributes a saved vp) =
       (if enumset_test vp 31 then ta_background saved else ta_background a)"
    by (simp_all add: CombineWithCurrentAttributes_def Let_def when_valid_colours combine_underline_bits flag_updates)
qed

subsection \<open>Properties\<close>

text \<open>
  Rendition and protection are independent: no SGR sequence, whatever its parameters, changes the
  protected attribute, the hyperlink or the mark of the attributes, also when it resets them; DECSCA
  changes nothing but the protected attribute.
\<close>

theorem rendition_protection_independent:
  "(SetGraphicsRendition ps a = Some a' \<longrightarrow>
      IsProtected a' = IsProtected a \<and> ta_hyperlinkId a' = ta_hyperlinkId a \<and> ta_markKind a' = ta_markKind a)
   \<and> (\<exists>v. SetCharacterProtectionAttribute ps a = a \<or> SetCharacterProtectionAttribute ps a = SetProtected v a)"
proof
  show "SetGraphicsRendition ps a = Some a' \<longrightarrow>
      IsProtected a' = IsProtected a \<and> ta_hyperlinkId a' = ta_hyperlinkId a \<and> ta_markKind a' = ta_markKind a"
    using ApplyGraphicsOptions_unrendered [of ps 0 a a']
    by (auto simp: SetGraphicsRendition_def ApplyGraphicsOptions_def unrendered_def flag_bits)
  show "\<exists>v. SetCharacterProtectionAttribute ps a = a \<or> SetCharacterProtectionAttribute ps a = SetProtected v a"
    unfolding SetCharacterProtectionAttribute_def by (rule protect_options_kept)
qed

theorem rendition_protection_independent_witness:
  "\<exists>a'. SetGraphicsRendition (VTParameters_plain [VTParameter 0]) (SetProtected True TextAttribute_default) = Some a'
     \<and> IsProtected a'"
proof -
  have "SetGraphicsRendition (VTParameters_plain [VTParameter 0]) (SetProtected True TextAttribute_default)
    = Some (SetProtected True TextAttribute_default)" by code_simp
  then show ?thesis
    using rendition_protection_independent [of "VTParameters_plain [VTParameter 0]" "SetProtected True TextAttribute_default"]
    by (auto simp: IsProtected_def is_flag_set_def SetProtected_def update_flag_def)
qed

text \<open>
  C33. The ring buffer of XTPUSHSGR and XTPOPSGR is a stack of the ten latest entries: a push puts an
  entry on top and drops the eleventh, a pop restores and removes the top entry, and pops of an empty
  stack change nothing. After any pushes, up to ten pops give the entries back in reverse order.
\<close>

theorem sgr_stack_refines:
  assumes "sgr_ok s"
  shows "(\<forall>a ps. sgr_ok (SgrStack_Push a ps s) \<and> sgr_content (SgrStack_Push a ps s) =
        take 10 (\<lparr>saved_TextAttributes = a, saved_ValidParts = sgr_validParts ps\<rparr> # sgr_content s))
    \<and> (\<forall>a. sgr_ok (snd (SgrStack_Pop a s)) \<and> sgr_content (snd (SgrStack_Pop a s)) = tl (sgr_content s)
        \<and> fst (SgrStack_Pop a s) = (case sgr_content s of [] \<Rightarrow> a | e # es \<Rightarrow> sgr_restore e a))
    \<and> (\<forall>es n. n \<le> 10 \<and> n \<le> length es \<longrightarrow> sgr_ring.pops n (fold sgr_push es s) = map Some (take n (rev es)))"
proof (intro conjI allI impI)
  fix a ps
  show "sgr_ok (SgrStack_Push a ps s)" "sgr_content (SgrStack_Push a ps s) =
      take 10 (\<lparr>saved_TextAttributes = a, saved_ValidParts = sgr_validParts ps\<rparr> # sgr_content s)"
    using sgr_ring.push_ok [OF assms] sgr_ring.push_content [OF assms] by (simp_all add: SgrStack_Push_eq [OF assms])
next
  fix a
  show "sgr_ok (snd (SgrStack_Pop a s))" "sgr_content (snd (SgrStack_Pop a s)) = tl (sgr_content s)"
    "fst (SgrStack_Pop a s) = (case sgr_content s of [] \<Rightarrow> a | e # es \<Rightarrow> sgr_restore e a)"
    using sgr_ring.pop_ok [OF assms] sgr_ring.pop_content [OF assms] sgr_ring.pop_top [OF assms]
    by (auto simp: SgrStack_Pop_eq [OF assms] split: list.splits)
next
  fix es :: "SavedSgrAttributes list" and n assume n: "n \<le> 10 \<and> n \<le> length es"
  have "length (sgr_content s) \<le> 10" using assms by (simp add: sgr_content_nth sgr_ok_def)
  with n show "sgr_ring.pops n (fold sgr_push es s) = map Some (take n (rev es))"
    using sgr_ring.last_in_first_out [OF assms] by blast
qed

theorem sgr_stack_refines_witness:
  "fst (SgrStack_Pop TextAttribute_default SgrStack_init) = TextAttribute_default \<and> sgr_content SgrStack_init = []"
proof -
  have "sgr_ok SgrStack_init" by (simp add: sgr_ok_def SgrStack_init_def c_MaxStoredSgrPushes_def)
  moreover have "sgr_content SgrStack_init = []" by (simp add: sgr_content_def SgrStack_init_def)
  ultimately show ?thesis using sgr_stack_refines [of SgrStack_init] by simp
qed

text \<open>
  What a pop restores: after XTPUSHSGR without parameters everything; after XTPUSHSGR with parameters
  exactly the parts they name. Every named flag and colour gets its saved value, every other flag and
  colour keeps its current value, whatever happened to the attributes in between; the underline style,
  which two parameters share, is left aside here.
\<close>

theorem sgr_push_pop_restores:
  fixes s a b ps n
  assumes "sgr_ok s" and "n < 6 \<or> 9 \<le> n"
  defines "r \<equiv> fst (SgrStack_Pop b (SgrStack_Push a ps s))"
  shows "(VTParameters_empty ps \<longrightarrow> r = a) \<and>
    (\<not> VTParameters_empty ps \<longrightarrow>
      bit (ta_attrs r) n = (case sgr_part n of
          Some p \<Rightarrow> if VTParameter (int p) \<in> set (vp_params ps) then bit (ta_attrs a) n else bit (ta_attrs b) n
        | None \<Rightarrow> bit (ta_attrs b) n)
      \<and> ta_foreground r = (if VTParameter 30 \<in> set (vp_params ps) then ta_foreground a else ta_foreground b)
      \<and> ta_background r = (if VTParameter 31 \<in> set (vp_params ps) then ta_background a else ta_background b))"
proof -
  let ?e = "\<lparr>saved_TextAttributes = a, saved_ValidParts = sgr_validParts ps\<rparr>"
  have r: "r = sgr_restore ?e b"
    using sgr_ring.push_ok [OF assms(1), of ?e] sgr_ring.push_content [OF assms(1), of ?e]
    by (simp add: r_def SgrStack_Push_eq [OF assms(1)] SgrStack_Pop_eq sgr_ring.pop_top)
  have parts: "p \<noteq> 0 \<and> p \<le> 31" if "sgr_part n = Some p" for p
    using that by (auto simp: sgr_part_def split: if_splits)
  have test: "enumset_test (sgr_validParts ps) p \<longleftrightarrow> 0 < p \<and> p \<le> 31 \<and> VTParameter (int p) \<in> set (vp_params ps)"
    if "\<not> VTParameters_empty ps" "p < 64" for p
    using sgr_validParts_test [OF that] .
  have all: "VTParameters_empty ps \<Longrightarrow> enumset_test (sgr_validParts ps) 0"
    by (simp add: sgr_validParts_def)
  show ?thesis
  proof (cases "VTParameters_empty ps")
    case True
    then show ?thesis using all by (simp add: r sgr_restore_def)
  next
    case False
    have "r = CombineWithCurrentAttributes b a (sgr_validParts ps)"
      using test [OF False, of 0] by (simp add: r sgr_restore_def)
    then show ?thesis
      using False parts
      by (auto simp: CombineWithCurrentAttributes_bits [OF assms(2)] CombineWithCurrentAttributes_colours test
          split: option.split)
  qed
qed

theorem sgr_push_pop_restores_witness:
  "IsIntense (fst (SgrStack_Pop TextAttribute_default
     (SgrStack_Push (SetIntense True TextAttribute_default) (VTParameters_plain [VTParameter 1]) SgrStack_init)))"
proof -
  have ok: "sgr_ok SgrStack_init" by (simp add: sgr_ok_def SgrStack_init_def c_MaxStoredSgrPushes_def)
  show ?thesis
    using sgr_push_pop_restores [OF ok, of 0 "VTParameters_plain [VTParameter 1]" TextAttribute_default
        "SetIntense True TextAttribute_default"]
    by (simp add: flag_bits VTParameters_empty_def VTParameters_plain_def sgr_part_def bit_flag_updates)
qed

end
