(* ===== verification/Vt_State_Machine.thy ===== *)
theory Vt_State_Machine
  imports Vt_Types Til_Enumset Control_Scan
begin

text \<open>
  The VT parser, \<open>StateMachine\<close> of \<open>src/src/terminal/parser/stateMachine.cpp\<close> and \<open>.hpp\<close>: its
  state as the record \<open>StateMachine\<close> (one field per member variable), one definition per action
  (\<open>sm_Action...\<close>), per state entry (\<open>sm_Enter...\<close>) and per event (\<open>sm_Event...\<close>), and the two
  entry points \<open>sm_ProcessCharacter\<close> and \<open>sm_ProcessString\<close>.

  The engine is the interface \<open>IStateMachineEngine\<close>: the record \<open>vt_env\<close> holds its virtual
  functions over an engine state \<open>'e\<close>. A virtual call is a function of the call, of what
  \<open>IsProcessingLastCharacter\<close> answers and of the engine state; it gives the new engine state, the
  calls it made back into the parser (\<open>SetParserMode\<close>, \<open>InjectSequence\<close>, \<open>OnCsiComplete\<close>), and
  its result, \<open>None\<close> when it threw. The string handler \<open>std::function\<close> a DCS dispatch returns is
  a value of type \<open>'h\<close>, the callback registered by \<open>OnCsiComplete\<close> one of type \<open>'k\<close>; the
  environment says what invoking them does.

  The field \<open>sm_fault\<close> is no member of the class: it records the first step whose C++
  precondition fails (\<open>back()\<close> of an empty vector, an empty \<open>std::function\<close>, \<open>front()\<close> of an empty
  view, an exception leaving the parser, or an unbounded \<open>FlushToTerminal\<close> recursion). The ETW
  tracing calls (\<open>_trace\<close>) have no effect on the state and are left out.
\<close>

subsection \<open>The engine interface\<close>

datatype Mode = AcceptC1 | Ansi

primrec Mode_position :: "Mode \<Rightarrow> nat" where
  "Mode_position AcceptC1 = 0"
| "Mode_position Ansi = 1"

datatype InjectionType = RIS | DECSET_FOCUS | W32IM

datatype engine_call =
    ActionExecute wchar
  | ActionExecuteFromEscape wchar
  | ActionPrint wchar
  | ActionPrintString wstring
  | ActionPassThroughString wstring
  | ActionEscDispatch VTID
  | ActionVt52EscDispatch VTID VTParameters
  | ActionCsiDispatch VTID VTParameters
  | ActionOscDispatch VTInt wstring
  | ActionSs3Dispatch wchar VTParameters

datatype 'k parser_request =
    SetParserMode Mode bool
  | InjectSequence InjectionType
  | OnCsiComplete 'k

datatype ('e, 'k, 'r) reply =
  Reply (reply_engine: 'e) (reply_requests: "'k parser_request list") (reply_result: "'r option")

subsection \<open>The state\<close>

datatype VTStates =
    Ground | Escape | EscapeIntermediate | CsiEntry | CsiIntermediate | CsiIgnore | CsiParam
  | CsiSubParam | OscParam | OscString | OscTermination | Ss3Entry | Ss3Param | Vt52Param
  | DcsEntry | DcsIgnore | DcsIntermediate | DcsParam | DcsPassThrough | SosPmApcString

datatype vt_fault =
    EmptyVectorBack | NullStringHandler | HandlerThrew | FlushRecursion | EmptyRunFront

record ('e, 'h, 'k) StateMachine =
  sm_engine :: 'e
  sm_isEngineForInput :: bool
  sm_state :: VTStates
  sm_parserMode :: enumset
  sm_currentString :: wstring
  sm_runOffset :: nat
  sm_runSize :: nat
  sm_identifier :: VTIDBuilder
  sm_parameters :: "VTParameter list"
  sm_parameterLimitOverflowed :: bool
  sm_subParameters :: "VTParameter list"
  sm_subParameterRanges :: "(byte \<times> byte) list"
  sm_subParameterLimitOverflowed :: bool
  sm_subParameterCounter :: byte
  sm_oscString :: wstring
  sm_oscParameter :: VTInt
  sm_dcsStringHandler :: "'h option"
  sm_cachedSequence :: "wstring option"
  sm_injections :: "(InjectionType \<times> nat) list"
  sm_processingLastCharacter :: bool
  sm_onCsiCompleteCallback :: "'k option"
  sm_fault :: "vt_fault option"

record ('e, 'h, 'k) vt_env =
  env_action :: "engine_call \<Rightarrow> bool \<Rightarrow> 'e \<Rightarrow> ('e, 'k, bool) reply"
  env_dcs :: "VTID \<Rightarrow> VTParameters \<Rightarrow> bool \<Rightarrow> 'e \<Rightarrow> ('e, 'k, 'h option) reply"
  env_handler :: "'h \<Rightarrow> wchar \<Rightarrow> bool \<Rightarrow> 'e \<Rightarrow> ('e, 'k, bool) reply"
  env_unknown :: "bool \<Rightarrow> 'e \<Rightarrow> ('e, 'k, unit) reply"
  env_win32 :: "'e \<Rightarrow> bool"
  env_callback :: "'k \<Rightarrow> ('e, 'h, 'k) StateMachine \<Rightarrow> ('e, 'h, 'k) StateMachine"
  env_stack :: nat

definition MAX_PARAMETER_VALUE :: VTInt where "MAX_PARAMETER_VALUE = 65535"
definition MAX_PARAMETER_COUNT :: nat where "MAX_PARAMETER_COUNT = 32"
definition MAX_SUBPARAMETER_COUNT :: nat where "MAX_SUBPARAMETER_COUNT = 6"

definition raise_fault :: "vt_fault \<Rightarrow> ('e, 'h, 'k) StateMachine \<Rightarrow> ('e, 'h, 'k) StateMachine" where
  "raise_fault f sm = (if sm_fault sm = None then sm\<lparr>sm_fault := Some f\<rparr> else sm)"

subsection \<open>Character classes\<close>

definition isNumericParamValue :: "wchar \<Rightarrow> bool" where
  "isNumericParamValue wch \<longleftrightarrow> wch \<ge> 0x30 \<and> wch \<le> 0x39"

definition isC0Code :: "wchar \<Rightarrow> bool" where
  "isC0Code wch \<longleftrightarrow> (wch \<ge> NUL \<and> wch \<le> ETB) \<or> wch = EM \<or> (wch \<ge> FS \<and> wch \<le> US)"

definition isC1ControlCharacter :: "wchar \<Rightarrow> bool" where
  "isC1ControlCharacter wch \<longleftrightarrow> wch \<ge> 0x80 \<and> wch \<le> 0x9F"

definition c1To7Bit :: "wchar \<Rightarrow> wchar" where
  "c1To7Bit wch = wch - 0x40"

definition isIntermediate :: "wchar \<Rightarrow> bool" where
  "isIntermediate wch \<longleftrightarrow> wch \<ge> 0x20 \<and> wch \<le> 0x2F"

definition isDelete :: "wchar \<Rightarrow> bool" where
  "isDelete wch \<longleftrightarrow> wch = DEL"

definition isEscape :: "wchar \<Rightarrow> bool" where
  "isEscape wch \<longleftrightarrow> wch = ESC"

definition isParameterDelimiter :: "wchar \<Rightarrow> bool" where
  "isParameterDelimiter wch \<longleftrightarrow> wch = 0x3B"

definition isSubParameterDelimiter :: "wchar \<Rightarrow> bool" where
  "isSubParameterDelimiter wch \<longleftrightarrow> wch = 0x3A"

definition isCsiIndicator :: "wchar \<Rightarrow> bool" where
  "isCsiIndicator wch \<longleftrightarrow> wch = 0x5B"

definition isCsiPrivateMarker :: "wchar \<Rightarrow> bool" where
  "isCsiPrivateMarker wch \<longleftrightarrow> wch = 0x3C \<or> wch = 0x3D \<or> wch = 0x3E \<or> wch = 0x3F"

definition isIntermediateInvalid :: "wchar \<Rightarrow> bool" where
  "isIntermediateInvalid wch \<longleftrightarrow> isNumericParamValue wch \<or> isSubParameterDelimiter wch \<or>
     isParameterDelimiter wch \<or> isCsiPrivateMarker wch"

definition isParameterInvalid :: "wchar \<Rightarrow> bool" where
  "isParameterInvalid wch \<longleftrightarrow> isCsiPrivateMarker wch"

definition isStringTerminatorIndicator :: "wchar \<Rightarrow> bool" where
  "isStringTerminatorIndicator wch \<longleftrightarrow> wch = 0x5C"

definition isSs3Indicator :: "wchar \<Rightarrow> bool" where
  "isSs3Indicator wch \<longleftrightarrow> wch = 0x4F"

definition isVt52CursorAddress :: "wchar \<Rightarrow> bool" where
  "isVt52CursorAddress wch \<longleftrightarrow> wch = 0x59"

definition isOscIndicator :: "wchar \<Rightarrow> bool" where
  "isOscIndicator wch \<longleftrightarrow> wch = 0x5D"

definition isOscDelimiter :: "wchar \<Rightarrow> bool" where
  "isOscDelimiter wch \<longleftrightarrow> wch = 0x3B"

definition isOscInvalid :: "wchar \<Rightarrow> bool" where
  "isOscInvalid wch \<longleftrightarrow> wch \<le> 0x17 \<or> wch = 0x19 \<or> (wch \<ge> 0x1c \<and> wch \<le> 0x1f)"

definition isOscTerminator :: "wchar \<Rightarrow> bool" where
  "isOscTerminator wch \<longleftrightarrow> wch = BEL"

definition isDcsIndicator :: "wchar \<Rightarrow> bool" where
  "isDcsIndicator wch \<longleftrightarrow> wch = 0x50"

definition isDcsPassThroughValid :: "wchar \<Rightarrow> bool" where
  "isDcsPassThroughValid wch \<longleftrightarrow> wch \<ge> SPC \<and> wch < DEL"

definition isSosIndicator :: "wchar \<Rightarrow> bool" where
  "isSosIndicator wch \<longleftrightarrow> wch = 0x58"

definition isPmIndicator :: "wchar \<Rightarrow> bool" where
  "isPmIndicator wch \<longleftrightarrow> wch = 0x5E"

definition isApcIndicator :: "wchar \<Rightarrow> bool" where
  "isApcIndicator wch \<longleftrightarrow> wch = 0x5F"

lemmas char_class_defs = isNumericParamValue_def isC0Code_def isC1ControlCharacter_def
  isIntermediate_def isDelete_def isEscape_def isParameterDelimiter_def
  isSubParameterDelimiter_def isCsiIndicator_def isCsiPrivateMarker_def
  isIntermediateInvalid_def isParameterInvalid_def isStringTerminatorIndicator_def
  isSs3Indicator_def isVt52CursorAddress_def isOscIndicator_def isOscDelimiter_def
  isOscInvalid_def isOscTerminator_def isDcsIndicator_def isDcsPassThroughValid_def
  isSosIndicator_def isPmIndicator_def isApcIndicator_def

subsection \<open>Parser modes, the current run and calls back into the parser\<close>

definition sm_SetParserMode ::
    "Mode \<Rightarrow> bool \<Rightarrow> ('e, 'h, 'k) StateMachine \<Rightarrow> ('e, 'h, 'k) StateMachine" where
  "sm_SetParserMode mode enabled sm =
     sm\<lparr>sm_parserMode := enumset_set_val (Mode_position mode) enabled (sm_parserMode sm)\<rparr>"

definition sm_GetParserMode :: "Mode \<Rightarrow> ('e, 'h, 'k) StateMachine \<Rightarrow> bool" where
  "sm_GetParserMode mode sm = enumset_test (sm_parserMode sm) (Mode_position mode)"

definition sm_InjectSequence ::
    "InjectionType \<Rightarrow> ('e, 'h, 'k) StateMachine \<Rightarrow> ('e, 'h, 'k) StateMachine" where
  "sm_InjectSequence type sm =
     sm\<lparr>sm_injections := sm_injections sm @ [(type, sm_runOffset sm + sm_runSize sm)]\<rparr>"

definition sm_OnCsiComplete :: "'k \<Rightarrow> ('e, 'h, 'k) StateMachine \<Rightarrow> ('e, 'h, 'k) StateMachine" where
  "sm_OnCsiComplete callback sm = sm\<lparr>sm_onCsiCompleteCallback := Some callback\<rparr>"

definition sm_CurrentRun :: "('e, 'h, 'k) StateMachine \<Rightarrow> wstring" where
  "sm_CurrentRun sm = take (sm_runSize sm) (drop (sm_runOffset sm) (sm_currentString sm))"

primrec sm_request ::
    "'k parser_request \<Rightarrow> ('e, 'h, 'k) StateMachine \<Rightarrow> ('e, 'h, 'k) StateMachine" where
  "sm_request (SetParserMode m b) = sm_SetParserMode m b"
| "sm_request (InjectSequence t) = sm_InjectSequence t"
| "sm_request (OnCsiComplete k) = sm_OnCsiComplete k"

definition sm_reply ::
    "('e, 'k, 'r) reply \<Rightarrow> ('e, 'h, 'k) StateMachine \<Rightarrow> 'r option \<times> ('e, 'h, 'k) StateMachine" where
  "sm_reply r sm =
     (reply_result r, fold sm_request (reply_requests r) (sm\<lparr>sm_engine := reply_engine r\<rparr>))"

definition sm_call ::
    "('e, 'h, 'k) vt_env \<Rightarrow> engine_call \<Rightarrow> ('e, 'h, 'k) StateMachine \<Rightarrow>
     bool option \<times> ('e, 'h, 'k) StateMachine" where
  "sm_call env c sm = sm_reply (env_action env c (sm_processingLastCharacter sm) (sm_engine sm)) sm"

subsection \<open>Safe execution and flushing\<close>

text \<open>
  \<open>_SafeExecute\<close> calls the engine; when it answers false the pending text is flushed, and an
  exception counts as a failure without a flush. \<open>FlushToTerminal\<close> hands the text to the engine
  through \<open>_SafeExecute\<close>, so an engine that refuses the text recurses: the first argument bounds
  the depth, and running out of it is the fault \<open>FlushRecursion\<close>.
\<close>

definition sm_SafeExecute_via ::
    "(('e, 'h, 'k) StateMachine \<Rightarrow> bool \<times> ('e, 'h, 'k) StateMachine) \<Rightarrow> ('e, 'h, 'k) vt_env \<Rightarrow>
     engine_call \<Rightarrow> ('e, 'h, 'k) StateMachine \<Rightarrow> bool \<times> ('e, 'h, 'k) StateMachine" where
  "sm_SafeExecute_via flush env c sm =
     (case sm_call env c sm of
        (Some ok, sm') \<Rightarrow> if ok then (True, sm') else (False, snd (flush sm'))
      | (None, sm') \<Rightarrow> (False, sm'))"

primrec sm_FlushToTerminal ::
    "nat \<Rightarrow> ('e, 'h, 'k) vt_env \<Rightarrow> ('e, 'h, 'k) StateMachine \<Rightarrow> bool \<times> ('e, 'h, 'k) StateMachine" where
  "sm_FlushToTerminal 0 env sm = (False, raise_fault FlushRecursion sm)"
| "sm_FlushToTerminal (Suc n) env sm =
     (let (success, sm1) =
        (case sm_cachedSequence sm of
           Some seq \<Rightarrow>
             (let (ok, sm') =
                sm_SafeExecute_via (sm_FlushToTerminal n env) env (ActionPassThroughString seq) sm
              in (ok, sm'\<lparr>sm_cachedSequence := None\<rparr>))
         | None \<Rightarrow> (True, sm))
      in if success
         then sm_SafeExecute_via (sm_FlushToTerminal n env) env
                (ActionPassThroughString (sm_CurrentRun sm1)) sm1
         else (success, sm1))"

definition sm_SafeExecute ::
    "('e, 'h, 'k) vt_env \<Rightarrow> engine_call \<Rightarrow> ('e, 'h, 'k) StateMachine \<Rightarrow>
     bool \<times> ('e, 'h, 'k) StateMachine" where
  "sm_SafeExecute env = sm_SafeExecute_via (sm_FlushToTerminal (env_stack env) env) env"

subsection \<open>Actions\<close>

definition sm_ActionExecute ::
    "('e, 'h, 'k) vt_env \<Rightarrow> wchar \<Rightarrow> ('e, 'h, 'k) StateMachine \<Rightarrow> ('e, 'h, 'k) StateMachine" where
  [vt_defs]: "sm_ActionExecute env wch sm = snd (sm_SafeExecute env (ActionExecute wch) sm)"

definition sm_ActionExecuteFromEscape ::
    "('e, 'h, 'k) vt_env \<Rightarrow> wchar \<Rightarrow> ('e, 'h, 'k) StateMachine \<Rightarrow> ('e, 'h, 'k) StateMachine" where
  [vt_defs]: "sm_ActionExecuteFromEscape env wch sm =
     snd (sm_SafeExecute env (ActionExecuteFromEscape wch) sm)"

definition sm_ActionPrint ::
    "('e, 'h, 'k) vt_env \<Rightarrow> wchar \<Rightarrow> ('e, 'h, 'k) StateMachine \<Rightarrow> ('e, 'h, 'k) StateMachine" where
  [vt_defs]: "sm_ActionPrint env wch sm = snd (sm_SafeExecute env (ActionPrint wch) sm)"

definition sm_ActionPrintString ::
    "('e, 'h, 'k) vt_env \<Rightarrow> wstring \<Rightarrow> ('e, 'h, 'k) StateMachine \<Rightarrow> ('e, 'h, 'k) StateMachine" where
  [vt_defs]: "sm_ActionPrintString env string sm =
     snd (sm_SafeExecute env (ActionPrintString string) sm)"

definition sm_ActionEscDispatch ::
    "('e, 'h, 'k) vt_env \<Rightarrow> wchar \<Rightarrow> ('e, 'h, 'k) StateMachine \<Rightarrow> ('e, 'h, 'k) StateMachine" where
  [vt_defs]: "sm_ActionEscDispatch env wch sm =
     snd (sm_SafeExecute env (ActionEscDispatch (VTIDBuilder_Finalize wch (sm_identifier sm))) sm)"

definition sm_ActionVt52EscDispatch ::
    "('e, 'h, 'k) vt_env \<Rightarrow> wchar \<Rightarrow> ('e, 'h, 'k) StateMachine \<Rightarrow> ('e, 'h, 'k) StateMachine" where
  [vt_defs]: "sm_ActionVt52EscDispatch env wch sm =
     snd (sm_SafeExecute env (ActionVt52EscDispatch (VTIDBuilder_Finalize wch (sm_identifier sm))
       (VTParameters_plain (sm_parameters sm))) sm)"

definition sm_csiParameters :: "('e, 'h, 'k) StateMachine \<Rightarrow> VTParameters" where
  "sm_csiParameters sm =
     \<lparr>vp_params = sm_parameters sm, vp_subParams = sm_subParameters sm,
      vp_subParamRanges = sm_subParameterRanges sm\<rparr>"

definition sm_ActionCsiDispatch ::
    "('e, 'h, 'k) vt_env \<Rightarrow> wchar \<Rightarrow> ('e, 'h, 'k) StateMachine \<Rightarrow> ('e, 'h, 'k) StateMachine" where
  [vt_defs]: "sm_ActionCsiDispatch env wch sm =
     snd (sm_SafeExecute env (ActionCsiDispatch (VTIDBuilder_Finalize wch (sm_identifier sm))
       (sm_csiParameters sm)) sm)"

definition sm_ActionCollect :: "wchar \<Rightarrow> ('e, 'h, 'k) StateMachine \<Rightarrow> ('e, 'h, 'k) StateMachine" where
  [vt_defs]: "sm_ActionCollect wch sm =
     sm\<lparr>sm_identifier := VTIDBuilder_AddIntermediate wch (sm_identifier sm)\<rparr>"

text \<open>\<open>L'0'\<close> is subtracted as an \<open>int\<close>, so a character below it gives a negative digit.\<close>

definition AccumulateTo :: "wchar \<Rightarrow> VTInt \<Rightarrow> VTInt" where
  "AccumulateTo wch value =
     (let digit = uint wch - 0x30; value' = value * 10 + digit
      in if value' > MAX_PARAMETER_VALUE then MAX_PARAMETER_VALUE else value')"

text \<open>The test "no parameters yet" that opens both \<open>_ActionParam\<close> and \<open>_ActionSubParam\<close>.\<close>

definition sm_firstParam :: "('e, 'h, 'k) StateMachine \<Rightarrow> ('e, 'h, 'k) StateMachine" where
  [vt_defs]: "sm_firstParam sm =
     (if sm_parameters sm = []
      then (let rangeStart = word_of_nat (length (sm_subParameters sm)) :: byte
            in sm\<lparr>sm_parameters := [VTParameter_default],
                  sm_subParameterRanges := sm_subParameterRanges sm @ [(rangeStart, rangeStart)]\<rparr>)
      else sm)"

definition sm_nextParam :: "('e, 'h, 'k) StateMachine \<Rightarrow> ('e, 'h, 'k) StateMachine" where
  [vt_defs]: "sm_nextParam sm =
     (let rangeStart = word_of_nat (length (sm_subParameters sm)) :: byte
      in sm\<lparr>sm_parameters := sm_parameters sm @ [VTParameter_default],
            sm_subParameterCounter := 0,
            sm_subParameterLimitOverflowed := False,
            sm_subParameterRanges := sm_subParameterRanges sm @ [(rangeStart, rangeStart)]\<rparr>)"

definition sm_ActionParam :: "wchar \<Rightarrow> ('e, 'h, 'k) StateMachine \<Rightarrow> ('e, 'h, 'k) StateMachine" where
  "sm_ActionParam wch sm0 =
     (if sm_parameterLimitOverflowed sm0 then sm0
      else
        (let sm = sm_firstParam sm0
         in if isParameterDelimiter wch
            then (if length (sm_parameters sm) \<ge> MAX_PARAMETER_COUNT
                  then sm\<lparr>sm_parameterLimitOverflowed := True\<rparr>
                  else sm_nextParam sm)
            else sm\<lparr>sm_parameters :=
                   set_last (VTParameter (AccumulateTo wch
                       (VTParameter_value_or (last (sm_parameters sm)) 0)))
                     (sm_parameters sm)\<rparr>))"

text \<open>\<open>_subParameterRanges.back().second++\<close> and the push of an empty sub-parameter.\<close>

definition sm_nextSubParam :: "('e, 'h, 'k) StateMachine \<Rightarrow> ('e, 'h, 'k) StateMachine" where
  [vt_defs]: "sm_nextSubParam sm =
     (if sm_subParameterRanges sm = [] then raise_fault EmptyVectorBack sm
      else (let (s, e) = last (sm_subParameterRanges sm)
            in sm\<lparr>sm_subParameters := sm_subParameters sm @ [VTParameter_default],
                  sm_subParameterRanges := set_last (s, e + 1) (sm_subParameterRanges sm),
                  sm_subParameterCounter := sm_subParameterCounter sm + 1\<rparr>))"

definition sm_ActionSubParam :: "wchar \<Rightarrow> ('e, 'h, 'k) StateMachine \<Rightarrow> ('e, 'h, 'k) StateMachine" where
  "sm_ActionSubParam wch sm0 =
     (if sm_subParameterLimitOverflowed sm0 then sm0
      else
        (let sm = sm_firstParam sm0
         in if isSubParameterDelimiter wch
            then (if unat (sm_subParameterCounter sm) \<ge> MAX_SUBPARAMETER_COUNT
                  then sm\<lparr>sm_subParameterLimitOverflowed := True\<rparr>
                  else sm_nextSubParam sm)
            else if sm_subParameters sm = [] then raise_fault EmptyVectorBack sm
            else sm\<lparr>sm_subParameters :=
                   set_last (VTParameter (AccumulateTo wch
                       (VTParameter_value_or (last (sm_subParameters sm)) 0)))
                     (sm_subParameters sm)\<rparr>))"

definition sm_ActionClear :: "('e, 'h, 'k) StateMachine \<Rightarrow> ('e, 'h, 'k) StateMachine" where
  [vt_defs]: "sm_ActionClear sm =
     sm\<lparr>sm_identifier := VTIDBuilder_Clear,
        sm_parameters := [],
        sm_parameterLimitOverflowed := False,
        sm_subParameters := [],
        sm_subParameterRanges := [],
        sm_subParameterCounter := 0,
        sm_subParameterLimitOverflowed := False,
        sm_oscString := [],
        sm_oscParameter := 0,
        sm_dcsStringHandler := None\<rparr>"

definition sm_ActionIgnore :: "('e, 'h, 'k) StateMachine \<Rightarrow> ('e, 'h, 'k) StateMachine" where
  [vt_defs]: "sm_ActionIgnore sm = sm"

text \<open>
  A call of the stored handler: an empty \<open>std::function\<close> throws \<open>bad_function_call\<close>, and an
  exception of the handler leaves the parser; both are faults.
\<close>

definition sm_runHandler ::
    "('e, 'h, 'k) vt_env \<Rightarrow> wchar \<Rightarrow> ('e, 'h, 'k) StateMachine \<Rightarrow>
     bool \<times> ('e, 'h, 'k) StateMachine" where
  "sm_runHandler env wch sm =
     (case sm_dcsStringHandler sm of
        None \<Rightarrow> (False, raise_fault NullStringHandler sm)
      | Some h \<Rightarrow>
          (case sm_reply (env_handler env h wch (sm_processingLastCharacter sm) (sm_engine sm)) sm of
             (None, sm') \<Rightarrow> (False, raise_fault HandlerThrew sm')
           | (Some ok, sm') \<Rightarrow> (ok, sm')))"

definition sm_ActionInterrupt ::
    "('e, 'h, 'k) vt_env \<Rightarrow> ('e, 'h, 'k) StateMachine \<Rightarrow> ('e, 'h, 'k) StateMachine" where
  "sm_ActionInterrupt env sm =
     (if sm_state sm = DcsPassThrough
      then (snd (sm_runHandler env ESC sm))\<lparr>sm_dcsStringHandler := None\<rparr>
      else sm)"

definition sm_ActionOscParam :: "wchar \<Rightarrow> ('e, 'h, 'k) StateMachine \<Rightarrow> ('e, 'h, 'k) StateMachine" where
  [vt_defs]: "sm_ActionOscParam wch sm =
     sm\<lparr>sm_oscParameter := AccumulateTo wch (sm_oscParameter sm)\<rparr>"

definition sm_ActionOscPut :: "wchar \<Rightarrow> ('e, 'h, 'k) StateMachine \<Rightarrow> ('e, 'h, 'k) StateMachine" where
  [vt_defs]: "sm_ActionOscPut wch sm = sm\<lparr>sm_oscString := sm_oscString sm @ [wch]\<rparr>"

definition sm_ActionOscDispatch ::
    "('e, 'h, 'k) vt_env \<Rightarrow> ('e, 'h, 'k) StateMachine \<Rightarrow> ('e, 'h, 'k) StateMachine" where
  [vt_defs]: "sm_ActionOscDispatch env sm =
     snd (sm_SafeExecute env (ActionOscDispatch (sm_oscParameter sm) (sm_oscString sm)) sm)"

definition sm_ActionSs3Dispatch ::
    "('e, 'h, 'k) vt_env \<Rightarrow> wchar \<Rightarrow> ('e, 'h, 'k) StateMachine \<Rightarrow> ('e, 'h, 'k) StateMachine" where
  [vt_defs]: "sm_ActionSs3Dispatch env wch sm =
     snd (sm_SafeExecute env (ActionSs3Dispatch wch (VTParameters_plain (sm_parameters sm))) sm)"

subsection \<open>State entries\<close>

definition sm_EnterGround :: "('e, 'h, 'k) StateMachine \<Rightarrow> ('e, 'h, 'k) StateMachine" where
  [vt_defs]: "sm_EnterGround sm = sm\<lparr>sm_state := Ground, sm_cachedSequence := None\<rparr>"

definition sm_EnterEscape :: "('e, 'h, 'k) StateMachine \<Rightarrow> ('e, 'h, 'k) StateMachine" where
  [vt_defs]: "sm_EnterEscape sm = sm_ActionClear (sm\<lparr>sm_state := Escape\<rparr>)"

definition sm_EnterEscapeIntermediate :: "('e, 'h, 'k) StateMachine \<Rightarrow> ('e, 'h, 'k) StateMachine" where
  [vt_defs]: "sm_EnterEscapeIntermediate sm = sm\<lparr>sm_state := EscapeIntermediate\<rparr>"

definition sm_EnterCsiEntry :: "('e, 'h, 'k) StateMachine \<Rightarrow> ('e, 'h, 'k) StateMachine" where
  [vt_defs]: "sm_EnterCsiEntry sm = sm_ActionClear (sm\<lparr>sm_state := CsiEntry\<rparr>)"

definition sm_EnterCsiParam :: "('e, 'h, 'k) StateMachine \<Rightarrow> ('e, 'h, 'k) StateMachine" where
  [vt_defs]: "sm_EnterCsiParam sm = sm\<lparr>sm_state := CsiParam\<rparr>"

definition sm_EnterCsiSubParam :: "('e, 'h, 'k) StateMachine \<Rightarrow> ('e, 'h, 'k) StateMachine" where
  [vt_defs]: "sm_EnterCsiSubParam sm = sm\<lparr>sm_state := CsiSubParam\<rparr>"

definition sm_EnterCsiIgnore :: "('e, 'h, 'k) StateMachine \<Rightarrow> ('e, 'h, 'k) StateMachine" where
  [vt_defs]: "sm_EnterCsiIgnore sm = sm\<lparr>sm_state := CsiIgnore\<rparr>"

definition sm_EnterCsiIntermediate :: "('e, 'h, 'k) StateMachine \<Rightarrow> ('e, 'h, 'k) StateMachine" where
  [vt_defs]: "sm_EnterCsiIntermediate sm = sm\<lparr>sm_state := CsiIntermediate\<rparr>"

definition sm_EnterOscParam :: "('e, 'h, 'k) StateMachine \<Rightarrow> ('e, 'h, 'k) StateMachine" where
  [vt_defs]: "sm_EnterOscParam sm = sm\<lparr>sm_state := OscParam\<rparr>"

definition sm_EnterOscString :: "('e, 'h, 'k) StateMachine \<Rightarrow> ('e, 'h, 'k) StateMachine" where
  [vt_defs]: "sm_EnterOscString sm = sm\<lparr>sm_state := OscString\<rparr>"

definition sm_EnterOscTermination :: "('e, 'h, 'k) StateMachine \<Rightarrow> ('e, 'h, 'k) StateMachine" where
  [vt_defs]: "sm_EnterOscTermination sm = sm\<lparr>sm_state := OscTermination\<rparr>"

definition sm_EnterSs3Entry :: "('e, 'h, 'k) StateMachine \<Rightarrow> ('e, 'h, 'k) StateMachine" where
  [vt_defs]: "sm_EnterSs3Entry sm = sm_ActionClear (sm\<lparr>sm_state := Ss3Entry\<rparr>)"

definition sm_EnterSs3Param :: "('e, 'h, 'k) StateMachine \<Rightarrow> ('e, 'h, 'k) StateMachine" where
  [vt_defs]: "sm_EnterSs3Param sm = sm\<lparr>sm_state := Ss3Param\<rparr>"

definition sm_EnterVt52Param :: "('e, 'h, 'k) StateMachine \<Rightarrow> ('e, 'h, 'k) StateMachine" where
  [vt_defs]: "sm_EnterVt52Param sm = sm\<lparr>sm_state := Vt52Param\<rparr>"

definition sm_EnterDcsEntry :: "('e, 'h, 'k) StateMachine \<Rightarrow> ('e, 'h, 'k) StateMachine" where
  [vt_defs]: "sm_EnterDcsEntry sm = sm_ActionClear (sm\<lparr>sm_state := DcsEntry\<rparr>)"

definition sm_EnterDcsParam :: "('e, 'h, 'k) StateMachine \<Rightarrow> ('e, 'h, 'k) StateMachine" where
  [vt_defs]: "sm_EnterDcsParam sm = sm\<lparr>sm_state := DcsParam\<rparr>"

definition sm_EnterDcsIgnore :: "('e, 'h, 'k) StateMachine \<Rightarrow> ('e, 'h, 'k) StateMachine" where
  [vt_defs]: "sm_EnterDcsIgnore sm = sm\<lparr>sm_state := DcsIgnore, sm_cachedSequence := None\<rparr>"

definition sm_EnterDcsIntermediate :: "('e, 'h, 'k) StateMachine \<Rightarrow> ('e, 'h, 'k) StateMachine" where
  [vt_defs]: "sm_EnterDcsIntermediate sm = sm\<lparr>sm_state := DcsIntermediate\<rparr>"

definition sm_EnterDcsPassThrough :: "('e, 'h, 'k) StateMachine \<Rightarrow> ('e, 'h, 'k) StateMachine" where
  [vt_defs]: "sm_EnterDcsPassThrough sm = sm\<lparr>sm_state := DcsPassThrough, sm_cachedSequence := None\<rparr>"

text \<open>\<open>UnknownSequence\<close> is \<open>noexcept\<close> and returns nothing.\<close>

definition sm_EnterSosPmApcString ::
    "('e, 'h, 'k) vt_env \<Rightarrow> ('e, 'h, 'k) StateMachine \<Rightarrow> ('e, 'h, 'k) StateMachine" where
  [vt_defs]: "sm_EnterSosPmApcString env sm =
     (let sm' = sm\<lparr>sm_state := SosPmApcString, sm_cachedSequence := None\<rparr>
      in snd (sm_reply (env_unknown env (sm_processingLastCharacter sm') (sm_engine sm')) sm'))"

text \<open>
  \<open>_ActionDcsDispatch\<close> stores the handler the engine returns; when the engine throws, the handler
  is the one stored before.
\<close>

definition sm_ActionDcsDispatch ::
    "('e, 'h, 'k) vt_env \<Rightarrow> wchar \<Rightarrow> ('e, 'h, 'k) StateMachine \<Rightarrow> ('e, 'h, 'k) StateMachine" where
  "sm_ActionDcsDispatch env wch sm =
     (let r = sm_reply (env_dcs env (VTIDBuilder_Finalize wch (sm_identifier sm))
                (VTParameters_plain (sm_parameters sm))
                (sm_processingLastCharacter sm) (sm_engine sm)) sm;
          sm1 = (case r of (Some h, sm') \<Rightarrow> sm'\<lparr>sm_dcsStringHandler := h\<rparr> | (None, sm') \<Rightarrow> sm')
      in if sm_dcsStringHandler sm1 \<noteq> None then sm_EnterDcsPassThrough sm1
         else sm_EnterDcsIgnore sm1)"

definition sm_ExecuteCsiCompleteCallback ::
    "('e, 'h, 'k) vt_env \<Rightarrow> ('e, 'h, 'k) StateMachine \<Rightarrow> ('e, 'h, 'k) StateMachine" where
  "sm_ExecuteCsiCompleteCallback env sm =
     (case sm_onCsiCompleteCallback sm of
        None \<Rightarrow> sm
      | Some callback \<Rightarrow>
          (let sm' = env_callback env callback (sm\<lparr>sm_onCsiCompleteCallback := None\<rparr>)
           in sm'\<lparr>sm_currentString := sm_currentString sm,
                  sm_runOffset := sm_runOffset sm,
                  sm_runSize := sm_runSize sm\<rparr>))"

text \<open>The three calls every CSI event ends with.\<close>

definition sm_finishCsi ::
    "('e, 'h, 'k) vt_env \<Rightarrow> wchar \<Rightarrow> ('e, 'h, 'k) StateMachine \<Rightarrow> ('e, 'h, 'k) StateMachine" where
  "sm_finishCsi env wch sm =
     sm_ExecuteCsiCompleteCallback env (sm_EnterGround (sm_ActionCsiDispatch env wch sm))"

subsection \<open>Events\<close>

definition sm_EventGround ::
    "('e, 'h, 'k) vt_env \<Rightarrow> wchar \<Rightarrow> ('e, 'h, 'k) StateMachine \<Rightarrow> ('e, 'h, 'k) StateMachine" where
  "sm_EventGround env wch sm =
     (if isC0Code wch \<or> isDelete wch then sm_ActionExecute env wch sm
     else sm_ActionPrint env wch sm)"

definition sm_EventEscape ::
    "('e, 'h, 'k) vt_env \<Rightarrow> wchar \<Rightarrow> ('e, 'h, 'k) StateMachine \<Rightarrow> ('e, 'h, 'k) StateMachine" where
  "sm_EventEscape env wch sm =
     (if isC0Code wch then 
       (if sm_isEngineForInput sm then sm_EnterGround (sm_ActionExecuteFromEscape env wch sm)
        else sm_ActionExecute env wch sm)
     else if isDelete wch then sm_ActionIgnore sm
     else if isIntermediate wch then 
       (if sm_isEngineForInput sm then sm_EnterGround (sm_ActionEscDispatch env wch sm)
        else sm_EnterEscapeIntermediate (sm_ActionCollect wch sm))
     else if sm_GetParserMode Ansi sm then 
       (if isCsiIndicator wch then sm_EnterCsiEntry sm
        else if isOscIndicator wch then sm_EnterOscParam sm
        else if isSs3Indicator wch \<and> sm_isEngineForInput sm then sm_EnterSs3Entry sm
        else if isDcsIndicator wch then sm_EnterDcsEntry sm
        else if isSosIndicator wch \<or> isPmIndicator wch \<or> isApcIndicator wch
        then sm_EnterSosPmApcString env sm
        else sm_EnterGround (sm_ActionEscDispatch env wch sm))
     else if isVt52CursorAddress wch then sm_EnterVt52Param sm
     else sm_EnterGround (sm_ActionVt52EscDispatch env wch sm))"

definition sm_EventEscapeIntermediate ::
    "('e, 'h, 'k) vt_env \<Rightarrow> wchar \<Rightarrow> ('e, 'h, 'k) StateMachine \<Rightarrow> ('e, 'h, 'k) StateMachine" where
  "sm_EventEscapeIntermediate env wch sm =
     (if isC0Code wch then sm_ActionExecute env wch sm
     else if isIntermediate wch then sm_ActionCollect wch sm
     else if isDelete wch then sm_ActionIgnore sm
     else if sm_GetParserMode Ansi sm then sm_EnterGround (sm_ActionEscDispatch env wch sm)
     else if isVt52CursorAddress wch then sm_EnterVt52Param sm
     else sm_EnterGround (sm_ActionVt52EscDispatch env wch sm))"

definition sm_EventCsiEntry ::
    "('e, 'h, 'k) vt_env \<Rightarrow> wchar \<Rightarrow> ('e, 'h, 'k) StateMachine \<Rightarrow> ('e, 'h, 'k) StateMachine" where
  "sm_EventCsiEntry env wch sm =
     (if isC0Code wch then sm_ActionExecute env wch sm
     else if isDelete wch then sm_ActionIgnore sm
     else if isIntermediate wch then sm_EnterCsiIntermediate (sm_ActionCollect wch sm)
     else if isNumericParamValue wch \<or> isParameterDelimiter wch then sm_EnterCsiParam (sm_ActionParam wch sm)
     else if isSubParameterDelimiter wch then sm_EnterCsiSubParam (sm_ActionSubParam wch sm)
     else if isCsiPrivateMarker wch then sm_EnterCsiParam (sm_ActionCollect wch sm)
     else sm_finishCsi env wch sm)"

definition sm_EventCsiIntermediate ::
    "('e, 'h, 'k) vt_env \<Rightarrow> wchar \<Rightarrow> ('e, 'h, 'k) StateMachine \<Rightarrow> ('e, 'h, 'k) StateMachine" where
  "sm_EventCsiIntermediate env wch sm =
     (if isC0Code wch then sm_ActionExecute env wch sm
     else if isIntermediate wch then sm_ActionCollect wch sm
     else if isDelete wch then sm_ActionIgnore sm
     else if isIntermediateInvalid wch then sm_EnterCsiIgnore sm
     else sm_finishCsi env wch sm)"

definition sm_EventCsiIgnore ::
    "('e, 'h, 'k) vt_env \<Rightarrow> wchar \<Rightarrow> ('e, 'h, 'k) StateMachine \<Rightarrow> ('e, 'h, 'k) StateMachine" where
  "sm_EventCsiIgnore env wch sm =
     (if isC0Code wch then sm_ActionExecute env wch sm
     else if isDelete wch then sm_ActionIgnore sm
     else if isIntermediate wch then sm_ActionIgnore sm
     else if isIntermediateInvalid wch then sm_ActionIgnore sm
     else sm_EnterGround sm)"

definition sm_EventCsiParam ::
    "('e, 'h, 'k) vt_env \<Rightarrow> wchar \<Rightarrow> ('e, 'h, 'k) StateMachine \<Rightarrow> ('e, 'h, 'k) StateMachine" where
  "sm_EventCsiParam env wch sm =
     (if isC0Code wch then sm_ActionExecute env wch sm
     else if isDelete wch then sm_ActionIgnore sm
     else if isNumericParamValue wch \<or> isParameterDelimiter wch then sm_ActionParam wch sm
     else if isSubParameterDelimiter wch then sm_EnterCsiSubParam (sm_ActionSubParam wch sm)
     else if isIntermediate wch then sm_EnterCsiIntermediate (sm_ActionCollect wch sm)
     else if isParameterInvalid wch then sm_EnterCsiIgnore sm
     else sm_finishCsi env wch sm)"

definition sm_EventCsiSubParam ::
    "('e, 'h, 'k) vt_env \<Rightarrow> wchar \<Rightarrow> ('e, 'h, 'k) StateMachine \<Rightarrow> ('e, 'h, 'k) StateMachine" where
  "sm_EventCsiSubParam env wch sm =
     (if isC0Code wch then sm_ActionExecute env wch sm
     else if isDelete wch then sm_ActionIgnore sm
     else if isNumericParamValue wch \<or> isSubParameterDelimiter wch then sm_ActionSubParam wch sm
     else if isParameterDelimiter wch then sm_EnterCsiParam (sm_ActionParam wch sm)
     else if isIntermediate wch then sm_EnterCsiIntermediate (sm_ActionCollect wch sm)
     else if isParameterInvalid wch then sm_EnterCsiIgnore sm
     else sm_finishCsi env wch sm)"

definition sm_EventOscParam ::
    "('e, 'h, 'k) vt_env \<Rightarrow> wchar \<Rightarrow> ('e, 'h, 'k) StateMachine \<Rightarrow> ('e, 'h, 'k) StateMachine" where
  "sm_EventOscParam env wch sm =
     (if isOscTerminator wch then sm_EnterGround (sm_ActionOscDispatch env sm)
     else if isEscape wch then sm_EnterOscTermination sm
     else if isNumericParamValue wch then sm_ActionOscParam wch sm
     else if isOscDelimiter wch then sm_EnterOscString sm
     else sm_ActionIgnore sm)"

definition sm_EventOscString ::
    "('e, 'h, 'k) vt_env \<Rightarrow> wchar \<Rightarrow> ('e, 'h, 'k) StateMachine \<Rightarrow> ('e, 'h, 'k) StateMachine" where
  "sm_EventOscString env wch sm =
     (if isOscTerminator wch then sm_EnterGround (sm_ActionOscDispatch env sm)
     else if isEscape wch then sm_EnterOscTermination sm
     else if isOscInvalid wch then sm_ActionIgnore sm
     else sm_ActionOscPut wch sm)"

definition sm_EventOscTermination ::
    "('e, 'h, 'k) vt_env \<Rightarrow> wchar \<Rightarrow> ('e, 'h, 'k) StateMachine \<Rightarrow> ('e, 'h, 'k) StateMachine" where
  "sm_EventOscTermination env wch sm =
     (if isStringTerminatorIndicator wch then sm_EnterGround (sm_ActionOscDispatch env sm)
     else sm_EventEscape env wch (sm_EnterEscape sm))"

definition sm_EventSs3Entry ::
    "('e, 'h, 'k) vt_env \<Rightarrow> wchar \<Rightarrow> ('e, 'h, 'k) StateMachine \<Rightarrow> ('e, 'h, 'k) StateMachine" where
  "sm_EventSs3Entry env wch sm =
     (if isC0Code wch then sm_ActionExecute env wch sm
     else if isDelete wch then sm_ActionIgnore sm
     else if isSubParameterDelimiter wch then sm_EnterCsiIgnore sm
     else if isNumericParamValue wch \<or> isParameterDelimiter wch then sm_EnterSs3Param (sm_ActionParam wch sm)
     else sm_EnterGround (sm_ActionSs3Dispatch env wch sm))"

definition sm_EventSs3Param ::
    "('e, 'h, 'k) vt_env \<Rightarrow> wchar \<Rightarrow> ('e, 'h, 'k) StateMachine \<Rightarrow> ('e, 'h, 'k) StateMachine" where
  "sm_EventSs3Param env wch sm =
     (if isC0Code wch then sm_ActionExecute env wch sm
     else if isDelete wch then sm_ActionIgnore sm
     else if isNumericParamValue wch \<or> isParameterDelimiter wch then sm_ActionParam wch sm
     else if isParameterInvalid wch \<or> isSubParameterDelimiter wch then sm_EnterCsiIgnore sm
     else sm_EnterGround (sm_ActionSs3Dispatch env wch sm))"

definition sm_EventVt52Param ::
    "('e, 'h, 'k) vt_env \<Rightarrow> wchar \<Rightarrow> ('e, 'h, 'k) StateMachine \<Rightarrow> ('e, 'h, 'k) StateMachine" where
  "sm_EventVt52Param env wch sm =
     (if isC0Code wch then sm_ActionExecute env wch sm
     else if isDelete wch then sm_ActionIgnore sm
     else 
       (let sm' = sm\<lparr>sm_parameters := sm_parameters sm @ [VTParameter (uint wch)]\<rparr>
        in if length (sm_parameters sm') = 2
           then sm_EnterGround (sm_ActionVt52EscDispatch env 0x59 sm')
           else sm'))"

definition sm_EventDcsEntry ::
    "('e, 'h, 'k) vt_env \<Rightarrow> wchar \<Rightarrow> ('e, 'h, 'k) StateMachine \<Rightarrow> ('e, 'h, 'k) StateMachine" where
  "sm_EventDcsEntry env wch sm =
     (if isC0Code wch then sm_ActionIgnore sm
     else if isDelete wch then sm_ActionIgnore sm
     else if isSubParameterDelimiter wch then sm_EnterDcsIgnore sm
     else if isNumericParamValue wch \<or> isParameterDelimiter wch then sm_EnterDcsParam (sm_ActionParam wch sm)
     else if isIntermediate wch then sm_EnterDcsIntermediate (sm_ActionCollect wch sm)
     else sm_ActionDcsDispatch env wch sm)"

definition sm_EventDcsIgnore :: "('e, 'h, 'k) StateMachine \<Rightarrow> ('e, 'h, 'k) StateMachine" where
  "sm_EventDcsIgnore sm = sm_ActionIgnore sm"

definition sm_EventDcsIntermediate ::
    "('e, 'h, 'k) vt_env \<Rightarrow> wchar \<Rightarrow> ('e, 'h, 'k) StateMachine \<Rightarrow> ('e, 'h, 'k) StateMachine" where
  "sm_EventDcsIntermediate env wch sm =
     (if isC0Code wch then sm_ActionIgnore sm
     else if isDelete wch then sm_ActionIgnore sm
     else if isIntermediate wch then sm_ActionCollect wch sm
     else if isIntermediateInvalid wch then sm_EnterDcsIgnore sm
     else sm_ActionDcsDispatch env wch sm)"

text \<open>
  The source has two separate conditionals here: the first one ignores C0 characters and DEL and
  falls through into the second.
\<close>

definition sm_EventDcsParam ::
    "('e, 'h, 'k) vt_env \<Rightarrow> wchar \<Rightarrow> ('e, 'h, 'k) StateMachine \<Rightarrow> ('e, 'h, 'k) StateMachine" where
  "sm_EventDcsParam env wch sm0 =
     (let sm = (if isC0Code wch then sm_ActionIgnore sm0
                else if isDelete wch then sm_ActionIgnore sm0
                else sm0)
      in if isNumericParamValue wch \<or> isParameterDelimiter wch then sm_ActionParam wch sm
         else if isIntermediate wch then sm_EnterDcsIntermediate (sm_ActionCollect wch sm)
         else if isParameterInvalid wch \<or> isSubParameterDelimiter wch then sm_EnterDcsIgnore sm
         else sm_ActionDcsDispatch env wch sm)"

definition sm_EventDcsPassThrough ::
    "('e, 'h, 'k) vt_env \<Rightarrow> wchar \<Rightarrow> ('e, 'h, 'k) StateMachine \<Rightarrow> ('e, 'h, 'k) StateMachine" where
  "sm_EventDcsPassThrough env wch sm =
     (if isC0Code wch \<or> isDcsPassThroughValid wch then 
       (let (ok, sm') = sm_runHandler env wch sm
        in if ok then sm' else sm_EnterDcsIgnore sm')
     else sm_ActionIgnore sm)"

definition sm_EventSosPmApcString :: "('e, 'h, 'k) StateMachine \<Rightarrow> ('e, 'h, 'k) StateMachine" where
  "sm_EventSosPmApcString sm = sm_ActionIgnore sm"

lemmas vt_event_defs = sm_EventGround_def sm_EventEscape_def sm_EventEscapeIntermediate_def
  sm_EventCsiEntry_def sm_EventCsiIntermediate_def sm_EventCsiIgnore_def sm_EventCsiParam_def
  sm_EventCsiSubParam_def sm_EventOscParam_def sm_EventOscString_def sm_EventOscTermination_def
  sm_EventSs3Entry_def sm_EventSs3Param_def sm_EventVt52Param_def sm_EventDcsEntry_def
  sm_EventDcsIgnore_def sm_EventDcsIntermediate_def sm_EventDcsParam_def
  sm_EventDcsPassThrough_def sm_EventSosPmApcString_def

subsection \<open>Characters\<close>

text \<open>The \<open>switch\<close> over the current state.\<close>

definition sm_dispatchEvent ::
    "('e, 'h, 'k) vt_env \<Rightarrow> wchar \<Rightarrow> ('e, 'h, 'k) StateMachine \<Rightarrow> ('e, 'h, 'k) StateMachine" where
  "sm_dispatchEvent env wch sm =
     (case sm_state sm of
        Ground \<Rightarrow> sm_EventGround env wch sm
      | Escape \<Rightarrow> sm_EventEscape env wch sm
      | EscapeIntermediate \<Rightarrow> sm_EventEscapeIntermediate env wch sm
      | CsiEntry \<Rightarrow> sm_EventCsiEntry env wch sm
      | CsiIntermediate \<Rightarrow> sm_EventCsiIntermediate env wch sm
      | CsiIgnore \<Rightarrow> sm_EventCsiIgnore env wch sm
      | CsiParam \<Rightarrow> sm_EventCsiParam env wch sm
      | CsiSubParam \<Rightarrow> sm_EventCsiSubParam env wch sm
      | OscParam \<Rightarrow> sm_EventOscParam env wch sm
      | OscString \<Rightarrow> sm_EventOscString env wch sm
      | OscTermination \<Rightarrow> sm_EventOscTermination env wch sm
      | Ss3Entry \<Rightarrow> sm_EventSs3Entry env wch sm
      | Ss3Param \<Rightarrow> sm_EventSs3Param env wch sm
      | Vt52Param \<Rightarrow> sm_EventVt52Param env wch sm
      | DcsEntry \<Rightarrow> sm_EventDcsEntry env wch sm
      | DcsIgnore \<Rightarrow> sm_EventDcsIgnore sm
      | DcsIntermediate \<Rightarrow> sm_EventDcsIntermediate env wch sm
      | DcsParam \<Rightarrow> sm_EventDcsParam env wch sm
      | DcsPassThrough \<Rightarrow> sm_EventDcsPassThrough env wch sm
      | SosPmApcString \<Rightarrow> sm_EventSosPmApcString sm)"

text \<open>
  \<open>ProcessCharacter\<close> calls itself twice for a C1 control character; the characters it passes on
  are no C1 controls, which is why it terminates.
\<close>

lemma c1_expansion_not_c1: "\<not> isC1ControlCharacter ESC"
    "isC1ControlCharacter wch \<Longrightarrow> \<not> isC1ControlCharacter (c1To7Bit wch)"
  by (auto simp: isC1ControlCharacter_def c1To7Bit_def word_le_nat_alt unat_sub_if')

function (sequential) sm_ProcessCharacter ::
    "('e, 'h, 'k) vt_env \<Rightarrow> wchar \<Rightarrow> ('e, 'h, 'k) StateMachine \<Rightarrow> ('e, 'h, 'k) StateMachine" where
  "sm_ProcessCharacter env wch sm =
     (let isFromAnywhereChar = (wch = CAN \<or> wch = SUB)
      in if isFromAnywhereChar \<and> \<not> (sm_state sm = Escape \<and> sm_isEngineForInput sm)
         then sm_EnterGround (sm_ActionExecute env wch (sm_ActionInterrupt env sm))
         else if isC1ControlCharacter wch
         then (if sm_GetParserMode AcceptC1 sm
               then sm_ProcessCharacter env (c1To7Bit wch) (sm_ProcessCharacter env ESC sm)
               else sm)
         else if isEscape wch \<and> sm_state sm \<noteq> OscString \<and> sm_state sm \<noteq> OscParam
         then sm_EnterEscape (sm_ActionInterrupt env sm)
         else sm_dispatchEvent env wch sm)"
  by pat_completeness auto
termination
  by (relation "measure (\<lambda>(env, wch, sm). if isC1ControlCharacter wch then 1 else 0)")
    (use c1_expansion_not_c1 in auto)

declare sm_ProcessCharacter.simps [simp del]

subsection \<open>Strings\<close>

text \<open>
  The two loops of \<open>ProcessString\<close>. \<open>sm_vtLoop\<close> is the inner \<open>do ... while\<close>, entered at
  \<open>processStringLoopVtStart\<close> with \<open>i < string.size()\<close>; it returns the index and the state it stops
  with. \<open>sm_groundLoop\<close> is the outer \<open>while\<close>. The bound \<open>i < length string\<close> in the inner loop is
  the condition it is entered under.
\<close>

function (sequential) sm_vtLoop ::
    "('e, 'h, 'k) vt_env \<Rightarrow> wstring \<Rightarrow> nat \<Rightarrow> ('e, 'h, 'k) StateMachine \<Rightarrow>
     nat \<times> ('e, 'h, 'k) StateMachine" where
  "sm_vtLoop env string i sm =
     (let sm1 = sm_ProcessCharacter env (string ! i)
                  (sm\<lparr>sm_runSize := sm_runSize sm + 1,
                      sm_processingLastCharacter := (i + 1 \<ge> length string)\<rparr>)
      in if i + 1 < length string \<and> sm_state sm1 \<noteq> Ground then sm_vtLoop env string (i + 1) sm1
         else (i + 1, sm1))"
  by pat_completeness auto
termination
  by (relation "measure (\<lambda>(env, string, i, sm). length string - i)") auto

declare sm_vtLoop.simps [simp del]

lemma sm_vtLoop_progress: "i < fst (sm_vtLoop env string i sm)"
proof (induction env string i sm rule: sm_vtLoop.induct)
  case (1 env string i sm)
  show ?case
    using "1" [OF refl] by (subst sm_vtLoop.simps) (force simp: Let_def)
qed

definition sm_printRun ::
    "('e, 'h, 'k) vt_env \<Rightarrow> wstring \<Rightarrow> nat \<Rightarrow> ('e, 'h, 'k) StateMachine \<Rightarrow>
     nat \<times> ('e, 'h, 'k) StateMachine" where
  "sm_printRun env string i sm =
     (let n = plainSearch (drop i string);
          sm1 = sm\<lparr>sm_runOffset := i, sm_runSize := n\<rparr>
      in if n \<noteq> 0
         then (i + n, (sm_ActionPrintString env (sm_CurrentRun sm1) sm1)
                        \<lparr>sm_runOffset := i + n, sm_runSize := 0\<rparr>)
         else (i, sm1))"

function (sequential) sm_groundLoop ::
    "('e, 'h, 'k) vt_env \<Rightarrow> wstring \<Rightarrow> nat \<Rightarrow> ('e, 'h, 'k) StateMachine \<Rightarrow>
     ('e, 'h, 'k) StateMachine" where
  "sm_groundLoop env string i sm =
     (if i < length string
      then (let (i1, sm1) = sm_printRun env string i sm
            in if i1 \<ge> length string then sm1
               else (let (i2, sm2) = sm_vtLoop env string i1 sm1
                     in sm_groundLoop env string i2 sm2))
      else sm)"
  by pat_completeness auto
termination
proof (relation "measure (\<lambda>(env, string, i, sm). length string - i)", goal_cases)
  case 1
  then show ?case by simp
next
  case (2 env string i sm p i1 sm1 q i2 sm2)
  have "i \<le> i1" using "2"(2,3) by (auto simp: sm_printRun_def Let_def split: if_splits)
  moreover have "i1 < i2"
    using sm_vtLoop_progress [of i1 env string sm1] "2"(5,6) by (metis fst_conv)
  ultimately have "length string - i2 < length string - i" using "2"(4) by linarith
  then show ?case by simp
qed

declare sm_groundLoop.simps [simp del]

text \<open>What \<open>ProcessString\<close> does with an unfinished sequence at the end of the string.\<close>

definition sm_finishString ::
    "('e, 'h, 'k) vt_env \<Rightarrow> ('e, 'h, 'k) StateMachine \<Rightarrow> ('e, 'h, 'k) StateMachine" where
  "sm_finishString env sm =
     (if sm_state sm = Ground then sm
      else
        (let run = sm_CurrentRun sm;
             (cacheUnusedRun, sm1) =
               (if sm_isEngineForInput sm
                then (if \<not> env_win32 env (sm_engine sm) \<and> length run \<le> 2
                      then (if run = [] then (True, raise_fault EmptyRunFront sm)
                            else if hd run = ESC
                            then (False,
                              sm_EnterGround
                                (if length run = 1
                                 then sm_ActionExecute env ESC (sm_EnterGround sm)
                                 else sm_ActionEscDispatch env (last run)
                                        (sm_EnterEscape (sm_EnterGround sm))))
                            else (True, sm))
                      else (True, sm))
                else (sm_state sm \<noteq> SosPmApcString \<and> sm_state sm \<noteq> DcsPassThrough \<and>
                        sm_state sm \<noteq> DcsIgnore, sm))
         in if cacheUnusedRun
            then sm1\<lparr>sm_cachedSequence :=
                   Some ((case sm_cachedSequence sm1 of None \<Rightarrow> [] | Some s \<Rightarrow> s) @ run)\<rparr>
            else sm1))"

definition sm_ProcessString ::
    "('e, 'h, 'k) vt_env \<Rightarrow> wstring \<Rightarrow> ('e, 'h, 'k) StateMachine \<Rightarrow> ('e, 'h, 'k) StateMachine" where
  "sm_ProcessString env string sm0 =
     (let sm = sm0\<lparr>sm_currentString := string, sm_runOffset := 0, sm_runSize := 0,
                   sm_injections := []\<rparr>;
          sm1 = (if sm_state sm \<noteq> Ground
                 then (if length string = 0 then sm
                       else (let (i, sm') = sm_vtLoop env string 0 sm
                             in sm_groundLoop env string i sm'))
                 else sm_groundLoop env string 0 sm)
      in sm_finishString env sm1)"

definition sm_ResetState :: "('e, 'h, 'k) StateMachine \<Rightarrow> ('e, 'h, 'k) StateMachine" where
  "sm_ResetState sm = sm_EnterGround sm"

text \<open>The constructor. Members it leaves uninitialised are written before they are read.\<close>

definition sm_new :: "'e \<Rightarrow> bool \<Rightarrow> ('e, 'h, 'k) StateMachine" where
  "sm_new engine isEngineForInput =
     sm_ActionClear (sm_SetParserMode AcceptC1 isEngineForInput
       \<lparr>sm_engine = engine, sm_isEngineForInput = isEngineForInput, sm_state = Ground,
        sm_parserMode = enumset_of [Mode_position Ansi], sm_currentString = [],
        sm_runOffset = 0, sm_runSize = 0, sm_identifier = VTIDBuilder_Clear,
        sm_parameters = [], sm_parameterLimitOverflowed = False, sm_subParameters = [],
        sm_subParameterRanges = [], sm_subParameterLimitOverflowed = False,
        sm_subParameterCounter = 0, sm_oscString = [], sm_oscParameter = 0,
        sm_dcsStringHandler = None, sm_cachedSequence = None, sm_injections = [],
        sm_processingLastCharacter = False, sm_onCsiCompleteCallback = None,
        sm_fault = None\<rparr>)"

end
