(* ===== verification/Vt_Invariant.thy ===== *)
theory Vt_Invariant
  imports Vt_State_Machine
begin

text \<open>
  The invariant of the VT parser and its preservation. The locale \<open>vt_engine\<close> is the contract the
  parser relies on: what \<open>IStateMachineEngine\<close> implementations, string handlers and completion
  callbacks promise. Inside it every action, state entry and event is shown to keep the invariant
  \<open>sm_inv\<close>, which bounds the parameter lists, ties the sub-parameter ranges to the sub-parameters
  and excludes every fault of the model, and the result is lifted to \<open>ProcessCharacter\<close> and
  \<open>ProcessString\<close>.
\<close>

subsection \<open>The invariant\<close>

definition param_ok :: "VTParameter \<Rightarrow> bool" where
  "param_ok p \<longleftrightarrow> - 1 \<le> param_value p \<and> param_value p \<le> MAX_PARAMETER_VALUE"

text \<open>
  Consecutive ranges that start at \<open>a\<close>, end at \<open>n\<close> and hold at most \<open>MAX_SUBPARAMETER_COUNT\<close>
  sub-parameters each.
\<close>

fun ranges_from :: "nat \<Rightarrow> (byte \<times> byte) list \<Rightarrow> nat \<Rightarrow> bool" where
  "ranges_from a [] n \<longleftrightarrow> a = n"
| "ranges_from a ((s, e) # rs) n \<longleftrightarrow>
     unat s = a \<and> a \<le> unat e \<and> unat e \<le> a + MAX_SUBPARAMETER_COUNT \<and> ranges_from (unat e) rs n"

definition params_ok :: "('e, 'h, 'k) StateMachine \<Rightarrow> bool" where
  "params_ok sm \<longleftrightarrow>
     length (sm_parameters sm) \<le> MAX_PARAMETER_COUNT \<and> list_all param_ok (sm_parameters sm) \<and>
     list_all param_ok (sm_subParameters sm) \<and>
     0 \<le> sm_oscParameter sm \<and> sm_oscParameter sm \<le> MAX_PARAMETER_VALUE"

definition ranges_ok :: "('e, 'h, 'k) StateMachine \<Rightarrow> bool" where
  "ranges_ok sm \<longleftrightarrow>
     length (sm_subParameterRanges sm) = length (sm_parameters sm) \<and>
     ranges_from 0 (sm_subParameterRanges sm) (length (sm_subParameters sm)) \<and>
     unat (sm_subParameterCounter sm) =
       (if sm_subParameterRanges sm = [] then 0
        else unat (snd (last (sm_subParameterRanges sm))) - unat (fst (last (sm_subParameterRanges sm)))) \<and>
     (sm_subParameterLimitOverflowed sm \<longrightarrow> sm_subParameters sm \<noteq> [])"

text \<open>The states in which parameters are collected for a CSI, SS3 or DCS sequence.\<close>

definition collecting :: "VTStates \<Rightarrow> bool" where
  "collecting st \<longleftrightarrow> st \<in> {CsiEntry, CsiIntermediate, CsiIgnore, CsiParam, CsiSubParam,
     Ss3Entry, Ss3Param, DcsEntry, DcsIntermediate, DcsParam}"

text \<open>
  \<open>sm_core\<close> is kept at every point inside \<open>ProcessCharacter\<close>; \<open>sm_inv\<close> adds what holds between
  characters: a string handler is stored whenever the parser passes a device control string
  through.
\<close>

definition sm_core :: "('e, 'h, 'k) StateMachine \<Rightarrow> bool" where
  "sm_core sm \<longleftrightarrow> sm_fault sm = None \<and> params_ok sm \<and>
     (collecting (sm_state sm) \<longrightarrow> ranges_ok sm) \<and>
     (sm_state sm \<in> {Escape, EscapeIntermediate} \<longrightarrow>
        sm_parameters sm = [] \<and> sm_subParameters sm = [] \<and> sm_subParameterRanges sm = []) \<and>
     (sm_state sm = Vt52Param \<longrightarrow> length (sm_parameters sm) < 2) \<and>
     (sm_state sm = CsiSubParam \<longrightarrow> sm_subParameters sm \<noteq> [])"

definition sm_inv :: "('e, 'h, 'k) StateMachine \<Rightarrow> bool" where
  "sm_inv sm \<longleftrightarrow> sm_core sm \<and> (sm_state sm = DcsPassThrough \<longrightarrow> sm_dcsStringHandler sm \<noteq> None)"

subsection \<open>Ranges\<close>

lemma ranges_from_le: "ranges_from a rs n \<Longrightarrow> a \<le> n \<and> n \<le> a + MAX_SUBPARAMETER_COUNT * length rs"
  by (induction a rs n rule: ranges_from.induct) fastforce+

lemma ranges_from_snoc:
  "ranges_from a (rs @ [(s, e)]) n \<longleftrightarrow>
     ranges_from a rs (unat s) \<and> unat s \<le> unat e \<and> unat e \<le> unat s + MAX_SUBPARAMETER_COUNT \<and>
     unat e = n"
  by (induction a rs n rule: ranges_from.induct) auto

lemma ranges_from_nth:
  "ranges_from a rs n \<Longrightarrow> i < length rs \<Longrightarrow>
     a \<le> unat (fst (rs ! i)) \<and> unat (fst (rs ! i)) \<le> unat (snd (rs ! i)) \<and> unat (snd (rs ! i)) \<le> n"
proof (induction a rs n arbitrary: i rule: ranges_from.induct)
  case (2 a s e rs n)
  then show ?case
    using ranges_from_le [of "unat e" rs n] by (cases i) fastforce+
qed simp

lemma ranges_ok_size:
  assumes "ranges_ok sm" and "params_ok sm"
  shows "length (sm_subParameters sm) \<le> 192"
proof -
  have "length (sm_subParameters sm) \<le> MAX_SUBPARAMETER_COUNT * length (sm_subParameterRanges sm)"
    using assms(1) ranges_from_le [of 0 "sm_subParameterRanges sm"] by (simp add: ranges_ok_def)
  also have "\<dots> \<le> 6 * 32"
    using assms by (simp add: ranges_ok_def params_ok_def MAX_SUBPARAMETER_COUNT_def MAX_PARAMETER_COUNT_def)
  finally show ?thesis by simp
qed

lemma counter_subParameters:
  assumes "ranges_ok sm" and "unat (sm_subParameterCounter sm) \<noteq> 0"
  shows "sm_subParameters sm \<noteq> []"
proof -
  from assms have ne: "sm_subParameterRanges sm \<noteq> []" by (auto simp: ranges_ok_def)
  then obtain rs s e where "sm_subParameterRanges sm = rs @ [(s, e)]"
    by (metis rev_exhaust surj_pair)
  with assms show ?thesis by (auto simp: ranges_ok_def ranges_from_snoc)
qed

lemma unat_byte_of_nat: "n < 256 \<Longrightarrow> unat (word_of_nat n :: byte) = n"
  by (simp add: unat_of_nat)

subsection \<open>Accumulating digits\<close>

lemma AccumulateTo_bounds:
  assumes "isNumericParamValue wch" and "0 \<le> v"
  shows "0 \<le> AccumulateTo wch v" and "AccumulateTo wch v \<le> MAX_PARAMETER_VALUE"
proof -
  have "0x30 \<le> uint wch" using assms(1) by (simp add: isNumericParamValue_def word_le_def)
  with assms(2) show "0 \<le> AccumulateTo wch v"
    by (simp add: AccumulateTo_def Let_def MAX_PARAMETER_VALUE_def)
  show "AccumulateTo wch v \<le> MAX_PARAMETER_VALUE" by (simp add: AccumulateTo_def Let_def)
qed

text \<open>The intermediate value before clamping stays far inside 32 bits.\<close>

lemma AccumulateTo_no_overflow:
  assumes "isNumericParamValue wch" and "0 \<le> v" and "v \<le> MAX_PARAMETER_VALUE"
  shows "in_int32 (v * 10 + (uint wch - 0x30))"
proof -
  have "0x30 \<le> uint wch" "uint wch \<le> 0x39"
    using assms(1) by (simp_all add: isNumericParamValue_def word_le_def)
  with assms(2,3) show ?thesis
    by (simp add: in_int32_def int32_min_def int32_max_def MAX_PARAMETER_VALUE_def)
qed

lemma param_ok_default [simp]: "param_ok VTParameter_default"
  by (simp add: param_ok_def VTParameter_default_def MAX_PARAMETER_VALUE_def)

lemma param_ok_value_or: "0 \<le> VTParameter_value_or p 0"
  by (simp add: VTParameter_value_or_def)

lemma param_ok_accumulate:
  "isNumericParamValue wch \<Longrightarrow> param_ok (VTParameter (AccumulateTo wch (VTParameter_value_or p 0)))"
  using AccumulateTo_bounds [OF _ param_ok_value_or [of p], of wch] by (simp add: param_ok_def)

lemma param_ok_uint: "param_ok (VTParameter (uint (wch :: wchar)))"
proof -
  have "- 1 \<le> uint wch" by (rule order_trans [OF _ uint_ge_0]) simp
  moreover have "uint wch < 2 ^ 16" using uint_lt2p [of wch] by simp
  ultimately show ?thesis by (simp add: param_ok_def MAX_PARAMETER_VALUE_def)
qed

subsection \<open>Collecting parameters\<close>

lemma firstParam_ok:
  assumes "params_ok sm" "ranges_ok sm"
  shows "params_ok (sm_firstParam sm) \<and> ranges_ok (sm_firstParam sm) \<and>
    sm_parameters (sm_firstParam sm) \<noteq> []"
  using assms ranges_from_le [of 0 "sm_subParameterRanges sm" "length (sm_subParameters sm)"]
  by (auto simp: sm_firstParam_def params_ok_def ranges_ok_def Let_def MAX_PARAMETER_COUNT_def)

lemma nextParam_ok:
  assumes "params_ok sm" "ranges_ok sm" "length (sm_parameters sm) < MAX_PARAMETER_COUNT"
  shows "params_ok (sm_nextParam sm) \<and> ranges_ok (sm_nextParam sm)"
  using assms ranges_ok_size [OF assms(2,1)]
  by (auto simp: sm_nextParam_def params_ok_def ranges_ok_def Let_def ranges_from_snoc
      unat_byte_of_nat)

lemma nextSubParam_ok:
  assumes "params_ok sm" "ranges_ok sm" "sm_parameters sm \<noteq> []"
    and "unat (sm_subParameterCounter sm) < MAX_SUBPARAMETER_COUNT"
  shows "params_ok (sm_nextSubParam sm) \<and> ranges_ok (sm_nextSubParam sm) \<and>
    sm_subParameters (sm_nextSubParam sm) \<noteq> [] \<and> sm_fault (sm_nextSubParam sm) = sm_fault sm"
proof -
  obtain rs s e where rs: "sm_subParameterRanges sm = rs @ [(s, e)]"
    using assms(2,3) by (metis ranges_ok_def length_0_conv rev_exhaust surj_pair)
  have n: "unat e = length (sm_subParameters sm)" "length (sm_subParameters sm) \<le> 192"
    using assms(2) rs ranges_ok_size [OF assms(2,1)] by (auto simp: ranges_ok_def ranges_from_snoc)
  then have e1: "unat (e + 1) = unat e + 1" by (simp add: unat_word_ariths)
  have c: "unat (sm_subParameterCounter sm) = unat e - unat s"
    using assms(2) rs by (simp add: ranges_ok_def)
  moreover have "unat (sm_subParameterCounter sm) < 6"
    using assms(4) by (simp add: MAX_SUBPARAMETER_COUNT_def)
  ultimately have c1: "unat (sm_subParameterCounter sm + 1) = unat e + 1 - unat s"
    using assms(2) rs by (simp add: unat_word_ariths ranges_ok_def ranges_from_snoc Suc_diff_le)
  have "unat e < unat s + 6" using c assms(4) by (simp add: MAX_SUBPARAMETER_COUNT_def)
  with assms rs n e1 c1 show ?thesis
    by (auto simp: sm_nextSubParam_def params_ok_def ranges_ok_def ranges_from_snoc
        MAX_SUBPARAMETER_COUNT_def)
qed

text \<open>Which fields \<open>_ActionParam\<close> and \<open>_ActionSubParam\<close> leave alone.\<close>

lemma ActionParam_frame [simp]:
  "sm_state (sm_ActionParam wch sm) = sm_state sm"
  "sm_fault (sm_ActionParam wch sm) = sm_fault sm"
  "sm_subParameters (sm_ActionParam wch sm) = sm_subParameters sm"
  "sm_dcsStringHandler (sm_ActionParam wch sm) = sm_dcsStringHandler sm"
  by (simp_all add: sm_ActionParam_def vt_defs Let_def)

lemma ActionSubParam_frame [simp]:
  "sm_state (sm_ActionSubParam wch sm) = sm_state sm"
  "sm_dcsStringHandler (sm_ActionSubParam wch sm) = sm_dcsStringHandler sm"
  by (simp_all add: sm_ActionSubParam_def vt_defs Let_def raise_fault_def split: prod.split)

lemma ActionParam_ok:
  assumes "params_ok sm" "ranges_ok sm" "isNumericParamValue wch \<or> isParameterDelimiter wch"
  shows "params_ok (sm_ActionParam wch sm) \<and> ranges_ok (sm_ActionParam wch sm)"
proof (cases "sm_parameterLimitOverflowed sm")
  case True
  with assms show ?thesis by (simp add: sm_ActionParam_def)
next
  case False
  define sm1 where "sm1 = sm_firstParam sm"
  have ok: "params_ok sm1" "ranges_ok sm1" "sm_parameters sm1 \<noteq> []"
    using firstParam_ok [OF assms(1,2)] by (simp_all add: sm1_def)
  have eq: "sm_ActionParam wch sm =
      (if isParameterDelimiter wch
       then (if length (sm_parameters sm1) \<ge> MAX_PARAMETER_COUNT
             then sm1\<lparr>sm_parameterLimitOverflowed := True\<rparr> else sm_nextParam sm1)
       else sm1\<lparr>sm_parameters := set_last (VTParameter (AccumulateTo wch
              (VTParameter_value_or (last (sm_parameters sm1)) 0))) (sm_parameters sm1)\<rparr>)"
    using False by (simp add: sm_ActionParam_def sm1_def Let_def)
  show ?thesis
  proof (cases "isParameterDelimiter wch")
    case True
    with eq ok nextParam_ok [OF ok(1,2)] show ?thesis
      by (auto simp: params_ok_def ranges_ok_def)
  next
    case False
    with assms(3) have "isNumericParamValue wch" by simp
    with eq ok False show ?thesis
      by (auto simp: params_ok_def ranges_ok_def length_set_last intro!: list_all_set_last
          param_ok_accumulate)
  qed
qed

lemma ActionSubParam_ok:
  assumes "params_ok sm" "ranges_ok sm" "isSubParameterDelimiter wch \<or> isNumericParamValue wch"
    and "\<not> isSubParameterDelimiter wch \<Longrightarrow> sm_subParameters sm \<noteq> []"
  shows "params_ok (sm_ActionSubParam wch sm) \<and> ranges_ok (sm_ActionSubParam wch sm) \<and>
    sm_subParameters (sm_ActionSubParam wch sm) \<noteq> [] \<and>
    sm_fault (sm_ActionSubParam wch sm) = sm_fault sm"
proof (cases "sm_subParameterLimitOverflowed sm")
  case True
  with assms(1,2) show ?thesis by (simp add: sm_ActionSubParam_def ranges_ok_def)
next
  case False
  define sm1 where "sm1 = sm_firstParam sm"
  have ok: "params_ok sm1" "ranges_ok sm1" "sm_parameters sm1 \<noteq> []"
    and sub: "sm_subParameters sm1 = sm_subParameters sm" "sm_fault sm1 = sm_fault sm"
    using firstParam_ok [OF assms(1,2)] by (simp_all add: sm1_def sm_firstParam_def Let_def)
  show ?thesis
  proof (cases "isSubParameterDelimiter wch")
    case delim: True
    show ?thesis
    proof (cases "unat (sm_subParameterCounter sm1) \<ge> MAX_SUBPARAMETER_COUNT")
      case True
      have "sm_subParameters sm1 \<noteq> []"
        using True ok(2) by (intro counter_subParameters) (auto simp: MAX_SUBPARAMETER_COUNT_def)
      with delim True False ok sub show ?thesis
        by (simp add: sm_ActionSubParam_def sm1_def [symmetric] Let_def params_ok_def ranges_ok_def)
    next
      case under: False
      with nextSubParam_ok [OF ok] delim False sub show ?thesis
        by (simp add: sm_ActionSubParam_def sm1_def [symmetric] Let_def)
    qed
  next
    case nodelim: False
    with assms(3,4) sub have "isNumericParamValue wch" "sm_subParameters sm1 \<noteq> []" by simp_all
    with nodelim False ok sub show ?thesis
      by (auto simp: sm_ActionSubParam_def sm1_def [symmetric] Let_def params_ok_def ranges_ok_def
          length_set_last intro!: list_all_set_last param_ok_accumulate)
  qed
qed

subsection \<open>Replies: what an engine can change\<close>

lemma sm_request_frame [simp]:
  "sm_engine (sm_request r sm) = sm_engine sm"
  "sm_isEngineForInput (sm_request r sm) = sm_isEngineForInput sm"
  "sm_state (sm_request r sm) = sm_state sm"
  "sm_currentString (sm_request r sm) = sm_currentString sm"
  "sm_runOffset (sm_request r sm) = sm_runOffset sm"
  "sm_runSize (sm_request r sm) = sm_runSize sm"
  "sm_identifier (sm_request r sm) = sm_identifier sm"
  "sm_parameters (sm_request r sm) = sm_parameters sm"
  "sm_parameterLimitOverflowed (sm_request r sm) = sm_parameterLimitOverflowed sm"
  "sm_subParameters (sm_request r sm) = sm_subParameters sm"
  "sm_subParameterRanges (sm_request r sm) = sm_subParameterRanges sm"
  "sm_subParameterLimitOverflowed (sm_request r sm) = sm_subParameterLimitOverflowed sm"
  "sm_subParameterCounter (sm_request r sm) = sm_subParameterCounter sm"
  "sm_oscString (sm_request r sm) = sm_oscString sm"
  "sm_oscParameter (sm_request r sm) = sm_oscParameter sm"
  "sm_dcsStringHandler (sm_request r sm) = sm_dcsStringHandler sm"
  "sm_cachedSequence (sm_request r sm) = sm_cachedSequence sm"
  "sm_processingLastCharacter (sm_request r sm) = sm_processingLastCharacter sm"
  "sm_fault (sm_request r sm) = sm_fault sm"
  by (cases r; simp add: sm_SetParserMode_def sm_InjectSequence_def sm_OnCsiComplete_def)+

lemma sm_requests_frame [simp]:
  "sm_engine (fold sm_request rs sm) = sm_engine sm"
  "sm_isEngineForInput (fold sm_request rs sm) = sm_isEngineForInput sm"
  "sm_state (fold sm_request rs sm) = sm_state sm"
  "sm_currentString (fold sm_request rs sm) = sm_currentString sm"
  "sm_runOffset (fold sm_request rs sm) = sm_runOffset sm"
  "sm_runSize (fold sm_request rs sm) = sm_runSize sm"
  "sm_identifier (fold sm_request rs sm) = sm_identifier sm"
  "sm_parameters (fold sm_request rs sm) = sm_parameters sm"
  "sm_parameterLimitOverflowed (fold sm_request rs sm) = sm_parameterLimitOverflowed sm"
  "sm_subParameters (fold sm_request rs sm) = sm_subParameters sm"
  "sm_subParameterRanges (fold sm_request rs sm) = sm_subParameterRanges sm"
  "sm_subParameterLimitOverflowed (fold sm_request rs sm) = sm_subParameterLimitOverflowed sm"
  "sm_subParameterCounter (fold sm_request rs sm) = sm_subParameterCounter sm"
  "sm_oscString (fold sm_request rs sm) = sm_oscString sm"
  "sm_oscParameter (fold sm_request rs sm) = sm_oscParameter sm"
  "sm_dcsStringHandler (fold sm_request rs sm) = sm_dcsStringHandler sm"
  "sm_cachedSequence (fold sm_request rs sm) = sm_cachedSequence sm"
  "sm_processingLastCharacter (fold sm_request rs sm) = sm_processingLastCharacter sm"
  "sm_fault (fold sm_request rs sm) = sm_fault sm"
  by (induction rs arbitrary: sm) simp_all

text \<open>
  The fields neither a reply nor a flush changes. \<open>_cachedSequence\<close> is left out: a flush empties
  it.
\<close>

definition same_parser :: "('e, 'h, 'k) StateMachine \<Rightarrow> ('e, 'h, 'k) StateMachine \<Rightarrow> bool" where
  "same_parser a b \<longleftrightarrow>
     sm_isEngineForInput a = sm_isEngineForInput b \<and> sm_state a = sm_state b \<and>
     sm_currentString a = sm_currentString b \<and> sm_runOffset a = sm_runOffset b \<and>
     sm_runSize a = sm_runSize b \<and> sm_identifier a = sm_identifier b \<and>
     sm_parameters a = sm_parameters b \<and>
     sm_parameterLimitOverflowed a = sm_parameterLimitOverflowed b \<and>
     sm_subParameters a = sm_subParameters b \<and>
     sm_subParameterRanges a = sm_subParameterRanges b \<and>
     sm_subParameterLimitOverflowed a = sm_subParameterLimitOverflowed b \<and>
     sm_subParameterCounter a = sm_subParameterCounter b \<and>
     sm_oscString a = sm_oscString b \<and> sm_oscParameter a = sm_oscParameter b \<and>
     sm_dcsStringHandler a = sm_dcsStringHandler b \<and>
     sm_processingLastCharacter a = sm_processingLastCharacter b \<and> sm_fault a = sm_fault b"

lemma same_parser_refl [simp]: "same_parser sm sm"
  by (simp add: same_parser_def)

lemma same_parser_trans [trans]: "same_parser a b \<Longrightarrow> same_parser b c \<Longrightarrow> same_parser a c"
  by (simp add: same_parser_def)

lemma same_parser_cached [simp]: "same_parser a (b\<lparr>sm_cachedSequence := x\<rparr>) = same_parser a b"
  by (simp add: same_parser_def)

lemma same_parser_reply: "same_parser sm (snd (sm_reply r sm))"
  by (simp add: sm_reply_def same_parser_def)

lemma same_parser_inv:
  assumes "same_parser a b"
  shows "sm_core b = sm_core a" and "sm_inv b = sm_inv a"
  using assms by (simp_all add: same_parser_def sm_core_def sm_inv_def params_ok_def ranges_ok_def)

subsection \<open>The contract between parser and engine\<close>

text \<open>
  What the parser relies on: the engine never refuses a string passed through (otherwise
  \<open>FlushToTerminal\<close> recurses without end), string handlers do not throw, and a completion
  callback, run in the Ground state, keeps the parser's invariant and the engine's role.
\<close>

locale vt_engine =
  fixes env :: "('e, 'h, 'k) vt_env"
  assumes passthrough_accepted:
      "reply_result (env_action env (ActionPassThroughString s) b e) \<noteq> Some False"
    and stack_available: "env_stack env \<noteq> 0"
    and handler_returns: "reply_result (env_handler env h wch b e) \<noteq> None"
    and callback_inv: "sm_inv sm \<Longrightarrow> sm_state sm = Ground \<Longrightarrow> sm_inv (env_callback env k sm)"
    and callback_role: "sm_isEngineForInput (env_callback env k sm) = sm_isEngineForInput sm"
begin

lemma safe_passthrough:
  "same_parser sm (snd (sm_SafeExecute_via flush env (ActionPassThroughString s) sm))"
  using passthrough_accepted [of s "sm_processingLastCharacter sm" "sm_engine sm"]
    same_parser_reply [of sm "env_action env (ActionPassThroughString s)
      (sm_processingLastCharacter sm) (sm_engine sm)"]
  by (auto simp: sm_SafeExecute_via_def sm_call_def sm_reply_def split: option.splits)

lemma flush_frame: "n \<noteq> 0 \<Longrightarrow> same_parser sm (snd (sm_FlushToTerminal n env sm))"
proof (cases n)
  case (Suc m)
  assume "n \<noteq> 0"
  show ?thesis
  proof (cases "sm_cachedSequence sm")
    case None
    with Suc safe_passthrough show ?thesis by simp
  next
    case (Some seq)
    define r where "r = sm_SafeExecute_via (sm_FlushToTerminal m env) env (ActionPassThroughString seq) sm"
    define sm1 where "sm1 = (snd r)\<lparr>sm_cachedSequence := None\<rparr>"
    have "same_parser sm (snd r)" unfolding r_def by (rule safe_passthrough)
    then have sm1: "same_parser sm sm1" by (simp add: sm1_def)
    then have "same_parser sm (snd (sm_SafeExecute_via flush env (ActionPassThroughString s) sm1))"
      for flush s
      by (rule same_parser_trans) (rule safe_passthrough)
    with Some Suc sm1 show ?thesis
      by (auto simp: r_def [symmetric] sm1_def [symmetric] split_beta Let_def)
  qed
qed simp

lemma SafeExecute_frame: "same_parser sm (snd (sm_SafeExecute env c sm))"
proof -
  have "same_parser sm (snd (sm_call env c sm))" by (simp add: sm_call_def same_parser_reply)
  with flush_frame [OF stack_available] show ?thesis
    by (auto simp: sm_SafeExecute_def sm_SafeExecute_via_def split: prod.splits option.splits
        intro: same_parser_trans)
qed

lemma SafeExecute_state [simp]:
  "sm_state (snd (sm_SafeExecute env c sm)) = sm_state sm"
  "sm_dcsStringHandler (snd (sm_SafeExecute env c sm)) = sm_dcsStringHandler sm"
  using SafeExecute_frame [of sm c] by (simp_all add: same_parser_def)

lemma SafeExecute_inv [simp]:
  "sm_core (snd (sm_SafeExecute env c sm)) = sm_core sm"
  "sm_inv (snd (sm_SafeExecute env c sm)) = sm_inv sm"
  using SafeExecute_frame [of sm c] by (simp_all add: same_parser_inv)

lemma SafeExecute_params [simp]:
  "sm_fault (snd (sm_SafeExecute env c sm)) = sm_fault sm"
  "params_ok (snd (sm_SafeExecute env c sm)) = params_ok sm"
  using SafeExecute_frame [of sm c] by (simp_all add: same_parser_def params_ok_def)

end

subsection \<open>State entries keep the invariant\<close>

lemmas inv_unfold = sm_inv_def sm_core_def params_ok_def ranges_ok_def collecting_def

lemma enter_clearing_inv:
  assumes "sm_core sm"
  shows "sm_inv (sm_EnterGround sm)" "sm_inv (sm_EnterEscape sm)" "sm_inv (sm_EnterCsiEntry sm)"
    "sm_inv (sm_EnterSs3Entry sm)" "sm_inv (sm_EnterDcsEntry sm)" "sm_inv (sm_EnterDcsIgnore sm)"
    "sm_inv (sm_EnterOscParam sm)" "sm_inv (sm_EnterOscString sm)" "sm_inv (sm_EnterOscTermination sm)"
  using assms
  by (simp_all add: vt_defs inv_unfold MAX_PARAMETER_VALUE_def)

lemma enter_Ground_inv: "sm_fault sm = None \<Longrightarrow> params_ok sm \<Longrightarrow> sm_inv (sm_EnterGround sm)"
  by (simp add: vt_defs inv_unfold)

lemma enter_SosPmApc_inv: "sm_core sm \<Longrightarrow> sm_inv (sm_EnterSosPmApcString env sm)"
  by (simp add: vt_defs inv_unfold sm_reply_def Let_def)

lemma enter_PassThrough_inv:
  "sm_core sm \<Longrightarrow> sm_dcsStringHandler sm \<noteq> None \<Longrightarrow> sm_inv (sm_EnterDcsPassThrough sm)"
  by (simp add: vt_defs inv_unfold)

lemma enter_Vt52Param_inv:
  "sm_core sm \<Longrightarrow> sm_parameters sm = [] \<Longrightarrow> sm_inv (sm_EnterVt52Param sm)"
  by (simp add: vt_defs inv_unfold)

lemma enter_EscapeIntermediate_inv:
  "sm_core sm \<Longrightarrow> sm_state sm = Escape \<Longrightarrow> sm_inv (sm_EnterEscapeIntermediate sm)"
  by (simp add: vt_defs inv_unfold)

lemma enter_collecting_inv:
  assumes "sm_fault sm = None" "params_ok sm" "ranges_ok sm"
  shows "sm_inv (sm_EnterCsiParam sm)" "sm_inv (sm_EnterCsiIgnore sm)"
    "sm_inv (sm_EnterCsiIntermediate sm)" "sm_inv (sm_EnterSs3Param sm)"
    "sm_inv (sm_EnterDcsParam sm)" "sm_inv (sm_EnterDcsIntermediate sm)"
    "sm_subParameters sm \<noteq> [] \<Longrightarrow> sm_inv (sm_EnterCsiSubParam sm)"
  using assms by (simp_all add: vt_defs inv_unfold)

lemma ActionCollect_ok [simp]:
  "sm_core (sm_ActionCollect wch sm) = sm_core sm" "sm_inv (sm_ActionCollect wch sm) = sm_inv sm"
  "params_ok (sm_ActionCollect wch sm) = params_ok sm" "ranges_ok (sm_ActionCollect wch sm) = ranges_ok sm"
  "sm_state (sm_ActionCollect wch sm) = sm_state sm" "sm_fault (sm_ActionCollect wch sm) = sm_fault sm"
  by (simp_all add: vt_defs inv_unfold)

lemma coreD:
  assumes "sm_core sm"
  shows "sm_fault sm = None" "params_ok sm" "collecting (sm_state sm) \<Longrightarrow> ranges_ok sm"
    "sm_state sm = Escape \<Longrightarrow> sm_parameters sm = []"
    "sm_state sm = EscapeIntermediate \<Longrightarrow> sm_parameters sm = []"
    "sm_state sm = Vt52Param \<Longrightarrow> length (sm_parameters sm) < 2"
    "sm_state sm = CsiSubParam \<Longrightarrow> sm_subParameters sm \<noteq> []"
  using assms by (simp_all add: sm_core_def)

lemma inv_core: "sm_inv sm \<Longrightarrow> sm_core sm"
  by (simp add: sm_inv_def)

lemma inv_collectingI:
  assumes "sm_fault sm = None" "params_ok sm" "ranges_ok sm" "collecting (sm_state sm)"
    and "sm_state sm = CsiSubParam \<Longrightarrow> sm_subParameters sm \<noteq> []"
  shows "sm_inv sm"
proof -
  have "sm_state sm \<notin> {Escape, EscapeIntermediate, Vt52Param, DcsPassThrough}"
    using assms(4) by (auto simp: collecting_def)
  with assms show ?thesis by (simp add: sm_inv_def sm_core_def)
qed

lemma ActionParam_inv:
  assumes "sm_core sm" "collecting (sm_state sm)" "isNumericParamValue wch \<or> isParameterDelimiter wch"
  shows "sm_inv (sm_ActionParam wch sm)" "sm_fault (sm_ActionParam wch sm) = None"
    "params_ok (sm_ActionParam wch sm)" "ranges_ok (sm_ActionParam wch sm)"
proof -
  have ok: "params_ok (sm_ActionParam wch sm) \<and> ranges_ok (sm_ActionParam wch sm)"
    using assms by (intro ActionParam_ok) (simp_all add: coreD)
  then show "params_ok (sm_ActionParam wch sm)" "ranges_ok (sm_ActionParam wch sm)" by simp_all
  show "sm_fault (sm_ActionParam wch sm) = None" using assms by (simp add: coreD)
  then show "sm_inv (sm_ActionParam wch sm)"
    using ok assms by (intro inv_collectingI) (simp_all add: coreD)
qed

lemma ActionSubParam_inv:
  assumes "sm_core sm" "collecting (sm_state sm)" "isSubParameterDelimiter wch \<or> isNumericParamValue wch"
    and "\<not> isSubParameterDelimiter wch \<Longrightarrow> sm_subParameters sm \<noteq> []"
  shows "sm_inv (sm_ActionSubParam wch sm)" "sm_fault (sm_ActionSubParam wch sm) = None"
    "params_ok (sm_ActionSubParam wch sm)" "ranges_ok (sm_ActionSubParam wch sm)"
    "sm_subParameters (sm_ActionSubParam wch sm) \<noteq> []"
proof -
  have ok: "params_ok (sm_ActionSubParam wch sm) \<and> ranges_ok (sm_ActionSubParam wch sm) \<and>
      sm_subParameters (sm_ActionSubParam wch sm) \<noteq> [] \<and>
      sm_fault (sm_ActionSubParam wch sm) = sm_fault sm"
    using assms by (intro ActionSubParam_ok) (simp_all add: coreD)
  with assms show "params_ok (sm_ActionSubParam wch sm)" "ranges_ok (sm_ActionSubParam wch sm)"
    "sm_subParameters (sm_ActionSubParam wch sm) \<noteq> []" "sm_fault (sm_ActionSubParam wch sm) = None"
    by (simp_all add: coreD)
  then show "sm_inv (sm_ActionSubParam wch sm)"
    using ok assms by (intro inv_collectingI) simp_all
qed

subsection \<open>Events, characters and strings keep the invariant\<close>

context vt_engine
begin

text \<open>The actions that only call the engine.\<close>

lemma engine_actions_inv [simp]:
  "sm_inv (sm_ActionExecute env wch sm) = sm_inv sm"
  "sm_core (sm_ActionExecute env wch sm) = sm_core sm"
  "sm_inv (sm_ActionPrint env wch sm) = sm_inv sm"
  "sm_inv (sm_ActionPrintString env str sm) = sm_inv sm"
  "sm_core (sm_ActionExecuteFromEscape env wch sm) = sm_core sm"
  "sm_core (sm_ActionEscDispatch env wch sm) = sm_core sm"
  "sm_core (sm_ActionVt52EscDispatch env wch sm) = sm_core sm"
  "sm_core (sm_ActionCsiDispatch env wch sm) = sm_core sm"
  "sm_core (sm_ActionOscDispatch env sm) = sm_core sm"
  "sm_core (sm_ActionSs3Dispatch env wch sm) = sm_core sm"
  by (simp_all add: vt_defs)

lemma runHandler_frame:
  assumes "sm_dcsStringHandler sm \<noteq> None"
  shows "same_parser sm (snd (sm_runHandler env wch sm))"
proof -
  obtain h where h: "sm_dcsStringHandler sm = Some h" using assms by auto
  define r where "r = env_handler env h wch (sm_processingLastCharacter sm) (sm_engine sm)"
  obtain ok where ok: "reply_result r = Some ok" using handler_returns r_def by blast
  have "snd (sm_runHandler env wch sm) = snd (sm_reply r sm)"
    using h ok by (simp add: sm_runHandler_def r_def [symmetric] sm_reply_def)
  then show ?thesis by (simp add: same_parser_reply)
qed

lemma ActionInterrupt_core: "sm_inv sm \<Longrightarrow> sm_core (sm_ActionInterrupt env sm)"
proof (cases "sm_state sm = DcsPassThrough")
  case True
  assume inv: "sm_inv sm"
  with True have "same_parser sm (snd (sm_runHandler env ESC sm))"
    by (intro runHandler_frame) (simp add: sm_inv_def)
  from same_parser_inv [OF this] inv have "sm_core (snd (sm_runHandler env ESC sm))"
    by (simp add: inv_core)
  then have "sm_core ((snd (sm_runHandler env ESC sm))\<lparr>sm_dcsStringHandler := None\<rparr>)"
    by (simp add: sm_core_def params_ok_def ranges_ok_def)
  with True show ?thesis by (simp add: sm_ActionInterrupt_def)
qed (simp add: sm_ActionInterrupt_def inv_core)

lemma ExecuteCsiCompleteCallback_inv:
  assumes "sm_inv sm" and "sm_state sm = Ground"
  shows "sm_inv (sm_ExecuteCsiCompleteCallback env sm)"
proof (cases "sm_onCsiCompleteCallback sm")
  case None
  with assms show ?thesis by (simp add: sm_ExecuteCsiCompleteCallback_def)
next
  case (Some k)
  have "sm_inv (env_callback env k (sm\<lparr>sm_onCsiCompleteCallback := None\<rparr>))"
    using assms by (intro callback_inv) (simp_all add: inv_unfold)
  with Some show ?thesis
    by (simp add: sm_ExecuteCsiCompleteCallback_def Let_def inv_unfold)
qed

lemma finishCsi_inv: "sm_core sm \<Longrightarrow> sm_inv (sm_finishCsi env wch sm)"
  unfolding sm_finishCsi_def
  by (intro ExecuteCsiCompleteCallback_inv enter_clearing_inv) (simp_all add: sm_EnterGround_def)

lemma ActionDcsDispatch_inv:
  assumes "sm_core sm"
  shows "sm_inv (sm_ActionDcsDispatch env wch sm)"
proof -
  define r where "r = env_dcs env (VTIDBuilder_Finalize wch (sm_identifier sm))
    (VTParameters_plain (sm_parameters sm)) (sm_processingLastCharacter sm) (sm_engine sm)"
  define sm1 where "sm1 = (case sm_reply r sm of (Some h, sm') \<Rightarrow> sm'\<lparr>sm_dcsStringHandler := h\<rparr>
    | (None, sm') \<Rightarrow> sm')"
  have "sm_core (snd (sm_reply r sm))"
    by (simp add: same_parser_inv(1) [OF same_parser_reply] assms)
  then have "sm_core sm1"
    by (cases "reply_result r") (simp_all add: sm1_def sm_reply_def sm_core_def params_ok_def ranges_ok_def)
  moreover have "sm_ActionDcsDispatch env wch sm =
      (if sm_dcsStringHandler sm1 \<noteq> None then sm_EnterDcsPassThrough sm1 else sm_EnterDcsIgnore sm1)"
    by (simp add: sm_ActionDcsDispatch_def r_def sm1_def Let_def)
  ultimately show ?thesis by (simp add: enter_PassThrough_inv enter_clearing_inv)
qed

lemma ActionSubParam_delimiter_inv:
  assumes "sm_core sm" "collecting (sm_state sm)" "isSubParameterDelimiter wch"
  shows "sm_inv (sm_EnterCsiSubParam (sm_ActionSubParam wch sm))"
  by (intro enter_collecting_inv(7) ActionSubParam_inv(2-5)) (use assms in auto)

lemmas event_rules = ActionSubParam_delimiter_inv enter_clearing_inv enter_SosPmApc_inv enter_Vt52Param_inv
  enter_EscapeIntermediate_inv enter_collecting_inv finishCsi_inv ActionDcsDispatch_inv
  ActionParam_inv ActionSubParam_inv coreD inv_core

lemma EventEscape_inv:
  assumes "sm_inv sm" "sm_state sm = Escape"
  shows "sm_inv (sm_EventEscape env wch sm)"
  using assms by (simp add: sm_EventEscape_def event_rules sm_ActionIgnore_def)

lemma events_escape_inv:
  assumes "sm_inv sm"
  shows "sm_inv (sm_EventGround env wch sm)"
    "sm_state sm = EscapeIntermediate \<Longrightarrow> sm_inv (sm_EventEscapeIntermediate env wch sm)"
    "sm_inv (sm_EventOscTermination env wch sm)"
proof -
  show "sm_inv (sm_EventGround env wch sm)" using assms by (simp add: sm_EventGround_def)
  show "sm_state sm = EscapeIntermediate \<Longrightarrow> sm_inv (sm_EventEscapeIntermediate env wch sm)"
    using assms by (simp add: sm_EventEscapeIntermediate_def event_rules sm_ActionIgnore_def)
  have "sm_inv (sm_EventEscape env wch (sm_EnterEscape sm))"
    using assms
    by (intro EventEscape_inv enter_clearing_inv)
      (simp_all add: event_rules sm_EnterEscape_def sm_ActionClear_def)
  with assms show "sm_inv (sm_EventOscTermination env wch sm)"
    by (simp add: sm_EventOscTermination_def event_rules)
qed

lemma events_csi_inv:
  assumes "sm_inv sm" and "collecting (sm_state sm)"
  shows "sm_inv (sm_EventCsiEntry env wch sm)" "sm_inv (sm_EventCsiIntermediate env wch sm)"
    "sm_inv (sm_EventCsiIgnore env wch sm)" "sm_inv (sm_EventCsiParam env wch sm)"
    "sm_state sm = CsiSubParam \<Longrightarrow> sm_inv (sm_EventCsiSubParam env wch sm)"
    "sm_inv (sm_EventSs3Entry env wch sm)" "sm_inv (sm_EventSs3Param env wch sm)"
    "sm_inv (sm_EventDcsEntry env wch sm)" "sm_inv (sm_EventDcsIntermediate env wch sm)"
    "sm_inv (sm_EventDcsParam env wch sm)"
  using assms by (simp_all add: vt_event_defs event_rules sm_ActionIgnore_def Let_def)

lemma events_string_inv:
  assumes "sm_inv sm"
  shows "sm_state sm = OscParam \<Longrightarrow> sm_inv (sm_EventOscParam env wch sm)"
    "sm_state sm = OscString \<Longrightarrow> sm_inv (sm_EventOscString env wch sm)"
proof -
  assume st: "sm_state sm = OscParam"
  have "sm_inv (sm_ActionOscParam wch sm)" if "isNumericParamValue wch"
    using assms st AccumulateTo_bounds [OF that, of "sm_oscParameter sm"]
    by (simp add: sm_ActionOscParam_def inv_unfold)
  with assms show "sm_inv (sm_EventOscParam env wch sm)"
    by (simp add: sm_EventOscParam_def event_rules sm_ActionIgnore_def)
next
  assume "sm_state sm = OscString"
  with assms have "sm_inv (sm_ActionOscPut wch sm)" by (simp add: sm_ActionOscPut_def inv_unfold)
  with assms show "sm_inv (sm_EventOscString env wch sm)"
    by (simp add: sm_EventOscString_def event_rules sm_ActionIgnore_def)
qed

lemma EventVt52Param_inv:
  assumes "sm_inv sm" "sm_state sm = Vt52Param"
  shows "sm_inv (sm_EventVt52Param env wch sm)"
proof -
  define sm1 where "sm1 = sm\<lparr>sm_parameters := sm_parameters sm @ [VTParameter (uint wch)]\<rparr>"
  have "length (sm_parameters sm) < 2" using assms by (simp add: event_rules)
  with assms have p: "sm_fault sm1 = None" "params_ok sm1" "sm_state sm1 = Vt52Param"
    by (auto simp: sm1_def inv_unfold param_ok_uint MAX_PARAMETER_COUNT_def)
  have "length (sm_parameters sm1) \<le> 2"
    using \<open>length (sm_parameters sm) < 2\<close> by (simp add: sm1_def)
  with p have "sm_inv sm1" if "length (sm_parameters sm1) \<noteq> 2"
    using that by (simp add: sm_inv_def sm_core_def collecting_def)
  moreover have "sm_inv (sm_EnterGround (sm_ActionVt52EscDispatch env 0x59 sm1))"
    using p by (intro enter_Ground_inv) (simp_all add: sm_ActionVt52EscDispatch_def)
  ultimately show ?thesis
    using assms
    by (simp add: sm_EventVt52Param_def sm_ActionIgnore_def sm1_def [symmetric] Let_def)
qed

lemma EventDcsPassThrough_inv:
  assumes "sm_inv sm" "sm_state sm = DcsPassThrough"
  shows "sm_inv (sm_EventDcsPassThrough env wch sm)"
proof -
  have "same_parser sm (snd (sm_runHandler env wch sm))"
    using assms by (intro runHandler_frame) (simp add: sm_inv_def)
  then have "sm_inv (snd (sm_runHandler env wch sm))"
    using assms by (simp add: same_parser_inv)
  with assms show ?thesis
    by (simp add: sm_EventDcsPassThrough_def sm_ActionIgnore_def split_beta Let_def event_rules)
qed

end

context vt_engine
begin

lemma dispatchEvent_inv: "sm_inv sm \<Longrightarrow> sm_inv (sm_dispatchEvent env wch sm)"
  by (cases "sm_state sm")
    (simp_all add: sm_dispatchEvent_def EventEscape_inv events_escape_inv events_csi_inv
      events_string_inv EventVt52Param_inv EventDcsPassThrough_inv sm_EventDcsIgnore_def
      sm_EventSosPmApcString_def sm_ActionIgnore_def collecting_def)

lemma ProcessCharacter_inv_not_c1:
  "\<not> isC1ControlCharacter wch \<Longrightarrow> sm_inv sm \<Longrightarrow> sm_inv (sm_ProcessCharacter env wch sm)"
  by (subst sm_ProcessCharacter.simps)
    (simp add: Let_def dispatchEvent_inv ActionInterrupt_core enter_clearing_inv)

lemma ProcessCharacter_inv: "sm_inv sm \<Longrightarrow> sm_inv (sm_ProcessCharacter env wch sm)"
proof (cases "isC1ControlCharacter wch")
  case True
  assume "sm_inv sm"
  then have "sm_inv (sm_ProcessCharacter env (c1To7Bit wch) (sm_ProcessCharacter env ESC sm))"
    using True by (intro ProcessCharacter_inv_not_c1 c1_expansion_not_c1)
  with True \<open>sm_inv sm\<close> show ?thesis
    by (subst sm_ProcessCharacter.simps)
      (simp add: Let_def ActionInterrupt_core enter_clearing_inv)
qed (rule ProcessCharacter_inv_not_c1)

text \<open>No event touches the bookkeeping of the current run or the engine's role.\<close>

definition same_run :: "('e, 'h, 'k) StateMachine \<Rightarrow> ('e, 'h, 'k) StateMachine \<Rightarrow> bool" where
  "same_run a b \<longleftrightarrow> sm_currentString a = sm_currentString b \<and> sm_runOffset a = sm_runOffset b \<and>
     sm_runSize a = sm_runSize b \<and> sm_isEngineForInput a = sm_isEngineForInput b"

lemma same_run_refl: "same_run sm sm" by (simp add: same_run_def)

lemma same_run_trans: "same_run a b \<Longrightarrow> same_run b c \<Longrightarrow> same_run a c"
  by (simp add: same_run_def)

lemma same_parser_run: "same_parser a b \<Longrightarrow> same_run a b"
  by (simp add: same_parser_def same_run_def)

lemma raise_fault_run: "same_run sm (raise_fault f sm)"
  by (simp add: same_run_def raise_fault_def)

lemma SafeExecute_run: "same_run sm (snd (sm_SafeExecute env c sm))"
  by (rule same_parser_run) (rule SafeExecute_frame)

lemma SafeExecute_run_fields [simp]:
  "sm_currentString (snd (sm_SafeExecute env c sm)) = sm_currentString sm"
  "sm_runOffset (snd (sm_SafeExecute env c sm)) = sm_runOffset sm"
  "sm_runSize (snd (sm_SafeExecute env c sm)) = sm_runSize sm"
  "sm_isEngineForInput (snd (sm_SafeExecute env c sm)) = sm_isEngineForInput sm"
  using SafeExecute_run [of sm c] by (simp_all add: same_run_def)

lemma runHandler_run: "same_run sm (snd (sm_runHandler env wch sm))"
  by (auto simp: sm_runHandler_def same_run_def sm_reply_def raise_fault_def split: option.split)

lemma ActionInterrupt_run: "same_run sm (sm_ActionInterrupt env sm)"
  using runHandler_run [of sm ESC] by (simp add: sm_ActionInterrupt_def same_run_def)

lemma ActionParam_run: "same_run sm (sm_ActionParam wch sm)" "same_run sm (sm_ActionSubParam wch sm)"
  by (simp_all add: sm_ActionParam_def sm_ActionSubParam_def vt_defs Let_def raise_fault_def
      same_run_def split: prod.split)

lemma finishCsi_run: "same_run sm (sm_finishCsi env wch sm)"
  by (auto simp: sm_finishCsi_def sm_ExecuteCsiCompleteCallback_def same_run_def vt_defs Let_def
      callback_role split: option.split)

lemma ActionDcsDispatch_run: "same_run sm (sm_ActionDcsDispatch env wch sm)"
  by (simp add: sm_ActionDcsDispatch_def sm_reply_def same_run_def vt_defs Let_def split: option.split)

lemma EventEscape_run: "same_run sm (sm_EventEscape env wch sm)"
  by (simp add: sm_EventEscape_def same_run_def vt_defs Let_def sm_reply_def)

lemma EventDcsPassThrough_run: "same_run sm (sm_EventDcsPassThrough env wch sm)"
  using runHandler_run [of sm wch]
  by (simp add: sm_EventDcsPassThrough_def same_run_def vt_defs Let_def split_beta)

lemma dispatchEvent_run: "same_run sm (sm_dispatchEvent env wch sm)"
  using ActionParam_run [of sm wch] finishCsi_run [of sm wch] ActionDcsDispatch_run [of sm wch]
    EventEscape_run [of "sm_EnterEscape sm" wch] EventEscape_run [of sm wch]
    EventDcsPassThrough_run [of sm wch]
  by (cases "sm_state sm")
    (simp_all add: sm_dispatchEvent_def sm_EventGround_def sm_EventEscapeIntermediate_def
      sm_EventCsiEntry_def sm_EventCsiIntermediate_def sm_EventCsiIgnore_def sm_EventCsiParam_def
      sm_EventCsiSubParam_def sm_EventOscParam_def sm_EventOscString_def sm_EventOscTermination_def
      sm_EventSs3Entry_def sm_EventSs3Param_def sm_EventVt52Param_def sm_EventDcsEntry_def
      sm_EventDcsIgnore_def sm_EventDcsIntermediate_def sm_EventDcsParam_def
      sm_EventSosPmApcString_def same_run_def vt_defs Let_def)

lemma ProcessCharacter_run_not_c1:
  "\<not> isC1ControlCharacter wch \<Longrightarrow> same_run sm (sm_ProcessCharacter env wch sm)"
  using ActionInterrupt_run [of sm] dispatchEvent_run [of sm wch]
  by (subst sm_ProcessCharacter.simps) (simp add: Let_def same_run_def vt_defs)

lemma ProcessCharacter_run: "same_run sm (sm_ProcessCharacter env wch sm)"
proof (cases "isC1ControlCharacter wch")
  case True
  have "same_run sm (sm_ProcessCharacter env (c1To7Bit wch) (sm_ProcessCharacter env ESC sm))"
    using True by (intro same_run_trans [OF ProcessCharacter_run_not_c1 ProcessCharacter_run_not_c1]
        c1_expansion_not_c1)
  with True ActionInterrupt_run [of sm] show ?thesis
    by (subst sm_ProcessCharacter.simps) (simp add: Let_def same_run_def vt_defs)
qed (rule ProcessCharacter_run_not_c1)

end

text \<open>The run that ends before position \<open>i\<close> of the string being processed.\<close>

definition run_before :: "wstring \<Rightarrow> nat \<Rightarrow> ('e, 'h, 'k) StateMachine \<Rightarrow> bool" where
  "run_before string i sm \<longleftrightarrow>
     sm_currentString sm = string \<and> sm_runOffset sm + sm_runSize sm = i \<and> i \<le> length string"

lemma inv_run_fields [simp]:
  "sm_inv (sm\<lparr>sm_runOffset := o'\<rparr>) = sm_inv sm"
  "sm_inv (sm\<lparr>sm_runSize := n\<rparr>) = sm_inv sm"
  "sm_inv (sm\<lparr>sm_runSize := n, sm_processingLastCharacter := l\<rparr>) = sm_inv sm"
  "sm_inv (sm\<lparr>sm_runOffset := o', sm_runSize := n\<rparr>) = sm_inv sm"
  "sm_inv (sm\<lparr>sm_currentString := s, sm_runOffset := o', sm_runSize := n, sm_injections := j\<rparr>) = sm_inv sm"
  "sm_inv (sm\<lparr>sm_cachedSequence := c\<rparr>) = sm_inv sm"
  by (simp_all add: inv_unfold)

context vt_engine
begin

lemma vtLoop_inv:
  assumes "sm_inv sm" "run_before string i sm" "i < length string"
  shows "sm_inv (snd (sm_vtLoop env string i sm)) \<and>
    run_before string (fst (sm_vtLoop env string i sm)) (snd (sm_vtLoop env string i sm)) \<and>
    sm_runSize (snd (sm_vtLoop env string i sm)) \<noteq> 0 \<and>
    sm_isEngineForInput (snd (sm_vtLoop env string i sm)) = sm_isEngineForInput sm \<and>
    (fst (sm_vtLoop env string i sm) < length string \<longrightarrow>
       sm_state (snd (sm_vtLoop env string i sm)) = Ground)"
  using assms
proof (induction "length string - i" arbitrary: i sm rule: less_induct)
  case less
  define sm0 where "sm0 = sm\<lparr>sm_runSize := sm_runSize sm + 1,
    sm_processingLastCharacter := (i + 1 \<ge> length string)\<rparr>"
  define sm1 where "sm1 = sm_ProcessCharacter env (string ! i) sm0"
  have run: "same_run sm0 sm1" unfolding sm1_def by (rule ProcessCharacter_run)
  have inv1: "sm_inv sm1" unfolding sm1_def sm0_def using less.prems by (simp add: ProcessCharacter_inv)
  have run1: "run_before string (i + 1) sm1" "sm_runSize sm1 \<noteq> 0"
    "sm_isEngineForInput sm1 = sm_isEngineForInput sm"
    using run less.prems by (auto simp: run_before_def same_run_def sm0_def)
  have eq: "sm_vtLoop env string i sm = (if i + 1 < length string \<and> sm_state sm1 \<noteq> Ground
      then sm_vtLoop env string (i + 1) sm1 else (i + 1, sm1))"
    unfolding sm1_def sm0_def by (subst sm_vtLoop.simps) (simp only: Let_def)
  show ?case
  proof (cases "i + 1 < length string \<and> sm_state sm1 \<noteq> Ground")
    case True
    moreover have "length string - (i + 1) < length string - i" using True by linarith
    ultimately show ?thesis using less.hyps [of "i + 1" sm1] inv1 run1 eq by simp
  next
    case False
    with eq inv1 run1 show ?thesis by auto
  qed
qed

lemma printRun_inv:
  assumes "sm_inv sm" "sm_currentString sm = string" "i \<le> length string"
  shows "sm_inv (snd (sm_printRun env string i sm)) \<and>
    run_before string (fst (sm_printRun env string i sm)) (snd (sm_printRun env string i sm)) \<and>
    sm_state (snd (sm_printRun env string i sm)) = sm_state sm \<and>
    sm_isEngineForInput (snd (sm_printRun env string i sm)) = sm_isEngineForInput sm"
  using assms plainSearch_le [of "drop i string"]
  by (auto simp: sm_printRun_def Let_def run_before_def sm_ActionPrintString_def)

lemma groundLoop_inv:
  assumes "sm_inv sm" "sm_currentString sm = string" "sm_state sm = Ground \<or> length string \<le> i"
    and "sm_state sm \<noteq> Ground \<Longrightarrow> sm_CurrentRun sm \<noteq> []"
  shows "sm_inv (sm_groundLoop env string i sm) \<and>
    (sm_state (sm_groundLoop env string i sm) \<noteq> Ground \<longrightarrow>
       sm_CurrentRun (sm_groundLoop env string i sm) \<noteq> [])"
  using assms
proof (induction "length string - i" arbitrary: i sm rule: less_induct)
  case less
  show ?case
  proof (cases "i < length string")
    case False
    with less.prems show ?thesis by (subst (1 2 3) sm_groundLoop.simps) simp
  next
    case True
    define i1 sm1 where "i1 = fst (sm_printRun env string i sm)" and "sm1 = snd (sm_printRun env string i sm)"
    have sm1: "sm_inv sm1" "run_before string i1 sm1" "sm_state sm1 = Ground"
      using printRun_inv [of sm string i] less.prems True by (auto simp: i1_def sm1_def)
    have "i \<le> i1" by (auto simp: i1_def sm_printRun_def Let_def)
    define i2 sm2 where "i2 = fst (sm_vtLoop env string i1 sm1)" and "sm2 = snd (sm_vtLoop env string i1 sm1)"
    have eq: "sm_groundLoop env string i sm =
        (if i1 \<ge> length string then sm1 else sm_groundLoop env string i2 sm2)"
      using True by (subst sm_groundLoop.simps) (simp add: i1_def sm1_def i2_def sm2_def split_beta Let_def)
    show ?thesis
    proof (cases "i1 \<ge> length string")
      case True
      with eq sm1 show ?thesis by simp
    next
      case False
      with vtLoop_inv [OF sm1(1,2)] have sm2: "sm_inv sm2" "run_before string i2 sm2"
        "sm_runSize sm2 \<noteq> 0" "i2 < length string \<Longrightarrow> sm_state sm2 = Ground"
        by (auto simp: i2_def sm2_def)
      have "sm_CurrentRun sm2 \<noteq> []"
        using sm2(2,3) by (auto simp: sm_CurrentRun_def run_before_def)
      moreover have "length string - i2 < length string - i"
        using sm_vtLoop_progress [of i1 env string sm1] \<open>i \<le> i1\<close> False by (simp add: i2_def)
      ultimately have "sm_inv (sm_groundLoop env string i2 sm2) \<and>
          (sm_state (sm_groundLoop env string i2 sm2) \<noteq> Ground \<longrightarrow>
             sm_CurrentRun (sm_groundLoop env string i2 sm2) \<noteq> [])"
        using sm2 by (intro less.hyps) (auto simp: run_before_def not_less)
      with eq False show ?thesis by simp
    qed
  qed
qed

lemma finishString_inv:
  assumes "sm_inv sm" "sm_isEngineForInput sm \<Longrightarrow> sm_state sm \<noteq> Ground \<Longrightarrow> sm_CurrentRun sm \<noteq> []"
  shows "sm_inv (sm_finishString env sm)"
proof -
  have core: "sm_core sm" using assms(1) by (rule inv_core)
  have "sm_inv (sm_EnterGround (sm_ActionExecute env ESC (sm_EnterGround sm)))"
    "sm_inv (sm_EnterGround (sm_ActionEscDispatch env w (sm_EnterEscape (sm_EnterGround sm))))" for w
    using core by (intro enter_clearing_inv; simp add: enter_clearing_inv inv_core)+
  with assms show ?thesis by (auto simp: sm_finishString_def Let_def split: if_splits)
qed

lemma ProcessString_inv:
  assumes "sm_inv sm" and "sm_isEngineForInput sm \<Longrightarrow> sm_state sm \<noteq> Ground \<Longrightarrow> string \<noteq> []"
  shows "sm_inv (sm_ProcessString env string sm)"
proof -
  define sm0 where "sm0 = sm\<lparr>sm_currentString := string, sm_runOffset := 0, sm_runSize := 0,
    sm_injections := []\<rparr>"
  have inv0: "sm_inv sm0" and st0: "sm_state sm0 = sm_state sm" "sm_currentString sm0 = string"
    "run_before string 0 sm0"
    using assms(1) by (simp_all add: sm0_def run_before_def)
  show ?thesis
  proof (cases "sm_state sm0 = Ground")
    case True
    have "sm_ProcessString env string sm = sm_finishString env (sm_groundLoop env string 0 sm0)"
      using True by (simp add: sm_ProcessString_def sm0_def [symmetric] Let_def)
    then show ?thesis
      using groundLoop_inv [of sm0 string 0] inv0 st0 True by (auto intro!: finishString_inv)
  next
    case notGround: False
    show ?thesis
    proof (cases "string = []")
      case True
      with notGround assms have "\<not> sm_isEngineForInput sm" using st0 by auto
      then have "\<not> sm_isEngineForInput sm0" by (simp add: sm0_def)
      then have "sm_inv (sm_finishString env sm0)" using inv0 by (intro finishString_inv) simp_all
      with True notGround st0 show ?thesis
        by (simp add: sm_ProcessString_def Let_def) (simp add: sm0_def)
    next
      case False
      define i sm1 where "i = fst (sm_vtLoop env string 0 sm0)" and "sm1 = snd (sm_vtLoop env string 0 sm0)"
      have sm1: "sm_inv sm1" "run_before string i sm1" "sm_runSize sm1 \<noteq> 0"
        "i < length string \<Longrightarrow> sm_state sm1 = Ground"
        using vtLoop_inv [OF inv0 st0(3)] False by (auto simp: i_def sm1_def)
      have "sm_CurrentRun sm1 \<noteq> []"
        using sm1(2,3) by (auto simp: sm_CurrentRun_def run_before_def)
      moreover have "sm_state sm1 = Ground \<or> length string \<le> i" using sm1(4) by linarith
      moreover have "sm_currentString sm1 = string" using sm1(2) by (simp add: run_before_def)
      ultimately have "sm_inv (sm_finishString env (sm_groundLoop env string i sm1))"
        using groundLoop_inv [of sm1 string i] sm1(1) by (auto intro!: finishString_inv)
      with notGround False show ?thesis
        by (simp add: sm_ProcessString_def sm0_def [symmetric] i_def sm1_def split_beta Let_def)
    qed
  qed
qed

end

lemma sm_new_inv: "sm_inv (sm_new e b)"
  by (simp add: sm_new_def sm_SetParserMode_def sm_ActionClear_def inv_unfold MAX_PARAMETER_VALUE_def)

end
