(* ===== verification/Vt_Engine_Frame.thy ===== *)
theory Vt_Engine_Frame
  imports Vt_Invariant
begin

text \<open>
  Properties of the engine's own state: the locale \<open>engine_invariant\<close> is the promise that every
  virtual function, string handler and completion callback keeps a predicate of the engine state,
  and its lemmas lift the predicate to the parser's entry points \<open>ProcessCharacter\<close> and
  \<open>ProcessString\<close>.
\<close>

lemma sm_engine_reply [simp]: "sm_engine (snd (sm_reply r sm)) = reply_engine r"
  by (simp add: sm_reply_def)

locale engine_invariant =
  fixes env :: "('e, 'h, 'k) vt_env" and I :: "'e \<Rightarrow> bool"
  assumes action_I: "I e \<Longrightarrow> I (reply_engine (env_action env c b e))"
    and dcs_I: "I e \<Longrightarrow> I (reply_engine (env_dcs env i ps b e))"
    and handler_I: "I e \<Longrightarrow> I (reply_engine (env_handler env h wch b e))"
    and unknown_I: "I e \<Longrightarrow> I (reply_engine (env_unknown env b e))"
    and callback_I: "I (sm_engine sm) \<Longrightarrow> I (sm_engine (env_callback env k sm))"
begin

lemma call_I: "I (sm_engine sm) \<Longrightarrow> I (sm_engine (snd (sm_call env c sm)))"
  by (simp add: sm_call_def action_I)

lemma raise_fault_engine: "sm_engine (raise_fault f sm) = sm_engine sm"
  by (simp add: raise_fault_def)

lemma SafeExecute_via_I:
  assumes "\<And>sm. I (sm_engine sm) \<Longrightarrow> I (sm_engine (snd (flush sm)))" and "I (sm_engine sm)"
  shows "I (sm_engine (snd (sm_SafeExecute_via flush env c sm)))"
  using assms call_I [of sm c]
  by (auto simp: sm_SafeExecute_via_def split: prod.splits option.splits)

lemma Flush_I: "I (sm_engine sm) \<Longrightarrow> I (sm_engine (snd (sm_FlushToTerminal n env sm)))"
proof (induction n arbitrary: sm)
  case 0
  then show ?case by (simp add: raise_fault_engine)
next
  case (Suc n)
  have via: "I (sm_engine sm) \<Longrightarrow>
      I (sm_engine (snd (sm_SafeExecute_via (sm_FlushToTerminal n env) env c sm)))" for c sm
    by (rule SafeExecute_via_I) (rule Suc.IH)
  show ?case
  proof (cases "sm_cachedSequence sm")
    case None
    with Suc.prems via show ?thesis by simp
  next
    case (Some seq)
    define sm1 where "sm1 = (snd (sm_SafeExecute_via (sm_FlushToTerminal n env) env
      (ActionPassThroughString seq) sm))\<lparr>sm_cachedSequence := None\<rparr>"
    have "I (sm_engine sm1)" using via [OF Suc.prems] by (simp add: sm1_def)
    with Some via show ?thesis by (simp add: sm1_def [symmetric] split_beta Let_def)
  qed
qed

lemma SafeExecute_I [intro]: "I (sm_engine sm) \<Longrightarrow> I (sm_engine (snd (sm_SafeExecute env c sm)))"
  unfolding sm_SafeExecute_def by (rule SafeExecute_via_I) (rule Flush_I)

lemma runHandler_I [intro]: "I (sm_engine sm) \<Longrightarrow> I (sm_engine (snd (sm_runHandler env wch sm)))"
  using handler_I [of "sm_engine sm"]
  by (auto simp: sm_runHandler_def raise_fault_engine sm_reply_def split: option.split)

lemma ActionInterrupt_I: "I (sm_engine sm) \<Longrightarrow> I (sm_engine (sm_ActionInterrupt env sm))"
  using runHandler_I [of sm ESC] by (simp add: sm_ActionInterrupt_def)

lemma param_engine: "sm_engine (sm_ActionParam wch sm) = sm_engine sm"
  "sm_engine (sm_ActionSubParam wch sm) = sm_engine sm"
  by (simp_all add: sm_ActionParam_def sm_ActionSubParam_def vt_defs Let_def raise_fault_def
      split: prod.split)

lemma finishCsi_I: "I (sm_engine sm) \<Longrightarrow> I (sm_engine (sm_finishCsi env wch sm))"
  by (auto simp: sm_finishCsi_def sm_ExecuteCsiCompleteCallback_def vt_defs Let_def
      split: option.split intro!: callback_I)

lemma ActionDcsDispatch_I: "I (sm_engine sm) \<Longrightarrow> I (sm_engine (sm_ActionDcsDispatch env wch sm))"
  using dcs_I [of "sm_engine sm"]
  by (auto simp: sm_ActionDcsDispatch_def sm_reply_def vt_defs Let_def split: option.split)

lemma EventEscape_I: "I (sm_engine sm) \<Longrightarrow> I (sm_engine (sm_EventEscape env wch sm))"
  by (auto simp: sm_EventEscape_def vt_defs Let_def intro!: unknown_I)

lemma EventDcsPassThrough_I: "I (sm_engine sm) \<Longrightarrow> I (sm_engine (sm_EventDcsPassThrough env wch sm))"
  using runHandler_I [of sm wch] by (simp add: sm_EventDcsPassThrough_def vt_defs split_beta Let_def)

lemma EnterEscape_engine: "sm_engine (sm_EnterEscape sm) = sm_engine sm"
  by (simp add: vt_defs)

lemma dispatchEvent_I: "I (sm_engine sm) \<Longrightarrow> I (sm_engine (sm_dispatchEvent env wch sm))"
  using finishCsi_I [of sm wch] ActionDcsDispatch_I [of sm wch]
    EventEscape_I [of "sm_EnterEscape sm" wch] EventEscape_I [of sm wch] EventDcsPassThrough_I [of sm wch]
    SafeExecute_I [of sm]
  by (cases "sm_state sm")
    (auto simp add: sm_dispatchEvent_def sm_EventGround_def sm_EventEscapeIntermediate_def
      sm_EventCsiEntry_def sm_EventCsiIntermediate_def sm_EventCsiIgnore_def sm_EventCsiParam_def
      sm_EventCsiSubParam_def sm_EventOscParam_def sm_EventOscString_def sm_EventOscTermination_def
      sm_EventSs3Entry_def sm_EventSs3Param_def sm_EventVt52Param_def sm_EventDcsEntry_def
      sm_EventDcsIgnore_def sm_EventDcsIntermediate_def sm_EventDcsParam_def
      sm_EventSosPmApcString_def param_engine EnterEscape_engine vt_defs Let_def)

lemma ProcessCharacter_I_not_c1:
  "\<not> isC1ControlCharacter wch \<Longrightarrow> I (sm_engine sm) \<Longrightarrow> I (sm_engine (sm_ProcessCharacter env wch sm))"
  using ActionInterrupt_I [of sm] dispatchEvent_I [of sm wch]
  by (subst sm_ProcessCharacter.simps) (auto simp: Let_def vt_defs)

lemma ProcessCharacter_I: "I (sm_engine sm) \<Longrightarrow> I (sm_engine (sm_ProcessCharacter env wch sm))"
proof (cases "isC1ControlCharacter wch")
  case True
  assume I: "I (sm_engine sm)"
  then have "I (sm_engine (sm_ProcessCharacter env (c1To7Bit wch) (sm_ProcessCharacter env ESC sm)))"
    using True by (intro ProcessCharacter_I_not_c1 c1_expansion_not_c1)
  with True I ActionInterrupt_I [of sm] show ?thesis
    by (subst sm_ProcessCharacter.simps) (auto simp: Let_def vt_defs)
qed (rule ProcessCharacter_I_not_c1)

lemma vtLoop_I: "I (sm_engine sm) \<Longrightarrow> I (sm_engine (snd (sm_vtLoop env string i sm)))"
proof (induction "length string - i" arbitrary: i sm rule: less_induct)
  case less
  define sm1 where "sm1 = sm_ProcessCharacter env (string ! i) (sm\<lparr>sm_runSize := sm_runSize sm + 1,
    sm_processingLastCharacter := (i + 1 \<ge> length string)\<rparr>)"
  have "I (sm_engine sm1)" unfolding sm1_def using less.prems by (intro ProcessCharacter_I) simp
  moreover have "sm_vtLoop env string i sm = (if i + 1 < length string \<and> sm_state sm1 \<noteq> Ground
      then sm_vtLoop env string (i + 1) sm1 else (i + 1, sm1))"
    unfolding sm1_def by (subst sm_vtLoop.simps) (simp only: Let_def)
  ultimately show ?case using less.hyps [of "i + 1" sm1] by auto
qed

lemma printRun_I: "I (sm_engine sm) \<Longrightarrow> I (sm_engine (snd (sm_printRun env string i sm)))"
  by (auto simp: sm_printRun_def Let_def sm_ActionPrintString_def)

lemma groundLoop_I: "I (sm_engine sm) \<Longrightarrow> I (sm_engine (sm_groundLoop env string i sm))"
proof (induction "length string - i" arbitrary: i sm rule: less_induct)
  case less
  define i1 sm1 where "i1 = fst (sm_printRun env string i sm)" and "sm1 = snd (sm_printRun env string i sm)"
  define i2 sm2 where "i2 = fst (sm_vtLoop env string i1 sm1)" and "sm2 = snd (sm_vtLoop env string i1 sm1)"
  have I1: "I (sm_engine sm1)" unfolding sm1_def using less.prems by (rule printRun_I)
  then have I2: "I (sm_engine sm2)" unfolding sm2_def by (rule vtLoop_I)
  have eq: "sm_groundLoop env string i sm =
      (if i < length string then if i1 \<ge> length string then sm1 else sm_groundLoop env string i2 sm2 else sm)"
    by (subst sm_groundLoop.simps) (simp add: i1_def sm1_def i2_def sm2_def split_beta Let_def)
  have "i \<le> i1" by (auto simp: i1_def sm_printRun_def Let_def)
  moreover have "i1 < i2" unfolding i2_def by (rule sm_vtLoop_progress)
  ultimately have "i < length string \<Longrightarrow> length string - i2 < length string - i" by linarith
  with less.hyps [OF _ I2] less.prems I1 eq show ?case by simp
qed

lemma finishString_I: "I (sm_engine sm) \<Longrightarrow> I (sm_engine (sm_finishString env sm))"
  using SafeExecute_I
  by (auto simp: sm_finishString_def Let_def raise_fault_engine vt_defs split: if_splits)

lemma ProcessString_I:
  assumes "I (sm_engine sm)"
  shows "I (sm_engine (sm_ProcessString env string sm))"
proof -
  define sm0 where "sm0 = sm\<lparr>sm_currentString := string, sm_runOffset := 0, sm_runSize := 0,
    sm_injections := []\<rparr>"
  have I0: "I (sm_engine sm0)" using assms by (simp add: sm0_def)
  have "I (sm_engine (sm_groundLoop env string (fst (sm_vtLoop env string 0 sm0))
      (snd (sm_vtLoop env string 0 sm0))))"
    by (intro groundLoop_I vtLoop_I I0)
  moreover have "I (sm_engine (sm_groundLoop env string 0 sm0))" by (intro groundLoop_I I0)
  ultimately show ?thesis
    using I0 by (simp add: sm_ProcessString_def sm0_def [symmetric] Let_def split_beta finishString_I)
qed

end

text \<open>Neither does any entry point change whether the parser reads input or output.\<close>

context vt_engine
begin

lemma vtLoop_role: "sm_isEngineForInput (snd (sm_vtLoop env string i sm)) = sm_isEngineForInput sm"
proof (induction "length string - i" arbitrary: i sm rule: less_induct)
  case less
  define sm1 where "sm1 = sm_ProcessCharacter env (string ! i) (sm\<lparr>sm_runSize := sm_runSize sm + 1,
    sm_processingLastCharacter := (i + 1 \<ge> length string)\<rparr>)"
  have "sm_isEngineForInput sm1 = sm_isEngineForInput sm"
    using ProcessCharacter_run [of "sm\<lparr>sm_runSize := sm_runSize sm + 1,
      sm_processingLastCharacter := (i + 1 \<ge> length string)\<rparr>" "string ! i"]
    by (simp add: sm1_def same_run_def)
  moreover have "sm_vtLoop env string i sm = (if i + 1 < length string \<and> sm_state sm1 \<noteq> Ground
      then sm_vtLoop env string (i + 1) sm1 else (i + 1, sm1))"
    unfolding sm1_def by (subst sm_vtLoop.simps) (simp only: Let_def)
  moreover have "i + 1 < length string \<Longrightarrow> length string - (i + 1) < length string - i" by linarith
  ultimately show ?case using less.hyps [of "i + 1" sm1] by simp
qed

lemma groundLoop_role: "sm_isEngineForInput (sm_groundLoop env string i sm) = sm_isEngineForInput sm"
proof (induction "length string - i" arbitrary: i sm rule: less_induct)
  case less
  define i1 sm1 where "i1 = fst (sm_printRun env string i sm)" and "sm1 = snd (sm_printRun env string i sm)"
  define i2 sm2 where "i2 = fst (sm_vtLoop env string i1 sm1)" and "sm2 = snd (sm_vtLoop env string i1 sm1)"
  have r1: "sm_isEngineForInput sm1 = sm_isEngineForInput sm"
    by (simp add: sm1_def sm_printRun_def Let_def sm_ActionPrintString_def)
  then have r2: "sm_isEngineForInput sm2 = sm_isEngineForInput sm" unfolding sm2_def by (simp add: vtLoop_role)
  have eq: "sm_groundLoop env string i sm =
      (if i < length string then if i1 \<ge> length string then sm1 else sm_groundLoop env string i2 sm2 else sm)"
    by (subst sm_groundLoop.simps) (simp add: i1_def sm1_def i2_def sm2_def split_beta Let_def)
  have "i \<le> i1" by (auto simp: i1_def sm_printRun_def Let_def)
  moreover have "i1 < i2" unfolding i2_def by (rule sm_vtLoop_progress)
  ultimately have "i < length string \<Longrightarrow> length string - i2 < length string - i" by linarith
  with less.hyps [of i2 sm2] r1 r2 eq show ?case by simp
qed

lemma finishString_role: "sm_isEngineForInput (sm_finishString env sm) = sm_isEngineForInput sm"
  by (simp add: sm_finishString_def Let_def raise_fault_def vt_defs)

lemma ProcessString_role: "sm_isEngineForInput (sm_ProcessString env string sm) = sm_isEngineForInput sm"
  by (simp add: sm_ProcessString_def Let_def split_beta finishString_role groundLoop_role vtLoop_role)

end

end
