(* ===== verification/Vt_Stream.thy ===== *)
theory Vt_Stream
  imports Vt_Engine_Frame
begin

text \<open>
  \<open>ProcessString\<close> as a stream processor. The applications behind a terminal write their output in
  arbitrary pieces, so the parser must not depend on where one piece ends and the next begins.
  \<open>sm_obs\<close> forgets what only exists for the current piece: the piece and the run inside it, the
  cached text of an unfinished sequence, the injections, and the hint whether the last character is
  being processed. The locale \<open>stream_engine\<close> states what the engine has to promise, and its
  theorem is that processing two pieces is processing their concatenation.
\<close>

subsection \<open>What outlives a piece\<close>

definition sm_obs :: "('e, 'h, 'k) StateMachine \<Rightarrow> ('e, 'h, 'k) StateMachine" where
  "sm_obs sm = sm\<lparr>sm_currentString := [], sm_runOffset := 0, sm_runSize := 0, sm_cachedSequence := None,
     sm_injections := [], sm_processingLastCharacter := False\<rparr>"

lemma obs_sel [simp]:
  "sm_engine (sm_obs sm) = sm_engine sm" "sm_isEngineForInput (sm_obs sm) = sm_isEngineForInput sm"
  "sm_state (sm_obs sm) = sm_state sm" "sm_parserMode (sm_obs sm) = sm_parserMode sm"
  "sm_identifier (sm_obs sm) = sm_identifier sm" "sm_parameters (sm_obs sm) = sm_parameters sm"
  "sm_parameterLimitOverflowed (sm_obs sm) = sm_parameterLimitOverflowed sm"
  "sm_subParameters (sm_obs sm) = sm_subParameters sm"
  "sm_subParameterRanges (sm_obs sm) = sm_subParameterRanges sm"
  "sm_subParameterLimitOverflowed (sm_obs sm) = sm_subParameterLimitOverflowed sm"
  "sm_subParameterCounter (sm_obs sm) = sm_subParameterCounter sm"
  "sm_oscString (sm_obs sm) = sm_oscString sm" "sm_oscParameter (sm_obs sm) = sm_oscParameter sm"
  "sm_dcsStringHandler (sm_obs sm) = sm_dcsStringHandler sm"
  "sm_onCsiCompleteCallback (sm_obs sm) = sm_onCsiCompleteCallback sm" "sm_fault (sm_obs sm) = sm_fault sm"
  by (simp_all add: sm_obs_def)

lemma obs_idem [simp]: "sm_obs (sm_obs sm) = sm_obs sm"
  by (simp add: sm_obs_def)

lemma obs_upd [simp]:
  "sm_obs (sm\<lparr>sm_engine := x1\<rparr>) = (sm_obs sm)\<lparr>sm_engine := x1\<rparr>"
  "sm_obs (sm\<lparr>sm_state := x2\<rparr>) = (sm_obs sm)\<lparr>sm_state := x2\<rparr>"
  "sm_obs (sm\<lparr>sm_parserMode := x3\<rparr>) = (sm_obs sm)\<lparr>sm_parserMode := x3\<rparr>"
  "sm_obs (sm\<lparr>sm_identifier := x4\<rparr>) = (sm_obs sm)\<lparr>sm_identifier := x4\<rparr>"
  "sm_obs (sm\<lparr>sm_parameters := x5\<rparr>) = (sm_obs sm)\<lparr>sm_parameters := x5\<rparr>"
  "sm_obs (sm\<lparr>sm_subParameters := x6\<rparr>) = (sm_obs sm)\<lparr>sm_subParameters := x6\<rparr>"
  "sm_obs (sm\<lparr>sm_oscString := x7\<rparr>) = (sm_obs sm)\<lparr>sm_oscString := x7\<rparr>"
  "sm_obs (sm\<lparr>sm_oscParameter := x8\<rparr>) = (sm_obs sm)\<lparr>sm_oscParameter := x8\<rparr>"
  "sm_obs (sm\<lparr>sm_dcsStringHandler := x9\<rparr>) = (sm_obs sm)\<lparr>sm_dcsStringHandler := x9\<rparr>"
  "sm_obs (sm\<lparr>sm_onCsiCompleteCallback := x10\<rparr>) = (sm_obs sm)\<lparr>sm_onCsiCompleteCallback := x10\<rparr>"
  "sm_obs (sm\<lparr>sm_currentString := y1\<rparr>) = sm_obs sm" "sm_obs (sm\<lparr>sm_runOffset := y2\<rparr>) = sm_obs sm"
  "sm_obs (sm\<lparr>sm_runSize := y3\<rparr>) = sm_obs sm" "sm_obs (sm\<lparr>sm_cachedSequence := y4\<rparr>) = sm_obs sm"
  "sm_obs (sm\<lparr>sm_injections := y5\<rparr>) = sm_obs sm"
  "sm_obs (sm\<lparr>sm_processingLastCharacter := y6\<rparr>) = sm_obs sm"
  by (simp_all add: sm_obs_def)

text \<open>The parts of the parser that never look at the piece commute with forgetting it.\<close>

lemma obs_actions [simp]:
  "sm_obs (sm_ActionClear sm) = sm_ActionClear (sm_obs sm)"
  "sm_obs (sm_ActionCollect wch sm) = sm_ActionCollect wch (sm_obs sm)"
  "sm_obs (sm_ActionIgnore sm) = sm_ActionIgnore (sm_obs sm)"
  "sm_obs (sm_ActionOscParam wch sm) = sm_ActionOscParam wch (sm_obs sm)"
  "sm_obs (sm_ActionOscPut wch sm) = sm_ActionOscPut wch (sm_obs sm)"
  "sm_obs (raise_fault f sm) = raise_fault f (sm_obs sm)"
  by (simp_all add: sm_ActionClear_def sm_ActionCollect_def sm_ActionIgnore_def sm_ActionOscParam_def
      sm_ActionOscPut_def raise_fault_def) (simp_all add: sm_obs_def)

lemma obs_params [simp]:
  "sm_obs (sm_ActionParam wch sm) = sm_ActionParam wch (sm_obs sm)"
  "sm_obs (sm_ActionSubParam wch sm) = sm_ActionSubParam wch (sm_obs sm)"
  by (simp_all add: sm_ActionParam_def sm_ActionSubParam_def sm_firstParam_def sm_nextParam_def
      sm_nextSubParam_def raise_fault_def sm_obs_def Let_def split: prod.split)

lemma obs_entries [simp]:
  "sm_obs (sm_EnterGround sm) = sm_EnterGround (sm_obs sm)"
  "sm_obs (sm_EnterEscape sm) = sm_EnterEscape (sm_obs sm)"
  "sm_obs (sm_EnterEscapeIntermediate sm) = sm_EnterEscapeIntermediate (sm_obs sm)"
  "sm_obs (sm_EnterCsiEntry sm) = sm_EnterCsiEntry (sm_obs sm)"
  "sm_obs (sm_EnterCsiParam sm) = sm_EnterCsiParam (sm_obs sm)"
  "sm_obs (sm_EnterCsiSubParam sm) = sm_EnterCsiSubParam (sm_obs sm)"
  "sm_obs (sm_EnterCsiIgnore sm) = sm_EnterCsiIgnore (sm_obs sm)"
  "sm_obs (sm_EnterCsiIntermediate sm) = sm_EnterCsiIntermediate (sm_obs sm)"
  "sm_obs (sm_EnterOscParam sm) = sm_EnterOscParam (sm_obs sm)"
  "sm_obs (sm_EnterOscString sm) = sm_EnterOscString (sm_obs sm)"
  "sm_obs (sm_EnterOscTermination sm) = sm_EnterOscTermination (sm_obs sm)"
  "sm_obs (sm_EnterSs3Entry sm) = sm_EnterSs3Entry (sm_obs sm)"
  "sm_obs (sm_EnterSs3Param sm) = sm_EnterSs3Param (sm_obs sm)"
  "sm_obs (sm_EnterVt52Param sm) = sm_EnterVt52Param (sm_obs sm)"
  "sm_obs (sm_EnterDcsEntry sm) = sm_EnterDcsEntry (sm_obs sm)"
  "sm_obs (sm_EnterDcsParam sm) = sm_EnterDcsParam (sm_obs sm)"
  "sm_obs (sm_EnterDcsIgnore sm) = sm_EnterDcsIgnore (sm_obs sm)"
  "sm_obs (sm_EnterDcsIntermediate sm) = sm_EnterDcsIntermediate (sm_obs sm)"
  "sm_obs (sm_EnterDcsPassThrough sm) = sm_EnterDcsPassThrough (sm_obs sm)"
  by (simp_all add: vt_defs) (simp_all add: sm_obs_def)

lemma obs_request: "sm_obs (sm_request q sm) = sm_obs (sm_request q (sm_obs sm))"
  by (cases q) (simp_all add: sm_SetParserMode_def sm_InjectSequence_def sm_OnCsiComplete_def)

lemma obs_requests: "sm_obs (fold sm_request qs sm) = sm_obs (fold sm_request qs (sm_obs sm))"
proof (induction qs arbitrary: sm)
  case (Cons q qs)
  have "sm_obs (fold sm_request qs (sm_request q sm)) = sm_obs (fold sm_request qs (sm_obs (sm_request q (sm_obs sm))))"
    using Cons.IH [of "sm_request q sm"] by (simp add: obs_request [of q sm])
  also have "\<dots> = sm_obs (fold sm_request qs (sm_request q (sm_obs sm)))"
    by (rule Cons.IH [symmetric])
  finally show ?case by simp
qed simp

lemma obs_reply: "sm_obs (snd (sm_reply r (sm_obs sm))) = sm_obs (snd (sm_reply r sm))"
  using obs_requests [of "reply_requests r" "sm\<lparr>sm_engine := reply_engine r\<rparr>"]
  by (simp add: sm_reply_def)

lemma fst_reply [simp]: "fst (sm_reply r sm) = reply_result r"
  by (simp add: sm_reply_def)

subsection \<open>The contract\<close>

text \<open>
  Beyond the contract of \<open>vt_engine\<close>: no action is refused (so nothing is ever flushed), the engine
  does not use the hint about the last character to change what it does, printing a text is printing
  its parts one after the other, and running a completion callback does not depend on the piece.
\<close>

locale stream_engine = vt_engine env for env :: "('e, 'h, 'k) vt_env" +
  assumes never_refused: "reply_result (env_action env c b e) \<noteq> Some False"
    and hint_action: "env_action env c b e = env_action env c False e"
    and hint_dcs: "env_dcs env i ps b e = env_dcs env i ps False e"
    and hint_handler: "env_handler env h wch b e = env_handler env h wch False e"
    and hint_unknown: "env_unknown env b e = env_unknown env False e"
    and print_quiet: "s \<noteq> [] \<Longrightarrow> \<forall>c \<in> set s. \<not> isActionableFromGround c \<Longrightarrow>
      reply_requests (env_action env (ActionPrintString s) False e) = []"
    and print_append: "s \<noteq> [] \<Longrightarrow> t \<noteq> [] \<Longrightarrow> \<forall>c \<in> set (s @ t). \<not> isActionableFromGround c \<Longrightarrow>
      reply_engine (env_action env (ActionPrintString (s @ t)) False e) =
      reply_engine (env_action env (ActionPrintString t) False
        (reply_engine (env_action env (ActionPrintString s) False e)))"
    and callback_obs: "\<not> sm_isEngineForInput sm \<Longrightarrow>
      sm_obs (env_callback env k (sm_obs sm)) = sm_obs (env_callback env k sm)"
begin

lemma SafeExecute_reply:
  "snd (sm_SafeExecute env c sm) = snd (sm_reply (env_action env c False (sm_engine sm)) sm)"
  using never_refused [of c False "sm_engine sm"] hint_action [of c "sm_processingLastCharacter sm" "sm_engine sm"]
  by (auto simp: sm_SafeExecute_def sm_SafeExecute_via_def sm_call_def sm_reply_def
      split: prod.splits option.splits)

lemma SafeExecute_obs:
  "sm_obs (snd (sm_SafeExecute env c (sm_obs sm))) = sm_obs (snd (sm_SafeExecute env c sm))"
  by (simp add: SafeExecute_reply obs_reply)

lemma actions_obs [simp]:
  "sm_obs (sm_ActionExecute env wch (sm_obs sm)) = sm_obs (sm_ActionExecute env wch sm)"
  "sm_obs (sm_ActionExecuteFromEscape env wch (sm_obs sm)) = sm_obs (sm_ActionExecuteFromEscape env wch sm)"
  "sm_obs (sm_ActionPrint env wch (sm_obs sm)) = sm_obs (sm_ActionPrint env wch sm)"
  "sm_obs (sm_ActionPrintString env s (sm_obs sm)) = sm_obs (sm_ActionPrintString env s sm)"
  "sm_obs (sm_ActionEscDispatch env wch (sm_obs sm)) = sm_obs (sm_ActionEscDispatch env wch sm)"
  "sm_obs (sm_ActionVt52EscDispatch env wch (sm_obs sm)) = sm_obs (sm_ActionVt52EscDispatch env wch sm)"
  "sm_obs (sm_ActionCsiDispatch env wch (sm_obs sm)) = sm_obs (sm_ActionCsiDispatch env wch sm)"
  "sm_obs (sm_ActionOscDispatch env (sm_obs sm)) = sm_obs (sm_ActionOscDispatch env sm)"
  "sm_obs (sm_ActionSs3Dispatch env wch (sm_obs sm)) = sm_obs (sm_ActionSs3Dispatch env wch sm)"
  by (simp_all add: sm_ActionExecute_def sm_ActionExecuteFromEscape_def sm_ActionPrint_def
      sm_ActionPrintString_def sm_ActionEscDispatch_def sm_ActionVt52EscDispatch_def sm_ActionCsiDispatch_def
      sm_csiParameters_def sm_ActionOscDispatch_def sm_ActionSs3Dispatch_def SafeExecute_obs)

lemma runHandler_obs:
  "sm_obs (snd (sm_runHandler env wch (sm_obs sm))) = sm_obs (snd (sm_runHandler env wch sm))"
  "fst (sm_runHandler env wch (sm_obs sm)) = fst (sm_runHandler env wch sm)"
proof -
  have "sm_runHandler env wch sm = (case sm_dcsStringHandler sm of
      None \<Rightarrow> (False, raise_fault NullStringHandler sm)
    | Some h \<Rightarrow> (case sm_reply (env_handler env h wch False (sm_engine sm)) sm of
        (None, sm') \<Rightarrow> (False, raise_fault HandlerThrew sm') | (Some ok, sm') \<Rightarrow> (ok, sm')))" for sm
    by (simp add: sm_runHandler_def hint_handler [where b = "sm_processingLastCharacter sm"] split: option.split)
  note eq = this
  show "sm_obs (snd (sm_runHandler env wch (sm_obs sm))) = sm_obs (snd (sm_runHandler env wch sm))"
    "fst (sm_runHandler env wch (sm_obs sm)) = fst (sm_runHandler env wch sm)"
    using obs_reply [of "env_handler env h wch False (sm_engine sm)" sm for h]
    unfolding eq by (auto simp: sm_reply_def split: option.split)
qed

lemma ActionInterrupt_obs [simp]:
  "sm_obs (sm_ActionInterrupt env (sm_obs sm)) = sm_obs (sm_ActionInterrupt env sm)"
  using runHandler_obs [of ESC sm] by (simp add: sm_ActionInterrupt_def)

lemma EnterSosPmApcString_obs [simp]:
  "sm_obs (sm_EnterSosPmApcString env (sm_obs sm)) = sm_obs (sm_EnterSosPmApcString env sm)"
proof -
  have "sm_EnterSosPmApcString env sm = snd (sm_reply (env_unknown env False (sm_engine sm))
      (sm\<lparr>sm_state := SosPmApcString, sm_cachedSequence := None\<rparr>))" for sm
    by (simp add: sm_EnterSosPmApcString_def Let_def hint_unknown [where b = "sm_processingLastCharacter sm"])
  note eq = this
  show ?thesis
    unfolding eq
    using obs_reply [of "env_unknown env False (sm_engine sm)" "(sm_obs sm)\<lparr>sm_state := SosPmApcString, sm_cachedSequence := None\<rparr>"]
      obs_reply [of "env_unknown env False (sm_engine sm)" "sm\<lparr>sm_state := SosPmApcString, sm_cachedSequence := None\<rparr>"]
    by simp
qed

lemma ActionDcsDispatch_obs [simp]:
  "sm_obs (sm_ActionDcsDispatch env wch (sm_obs sm)) = sm_obs (sm_ActionDcsDispatch env wch sm)"
proof -
  define r where "r = env_dcs env (VTIDBuilder_Finalize wch (sm_identifier sm))
    (VTParameters_plain (sm_parameters sm)) False (sm_engine sm)"
  have "sm_ActionDcsDispatch env wch s = (let sm1 = (case reply_result r of
      Some h \<Rightarrow> (snd (sm_reply r s))\<lparr>sm_dcsStringHandler := h\<rparr> | None \<Rightarrow> snd (sm_reply r s))
    in if sm_dcsStringHandler sm1 \<noteq> None then sm_EnterDcsPassThrough sm1 else sm_EnterDcsIgnore sm1)"
    if "s = sm \<or> s = sm_obs sm" for s
  proof -
    have "env_dcs env (VTIDBuilder_Finalize wch (sm_identifier s)) (VTParameters_plain (sm_parameters s))
        (sm_processingLastCharacter s) (sm_engine s) = r"
      using that hint_dcs by (auto simp: r_def)
    then show ?thesis by (auto simp: sm_ActionDcsDispatch_def Let_def sm_reply_def split: option.split)
  qed
  moreover have handler: "sm_dcsStringHandler (snd (sm_reply r s)) = sm_dcsStringHandler s" for s
    using same_parser_reply [of s r] by (simp add: same_parser_def)
  ultimately show ?thesis by (auto simp add: Let_def obs_reply handler split: option.split)
qed

lemma finishCsi_obs [simp]:
  assumes "\<not> sm_isEngineForInput sm"
  shows "sm_obs (sm_finishCsi env wch (sm_obs sm)) = sm_obs (sm_finishCsi env wch sm)"
proof -
  define sm1 where "sm1 = sm_EnterGround (sm_ActionCsiDispatch env wch sm)"
  define sm2 where "sm2 = sm_EnterGround (sm_ActionCsiDispatch env wch (sm_obs sm))"
  have eq: "sm_obs sm1 = sm_obs sm2" by (simp add: sm1_def sm2_def)
  have "\<not> sm_isEngineForInput sm1" "\<not> sm_isEngineForInput sm2"
    using assms by (simp_all add: sm1_def sm2_def sm_EnterGround_def sm_ActionCsiDispatch_def)
  note role = this
  have "sm_onCsiCompleteCallback sm1 = sm_onCsiCompleteCallback sm2" using eq by (metis obs_sel(15))
  moreover have "sm_obs (env_callback env k (sm1\<lparr>sm_onCsiCompleteCallback := None\<rparr>)) =
      sm_obs (env_callback env k (sm2\<lparr>sm_onCsiCompleteCallback := None\<rparr>))" for k
    using callback_obs [of "sm1\<lparr>sm_onCsiCompleteCallback := None\<rparr>" k]
      callback_obs [of "sm2\<lparr>sm_onCsiCompleteCallback := None\<rparr>" k] eq role by simp
  ultimately show ?thesis
    unfolding sm_finishCsi_def sm_ExecuteCsiCompleteCallback_def sm1_def [symmetric] sm2_def [symmetric]
    using eq by (simp add: Let_def split: option.split)
qed

end

subsection \<open>Characters\<close>

context stream_engine
begin

lemma EventEscape_obs [simp]:
  "sm_obs (sm_EventEscape env wch (sm_obs sm)) = sm_obs (sm_EventEscape env wch sm)"
  by (simp add: sm_EventEscape_def sm_GetParserMode_def)

lemma EventOscTermination_obs:
  "sm_obs (sm_EventOscTermination env wch (sm_obs sm)) = sm_obs (sm_EventOscTermination env wch sm)"
  using EventEscape_obs [of wch "sm_EnterEscape sm"] by (simp add: sm_EventOscTermination_def)

lemma EventVt52Param_obs:
  "sm_obs (sm_EventVt52Param env wch (sm_obs sm)) = sm_obs (sm_EventVt52Param env wch sm)"
  using actions_obs(6) [of "0x59" "sm\<lparr>sm_parameters := sm_parameters sm @ [VTParameter (uint wch)]\<rparr>"]
  by (simp add: sm_EventVt52Param_def Let_def)

lemma EventDcsPassThrough_obs:
  "sm_obs (sm_EventDcsPassThrough env wch (sm_obs sm)) = sm_obs (sm_EventDcsPassThrough env wch sm)"
  using runHandler_obs [of wch sm] by (simp add: sm_EventDcsPassThrough_def split_beta Let_def)

lemma dispatchEvent_obs:
  assumes "\<not> sm_isEngineForInput sm"
  shows "sm_obs (sm_dispatchEvent env wch (sm_obs sm)) = sm_obs (sm_dispatchEvent env wch sm)"
proof -
  note string_events = EventOscTermination_obs [of wch sm] EventVt52Param_obs [of wch sm]
    EventDcsPassThrough_obs [of wch sm]
  show ?thesis
    using assms
    by (cases "sm_state sm")
      (simp_all add: sm_dispatchEvent_def string_events sm_EventGround_def sm_EventEscapeIntermediate_def
        sm_EventCsiEntry_def sm_EventCsiIntermediate_def sm_EventCsiIgnore_def sm_EventCsiParam_def
        sm_EventCsiSubParam_def sm_EventOscParam_def sm_EventOscString_def sm_EventSs3Entry_def
        sm_EventSs3Param_def sm_EventDcsEntry_def sm_EventDcsIgnore_def sm_EventDcsIntermediate_def
        sm_EventDcsParam_def sm_EventSosPmApcString_def sm_ActionIgnore_def sm_GetParserMode_def
        Let_def)
qed

lemma ProcessCharacter_obs_not_c1:
  assumes c1: "\<not> isC1ControlCharacter wch" and out: "\<not> sm_isEngineForInput sm"
  shows "sm_obs (sm_ProcessCharacter env wch (sm_obs sm)) = sm_obs (sm_ProcessCharacter env wch sm)"
proof -
  have "sm_obs (sm_ActionExecute env wch (sm_ActionInterrupt env (sm_obs sm))) =
      sm_obs (sm_ActionExecute env wch (sm_ActionInterrupt env sm))"
    by (metis actions_obs(1) ActionInterrupt_obs)
  with c1 dispatchEvent_obs [OF out] show ?thesis
    by (subst (1 2) sm_ProcessCharacter.simps) (simp add: Let_def)
qed

lemma ProcessCharacter_role: "sm_isEngineForInput (sm_ProcessCharacter env wch sm) = sm_isEngineForInput sm"
  using ProcessCharacter_run [of sm wch] by (simp add: same_run_def)

lemma ProcessCharacter_obs:
  assumes out: "\<not> sm_isEngineForInput sm"
  shows "sm_obs (sm_ProcessCharacter env wch (sm_obs sm)) = sm_obs (sm_ProcessCharacter env wch sm)"
proof (cases "isC1ControlCharacter wch")
  case True
  have "sm_obs (sm_ProcessCharacter env (c1To7Bit wch) a) = sm_obs (sm_ProcessCharacter env (c1To7Bit wch) b)"
    if "sm_obs a = sm_obs b" "\<not> sm_isEngineForInput a" "\<not> sm_isEngineForInput b" for a b
    using ProcessCharacter_obs_not_c1 [OF c1_expansion_not_c1(2) [OF True]] that by metis
  from this [OF ProcessCharacter_obs_not_c1 [OF c1_expansion_not_c1(1) out]]
  have "sm_obs (sm_ProcessCharacter env (c1To7Bit wch) (sm_ProcessCharacter env ESC (sm_obs sm))) =
      sm_obs (sm_ProcessCharacter env (c1To7Bit wch) (sm_ProcessCharacter env ESC sm))"
    using out by (simp add: ProcessCharacter_role)
  moreover have "\<not> (wch = CAN \<or> wch = SUB)" using True by (auto simp: isC1ControlCharacter_def)
  ultimately show ?thesis
    using True by (subst (1 2) sm_ProcessCharacter.simps) (simp add: Let_def sm_GetParserMode_def)
qed (rule ProcessCharacter_obs_not_c1 [OF _ out])

end

subsection \<open>Strings\<close>

text \<open>
  The parser as a fold over single characters: a printable character in the Ground state is printed,
  everything else goes to \<open>ProcessCharacter\<close>.
\<close>

definition sm_step ::
    "('e, 'h, 'k) vt_env \<Rightarrow> wchar \<Rightarrow> ('e, 'h, 'k) StateMachine \<Rightarrow> ('e, 'h, 'k) StateMachine" where
  "sm_step env c sm =
     (if sm_state sm = Ground \<and> \<not> isActionableFromGround c then sm_ActionPrintString env [c] sm
      else sm_ProcessCharacter env c sm)"

definition sm_stream ::
    "('e, 'h, 'k) vt_env \<Rightarrow> wstring \<Rightarrow> ('e, 'h, 'k) StateMachine \<Rightarrow> ('e, 'h, 'k) StateMachine" where
  "sm_stream env s sm = fold (sm_step env) s sm"

lemma stream_simps [simp]:
  "sm_stream env [] sm = sm" "sm_stream env (c # s) sm = sm_stream env s (sm_step env c sm)"
  "sm_stream env (s @ t) sm = sm_stream env t (sm_stream env s sm)"
  by (simp_all add: sm_stream_def)

context stream_engine
begin

lemma step_obs:
  "\<not> sm_isEngineForInput sm \<Longrightarrow> sm_obs (sm_step env c (sm_obs sm)) = sm_obs (sm_step env c sm)"
  by (simp add: sm_step_def ProcessCharacter_obs)

lemma step_role: "sm_isEngineForInput (sm_step env c sm) = sm_isEngineForInput sm"
  by (simp add: sm_step_def ProcessCharacter_role sm_ActionPrintString_def)

lemma stream_obs:
  "\<not> sm_isEngineForInput sm \<Longrightarrow> sm_obs (sm_stream env s (sm_obs sm)) = sm_obs (sm_stream env s sm)"
proof (induction s arbitrary: sm)
  case (Cons c s)
  show ?case
    using Cons.IH [of "sm_step env c (sm_obs sm)"] Cons.IH [of "sm_step env c sm"] Cons.prems
    by (simp add: step_obs step_role)
qed simp

lemma stream_cong:
  assumes "sm_obs a = sm_obs b" "\<not> sm_isEngineForInput a"
  shows "sm_obs (sm_stream env s a) = sm_obs (sm_stream env s b)"
proof -
  have "\<not> sm_isEngineForInput b" using assms by (metis obs_sel(2))
  with assms show ?thesis using stream_obs [of a s] stream_obs [of b s] by simp
qed

lemma PrintString_engine:
  assumes "s \<noteq> []" "\<forall>c \<in> set s. \<not> isActionableFromGround c"
  shows "sm_ActionPrintString env s sm =
    sm\<lparr>sm_engine := reply_engine (env_action env (ActionPrintString s) False (sm_engine sm))\<rparr>"
  using print_quiet [OF assms] by (simp add: sm_ActionPrintString_def SafeExecute_reply sm_reply_def)

lemma print_stream:
  assumes "s \<noteq> []" "\<forall>c \<in> set s. \<not> isActionableFromGround c" "sm_state sm = Ground"
  shows "sm_stream env s sm = sm_ActionPrintString env s sm"
  using assms
proof (induction s arbitrary: sm)
  case (Cons c s)
  show ?case
  proof (cases "s = []")
    case False
    with Cons show ?thesis
      using print_append [of "[c]" s "sm_engine sm"] by (simp add: sm_step_def PrintString_engine)
  qed (use Cons.prems in \<open>simp add: sm_step_def\<close>)
qed simp

lemma vtLoop_string: "sm_currentString (snd (sm_vtLoop env string i sm)) = sm_currentString sm"
proof (induction "length string - i" arbitrary: i sm rule: less_induct)
  case less
  define sm1 where "sm1 = sm_ProcessCharacter env (string ! i) (sm\<lparr>sm_runSize := sm_runSize sm + 1,
    sm_processingLastCharacter := (i + 1 \<ge> length string)\<rparr>)"
  have "sm_currentString sm1 = sm_currentString sm"
    using ProcessCharacter_run [of "sm\<lparr>sm_runSize := sm_runSize sm + 1,
      sm_processingLastCharacter := (i + 1 \<ge> length string)\<rparr>" "string ! i"]
    by (simp add: sm1_def same_run_def)
  moreover have "sm_vtLoop env string i sm = (if i + 1 < length string \<and> sm_state sm1 \<noteq> Ground
      then sm_vtLoop env string (i + 1) sm1 else (i + 1, sm1))"
    unfolding sm1_def by (subst sm_vtLoop.simps) (simp only: Let_def)
  moreover have "i + 1 < length string \<Longrightarrow> length string - (i + 1) < length string - i" by linarith
  ultimately show ?case using less.hyps [of "i + 1" sm1] by simp
qed

lemma vtLoop_stream:
  assumes "i < length string" "sm_state sm \<noteq> Ground \<or> isActionableFromGround (string ! i)"
    and "\<not> sm_isEngineForInput sm"
  shows "sm_obs (sm_stream env (drop (fst (sm_vtLoop env string i sm)) string) (snd (sm_vtLoop env string i sm))) =
      sm_obs (sm_stream env (drop i string) sm) \<and>
    (fst (sm_vtLoop env string i sm) < length string \<longrightarrow> sm_state (snd (sm_vtLoop env string i sm)) = Ground)"
  using assms
proof (induction "length string - i" arbitrary: i sm rule: less_induct)
  case less
  define sm0 where "sm0 = sm\<lparr>sm_runSize := sm_runSize sm + 1,
    sm_processingLastCharacter := (i + 1 \<ge> length string)\<rparr>"
  define sm1 where "sm1 = sm_ProcessCharacter env (string ! i) sm0"
  have eq: "sm_vtLoop env string i sm = (if i + 1 < length string \<and> sm_state sm1 \<noteq> Ground
      then sm_vtLoop env string (i + 1) sm1 else (i + 1, sm1))"
    unfolding sm1_def sm0_def by (subst sm_vtLoop.simps) (simp only: Let_def)
  have out: "\<not> sm_isEngineForInput sm1" using less.prems by (simp add: sm1_def sm0_def ProcessCharacter_role)
  have "sm_obs sm1 = sm_obs (sm_ProcessCharacter env (string ! i) sm)"
    unfolding sm1_def
    using ProcessCharacter_obs [of sm0 "string ! i"] ProcessCharacter_obs [of sm "string ! i"] less.prems
    by (simp add: sm0_def)
  moreover have "sm_step env (string ! i) sm = sm_ProcessCharacter env (string ! i) sm"
    using less.prems by (auto simp: sm_step_def)
  moreover have "drop i string = string ! i # drop (i + 1) string"
    using less.prems by (simp add: Cons_nth_drop_Suc)
  ultimately have step: "sm_obs (sm_stream env (drop (i + 1) string) sm1) = sm_obs (sm_stream env (drop i string) sm)"
    using stream_cong [of sm1 "sm_step env (string ! i) sm" "drop (i + 1) string"] out by simp
  show ?case
  proof (cases "i + 1 < length string \<and> sm_state sm1 \<noteq> Ground")
    case True
    moreover have "length string - (i + 1) < length string - i" using True by linarith
    ultimately show ?thesis using less.hyps [of "i + 1" sm1] eq step out by simp
  next
    case False
    with eq step show ?thesis by auto
  qed
qed

end

context stream_engine
begin

lemma printRun_stream:
  assumes "sm_currentString sm = string" "sm_state sm = Ground" "\<not> sm_isEngineForInput sm"
  shows "sm_obs (sm_stream env (drop (fst (sm_printRun env string i sm)) string) (snd (sm_printRun env string i sm))) =
      sm_obs (sm_stream env (drop i string) sm) \<and>
    sm_state (snd (sm_printRun env string i sm)) = Ground \<and>
    sm_currentString (snd (sm_printRun env string i sm)) = string \<and>
    (fst (sm_printRun env string i sm) < length string \<longrightarrow>
       isActionableFromGround (string ! fst (sm_printRun env string i sm))) \<and>
    \<not> sm_isEngineForInput (snd (sm_printRun env string i sm))"
proof (cases "plainSearch (drop i string) = 0")
  case True
  then show ?thesis
    using assms plainSearch_stop [of "drop i string"]
    by (auto simp: sm_printRun_def Let_def intro: stream_cong)
next
  case False
  define n where "n = plainSearch (drop i string)"
  define run where "run = take n (drop i string)"
  define sm0 where "sm0 = sm\<lparr>sm_runOffset := i, sm_runSize := n\<rparr>"
  have n: "n \<le> length (drop i string)" unfolding n_def by (rule plainSearch_le)
  have run: "run \<noteq> []" "\<forall>c \<in> set run. \<not> isActionableFromGround c"
    using False n plainSearch_prefix [of _ "drop i string"] by (auto simp: run_def n_def)
  have "drop i string = run @ drop (i + n) string"
    using append_take_drop_id [of n "drop i string"] by (simp add: run_def add.commute)
  then have "sm_stream env (drop i string) sm = sm_stream env (drop (i + n) string) (sm_ActionPrintString env run sm)"
    using print_stream [OF run assms(2)] by simp
  moreover have "sm_obs (sm_ActionPrintString env run sm0) = sm_obs (sm_ActionPrintString env run sm)"
    using actions_obs(4) [of run sm0] actions_obs(4) [of run sm] by (simp add: sm0_def)
  moreover have "sm_printRun env string i sm =
      (i + n, (sm_ActionPrintString env run sm0)\<lparr>sm_runOffset := i + n, sm_runSize := 0\<rparr>)"
    using False assms(1) by (simp add: sm_printRun_def n_def [symmetric] sm0_def [symmetric] Let_def)
      (simp add: sm0_def sm_CurrentRun_def run_def)
  moreover have "i + n < length string \<Longrightarrow> isActionableFromGround (string ! (i + n))"
    using plainSearch_stop [of "drop i string"] by (simp add: n_def)
  ultimately show ?thesis
    using assms run by (auto simp: PrintString_engine sm0_def intro!: stream_cong)
qed

lemma groundLoop_stream:
  assumes "sm_currentString sm = string" "sm_state sm = Ground \<or> length string \<le> i"
    and "\<not> sm_isEngineForInput sm"
  shows "sm_obs (sm_groundLoop env string i sm) = sm_obs (sm_stream env (drop i string) sm)"
  using assms
proof (induction "length string - i" arbitrary: i sm rule: less_induct)
  case less
  show ?case
  proof (cases "i < length string")
    case False
    then show ?thesis by (subst sm_groundLoop.simps) simp
  next
    case True
    define i1 sm1 where "i1 = fst (sm_printRun env string i sm)" and "sm1 = snd (sm_printRun env string i sm)"
    define i2 sm2 where "i2 = fst (sm_vtLoop env string i1 sm1)" and "sm2 = snd (sm_vtLoop env string i1 sm1)"
    have eq: "sm_groundLoop env string i sm = (if i1 \<ge> length string then sm1 else sm_groundLoop env string i2 sm2)"
      using True by (subst sm_groundLoop.simps) (simp add: i1_def sm1_def i2_def sm2_def split_beta Let_def)
    have 1: "sm_obs (sm_stream env (drop i1 string) sm1) = sm_obs (sm_stream env (drop i string) sm)"
      "sm_state sm1 = Ground" "sm_currentString sm1 = string"
      "i1 < length string \<Longrightarrow> isActionableFromGround (string ! i1)" "\<not> sm_isEngineForInput sm1"
      using printRun_stream [of sm string i] less.prems True by (auto simp: i1_def sm1_def)
    show ?thesis
    proof (cases "i1 \<ge> length string")
      case True
      with eq 1 show ?thesis by simp
    next
      case False
      have "sm_obs (sm_stream env (drop i2 string) sm2) = sm_obs (sm_stream env (drop i1 string) sm1)"
        "sm_state sm2 = Ground \<or> length string \<le> i2" "sm_currentString sm2 = string"
        using vtLoop_stream [of i1 string sm1] 1 False vtLoop_string [of string i1 sm1]
        by (auto simp: i2_def sm2_def not_le)
      moreover have "\<not> sm_isEngineForInput sm2" using 1(5) by (simp add: sm2_def vtLoop_role)
      moreover have "i \<le> i1" by (auto simp: i1_def sm_printRun_def Let_def)
      moreover have "i1 < i2" unfolding i2_def by (rule sm_vtLoop_progress)
      ultimately show ?thesis using less.hyps [of i2 sm2] eq 1(1) False True by simp
    qed
  qed
qed

lemma finishString_obs: "\<not> sm_isEngineForInput sm \<Longrightarrow> sm_obs (sm_finishString env sm) = sm_obs sm"
  by (simp add: sm_finishString_def Let_def)

lemma ProcessString_stream:
  assumes "\<not> sm_isEngineForInput sm"
  shows "sm_obs (sm_ProcessString env string sm) = sm_obs (sm_stream env string sm)"
proof -
  define sm0 where "sm0 = sm\<lparr>sm_currentString := string, sm_runOffset := 0, sm_runSize := 0, sm_injections := []\<rparr>"
  have sm0: "sm_obs sm0 = sm_obs sm" "\<not> sm_isEngineForInput sm0" "sm_currentString sm0 = string"
    using assms by (simp_all add: sm0_def)
  define i sm1 where "i = fst (sm_vtLoop env string 0 sm0)" and "sm1 = snd (sm_vtLoop env string 0 sm0)"
  define sm2 where "sm2 = (if sm_state sm0 = Ground then sm_groundLoop env string 0 sm0
    else if string = [] then sm0 else sm_groundLoop env string i sm1)"
  have "sm_ProcessString env string sm = sm_finishString env sm2"
    by (simp add: sm_ProcessString_def sm0_def [symmetric] sm2_def i_def sm1_def split_beta Let_def)
  moreover have "\<not> sm_isEngineForInput sm2"
    using sm0 by (simp add: sm2_def sm1_def groundLoop_role vtLoop_role)
  moreover have "sm_obs sm2 = sm_obs (sm_stream env string sm0)"
  proof (cases "sm_state sm0 = Ground \<or> string = []")
    case True
    then show ?thesis using groundLoop_stream [of sm0 string 0] sm0 by (auto simp: sm2_def)
  next
    case False
    then have "sm_obs (sm_groundLoop env string i sm1) = sm_obs (sm_stream env (drop i string) sm1)"
      using vtLoop_stream [of 0 string sm0] vtLoop_string [of string 0 sm0] sm0
      by (intro groundLoop_stream) (auto simp: i_def sm1_def not_le vtLoop_role)
    with False vtLoop_stream [of 0 string sm0] sm0(2) show ?thesis by (simp add: sm2_def i_def sm1_def)
  qed
  ultimately show ?thesis
    using stream_cong [OF sm0(1,2)] by (simp add: finishString_obs)
qed

theorem ProcessString_append:
  assumes "\<not> sm_isEngineForInput sm"
  shows "sm_obs (sm_ProcessString env t (sm_ProcessString env s sm)) = sm_obs (sm_ProcessString env (s @ t) sm)"
  using assms stream_cong [OF ProcessString_stream [OF assms, of s], of t]
  by (simp add: ProcessString_stream ProcessString_role)

lemma ProcessString_obs:
  assumes "\<not> sm_isEngineForInput sm"
  shows "sm_obs (sm_ProcessString env s (sm_obs sm)) = sm_obs (sm_ProcessString env s sm)"
  using assms by (simp add: ProcessString_stream stream_obs)

lemma ProcessString_concat:
  assumes "\<not> sm_isEngineForInput sm"
  shows "sm_obs (fold (sm_ProcessString env) pieces sm) = sm_obs (sm_ProcessString env (concat pieces) sm)"
proof -
  have "sm_obs (fold (sm_ProcessString env) pieces sm) = sm_obs (sm_stream env (concat pieces) sm)"
    using assms
  proof (induction pieces arbitrary: sm)
    case (Cons piece pieces)
    with stream_cong [OF ProcessString_stream [of sm piece]] show ?case by (simp add: ProcessString_role)
  qed simp
  with assms show ?thesis by (simp add: ProcessString_stream)
qed

end

end
