(* ===== verification/Vt_Utils.thy ===== *)
theory Vt_Utils
  imports Prelude
begin

text \<open>
  The string helpers the output engine parses operating system commands with, from
  \<open>src/src/types/utils.cpp\<close> (\<open>HexToUint\<close>, \<open>StringToUint\<close>, \<open>SplitString\<close>, the XParseColor
  specifications), \<open>src/src/types/colorTable.cpp\<close> (colours by X11 name) and
  \<open>src/src/inc/til/string.h\<close> (\<open>split_iterator\<close>, \<open>parse_u64\<close>).

  The lemmas give the round trip between splitting and joining, the exact value and overflow
  behaviour of the number parsers, and the colours the two XParseColor formats denote.
\<close>

subsection \<open>Numbers\<close>

definition isNumber :: "wchar \<Rightarrow> bool" where
  "isNumber wch \<longleftrightarrow> wch \<ge> 0x30 \<and> wch \<le> 0x39"

definition HexToUint :: "wchar \<Rightarrow> nat option" where
  "HexToUint wch =
     (if wch \<ge> 0x30 \<and> wch \<le> 0x39 then Some (unat (wch - 0x30))
      else if wch \<ge> 0x41 \<and> wch \<le> 0x46 then Some (unat (wch - 0x41) + 10)
      else if wch \<ge> 0x61 \<and> wch \<le> 0x66 then Some (unat (wch - 0x61) + 10)
      else None)"

text \<open>The loop of \<open>StringToUint\<close>: a 32-bit accumulator that wraps around.\<close>

fun StringToUint_loop :: "wstring \<Rightarrow> u32 \<Rightarrow> u32 option" where
  "StringToUint_loop [] result = Some result"
| "StringToUint_loop (wch # wstr) result =
     (if isNumber wch then StringToUint_loop wstr (result * 10 + ucast (wch - 0x30)) else None)"

definition StringToUint :: "wstring \<Rightarrow> u32 option" where
  "StringToUint wstr = (if wstr = [] then None else StringToUint_loop wstr 0)"

text \<open>\<open>til::parse_u64\<close>: the value of one character, at most 35 exactly for letters and digits.\<close>

definition u64_digit :: "wchar \<Rightarrow> u64" where
  "u64_digit c =
     (let ch = ucast c :: u64;
          sub = (if ch \<ge> 0x30 \<and> ch \<le> 0x39 then (0x30 - 1) AND NOT 0x20 else ((0x41 - 1) AND NOT 0x20) - 10)
      in ((ch - 1) AND NOT 0x20) - sub)"

text \<open>The prefix test: base and remaining characters when no base is given.\<close>

definition u64_prefix :: "wstring \<Rightarrow> int \<Rightarrow> nat \<times> wstring" where
  "u64_prefix str base =
     (if base \<le> 0
      then (case str of
              c0 # c1 # cs \<Rightarrow>
                (if c0 = 0x30
                 then (let ch = c1 OR 0x20
                       in if ch = 0x62 then (2, cs) else if ch = 0x78 then (16, cs) else (8, c1 # cs))
                 else (10, str))
            | _ \<Rightarrow> (10, str))
      else (nat base, str))"

fun u64_loop :: "u64 \<Rightarrow> wstring \<Rightarrow> u64 \<Rightarrow> u64 option" where
  "u64_loop base [] accumulator = Some accumulator"
| "u64_loop base (ch # cs) accumulator =
     (let value = u64_digit ch; acc = accumulator * base + value
      in if value \<ge> base \<or> accumulator > (- 1) div base \<or> acc < accumulator then None
         else u64_loop base cs acc)"

definition parse_u64 :: "wstring \<Rightarrow> int \<Rightarrow> u64 option" where
  "parse_u64 str base =
     (let (base_uint64, rest) = u64_prefix str base
      in if rest = [] \<or> base_uint64 > 36 then None else u64_loop (word_of_nat base_uint64) rest 0)"

subsection \<open>Splitting\<close>

lemma length_dropWhile_less [simp]:
  "c \<in> set xs \<Longrightarrow> length (dropWhile (\<lambda>x. x \<noteq> c) xs) - Suc 0 < length xs"
  using length_dropWhile_le [of "\<lambda>x. x \<noteq> c" xs] by (cases xs) auto

text \<open>The loop of \<open>SplitString\<close> from position \<open>current\<close> on; \<open>wstr\<close> is what remains.\<close>

function SplitString :: "wstring \<Rightarrow> wchar \<Rightarrow> wstring list" where
  "SplitString wstr delimiter =
     (if wstr = [] then []
      else
        (let part = takeWhile (\<lambda>c. c \<noteq> delimiter) wstr; rest = dropWhile (\<lambda>c. c \<noteq> delimiter) wstr
         in if rest = [] then [wstr]
            else if tl rest = [] then [part, []]
            else part # SplitString (tl rest) delimiter))"
  by pat_completeness auto
termination
  by (relation "measure (length \<circ> fst)") auto

declare SplitString.simps [simp del]

text \<open>
  The tokens a range-based loop over \<open>til::split_iterator\<close> sees. The loop ends when the token end
  is the end of the string, so a trailing delimiter gives a last empty token and the empty string
  no token at all.
\<close>

function split_tokens :: "wstring \<Rightarrow> wchar \<Rightarrow> wstring list" where
  "split_tokens it needle =
     (let tok = dropWhile (\<lambda>c. c \<noteq> needle) it
      in takeWhile (\<lambda>c. c \<noteq> needle) it # (if tok = [] then [] else split_tokens (tl tok) needle))"
  by pat_completeness auto
termination
  by (relation "measure (length \<circ> fst)") auto

declare split_tokens.simps [simp del]

definition split_iterate :: "wstring \<Rightarrow> wchar \<Rightarrow> wstring list" where
  "split_iterate str needle = (if str = [] then [] else split_tokens str needle)"

subsection \<open>Colours\<close>

record color = color_r :: byte color_g :: byte color_b :: byte

text \<open>
  The inner loop of \<open>ColorFromXParseColorSpec\<close>, from digit \<open>i\<close> of a component on. It returns what
  remains of the string, the value, the digit count and \<open>foundColor\<close>, or nothing when the
  function returns \<open>nullopt\<close>.
\<close>

fun xparse_digits ::
    "bool \<Rightarrow> nat \<Rightarrow> nat \<Rightarrow> nat \<Rightarrow> wstring \<Rightarrow> nat \<Rightarrow> nat \<Rightarrow> bool \<Rightarrow> (wstring \<times> nat \<times> nat \<times> bool) option" where
  "xparse_digits isSharp component iteration i [] v n found = Some ([], v, n, found)"
| "xparse_digits isSharp component iteration i (wch # rest) v n found =
     (if i < iteration
      then (case HexToUint wch of
              None \<Rightarrow> None
            | Some intVal \<Rightarrow>
                (let v' = v * 16 + intVal
                 in if isSharp
                    then (if i \<ge> n then Some (rest, v', n, True)
                          else xparse_digits isSharp component iteration (i + 1) rest v' n True)
                    else if component < 2 \<and> rest \<noteq> [] \<and> hd rest = 0x2F
                    then Some (tl rest, v', i + 1, True)
                    else if rest = [] then Some (rest, v', i + 1, True)
                    else xparse_digits isSharp component iteration (i + 1) rest v' (i + 1) found))
      else Some (wch # rest, v, n, found))"

definition xparse_scale :: "bool \<Rightarrow> nat \<Rightarrow> nat \<Rightarrow> nat" where
  "xparse_scale isSharp v n =
     (let scaleMultiplier = (if isSharp then 0x10 else 0x11);
          scaleDivisor = (scaleMultiplier * 2 ^ 8) div 2 ^ (4 * (4 - n))
      in v * scaleMultiplier div scaleDivisor)"

definition xparse_component ::
    "bool \<Rightarrow> nat \<Rightarrow> wstring \<Rightarrow> nat \<Rightarrow> (wstring \<times> nat \<times> nat) option" where
  "xparse_component isSharp component cur n =
     (case xparse_digits isSharp component (if isSharp then n else 4) 0 cur 0 n False of
        None \<Rightarrow> None
      | Some (rest, v, n', found) \<Rightarrow>
          if found then Some (rest, xparse_scale isSharp v n', n') else None)"

definition xparse_values :: "bool \<Rightarrow> wstring \<Rightarrow> nat \<Rightarrow> color option" where
  "xparse_values isSharp cur n =
     (case xparse_component isSharp 0 cur n of
        None \<Rightarrow> None
      | Some (rest0, v0, n0) \<Rightarrow>
          (case xparse_component isSharp 1 rest0 n0 of
             None \<Rightarrow> None
           | Some (rest1, v1, n1) \<Rightarrow>
               (case xparse_component isSharp 2 rest1 n1 of
                  None \<Rightarrow> None
                | Some (rest2, v2, n2) \<Rightarrow>
                    if rest2 = []
                    then Some \<lparr>color_r = word_of_nat v0, color_g = word_of_nat v1, color_b = word_of_nat v2\<rparr>
                    else None)))"

definition ascii_lower :: "wchar \<Rightarrow> wchar" where
  "ascii_lower c = (if c \<ge> 0x41 \<and> c \<le> 0x5A then c + 0x20 else c)"

definition ColorFromXParseColorSpec :: "wstring \<Rightarrow> color option" where
  "ColorFromXParseColorSpec string =
     (let stringSize = length string
      in if stringSize > 4 \<and> map ascii_lower (take 4 string) = [0x72, 0x67, 0x62, 0x3A]
         then (if stringSize < 9 \<or> stringSize > 18 then None
               else xparse_values False (drop 4 string) 0)
         else if stringSize > 1 \<and> hd string = 0x23
         then (if \<not> (stringSize = 4 \<or> stringSize = 7 \<or> stringSize = 10 \<or> stringSize = 13) then None
               else xparse_values True (tl string) ((stringSize - 1) div 3))
         else None)"

text \<open>
  Colours by name. The two X11 tables of \<open>colorTable.cpp\<close> are arguments: \<open>variants\<close> maps a stem to
  its numbered shades, \<open>names\<close> a stem to its colour.
\<close>

fun xorg_stem :: "wstring \<Rightarrow> wstring \<Rightarrow> nat \<Rightarrow> bool \<Rightarrow> (wstring \<times> nat \<times> bool) option" where
  "xorg_stem [] stem variantIndex foundVariant = Some (stem, variantIndex, foundVariant)"
| "xorg_stem (c # cs) stem variantIndex foundVariant =
     (if c > 127 then None
      else if c \<ge> 0x30 \<and> c \<le> 0x39
      then xorg_stem cs stem ((variantIndex * 10 + unat (c - 0x30)) mod 2 ^ 64) True
      else if c = 0x20 \<or> c = 0x0C \<or> c = 0x0A \<or> c = 0x0D \<or> c = 0x09 \<or> c = 0x0B
      then xorg_stem cs stem variantIndex foundVariant
      else if foundVariant then None
      else xorg_stem cs (stem @ [if c \<ge> 0x41 \<and> c \<le> 0x5A then c OR 0x20 else c]) variantIndex foundVariant)"

definition ColorFromXOrgAppColorName ::
    "(wstring \<Rightarrow> color list option) \<Rightarrow> (wstring \<Rightarrow> color option) \<Rightarrow> wstring \<Rightarrow> color option" where
  "ColorFromXOrgAppColorName variants names wstr =
     (case xorg_stem wstr [] 0 False of
        None \<Rightarrow> None
      | Some (stem, variantIndex, foundVariant) \<Rightarrow>
          (let shade = (case variants stem of
                 Some colors \<Rightarrow> if variantIndex < length colors then Some (colors ! variantIndex) else None
               | None \<Rightarrow> None)
           in case shade of
                Some c \<Rightarrow> Some c
              | None \<Rightarrow>
                  if (stem = [0x67, 0x72, 0x61, 0x79] \<or> stem = [0x67, 0x72, 0x65, 0x79]) \<and> foundVariant
                  then (if variantIndex > 100 then None
                        else (let component = word_of_nat (min 255 ((variantIndex * 255 + 50) div 100))
                              in Some \<lparr>color_r = component, color_g = component, color_b = component\<rparr>))
                  else names stem))"

definition ColorFromXTermColor ::
    "(wstring \<Rightarrow> color list option) \<Rightarrow> (wstring \<Rightarrow> color option) \<Rightarrow> wstring \<Rightarrow> color option" where
  "ColorFromXTermColor variants names string =
     (case ColorFromXParseColorSpec string of
        Some c \<Rightarrow> Some c
      | None \<Rightarrow> ColorFromXOrgAppColorName variants names string)"

subsection \<open>Splitting against joining\<close>

fun join :: "wchar \<Rightarrow> wstring list \<Rightarrow> wstring" where
  "join d [] = []"
| "join d [x] = x"
| "join d (x # y # ys) = x @ d # join d (y # ys)"

lemma split_tokens_Nil [simp]: "split_tokens s d \<noteq> []"
  by (subst split_tokens.simps) (simp add: Let_def)

lemma join_Cons: "ys \<noteq> [] \<Longrightarrow> join d (x # ys) = x @ d # join d ys"
  by (cases ys) simp_all

lemma split_tokens_found:
  "d \<notin> set x \<Longrightarrow> split_tokens (x @ d # s) d = x # split_tokens s d"
  by (subst split_tokens.simps) (simp add: Let_def takeWhile_append dropWhile_append)

lemma split_tokens_last: "d \<notin> set x \<Longrightarrow> split_tokens x d = [x]"
  by (subst split_tokens.simps) (auto simp: Let_def takeWhile_eq_all_conv)

lemma split_join: "parts \<noteq> [] \<Longrightarrow> \<forall>x \<in> set parts. d \<notin> set x \<Longrightarrow> split_tokens (join d parts) d = parts"
  by (induction d parts rule: join.induct) (simp_all add: split_tokens_found split_tokens_last)

lemma join_split: "join d (split_tokens s d) = s"
proof (induction "length s" arbitrary: s rule: less_induct)
  case less
  show ?case
  proof (cases "d \<in> set s")
    case True
    then obtain x t where s: "s = x @ d # t" "d \<notin> set x" by (meson split_list_first)
    with less show ?thesis by (simp add: split_tokens_found join_Cons)
  qed (simp add: split_tokens_last)
qed

lemma split_no_delimiter: "x \<in> set (split_tokens s d) \<Longrightarrow> d \<notin> set x"
proof (induction "length s" arbitrary: s rule: less_induct)
  case less
  show ?case
  proof (cases "d \<in> set s")
    case True
    then obtain y t where s: "s = y @ d # t" "d \<notin> set y" by (meson split_list_first)
    with less.prems less.hyps [of t] show ?thesis by (auto simp: split_tokens_found)
  qed (use less in \<open>simp add: split_tokens_last\<close>)
qed

text \<open>The two splitters of the code base agree.\<close>

lemma SplitString_eq: "SplitString s d = split_iterate s d"
proof (induction "length s" arbitrary: s rule: less_induct)
  case less
  show ?case
  proof (cases "d \<in> set s")
    case True
    then obtain x t where s: "s = x @ d # t" "d \<notin> set x" by (meson split_list_first)
    have "SplitString s d = (if t = [] then [x, []] else x # SplitString t d)"
      using s by (subst SplitString.simps) (simp add: Let_def takeWhile_append dropWhile_append)
    moreover have "SplitString t d = split_iterate t d" using less s by simp
    moreover have "split_tokens [] d = [[]]" by (simp add: split_tokens_last)
    ultimately show ?thesis using s by (simp add: split_iterate_def split_tokens_found)
  next
    case False
    then show ?thesis
      by (subst SplitString.simps)
        (auto simp: Let_def split_iterate_def split_tokens_last takeWhile_eq_all_conv)
  qed
qed

subsection \<open>Decimal numbers of 32 bits\<close>

lemma StringToUint_loop_digits:
  "\<forall>d \<in> set ds. d < 10 \<Longrightarrow>
     StringToUint_loop (map dec_char ds) (word_of_nat v) = Some (word_of_nat (dec_value v ds))"
proof (induction ds arbitrary: v)
  case (Cons d ds)
  have "isNumber (dec_char d)" using Cons.prems dec_char_range [of d] by (simp add: isNumber_def)
  moreover have "(ucast (dec_char d - 0x30) :: u32) = word_of_nat d"
    using Cons.prems by (simp add: dec_char_digit unsigned_of_nat take_bit_nat_eq_self)
  ultimately show ?case using Cons.IH [of "v * 10 + d"] Cons.prems by (simp add: mult.commute)
qed simp

lemma StringToUint_dec: "StringToUint (dec_string n) = Some (word_of_nat n)"
  using StringToUint_loop_digits [of "dec_digits n" 0] dec_digits_less [of _ n]
  by (simp add: StringToUint_def dec_string_def)

lemma StringToUint_loop_None: "StringToUint_loop s v = None \<longleftrightarrow> (\<exists>c \<in> set s. \<not> isNumber c)"
  by (induction s v rule: StringToUint_loop.induct) auto

subsection \<open>Numbers of 64 bits in any base\<close>

definition alnum_value :: "wchar \<Rightarrow> nat option" where
  "alnum_value c =
     (if c \<ge> 0x30 \<and> c \<le> 0x39 then Some (unat c - 0x30)
      else if c \<ge> 0x41 \<and> c \<le> 0x5A then Some (unat c - 0x41 + 10)
      else if c \<ge> 0x61 \<and> c \<le> 0x7A then Some (unat c - 0x61 + 10)
      else None)"

lemma unat_and_not_32:
  fixes x :: u64
  shows "unat (x AND NOT 0x20) = (if odd (unat x div 32) then unat x - 32 else unat x)"
proof -
  have bit: "bit x 5 \<longleftrightarrow> odd (unat x div 32)"
  proof -
    have "bit x 5 \<longleftrightarrow> bit (unat x) 5" by (simp add: bit_unsigned_iff)
    then show ?thesis by (simp add: bit_iff_odd)
  qed
  have "x AND NOT 0x20 = unset_bit 5 x" by (simp add: unset_bit_eq_and_not push_bit_eq_mult)
  also have "\<dots> = x - of_bool (bit x 5) * 32" by (simp add: unset_bit_eq)
  finally have eq: "x AND NOT 0x20 = x - of_bool (bit x 5) * 32" .
  show ?thesis
  proof (cases "bit x 5")
    case True
    then have "32 \<le> unat x" using bit by (metis div_less even_zero not_less)
    then have "unat (x - 32) = unat x - 32" by (simp add: unat_sub_if' word_le_nat_alt)
    with True eq bit show ?thesis by simp
  next
    case False
    with eq bit show ?thesis by simp
  qed
qed

text \<open>The mapping of a code unit, written with natural numbers.\<close>

definition digit_nat :: "nat \<Rightarrow> nat" where
  "digit_nat n =
     (let x = (if n = 0 then 2 ^ 64 - 1 else n - 1); y = (if odd (x div 32) then x - 32 else x);
          sub = (if 48 \<le> n \<and> n \<le> 57 then 15 else 54)
      in if sub \<le> y then y - sub else y + 2 ^ 64 - sub)"

lemma unat_u64_digit: "unat (u64_digit c) = digit_nat (unat c)"
proof -
  have c: "unat c < 2 ^ 16" using unsigned_less [of c, where ?'a = nat] by simp
  then have u: "unat (ucast c :: u64) = unat c" by (simp add: unsigned_ucast_eq take_bit_nat_eq_self)
  have x: "unat (ucast c - 1 :: u64) = (if unat c = 0 then 2 ^ 64 - 1 else unat c - 1)"
    by (auto simp: unat_sub_if' u)
  have sub: "(if ucast c \<ge> (0x30 :: u64) \<and> ucast c \<le> (0x39 :: u64) then (0x30 - 1) AND NOT 0x20
      else ((0x41 - 1) AND NOT 0x20) - 10) = (if 48 \<le> unat c \<and> unat c \<le> 57 then 15 else 54 :: u64)"
    by (simp add: word_le_nat_alt u)
  define z where "z = (ucast c - 1 :: u64) AND NOT 0x20"
  have z: "unat z = (let x = (if unat c = 0 then 2 ^ 64 - 1 else unat c - 1)
      in if odd (x div 32) then x - 32 else x)"
    by (simp only: z_def unat_and_not_32 x Let_def)
  have diff: "unat (z - w) = (if unat w \<le> unat z then unat z - unat w else unat z + 2 ^ 64 - unat w)" for w
    by (simp add: unat_sub_if')
  have "u64_digit c = z - (if 48 \<le> unat c \<and> unat c \<le> 57 then 15 else 54)"
    unfolding u64_digit_def Let_def sub z_def ..
  then show ?thesis
    unfolding digit_nat_def Let_def using z [unfolded Let_def] diff by (simp only: if_distrib) simp
qed

lemma digit_nat_alnum:
  shows "48 \<le> n \<Longrightarrow> n \<le> 57 \<Longrightarrow> digit_nat n = n - 48"
    and "65 \<le> n \<Longrightarrow> n \<le> 90 \<Longrightarrow> digit_nat n = n - 55"
    and "97 \<le> n \<Longrightarrow> n \<le> 122 \<Longrightarrow> digit_nat n = n - 87"
proof -
  assume n: "48 \<le> n" "n \<le> 57"
  then have "(n - 1) div 32 = 1" by (intro div_nat_eqI) simp_all
  with n show "digit_nat n = n - 48" by (simp add: digit_nat_def Let_def)
next
  assume n: "65 \<le> n" "n \<le> 90"
  then have "(n - 1) div 32 = 2" by (intro div_nat_eqI) simp_all
  with n show "digit_nat n = n - 55" by (simp add: digit_nat_def Let_def)
next
  assume n: "97 \<le> n" "n \<le> 122"
  then have "(n - 1) div 32 = 3" by (intro div_nat_eqI) simp_all
  with n show "digit_nat n = n - 87" by (simp add: digit_nat_def Let_def)
qed

lemma digit_nat_other:
  assumes n: "n < 2 ^ 16" "\<not> (48 \<le> n \<and> n \<le> 57)" "\<not> (65 \<le> n \<and> n \<le> 90)" "\<not> (97 \<le> n \<and> n \<le> 122)"
  shows "36 \<le> digit_nat n"
proof -
  consider "n = 0" | "0 < n" "n \<le> 32" | "32 < n" "n \<le> 64" | "90 < n" "n \<le> 96" | "122 < n"
    using n(2-4) by linarith
  then show ?thesis
  proof cases
    case 1
    then show ?thesis by (simp add: digit_nat_def)
  next
    case 2
    then have "(n - 1) div 32 = 0" by simp
    with 2 n show ?thesis by (simp add: digit_nat_def Let_def)
  next
    case 3
    then have "(n - 1) div 32 = 1" by (intro div_nat_eqI) simp_all
    with 3 n show ?thesis by (auto simp: digit_nat_def Let_def)
  next
    case 4
    then have "(n - 1) div 32 = 2" by (intro div_nat_eqI) simp_all
    with 4 n show ?thesis by (auto simp: digit_nat_def Let_def)
  next
    case 5
    with n show ?thesis
      by (cases "odd ((n - 1) div 32)") (simp_all add: digit_nat_def Let_def, linarith+)
  qed
qed

lemma u64_digit_value:
  "case alnum_value c of Some v \<Rightarrow> unat (u64_digit c) = v \<and> v < 36 | None \<Rightarrow> 36 \<le> unat (u64_digit c)"
proof -
  have "unat c < 2 ^ 16" using unsigned_less [of c, where ?'a = nat] by simp
  then show ?thesis
    using digit_nat_alnum [of "unat c"] digit_nat_other [of "unat c"]
    by (auto simp: unat_u64_digit alnum_value_def word_le_nat_alt)
qed

text \<open>
  The reference: every character is a digit below the base, and the value is below \<open>2 ^ 64\<close>. It
  is computed with unbounded numbers.
\<close>

definition alnum_number :: "nat \<Rightarrow> nat \<Rightarrow> wstring \<Rightarrow> nat" where
  "alnum_number base = foldl (\<lambda>v c. v * base + the (alnum_value c))"

definition alnum_digit :: "nat \<Rightarrow> wchar \<Rightarrow> bool" where
  "alnum_digit base c \<longleftrightarrow> (case alnum_value c of Some v \<Rightarrow> v < base | None \<Rightarrow> False)"

lemma alnum_number_ge: "0 < base \<Longrightarrow> v \<le> alnum_number base v cs"
proof (induction cs arbitrary: v)
  case (Cons c cs)
  then have "v \<le> v * base + the (alnum_value c)" by (cases base) simp_all
  also have "\<dots> \<le> alnum_number base (v * base + the (alnum_value c)) cs" using Cons by blast
  finally show ?case by (simp add: alnum_number_def)
qed (simp add: alnum_number_def)

text \<open>One step: the three tests together detect exactly the overflow.\<close>

lemma u64_step:
  assumes "1 < base" "base \<le> 36" "v < 2 ^ 64" "d < base"
  shows "(if word_of_nat d \<ge> (word_of_nat base :: u64) \<or> word_of_nat v > (- 1) div (word_of_nat base :: u64) \<or>
      word_of_nat v * word_of_nat base + word_of_nat d < (word_of_nat v :: u64) then None else r) =
    (if 2 ^ 64 \<le> v * base + d then None
     else (r :: 'a option))" (is "(if ?A \<or> ?B \<or> ?C then _ else _) = _")
proof -
  have b: "unat (word_of_nat base :: u64) = base" and ud: "unat (word_of_nat d :: u64) = d"
    and uv: "unat (word_of_nat v :: u64) = v"
    using assms by (simp_all add: unat_of_nat)
  have A: "\<not> ?A" using assms by (simp add: word_le_nat_alt b ud)
  have "unat ((- 1) div (word_of_nat base) :: u64) = (2 ^ 64 - 1) div base"
    by (simp add: unat_div b unsigned_minus_1_eq_mask mask_eq_exp_minus_1)
  then have "?B \<longleftrightarrow> (2 ^ 64 - 1) div base < v" by (simp add: word_less_nat_alt uv)
  also have "\<dots> \<longleftrightarrow> 2 ^ 64 - 1 < v * base" using assms(1) by (simp add: div_less_iff_less_mult)
  finally have B: "?B \<longleftrightarrow> 2 ^ 64 \<le> v * base" by auto
  have sum: "word_of_nat v * word_of_nat base + word_of_nat d = (word_of_nat (v * base + d) :: u64)" by simp
  have C: "?C \<longleftrightarrow> (v * base + d) mod 2 ^ 64 < v"
    unfolding sum word_less_nat_alt unat_of_nat using assms(3) by simp
  consider "2 ^ 64 \<le> v * base" | "v * base < 2 ^ 64" "2 ^ 64 \<le> v * base + d" | "v * base + d < 2 ^ 64"
    by linarith
  then have "?A \<or> ?B \<or> ?C \<longleftrightarrow> 2 ^ 64 \<le> v * base + d"
  proof cases
    case 2
    then have "(v * base + d) mod 2 ^ 64 = v * base + d - 2 ^ 64"
      using assms by (simp add: mod_if)
    note wrapped = this
    have "v * base \<le> v * 36" using assms(2) by simp
    moreover have "18446744073709551616 \<le> v * base + d" using 2(2) by simp
    ultimately have "36 < v" using assms(2,4) by linarith
    with wrapped show ?thesis using C 2 assms by auto
  next
    case 3
    then have "\<not> (v * base + d) mod 2 ^ 64 < v" using assms(1) by (cases base) auto
    with 3 show ?thesis using A B C by simp
  qed (use A B C in auto)
  then show ?thesis by (simp only:)
qed

lemma u64_loop_spec:
  assumes "1 < base" "base \<le> 36" "v < 2 ^ 64"
  shows "u64_loop (word_of_nat base) cs (word_of_nat v) =
    (if list_all (alnum_digit base) cs \<and> alnum_number base v cs < 2 ^ 64
     then Some (word_of_nat (alnum_number base v cs)) else None)"
  using assms(3)
proof (induction cs arbitrary: v)
  case Nil
  then show ?case by (simp add: alnum_number_def)
next
  case (Cons c cs)
  have b: "unat (word_of_nat base :: u64) = base" using assms by (simp add: unat_of_nat)
  have uv: "unat (word_of_nat v :: u64) = v" using Cons.prems by (simp add: unat_of_nat)
  show ?case
  proof (cases "alnum_digit base c")
    case False
    then have "word_of_nat base \<le> u64_digit c"
      using u64_digit_value [of c] assms(2) by (auto simp: alnum_digit_def word_le_nat_alt b split: option.splits)
    with False show ?thesis by simp
  next
    case True
    then obtain d where d: "alnum_value c = Some d" "d < base" "unat (u64_digit c) = d"
      using u64_digit_value [of c] by (auto simp: alnum_digit_def split: option.splits)
    then have dw: "u64_digit c = word_of_nat d" by (metis of_nat_unat ucast_id)
    have step: "alnum_number base v (c # cs) = alnum_number base (v * base + d) cs"
      using d by (simp add: alnum_number_def)
    have ge: "v * base + d \<le> alnum_number base (v * base + d) cs"
      using assms(1) by (intro alnum_number_ge) simp
    have digits: "list_all (alnum_digit base) (c # cs) = list_all (alnum_digit base) cs"
      using True by simp
    have loop: "u64_loop (word_of_nat base) (c # cs) (word_of_nat v) =
        (if 2 ^ 64 \<le> v * base + d then None
         else u64_loop (word_of_nat base) cs (word_of_nat (v * base + d)))"
      unfolding u64_loop.simps dw Let_def of_nat_add of_nat_mult
      by (rule u64_step) (use assms d Cons.prems in auto)
    show ?thesis
      using Cons.IH [of "v * base + d"] ge unfolding loop step digits by auto
  qed
qed

lemma parse_u64_base:
  assumes "1 < base" "base \<le> 36"
  shows "parse_u64 s (int base) =
    (if s \<noteq> [] \<and> list_all (alnum_digit base) s \<and> alnum_number base 0 s < 2 ^ 64
     then Some (word_of_nat (alnum_number base 0 s)) else None)"
  using assms u64_loop_spec [OF assms, of 0 s] by (auto simp: parse_u64_def u64_prefix_def)

subsection \<open>XParseColor specifications\<close>

text \<open>
  A component is a list of one to four hexadecimal digits; the value of the component is scaled
  to eight bits. In the \<open>rgb:\<close> format one digit is repeated (\<open>h\<close> stands for \<open>hh\<close>), in the \<open>#\<close>
  format it is the high half (\<open>h\<close> stands for \<open>h0\<close>); with three and four digits the high byte counts.
\<close>

definition hex_number :: "nat list \<Rightarrow> nat" where
  "hex_number = foldl (\<lambda>v d. v * 16 + d) 0"

definition hex_chars :: "wstring \<Rightarrow> nat list \<Rightarrow> bool" where
  "hex_chars s ds \<longleftrightarrow> map HexToUint s = map Some ds"

definition component_value :: "bool \<Rightarrow> nat list \<Rightarrow> nat" where
  "component_value isSharp ds =
     (if length ds = 1 then (if isSharp then 16 else 17) * hex_number ds
      else hex_number ds div 16 ^ (length ds - 2))"

lemma HexToUint_less: "HexToUint c = Some d \<Longrightarrow> d < 16"
  by (auto simp: HexToUint_def word_le_nat_alt unat_sub_if' split: if_splits)

lemma HexToUint_slash: "HexToUint 0x2F = None"
  by (simp add: HexToUint_def)

lemma hex_chars_length: "hex_chars s ds \<Longrightarrow> length s = length ds"
  unfolding hex_chars_def by (metis length_map)

lemma hex_chars_Cons: "hex_chars (c # s) ds \<longleftrightarrow> (\<exists>d ds'. ds = d # ds' \<and> HexToUint c = Some d \<and> hex_chars s ds')"
  by (auto simp: hex_chars_def Cons_eq_map_conv)

lemma hex_chars_Nil [simp]: "hex_chars [] ds \<longleftrightarrow> ds = []"
  by (simp add: hex_chars_def)

lemma xparse_scale_value:
  assumes "ds \<noteq> []" "length ds \<le> 4"
  shows "xparse_scale isSharp (hex_number ds) (length ds) = component_value isSharp ds"
proof -
  have "length ds = 1 \<or> length ds = 2 \<or> length ds = 3 \<or> length ds = 4"
    using assms by (cases ds; cases "tl ds"; cases "tl (tl ds)"; cases "tl (tl (tl ds))") auto
  moreover have "x * 17 div (17 * k) = x div k" "x * 16 div (16 * k) = x div k" for x k :: nat
    by (simp_all add: mult.commute)
  note this [of _ 16] this [of _ 256]
  ultimately show ?thesis by (auto simp: xparse_scale_def component_value_def Let_def)
qed

text \<open>One component of the \<open>rgb:\<close> format, followed by its delimiter or by the end.\<close>

lemma xparse_digits_rgb:
  assumes "hex_chars s ds" "s \<noteq> []" "i + length s \<le> 4"
    and "component < 2 \<longrightarrow> t = 0x2F # t'" "\<not> component < 2 \<longrightarrow> t = [] \<and> t' = []"
  shows "xparse_digits False component 4 i (s @ t) v n found =
    Some (t', foldl (\<lambda>v d. v * 16 + d) v ds, i + length ds, True)"
  using assms
proof (induction s arbitrary: ds i v n found)
  case (Cons c s)
  then obtain d ds' where ds: "ds = d # ds'" "HexToUint c = Some d" "hex_chars s ds'"
    by (auto simp: hex_chars_Cons)
  show ?case
  proof (cases "s = []")
    case True
    with Cons.prems ds show ?thesis by auto
  next
    case False
    then obtain c' s' where s: "s = c' # s'" by (cases s) auto
    with ds have "c' \<noteq> 0x2F" by (auto simp: hex_chars_Cons HexToUint_slash)
    with Cons.IH [OF ds(3) False, of "i + 1"] Cons.prems ds s show ?thesis by simp
  qed
qed simp

text \<open>One component of the \<open>#\<close> format: exactly \<open>n\<close> digits.\<close>

lemma xparse_digits_sharp:
  assumes "hex_chars s ds" "s \<noteq> []" "i + length s = n"
  shows "xparse_digits True component n i (s @ t) v n found =
    Some (t, foldl (\<lambda>v d. v * 16 + d) v ds, n, True)"
  using assms
proof (induction s arbitrary: ds i v found)
  case (Cons c s)
  then obtain d ds' where ds: "ds = d # ds'" "HexToUint c = Some d" "hex_chars s ds'"
    by (auto simp: hex_chars_Cons)
  show ?case
  proof (cases "s = []")
    case True
    with Cons.prems ds show ?thesis by (cases t) auto
  next
    case False
    with Cons.IH [OF ds(3) False, of "i + 1"] Cons.prems ds show ?thesis by simp
  qed
qed simp

lemma xparse_component_rgb:
  assumes "hex_chars s ds" "ds \<noteq> []" "length ds \<le> 4"
    and "component < 2 \<longrightarrow> t = 0x2F # t'" "\<not> component < 2 \<longrightarrow> t = [] \<and> t' = []"
  shows "xparse_component False component (s @ t) n = Some (t', component_value False ds, length ds)"
proof -
  have "s \<noteq> []" "length s \<le> 4" using assms hex_chars_length [OF assms(1)] by auto
  with assms xparse_digits_rgb [of s ds 0 component t t' 0 n False] show ?thesis
    by (simp add: xparse_component_def xparse_scale_value flip: hex_number_def)
qed

lemma xparse_component_sharp:
  assumes "hex_chars s ds" "ds \<noteq> []" "length ds \<le> 4"
  shows "xparse_component True component (s @ t) (length ds) = Some (t, component_value True ds, length ds)"
proof -
  have "s \<noteq> []" "length s = length ds" using assms hex_chars_length [OF assms(1)] by auto
  with assms xparse_digits_sharp [of s ds 0 "length ds" component t 0 False] show ?thesis
    by (simp add: xparse_component_def) (simp add: hex_number_def flip: xparse_scale_value)
qed

text \<open>The two formats as a whole.\<close>

definition spec_color :: "bool \<Rightarrow> nat list \<Rightarrow> nat list \<Rightarrow> nat list \<Rightarrow> color" where
  "spec_color isSharp r g b =
     \<lparr>color_r = word_of_nat (component_value isSharp r), color_g = word_of_nat (component_value isSharp g),
      color_b = word_of_nat (component_value isSharp b)\<rparr>"

lemma xparse_rgb:
  assumes "hex_chars r rs" "hex_chars g gs" "hex_chars b bs"
    and "rs \<noteq> []" "gs \<noteq> []" "bs \<noteq> []" "length rs \<le> 4" "length gs \<le> 4" "length bs \<le> 4"
  shows "xparse_values False (r @ [0x2F] @ g @ [0x2F] @ b) n = Some (spec_color False rs gs bs)"
proof -
  have "xparse_component False 0 (r @ [0x2F] @ g @ [0x2F] @ b) n =
      Some (g @ [0x2F] @ b, component_value False rs, length rs)"
    using assms by (intro xparse_component_rgb) simp_all
  moreover have "xparse_component False 1 (g @ [0x2F] @ b) k =
      Some (b, component_value False gs, length gs)" for k
    using assms by (intro xparse_component_rgb) simp_all
  moreover have "xparse_component False 2 (b @ []) k = Some ([], component_value False bs, length bs)" for k
    using assms by (intro xparse_component_rgb) simp_all
  ultimately show ?thesis by (simp add: xparse_values_def spec_color_def)
qed

lemma xparse_sharp:
  assumes "hex_chars r rs" "hex_chars g gs" "hex_chars b bs"
    and "n \<noteq> 0" "n \<le> 4" "length rs = n" "length gs = n" "length bs = n"
  shows "xparse_values True (r @ g @ b) n = Some (spec_color True rs gs bs)"
proof -
  have ne: "rs \<noteq> []" "gs \<noteq> []" "bs \<noteq> []" using assms(4-8) by auto
  have "xparse_component True 0 (r @ g @ b) n = Some (g @ b, component_value True rs, n)"
    using assms ne xparse_component_sharp [of r rs 0 "g @ b"] by simp
  moreover have "xparse_component True 1 (g @ b) n = Some (b, component_value True gs, n)"
    using assms ne xparse_component_sharp [of g gs 1 b] by simp
  moreover have "xparse_component True 2 (b @ []) n = Some ([], component_value True bs, n)"
    using assms ne xparse_component_sharp [of b bs 2 "[]"] by simp
  ultimately show ?thesis by (simp add: xparse_values_def spec_color_def)
qed

lemma hex_number_bound: "\<forall>d \<in> set ds. d < 16 \<Longrightarrow> hex_number ds < 16 ^ length ds"
proof (induction ds rule: rev_induct)
  case (snoc d ds)
  then have "hex_number ds + 1 \<le> 16 ^ length ds" "d < 16" by auto
  then have "16 * (hex_number ds + 1) \<le> 16 * 16 ^ length ds" by (intro mult_le_mono) simp_all
  with \<open>d < 16\<close> show ?case by (simp add: hex_number_def)
qed (simp add: hex_number_def)

text \<open>The scaled value fits into the byte it is stored in.\<close>

lemma component_value_bound:
  assumes "\<forall>d \<in> set ds. d < 16" "ds \<noteq> []"
  shows "component_value isSharp ds < 256"
proof (cases "length ds = 1")
  case True
  then have "hex_number ds < 16" using hex_number_bound [OF assms(1)] by simp
  with True show ?thesis by (simp add: component_value_def)
next
  case False
  with assms(2) obtain k where k: "length ds = k + 2"
    by (metis One_nat_def Suc_1 add.commute length_0_conv less_2_cases_iff nat_le_iff_add not_less)
  then have "hex_number ds < 16 ^ k * 256"
    using hex_number_bound [OF assms(1)] by (simp add: power_add)
  then have "hex_number ds div 16 ^ k < 256" by (simp add: less_mult_imp_div_less mult.commute)
  with False k show ?thesis by (simp add: component_value_def)
qed

subsection \<open>Properties\<close>

text \<open>
  \<open>SplitString\<close> inverts joining: parts without the delimiter, joined with it, are split back
  into the same parts (unless the join is empty, which yields no part), and in the other direction
  joining the parts of any string gives the string back.
\<close>

theorem SplitString_roundtrip:
  "parts \<noteq> [] \<Longrightarrow> join d parts \<noteq> [] \<Longrightarrow> \<forall>x \<in> set parts. d \<notin> set x \<Longrightarrow>
     SplitString (join d parts) d = parts \<and> join d (SplitString s d) = s"
  by (simp add: SplitString_eq split_iterate_def split_join join_split)

theorem SplitString_roundtrip_witness:
  "SplitString [0x31, 0x3B, 0x3B, 0x32] 0x3B = [[0x31], [], [0x32]] \<and>
   join 0x3B (SplitString [0x3B] 0x3B) = [0x3B]"
  using SplitString_roundtrip [of "[[0x31], [], [0x32]]" "0x3B" "[0x3B]"] by simp

text \<open>
  \<open>til::parse_u64\<close> with an explicit base from 2 to 36 accepts exactly the non-empty strings
  of digits of that base whose value is below \<open>2 ^ 64\<close>, and returns that value: its three
  overflow tests on wrapping 64-bit arithmetic neither miss an overflow nor reject a number that
  fits.
\<close>

theorem parse_u64_exact:
  assumes "1 < base" "base \<le> 36"
  shows "parse_u64 s (int base) =
    (if s \<noteq> [] \<and> list_all (alnum_digit base) s \<and> alnum_number base 0 s < 2 ^ 64
     then Some (word_of_nat (alnum_number base 0 s)) else None)"
  using assms by (rule parse_u64_base)

theorem parse_u64_exact_witness:
  "parse_u64 [0x31, 0x66] 16 = Some 31"
  using parse_u64_exact [of 16 "[0x31, 0x66]"]
  by (simp add: alnum_digit_def alnum_value_def alnum_number_def)

text \<open>
  \<open>ColorFromXParseColorSpec\<close> reads both XParseColor formats: \<open>rgb:r/g/b\<close> (prefix in any
  case) with one to four hexadecimal digits per component, each scaled on its own, and
  \<open>#rgb\<close> with the same number of digits for every component.
\<close>

theorem ColorFromXParseColorSpec_formats:
  assumes "hex_chars r rs" "hex_chars g gs" "hex_chars b bs"
    and "rs \<noteq> []" "gs \<noteq> []" "bs \<noteq> []" "length rs \<le> 4" "length gs \<le> 4" "length bs \<le> 4"
    and "length prefix = 4" "map ascii_lower prefix = [0x72, 0x67, 0x62, 0x3A]"
  shows "ColorFromXParseColorSpec (prefix @ r @ [0x2F] @ g @ [0x2F] @ b) = Some (spec_color False rs gs bs) \<and>
    (length gs = length rs \<longrightarrow> length bs = length rs \<longrightarrow>
      ColorFromXParseColorSpec (0x23 # r @ g @ b) = Some (spec_color True rs gs bs))"
proof (intro conjI impI)
  note len = hex_chars_length [OF assms(1)] hex_chars_length [OF assms(2)] hex_chars_length [OF assms(3)]
  have "1 \<le> length rs" "1 \<le> length gs" "1 \<le> length bs" using assms(4-6) by (simp_all add: Suc_le_eq)
  with assms(7-11) len
  show "ColorFromXParseColorSpec (prefix @ r @ [0x2F] @ g @ [0x2F] @ b) = Some (spec_color False rs gs bs)"
    using xparse_rgb [OF assms(1-9), of 0] by (simp add: ColorFromXParseColorSpec_def Let_def)
  assume eq: "length gs = length rs" "length bs = length rs"
  have "length rs \<noteq> 0" using assms(4) by simp
  with assms(7) have "length rs = 1 \<or> length rs = 2 \<or> length rs = 3 \<or> length rs = 4" by linarith
  moreover have "ascii_lower 0x23 \<noteq> 0x72" by (simp add: ascii_lower_def)
  ultimately show "ColorFromXParseColorSpec (0x23 # r @ g @ b) = Some (spec_color True rs gs bs)"
    using xparse_sharp [OF assms(1-3) \<open>length rs \<noteq> 0\<close>] assms(7) eq len
    by (auto simp: ColorFromXParseColorSpec_def Let_def)
qed

theorem ColorFromXParseColorSpec_formats_witness:
  "ColorFromXParseColorSpec [0x52, 0x67, 0x62, 0x3A, 0x66, 0x2F, 0x38, 0x30, 0x2F, 0x30, 0x30, 0x30] =
     Some \<lparr>color_r = 255, color_g = 128, color_b = 0\<rparr>"
  using ColorFromXParseColorSpec_formats
    [of "[0x66]" "[15]" "[0x38, 0x30]" "[8, 0]" "[0x30, 0x30, 0x30]" "[0, 0, 0]" "[0x52, 0x67, 0x62, 0x3A]"]
  by (simp add: hex_chars_def HexToUint_def ascii_lower_def spec_color_def component_value_def hex_number_def)

end
