(* ===== verification/Base64.thy ===== *)
theory Base64
  imports Prelude
begin

text \<open>
  The Base64 decoder of the clipboard sequence OSC 52, \<open>Base64::Decode\<close> of
  \<open>src/src/terminal/parser/base64.cpp\<close>. The decoder reads four characters at a time while more
  than five remain, then the rest one by one, ignoring \<open>=\<close>. The final conversion \<open>til::u8u16\<close> ends
  in the Windows API and is a parameter.

  The lemmas give the round trip with the RFC 4648 encoding (both alphabets, with and without
  padding) and show that the decoder stays inside the buffer it reserved.
\<close>

subsection \<open>Model\<close>

definition decodeTable :: "byte list" where
  "decodeTable =
    [255, 255, 255, 255, 255, 255, 255, 255, 255, 255, 255, 255, 255, 255, 255, 255,
     255, 255, 255, 255, 255, 255, 255, 255, 255, 255, 255, 255, 255, 255, 255, 255,
     255, 255, 255, 255, 255, 255, 255, 255, 255, 255, 255, 62, 255, 62, 255, 63,
     52, 53, 54, 55, 56, 57, 58, 59, 60, 61, 255, 255, 255, 255, 255, 255,
     255, 0, 1, 2, 3, 4, 5, 6, 7, 8, 9, 10, 11, 12, 13, 14,
     15, 16, 17, 18, 19, 20, 21, 22, 23, 24, 25, 255, 255, 255, 255, 63,
     255, 26, 27, 28, 29, 30, 31, 32, 33, 34, 35, 36, 37, 38, 39, 40,
     41, 42, 43, 44, 45, 46, 47, 48, 49, 50, 51, 255, 255, 255, 255, 255]"

text \<open>The accumulator lambda: the remainder \<open>r\<close> and the error bits.\<close>

fun b64_accumulate :: "wchar \<Rightarrow> u32 \<times> u32 \<Rightarrow> u32 \<times> u32" where
  "b64_accumulate ch (r, e) =
     (let n = ucast (decodeTable ! unat (ch AND 0x7f)) :: u32
      in (push_bit 6 r OR n, e OR ((ucast ch OR n) AND 0xff80)))"

text \<open>The bytes written for a complete group of four characters.\<close>

definition b64_emit3 :: "u32 \<Rightarrow> byte list" where
  "b64_emit3 r = [ucast (drop_bit 16 r), ucast (drop_bit 8 r), ucast (drop_bit 0 r)]"

text \<open>The batched loop; \<open>n\<close> is the size of the whole input.\<close>

fun b64_batched ::
    "nat \<Rightarrow> wstring \<Rightarrow> u32 \<times> u32 \<Rightarrow> byte list \<Rightarrow> wstring \<times> (u32 \<times> u32) \<times> byte list" where
  "b64_batched n (c0 # c1 # c2 # c3 # cs) s out =
     (if length (c0 # c1 # c2 # c3 # cs) > min 5 n
      then (let s' = b64_accumulate c3 (b64_accumulate c2 (b64_accumulate c1 (b64_accumulate c0 s)))
            in b64_batched n cs s' (out @ b64_emit3 (fst s')))
      else (c0 # c1 # c2 # c3 # cs, s, out))"
| "b64_batched n cs s out = (cs, s, out)"

fun b64_tail :: "wstring \<Rightarrow> u32 \<times> u32 \<Rightarrow> nat \<Rightarrow> (u32 \<times> u32) \<times> nat" where
  "b64_tail [] s ri = (s, ri)"
| "b64_tail (c # cs) s ri =
     (if c \<noteq> 0x3D then b64_tail cs (b64_accumulate c s) (ri + 1) else b64_tail cs s ri)"

text \<open>The \<open>switch (ri)\<close>: bytes written and error bits.\<close>

definition b64_finish :: "nat \<Rightarrow> u32 \<times> u32 \<Rightarrow> byte list \<times> u32" where
  "b64_finish ri s =
     (if ri = 2 then ([ucast (drop_bit 4 (fst s))], snd s)
      else if ri = 3 then ([ucast (drop_bit 10 (fst s)), ucast (drop_bit 2 (fst s))], snd s)
      else if ri = 4 then (b64_emit3 (fst s), snd s)
      else ([], snd s OR word_of_nat ri))"

text \<open>Everything written to the result buffer, and the accumulated error bits.\<close>

definition b64_from :: "nat \<Rightarrow> wstring \<Rightarrow> u32 \<times> u32 \<Rightarrow> byte list \<Rightarrow> byte list \<times> u32" where
  "b64_from n src s out =
     (let (rest, s', out') = b64_batched n src s out;
          (s'', ri) = b64_tail rest s' 0;
          (bytes, error) = b64_finish ri s''
      in (out' @ bytes, error))"

definition b64_decode :: "wstring \<Rightarrow> byte list option" where
  "b64_decode src =
     (let (bytes, error) = b64_from (length src) src (0, 0) []
      in if error \<noteq> 0 then None else Some bytes)"

datatype b64_error = ERROR_INVALID_DATA | ConversionFailed

definition Base64_Decode ::
    "(byte list \<Rightarrow> wstring option) \<Rightarrow> wstring \<Rightarrow> b64_error + wstring" where
  "Base64_Decode u8u16 src =
     (case b64_decode src of
        None \<Rightarrow> Inl ERROR_INVALID_DATA
      | Some result \<Rightarrow>
          (case u8u16 result of None \<Rightarrow> Inl ConversionFailed | Some dst \<Rightarrow> Inr dst))"

text \<open>The size the result buffer is given before the first write.\<close>

definition b64_reserved :: "nat \<Rightarrow> nat" where
  "b64_reserved n = ((n + 3) div 4) * 3"

subsection \<open>The encoding of RFC 4648\<close>

definition b64_alphabet :: "bool \<Rightarrow> byte \<Rightarrow> wchar" where
  "b64_alphabet url n =
     (if n < 26 then 0x41 + ucast n
      else if n < 52 then 0x61 + (ucast n - 26)
      else if n < 62 then 0x30 + (ucast n - 52)
      else if n = 62 then (if url then 0x2D else 0x2B)
      else (if url then 0x5F else 0x2F))"

fun b64_encode :: "bool \<Rightarrow> bool \<Rightarrow> byte list \<Rightarrow> wstring" where
  "b64_encode url pad [] = []"
| "b64_encode url pad [a] =
     [b64_alphabet url (drop_bit 2 a), b64_alphabet url (push_bit 4 (a AND 3))] @
     (if pad then [0x3D, 0x3D] else [])"
| "b64_encode url pad [a, b] =
     [b64_alphabet url (drop_bit 2 a), b64_alphabet url (push_bit 4 (a AND 3) OR drop_bit 4 b),
      b64_alphabet url (push_bit 2 (b AND 15))] @
     (if pad then [0x3D] else [])"
| "b64_encode url pad (a # b # c # bs) =
     [b64_alphabet url (drop_bit 2 a), b64_alphabet url (push_bit 4 (a AND 3) OR drop_bit 4 b),
      b64_alphabet url (push_bit 2 (b AND 15) OR drop_bit 6 c), b64_alphabet url (c AND 63)] @
     b64_encode url pad bs"


definition b64_valid :: "wchar \<Rightarrow> bool" where
  "b64_valid ch \<longleftrightarrow> (0x41 \<le> ch \<and> ch \<le> 0x5A) \<or> (0x61 \<le> ch \<and> ch \<le> 0x7A) \<or> (0x30 \<le> ch \<and> ch \<le> 0x39) \<or>
     ch \<in> {0x2B, 0x2F, 0x2D, 0x5F}"

subsection \<open>One character\<close>

definition alphabet_ok :: "bool \<Rightarrow> byte \<Rightarrow> bool" where
  "alphabet_ok url n \<longleftrightarrow>
     (let ch = b64_alphabet url n
      in ch \<noteq> 0x3D \<and> decodeTable ! unat (ch AND 0x7f) = n \<and>
         (ucast ch OR (ucast n :: u32)) AND 0xff80 = 0)"

lemma alphabet_ok_all:
  "list_all (\<lambda>k. alphabet_ok True (word_of_nat k) \<and> alphabet_ok False (word_of_nat k)) [0..<64]"
  by code_simp

lemma alphabet_ok: "n < 64 \<Longrightarrow> alphabet_ok url n"
  using bspec [OF alphabet_ok_all [unfolded list_all_iff], of "unat n"]
  by (cases url) (simp_all add: word_less_nat_alt)

lemma alphabet_decodes:
  assumes "n < 64"
  shows "b64_alphabet url n \<noteq> 0x3D"
    and "b64_accumulate (b64_alphabet url n) (r, e) = (push_bit 6 r OR ucast n, e)"
  using alphabet_ok [OF assms, of url] by (simp_all add: alphabet_ok_def Let_def)

text \<open>A character outside both alphabets sets an error bit, and no later character clears it.\<close>

definition table_ok :: "wchar \<Rightarrow> bool" where
  "table_ok ch \<longleftrightarrow> (decodeTable ! unat (ch AND 0x7f)) AND 0x80 = (if b64_valid ch then 0 else 0x80)"

lemma table_ok_all: "list_all (\<lambda>k. table_ok (word_of_nat k)) [0..<128]"
  by code_simp

lemma table_ok: "ch < 128 \<Longrightarrow> table_ok ch"
  using bspec [OF table_ok_all [unfolded list_all_iff], of "unat ch"]
  by (simp add: word_less_nat_alt)

lemma b64_valid_small: "b64_valid ch \<Longrightarrow> ch < 128"
  by (auto simp: b64_valid_def word_le_nat_alt word_less_nat_alt)

lemma accumulate_error: "snd (b64_accumulate ch s) = 0 \<longleftrightarrow> snd s = 0 \<and> b64_valid ch"
proof -
  obtain r e where s: "s = (r, e)" by (cases s)
  define n where "n = decodeTable ! unat (ch AND 0x7f)"
  have mask: "(0xff80 :: u32) = push_bit 7 (mask 9)" by (simp add: mask_eq_exp_minus_1)
  have "bit (0xff80 :: u32) k \<longleftrightarrow> 7 \<le> k \<and> k < 16" for k
    unfolding mask by (auto simp: bit_simps)
  then have "(ucast ch OR ucast n :: u32) AND 0xff80 = 0 \<longleftrightarrow>
      (\<forall>k. 7 \<le> k \<and> k < 16 \<longrightarrow> \<not> bit ch k \<and> \<not> bit n k)"
    unfolding bit_eq_iff by (auto simp: bit_simps)
  also have "\<dots> \<longleftrightarrow> b64_valid ch"
  proof (cases "ch < 128")
    case True
    then have low: "\<not> bit ch k" if "7 \<le> k" for k
      using that word_less_exp [of 7 ch] by simp
    have "n AND 0x80 = (if b64_valid ch then 0 else 0x80)"
      using table_ok [OF True] by (simp add: table_ok_def n_def)
    then have "bit (n AND push_bit 7 1) 7 \<longleftrightarrow> \<not> b64_valid ch" by simp
    then have n7: "bit n 7 \<longleftrightarrow> \<not> b64_valid ch" by (simp add: bit_simps)
    have "bit n k \<Longrightarrow> 7 \<le> k \<Longrightarrow> k = 7" for k
      using bit_imp_le_length [of n k] by simp
    with low n7 show ?thesis by force
  next
    case False
    then obtain k where "7 \<le> k" "bit ch k" using word_less_exp [of 7 ch] by auto
    moreover from this have "k < 16" using bit_imp_le_length [of ch k] by simp
    ultimately show ?thesis using False b64_valid_small [of ch] by blast
  qed
  finally show ?thesis by (simp add: s n_def Let_def or_eq_0_iff)
qed

subsection \<open>Groups\<close>

lemma group3:
  fixes a b c :: byte and r :: u32
  defines "x \<equiv> push_bit 6 (push_bit 6 (push_bit 6 (push_bit 6 r OR ucast (drop_bit 2 a)) OR
      ucast (push_bit 4 (a AND 3) OR drop_bit 4 b)) OR ucast (push_bit 2 (b AND 15) OR drop_bit 6 c))
      OR ucast (c AND 63)"
  shows "b64_emit3 x = [a, b, c]"
proof -
  have "ucast (drop_bit 16 x) = a" "ucast (drop_bit 8 x) = b" "ucast (drop_bit 0 x) = c"
    unfolding x_def byte_and_mask by (rule byte_eq_bits; simp add: bit_simps bit_byte_ge)+
  then show ?thesis by (simp add: b64_emit3_def)
qed

lemma group2:
  fixes a b :: byte and r :: u32
  defines "x \<equiv> push_bit 6 (push_bit 6 (push_bit 6 r OR ucast (drop_bit 2 a)) OR
      ucast (push_bit 4 (a AND 3) OR drop_bit 4 b)) OR ucast (push_bit 2 (b AND 15))"
  shows "[ucast (drop_bit 10 x), ucast (drop_bit 2 x)] = [a, b]"
proof -
  have "ucast (drop_bit 10 x) = a" "ucast (drop_bit 2 x) = b"
    unfolding x_def byte_and_mask by (rule byte_eq_bits; simp add: bit_simps bit_byte_ge)+
  then show ?thesis by simp
qed

lemma group1:
  fixes a :: byte and r :: u32
  defines "x \<equiv> push_bit 6 (push_bit 6 r OR ucast (drop_bit 2 a)) OR ucast (push_bit 4 (a AND 3))"
  shows "ucast (drop_bit 4 x) = a"
  unfolding x_def byte_and_mask by (rule byte_eq_bits; simp add: bit_simps bit_byte_ge)

text \<open>The six-bit values the encoding looks up.\<close>

lemma sextet_bounds [simp]:
  fixes a b c :: byte
  shows "drop_bit 2 a < 64" "push_bit 4 (a AND 3) < 64" "push_bit 4 (a AND 3) OR drop_bit 4 b < 64"
    "push_bit 2 (b AND 15) < 64" "push_bit 2 (b AND 15) OR drop_bit 6 c < 64" "c AND 63 < 64"
  unfolding byte_less_64 byte_and_mask by (simp_all add: bit_simps bit_byte_ge)

subsection \<open>The decoder\<close>

text \<open>Unfolding rules that follow the control flow.\<close>

lemma from_batch:
  assumes "length (c0 # c1 # c2 # c3 # cs) > 5" "n > 5"
  shows "b64_from n (c0 # c1 # c2 # c3 # cs) s out =
    (let s' = b64_accumulate c3 (b64_accumulate c2 (b64_accumulate c1 (b64_accumulate c0 s)))
     in b64_from n cs s' (out @ b64_emit3 (fst s')))"
  using assms by (simp add: b64_from_def Let_def)

lemma from_tail:
  assumes "length cs \<le> 5" "length cs \<le> n"
  shows "b64_from n cs s out =
    (let (s', ri) = b64_tail cs s 0; (bytes, error) = b64_finish ri s' in (out @ bytes, error))"
proof -
  have "b64_batched n cs s out = (cs, s, out)"
    using assms by (cases "(n, cs, s, out)" rule: b64_batched.cases) auto
  then show ?thesis by (simp add: b64_from_def)
qed

lemma encode_Nil_iff [simp]: "b64_encode url pad bs = [] \<longleftrightarrow> bs = []"
  by (cases "(url, pad, bs)" rule: b64_encode.cases) simp_all

lemma encode_length_ge: "bs \<noteq> [] \<Longrightarrow> length (b64_encode url pad bs) \<ge> 2"
  by (cases "(url, pad, bs)" rule: b64_encode.cases) simp_all

lemma from_encode:
  assumes "length (b64_encode url pad bs) \<le> n"
  shows "b64_from n (b64_encode url pad bs) (r, 0) out = (out @ bs, 0)"
  using assms
proof (induction url pad bs arbitrary: r out rule: b64_encode.induct)
  case (1 url pad)
  then show ?case by (simp add: from_tail b64_finish_def)
next
  case (2 url pad a)
  then show ?case
    using group1 [of r a]
    by (simp add: from_tail alphabet_decodes b64_finish_def del: b64_accumulate.simps push_bit_and)
next
  case (3 url pad a b)
  then show ?case
    using group2 [of r a b]
    by (simp add: from_tail alphabet_decodes b64_finish_def del: b64_accumulate.simps push_bit_and)
next
  case (4 url pad a b c bs)
  show ?case
  proof (cases "bs = []")
    case True
    with "4.prems" group3 [of r a b c] show ?thesis
      by (simp add: from_tail alphabet_decodes b64_finish_def del: b64_accumulate.simps push_bit_and)
  next
    case False
    with encode_length_ge [of bs url pad] "4" group3 [of r a b c] show ?thesis
      by (simp add: from_batch alphabet_decodes Let_def del: b64_accumulate.simps push_bit_and)
  qed
qed

text \<open>
  C28. Round trip: the decoder gives back the bytes of every standard encoding, for both alphabets of
  RFC 4648 and with or without padding.
\<close>

theorem decode_encode: "b64_decode (b64_encode url pad bs) = Some bs"
  by (simp add: b64_decode_def from_encode)

lemma tail_count: "snd (b64_tail cs s k) \<le> k + length cs"
  by (induction cs s k rule: b64_tail.induct) (auto simp del: b64_accumulate.simps)

lemma finish_length: "length (fst (b64_finish ri s)) \<le> (if ri = 0 then 0 else 3)"
  by (simp add: b64_finish_def b64_emit3_def)

lemma batched_length:
  "length cs \<le> n \<Longrightarrow> b64_batched n cs s out = (rest, s', out') \<Longrightarrow>
     4 * length out' + 3 * length rest = 4 * length out + 3 * length cs"
  by (induction n cs s out arbitrary: rest s' out' rule: b64_batched.induct)
    (auto simp: Let_def b64_emit3_def simp del: b64_accumulate.simps split: if_splits)

text \<open>
  Memory safety of the decoder: for every input, valid or not, the bytes the decoder writes fit
  into the buffer reserved at the start, which holds three bytes for every four characters.
\<close>

theorem from_length: "length (fst (b64_from (length src) src s [])) \<le> b64_reserved (length src)"
proof -
  obtain rest s' out where bat: "b64_batched (length src) src s [] = (rest, s', out)"
    by (metis prod_cases3)
  have "4 * length out + 3 * length rest = 3 * length src"
    using batched_length [OF _ bat] by simp
  then have "length out + (if rest = [] then 0 else 3) \<le> (length src + 3) div 4 * 3"
    by (cases rest) (simp, simp, presburger)
  moreover obtain s'' ri where "b64_tail rest s' 0 = (s'', ri)" by fastforce
  moreover from this have "ri \<le> length rest" using tail_count [of rest s' 0] by simp
  ultimately show ?thesis
    using finish_length [of ri s''] bat
    by (force simp: b64_from_def b64_reserved_def split: prod.split if_splits)
qed

text \<open>What the decoder accepts consists of alphabet characters and \<open>=\<close>.\<close>

lemma accumulate4_error:
  "snd (b64_accumulate c3 (b64_accumulate c2 (b64_accumulate c1 (b64_accumulate c0 s)))) = 0 \<longleftrightarrow>
     snd s = 0 \<and> b64_valid c0 \<and> b64_valid c1 \<and> b64_valid c2 \<and> b64_valid c3"
  by (auto simp: accumulate_error simp del: b64_accumulate.simps)

lemma tail_error:
  "snd (fst (b64_tail cs s k)) = 0 \<longleftrightarrow> snd s = 0 \<and> (\<forall>c \<in> set cs. b64_valid c \<or> c = 0x3D)"
  by (induction cs s k rule: b64_tail.induct)
    (auto simp: accumulate_error b64_valid_def simp del: b64_accumulate.simps)

lemma finish_error: "snd (b64_finish ri s) = 0 \<Longrightarrow> snd s = 0"
  by (auto simp: b64_finish_def split: if_splits) (metis word_bw_lcs(2) or_eq_0_iff)

lemma batched_error:
  "b64_batched n cs s out = (rest, s', out') \<Longrightarrow> snd s' = 0 \<Longrightarrow>
     snd s = 0 \<and> (\<forall>c \<in> set cs - set rest. b64_valid c)"
proof (induction n cs s out arbitrary: rest s' out' rule: b64_batched.induct)
  case (1 n c0 c1 c2 c3 cs s out)
  define s1 where "s1 = b64_accumulate c3 (b64_accumulate c2 (b64_accumulate c1 (b64_accumulate c0 s)))"
  show ?case
  proof (cases "length (c0 # c1 # c2 # c3 # cs) > min 5 n")
    case True
    with "1.prems" have "b64_batched n cs s1 (out @ b64_emit3 (fst s1)) = (rest, s', out')"
      by (simp add: s1_def Let_def)
    with "1.IH" [OF True s1_def] "1.prems" have "snd s1 = 0 \<and> (\<forall>c \<in> set cs - set rest. b64_valid c)"
      by simp
    then show ?thesis by (auto simp: s1_def accumulate4_error)
  qed (use "1.prems" in auto)
qed auto

text \<open>
  Rejection: an accepted input consists of characters of the two alphabets and of \<open>=\<close> alone, so
  white space, line breaks, other ASCII characters and everything above \<open>0x7F\<close> are errors wherever
  they occur.
\<close>

theorem decode_accepts:
  assumes "b64_decode src = Some bs" and "c \<in> set src"
  shows "b64_valid c \<or> c = 0x3D"
proof -
  obtain rest s' out where bat: "b64_batched (length src) src (0, 0) [] = (rest, s', out)"
    by (metis prod_cases3)
  obtain s'' ri where tail: "b64_tail rest s' 0 = (s'', ri)" by fastforce
  have "snd (b64_finish ri s'') = 0"
    using assms(1) bat tail by (auto simp: b64_decode_def b64_from_def split: prod.splits if_splits)
  then have "snd (fst (b64_tail rest s' 0)) = 0" using finish_error tail by simp
  then have "snd s' = 0" "\<forall>c \<in> set rest. b64_valid c \<or> c = 0x3D" by (simp_all add: tail_error)
  with batched_error [OF bat] assms(2) show ?thesis by auto
qed

theorem decode_accepts_witness: "b64_valid (0x59 :: wchar) \<or> (0x59 :: wchar) = 0x3D"
proof -
  have "b64_decode [0x59, 0x51, 0x3D, 0x3D] = Some [0x61]" by code_simp
  then show ?thesis by (rule decode_accepts) simp
qed

text \<open>
  Trailing padding is not ignored altogether: one to three \<open>=\<close> after \<open>YQ\<close> are accepted and yield
  \<open>a\<close>, four are rejected, because the batched loop then reads padding as data.
\<close>

theorem decode_padding:
  "map (\<lambda>n. b64_decode ([0x59, 0x51] @ replicate n 0x3D)) [0, 1, 2, 3, 4] =
     [Some [0x61], Some [0x61], Some [0x61], Some [0x61], None]"
  by code_simp

end
