(* ===== verification/Output_Engine.thy ===== *)
theory Output_Engine
  imports Vt_Invariant Vt_Utils Base64
begin

text \<open>
  The engine behind the parser for application output, \<open>OutputStateMachineEngine\<close> of
  \<open>src/src/terminal/parser/OutputStateMachineEngine.cpp\<close> and \<open>.hpp\<close>. It turns the actions of the
  parser into calls of the interface \<open>ITermDispatch\<close> and keeps the last printed character for REP.

  A call of the interface is a method name with its arguments, after the conversions the C++
  overloads make (\<open>VTParameter\<close> to a number, to an enumeration or passed on). Which calls an action
  makes depends only on the action and on the last printed character: the tables \<open>..._calls\<close> give
  them, \<open>eng_calls\<close> makes them in order until one throws. The implementation behind
  \<open>ITermDispatch\<close> is the record \<open>term_dispatch\<close> over a state \<open>'d\<close>; the Base64 decoder's final
  conversion and the X11 colour tables are arguments of the OSC table.
\<close>

subsection \<open>The dispatch interface\<close>

datatype dispatch_arg =
    Num VTInt | Param VTParameter | Params VTParameters | Str wstring | Id VTID | Flag bool | Chr wchar

type_synonym dispatch_call = "string \<times> dispatch_arg list"

record ('d, 'h, 'k) term_dispatch =
  td_call :: "dispatch_call \<Rightarrow> bool \<Rightarrow> 'd \<Rightarrow> ('d, 'k, unit) reply"
  td_handler :: "dispatch_call \<Rightarrow> bool \<Rightarrow> 'd \<Rightarrow> ('d, 'k, 'h option) reply"
  td_run :: "'h \<Rightarrow> wchar \<Rightarrow> bool \<Rightarrow> 'd \<Rightarrow> ('d, 'k, bool) reply"

record 'd OutputEngine =
  oe_dispatch :: 'd
  oe_lastPrintedChar :: wchar

definition lift_reply :: "'d OutputEngine \<Rightarrow> ('d, 'k, 'r) reply \<Rightarrow> ('d OutputEngine, 'k, 'r) reply" where
  "lift_reply e r = Reply (e\<lparr>oe_dispatch := reply_engine r\<rparr>) (reply_requests r) (reply_result r)"

text \<open>A sequence of calls: an exception ends it.\<close>

fun eng_calls ::
    "('d, 'h, 'k) term_dispatch \<Rightarrow> bool \<Rightarrow> dispatch_call list \<Rightarrow> 'd OutputEngine \<Rightarrow>
     ('d OutputEngine, 'k, unit) reply" where
  "eng_calls td b [] e = Reply e [] (Some ())"
| "eng_calls td b (c # cs) e =
     (case td_call td c b (oe_dispatch e) of
        Reply d rs None \<Rightarrow> Reply (e\<lparr>oe_dispatch := d\<rparr>) rs None
      | Reply d rs (Some u) \<Rightarrow>
          (case eng_calls td b cs (e\<lparr>oe_dispatch := d\<rparr>) of
             Reply e' rs' r \<Rightarrow> Reply e' (rs @ rs') r))"

definition oe_ClearLastChar :: "'d OutputEngine \<Rightarrow> 'd OutputEngine" where
  "oe_ClearLastChar e = e\<lparr>oe_lastPrintedChar := NUL\<rparr>"

text \<open>What most actions end with: the calls, \<open>_ClearLastChar\<close> and \<open>return true\<close>.\<close>

definition eng_finish ::
    "('d, 'h, 'k) term_dispatch \<Rightarrow> bool \<Rightarrow> dispatch_call list \<Rightarrow> 'd OutputEngine \<Rightarrow>
     ('d OutputEngine, 'k, bool) reply" where
  "eng_finish td b cs e =
     (case eng_calls td b cs e of
        Reply e' rs None \<Rightarrow> Reply e' rs None
      | Reply e' rs (Some u) \<Rightarrow> Reply (oe_ClearLastChar e') rs (Some True))"

subsection \<open>Conversions of parameters\<close>

definition num :: "VTParameters \<Rightarrow> nat \<Rightarrow> dispatch_arg" where
  "num ps i = Num (VTParameter_to_int (VTParameters_at ps i))"

definition enum :: "VTParameters \<Rightarrow> nat \<Rightarrow> dispatch_arg" where
  "enum ps i = Num (VTParameter_to_enum (VTParameters_at ps i))"

definition num0 :: "VTParameters \<Rightarrow> nat \<Rightarrow> dispatch_arg" where
  "num0 ps i = Num (VTParameter_value_or (VTParameters_at ps i) 0)"

definition par :: "VTParameters \<Rightarrow> nat \<Rightarrow> dispatch_arg" where
  "par ps i = Param (VTParameters_at ps i)"

text \<open>
  \<open>FlaggedEnumValue\<close> initialises its \<open>VTInt\<close> from the parameter, so it takes the numeric
  conversion: an omitted value and 0 read as 1.
\<close>

definition FlaggedEnumValue :: "VTInt \<Rightarrow> VTParameter \<Rightarrow> VTInt" where
  "FlaggedEnumValue flag p = VTParameter_to_int p OR flag"

definition ANSIStandard :: "VTParameter \<Rightarrow> VTInt" where
  "ANSIStandard = FlaggedEnumValue 0x00000000"

definition DECPrivate :: "VTParameter \<Rightarrow> VTInt" where
  "DECPrivate = FlaggedEnumValue 0x01000000"

definition each :: "VTParameters \<Rightarrow> string \<Rightarrow> (VTParameter \<Rightarrow> dispatch_arg) \<Rightarrow> dispatch_call list" where
  "each ps name f = map (\<lambda>p. (name, [f p])) (VTParameters_for_each ps)"

subsection \<open>Control characters, printing and escape sequences\<close>

definition execute_calls :: "wchar \<Rightarrow> dispatch_call list" where
  "execute_calls wch =
     (if wch = ENQ then [(''EnquireAnswerback'', [])]
      else if wch = BEL then [(''WarningBell'', [])]
      else if wch = BS then [(''CursorBackward'', [Num 1])]
      else if wch = TAB then [(''ForwardTab'', [Num 1])]
      else if wch = CR then [(''CarriageReturn'', [])]
      else if wch = LF \<or> wch = FF \<or> wch = VT then [(''LineFeed'', [Num 2])]
      else if wch = SI then [(''LockingShift'', [Num 0])]
      else if wch = SO then [(''LockingShift'', [Num 1])]
      else if wch = SUB then [(''Print'', [Chr 0x2426])]
      else if wch = DEL then [(''Print'', [Chr wch])]
      else [])"

definition oe_ActionExecute ::
    "('d, 'h, 'k) term_dispatch \<Rightarrow> wchar \<Rightarrow> bool \<Rightarrow> 'd OutputEngine \<Rightarrow> ('d OutputEngine, 'k, bool) reply" where
  "oe_ActionExecute td wch b e = eng_finish td b (execute_calls wch) e"

definition oe_ActionExecuteFromEscape ::
    "('d, 'h, 'k) term_dispatch \<Rightarrow> wchar \<Rightarrow> bool \<Rightarrow> 'd OutputEngine \<Rightarrow> ('d OutputEngine, 'k, bool) reply" where
  "oe_ActionExecuteFromEscape td wch b e = oe_ActionExecute td wch b e"

definition oe_stash :: "wchar \<Rightarrow> 'd OutputEngine \<Rightarrow> 'd OutputEngine" where
  "oe_stash wch e = (if wch \<ge> SPC then e\<lparr>oe_lastPrintedChar := wch\<rparr> else e)"

definition eng_true :: "('e, 'k, unit) reply \<Rightarrow> ('e, 'k, bool) reply" where
  "eng_true r = Reply (reply_engine r) (reply_requests r) (map_option (\<lambda>_. True) (reply_result r))"

definition oe_ActionPrint ::
    "('d, 'h, 'k) term_dispatch \<Rightarrow> wchar \<Rightarrow> bool \<Rightarrow> 'd OutputEngine \<Rightarrow> ('d OutputEngine, 'k, bool) reply" where
  "oe_ActionPrint td wch b e = eng_true (eng_calls td b [(''Print'', [Chr wch])] (oe_stash wch e))"

definition oe_ActionPrintString ::
    "('d, 'h, 'k) term_dispatch \<Rightarrow> wstring \<Rightarrow> bool \<Rightarrow> 'd OutputEngine \<Rightarrow> ('d OutputEngine, 'k, bool) reply" where
  "oe_ActionPrintString td string b e =
     (if string = [] then Reply e [] (Some True)
      else eng_true (eng_calls td b [(''PrintString'', [Str string])] (oe_stash (last string) e)))"

definition oe_ActionPassThroughString ::
    "wstring \<Rightarrow> 'd OutputEngine \<Rightarrow> ('d OutputEngine, 'k, bool) reply" where
  "oe_ActionPassThroughString string e = Reply e [] (Some True)"

text \<open>A \<open>switch\<close> over identifiers: the entry whose literal has the identifier.\<close>

definition lookup_id :: "(string \<times> 'a) list \<Rightarrow> VTID \<Rightarrow> 'a option" where
  "lookup_id table i = map_option snd (find (\<lambda>(k, v). VTID_FromString k = i) table)"

definition esc_table :: "(string \<times> dispatch_call list) list" where
  "esc_table =
    [([CHR 92], []),
     (''6'', [(''BackIndex'', [])]),
     (''7'', [(''CursorSaveState'', [])]),
     (''8'', [(''CursorRestoreState'', [])]),
     (''9'', [(''ForwardIndex'', [])]),
     (''='', [(''SetKeypadMode'', [Flag True])]),
     (''>'', [(''SetKeypadMode'', [Flag False])]),
     (''E'', [(''LineFeed'', [Num 0])]),
     (''D'', [(''LineFeed'', [Num 1])]),
     (''M'', [(''ReverseLineFeed'', [])]),
     (''H'', [(''HorizontalTabSet'', [])]),
     (''Z'', [(''DeviceAttributes'', [])]),
     (''c'', [(''HardReset'', [Flag True])]),
     (''N'', [(''SingleShift'', [Num 2])]),
     (''O'', [(''SingleShift'', [Num 3])]),
     (''n'', [(''LockingShift'', [Num 2])]),
     (''o'', [(''LockingShift'', [Num 3])]),
     (''~'', [(''LockingShiftRight'', [Num 1])]),
     (''}'', [(''LockingShiftRight'', [Num 2])]),
     (''|'', [(''LockingShiftRight'', [Num 3])]),
     ('' 7'', [(''AcceptC1Controls'', [Flag True])]),
     ('' F'', [(''SendC1Controls'', [Flag False])]),
     ('' G'', [(''SendC1Controls'', [Flag True])]),
     ('' L'', [(''AnnounceCodeStructure'', [Num 1])]),
     ('' M'', [(''AnnounceCodeStructure'', [Num 2])]),
     ('' N'', [(''AnnounceCodeStructure'', [Num 3])]),
     (''#3'', [(''SetLineRendition'', [Num 2])]),
     (''#4'', [(''SetLineRendition'', [Num 3])]),
     (''#5'', [(''SetLineRendition'', [Num 0])]),
     (''#6'', [(''SetLineRendition'', [Num 1])]),
     (''#8'', [(''ScreenAlignmentPattern'', [])])]"

text \<open>The default branch: designations by the first character.\<close>

definition esc_designate :: "VTID \<Rightarrow> dispatch_call list" where
  "esc_designate i =
     (let commandChar = VTID_at i 0; commandParameter = Id (VTID_SubSequence i 1)
      in if commandChar = 0x25 then [(''DesignateCodingSystem'', [commandParameter])]
         else if commandChar = 0x28 then [(''Designate94Charset'', [Num 0, commandParameter])]
         else if commandChar = 0x29 then [(''Designate94Charset'', [Num 1, commandParameter])]
         else if commandChar = 0x2A then [(''Designate94Charset'', [Num 2, commandParameter])]
         else if commandChar = 0x2B then [(''Designate94Charset'', [Num 3, commandParameter])]
         else if commandChar = 0x2D then [(''Designate96Charset'', [Num 1, commandParameter])]
         else if commandChar = 0x2E then [(''Designate96Charset'', [Num 2, commandParameter])]
         else if commandChar = 0x2F then [(''Designate96Charset'', [Num 3, commandParameter])]
         else [])"

definition esc_calls :: "VTID \<Rightarrow> dispatch_call list" where
  "esc_calls i = (case lookup_id esc_table i of Some cs \<Rightarrow> cs | None \<Rightarrow> esc_designate i)"

definition oe_ActionEscDispatch ::
    "('d, 'h, 'k) term_dispatch \<Rightarrow> VTID \<Rightarrow> bool \<Rightarrow> 'd OutputEngine \<Rightarrow> ('d OutputEngine, 'k, bool) reply" where
  "oe_ActionEscDispatch td i b e = eng_finish td b (esc_calls i) e"

definition vt52_table :: "VTParameters \<Rightarrow> (string \<times> dispatch_call list) list" where
  "vt52_table ps =
    [(''A'', [(''CursorUp'', [Num 1])]),
     (''B'', [(''CursorDown'', [Num 1])]),
     (''C'', [(''CursorForward'', [Num 1])]),
     (''D'', [(''CursorBackward'', [Num 1])]),
     (''F'', [(''Designate94Charset'', [Num 0, Id (VTID_FromString ''0'')])]),
     (''G'', [(''Designate94Charset'', [Num 0, Id (VTID_FromString ''B'')])]),
     (''H'', [(''CursorPosition'', [Num 1, Num 1])]),
     (''I'', [(''ReverseLineFeed'', [])]),
     (''J'', [(''EraseInDisplay'', [Num 0])]),
     (''K'', [(''EraseInLine'', [Num 0])]),
     (''Y'', [(''CursorPosition'', [Num (param_value (VTParameters_at ps 0) - 0x20 + 1),
                                     Num (param_value (VTParameters_at ps 1) - 0x20 + 1)])]),
     (''Z'', [(''Vt52DeviceAttributes'', [])]),
     (''='', [(''SetKeypadMode'', [Flag True])]),
     (''>'', [(''SetKeypadMode'', [Flag False])]),
     (''<'', [(''SetMode'', [Num (0x01000000 OR 2)])])]"

definition vt52_calls :: "VTID \<Rightarrow> VTParameters \<Rightarrow> dispatch_call list" where
  "vt52_calls i ps = (case lookup_id (vt52_table ps) i of Some cs \<Rightarrow> cs | None \<Rightarrow> [])"

definition oe_ActionVt52EscDispatch ::
    "('d, 'h, 'k) term_dispatch \<Rightarrow> VTID \<Rightarrow> VTParameters \<Rightarrow> bool \<Rightarrow> 'd OutputEngine \<Rightarrow>
     ('d OutputEngine, 'k, bool) reply" where
  "oe_ActionVt52EscDispatch td i ps b e = eng_finish td b (vt52_calls i ps) e"

subsection \<open>Control sequences\<close>

text \<open>The cases of the \<open>switch\<close> in source order, in three tables.\<close>

definition csi_table_cursor :: "VTParameters \<Rightarrow> (string \<times> dispatch_call list) list" where
  "csi_table_cursor ps =
    [(''A'', [(''CursorUp'', [num ps 0])]),
     (''B'', [(''CursorDown'', [num ps 0])]),
     (''C'', [(''CursorForward'', [num ps 0])]),
     (''D'', [(''CursorBackward'', [num ps 0])]),
     (''E'', [(''CursorNextLine'', [num ps 0])]),
     (''F'', [(''CursorPrevLine'', [num ps 0])]),
     (''G'', [(''CursorHorizontalPositionAbsolute'', [num ps 0])]),
     (''`'', [(''CursorHorizontalPositionAbsolute'', [num ps 0])]),
     (''d'', [(''VerticalLinePositionAbsolute'', [num ps 0])]),
     (''a'', [(''HorizontalPositionRelative'', [num ps 0])]),
     (''e'', [(''VerticalPositionRelative'', [num ps 0])]),
     (''H'', [(''CursorPosition'', [num ps 0, num ps 1])]),
     (''f'', [(''CursorPosition'', [num ps 0, num ps 1])]),
     (''r'', [(''SetTopBottomScrollingMargins'', [num0 ps 0, num0 ps 1])]),
     (''s'', [(''SetLeftRightScrollingMargins'', [num0 ps 0, num0 ps 1])]),
     (''@'', [(''InsertCharacter'', [num ps 0])]),
     (''P'', [(''DeleteCharacter'', [num ps 0])]),
     (''J'', each ps ''EraseInDisplay'' (Num \<circ> VTParameter_to_enum)),
     (''?J'', each ps ''SelectiveEraseInDisplay'' (Num \<circ> VTParameter_to_enum)),
     (''K'', each ps ''EraseInLine'' (Num \<circ> VTParameter_to_enum)),
     (''?K'', each ps ''SelectiveEraseInLine'' (Num \<circ> VTParameter_to_enum)),
     (''h'', each ps ''SetMode'' (Num \<circ> ANSIStandard)),
     (''?h'', each ps ''SetMode'' (Num \<circ> DECPrivate)),
     (''l'', each ps ''ResetMode'' (Num \<circ> ANSIStandard)),
     (''?l'', each ps ''ResetMode'' (Num \<circ> DECPrivate))]"

definition csi_table_report :: "wchar \<Rightarrow> VTParameters \<Rightarrow> (string \<times> dispatch_call list) list" where
  "csi_table_report lastPrintedChar ps =
    [(''m'', [(''SetGraphicsRendition'', [Params ps])]),
     (''n'', [(''DeviceStatusReport'', [Num (ANSIStandard (VTParameters_at ps 0)), par ps 1])]),
     (''?n'', [(''DeviceStatusReport'', [Num (DECPrivate (VTParameters_at ps 0)), par ps 1])]),
     (''c'', if VTParameter_value_or (VTParameters_at ps 0) 0 = 0 then [(''DeviceAttributes'', [])] else []),
     (''>c'', if VTParameter_value_or (VTParameters_at ps 0) 0 = 0 then [(''SecondaryDeviceAttributes'', [])] else []),
     (''=c'', if VTParameter_value_or (VTParameters_at ps 0) 0 = 0 then [(''TertiaryDeviceAttributes'', [])] else []),
     (''x'', [(''RequestTerminalParameters'', [enum ps 0])]),
     (''S'', [(''ScrollUp'', [num ps 0])]),
     (''T'', [(''ScrollDown'', [num ps 0])]),
     (''U'', [(''NextPage'', [num ps 0])]),
     (''V'', [(''PrecedingPage'', [num ps 0])]),
     (''u'', [(''CursorRestoreState'', [])]),
     (''L'', [(''InsertLine'', [num ps 0])]),
     (''M'', [(''DeleteLine'', [num ps 0])]),
     (''I'', [(''ForwardTab'', [num ps 0])]),
     (''Z'', [(''BackwardsTab'', [num ps 0])]),
     (''g'', each ps ''TabClear'' (Num \<circ> VTParameter_to_enum)),
     (''?W'', each ps ''TabSet'' Param),
     (''X'', [(''EraseCharacters'', [num ps 0])]),
     (''t'', [(''WindowManipulation'', [enum ps 0, par ps 1, par ps 2])]),
     (''b'', if lastPrintedChar \<noteq> NUL
             then [(''PrintString'',
                    [Str (replicate (nat (VTParameter_to_int (VTParameters_at ps 0))) lastPrintedChar)])]
             else [])]"

definition csi_table_area :: "VTParameters \<Rightarrow> (string \<times> dispatch_call list) list" where
  "csi_table_area ps =
    [('' P'', [(''PagePositionAbsolute'', [num ps 0])]),
     ('' Q'', [(''PagePositionRelative'', [num ps 0])]),
     ('' R'', [(''PagePositionBack'', [num ps 0])]),
     ('' q'', [(''SetCursorStyle'', [enum ps 0])]),
     (''!p'', [(''SoftReset'', [])]),
     ([CHR 34, CHR ''q''], [(''SetCharacterProtectionAttribute'', [Params ps])]),
     ([CHR 34, CHR ''v''], [(''RequestDisplayedExtent'', [])]),
     (''#{'', [(''PushGraphicsRendition'', [Params ps])]),
     (''#p'', [(''PushGraphicsRendition'', [Params ps])]),
     (''#}'', [(''PopGraphicsRendition'', [])]),
     (''#q'', [(''PopGraphicsRendition'', [])]),
     (''$p'', [(''RequestMode'', [Num (ANSIStandard (VTParameters_at ps 0))])]),
     (''?$p'', [(''RequestMode'', [Num (DECPrivate (VTParameters_at ps 0))])]),
     (''$r'', [(''ChangeAttributesRectangularArea'',
                [num ps 0, num ps 1, num0 ps 2, num0 ps 3, Params (VTParameters_subspan ps 4)])]),
     (''$t'', [(''ReverseAttributesRectangularArea'',
                [num ps 0, num ps 1, num0 ps 2, num0 ps 3, Params (VTParameters_subspan ps 4)])]),
     (''$v'', [(''CopyRectangularArea'',
                [num ps 0, num ps 1, num0 ps 2, num0 ps 3, num ps 4, num ps 5, num ps 6, num ps 7])]),
     (''$u'', [(''RequestTerminalStateReport'', [enum ps 0, par ps 1])]),
     (''$w'', [(''RequestPresentationStateReport'', [enum ps 0])]),
     (''$x'', [(''FillRectangularArea'', [par ps 0, num ps 1, num ps 2, num0 ps 3, num0 ps 4])]),
     (''$z'', [(''EraseRectangularArea'', [num ps 0, num ps 1, num0 ps 2, num0 ps 3])]),
     (''${'', [(''SelectiveEraseRectangularArea'', [num ps 0, num ps 1, num0 ps 2, num0 ps 3])]),
     (''&u'', [(''RequestUserPreferenceCharset'', [])]),
     ([CHR 39, CHR ''}''], [(''InsertColumn'', [num ps 0])]),
     ([CHR 39, CHR ''~''], [(''DeleteColumn'', [num ps 0])]),
     (''*x'', [(''SelectAttributeChangeExtent'', [enum ps 0])]),
     (''*y'', [(''RequestChecksumRectangularArea'',
                [num0 ps 0, num0 ps 1, num ps 2, num ps 3, num0 ps 4, num0 ps 5])]),
     (''*z'', [(''InvokeMacro'', [num0 ps 0])]),
     ('',|'', [(''AssignColor'', [enum ps 0, num0 ps 1, num0 ps 2])]),
     ('',~'', [(''PlaySounds'', [Params ps])]),
     (''=u'', [(''SetKittyKeyboardProtocol'', [par ps 0, par ps 1])]),
     (''?u'', [(''QueryKittyKeyboardProtocol'', [])]),
     (''>u'', [(''PushKittyKeyboardProtocol'', [par ps 0])]),
     (''<u'', [(''PopKittyKeyboardProtocol'', [par ps 0])])]"

definition csi_table :: "wchar \<Rightarrow> VTParameters \<Rightarrow> (string \<times> dispatch_call list) list" where
  "csi_table lastPrintedChar ps = csi_table_cursor ps @ csi_table_report lastPrintedChar ps @ csi_table_area ps"

definition csi_calls :: "wchar \<Rightarrow> VTID \<Rightarrow> VTParameters \<Rightarrow> dispatch_call list" where
  "csi_calls lastPrintedChar i ps =
     (case lookup_id (csi_table lastPrintedChar ps) i of
        Some cs \<Rightarrow> cs
      | None \<Rightarrow> [(''UnknownSequence'', [])])"

definition CanSeqAcceptSubParam :: "VTID \<Rightarrow> VTParameters \<Rightarrow> bool" where
  "CanSeqAcceptSubParam i ps =
     (if i = VTID_FromString ''m'' then True
      else if i = VTID_FromString ''$r'' \<or> i = VTID_FromString ''$t''
      then \<not> VTParameters_hasSubParamsFor ps 0 \<and> \<not> VTParameters_hasSubParamsFor ps 1 \<and>
           \<not> VTParameters_hasSubParamsFor ps 2 \<and> \<not> VTParameters_hasSubParamsFor ps 3
      else False)"

definition oe_ActionCsiDispatch ::
    "('d, 'h, 'k) term_dispatch \<Rightarrow> VTID \<Rightarrow> VTParameters \<Rightarrow> bool \<Rightarrow> 'd OutputEngine \<Rightarrow>
     ('d OutputEngine, 'k, bool) reply" where
  "oe_ActionCsiDispatch td i ps b e =
     (if VTParameters_hasSubParams ps \<and> \<not> CanSeqAcceptSubParam i ps then Reply e [] (Some True)
      else eng_finish td b (csi_calls (oe_lastPrintedChar e) i ps) e)"

subsection \<open>Device control strings\<close>

definition dcs_table :: "VTParameters \<Rightarrow> (string \<times> dispatch_call) list" where
  "dcs_table ps =
    [(''q'', (''DefineSixelImage'', [num ps 0, enum ps 1, par ps 2])),
     (''{'', (''DownloadDRCS'',
              [num ps 0, par ps 1, enum ps 2, enum ps 3, enum ps 4, enum ps 5, par ps 6, enum ps 7])),
     (''!u'', (''AssignUserPreferenceCharset'', [enum ps 0])),
     (''!z'', (''DefineMacro'', [num0 ps 0, enum ps 1, enum ps 2])),
     (''$p'', (''RestoreTerminalState'', [enum ps 0])),
     (''$q'', (''RequestSetting'', [])),
     (''$t'', (''RestorePresentationState'', [enum ps 0]))]"

definition oe_ActionDcsDispatch ::
    "('d, 'h, 'k) term_dispatch \<Rightarrow> VTID \<Rightarrow> VTParameters \<Rightarrow> bool \<Rightarrow> 'd OutputEngine \<Rightarrow>
     ('d OutputEngine, 'k, 'h option) reply" where
  "oe_ActionDcsDispatch td i ps b e =
     (case (case lookup_id (dcs_table ps) i of
              Some c \<Rightarrow> lift_reply e (td_handler td c b (oe_dispatch e))
            | None \<Rightarrow> (case eng_calls td b [(''UnknownSequence'', [])] e of
                         Reply e' rs r \<Rightarrow> Reply e' rs (map_option (\<lambda>_. None) r))) of
        Reply e' rs None \<Rightarrow> Reply e' rs None
      | Reply e' rs (Some h) \<Rightarrow> Reply (oe_ClearLastChar e') rs (Some h))"

subsection \<open>Operating system commands\<close>

text \<open>The first occurrence of \<open>pat\<close> in \<open>s\<close>, \<open>std::wstring_view::find\<close>.\<close>

fun wfind :: "wstring \<Rightarrow> wstring \<Rightarrow> nat option" where
  "wfind pat s =
     (if take (length pat) s = pat then Some 0
      else (case s of [] \<Rightarrow> None | _ # s' \<Rightarrow> map_option Suc (wfind pat s')))"

declare wfind.simps [simp del]

definition COLOR_INQUIRY_COLOR :: u32 where "COLOR_INQUIRY_COLOR = 0xfeffffff"
definition INVALID_COLOR :: u32 where "INVALID_COLOR = 0xffffffff"
definition MAX_URL_LENGTH :: nat where "MAX_URL_LENGTH = 2 * 1048576"

text \<open>The conversion of \<open>til::color\<close> to \<open>COLORREF\<close>, \<open>0x00BBGGRR\<close>.\<close>

definition color_ref :: "color \<Rightarrow> u32" where
  "color_ref c = ucast (color_r c) OR push_bit 8 (ucast (color_g c)) OR push_bit 16 (ucast (color_b c))"

fun color_pairs :: "wstring list \<Rightarrow> (wstring \<times> wstring) list" where
  "color_pairs (index # color # parts) = (index, color) # color_pairs parts"
| "color_pairs _ = []"

definition GetOscSetColorTable ::
    "(wstring \<Rightarrow> color option) \<Rightarrow> wstring \<Rightarrow> (nat \<times> u32) list option" where
  "GetOscSetColorTable colorFromXTerm string =
     (let parts = SplitString string 0x3B
      in if length parts < 2 then None
         else (let entries = concat (map (\<lambda>(index, color).
                 case StringToUint index of
                   None \<Rightarrow> []
                 | Some tableIndex \<Rightarrow>
                     (if color = [0x3F] then [(unat tableIndex, COLOR_INQUIRY_COLOR)]
                      else (case colorFromXTerm color of
                              Some c \<Rightarrow> [(unat tableIndex, color_ref c)]
                            | None \<Rightarrow> []))) (color_pairs parts))
               in if entries \<noteq> [] then Some entries else None))"

definition GetOscSetColor :: "(wstring \<Rightarrow> color option) \<Rightarrow> wstring \<Rightarrow> u32 list option" where
  "GetOscSetColor colorFromXTerm string =
     (let parts = SplitString string 0x3B
      in if length parts < 1 then None
         else Some (map (\<lambda>part.
                if part = [0x3F] then COLOR_INQUIRY_COLOR
                else (case colorFromXTerm part of Some c \<Rightarrow> color_ref c | None \<Rightarrow> INVALID_COLOR)) parts))"

text \<open>\<open>_ParseHyperlink\<close>: the parameters and the URI, or nothing when it returns false.\<close>

definition ParseHyperlink :: "wstring \<Rightarrow> (wstring \<times> wstring) option" where
  "ParseHyperlink string =
     (if string = [0x3B] then Some ([], [])
      else (case wfind [0x3B] string of
              None \<Rightarrow> None
            | Some midPos \<Rightarrow>
                (let uri = take MAX_URL_LENGTH (drop (midPos + 1) string);
                     paramParts = SplitString (take midPos string) 0x3A;
                     params = foldl (\<lambda>params part.
                       case wfind [0x69, 0x64, 0x3D] part of
                         Some idPos \<Rightarrow> drop (idPos + 3) part
                       | None \<Rightarrow> params) [] paramParts
                 in Some (params, uri))))"

text \<open>\<open>_GetOscSetClipboard\<close>: \<open>Inl\<close> for a query, \<open>Inr\<close> with the content, nothing for false.\<close>

definition GetOscSetClipboard :: "(byte list \<Rightarrow> wstring option) \<Rightarrow> wstring \<Rightarrow> (unit + wstring) option" where
  "GetOscSetClipboard u8u16 string =
     (case wfind [0x3B] string of
        None \<Rightarrow> None
      | Some pos \<Rightarrow>
          (let substr = drop (pos + 1) string
           in if substr = [0x3F] then Some (Inl ())
              else (case Base64_Decode u8u16 substr of
                      Inl err \<Rightarrow> None
                    | Inr content \<Rightarrow> Some (Inr content))))"

definition osc_color_calls :: "wstring \<Rightarrow> (wstring \<Rightarrow> color option) \<Rightarrow> dispatch_call list" where
  "osc_color_calls string colorFromXTerm =
     (case GetOscSetColorTable colorFromXTerm string of
        None \<Rightarrow> []
      | Some entries \<Rightarrow>
          map (\<lambda>(tableIndex, rgb).
            if rgb = COLOR_INQUIRY_COLOR then (''RequestColorTableEntry'', [Num (int tableIndex)])
            else (''SetColorTableEntry'', [Num (int tableIndex), Num (uint rgb)])) entries)"

fun osc_resource_calls :: "nat \<Rightarrow> u32 list \<Rightarrow> dispatch_call list" where
  "osc_resource_calls resource [] = []"
| "osc_resource_calls resource (color # colors) =
     (if color = COLOR_INQUIRY_COLOR then [(''RequestXtermColorResource'', [Num (int resource)])]
      else if color \<noteq> INVALID_COLOR then [(''SetXtermColorResource'', [Num (int resource), Num (uint color)])]
      else []) @ osc_resource_calls (resource + 1) colors"

fun osc_reset_calls :: "wstring list \<Rightarrow> dispatch_call list" where
  "osc_reset_calls [] = []"
| "osc_reset_calls (c # cs) =
     (case parse_u64 c 10 of
        Some index \<Rightarrow> (''ResetColorTableEntry'', [Num (uint index)]) # osc_reset_calls cs
      | None \<Rightarrow> [])"

record osc_env =
  osc_color :: "wstring \<Rightarrow> color option"
  osc_u8u16 :: "byte list \<Rightarrow> wstring option"

definition osc_calls :: "osc_env \<Rightarrow> nat \<Rightarrow> wstring \<Rightarrow> dispatch_call list" where
  "osc_calls oenv parameter string =
     (if parameter \<in> {0, 1, 2, 21} then [(''SetWindowTitle'', [Str string])]
      else if parameter = 4 then osc_color_calls string (osc_color oenv)
      else if parameter \<in> {10, 11, 12, 17}
      then (case GetOscSetColor (osc_color oenv) string of
              Some colors \<Rightarrow> osc_resource_calls parameter colors | None \<Rightarrow> [])
      else if parameter = 52
      then (case GetOscSetClipboard (osc_u8u16 oenv) string of
              Some (Inr content) \<Rightarrow> [(''SetClipboard'', [Str content])] | _ \<Rightarrow> [])
      else if parameter = 104
      then (if string = [] then [(''ResetColorTable'', [])]
            else osc_reset_calls (split_iterate string 0x3B))
      else if parameter \<in> {110, 111, 112, 117}
      then (if string = [] then [(''ResetXtermColorResource'', [Num (int parameter - 100)])] else [])
      else if parameter = 7 then [(''SetCurrentWorkingDirectory'', [Str string])]
      else if parameter = 8
      then (case ParseHyperlink string of
              None \<Rightarrow> []
            | Some (params, uri) \<Rightarrow>
                if uri = [] then [(''EndHyperlink'', [])] else [(''AddHyperlink'', [Str uri, Str params])])
      else if parameter = 9 then [(''DoConEmuAction'', [Str string])]
      else if parameter = 1337 then [(''DoITerm2Action'', [Str string])]
      else if parameter = 133 then [(''DoFinalTermAction'', [Str string])]
      else if parameter = 633 then [(''DoVsCodeAction'', [Str string])]
      else if parameter = 9001 then [(''DoWTAction'', [Str string])]
      else if parameter = 777 then [(''DoUrxvtAction'', [Str string])]
      else [(''UnknownSequence'', [])])"

text \<open>Every OSC is first forwarded to the protocol clients as \<open>osc:<number>;<payload>\<close>.\<close>

definition osc_forward :: "nat \<Rightarrow> wstring \<Rightarrow> wstring" where
  "osc_forward parameter string = [0x6F, 0x73, 0x63, 0x3A] @ dec_string parameter @ [0x3B] @ string"

definition oe_ActionOscDispatch ::
    "osc_env \<Rightarrow> ('d, 'h, 'k) term_dispatch \<Rightarrow> VTInt \<Rightarrow> wstring \<Rightarrow> bool \<Rightarrow> 'd OutputEngine \<Rightarrow>
     ('d OutputEngine, 'k, bool) reply" where
  "oe_ActionOscDispatch oenv td parameter string b e =
     eng_finish td b
       ((''NotifyVtSequence'', [Str (osc_forward (nat parameter) string)]) #
        osc_calls oenv (nat parameter) string) e"

definition oe_ActionSs3Dispatch ::
    "('d, 'h, 'k) term_dispatch \<Rightarrow> bool \<Rightarrow> 'd OutputEngine \<Rightarrow> ('d OutputEngine, 'k, bool) reply" where
  "oe_ActionSs3Dispatch td b e = eng_finish td b [(''UnknownSequence'', [])] e"

definition oe_UnknownSequence ::
    "('d, 'h, 'k) term_dispatch \<Rightarrow> bool \<Rightarrow> 'd OutputEngine \<Rightarrow> ('d OutputEngine, 'k, unit) reply" where
  "oe_UnknownSequence td b e = eng_calls td b [(''UnknownSequence'', [])] e"

subsection \<open>The engine as the parser sees it\<close>

primrec oe_action ::
    "osc_env \<Rightarrow> ('d, 'h, 'k) term_dispatch \<Rightarrow> engine_call \<Rightarrow> bool \<Rightarrow> 'd OutputEngine \<Rightarrow>
     ('d OutputEngine, 'k, bool) reply" where
  "oe_action oenv td (ActionExecute wch) = oe_ActionExecute td wch"
| "oe_action oenv td (ActionExecuteFromEscape wch) = oe_ActionExecuteFromEscape td wch"
| "oe_action oenv td (ActionPrint wch) = oe_ActionPrint td wch"
| "oe_action oenv td (ActionPrintString string) = oe_ActionPrintString td string"
| "oe_action oenv td (ActionPassThroughString string) = (\<lambda>b. oe_ActionPassThroughString string)"
| "oe_action oenv td (ActionEscDispatch i) = oe_ActionEscDispatch td i"
| "oe_action oenv td (ActionVt52EscDispatch i ps) = oe_ActionVt52EscDispatch td i ps"
| "oe_action oenv td (ActionCsiDispatch i ps) = oe_ActionCsiDispatch td i ps"
| "oe_action oenv td (ActionOscDispatch p string) = oe_ActionOscDispatch oenv td p string"
| "oe_action oenv td (ActionSs3Dispatch wch ps) = oe_ActionSs3Dispatch td"

text \<open>
  The environment of the parser. \<open>EncounteredWin32InputModeSequence\<close> is false; \<open>callback\<close> is what
  running a registered completion callback does. No passed-through string is ever refused, so a
  flush never recurses and one level is enough.
\<close>

definition oe_env ::
    "osc_env \<Rightarrow> ('d, 'h, 'k) term_dispatch \<Rightarrow>
     ('k \<Rightarrow> ('d OutputEngine, 'h, 'k) StateMachine \<Rightarrow> ('d OutputEngine, 'h, 'k) StateMachine) \<Rightarrow>
     ('d OutputEngine, 'h, 'k) vt_env" where
  "oe_env oenv td callback =
     \<lparr>env_action = oe_action oenv td,
      env_dcs = oe_ActionDcsDispatch td,
      env_handler = (\<lambda>h wch b e. lift_reply e (td_run td h wch b (oe_dispatch e))),
      env_unknown = oe_UnknownSequence td,
      env_win32 = (\<lambda>e. False),
      env_callback = callback,
      env_stack = 1\<rparr>"

end
