(* ===== verification/Macro_Buffer.thy ===== *)
theory Macro_Buffer
  imports Vt_State_Machine
begin

text \<open>
  The macro memory of DECDMAC and DECINVM, \<open>MacroBuffer\<close> of
  \<open>src/src/terminal/adapter/MacroBuffer.cpp\<close> and \<open>.hpp\<close>: the state as the record \<open>MacroBuffer\<close>, the
  definition parser (\<open>InitParser\<close>, \<open>ParseDefinition\<close> and its helpers) and the invocation with its
  limits on depth and total length.

  \<open>size_t\<close> products and differences are taken modulo \<open>M\<close>, \<open>2 ^ 64\<close> on the 64-bit builds and
  \<open>2 ^ 32\<close> on the 32-bit ones. \<open>InvokeMacro\<close> calls \<open>StateMachine::ProcessString\<close>, which may change
  the macro buffer again through nested invocations; it is the argument \<open>process\<close>.

  The lemmas give the storage invariant (\<open>_spaceUsed\<close> is the total length and never exceeds
  \<open>MAX_SPACE\<close>), the functional behaviour of text and hex definitions with repeats, and the limits
  on invocation.
\<close>

subsection \<open>State\<close>

datatype MacroState = ExpectingText | ExpectingHexDigit | ExpectingSecondHexDigit | ExpectingRepeatCount

record MacroBuffer =
  mb_parseState :: MacroState
  mb_decodedChar :: wchar
  mb_repeatPending :: bool
  mb_repeatCount :: nat
  mb_repeatStart :: nat
  mb_macros :: "wstring list"
  mb_activeMacroId :: nat
  mb_spaceUsed :: nat
  mb_invokedDepth :: nat
  mb_invokedSequenceLength :: nat

definition MAX_SPACE :: nat where "MAX_SPACE = 0x40000"

definition mb_new :: MacroBuffer where
  "mb_new = \<lparr>mb_parseState = ExpectingText, mb_decodedChar = 0, mb_repeatPending = False,
     mb_repeatCount = 0, mb_repeatStart = 0, mb_macros = replicate 64 [], mb_activeMacroId = 0,
     mb_spaceUsed = 0, mb_invokedDepth = 0, mb_invokedSequenceLength = 0\<rparr>"

subsection \<open>Operations\<close>

definition mb_GetSpaceAvailable :: "MacroBuffer \<Rightarrow> nat" where
  "mb_GetSpaceAvailable mb = MAX_SPACE - mb_spaceUsed mb"

definition mb_CalculateChecksum :: "MacroBuffer \<Rightarrow> 16 word" where
  "mb_CalculateChecksum mb = foldl (\<lambda>checksum m. foldl (\<lambda>c ch. c - ch) checksum m) 0 (mb_macros mb)"

definition mb_InvokeMacro ::
    "(wstring \<Rightarrow> MacroBuffer \<times> 's \<Rightarrow> MacroBuffer \<times> 's) \<Rightarrow> nat \<Rightarrow> MacroBuffer \<times> 's \<Rightarrow> MacroBuffer \<times> 's" where
  "mb_InvokeMacro process macroId = (\<lambda>(mb, st).
     if macroId < length (mb_macros mb)
     then (let macroSequence = mb_macros mb ! macroId;
               allowedLength = MAX_SPACE - mb_invokedSequenceLength mb
           in if mb_invokedDepth mb < 16 \<and> length macroSequence < allowedLength
              then (let mb1 = mb\<lparr>mb_invokedSequenceLength := mb_invokedSequenceLength mb + length macroSequence,
                                 mb_invokedDepth := mb_invokedDepth mb + 1\<rparr>;
                        (mb2, st') = process macroSequence (mb1, st);
                        mb3 = mb2\<lparr>mb_invokedDepth := mb_invokedDepth mb2 - 1\<rparr>
                    in (if mb_invokedDepth mb3 = 0 then mb3\<lparr>mb_invokedSequenceLength := 0\<rparr> else mb3, st'))
              else (mb, st))
     else (mb, st))"

definition mb_ClearMacrosIfInUse :: "MacroBuffer \<Rightarrow> MacroBuffer" where
  "mb_ClearMacrosIfInUse mb =
     (if mb_invokedDepth mb > 0
      then mb\<lparr>mb_macros := map (\<lambda>m. replicate (length m) NUL) (mb_macros mb)\<rparr> else mb)"

definition mb_activeMacro :: "MacroBuffer \<Rightarrow> wstring" where
  "mb_activeMacro mb = mb_macros mb ! mb_activeMacroId mb"

definition mb_setActive :: "wstring \<Rightarrow> MacroBuffer \<Rightarrow> MacroBuffer" where
  "mb_setActive m mb = mb\<lparr>mb_macros := (mb_macros mb)[mb_activeMacroId mb := m]\<rparr>"

text \<open>\<open>_deleteMacro\<close> takes a reference to one of the macros: here its index.\<close>

definition mb_deleteMacro :: "nat \<Rightarrow> MacroBuffer \<Rightarrow> MacroBuffer" where
  "mb_deleteMacro i mb =
     mb\<lparr>mb_spaceUsed := mb_spaceUsed mb - length (mb_macros mb ! i),
        mb_macros := (mb_macros mb)[i := []]\<rparr>"

definition mb_deleteActive :: "MacroBuffer \<Rightarrow> MacroBuffer" where
  "mb_deleteActive mb = mb_deleteMacro (mb_activeMacroId mb) mb"

definition mb_InitParser :: "nat \<Rightarrow> VTInt \<Rightarrow> VTInt \<Rightarrow> MacroBuffer \<Rightarrow> bool \<times> MacroBuffer" where
  "mb_InitParser macroId deleteControl encoding mb =
     (if macroId < length (mb_macros mb) \<and> mb_invokedDepth mb = 0
      then (let mb1 = mb\<lparr>mb_activeMacroId := macroId, mb_decodedChar := 0, mb_repeatPending := False\<rparr>;
                start = (\<lambda>mb2.
                  if deleteControl = 0 then (True, mb_deleteActive mb2)
                  else if deleteControl = 1
                  then (True, fold mb_deleteMacro [0..<length (mb_macros mb2)] mb2)
                  else (False, mb2))
            in if encoding = 1 then start (mb1\<lparr>mb_parseState := ExpectingHexDigit\<rparr>)
               else if encoding = 0 then start (mb1\<lparr>mb_parseState := ExpectingText\<rparr>)
               else (False, mb1))
      else (False, mb))"

definition mb_decodeHexDigit :: "wchar \<Rightarrow> MacroBuffer \<Rightarrow> bool \<times> MacroBuffer" where
  "mb_decodeHexDigit ch mb =
     (let d = push_bit 4 (mb_decodedChar mb)
      in if ch \<ge> 0x30 \<and> ch \<le> 0x39 then (True, mb\<lparr>mb_decodedChar := d + (ch - 0x30)\<rparr>)
         else if ch \<ge> 0x41 \<and> ch \<le> 0x46 then (True, mb\<lparr>mb_decodedChar := d + (ch - 0x41 + 10)\<rparr>)
         else if ch \<ge> 0x61 \<and> ch \<le> 0x66 then (True, mb\<lparr>mb_decodedChar := d + (ch - 0x61 + 10)\<rparr>)
         else (False, mb\<lparr>mb_decodedChar := d\<rparr>))"

definition mb_appendToActiveMacro :: "wchar \<Rightarrow> MacroBuffer \<Rightarrow> bool \<times> MacroBuffer" where
  "mb_appendToActiveMacro ch mb =
     (if mb_GetSpaceAvailable mb > 0
      then (True, (mb_setActive (mb_activeMacro mb @ [ch]) mb)\<lparr>mb_spaceUsed := mb_spaceUsed mb + 1\<rparr>)
      else (False, mb))"

text \<open>The loop of \<open>_applyPendingRepeat\<close>, \<open>n\<close> more copies of the \<open>len\<close> characters at \<open>_repeatStart\<close>.\<close>

primrec mb_repeatLoop :: "nat \<Rightarrow> nat \<Rightarrow> MacroBuffer \<Rightarrow> MacroBuffer" where
  "mb_repeatLoop 0 len mb = mb"
| "mb_repeatLoop (Suc n) len mb =
     (let m = mb_activeMacro mb
      in mb_repeatLoop n len
           ((mb_setActive (m @ take len (drop (mb_repeatStart mb) m)) mb)
              \<lparr>mb_spaceUsed := mb_spaceUsed mb + len\<rparr>))"

definition mb_applyPendingRepeat :: "nat \<Rightarrow> MacroBuffer \<Rightarrow> bool \<times> MacroBuffer" where
  "mb_applyPendingRepeat M mb =
     (if mb_repeatCount mb > 1
      then (let sequenceLength = (length (mb_activeMacro mb) + M - mb_repeatStart mb) mod M;
                spaceRequired = ((mb_repeatCount mb - 1) * sequenceLength) mod M
            in if spaceRequired > mb_GetSpaceAvailable mb then (False, mb)
               else (True, (mb_repeatLoop (mb_repeatCount mb - 1) sequenceLength mb)\<lparr>mb_repeatPending := False\<rparr>))
      else (True, mb\<lparr>mb_repeatPending := False\<rparr>))"

text \<open>The \<open>switch (_parseState)\<close> of \<open>ParseDefinition\<close>.\<close>

definition mb_parseChar :: "nat \<Rightarrow> wchar \<Rightarrow> MacroBuffer \<Rightarrow> bool \<times> MacroBuffer" where
  "mb_parseChar M ch mb =
     (case mb_parseState mb of
        ExpectingText \<Rightarrow> mb_appendToActiveMacro ch mb
      | ExpectingHexDigit \<Rightarrow>
          (let (isDigit, mb1) = mb_decodeHexDigit ch mb
           in if isDigit then (True, mb1\<lparr>mb_parseState := ExpectingSecondHexDigit\<rparr>)
              else if ch = 0x21 \<and> \<not> mb_repeatPending mb1
              then (True, mb1\<lparr>mb_parseState := ExpectingRepeatCount, mb_repeatCount := 0\<rparr>)
              else if ch = 0x3B \<and> mb_repeatPending mb1 then mb_applyPendingRepeat M mb1
              else (False, mb1))
      | ExpectingSecondHexDigit \<Rightarrow>
          (let (isDigit, mb1) = mb_decodeHexDigit ch mb;
               (success, mb2) = (if isDigit then mb_appendToActiveMacro (mb_decodedChar mb1) mb1
                                 else (False, mb1))
           in (success, mb2\<lparr>mb_decodedChar := 0, mb_parseState := ExpectingHexDigit\<rparr>))
      | ExpectingRepeatCount \<Rightarrow>
          (if ch \<ge> 0x30 \<and> ch \<le> 0x39
           then (True, mb\<lparr>mb_repeatCount :=
                   min (mb_repeatCount mb * 10 + unat (ch - 0x30)) (nat MAX_PARAMETER_VALUE)\<rparr>)
           else if ch = 0x3B
           then (True, mb\<lparr>mb_repeatPending := True, mb_repeatStart := length (mb_activeMacro mb),
                          mb_parseState := ExpectingHexDigit\<rparr>)
           else (False, mb)))"

definition mb_ParseDefinition :: "nat \<Rightarrow> wchar \<Rightarrow> MacroBuffer \<Rightarrow> bool \<times> MacroBuffer" where
  "mb_ParseDefinition M ch mb =
     (if ch = ESC
      then (False,
            if mb_repeatPending mb
            then (let (ok, mb1) = mb_applyPendingRepeat M mb in if ok then mb1 else mb_deleteActive mb1)
            else mb)
      else if ch < 0x20 then (True, mb)
      else (let (success, mb1) = mb_parseChar M ch mb
            in if success then (True, mb1) else (False, mb_deleteActive mb1)))"

subsection \<open>The storage invariant\<close>

definition mb_inv :: "MacroBuffer \<Rightarrow> bool" where
  "mb_inv mb \<longleftrightarrow> length (mb_macros mb) = 64 \<and> mb_activeMacroId mb < 64 \<and>
     mb_spaceUsed mb = sum_list (map length (mb_macros mb)) \<and> mb_spaceUsed mb \<le> MAX_SPACE \<and>
     mb_repeatCount mb \<le> nat MAX_PARAMETER_VALUE"

text \<open>What holds in addition while a definition is being read.\<close>

definition mb_reading :: "MacroBuffer \<Rightarrow> bool" where
  "mb_reading mb \<longleftrightarrow> mb_inv mb \<and>
     (mb_repeatPending mb \<longrightarrow> mb_repeatStart mb \<le> length (mb_activeMacro mb)) \<and>
     (mb_parseState mb = ExpectingRepeatCount \<longrightarrow> \<not> mb_repeatPending mb) \<and>
     (mb_parseState mb \<in> {ExpectingHexDigit, ExpectingRepeatCount} \<longrightarrow> mb_decodedChar mb = 0)"

lemma mb_new_inv: "mb_inv mb_new"
  by (simp add: mb_inv_def mb_new_def MAX_SPACE_def MAX_PARAMETER_VALUE_def)

lemma sum_list_length_update:
  "i < length xs \<Longrightarrow>
     sum_list (map length (xs[i := m])) + length (xs ! i) = sum_list (map length xs) + length m"
  by (induction xs arbitrary: i) (auto split: nat.split)

lemma sum_list_length_nth: "i < length xs \<Longrightarrow> length (xs ! i) \<le> sum_list (map length xs)"
  using elem_le_sum_list [of i "map length xs"] by simp

lemma active_length:
  assumes "mb_inv mb"
  shows "length (mb_activeMacro mb) \<le> mb_spaceUsed mb"
  using assms sum_list_length_nth [of "mb_activeMacroId mb" "mb_macros mb"]
  by (simp add: mb_inv_def mb_activeMacro_def)

lemma setActive_inv:
  assumes "mb_inv mb" "mb_spaceUsed mb + k \<le> MAX_SPACE" "length m = length (mb_activeMacro mb) + k"
  shows "mb_inv ((mb_setActive m mb)\<lparr>mb_spaceUsed := mb_spaceUsed mb + k\<rparr>)"
  using assms sum_list_length_update [of "mb_activeMacroId mb" "mb_macros mb" m]
  by (simp add: mb_inv_def mb_setActive_def mb_activeMacro_def)

lemma deleteMacro_inv: "mb_inv mb \<Longrightarrow> i < 64 \<Longrightarrow> mb_inv (mb_deleteMacro i mb)"
  using sum_list_length_update [of i "mb_macros mb" "[]"]
  by (simp add: mb_inv_def mb_deleteMacro_def) linarith

lemma deleteActive_inv: "mb_inv mb \<Longrightarrow> mb_inv (mb_deleteActive mb)"
  by (simp add: mb_deleteActive_def deleteMacro_inv mb_inv_def [of mb])

lemma deleteAll_inv: "mb_inv mb \<Longrightarrow> set is \<subseteq> {..<64} \<Longrightarrow> mb_inv (fold mb_deleteMacro is mb)"
  by (induction "is" arbitrary: mb) (simp_all add: deleteMacro_inv)

lemma inv_parse_fields [simp]:
  "mb_inv (mb\<lparr>mb_decodedChar := c\<rparr>) = mb_inv mb"
  "mb_inv (mb\<lparr>mb_parseState := s\<rparr>) = mb_inv mb"
  "mb_inv (mb\<lparr>mb_repeatPending := b\<rparr>) = mb_inv mb"
  "mb_inv (mb\<lparr>mb_repeatStart := n\<rparr>) = mb_inv mb"
  "mb_inv (mb\<lparr>mb_invokedDepth := n\<rparr>) = mb_inv mb"
  "mb_inv (mb\<lparr>mb_invokedSequenceLength := n\<rparr>) = mb_inv mb"
  by (simp_all add: mb_inv_def)

lemma active_fields [simp]:
  "mb_activeMacro (mb\<lparr>mb_decodedChar := c\<rparr>) = mb_activeMacro mb"
  "mb_activeMacro (mb\<lparr>mb_parseState := s\<rparr>) = mb_activeMacro mb"
  "mb_activeMacro (mb\<lparr>mb_repeatPending := b\<rparr>) = mb_activeMacro mb"
  "mb_activeMacro (mb\<lparr>mb_repeatCount := n\<rparr>) = mb_activeMacro mb"
  "mb_activeMacro (mb\<lparr>mb_repeatStart := n\<rparr>) = mb_activeMacro mb"
  "mb_activeMacro (mb\<lparr>mb_spaceUsed := n\<rparr>) = mb_activeMacro mb"
  by (simp_all add: mb_activeMacro_def)

lemma active_setActive [simp]: "mb_inv mb \<Longrightarrow> mb_activeMacro (mb_setActive m mb) = m"
  by (simp add: mb_activeMacro_def mb_setActive_def mb_inv_def)

lemma setActive_frame [simp]:
  "mb_parseState (mb_setActive m mb) = mb_parseState mb"
  "mb_decodedChar (mb_setActive m mb) = mb_decodedChar mb"
  "mb_repeatPending (mb_setActive m mb) = mb_repeatPending mb"
  "mb_repeatCount (mb_setActive m mb) = mb_repeatCount mb"
  "mb_repeatStart (mb_setActive m mb) = mb_repeatStart mb"
  "mb_spaceUsed (mb_setActive m mb) = mb_spaceUsed mb"
  "mb_activeMacroId (mb_setActive m mb) = mb_activeMacroId mb"
  "mb_invokedDepth (mb_setActive m mb) = mb_invokedDepth mb"
  by (simp_all add: mb_setActive_def)

subsection \<open>Appending and repeating\<close>

lemma append_ok:
  assumes "mb_inv mb" "mb_spaceUsed mb < MAX_SPACE"
  shows "mb_appendToActiveMacro ch mb =
      (True, (mb_setActive (mb_activeMacro mb @ [ch]) mb)\<lparr>mb_spaceUsed := mb_spaceUsed mb + 1\<rparr>)"
    and "mb_inv (snd (mb_appendToActiveMacro ch mb))"
  using assms setActive_inv [of mb 1 "mb_activeMacro mb @ [ch]"]
  by (simp_all add: mb_appendToActiveMacro_def mb_GetSpaceAvailable_def)

lemma append_full:
  "mb_inv mb \<Longrightarrow> \<not> mb_spaceUsed mb < MAX_SPACE \<Longrightarrow> mb_appendToActiveMacro ch mb = (False, mb)"
  by (simp add: mb_appendToActiveMacro_def mb_GetSpaceAvailable_def)

text \<open>The copies the loop appends are all copies of the text the repeat enclosed.\<close>

lemma repeatLoop_eq:
  assumes "mb_inv mb" "mb_repeatStart mb + length s \<le> length (mb_activeMacro mb)"
    and "take (length s) (drop (mb_repeatStart mb) (mb_activeMacro mb)) = s"
    and "mb_spaceUsed mb + n * length s \<le> MAX_SPACE"
  shows "mb_repeatLoop n (length s) mb =
      (mb_setActive (mb_activeMacro mb @ concat (replicate n s)) mb)
        \<lparr>mb_spaceUsed := mb_spaceUsed mb + n * length s\<rparr>"
  using assms
proof (induction n arbitrary: mb)
  case 0
  then show ?case by (simp add: mb_setActive_def mb_activeMacro_def)
next
  case (Suc n)
  define mb1 where "mb1 = (mb_setActive (mb_activeMacro mb @ s) mb)\<lparr>mb_spaceUsed := mb_spaceUsed mb + length s\<rparr>"
  have step: "mb_repeatLoop (Suc n) (length s) mb = mb_repeatLoop n (length s) mb1"
    using Suc.prems by (simp add: mb1_def Let_def)
  have inv1: "mb_inv mb1" unfolding mb1_def using Suc.prems by (intro setActive_inv) simp_all
  have act1: "mb_activeMacro mb1 = mb_activeMacro mb @ s" and st1: "mb_repeatStart mb1 = mb_repeatStart mb"
    and sp1: "mb_spaceUsed mb1 = mb_spaceUsed mb + length s"
    using Suc.prems by (simp_all add: mb1_def)
  have "take (length s) (drop (mb_repeatStart mb1) (mb_activeMacro mb1)) = s"
    using Suc.prems by (simp add: act1 st1)
  moreover have "(mb_setActive m mb1)\<lparr>mb_spaceUsed := k\<rparr> = (mb_setActive m mb)\<lparr>mb_spaceUsed := k\<rparr>" for m k
    by (simp add: mb1_def mb_setActive_def)
  ultimately show ?case
    using Suc.IH [OF inv1] Suc.prems unfolding step by (simp add: act1 st1 sp1 algebra_simps)
qed

lemma applyPendingRepeat_eq:
  assumes "mb_inv mb" "mb_repeatStart mb \<le> length (mb_activeMacro mb)" "M = 2 ^ 64"
  defines "s \<equiv> drop (mb_repeatStart mb) (mb_activeMacro mb)" and "k \<equiv> mb_repeatCount mb - 1"
  shows "mb_applyPendingRepeat M mb =
    (if mb_spaceUsed mb + k * length s \<le> MAX_SPACE
     then (True, (mb_setActive (mb_activeMacro mb @ concat (replicate k s)) mb)
                   \<lparr>mb_spaceUsed := mb_spaceUsed mb + k * length s, mb_repeatPending := False\<rparr>)
     else (False, mb))"
proof -
  have len: "length (mb_activeMacro mb) \<le> 0x40000" "mb_spaceUsed mb \<le> MAX_SPACE"
    using active_length [OF assms(1)] assms(1) by (simp_all add: mb_inv_def MAX_SPACE_def)
  have "k \<le> 65534" using assms(1) by (auto simp: k_def mb_inv_def MAX_PARAMETER_VALUE_def)
  then have "k * length s \<le> 65534 * 0x40000"
    by (rule mult_le_mono) (use len in \<open>simp add: s_def\<close>)
  then have "k * length s < M" using assms(3) by simp
  moreover have "(length (mb_activeMacro mb) + M - mb_repeatStart mb) mod M = length s"
  proof -
    have "length (mb_activeMacro mb) + M - mb_repeatStart mb = length s + M"
      unfolding s_def length_drop using assms(2) by linarith
    moreover have "length s < M" unfolding s_def length_drop assms(3) using len by simp
    ultimately show ?thesis by (simp only: mod_add_self2 mod_less)
  qed
  moreover have "k * length s > mb_GetSpaceAvailable mb \<longleftrightarrow> \<not> mb_spaceUsed mb + k * length s \<le> MAX_SPACE"
    using len by (auto simp: mb_GetSpaceAvailable_def)
  moreover have "mb_spaceUsed mb + k * length s \<le> MAX_SPACE \<Longrightarrow>
      mb_repeatLoop k (length s) mb = (mb_setActive (mb_activeMacro mb @ concat (replicate k s)) mb)
        \<lparr>mb_spaceUsed := mb_spaceUsed mb + k * length s\<rparr>"
    using repeatLoop_eq [OF assms(1), of s k] assms(2) by (simp add: s_def)
  ultimately show ?thesis
    using len by (auto simp: mb_applyPendingRepeat_def Let_def k_def mb_setActive_def mb_activeMacro_def)
qed

lemma applyPendingRepeat_inv:
  assumes "mb_inv mb" "mb_repeatStart mb \<le> length (mb_activeMacro mb)" "M = 2 ^ 64"
  shows "mb_inv (snd (mb_applyPendingRepeat M mb))"
    and "fst (mb_applyPendingRepeat M mb) \<Longrightarrow> \<not> mb_repeatPending (snd (mb_applyPendingRepeat M mb))"
    and "mb_parseState (snd (mb_applyPendingRepeat M mb)) = mb_parseState mb"
    and "mb_decodedChar (snd (mb_applyPendingRepeat M mb)) = mb_decodedChar mb"
  using assms(1) setActive_inv [OF assms(1), of "(mb_repeatCount mb - 1) * length (drop (mb_repeatStart mb) (mb_activeMacro mb))"]
  by (simp_all add: applyPendingRepeat_eq [OF assms] length_concat sum_list_replicate split: if_splits)

subsection \<open>The definition parser keeps the invariant\<close>

lemma decodeHexDigit_frame [simp]:
  "mb_inv (snd (mb_decodeHexDigit ch mb)) = mb_inv mb"
  "mb_activeMacro (snd (mb_decodeHexDigit ch mb)) = mb_activeMacro mb"
  "mb_repeatPending (snd (mb_decodeHexDigit ch mb)) = mb_repeatPending mb"
  "mb_repeatStart (snd (mb_decodeHexDigit ch mb)) = mb_repeatStart mb"
  "mb_repeatCount (snd (mb_decodeHexDigit ch mb)) = mb_repeatCount mb"
  "mb_parseState (snd (mb_decodeHexDigit ch mb)) = mb_parseState mb"
  "mb_spaceUsed (snd (mb_decodeHexDigit ch mb)) = mb_spaceUsed mb"
  by (simp_all add: mb_decodeHexDigit_def Let_def)

lemma decodeHexDigit_reject:
  "\<not> fst (mb_decodeHexDigit ch mb) \<Longrightarrow> mb_decodedChar mb = 0 \<Longrightarrow>
     mb_decodedChar (snd (mb_decodeHexDigit ch mb)) = 0"
  by (auto simp: mb_decodeHexDigit_def Let_def split: if_splits)

lemma inv_repeatCount:
  "mb_inv mb \<Longrightarrow> n \<le> nat MAX_PARAMETER_VALUE \<Longrightarrow> mb_inv (mb\<lparr>mb_repeatCount := n\<rparr>)"
  by (simp add: mb_inv_def)

lemma appendToActiveMacro_reading:
  assumes "mb_inv mb"
  shows "mb_inv (snd (mb_appendToActiveMacro ch mb))"
    and "length (mb_activeMacro mb) \<le> length (mb_activeMacro (snd (mb_appendToActiveMacro ch mb)))"
    and "mb_repeatPending (snd (mb_appendToActiveMacro ch mb)) = mb_repeatPending mb"
    and "mb_repeatStart (snd (mb_appendToActiveMacro ch mb)) = mb_repeatStart mb"
    and "mb_parseState (snd (mb_appendToActiveMacro ch mb)) = mb_parseState mb"
  using assms append_ok [OF assms, of ch] append_full [OF assms, of ch]
  by (cases "mb_spaceUsed mb < MAX_SPACE"; simp)+

lemma parseChar_reading:
  assumes "mb_reading mb" "M = 2 ^ 64"
  shows "mb_inv (snd (mb_parseChar M ch mb)) \<and>
    (fst (mb_parseChar M ch mb) \<longrightarrow> mb_reading (snd (mb_parseChar M ch mb)))"
proof (cases "mb_parseState mb")
  case ExpectingText
  with assms(1) appendToActiveMacro_reading [of mb ch] show ?thesis
    by (auto simp: mb_parseChar_def mb_reading_def)
next
  case ExpectingHexDigit
  define mb1 where "mb1 = snd (mb_decodeHexDigit ch mb)"
  have rep: "mb_repeatStart mb1 \<le> length (mb_activeMacro mb1)" "mb_inv mb1" if "mb_repeatPending mb1"
    using assms(1) that by (simp_all add: mb_reading_def mb1_def)
  show ?thesis
    using assms ExpectingHexDigit decodeHexDigit_reject [of ch mb]
      applyPendingRepeat_inv [OF rep(2,1) assms(2)]
    by (auto simp: mb_parseChar_def mb_reading_def mb1_def [symmetric] split_beta Let_def
        inv_repeatCount) (auto simp: mb1_def inv_repeatCount)
next
  case ExpectingSecondHexDigit
  define mb1 where "mb1 = snd (mb_decodeHexDigit ch mb)"
  have "mb_inv mb1" using assms(1) by (simp add: mb_reading_def mb1_def)
  with assms(1) ExpectingSecondHexDigit appendToActiveMacro_reading [of mb1 "mb_decodedChar mb1"]
  show ?thesis
    by (auto simp: mb_parseChar_def mb_reading_def mb1_def [symmetric] split_beta Let_def)
      (auto simp: mb1_def)
next
  case ExpectingRepeatCount
  with assms(1) show ?thesis
    by (auto simp: mb_parseChar_def mb_reading_def inv_repeatCount)
qed

lemma ParseDefinition_reading:
  assumes "mb_reading mb" "M = 2 ^ 64"
  shows "mb_inv (snd (mb_ParseDefinition M ch mb)) \<and>
    (fst (mb_ParseDefinition M ch mb) \<longrightarrow> mb_reading (snd (mb_ParseDefinition M ch mb)))"
proof -
  have "mb_inv mb" using assms(1) by (simp add: mb_reading_def)
  moreover have "mb_inv (snd (mb_applyPendingRepeat M mb))" if "mb_repeatPending mb"
    using assms that by (intro applyPendingRepeat_inv) (simp_all add: mb_reading_def)
  moreover note parseChar_reading [OF assms, of ch]
  ultimately show ?thesis
    using assms(1) by (auto simp: mb_ParseDefinition_def split_beta Let_def deleteActive_inv)
qed

lemma deleteMacro_frame [simp]:
  "length (mb_macros (mb_deleteMacro i mb)) = length (mb_macros mb)"
  "mb_activeMacroId (mb_deleteMacro i mb) = mb_activeMacroId mb"
  "mb_parseState (mb_deleteMacro i mb) = mb_parseState mb"
  "mb_decodedChar (mb_deleteMacro i mb) = mb_decodedChar mb"
  "mb_repeatPending (mb_deleteMacro i mb) = mb_repeatPending mb"
  "mb_invokedDepth (mb_deleteMacro i mb) = mb_invokedDepth mb"
  by (simp_all add: mb_deleteMacro_def)

lemma deleteAll_frame [simp]:
  "length (mb_macros (fold mb_deleteMacro is mb)) = length (mb_macros mb)"
  "mb_activeMacroId (fold mb_deleteMacro is mb) = mb_activeMacroId mb"
  "mb_parseState (fold mb_deleteMacro is mb) = mb_parseState mb"
  "mb_decodedChar (fold mb_deleteMacro is mb) = mb_decodedChar mb"
  "mb_repeatPending (fold mb_deleteMacro is mb) = mb_repeatPending mb"
  "mb_invokedDepth (fold mb_deleteMacro is mb) = mb_invokedDepth mb"
  by (induction "is" arbitrary: mb) simp_all

lemma deleteAll_empty:
  "i \<in> set is \<or> mb_macros mb ! i = [] \<Longrightarrow> i < length (mb_macros mb) \<Longrightarrow>
     mb_macros (fold mb_deleteMacro is mb) ! i = []"
proof (induction "is" arbitrary: mb)
  case (Cons a "is")
  have "i \<in> set is \<or> mb_macros (mb_deleteMacro a mb) ! i = []"
    using Cons.prems by (cases "a = i") (auto simp: mb_deleteMacro_def)
  with Cons show ?case by simp
qed simp

lemma InitParser_accepts:
  "fst (mb_InitParser macroId deleteControl encoding mb) \<longleftrightarrow>
     macroId < length (mb_macros mb) \<and> mb_invokedDepth mb = 0 \<and> deleteControl \<in> {0, 1} \<and> encoding \<in> {0, 1}"
  by (auto simp: mb_InitParser_def Let_def)

lemma InitParser_inv:
  assumes "mb_inv mb"
  shows "mb_inv (snd (mb_InitParser macroId deleteControl encoding mb))"
proof -
  have "mb_inv (mb\<lparr>mb_activeMacroId := i\<rparr>)" if "i < 64" for i
    using assms that by (simp add: mb_inv_def)
  then have act: "mb_inv (mb\<lparr>mb_activeMacroId := macroId, mb_decodedChar := 0,
      mb_repeatPending := False\<rparr>)" if "macroId < 64"
    using that by simp
  have 64: "length (mb_macros mb) = 64" using assms by (simp add: mb_inv_def)
  show ?thesis
    using act assms by (auto simp: mb_InitParser_def 64 Let_def intro!: deleteActive_inv deleteAll_inv)
qed

text \<open>An accepted \<open>InitParser\<close> leaves an empty active macro, ready to be read.\<close>

lemma InitParser_reading:
  assumes "mb_inv mb" "fst (mb_InitParser macroId deleteControl encoding mb)"
  defines "mb' \<equiv> snd (mb_InitParser macroId deleteControl encoding mb)"
  shows "mb_reading mb'" "mb_activeMacro mb' = []" "mb_activeMacroId mb' = macroId"
    "\<not> mb_repeatPending mb'" "mb_invokedDepth mb' = 0"
    "mb_parseState mb' = (if encoding = 1 then ExpectingHexDigit else ExpectingText)"
proof -
  have acc: "macroId < 64" "mb_invokedDepth mb = 0" "deleteControl \<in> {0, 1}" "encoding \<in> {0, 1}"
    "length (mb_macros mb) = 64"
    using assms(1,2) by (auto simp: InitParser_accepts mb_inv_def)
  show *: "mb_activeMacro mb' = []" "mb_activeMacroId mb' = macroId"
    "\<not> mb_repeatPending mb'" "mb_invokedDepth mb' = 0"
    "mb_parseState mb' = (if encoding = 1 then ExpectingHexDigit else ExpectingText)"
    using acc by (auto simp: mb'_def mb_InitParser_def Let_def mb_activeMacro_def mb_deleteActive_def
        deleteAll_empty) (simp_all add: mb_deleteMacro_def)
  have "mb_decodedChar mb' = 0"
    using acc by (auto simp: mb'_def mb_InitParser_def Let_def mb_deleteActive_def)
  with * show "mb_reading mb'"
    using InitParser_inv [OF assms(1)] by (auto simp: mb_reading_def mb'_def split: if_splits)
qed

subsection \<open>What a definition means\<close>

text \<open>
  The state machine hands the data string to \<open>ParseDefinition\<close> one character at a time until it
  answers false.
\<close>

fun mb_load :: "nat \<Rightarrow> wstring \<Rightarrow> MacroBuffer \<Rightarrow> bool \<times> MacroBuffer" where
  "mb_load M [] mb = (True, mb)"
| "mb_load M (c # cs) mb =
     (let (ok, mb1) = mb_ParseDefinition M c mb in if ok then mb_load M cs mb1 else (False, mb1))"

lemma mb_load_append:
  "mb_load M (xs @ ys) mb = (let (ok, mb1) = mb_load M xs mb in if ok then mb_load M ys mb1 else (False, mb1))"
  by (induction xs arbitrary: mb) (auto simp: split_beta Let_def)

text \<open>
  Hex definitions as a small language: a pair stands for one character, a repeat for a number of
  copies of a sequence of pairs (a count of 0 or 1 gives one copy).
\<close>

datatype hex_item = Pair byte | Repeat nat "byte list"

definition hex_digit :: "byte \<Rightarrow> wchar" where
  "hex_digit n = (if n < 10 then 0x30 + ucast n else 0x41 + (ucast n - 10))"

definition hex_pair :: "byte \<Rightarrow> wstring" where
  "hex_pair b = [hex_digit (drop_bit 4 b), hex_digit (b AND 15)]"

primrec hex_print :: "hex_item \<Rightarrow> wstring" where
  "hex_print (Pair b) = hex_pair b"
| "hex_print (Repeat n bs) = [0x21] @ dec_string n @ [0x3B] @ concat (map hex_pair bs) @ [0x3B]"

primrec hex_denote :: "hex_item \<Rightarrow> wstring" where
  "hex_denote (Pair b) = [ucast b]"
| "hex_denote (Repeat n bs) = concat (replicate (max 1 (min n 65535)) (map ucast bs))"

text \<open>The result of a definition that fits: the active macro is extended and nothing else changes.\<close>

definition mb_extend :: "wstring \<Rightarrow> MacroBuffer \<Rightarrow> MacroBuffer" where
  "mb_extend s mb = (mb_setActive (mb_activeMacro mb @ s) mb)\<lparr>mb_spaceUsed := mb_spaceUsed mb + length s\<rparr>"

lemma mb_extend_Nil [simp]: "mb_extend [] mb = mb"
  by (simp add: mb_extend_def mb_setActive_def mb_activeMacro_def)

lemma mb_extend_frame [simp]:
  "mb_parseState (mb_extend s mb) = mb_parseState mb"
  "mb_decodedChar (mb_extend s mb) = mb_decodedChar mb"
  "mb_repeatPending (mb_extend s mb) = mb_repeatPending mb"
  "mb_repeatCount (mb_extend s mb) = mb_repeatCount mb"
  "mb_repeatStart (mb_extend s mb) = mb_repeatStart mb"
  "mb_activeMacroId (mb_extend s mb) = mb_activeMacroId mb"
  "mb_spaceUsed (mb_extend s mb) = mb_spaceUsed mb + length s"
  by (simp_all add: mb_extend_def)

lemma mb_extend_extend: "mb_inv mb \<Longrightarrow> mb_extend t (mb_extend s mb) = mb_extend (s @ t) mb"
  by (simp add: mb_extend_def mb_setActive_def mb_activeMacro_def mb_inv_def)

lemma mb_extend_inv: "mb_inv mb \<Longrightarrow> mb_spaceUsed mb + length s \<le> MAX_SPACE \<Longrightarrow> mb_inv (mb_extend s mb)"
  unfolding mb_extend_def by (rule setActive_inv) simp_all

lemma mb_extend_active: "mb_inv mb \<Longrightarrow> mb_activeMacro (mb_extend s mb) = mb_activeMacro mb @ s"
  by (simp add: mb_extend_def)

lemma mb_extend_update [simp]:
  "(mb_extend s mb)\<lparr>mb_decodedChar := c\<rparr> = mb_extend s (mb\<lparr>mb_decodedChar := c\<rparr>)"
  "(mb_extend s mb)\<lparr>mb_parseState := p\<rparr> = mb_extend s (mb\<lparr>mb_parseState := p\<rparr>)"
  "(mb_extend s mb)\<lparr>mb_repeatPending := b\<rparr> = mb_extend s (mb\<lparr>mb_repeatPending := b\<rparr>)"
  by (simp_all add: mb_extend_def mb_setActive_def mb_activeMacro_def)

lemma append_extend:
  "mb_inv mb \<Longrightarrow> mb_spaceUsed mb < MAX_SPACE \<Longrightarrow> mb_appendToActiveMacro ch mb = (True, mb_extend [ch] mb)"
  by (simp add: append_ok mb_extend_def)

lemma load_text:
  assumes "mb_inv mb" "mb_parseState mb = ExpectingText" "\<forall>c \<in> set s. \<not> c < 0x20"
    and "mb_spaceUsed mb + length s \<le> MAX_SPACE"
  shows "mb_load M s mb = (True, mb_extend s mb)"
  using assms
proof (induction s arbitrary: mb)
  case (Cons c s)
  have "c \<noteq> ESC" using Cons.prems(3) by auto
  with Cons.prems have "mb_ParseDefinition M c mb = (True, mb_extend [c] mb)"
    by (simp add: mb_ParseDefinition_def mb_parseChar_def append_extend)
  moreover have "mb_load M s (mb_extend [c] mb) = (True, mb_extend s (mb_extend [c] mb))"
    using Cons.prems by (intro Cons.IH mb_extend_inv) simp_all
  ultimately show ?case using Cons.prems by (simp add: mb_extend_extend)
qed simp

text \<open>Hex digits and pairs.\<close>

lemma hex_digit_nat: "n < 16 \<Longrightarrow> unat (hex_digit n) = (if unat n < 10 then 48 + unat n else 55 + unat n)"
  by (auto simp: hex_digit_def word_less_nat_alt unat_word_ariths unat_sub_if')

lemma decode_hex_digit:
  assumes "n < 16"
  shows "mb_decodeHexDigit (hex_digit n) mb =
    (True, mb\<lparr>mb_decodedChar := push_bit 4 (mb_decodedChar mb) + ucast n\<rparr>)"
proof -
  have n: "unat n < 16" using assms by (simp add: word_less_nat_alt)
  have "\<not> n < 10 \<Longrightarrow> hex_digit n - 0x41 + 10 = ucast n" "n < 10 \<Longrightarrow> hex_digit n - 0x30 = ucast n"
    by (simp_all add: hex_digit_def)
  with n hex_digit_nat [OF assms] show ?thesis
    by (auto simp: mb_decodeHexDigit_def Let_def word_le_nat_alt word_less_nat_alt)
qed

lemma hex_digit_printable: "n < 16 \<Longrightarrow> \<not> hex_digit n < 0x20 \<and> hex_digit n \<noteq> ESC"
  using hex_digit_nat [of n] by (auto simp: word_less_nat_alt split: if_splits)

lemma nibbles_all:
  "list_all (\<lambda>k. let b = word_of_nat k :: byte in drop_bit 4 b < 16 \<and> b AND 15 < 16 \<and>
     push_bit 4 (ucast (drop_bit 4 b)) + ucast (b AND 15) = (ucast b :: wchar)) [0..<256]"
  by code_simp

lemma nibbles:
  fixes b :: byte
  shows "drop_bit 4 b < 16" "b AND 15 < 16"
    "push_bit 4 (ucast (drop_bit 4 b)) + ucast (b AND 15) = (ucast b :: wchar)"
  using bspec [OF nibbles_all [unfolded list_all_iff], of "unat b"] unat_byte_less [of b]
  by (simp_all add: Let_def)

lemma load_pair:
  assumes "mb_inv mb" "mb_parseState mb = ExpectingHexDigit" "mb_decodedChar mb = 0"
    and "mb_spaceUsed mb < MAX_SPACE"
  shows "mb_load M (hex_pair b) mb = (True, mb_extend [ucast b] mb)"
proof -
  define hi lo where "hi = drop_bit 4 b" and "lo = b AND 15"
  note dig = nibbles [of b, folded hi_def lo_def]
  define mb1 where "mb1 = mb\<lparr>mb_decodedChar := ucast hi, mb_parseState := ExpectingSecondHexDigit\<rparr>"
  have "mb_ParseDefinition M (hex_digit hi) mb = (True, mb1)"
    using assms dig hex_digit_printable [of hi]
    by (simp add: mb_ParseDefinition_def mb_parseChar_def decode_hex_digit mb1_def)
  moreover have same: "mb\<lparr>mb_decodedChar := 0, mb_parseState := ExpectingHexDigit\<rparr> = mb"
    using assms by simp
  have "mb_ParseDefinition M (hex_digit lo) mb1 = (True, mb_extend [ucast b] mb)"
    using assms dig hex_digit_printable [of lo]
    by (simp add: mb_ParseDefinition_def mb_parseChar_def decode_hex_digit mb1_def append_extend)
      (simp only: same)
  ultimately show ?thesis by (simp add: hex_pair_def hi_def lo_def)
qed

lemma load_pairs:
  assumes "mb_inv mb" "mb_parseState mb = ExpectingHexDigit" "mb_decodedChar mb = 0"
    and "mb_spaceUsed mb + length bs \<le> MAX_SPACE"
  shows "mb_load M (concat (map hex_pair bs)) mb = (True, mb_extend (map ucast bs) mb)"
  using assms
proof (induction bs arbitrary: mb)
  case (Cons b bs)
  have "mb_load M (hex_pair b) mb = (True, mb_extend [ucast b] mb)"
    using Cons.prems by (intro load_pair) simp_all
  moreover have "mb_load M (concat (map hex_pair bs)) (mb_extend [ucast b] mb) =
      (True, mb_extend (map ucast bs) (mb_extend [ucast b] mb))"
    using Cons.prems by (intro Cons.IH mb_extend_inv) simp_all
  ultimately show ?case using Cons.prems by (simp add: mb_load_append mb_extend_extend)
qed simp

text \<open>A repeat: its count, its body and the closing \<open>;\<close>.\<close>

lemma load_count:
  assumes "mb_parseState mb = ExpectingRepeatCount" "\<forall>d \<in> set ds. d < 10"
  shows "mb_load M (map dec_char ds) mb =
    (True, mb\<lparr>mb_repeatCount := foldl (\<lambda>v d. min (v * 10 + d) 65535) (mb_repeatCount mb) ds\<rparr>)"
  using assms
proof (induction ds arbitrary: mb)
  case (Cons d ds)
  have d: "0x30 \<le> dec_char d" "dec_char d \<le> 0x39" "unat (dec_char d - 0x30) = d"
    using Cons.prems dec_char_range [of d] by (simp_all add: dec_char_digit unat_of_nat)
  then have "\<not> dec_char d < 0x20" "dec_char d \<noteq> ESC"
    by (auto simp: word_le_nat_alt word_less_nat_alt)
  with d Cons.prems have "mb_ParseDefinition M (dec_char d) mb =
      (True, mb\<lparr>mb_repeatCount := min (mb_repeatCount mb * 10 + d) 65535\<rparr>)"
    by (simp add: mb_ParseDefinition_def mb_parseChar_def MAX_PARAMETER_VALUE_def)
  with Cons show ?case by simp
qed simp

lemma load_repeat_open:
  assumes "mb_parseState mb = ExpectingHexDigit" "\<not> mb_repeatPending mb" "mb_decodedChar mb = 0"
  shows "mb_load M ([0x21] @ dec_string n @ [0x3B]) mb =
    (True, mb\<lparr>mb_repeatCount := min n 65535, mb_repeatPending := True,
              mb_repeatStart := length (mb_activeMacro mb)\<rparr>)"
proof -
  define mb1 where "mb1 = mb\<lparr>mb_parseState := ExpectingRepeatCount, mb_repeatCount := 0\<rparr>"
  have "mb_ParseDefinition M 0x21 mb = (True, mb1)"
    using assms by (simp add: mb_ParseDefinition_def mb_parseChar_def mb_decodeHexDigit_def mb1_def)
  moreover have "mb_load M (dec_string n) mb1 = (True, mb1\<lparr>mb_repeatCount := min n 65535\<rparr>)"
    using load_count [of mb1 "dec_digits n" M] dec_value_clamp [where v = 0 and k = 65535 and ds = "dec_digits n"]
    by (simp add: dec_string_def mb1_def dec_digits_less)
  moreover have "mb_ParseDefinition M 0x3B (mb1\<lparr>mb_repeatCount := min n 65535\<rparr>) =
      (True, mb\<lparr>mb_repeatCount := min n 65535, mb_repeatPending := True,
                mb_repeatStart := length (mb_activeMacro mb)\<rparr>)"
    using assms(1) by (simp add: mb_ParseDefinition_def mb_parseChar_def mb1_def)
  ultimately show ?thesis by (simp add: mb_load_append)
qed

lemma parse_repeat_close:
  assumes "mb_inv mb" "mb_parseState mb = ExpectingHexDigit" "mb_repeatPending mb" "mb_decodedChar mb = 0"
    and "M = 2 ^ 64" and act: "mb_activeMacro mb = pre @ t" and "mb_repeatStart mb = length pre"
    and "mb_spaceUsed mb + (mb_repeatCount mb - 1) * length t \<le> MAX_SPACE"
  shows "mb_ParseDefinition M 0x3B mb =
    (True, mb_extend (concat (replicate (mb_repeatCount mb - 1) t)) (mb\<lparr>mb_repeatPending := False\<rparr>))"
proof -
  have "mb_decodeHexDigit 0x3B mb = (False, mb)"
    using assms(4) by (simp add: mb_decodeHexDigit_def)
  moreover have "mb_applyPendingRepeat M mb =
      (True, mb_extend (concat (replicate (mb_repeatCount mb - 1) t)) (mb\<lparr>mb_repeatPending := False\<rparr>))"
    using applyPendingRepeat_eq [OF assms(1) _ assms(5)] assms(7,8)
    by (simp add: act mb_extend_def mb_setActive_def length_concat sum_list_replicate)
  ultimately show ?thesis
    using assms(2,3) by (simp add: mb_ParseDefinition_def mb_parseChar_def)
qed

lemma load_repeat:
  assumes inv: "mb_inv mb" and st: "mb_parseState mb = ExpectingHexDigit" "\<not> mb_repeatPending mb"
    "mb_decodedChar mb = 0" and M: "M = 2 ^ 64"
    and fits: "mb_spaceUsed mb + length (hex_denote (Repeat n bs)) \<le> MAX_SPACE"
  shows "mb_load M (hex_print (Repeat n bs)) mb =
    (True, mb_extend (hex_denote (Repeat n bs))
       (mb\<lparr>mb_repeatCount := min n 65535, mb_repeatStart := length (mb_activeMacro mb)\<rparr>))"
proof -
  define t :: wstring where "t = map ucast bs"
  define k where "k = length (mb_activeMacro mb)"
  define mb2 where "mb2 = mb\<lparr>mb_repeatCount := min n 65535, mb_repeatPending := True, mb_repeatStart := k\<rparr>"
  define mb3 where "mb3 = mb_extend t mb2"
  have "max 1 (min n 65535) = Suc (min n 65535 - 1)" by simp
  then have den: "hex_denote (Repeat n bs) = t @ concat (replicate (min n 65535 - 1) t)"
    by (simp add: t_def)
  have space: "mb_spaceUsed mb + length t + (min n 65535 - 1) * length t \<le> MAX_SPACE"
    using fits unfolding den by (simp add: length_concat sum_list_replicate)
  have inv2: "mb_inv mb2" using inv by (simp add: mb2_def inv_repeatCount MAX_PARAMETER_VALUE_def)
  have body: "mb_load M (concat (map hex_pair bs)) mb2 = (True, mb3)"
    using st space inv2 unfolding mb3_def t_def by (intro load_pairs) (simp_all add: mb2_def)
  have "mb_inv mb3" using inv2 space unfolding mb3_def by (intro mb_extend_inv) (simp_all add: mb2_def)
  then have "mb_ParseDefinition M 0x3B mb3 =
      (True, mb_extend (concat (replicate (min n 65535 - 1) t)) (mb3\<lparr>mb_repeatPending := False\<rparr>))"
    using st space inv2 M
    by (subst parse_repeat_close [where pre = "mb_activeMacro mb" and t = t])
      (simp_all add: mb3_def mb2_def k_def mb_extend_active)
  moreover have "mb_extend u (mb3\<lparr>mb_repeatPending := False\<rparr>) =
      mb_extend (t @ u) (mb\<lparr>mb_repeatCount := min n 65535, mb_repeatStart := k\<rparr>)" for u
    using inv st(2) by (simp add: mb3_def mb2_def mb_extend_def mb_setActive_def mb_activeMacro_def mb_inv_def)
  moreover have "hex_print (Repeat n bs) =
      ([0x21] @ dec_string n @ [0x3B]) @ concat (map hex_pair bs) @ [0x3B]" by simp
  ultimately show ?thesis
    using load_repeat_open [OF st, of M n] body unfolding den
    by (simp only: mb_load_append [of _ "[0x21] @ dec_string n @ [0x3B]"])
      (simp add: mb_load_append mb2_def [symmetric] k_def [symmetric])
qed

text \<open>A whole hex definition.\<close>

definition hex_ready :: "MacroBuffer \<Rightarrow> bool" where
  "hex_ready mb \<longleftrightarrow> mb_inv mb \<and> mb_parseState mb = ExpectingHexDigit \<and> \<not> mb_repeatPending mb \<and>
     mb_decodedChar mb = 0"

lemma load_item:
  assumes "hex_ready mb" "M = 2 ^ 64" "mb_spaceUsed mb + length (hex_denote x) \<le> MAX_SPACE"
  shows "\<exists>c k. mb_load M (hex_print x) mb =
    (True, mb_extend (hex_denote x) (mb\<lparr>mb_repeatCount := c, mb_repeatStart := k\<rparr>)) \<and>
    c \<le> nat MAX_PARAMETER_VALUE"
proof (cases x)
  case (Pair b)
  have "mb_load M (hex_pair b) mb = (True, mb_extend [ucast b] mb)"
    using assms by (intro load_pair) (simp_all add: hex_ready_def Pair)
  moreover have "mb = mb\<lparr>mb_repeatCount := mb_repeatCount mb, mb_repeatStart := mb_repeatStart mb\<rparr>"
    by simp
  ultimately show ?thesis
    using assms(1) unfolding Pair by (metis hex_denote.simps(1) hex_print.simps(1) hex_ready_def mb_inv_def)
next
  case (Repeat n bs)
  then show ?thesis
    using load_repeat [of mb M n bs] assms
    by (auto simp: hex_ready_def MAX_PARAMETER_VALUE_def simp del: hex_print.simps hex_denote.simps)
qed

lemma load_items:
  assumes "hex_ready mb" "M = 2 ^ 64"
    and "mb_spaceUsed mb + length (concat (map hex_denote xs)) \<le> MAX_SPACE"
  shows "\<exists>mb'. mb_load M (concat (map hex_print xs)) mb = (True, mb') \<and> hex_ready mb' \<and>
    mb_activeMacroId mb' = mb_activeMacroId mb \<and>
    mb_activeMacro mb' = mb_activeMacro mb @ concat (map hex_denote xs)"
  using assms
proof (induction xs arbitrary: mb)
  case (Cons x xs)
  obtain c k where c: "c \<le> nat MAX_PARAMETER_VALUE" and
    load: "mb_load M (hex_print x) mb =
      (True, mb_extend (hex_denote x) (mb\<lparr>mb_repeatCount := c, mb_repeatStart := k\<rparr>))"
    using load_item [of mb M x] Cons.prems by auto
  define mb1 where "mb1 = mb_extend (hex_denote x) (mb\<lparr>mb_repeatCount := c, mb_repeatStart := k\<rparr>)"
  have inv: "mb_inv (mb\<lparr>mb_repeatCount := c, mb_repeatStart := k\<rparr>)"
    using Cons.prems c by (simp add: hex_ready_def inv_repeatCount)
  have "hex_ready mb1" "mb_activeMacroId mb1 = mb_activeMacroId mb"
    "mb_activeMacro mb1 = mb_activeMacro mb @ hex_denote x"
    "mb_spaceUsed mb1 = mb_spaceUsed mb + length (hex_denote x)"
    using Cons.prems inv by (auto simp: mb1_def hex_ready_def mb_extend_active intro!: mb_extend_inv)
  with Cons.IH [of mb1] Cons.prems load show ?case
    by (auto simp: mb_load_append mb1_def [symmetric])
qed simp

lemma load_end:
  "\<not> mb_repeatPending mb \<Longrightarrow> mb_load M [ESC] mb = (False, mb)"
  by (simp add: mb_ParseDefinition_def)

subsection \<open>Invocation\<close>

text \<open>
  Whatever the nested processing does, the depth it sees is at most 16 and the text invoked since
  the outermost macro stays below \<open>MAX_SPACE\<close>.
\<close>

definition mb_depth_ok :: "MacroBuffer \<Rightarrow> bool" where
  "mb_depth_ok mb \<longleftrightarrow> mb_invokedDepth mb \<le> 16 \<and>
     mb_invokedSequenceLength mb < MAX_SPACE \<and>
     (mb_invokedDepth mb = 0 \<longrightarrow> mb_invokedSequenceLength mb = 0)"

lemma InvokeMacro_depth:
  assumes "mb_depth_ok mb"
    and "\<And>s mb1 st1. mb_depth_ok mb1 \<Longrightarrow> mb_invokedDepth mb1 = mb_invokedDepth mb + 1 \<Longrightarrow>
      mb_depth_ok (fst (process s (mb1, st1))) \<and>
      mb_invokedDepth (fst (process s (mb1, st1))) = mb_invokedDepth mb1"
  shows "mb_depth_ok (fst (mb_InvokeMacro process i (mb, st))) \<and>
    mb_invokedDepth (fst (mb_InvokeMacro process i (mb, st))) = mb_invokedDepth mb"
proof (cases "i < length (mb_macros mb) \<and> mb_invokedDepth mb < 16 \<and>
    length (mb_macros mb ! i) < MAX_SPACE - mb_invokedSequenceLength mb")
  case True
  define s mb1 where "s = mb_macros mb ! i" and
    "mb1 = mb\<lparr>mb_invokedSequenceLength := mb_invokedSequenceLength mb + length s,
      mb_invokedDepth := mb_invokedDepth mb + 1\<rparr>"
  have "mb_depth_ok mb1" "mb_invokedDepth mb1 = mb_invokedDepth mb + 1"
    using True assms(1) by (auto simp: mb1_def s_def mb_depth_ok_def)
  with assms(2) [of mb1 s st] True show ?thesis
    by (auto simp: mb_InvokeMacro_def s_def mb1_def Let_def split_beta mb_depth_ok_def MAX_SPACE_def)
next
  case False
  then show ?thesis using assms(1) by (auto simp: mb_InvokeMacro_def Let_def)
qed

subsection \<open>Reachable macro memories\<close>

text \<open>
  The states the terminal can bring the macro memory into. The flag says whether a definition is
  being read: the state machine drops the string handler as soon as \<open>ParseDefinition\<close> answers
  false, so \<open>ParseDefinition\<close> runs only while it is set.
\<close>

inductive mb_reachable :: "bool \<Rightarrow> MacroBuffer \<Rightarrow> bool" where
  New: "mb_reachable False mb_new"
| Init: "mb_reachable r mb \<Longrightarrow> mb_InitParser i d e mb = (ok, mb') \<Longrightarrow> mb_reachable ok mb'"
| Parse: "mb_reachable True mb \<Longrightarrow> mb_ParseDefinition (2 ^ 64) ch mb = (ok, mb') \<Longrightarrow> mb_reachable ok mb'"
| Clear: "mb_reachable r mb \<Longrightarrow> mb_reachable r (mb_ClearMacrosIfInUse mb)"
| Invoke: "mb_reachable r mb \<Longrightarrow>
    mb_reachable r (mb\<lparr>mb_invokedDepth := n, mb_invokedSequenceLength := l\<rparr>)"

inductive_cases mb_reachable_parseE: "mb_reachable True mb"

lemma ClearMacrosIfInUse_reading:
  assumes "mb_inv mb"
  shows "mb_inv (mb_ClearMacrosIfInUse mb)"
    and "length (mb_activeMacro (mb_ClearMacrosIfInUse mb)) = length (mb_activeMacro mb)"
  using assms by (simp_all add: mb_ClearMacrosIfInUse_def mb_inv_def mb_activeMacro_def o_def)

lemma mb_reachable_reading: "mb_reachable r mb \<Longrightarrow> mb_inv mb \<and> (r \<longrightarrow> mb_reading mb)"
proof (induction rule: mb_reachable.induct)
  case (Init r mb i d e ok mb')
  then show ?case
    using InitParser_inv [of mb i d e] InitParser_reading(1) [of mb i d e] by simp
next
  case (Parse mb ch ok mb')
  then show ?case using ParseDefinition_reading [of mb "2 ^ 64" ch] by simp
next
  case (Clear r mb)
  then show ?case
    using ClearMacrosIfInUse_reading [of mb]
    by (auto simp: mb_reading_def) (auto simp: mb_ClearMacrosIfInUse_def split: if_splits)
next
  case (Invoke r mb n l)
  then show ?case by (auto simp: mb_reading_def mb_activeMacro_def)
qed (simp add: mb_new_inv)

lemma repeatLoop_space: "mb_spaceUsed (mb_repeatLoop n len mb) = mb_spaceUsed mb + n * len"
  by (induction n arbitrary: mb) (simp_all add: Let_def)

subsection \<open>Properties\<close>



text \<open>
  C29. A hex definition (DECDMAC with encoding 1) stores what it denotes: after an accepted
  \<open>InitParser\<close>, the pairs and the repeat groups \<open>! count ; pairs ;\<close> of the data string, closed by
  the terminator, leave the macro equal to the decoded text, every repeat expanded to its count
  (clamped at 65535, with 0 counting as 1), provided that it fits into the macro memory.
\<close>

theorem macro_hex_definition:
  assumes "mb_inv mb" and "mb_InitParser i d 1 mb = (True, mb1)"
    and "mb_spaceUsed mb1 + length (concat (map hex_denote xs)) \<le> MAX_SPACE"
  shows "mb_macros (snd (mb_load (2 ^ 64) (concat (map hex_print xs) @ [ESC]) mb1)) ! i =
    concat (map hex_denote xs)"
proof -
  have mb1: "mb_reading mb1" "mb_activeMacro mb1 = []" "mb_activeMacroId mb1 = i" "hex_ready mb1"
    using InitParser_reading [of mb i d 1] assms(1,2) by (auto simp: hex_ready_def mb_reading_def)
  obtain mb' where mb': "mb_load (2 ^ 64) (concat (map hex_print xs)) mb1 = (True, mb')"
    "hex_ready mb'" "mb_activeMacroId mb' = i" "mb_activeMacro mb' = concat (map hex_denote xs)"
    using load_items [OF mb1(4) refl assms(3)] mb1 by auto
  then have "mb_macros mb' ! i = concat (map hex_denote xs)" by (simp add: mb_activeMacro_def)
  with mb'(1,2) load_end [of mb' "2 ^ 64"] show ?thesis by (simp add: mb_load_append hex_ready_def)
qed

theorem macro_hex_definition_witness:
  "mb_macros (snd (mb_load (2 ^ 64) (concat (map hex_print [Pair 0x41, Repeat 3 [0x42, 0x43]]) @ [ESC])
      (snd (mb_InitParser 5 0 1 mb_new)))) ! 5 = [0x41, 0x42, 0x43, 0x42, 0x43, 0x42, 0x43]"
proof -
  have init: "mb_InitParser 5 0 1 mb_new = (True, snd (mb_InitParser 5 0 1 mb_new))"
    by (simp add: mb_InitParser_def mb_new_def)
  have "mb_spaceUsed (snd (mb_InitParser 5 0 1 mb_new)) = 0"
    by (simp add: mb_InitParser_def mb_new_def mb_deleteActive_def mb_deleteMacro_def)
  then show ?thesis
    using macro_hex_definition [OF mb_new_inv init, of "[Pair 0x41, Repeat 3 [0x42, 0x43]]"]
    by (simp add: MAX_SPACE_def numeral_3_eq_3)
qed

text \<open>
  A text definition (DECDMAC with encoding 0) stores the text itself: the macro becomes the
  data string with its control characters dropped, provided that it fits.
\<close>

theorem macro_text_definition:
  assumes "mb_inv mb" and "mb_InitParser i d 0 mb = (True, mb1)" and "\<forall>c \<in> set s. c \<noteq> ESC"
    and "mb_spaceUsed mb1 + length (filter (\<lambda>c. \<not> c < 0x20) s) \<le> MAX_SPACE"
  shows "mb_macros (snd (mb_load M (s @ [ESC]) mb1)) ! i = filter (\<lambda>c. \<not> c < 0x20) s"
proof -
  have mb1: "mb_reading mb1" "mb_activeMacro mb1 = []" "mb_activeMacroId mb1 = i"
    "mb_parseState mb1 = ExpectingText" "\<not> mb_repeatPending mb1"
    using InitParser_reading [of mb i d 0] assms(1,2) by auto
  have skip: "mb_load M s mb = mb_load M (filter (\<lambda>c. \<not> c < 0x20) s) mb" for mb
    using assms(3) by (induction s arbitrary: mb) (auto simp: mb_ParseDefinition_def split_beta)
  have "mb_load M (filter (\<lambda>c. \<not> c < 0x20) s) mb1 = (True, mb_extend (filter (\<lambda>c. \<not> c < 0x20) s) mb1)"
    using mb1 assms(4) by (intro load_text) (simp_all add: mb_reading_def)
  moreover have "mb_macros (mb_extend t mb1) ! i = t" for t
    using mb1 mb_extend_active [of mb1 t] by (simp add: mb_reading_def mb_activeMacro_def)
  ultimately show ?thesis
    using mb1(5) load_end [of "mb_extend (filter (\<lambda>c. \<not> c < 0x20) s) mb1" M]
    by (simp add: mb_load_append skip)
qed

theorem macro_text_definition_witness:
  "mb_macros (snd (mb_load 0 ([0x68, 0x0A, 0x69] @ [ESC]) (snd (mb_InitParser 63 0 0 mb_new)))) ! 63 =
    [0x68, 0x69]"
proof -
  have init: "mb_InitParser 63 0 0 mb_new = (True, snd (mb_InitParser 63 0 0 mb_new))"
    by (simp add: mb_InitParser_def mb_new_def)
  have "mb_spaceUsed (snd (mb_InitParser 63 0 0 mb_new)) = 0"
    by (simp add: mb_InitParser_def mb_new_def mb_deleteActive_def mb_deleteMacro_def)
  then show ?thesis
    using macro_text_definition [OF mb_new_inv init, of "[0x68, 0x0A, 0x69]" 0]
    by (simp add: MAX_SPACE_def)
qed

text \<open>
  On a 32-bit build (\<open>size_t\<close> modulo \<open>2 ^ 32\<close>) the space check of \<open>_applyPendingRepeat\<close> can
  wrap around: a well-formed definition in progress with a 131072-character repeat body and the
  count 32769 is accepted and grows the macro far beyond \<open>MAX_SPACE\<close>.
\<close>

theorem macro_repeat_wraps_32bit:
  "\<exists>mb. mb_reading mb \<and> fst (mb_ParseDefinition (2 ^ 32) 0x3B mb) \<and>
     mb_spaceUsed (snd (mb_ParseDefinition (2 ^ 32) 0x3B mb)) > MAX_SPACE"
proof -
  define mb where "mb = mb_new\<lparr>mb_parseState := ExpectingHexDigit, mb_repeatPending := True,
    mb_repeatCount := 32769, mb_macros := (replicate 64 [])[0 := replicate 131072 0x41],
    mb_spaceUsed := 131072\<rparr>"
  have act: "length (mb_activeMacro mb) = 131072"
    by (simp add: mb_def mb_new_def mb_activeMacro_def)
  have "sum_list (map length ((replicate 64 [])[0 := replicate 131072 (0x41 :: wchar)])) = 131072"
    using sum_list_length_update [of 0 "replicate 64 []" "replicate 131072 (0x41 :: wchar)"] by simp
  then have "mb_reading mb"
    by (simp add: mb_reading_def mb_inv_def mb_def mb_new_def MAX_SPACE_def MAX_PARAMETER_VALUE_def)
  moreover have dec: "mb_decodeHexDigit 0x3B mb = (False, mb)"
    by (simp add: mb_decodeHexDigit_def mb_def mb_new_def)
  moreover have "mb_applyPendingRepeat (2 ^ 32) mb =
      (True, (mb_repeatLoop 32768 131072 mb)\<lparr>mb_repeatPending := False\<rparr>)"
    by (simp add: mb_applyPendingRepeat_def act) (simp add: mb_def mb_new_def)
  ultimately have "mb_ParseDefinition (2 ^ 32) 0x3B mb =
      (True, (mb_repeatLoop 32768 131072 mb)\<lparr>mb_repeatPending := False\<rparr>)"
    by (simp add: mb_ParseDefinition_def mb_parseChar_def) (simp add: mb_def mb_new_def)
  then show ?thesis
    using \<open>mb_reading mb\<close> repeatLoop_space [of 32768 131072 mb]
    by (intro exI [of _ mb]) (simp add: MAX_SPACE_def)
qed

end
