(* ===== verification/Macro_Dispatch.thy ===== *)
theory Macro_Dispatch
  imports Output_Engine Vt_Engine_Frame Macro_Buffer
begin

text \<open>
  The parser, the output engine and the macro memory put together: \<open>AdaptDispatch::DefineMacro\<close>
  and \<open>AdaptDispatch::InvokeMacro\<close> of \<open>src/src/terminal/adapter/adaptDispatch.cpp\<close>. DECINVM
  registers a completion callback; when the parser is back in the Ground state the callback feeds
  the macro text to \<open>StateMachine::ProcessString\<close>, which may meet further DECINVM sequences.

  All other methods of \<open>ITermDispatch\<close> are the argument \<open>other_dispatch\<close>: any functions on a state
  of their own, whose string handlers do not throw. The text of a macro is passed by value, and
  the release of the macro memory by \<open>HardReset\<close> is not part of this composition.

  The nesting of callbacks is cut off by a number of levels; reaching the cut is recorded in
  \<open>ad_exhausted\<close>. The main result is that 17 levels are never exhausted: the recursion between
  parser and macro memory ends, at a depth of at most 16.
\<close>

subsection \<open>The dispatch\<close>

datatype 'h macro_handler = MacroData | OtherData 'h

record 'x AdaptDispatch =
  ad_hasMacroBuffer :: bool
  ad_macroBuffer :: MacroBuffer
  ad_exhausted :: bool
  ad_rest :: 'x

record ('x, 'h) other_dispatch =
  od_call :: "dispatch_call \<Rightarrow> bool \<Rightarrow> 'x \<Rightarrow> ('x, nat, unit) reply"
  od_handler :: "dispatch_call \<Rightarrow> bool \<Rightarrow> 'x \<Rightarrow> ('x, nat, 'h option) reply"
  od_run :: "'h \<Rightarrow> wchar \<Rightarrow> bool \<Rightarrow> 'x \<Rightarrow> 'x \<times> nat parser_request list \<times> bool"

text \<open>The conversion of a \<open>VTInt\<close> to \<open>size_t\<close>.\<close>

definition size_of_VTInt :: "VTInt \<Rightarrow> nat" where
  "size_of_VTInt i = nat (i mod 2 ^ 64)"

definition ad_DefineMacro ::
    "VTInt \<Rightarrow> VTInt \<Rightarrow> VTInt \<Rightarrow> 'x AdaptDispatch \<Rightarrow> ('x AdaptDispatch, nat, 'h macro_handler option) reply" where
  "ad_DefineMacro macroId deleteControl encoding d =
     (let mb = (if ad_hasMacroBuffer d then ad_macroBuffer d else mb_new);
          (ok, mb') = mb_InitParser (size_of_VTInt macroId) deleteControl encoding mb
      in Reply (d\<lparr>ad_hasMacroBuffer := True, ad_macroBuffer := mb'\<rparr>) []
           (Some (if ok then Some MacroData else None)))"

definition ad_InvokeMacro :: "VTInt \<Rightarrow> 'x AdaptDispatch \<Rightarrow> ('x AdaptDispatch, nat, unit) reply" where
  "ad_InvokeMacro macroId d =
     Reply d (if ad_hasMacroBuffer d then [OnCsiComplete (size_of_VTInt macroId)] else []) (Some ())"

definition ad_lift :: "'x AdaptDispatch \<Rightarrow> ('x, nat, 'r) reply \<Rightarrow> ('x AdaptDispatch, nat, 'r) reply" where
  "ad_lift d r = Reply (d\<lparr>ad_rest := reply_engine r\<rparr>) (reply_requests r) (reply_result r)"

text \<open>
  \<open>InvokeMacro\<close> is called with one number and \<open>DefineMacro\<close> with three, see \<open>csi_table_area\<close> and
  \<open>dcs_table\<close>.
\<close>

definition arg_num :: "dispatch_arg list \<Rightarrow> nat \<Rightarrow> VTInt" where
  "arg_num args i = (case args ! i of Num n \<Rightarrow> n | _ \<Rightarrow> 0)"

definition ad_call ::
    "('x, 'h) other_dispatch \<Rightarrow> dispatch_call \<Rightarrow> bool \<Rightarrow> 'x AdaptDispatch \<Rightarrow> ('x AdaptDispatch, nat, unit) reply" where
  "ad_call od c b d =
     (if fst c = ''InvokeMacro'' then ad_InvokeMacro (arg_num (snd c) 0) d
      else ad_lift d (od_call od c b (ad_rest d)))"

definition ad_handler ::
    "('x, 'h) other_dispatch \<Rightarrow> dispatch_call \<Rightarrow> bool \<Rightarrow> 'x AdaptDispatch \<Rightarrow>
     ('x AdaptDispatch, nat, 'h macro_handler option) reply" where
  "ad_handler od c b d =
     (if fst c = ''DefineMacro''
      then ad_DefineMacro (arg_num (snd c) 0) (arg_num (snd c) 1) (arg_num (snd c) 2) d
      else (case od_handler od c b (ad_rest d) of
              Reply x rs r \<Rightarrow> Reply (d\<lparr>ad_rest := x\<rparr>) rs (map_option (map_option OtherData) r)))"

text \<open>The handler lambda of \<open>DefineMacro\<close> and the handlers of the other methods.\<close>

fun ad_run ::
    "('x, 'h) other_dispatch \<Rightarrow> 'h macro_handler \<Rightarrow> wchar \<Rightarrow> bool \<Rightarrow> 'x AdaptDispatch \<Rightarrow>
     ('x AdaptDispatch, nat, bool) reply" where
  "ad_run od MacroData ch b d =
     (let (ok, mb) = mb_ParseDefinition (2 ^ 64) ch (ad_macroBuffer d)
      in Reply (d\<lparr>ad_macroBuffer := mb\<rparr>) [] (Some ok))"
| "ad_run od (OtherData h) ch b d =
     (let (x, rs, ok) = od_run od h ch b (ad_rest d) in Reply (d\<lparr>ad_rest := x\<rparr>) rs (Some ok))"

definition macro_td ::
    "('x, 'h) other_dispatch \<Rightarrow> ('x AdaptDispatch, 'h macro_handler, nat) term_dispatch" where
  "macro_td od = \<lparr>td_call = ad_call od, td_handler = ad_handler od, td_run = ad_run od\<rparr>"

lemma macro_td_sel [simp]:
  "td_call (macro_td od) = ad_call od" "td_handler (macro_td od) = ad_handler od"
  "td_run (macro_td od) = ad_run od"
  by (simp_all add: macro_td_def)

subsection \<open>Invocation through the parser\<close>

type_synonym ('x, 'h) terminal = "('x AdaptDispatch OutputEngine, 'h macro_handler, nat) StateMachine"

definition sm_macros :: "('x, 'h) terminal \<Rightarrow> MacroBuffer" where
  "sm_macros sm = ad_macroBuffer (oe_dispatch (sm_engine sm))"

definition sm_update_dispatch ::
    "('x AdaptDispatch \<Rightarrow> 'x AdaptDispatch) \<Rightarrow> ('x, 'h) terminal \<Rightarrow> ('x, 'h) terminal" where
  "sm_update_dispatch f sm = sm\<lparr>sm_engine := (sm_engine sm)\<lparr>oe_dispatch := f (oe_dispatch (sm_engine sm))\<rparr>\<rparr>"

definition sm_put_macros :: "MacroBuffer \<Rightarrow> ('x, 'h) terminal \<Rightarrow> ('x, 'h) terminal" where
  "sm_put_macros mb = sm_update_dispatch (\<lambda>d. d\<lparr>ad_macroBuffer := mb\<rparr>)"

text \<open>
  The callback \<open>InvokeMacro\<close> registers. It captures a pointer to the macro memory, so it does nothing
  where there is none.
\<close>

primrec macro_callback ::
    "osc_env \<Rightarrow> ('x, 'h) other_dispatch \<Rightarrow> nat \<Rightarrow> nat \<Rightarrow> ('x, 'h) terminal \<Rightarrow> ('x, 'h) terminal" where
  "macro_callback oenv od 0 = (\<lambda>macroId. sm_update_dispatch (\<lambda>d. d\<lparr>ad_exhausted := True\<rparr>))"
| "macro_callback oenv od (Suc n) =
     (\<lambda>macroId sm.
        if \<not> ad_hasMacroBuffer (oe_dispatch (sm_engine sm)) then sm
        else
        (let (mb, sm') = mb_InvokeMacro
               (\<lambda>macroSequence (mb, sm).
                  (let sm1 = sm_ProcessString (oe_env oenv (macro_td od) (macro_callback oenv od n))
                               macroSequence (sm_put_macros mb sm)
                   in (sm_macros sm1, sm1))) macroId (sm_macros sm, sm)
         in sm_put_macros mb sm'))"

definition macro_env ::
    "osc_env \<Rightarrow> ('x, 'h) other_dispatch \<Rightarrow> nat \<Rightarrow> ('x AdaptDispatch OutputEngine, 'h macro_handler, nat) vt_env" where
  "macro_env oenv od n = oe_env oenv (macro_td od) (macro_callback oenv od n)"

text \<open>A terminal just started.\<close>

definition terminal_new :: "'x \<Rightarrow> ('x, 'h) terminal" where
  "terminal_new x =
     sm_new \<lparr>oe_dispatch = \<lparr>ad_hasMacroBuffer = False, ad_macroBuffer = mb_new, ad_exhausted = False,
                            ad_rest = x\<rparr>,
             oe_lastPrintedChar = NUL\<rparr> False"

subsection \<open>The parser's contract\<close>

lemma oe_env_passthrough: "reply_result (env_action (oe_env oenv td cb) (ActionPassThroughString s) b e) = Some True"
  by (simp add: oe_env_def oe_ActionPassThroughString_def)

lemma macro_env_callback: "env_callback (macro_env oenv od n) = macro_callback oenv od n"
  by (simp add: macro_env_def oe_env_def)

lemma macro_env_passthrough:
  "reply_result (env_action (macro_env oenv od n) (ActionPassThroughString s) b e) = Some True"
  unfolding macro_env_def by (rule oe_env_passthrough)

lemma macro_env_handler: "reply_result (env_handler (macro_env oenv od n) h wch b e) \<noteq> None"
  by (cases h) (simp_all add: macro_env_def oe_env_def macro_td_def lift_reply_def split_beta Let_def)

lemma put_macros_fields [simp]:
  "sm_state (sm_put_macros mb sm) = sm_state sm"
  "sm_isEngineForInput (sm_put_macros mb sm) = sm_isEngineForInput sm"
  "sm_inv (sm_put_macros mb sm) = sm_inv sm"
  "sm_macros (sm_put_macros mb sm) = mb"
  by (simp_all add: sm_put_macros_def sm_update_dispatch_def sm_inv_def sm_core_def params_ok_def
      ranges_ok_def sm_macros_def)

lemma update_dispatch_fields [simp]:
  "sm_isEngineForInput (sm_update_dispatch f sm) = sm_isEngineForInput sm"
  "sm_inv (sm_update_dispatch f sm) = sm_inv sm"
  by (simp_all add: sm_update_dispatch_def sm_inv_def sm_core_def params_ok_def ranges_ok_def)

text \<open>\<open>InvokeMacro\<close> only runs its \<open>process\<close> argument, on the state it was given.\<close>

lemma InvokeMacro_cases:
  "snd (mb_InvokeMacro process i (mb, st)) = st \<or>
   (\<exists>s mb1. snd (mb_InvokeMacro process i (mb, st)) = snd (process s (mb1, st)))"
  by (auto simp: mb_InvokeMacro_def Let_def split_beta)

lemma macro_vt_engine: "vt_engine (macro_env oenv od n)"
proof (induction n)
  case 0
  show ?case
  proof
    show "env_stack (macro_env oenv od 0) \<noteq> 0" by (simp add: macro_env_def oe_env_def)
    show "sm_inv sm \<Longrightarrow> sm_state sm = Ground \<Longrightarrow> sm_inv (env_callback (macro_env oenv od 0) k sm)"
      and "sm_isEngineForInput (env_callback (macro_env oenv od 0) k sm) = sm_isEngineForInput sm" for k sm
      by (simp_all add: macro_env_def oe_env_def)
  qed (simp_all add: macro_env_handler macro_env_passthrough)
next
  case (Suc n)
  define run where "run = (\<lambda>s (mb, sm). (let sm1 = sm_ProcessString (macro_env oenv od n) s (sm_put_macros mb sm)
    in (sm_macros sm1, sm1)))"
  have cb: "env_callback (macro_env oenv od (Suc n)) k sm =
      (if \<not> ad_hasMacroBuffer (oe_dispatch (sm_engine sm)) then sm else sm_put_macros (fst (mb_InvokeMacro run k (sm_macros sm, sm))) (snd (mb_InvokeMacro run k (sm_macros sm, sm))))"
    for k sm
    by (simp add: macro_env_def oe_env_def run_def split_beta Let_def)
  have run: "snd (run s (mb, sm)) = sm_ProcessString (macro_env oenv od n) s (sm_put_macros mb sm)" for s mb sm
    by (simp add: run_def Let_def)
  show ?case
  proof
    show "env_stack (macro_env oenv od (Suc n)) \<noteq> 0" by (simp add: macro_env_def oe_env_def)
    fix k sm
    show "sm_isEngineForInput (env_callback (macro_env oenv od (Suc n)) k sm) = sm_isEngineForInput sm"
      using InvokeMacro_cases [of run k "sm_macros sm" sm]
      by (auto simp: cb run vt_engine.ProcessString_role [OF Suc])
    assume "sm_inv sm" "sm_state sm = Ground"
    then have "sm_inv (sm_ProcessString (macro_env oenv od n) s (sm_put_macros mb sm))" for s mb
      by (intro vt_engine.ProcessString_inv [OF Suc]) simp_all
    then show "sm_inv (env_callback (macro_env oenv od (Suc n)) k sm)"
      using InvokeMacro_cases [of run k "sm_macros sm" sm] \<open>sm_inv sm\<close> by (auto simp: cb run)
  qed (simp_all add: macro_env_handler macro_env_passthrough)
qed

interpretation macro: vt_engine "macro_env oenv od n" for oenv od n
  by (rule macro_vt_engine)

subsection \<open>The depth of invocations\<close>

text \<open>Defining a macro does not touch the bookkeeping of invocations.\<close>

definition same_depth :: "MacroBuffer \<Rightarrow> MacroBuffer \<Rightarrow> bool" where
  "same_depth a b \<longleftrightarrow> mb_invokedDepth a = mb_invokedDepth b \<and>
     mb_invokedSequenceLength a = mb_invokedSequenceLength b"

lemma deleteMacro_depth [simp]:
  "mb_invokedSequenceLength (mb_deleteMacro i mb) = mb_invokedSequenceLength mb"
  by (simp add: mb_deleteMacro_def)

lemma deleteAll_depth [simp]:
  "mb_invokedSequenceLength (fold mb_deleteMacro is mb) = mb_invokedSequenceLength mb"
  by (induction "is" arbitrary: mb) simp_all

lemma setActive_depth [simp]:
  "mb_invokedSequenceLength (mb_setActive m mb) = mb_invokedSequenceLength mb"
  by (simp add: mb_setActive_def)

lemma InitParser_depth: "same_depth (snd (mb_InitParser i d e mb)) mb"
  by (simp add: mb_InitParser_def same_depth_def Let_def mb_deleteActive_def)

lemma repeatLoop_depth: "same_depth (mb_repeatLoop n len mb) mb"
  by (induction n arbitrary: mb) (simp_all add: same_depth_def Let_def)

lemma applyPendingRepeat_depth: "same_depth (snd (mb_applyPendingRepeat M mb)) mb"
  using repeatLoop_depth [of _ _ mb] by (simp add: mb_applyPendingRepeat_def same_depth_def Let_def)

lemma decodeHexDigit_depth: "same_depth (snd (mb_decodeHexDigit ch mb)) mb"
  by (simp add: mb_decodeHexDigit_def same_depth_def Let_def)

lemma append_depth: "same_depth (snd (mb_appendToActiveMacro ch mb)) mb"
  by (simp add: mb_appendToActiveMacro_def same_depth_def)

lemma parseChar_depth: "same_depth (snd (mb_parseChar M ch mb)) mb"
  using decodeHexDigit_depth [of ch mb] append_depth [of ch mb]
    append_depth [of "mb_decodedChar (snd (mb_decodeHexDigit ch mb))" "snd (mb_decodeHexDigit ch mb)"]
    applyPendingRepeat_depth [of M "snd (mb_decodeHexDigit ch mb)"]
  by (cases "mb_parseState mb") (auto simp: mb_parseChar_def same_depth_def split_beta Let_def)

lemma ParseDefinition_depth: "same_depth (snd (mb_ParseDefinition M ch mb)) mb"
  using parseChar_depth [of M ch mb] applyPendingRepeat_depth [of M mb]
  by (simp add: mb_ParseDefinition_def same_depth_def split_beta Let_def mb_deleteActive_def)

text \<open>The invariant of the dispatch at a fixed depth.\<close>

definition ad_ok :: "nat \<Rightarrow> 'x AdaptDispatch \<Rightarrow> bool" where
  "ad_ok depth d \<longleftrightarrow> \<not> ad_exhausted d \<and> mb_depth_ok (ad_macroBuffer d) \<and>
     mb_invokedDepth (ad_macroBuffer d) = depth \<and> (\<not> ad_hasMacroBuffer d \<longrightarrow> depth = 0)"

definition oe_ok :: "nat \<Rightarrow> 'x AdaptDispatch OutputEngine \<Rightarrow> bool" where
  "oe_ok depth e \<longleftrightarrow> ad_ok depth (oe_dispatch e)"

lemma depth_ok_same: "same_depth a b \<Longrightarrow> mb_depth_ok a = mb_depth_ok b"
  by (simp add: same_depth_def mb_depth_ok_def)

lemma ad_call_ok: "ad_ok n d \<Longrightarrow> ad_ok n (reply_engine (ad_call od c b d))"
  by (simp add: ad_call_def ad_ok_def ad_lift_def ad_InvokeMacro_def)

lemma ad_DefineMacro_ok: "ad_ok n d \<Longrightarrow> ad_ok n (reply_engine (ad_DefineMacro i dc e d))"
proof -
  assume ok: "ad_ok n d"
  define mb where "mb = (if ad_hasMacroBuffer d then ad_macroBuffer d else mb_new)"
  have "mb_depth_ok mb" "mb_invokedDepth mb = n"
    using ok by (auto simp: mb_def ad_ok_def mb_depth_ok_def mb_new_def MAX_SPACE_def)
  then have "mb_depth_ok (snd (mb_InitParser (size_of_VTInt i) dc e mb))"
    "mb_invokedDepth (snd (mb_InitParser (size_of_VTInt i) dc e mb)) = n"
    using InitParser_depth [of "size_of_VTInt i" dc e mb] depth_ok_same by (auto simp: same_depth_def)
  with ok show ?thesis
    by (simp add: ad_DefineMacro_def mb_def [symmetric] ad_ok_def split_beta Let_def)
qed

lemma ad_handler_ok: "ad_ok n d \<Longrightarrow> ad_ok n (reply_engine (ad_handler od c b d))"
  by (cases "fst c = ''DefineMacro''"; cases "od_handler od c b (ad_rest d)")
    (simp_all add: ad_handler_def ad_DefineMacro_ok, simp add: ad_ok_def)

lemma ad_run_ok:
  assumes "ad_ok n d"
  shows "ad_ok n (reply_engine (ad_run od h ch b d))"
proof (cases h)
  case MacroData
  have same: "same_depth (snd (mb_ParseDefinition M ch (ad_macroBuffer d))) (ad_macroBuffer d)" for M
    by (rule ParseDefinition_depth)
  with assms depth_ok_same [OF same] show ?thesis
    unfolding MacroData ad_run.simps by (simp add: ad_ok_def split_beta Let_def same_depth_def)
next
  case (OtherData x)
  with assms show ?thesis by (simp add: ad_ok_def split_beta Let_def)
qed

lemma eng_calls_ok: "oe_ok n e \<Longrightarrow> oe_ok n (reply_engine (eng_calls (macro_td od) b cs e))"
proof (induction cs arbitrary: e)
  case (Cons c cs)
  obtain d rs r where r: "ad_call od c b (oe_dispatch e) = Reply d rs r" by (cases "ad_call od c b (oe_dispatch e)")
  have "oe_ok n (e\<lparr>oe_dispatch := d\<rparr>)"
    using ad_call_ok [of n "oe_dispatch e" od c b] Cons.prems by (simp add: oe_ok_def r)
  with Cons.IH [of "e\<lparr>oe_dispatch := d\<rparr>"] show ?case
    by (auto simp: macro_td_def r split: option.split reply.split)
qed simp

lemma eng_finish_ok: "oe_ok n e \<Longrightarrow> oe_ok n (reply_engine (eng_finish (macro_td od) b cs e))"
  using eng_calls_ok [of n e od b cs]
  by (auto simp: eng_finish_def oe_ok_def oe_ClearLastChar_def split: reply.split option.split)

lemma oe_stash_ok: "oe_ok n e \<Longrightarrow> oe_ok n (oe_stash ch e)"
  by (simp add: oe_stash_def oe_ok_def)

lemma oe_action_ok: "oe_ok n e \<Longrightarrow> oe_ok n (reply_engine (oe_action oenv (macro_td od) c b e))"
  using eng_calls_ok [OF oe_stash_ok, of n e od b] eng_finish_ok [of n e od b]
  by (cases c)
    (simp_all add: oe_ActionExecute_def oe_ActionExecuteFromEscape_def oe_ActionPrint_def
      oe_ActionPrintString_def oe_ActionPassThroughString_def oe_ActionEscDispatch_def
      oe_ActionVt52EscDispatch_def oe_ActionCsiDispatch_def oe_ActionOscDispatch_def
      oe_ActionSs3Dispatch_def eng_true_def del: eng_calls.simps)

lemma oe_dcs_ok: "oe_ok n e \<Longrightarrow> oe_ok n (reply_engine (oe_ActionDcsDispatch (macro_td od) i ps b e))"
  using ad_handler_ok [of n "oe_dispatch e" od] eng_calls_ok [of n e od b]
  by (auto simp: oe_ActionDcsDispatch_def lift_reply_def oe_ok_def oe_ClearLastChar_def
      simp del: eng_calls.simps split: reply.split option.split) (metis reply.sel(1))+

lemma oe_env_ok:
  "oe_ok n e \<Longrightarrow> oe_ok n (reply_engine (env_action (macro_env oenv od k) c b e))"
  "oe_ok n e \<Longrightarrow> oe_ok n (reply_engine (env_dcs (macro_env oenv od k) i ps b e))"
  "oe_ok n e \<Longrightarrow> oe_ok n (reply_engine (env_handler (macro_env oenv od k) h wch b e))"
  "oe_ok n e \<Longrightarrow> oe_ok n (reply_engine (env_unknown (macro_env oenv od k) b e))"
proof -
  assume ok: "oe_ok n e"
  show "oe_ok n (reply_engine (env_action (macro_env oenv od k) c b e))"
    using oe_action_ok [OF ok] by (simp add: macro_env_def oe_env_def)
  show "oe_ok n (reply_engine (env_dcs (macro_env oenv od k) i ps b e))"
    using oe_dcs_ok [OF ok] by (simp add: macro_env_def oe_env_def)
  show "oe_ok n (reply_engine (env_handler (macro_env oenv od k) h wch b e))"
    using ad_run_ok [of n "oe_dispatch e" od h wch b] ok
    by (simp add: macro_env_def oe_env_def lift_reply_def macro_td_def oe_ok_def)
  show "oe_ok n (reply_engine (env_unknown (macro_env oenv od k) b e))"
    using eng_calls_ok [OF ok]
    by (simp add: macro_env_def oe_env_def oe_UnknownSequence_def del: eng_calls.simps)
qed

text \<open>
  With enough levels the callback keeps the invariant: it runs the macro one level deeper, where
  one level less is still enough.
\<close>

lemma InvokeMacro_ok:
  assumes "mb_depth_ok (sm_macros sm)" "mb_invokedDepth (sm_macros sm) = depth"
    and "oe_ok depth (sm_engine sm)" "ad_hasMacroBuffer (oe_dispatch (sm_engine sm))"
    and IH: "\<And>sm s. oe_ok (depth + 1) (sm_engine sm) \<Longrightarrow> oe_ok (depth + 1) (sm_engine (process s sm))"
  defines "run \<equiv> \<lambda>s (mb, sm). let sm1 = process s (sm_put_macros mb sm) in (sm_macros sm1, sm1)"
  shows "oe_ok depth (sm_engine (let (mb, sm') = mb_InvokeMacro run i (sm_macros sm, sm)
    in sm_put_macros mb sm'))"
proof (cases "i < length (mb_macros (sm_macros sm)) \<and> depth < 16 \<and>
    length (mb_macros (sm_macros sm) ! i) < MAX_SPACE - mb_invokedSequenceLength (sm_macros sm)")
  case True
  define s where "s = mb_macros (sm_macros sm) ! i"
  define mb1 where "mb1 = (sm_macros sm)\<lparr>mb_invokedSequenceLength := mb_invokedSequenceLength (sm_macros sm) + length s,
    mb_invokedDepth := mb_invokedDepth (sm_macros sm) + 1\<rparr>"
  define sm1 where "sm1 = process s (sm_put_macros mb1 sm)"
  have "mb_depth_ok mb1" "mb_invokedDepth mb1 = depth + 1"
    using True assms(1,2) by (auto simp: mb1_def s_def mb_depth_ok_def)
  then have "oe_ok (depth + 1) (sm_engine (sm_put_macros mb1 sm))"
    using assms(3,4) by (simp add: oe_ok_def ad_ok_def sm_put_macros_def sm_update_dispatch_def)
  then have sm1: "oe_ok (depth + 1) (sm_engine sm1)" unfolding sm1_def by (rule IH)
  define mb3 where "mb3 = (sm_macros sm1)\<lparr>mb_invokedDepth := mb_invokedDepth (sm_macros sm1) - 1\<rparr>"
  have "mb_InvokeMacro run i (sm_macros sm, sm) =
      (if mb_invokedDepth mb3 = 0 then mb3\<lparr>mb_invokedSequenceLength := 0\<rparr> else mb3, sm1)"
    using True assms(2) unfolding s_def sm1_def mb3_def mb1_def by (simp add: mb_InvokeMacro_def run_def Let_def)
  with sm1 show ?thesis
    by (auto simp: oe_ok_def ad_ok_def sm_put_macros_def sm_update_dispatch_def mb3_def sm_macros_def
        mb_depth_ok_def MAX_SPACE_def)
next
  case False
  then have "mb_InvokeMacro run i (sm_macros sm, sm) = (sm_macros sm, sm)"
    using assms(2) by (auto simp: mb_InvokeMacro_def Let_def)
  with assms(3) show ?thesis
    by (simp add: oe_ok_def ad_ok_def sm_put_macros_def sm_update_dispatch_def sm_macros_def)
qed

lemma macro_engine_invariant:
  fixes od :: "('x, 'h) other_dispatch"
  shows "17 \<le> n + depth \<Longrightarrow> engine_invariant (macro_env oenv od n) (oe_ok depth)"
proof (induction n arbitrary: depth)
  case 0
  have "\<not> oe_ok depth (e :: 'x AdaptDispatch OutputEngine)" for e
    using 0 by (auto simp: oe_ok_def ad_ok_def mb_depth_ok_def)
  then show ?case by unfold_locales simp_all
next
  case (Suc n)
  have "engine_invariant (macro_env oenv od n) (oe_ok (depth + 1))" using Suc by simp
  then have IH: "oe_ok (depth + 1) (sm_engine sm) \<Longrightarrow>
      oe_ok (depth + 1) (sm_engine (sm_ProcessString (macro_env oenv od n) s sm))" for sm s
    by (rule engine_invariant.ProcessString_I)
  show ?case
  proof
    fix sm :: "('x, 'h) terminal" and k assume ok: "oe_ok depth (sm_engine sm)"
    then have "mb_depth_ok (sm_macros sm)" "mb_invokedDepth (sm_macros sm) = depth"
      by (simp_all add: oe_ok_def ad_ok_def sm_macros_def)
    then show "oe_ok depth (sm_engine (env_callback (macro_env oenv od (Suc n)) k sm))"
      using InvokeMacro_ok [of sm depth "sm_ProcessString (macro_env oenv od n)", OF _ _ ok _ IH] ok
      unfolding macro_env_callback by (simp add: macro_env_def)
  qed (fact oe_env_ok)+
qed

interpretation macro_depth: engine_invariant "macro_env oenv od 17" "oe_ok 0" for oenv od
  by (rule macro_engine_invariant) simp

lemma terminal_new_ok: "oe_ok 0 (sm_engine (terminal_new x))" "sm_inv (terminal_new x)"
  "\<not> sm_isEngineForInput (terminal_new x)"
  by (simp_all add: terminal_new_def sm_new_inv) (simp_all add: sm_new_def sm_ActionClear_def
      sm_SetParserMode_def oe_ok_def ad_ok_def mb_depth_ok_def mb_new_def MAX_SPACE_def)

subsection \<open>Properties\<close>

text \<open>
  C26. The mutual recursion between the parser and the macro memory terminates: whatever text the
  terminal receives and whatever macros are defined, also ones that invoke themselves, nested DECINVM
  invocations never go deeper than 16 (17 levels of the cut-off are never exhausted), the depth is
  back at its starting value 0 and the counter of invoked text at 0 when \<open>ProcessString\<close> returns, and
  the parser's invariant holds.
\<close>

theorem macro_recursion_bounded:
  fixes sm :: "('x, 'h) terminal" and od :: "('x, 'h) other_dispatch" and oenv :: osc_env
    and string :: wstring
  assumes "sm_inv sm" "\<not> sm_isEngineForInput sm" "oe_ok 0 (sm_engine sm)"
  defines "sm' \<equiv> sm_ProcessString (macro_env oenv od 17) string sm"
  shows "\<not> ad_exhausted (oe_dispatch (sm_engine sm')) \<and> mb_invokedDepth (sm_macros sm') = 0 \<and>
    mb_invokedSequenceLength (sm_macros sm') = 0 \<and> sm_inv sm'"
proof -
  have "oe_ok 0 (sm_engine sm')" unfolding sm'_def by (rule macro_depth.ProcessString_I) (rule assms)
  moreover have "sm_inv sm'"
    unfolding sm'_def by (rule macro.ProcessString_inv) (use assms in simp_all)
  ultimately show ?thesis
    by (auto simp: oe_ok_def ad_ok_def mb_depth_ok_def sm_macros_def)
qed

theorem macro_recursion_bounded_witness:
  "mb_invokedDepth (sm_macros (sm_ProcessString
     (macro_env \<lparr>osc_color = (\<lambda>s. None), osc_u8u16 = (\<lambda>s. None)\<rparr>
       (\<lparr>od_call = (\<lambda>c b x. Reply x [] (Some ())), od_handler = (\<lambda>c b x. Reply x [] (Some None)),
         od_run = (\<lambda>h wch b x. (x, [], True))\<rparr> :: (unit, unit) other_dispatch) 17)
     [ESC, 0x5B, 0x2A, 0x7A] (terminal_new ()))) = 0"
  by (rule macro_recursion_bounded [OF terminal_new_ok(2,3,1), THEN conjunct2, THEN conjunct1])

text \<open>
  C2. Safety of the parser behind a terminal's output: whatever strings are processed from the start,
  in whatever pieces and with whatever macros, the parser never reads the back of an empty vector,
  calls an empty string handler or recurses without end (no fault of the model), it collects at most
  32 parameters, all within the allowed range, and the sub-parameter ranges partition the
  sub-parameters while a sequence is collected.
\<close>

theorem terminal_parser_safe:
  fixes x :: 'x and od :: "('x, 'h) other_dispatch" and oenv :: osc_env and strings :: "wstring list"
  defines "sm \<equiv> fold (sm_ProcessString (macro_env oenv od 17)) strings (terminal_new x)"
  shows "sm_fault sm = None \<and> length (sm_parameters sm) \<le> MAX_PARAMETER_COUNT \<and>
    list_all param_ok (sm_parameters sm @ sm_subParameters sm) \<and>
    (if collecting (sm_state sm)
     then ranges_from 0 (sm_subParameterRanges sm) (length (sm_subParameters sm)) \<and>
       length (sm_subParameterRanges sm) = length (sm_parameters sm) else True)"
proof -
  have "sm_inv (fold (sm_ProcessString (macro_env oenv od 17)) strings s) \<and>
      \<not> sm_isEngineForInput (fold (sm_ProcessString (macro_env oenv od 17)) strings s)"
    if "sm_inv s" "\<not> sm_isEngineForInput s" for s :: "('x, 'h) terminal"
    using that
  proof (induction strings arbitrary: s)
    case (Cons string strings)
    have "sm_inv (sm_ProcessString (macro_env oenv od 17) string s)"
      using Cons.prems by (intro macro.ProcessString_inv) simp_all
    with Cons.IH [of "sm_ProcessString (macro_env oenv od 17) string s"] Cons.prems show ?case
      by (simp add: macro.ProcessString_role)
  qed simp
  from this [OF terminal_new_ok(2,3)] have "sm_inv sm" by (simp add: sm_def)
  then show ?thesis by (simp add: sm_inv_def sm_core_def params_ok_def ranges_ok_def)
qed

end
