(* ===== verification/Terminal_Stream.thy ===== *)
theory Terminal_Stream
  imports Vt_Stream Macro_Dispatch
begin

text \<open>
  The terminal of \<open>Macro_Dispatch\<close> as a stream processor: what the parser and the output engine ask
  the terminal to do does not depend on the pieces in which the application's output arrives, also
  when macros are defined and invoked. The locale \<open>piecewise_dispatch\<close> is what the implementation
  behind \<open>ITermDispatch\<close> has to promise for this. \<open>transcript_dispatch\<close> provides it: it writes down
  every call in order, a printed text character by character, and answers by any policy that depends
  on what was written down so far.
\<close>

subsection \<open>The promise of the dispatch\<close>

locale piecewise_dispatch =
  fixes od :: "('x, 'h) other_dispatch"
  assumes call_hint: "od_call od c b x = od_call od c False x"
    and handler_hint: "od_handler od c b x = od_handler od c False x"
    and run_hint: "od_run od h wch b x = od_run od h wch False x"
    and print_returns: "reply_requests (od_call od (''PrintString'', [Str s]) False x) = []"
      "reply_result (od_call od (''PrintString'', [Str s]) False x) = Some ()"
    and print_text: "reply_engine (od_call od (''PrintString'', [Str (s @ t)]) False x) =
      reply_engine (od_call od (''PrintString'', [Str t]) False
        (reply_engine (od_call od (''PrintString'', [Str s]) False x)))"
begin

lemma ad_call_hint: "ad_call od c b d = ad_call od c False d"
  using call_hint [of c b "ad_rest d"] by (simp add: ad_call_def)

lemma eng_calls_hint: "eng_calls (macro_td od) b cs e = eng_calls (macro_td od) False cs e"
proof (induction cs arbitrary: e)
  case (Cons c cs)
  have "ad_call od c b (oe_dispatch e) = ad_call od c False (oe_dispatch e)" by (rule ad_call_hint)
  with Cons.IH show ?case by (auto split: reply.split option.split)
qed simp

lemma eng_finish_hint: "eng_finish (macro_td od) b cs e = eng_finish (macro_td od) False cs e"
  using eng_calls_hint [of b cs e] by (simp add: eng_finish_def)

lemma action_hint:
  "oe_action oenv (macro_td od) c b e = oe_action oenv (macro_td od) c False e"
  using eng_calls_hint [of b] eng_finish_hint [of b _ e]
  by (cases c)
    (simp_all add: oe_ActionExecute_def oe_ActionExecuteFromEscape_def oe_ActionPrint_def
      oe_ActionPrintString_def oe_ActionPassThroughString_def oe_ActionEscDispatch_def
      oe_ActionVt52EscDispatch_def oe_ActionCsiDispatch_def oe_ActionOscDispatch_def
      oe_ActionSs3Dispatch_def eng_true_def del: eng_calls.simps)

lemma dcs_hint: "oe_ActionDcsDispatch (macro_td od) i ps b e = oe_ActionDcsDispatch (macro_td od) i ps False e"
proof -
  have "ad_handler od c b d = ad_handler od c False d" for c d
    using handler_hint [of c b "ad_rest d"] by (simp add: ad_handler_def)
  with eng_calls_hint [of b "[(''UnknownSequence'', [])]" e] show ?thesis
    unfolding oe_ActionDcsDispatch_def macro_td_sel by (simp del: eng_calls.simps split: option.split)
qed

lemma ad_run_hint: "ad_run od h wch b d = ad_run od h wch False d"
  using run_hint [of _ wch b "ad_rest d"] by (cases h) simp_all

lemma print_engine:
  "s \<noteq> [] \<Longrightarrow> oe_action oenv (macro_td od) (ActionPrintString s) False e =
     Reply ((oe_stash (last s) e)\<lparr>oe_dispatch := (oe_dispatch e)\<lparr>ad_rest :=
       reply_engine (od_call od (''PrintString'', [Str s]) False (ad_rest (oe_dispatch e)))\<rparr>\<rparr>) [] (Some True)"
  using print_returns [of s "ad_rest (oe_dispatch e)"]
  by (cases "od_call od (''PrintString'', [Str s]) False (ad_rest (oe_dispatch e))")
    (simp add: oe_ActionPrintString_def eng_true_def ad_call_def ad_lift_def oe_stash_def)

end

subsection \<open>The terminal\<close>

lemma obs_put_macros [simp]: "sm_obs (sm_put_macros mb sm) = sm_put_macros mb (sm_obs sm)"
  by (simp add: sm_put_macros_def sm_update_dispatch_def)

lemma obs_macros: "sm_macros (sm_obs sm) = sm_macros sm"
  by (simp add: sm_macros_def)

text \<open>An invocation of a macro respects \<open>sm_obs\<close> when processing its text does.\<close>

lemma InvokeMacro_obs:
  fixes process :: "wstring \<Rightarrow> ('x, 'h) terminal \<Rightarrow> ('x, 'h) terminal"
  assumes "\<And>s mb. sm_obs (process s (sm_put_macros mb (sm_obs sm))) = sm_obs (process s (sm_put_macros mb sm))"
  defines "run \<equiv> \<lambda>s (mb, sm). let sm1 = process s (sm_put_macros mb sm) in (sm_macros sm1, sm1)"
  shows "sm_obs (let (mb, sm') = mb_InvokeMacro run i (sm_macros sm, sm_obs sm) in sm_put_macros mb sm') =
    sm_obs (let (mb, sm') = mb_InvokeMacro run i (sm_macros sm, sm) in sm_put_macros mb sm')"
proof -
  have "sm_macros (process s (sm_put_macros mb (sm_obs sm))) = sm_macros (process s (sm_put_macros mb sm))" for s mb
    using assms(1) by (metis obs_macros)
  with assms(1) show ?thesis by (simp add: mb_InvokeMacro_def run_def Let_def split_beta)
qed

context piecewise_dispatch
begin

lemma action_accepted: "reply_result (oe_action oenv (macro_td od) c b e) \<noteq> Some False"
  by (cases c)
    (auto simp: oe_ActionExecute_def oe_ActionExecuteFromEscape_def oe_ActionPrint_def
      oe_ActionPrintString_def oe_ActionPassThroughString_def oe_ActionEscDispatch_def
      oe_ActionVt52EscDispatch_def oe_ActionCsiDispatch_def oe_ActionOscDispatch_def oe_ActionSs3Dispatch_def
      eng_true_def eng_finish_def simp del: eng_calls.simps split: reply.split option.split)

lemma graphic_not_actionable: "\<not> isActionableFromGround c \<Longrightarrow> SPC \<le> c"
  by (auto simp: isActionableFromGround_ranges word_le_nat_alt)

lemma macro_stream_callback:
  assumes "\<And>k sm. \<not> sm_isEngineForInput sm \<Longrightarrow>
    sm_obs (macro_callback oenv od n k (sm_obs sm)) = sm_obs (macro_callback oenv od n k sm)"
  shows "stream_engine (macro_env oenv od n)"
proof -
  have print: "oe_action oenv (macro_td od) (ActionPrintString (s @ t)) False e =
      oe_action oenv (macro_td od) (ActionPrintString t) False
        (reply_engine (oe_action oenv (macro_td od) (ActionPrintString s) False e))"
    if "s \<noteq> []" "t \<noteq> []" "\<forall>c \<in> set (s @ t). \<not> isActionableFromGround c" for s t e
    using that graphic_not_actionable [of "last t"] print_text [of s t "ad_rest (oe_dispatch e)"]
    by (simp add: print_engine oe_stash_def del: oe_action.simps)
  show ?thesis
  proof (intro stream_engine.intro stream_engine_axioms.intro macro_vt_engine)
    show "reply_result (env_action (macro_env oenv od n) c b e) \<noteq> Some False" for c b e
      using action_accepted by (simp add: macro_env_def oe_env_def)
    show "env_action (macro_env oenv od n) c b e = env_action (macro_env oenv od n) c False e" for c b e
      unfolding macro_env_def oe_env_def vt_env.simps by (rule action_hint)
    show "env_dcs (macro_env oenv od n) i ps b e = env_dcs (macro_env oenv od n) i ps False e" for i ps b e
      unfolding macro_env_def oe_env_def vt_env.simps by (rule dcs_hint)
    show "env_handler (macro_env oenv od n) h wch b e = env_handler (macro_env oenv od n) h wch False e" for h wch b e
      unfolding macro_env_def oe_env_def vt_env.simps macro_td_sel by (subst ad_run_hint) (rule refl)
    show "env_unknown (macro_env oenv od n) b e = env_unknown (macro_env oenv od n) False e" for b e
      unfolding macro_env_def oe_env_def vt_env.simps oe_UnknownSequence_def by (rule eng_calls_hint)
    show "sm_obs (env_callback (macro_env oenv od n) k (sm_obs sm)) =
        sm_obs (env_callback (macro_env oenv od n) k sm)" if "\<not> sm_isEngineForInput sm" for k sm
      unfolding macro_env_callback using that by (rule assms)
    show "reply_engine (env_action (macro_env oenv od n) (ActionPrintString (s @ t)) False e) =
        reply_engine (env_action (macro_env oenv od n) (ActionPrintString t) False
          (reply_engine (env_action (macro_env oenv od n) (ActionPrintString s) False e)))"
      if "s \<noteq> []" "t \<noteq> []" "\<forall>c \<in> set (s @ t). \<not> isActionableFromGround c" for s t e
      unfolding macro_env_def oe_env_def vt_env.simps using print [OF that] by simp
  qed (simp add: macro_env_def oe_env_def print_engine del: oe_action.simps)
qed

lemma macro_callback_obs:
  "\<not> sm_isEngineForInput sm \<Longrightarrow>
     sm_obs (macro_callback oenv od n k (sm_obs sm)) = sm_obs (macro_callback oenv od n k sm)"
proof (induction n arbitrary: k sm)
  case 0
  then show ?case by (simp add: sm_update_dispatch_def)
next
  case (Suc n)
  have "stream_engine (macro_env oenv od n)" by (rule macro_stream_callback) (rule Suc.IH)
  then have "sm_obs (sm_ProcessString (macro_env oenv od n) s (sm_put_macros mb (sm_obs sm))) =
      sm_obs (sm_ProcessString (macro_env oenv od n) s (sm_put_macros mb sm))" for s mb
    using stream_engine.ProcessString_obs [of "macro_env oenv od n" "sm_put_macros mb sm" s] Suc.prems by simp
  from InvokeMacro_obs [of "sm_ProcessString (macro_env oenv od n)" sm k, OF this] show ?case
    by (simp add: macro_env_def [symmetric] obs_macros)
qed

lemma macro_stream: "stream_engine (macro_env oenv od n)"
  by (rule macro_stream_callback) (rule macro_callback_obs)

end

sublocale piecewise_dispatch \<subseteq> terminal: stream_engine "macro_env oenv od n" for oenv n
  by (rule macro_stream)

subsection \<open>The transcript of a terminal\<close>

datatype transcript_event =
    Printed wchar | Called dispatch_call | Opened dispatch_call | Received wchar

record 'h transcript_policy =
  tp_call :: "transcript_event list \<Rightarrow> nat parser_request list \<times> bool"
  tp_open :: "transcript_event list \<Rightarrow> 'h option"
  tp_data :: "transcript_event list \<Rightarrow> 'h \<Rightarrow> bool"

text \<open>
  \<open>tp_call\<close> gives the requests a call makes of the parser (mode changes, injections, callbacks) and
  whether it throws; \<open>tp_open\<close> whether a device control string has a handler, \<open>tp_data\<close> whether the
  handler wants more.
\<close>

definition transcript_dispatch :: "'h transcript_policy \<Rightarrow> (transcript_event list, 'h) other_dispatch" where
  "transcript_dispatch tp =
     \<lparr>od_call = (\<lambda>(name, args) b x.
        (case args of
           [Str s] \<Rightarrow>
             if name = ''PrintString'' then Reply (x @ map Printed s) [] (Some ())
             else (let x' = x @ [Called (name, args)]; (rs, throws) = tp_call tp x'
                   in Reply x' rs (if throws then None else Some ()))
         | _ \<Rightarrow>
             (let x' = x @ [Called (name, args)]; (rs, throws) = tp_call tp x'
              in Reply x' rs (if throws then None else Some ())))),
      od_handler = (\<lambda>c b x. let x' = x @ [Opened c] in Reply x' [] (Some (tp_open tp x'))),
      od_run = (\<lambda>h wch b x. let x' = x @ [Received wch] in (x', [], tp_data tp x' h))\<rparr>"

interpretation transcript: piecewise_dispatch "transcript_dispatch tp" for tp
  by unfold_locales (simp_all add: transcript_dispatch_def split_beta)

subsection \<open>Properties\<close>

text \<open>
  C1. Chunking is irrelevant: whatever the pieces in which an application's output reaches the
  terminal, the parser ends in the same state, and has made the same calls of the terminal in the same
  order with the same text printed in between, as when all the output arrives at once. This covers
  sequences split anywhere, device control strings, and macros whose text is processed by the same
  parser in the middle of a piece.
\<close>

theorem chunking_irrelevant:
  fixes oenv :: osc_env and tp :: "'h transcript_policy" and pieces :: "wstring list"
  defines "env \<equiv> macro_env oenv (transcript_dispatch tp) 17"
  shows "sm_obs (fold (sm_ProcessString env) pieces (terminal_new [])) =
    sm_obs (sm_ProcessString env (concat pieces) (terminal_new []))"
  unfolding env_def by (rule transcript.terminal.ProcessString_concat) (rule terminal_new_ok)

end
