(* ===== verification/Vt_Parsing.thy ===== *)
theory Vt_Parsing
  imports Vt_Engine_Frame
begin

text \<open>
  What the parser makes of a control sequence. A sequence is given as data (a private marker,
  parameters with sub-parameters, intermediates and a final character), \<open>csi_text\<close> prints it, and
  the lemmas show that feeding the text to \<open>ProcessCharacter\<close> makes exactly one call of the engine,
  with the identifier the engines' tables were written with and with the parameters clamped to the
  parser's limits.
\<close>

subsection \<open>Feeding characters\<close>

definition sm_feed ::
    "('e, 'h, 'k) vt_env \<Rightarrow> wstring \<Rightarrow> ('e, 'h, 'k) StateMachine \<Rightarrow> ('e, 'h, 'k) StateMachine" where
  "sm_feed env s sm = fold (sm_ProcessCharacter env) s sm"

lemma sm_feed_simps [simp]:
  "sm_feed env [] sm = sm" "sm_feed env (c # s) sm = sm_feed env s (sm_ProcessCharacter env c sm)"
  "sm_feed env (s @ t) sm = sm_feed env t (sm_feed env s sm)"
  by (simp_all add: sm_feed_def)

text \<open>A character that is no control character goes to the event of the current state.\<close>

lemma ProcessCharacter_graphic:
  assumes "0x20 \<le> wch" "wch \<le> 0x7E"
  shows "sm_ProcessCharacter env wch sm = sm_dispatchEvent env wch sm"
  using assms
  by (subst sm_ProcessCharacter.simps) (auto simp: Let_def isC1ControlCharacter_def isEscape_def word_le_nat_alt)

subsection \<open>Character classes of the parts of a sequence\<close>

lemma class_digit:
  assumes "0x30 \<le> c" "c \<le> 0x39"
  shows "isNumericParamValue c" "\<not> isC0Code c" "\<not> isDelete c" "\<not> isIntermediate c"
    "\<not> isParameterDelimiter c" "\<not> isSubParameterDelimiter c" "0x20 \<le> c" "c \<le> 0x7E"
  using assms by (auto simp: char_class_defs word_le_nat_alt)

lemma class_delimiter:
  "isParameterDelimiter 0x3B" "\<not> isC0Code 0x3B" "\<not> isDelete 0x3B" "\<not> isIntermediate 0x3B"
  "\<not> isNumericParamValue 0x3B" "\<not> isSubParameterDelimiter 0x3B"
  "isSubParameterDelimiter 0x3A" "\<not> isC0Code 0x3A" "\<not> isDelete 0x3A" "\<not> isIntermediate 0x3A"
  "\<not> isNumericParamValue 0x3A" "\<not> isParameterDelimiter 0x3A"
  by (auto simp: char_class_defs word_le_nat_alt)

lemma class_marker:
  assumes "0x3C \<le> c" "c \<le> 0x3F"
  shows "isCsiPrivateMarker c" "\<not> isC0Code c" "\<not> isDelete c" "\<not> isIntermediate c"
    "\<not> isParameterDelimiter c" "\<not> isSubParameterDelimiter c" "\<not> isNumericParamValue c"
    "0x20 \<le> c" "c \<le> 0x7E"
proof -
  have "unat c = 60 \<or> unat c = 61 \<or> unat c = 62 \<or> unat c = 63"
    using assms by (auto simp: word_le_nat_alt)
  then have "c = 0x3C \<or> c = 0x3D \<or> c = 0x3E \<or> c = 0x3F" by (auto simp: word_unat_eq_iff)
  then show "isCsiPrivateMarker c" by (simp add: char_class_defs)
qed (use assms in \<open>auto simp: char_class_defs word_le_nat_alt\<close>)

lemma class_intermediate:
  assumes "0x20 \<le> c" "c \<le> 0x2F"
  shows "isIntermediate c" "\<not> isC0Code c" "\<not> isDelete c" "\<not> isCsiPrivateMarker c"
    "\<not> isParameterDelimiter c" "\<not> isSubParameterDelimiter c" "\<not> isNumericParamValue c"
    "0x20 \<le> c" "c \<le> 0x7E"
  using assms by (auto simp: char_class_defs word_le_nat_alt)

lemma class_final:
  assumes "0x40 \<le> c" "c \<le> 0x7E"
  shows "\<not> isIntermediate c" "\<not> isC0Code c" "\<not> isDelete c" "\<not> isCsiPrivateMarker c"
    "\<not> isParameterDelimiter c" "\<not> isSubParameterDelimiter c" "\<not> isNumericParamValue c"
    "\<not> isParameterInvalid c" "\<not> isIntermediateInvalid c" "0x20 \<le> c" "c \<le> 0x7E"
  using assms by (auto simp: char_class_defs word_le_nat_alt)

lemmas char_classes = class_digit class_delimiter class_marker class_intermediate class_final

subsection \<open>Numbers\<close>

text \<open>Reading the digits of a number clamps it at the parser's maximum.\<close>

lemma accumulate_digits:
  assumes "\<forall>d \<in> set ds. d < 10" "v \<le> 65535"
  shows "foldl (\<lambda>v c. AccumulateTo c v) (int v) (map dec_char ds) = int (min (dec_value v ds) 65535)"
  using assms
proof (induction ds arbitrary: v)
  case (Cons d ds)
  have "uint (dec_char d) = 48 + int d"
    using Cons.prems dec_char_less [of d] by (simp add: uint_nat)
  then have "AccumulateTo (dec_char d) (int v) = int (min (v * 10 + d) 65535)"
    by (auto simp: AccumulateTo_def Let_def MAX_PARAMETER_VALUE_def)
  moreover have "min (dec_value (min w k) ds) k = min (dec_value w ds) k" for w k
    using dec_value_clamp [of k "min w k" ds] dec_value_clamp [of k w ds] by simp
  ultimately show ?case
    using Cons.IH [of "min (v * 10 + d) 65535"] Cons.prems by simp
qed simp

subsection \<open>Parameters while they are collected\<close>

text \<open>
  The parser while it collects the parameters of a control sequence: everything but the fields the
  collection changes comes from \<open>sm\<close>.
\<close>

definition csi_state ::
    "('e, 'h, 'k) StateMachine \<Rightarrow> VTStates \<Rightarrow> VTParameter list \<Rightarrow> VTParameter list \<Rightarrow>
     (byte \<times> byte) list \<Rightarrow> byte \<Rightarrow> ('e, 'h, 'k) StateMachine" where
  "csi_state sm st ps subs rs k =
     sm\<lparr>sm_state := st, sm_parameters := ps, sm_subParameters := subs, sm_subParameterRanges := rs,
        sm_subParameterCounter := k, sm_parameterLimitOverflowed := False,
        sm_subParameterLimitOverflowed := False\<rparr>"

lemma csi_state_sel [simp]:
  "sm_state (csi_state sm st ps subs rs k) = st"
  "sm_parameters (csi_state sm st ps subs rs k) = ps"
  "sm_subParameters (csi_state sm st ps subs rs k) = subs"
  "sm_subParameterRanges (csi_state sm st ps subs rs k) = rs"
  "sm_subParameterCounter (csi_state sm st ps subs rs k) = k"
  "sm_identifier (csi_state sm st ps subs rs k) = sm_identifier sm"
  "\<not> sm_parameterLimitOverflowed (csi_state sm st ps subs rs k)"
  "\<not> sm_subParameterLimitOverflowed (csi_state sm st ps subs rs k)"
  by (simp_all add: csi_state_def)

lemma csi_state_upd [simp]:
  "(csi_state sm st ps subs rs k)\<lparr>sm_state := st'\<rparr> = csi_state sm st' ps subs rs k"
  "(csi_state sm st ps subs rs k)\<lparr>sm_parameters := ps'\<rparr> = csi_state sm st ps' subs rs k"
  "(csi_state sm st ps subs rs k)\<lparr>sm_subParameters := subs'\<rparr> = csi_state sm st ps subs' rs k"
  by (simp_all add: csi_state_def)

text \<open>The steps, one per kind of character.\<close>

lemma feed_param_digit:
  assumes "0x30 \<le> c" "c \<le> 0x39"
  shows "sm_ProcessCharacter env c (csi_state sm CsiParam (ps @ [p]) subs rs k) =
    csi_state sm CsiParam (ps @ [VTParameter (AccumulateTo c (VTParameter_value_or p 0))]) subs rs k"
  using class_digit [OF assms]
  by (simp add: ProcessCharacter_graphic sm_dispatchEvent_def sm_EventCsiParam_def sm_ActionParam_def
      sm_firstParam_def Let_def set_last_def)

lemma feed_sub_digit:
  assumes "0x30 \<le> c" "c \<le> 0x39" "ps \<noteq> []"
  shows "sm_ProcessCharacter env c (csi_state sm CsiSubParam ps (subs @ [p]) rs k) =
    csi_state sm CsiSubParam ps (subs @ [VTParameter (AccumulateTo c (VTParameter_value_or p 0))]) rs k"
  using class_digit [OF assms(1,2)] assms(3)
  by (simp add: ProcessCharacter_graphic sm_dispatchEvent_def sm_EventCsiSubParam_def sm_ActionSubParam_def
      sm_firstParam_def Let_def set_last_def)

lemma feed_delimiter:
  assumes "st \<in> {CsiParam, CsiSubParam}" "ps \<noteq> []" "length ps < 32"
  shows "sm_ProcessCharacter env 0x3B (csi_state sm st ps subs rs k) =
    csi_state sm CsiParam (ps @ [VTParameter_default]) subs
      (rs @ [(word_of_nat (length subs), word_of_nat (length subs))]) 0"
  using assms class_delimiter
  by (auto simp: ProcessCharacter_graphic sm_dispatchEvent_def sm_EventCsiParam_def sm_EventCsiSubParam_def
      sm_EnterCsiParam_def sm_ActionParam_def sm_firstParam_def sm_nextParam_def Let_def
      MAX_PARAMETER_COUNT_def csi_state_def)

lemma feed_sub_delimiter:
  assumes "st \<in> {CsiParam, CsiSubParam}" "ps \<noteq> []" "unat k < 6"
  shows "sm_ProcessCharacter env 0x3A (csi_state sm st ps subs (rs @ [(s, e)]) k) =
    csi_state sm CsiSubParam ps (subs @ [VTParameter_default]) (rs @ [(s, e + 1)]) (k + 1)"
  using assms class_delimiter
  by (auto simp: ProcessCharacter_graphic sm_dispatchEvent_def sm_EventCsiParam_def sm_EventCsiSubParam_def
      sm_EnterCsiSubParam_def sm_ActionSubParam_def sm_firstParam_def sm_nextSubParam_def Let_def
      MAX_SUBPARAMETER_COUNT_def csi_state_def set_last_def)

text \<open>
  Without a parameter so far (in \<open>CsiEntry\<close>, or in \<open>CsiParam\<close> after a private marker) the first
  character behaves as if an empty parameter were there already.
\<close>

lemma feed_entry:
  assumes "(0x30 \<le> c \<and> c \<le> 0x39) \<or> c = 0x3A \<or> c = 0x3B" "st \<in> {CsiEntry, CsiParam}"
  shows "sm_ProcessCharacter env c (csi_state sm st [] [] [] 0) =
    sm_ProcessCharacter env c (csi_state sm CsiParam [VTParameter_default] [] [(0, 0)] 0)"
  using assms(1)
proof (elim disjE conjE)
  assume "0x30 \<le> c" "c \<le> 0x39"
  from class_digit [OF this] assms(2) show ?thesis
    by (auto simp: ProcessCharacter_graphic sm_dispatchEvent_def sm_EventCsiParam_def sm_EventCsiEntry_def
        sm_EnterCsiParam_def sm_ActionParam_def sm_firstParam_def Let_def csi_state_def)
qed (use assms(2) class_delimiter in \<open>auto simp: ProcessCharacter_graphic sm_dispatchEvent_def
      sm_EventCsiParam_def sm_EventCsiEntry_def sm_EnterCsiParam_def sm_EnterCsiSubParam_def
      sm_ActionParam_def sm_ActionSubParam_def sm_firstParam_def sm_nextParam_def sm_nextSubParam_def
      Let_def csi_state_def MAX_PARAMETER_COUNT_def MAX_SUBPARAMETER_COUNT_def\<close>)

subsection \<open>Sequences as data\<close>

text \<open>
  A parameter is an optional number with a list of optional sub-parameters. \<open>param_text\<close> prints it,
  \<open>opt_value\<close> is the value the engine reads.
\<close>

type_synonym csi_param = "nat option \<times> nat option list"

definition opt_text :: "nat option \<Rightarrow> wstring" where
  "opt_text v = (case v of None \<Rightarrow> [] | Some n \<Rightarrow> dec_string n)"

definition opt_value :: "nat option \<Rightarrow> VTParameter" where
  "opt_value v = (case v of None \<Rightarrow> VTParameter_default | Some n \<Rightarrow> VTParameter (int (min n 65535)))"

definition subs_text :: "nat option list \<Rightarrow> wstring" where
  "subs_text ss = concat (map (\<lambda>v. 0x3A # opt_text v) ss)"

definition param_text :: "csi_param \<Rightarrow> wstring" where
  "param_text p = opt_text (fst p) @ subs_text (snd p)"

definition more_params_text :: "csi_param list \<Rightarrow> wstring" where
  "more_params_text pss = concat (map (\<lambda>p. 0x3B # param_text p) pss)"

definition params_text :: "csi_param list \<Rightarrow> wstring" where
  "params_text pss = (case pss of [] \<Rightarrow> [] | p # pss' \<Rightarrow> param_text p @ more_params_text pss')"

fun csi_ranges :: "nat \<Rightarrow> csi_param list \<Rightarrow> (byte \<times> byte) list" where
  "csi_ranges n [] = []"
| "csi_ranges n (p # pss) =
     (word_of_nat n, word_of_nat (n + length (snd p))) # csi_ranges (n + length (snd p)) pss"

definition csi_values :: "csi_param list \<Rightarrow> VTParameter list" where
  "csi_values pss = map (opt_value \<circ> fst) pss"

definition csi_sub_values :: "csi_param list \<Rightarrow> VTParameter list" where
  "csi_sub_values pss = concat (map (map opt_value \<circ> snd) pss)"

lemma digits_value:
  assumes "\<forall>d \<in> set ds. d < 10" "ds \<noteq> []"
  shows "foldl (\<lambda>p c. VTParameter (AccumulateTo c (VTParameter_value_or p 0))) VTParameter_default
    (map dec_char ds) = VTParameter (int (min (dec_value 0 ds) 65535))"
proof -
  have fold: "foldl (\<lambda>p c. VTParameter (AccumulateTo c (VTParameter_value_or p 0))) (VTParameter (int v))
      (map dec_char ds) = VTParameter (foldl (\<lambda>v c. AccumulateTo c v) (int v) (map dec_char ds))"
    if "\<forall>d \<in> set ds. d < 10" "v \<le> 65535" for ds v
    using that
  proof (induction ds arbitrary: v)
    case (Cons d ds)
    have acc: "AccumulateTo (dec_char d) (int v) = int (min (v * 10 + d) 65535)"
      using accumulate_digits [of "[d]" v] Cons.prems by simp
    have "VTParameter_value_or (VTParameter (int v)) 0 = int v" by (simp add: VTParameter_value_or_def)
    then show ?case
      using Cons.IH [of "min (v * 10 + d) 65535"] Cons.prems by (simp add: acc)
  qed simp
  obtain d ds' where ds: "ds = d # ds'" using assms(2) by (cases ds) auto
  have "VTParameter_value_or VTParameter_default 0 = VTParameter_value_or (VTParameter (int 0)) 0"
    by (simp add: VTParameter_value_or_def VTParameter_default_def)
  then have "foldl (\<lambda>p c. VTParameter (AccumulateTo c (VTParameter_value_or p 0))) VTParameter_default
      (map dec_char ds) = foldl (\<lambda>p c. VTParameter (AccumulateTo c (VTParameter_value_or p 0)))
      (VTParameter (int 0)) (map dec_char ds)"
    by (simp add: ds)
  also have "\<dots> = VTParameter (int (min (dec_value 0 ds) 65535))"
    using fold [OF assms(1), of 0] accumulate_digits [OF assms(1), of 0] by simp
  finally show ?thesis .
qed

lemma feed_param_digits:
  "\<forall>c \<in> set s. 0x30 \<le> c \<and> c \<le> 0x39 \<Longrightarrow>
     sm_feed env s (csi_state sm CsiParam (ps @ [p]) subs rs k) =
     csi_state sm CsiParam
       (ps @ [foldl (\<lambda>p c. VTParameter (AccumulateTo c (VTParameter_value_or p 0))) p s]) subs rs k"
  by (induction s arbitrary: p) (simp_all add: feed_param_digit)

lemma feed_sub_digits:
  "\<forall>c \<in> set s. 0x30 \<le> c \<and> c \<le> 0x39 \<Longrightarrow> ps \<noteq> [] \<Longrightarrow>
     sm_feed env s (csi_state sm CsiSubParam ps (subs @ [p]) rs k) =
     csi_state sm CsiSubParam ps
       (subs @ [foldl (\<lambda>p c. VTParameter (AccumulateTo c (VTParameter_value_or p 0))) p s]) rs k"
  by (induction s arbitrary: p) (simp_all add: feed_sub_digit)

lemma opt_text_digits: "\<forall>c \<in> set (opt_text v). 0x30 \<le> c \<and> c \<le> 0x39"
  by (auto simp: opt_text_def dec_string_def dec_char_range dec_digits_less split: option.split)

lemma opt_text_value:
  "foldl (\<lambda>p c. VTParameter (AccumulateTo c (VTParameter_value_or p 0))) VTParameter_default (opt_text v) =
     opt_value v"
  by (auto simp: opt_text_def opt_value_def dec_string_def digits_value dec_digits_less split: option.split)

lemma feed_opt_param:
  "sm_feed env (opt_text v) (csi_state sm CsiParam (ps @ [VTParameter_default]) subs rs k) =
     csi_state sm CsiParam (ps @ [opt_value v]) subs rs k"
  by (simp add: feed_param_digits opt_text_digits opt_text_value)

lemma feed_subs:
  assumes "st \<in> {CsiParam, CsiSubParam}" "ps \<noteq> []" "unat k + length ss \<le> 6"
  shows "sm_feed env (subs_text ss) (csi_state sm st ps subs (rs @ [(s, e)]) k) =
    csi_state sm (if ss = [] then st else CsiSubParam) ps (subs @ map opt_value ss)
      (rs @ [(s, e + word_of_nat (length ss))]) (k + word_of_nat (length ss))"
  using assms
proof (induction ss arbitrary: st subs e k)
  case Nil
  then show ?case by (simp add: subs_text_def)
next
  case (Cons v ss)
  have k: "unat (k + 1) = unat k + 1" using Cons.prems by (simp add: unat_word_ariths)
  have "sm_feed env (0x3A # opt_text v) (csi_state sm st ps subs (rs @ [(s, e)]) k) =
      csi_state sm CsiSubParam ps (subs @ [opt_value v]) (rs @ [(s, e + 1)]) (k + 1)"
    using Cons.prems by (simp add: feed_sub_delimiter feed_sub_digits opt_text_digits opt_text_value)
  with Cons.IH [of CsiSubParam "k + 1" "subs @ [opt_value v]" "e + 1"] Cons.prems k show ?case
    by (simp add: subs_text_def add.assoc)
qed

lemma feed_param:
  assumes "length (snd p) \<le> 6"
  shows "\<exists>st k. sm_feed env (param_text p) (csi_state sm CsiParam (ps @ [VTParameter_default]) subs (rs @ [(s, s)]) 0) =
    csi_state sm st (ps @ [opt_value (fst p)]) (subs @ map opt_value (snd p))
      (rs @ [(s, s + word_of_nat (length (snd p)))]) k \<and> st \<in> {CsiParam, CsiSubParam}"
  using assms by (auto simp: param_text_def feed_opt_param feed_subs)

lemma feed_more_params:
  assumes "st \<in> {CsiParam, CsiSubParam}" "ps \<noteq> []" "length ps + length pss \<le> 32"
    and "\<forall>p \<in> set pss. length (snd p) \<le> 6"
  shows "\<exists>st' k'. sm_feed env (more_params_text pss) (csi_state sm st ps subs rs k) =
    csi_state sm st' (ps @ csi_values pss) (subs @ csi_sub_values pss)
      (rs @ csi_ranges (length subs) pss) k' \<and> st' \<in> {CsiParam, CsiSubParam}"
  using assms
proof (induction pss arbitrary: st ps subs rs k)
  case Nil
  then show ?case by (auto simp: more_params_text_def csi_values_def csi_sub_values_def)
next
  case (Cons p pss)
  define n :: byte where "n = word_of_nat (length subs)"
  obtain st1 k1 where st1: "st1 \<in> {CsiParam, CsiSubParam}" and
    "sm_feed env (param_text p) (csi_state sm CsiParam (ps @ [VTParameter_default]) subs (rs @ [(n, n)]) 0) =
    csi_state sm st1 (ps @ [opt_value (fst p)]) (subs @ map opt_value (snd p))
      (rs @ [(n, n + word_of_nat (length (snd p)))]) k1"
    using feed_param [of p env sm ps subs rs n] Cons.prems by auto
  then have "sm_feed env (0x3B # param_text p) (csi_state sm st ps subs rs k) =
    csi_state sm st1 (ps @ [opt_value (fst p)]) (subs @ map opt_value (snd p))
      (rs @ [(n, n + word_of_nat (length (snd p)))]) k1"
    using Cons.prems by (simp add: feed_delimiter n_def)
  with Cons.IH [OF st1, of "ps @ [opt_value (fst p)]" "subs @ map opt_value (snd p)"
      "rs @ [(n, n + word_of_nat (length (snd p)))]" k1] Cons.prems
  show ?case
    by (simp add: more_params_text_def csi_values_def csi_sub_values_def n_def add.commute)
qed

subsection \<open>Whole sequences\<close>

text \<open>The parameters that leave a trace: a single empty parameter prints as nothing.\<close>

definition csi_seen :: "csi_param list \<Rightarrow> csi_param list" where
  "csi_seen pss = (if pss = [(None, [])] then [] else pss)"

lemma params_text_first:
  assumes "params_text pss \<noteq> []"
  shows "(0x30 \<le> hd (params_text pss) \<and> hd (params_text pss) \<le> 0x39) \<or>
    hd (params_text pss) = 0x3A \<or> hd (params_text pss) = 0x3B"
proof -
  obtain p pss' where p: "pss = p # pss'" using assms by (cases pss) (auto simp: params_text_def)
  show ?thesis
  proof (cases "opt_text (fst p) = []")
    case True
    with assms p show ?thesis
      by (cases "snd p"; cases pss') (auto simp: params_text_def param_text_def subs_text_def more_params_text_def)
  next
    case False
    then have "hd (opt_text (fst p)) \<in> set (opt_text (fst p))" by simp
    with opt_text_digits [of "fst p"] False p show ?thesis by (simp add: params_text_def param_text_def)
  qed
qed

lemma params_text_Nil: "params_text pss = [] \<longleftrightarrow> csi_seen pss = []"
proof (cases pss)
  case (Cons p pss')
  have "opt_text (fst p) = [] \<longleftrightarrow> fst p = None"
    by (simp add: opt_text_def dec_string_def split: option.split)
  with Cons show ?thesis
    by (cases p; cases "snd p"; cases pss')
      (auto simp: csi_seen_def params_text_def param_text_def subs_text_def more_params_text_def)
qed (simp add: params_text_def csi_seen_def)

lemma feed_params:
  assumes "st \<in> {CsiEntry, CsiParam}" "length pss \<le> 32" "\<forall>p \<in> set pss. length (snd p) \<le> 6"
  shows "\<exists>st' k'. sm_feed env (params_text pss) (csi_state sm st [] [] [] 0) =
    csi_state sm st' (csi_values (csi_seen pss)) (csi_sub_values (csi_seen pss)) (csi_ranges 0 (csi_seen pss)) k' \<and>
    st' \<in> {CsiEntry, CsiParam, CsiSubParam}"
proof (cases "params_text pss = []")
  case True
  then have "csi_seen pss = []" using params_text_Nil by blast
  with True assms(1) show ?thesis
    by (intro exI [of _ st] exI [of _ 0]) (auto simp: csi_values_def csi_sub_values_def)
next
  case False
  then have seen: "csi_seen pss = pss" by (auto simp: params_text_Nil csi_seen_def split: if_splits)
  obtain p pss' where p: "pss = p # pss'" using False by (cases pss) (auto simp: params_text_def)
  obtain c t where ct: "params_text pss = c # t" using False by (cases "params_text pss") auto
  have "sm_feed env (params_text pss) (csi_state sm st [] [] [] 0) =
      sm_feed env (params_text pss) (csi_state sm CsiParam ([] @ [VTParameter_default]) [] ([] @ [(0, 0)]) 0)"
    using params_text_first [OF False] assms(1) unfolding ct by (simp add: feed_entry)
  also obtain st1 k1 where "st1 \<in> {CsiParam, CsiSubParam}" and
    "sm_feed env (param_text p) (csi_state sm CsiParam ([] @ [VTParameter_default]) [] ([] @ [(0, 0)]) 0) =
     csi_state sm st1 ([] @ [opt_value (fst p)]) ([] @ map opt_value (snd p))
      ([] @ [(0, 0 + word_of_nat (length (snd p)))]) k1"
    using feed_param [of p env sm "[]" "[]" "[]" 0] assms(3) p by auto
  ultimately show ?thesis
    using feed_more_params [of st1 "[opt_value (fst p)]" pss' env sm "map opt_value (snd p)"
        "[(0, word_of_nat (length (snd p)))]" k1] assms p seen
    by (auto simp: params_text_def csi_values_def csi_sub_values_def)
qed

lemma ActionCollect_csi:
  "sm_ActionCollect c (csi_state sm st ps subs rs k) = csi_state (sm_ActionCollect c sm) st ps subs rs k"
  by (simp add: sm_ActionCollect_def csi_state_def)

lemma feed_intermediate:
  assumes "0x20 \<le> c" "c \<le> 0x2F" "st \<in> {CsiEntry, CsiParam, CsiSubParam, CsiIntermediate}"
  shows "sm_ProcessCharacter env c (csi_state sm st ps subs rs k) =
    csi_state (sm_ActionCollect c sm) CsiIntermediate ps subs rs k"
  using class_intermediate [OF assms(1,2)] assms(3)
  by (auto simp: ProcessCharacter_graphic sm_dispatchEvent_def sm_EventCsiEntry_def sm_EventCsiParam_def
      sm_EventCsiSubParam_def sm_EventCsiIntermediate_def sm_EnterCsiIntermediate_def ActionCollect_csi)

lemma feed_intermediates:
  assumes "\<forall>c \<in> set s. 0x20 \<le> c \<and> c \<le> 0x2F" "st \<in> {CsiEntry, CsiParam, CsiSubParam, CsiIntermediate}"
  shows "\<exists>st'. sm_feed env s (csi_state sm st ps subs rs k) =
    csi_state (fold sm_ActionCollect s sm) st' ps subs rs k \<and>
    st' \<in> {CsiEntry, CsiParam, CsiSubParam, CsiIntermediate}"
  using assms
proof (induction s arbitrary: sm st)
  case (Cons c s)
  then show ?case using Cons.IH [of CsiIntermediate "sm_ActionCollect c sm"] by (simp add: feed_intermediate)
qed auto

lemma feed_final:
  assumes "0x40 \<le> c" "c \<le> 0x7E" "st \<in> {CsiEntry, CsiParam, CsiSubParam, CsiIntermediate}"
  shows "sm_ProcessCharacter env c (csi_state sm st ps subs rs k) =
    sm_finishCsi env c (csi_state sm st ps subs rs k)"
  using class_final [OF assms(1,2)] assms(3)
  by (auto simp: ProcessCharacter_graphic sm_dispatchEvent_def sm_EventCsiEntry_def sm_EventCsiParam_def
      sm_EventCsiSubParam_def sm_EventCsiIntermediate_def)

text \<open>
  From every state \<open>ESC\<close> followed by an introducer starts afresh: a device control string is
  interrupted (its handler sees the \<open>ESC\<close>), and an operating system command that turns out not to be
  terminated is dropped.
\<close>

lemma interrupt_state [simp]:
  "sm_state (sm_ActionInterrupt env sm) = sm_state sm"
  by (simp add: sm_ActionInterrupt_def sm_runHandler_def sm_reply_def raise_fault_def split: option.split)

lemma interrupt_id: "sm_state sm \<noteq> DcsPassThrough \<Longrightarrow> sm_ActionInterrupt env sm = sm"
  by (simp add: sm_ActionInterrupt_def)

text \<open>What reading a sequence leaves alone until it is dispatched: the engine, modes and callback.\<close>

definition sm_kept :: "('e, 'h, 'k) StateMachine \<Rightarrow> 'e \<times> bool \<times> enumset \<times> 'k option" where
  "sm_kept sm = (sm_engine sm, sm_isEngineForInput sm, sm_parserMode sm, sm_onCsiCompleteCallback sm)"

lemma feed_escape:
  assumes "wch \<noteq> 0x5C" "0x20 \<le> wch" "wch \<le> 0x7E"
  shows "sm_feed env [ESC, wch] sm = sm_EventEscape env wch (sm_EnterEscape (sm_ActionInterrupt env sm))"
proof (cases "sm_state sm = OscString \<or> sm_state sm = OscParam")
  case True
  have "sm_ProcessCharacter env ESC sm = sm_EnterOscTermination sm"
    using True
    by (subst sm_ProcessCharacter.simps)
      (auto simp: Let_def sm_dispatchEvent_def sm_EventOscString_def sm_EventOscParam_def char_class_defs)
  moreover have "sm_EnterEscape (sm_EnterOscTermination sm) = sm_EnterEscape sm"
    by (simp add: sm_EnterEscape_def sm_EnterOscTermination_def)
  ultimately show ?thesis
    using True assms
    by (auto simp: ProcessCharacter_graphic sm_dispatchEvent_def sm_EventOscTermination_def interrupt_id
        isStringTerminatorIndicator_def) (simp_all add: sm_EnterOscTermination_def sm_EventOscTermination_def
        isStringTerminatorIndicator_def)
next
  case False
  have "sm_ProcessCharacter env ESC sm = sm_EnterEscape (sm_ActionInterrupt env sm)"
    using False by (subst sm_ProcessCharacter.simps) (simp add: isC1ControlCharacter_def isEscape_def)
  moreover have "sm_state (sm_EnterEscape (sm_ActionInterrupt env sm)) = Escape"
    by (simp add: sm_EnterEscape_def sm_ActionClear_def)
  ultimately show ?thesis
    using assms by (simp add: ProcessCharacter_graphic sm_dispatchEvent_def)
qed

lemma feed_introducer:
  assumes "sm_GetParserMode Ansi (sm_ActionInterrupt env sm)"
  shows "sm_feed env [ESC, 0x5B] sm = csi_state (sm_ActionClear (sm_ActionInterrupt env sm)) CsiEntry [] [] [] 0"
  using assms
  by (simp add: feed_escape del: sm_feed_simps)
    (simp add: sm_EventEscape_def char_class_defs sm_EnterEscape_def sm_ActionClear_def sm_GetParserMode_def
      sm_EnterCsiEntry_def csi_state_def)

lemma feed_marker:
  assumes "length m \<le> 1" "\<forall>c \<in> set m. 0x3C \<le> c \<and> c \<le> 0x3F"
  shows "\<exists>st. sm_feed env m (csi_state sm CsiEntry [] [] [] 0) =
    csi_state (fold sm_ActionCollect m sm) st [] [] [] 0 \<and> st \<in> {CsiEntry, CsiParam}"
proof (cases m)
  case (Cons c m')
  with assms have "m' = []" by simp
  with Cons assms class_marker [of c] show ?thesis
    by (intro exI [of _ CsiParam]) (simp add: ProcessCharacter_graphic sm_dispatchEvent_def sm_EventCsiEntry_def sm_EnterCsiParam_def
        ActionCollect_csi)
qed auto

lemma collect_identifier:
  "sm_identifier (fold sm_ActionCollect s sm) = fold VTIDBuilder_AddIntermediate s (sm_identifier sm)"
  by (induction s arbitrary: sm) (simp_all add: sm_ActionCollect_def)

lemma collect_same: "sm_kept (fold sm_ActionCollect s sm) = sm_kept sm"
  by (induction s arbitrary: sm) (simp_all add: sm_ActionCollect_def sm_kept_def)

subsection \<open>One sequence, one call\<close>

text \<open>
  \<open>csi_text\<close> is the text of a control sequence, \<open>csi_text_ok\<close> its syntax within the limits of the
  parser, and \<open>csi_parameters\<close> what the engine is handed.
\<close>

definition csi_text :: "string \<Rightarrow> csi_param list \<Rightarrow> string \<Rightarrow> char \<Rightarrow> wstring" where
  "csi_text marker pss ims f =
     [ESC, 0x5B] @ map wchar_of_char marker @ params_text pss @ map wchar_of_char ims @ [wchar_of_char f]"

definition csi_text_ok :: "string \<Rightarrow> csi_param list \<Rightarrow> string \<Rightarrow> char \<Rightarrow> bool" where
  "csi_text_ok marker pss ims f \<longleftrightarrow>
     length marker \<le> 1 \<and> (\<forall>c \<in> set marker. 0x3C \<le> wchar_of_char c \<and> wchar_of_char c \<le> 0x3F) \<and>
     length pss \<le> 32 \<and> (\<forall>p \<in> set pss. length (snd p) \<le> 6) \<and>
     length ims \<le> 5 \<and> (\<forall>c \<in> set ims. 0x20 \<le> wchar_of_char c \<and> wchar_of_char c \<le> 0x2F) \<and>
     0x40 \<le> wchar_of_char f \<and> wchar_of_char f \<le> 0x7E"

definition csi_parameters :: "csi_param list \<Rightarrow> VTParameters" where
  "csi_parameters pss =
     \<lparr>vp_params = csi_values pss, vp_subParams = csi_sub_values pss, vp_subParamRanges = csi_ranges 0 pss\<rparr>"

lemma feed_csi:
  assumes "sm_GetParserMode Ansi (sm_ActionInterrupt env sm)" "csi_text_ok marker pss ims f"
  shows "\<exists>sm0. sm_kept sm0 = sm_kept (sm_ActionInterrupt env sm) \<and> sm_feed env (csi_text marker pss ims f) sm =
    sm_ExecuteCsiCompleteCallback env (sm_EnterGround (snd (sm_SafeExecute env
      (ActionCsiDispatch (VTID_FromString (marker @ ims @ [f])) (csi_parameters (csi_seen pss))) sm0)))"
proof -
  define sm1 where "sm1 = fold sm_ActionCollect (map wchar_of_char marker) (sm_ActionClear (sm_ActionInterrupt env sm))"
  define sm2 where "sm2 = fold sm_ActionCollect (map wchar_of_char ims) sm1"
  note ok = assms(2) [unfolded csi_text_ok_def]
  obtain st1 where st1: "st1 \<in> {CsiEntry, CsiParam}" and
    1: "sm_feed env (map wchar_of_char marker) (csi_state (sm_ActionClear (sm_ActionInterrupt env sm)) CsiEntry [] [] [] 0) =
      csi_state sm1 st1 [] [] [] 0"
    using feed_marker [of "map wchar_of_char marker" env "sm_ActionClear (sm_ActionInterrupt env sm)"] ok unfolding sm1_def by auto
  define seen where "seen = csi_seen pss"
  obtain st2 k where st2: "st2 \<in> {CsiEntry, CsiParam, CsiSubParam, CsiIntermediate}" and
    2: "sm_feed env (params_text pss) (csi_state sm1 st1 [] [] [] 0) =
      csi_state sm1 st2 (csi_values seen) (csi_sub_values seen) (csi_ranges 0 seen) k"
    using feed_params [OF st1, of pss env sm1] ok unfolding seen_def by auto
  obtain st3 where st3: "st3 \<in> {CsiEntry, CsiParam, CsiSubParam, CsiIntermediate}" and
    3: "sm_feed env (map wchar_of_char ims)
        (csi_state sm1 st2 (csi_values seen) (csi_sub_values seen) (csi_ranges 0 seen) k) =
      csi_state sm2 st3 (csi_values seen) (csi_sub_values seen) (csi_ranges 0 seen) k"
    using feed_intermediates [of "map wchar_of_char ims" st2 env sm1 "csi_values seen"
        "csi_sub_values seen" "csi_ranges 0 seen" k] st2 ok unfolding sm2_def by auto
  define sm0 where "sm0 = csi_state sm2 st3 (csi_values seen) (csi_sub_values seen) (csi_ranges 0 seen) k"
  have "sm_identifier sm0 = fold (VTIDBuilder_AddIntermediate \<circ> wchar_of_char) (marker @ ims) VTIDBuilder_Clear"
    unfolding sm0_def sm2_def sm1_def
    by (simp add: collect_identifier sm_ActionClear_def) (simp add: fold_map)
  then have id: "VTIDBuilder_Finalize (wchar_of_char f) (sm_identifier sm0) = VTID_FromString (marker @ ims @ [f])"
    using Finalize_literal [of "marker @ ims" f] ok by simp
  have engine: "sm_kept sm0 = sm_kept (sm_ActionInterrupt env sm)"
    unfolding sm0_def sm2_def sm1_def by (simp add: sm_kept_def csi_state_def collect_same [unfolded sm_kept_def, simplified] sm_ActionClear_def)
  have params: "sm_csiParameters sm0 = csi_parameters seen"
    unfolding sm0_def by (simp add: csi_parameters_def sm_csiParameters_def)
  have "sm_feed env (csi_text marker pss ims f) sm = sm_finishCsi env (wchar_of_char f) sm0"
    using feed_introducer [OF assms(1)] feed_final [of "wchar_of_char f" st3] ok st3
    by (simp add: csi_text_def 1 2 3 sm0_def)
  with engine id params show ?thesis
    by (auto simp: sm_finishCsi_def sm_ActionCsiDispatch_def seen_def)
qed

subsection \<open>Properties\<close>

text \<open>
  C5. Parsing a control sequence: from every state of the parser, the text of any CSI sequence with at most
  one private marker, at most 32 parameters of at most six sub-parameters each, at most five
  intermediates and a final character makes exactly one call of the engine, \<open>ActionCsiDispatch\<close>, with
  the identifier spelled by marker, intermediates and final character, the parameter values clamped at
  65535 and omitted ones marked as such, and each parameter's own sub-parameters; then the parser is
  back in the Ground state and runs the completion callback. A device control string in progress is
  interrupted first, which is all that is left of earlier text.
\<close>

theorem csi_sequence_dispatched:
  assumes "sm_GetParserMode Ansi (sm_ActionInterrupt env sm)" "csi_text_ok marker pss ims f"
  shows "\<exists>sm0. sm_kept sm0 = sm_kept (sm_ActionInterrupt env sm) \<and> sm_feed env (csi_text marker pss ims f) sm =
    sm_ExecuteCsiCompleteCallback env (sm_EnterGround (snd (sm_SafeExecute env
      (ActionCsiDispatch (VTID_FromString (marker @ ims @ [f])) (csi_parameters (csi_seen pss))) sm0)))"
  using assms by (rule feed_csi)

theorem csi_sequence_dispatched_witness:
  "\<forall>env :: (unit, unit, unit) vt_env. \<exists>sm0. sm_kept sm0 = sm_kept (sm_new () False) \<and>
    sm_feed env (csi_text ''?'' [(Some 25, []), (None, [])] '''' CHR ''h'') (sm_new () False) =
    sm_ExecuteCsiCompleteCallback env (sm_EnterGround (snd (sm_SafeExecute env
      (ActionCsiDispatch (VTID_FromString ''?h'') (csi_parameters [(Some 25, []), (None, [])])) sm0)))"
  (is "\<forall>env. ?P env")
proof
  fix env :: "(unit, unit, unit) vt_env"
  show "?P env"
    using csi_sequence_dispatched [of env "sm_new () False" "''?''" "[(Some 25, []), (None, [])]" "''''" "CHR ''h''"]
    by (simp add: csi_text_ok_def csi_seen_def sm_new_def sm_ActionClear_def sm_SetParserMode_def
        sm_GetParserMode_def wchar_of_char_def interrupt_id sm_kept_def)
qed

end
