(* ===== verification/Vt_Strings.thy ===== *)
theory Vt_Strings
  imports Vt_Parsing
begin

text \<open>
  What the parser makes of strings (operating system commands and device control strings) and of
  the characters that interrupt a sequence, and two places where it does not do what its comments
  say.
\<close>

subsection \<open>Operating system commands\<close>

definition osc_state ::
    "('e, 'h, 'k) StateMachine \<Rightarrow> VTStates \<Rightarrow> VTInt \<Rightarrow> wstring \<Rightarrow> ('e, 'h, 'k) StateMachine" where
  "osc_state sm st n str = sm\<lparr>sm_state := st, sm_oscParameter := n, sm_oscString := str\<rparr>"

lemma osc_state_sel [simp]:
  "sm_state (osc_state sm st n str) = st" "sm_oscParameter (osc_state sm st n str) = n"
  "sm_oscString (osc_state sm st n str) = str" "sm_engine (osc_state sm st n str) = sm_engine sm"
  by (simp_all add: osc_state_def)

text \<open>The characters an OSC string may hold: everything printable, and DEL.\<close>

definition osc_char :: "wchar \<Rightarrow> bool" where
  "osc_char c \<longleftrightarrow> 0x20 \<le> c \<and> \<not> isC1ControlCharacter c"

lemma osc_char_class:
  assumes "osc_char c"
  shows "c \<noteq> CAN" "c \<noteq> SUB" "\<not> isC1ControlCharacter c" "\<not> isEscape c" "\<not> isOscTerminator c" "\<not> isOscInvalid c"
  using assms by (auto simp: osc_char_def char_class_defs word_le_nat_alt)

lemma feed_osc_digit:
  assumes "0x30 \<le> c" "c \<le> 0x39"
  shows "sm_ProcessCharacter env c (osc_state sm OscParam n str) =
    osc_state sm OscParam (AccumulateTo c n) str"
  using class_digit [OF assms] assms
  by (simp add: ProcessCharacter_graphic sm_dispatchEvent_def sm_EventOscParam_def sm_ActionOscParam_def)
    (auto simp: char_class_defs osc_state_def word_le_nat_alt)

lemma feed_osc_digits:
  "\<forall>c \<in> set s. 0x30 \<le> c \<and> c \<le> 0x39 \<Longrightarrow>
     sm_feed env s (osc_state sm OscParam n str) = osc_state sm OscParam (foldl (\<lambda>v c. AccumulateTo c v) n s) str"
  by (induction s arbitrary: n) (simp_all add: feed_osc_digit)

lemma feed_osc_number:
  "sm_feed env (dec_string n) (osc_state sm OscParam 0 str) = osc_state sm OscParam (int (min n 65535)) str"
proof -
  have "foldl (\<lambda>v c. AccumulateTo c v) (int 0) (map dec_char (dec_digits n)) = int (min (dec_value 0 (dec_digits n)) 65535)"
    by (rule accumulate_digits) (auto simp: dec_digits_less)
  then show ?thesis
    by (simp add: feed_osc_digits dec_string_def dec_char_range dec_digits_less)
qed

lemma feed_osc_delimiter:
  "sm_ProcessCharacter env 0x3B (osc_state sm OscParam n str) = osc_state sm OscString n str"
  by (simp add: ProcessCharacter_graphic sm_dispatchEvent_def sm_EventOscParam_def sm_EnterOscString_def
      char_class_defs osc_state_def)

lemma feed_osc_char:
  "osc_char c \<Longrightarrow> sm_ProcessCharacter env c (osc_state sm OscString n str) = osc_state sm OscString n (str @ [c])"
  using osc_char_class [of c]
  by (subst sm_ProcessCharacter.simps)
    (simp add: Let_def sm_dispatchEvent_def sm_EventOscString_def sm_ActionOscPut_def osc_state_def)

lemma feed_osc_text:
  "\<forall>c \<in> set s. osc_char c \<Longrightarrow>
     sm_feed env s (osc_state sm OscString n str) = osc_state sm OscString n (str @ s)"
  by (induction s arbitrary: str) (simp_all add: feed_osc_char)

lemma feed_osc_introducer:
  assumes "sm_GetParserMode Ansi (sm_ActionInterrupt env sm)"
  shows "sm_feed env [ESC, 0x5D] sm = osc_state (sm_ActionClear (sm_ActionInterrupt env sm)) OscParam 0 []"
  using assms
  by (simp add: feed_escape del: sm_feed_simps)
    (simp add: sm_EventEscape_def char_class_defs sm_EnterEscape_def sm_ActionClear_def sm_GetParserMode_def
      sm_EnterOscParam_def osc_state_def)

text \<open>BEL ends the string, and so does ESC followed by a backslash.\<close>

definition osc_end :: "bool \<Rightarrow> wstring" where
  "osc_end st = (if st then [ESC, 0x5C] else [BEL])"

lemma feed_osc_end:
  "sm_feed env (osc_end st) (osc_state sm OscString n str) =
     sm_EnterGround (sm_ActionOscDispatch env (osc_state sm (if st then OscTermination else OscString) n str))"
proof (cases st)
  case True
  have "sm_ProcessCharacter env ESC (osc_state sm OscString n str) = osc_state sm OscTermination n str"
    by (subst sm_ProcessCharacter.simps)
      (simp add: Let_def char_class_defs sm_dispatchEvent_def sm_EventOscString_def sm_EnterOscTermination_def
        osc_state_def)
  with True show ?thesis
    by (simp add: osc_end_def ProcessCharacter_graphic sm_dispatchEvent_def sm_EventOscTermination_def
        char_class_defs)
next
  case False
  then show ?thesis
    by (subst sm_feed_def)
      (simp add: osc_end_def sm_ProcessCharacter.simps [of env BEL] Let_def char_class_defs sm_dispatchEvent_def
        sm_EventOscString_def)
qed

definition osc_text :: "nat \<Rightarrow> wstring \<Rightarrow> bool \<Rightarrow> wstring" where
  "osc_text n str st = [ESC, 0x5D] @ dec_string n @ [0x3B] @ str @ osc_end st"

lemma feed_osc:
  assumes "sm_GetParserMode Ansi (sm_ActionInterrupt env sm)" "\<forall>c \<in> set str. osc_char c"
  shows "\<exists>sm0. sm_kept sm0 = sm_kept (sm_ActionInterrupt env sm) \<and> sm_feed env (osc_text n str st) sm =
    sm_EnterGround (snd (sm_SafeExecute env (ActionOscDispatch (int (min n 65535)) str) sm0))"
  using assms
  by (intro exI [of _ "osc_state (sm_ActionClear (sm_ActionInterrupt env sm))
      (if st then OscTermination else OscString) (int (min n 65535)) str"])
    (simp add: osc_text_def feed_osc_introducer [simplified] feed_osc_number feed_osc_delimiter feed_osc_text feed_osc_end
      sm_ActionOscDispatch_def, simp add: sm_ActionClear_def sm_kept_def osc_state_def)

subsection \<open>Properties\<close>

text \<open>
  C25. Parsing an operating system command: from every state of the parser, \<open>ESC ]\<close>, a number, a
  semicolon, a text of printable characters and a terminator (\<open>BEL\<close> or the two characters of ST) make
  exactly one call of the engine, \<open>ActionOscDispatch\<close> with the number clamped at 65535 and the text
  unchanged, and the parser is back in the Ground state.
\<close>

theorem osc_sequence_dispatched:
  assumes "sm_GetParserMode Ansi (sm_ActionInterrupt env sm)" "\<forall>c \<in> set str. osc_char c"
  shows "\<exists>sm0. sm_kept sm0 = sm_kept (sm_ActionInterrupt env sm) \<and> sm_feed env (osc_text n str st) sm =
    sm_EnterGround (snd (sm_SafeExecute env (ActionOscDispatch (int (min n 65535)) str) sm0))"
  using assms by (rule feed_osc)

theorem osc_sequence_dispatched_witness:
  "\<forall>env :: (unit, unit, unit) vt_env. \<exists>sm0. sm_kept sm0 = sm_kept (sm_new () False) \<and>
    sm_feed env (osc_text 2 [0x68, 0x69] True) (sm_new () False) =
    sm_EnterGround (snd (sm_SafeExecute env (ActionOscDispatch 2 [0x68, 0x69]) sm0))"
  (is "\<forall>env. ?P env")
proof
  fix env :: "(unit, unit, unit) vt_env"
  show "?P env"
    using osc_sequence_dispatched [of env "sm_new () False" "[0x68, 0x69]" 2 True]
    by (simp add: osc_char_def isC1ControlCharacter_def sm_new_def sm_ActionClear_def sm_SetParserMode_def
        sm_GetParserMode_def interrupt_id sm_kept_def)
qed

text \<open>
  A control character inside the parameters of a device control string is not ignored, although
  the comment on \<open>_EventDcsParam\<close> says so: it is taken for the final character of the sequence and
  dispatched, whereas the neighbouring states do ignore it.
\<close>

theorem dcs_param_control_dispatched:
  assumes "isC0Code wch \<or> isDelete wch"
  shows "(sm_state sm = DcsParam \<longrightarrow> sm_ProcessCharacter env wch sm = sm_ActionDcsDispatch env wch sm) \<and>
    (sm_state sm \<in> {DcsEntry, DcsIntermediate} \<longrightarrow> sm_ProcessCharacter env wch sm = sm)"
proof -
  have "wch \<noteq> CAN" "wch \<noteq> SUB" "\<not> isC1ControlCharacter wch" "\<not> isEscape wch" "\<not> isNumericParamValue wch"
    "\<not> isParameterDelimiter wch" "\<not> isIntermediate wch" "\<not> isParameterInvalid wch" "\<not> isSubParameterDelimiter wch"
    using assms by (auto simp: char_class_defs word_le_nat_alt)
  then show ?thesis
    using assms
    by (subst (1 2) sm_ProcessCharacter.simps)
      (auto simp: Let_def sm_dispatchEvent_def sm_EventDcsParam_def sm_EventDcsEntry_def sm_EventDcsIntermediate_def
        sm_ActionIgnore_def)
qed

theorem dcs_param_control_dispatched_witness:
  "\<forall>env :: (unit, unit, unit) vt_env. sm_ProcessCharacter env LF ((sm_new () False)\<lparr>sm_state := DcsParam\<rparr>) =
     sm_ActionDcsDispatch env LF ((sm_new () False)\<lparr>sm_state := DcsParam\<rparr>)"
  by (rule allI, rule dcs_param_control_dispatched [THEN conjunct1, rule_format]) (simp_all add: isC0Code_def)

text \<open>
  Parameters beyond the 32nd are to be ignored, but their sub-parameters are not: the text
  \<open>;9:4\<close> after 32 parameters adds the sub-parameter 4 to the 32nd parameter.
\<close>

theorem overflow_subparameter_attached:
  assumes "st \<in> {CsiParam, CsiSubParam}" "length ps = 32" "unat k < 6"
  shows "sm_feed env [0x3B, 0x39, 0x3A, 0x34] (csi_state sm st ps subs (rs @ [(s, e)]) k) =
    (csi_state sm CsiSubParam ps (subs @ [VTParameter 4]) (rs @ [(s, e + 1)]) (k + 1))
      \<lparr>sm_parameterLimitOverflowed := True\<rparr>"
proof -
  define rs' where "rs' = rs @ [(s, e)]"
  define sm1 where "sm1 = (csi_state sm CsiParam ps subs rs' k)\<lparr>sm_parameterLimitOverflowed := True\<rparr>"
  define sm2 where "sm2 = (csi_state sm CsiSubParam ps (subs @ [VTParameter_default]) (rs @ [(s, e + 1)]) (k + 1))
    \<lparr>sm_parameterLimitOverflowed := True\<rparr>"
  have "sm_ProcessCharacter env 0x3B (csi_state sm st ps subs rs' k) = sm1"
    using assms class_delimiter
    by (auto simp: ProcessCharacter_graphic sm_dispatchEvent_def sm_EventCsiParam_def sm_EventCsiSubParam_def
        sm_EnterCsiParam_def sm_ActionParam_def sm_firstParam_def Let_def MAX_PARAMETER_COUNT_def sm1_def)
      (simp add: csi_state_def)
  moreover have "sm_ProcessCharacter env 0x39 sm1 = sm1"
    using class_digit [of "0x39"]
    by (simp add: ProcessCharacter_graphic sm_dispatchEvent_def sm_EventCsiParam_def sm_ActionParam_def sm1_def)
  moreover have "sm_ProcessCharacter env 0x3A sm1 = sm2"
    using assms class_delimiter
    by (auto simp: ProcessCharacter_graphic sm_dispatchEvent_def sm_EventCsiParam_def sm_EnterCsiSubParam_def
        sm_ActionSubParam_def sm_firstParam_def sm_nextSubParam_def Let_def MAX_SUBPARAMETER_COUNT_def sm1_def sm2_def
        rs'_def set_last_def) (simp_all add: csi_state_def)
  moreover have "sm_ProcessCharacter env 0x34 sm2 =
      (csi_state sm CsiSubParam ps (subs @ [VTParameter 4]) (rs @ [(s, e + 1)]) (k + 1))\<lparr>sm_parameterLimitOverflowed := True\<rparr>"
    using assms class_digit [of "0x34"]
    by (auto simp: ProcessCharacter_graphic sm_dispatchEvent_def sm_EventCsiSubParam_def sm_ActionSubParam_def
        sm_firstParam_def Let_def sm2_def set_last_def AccumulateTo_def VTParameter_value_or_def VTParameter_default_def
        MAX_PARAMETER_VALUE_def) (simp_all add: csi_state_def)
  ultimately show ?thesis by (simp add: rs'_def)
qed

theorem overflow_subparameter_attached_witness:
  "\<forall>env :: (unit, unit, unit) vt_env.
     sm_subParameters (sm_feed env [0x3B, 0x39, 0x3A, 0x34]
       (csi_state (sm_new () False) CsiParam (replicate 32 VTParameter_default) []
         ([] @ [(0, 0)]) 0)) = [VTParameter 4]"
  by (rule allI, subst overflow_subparameter_attached) simp_all

end
