(* ===== verification/Terminal_Calls.thy ===== *)
theory Terminal_Calls
  imports Terminal_Stream Vt_Strings
begin

text \<open>
  From the text an application writes to the calls the terminal receives: the parser, the engine's
  tables and the transcript of \<open>Terminal_Stream\<close> put together. The texts are those of \<open>csi_text\<close> and
  \<open>osc_text\<close>.
\<close>

subsection \<open>Sequences inside a stream\<close>

text \<open>Inside a sequence no character is printed, so the fold of \<open>sm_stream\<close> only feeds the parser.\<close>

lemma step_busy:
  "sm_state sm \<noteq> Ground \<or> isActionableFromGround c \<Longrightarrow> sm_step env c sm = sm_ProcessCharacter env c sm"
  by (auto simp: sm_step_def)

lemma escape_busy: "sm_state (sm_ProcessCharacter env ESC sm) \<noteq> Ground"
proof (cases "sm_state sm = OscString \<or> sm_state sm = OscParam")
  case True
  then show ?thesis
    by (subst sm_ProcessCharacter.simps)
      (auto simp: Let_def sm_dispatchEvent_def sm_EventOscString_def sm_EventOscParam_def char_class_defs
        sm_EnterOscTermination_def)
next
  case False
  then show ?thesis
    by (subst sm_ProcessCharacter.simps)
      (simp add: isC1ControlCharacter_def isEscape_def sm_EnterEscape_def sm_ActionClear_def)
qed

lemma stream_escape:
  "sm_stream env (ESC # c # s) sm = sm_stream env s (sm_feed env [ESC, c] sm)"
  using escape_busy [of env sm] by (simp add: step_busy isActionableFromGround_def)

definition csi_busy :: "VTStates set" where
  "csi_busy = {CsiEntry, CsiParam, CsiSubParam, CsiIntermediate, CsiIgnore}"

lemma csi_busy_mem [simp]:
  "CsiEntry \<in> csi_busy" "CsiParam \<in> csi_busy" "CsiSubParam \<in> csi_busy" "CsiIntermediate \<in> csi_busy"
  "CsiIgnore \<in> csi_busy"
  by (simp_all add: csi_busy_def)

lemma param_state [simp]:
  "sm_state (sm_ActionParam wch sm) = sm_state sm" "sm_state (sm_ActionSubParam wch sm) = sm_state sm"
  by (simp_all add: sm_ActionParam_def sm_ActionSubParam_def vt_defs Let_def raise_fault_def split: prod.split)

lemma csi_body_char:
  assumes "0x20 \<le> c" "c \<le> 0x3F"
  shows "isIntermediate c \<or> isNumericParamValue c \<or> isParameterDelimiter c \<or> isSubParameterDelimiter c \<or>
      isCsiPrivateMarker c" "\<not> isC0Code c" "\<not> isDelete c" "c \<le> 0x7E"
proof -
  have "c \<le> 0x2F \<or> (0x30 \<le> c \<and> c \<le> 0x39) \<or> c = 0x3A \<or> c = 0x3B \<or> (0x3C \<le> c \<and> c \<le> 0x3F)"
    using assms by (simp add: word_le_nat_alt word_unat_eq_iff) linarith
  then show "isIntermediate c \<or> isNumericParamValue c \<or> isParameterDelimiter c \<or> isSubParameterDelimiter c \<or>
      isCsiPrivateMarker c"
    using assms class_marker [of c] by (auto simp: char_class_defs)
qed (use assms in \<open>auto simp: char_class_defs word_le_nat_alt\<close>)

lemma csi_body_busy:
  assumes "0x20 \<le> c" "c \<le> 0x3F" "sm_state sm \<in> csi_busy"
  shows "sm_state (sm_ProcessCharacter env c sm) \<in> csi_busy"
proof -
  note body = csi_body_char [OF assms(1,2)]
  have "sm_state sm = CsiEntry \<or> sm_state sm = CsiParam \<or> sm_state sm = CsiSubParam \<or>
      sm_state sm = CsiIntermediate \<or> sm_state sm = CsiIgnore"
    using assms(3) by (simp add: csi_busy_def)
  then have "sm_state (sm_dispatchEvent env c sm) \<in> csi_busy"
    using body
    by (elim disjE) (simp_all add: sm_dispatchEvent_def sm_EventCsiEntry_def
      sm_EventCsiParam_def sm_EventCsiSubParam_def sm_EventCsiIntermediate_def sm_EventCsiIgnore_def
      isIntermediateInvalid_def isParameterInvalid_def vt_defs)
  with body assms(1) show ?thesis by (simp add: ProcessCharacter_graphic)
qed

lemma stream_csi_body:
  "\<forall>c \<in> set s. 0x20 \<le> c \<and> c \<le> 0x3F \<Longrightarrow> sm_state sm \<in> csi_busy \<Longrightarrow>
     sm_stream env s sm = sm_feed env s sm \<and> sm_state (sm_feed env s sm) \<in> csi_busy"
proof (induction s arbitrary: sm)
  case (Cons c s)
  have "sm_state sm \<noteq> Ground" using Cons.prems by (auto simp: csi_busy_def)
  with Cons csi_body_busy [of c sm env] show ?case by (simp add: step_busy)
qed simp

lemma params_text_range: "c \<in> set (params_text pss) \<Longrightarrow> 0x20 \<le> c \<and> c \<le> 0x3F"
proof -
  have opt: "c \<in> set (opt_text v) \<Longrightarrow> 0x20 \<le> c \<and> c \<le> 0x3F" for v
    using opt_text_digits [of v] by (force simp: word_le_nat_alt)
  have param: "c \<in> set (param_text p) \<Longrightarrow> 0x20 \<le> c \<and> c \<le> 0x3F" for p
    using opt by (auto simp: param_text_def subs_text_def split: if_splits)
  assume "c \<in> set (params_text pss)"
  with param show ?thesis by (auto simp: params_text_def more_params_text_def split: list.splits if_splits)
qed

lemma stream_csi:
  assumes "sm_GetParserMode Ansi (sm_ActionInterrupt env sm)" "csi_text_ok marker pss ims f"
  shows "sm_stream env (csi_text marker pss ims f) sm = sm_feed env (csi_text marker pss ims f) sm"
proof -
  define body where "body = map wchar_of_char marker @ params_text pss @ map wchar_of_char ims"
  have "\<forall>c \<in> set body. 0x20 \<le> c \<and> c \<le> 0x3F"
    using assms(2) params_text_range [of _ pss] unfolding body_def csi_text_ok_def
    by (force simp: word_le_nat_alt)
  moreover have "sm_state (sm_feed env [ESC, 0x5B] sm) \<in> csi_busy"
    using feed_introducer [OF assms(1)] by (simp add: csi_busy_def del: sm_feed_simps)
  ultimately have "sm_stream env body (sm_feed env [ESC, 0x5B] sm) = sm_feed env body (sm_feed env [ESC, 0x5B] sm)"
    "sm_state (sm_feed env body (sm_feed env [ESC, 0x5B] sm)) \<noteq> Ground"
    using stream_csi_body [of body "sm_feed env [ESC, 0x5B] sm" env] by (auto simp: csi_busy_def)
  then have "sm_stream env (body @ [wchar_of_char f]) (sm_feed env [ESC, 0x5B] sm) =
      sm_feed env (body @ [wchar_of_char f]) (sm_feed env [ESC, 0x5B] sm)"
    by (simp add: step_busy)
  moreover have "csi_text marker pss ims f = ESC # 0x5B # (body @ [wchar_of_char f])"
    by (simp add: csi_text_def body_def)
  ultimately show ?thesis by (simp add: stream_escape del: stream_simps)
qed

definition osc_busy :: "VTStates set" where
  "osc_busy = {OscParam, OscString}"

lemma osc_body_busy:
  assumes "osc_char c" "sm_state sm \<in> osc_busy"
  shows "sm_state (sm_ProcessCharacter env c sm) \<in> osc_busy"
  using osc_char_class [OF assms(1)] assms(2)
  by (subst sm_ProcessCharacter.simps)
    (auto simp: Let_def osc_busy_def sm_dispatchEvent_def sm_EventOscParam_def sm_EventOscString_def vt_defs
      split: if_splits)

lemma stream_osc_body:
  "\<forall>c \<in> set s. osc_char c \<Longrightarrow> sm_state sm \<in> osc_busy \<Longrightarrow>
     sm_stream env s sm = sm_feed env s sm \<and> sm_state (sm_feed env s sm) \<in> osc_busy"
proof (induction s arbitrary: sm)
  case (Cons c s)
  have "sm_state sm \<noteq> Ground" using Cons.prems by (auto simp: osc_busy_def)
  with Cons osc_body_busy [of c sm env] show ?case by (simp add: step_busy)
qed simp

lemma stream_osc:
  assumes "sm_GetParserMode Ansi (sm_ActionInterrupt env sm)" "\<forall>c \<in> set str. osc_char c"
  shows "sm_stream env (osc_text n str st) sm = sm_feed env (osc_text n str st) sm"
proof -
  define body where "body = dec_string n @ [0x3B] @ str"
  define sm1 where "sm1 = sm_feed env [ESC, 0x5D] sm"
  have "osc_char c" if "c \<in> set (dec_string n)" for c
  proof -
    have "0x30 \<le> c \<and> c \<le> 0x39" using that by (auto simp: dec_string_def dec_char_range dec_digits_less)
    then show ?thesis by (auto simp: osc_char_def isC1ControlCharacter_def word_le_nat_alt)
  qed
  then have "\<forall>c \<in> set body. osc_char c"
    using assms(2) by (auto simp: body_def osc_char_def isC1ControlCharacter_def)
  moreover have "sm_state sm1 \<in> osc_busy"
    using feed_osc_introducer [OF assms(1)] by (simp add: osc_busy_def sm1_def del: sm_feed_simps)
  ultimately have body: "sm_stream env body sm1 = sm_feed env body sm1" "sm_state (sm_feed env body sm1) \<in> osc_busy"
    using stream_osc_body [of body sm1 env] by auto
  then have busy: "sm_state (sm_feed env body sm1) \<noteq> Ground" by (auto simp: osc_busy_def)
  have "sm_stream env (osc_end st) sm2 = sm_feed env (osc_end st) sm2" if "sm_state sm2 \<noteq> Ground" for sm2
    using that escape_busy [of env sm2] by (simp add: osc_end_def step_busy)
  with busy body(1) have "sm_stream env (body @ osc_end st) sm1 = sm_feed env (body @ osc_end st) sm1" by simp
  moreover have "osc_text n str st = ESC # 0x5D # (body @ osc_end st)" by (simp add: osc_text_def body_def)
  ultimately show ?thesis by (simp add: stream_escape sm1_def del: stream_simps)
qed

subsection \<open>The transcript of a list of calls\<close>

definition transcribe :: "dispatch_call \<Rightarrow> transcript_event list" where
  "transcribe c = (case c of
     (name, [Str s]) \<Rightarrow> if name = ''PrintString'' then map Printed s else [Called c]
   | _ \<Rightarrow> [Called c])"

definition terminal_transcript :: "(transcript_event list, 'h) terminal \<Rightarrow> transcript_event list" where
  "terminal_transcript sm = ad_rest (oe_dispatch (sm_engine sm))"

text \<open>A policy under which no call throws or asks anything of the parser.\<close>

definition quiet_policy :: "'h transcript_policy \<Rightarrow> bool" where
  "quiet_policy tp \<longleftrightarrow> tp_call tp = (\<lambda>x. ([], False))"

lemma transcript_call:
  assumes "quiet_policy tp"
  shows "od_call (transcript_dispatch tp) c b x = Reply (x @ transcribe c) [] (Some ())"
  using assms
  by (cases c) (auto simp: transcript_dispatch_def quiet_policy_def transcribe_def Let_def
      split: list.split dispatch_arg.split)

lemma transcript_calls:
  assumes "quiet_policy tp" "\<forall>c \<in> set cs. fst c \<noteq> ''InvokeMacro''"
  shows "eng_calls (macro_td (transcript_dispatch tp)) b cs e =
    Reply (e\<lparr>oe_dispatch := (oe_dispatch e)\<lparr>ad_rest := ad_rest (oe_dispatch e) @ concat (map transcribe cs)\<rparr>\<rparr>) [] (Some ())"
  using assms(2)
  by (induction cs arbitrary: e) (simp_all add: ad_call_def ad_lift_def transcript_call [OF assms(1)])

lemma transcript_finish:
  assumes "quiet_policy tp" "\<forall>c \<in> set cs. fst c \<noteq> ''InvokeMacro''"
  shows "eng_finish (macro_td (transcript_dispatch tp)) b cs e =
    Reply (oe_ClearLastChar (e\<lparr>oe_dispatch := (oe_dispatch e)\<lparr>ad_rest :=
      ad_rest (oe_dispatch e) @ concat (map transcribe cs)\<rparr>\<rparr>)) [] (Some True)"
  using transcript_calls [OF assms, of b e] by (simp add: eng_finish_def)

text \<open>The state in which a terminal waits for the next sequence.\<close>

definition terminal_ready :: "('x, 'h) terminal \<Rightarrow> bool" where
  "terminal_ready sm \<longleftrightarrow> sm_state sm = Ground \<and> \<not> sm_isEngineForInput sm \<and> sm_GetParserMode Ansi sm \<and>
     sm_onCsiCompleteCallback sm = None"

lemma terminal_new_ready: "terminal_ready (terminal_new x)"
  by (simp add: terminal_ready_def terminal_new_def sm_new_def sm_ActionClear_def sm_SetParserMode_def
      sm_GetParserMode_def)

lemma SafeExecute_accepted:
  assumes "env_action env c (sm_processingLastCharacter sm) (sm_engine sm) = Reply e [] (Some True)"
  shows "snd (sm_SafeExecute env c sm) = sm\<lparr>sm_engine := e\<rparr>"
  using assms by (simp add: sm_SafeExecute_def sm_SafeExecute_via_def sm_call_def sm_reply_def)

lemma transcript_obs: "terminal_transcript (sm_obs sm) = terminal_transcript sm" "sm_state (sm_obs sm) = sm_state sm"
  by (simp_all add: terminal_transcript_def)

subsection \<open>From text to calls\<close>

text \<open>The engine after calls that were only written down.\<close>

definition written :: "dispatch_call list \<Rightarrow> transcript_event list AdaptDispatch OutputEngine \<Rightarrow>
    transcript_event list AdaptDispatch OutputEngine" where
  "written calls e = oe_ClearLastChar (e\<lparr>oe_dispatch := (oe_dispatch e)\<lparr>ad_rest :=
     ad_rest (oe_dispatch e) @ concat (map transcribe calls)\<rparr>\<rparr>)"

lemma written_rest [simp]: "ad_rest (oe_dispatch (written calls e)) = ad_rest (oe_dispatch e) @ concat (map transcribe calls)"
  by (simp add: written_def oe_ClearLastChar_def)

text \<open>
  A text the parser turns into one call of the engine, which makes the calls \<open>calls\<close> of the terminal:
  processing the text adds them to the transcript and leaves the terminal ready for the next.
\<close>

lemma dispatched_once:
  fixes sm :: "(transcript_event list, 'h) terminal" and oenv n
  defines "env tp \<equiv> macro_env oenv (transcript_dispatch tp) n"
  assumes "terminal_ready sm" "sm_kept sm0 = sm_kept sm"
    and "env_action (env tp) c (sm_processingLastCharacter sm0) (sm_engine sm0) = Reply (written calls (sm_engine sm)) [] (Some True)"
    and "sm_stream (env tp) str sm = sm_EnterGround (snd (sm_SafeExecute (env tp) c sm0))"
  shows "terminal_transcript (sm_ProcessString (env tp) str sm) =
      terminal_transcript sm @ concat (map transcribe calls) \<and> terminal_ready (sm_ProcessString (env tp) str sm)"
proof -
  define sm' where "sm' = sm_ProcessString (env tp) str sm"
  have out: "\<not> sm_isEngineForInput sm" using assms(2) by (simp add: terminal_ready_def)
  have "sm_stream (env tp) str sm = sm_EnterGround (sm0\<lparr>sm_engine := written calls (sm_engine sm)\<rparr>)"
    using SafeExecute_accepted [OF assms(4)] assms(5) by simp
  then have obs: "sm_obs sm' = sm_EnterGround (sm_obs sm0\<lparr>sm_engine := written calls (sm_engine sm)\<rparr>)"
    using transcript.terminal.ProcessString_stream [OF out, of oenv tp n str] by (simp add: sm'_def env_def)
  have "terminal_transcript (sm_obs sm') = terminal_transcript sm @ concat (map transcribe calls)"
    unfolding obs by (simp add: terminal_transcript_def sm_EnterGround_def)
  moreover have "terminal_ready (sm_obs sm')"
    unfolding obs using assms(2,3) by (simp add: terminal_ready_def sm_EnterGround_def sm_GetParserMode_def sm_kept_def)
  ultimately show ?thesis
    by (simp add: transcript_obs terminal_ready_def sm_GetParserMode_def sm'_def [symmetric])
qed

lemma terminal_csi:
  fixes sm :: "(transcript_event list, 'h) terminal" and oenv n
  assumes "quiet_policy tp" "terminal_ready sm" "csi_text_ok marker pss ims f"
    and "concat (map snd (csi_seen pss)) = [] \<or> marker @ ims @ [f] = ''m''"
  defines "calls \<equiv> csi_calls (oe_lastPrintedChar (sm_engine sm)) (VTID_FromString (marker @ ims @ [f]))
    (csi_parameters (csi_seen pss))"
  assumes "\<forall>c \<in> set calls. fst c \<noteq> ''InvokeMacro''"
  defines "sm' \<equiv> sm_ProcessString (macro_env oenv (transcript_dispatch tp) n) (csi_text marker pss ims f) sm"
  shows "terminal_transcript sm' = terminal_transcript sm @ concat (map transcribe calls) \<and> terminal_ready sm'"
proof -
  let ?env = "macro_env oenv (transcript_dispatch tp) n"
  note ready = assms(2) [unfolded terminal_ready_def]
  have int: "sm_ActionInterrupt ?env sm = sm" using ready by (simp add: interrupt_id)
  define ps where "ps = csi_parameters (csi_seen pss)"
  define action where "action = ActionCsiDispatch (VTID_FromString (marker @ ims @ [f])) ps"
  obtain sm0 where sm0: "sm_kept sm0 = sm_kept sm" and
    feed: "sm_feed ?env (csi_text marker pss ims f) sm =
      sm_ExecuteCsiCompleteCallback ?env (sm_EnterGround (snd (sm_SafeExecute ?env action sm0)))"
    using feed_csi [of ?env sm, OF _ assms(3)] ready by (auto simp: int ps_def action_def)
  have "vp_subParams ps = [] \<or> marker @ ims @ [f] = ''m''"
    using assms(4) by (auto simp: ps_def csi_parameters_def csi_sub_values_def)
  then have "\<not> VTParameters_hasSubParams ps \<or> CanSeqAcceptSubParam (VTID_FromString (marker @ ims @ [f])) ps"
    by (auto simp: VTParameters_hasSubParams_def CanSeqAcceptSubParam_def)
  then have act: "env_action ?env action (sm_processingLastCharacter sm0) (sm_engine sm0) =
      Reply (written calls (sm_engine sm)) [] (Some True)"
    using assms(6) sm0
    by (auto simp: macro_env_def oe_env_def oe_ActionCsiDispatch_def transcript_finish [OF assms(1)] calls_def ps_def
        action_def written_def sm_kept_def)
  then have "sm_ExecuteCsiCompleteCallback ?env (sm_EnterGround (snd (sm_SafeExecute ?env action sm0))) =
      sm_EnterGround (snd (sm_SafeExecute ?env action sm0))"
    using sm0 ready SafeExecute_accepted [OF act]
    by (simp add: sm_ExecuteCsiCompleteCallback_def sm_EnterGround_def sm_kept_def)
  moreover have "sm_stream ?env (csi_text marker pss ims f) sm = sm_feed ?env (csi_text marker pss ims f) sm"
    using ready by (intro stream_csi assms(3)) (simp add: int)
  ultimately show ?thesis
    unfolding sm'_def using feed by (intro dispatched_once [OF assms(2) sm0 act]) simp
qed

lemma terminal_osc:
  fixes sm :: "(transcript_event list, 'h) terminal" and oenv n st
  assumes "quiet_policy tp" "terminal_ready sm" "\<forall>c \<in> set str. osc_char c" "p \<le> 65535"
  defines "calls \<equiv> (''NotifyVtSequence'', [Str (osc_forward p str)]) # osc_calls oenv p str"
  assumes "\<forall>c \<in> set calls. fst c \<noteq> ''InvokeMacro''"
  defines "sm' \<equiv> sm_ProcessString (macro_env oenv (transcript_dispatch tp) n) (osc_text p str st) sm"
  shows "terminal_transcript sm' = terminal_transcript sm @ concat (map transcribe calls) \<and> terminal_ready sm'"
proof -
  let ?env = "macro_env oenv (transcript_dispatch tp) n"
  note ready = assms(2) [unfolded terminal_ready_def]
  have int: "sm_ActionInterrupt ?env sm = sm" using ready by (simp add: interrupt_id)
  define action where "action = ActionOscDispatch (int (min p 65535)) str"
  obtain sm0 where sm0: "sm_kept sm0 = sm_kept sm" and
    feed: "sm_feed ?env (osc_text p str st) sm = sm_EnterGround (snd (sm_SafeExecute ?env action sm0))"
    using feed_osc [of ?env sm str p st, OF _ assms(3)] ready by (auto simp: int action_def)
  have act: "env_action ?env action (sm_processingLastCharacter sm0) (sm_engine sm0) =
      Reply (written calls (sm_engine sm)) [] (Some True)"
    using assms(6) sm0 assms(4)
    by (simp add: macro_env_def oe_env_def oe_ActionOscDispatch_def transcript_finish [OF assms(1)] calls_def
        action_def written_def sm_kept_def)
  moreover have "sm_stream ?env (osc_text p str st) sm = sm_feed ?env (osc_text p str st) sm"
    using ready by (intro stream_osc assms(3)) (simp add: int)
  ultimately show ?thesis
    unfolding sm'_def using feed by (intro dispatched_once [OF assms(2) sm0 act]) simp
qed

subsection \<open>Tables\<close>

text \<open>
  The engine switches over 64-bit identifiers. Spelled with at most seven characters and without NUL,
  they can be looked up by their text instead.
\<close>

definition spelled :: "string \<Rightarrow> bool" where
  "spelled k \<longleftrightarrow> length k \<le> 7 \<and> CHR 0x00 \<notin> set k"

lemma lookup_id_map_of:
  assumes "list_all (spelled \<circ> fst) table" "spelled k"
  shows "lookup_id table (VTID_FromString k) = map_of table k"
  using assms
proof (induction table)
  case (Cons x table)
  have "VTID_FromString (fst x) = VTID_FromString k \<longleftrightarrow> fst x = k"
    using Cons.prems VTID_FromString_inj [of "fst x" k] by (auto simp: spelled_def)
  with Cons show ?case by (cases x) (auto simp: lookup_id_def)
qed (simp add: lookup_id_def)

lemma csi_table_spelled: "list_all (spelled \<circ> fst) (csi_table c ps)"
  by (simp add: csi_table_def csi_table_cursor_def csi_table_report_def csi_table_area_def spelled_def)

lemma csi_calls_spelled:
  "spelled k \<Longrightarrow> csi_calls c (VTID_FromString k) ps =
     (case map_of (csi_table c ps) k of Some cs \<Rightarrow> cs | None \<Rightarrow> [(''UnknownSequence'', [])])"
  by (simp add: csi_calls_def lookup_id_map_of csi_table_spelled)

lemma each_names: "c \<in> set (each ps name f) \<Longrightarrow> fst c = name"
  by (auto simp: each_def)

lemma csi_table_macros:
  "map_of (csi_table c ps) k = Some cs \<Longrightarrow> k \<noteq> ''*z'' \<Longrightarrow> x \<in> set cs \<Longrightarrow> fst x \<noteq> ''InvokeMacro''"
proof -
  have ok: "list_all (\<lambda>(k, cs). k = ''*z'' \<or> (\<forall>x \<in> set cs. fst x \<noteq> ''InvokeMacro'')) (csi_table c ps)"
    using each_names [of _ ps] unfolding csi_table_def csi_table_cursor_def csi_table_report_def csi_table_area_def
    by fastforce
  assume "map_of (csi_table c ps) k = Some cs" "k \<noteq> ''*z''" "x \<in> set cs"
  with ok show ?thesis by (auto simp: list_all_iff dest!: map_of_SomeD)
qed

lemma csi_text_spelled: "csi_text_ok marker pss ims f \<Longrightarrow> spelled (marker @ ims @ [f])"
proof -
  have nul: "wchar_of_char (CHR 0x00) = 0" by (simp add: wchar_of_char_def)
  have "CHR 0x00 \<notin> set marker \<and> CHR 0x00 \<notin> set ims \<and> f \<noteq> CHR 0x00" if "csi_text_ok marker pss ims f"
    using that nul by (force simp: csi_text_ok_def)
  then show "csi_text_ok marker pss ims f \<Longrightarrow> spelled (marker @ ims @ [f])"
    by (auto simp: spelled_def csi_text_ok_def)
qed

subsection \<open>Properties\<close>

text \<open>
  C4. From text to calls, for every control sequence of the output engine: processing the text of a
  CSI sequence without sub-parameters, or of SGR with any, makes exactly the calls that the engine's table lists for the
  characters of its marker, intermediates and final character, with the parameter values as clamped
  by the parser and defaulted by the table, or reports an unknown sequence when the table has no such
  entry. The macro invocation, which runs further text, is the only entry not covered.
\<close>

theorem csi_text_to_calls:
  fixes sm :: "(transcript_event list, 'h) terminal" and oenv n
  assumes "quiet_policy tp" "terminal_ready sm" "csi_text_ok marker pss ims f"
    and "concat (map snd (csi_seen pss)) = [] \<or> marker @ ims @ [f] = ''m''" "marker @ ims @ [f] \<noteq> ''*z''"
  defines "entry \<equiv> map_of (csi_table (oe_lastPrintedChar (sm_engine sm)) (csi_parameters (csi_seen pss))) (marker @ ims @ [f])"
  defines "sm' \<equiv> sm_ProcessString (macro_env oenv (transcript_dispatch tp) n) (csi_text marker pss ims f) sm"
  shows "terminal_transcript sm' = terminal_transcript sm @ concat (map transcribe
      (case entry of Some calls \<Rightarrow> calls | None \<Rightarrow> [(''UnknownSequence'', [])])) \<and> terminal_ready sm'"
proof -
  have calls: "csi_calls (oe_lastPrintedChar (sm_engine sm)) (VTID_FromString (marker @ ims @ [f]))
      (csi_parameters (csi_seen pss)) = (case entry of Some calls \<Rightarrow> calls | None \<Rightarrow> [(''UnknownSequence'', [])])"
    using csi_calls_spelled [OF csi_text_spelled [OF assms(3)]] by (simp add: entry_def)
  moreover have "\<forall>c \<in> set (case entry of Some calls \<Rightarrow> calls | None \<Rightarrow> [(''UnknownSequence'', [])]). fst c \<noteq> ''InvokeMacro''"
    using csi_table_macros [OF _ assms(5)] by (auto simp: entry_def split: option.split)
  ultimately show ?thesis
    unfolding sm'_def using terminal_csi [OF assms(1-4), of oenv n] by simp
qed

definition writer :: "unit transcript_policy" where
  "writer = \<lparr>tp_call = (\<lambda>x. ([], False)), tp_open = (\<lambda>x. None), tp_data = (\<lambda>x h. True)\<rparr>"

definition no_osc :: osc_env where
  "no_osc = \<lparr>osc_color = (\<lambda>s. None), osc_u8u16 = (\<lambda>s. None)\<rparr>"

lemma writer_quiet: "quiet_policy writer"
  by (simp add: writer_def quiet_policy_def)

lemma terminal_new_engine:
  "terminal_transcript (terminal_new x) = x" "oe_lastPrintedChar (sm_engine (terminal_new x)) = NUL"
  by (simp_all add: terminal_transcript_def terminal_new_def sm_new_def sm_ActionClear_def sm_SetParserMode_def)

lemmas csi_evaluate = csi_text_ok_def csi_seen_def wchar_of_char_def csi_table_def csi_table_cursor_def transcribe_def
  num_def csi_parameters_def csi_values_def opt_value_def VTParameters_at_def VTParameter_to_int_def

theorem csi_text_to_calls_witness:
  "terminal_transcript (sm_ProcessString (macro_env no_osc (transcript_dispatch writer) 17)
     (csi_text '''' [(Some 0, []), (Some 70000, [])] '''' CHR ''H'') (terminal_new [])) =
   [Called (''CursorPosition'', [Num 1, Num 65535])]"
  using csi_text_to_calls [of writer "terminal_new []" "''''" "[(Some 0, []), (Some 70000, [])]" "''''" "CHR ''H''" no_osc 17]
  by (simp add: writer_quiet terminal_new_ready terminal_new_engine csi_evaluate)

text \<open>Text without control characters is printed, and its last character remembered for REP.\<close>

lemma terminal_print:
  fixes sm :: "(transcript_event list, 'h) terminal" and oenv n
  assumes "quiet_policy tp" "terminal_ready sm" "s \<noteq> []" "\<forall>c \<in> set s. \<not> isActionableFromGround c"
  defines "env \<equiv> macro_env oenv (transcript_dispatch tp) n"
  defines "sm1 \<equiv> sm_ProcessString env s sm"
  shows "terminal_transcript sm1 = terminal_transcript sm @ map Printed s" "oe_lastPrintedChar (sm_engine sm1) = last s"
    "terminal_ready sm1" "last s \<noteq> NUL"
proof -
  have out: "\<not> sm_isEngineForInput sm" and ground: "sm_state sm = Ground"
    using assms(2) by (simp_all add: terminal_ready_def)
  have "sm_obs sm1 = sm_obs (sm_ActionPrintString env s sm)"
    unfolding sm1_def env_def
    using transcript.terminal.ProcessString_stream [OF out] transcript.terminal.print_stream [OF assms(3,4) ground] by simp
  also have "\<dots> = sm_obs (sm\<lparr>sm_engine := (oe_stash (last s) (sm_engine sm))\<lparr>oe_dispatch := (oe_dispatch (sm_engine sm))
      \<lparr>ad_rest := ad_rest (oe_dispatch (sm_engine sm)) @ map Printed s\<rparr>\<rparr>\<rparr>)"
    unfolding env_def using transcript.terminal.PrintString_engine [OF assms(3,4), of oenv tp n sm] assms(3)
    by (simp add: macro_env_def oe_env_def transcript.print_engine transcript_call [OF assms(1)] transcribe_def
        del: oe_action.simps)
  finally have obs: "sm_obs sm1 = (sm_obs sm)\<lparr>sm_engine := (oe_stash (last s) (sm_engine sm))\<lparr>oe_dispatch :=
      (oe_dispatch (sm_engine sm))\<lparr>ad_rest := ad_rest (oe_dispatch (sm_engine sm)) @ map Printed s\<rparr>\<rparr>\<rparr>"
    by simp
  have "SPC \<le> last s" using assms(3,4) by (intro transcript.graphic_not_actionable) simp
  then have "terminal_transcript (sm_obs sm1) = terminal_transcript sm @ map Printed s"
    "oe_lastPrintedChar (sm_engine (sm_obs sm1)) = last s" "terminal_ready (sm_obs sm1)" "last s \<noteq> NUL"
    using assms(2) unfolding obs
    by (auto simp: terminal_transcript_def oe_stash_def terminal_ready_def sm_GetParserMode_def)
  then show "terminal_transcript sm1 = terminal_transcript sm @ map Printed s" "oe_lastPrintedChar (sm_engine sm1) = last s"
    "terminal_ready sm1" "last s \<noteq> NUL"
    by (simp_all add: transcript_obs terminal_ready_def sm_GetParserMode_def)
qed

lemma terminal_append:
  fixes sm :: "(transcript_event list, 'h) terminal" and oenv n
  assumes "terminal_ready sm"
  defines "env tp \<equiv> macro_env oenv (transcript_dispatch tp) n"
  shows "terminal_transcript (sm_ProcessString (env tp) (s @ t) sm) =
      terminal_transcript (sm_ProcessString (env tp) t (sm_ProcessString (env tp) s sm))"
    "terminal_ready (sm_ProcessString (env tp) (s @ t) sm) =
      terminal_ready (sm_ProcessString (env tp) t (sm_ProcessString (env tp) s sm))"
proof -
  have obs: "sm_obs (sm_ProcessString (env tp) (s @ t) sm) =
      sm_obs (sm_ProcessString (env tp) t (sm_ProcessString (env tp) s sm))"
    using assms(1) transcript.terminal.ProcessString_append [of sm oenv tp n t s]
    by (simp add: env_def terminal_ready_def)
  have ready: "terminal_ready (sm_obs m) = terminal_ready m" for m :: "(transcript_event list, 'h) terminal"
    by (simp add: terminal_ready_def sm_GetParserMode_def)
  show "terminal_transcript (sm_ProcessString (env tp) (s @ t) sm) =
      terminal_transcript (sm_ProcessString (env tp) t (sm_ProcessString (env tp) s sm))"
    by (metis obs transcript_obs(1))
  show "terminal_ready (sm_ProcessString (env tp) (s @ t) sm) =
      terminal_ready (sm_ProcessString (env tp) t (sm_ProcessString (env tp) s sm))"
    by (metis obs ready)
qed

text \<open>
  REP repeats the last graphic character: a printed text followed by \<open>CSI n b\<close> prints the text and
  then \<open>n\<close> more copies of its last character (at least one, at most 65535).
\<close>

theorem rep_repeats_last:
  fixes sm :: "(transcript_event list, 'h) terminal" and oenv n
  assumes "quiet_policy tp" "terminal_ready sm" "s \<noteq> []" "\<forall>c \<in> set s. \<not> isActionableFromGround c"
  defines "env \<equiv> macro_env oenv (transcript_dispatch tp) n"
  shows "terminal_transcript (sm_ProcessString env (s @ csi_text '''' [(Some k, [])] '''' CHR ''b'') sm) =
    terminal_transcript sm @ map Printed s @ replicate (max 1 (min k 65535)) (Printed (last s))"
proof -
  define sm1 where "sm1 = sm_ProcessString env s sm"
  note sm1 = terminal_print(1-3) [OF assms(1-4), of oenv n, folded env_def sm1_def] terminal_print(4) [OF assms(1-4)]
  have "terminal_transcript (sm_ProcessString env (s @ csi_text '''' [(Some k, [])] '''' CHR ''b'') sm) =
      terminal_transcript (sm_ProcessString env (csi_text '''' [(Some k, [])] '''' CHR ''b'') sm1)"
    unfolding sm1_def env_def by (rule terminal_append(1) [OF assms(2)])
  moreover have "csi_calls (last s) (VTID_FromString ''b'') (csi_parameters [(Some k, [])]) =
      [(''PrintString'', [Str (replicate (max 1 (min k 65535)) (last s))])]"
    using sm1(4) csi_calls_spelled [of "''b''" "last s"]
    by (auto simp: spelled_def csi_evaluate csi_table_report_def max_def min_def)
  ultimately show ?thesis
    unfolding env_def using terminal_csi [OF assms(1) sm1(3), of "''''" "[(Some k, [])]" "''''" "CHR ''b''" oenv n] sm1
    by (simp add: csi_text_ok_def csi_seen_def wchar_of_char_def transcribe_def)
qed

theorem rep_repeats_last_witness:
  "terminal_transcript (sm_ProcessString (macro_env no_osc (transcript_dispatch writer) 17)
     ([0x61, 0x62] @ csi_text '''' [(Some 3, [])] '''' CHR ''b'') (terminal_new [])) =
   [Printed 0x61, Printed 0x62, Printed 0x62, Printed 0x62, Printed 0x62]"
  using rep_repeats_last [of writer "terminal_new []" "[0x61, 0x62]" no_osc 17 3]
  by (simp add: writer_quiet terminal_new_ready terminal_new_engine isActionableFromGround_def numeral_3_eq_3)

text \<open>
  An omitted or zero parameter of DECSET is taken for mode 1: \<open>CSI ? h\<close> asks the terminal to set
  the private mode 1 (DECCKM, cursor keys), although the comment on \<open>for_each\<close> says that omitted
  parameters are processed with the value 0, which is no mode.
\<close>

theorem decset_omitted_sets_mode_1:
  "terminal_transcript (sm_ProcessString (macro_env no_osc (transcript_dispatch writer) 17)
     (csi_text ''?'' [] '''' CHR ''h'' @ csi_text ''?'' [(Some 0, [])] '''' CHR ''h'') (terminal_new [])) =
   [Called (''SetMode'', [Num (0x01000000 + 1)]), Called (''SetMode'', [Num (0x01000000 + 1)])]"
proof -
  let ?env = "macro_env no_osc (transcript_dispatch writer) 17"
  have set: "terminal_transcript (sm_ProcessString ?env (csi_text ''?'' pss '''' CHR ''h'') sm) =
      terminal_transcript sm @ [Called (''SetMode'', [Num (0x01000000 + 1)])] \<and>
      terminal_ready (sm_ProcessString ?env (csi_text ''?'' pss '''' CHR ''h'') sm)"
    if "pss = [] \<or> pss = [(Some 0, [])]" "terminal_ready sm" for pss and sm :: "(transcript_event list, unit) terminal"
  proof -
    have "csi_calls c (VTID_FromString ''?h'') (csi_parameters pss) = [(''SetMode'', [Num (0x01000000 + 1)])]" for c
      using csi_calls_spelled [of "''?h''" c] that(1)
      by (auto simp: spelled_def csi_evaluate each_def DECPrivate_def FlaggedEnumValue_def VTParameters_for_each_def
          VTParameter_default_def)
    with that terminal_csi [OF writer_quiet that(2), of "''?''" pss "''''" "CHR ''h''" no_osc 17] show ?thesis
      by (auto simp: csi_text_ok_def csi_seen_def wchar_of_char_def transcribe_def)
  qed
  have out: "\<not> sm_isEngineForInput (terminal_new [])" by (rule terminal_new_ok)
  show ?thesis
    using set [of "[(Some 0, [])]"] set [of "[]"] terminal_new_ready [of "[]"]
      transcript.terminal.ProcessString_append [OF out, of no_osc writer 17]
    by (metis (no_types, lifting) append_Cons append_Nil terminal_new_engine(1) transcript_obs(1))
qed

subsection \<open>Clipboard\<close>

lemma wfind_first: "c \<notin> set s \<Longrightarrow> wfind [c] (s @ c # t) = Some (length s)"
proof (induction s)
  case Nil
  show ?case by (subst wfind.simps) simp
next
  case (Cons a s)
  then have "a \<noteq> c" by auto
  with Cons show ?case by (subst wfind.simps) simp
qed

lemma alphabet_valid: "n < 64 \<Longrightarrow> b64_valid (b64_alphabet url n)"
proof -
  have "list_all (\<lambda>k. b64_valid (b64_alphabet True (word_of_nat k)) \<and> b64_valid (b64_alphabet False (word_of_nat k))) [0..<64]"
    by code_simp
  from bspec [OF this [unfolded list_all_iff], of "unat n"] show "n < 64 \<Longrightarrow> b64_valid (b64_alphabet url n)"
    by (cases url) (simp_all add: word_less_nat_alt)
qed

lemma encode_chars: "c \<in> set (b64_encode url pad bs) \<Longrightarrow> b64_valid c \<or> c = 0x3D"
  by (induction url pad bs rule: b64_encode.induct) (auto simp: alphabet_valid simp del: push_bit_and split: if_splits)

lemma encode_osc_char:
  assumes "c \<in> set (b64_encode url pad bs)"
  shows "osc_char c \<and> c \<noteq> 0x3F"
proof -
  have "b64_valid c \<or> c = 0x3D" using assms by (rule encode_chars)
  then show ?thesis
    by (auto simp: b64_valid_def osc_char_def isC1ControlCharacter_def word_le_nat_alt)
qed

text \<open>
  C30. Copying through OSC 52: the bytes of a text, encoded in either alphabet with or without
  padding and sent after any selection name, reach the terminal as one \<open>SetClipboard\<close> with the UTF-16
  text these bytes decode to (the conversion is that of the operating system, \<open>osc_u8u16\<close>).
\<close>

theorem osc52_sets_clipboard:
  fixes sm :: "(transcript_event list, 'h) terminal" and oenv n url pad st
  assumes "quiet_policy tp" "terminal_ready sm" "\<forall>c \<in> set sel. osc_char c \<and> c \<noteq> 0x3B"
    and "osc_u8u16 oenv bs = Some content"
  defines "str \<equiv> sel @ [0x3B] @ b64_encode url pad bs"
  defines "sm' \<equiv> sm_ProcessString (macro_env oenv (transcript_dispatch tp) n) (osc_text 52 str st) sm"
  shows "terminal_transcript sm' = terminal_transcript sm @
    [Called (''NotifyVtSequence'', [Str (osc_forward 52 str)]), Called (''SetClipboard'', [Str content])]"
proof -
  have chars: "\<forall>c \<in> set str. osc_char c"
    using assms(3) encode_osc_char by (auto simp: str_def osc_char_def isC1ControlCharacter_def)
  have "b64_encode url pad bs \<noteq> [0x3F]" using encode_osc_char [of "0x3F" url pad bs] by auto
  moreover have "Base64_Decode (osc_u8u16 oenv) (b64_encode url pad bs) = Inr content"
    using assms(4) by (simp add: Base64_Decode_def b64_decode_def from_encode)
  moreover have "wfind [0x3B] str = Some (length sel)"
    unfolding str_def using assms(3) wfind_first [of "0x3B" sel] by auto
  ultimately have "GetOscSetClipboard (osc_u8u16 oenv) str = Some (Inr content)"
    by (simp add: GetOscSetClipboard_def) (simp add: str_def)
  then have calls: "osc_calls oenv 52 str = [(''SetClipboard'', [Str content])]" by (simp add: osc_calls_def)
  show ?thesis
    unfolding sm'_def using terminal_osc [OF assms(1,2) chars, of 52 oenv n st] by (simp add: calls transcribe_def)
qed

theorem osc52_sets_clipboard_witness:
  "terminal_transcript (sm_ProcessString (macro_env (no_osc\<lparr>osc_u8u16 := (\<lambda>bs. Some (map ucast bs))\<rparr>) (transcript_dispatch writer) 17)
     (osc_text 52 ([0x63] @ [0x3B] @ b64_encode False True [0x68, 0x69]) False) (terminal_new [])) =
   [Called (''NotifyVtSequence'', [Str (osc_forward 52 ([0x63] @ [0x3B] @ b64_encode False True [0x68, 0x69]))]),
    Called (''SetClipboard'', [Str [0x68, 0x69]])]"
  using osc52_sets_clipboard [of writer "terminal_new []" "[0x63]" "no_osc\<lparr>osc_u8u16 := (\<lambda>bs. Some (map ucast bs))\<rparr>"
      "[0x68, 0x69]" "[0x68, 0x69]" 17 False True False]
  by (simp add: writer_quiet terminal_new_ready terminal_new_engine osc_char_def isC1ControlCharacter_def)

end
