(* ===== verification/Sgr_Text.thy ===== *)
theory Sgr_Text
  imports Graphics_Rendition Terminal_Calls
begin

text \<open>
  Styled text: from the characters an application writes to the attributes its text is shown with.
  An application sets attributes with SGR sequences, saves and restores them with XTPUSHSGR and
  XTPOPSGR, and prints text in between. \<open>sgr_item\<close> is the abstract syntax of the options of an SGR
  sequence, \<open>sgr_params\<close> their parameters and \<open>sgr_meaning\<close> their effect on the attributes.

  The lemmas show that the parameters the parser collects give \<open>SetGraphicsRendition\<close> back the
  sub-parameters of each parameter, that the loop over the options performs the items one after the
  other, and that the calls a text makes have the effect of the segments it consists of.
\<close>

subsection \<open>Sub-parameters of the parsed parameters\<close>

definition sub_count :: "csi_param list \<Rightarrow> nat" where
  "sub_count pss = (\<Sum>p\<leftarrow>pss. length (snd p))"

lemma sub_count_simps [simp]:
  "sub_count [] = 0" "sub_count (p # pss) = length (snd p) + sub_count pss" "sub_count (xs @ ys) = sub_count xs + sub_count ys"
  by (simp_all add: sub_count_def)

lemma length_csi_ranges [simp]: "length (csi_ranges n pss) = length pss"
  by (induction n pss rule: csi_ranges.induct) auto

lemma csi_ranges_at:
  "csi_ranges n (pre @ p # post) ! length pre =
     (word_of_nat (n + sub_count pre), word_of_nat (n + sub_count pre + length (snd p)))"
  by (induction pre arbitrary: n) (simp_all add: add.assoc)

lemma length_csi_sub_values [simp]: "length (csi_sub_values pss) = sub_count pss"
  by (simp add: csi_sub_values_def sub_count_def length_concat comp_def)

lemma csi_sub_values_append [simp]: "csi_sub_values (xs @ ys) = csi_sub_values xs @ csi_sub_values ys"
  by (simp add: csi_sub_values_def)

lemma csi_sub_values_Cons: "csi_sub_values (p # pss) = map opt_value (snd p) @ csi_sub_values pss"
  by (simp add: csi_sub_values_def)

lemma unat_byte: "n < 256 \<Longrightarrow> unat (word_of_nat n :: byte) = n"
  by (simp add: unat_of_nat)

lemma uint_byte: "n < 256 \<Longrightarrow> uint (word_of_nat n :: byte) = int n"
  by (simp add: uint_nat unat_byte)

text \<open>The parameter at a position, with its sub-parameters, as long as their positions fit into a byte.\<close>

lemma csi_parameters_at:
  "VTParameters_at (csi_parameters (pre @ p # post)) (length pre) = opt_value (fst p)"
  by (simp add: VTParameters_at_def csi_parameters_def csi_values_def nth_append)

lemma csi_parameters_hasSubParamsFor:
  assumes "sub_count (pre @ p # post) < 256"
  shows "VTParameters_hasSubParamsFor (csi_parameters (pre @ p # post)) (length pre) \<longleftrightarrow> snd p \<noteq> []"
proof -
  have "(word_of_nat (sub_count pre) :: byte) < word_of_nat (sub_count pre + length (snd p)) \<longleftrightarrow> snd p \<noteq> []"
    using assms by (simp add: word_less_nat_alt unat_byte del: of_nat_add)
  then show ?thesis
    by (simp add: VTParameters_hasSubParamsFor_def csi_parameters_def csi_ranges_at Let_def)
qed

lemma csi_parameters_subParamsFor:
  assumes "sub_count (pre @ p # post) < 256"
  shows "VTParameters_subParamsFor (csi_parameters (pre @ p # post)) (length pre) = Some (map opt_value (snd p))"
proof -
  have "nat (uint (word_of_nat (sub_count pre + length (snd p)) :: byte) - uint (word_of_nat (sub_count pre) :: byte))
      = length (snd p)"
    using assms by (simp add: uint_byte del: of_nat_add)
  then show ?thesis
    using assms
    by (simp add: VTParameters_subParamsFor_def csi_parameters_def csi_ranges_at Let_def span_subspan_def unat_byte
        csi_sub_values_Cons)
qed

subsection \<open>The options of an SGR sequence\<close>

datatype sgr_layer = FgLayer | BgLayer | UlLayer

primrec layer_code :: "sgr_layer \<Rightarrow> nat" where
  "layer_code FgLayer = 38" | "layer_code BgLayer = 48" | "layer_code UlLayer = 58"

primrec layer_set :: "sgr_layer \<Rightarrow> TextColor \<Rightarrow> TextAttribute \<Rightarrow> TextAttribute" where
  "layer_set FgLayer c a = a\<lparr>ta_foreground := c\<rparr>"
| "layer_set BgLayer c a = a\<lparr>ta_background := c\<rparr>"
| "layer_set UlLayer c a = a\<lparr>ta_underlineColor := c\<rparr>"

text \<open>
  A plain option; a colour of the 256 colour table or an RGB colour in the form with semicolons
  (\<open>38;5;n\<close>, \<open>38;2;r;g;b\<close>) and with colons (\<open>38:5:n\<close>, \<open>38:2::r:g:b\<close>); an underline style (\<open>4:n\<close>).
\<close>

datatype sgr_item =
    Plain "nat option"
  | Indexed bool nat
  | Direct bool nat nat nat
  | Style nat
  | SubIndexed sgr_layer nat
  | SubDirect sgr_layer nat nat nat

abbreviation fg_or_bg :: "bool \<Rightarrow> sgr_layer" where
  "fg_or_bg fg \<equiv> if fg then FgLayer else BgLayer"

fun sgr_params :: "sgr_item \<Rightarrow> csi_param list" where
  "sgr_params (Plain v) = [(v, [])]"
| "sgr_params (Indexed fg n) = [(Some (layer_code (fg_or_bg fg)), []), (Some 5, []), (Some n, [])]"
| "sgr_params (Direct fg r g b) =
     [(Some (layer_code (fg_or_bg fg)), []), (Some 2, []), (Some r, []), (Some g, []), (Some b, [])]"
| "sgr_params (Style n) = [(Some 4, [Some n])]"
| "sgr_params (SubIndexed l n) = [(Some (layer_code l), [Some 5, Some n])]"
| "sgr_params (SubDirect l r g b) = [(Some (layer_code l), [Some 2, None, Some r, Some g, Some b])]"

text \<open>A plain option is not the start of an extended colour.\<close>

fun sgr_item_ok :: "sgr_item \<Rightarrow> bool" where
  "sgr_item_ok (Plain v) \<longleftrightarrow> v \<noteq> Some 38 \<and> v \<noteq> Some 48"
| "sgr_item_ok _ \<longleftrightarrow> True"

text \<open>A colour with a component above 255, or an underline style above 5, has no effect.\<close>

definition set_indexed :: "sgr_layer \<Rightarrow> nat \<Rightarrow> TextAttribute \<Rightarrow> TextAttribute" where
  "set_indexed l n a = (if n \<le> 255 then layer_set l (TextColor_index (word_of_nat n) True) a else a)"

definition set_direct :: "sgr_layer \<Rightarrow> nat \<Rightarrow> nat \<Rightarrow> nat \<Rightarrow> TextAttribute \<Rightarrow> TextAttribute" where
  "set_direct l r g b a =
     (if r \<le> 255 \<and> g \<le> 255 \<and> b \<le> 255
      then layer_set l \<lparr>tc_red = word_of_nat r, tc_green = word_of_nat g, tc_blue = word_of_nat b, tc_meta = IsRgb\<rparr> a else a)"

definition sgr_plain :: "nat option \<Rightarrow> TextAttribute \<Rightarrow> TextAttribute" where
  "sgr_plain v a = (let opt = int (case v of None \<Rightarrow> 0 | Some n \<Rightarrow> n) in sgr_indexed opt (sgr_flag opt a))"

fun sgr_meaning :: "sgr_item \<Rightarrow> TextAttribute \<Rightarrow> TextAttribute" where
  "sgr_meaning (Plain v) a = sgr_plain v a"
| "sgr_meaning (Indexed fg n) a = set_indexed (fg_or_bg fg) n a"
| "sgr_meaning (Direct fg r g b) a = set_direct (fg_or_bg fg) r g b a"
| "sgr_meaning (Style n) a = (if n \<le> 5 then SetUnderlineStyle n a else a)"
| "sgr_meaning (SubIndexed l n) a = set_indexed l n a"
| "sgr_meaning (SubDirect l r g b) a = set_direct l r g b a"

lemma RGB_colour: "TextColor_rgb (RGB r g b) = \<lparr>tc_red = r, tc_green = g, tc_blue = b, tc_meta = IsRgb\<rparr>"
proof -
  have high: "\<not> bit x (8 + n)" for x :: byte and n using bit_imp_le_length [of x "8 + n"] by auto
  have higher: "\<not> bit x (16 + n)" for x :: byte and n using bit_imp_le_length [of x "16 + n"] by auto
  have "ucast (RGB r g b) = r" by (rule bit_word_eqI) (auto simp: RGB_def bit_simps)
  moreover have "ucast (drop_bit 8 (RGB r g b)) = g" by (rule bit_word_eqI) (auto simp: RGB_def bit_simps high)
  moreover have "ucast (drop_bit 16 (RGB r g b)) = b" by (rule bit_word_eqI) (auto simp: RGB_def bit_simps high higher)
  ultimately show ?thesis by (simp add: TextColor_rgb_def)
qed

lemma csi_parameters_nth:
  "VTParameters_at (csi_parameters pss) i = (if i < length pss then opt_value (fst (pss ! i)) else VTParameter_default)"
  by (simp add: VTParameters_at_def csi_parameters_def csi_values_def)

lemma opt_value_enum [simp]:
  "VTParameter_value_or (opt_value (Some n)) 0 = int (min n 65535)" "VTParameter_value_or (opt_value None) 0 = 0"
  "VTParameter_to_enum (opt_value (Some n)) = int (min n 65535)" "VTParameter_to_enum (opt_value None) = 0"
  by (simp_all add: opt_value_def VTParameter_value_or_def VTParameter_default_def VTParameter_to_enum_def)

lemma byte_of_nat [simp]: "byte_of (int n) = word_of_nat n"
  by (simp add: byte_of_def)

lemma small_min [simp]: "min n 65535 \<le> (255 :: nat) \<longleftrightarrow> n \<le> 255" "min n 65535 \<le> (5 :: nat) \<longleftrightarrow> n \<le> 5"
  by (simp_all add: min_def)

lemma large_option: "107 < opt \<Longrightarrow> sgr_indexed opt (sgr_flag opt a) = a"
  by (simp add: sgr_indexed_def sgr_flag_def)

lemma clamped_option: "sgr_indexed (int (min n 65535)) (sgr_flag (int (min n 65535)) a) = sgr_plain (Some n) a"
  by (simp add: sgr_plain_def Let_def min_def large_option)

lemma layer_code_range [simp]: "0 < layer_code l" "layer_code l \<le> 65535"
  by (cases l; simp)+

lemma sub_option_step:
  assumes "sub_count (pre @ (Some k, subs) # post) < 256" "subs \<noteq> []" "k \<le> 65535"
  shows "ApplyGraphicsOption (csi_parameters (pre @ (Some k, subs) # post)) (length pre) a =
    Some (1, ApplyGraphicsOptionWithSubParams (VTParameter (int k)) (map opt_value subs) a)"
  using assms csi_parameters_hasSubParamsFor [OF assms(1)] csi_parameters_subParamsFor [OF assms(1)]
  by (simp add: ApplyGraphicsOption_def csi_parameters_at Let_def)

lemma sub_meanings [simp]:
  "ApplyGraphicsOptionWithSubParams (VTParameter 4) [opt_value (Some n)] a = (if n \<le> 5 then SetUnderlineStyle n a else a)"
  "ApplyGraphicsOptionWithSubParams (VTParameter (int (layer_code l))) [opt_value (Some 5), opt_value (Some n)] a =
     set_indexed l n a"
  "ApplyGraphicsOptionWithSubParams (VTParameter (int (layer_code l)))
     [opt_value (Some 2), opt_value None, opt_value (Some r), opt_value (Some g), opt_value (Some b)] a = set_direct l r g b a"
proof -
  show "ApplyGraphicsOptionWithSubParams (VTParameter 4) [opt_value (Some n)] a = (if n \<le> 5 then SetUnderlineStyle n a else a)"
    by (simp add: ApplyGraphicsOptionWithSubParams_def VTParameter_to_int_def SetUnderlineStyleHelper_def
        VTSubParameters_at_def Let_def)
  show "ApplyGraphicsOptionWithSubParams (VTParameter (int (layer_code l))) [opt_value (Some 5), opt_value (Some n)] a =
     set_indexed l n a"
    by (cases l) (simp_all add: ApplyGraphicsOptionWithSubParams_def VTParameter_to_int_def SetRgbColorsHelperFromSubParams_def
        VTSubParameters_at_def Let_def applyColor_def set_indexed_def)
  show "ApplyGraphicsOptionWithSubParams (VTParameter (int (layer_code l)))
     [opt_value (Some 2), opt_value None, opt_value (Some r), opt_value (Some g), opt_value (Some b)] a = set_direct l r g b a"
    by (cases l) (simp_all add: ApplyGraphicsOptionWithSubParams_def VTParameter_to_int_def SetRgbColorsHelperFromSubParams_def
        VTSubParameters_at_def Let_def applyColor_def set_direct_def RGB_colour)
qed

lemma option_step:
  assumes "sgr_item_ok it" "sub_count (pre @ sgr_params it @ post) < 256"
  shows "ApplyGraphicsOption (csi_parameters (pre @ sgr_params it @ post)) (length pre) a =
    Some (length (sgr_params it), sgr_meaning it a)"
proof (cases it)
  case (Plain v)
  then show ?thesis
    using assms csi_parameters_hasSubParamsFor [of pre "(v, [])" post] clamped_option
    by (cases v) (auto simp: ApplyGraphicsOption_def Let_def csi_parameters_at sgr_plain_def min_def)
next
  case (Indexed fg n)
  then show ?thesis
    using assms csi_parameters_hasSubParamsFor [of pre "(Some (layer_code (fg_or_bg fg)), [])"]
    by (auto simp: ApplyGraphicsOption_def Let_def csi_parameters_at SetRgbColorsHelper_def VTParameters_at_subspan
        csi_parameters_nth nth_append set_indexed_def)
next
  case (Direct fg r g b)
  then show ?thesis
    using assms csi_parameters_hasSubParamsFor [of pre "(Some (layer_code (fg_or_bg fg)), [])"]
    by (auto simp: ApplyGraphicsOption_def Let_def csi_parameters_at SetRgbColorsHelper_def VTParameters_at_subspan
        csi_parameters_nth nth_append set_direct_def SetColor_def RGB_colour)
next
  case (Style n)
  then show ?thesis using assms sub_option_step [of pre 4 "[Some n]" post] by simp
next
  case (SubIndexed l n)
  then show ?thesis
    using assms sub_option_step [of pre "layer_code l" "[Some 5, Some n]" post] by simp
next
  case (SubDirect l r g b)
  then show ?thesis
    using assms sub_option_step [of pre "layer_code l" "[Some 2, None, Some r, Some g, Some b]" post]
    by simp
qed

lemma sgr_params_nonempty [simp]: "sgr_params it \<noteq> []"
  by (cases it) auto

lemma items_loop:
  assumes "\<forall>it \<in> set items. sgr_item_ok it" "sub_count (pre @ concat (map sgr_params items)) < 256"
    and "pre @ concat (map sgr_params items) \<noteq> []"
  shows "ApplyGraphicsOptions_from (csi_parameters (pre @ concat (map sgr_params items))) (length pre) a =
    Some (fold sgr_meaning items a)"
  using assms
proof (induction items arbitrary: pre a)
  case Nil
  then show ?case
    by (simp add: ApplyGraphicsOptions_from.simps VTParameters_size_def csi_parameters_def csi_values_def Suc_le_eq)
next
  case (Cons it items)
  let ?ps = "csi_parameters (pre @ sgr_params it @ concat (map sgr_params items))"
  have "length pre < VTParameters_size ?ps"
    by (simp add: VTParameters_size_def csi_parameters_def csi_values_def less_max_iff_disj)
  then show ?case
    using option_step [of it pre "concat (map sgr_params items)" a] Cons.prems Cons.IH [of "pre @ sgr_params it" "sgr_meaning it a"]
    by (subst ApplyGraphicsOptions_from.simps) simp
qed

text \<open>The parameters of a whole sequence; the empty list and a single empty parameter mean a reset.\<close>

lemma sgr_sequence:
  assumes "\<forall>it \<in> set items. sgr_item_ok it" "sub_count (concat (map sgr_params items)) < 256" "items \<noteq> []"
  shows "SetGraphicsRendition (csi_parameters (csi_seen (concat (map sgr_params items)))) a = Some (fold sgr_meaning items a)"
proof (cases "concat (map sgr_params items) = [(None, [])]")
  case True
  obtain it items' where items: "items = it # items'" using assms(3) by (cases items) auto
  with True have "sgr_params it @ concat (map sgr_params items') = [(None, [])]" by simp
  then have "sgr_params it = [(None, [])]" "concat (map sgr_params items') = []"
    by (auto simp: append_eq_Cons_conv)
  then have "items = [Plain None]" unfolding items by (cases it; cases items') auto
  moreover have "SetGraphicsRendition (csi_parameters []) a = Some (sgr_plain None a)"
    by (simp add: SetGraphicsRendition_def ApplyGraphicsOptions_def ApplyGraphicsOptions_from.simps VTParameters_size_def
        csi_parameters_def csi_values_def csi_sub_values_def ApplyGraphicsOption_def Let_def VTParameters_hasSubParamsFor_def
        VTParameters_at_def VTParameter_to_enum_def VTParameter_value_or_def VTParameter_default_def sgr_plain_def)
  ultimately show ?thesis by (simp add: csi_seen_def)
next
  case False
  moreover have "concat (map sgr_params items) \<noteq> []" using assms(3) by (cases items) auto
  ultimately show ?thesis
    using items_loop [of items "[]" a] assms by (simp add: csi_seen_def SetGraphicsRendition_def ApplyGraphicsOptions_def)
qed

lemma sub_count_bound: "\<forall>p \<in> set pss. length (snd p) \<le> k \<Longrightarrow> sub_count pss \<le> k * length pss"
  by (induction pss) auto

lemma sub_count_ok: "csi_text_ok marker pss ims f \<Longrightarrow> sub_count pss < 256"
  using sub_count_bound [of pss 6] by (auto simp: csi_text_ok_def)

text \<open>No parameter list the parser delivers makes a \<open>subspan\<close> fail.\<close>

lemma options_defined:
  assumes "sub_count pss < 256"
  shows "\<exists>a'. ApplyGraphicsOptions_from (csi_parameters pss) i a = Some a'"
proof (induction "csi_parameters pss" i a rule: ApplyGraphicsOptions_from.induct)
  case (1 i a)
  have "ApplyGraphicsOption (csi_parameters pss) i a \<noteq> None"
  proof (cases "i < length pss")
    case True
    then have "pss = take i pss @ pss ! i # drop (Suc i) pss" by (simp add: id_take_nth_drop)
    then have "VTParameters_subParamsFor (csi_parameters pss) i = Some (map opt_value (snd (pss ! i)))"
      using csi_parameters_subParamsFor [of "take i pss" "pss ! i" "drop (Suc i) pss"] assms True by simp
    then show ?thesis by (simp add: ApplyGraphicsOption_def Let_def split_beta)
  next
    case False
    then show ?thesis
      by (simp add: ApplyGraphicsOption_def Let_def split_beta VTParameters_hasSubParamsFor_def csi_parameters_def)
  qed
  then show ?case using 1 by (subst ApplyGraphicsOptions_from.simps) (auto split: option.split)
qed

subsection \<open>Documents\<close>

text \<open>
  A document is a list of segments: text, an SGR sequence, DECSCA, XTPUSHSGR of some parts (of everything,
  for the empty list) and XTPOPSGR.
\<close>

datatype segment = Write wstring | Sgr "sgr_item list" | Protect nat | Save "nat list" | Restore

fun segment_text :: "segment \<Rightarrow> wstring" where
  "segment_text (Write s) = s"
| "segment_text (Sgr items) = csi_text '''' (concat (map sgr_params items)) '''' CHR ''m''"
| "segment_text (Protect n) = csi_text '''' [(Some n, [])] [CHR 34] CHR ''q''"
| "segment_text (Save parts) = csi_text '''' (map (\<lambda>n. (Some n, [])) parts) ''#'' CHR ''{''"
| "segment_text Restore = csi_text '''' [] ''#'' CHR ''}''"

fun segment_ok :: "segment \<Rightarrow> bool" where
  "segment_ok (Write s) \<longleftrightarrow> s \<noteq> [] \<and> (\<forall>c \<in> set s. \<not> isActionableFromGround c)"
| "segment_ok (Sgr items) \<longleftrightarrow> items \<noteq> [] \<and> (\<forall>it \<in> set items. sgr_item_ok it) \<and> length (concat (map sgr_params items)) \<le> 32"
| "segment_ok (Protect n) \<longleftrightarrow> True"
| "segment_ok (Save parts) \<longleftrightarrow> length parts \<le> 32"
| "segment_ok Restore \<longleftrightarrow> True"

text \<open>
  The reference semantics: the characters of the document with the attributes they are written with,
  where the saved attributes are a stack that keeps ten entries.
\<close>

fun render :: "segment list \<Rightarrow> TextAttribute \<Rightarrow> SavedSgrAttributes list \<Rightarrow> (wchar \<times> TextAttribute) list" where
  "render [] a saved = []"
| "render (Write s # segs) a saved = map (\<lambda>c. (c, a)) s @ render segs a saved"
| "render (Sgr items # segs) a saved = render segs (fold sgr_meaning items a) saved"
| "render (Protect n # segs) a saved = render segs (protect_option (int n) a) saved"
| "render (Save parts # segs) a saved = render segs a (take 10
     (\<lparr>saved_TextAttributes = a, saved_ValidParts = sgr_validParts (csi_parameters (map (\<lambda>n. (Some n, [])) parts))\<rparr> # saved))"
| "render (Restore # segs) a saved = (case saved of
     [] \<Rightarrow> render segs a []
   | e # saved' \<Rightarrow> render segs (sgr_restore e a) saved')"

text \<open>
  What the terminal does: the calls of \<open>ITermDispatch\<close> that concern the attributes of the active page,
  and the characters printed with the attributes at that moment (before the translation by the
  character sets). Any other call is outside this semantics.
\<close>

definition rendition_call :: "dispatch_call \<Rightarrow> TextAttribute \<times> SgrStack \<Rightarrow> (TextAttribute \<times> SgrStack) option" where
  "rendition_call call s =
     (case snd call of
        [] \<Rightarrow> if fst call = ''PopGraphicsRendition'' then Some (PopGraphicsRendition s) else None
      | arg # args \<Rightarrow> (case arg of
          Params ps \<Rightarrow>
            if fst call = ''SetGraphicsRendition'' then map_option (\<lambda>a. (a, snd s)) (SetGraphicsRendition ps (fst s))
            else if fst call = ''SetCharacterProtectionAttribute'' then Some (SetCharacterProtectionAttribute ps (fst s), snd s)
            else if fst call = ''PushGraphicsRendition'' then Some (PushGraphicsRendition ps s)
            else None
        | _ \<Rightarrow> None))"

fun styled :: "transcript_event list \<Rightarrow> TextAttribute \<times> SgrStack \<Rightarrow> (wchar \<times> TextAttribute) list option" where
  "styled [] s = Some []"
| "styled (Printed c # es) s = map_option ((#) (c, fst s)) (styled es s)"
| "styled (Called call # es) s = (case rendition_call call s of None \<Rightarrow> None | Some s' \<Rightarrow> styled es s')"
| "styled (e # es) s = None"

subsection \<open>From the text of a document to its rendering\<close>

fun segment_events :: "segment \<Rightarrow> transcript_event list" where
  "segment_events (Write s) = map Printed s"
| "segment_events (Sgr items) =
     [Called (''SetGraphicsRendition'', [Params (csi_parameters (csi_seen (concat (map sgr_params items))))])]"
| "segment_events (Protect n) = [Called (''SetCharacterProtectionAttribute'', [Params (csi_parameters [(Some n, [])])])]"
| "segment_events (Save parts) =
     [Called (''PushGraphicsRendition'', [Params (csi_parameters (map (\<lambda>n. (Some n, [])) parts))])]"
| "segment_events Restore = [Called (''PopGraphicsRendition'', [])]"

lemma rendition_calls:
  "csi_calls c (VTID_FromString ''m'') ps = [(''SetGraphicsRendition'', [Params ps])]"
  "csi_calls c (VTID_FromString [CHR 34, CHR ''q'']) ps = [(''SetCharacterProtectionAttribute'', [Params ps])]"
  "csi_calls c (VTID_FromString ''#{'') ps = [(''PushGraphicsRendition'', [Params ps])]"
  "csi_calls c (VTID_FromString ''#}'') ps = [(''PopGraphicsRendition'', [])]"
  by (subst csi_calls_spelled; simp add: spelled_def csi_table_def csi_table_cursor_def csi_table_report_def csi_table_area_def)+

lemmas evaluated_rendition_calls = rendition_calls [simplified]

lemma sgr_params_subs: "p \<in> set (sgr_params it) \<Longrightarrow> length (snd p) \<le> 6"
  by (cases it) auto

lemma segment_transcript:
  fixes sm :: "(transcript_event list, 'h) terminal" and oenv n
  assumes "quiet_policy tp" "terminal_ready sm" "segment_ok seg"
  defines "sm' \<equiv> sm_ProcessString (macro_env oenv (transcript_dispatch tp) n) (segment_text seg) sm"
  shows "terminal_transcript sm' = terminal_transcript sm @ segment_events seg \<and> terminal_ready sm'"
proof -
  note csi = terminal_csi [OF assms(1,2), where oenv = oenv and n = n]
  note simps = csi_text_ok_def wchar_of_char_def csi_seen_def evaluated_rendition_calls transcribe_def
  show ?thesis
  proof (cases seg)
    case (Write s)
    then show ?thesis
      using terminal_print(1,3) [OF assms(1,2), of s oenv n] assms(3) by (simp add: sm'_def)
  next
    case (Sgr items)
    then show ?thesis
      using csi [of "''''" "concat (map sgr_params items)" "''''" "CHR ''m''"] assms(3)
      by (auto simp: sm'_def csi_text_ok_def wchar_of_char_def evaluated_rendition_calls transcribe_def sgr_params_subs)
  next
    case (Protect n)
    then show ?thesis
      using csi [of "''''" "[(Some n, [])]" "[CHR 34]" "CHR ''q''"] by (simp add: sm'_def simps)
  next
    case (Save parts)
    then have "csi_seen (map (\<lambda>n. (Some n, [])) parts) = map (\<lambda>n. (Some n, [])) parts"
      by (cases parts) (auto simp: csi_seen_def)
    then show ?thesis
      using csi [of "''''" "map (\<lambda>n. (Some n, [])) parts" "''#''" "CHR ''{''"] Save assms(3)
      by (simp add: sm'_def csi_text_ok_def wchar_of_char_def evaluated_rendition_calls transcribe_def comp_def)
  next
    case Restore
    then show ?thesis
      using csi [of "''''" "[]" "''#''" "CHR ''}''"] by (simp add: sm'_def simps)
  qed
qed

lemma document_transcript:
  fixes sm :: "(transcript_event list, 'h) terminal" and oenv n
  assumes "quiet_policy tp" "terminal_ready sm" "\<forall>seg \<in> set segs. segment_ok seg" "segs \<noteq> []"
  defines "env \<equiv> macro_env oenv (transcript_dispatch tp) n"
  shows "terminal_transcript (sm_ProcessString env (concat (map segment_text segs)) sm) =
    terminal_transcript sm @ concat (map segment_events segs)"
  using assms(2-4)
proof (induction segs arbitrary: sm)
  case (Cons seg segs)
  note seg = segment_transcript [OF assms(1) Cons.prems(1), of seg oenv n, folded env_def]
  show ?case
  proof (cases segs)
    case Nil
    then show ?thesis using seg Cons.prems by simp
  next
    case (Cons seg' segs')
    then show ?thesis
      using seg Cons.prems Cons.IH [of "sm_ProcessString env (segment_text seg) sm"]
        terminal_append(1) [OF Cons.prems(1), of oenv tp n "segment_text seg" "concat (map segment_text segs)", folded env_def]
      by simp
  qed
qed simp

lemma styled_print: "styled (map Printed s @ es) st = map_option ((@) (map (\<lambda>c. (c, fst st)) s)) (styled es st)"
  by (induction s) (simp_all add: option.map_comp comp_def option.map_id0 option.map_ident)

lemma protect_parameter: "SetCharacterProtectionAttribute (csi_parameters [(Some n, [])]) a = protect_option (int n) a"
  by (simp add: SetCharacterProtectionAttribute_def VTParameters_size_def csi_parameters_def csi_values_def
      VTParameters_at_def protect_option_def min_def)

lemma stack_steps:
  assumes "sgr_ok st"
  shows "sgr_ok (SgrStack_Push a ps st)"
    and "sgr_content (SgrStack_Push a ps st) =
      take 10 (\<lparr>saved_TextAttributes = a, saved_ValidParts = sgr_validParts ps\<rparr> # sgr_content st)"
    and "sgr_ok (snd (SgrStack_Pop a st))" and "sgr_content (snd (SgrStack_Pop a st)) = tl (sgr_content st)"
    and "fst (SgrStack_Pop a st) = (case sgr_content st of [] \<Rightarrow> a | e # es \<Rightarrow> sgr_restore e a)"
  using sgr_ring.push_ok [OF assms] sgr_ring.push_content [OF assms] sgr_ring.pop_ok [OF assms]
    sgr_ring.pop_content [OF assms] sgr_ring.pop_top [OF assms]
  by (auto simp: SgrStack_Push_eq [OF assms] SgrStack_Pop_eq [OF assms] split: list.splits)

lemma styled_render:
  assumes "\<forall>seg \<in> set segs. segment_ok seg" "sgr_ok st"
  shows "styled (concat (map segment_events segs)) (a, st) = Some (render segs a (sgr_content st))"
  using assms
proof (induction segs arbitrary: a st)
  case (Cons seg segs)
  have IH: "sgr_ok st' \<Longrightarrow> styled (concat (map segment_events segs)) (a', st') = Some (render segs a' (sgr_content st'))" for a' st'
    using Cons by simp
  show ?case
  proof (cases seg)
    case (Write s)
    then show ?thesis using IH [OF Cons.prems(2)] by (simp add: styled_print)
  next
    case (Sgr items)
    have "sub_count (concat (map sgr_params items)) \<le> 6 * length (concat (map sgr_params items))"
      by (intro sub_count_bound) (auto simp: sgr_params_subs)
    with Sgr Cons.prems show ?thesis
      using IH [OF Cons.prems(2)] sgr_sequence [of items a] by (simp add: rendition_call_def)
  next
    case (Protect n)
    then show ?thesis using IH [OF Cons.prems(2)] by (simp add: rendition_call_def protect_parameter)
  next
    case (Save parts)
    then show ?thesis
      using IH [OF stack_steps(1) [OF Cons.prems(2)]] stack_steps(2) [OF Cons.prems(2)]
      by (simp add: rendition_call_def PushGraphicsRendition_def)
  next
    case Restore
    have "styled (concat (map segment_events segs)) (SgrStack_Pop a st) =
      Some (render segs (fst (SgrStack_Pop a st)) (tl (sgr_content st)))"
      using IH [OF stack_steps(3) [OF Cons.prems(2)], of "fst (SgrStack_Pop a st)"] stack_steps(4) [OF Cons.prems(2)]
      by (metis prod.collapse)
    then show ?thesis
      using Restore by (simp add: rendition_call_def PopGraphicsRendition_def stack_steps(5) [OF Cons.prems(2)] split: list.split)
  qed
qed simp

subsection \<open>Properties\<close>

text \<open>
  C3. From the characters of an application to styled text: the text of a document, given to the parser,
  makes calls of the terminal after which every character of the document is shown with the attributes
  the options before it denote, the saved attributes being a stack of ten. The options include the
  colours and underline styles with sub-parameters; values beyond their range have no effect.
\<close>

theorem document_styled:
  fixes sm :: "(transcript_event list, 'h) terminal" and oenv n
  assumes "quiet_policy tp" "terminal_ready sm" "\<forall>seg \<in> set segs. segment_ok seg" "segs \<noteq> []" "sgr_ok st"
  defines "sm' \<equiv> sm_ProcessString (macro_env oenv (transcript_dispatch tp) n) (concat (map segment_text segs)) sm"
  shows "\<exists>events. terminal_transcript sm' = terminal_transcript sm @ events \<and>
    styled events (a, st) = Some (render segs a (sgr_content st))"
  using document_transcript [OF assms(1-4), of oenv n] styled_render [OF assms(3,5), of a] by (auto simp: sm'_def)

definition example_document :: "segment list" where
  "example_document =
     [Sgr [Plain (Some 1), SubDirect FgLayer 1 2 3], Save [], Sgr [Plain None], Write [0x61], Restore, Write [0x62]]"

definition example_attributes :: TextAttribute where
  "example_attributes = SetIntense True (layer_set FgLayer \<lparr>tc_red = 1, tc_green = 2, tc_blue = 3, tc_meta = IsRgb\<rparr>
     TextAttribute_default)"

theorem document_styled_witness:
  "\<exists>events. terminal_transcript (sm_ProcessString (macro_env no_osc (transcript_dispatch writer) 17)
       (concat (map segment_text example_document)) (terminal_new [])) = events \<and>
     styled events (TextAttribute_default, SgrStack_init) = Some [(0x61, TextAttribute_default), (0x62, example_attributes)]"
proof -
  have ok: "\<forall>seg \<in> set example_document. segment_ok seg"
    by (simp add: example_document_def isActionableFromGround_def)
  have st: "sgr_ok SgrStack_init" by (simp add: sgr_ok_def SgrStack_init_def c_MaxStoredSgrPushes_def)
  have "render example_document TextAttribute_default (sgr_content SgrStack_init) =
      [(0x61, TextAttribute_default), (0x62, example_attributes)]"
    by (simp add: example_document_def example_attributes_def sgr_restore_def sgr_validParts_def VTParameters_empty_def
        csi_parameters_def csi_values_def sgr_plain_def sgr_indexed_def sgr_flag_def set_direct_def SetIntense_def
        update_flag_def TextAttribute_default_def SetDefaultRenditionAttributes_def ca_Rendition_def sgr_content_def
        SgrStack_init_def)
  then show ?thesis
    using document_styled [OF writer_quiet terminal_new_ready [of "[]"] ok _ st, of no_osc 17 TextAttribute_default]
    by (auto simp: terminal_new_engine example_document_def)
qed

text \<open>
  SGR never fails: for the parameters of every control sequence within the limits of the parser, with
  any sub-parameters, in any order and also when the last colour is incomplete, \<open>SetGraphicsRendition\<close>
  looks up the sub-parameters inside their array and returns.
\<close>

theorem rendition_defined:
  assumes "csi_text_ok marker pss ims f"
  shows "\<exists>a'. SetGraphicsRendition (csi_parameters (csi_seen pss)) a = Some a'"
proof -
  have "sub_count (csi_seen pss) < 256" using sub_count_ok [OF assms] by (simp add: csi_seen_def)
  then show ?thesis using options_defined by (simp add: SetGraphicsRendition_def ApplyGraphicsOptions_def)
qed

theorem rendition_defined_witness:
  "\<exists>a'. SetGraphicsRendition (csi_parameters [(Some 38, [Some 5]), (Some 48, []), (Some 2, [])]) TextAttribute_default = Some a'"
  using rendition_defined [of "''''" "[(Some 38, [Some 5]), (Some 48, []), (Some 2, [])]" "''''" "CHR ''m''" TextAttribute_default]
  by (simp add: csi_text_ok_def csi_seen_def wchar_of_char_def)

end
