(* ===== verification/Ucd_Tables.thy ===== *)
theory Ucd_Tables
  imports Prelude
begin

text \<open>
  The tables of \<open>src/src/types/CodepointWidthDetector.cpp\<close>, generated there from the Unicode character
  database: a trie in four stages that maps a code point to its width class and its grapheme break
  class, and the rules by which neighbouring classes join. The lemmas give the sizes of the arrays and
  the ranges of their entries.
\<close>

definition s_stage0 :: "nat list" where
  "s_stage0 = [
    0x0, 0x20, 0x40, 0x60, 0x80, 0x9f, 0xbf, 0xca, 0xca, 0xca, 0xca, 0xca, 0xca, 0xca, 0xca, 0xca,
    0xca, 0xca, 0xca, 0xca, 0xd8, 0xf8, 0x10a, 0x10e, 0x10b, 0x108, 0x113, 0x133, 0x153, 0x153, 0x153, 0x16f,
    0x18f, 0x1a7, 0x1c7, 0x1e7, 0x133, 0x133, 0x205, 0x133, 0x133, 0x133, 0x133, 0x133, 0x221, 0x236, 0xca, 0xca,
    0x256, 0x276, 0x133, 0x133, 0x133, 0x28b, 0x2ab, 0x2b9, 0x133, 0x2cc, 0x2ea, 0x302, 0x322, 0x33f, 0x35f, 0x37f,
    0xca, 0xca, 0xca, 0xca, 0xca, 0xca, 0xca, 0xca, 0xca, 0xca, 0xca, 0xca, 0xca, 0xca, 0xca, 0xca,
    0xca, 0xca, 0xca, 0xca, 0xca, 0xca, 0xca, 0xca, 0xca, 0xca, 0xca, 0xca, 0xca, 0xca, 0xca, 0x39f,
    0xca, 0xca, 0xca, 0xca, 0xca, 0xca, 0xca, 0xca, 0xca, 0xca, 0xca, 0xca, 0xca, 0xca, 0xca, 0xca,
    0xca, 0xca, 0xca, 0xca, 0xca, 0xca, 0xca, 0xca, 0xca, 0xca, 0xca, 0xca, 0xca, 0xca, 0xca, 0x39f,
    0x133, 0x133, 0x133, 0x133, 0x133, 0x133, 0x133, 0x133, 0x133, 0x133, 0x133, 0x133, 0x133, 0x133, 0x133, 0x133,
    0x133, 0x133, 0x133, 0x133, 0x133, 0x133, 0x133, 0x133, 0x133, 0x133, 0x133, 0x133, 0x133, 0x133, 0x133, 0x133,
    0x133, 0x133, 0x133, 0x133, 0x133, 0x133, 0x133, 0x133, 0x133, 0x133, 0x133, 0x133, 0x133, 0x133, 0x133, 0x133,
    0x133, 0x133, 0x133, 0x133, 0x133, 0x133, 0x133, 0x133, 0x133, 0x133, 0x133, 0x133, 0x133, 0x133, 0x133, 0x133,
    0x133, 0x133, 0x133, 0x133, 0x133, 0x133, 0x133, 0x133, 0x133, 0x133, 0x133, 0x133, 0x133, 0x133, 0x133, 0x133,
    0x133, 0x133, 0x133, 0x133, 0x133, 0x133, 0x133, 0x133, 0x133, 0x133, 0x133, 0x133, 0x133, 0x133, 0x133, 0x133,
    0x133, 0x133, 0x133, 0x133, 0x133, 0x133, 0x133, 0x133, 0x133, 0x133, 0x133, 0x133, 0x133, 0x133, 0x133, 0x133,
    0x133, 0x133, 0x133, 0x133, 0x133, 0x133, 0x133, 0x133, 0x133, 0x133, 0x133, 0x133, 0x133, 0x133, 0x133, 0x133,
    0x133, 0x133, 0x133, 0x133, 0x133, 0x133, 0x133, 0x133, 0x133, 0x133, 0x133, 0x133, 0x133, 0x133, 0x133, 0x133,
    0x133, 0x133, 0x133, 0x133, 0x133, 0x133, 0x133, 0x133, 0x133, 0x133, 0x133, 0x133, 0x133, 0x133, 0x133, 0x133,
    0x133, 0x133, 0x133, 0x133, 0x133, 0x133, 0x133, 0x133, 0x133, 0x133, 0x133, 0x133, 0x133, 0x133, 0x133, 0x133,
    0x133, 0x133, 0x133, 0x133, 0x133, 0x133, 0x133, 0x133, 0x133, 0x133, 0x133, 0x133, 0x133, 0x133, 0x133, 0x133,
    0x133, 0x133, 0x133, 0x133, 0x133, 0x133, 0x133, 0x133, 0x133, 0x133, 0x133, 0x133, 0x133, 0x133, 0x133, 0x133,
    0x133, 0x133, 0x133, 0x133, 0x133, 0x133, 0x133, 0x133, 0x133, 0x133, 0x133, 0x133, 0x133, 0x133, 0x133, 0x133,
    0x133, 0x133, 0x133, 0x133, 0x133, 0x133, 0x133, 0x133, 0x133, 0x133, 0x133, 0x133, 0x133, 0x133, 0x133, 0x133,
    0x133, 0x133, 0x133, 0x133, 0x133, 0x133, 0x133, 0x133, 0x133, 0x133, 0x133, 0x133, 0x133, 0x133, 0x133, 0x133,
    0x133, 0x133, 0x133, 0x133, 0x133, 0x133, 0x133, 0x133, 0x133, 0x133, 0x133, 0x133, 0x133, 0x133, 0x133, 0x133,
    0x133, 0x133, 0x133, 0x133, 0x133, 0x133, 0x133, 0x133, 0x133, 0x133, 0x133, 0x133, 0x133, 0x133, 0x133, 0x133,
    0x133, 0x133, 0x133, 0x133, 0x133, 0x133, 0x133, 0x133, 0x133, 0x133, 0x133, 0x133, 0x133, 0x133, 0x133, 0x133,
    0x133, 0x133, 0x133, 0x133, 0x133, 0x133, 0x133, 0x133, 0x133, 0x133, 0x133, 0x133, 0x133, 0x133, 0x133, 0x133,
    0x3bf, 0x3c7, 0x133, 0x133, 0x133, 0x133, 0x133, 0x133, 0x133, 0x133, 0x133, 0x133, 0x133, 0x133, 0x133, 0x133,
    0x133, 0x133, 0x133, 0x133, 0x133, 0x133, 0x133, 0x133, 0x133, 0x133, 0x133, 0x133, 0x133, 0x133, 0x133, 0x133,
    0x153, 0x153, 0x153, 0x153, 0x153, 0x153, 0x153, 0x153, 0x153, 0x153, 0x153, 0x153, 0x153, 0x153, 0x153, 0x153,
    0x153, 0x153, 0x153, 0x153, 0x153, 0x153, 0x153, 0x153, 0x153, 0x153, 0x153, 0x153, 0x153, 0x153, 0x153, 0x3e7,
    0x153, 0x153, 0x153, 0x153, 0x153, 0x153, 0x153, 0x153, 0x153, 0x153, 0x153, 0x153, 0x153, 0x153, 0x153, 0x153,
    0x153, 0x153, 0x153, 0x153, 0x153, 0x153, 0x153, 0x153, 0x153, 0x153, 0x153, 0x153, 0x153, 0x153, 0x153, 0x3e7]"

definition s_stage1 :: "nat list" where
  "s_stage1 = [
    0x0, 0x4, 0xc, 0x14, 0x1c, 0x24, 0x2a, 0x31, 0x2a, 0x37, 0x2a, 0x3f, 0x47, 0x49, 0x4f, 0x57,
    0x5f, 0x65, 0x6d, 0x2a, 0x2a, 0x2a, 0x73, 0x7b, 0x83, 0x8a, 0x2a, 0x91, 0x98, 0x9f, 0xa3, 0xaa,
    0xb2, 0xb8, 0xbe, 0xc5, 0xcd, 0xd5, 0xdd, 0xe5, 0xed, 0xf5, 0xfd, 0x105, 0x10d, 0x115, 0x11d, 0x125,
    0x12d, 0x135, 0x13d, 0x145, 0x14d, 0x155, 0x15d, 0x164, 0x16b, 0x173, 0x175, 0x17d, 0x182, 0x18a, 0x192, 0x19a,
    0x19d, 0x1a5, 0x1ad, 0x2a, 0x1b5, 0x1b9, 0x1bd, 0x1c2, 0x2a, 0x2a, 0x2a, 0x2a, 0x2a, 0x1ca, 0x2a, 0x2a,
    0x2a, 0x2a, 0x2a, 0x2a, 0x2a, 0x2a, 0x2a, 0x2a, 0x2a, 0x2a, 0x2a, 0x2a, 0x1d0, 0x1d7, 0x1de, 0x1e6,
    0x1ed, 0x2a, 0x1f5, 0x2a, 0x1fb, 0x2a, 0x2a, 0x2a, 0x203, 0x209, 0x211, 0x218, 0x220, 0x228, 0x230, 0x236,
    0x23d, 0x2a, 0x2a, 0x244, 0x2a, 0x2a, 0x2a, 0x47, 0x2a, 0x2a, 0x2a, 0x2a, 0x2a, 0x2a, 0x2a, 0x2a,
    0x24c, 0x254, 0x25c, 0x262, 0x26a, 0x272, 0x27a, 0x282, 0x28a, 0x292, 0x29a, 0x2a, 0x2a2, 0x2a, 0x2a9, 0x2b0,
    0x2a, 0x2b8, 0x2bc, 0x2c4, 0x2a, 0x2a, 0x2cc, 0x2d4, 0x2dc, 0x2e4, 0x2ec, 0x2f4, 0x2fc, 0x304, 0x30c, 0x2a,
    0x2a, 0x2a, 0x2a, 0x314, 0x2a, 0x2a, 0x2a, 0x2a, 0x2a, 0x2a, 0x2a, 0x31c, 0x322, 0x2a, 0x2a, 0x2a,
    0x2a, 0x2a, 0x326, 0x2a, 0x32d, 0x2a, 0x43, 0x2a, 0x2a, 0x335, 0x339, 0x341, 0x341, 0x341, 0x347, 0x34d,
    0x355, 0x35b, 0x341, 0x363, 0x341, 0x36a, 0x36e, 0x374, 0x37b, 0x381, 0x341, 0x341, 0x341, 0x341, 0x341, 0x341,
    0x341, 0x341, 0x341, 0x341, 0x341, 0x341, 0x341, 0x341, 0x341, 0x341, 0x341, 0x341, 0x341, 0x341, 0x341, 0x341,
    0x341, 0x341, 0x341, 0x341, 0x341, 0x341, 0x341, 0x341, 0x341, 0x341, 0x388, 0x390, 0x2a, 0x2a, 0x2a, 0x2a,
    0x2a, 0x393, 0x39b, 0x17f, 0x2a, 0x2a, 0x2a, 0x2a, 0x3a3, 0x2a, 0x3ab, 0x3b3, 0x3bb, 0x3c3, 0x3cb, 0x3d3,
    0x3d8, 0x3e0, 0x3e8, 0x3f0, 0x2a, 0x2a, 0x2a, 0x3f7, 0x3ff, 0x400, 0x401, 0x402, 0x403, 0x404, 0x405, 0x3ff,
    0x400, 0x401, 0x402, 0x403, 0x404, 0x405, 0x3ff, 0x400, 0x401, 0x402, 0x403, 0x404, 0x405, 0x3ff, 0x400, 0x401,
    0x402, 0x403, 0x404, 0x405, 0x3ff, 0x400, 0x401, 0x402, 0x403, 0x404, 0x405, 0x3ff, 0x400, 0x401, 0x402, 0x403,
    0x404, 0x40c, 0x414, 0x2a, 0x2a, 0x2a, 0x2a, 0x2a, 0x2a, 0x2a, 0x2a, 0x2a, 0x2a, 0x2a, 0x2a, 0x2a,
    0x2a, 0x2a, 0x2a, 0x2a, 0x2a, 0x2a, 0x2a, 0x2a, 0x2a, 0x2a, 0x2a, 0x2a, 0x2a, 0x2a, 0x2a, 0x2a,
    0x2a, 0x2a, 0x2a, 0x2bc, 0x2bc, 0x2bc, 0x2bc, 0x2bc, 0x2bc, 0x2bc, 0x2bc, 0x2bc, 0x2bc, 0x2bc, 0x2bc, 0x2bc,
    0x2bc, 0x2bc, 0x2bc, 0x2bc, 0x2bc, 0x2bc, 0x2bc, 0x2bc, 0x2bc, 0x2bc, 0x2bc, 0x2bc, 0x2bc, 0x2bc, 0x2bc, 0x2bc,
    0x2bc, 0x2bc, 0x2bc, 0x341, 0x341, 0x341, 0x341, 0x341, 0x341, 0x341, 0x341, 0x41c, 0x2a, 0x2a, 0x2a, 0x2a,
    0x2a, 0x2a, 0x2a, 0x2a, 0x2a, 0x2a, 0x2a, 0x424, 0x42a, 0x2a, 0x32d, 0x355, 0x432, 0x437, 0x43b, 0x2a,
    0x2a, 0x2a, 0x2a, 0x2a, 0x2a, 0x2a, 0x443, 0x2a, 0x2a, 0x2a, 0x44b, 0x2a, 0x450, 0x2a, 0x2a, 0x2a,
    0x2a, 0x2a, 0x2a, 0x2a, 0x2a, 0x2a, 0x2a, 0x2a, 0x2a, 0x2a, 0x2a, 0x2a, 0x2a, 0x2a, 0x2a, 0x458,
    0x2a, 0x2a, 0x1f1, 0x2a, 0x2a, 0x2a, 0x2a, 0x2a, 0x2a, 0x2a, 0x2a, 0x460, 0x465, 0x2a, 0x2a, 0x2a,
    0x2a, 0x46b, 0x471, 0x2a, 0xa7, 0x479, 0x2a, 0x481, 0x489, 0x491, 0x499, 0x4a1, 0x4a9, 0x4b1, 0x4b9, 0x4bc,
    0x4c4, 0x2a, 0x4c9, 0x4d1, 0x4d9, 0x4e0, 0x4e8, 0x4ed, 0x4f5, 0x4f9, 0x501, 0x2a, 0x2a, 0x504, 0x50c, 0x510,
    0x518, 0x51b, 0x2a, 0x522, 0x2a, 0x2a, 0x2a, 0x528, 0x2a, 0x2a, 0x2a, 0x530, 0x538, 0x2a, 0x53e, 0x546,
    0x54e, 0x556, 0x2a, 0x2a, 0x2a, 0x2a, 0x2a, 0x55a, 0x2a, 0x562, 0x2a, 0x569, 0x571, 0x578, 0x2a, 0x2a,
    0x2a, 0x2a, 0x57b, 0x583, 0x58b, 0x2a, 0x2a, 0x2a, 0x2a, 0x2a, 0x2a, 0x2a, 0x2a, 0x2a, 0x2a, 0x2a,
    0x2a, 0x2a, 0x2a, 0x2a, 0x2a, 0x211, 0x593, 0x2a, 0x2a, 0x2a, 0x2a, 0x2a, 0x2a, 0x2a, 0x2a, 0x2a,
    0x2a, 0x2a, 0x2a, 0x2a, 0x2a, 0x598, 0x2a, 0x2a, 0x2a, 0x2a, 0x2a, 0x2a, 0x2a, 0x2a, 0x2a, 0x2a,
    0x2a, 0x2a, 0x2a, 0x2a, 0x2a, 0x2a, 0x2a, 0x2a, 0x2a, 0x2a, 0x2a, 0x2a, 0x2a, 0x2a, 0x2a, 0x2a,
    0x2a, 0x59e, 0x5a5, 0x2a, 0x2a, 0x2a, 0x2a, 0x2a, 0x2a, 0x2a, 0x2a, 0x5ac, 0x2a, 0x2a, 0x2a, 0x2a,
    0x2a, 0x2a, 0x2a, 0x5b3, 0x5ba, 0x5be, 0x341, 0x341, 0x341, 0x341, 0x341, 0x341, 0x341, 0x341, 0x341, 0x341,
    0x341, 0x341, 0x341, 0x341, 0x341, 0x341, 0x341, 0x341, 0x341, 0x341, 0x341, 0x341, 0x341, 0x341, 0x341, 0x341,
    0x341, 0x341, 0x341, 0x341, 0x341, 0x5c6, 0x341, 0x341, 0x341, 0x341, 0x341, 0x341, 0x341, 0x341, 0x341, 0x341,
    0x341, 0x341, 0x341, 0x341, 0x341, 0x341, 0x341, 0x341, 0x341, 0x5ce, 0x5d6, 0x2a, 0x2a, 0x2a, 0x2a, 0x2a,
    0x2a, 0x2a, 0x2a, 0x2a, 0x2a, 0x2a, 0x2a, 0x2a, 0x2a, 0x2a, 0x2a, 0x2a, 0x2a, 0x2a, 0x2a, 0x2a,
    0x2a, 0x2a, 0x2a, 0x2a, 0x2a, 0x2a, 0x2a, 0x2a, 0x2a, 0x2a, 0x5d8, 0x341, 0x341, 0x341, 0x341, 0x5e0,
    0x5e7, 0x341, 0x341, 0x341, 0x341, 0x341, 0x5ed, 0x2a, 0x2a, 0x2a, 0x2a, 0x2a, 0x2a, 0x2a, 0x2a, 0x2a,
    0x2a, 0x2a, 0x2a, 0x2a, 0x2a, 0x2a, 0x2a, 0x2a, 0x2a, 0x2a, 0x2a, 0x5f5, 0x2a, 0x2a, 0x2a, 0x2a,
    0x2a, 0x2a, 0x2a, 0x2a, 0x2a, 0x2a, 0x2a, 0x2a, 0x2a, 0x2a, 0x2a, 0x2a, 0x2a, 0x2a, 0x2a, 0x2a,
    0x2a, 0x2a, 0x2a, 0x2a, 0x2a, 0x2a, 0x2a, 0x2a, 0x5fd, 0x605, 0x2a, 0x2a, 0x2a, 0x2a, 0x2a, 0x609,
    0x611, 0x2a, 0x2a, 0x619, 0x2a, 0x2a, 0x341, 0x621, 0x2a, 0x2a, 0x2a, 0x2a, 0x2a, 0x2a, 0x2a, 0x2a,
    0x2a, 0x2a, 0x2a, 0x2a, 0x2a, 0x2a, 0x2a, 0x2a, 0x2a, 0x2a, 0x629, 0x631, 0x639, 0x2a, 0x2a, 0x2a,
    0x2a, 0x2a, 0x2a, 0x2a, 0x2a, 0x2a, 0x2a, 0x2a, 0x2a, 0x2a, 0x2a, 0x2a, 0x2a, 0x2a, 0x2a, 0x2a,
    0x2a, 0x2a, 0x641, 0x2a, 0x648, 0x2a, 0x5a5, 0x2a, 0x2a, 0x2a, 0x2a, 0x2a, 0x64b, 0x651, 0x2a, 0x2a,
    0x2a, 0x2a, 0x2a, 0x2a, 0x2a, 0x651, 0x2a, 0x2a, 0x2a, 0x657, 0x2a, 0x2a, 0x2a, 0x2a, 0x2a, 0x2a,
    0x2a, 0x2a, 0x65d, 0x2a, 0x665, 0x2a, 0x2a, 0x2a, 0x2a, 0x2a, 0x2a, 0x2a, 0x2a, 0x2a, 0x2a, 0x2a,
    0x2a, 0x2a, 0x2a, 0x2a, 0x2a, 0x2a, 0x2a, 0x2a, 0x2a, 0x2a, 0x2a, 0x2a, 0x2a, 0x2a, 0x2a, 0x66d,
    0x66e, 0x66e, 0x675, 0x67d, 0x683, 0x68b, 0x691, 0x699, 0x6a1, 0x66e, 0x66e, 0x6a9, 0x6b0, 0x6b8, 0x6bf, 0x6c7,
    0x6cf, 0x6d0, 0x6d1, 0x6d9, 0x6e1, 0x6e9, 0x6ee, 0x6d0, 0x6f6, 0x6d0, 0x6fe, 0x2a, 0x706, 0x2a, 0x70e, 0x716,
    0x71d, 0x724, 0x66e, 0x72c, 0x734, 0x6d0, 0x6d0, 0x66e, 0x73c, 0x744, 0x74c, 0x2a, 0x2a, 0x2a, 0x2a, 0x66e,
    0x66e, 0x66e, 0x66e, 0x66e, 0x66e, 0x66e, 0x66e, 0x66e, 0x66e, 0x66e, 0x66e, 0x66e, 0x66e, 0x66e, 0x754, 0x341,
    0x341, 0x341, 0x341, 0x341, 0x341, 0x341, 0x341, 0x341, 0x341, 0x341, 0x341, 0x341, 0x341, 0x341, 0x341, 0x341,
    0x341, 0x341, 0x341, 0x341, 0x341, 0x341, 0x341, 0x341, 0x341, 0x341, 0x341, 0x341, 0x341, 0x341, 0x342, 0x75c,
    0x47, 0x764, 0x764, 0x47, 0x47, 0x47, 0x76c, 0x764, 0x764, 0x764, 0x764, 0x764, 0x764, 0x764, 0x764, 0x764,
    0x764, 0x764, 0x764, 0x764, 0x764, 0x764, 0x764, 0x764, 0x764, 0x764, 0x764, 0x764, 0x764, 0x764, 0x764, 0x764,
    0x764, 0x764, 0x764, 0x764, 0x764, 0x764, 0x764, 0x2bc, 0x2bc, 0x2bc, 0x2bc, 0x2bc, 0x2bc, 0x2bc, 0x2bc, 0x2bc,
    0x2bc, 0x2bc, 0x2bc, 0x2bc, 0x2bc, 0x2bc, 0x2bc, 0x2bc, 0x2bc, 0x2bc, 0x2bc, 0x2bc, 0x2bc, 0x2bc, 0x2bc, 0x2bc,
    0x2bc, 0x2bc, 0x2bc, 0x2bc, 0x2bc, 0x2bc, 0x774]"

definition s_stage2 :: "nat list" where
  "s_stage2 = [
    0x0, 0x0, 0x0, 0x0, 0x8, 0x8, 0x8, 0x8, 0x8, 0x8, 0x8, 0x9, 0x0, 0x0, 0x0, 0x0,
    0x11, 0x18, 0x20, 0x22, 0x2a, 0x8, 0x29, 0x30, 0x36, 0x3e, 0x40, 0x47, 0x4c, 0x8, 0x4a, 0x2d,
    0x4e, 0x2d, 0x53, 0x29, 0x5b, 0x63, 0x34, 0x8, 0x4e, 0x2d, 0x8, 0x8, 0x8, 0x8, 0x8, 0x8,
    0x8, 0x8, 0x2a, 0x6b, 0x49, 0x8, 0x8, 0x8, 0x8, 0x4c, 0x8, 0x4c, 0x8, 0x8, 0x8, 0x72,
    0x5a, 0x79, 0x81, 0x8, 0x8, 0x8, 0x8, 0x89, 0x89, 0x89, 0x89, 0x89, 0x89, 0x89, 0x89, 0x8,
    0x8, 0x91, 0x92, 0x98, 0x28, 0x91, 0x92, 0x98, 0x28, 0x8, 0x8, 0x8, 0x8, 0x8, 0x8, 0x4c,
    0x8, 0x92, 0x92, 0x92, 0x92, 0x92, 0x92, 0x4c, 0x8, 0x8, 0x8, 0x8, 0x8, 0xa0, 0xa6, 0x8,
    0x8, 0x8, 0x8, 0x8, 0x8, 0xad, 0x89, 0x89, 0x89, 0x89, 0xaf, 0xb5, 0x8, 0x8, 0x8, 0x8,
    0x8, 0x8, 0x8, 0xbd, 0x8, 0x89, 0xc5, 0x8, 0x8, 0x8, 0x8, 0xa0, 0x89, 0x89, 0x8, 0x8,
    0xc9, 0x8, 0x8, 0xa8, 0xd1, 0xd8, 0xdf, 0x8, 0x8, 0xe5, 0xc8, 0x8, 0x8, 0x8, 0x89, 0x89,
    0xa5, 0x8, 0x8, 0x8, 0x8, 0x8, 0x8, 0xa8, 0x89, 0xc9, 0x8, 0x8, 0x8, 0x8, 0x8, 0xa0,
    0xa4, 0xed, 0x8, 0x8, 0xa8, 0xf5, 0xf9, 0xa2, 0x8, 0x8, 0x8, 0xfd, 0x8, 0x8, 0x8, 0x8,
    0x105, 0x89, 0x8, 0x8, 0x8, 0x8, 0xac, 0x89, 0x89, 0x10c, 0x89, 0x89, 0x89, 0x111, 0x8, 0x115,
    0x11a, 0x11a, 0x11a, 0x11a, 0x120, 0x127, 0x12e, 0xad, 0x11a, 0x136, 0x8, 0x8, 0x11a, 0x13d, 0x8, 0x115,
    0x11a, 0x11a, 0x145, 0x14c, 0x152, 0x159, 0x160, 0x166, 0x16e, 0x136, 0x8, 0x175, 0x177, 0x17e, 0x8, 0x8,
    0x8, 0x8, 0x8, 0x8, 0x182, 0x189, 0x190, 0xc8, 0x8, 0x8, 0x8, 0x194, 0x8, 0x17e, 0x8, 0x115,
    0x11a, 0x11a, 0x145, 0x19c, 0x152, 0x1a4, 0x1ab, 0x8, 0x8, 0x136, 0x8, 0x8, 0x1b2, 0x13d, 0x8, 0x115,
    0x11a, 0x11a, 0x145, 0x19c, 0x1ba, 0x159, 0x160, 0x1c2, 0x16e, 0x136, 0x8, 0x1ca, 0x8, 0x1d0, 0x8, 0x8,
    0x8, 0x8, 0x8, 0x8, 0x1d3, 0x1db, 0x1e2, 0x166, 0x8, 0x8, 0x8, 0x8, 0x8, 0x1ea, 0x8, 0x115,
    0x11a, 0x11a, 0x145, 0x11a, 0x1f2, 0x1f9, 0x200, 0x206, 0x20e, 0x136, 0x8, 0x8, 0x8, 0x13d, 0x8, 0x8,
    0x8, 0x8, 0x8, 0x8, 0x212, 0x21a, 0x221, 0x227, 0x8, 0x136, 0x8, 0x16a, 0x8, 0x22f, 0x8, 0x115,
    0x11a, 0x11a, 0x11a, 0x11a, 0x237, 0x23e, 0x245, 0x166, 0x8, 0x136, 0x8, 0x8, 0x8, 0x13d, 0x8, 0x8,
    0x8, 0x8, 0x8, 0x8, 0x8, 0x24c, 0x253, 0x25b, 0x8, 0x8, 0x263, 0x8, 0x8, 0x8, 0x8, 0x8,
    0x8, 0x26a, 0xa5, 0xca, 0x8a, 0x8, 0x8, 0x8, 0x8, 0x8, 0x8, 0x26a, 0xa3, 0x8, 0x8a, 0x8,
    0x8, 0x8, 0x8, 0x8, 0x8, 0xa6, 0x8, 0x8, 0x178, 0x24d, 0x8, 0x8, 0x8, 0x8, 0x8, 0x8,
    0xad, 0x128, 0xb0, 0xa9, 0x89, 0xad, 0x89, 0x89, 0x89, 0xa3, 0x177, 0x8, 0x8, 0x8, 0x8, 0x8,
    0x8, 0x8, 0xa9, 0x271, 0x279, 0x8, 0x8, 0x1d3, 0x27e, 0xc9, 0x8, 0xe0, 0x8, 0x286, 0xed, 0x8,
    0xed, 0x8, 0x8, 0x8, 0x8, 0x28e, 0x28e, 0x28e, 0x28e, 0x28e, 0x28e, 0x28e, 0x28e, 0x296, 0x296, 0x296,
    0x296, 0x296, 0x29e, 0x29e, 0x29e, 0x29e, 0x29e, 0x29e, 0x29e, 0x29e, 0x8, 0x8, 0x8, 0xa9, 0x8, 0x8,
    0x8, 0x8, 0x2a6, 0x8, 0x8, 0x8, 0x2ac, 0x8, 0x8, 0x136, 0x8, 0x8, 0x8, 0x136, 0x8, 0x8,
    0x8, 0x8, 0x8, 0x8, 0x2b1, 0x129, 0x2b9, 0x127, 0xa4, 0xed, 0x8, 0x8, 0x8, 0x8, 0xa0, 0x8,
    0x8, 0x8, 0x8, 0x8, 0x8, 0x206, 0x8, 0x8, 0x8, 0x8, 0xc8, 0x8, 0x8, 0x8, 0x8, 0x2c1,
    0x2c8, 0x2d0, 0x2d7, 0x8, 0x8, 0xca, 0x2df, 0x8, 0x8, 0x8, 0x8, 0x2e3, 0x8a, 0x2eb, 0x12a, 0x2f3,
    0xd8, 0x8, 0x8, 0x8, 0x8, 0x8, 0x8, 0x89, 0x89, 0x8a, 0x8, 0x8, 0x8, 0x8, 0x8, 0x8,
    0x110, 0x8, 0x8, 0x8, 0x8, 0x8, 0x2fb, 0x301, 0x1d9, 0x8, 0x8, 0x8, 0x8, 0xa0, 0xa4, 0x8,
    0x112, 0x8, 0x8, 0x8, 0x309, 0x311, 0x8, 0x8, 0x8, 0x8, 0x317, 0x31f, 0x22f, 0x8, 0x8, 0x8,
    0x8, 0x327, 0x32b, 0x30b, 0x8, 0x8, 0x330, 0x89, 0x271, 0x18b, 0x338, 0xa6, 0x8, 0x340, 0x348, 0x34d,
    0x22, 0x355, 0x35d, 0x363, 0x8, 0x36a, 0x8, 0x8, 0x372, 0x89, 0x2c, 0x7a, 0x25, 0x8, 0x8, 0x8,
    0x8, 0x2c, 0x8, 0x8, 0x89, 0x89, 0x89, 0x89, 0xc9, 0x8, 0x37a, 0x4c, 0x73, 0x8, 0x381, 0x2d,
    0x8, 0x36a, 0x8, 0x8, 0x33, 0x60, 0x92, 0x26, 0x92, 0x28, 0x8, 0x4c, 0x389, 0x38f, 0x8, 0x396,
    0x8, 0x28, 0x8, 0x8, 0x39c, 0x8, 0x7a, 0x8, 0x8, 0x8, 0x40, 0x3a4, 0x39f, 0x3a9, 0x68, 0x3ae,
    0x7d, 0x32, 0x8, 0x3b4, 0x2e, 0x8, 0x3bc, 0x3ba, 0x8, 0x8, 0x3ba, 0x8, 0x2b, 0x4c, 0x2b, 0x8,
    0x8, 0x7a, 0x8, 0x8, 0x2e, 0x3c4, 0x8, 0x3cc, 0x8, 0x8, 0x3d4, 0x8, 0x8, 0x8, 0x8, 0x8,
    0x8, 0x3d5, 0x8, 0x8, 0x8, 0x3dd, 0x3e5, 0x3ed, 0x8, 0x8, 0x8, 0x8, 0x92, 0x92, 0x92, 0x92,
    0x92, 0x92, 0x92, 0x92, 0x3f5, 0x92, 0x92, 0x92, 0x92, 0x98, 0x92, 0x92, 0x8, 0x8, 0x8, 0x8,
    0x98, 0x3fb, 0x401, 0x32, 0x407, 0x40e, 0x28, 0x8, 0x349, 0x7a, 0x8, 0x416, 0x41e, 0x425, 0x42d, 0x433,
    0x43a, 0x43a, 0x442, 0x43a, 0x437, 0x442, 0x446, 0x43a, 0x44e, 0x451, 0x43a, 0x43b, 0x459, 0x45f, 0x467, 0x46b,
    0x469, 0x473, 0x43a, 0x477, 0x478, 0x47e, 0x480, 0x485, 0x455, 0x482, 0x48b, 0x491, 0x499, 0x473, 0x4a1, 0x3cf,
    0x36a, 0x4a9, 0x394, 0x2b, 0x4ad, 0x4b5, 0x4bc, 0x8, 0x4c4, 0x8, 0x4e, 0x92, 0x8, 0x8, 0x4cc, 0x8,
    0x36a, 0x8, 0x4a9, 0x4d4, 0x8, 0x8, 0x8, 0x8, 0x8, 0x8, 0x393, 0x8, 0x4dc, 0x8, 0x8, 0x4e4,
    0x8, 0x8, 0x8, 0x8, 0x4e8, 0x28, 0x8, 0x8, 0x8, 0x8, 0x8, 0xca, 0xa6, 0x8, 0x8, 0x8,
    0x8, 0x8, 0x8, 0x8, 0xca, 0x4f0, 0x4f0, 0x4f0, 0x4f6, 0x4f0, 0x4f0, 0x4f0, 0x4f0, 0x4f0, 0x4f0, 0x4fa,
    0x8, 0x4f0, 0x4f0, 0x4f0, 0x4f0, 0x4f0, 0x4f0, 0x4f0, 0x4f0, 0x502, 0x8, 0x8, 0x8, 0x4f0, 0x4f0, 0x4f0,
    0x4f0, 0x4f0, 0x50a, 0x512, 0x515, 0x51c, 0x4f0, 0x4f0, 0x4f0, 0x4f0, 0x4f0, 0x4f0, 0x4f0, 0x4f1, 0x524, 0x4f0,
    0x4f0, 0x4f0, 0x4f0, 0x52c, 0x4f0, 0x4f0, 0x4f0, 0x4f0, 0x4f0, 0x51c, 0x4f0, 0x4f1, 0x4f0, 0x4f0, 0x4f0, 0x4f0,
    0x4f0, 0x4f0, 0x502, 0x534, 0x4f0, 0x4f0, 0x4f0, 0x4f1, 0x4f0, 0x4f0, 0x4f0, 0x4f0, 0x92, 0x4f0, 0x4f0, 0x4f0,
    0x4f0, 0x4f0, 0x4f0, 0x513, 0x53b, 0x4f0, 0x4f0, 0x4f0, 0x4f0, 0x4f9, 0x4f0, 0x4f0, 0x4f0, 0x4f0, 0x4f0, 0x4f0,
    0x4f1, 0x8, 0x8, 0x8, 0x8, 0x8, 0x8, 0x8, 0xca, 0x330, 0x543, 0x8, 0x8, 0x8, 0xa8, 0x8,
    0x8, 0x8, 0x8, 0x549, 0x1cf, 0x8, 0x8, 0x550, 0x1ce, 0x8, 0x8, 0x557, 0x8, 0x8, 0x8, 0x8,
    0x8, 0x327, 0x25b, 0x55f, 0x8, 0x8, 0x8, 0x89, 0x89, 0xa6, 0xca, 0x8, 0x8, 0x8, 0x8, 0xa8,
    0x543, 0x8, 0x8, 0xca, 0x89, 0x22f, 0x8, 0x28e, 0x28e, 0x28e, 0x567, 0x111, 0x8, 0x8, 0x8, 0x8,
    0x8, 0x56c, 0x572, 0x579, 0x8, 0x8, 0x8, 0xed, 0x8, 0x8, 0x8, 0x8, 0x8, 0x580, 0x587, 0x8,
    0x1cf, 0x58e, 0x8, 0x8, 0x8, 0x8, 0x8, 0x1ce, 0x8, 0x8, 0x8, 0x8, 0x8, 0x8, 0x596, 0x1c1,
    0xc8, 0x8, 0x8, 0x8, 0x8, 0x59e, 0x5a6, 0x8, 0x8, 0x8, 0x8, 0x1d6, 0x5ae, 0x8, 0x8, 0x5b6,
    0x5b7, 0x5b7, 0x5bb, 0x5b7, 0x5b7, 0x5b7, 0x5b6, 0x5b7, 0x5b7, 0x5bb, 0x5b7, 0x5b7, 0x5b7, 0x5b6, 0x5b7, 0x5b7,
    0x5c0, 0x8, 0x296, 0x296, 0x5c8, 0x5cf, 0x29e, 0x29e, 0x29e, 0x29e, 0x29e, 0x5d3, 0x8, 0x8, 0x8, 0x177,
    0x8, 0x8, 0x8, 0x8, 0x89, 0x89, 0x4f0, 0x532, 0x89, 0x89, 0x4f0, 0x4f0, 0x4f5, 0x4f0, 0x4f1, 0x4fa,
    0x8, 0x8, 0x4f0, 0x4f0, 0x4f0, 0x4f0, 0x533, 0x8, 0x8, 0x8, 0x1d3, 0x8, 0x8, 0x8, 0x8, 0x4f1,
    0x8, 0x0, 0x5db, 0x8, 0x8, 0x8, 0x8, 0x8, 0x8, 0x8, 0xed, 0x8, 0x8, 0x8, 0x8, 0xc9,
    0x8, 0x8, 0x8, 0x8, 0x8, 0x8, 0xa8, 0xa5, 0x5e2, 0xaa, 0x8, 0x8, 0x8, 0x8, 0x8, 0x2d8,
    0x8, 0x8, 0x8, 0x8, 0xaa, 0x8, 0x8, 0x8, 0x8, 0x8, 0xa2, 0x8, 0x8, 0x8, 0x8, 0x8,
    0x5e9, 0x8, 0x8, 0x8, 0x8, 0x8, 0x8, 0x8, 0xaa, 0x5ef, 0x8, 0x8, 0x8, 0x8, 0x8, 0x8,
    0x8, 0x5f7, 0x8, 0x8, 0x8, 0x8, 0x8, 0x8, 0x89, 0x8a, 0x8, 0x8, 0x8, 0x8, 0x8, 0x5ff,
    0xca, 0x112, 0x8, 0x8, 0x8, 0x8, 0x8, 0x607, 0x60e, 0x1d0, 0xe7, 0x8, 0x8, 0x8, 0x8, 0x8,
    0x8, 0xa5, 0x8, 0x8, 0x8, 0xca, 0x26e, 0xa3, 0x8, 0x227, 0x8, 0x8, 0x8, 0x8, 0x8, 0x1cf,
    0x8, 0x112, 0x8, 0x8, 0x8, 0x8, 0x8, 0x604, 0x128, 0x616, 0x61d, 0x8, 0x8, 0x8, 0x8, 0x8,
    0x8, 0x625, 0x62c, 0x177, 0xc8, 0x8, 0x8, 0x8, 0x8, 0x8, 0x8, 0x8, 0xca, 0x2f3, 0xa5, 0x8,
    0x8, 0x22f, 0x8, 0x8, 0x8, 0x8, 0x8, 0x8, 0x634, 0x63c, 0x640, 0x166, 0x8, 0x646, 0xa3, 0xa3,
    0x8, 0x8, 0x8, 0x8, 0x8, 0x8, 0x8, 0x2f3, 0x64d, 0x654, 0x65c, 0x8, 0x663, 0x8, 0x8, 0x8,
    0x8, 0x8, 0x8, 0x55a, 0x89, 0x66b, 0x8, 0x8, 0x177, 0x8, 0x8, 0x8, 0x8, 0x8, 0x8, 0x2f3,
    0x673, 0x67a, 0x8, 0x8, 0x8, 0x8, 0x8, 0x8, 0x8, 0x166, 0x158, 0x682, 0xc9, 0x8, 0x8, 0x280,
    0x8, 0x8, 0x8, 0x8, 0x8, 0x8, 0x2f3, 0x689, 0xc9, 0x8, 0x8, 0x8, 0x8, 0x8, 0x8, 0x8,
    0x691, 0x581, 0x8, 0x8, 0x8, 0x318, 0x699, 0xa4, 0x8, 0x8, 0x8, 0x8, 0x8, 0x625, 0x89, 0x224,
    0x8, 0x8, 0x8, 0x8, 0x8, 0x8, 0x6a1, 0x6a8, 0x6b0, 0x8, 0x8, 0x8, 0x8, 0x8, 0x8, 0x8,
    0x606, 0x6b6, 0x6be, 0x8, 0x8, 0x8, 0xad, 0xa5, 0x8, 0x8, 0x8, 0x8, 0xa0, 0x6c6, 0xca, 0x8,
    0x580, 0x2d7, 0x8, 0x8, 0x8, 0x8, 0x6cd, 0x6d3, 0x128, 0xa6, 0x8, 0x8, 0x8, 0x8, 0x8, 0x166,
    0x8a, 0x581, 0x8, 0x8, 0xac, 0x89, 0x89, 0x6db, 0x6e2, 0x8, 0x8, 0x8, 0x8, 0x8, 0x8, 0x6e9,
    0x6f0, 0x6f7, 0x8, 0x8, 0x8, 0x8, 0x8, 0x8, 0x8, 0x6ff, 0x707, 0x8, 0x8, 0x8, 0x8, 0x8,
    0x8, 0x70f, 0x8, 0x717, 0x8, 0x8, 0x8, 0x8, 0x8, 0x24f, 0x71f, 0x727, 0x8, 0x8, 0x1d0, 0x8,
    0x8, 0x8, 0x8, 0xa7, 0x89, 0x543, 0x8, 0x8, 0x8, 0x8, 0x8, 0xa8, 0x89, 0x2f1, 0x8, 0x8,
    0x8, 0x8, 0x8, 0x8, 0xa3, 0x8, 0x8, 0x8, 0x8, 0x8, 0x8, 0x8a, 0x8, 0x8, 0x8, 0x8,
    0x72c, 0x733, 0x8, 0x8, 0xca, 0x25a, 0x25b, 0x25b, 0x25b, 0x25b, 0x25b, 0xca, 0xa5, 0x8, 0x8, 0x8,
    0x8, 0x8, 0x73b, 0x8, 0x743, 0x8, 0x4f0, 0x4f0, 0x4f0, 0x4f0, 0x4f0, 0x4f0, 0x4f0, 0x8, 0x4f0, 0x4f0,
    0x502, 0x8, 0x8, 0x8, 0x8, 0x534, 0x4f0, 0x533, 0x8, 0x8, 0x8, 0x8, 0x8, 0x8, 0x4f4, 0x74b,
    0x4f0, 0x4f0, 0x4f0, 0x4f0, 0x529, 0x8, 0x752, 0x8, 0x8, 0x75a, 0x8, 0x4fe, 0x8, 0x4f0, 0x4f0, 0x4f0,
    0x4f0, 0x4f0, 0x4f0, 0x4f0, 0x4fa, 0x8, 0x8, 0x8, 0x206, 0xa4, 0x8, 0x8, 0x8, 0x89, 0x89, 0x89,
    0x89, 0x89, 0x543, 0x89, 0x89, 0x8a, 0x8, 0x8, 0x8, 0x8, 0x8, 0x8, 0x8, 0x1d4, 0x602, 0x2f3,
    0x89, 0x762, 0xa4, 0x8, 0x8, 0x8, 0x5ef, 0x8, 0x8, 0x191, 0x8, 0x8, 0x8, 0x8, 0x8, 0x8,
    0x8, 0x4f0, 0x4f0, 0x4f1, 0x8, 0x4f0, 0x4f0, 0x4f1, 0x8, 0x89, 0x89, 0x89, 0x89, 0x89, 0x89, 0x8a,
    0xa0, 0x89, 0x89, 0x89, 0x89, 0x89, 0xa3, 0xed, 0x8, 0x1ce, 0x8, 0x8, 0xa0, 0xad, 0x89, 0x8,
    0x8, 0x8a, 0x89, 0x89, 0x764, 0xb3, 0xa5, 0x8, 0x8, 0xca, 0x8, 0x8, 0x8, 0x8, 0x8, 0x8,
    0x177, 0x8, 0x8, 0x8, 0x8, 0x8, 0xaa, 0x8, 0x8, 0x8, 0x8, 0x8, 0xa8, 0x8, 0x8, 0x8a,
    0x8, 0x8, 0x8, 0x8, 0x8, 0xaa, 0xa5, 0x8, 0x8, 0x8, 0x8, 0x8, 0x8, 0x76c, 0x43a, 0x43a,
    0x43a, 0x43a, 0x43a, 0x43a, 0x43a, 0x43a, 0x43b, 0x43a, 0x43a, 0x43a, 0x43a, 0x43a, 0x43a, 0x92, 0x774, 0x92,
    0x92, 0x92, 0x77c, 0x92, 0x92, 0x92, 0x92, 0x92, 0x784, 0x78c, 0x78e, 0x92, 0x796, 0x79d, 0x7a2, 0x92,
    0x7a5, 0x43a, 0x43a, 0x43a, 0x43a, 0x7aa, 0x7b0, 0x7b0, 0x7b0, 0x7b8, 0x43a, 0x4f0, 0x7c0, 0x4f0, 0x513, 0x7c6,
    0x7cb, 0x4f0, 0x7ce, 0x7d6, 0x43a, 0x444, 0x43a, 0x43a, 0x43a, 0x442, 0x442, 0x442, 0x442, 0x7d7, 0x43d, 0x7df,
    0x442, 0x442, 0x442, 0x442, 0x442, 0x442, 0x442, 0x7e0, 0x442, 0x442, 0x446, 0x43a, 0x442, 0x442, 0x442, 0x442,
    0x7e6, 0x446, 0x43a, 0x442, 0x442, 0x7ed, 0x7f5, 0x442, 0x442, 0x442, 0x442, 0x442, 0x442, 0x442, 0x443, 0x7fd,
    0x442, 0x442, 0x442, 0x442, 0x442, 0x442, 0x442, 0x442, 0x800, 0x442, 0x442, 0x442, 0x442, 0x442, 0x442, 0x442,
    0x807, 0x391, 0x80f, 0x442, 0x442, 0x442, 0x43a, 0x43a, 0x468, 0x43a, 0x43a, 0x7d1, 0x43a, 0x76c, 0x43a, 0x43a,
    0x43a, 0x43a, 0x43a, 0x43a, 0x43a, 0x43f, 0x442, 0x442, 0x8, 0x8, 0x8, 0x8, 0x8, 0x8, 0x444, 0x76c,
    0x802, 0x43e, 0x43a, 0x7d3, 0x43e, 0x445, 0x8, 0x8, 0x8, 0x8, 0x8, 0x8, 0x817, 0x43a, 0x8, 0x8,
    0x4dc, 0x43a, 0x442, 0x446, 0x7d7, 0x43a, 0x8, 0x817, 0x8, 0x8, 0x8, 0x8, 0x8, 0x8, 0x43a, 0x8,
    0x819, 0x8, 0x8, 0x8, 0x8, 0x43a, 0x8, 0x8, 0x8, 0x391, 0x43a, 0x43a, 0x8, 0x821, 0x442, 0x442,
    0x442, 0x442, 0x442, 0x826, 0x82a, 0x442, 0x442, 0x442, 0x442, 0x442, 0x442, 0x442, 0x43a, 0x43a, 0x43a, 0x43a,
    0x43a, 0x43a, 0x442, 0x445, 0x442, 0x475, 0x442, 0x442, 0x442, 0x442, 0x442, 0x442, 0x443, 0x43c, 0x442, 0x800,
    0x442, 0x7d6, 0x442, 0x7d7, 0x43a, 0x43a, 0x43a, 0x43a, 0x43a, 0x43a, 0x43a, 0x459, 0x832, 0x0, 0x0, 0x0,
    0x89, 0x89, 0x89, 0x89, 0x0, 0x0, 0x0, 0x0, 0x0, 0x0, 0x0, 0x0, 0x89, 0x89, 0x89, 0x89,
    0x89, 0x89, 0x0, 0x0, 0x92, 0x92, 0x92, 0x92, 0x92, 0x92, 0x92, 0x83a]"

definition s_stage3 :: "nat list" where
  "s_stage3 = [
    0x41, 0x41, 0x41, 0x41, 0x41, 0x41, 0x41, 0x41, 0x40, 0x40, 0x40, 0x40, 0x40, 0x40, 0x40, 0x40,
    0x41, 0x40, 0xc0, 0x40, 0x40, 0xc0, 0x40, 0x40, 0xc0, 0x4c, 0xc0, 0x40, 0x40, 0x41, 0xcc, 0x40,
    0xc0, 0xc0, 0xc0, 0xc0, 0xc0, 0x40, 0xc0, 0xc0, 0xc0, 0xc0, 0x40, 0x40, 0x40, 0x40, 0x40, 0x40,
    0xc0, 0x40, 0x40, 0x40, 0x40, 0x40, 0xc0, 0xc0, 0x40, 0x40, 0x40, 0x40, 0xc0, 0x40, 0xc0, 0xc0,
    0xc0, 0x40, 0xc0, 0xc0, 0x40, 0x40, 0x40, 0xc0, 0xc0, 0xc0, 0x40, 0xc0, 0x40, 0xc0, 0x40, 0x40,
    0x40, 0x40, 0x40, 0x40, 0xc0, 0xc0, 0xc0, 0x40, 0x40, 0x40, 0x40, 0xc0, 0xc0, 0xc0, 0x40, 0xc0,
    0x40, 0x40, 0x40, 0xc0, 0xc0, 0xc0, 0xc0, 0x40, 0xc0, 0x40, 0x40, 0xc0, 0x40, 0xc0, 0x40, 0xc0,
    0x40, 0xc0, 0x40, 0x40, 0x40, 0x40, 0xc0, 0x40, 0x40, 0xc0, 0x40, 0x40, 0x40, 0x40, 0x40, 0x40,
    0x40, 0xc0, 0xc0, 0xc0, 0xc0, 0x40, 0xc0, 0x40, 0xc0, 0x2, 0x2, 0x2, 0x2, 0x2, 0x2, 0x2,
    0x2, 0x40, 0xc0, 0xc0, 0xc0, 0xc0, 0xc0, 0xc0, 0xc0, 0xc0, 0x40, 0xc0, 0xc0, 0xc0, 0xc0, 0xc0,
    0x40, 0x40, 0x40, 0x2, 0x2, 0x2, 0x2, 0x2, 0x40, 0x40, 0x40, 0x40, 0x40, 0x40, 0x2, 0x2,
    0x2, 0x2, 0x2, 0x2, 0x2, 0x40, 0x2, 0x2, 0x40, 0x2, 0x2, 0x40, 0x2, 0x4, 0x4, 0x4,
    0x4, 0x4, 0x4, 0x40, 0x40, 0x2, 0x2, 0x2, 0x40, 0x2, 0x40, 0x40, 0x40, 0x40, 0x40, 0x40,
    0x40, 0x2, 0x2, 0x2, 0x2, 0x2, 0x4, 0x40, 0x2, 0x2, 0x2, 0x2, 0x2, 0x40, 0x40, 0x2,
    0x40, 0x2, 0x2, 0x2, 0x2, 0x40, 0x40, 0x40, 0x40, 0x40, 0x40, 0x40, 0x4, 0x40, 0x40, 0x40,
    0x40, 0x40, 0x2, 0x40, 0x40, 0x2, 0x2, 0x40, 0x2, 0x2, 0x2, 0x2, 0x2, 0x40, 0x2, 0x2,
    0x2, 0x40, 0x40, 0x40, 0x40, 0x4, 0x4, 0x40, 0x40, 0x40, 0x40, 0x40, 0x2, 0x2, 0x4, 0x2,
    0x2, 0x2, 0x2, 0x2, 0x42, 0x40, 0x40, 0x40, 0x40, 0x40, 0x4b, 0x4b, 0x4b, 0x4b, 0x4b, 0x4b,
    0x4b, 0x4b, 0x2, 0x42, 0x2, 0x40, 0x42, 0x42, 0x2, 0x2, 0x2, 0x2, 0x2, 0x2, 0x2, 0x42,
    0x42, 0x42, 0x42, 0xa, 0x42, 0x42, 0x40, 0x40, 0x2, 0x2, 0x40, 0x40, 0x40, 0x40, 0x2, 0x42,
    0x42, 0x40, 0x40, 0x40, 0x40, 0x4b, 0x40, 0x4b, 0x4b, 0x4b, 0x4b, 0x4b, 0x4b, 0x40, 0x4b, 0x40,
    0x40, 0x40, 0x4b, 0x4b, 0x40, 0x40, 0x2, 0x40, 0x42, 0x42, 0x2, 0x2, 0x2, 0x2, 0x40, 0x40,
    0x42, 0x40, 0x40, 0x42, 0x42, 0xa, 0x40, 0x40, 0x40, 0x40, 0x40, 0x40, 0x40, 0x42, 0x40, 0x40,
    0x40, 0x40, 0x4b, 0x4b, 0x40, 0x4b, 0x4b, 0x40, 0x40, 0x40, 0x40, 0x40, 0x40, 0x2, 0x40, 0x2,
    0x2, 0x42, 0x40, 0x40, 0x40, 0x40, 0x2, 0x40, 0x42, 0x42, 0x2, 0x2, 0x40, 0x40, 0x40, 0x40,
    0x2, 0x40, 0x40, 0x2, 0x2, 0x2, 0x40, 0x40, 0x40, 0x2, 0x40, 0x40, 0x4b, 0x40, 0x4b, 0x4b,
    0x40, 0x4b, 0x4b, 0x4b, 0x42, 0x2, 0x2, 0x2, 0x2, 0x2, 0x40, 0x2, 0x42, 0x40, 0x42, 0x42,
    0xa, 0x40, 0x40, 0x4b, 0x2, 0x2, 0x2, 0x2, 0x2, 0x2, 0x4b, 0x4b, 0x40, 0x40, 0x2, 0x40,
    0x42, 0x2, 0x40, 0x40, 0x40, 0x40, 0x40, 0x2, 0x2, 0x42, 0x40, 0x4b, 0x40, 0x40, 0x40, 0x40,
    0x40, 0x40, 0x2, 0x40, 0x40, 0x40, 0x40, 0x40, 0x40, 0x42, 0x42, 0x2, 0x42, 0x42, 0x40, 0x40,
    0x40, 0x42, 0x42, 0x40, 0x42, 0x42, 0x42, 0x2, 0x40, 0x40, 0x2, 0x42, 0x42, 0x42, 0x2, 0x40,
    0x40, 0x40, 0x4b, 0x4b, 0x40, 0x40, 0x2, 0x40, 0x2, 0x2, 0x42, 0x42, 0x42, 0x42, 0x40, 0x2,
    0x2, 0x40, 0x2, 0x2, 0x2, 0xa, 0x40, 0x40, 0x40, 0x40, 0x40, 0x2, 0x2, 0x40, 0x4b, 0x4b,
    0x4b, 0x40, 0x40, 0x40, 0x40, 0x40, 0x2, 0x40, 0x42, 0x2, 0x42, 0x42, 0x42, 0x42, 0x42, 0x40,
    0x2, 0x42, 0x40, 0x42, 0x42, 0x2, 0x2, 0x40, 0x40, 0x40, 0x40, 0x40, 0x42, 0x42, 0x40, 0x2,
    0x2, 0x42, 0x42, 0x40, 0x40, 0x40, 0x40, 0x4b, 0x4b, 0x4b, 0x2, 0x2, 0x40, 0x42, 0x42, 0x2,
    0x2, 0x2, 0x2, 0x40, 0x42, 0x42, 0x40, 0x42, 0x42, 0x42, 0xa, 0x44, 0x40, 0x40, 0x2, 0x40,
    0x40, 0x40, 0x40, 0x42, 0x42, 0x2, 0x2, 0x2, 0x40, 0x2, 0x40, 0x42, 0x42, 0x42, 0x42, 0x42,
    0x42, 0x42, 0x42, 0x40, 0x40, 0x42, 0x42, 0x40, 0x40, 0x40, 0x40, 0x2, 0x40, 0x42, 0x2, 0x2,
    0x2, 0x2, 0x42, 0x2, 0x2, 0x2, 0x2, 0x2, 0x2, 0x40, 0x2, 0x2, 0x42, 0x42, 0x2, 0x2,
    0x40, 0x40, 0x40, 0x40, 0x2, 0x2, 0x40, 0x40, 0x2, 0x40, 0x42, 0x2, 0x2, 0x40, 0x85, 0x85,
    0x85, 0x85, 0x85, 0x85, 0x85, 0x85, 0x46, 0x46, 0x46, 0x46, 0x46, 0x46, 0x46, 0x46, 0x47, 0x47,
    0x47, 0x47, 0x47, 0x47, 0x47, 0x47, 0x40, 0x40, 0x2, 0x2, 0x2, 0x42, 0x40, 0x40, 0x2, 0x2,
    0x42, 0x40, 0x40, 0x40, 0x40, 0x2, 0x2, 0x42, 0x2, 0x42, 0x42, 0x42, 0x42, 0x42, 0x42, 0x2,
    0x42, 0x2, 0x2, 0x2, 0x42, 0x42, 0x42, 0x42, 0x2, 0x42, 0x42, 0x42, 0x40, 0x40, 0x40, 0x40,
    0x42, 0x42, 0x2, 0x42, 0x42, 0x42, 0x42, 0x42, 0x2, 0x2, 0x2, 0x40, 0x40, 0x40, 0x40, 0x2,
    0x42, 0x42, 0x2, 0x40, 0x40, 0x40, 0x40, 0x40, 0x42, 0x2, 0x42, 0x2, 0x40, 0x2, 0x40, 0x40,
    0x2, 0x2, 0x2, 0x42, 0x42, 0x42, 0x2, 0x2, 0x2, 0x2, 0x2, 0x40, 0x40, 0x40, 0x40, 0x2,
    0x42, 0x2, 0x2, 0x2, 0x42, 0x2, 0x42, 0x42, 0x42, 0x40, 0x42, 0x2, 0x2, 0x2, 0x2, 0x42,
    0x42, 0x2, 0x2, 0x42, 0x2, 0x2, 0x2, 0x40, 0x40, 0x40, 0x40, 0x40, 0x40, 0x2, 0x42, 0x2,
    0x2, 0x42, 0x42, 0x42, 0x2, 0x42, 0x2, 0x40, 0x40, 0x40, 0x40, 0x42, 0x42, 0x42, 0x42, 0x2,
    0x2, 0x2, 0x2, 0x40, 0x2, 0x2, 0x2, 0x2, 0x40, 0x40, 0x40, 0x40, 0x2, 0x40, 0x40, 0x42,
    0x40, 0x40, 0x40, 0x2, 0x2, 0xd, 0x2, 0x2, 0xc0, 0x40, 0x40, 0xc0, 0xc0, 0xc0, 0xc0, 0x40,
    0x40, 0xc0, 0xc0, 0x40, 0x40, 0x41, 0x41, 0x2, 0x2, 0x2, 0x2, 0x2, 0x40, 0xc0, 0x40, 0xc0,
    0xc0, 0x40, 0xc0, 0x40, 0x40, 0x40, 0xc0, 0x4c, 0x40, 0xc0, 0x40, 0x4c, 0x40, 0x40, 0x40, 0x40,
    0x40, 0x40, 0x2, 0x2, 0x2, 0x2, 0x2, 0x41, 0x2, 0x2, 0x40, 0x40, 0x40, 0xc0, 0x40, 0xc0,
    0x40, 0x40, 0xc0, 0xcc, 0x40, 0x40, 0x40, 0xc0, 0x40, 0xc0, 0xc0, 0xc0, 0xc0, 0xcc, 0xcc, 0xcc,
    0xcc, 0x40, 0x40, 0x40, 0x40, 0x40, 0x40, 0x4c, 0x4c, 0x40, 0x40, 0x40, 0x40, 0x40, 0xc0, 0x40,
    0xc0, 0x40, 0x40, 0x40, 0xc0, 0x40, 0x40, 0xc0, 0x40, 0x40, 0x40, 0xc0, 0x40, 0x40, 0xc0, 0xc0,
    0xc0, 0xc0, 0xc0, 0x40, 0xc0, 0x40, 0x40, 0x40, 0xc0, 0x40, 0x40, 0x40, 0xc0, 0xc0, 0x40, 0x40,
    0xc0, 0xc0, 0xc0, 0xc0, 0x40, 0x40, 0x8c, 0x8c, 0x40, 0x40, 0x40, 0x40, 0x4c, 0x80, 0x80, 0x40,
    0x40, 0x40, 0x40, 0x40, 0x4c, 0x40, 0x40, 0x40, 0x40, 0x40, 0x40, 0x40, 0x4c, 0x40, 0x8c, 0x8c,
    0x8c, 0x8c, 0x4c, 0x4c, 0x4c, 0x8c, 0x4c, 0x4c, 0x8c, 0x40, 0x40, 0x40, 0x40, 0x4c, 0x4c, 0x4c,
    0x40, 0x40, 0x40, 0x40, 0x40, 0xc0, 0xc0, 0xcc, 0xc0, 0xc0, 0xc0, 0xc0, 0xc0, 0x4c, 0x4c, 0x40,
    0x40, 0x40, 0x40, 0xc0, 0xc0, 0x40, 0x40, 0xcc, 0xc0, 0x40, 0x40, 0x40, 0x40, 0xc0, 0xc0, 0x40,
    0x40, 0xc0, 0x40, 0x40, 0xc0, 0xc0, 0x40, 0x40, 0x40, 0x4c, 0x4c, 0x8c, 0x8c, 0x40, 0x4c, 0x4c,
    0x4c, 0x4c, 0x4c, 0xcc, 0xc0, 0x4c, 0xcc, 0x4c, 0x4c, 0x4c, 0x4c, 0xcc, 0xcc, 0x4c, 0x4c, 0x4c,
    0x40, 0x8c, 0x8c, 0x4c, 0x4c, 0x4c, 0x4c, 0xcc, 0x4c, 0xcc, 0x4c, 0x4c, 0x4c, 0x4c, 0x4c, 0x4c,
    0x4c, 0x4c, 0x8c, 0x8c, 0x8c, 0x8c, 0x8c, 0x8c, 0x8c, 0x8c, 0x4c, 0x4c, 0x4c, 0x4c, 0xcc, 0xcc,
    0x4c, 0xcc, 0xcc, 0xcc, 0x4c, 0xcc, 0xcc, 0x4c, 0xcc, 0x4c, 0x4c, 0x4c, 0x4c, 0x4c, 0x4c, 0x40,
    0x40, 0x80, 0x80, 0x80, 0x80, 0x80, 0x80, 0x4c, 0x4c, 0x4c, 0x8c, 0x4c, 0x4c, 0x4c, 0x4c, 0x4c,
    0x4c, 0xcc, 0xcc, 0x4c, 0x4c, 0x8c, 0x8c, 0x4c, 0x4c, 0x4c, 0x4c, 0x4c, 0x8c, 0x8c, 0xcc, 0xcc,
    0xcc, 0xcc, 0xcc, 0xcc, 0x8c, 0xcc, 0xcc, 0xcc, 0xcc, 0xcc, 0xcc, 0xcc, 0xcc, 0x8c, 0x8c, 0xcc,
    0x8c, 0xcc, 0xcc, 0x8c, 0xcc, 0xcc, 0x8c, 0xcc, 0xcc, 0x4c, 0x4c, 0x4c, 0x4c, 0x4c, 0x8c, 0x40,
    0x40, 0x4c, 0x4c, 0x4c, 0x40, 0x4c, 0x40, 0x4c, 0x40, 0x8c, 0x40, 0x40, 0x40, 0x40, 0x40, 0x40,
    0x40, 0x4c, 0x40, 0x40, 0x4c, 0x40, 0x40, 0x40, 0x40, 0x8c, 0x40, 0x8c, 0x40, 0x40, 0x40, 0x8c,
    0x8c, 0x8c, 0x40, 0x8c, 0x40, 0x40, 0x40, 0x4c, 0x4c, 0x4c, 0x4c, 0x4c, 0x40, 0x40, 0x40, 0x40,
    0x40, 0x8c, 0x8c, 0x8c, 0x40, 0x40, 0x40, 0x40, 0x40, 0x40, 0x40, 0x8c, 0x40, 0x40, 0x40, 0x40,
    0x40, 0x4c, 0x4c, 0x4c, 0x40, 0x40, 0x40, 0x8c, 0x8c, 0x40, 0x40, 0x40, 0x40, 0x8c, 0xc0, 0xc0,
    0x80, 0x80, 0x80, 0x80, 0x80, 0x80, 0x80, 0x80, 0x40, 0x80, 0x80, 0x80, 0x80, 0x80, 0x40, 0x40,
    0x40, 0x40, 0x80, 0x80, 0x80, 0x80, 0x80, 0x80, 0x40, 0x40, 0x80, 0x80, 0x2, 0x2, 0x2, 0x2,
    0x82, 0x82, 0x8c, 0x80, 0x80, 0x80, 0x80, 0x80, 0x80, 0x80, 0x8c, 0x80, 0x40, 0x80, 0x80, 0x80,
    0x80, 0x80, 0x80, 0x80, 0x40, 0x2, 0x2, 0x80, 0x80, 0x80, 0x80, 0x80, 0x40, 0x40, 0x40, 0x40,
    0x40, 0x80, 0x80, 0x80, 0x40, 0x40, 0x40, 0x40, 0x40, 0x40, 0x40, 0x80, 0x8c, 0x80, 0x80, 0x80,
    0x80, 0x80, 0x80, 0x2, 0x2, 0x2, 0x2, 0x2, 0x2, 0x40, 0x40, 0x2, 0x40, 0x40, 0x40, 0x2,
    0x40, 0x40, 0x40, 0x42, 0x42, 0x2, 0x2, 0x42, 0x42, 0x40, 0x40, 0x40, 0x40, 0x40, 0x40, 0x42,
    0x42, 0x42, 0x42, 0x2, 0x2, 0x40, 0x40, 0x85, 0x85, 0x85, 0x85, 0x85, 0x40, 0x40, 0x40, 0x2,
    0x42, 0x42, 0x2, 0x2, 0x42, 0x42, 0x2, 0x2, 0x42, 0x42, 0x40, 0x40, 0x40, 0x40, 0x40, 0x40,
    0x40, 0x2, 0x2, 0x2, 0x2, 0x2, 0x2, 0x42, 0x2, 0x2, 0x42, 0x42, 0x2, 0x2, 0x40, 0x40,
    0x40, 0x40, 0x2, 0x42, 0x40, 0x40, 0x2, 0x40, 0x2, 0x2, 0x2, 0x40, 0x40, 0x2, 0x40, 0x40,
    0x40, 0x42, 0x2, 0x2, 0x42, 0x42, 0x40, 0x40, 0x40, 0x40, 0x40, 0x42, 0x2, 0x40, 0x2, 0x42,
    0x42, 0x40, 0x42, 0x2, 0x40, 0x40, 0x88, 0x89, 0x89, 0x89, 0x89, 0x89, 0x89, 0x89, 0x89, 0x88,
    0x89, 0x89, 0x89, 0x89, 0x40, 0x40, 0x40, 0x40, 0x46, 0x46, 0x46, 0x46, 0x46, 0x46, 0x46, 0x40,
    0x40, 0x40, 0x47, 0x47, 0x47, 0x47, 0x47, 0x40, 0x40, 0x40, 0x40, 0x41, 0x2, 0x2, 0x2, 0x40,
    0xc0, 0x40, 0x40, 0x2, 0x2, 0x2, 0x40, 0x2, 0x2, 0x40, 0x40, 0x40, 0x2, 0x2, 0x40, 0x40,
    0x40, 0x2, 0x2, 0x2, 0x2, 0x40, 0x40, 0x42, 0x2, 0x42, 0x40, 0x40, 0x40, 0x40, 0x40, 0x2,
    0x40, 0x40, 0x2, 0x2, 0x40, 0x40, 0x40, 0x42, 0x42, 0x42, 0x2, 0x2, 0x2, 0x2, 0x42, 0x2,
    0x2, 0x40, 0x40, 0x4, 0x40, 0x40, 0x42, 0x40, 0x44, 0x44, 0x40, 0x40, 0x40, 0x40, 0x2, 0x2,
    0x2, 0x2, 0x40, 0x42, 0x2, 0x40, 0x40, 0x40, 0x40, 0x42, 0x42, 0x42, 0x2, 0x2, 0x42, 0x42,
    0x2, 0x42, 0x2, 0x2, 0x40, 0x40, 0x40, 0x2, 0x2, 0x40, 0x42, 0x42, 0x2, 0x42, 0x42, 0x42,
    0x42, 0x40, 0x40, 0x42, 0x42, 0x42, 0x40, 0x40, 0x42, 0x42, 0x40, 0x40, 0x2, 0x2, 0x40, 0x42,
    0x40, 0x40, 0x42, 0x40, 0x42, 0x42, 0x42, 0x40, 0x42, 0x42, 0x2, 0x42, 0x2, 0x44, 0x2, 0x40,
    0x40, 0x40, 0x40, 0x40, 0x2, 0x2, 0x40, 0x40, 0x40, 0x40, 0x40, 0x42, 0x42, 0x2, 0x2, 0x2,
    0x42, 0x2, 0x40, 0x2, 0x42, 0x2, 0x42, 0x42, 0x42, 0x42, 0x2, 0x42, 0x2, 0x2, 0x40, 0x40,
    0x40, 0x40, 0x42, 0x42, 0x42, 0x42, 0x2, 0x2, 0x42, 0x2, 0x2, 0x2, 0x42, 0x42, 0x2, 0x42,
    0x2, 0x40, 0x40, 0x40, 0x2, 0x42, 0x2, 0x42, 0x42, 0x40, 0x40, 0x2, 0x2, 0x2, 0x2, 0x42,
    0x2, 0x42, 0x42, 0x42, 0x42, 0x42, 0x42, 0x40, 0x42, 0x40, 0x40, 0x2, 0x2, 0x42, 0x2, 0x44,
    0x42, 0x44, 0x42, 0x2, 0x40, 0x40, 0x40, 0x40, 0x2, 0x2, 0x42, 0x42, 0x42, 0x42, 0x2, 0x40,
    0x40, 0x40, 0x42, 0x40, 0x40, 0x40, 0x2, 0x42, 0x44, 0x2, 0x2, 0x2, 0x2, 0x40, 0x40, 0x40,
    0x40, 0x44, 0x44, 0x44, 0x44, 0x2, 0x2, 0x2, 0x2, 0x2, 0x2, 0x40, 0x42, 0x2, 0x2, 0x2,
    0x2, 0x2, 0x2, 0x42, 0x2, 0x2, 0x42, 0x2, 0x2, 0x40, 0x2, 0x2, 0x2, 0x2, 0x2, 0x2,
    0x40, 0x40, 0x2, 0x40, 0x2, 0x2, 0x40, 0x2, 0x2, 0x2, 0x2, 0x2, 0x2, 0x44, 0x2, 0x40,
    0x40, 0x42, 0x42, 0x42, 0x42, 0x42, 0x40, 0x2, 0x2, 0x40, 0x42, 0x42, 0x2, 0x42, 0x2, 0x40,
    0x40, 0x40, 0x2, 0x2, 0x42, 0x42, 0x40, 0x2, 0x2, 0x44, 0x42, 0x40, 0x40, 0x40, 0x40, 0x2,
    0x2, 0x2, 0x40, 0x40, 0x40, 0x42, 0x42, 0x2, 0x42, 0x2, 0x40, 0x40, 0x40, 0x40, 0x40, 0x46,
    0x40, 0x40, 0x40, 0x46, 0x46, 0x46, 0x40, 0x40, 0x40, 0x40, 0x40, 0x80, 0x80, 0x80, 0x80, 0x2,
    0x40, 0x40, 0x40, 0x82, 0x82, 0x40, 0x40, 0x40, 0x40, 0x40, 0x40, 0x80, 0x80, 0x80, 0x80, 0x40,
    0x80, 0x80, 0x40, 0x40, 0x80, 0x40, 0x40, 0x40, 0x40, 0x40, 0x80, 0x80, 0x80, 0x40, 0x40, 0x80,
    0x40, 0x40, 0x2, 0x2, 0x2, 0x40, 0x40, 0x2, 0x2, 0x2, 0x2, 0x2, 0x4c, 0x4c, 0x4c, 0x4c,
    0x8c, 0x4c, 0x4c, 0x4c, 0xc0, 0xc0, 0xc0, 0x40, 0x40, 0x4c, 0x4c, 0x4c, 0xc0, 0xc0, 0xc0, 0xc0,
    0xc0, 0xc0, 0x40, 0x4c, 0xc0, 0xc0, 0x40, 0x40, 0x4c, 0x4c, 0x4c, 0x4c, 0xcc, 0xcc, 0xc0, 0xc0,
    0xc0, 0xc0, 0xc0, 0xc0, 0xcc, 0xcc, 0xc0, 0xc0, 0xc0, 0xc0, 0xc0, 0xc0, 0x8c, 0xc0, 0x8c, 0x8c,
    0x8c, 0x8c, 0x8c, 0x8c, 0x8c, 0xc0, 0xc0, 0xc0, 0xc0, 0xc0, 0x4c, 0x4c, 0x4c, 0x4c, 0x4c, 0x4c,
    0x43, 0x43, 0x43, 0x43, 0x43, 0x43, 0x43, 0x43, 0x80, 0x8c, 0x8c, 0x4c, 0x4c, 0x4c, 0x4c, 0x4c,
    0x80, 0x80, 0x8c, 0x80, 0x80, 0x80, 0x80, 0x80, 0x8c, 0x8c, 0x8c, 0x8c, 0x8c, 0x8c, 0x80, 0x4c,
    0x4c, 0x4c, 0x4c, 0x4c, 0x4c, 0x4c, 0x8c, 0x8c, 0x4c, 0x4c, 0x4c, 0x4c, 0x4c, 0x4c, 0x4c, 0x8c,
    0x8c, 0x8c, 0x8c, 0x8c, 0x8c, 0x4c, 0x8c, 0x8c, 0x8c, 0x4c, 0x4c, 0x4c, 0x4c, 0x8c, 0x4c, 0x4c,
    0x4c, 0x8c, 0x4c, 0x4c, 0x4c, 0x8c, 0x8c, 0x8c, 0x82, 0x82, 0x82, 0x82, 0x82, 0x8c, 0x4c, 0x8c,
    0x8c, 0x8c, 0x8c, 0x8c, 0x8c, 0x4c, 0x4c, 0x8c, 0x8c, 0x8c, 0x8c, 0x8c, 0x8c, 0x40, 0x40, 0x4c,
    0x4c, 0x4c, 0x8c, 0x8c, 0x8c, 0x8c, 0x4c, 0x40, 0x40, 0x40, 0x40, 0x4c, 0x4c, 0x4c, 0x4c, 0x4c,
    0x4c, 0x40, 0x40, 0x40, 0x40, 0x8c, 0x8c, 0x8c, 0x8c, 0x40, 0x8c, 0x8c, 0x8c, 0x8c, 0x8c, 0x8c,
    0x40, 0x8c, 0x41, 0x2, 0x41, 0x41, 0x41, 0x41, 0x41, 0x41, 0xc0, 0xc0, 0xc0, 0xc0, 0xc0, 0xc0,
    0x40, 0x40]"

definition s_joinRules :: "u32 list list" where
  "s_joinRules = [
    [0x03CFFFCF, 0x0FFFFFFF, 0x03CFFFCF, 0x03CFFF4F, 0x0000000C, 0x03C0C3CF, 0x03CF0FCF, 0x03CF3FCF,
     0x03CF0FCF, 0x03CF3FCF, 0x030FFFCF, 0x03CFFFCF, 0x03CFFFCF, 0x00CFFFCF, 0x00000000, 0x00000000],
    [0x03CFFFCF, 0x0FFFFFFF, 0x03CFFFCF, 0x03CFFFCF, 0x0000000C, 0x03C0C3CF, 0x03CF0FCF, 0x03CF3FCF,
     0x03CF0FCF, 0x03CF3FCF, 0x030FFFCF, 0x03CFFFCF, 0x03CFFFCF, 0x00CFFFCF, 0x00000000, 0x00000000]]"

subsection \<open>Sizes and ranges\<close>

lemma stage_lengths [simp]:
  "length s_stage0 = 544" "length s_stage1 = 1031" "length s_stage2 = 1916" "length s_stage3 = 2114"
  by (simp_all add: s_stage0_def s_stage1_def s_stage2_def s_stage3_def)

lemma stage_ranges:
  "list_all (\<lambda>s. s \<le> 999) s_stage0" "list_all (\<lambda>s. s \<le> 1908) s_stage1" "list_all (\<lambda>s. s \<le> 2106) s_stage2"
  "list_all (\<lambda>s. s \<le> 255) s_stage3"
  by (simp_all add: s_stage0_def s_stage1_def s_stage2_def s_stage3_def)

end
