(* ===== verification/Codepoint_Width.thy ===== *)
theory Codepoint_Width
  imports Ucd_Tables
begin

text \<open>
  Measuring text: \<open>CodepointWidthDetector\<close> of \<open>src/src/types/CodepointWidthDetector.cpp\<close>. It cuts UTF-16 text
  into grapheme clusters and measures their width in columns, forwards (\<open>GraphemeNext\<close>) and backwards
  (\<open>GraphemePrev\<close>), in three modes. A pointer into the string is its offset; the state \<open>GraphemeState\<close>
  keeps \<open>None\<close> for a pointer that is null or belongs to another string, which \<open>resetIfOutOfRange\<close>
  replaces by the start (or end) of the string at hand.

  The lemmas show that the table is never read outside its bounds, that decoding backwards undoes
  decoding forwards, that every step advances and ends inside the string, that widths are at most
  two columns, and that the cache of the fallback method is invisible.
\<close>

subsection \<open>The table\<close>

text \<open>Reading an array: \<open>None\<close> outside.\<close>

definition array_at :: "'a list \<Rightarrow> nat \<Rightarrow> 'a option" where
  "array_at xs i = (if i < length xs then Some (xs ! i) else None)"

definition ucdLookup :: "u32 \<Rightarrow> nat option" where
  "ucdLookup cp =
     (case array_at s_stage0 (unat (drop_bit 11 cp)) of None \<Rightarrow> None | Some s0 \<Rightarrow>
      case array_at s_stage1 (s0 + unat (drop_bit 6 cp AND 31)) of None \<Rightarrow> None | Some s1 \<Rightarrow>
      case array_at s_stage2 (s1 + unat (drop_bit 3 cp AND 7)) of None \<Rightarrow> None | Some s2 \<Rightarrow>
      array_at s_stage3 (s2 + unat (cp AND 7)))"

text \<open>The value of a code point; by \<open>ucdLookup_defined\<close> below the lookup does not fail.\<close>

definition ucd :: "u32 \<Rightarrow> nat" where
  "ucd cp = (case ucdLookup cp of Some v \<Rightarrow> v | None \<Rightarrow> 0)"

definition ucdGraphemeJoins :: "nat \<Rightarrow> nat \<Rightarrow> nat \<Rightarrow> nat" where
  "ucdGraphemeJoins state lead trail =
     (let l = lead mod 16; t = trail mod 16
      in unat (drop_bit (t * 2) (s_joinRules ! state ! l) AND 3))"

definition ucdGraphemeDone :: "nat \<Rightarrow> bool" where
  "ucdGraphemeDone state \<longleftrightarrow> state = 3"

definition ucdToCharacterWidth :: "nat \<Rightarrow> int" where
  "ucdToCharacterWidth val = int (val div 64)"

subsection \<open>UTF-16\<close>

definition is_surrogate :: "wchar \<Rightarrow> bool" where
  "is_surrogate c \<longleftrightarrow> c AND 0xF800 = 0xD800"

definition is_leading :: "wchar \<Rightarrow> bool" where
  "is_leading c \<longleftrightarrow> c AND 0xFC00 = 0xD800"

definition is_trailing :: "wchar \<Rightarrow> bool" where
  "is_trailing c \<longleftrightarrow> c AND 0xFC00 = 0xDC00"

definition surrogate_pair :: "wchar \<Rightarrow> wchar \<Rightarrow> u32" where
  "surrogate_pair c1 c2 = push_bit 10 (ucast c1) - 0x35FDC00 + ucast c2"

text \<open>Both functions return the new position and the code point.\<close>

definition utf16NextOrFFFD :: "wstring \<Rightarrow> nat \<Rightarrow> nat \<times> u32" where
  "utf16NextOrFFFD str it =
     (let c = str ! it; it = it + 1
      in if is_surrogate c
         then if c AND 0x400 = 0 \<and> it \<noteq> length str \<and> is_trailing (str ! it)
              then (it + 1, surrogate_pair c (str ! it))
              else (it, 0xFFFD)
         else (it, ucast c))"

definition utf16PrevOrFFFD :: "wstring \<Rightarrow> nat \<Rightarrow> nat \<times> u32" where
  "utf16PrevOrFFFD str it =
     (let it = it - 1; c = str ! it
      in if is_surrogate c
         then if c AND 0x400 \<noteq> 0 \<and> it \<noteq> 0 \<and> is_leading (str ! (it - 1))
              then (it - 1, surrogate_pair (str ! (it - 1)) c)
              else (it, 0xFFFD)
         else (it, ucast c))"

lemma utf16Next_bounds:
  assumes "utf16NextOrFFFD str it = (p, cp)" "it < length str"
  shows "it < p" and "p \<le> length str"
  using assms by (auto simp: utf16NextOrFFFD_def Let_def split: if_splits)

lemma utf16Prev_bounds:
  assumes "utf16PrevOrFFFD str it = (p, cp)" "0 < it"
  shows "p < it"
  using assms by (auto simp: utf16PrevOrFFFD_def Let_def split: if_splits)

lemmas utf16_dests = utf16Next_bounds(1) [OF sym] utf16Prev_bounds [OF sym]

subsection \<open>Clusters\<close>

datatype TextMeasurementMode = Graphemes | Wcswidth | Console

record GraphemeState =
  gs_beg :: "nat option"
  gs_len :: nat
  gs_width :: int
  gs_state :: int
  gs_last :: nat

definition GraphemeState_init :: GraphemeState where
  "GraphemeState_init = \<lparr>gs_beg = None, gs_len = 0, gs_width = 0, gs_state = 0, gs_last = 0\<rparr>"

text \<open>
  The fallback method asks the renderer; \<open>None\<close> is an exception it throws. Widths it gave are kept in
  the cache.
\<close>

record CodepointWidthDetector =
  cwd_fallbackCache :: "u32 \<rightharpoonup> int"
  cwd_pfnFallbackMethod :: "(wstring \<Rightarrow> bool option) option"
  cwd_mode :: TextMeasurementMode
  cwd_ambiguousWidth :: int

definition CodepointWidthDetector_init :: CodepointWidthDetector where
  "CodepointWidthDetector_init =
     \<lparr>cwd_fallbackCache = Map.empty, cwd_pfnFallbackMethod = None, cwd_mode = Graphemes, cwd_ambiguousWidth = 1\<rparr>"

definition SetAmbiguousWidth :: "int \<Rightarrow> CodepointWidthDetector \<Rightarrow> CodepointWidthDetector" where
  "SetAmbiguousWidth width d = d\<lparr>cwd_ambiguousWidth := width\<rparr>"

definition SetFallbackMethod :: "(wstring \<Rightarrow> bool option) option \<Rightarrow> CodepointWidthDetector \<Rightarrow> CodepointWidthDetector" where
  "SetFallbackMethod pfnFallback d = d\<lparr>cwd_pfnFallbackMethod := pfnFallback\<rparr>"

definition cwd_Reset :: "TextMeasurementMode \<Rightarrow> CodepointWidthDetector \<Rightarrow> CodepointWidthDetector" where
  "cwd_Reset mode d = d\<lparr>cwd_mode := mode, cwd_fallbackCache := Map.empty\<rparr>"

definition utf16_of :: "u32 \<Rightarrow> wstring" where
  "utf16_of codepoint =
     (if codepoint \<le> 0xffff then [ucast codepoint]
      else [ucast (drop_bit 10 codepoint + 0xD7C0), ucast (codepoint AND 0x3ff OR 0xDC00)])"

definition checkFallbackViaCache :: "u32 \<Rightarrow> CodepointWidthDetector \<Rightarrow> int \<times> CodepointWidthDetector" where
  "checkFallbackViaCache codepoint d =
     (case cwd_pfnFallbackMethod d of
        None \<Rightarrow> (1, d)
      | Some pfn \<Rightarrow>
          (case cwd_fallbackCache d codepoint of
             Some width \<Rightarrow> (width, d)
           | None \<Rightarrow>
               (case pfn (utf16_of codepoint) of
                  None \<Rightarrow> (1, d)
                | Some wide \<Rightarrow>
                    (let width = (if wide then 2 else 1)
                     in (width, d\<lparr>cwd_fallbackCache := (cwd_fallbackCache d)(codepoint \<mapsto> width)\<rparr>)))))"

text \<open>\<open>resetIfOutOfRange\<close>: a pointer of another string is out of range.\<close>

definition resetIfOutOfRange :: "wstring \<Rightarrow> nat \<Rightarrow> nat option \<Rightarrow> nat" where
  "resetIfOutOfRange str reset ptr =
     (case ptr of None \<Rightarrow> reset | Some p \<Rightarrow> if p > length str then reset else p)"

definition next_begin :: "GraphemeState \<Rightarrow> wstring \<Rightarrow> nat" where
  "next_begin s str = resetIfOutOfRange str 0 (map_option (\<lambda>b. b + gs_len s) (gs_beg s))"

definition prev_end :: "GraphemeState \<Rightarrow> wstring \<Rightarrow> nat" where
  "prev_end s str = resetIfOutOfRange str (length str) (gs_beg s)"

definition ambiguous :: "CodepointWidthDetector \<Rightarrow> nat \<Rightarrow> int" where
  "ambiguous d val = (let w = ucdToCharacterWidth val in if w = 3 then cwd_ambiguousWidth d else w)"

definition grapheme_width :: "CodepointWidthDetector \<Rightarrow> u32 \<Rightarrow> nat \<Rightarrow> int" where
  "grapheme_width d cp val = (if cp = 0xFE0F then 2 else ambiguous d val)"

subsubsection \<open>Grapheme clusters, forwards\<close>

text \<open>The loop from its label \<open>fetchNext\<close>: the end of the cluster, its width, the state and the last class.\<close>

function graphemeNext_fetch ::
    "CodepointWidthDetector \<Rightarrow> wstring \<Rightarrow> nat \<Rightarrow> nat \<Rightarrow> int \<Rightarrow> nat \<Rightarrow> nat \<times> int \<times> int \<times> nat" where
  "graphemeNext_fetch d str clusterEnd lead width state =
     (if clusterEnd < length str
      then (let (clusterEndNext, cp) = utf16NextOrFFFD str clusterEnd;
                trail = ucd cp;
                state = ucdGraphemeJoins state lead trail
            in if ucdGraphemeDone state then (clusterEnd, width, NOT 0, 0)
               else (let width = width + grapheme_width d cp trail
                     in if clusterEndNext \<ge> length str then (clusterEndNext, width, int state, trail)
                        else graphemeNext_fetch d str clusterEndNext trail width state))
      else (clusterEnd, width, int state, lead))"
  by pat_completeness auto
termination
  by (relation "measure (\<lambda>(d, str, clusterEnd, _). length str - clusterEnd)")
    (auto dest: utf16_dests)

declare graphemeNext_fetch.simps [simp del]

definition graphemeNext :: "CodepointWidthDetector \<Rightarrow> GraphemeState \<Rightarrow> wstring \<Rightarrow> bool \<times> GraphemeState" where
  "graphemeNext d s str =
     (let clusterBeg = next_begin s str
      in if clusterBeg < length str
         then (let (clusterEnd, width, state, lead) =
                 (if gs_state s \<noteq> 0
                  then graphemeNext_fetch d str clusterBeg (gs_last s) (gs_width s) (nat (NOT (gs_state s)))
                  else (let (clusterEnd, cp) = utf16NextOrFFFD str clusterBeg;
                            lead = ucd cp;
                            width = grapheme_width d cp lead
                        in if clusterEnd \<ge> length str then (clusterEnd, width, 0, lead)
                           else graphemeNext_fetch d str clusterEnd lead width 0))
               in (clusterEnd < length str,
                   \<lparr>gs_beg = Some clusterBeg, gs_len = clusterEnd - clusterBeg,
                    gs_width = (if width > 2 then 2 else width), gs_state = NOT state, gs_last = lead\<rparr>))
         else (False, s))"

subsubsection \<open>Grapheme clusters, backwards\<close>

function graphemePrev_fetch ::
    "CodepointWidthDetector \<Rightarrow> wstring \<Rightarrow> nat \<Rightarrow> nat \<Rightarrow> int \<Rightarrow> nat \<Rightarrow> nat \<times> int \<times> int \<times> nat" where
  "graphemePrev_fetch d str clusterBeg trail width state =
     (if 0 < clusterBeg
      then (let (clusterBegNext, cp) = utf16PrevOrFFFD str clusterBeg;
                lead = ucd cp;
                state = ucdGraphemeJoins state lead trail
            in if ucdGraphemeDone state then (clusterBeg, width, NOT 0, 0)
               else (let width = width + grapheme_width d cp lead
                     in if clusterBegNext \<le> 0 then (clusterBegNext, width, int state, lead)
                        else graphemePrev_fetch d str clusterBegNext lead width state))
      else (clusterBeg, width, int state, trail))"
  by pat_completeness auto
termination
  by (relation "measure (\<lambda>(d, str, clusterBeg, _). clusterBeg)") (auto dest: utf16_dests)

declare graphemePrev_fetch.simps [simp del]

definition graphemePrev :: "CodepointWidthDetector \<Rightarrow> GraphemeState \<Rightarrow> wstring \<Rightarrow> bool \<times> GraphemeState" where
  "graphemePrev d s str =
     (let clusterEnd = prev_end s str
      in if clusterEnd > 0
         then (let (clusterBeg, width, state, trail) =
                 (if gs_state s \<noteq> 0
                  then graphemePrev_fetch d str clusterEnd (gs_last s) (gs_width s) (nat (NOT (gs_state s)))
                  else (let (clusterBeg, cp) = utf16PrevOrFFFD str clusterEnd;
                            trail = ucd cp;
                            width = grapheme_width d cp trail
                        in if clusterBeg \<le> 0 then (clusterBeg, width, 0, trail)
                           else graphemePrev_fetch d str clusterBeg trail width 0))
               in (clusterBeg > 0,
                   \<lparr>gs_beg = Some clusterBeg, gs_len = clusterEnd - clusterBeg,
                    gs_width = (if width > 2 then 2 else width), gs_state = NOT state, gs_last = trail\<rparr>))
         else (False, s))"

subsubsection \<open>The mode after \<open>wcswidth\<close>\<close>

function graphemeNextWcswidth_loop ::
    "CodepointWidthDetector \<Rightarrow> wstring \<Rightarrow> nat \<Rightarrow> int \<Rightarrow> int \<Rightarrow> nat \<times> int \<times> int" where
  "graphemeNextWcswidth_loop d str clusterEnd width state =
     (if clusterEnd < length str
      then (let (clusterEndNext, cp) = utf16NextOrFFFD str clusterEnd;
                w = ambiguous d (ucd cp)
            in if state \<noteq> 0 \<and> w \<noteq> 0 then (clusterEnd, width, 0)
               else if clusterEndNext \<ge> length str then (clusterEndNext, width + w, 1)
               else graphemeNextWcswidth_loop d str clusterEndNext (width + w) 1)
      else (clusterEnd, width, state))"
  by pat_completeness auto
termination
  by (relation "measure (\<lambda>(d, str, clusterEnd, _). length str - clusterEnd)") (auto dest: utf16_dests)

declare graphemeNextWcswidth_loop.simps [simp del]

definition graphemeNextWcswidth :: "CodepointWidthDetector \<Rightarrow> GraphemeState \<Rightarrow> wstring \<Rightarrow> bool \<times> GraphemeState" where
  "graphemeNextWcswidth d s str =
     (let clusterBeg = next_begin s str
      in if clusterBeg \<ge> length str then (False, s)
         else (let (clusterEnd, width, state) =
                 graphemeNextWcswidth_loop d str clusterBeg (if gs_state s = 0 then 0 else gs_width s) (gs_state s)
               in (clusterEnd < length str,
                   s\<lparr>gs_beg := Some clusterBeg, gs_len := clusterEnd - clusterBeg, gs_width := width, gs_state := state\<rparr>)))"

function graphemePrevWcswidth_loop ::
    "CodepointWidthDetector \<Rightarrow> wstring \<Rightarrow> nat \<Rightarrow> int \<Rightarrow> nat \<times> int \<times> int" where
  "graphemePrevWcswidth_loop d str clusterBeg width =
     (if 0 < clusterBeg
      then (let (clusterBeg, cp) = utf16PrevOrFFFD str clusterBeg;
                width = width + ambiguous d (ucd cp);
                hasWidth = (width \<noteq> 0);
                atEnd = (clusterBeg \<le> 0)
            in if hasWidth \<or> atEnd then (clusterBeg, width, if hasWidth \<and> atEnd then 1 else 0)
               else graphemePrevWcswidth_loop d str clusterBeg width)
      else (clusterBeg, width, 0))"
  by pat_completeness auto
termination
  by (relation "measure (\<lambda>(d, str, clusterBeg, _). clusterBeg)") (auto dest: utf16_dests)

declare graphemePrevWcswidth_loop.simps [simp del]

definition graphemePrevWcswidth :: "CodepointWidthDetector \<Rightarrow> GraphemeState \<Rightarrow> wstring \<Rightarrow> bool \<times> GraphemeState" where
  "graphemePrevWcswidth d s str =
     (let clusterEnd = prev_end s str
      in if clusterEnd \<le> 0 then (False, s)
         else (let (clusterBeg, width, delayedCompletion) =
                 (if gs_state s = 0 then graphemePrevWcswidth_loop d str clusterEnd 0 else (clusterEnd, gs_width s, 0))
               in (clusterBeg > 0,
                   s\<lparr>gs_beg := Some clusterBeg, gs_len := clusterEnd - clusterBeg, gs_width := width,
                     gs_state := delayedCompletion\<rparr>)))"

subsubsection \<open>The mode of the old console\<close>

definition console_width :: "u32 \<Rightarrow> CodepointWidthDetector \<Rightarrow> int \<times> CodepointWidthDetector" where
  "console_width cp d =
     (let width = ucdToCharacterWidth (ucd cp) in if width = 3 then checkFallbackViaCache cp d else (width, d))"

definition graphemeNextConsole ::
    "CodepointWidthDetector \<Rightarrow> GraphemeState \<Rightarrow> wstring \<Rightarrow> bool \<times> GraphemeState \<times> CodepointWidthDetector" where
  "graphemeNextConsole d s str =
     (let clusterBeg = next_begin s str
      in if clusterBeg \<ge> length str then (False, s, d)
         else (let (clusterEnd, width, delayedCompletion, d) =
                 (if gs_state s = 0
                  then (let (clusterEnd, cp) = utf16NextOrFFFD str clusterBeg;
                            (width, d) = console_width cp d
                        in (clusterEnd, width, if clusterEnd \<ge> length str then 1 else 0, d))
                  else (clusterBeg, gs_width s, 0, d))
               in (delayedCompletion = 0,
                   s\<lparr>gs_beg := Some clusterBeg, gs_len := clusterEnd - clusterBeg, gs_width := width,
                     gs_state := delayedCompletion\<rparr>, d)))"

definition graphemePrevConsole ::
    "CodepointWidthDetector \<Rightarrow> GraphemeState \<Rightarrow> wstring \<Rightarrow> bool \<times> GraphemeState \<times> CodepointWidthDetector" where
  "graphemePrevConsole d s str =
     (let clusterEnd = prev_end s str
      in if clusterEnd \<le> 0 then (False, s, d)
         else (let (clusterBeg, width, delayedCompletion, d) =
                 (if gs_state s = 0
                  then (let (clusterBeg, cp) = utf16PrevOrFFFD str clusterEnd;
                            (width, d) = console_width cp d
                        in (clusterBeg, width, if clusterBeg \<le> 0 then 1 else 0, d))
                  else (clusterEnd, gs_width s, 0, d))
               in (delayedCompletion = 0,
                   s\<lparr>gs_beg := Some clusterBeg, gs_len := clusterEnd - clusterBeg, gs_width := width,
                     gs_state := delayedCompletion\<rparr>, d)))"

subsubsection \<open>Dispatch on the mode\<close>

definition GraphemeNext ::
    "CodepointWidthDetector \<Rightarrow> GraphemeState \<Rightarrow> wstring \<Rightarrow> bool \<times> GraphemeState \<times> CodepointWidthDetector" where
  "GraphemeNext d s str =
     (case cwd_mode d of
        Graphemes \<Rightarrow> (let (again, s) = graphemeNext d s str in (again, s, d))
      | Wcswidth \<Rightarrow> (let (again, s) = graphemeNextWcswidth d s str in (again, s, d))
      | Console \<Rightarrow> graphemeNextConsole d s str)"

definition GraphemePrev ::
    "CodepointWidthDetector \<Rightarrow> GraphemeState \<Rightarrow> wstring \<Rightarrow> bool \<times> GraphemeState \<times> CodepointWidthDetector" where
  "GraphemePrev d s str =
     (case cwd_mode d of
        Graphemes \<Rightarrow> (let (again, s) = graphemePrev d s str in (again, s, d))
      | Wcswidth \<Rightarrow> (let (again, s) = graphemePrevWcswidth d s str in (again, s, d))
      | Console \<Rightarrow> graphemePrevConsole d s str)"

subsection \<open>The table is read inside its bounds\<close>

lemma unat_drop_bit_and:
  "unat (drop_bit n (cp :: u32) AND 31) \<le> 31" "unat (drop_bit n cp AND 7) \<le> 7" "unat (cp AND 7) \<le> 7"
proof -
  have masks: "(31 :: u32) = mask 5" "(7 :: u32) = mask 3" by (simp_all add: mask_eq_exp_minus_1)
  have "unat (x AND mask k) < 2 ^ k" if "k < 32" for x :: u32 and k
    using that by (simp add: take_bit_eq_mask [symmetric] unsigned_take_bit_eq)
  from this [of 5] this [of 3] show "unat (drop_bit n cp AND 31) \<le> 31" "unat (drop_bit n cp AND 7) \<le> 7" "unat (cp AND 7) \<le> 7"
    unfolding masks by (simp_all add: less_Suc_eq_le [symmetric])
qed

lemma stage_nth:
  "i < 544 \<Longrightarrow> s_stage0 ! i \<le> 999" "i < 1031 \<Longrightarrow> s_stage1 ! i \<le> 1908" "i < 1916 \<Longrightarrow> s_stage2 ! i \<le> 2106"
  "i < 2114 \<Longrightarrow> s_stage3 ! i \<le> 255"
  using stage_ranges by (simp_all add: list_all_length)

lemma ucdLookup_defined:
  assumes "cp < 0x110000"
  shows "\<exists>v \<le> 255. ucdLookup cp = Some v"
proof -
  define i0 where "i0 = unat (drop_bit 11 cp)"
  have "unat cp < 1114112" using assms by (simp add: word_less_nat_alt)
  moreover have "i0 = unat cp div 2048" unfolding i0_def unat_drop_bit_eq by (simp add: drop_bit_eq_div)
  ultimately have i0: "i0 < 544" by simp
  define i1 where "i1 = s_stage0 ! i0 + unat (drop_bit 6 cp AND 31)"
  have i1: "i1 < 1031" using stage_nth(1) [OF i0] unat_drop_bit_and(1) [of 6 cp] by (simp add: i1_def)
  define i2 where "i2 = s_stage1 ! i1 + unat (drop_bit 3 cp AND 7)"
  have i2: "i2 < 1916" using stage_nth(2) [OF i1] unat_drop_bit_and(2) [of 3 cp] by (simp add: i2_def)
  define i3 where "i3 = s_stage2 ! i2 + unat (cp AND 7)"
  have i3: "i3 < 2114" using stage_nth(3) [OF i2] unat_drop_bit_and(3) [of cp] by (simp add: i3_def)
  have "ucdLookup cp = Some (s_stage3 ! i3)"
    using i0 i1 i2 i3 by (simp add: ucdLookup_def array_at_def i0_def [symmetric] i1_def [symmetric] i2_def [symmetric] i3_def [symmetric])
  then show ?thesis using stage_nth(4) [OF i3] by auto
qed

text \<open>The bits of a code unit above a position, as a quotient.\<close>

lemma unat_and_high: "k < 16 \<Longrightarrow> unat (c AND NOT (mask k) :: wchar) = 2 ^ k * (unat c div 2 ^ k)"
proof -
  have "c AND NOT (mask k) = push_bit k (drop_bit k c)" by (rule bit_word_eqI) (auto simp: bit_simps)
  moreover have "2 ^ k * (unat c div 2 ^ k) < 2 ^ 16"
    using unat_wchar_lt [of c] times_div_less_eq_dividend [of "2 ^ k" "unat c"]
    by (simp add: le_less_trans del: times_div_less_eq_dividend)
  moreover have "unat (push_bit k (drop_bit k c)) = take_bit 16 (push_bit k (drop_bit k (unat c)))"
    by (simp add: unsigned_push_bit_eq unat_drop_bit_eq)
  ultimately show ?thesis
    by (metis drop_bit_eq_div mult.commute push_bit_eq_mult take_bit_nat_eq_self)
qed

lemma surrogate_ranges:
  "is_surrogate c \<longleftrightarrow> unat c div 2048 = 27" "is_leading c \<longleftrightarrow> unat c div 1024 = 54" "is_trailing c \<longleftrightarrow> unat c div 1024 = 55"
proof -
  have masks: "(0xF800 :: wchar) = NOT (mask 11)" "(0xFC00 :: wchar) = NOT (mask 10)"
    by (simp_all add: mask_eq_exp_minus_1)
  show "is_surrogate c \<longleftrightarrow> unat c div 2048 = 27"
    unfolding is_surrogate_def masks word_unat_eq_iff unat_and_high [of 11, simplified] by auto
  show "is_leading c \<longleftrightarrow> unat c div 1024 = 54" "is_trailing c \<longleftrightarrow> unat c div 1024 = 55"
    unfolding is_leading_def is_trailing_def masks word_unat_eq_iff unat_and_high [of 10, simplified] by auto
qed

lemma surrogate_halves: "is_surrogate c \<Longrightarrow> c AND 0x400 = 0 \<longleftrightarrow> is_leading c"
  "is_surrogate c \<Longrightarrow> c AND 0x400 \<noteq> 0 \<longleftrightarrow> is_trailing c"
proof -
  have "c AND 0x400 = 0 \<longleftrightarrow> \<not> bit c 10"
    using and_exp_eq_0_iff_not_bit [of c 10] by simp
  moreover have "bit c 10 \<longleftrightarrow> odd (unat c div 1024)" 
  proof -
    have "bit c 10 \<longleftrightarrow> bit (unat c) 10" by (simp add: bit_unsigned_iff)
    then show ?thesis by (simp add: bit_iff_odd)
  qed
  moreover assume "is_surrogate c"
  moreover from this have "unat c div 1024 = 54 \<or> unat c div 1024 = 55" unfolding surrogate_ranges by linarith
  ultimately show "c AND 0x400 = 0 \<longleftrightarrow> is_leading c" "c AND 0x400 \<noteq> 0 \<longleftrightarrow> is_trailing c"
    unfolding surrogate_ranges by auto
qed

lemma leading_surrogate: "is_leading c \<Longrightarrow> is_surrogate c" "is_trailing c \<Longrightarrow> is_surrogate c" "\<not> (is_leading c \<and> is_trailing c)"
  unfolding surrogate_ranges by linarith+

lemma surrogate_pair_range:
  assumes "is_leading c1" "is_trailing c2"
  shows "surrogate_pair c1 c2 < 0x110000"
proof -
  define a b where "a = unat c1" and "b = unat c2"
  have ab: "55296 \<le> a" "a < 56320" "56320 \<le> b" "b < 57344"
    using assms unfolding surrogate_ranges a_def b_def by linarith+
  have "surrogate_pair c1 c2 = word_of_nat (a * 1024 + b - 56613888)"
    using ab by (simp add: surrogate_pair_def a_def b_def push_bit_eq_mult of_nat_diff)
  then show ?thesis using ab by (simp add: word_less_nat_alt unat_of_nat del: of_nat_diff of_nat_add of_nat_mult)
qed

lemma utf16_range:
  "snd (utf16NextOrFFFD str it) < 0x110000" "snd (utf16PrevOrFFFD str it) < 0x110000"
proof -
  have "(ucast c :: u32) < 0x110000" for c :: wchar
    using unat_wchar_lt [of c] by (simp add: word_less_nat_alt unsigned_ucast_eq take_bit_nat_eq_self)
  then show "snd (utf16NextOrFFFD str it) < 0x110000" "snd (utf16PrevOrFFFD str it) < 0x110000"
    using surrogate_pair_range surrogate_halves leading_surrogate
    by (auto simp: utf16NextOrFFFD_def utf16PrevOrFFFD_def Let_def)
qed

subsection \<open>Decoding backwards undoes decoding forwards\<close>

text \<open>Positions that do not lie inside a surrogate pair.\<close>

definition cp_boundary :: "wstring \<Rightarrow> nat \<Rightarrow> bool" where
  "cp_boundary str p \<longleftrightarrow> p \<le> length str \<and> \<not> (0 < p \<and> p < length str \<and> is_leading (str ! (p - 1)) \<and> is_trailing (str ! p))"

lemma utf16Next_cases:
  assumes "it < length str"
  shows "utf16NextOrFFFD str it =
    (if is_leading (str ! it) \<and> it + 1 < length str \<and> is_trailing (str ! (it + 1))
     then (it + 2, surrogate_pair (str ! it) (str ! (it + 1)))
     else (it + 1, if is_surrogate (str ! it) then 0xFFFD else ucast (str ! it)))"
  using assms surrogate_halves(1) [of "str ! it"] leading_surrogate [of "str ! it"]
  by (auto simp: utf16NextOrFFFD_def Let_def)

lemma utf16Prev_cases:
  assumes "0 < it"
  shows "utf16PrevOrFFFD str it =
    (if 1 < it \<and> is_leading (str ! (it - 2)) \<and> is_trailing (str ! (it - 1))
     then (it - 2, surrogate_pair (str ! (it - 2)) (str ! (it - 1)))
     else (it - 1, if is_surrogate (str ! (it - 1)) then 0xFFFD else ucast (str ! (it - 1))))"
  using assms surrogate_halves(2) [of "str ! (it - 1)"] leading_surrogate [of "str ! (it - 1)"]
  by (auto simp: utf16PrevOrFFFD_def Let_def numeral_2_eq_2)

lemma utf16_next_boundary:
  assumes "cp_boundary str p" "p < length str" "utf16NextOrFFFD str p = (q, cp)"
  shows "cp_boundary str q" and "utf16PrevOrFFFD str q = (p, cp)"
proof -
  show "cp_boundary str q"
    using assms leading_surrogate(3) [of "str ! (p + 1)"]
    by (auto simp: utf16Next_cases cp_boundary_def split: if_splits)
  have "0 < q" using utf16Next_bounds(1) [OF assms(3,2)] by simp
  then show "utf16PrevOrFFFD str q = (p, cp)"
    using assms leading_surrogate(3) [of "str ! p"]
    by (auto simp: utf16Next_cases utf16Prev_cases cp_boundary_def split: if_splits)
qed

lemma utf16_prev_boundary:
  assumes "cp_boundary str q" "0 < q" "utf16PrevOrFFFD str q = (p, cp)"
  shows "cp_boundary str p" and "utf16NextOrFFFD str p = (q, cp)"
proof -
  have "cp_boundary str p \<and> utf16NextOrFFFD str p = (q, cp)"
  proof (cases "1 < q \<and> is_leading (str ! (q - 2)) \<and> is_trailing (str ! (q - 1))")
    case True
    then obtain k where q: "q = Suc (Suc k)" by (cases q; cases "q - 1") auto
    with True assms have "p = k" "cp = surrogate_pair (str ! k) (str ! (k + 1))" "k + 1 < length str"
      by (auto simp: utf16Prev_cases cp_boundary_def)
    then show ?thesis using True q leading_surrogate(3) [of "str ! k"] by (simp add: utf16Next_cases cp_boundary_def)
  next
    case False
    from assms(2) obtain k where q: "q = Suc k" by (cases q) auto
    with False assms have k: "p = k" "cp = (if is_surrogate (str ! k) then 0xFFFD else ucast (str ! k))" "k < length str"
      by (auto simp: utf16Prev_cases cp_boundary_def)
    have "\<not> (is_leading (str ! k) \<and> k + 1 < length str \<and> is_trailing (str ! (k + 1)))"
      using assms(1) q by (auto simp: cp_boundary_def)
    moreover have "\<not> (0 < k \<and> is_leading (str ! (k - 1)) \<and> is_trailing (str ! k))"
      using False q by (cases k) auto
    ultimately show ?thesis using k q by (auto simp: utf16Next_cases cp_boundary_def)
  qed
  then show "cp_boundary str p" "utf16NextOrFFFD str p = (q, cp)" by auto
qed

subsection \<open>Steps advance, and clusters are at most two columns wide\<close>

definition cwd_ok :: "CodepointWidthDetector \<Rightarrow> bool" where
  "cwd_ok d \<longleftrightarrow> cwd_ambiguousWidth d \<in> {1, 2} \<and> (\<forall>cp w. cwd_fallbackCache d cp = Some w \<longrightarrow> w \<in> {1, 2})"

lemma cwd_ok_init: "cwd_ok CodepointWidthDetector_init"
  by (simp add: cwd_ok_def CodepointWidthDetector_init_def)

lemma joins_range:
  assumes "state < 2"
  shows "ucdGraphemeJoins state lead trail \<in> {0, 1, 3}"
proof -
  have "list_all (\<lambda>state. list_all (\<lambda>l. list_all (\<lambda>t.
      unat (drop_bit (t * 2) (s_joinRules ! state ! l) AND 3) \<in> {0, 1, 3}) [0..<16]) [0..<16]) [0..<2]"
    by code_simp
  then show ?thesis using assms by (simp add: list_all_iff ucdGraphemeJoins_def Let_def)
qed

lemma ucd_width: "0 \<le> ucdToCharacterWidth (ucd cp)" "cp < 0x110000 \<Longrightarrow> ucdToCharacterWidth (ucd cp) \<le> 3"
  using ucdLookup_defined [of cp] by (auto simp: ucdToCharacterWidth_def ucd_def)

lemma ambiguous_range: "cwd_ok d \<Longrightarrow> 0 \<le> ambiguous d (ucd cp)" "cwd_ok d \<Longrightarrow> cp < 0x110000 \<Longrightarrow> ambiguous d (ucd cp) \<le> 2"
  using ucd_width [of cp] by (auto simp: ambiguous_def cwd_ok_def Let_def)

lemma grapheme_width_nonneg: "cwd_ok d \<Longrightarrow> 0 \<le> grapheme_width d cp (ucd cp)"
  using ambiguous_range by (simp add: grapheme_width_def)

lemma graphemeNext_fetch_bounds:
  assumes "cwd_ok d" "clusterEnd < length str" "state < 2" "0 \<le> width"
    and "graphemeNext_fetch d str clusterEnd lead width state = (e, w, st, l)"
  shows "clusterEnd \<le> e \<and> e \<le> length str \<and> 0 \<le> w \<and> (e < length str \<longleftrightarrow> st = NOT 0) \<and> (st = NOT 0 \<or> st = 0 \<or> st = 1)"
  using assms
proof (induction d str clusterEnd lead width state rule: graphemeNext_fetch.induct)
  case (1 d str clusterEnd lead width state)
  obtain n cp where n: "utf16NextOrFFFD str clusterEnd = (n, cp)" by (cases "utf16NextOrFFFD str clusterEnd")
  have bounds: "clusterEnd < n" "n \<le> length str" using utf16Next_bounds [OF n 1(3)] by auto
  define st' where "st' = ucdGraphemeJoins state lead (ucd cp)"
  have st': "st' \<in> {0, 1, 3}" using joins_range [OF 1(4)] by (simp add: st'_def)
  have w': "0 \<le> width + grapheme_width d cp (ucd cp)" using grapheme_width_nonneg [OF 1(2)] 1(5) by simp
  show ?case
  proof (cases "ucdGraphemeDone st' \<or> n \<ge> length str")
    case True
    then show ?thesis
      using 1(3,5,6) n bounds w' st'
      by (subst (asm) graphemeNext_fetch.simps)
        (auto simp: st'_def [symmetric] Let_def ucdGraphemeDone_def split: if_splits)
  next
    case False
    then have rec: "graphemeNext_fetch d str n (ucd cp) (width + grapheme_width d cp (ucd cp)) st' = (e, w, st, l)"
      using 1(3,6) n by (subst (asm) graphemeNext_fetch.simps) (simp add: st'_def [symmetric] Let_def)
    have "n \<le> e \<and> e \<le> length str \<and> 0 \<le> w \<and> (e < length str \<longleftrightarrow> st = NOT 0) \<and> (st = NOT 0 \<or> st = 0 \<or> st = 1)"
      using False st' by (intro 1(1) [OF 1(3) n [symmetric] refl refl _ _ refl _ 1(2) _ _ w' rec])
        (auto simp: st'_def [symmetric] ucdGraphemeDone_def)
    then show ?thesis using bounds by auto
  qed
qed

lemma graphemeNextWcswidth_loop_bounds:
  assumes "cwd_ok d" "clusterEnd < length str" "state = 0 \<longrightarrow> width = 0" "0 \<le> width" "width \<le> 2"
    and "graphemeNextWcswidth_loop d str clusterEnd width state = (e, w, st)"
  shows "clusterEnd \<le> e \<and> e \<le> length str \<and> 0 \<le> w \<and> w \<le> 2 \<and> (e < length str \<longleftrightarrow> st = 0) \<and> (state = 0 \<longrightarrow> clusterEnd < e)"
  using assms
proof (induction d str clusterEnd width state rule: graphemeNextWcswidth_loop.induct)
  case (1 d str clusterEnd width state)
  obtain n cp where n: "utf16NextOrFFFD str clusterEnd = (n, cp)" by (cases "utf16NextOrFFFD str clusterEnd")
  have bounds: "clusterEnd < n" "n \<le> length str" using utf16Next_bounds [OF n 1(3)] by auto
  define w1 where "w1 = ambiguous d (ucd cp)"
  have w1: "0 \<le> w1" "w1 \<le> 2" using ambiguous_range [OF 1(2), of cp] utf16_range(1) [of str clusterEnd] n by (auto simp: w1_def)
  show ?case
  proof (cases "(state \<noteq> 0 \<and> w1 \<noteq> 0) \<or> n \<ge> length str")
    case True
    then show ?thesis
      using 1(3-7) n bounds w1
      by (subst (asm) graphemeNextWcswidth_loop.simps) (auto simp: w1_def [symmetric] Let_def split: if_splits)
  next
    case False
    then have rec: "graphemeNextWcswidth_loop d str n (width + w1) 1 = (e, w, st)"
      using 1(3,7) n by (subst (asm) graphemeNextWcswidth_loop.simps) (auto simp: w1_def [symmetric] Let_def)
    have "0 \<le> width + w1" "width + w1 \<le> 2" using False w1 1(4-6) by auto
    then have "n \<le> e \<and> e \<le> length str \<and> 0 \<le> w \<and> w \<le> 2 \<and> (e < length str \<longleftrightarrow> st = 0)"
      using False 1(1) [OF 1(3) n [symmetric] refl refl _ _ 1(2)] rec by (auto simp: w1_def)
    then show ?thesis using bounds by auto
  qed
qed

lemma checkFallback_range:
  assumes "cwd_ok d" "checkFallbackViaCache cp d = (w, d')"
  shows "w \<in> {1, 2}" and "cwd_ok d'" and "cwd_mode d' = cwd_mode d"
proof -
  have "w \<in> {1, 2} \<and> cwd_ok d' \<and> cwd_mode d' = cwd_mode d"
    using assms
    by (auto simp: checkFallbackViaCache_def cwd_ok_def Let_def split: option.splits if_splits; blast)
  then show "w \<in> {1, 2}" "cwd_ok d'" "cwd_mode d' = cwd_mode d" by auto
qed

lemma console_width_range:
  assumes "cwd_ok d" "console_width cp d = (w, d')" "cp < 0x110000"
  shows "0 \<le> w" and "w \<le> 2" and "cwd_ok d'" and "cwd_mode d' = cwd_mode d"
  using assms checkFallback_range [OF assms(1), of cp] ucd_width [of cp]
  by (auto simp: console_width_def Let_def split: if_splits)

text \<open>
  A step with nothing left over from another string consumes at least one code unit and stays inside
  the string; it says whether text is left, and only then leaves nothing over itself.
\<close>

lemma GraphemeNext_fresh:
  assumes "cwd_ok d" "gs_state s = 0" "next_begin s str < length str" "GraphemeNext d s str = (again, s', d')"
  shows "gs_beg s' = Some (next_begin s str)" and "0 < gs_len s'" and "next_begin s str + gs_len s' \<le> length str"
    and "0 \<le> gs_width s'" and "gs_width s' \<le> 2" and "again \<longleftrightarrow> next_begin s str + gs_len s' < length str"
    and "gs_state s' = 0 \<longleftrightarrow> again" and "cwd_ok d'" and "cwd_mode d' = cwd_mode d"
proof -
  let ?b = "next_begin s str"
  obtain n cp where n: "utf16NextOrFFFD str ?b = (n, cp)" by (cases "utf16NextOrFFFD str ?b")
  have bounds: "?b < n" "n \<le> length str" using utf16Next_bounds [OF n assms(3)] by auto
  have cp: "cp < 0x110000" using utf16_range(1) [of str ?b] n by simp
  obtain e w st l where fetch: "graphemeNext_fetch d str n (ucd cp) (grapheme_width d cp (ucd cp)) 0 = (e, w, st, l)"
    by (cases "graphemeNext_fetch d str n (ucd cp) (grapheme_width d cp (ucd cp)) 0")
  note fetch_bounds = graphemeNext_fetch_bounds [OF assms(1) _ _ grapheme_width_nonneg [OF assms(1)] fetch]
  obtain e' w' st' where loop: "graphemeNextWcswidth_loop d str ?b 0 0 = (e', w', st')"
    by (cases "graphemeNextWcswidth_loop d str ?b 0 0")
  note loop_bounds = graphemeNextWcswidth_loop_bounds [OF assms(1,3) _ _ _ loop, simplified]
  have "gs_beg s' = Some ?b \<and> 0 < gs_len s' \<and> ?b + gs_len s' \<le> length str \<and> 0 \<le> gs_width s' \<and> gs_width s' \<le> 2
    \<and> (again \<longleftrightarrow> ?b + gs_len s' < length str) \<and> (gs_state s' = 0 \<longleftrightarrow> again) \<and> cwd_ok d' \<and> cwd_mode d' = cwd_mode d"
  proof (cases "cwd_mode d")
    case Graphemes
    then show ?thesis
      using assms n bounds fetch fetch_bounds grapheme_width_nonneg [OF assms(1), of cp]
      by (cases "n < length str") (auto simp: GraphemeNext_def graphemeNext_def Let_def)
  next
    case Wcswidth
    then show ?thesis
      using assms loop loop_bounds by (auto simp: GraphemeNext_def graphemeNextWcswidth_def Let_def)
  next
    case Console
    then show ?thesis
      using assms n bounds console_width_range [OF assms(1) _ cp]
      by (cases "n < length str") (auto simp: GraphemeNext_def graphemeNextConsole_def Let_def split: prod.splits)
  qed
  then show "gs_beg s' = Some ?b" "0 < gs_len s'" "?b + gs_len s' \<le> length str" "0 \<le> gs_width s'" "gs_width s' \<le> 2"
    "again \<longleftrightarrow> ?b + gs_len s' < length str" "gs_state s' = 0 \<longleftrightarrow> again" "cwd_ok d'" "cwd_mode d' = cwd_mode d"
    by auto
qed

text \<open>The call with the next string: what was left over decides how much of it belongs to the cluster.\<close>

definition leftover_ok :: "CodepointWidthDetector \<Rightarrow> GraphemeState \<Rightarrow> bool" where
  "leftover_ok d s \<longleftrightarrow> 0 \<le> gs_width s \<and> gs_width s \<le> 2 \<and>
     (gs_state s \<noteq> 0 \<longrightarrow> cwd_mode d = Graphemes \<longrightarrow> NOT (gs_state s) \<in> {0, 1})"

lemma GraphemeNext_leftover_ok:
  assumes "cwd_ok d" "gs_state s = 0" "next_begin s str < length str" "GraphemeNext d s str = (again, s', d')"
  shows "leftover_ok d' s'"
proof -
  have "NOT (gs_state s') \<in> {0, 1}" if "cwd_mode d = Graphemes" "gs_state s' \<noteq> 0"
  proof -
    let ?b = "next_begin s str"
    obtain n cp where n: "utf16NextOrFFFD str ?b = (n, cp)" by (cases "utf16NextOrFFFD str ?b")
    obtain e w st l where fetch: "graphemeNext_fetch d str n (ucd cp) (grapheme_width d cp (ucd cp)) 0 = (e, w, st, l)"
      by (cases "graphemeNext_fetch d str n (ucd cp) (grapheme_width d cp (ucd cp)) 0")
    show ?thesis
      using that assms n fetch graphemeNext_fetch_bounds [OF assms(1) _ _ grapheme_width_nonneg [OF assms(1)] fetch]
      by (cases "n < length str") (auto simp: GraphemeNext_def graphemeNext_def Let_def)
  qed
  then show ?thesis
    using GraphemeNext_fresh [OF assms] by (auto simp: leftover_ok_def)
qed

lemma GraphemeNext_join:
  assumes "cwd_ok d" "leftover_ok d s" "str \<noteq> []" "gs_beg s = None" "GraphemeNext d s str = (again, s', d')"
  shows "gs_len s' \<le> length str" and "0 \<le> gs_width s'" and "gs_width s' \<le> 2"
proof -
  have b: "next_begin s str = 0" using assms(4) by (simp add: next_begin_def resetIfOutOfRange_def)
  have "gs_len s' \<le> length str \<and> 0 \<le> gs_width s' \<and> gs_width s' \<le> 2"
  proof (cases "gs_state s = 0")
    case True
    then show ?thesis using GraphemeNext_fresh [OF assms(1) True _ assms(5)] assms(3) b by auto
  next
    case False
    obtain e w st l where fetch:
      "graphemeNext_fetch d str 0 (gs_last s) (gs_width s) (nat (NOT (gs_state s))) = (e, w, st, l)"
      by (cases "graphemeNext_fetch d str 0 (gs_last s) (gs_width s) (nat (NOT (gs_state s)))")
    obtain e' w' st' where loop: "graphemeNextWcswidth_loop d str 0 (gs_width s) (gs_state s) = (e', w', st')"
      by (cases "graphemeNextWcswidth_loop d str 0 (gs_width s) (gs_state s)")
    have width: "0 \<le> gs_width s" "gs_width s \<le> 2" using assms(2) by (auto simp: leftover_ok_def)
    show ?thesis
    proof (cases "cwd_mode d")
      case Graphemes
      then have "nat (NOT (gs_state s)) < 2" using assms(2) False by (auto simp: leftover_ok_def)
      then show ?thesis
        using Graphemes False assms(3,5) b fetch graphemeNext_fetch_bounds [OF assms(1) _ _ width(1) fetch]
        by (auto simp: GraphemeNext_def graphemeNext_def Let_def)
    next
      case Wcswidth
      then show ?thesis
        using False assms(3,5) b loop width graphemeNextWcswidth_loop_bounds [OF assms(1) _ _ width loop]
        by (auto simp: GraphemeNext_def graphemeNextWcswidth_def Let_def)
    next
      case Console
      then show ?thesis
        using False assms(3,5) b width by (auto simp: GraphemeNext_def graphemeNextConsole_def Let_def)
    qed
  qed
  then show "gs_len s' \<le> length str" "0 \<le> gs_width s'" "gs_width s' \<le> 2" by auto
qed

subsection \<open>The cache is invisible\<close>

text \<open>Entries of the cache agree with the fallback method, which gives the same answer every time.\<close>

definition cache_ok :: "CodepointWidthDetector \<Rightarrow> bool" where
  "cache_ok d \<longleftrightarrow> (\<forall>f cp w. cwd_pfnFallbackMethod d = Some f \<and> cwd_fallbackCache d cp = Some w \<longrightarrow>
     f (utf16_of cp) = Some (w = 2) \<and> w \<in> {1, 2})"

definition but_cache :: "CodepointWidthDetector \<Rightarrow> CodepointWidthDetector" where
  "but_cache d = d\<lparr>cwd_fallbackCache := Map.empty\<rparr>"

lemma but_cache_eq:
  "but_cache d = but_cache d' \<longleftrightarrow> cwd_pfnFallbackMethod d = cwd_pfnFallbackMethod d' \<and> cwd_mode d = cwd_mode d' \<and>
     cwd_ambiguousWidth d = cwd_ambiguousWidth d'"
  by (cases d; cases d') (auto simp: but_cache_def)

lemma checkFallback_cache:
  assumes "cache_ok d"
  shows "fst (checkFallbackViaCache cp d) = (case cwd_pfnFallbackMethod d of None \<Rightarrow> 1 | Some f \<Rightarrow>
      (case f (utf16_of cp) of None \<Rightarrow> 1 | Some wide \<Rightarrow> if wide then 2 else 1))"
    and "cache_ok (snd (checkFallbackViaCache cp d))" and "but_cache (snd (checkFallbackViaCache cp d)) = but_cache d"
proof -
  show "fst (checkFallbackViaCache cp d) = (case cwd_pfnFallbackMethod d of None \<Rightarrow> 1 | Some f \<Rightarrow>
      (case f (utf16_of cp) of None \<Rightarrow> 1 | Some wide \<Rightarrow> if wide then 2 else 1))"
    using assms by (auto simp: checkFallbackViaCache_def cache_ok_def Let_def split: option.split; metis)
  show "cache_ok (snd (checkFallbackViaCache cp d))" "but_cache (snd (checkFallbackViaCache cp d)) = but_cache d"
    using assms by (auto simp: checkFallbackViaCache_def cache_ok_def but_cache_eq Let_def split: option.split)
qed

lemma console_width_cache:
  assumes "cache_ok d" "cache_ok d'" "but_cache d = but_cache d'"
  shows "fst (console_width cp d) = fst (console_width cp d')"
    and "cache_ok (snd (console_width cp d))" and "but_cache (snd (console_width cp d)) = but_cache d"
  using assms checkFallback_cache [OF assms(1), of cp] checkFallback_cache [OF assms(2), of cp]
  by (auto simp: console_width_def Let_def but_cache_eq)

lemma widths_cache:
  assumes "but_cache d = but_cache d'"
  shows "ambiguous d = ambiguous d'" and "grapheme_width d = grapheme_width d'"
proof -
  show "ambiguous d = ambiguous d'" using assms by (intro ext) (simp add: ambiguous_def but_cache_eq Let_def)
  then show "grapheme_width d = grapheme_width d'" by (intro ext) (simp add: grapheme_width_def)
qed

lemma fetch_cache:
  assumes "but_cache d = but_cache d'"
  shows "graphemeNext_fetch d str e l w st = graphemeNext_fetch d' str e l w st"
  using assms
proof (induction d str e l w st rule: graphemeNext_fetch.induct)
  case (1 d str clusterEnd lead width state)
  show ?case
    using 1 by (subst (1 2) graphemeNext_fetch.simps) (auto simp: Let_def widths_cache(2) [OF 1(2)] split: prod.split)
qed

lemma wcswidth_cache:
  assumes "but_cache d = but_cache d'"
  shows "graphemeNextWcswidth_loop d str e w st = graphemeNextWcswidth_loop d' str e w st"
  using assms
proof (induction d str e w st rule: graphemeNextWcswidth_loop.induct)
  case (1 d str clusterEnd width state)
  show ?case
    using 1 by (subst (1 2) graphemeNextWcswidth_loop.simps) (auto simp: Let_def widths_cache(1) [OF 1(2)] split: prod.split)
qed

text \<open>Detectors that differ in their caches cut the same clusters, and a step changes nothing but the cache.\<close>

lemma GraphemeNext_cache:
  assumes "cache_ok d" "cache_ok d'" "but_cache d = but_cache d'"
  shows "fst (GraphemeNext d s str) = fst (GraphemeNext d' s str)"
    and "fst (snd (GraphemeNext d s str)) = fst (snd (GraphemeNext d' s str))"
    and "cache_ok (snd (snd (GraphemeNext d s str)))" and "but_cache (snd (snd (GraphemeNext d s str))) = but_cache d"
  using assms console_width_cache [OF assms]
  by (auto simp: GraphemeNext_def graphemeNext_def graphemeNextWcswidth_def graphemeNextConsole_def Let_def split_beta
      fetch_cache [OF assms(3)] wcswidth_cache [OF assms(3)] widths_cache [OF assms(3)] but_cache_eq
      split: TextMeasurementMode.split)

subsection \<open>Cutting a whole string\<close>

lemma fetch_progress:
  "clusterEnd \<le> length str \<Longrightarrow> clusterEnd \<le> fst (graphemeNext_fetch d str clusterEnd lead width state)
     \<and> fst (graphemeNext_fetch d str clusterEnd lead width state) \<le> length str"
proof (induction d str clusterEnd lead width state rule: graphemeNext_fetch.induct)
  case (1 d str clusterEnd lead width state)
  obtain n cp where n: "utf16NextOrFFFD str clusterEnd = (n, cp)" by (cases "utf16NextOrFFFD str clusterEnd")
  let ?rec = "graphemeNext_fetch d str n (ucd cp) (width + grapheme_width d cp (ucd cp)) (ucdGraphemeJoins state lead (ucd cp))"
  have "clusterEnd \<le> fst ?rec \<and> fst ?rec \<le> length str"
    if "clusterEnd < length str" "\<not> ucdGraphemeDone (ucdGraphemeJoins state lead (ucd cp))" "\<not> length str \<le> n"
    using 1(1) [OF that(1) n [symmetric] refl refl refl that(2) refl that(3)] utf16Next_bounds [OF n that(1)] by simp
  then show ?case
    using 1(2) n utf16Next_bounds [OF n] by (subst (1 2) graphemeNext_fetch.simps) (auto simp: Let_def)
qed

lemma wcswidth_progress:
  "clusterEnd < length str \<Longrightarrow> clusterEnd \<le> fst (graphemeNextWcswidth_loop d str clusterEnd width state)
     \<and> fst (graphemeNextWcswidth_loop d str clusterEnd width state) \<le> length str
     \<and> (state = 0 \<longrightarrow> clusterEnd < fst (graphemeNextWcswidth_loop d str clusterEnd width state))"
proof (induction d str clusterEnd width state rule: graphemeNextWcswidth_loop.induct)
  case (1 d str clusterEnd width state)
  obtain n cp where n: "utf16NextOrFFFD str clusterEnd = (n, cp)" by (cases "utf16NextOrFFFD str clusterEnd")
  let ?rec = "graphemeNextWcswidth_loop d str n (width + ambiguous d (ucd cp)) 1"
  have "clusterEnd < fst ?rec \<and> fst ?rec \<le> length str"
    if "\<not> (state \<noteq> 0 \<and> ambiguous d (ucd cp) \<noteq> 0)" "\<not> length str \<le> n"
    using 1(1) [OF 1(2) n [symmetric] refl refl that] utf16Next_bounds [OF n 1(2)] that by simp
  then show ?case
    using 1(2) n utf16Next_bounds [OF n] by (subst (1 2 3) graphemeNextWcswidth_loop.simps) (auto simp: Let_def)
qed

lemma GraphemeNext_progress:
  assumes "gs_state s = 0" "next_begin s str < length str" "GraphemeNext d s str = (again, s', d')"
  shows "0 < gs_len s'" and "next_begin s str < next_begin s' str \<or> gs_state s' \<noteq> 0"
proof -
  let ?b = "next_begin s str"
  obtain n cp where n: "utf16NextOrFFFD str ?b = (n, cp)" by (cases "utf16NextOrFFFD str ?b")
  have bounds: "?b < n" "n \<le> length str" using utf16Next_bounds [OF n assms(2)] by auto
  obtain e w st l where fetch: "graphemeNext_fetch d str n (ucd cp) (grapheme_width d cp (ucd cp)) 0 = (e, w, st, l)"
    by (cases "graphemeNext_fetch d str n (ucd cp) (grapheme_width d cp (ucd cp)) 0")
  have e: "n \<le> e" "e \<le> length str" using fetch_progress [OF bounds(2)] fetch by (metis fst_conv)+
  obtain e' w' st' where loop: "graphemeNextWcswidth_loop d str ?b 0 0 = (e', w', st')"
    by (cases "graphemeNextWcswidth_loop d str ?b 0 0")
  have e': "?b < e'" "e' \<le> length str" using wcswidth_progress [OF assms(2), of d 0 0] loop by simp_all
  have "gs_beg s' = Some ?b \<and> 0 < gs_len s' \<and> (?b + gs_len s' \<le> length str \<or> gs_state s' \<noteq> 0)"
  proof (cases "cwd_mode d")
    case Graphemes
    then show ?thesis
      using assms n bounds fetch e by (cases "n < length str") (auto simp: GraphemeNext_def graphemeNext_def Let_def)
  next
    case Wcswidth
    then show ?thesis
      using assms loop e' by (auto simp: GraphemeNext_def graphemeNextWcswidth_def Let_def)
  next
    case Console
    then show ?thesis
      using assms n bounds
      by (cases "n < length str") (auto simp: GraphemeNext_def graphemeNextConsole_def Let_def split: prod.splits)
  qed
  then show "0 < gs_len s'" "next_begin s str < next_begin s' str \<or> gs_state s' \<noteq> 0"
    by (auto simp: next_begin_def [of s'] resetIfOutOfRange_def)
qed

text \<open>The clusters of a string from a state on: the number of code units and the width of each.\<close>

function clusters :: "CodepointWidthDetector \<Rightarrow> GraphemeState \<Rightarrow> wstring \<Rightarrow> (nat \<times> int) list" where
  "clusters d s str =
     (if gs_state s = 0 \<and> next_begin s str < length str
      then (let (again, s', d') = GraphemeNext d s str
            in (gs_len s', gs_width s') # (if again then clusters d' s' str else []))
      else [])"
  by pat_completeness auto
termination
proof (relation "measure (\<lambda>(d, s, str). if gs_state s = 0 then Suc (length str - next_begin s str) else 0)")
  fix d s str x again y s' d'
  assume a: "gs_state s = 0 \<and> next_begin s str < length str" "x = GraphemeNext d s str" "(again, y) = x" "(s', d') = y"
  then have "GraphemeNext d s str = (again, s', d')" by simp
  from GraphemeNext_progress(2) [OF _ _ this] a
  show "((d', s', str), d, s, str) \<in> measure (\<lambda>(d, s, str). if gs_state s = 0 then Suc (length str - next_begin s str) else 0)"
    by auto
qed simp

declare clusters.simps [simp del]

lemma clusters_partition:
  assumes "cwd_ok d" "gs_state s = 0" "next_begin s str \<le> length str"
  shows "(\<Sum>(n, w)\<leftarrow>clusters d s str. n) = length str - next_begin s str
    \<and> (\<forall>(n, w) \<in> set (clusters d s str). 0 < n \<and> 0 \<le> w \<and> w \<le> 2)"
  using assms
proof (induction d s str rule: clusters.induct)
  case (1 d s str)
  show ?case
  proof (cases "next_begin s str < length str")
    case True
    obtain again s' d' where step: "GraphemeNext d s str = (again, s', d')" by (cases "GraphemeNext d s str")
    note fresh = GraphemeNext_fresh [OF 1(2,3) True step]
    have unfold: "clusters d s str = (gs_len s', gs_width s') # (if again then clusters d' s' str else [])"
      using True 1(3) step by (subst clusters.simps) simp
    have pos: "next_begin s' str = next_begin s str + gs_len s'"
      using fresh(1,3) by (simp add: next_begin_def [of s'] resetIfOutOfRange_def)
    show ?thesis
    proof (cases again)
      case True
      have "(\<Sum>(n, w)\<leftarrow>clusters d' s' str. n) = length str - next_begin s' str
          \<and> (\<forall>(n, w) \<in> set (clusters d' s' str). 0 < n \<and> 0 \<le> w \<and> w \<le> 2)"
        using \<open>next_begin s str < length str\<close> 1(3) fresh step True pos by (intro 1(1) [OF _ step [symmetric] refl]) auto
      then show ?thesis using True unfold fresh pos by auto
    next
      case False
      then show ?thesis using unfold fresh by auto
    qed
  next
    case False
    then show ?thesis using 1(3,4) by (subst clusters.simps, subst (2) clusters.simps) simp
  qed
qed

subsection \<open>The measures the text buffer uses\<close>

text \<open>
  The cluster at a position of a string, and the part of a string that joins with the end of another one.
\<close>

definition measure_next :: "CodepointWidthDetector \<Rightarrow> wstring \<Rightarrow> nat \<Rightarrow> nat \<times> nat" where
  "measure_next d str p =
     (let (again, s, d') = GraphemeNext d (GraphemeState_init\<lparr>gs_beg := Some p\<rparr>) str in (gs_len s, nat (gs_width s)))"

definition measure_join :: "CodepointWidthDetector \<Rightarrow> wstring \<Rightarrow> wstring \<Rightarrow> nat \<times> nat" where
  "measure_join d prev str =
     (let (again, s, d') = GraphemeNext d GraphemeState_init prev;
          (again, s, d'') = GraphemeNext d' (s\<lparr>gs_beg := None\<rparr>) str
      in (gs_len s, nat (gs_width s)))"

lemma measure_next_pos:
  assumes "p < length str"
  shows "0 < fst (measure_next d str p)"
proof -
  let ?s = "GraphemeState_init\<lparr>gs_beg := Some p\<rparr>"
  obtain again s' d' where step: "GraphemeNext d ?s str = (again, s', d')" by (cases "GraphemeNext d ?s str")
  show ?thesis
    using GraphemeNext_progress(1) [OF _ _ step] assms step
    by (simp add: measure_next_def next_begin_def resetIfOutOfRange_def GraphemeState_init_def)
qed

lemma measure_next_contract:
  assumes "cwd_ok d" "p < length str" "measure_next d str p = (n, w)"
  shows "0 < n" and "p + n \<le> length str" and "w \<le> 2"
proof -
  let ?s = "GraphemeState_init\<lparr>gs_beg := Some p\<rparr>"
  obtain again s' d' where step: "GraphemeNext d ?s str = (again, s', d')" by (cases "GraphemeNext d ?s str")
  have b: "next_begin ?s str = p" using assms(2) by (simp add: next_begin_def resetIfOutOfRange_def GraphemeState_init_def)
  show "0 < n" "p + n \<le> length str" "w \<le> 2"
    using GraphemeNext_fresh [OF assms(1) _ _ step] assms(2,3) b step
    by (auto simp: measure_next_def GraphemeState_init_def)
qed

lemma measure_join_contract:
  assumes "cwd_ok d" "str \<noteq> []" "measure_join d prev str = (n, w)"
  shows "n \<le> length str" and "w \<le> 2" and "prev = [] \<Longrightarrow> 0 < n"
proof -
  obtain again s d' where first: "GraphemeNext d GraphemeState_init prev = (again, s, d')"
    by (cases "GraphemeNext d GraphemeState_init prev")
  obtain again' s' d'' where second: "GraphemeNext d' (s\<lparr>gs_beg := None\<rparr>) str = (again', s', d'')"
    by (cases "GraphemeNext d' (s\<lparr>gs_beg := None\<rparr>) str")
  have b: "next_begin GraphemeState_init prev = 0" "gs_state GraphemeState_init = 0"
    by (simp_all add: next_begin_def resetIfOutOfRange_def GraphemeState_init_def)
  have empty: "s = GraphemeState_init" "d' = d" if "prev = []"
    using first that b
    by (auto simp: GraphemeNext_def graphemeNext_def graphemeNextWcswidth_def graphemeNextConsole_def Let_def
        split: TextMeasurementMode.splits)
  have "cwd_ok d' \<and> leftover_ok d' s"
  proof (cases "prev = []")
    case True
    then show ?thesis using assms(1) empty by (simp add: leftover_ok_def GraphemeState_init_def)
  next
    case False
    then show ?thesis
      using GraphemeNext_fresh(8) [OF assms(1) b(2) _ first] GraphemeNext_leftover_ok [OF assms(1) b(2) _ first] b(1) by simp
  qed
  then have ok: "cwd_ok d'" "leftover_ok d' (s\<lparr>gs_beg := None\<rparr>)" by (simp_all add: leftover_ok_def)
  have n: "n = gs_len s'" "w = nat (gs_width s')" using assms(3) first second by (simp_all add: measure_join_def)
  show "n \<le> length str" "w \<le> 2" using GraphemeNext_join [OF ok assms(2) _ second] n by auto
  show "0 < n" if "prev = []"
    using GraphemeNext_fresh(2) [OF ok(1) _ _ second] empty [OF that] assms(2) n
    by (simp add: next_begin_def resetIfOutOfRange_def GraphemeState_init_def)
qed

lemma clusters_cache:
  assumes "cache_ok d" "cache_ok d'" "but_cache d = but_cache d'"
  shows "clusters d s str = clusters d' s str"
  using assms
proof (induction d s str arbitrary: d' rule: clusters.induct)
  case (1 d s str)
  obtain again s1 d1 where step: "GraphemeNext d s str = (again, s1, d1)" by (cases "GraphemeNext d s str")
  obtain again' s1' d1' where step': "GraphemeNext d' s str = (again', s1', d1')" by (cases "GraphemeNext d' s str")
  have same: "again' = again" "s1' = s1" "cache_ok d1" "but_cache d1 = but_cache d"
    using GraphemeNext_cache [OF 1(2-4), of s str] step step' by auto
  have same': "cache_ok d1'" "but_cache d1' = but_cache d'"
    using GraphemeNext_cache(3,4) [OF 1(3,2) 1(4) [symmetric], of s str] step' by auto
  have "clusters d1 s1 str = clusters d1' s1 str" if "gs_state s = 0 \<and> next_begin s str < length str" again
    using same same' 1(4) by (intro 1(1) [OF that(1) step [symmetric] refl refl that(2)]) simp_all
  then show ?case using step step' same by (subst (1 2) clusters.simps) simp
qed

text \<open>
  A loop that goes through a string keeps the state and the cache from call to call; each of its calls
  gives what \<open>measure_next\<close> gives at its position.
\<close>

lemma fresh_position:
  assumes "gs_state s = 0" "gs_state t = 0" "next_begin s str = next_begin t str" "next_begin s str < length str"
  shows "fst (GraphemeNext d s str) = fst (GraphemeNext d t str)"
    and "gs_len (fst (snd (GraphemeNext d s str))) = gs_len (fst (snd (GraphemeNext d t str)))"
    and "gs_width (fst (snd (GraphemeNext d s str))) = gs_width (fst (snd (GraphemeNext d t str)))"
  using assms
  by (auto simp: GraphemeNext_def graphemeNext_def graphemeNextWcswidth_def graphemeNextConsole_def Let_def split_beta
      split: TextMeasurementMode.split)

lemma GraphemeNext_measure:
  assumes "gs_state s = 0" "next_begin s str < length str" "cache_ok d" "cache_ok d0" "but_cache d = but_cache d0"
    and "GraphemeNext d s str = (again, s', d')"
  shows "(gs_len s', nat (gs_width s')) = measure_next d0 str (next_begin s str)"
proof -
  let ?t = "GraphemeState_init\<lparr>gs_beg := Some (next_begin s str)\<rparr>"
  have t: "gs_state ?t = 0" "next_begin ?t str = next_begin s str"
    using assms(2) by (simp_all add: GraphemeState_init_def) (simp add: next_begin_def resetIfOutOfRange_def)
  show ?thesis
    using fresh_position [OF assms(1) t(1) t(2) [symmetric] assms(2), of d] GraphemeNext_cache(2) [OF assms(3-5), of ?t str] assms(6)
    by (simp add: measure_next_def split_beta)
qed

subsection \<open>Properties\<close>

text \<open>
  C23. The Unicode table is never read outside its arrays: the code point decoded at any place of any
  UTF-16 string, forwards or backwards, ill-formed or not, leads through the four stages of the trie to
  a value.
\<close>

theorem ucd_lookup_in_bounds:
  "ucdLookup (snd (utf16NextOrFFFD str it)) \<noteq> None \<and> ucdLookup (snd (utf16PrevOrFFFD str it)) \<noteq> None"
  using ucdLookup_defined [OF utf16_range(1), of str it] ucdLookup_defined [OF utf16_range(2), of str it] by auto

text \<open>
  C22. Cutting text into clusters: in every mode, with an ambiguous width of one or two columns, calling
  \<open>GraphemeNext\<close> until it returns false ends, its clusters are not empty, together make up the whole string
  and are zero to two columns wide; and what the cache holds makes no difference.
\<close>

theorem clusters_cover:
  assumes "cwd_ok d"
  shows "(\<Sum>(n, w)\<leftarrow>clusters d GraphemeState_init str. n) = length str
    \<and> (\<forall>(n, w) \<in> set (clusters d GraphemeState_init str). 0 < n \<and> 0 \<le> w \<and> w \<le> 2)
    \<and> (cache_ok d \<longrightarrow> clusters d GraphemeState_init str = clusters (but_cache d) GraphemeState_init str)"
proof -
  have "next_begin GraphemeState_init str = 0" "gs_state GraphemeState_init = 0"
    by (simp_all add: next_begin_def resetIfOutOfRange_def GraphemeState_init_def)
  moreover have "cache_ok (but_cache d)" by (simp add: cache_ok_def but_cache_def)
  ultimately show ?thesis
    using clusters_partition [OF assms, of GraphemeState_init str] clusters_cache [of d "but_cache d"]
    by (auto simp: but_cache_def)
qed

theorem clusters_cover_witness:
  "(\<Sum>(n, w)\<leftarrow>clusters CodepointWidthDetector_init GraphemeState_init [0x61, 0x301, 0xD83D, 0xDE00]. n) = 4"
  using clusters_cover [OF cwd_ok_init, of "[0x61, 0x301, 0xD83D, 0xDE00]"] by simp

text \<open>
  Going backwards undoes going forwards: between the positions of a string that do not split a
  surrogate pair, \<open>utf16NextOrFFFD\<close> and \<open>utf16PrevOrFFFD\<close> step over the same code points, unpaired surrogates
  included.
\<close>

theorem utf16_steps_inverse:
  assumes "cp_boundary str p" "cp_boundary str q"
  shows "(p < length str \<and> utf16NextOrFFFD str p = (q, cp)) \<longleftrightarrow> (0 < q \<and> utf16PrevOrFFFD str q = (p, cp))"
  using utf16_next_boundary(2) [OF assms(1)] utf16_prev_boundary(2) [OF assms(2)] utf16Next_bounds(1) [of str p q cp]
    utf16Prev_bounds [of str q p cp] assms
  by (auto simp: cp_boundary_def)

theorem utf16_steps_inverse_witness:
  "utf16PrevOrFFFD [0xD83D, 0xD83D, 0xDE00] 3 = (1, 0x1F600)"
proof -
  have "utf16NextOrFFFD [0xD83D, 0xD83D, 0xDE00] 1 = (3, 0x1F600)" by code_simp
  moreover have "cp_boundary [0xD83D, 0xD83D, 0xDE00] 1" "cp_boundary [0xD83D, 0xD83D, 0xDE00] 3" by code_simp+
  ultimately show ?thesis using utf16_steps_inverse [of "[0xD83D, 0xD83D, 0xDE00]" 1 3 "0x1F600"] by simp
qed

end
