(* ===== verification/Til_Rle.thy ===== *)
theory Til_Rle
  imports Prelude
begin

text \<open>
  The run length encoded vector of \<open>src/src/inc/til/rle.h\<close>, which holds the attributes of a row of the
  text buffer. A vector is a list of runs and its total length; iterators into the runs are indices.
  Run lengths are natural numbers: every number the code computes is a run length, a position in a run
  or a total length, and the invariant bounds the first two by the last.

  \<open>rle_expand\<close> is the sequence a vector stands for. Every operation is shown to be the operation on
  that sequence its comment describes, and to keep the runs non-empty and merged.
\<close>

type_synonym 'a rle_pair = "'a \<times> nat"

record 'a basic_rle =
  rle_runs :: "'a rle_pair list"
  rle_total_length :: nat

subsection \<open>Operations\<close>

text \<open>The constructors from runs and from one repeated value.\<close>

definition rle_of_runs :: "'a rle_pair list \<Rightarrow> 'a basic_rle" where
  "rle_of_runs runs = \<lparr>rle_runs = runs, rle_total_length = sum_list (map snd runs)\<rparr>"

definition rle_of_value :: "nat \<Rightarrow> 'a \<Rightarrow> 'a basic_rle" where
  "rle_of_value len value = \<lparr>rle_runs = (if len \<noteq> 0 then [(value, len)] else []), rle_total_length = len\<rparr>"

definition rle_empty :: "'a basic_rle \<Rightarrow> bool" where
  "rle_empty r \<longleftrightarrow> rle_total_length r = 0"

definition rle_size :: "'a basic_rle \<Rightarrow> nat" where
  "rle_size r = rle_total_length r"

text \<open>
  \<open>rle_scanner::scan\<close> from the run with number \<open>it\<close>, in front of which \<open>tot\<close> items lie: the number of
  the run that holds \<open>index\<close>, the position in it, and the new total.
\<close>

fun rle_scan :: "'a rle_pair list \<Rightarrow> nat \<Rightarrow> nat \<Rightarrow> nat \<Rightarrow> nat \<times> nat \<times> nat" where
  "rle_scan [] it tot index = (it, 0, tot)"
| "rle_scan (run # runs) it tot index =
     (let new_total = tot + snd run
      in if new_total > index then (it, index - tot, tot)
         else rle_scan runs (it + 1) new_total index)"

text \<open>\<open>at\<close>; \<open>None\<close> is the exception \<open>std::out_of_range\<close>.\<close>

definition rle_at :: "'a basic_rle \<Rightarrow> nat \<Rightarrow> 'a option" where
  "rle_at r position =
     (let (it, run_pos, tot) = rle_scan (rle_runs r) 0 0 position
      in if it = length (rle_runs r) then None else Some (fst (rle_runs r ! it)))"

definition rle_slice :: "nat \<Rightarrow> nat \<Rightarrow> 'a basic_rle \<Rightarrow> 'a basic_rle" where
  "rle_slice start_index end_index0 r =
     (let end_index = min end_index0 (rle_total_length r)
      in if start_index \<ge> end_index then \<lparr>rle_runs = [], rle_total_length = 0\<rparr>
         else
           (let runs = rle_runs r;
                (begin_run, start_run_pos, tot) = rle_scan runs 0 0 start_index;
                (end_run, end_run_pos, tot') =
                  rle_scan (drop begin_run runs) begin_run tot (end_index - 1);
                slice = take (end_run + 1 - begin_run) (drop begin_run runs);
                slice = set_last (fst (last slice), end_run_pos + 1) slice;
                slice = slice[0 := (fst (hd slice), snd (hd slice) - start_run_pos)]
            in \<lparr>rle_runs = slice, rle_total_length = end_index - start_index\<rparr>))"

text \<open>
  \<open>_compact\<close>: the first loop looks for two neighbours with the same value, the second one moves the
  remaining runs down while it merges.
\<close>

function (sequential) rle_compact_merge :: "'a rle_pair list \<Rightarrow> nat \<Rightarrow> nat \<Rightarrow> 'a rle_pair list" where
  "rle_compact_merge runs r it =
     (if it < length runs
      then (if fst (runs ! r) = fst (runs ! it)
            then rle_compact_merge (runs[r := (fst (runs ! r), snd (runs ! r) + snd (runs ! it))]) r (it + 1)
            else rle_compact_merge (runs[r + 1 := runs ! it]) (r + 1) (it + 1))
      else take (r + 1) runs)"
  by pat_completeness auto
termination
  by (relation "measure (\<lambda>(runs, r, it). length runs - it)") auto

declare rle_compact_merge.simps [simp del]

function (sequential) rle_compact_find :: "'a rle_pair list \<Rightarrow> nat \<Rightarrow> 'a rle_pair list" where
  "rle_compact_find runs r =
     (if r + 1 < length runs
      then (if fst (runs ! r) = fst (runs ! (r + 1)) then rle_compact_merge runs r (r + 1)
            else rle_compact_find runs (r + 1))
      else runs)"
  by pat_completeness auto
termination
  by (relation "measure (\<lambda>(runs, r). length runs - r)") auto

declare rle_compact_find.simps [simp del]

definition rle_compact :: "'a rle_pair list \<Rightarrow> 'a rle_pair list" where
  "rle_compact runs = (if runs = [] then runs else rle_compact_find runs 0)"

definition rle_replace_values :: "'a \<Rightarrow> 'a \<Rightarrow> 'a basic_rle \<Rightarrow> 'a basic_rle" where
  "rle_replace_values old_value new_value r =
     r\<lparr>rle_runs := rle_compact (map (\<lambda>(v, l). (if v = old_value then new_value else v, l)) (rle_runs r))\<rparr>"

text \<open>\<open>Expects(!_runs.empty())\<close> terminates the program, which is the result \<open>None\<close>.\<close>

definition rle_resize_trailing_extent :: "nat \<Rightarrow> 'a basic_rle \<Rightarrow> 'a basic_rle option" where
  "rle_resize_trailing_extent new_size r =
     (let runs = rle_runs r
      in if new_size = 0 then Some \<lparr>rle_runs = [], rle_total_length = 0\<rparr>
         else if new_size < rle_total_length r
         then (let (run, pos, tot) = rle_scan runs 0 0 (new_size - 1)
               in Some \<lparr>rle_runs = take (run + 1) (runs[run := (fst (runs ! run), pos + 1)]),
                        rle_total_length = new_size\<rparr>)
         else if new_size > rle_total_length r
         then (if runs = [] then None
               else Some \<lparr>rle_runs = set_last (fst (last runs), snd (last runs) + (new_size - rle_total_length r)) runs,
                          rle_total_length = new_size\<rparr>)
         else Some r)"

text \<open>
  \<open>_replace_unchecked\<close> after its two scans: \<open>b\<close> and \<open>bp\<close> are the run and the position of the start, \<open>e\<close>
  and \<open>ep\<close> those of the end. \<open>rle_remove\<close> is the branch for empty replacements. The subtraction
  \<open>end->length -= end_pos - x\<close> is meant modulo the width, so its value is \<open>length + x - end_pos\<close>.
\<close>

definition rle_remove ::
    "bool \<Rightarrow> bool \<Rightarrow> nat \<Rightarrow> nat \<Rightarrow> nat \<Rightarrow> nat \<Rightarrow> 'a rle_pair list \<Rightarrow> 'a rle_pair list" where
  "rle_remove notFirst notLast b bp e ep runs =
     (let previous = (if bp \<noteq> 0 then b else b - 1);
          (runs, b, bp, ep) =
            (if notFirst \<and> notLast \<and> fst (runs ! previous) = fst (runs ! e)
             then (runs[e := (fst (runs ! e),
                     snd (runs ! e) + (if bp \<noteq> 0 then bp else snd (runs ! previous)) - ep)], previous, 0, 0)
             else (runs, b, bp, ep));
          (runs, b) = (if bp \<noteq> 0 then (runs[b := (fst (runs ! b), bp)], b + 1) else (runs, b));
          runs = (if ep \<noteq> 0 then runs[e := (fst (runs ! e), snd (runs ! e) - ep)] else runs)
      in take b runs @ drop e runs)"

text \<open>\<open>std::copy\<close> of \<open>ys\<close> to position \<open>i\<close>.\<close>

definition rle_copy :: "'a list \<Rightarrow> nat \<Rightarrow> 'a list \<Rightarrow> 'a list" where
  "rle_copy ys i xs = take i xs @ ys @ drop (i + length ys) xs"

text \<open>
  Steps 1 to 3 for non-empty replacements: the run numbers \<open>begin\<close> and \<open>end\<close> of the range to overwrite,
  the trailer of a run that is split, the lengths by which the first and the last replacement will grow,
  and the runs with their lengths adjusted.
\<close>

definition rle_splice_prepare ::
    "bool \<Rightarrow> bool \<Rightarrow> nat \<Rightarrow> nat \<Rightarrow> nat \<Rightarrow> nat \<Rightarrow> 'a rle_pair list \<Rightarrow> 'a rle_pair list
     \<Rightarrow> nat \<times> nat \<times> 'a rle_pair option \<times> nat \<times> nat \<times> 'a rle_pair list" where
  "rle_splice_prepare notFirst notLast b0 bp0 e0 ep0 replacements runs0 =
     (let previous = (if bp0 \<noteq> 0 then b0 else b0 - 1);
          (begin_additional_length, bp, b) =
            (if notFirst \<and> fst (runs0 ! previous) = fst (hd replacements)
             then (if bp0 \<noteq> 0 then bp0 else snd (runs0 ! previous), 0, previous) else (0, bp0, b0));
          (end_additional_length, ep, e) =
            (if notLast \<and> fst (runs0 ! e0) = fst (last replacements)
             then (snd (runs0 ! e0) - ep0, 0, e0 + 1) else (0, ep0, e0));
          (trailer, ep) =
            (if b = e \<and> bp \<noteq> 0 then (Some (fst (runs0 ! b), snd (runs0 ! b) - ep), 0) else (None, ep));
          (runs1, b) = (if bp \<noteq> 0 then (runs0[b := (fst (runs0 ! b), bp)], b + 1) else (runs0, b));
          runs2 = (if ep \<noteq> 0 then runs1[e := (fst (runs1 ! e), snd (runs1 ! e) - ep)] else runs1)
      in (b, e, trailer, begin_additional_length, end_additional_length, runs2))"

text \<open>
  Steps 4 to 6. The space made for the replacements and the trailer is default initialised in the
  source and overwritten right after; here it is filled with the trailer.
\<close>

definition rle_splice_copy ::
    "nat \<Rightarrow> nat \<Rightarrow> 'a rle_pair option \<Rightarrow> 'a rle_pair list \<Rightarrow> 'a rle_pair list \<Rightarrow> 'a rle_pair list" where
  "rle_splice_copy b e trailer replacements runs =
     (let available_space = (if b < e then e - b else 0);
          required_space = length replacements + (if trailer \<noteq> None then 1 else 0);
          n = min available_space (length replacements);
          runs' = rle_copy (take n replacements) b runs
      in if available_space \<ge> required_space then take (b + n) runs' @ drop e runs'
         else (case trailer of
                 Some t \<Rightarrow>
                   (let space = take (b + n) runs' @ replicate (required_space - available_space) t @ drop (b + n) runs';
                        copied = rle_copy (drop n replacements) b space
                    in copied[b + (length replacements - n) := t])
               | None \<Rightarrow> take (b + n) runs' @ drop n replacements @ drop (b + n) runs'))"

text \<open>Step 7: \<open>length +=\<close> on one run.\<close>

definition rle_grow :: "nat \<Rightarrow> nat \<Rightarrow> 'a rle_pair list \<Rightarrow> 'a rle_pair list" where
  "rle_grow i n runs = (if n \<noteq> 0 then runs[i := (fst (runs ! i), snd (runs ! i) + n)] else runs)"

definition rle_splice ::
    "bool \<Rightarrow> bool \<Rightarrow> nat \<Rightarrow> nat \<Rightarrow> nat \<Rightarrow> nat \<Rightarrow> 'a rle_pair list \<Rightarrow> 'a rle_pair list \<Rightarrow> 'a rle_pair list" where
  "rle_splice notFirst notLast b0 bp0 e0 ep0 replacements runs0 =
     (let (b, e, trailer, begin_additional_length, end_additional_length, runs) =
            rle_splice_prepare notFirst notLast b0 bp0 e0 ep0 replacements runs0;
          required_space = length replacements + (if trailer \<noteq> None then 1 else 0)
      in rle_grow (b + required_space - 1) end_additional_length
           (rle_grow b begin_additional_length (rle_splice_copy b e trailer replacements runs)))"

definition rle_replace_unchecked ::
    "nat \<Rightarrow> nat \<Rightarrow> 'a rle_pair list \<Rightarrow> 'a basic_rle \<Rightarrow> 'a basic_rle" where
  "rle_replace_unchecked start_index end_index replacements r =
     (let runs = rle_runs r;
          (b, bp, tot) = rle_scan runs 0 0 start_index;
          (e, ep, tot') = rle_scan (drop b runs) b tot end_index;
          notFirst = (start_index \<noteq> 0);
          notLast = (end_index \<noteq> rle_total_length r)
      in if replacements = []
         then \<lparr>rle_runs = rle_remove notFirst notLast b bp e ep runs,
               rle_total_length = rle_total_length r - (end_index - start_index)\<rparr>
         else \<lparr>rle_runs = rle_splice notFirst notLast b bp e ep replacements runs,
               rle_total_length = rle_total_length r - (end_index - start_index) + sum_list (map snd replacements)\<rparr>)"

text \<open>\<open>_check_indices\<close> clamps the end and throws (\<open>None\<close>) for a start behind it.\<close>

definition rle_check_indices :: "nat \<Rightarrow> nat \<Rightarrow> 'a basic_rle \<Rightarrow> nat option" where
  "rle_check_indices start_index end_index r =
     (let end_index = min end_index (rle_total_length r)
      in if start_index > end_index then None else Some end_index)"

definition rle_replace :: "nat \<Rightarrow> nat \<Rightarrow> 'a rle_pair list \<Rightarrow> 'a basic_rle \<Rightarrow> 'a basic_rle option" where
  "rle_replace start_index end_index replacements r =
     (case rle_check_indices start_index end_index r of
        None \<Rightarrow> None
      | Some end' \<Rightarrow> Some (rle_replace_unchecked start_index end' replacements r))"

definition rle_replace_value :: "nat \<Rightarrow> nat \<Rightarrow> 'a \<Rightarrow> 'a basic_rle \<Rightarrow> 'a basic_rle option" where
  "rle_replace_value start_index end_index value r =
     (case rle_check_indices start_index end_index r of
        None \<Rightarrow> None
      | Some end' \<Rightarrow> Some (rle_replace_unchecked start_index end' [(value, end' - start_index)] r))"


subsection \<open>Iterators\<close>

text \<open>
  An \<open>rle_iterator\<close> is a run number and a position in the run. Reading a run that does not exist is
  undefined behaviour, the result \<open>None\<close>.
\<close>

type_synonym rle_iterator = "nat \<times> nat"

definition rle_deref :: "'a rle_pair list \<Rightarrow> rle_iterator \<Rightarrow> 'a option" where
  "rle_deref runs x = (case x of (it, pos) \<Rightarrow> if it < length runs then Some (fst (runs ! it)) else None)"

definition rle_next :: "'a rle_pair list \<Rightarrow> rle_iterator \<Rightarrow> rle_iterator option" where
  "rle_next runs x =
     (case x of (it, pos) \<Rightarrow>
        if it < length runs
        then Some (if pos + 1 = snd (runs ! it) then (it + 1, 0) else (it, pos + 1)) else None)"

definition rle_prev :: "'a rle_pair list \<Rightarrow> rle_iterator \<Rightarrow> rle_iterator option" where
  "rle_prev runs x =
     (case x of (it, pos) \<Rightarrow>
        if pos = 0 then (if it = 0 then None else Some (it - 1, snd (runs ! (it - 1)) - 1))
        else Some (it, pos - 1))"

function (sequential) rle_forward :: "'a rle_pair list \<Rightarrow> nat \<Rightarrow> nat \<Rightarrow> nat \<Rightarrow> rle_iterator option" where
  "rle_forward runs it pos move =
     (if move > 0
      then (if it < length runs
            then (let space = snd (runs ! it) - pos
                  in if move < space then Some (it, pos + move)
                     else rle_forward runs (it + 1) 0 (move - space))
            else None)
      else Some (it, pos))"
  by pat_completeness auto
termination
  by (relation "measure (\<lambda>(runs, it, pos, move). length runs - it)") auto

declare rle_forward.simps [simp del]

fun rle_backward :: "'a rle_pair list \<Rightarrow> nat \<Rightarrow> nat \<Rightarrow> nat \<Rightarrow> rle_iterator option" where
  "rle_backward runs it pos move =
     (if move > 0
      then (if move \<le> pos then Some (it, pos - move)
            else (case it of
                    0 \<Rightarrow> None
                  | Suc it' \<Rightarrow> rle_backward runs it' (snd (runs ! it') - 1) (move - (pos + 1))))
      else Some (it, pos))"

declare rle_backward.simps [simp del]

definition rle_advance :: "'a rle_pair list \<Rightarrow> rle_iterator \<Rightarrow> int \<Rightarrow> rle_iterator option" where
  "rle_advance runs x move =
     (if move \<ge> 0 then rle_forward runs (fst x) (snd x) (nat move)
      else rle_backward runs (fst x) (snd x) (nat (- move)))"

definition rle_before :: "rle_iterator \<Rightarrow> rle_iterator \<Rightarrow> bool" where
  "rle_before x y \<longleftrightarrow> fst x < fst y \<or> (fst x = fst y \<and> snd x < snd y)"

definition rle_distance :: "'a rle_pair list \<Rightarrow> rle_iterator \<Rightarrow> rle_iterator \<Rightarrow> int" where
  "rle_distance runs left right =
     (let negative = rle_before left right;
          lower = (if negative then left else right);
          upper = (if negative then right else left);
          distance = (\<Sum>run \<leftarrow> take (fst upper - fst lower) (drop (fst lower) runs). int (snd run));
          distance = distance - int (snd lower) + int (snd upper)
      in if negative then - distance else distance)"

subsection \<open>The sequence a vector stands for\<close>

definition rle_expand :: "'a rle_pair list \<Rightarrow> 'a list" where
  "rle_expand runs = concat (map (\<lambda>(v, l). replicate l v) runs)"

definition rle_runs_ok :: "'a rle_pair list \<Rightarrow> bool" where
  "rle_runs_ok runs \<longleftrightarrow> list_all (\<lambda>run. 0 < snd run) runs \<and> distinct_adj (map fst runs)"

definition rle_ok :: "'a basic_rle \<Rightarrow> bool" where
  "rle_ok r \<longleftrightarrow> rle_runs_ok (rle_runs r) \<and> rle_total_length r = sum_list (map snd (rle_runs r))"

definition rle_items :: "'a basic_rle \<Rightarrow> 'a list" where
  "rle_items r = rle_expand (rle_runs r)"

lemma rle_expand_simps [simp, rle_simps]:
  "rle_expand [] = []"
  "rle_expand (run # runs) = replicate (snd run) (fst run) @ rle_expand runs"
  "rle_expand (xs @ ys) = rle_expand xs @ rle_expand ys"
  by (simp_all add: rle_expand_def split: prod.splits)

lemma length_rle_expand [simp]: "length (rle_expand runs) = sum_list (map snd runs)"
  by (induction runs) simp_all

lemma rle_runs_ok_simps [simp]:
  "rle_runs_ok []"
  "rle_runs_ok [run] \<longleftrightarrow> 0 < snd run"
  "rle_runs_ok (xs @ ys) \<longleftrightarrow>
     rle_runs_ok xs \<and> rle_runs_ok ys \<and> (xs = [] \<or> ys = [] \<or> fst (last xs) \<noteq> fst (hd ys))"
  by (auto simp: rle_runs_ok_def distinct_adj_append_iff last_map hd_map)

lemma rle_runs_ok_Cons:
  "rle_runs_ok (run # runs) \<longleftrightarrow>
     0 < snd run \<and> rle_runs_ok runs \<and> (runs = [] \<or> fst run \<noteq> fst (hd runs))"
  using rle_runs_ok_simps(3) [of "[run]" runs] by auto

text \<open>Runs that are non-empty and merged are determined by the sequence they stand for.\<close>

lemma rle_expand_hd:
  "rle_runs_ok runs \<Longrightarrow> runs \<noteq> [] \<Longrightarrow> rle_expand runs \<noteq> [] \<and> hd (rle_expand runs) = fst (hd runs)"
  by (cases runs) (auto simp: rle_runs_ok_Cons gr0_conv_Suc)

lemma rle_takeWhile:
  assumes "rle_runs_ok (run # runs)"
  shows "takeWhile (\<lambda>x. x = fst run) (rle_expand (run # runs)) = replicate (snd run) (fst run)"
proof -
  have "takeWhile (\<lambda>x. x = fst run) (rle_expand runs) = []"
    using assms rle_expand_hd [of runs] by (cases "runs = []"; cases "rle_expand runs") (auto simp: rle_runs_ok_Cons)
  then show ?thesis by (simp add: takeWhile_append)
qed

lemma rle_expand_inj:
  "rle_runs_ok xs \<Longrightarrow> rle_runs_ok ys \<Longrightarrow> rle_expand xs = rle_expand ys \<Longrightarrow> xs = ys"
proof (induction xs arbitrary: ys)
  case Nil
  then show ?case using rle_expand_hd [of ys] by (cases ys) auto
next
  case (Cons x xs)
  from Cons.prems obtain y ys' where ys: "ys = y # ys'"
    using rle_expand_hd [of "x # xs"] by (cases ys) auto
  have v: "fst x = fst y"
    using Cons.prems rle_expand_hd [of "x # xs"] rle_expand_hd [of ys] by (simp add: ys)
  have "replicate (snd x) (fst x) = replicate (snd y) (fst y)"
    using rle_takeWhile [OF Cons.prems(1)] rle_takeWhile [of y ys'] Cons.prems v by (simp add: ys)
  then have l: "snd x = snd y" by (metis length_replicate)
  have "xs = ys'"
    using Cons.prems v l by (intro Cons.IH) (auto simp: ys rle_runs_ok_Cons)
  then show ?case using v l by (simp add: ys prod_eq_iff)
qed

subsection \<open>Positions\<close>

text \<open>Run \<open>b\<close> and position \<open>bp\<close> designate item \<open>i\<close>, or the end of the vector.\<close>

definition rle_pos :: "'a rle_pair list \<Rightarrow> nat \<Rightarrow> nat \<Rightarrow> nat \<Rightarrow> bool" where
  "rle_pos runs i b bp \<longleftrightarrow>
     b \<le> length runs \<and> sum_list (map snd (take b runs)) + bp = i
     \<and> (if b < length runs then bp < snd (runs ! b) else bp = 0)"

lemma rle_pos_Nil [simp]: "rle_pos [] i b bp \<longleftrightarrow> i = 0 \<and> b = 0 \<and> bp = 0"
  by (auto simp: rle_pos_def)

lemma rle_pos_Cons_0 [simp]: "rle_pos (run # runs) i 0 bp \<longleftrightarrow> i = bp \<and> bp < snd run"
  by (auto simp: rle_pos_def)

lemma rle_pos_Cons_Suc [simp]:
  "rle_pos (run # runs) i (Suc b) bp \<longleftrightarrow> snd run \<le> i \<and> rle_pos runs (i - snd run) b bp"
  by (auto simp: rle_pos_def)

lemma rle_scan_pos:
  assumes "tot \<le> index" and "index \<le> tot + sum_list (map snd runs)"
  shows "\<exists>k bp. rle_scan runs it tot index = (it + k, bp, index - bp) \<and> bp \<le> index - tot
    \<and> rle_pos runs (index - tot) k bp"
  using assms
proof (induction runs arbitrary: it tot)
  case (Cons run runs)
  show ?case
  proof (cases "index < tot + snd run")
    case True
    with Cons.prems show ?thesis by (intro exI [of _ 0] exI [of _ "index - tot"]) simp
  next
    case False
    with Cons.prems Cons.IH [of "tot + snd run" "it + 1"] obtain k bp where
      "rle_scan runs (it + 1) (tot + snd run) index = (it + 1 + k, bp, index - bp)"
      "bp \<le> index - (tot + snd run)" "rle_pos runs (index - (tot + snd run)) k bp"
      by (auto simp: add.assoc)
    with False show ?thesis
      by (intro exI [of _ "Suc k"] exI [of _ bp]) (auto simp: Let_def)
  qed
qed simp

lemma rle_scan_first:
  assumes "index \<le> sum_list (map snd runs)"
  obtains b bp where "rle_scan runs 0 0 index = (b, bp, index - bp)" "bp \<le> index" "rle_pos runs index b bp"
  using rle_scan_pos [of 0 index runs 0] assms by auto

lemma rle_scan_beyond:
  assumes "tot + sum_list (map snd runs) \<le> index"
  shows "fst (rle_scan runs it tot index) = it + length runs"
  using assms by (induction runs arbitrary: it tot) (auto simp: Let_def)

lemma rle_scan_next:
  assumes first: "rle_pos runs i b bp" and bp: "bp \<le> i" and ij: "i \<le> j"
    and j: "j \<le> sum_list (map snd runs)"
  obtains e ep where "rle_scan (drop b runs) b (i - bp) j = (e, ep, j - ep)" "rle_pos runs j e ep"
    "b \<le> e" "b = e \<Longrightarrow> bp \<le> ep"
proof -
  have split: "sum_list (map snd runs) = sum_list (map snd (take b runs)) + sum_list (map snd (drop b runs))"
    by (metis append_take_drop_id map_append sum_list_append)
  have s: "sum_list (map snd (take b runs)) = i - bp" and b: "b \<le> length runs"
    using first by (auto simp: rle_pos_def)
  have "i - bp \<le> j" using ij by simp
  moreover have "j \<le> i - bp + sum_list (map snd (drop b runs))" using j split s by simp
  ultimately obtain k ep where k: "rle_scan (drop b runs) b (i - bp) j = (b + k, ep, j - ep)"
    and p: "rle_pos (drop b runs) (j - (i - bp)) k ep"
    using rle_scan_pos [of "i - bp" j "drop b runs" b] by auto
  have "rle_pos runs j (b + k) ep"
    using p b s \<open>i - bp \<le> j\<close> by (auto simp: rle_pos_def take_add split: if_splits)
  moreover have "bp \<le> ep" if "k = 0"
    using p that s bp ij by (auto simp: rle_pos_def)
  ultimately show ?thesis using that [OF k] by simp
qed

text \<open>The runs in front of a position and the runs from it on, and joining two lists of runs.\<close>

definition rle_front :: "'a rle_pair list \<Rightarrow> nat \<Rightarrow> nat \<Rightarrow> 'a rle_pair list" where
  "rle_front runs b bp = take b runs @ (if bp \<noteq> 0 then [(fst (runs ! b), bp)] else [])"

definition rle_back :: "'a rle_pair list \<Rightarrow> nat \<Rightarrow> nat \<Rightarrow> 'a rle_pair list" where
  "rle_back runs e ep =
     (if e < length runs then (fst (runs ! e), snd (runs ! e) - ep) # drop (Suc e) runs else [])"

definition rle_join :: "'a rle_pair list \<Rightarrow> 'a rle_pair list \<Rightarrow> 'a rle_pair list" where
  "rle_join xs ys =
     (if xs \<noteq> [] \<and> ys \<noteq> [] \<and> fst (last xs) = fst (hd ys)
      then butlast xs @ (fst (hd ys), snd (last xs) + snd (hd ys)) # tl ys else xs @ ys)"

lemma rle_front_simps [simp]:
  "rle_front [] 0 0 = []"
  "rle_front (run # runs) 0 bp = (if bp \<noteq> 0 then [(fst run, bp)] else [])"
  "rle_front (run # runs) (Suc b) bp = run # rle_front runs b bp"
  by (simp_all add: rle_front_def)

lemma rle_back_simps [simp]:
  "rle_back [] e ep = []"
  "rle_back (run # runs) 0 ep = (fst run, snd run - ep) # runs"
  "rle_back (run # runs) (Suc e) ep = rle_back runs e ep"
  by (simp_all add: rle_back_def)

lemma rle_front_expand:
  "rle_pos runs i b bp \<Longrightarrow> rle_expand (rle_front runs b bp) = take i (rle_expand runs)"
proof (induction runs arbitrary: i b)
  case (Cons run runs)
  then show ?case by (cases b) (auto simp: min_def)
qed simp

lemma rle_back_expand:
  "rle_pos runs i b bp \<Longrightarrow> rle_expand (rle_back runs b bp) = drop i (rle_expand runs)"
proof (induction runs arbitrary: i b)
  case (Cons run runs)
  then show ?case by (cases b) auto
qed simp

lemma rle_front_hd:
  "rle_pos runs i b bp \<Longrightarrow> rle_front runs b bp \<noteq> [] \<Longrightarrow> fst (hd (rle_front runs b bp)) = fst (hd runs)"
  by (cases runs; cases b) (auto split: if_splits)

lemma rle_front_ok: "rle_runs_ok runs \<Longrightarrow> rle_pos runs i b bp \<Longrightarrow> rle_runs_ok (rle_front runs b bp)"
proof (induction runs arbitrary: i b)
  case (Cons run runs)
  show ?case
  proof (cases b)
    case (Suc b')
    with Cons have "rle_runs_ok (rle_front runs b' bp)" by (auto simp: rle_runs_ok_Cons)
    then show ?thesis
      using Suc Cons.prems rle_front_hd [of runs _ b' bp] by (cases "runs = []") (auto simp: rle_runs_ok_Cons)
  qed (use Cons.prems in simp)
qed simp

lemma rle_back_ok: "rle_runs_ok runs \<Longrightarrow> rle_pos runs i b bp \<Longrightarrow> rle_runs_ok (rle_back runs b bp)"
proof (induction runs arbitrary: i b)
  case (Cons run runs)
  then show ?case by (cases b) (auto simp: rle_runs_ok_Cons)
qed simp

lemma rle_join_expand [simp]: "rle_expand (rle_join xs ys) = rle_expand xs @ rle_expand ys"
proof (cases "xs \<noteq> [] \<and> ys \<noteq> [] \<and> fst (last xs) = fst (hd ys)")
  case True
  then obtain x xs' y ys' where "xs = xs' @ [x]" "ys = y # ys'" by (metis list.exhaust rev_exhaust)
  with True show ?thesis by (simp add: rle_join_def replicate_add)
qed (auto simp: rle_join_def)

lemma rle_join_ok: "rle_runs_ok xs \<Longrightarrow> rle_runs_ok ys \<Longrightarrow> rle_runs_ok (rle_join xs ys)"
proof (cases "xs \<noteq> [] \<and> ys \<noteq> [] \<and> fst (last xs) = fst (hd ys)")
  case True
  assume ok: "rle_runs_ok xs" "rle_runs_ok ys"
  from True obtain x xs' y ys' where "xs = xs' @ [x]" "ys = y # ys'" by (metis list.exhaust rev_exhaust)
  with True ok show ?thesis by (auto simp: rle_join_def rle_runs_ok_Cons)
qed (auto simp: rle_join_def)

subsection \<open>Replacing a range\<close>

lemma rle_splice_copy_eq:
  assumes "b \<le> length runs" and "e \<le> length runs"
    and "trailer = None \<Longrightarrow> b \<le> e" and "trailer \<noteq> None \<Longrightarrow> b = e + 1"
  shows "rle_splice_copy b e trailer reps runs =
    take b runs @ reps @ (case trailer of None \<Rightarrow> drop e runs | Some t \<Rightarrow> t # drop b runs)"
proof (cases trailer)
  case None
  show ?thesis
  proof (cases "length reps \<le> e - b")
    case True
    with None assms show ?thesis
      by (simp add: rle_splice_copy_def rle_copy_def min_def Let_def)
  next
    case False
    with None assms show ?thesis
      by (auto simp: rle_splice_copy_def rle_copy_def min_def Let_def)
  qed
next
  case (Some t)
  with assms show ?thesis
    by (simp add: rle_splice_copy_def rle_copy_def Let_def list_update_append flip: replicate_Suc) simp
qed

lemma rle_grow_append: "rle_grow (length xs) n (xs @ y # ys) = xs @ (fst y, snd y + n) # ys"
  by (simp add: rle_grow_def)

lemma rle_front_last:
  assumes "rle_pos runs i b bp" and "rle_front runs b bp \<noteq> []"
  defines "previous \<equiv> if bp \<noteq> 0 then b else b - 1"
  shows "previous < length runs"
    and "last (rle_front runs b bp) = (fst (runs ! previous), if bp \<noteq> 0 then bp else snd (runs ! previous))"
    and "butlast (rle_front runs b bp) = take previous runs"
proof -
  have b: "b \<le> length runs" "b = length runs \<Longrightarrow> bp = 0"
    using assms(1) by (auto simp: rle_pos_def)
  show "previous < length runs"
    using assms(2) b by (cases "b = length runs") (auto simp: previous_def rle_front_def split: if_splits)
  then show "last (rle_front runs b bp) = (fst (runs ! previous), if bp \<noteq> 0 then bp else snd (runs ! previous))"
    using assms(2) b by (auto simp: previous_def rle_front_def last_conv_nth nth_append split: if_splits)
  show "butlast (rle_front runs b bp) = take previous runs"
    using assms(2) b by (auto simp: previous_def rle_front_def butlast_take split: if_splits)
qed

definition rle_merge_front :: "'a rle_pair list \<Rightarrow> 'a rle_pair list \<Rightarrow> bool" where
  "rle_merge_front xs ys \<longleftrightarrow> xs \<noteq> [] \<and> fst (last xs) = fst (hd ys)"

definition rle_merge_back :: "'a rle_pair list \<Rightarrow> 'a rle_pair list \<Rightarrow> bool" where
  "rle_merge_back xs ys \<longleftrightarrow> ys \<noteq> [] \<and> fst (hd ys) = fst (last xs)"

lemma rle_prepare_front:
  fixes runs :: "'a rle_pair list"
  assumes pos: "rle_pos runs i b bp" "rle_pos runs j e ep" and be: "b \<le> e" "b = e \<Longrightarrow> bp \<le> ep"
  defines "P \<equiv> rle_front runs b bp" and "Q \<equiv> rle_back runs e ep"
  assumes prep: "rle_splice_prepare (P \<noteq> []) (Q \<noteq> []) b bp e ep reps runs = (b', e', tr, bal, eal, runs')"
  shows "take b' runs' = (if rle_merge_front P reps then butlast P else P)"
    and "bal = (if rle_merge_front P reps then snd (last P) else 0)"
    and "b' \<le> length runs'"
proof -
  have b: "b \<le> length runs" "b = length runs \<Longrightarrow> bp = 0" "b < length runs \<Longrightarrow> bp < snd (runs ! b)"
    using pos(1) by (auto simp: rle_pos_def)
  have e: "e \<le> length runs" "e = length runs \<Longrightarrow> ep = 0" using pos(2) by (auto simp: rle_pos_def)
  note last = rle_front_last [OF pos(1)]
  have "take b' runs' = (if rle_merge_front P reps then butlast P else P)
    \<and> bal = (if rle_merge_front P reps then snd (last P) else 0) \<and> b' \<le> length runs'"
  proof (cases "rle_merge_front P reps")
    case True
    then have ne: "rle_front runs b bp \<noteq> []" by (simp add: rle_merge_front_def P_def)
    show ?thesis
      using prep True last [OF ne] be b e
      by (auto simp: rle_splice_prepare_def rle_merge_front_def P_def Let_def split: if_splits)
  next
    case False
    then show ?thesis
      using prep last be b e
      by (auto simp: rle_splice_prepare_def rle_merge_front_def P_def Let_def rle_front_def take_update_swap
          take_Suc_conv_app_nth list_update_append list_update_beyond split: if_splits nat.splits)
  qed
  then show "take b' runs' = (if rle_merge_front P reps then butlast P else P)"
    and "bal = (if rle_merge_front P reps then snd (last P) else 0)"
    and "b' \<le> length runs'" by auto
qed

lemma rle_prepare_back:
  fixes runs :: "'a rle_pair list"
  assumes pos: "rle_pos runs i b bp" "rle_pos runs j e ep" and be: "b \<le> e" "b = e \<Longrightarrow> bp \<le> ep"
  defines "P \<equiv> rle_front runs b bp" and "Q \<equiv> rle_back runs e ep"
  assumes prep: "rle_splice_prepare (P \<noteq> []) (Q \<noteq> []) b bp e ep reps runs = (b', e', tr, bal, eal, runs')"
  shows "(case tr of None \<Rightarrow> drop e' runs' | Some t \<Rightarrow> t # drop b' runs') = (if rle_merge_back reps Q then tl Q else Q)"
    and "eal = (if rle_merge_back reps Q then snd (hd Q) else 0)"
    and "e' \<le> length runs'"
    and "tr = None \<Longrightarrow> b' \<le> e'"
    and "tr \<noteq> None \<Longrightarrow> b' = e' + 1 \<and> eal = 0"
proof -
  have b: "b \<le> length runs" "b = length runs \<Longrightarrow> bp = 0" "b < length runs \<Longrightarrow> bp < snd (runs ! b)"
    using pos(1) by (auto simp: rle_pos_def)
  have e: "e \<le> length runs" "e = length runs \<Longrightarrow> ep = 0" using pos(2) by (auto simp: rle_pos_def)
  have Q: "Q = (if e < length runs then (fst (runs ! e), snd (runs ! e) - ep) # drop (Suc e) runs else [])"
    by (simp add: Q_def rle_back_def)
  have drop: "drop e runs = (if e < length runs then runs ! e # drop (Suc e) runs else [])"
    by (simp add: Cons_nth_drop_Suc)
  note defs = rle_splice_prepare_def rle_merge_back_def Let_def
  show "(case tr of None \<Rightarrow> drop e' runs' | Some t \<Rightarrow> t # drop b' runs') = (if rle_merge_back reps Q then tl Q else Q)"
    using prep be b e drop
    by (auto simp: defs Q drop_update_swap nth_list_update split: if_splits)
  show "eal = (if rle_merge_back reps Q then snd (hd Q) else 0)"
    using prep be b e by (auto simp: defs Q split: if_splits)
  show "e' \<le> length runs'" using prep be b e by (auto simp: defs Q split: if_splits)
  show "b' \<le> e'" if "tr = None" using prep be b e that by (auto simp: defs Q split: if_splits)
  show "b' = e' + 1 \<and> eal = 0" if "tr \<noteq> None" using prep be b e that by (auto simp: defs Q split: if_splits)
qed

lemma rle_splice_join:
  fixes runs :: "'a rle_pair list"
  assumes pos: "rle_pos runs i b bp" "rle_pos runs j e ep" and be: "b \<le> e" "b = e \<Longrightarrow> bp \<le> ep"
    and reps: "reps \<noteq> []"
  defines "P \<equiv> rle_front runs b bp" and "Q \<equiv> rle_back runs e ep"
  shows "rle_splice (P \<noteq> []) (Q \<noteq> []) b bp e ep reps runs = rle_join P (rle_join reps Q)"
proof -
  obtain b' e' tr bal eal runs' where
    prep: "rle_splice_prepare (P \<noteq> []) (Q \<noteq> []) b bp e ep reps runs = (b', e', tr, bal, eal, runs')"
    by (metis prod_cases6)
  note front = rle_prepare_front [OF pos be prep [unfolded P_def Q_def], folded P_def Q_def]
    and rear = rle_prepare_back [OF pos be prep [unfolded P_def Q_def], folded P_def Q_def]
  define F where "F = (if rle_merge_front P reps then butlast P else P)"
  define B where "B = (if rle_merge_back reps Q then tl Q else Q)"
  have len: "length F = b'" using front(1,3) by (metis F_def length_take min_absorb2)
  have copy: "rle_splice_copy b' e' tr reps runs' = F @ reps @ B"
    using rle_splice_copy_eq [of b' runs' e' tr reps] front rear by (simp add: F_def B_def)
  have grow: "rle_grow (b' + (length reps + (if tr \<noteq> None then 1 else 0)) - 1) eal (rle_grow b' bal (F @ reps @ B))
    = F @ rle_grow (length reps - 1) eal (rle_grow 0 bal reps) @ B"
    using rear(5) reps len by (auto simp: rle_grow_def list_update_append nth_append)
  have "rle_splice (P \<noteq> []) (Q \<noteq> []) b bp e ep reps runs
    = F @ rle_grow (length reps - 1) eal (rle_grow 0 bal reps) @ B"
    unfolding rle_splice_def prep by (simp add: copy grow [simplified])
  also have "\<dots> = rle_join P (rle_join reps Q)"
  proof (cases reps rule: rev_cases)
    case (snoc rs r)
    then show ?thesis
      using front(2) rear(2)
      by (cases rs; cases P rule: rev_cases; cases Q)
        (auto simp: F_def B_def rle_join_def rle_merge_front_def rle_merge_back_def rle_grow_def prod_eq_iff)
  qed (use reps in simp)
  finally show ?thesis .
qed

lemma rle_remove_join:
  fixes runs :: "'a rle_pair list"
  assumes pos: "rle_pos runs i b bp" "rle_pos runs j e ep" and be: "b \<le> e" "b = e \<Longrightarrow> bp \<le> ep"
  defines "P \<equiv> rle_front runs b bp" and "Q \<equiv> rle_back runs e ep"
  shows "P = [] \<or> Q = [] \<or> fst (last P) \<noteq> fst (hd Q) \<Longrightarrow> rle_remove (P \<noteq> []) (Q \<noteq> []) b bp e ep runs = P @ Q"
    and "P \<noteq> [] \<Longrightarrow> Q \<noteq> [] \<Longrightarrow> fst (last P) = fst (hd Q) \<Longrightarrow>
      rle_remove (P \<noteq> []) (Q \<noteq> []) b bp e ep runs = butlast P @ (fst (hd Q), snd (last P) + snd (hd Q)) # tl Q"
proof -
  have b: "b \<le> length runs" "b = length runs \<Longrightarrow> bp = 0" "b < length runs \<Longrightarrow> bp < snd (runs ! b)"
    using pos(1) by (auto simp: rle_pos_def)
  have e: "e \<le> length runs" "e = length runs \<Longrightarrow> ep = 0" "e < length runs \<Longrightarrow> ep < snd (runs ! e)"
    using pos(2) by (auto simp: rle_pos_def)
  have Q: "Q = (if e < length runs then (fst (runs ! e), snd (runs ! e) - ep) # drop (Suc e) runs else [])"
    by (simp add: Q_def rle_back_def)
  have drop: "drop e runs = (if e < length runs then runs ! e # drop (Suc e) runs else [])"
    by (simp add: Cons_nth_drop_Suc)
  note last = rle_front_last [OF pos(1)]
  { assume ne: "P = [] \<or> Q = [] \<or> fst (last P) \<noteq> fst (hd Q)"
    have "\<not> (P \<noteq> [] \<and> Q \<noteq> [] \<and> fst (runs ! (if bp \<noteq> 0 then b else b - 1)) = fst (runs ! e))"
      using ne last by (auto simp: P_def Q split: if_splits)
    then show "rle_remove (P \<noteq> []) (Q \<noteq> []) b bp e ep runs = P @ Q"
      using be b e drop
      by (auto simp: rle_remove_def Let_def P_def rle_front_def Q take_update_swap drop_update_swap nth_list_update
          take_Suc_conv_app_nth list_update_append list_update_beyond split: if_splits nat.splits)
  next
    assume ne: "P \<noteq> []" "Q \<noteq> []" and eq: "fst (last P) = fst (hd Q)"
    have "fst (runs ! (if bp \<noteq> 0 then b else b - 1)) = fst (runs ! e)"
      using ne eq last by (auto simp: P_def Q split: if_splits)
    then show "rle_remove (P \<noteq> []) (Q \<noteq> []) b bp e ep runs = butlast P @ (fst (hd Q), snd (last P) + snd (hd Q)) # tl Q"
      using ne be b e drop last by (auto simp: rle_remove_def Let_def P_def Q drop_update_swap nth_list_update split: if_splits)
  }
qed

lemma rle_remove_eq_join:
  assumes "rle_pos runs i b bp" "rle_pos runs j e ep" and "b \<le> e" "b = e \<Longrightarrow> bp \<le> ep"
  shows "rle_remove (rle_front runs b bp \<noteq> []) (rle_back runs e ep \<noteq> []) b bp e ep runs =
    rle_join (rle_front runs b bp) (rle_back runs e ep)"
  using rle_remove_join [OF assms] by (auto simp: rle_join_def)

lemma rle_pos_front_Nil:
  "list_all (\<lambda>run. 0 < snd run) runs \<Longrightarrow> rle_pos runs i b bp \<Longrightarrow> rle_front runs b bp = [] \<longleftrightarrow> i = 0"
  by (cases runs; cases b) auto

lemma rle_pos_back_Nil:
  "rle_pos runs i b bp \<Longrightarrow> rle_back runs b bp = [] \<longleftrightarrow> i = sum_list (map snd runs)"
proof (induction runs arbitrary: i b)
  case (Cons run runs)
  then show ?case by (cases b) auto
qed simp

text \<open>
  The optimised algorithm computes what the trivial one does: the runs in front of the range, the
  replacements, and the runs behind the range, joined where neighbours have the same value. It takes no more than runs
  that are not empty, also when neighbours have the same value.
\<close>

lemma rle_replace_unchecked_runs:
  assumes ok': "list_all (\<lambda>run. 0 < snd run) (rle_runs r)" and tot: "rle_total_length r = sum_list (map snd (rle_runs r))" and ij: "i \<le> j" "j \<le> rle_total_length r"
  obtains b bp e ep where "rle_pos (rle_runs r) i b bp" "rle_pos (rle_runs r) j e ep"
    "rle_replace_unchecked i j reps r =
       \<lparr>rle_runs = rle_join (rle_front (rle_runs r) b bp)
          (if reps = [] then rle_back (rle_runs r) e ep else rle_join reps (rle_back (rle_runs r) e ep)),
        rle_total_length = rle_total_length r - (j - i) + sum_list (map snd reps)\<rparr>"
proof -
  let ?runs = "rle_runs r"
  obtain b bp where b: "rle_scan ?runs 0 0 i = (b, bp, i - bp)" "bp \<le> i" "rle_pos ?runs i b bp"
    using rle_scan_first [of i ?runs] ij tot by auto
  obtain e ep where e: "rle_scan (drop b ?runs) b (i - bp) j = (e, ep, j - ep)" "rle_pos ?runs j e ep"
    and be: "b \<le> e" "b = e \<Longrightarrow> bp \<le> ep"
    using rle_scan_next [OF b(3,2) ij(1)] ij(2) tot by metis
  have cond: "(0 < i) = (rle_front ?runs b bp \<noteq> [])" "(j \<noteq> rle_total_length r) = (rle_back ?runs e ep \<noteq> [])"
    using rle_pos_front_Nil [OF ok' b(3)] rle_pos_back_Nil [OF e(2)] tot by auto
  show ?thesis
    by (rule that [OF b(3) e(2)])
      (simp add: rle_replace_unchecked_def Let_def b(1) e(1) cond rle_remove_eq_join [OF b(3) e(2) be]
        rle_splice_join [OF b(3) e(2) be])
qed

lemma rle_replace_unchecked_join:
  assumes "rle_ok r" and "i \<le> j" "j \<le> rle_total_length r"
  obtains b bp e ep where "rle_pos (rle_runs r) i b bp" "rle_pos (rle_runs r) j e ep"
    "rle_replace_unchecked i j reps r =
       \<lparr>rle_runs = rle_join (rle_front (rle_runs r) b bp)
          (if reps = [] then rle_back (rle_runs r) e ep else rle_join reps (rle_back (rle_runs r) e ep)),
        rle_total_length = rle_total_length r - (j - i) + sum_list (map snd reps)\<rparr>"
proof -
  have "list_all (\<lambda>run. 0 < snd run) (rle_runs r)" "rle_total_length r = sum_list (map snd (rle_runs r))"
    using assms(1) by (simp_all add: rle_ok_def rle_runs_ok_def)
  then show ?thesis using rle_replace_unchecked_runs [OF _ _ assms(2,3)] that by blast
qed

lemma rle_replace_unchecked_items:
  assumes "rle_ok r" and "i \<le> j" and "j \<le> rle_total_length r"
  shows "rle_items (rle_replace_unchecked i j reps r) =
    take i (rle_items r) @ rle_expand reps @ drop j (rle_items r)"
  by (rule rle_replace_unchecked_join [OF assms, of reps])
    (simp add: rle_items_def rle_front_expand rle_back_expand)

lemma rle_items_length: "rle_ok r \<Longrightarrow> length (rle_items r) = rle_total_length r"
  by (simp add: rle_items_def rle_ok_def)

lemma rle_replace_unchecked_total:
  "rle_total_length (rle_replace_unchecked i j reps r) = rle_total_length r - (j - i) + sum_list (map snd reps)"
  by (simp add: rle_replace_unchecked_def Let_def split: prod.splits)

lemma rle_replace_unchecked_ok:
  assumes "rle_ok r" and "i \<le> j" and "j \<le> rle_total_length r" and "rle_runs_ok reps"
  shows "rle_ok (rle_replace_unchecked i j reps r)"
proof -
  let ?r = "rle_replace_unchecked i j reps r"
  have "sum_list (map snd (rle_runs ?r)) = length (rle_items ?r)" by (simp add: rle_items_def)
  also have "\<dots> = i + sum_list (map snd reps) + (rle_total_length r - j)"
    using assms rle_items_length [OF assms(1)] by (simp add: rle_replace_unchecked_items)
  finally have "sum_list (map snd (rle_runs ?r)) = rle_total_length ?r"
    using assms by (simp add: rle_replace_unchecked_total)
  moreover have "rle_runs_ok (rle_runs ?r)"
    by (rule rle_replace_unchecked_join [OF assms(1-3), of reps])
      (use assms in \<open>simp add: rle_ok_def rle_join_ok rle_front_ok rle_back_ok\<close>)
  ultimately show ?thesis by (simp add: rle_ok_def)
qed

text \<open>Runs stay non-empty, and their lengths add up to the length of the vector.\<close>

lemma rle_positive:
  "list_all (\<lambda>run. 0 < snd run) runs \<Longrightarrow> rle_pos runs i b bp \<Longrightarrow> list_all (\<lambda>run. 0 < snd run) (rle_front runs b bp)"
  "list_all (\<lambda>run. 0 < snd run) runs \<Longrightarrow> rle_pos runs i b bp \<Longrightarrow> list_all (\<lambda>run. 0 < snd run) (rle_back runs b bp)"
  "list_all (\<lambda>run. 0 < snd run) xs \<Longrightarrow> list_all (\<lambda>run. 0 < snd run) ys \<Longrightarrow> list_all (\<lambda>run. 0 < snd run) (rle_join xs ys)"
  by (fastforce simp: rle_front_def rle_back_def rle_join_def rle_pos_def list_all_iff dest: in_set_takeD in_set_dropD in_set_butlastD
      intro: list.set_sel split: if_splits)+

lemma rle_replace_unchecked_positive:
  assumes "list_all (\<lambda>run. 0 < snd run) (rle_runs r)" "rle_total_length r = sum_list (map snd (rle_runs r))"
    and "i \<le> j" "j \<le> rle_total_length r" "list_all (\<lambda>run. 0 < snd run) reps"
  shows "list_all (\<lambda>run. 0 < snd run) (rle_runs (rle_replace_unchecked i j reps r))"
    and "rle_items (rle_replace_unchecked i j reps r) = take i (rle_items r) @ rle_expand reps @ drop j (rle_items r)"
  by (rule rle_replace_unchecked_runs [OF assms(1-4), of reps],
      simp add: assms rle_positive rle_items_def rle_front_expand rle_back_expand)+

subsection \<open>The other operations\<close>

lemma rle_expand_nth: "rle_pos runs i b bp \<Longrightarrow> b < length runs \<Longrightarrow> rle_expand runs ! i = fst (runs ! b)"
proof (induction runs arbitrary: i b)
  case (Cons run runs)
  then show ?case by (cases b) (auto simp: nth_append)
qed simp

lemma rle_pos_less: "rle_pos runs i b bp \<Longrightarrow> b < length runs \<longleftrightarrow> i < sum_list (map snd runs)"
proof (induction runs arbitrary: i b)
  case (Cons run runs)
  then show ?case by (cases b) auto
qed simp

lemma rle_at_items:
  assumes "rle_ok r"
  shows "rle_at r i = (if i < length (rle_items r) then Some (rle_items r ! i) else None)"
proof (cases "i < sum_list (map snd (rle_runs r))")
  case True
  then obtain b bp where "rle_scan (rle_runs r) 0 0 i = (b, bp, i - bp)" and p: "rle_pos (rle_runs r) i b bp"
    using rle_scan_first [of i "rle_runs r"] by (metis less_imp_le)
  moreover have "b < length (rle_runs r)" using p True by (simp add: rle_pos_less)
  ultimately show ?thesis
    using True rle_expand_nth [OF p] by (simp add: rle_at_def Let_def rle_items_def)
next
  case False
  then show ?thesis
    using rle_scan_beyond [of 0 "rle_runs r" i 0]
    by (auto simp: rle_at_def Let_def rle_items_def split: prod.splits)
qed

text \<open>A slice is the front of a back part.\<close>

lemma rle_pos_split:
  assumes "rle_pos runs i b bp" and "b < length runs"
  obtains pre run post where "runs = pre @ run # post" "length pre = b" "i = sum_list (map snd pre) + bp" "bp < snd run"
  using assms id_take_nth_drop [of b runs] that [of "take b runs" "runs ! b" "drop (Suc b) runs"]
  by (auto simp: rle_pos_def)

lemma rle_slice_runs:
  assumes ok: "rle_ok r" and ij: "i < j" "j \<le> rle_total_length r"
  obtains b bp e ep where "rle_pos (rle_runs r) i b bp" "rle_pos (rle_runs r) (j - 1) e ep"
    "b \<le> e" "e < length (rle_runs r)" "b = e \<Longrightarrow> bp \<le> ep"
    "rle_slice i j r =
      \<lparr>rle_runs = (if b = e then [(fst (rle_runs r ! b), ep + 1 - bp)]
         else (fst (rle_runs r ! b), snd (rle_runs r ! b) - bp) # take (e - Suc b) (drop (Suc b) (rle_runs r))
           @ [(fst (rle_runs r ! e), ep + 1)]),
       rle_total_length = j - i\<rparr>"
proof -
  let ?runs = "rle_runs r"
  have tot: "rle_total_length r = sum_list (map snd ?runs)" using ok by (simp add: rle_ok_def)
  obtain b bp where b: "rle_scan ?runs 0 0 i = (b, bp, i - bp)" "bp \<le> i" "rle_pos ?runs i b bp"
    using rle_scan_first [of i ?runs] ij tot by auto
  have ij': "i \<le> j - 1" "j - 1 \<le> sum_list (map snd ?runs)" using ij tot by auto
  obtain e ep where e: "rle_scan (drop b ?runs) b (i - bp) (j - 1) = (e, ep, j - 1 - ep)" "rle_pos ?runs (j - 1) e ep"
    and be: "b \<le> e" "b = e \<Longrightarrow> bp \<le> ep"
    using rle_scan_next [OF b(3,2), of "j - 1"] ij' by metis
  have len: "e < length ?runs" using e(2) ij tot by (simp add: rle_pos_less)
  have slice: "take (e + 1 - b) (drop b ?runs)
    = (if b = e then [?runs ! b] else ?runs ! b # take (e - Suc b) (drop (Suc b) ?runs) @ [?runs ! e])"
  proof (cases "b = e")
    case True
    then show ?thesis using len by (simp add: take_Suc_conv_app_nth Cons_nth_drop_Suc [symmetric])
  next
    case False
    then obtain k where e': "e = Suc (b + k)" using be(1) by (metis le_neq_implies_less less_imp_Suc_add)
    have "drop b ?runs = ?runs ! b # drop (Suc b) ?runs" using be len by (simp add: Cons_nth_drop_Suc)
    moreover have "take (Suc k) (drop (Suc b) ?runs) = take k (drop (Suc b) ?runs) @ [?runs ! e]"
      using len e' by (simp add: take_Suc_conv_app_nth)
    ultimately show ?thesis using False e' by simp
  qed
  show ?thesis
    by (rule that [OF b(3) e(2) be(1) len be(2)])
      (use ij slice in \<open>auto simp: rle_slice_def Let_def b(1) e(1) [simplified] min_def set_last_def butlast_append\<close>)
qed

lemma rle_runs_two:
  assumes "b < e" and "e < length runs"
  shows "runs = take b runs @ runs ! b # take (e - Suc b) (drop (Suc b) runs) @ runs ! e # drop (Suc e) runs"
proof -
  have "drop (Suc b) runs = take (e - Suc b) (drop (Suc b) runs) @ drop e runs"
    using assms append_take_drop_id [of "e - Suc b" "drop (Suc b) runs"] by simp
  then show ?thesis
    using assms id_take_nth_drop [of b runs] Cons_nth_drop_Suc [of e runs] by simp
qed

lemma rle_slice_proper:
  assumes ok: "rle_ok r" and ij: "i < j" "j \<le> rle_total_length r"
  shows "rle_items (rle_slice i j r) = take (j - i) (drop i (rle_items r)) \<and> rle_ok (rle_slice i j r)"
proof -
  let ?runs = "rle_runs r"
  obtain b bp e ep where p: "rle_pos ?runs i b bp" "rle_pos ?runs (j - 1) e ep"
    and be: "b \<le> e" "e < length ?runs" "b = e \<Longrightarrow> bp \<le> ep"
    and slice: "rle_slice i j r =
      \<lparr>rle_runs = (if b = e then [(fst (?runs ! b), ep + 1 - bp)]
         else (fst (?runs ! b), snd (?runs ! b) - bp) # take (e - Suc b) (drop (Suc b) ?runs)
           @ [(fst (?runs ! e), ep + 1)]),
       rle_total_length = j - i\<rparr>"
    using rle_slice_runs [OF assms] by metis
  have ok': "rle_runs_ok ?runs" using ok by (simp add: rle_ok_def)
  show ?thesis
  proof (cases "b = e")
    case True
    obtain pre run post where s: "?runs = pre @ run # post" "length pre = b" "i = sum_list (map snd pre) + bp"
      using rle_pos_split [OF p(1)] be by (metis le_less_trans)
    have "j = sum_list (map snd pre) + ep + 1" "ep < snd run"
      using p(2) s(1,2) True ij by (auto simp: rle_pos_def)
    then show ?thesis
      unfolding slice using True s ij be(3) by (auto simp: rle_items_def rle_ok_def nth_append min_def)
  next
    case False
    define pre mid post where "pre = take b ?runs" and "mid = take (e - Suc b) (drop (Suc b) ?runs)"
      and "post = drop (Suc e) ?runs"
    have runs: "?runs = pre @ ?runs ! b # mid @ ?runs ! e # post"
      using rle_runs_two [of b e ?runs] False be unfolding pre_def mid_def post_def by simp
    have len: "length pre = b" "length mid = e - Suc b" using be False by (auto simp: pre_def mid_def)
    have i: "i = sum_list (map snd pre) + bp" "bp < snd (?runs ! b)"
      using p(1) be by (auto simp: rle_pos_def pre_def)
    have take_e: "take e ?runs = pre @ ?runs ! b # mid"
      by (subst runs) (use len False be in \<open>simp add: Suc_diff_Suc [symmetric]\<close>)
    have j: "j = sum_list (map snd pre) + snd (?runs ! b) + sum_list (map snd mid) + ep + 1" "ep < snd (?runs ! e)"
      using p(2) be ij by (auto simp: rle_pos_def take_e)
    have items: "rle_items r = rle_expand pre @ replicate (snd (?runs ! b)) (fst (?runs ! b)) @ rle_expand mid
      @ replicate (snd (?runs ! e)) (fst (?runs ! e)) @ rle_expand post"
      unfolding rle_items_def by (subst runs) simp
    have ok2: "rle_runs_ok (pre @ ?runs ! b # mid @ ?runs ! e # post)" using ok' runs by simp
    have "rle_items (rle_slice i j r) = take (j - i) (drop i (rle_items r))"
      unfolding items slice using False i j by (simp add: rle_items_def mid_def [symmetric])
    moreover have "rle_ok (rle_slice i j r)"
      unfolding slice using False i j ok2
      by (cases mid) (auto simp: rle_ok_def mid_def [symmetric] rle_runs_ok_Cons hd_append split: if_splits)
    ultimately show ?thesis by simp
  qed
qed

lemma rle_compact_merge_spec:
  assumes "r < it" and "it \<le> length runs" and "list_all (\<lambda>run. 0 < snd run) runs"
    and "rle_runs_ok (take (Suc r) runs)"
  shows "rle_expand (rle_compact_merge runs r it) = rle_expand (take (Suc r) runs @ drop it runs)
    \<and> rle_runs_ok (rle_compact_merge runs r it)"
  using assms
proof (induction runs r it rule: rle_compact_merge.induct)
  case (1 runs r it)
  show ?case
  proof (cases "it < length runs")
    case False
    with 1 show ?thesis by (subst (1 2) rle_compact_merge.simps) simp
  next
    case it: True
    have r: "take (Suc r) runs = take r runs @ [runs ! r]" using it 1 by (simp add: take_Suc_conv_app_nth)
    have drop: "drop it runs = runs ! it # drop (Suc it) runs" using it by (simp add: Cons_nth_drop_Suc)
    have len: "0 < snd (runs ! it)" using 1 it by (simp add: list_all_length)
    show ?thesis
    proof (cases "fst (runs ! r) = fst (runs ! it)")
      case True
      let ?runs = "runs[r := (fst (runs ! r), snd (runs ! r) + snd (runs ! it))]"
      have take: "take (Suc r) ?runs = take r runs @ [(fst (runs ! r), snd (runs ! r) + snd (runs ! it))]"
        using it 1 by (simp add: take_Suc_conv_app_nth)
      have "list_all (\<lambda>run. 0 < snd run) ?runs"
        using 1 it len by (auto simp: list_all_length nth_list_update)
      moreover have "rle_runs_ok (take (Suc r) ?runs)"
        using "1.prems"(4) len unfolding take r by auto
      ultimately show ?thesis
        using "1.IH"(1) [OF it True] "1.prems"(1) it r drop take True
        by (simp add: rle_compact_merge.simps [of runs r it] replicate_add)
    next
      case False
      let ?runs = "runs[Suc r := runs ! it]"
      have take: "take (Suc (Suc r)) ?runs = take (Suc r) runs @ [runs ! it]"
        using it "1.prems"(1) by (simp add: take_Suc_conv_app_nth [of "Suc r"])
      have "list_all (\<lambda>run. 0 < snd run) ?runs"
        using 1 it len by (auto simp: list_all_length nth_list_update)
      moreover have "rle_runs_ok (take (Suc (Suc r)) ?runs)"
        using "1.prems"(4) len False unfolding take r by (simp add: rle_runs_ok_Cons)
      moreover have "drop (Suc it) ?runs = drop (Suc it) runs" using "1.prems"(1) by simp
      ultimately show ?thesis
        using "1.IH"(2) [OF it False] "1.prems"(1) it drop take False
        by (simp add: rle_compact_merge.simps [of runs r it])
    qed
  qed
qed

lemma rle_compact_find_spec:
  assumes "list_all (\<lambda>run. 0 < snd run) runs" and "r < length runs" and "rle_runs_ok (take (Suc r) runs)"
  shows "rle_expand (rle_compact_find runs r) = rle_expand runs \<and> rle_runs_ok (rle_compact_find runs r)"
  using assms
proof (induction runs r rule: rle_compact_find.induct)
  case (1 runs r)
  show ?case
  proof (cases "r + 1 < length runs")
    case True
    have "rle_runs_ok (take (Suc (Suc r)) runs)" if "fst (runs ! r) \<noteq> fst (runs ! Suc r)"
      using True "1.prems" that
      by (simp add: take_Suc_conv_app_nth [of "Suc r"] take_Suc_conv_app_nth [of r] list_all_length rle_runs_ok_Cons)
    then show ?thesis
      using 1 True rle_compact_merge_spec [of r "Suc r" runs]
      by (simp add: rle_compact_find.simps [of runs r] flip: rle_expand_simps(3))
  next
    case False
    with "1.prems" show ?thesis by (simp add: rle_compact_find.simps [of runs r])
  qed
qed

lemma rle_compact_spec:
  assumes "list_all (\<lambda>run. 0 < snd run) runs"
  shows "rle_expand (rle_compact runs) = rle_expand runs" and "rle_runs_ok (rle_compact runs)"
  using rle_compact_find_spec [OF assms, of 0] assms
  by (cases runs; simp add: rle_compact_def rle_runs_ok_Cons)+

lemma rle_expand_map:
  "rle_expand (map (\<lambda>(v, l). (f v, l)) runs) = map f (rle_expand runs)"
  by (induction runs) (auto split: prod.splits)

lemma rle_replace_values_items:
  assumes "rle_ok r"
  shows "rle_items (rle_replace_values old new r) = map (\<lambda>v. if v = old then new else v) (rle_items r)"
    and "rle_ok (rle_replace_values old new r)"
proof -
  let ?f = "\<lambda>v. if v = old then new else v"
  let ?m = "map (\<lambda>(v, l). (?f v, l)) (rle_runs r)"
  have pos: "list_all (\<lambda>run. 0 < snd run) ?m"
    using assms by (auto simp: rle_ok_def rle_runs_ok_def list_all_iff)
  show items: "rle_items (rle_replace_values old new r) = map ?f (rle_items r)"
    by (simp add: rle_items_def rle_replace_values_def rle_compact_spec [OF pos] rle_expand_map)
  have "sum_list (map snd (rle_compact ?m)) = length (rle_items r)"
    using items length_rle_expand [of "rle_compact ?m"] by (simp add: rle_items_def rle_replace_values_def)
  then show "rle_ok (rle_replace_values old new r)"
    using assms rle_compact_spec [OF pos] by (simp add: rle_ok_def rle_replace_values_def rle_items_def)
qed

lemma rle_resize_grow:
  assumes "rle_ok r" and "rle_total_length r < n" and "rle_runs r \<noteq> []"
  shows "\<exists>r'. rle_resize_trailing_extent n r = Some r' \<and> rle_ok r'
    \<and> rle_items r' = rle_items r @ replicate (n - rle_total_length r) (last (rle_items r))"
proof -
  obtain pre run where runs: "rle_runs r = pre @ [run]" using assms(3) by (cases "rle_runs r" rule: rev_cases) auto
  have run: "0 < snd run" using assms(1) by (simp add: rle_ok_def runs)
  show ?thesis
    using assms(1,2) run
    by (auto simp: rle_resize_trailing_extent_def Let_def runs rle_ok_def rle_items_def simp flip: replicate_add)
qed

lemma rle_resize_shrink:
  assumes ok: "rle_ok r" and n: "0 < n" "n < rle_total_length r"
  shows "\<exists>r'. rle_resize_trailing_extent n r = Some r' \<and> rle_ok r' \<and> rle_items r' = take n (rle_items r)"
proof -
  have tot: "rle_total_length r = sum_list (map snd (rle_runs r))" using ok by (simp add: rle_ok_def)
  obtain b bp where b: "rle_scan (rle_runs r) 0 0 (n - 1) = (b, bp, n - 1 - bp)" and p: "rle_pos (rle_runs r) (n - 1) b bp"
    using rle_scan_first [of "n - 1" "rle_runs r"] n tot by (metis diff_le_self less_imp_le order.trans)
  have "b < length (rle_runs r)" using p n tot by (simp add: rle_pos_less)
  then obtain pre run post where s: "rle_runs r = pre @ run # post" "length pre = b" "n - 1 = sum_list (map snd pre) + bp"
    "bp < snd run"
    using rle_pos_split [OF p] by metis
  have "n = sum_list (map snd pre) + bp + 1" using s(3) n by simp
  moreover have "rle_resize_trailing_extent n r = Some \<lparr>rle_runs = pre @ [(fst run, bp + 1)], rle_total_length = n\<rparr>"
    using n s(1) b unfolding s(2) [symmetric] by (simp add: rle_resize_trailing_extent_def Let_def)
  ultimately show ?thesis
    using ok s by (auto simp: rle_ok_def rle_items_def min_def rle_runs_ok_Cons)
qed

lemma rle_ok_Nil: "rle_ok r \<Longrightarrow> rle_runs r = [] \<longleftrightarrow> rle_items r = []"
  using rle_expand_hd [of "rle_runs r"] by (auto simp: rle_ok_def rle_items_def)

lemma rle_resize_items:
  assumes "rle_ok r"
  shows "rle_resize_trailing_extent n r = None \<longleftrightarrow> rle_items r = [] \<and> 0 < n"
    and "rle_resize_trailing_extent n r = Some r' \<Longrightarrow> rle_ok r' \<and> length (rle_items r') = n
      \<and> rle_items r' = take n (rle_items r) @ replicate (n - length (rle_items r)) (last (rle_items r))"
proof -
  note len = rle_items_length [OF assms] and nil = rle_ok_Nil [OF assms]
  consider "n = 0" | "0 < n" "n < rle_total_length r" | "n = rle_total_length r" "0 < n"
    | "rle_total_length r < n" "rle_runs r = []" | "rle_total_length r < n" "rle_runs r \<noteq> []" by linarith
  then have "(rle_resize_trailing_extent n r = None \<longleftrightarrow> rle_items r = [] \<and> 0 < n) \<and>
    (\<forall>r'. rle_resize_trailing_extent n r = Some r' \<longrightarrow> rle_ok r' \<and> length (rle_items r') = n
      \<and> rle_items r' = take n (rle_items r) @ replicate (n - length (rle_items r)) (last (rle_items r)))"
  proof cases
    case 1
    then show ?thesis by (auto simp: rle_resize_trailing_extent_def Let_def rle_ok_def rle_items_def)
  next
    case 2
    then show ?thesis using rle_resize_shrink [OF assms 2] len by auto
  next
    case 3
    then show ?thesis using assms len by (auto simp: rle_resize_trailing_extent_def Let_def)
  next
    case 4
    then show ?thesis using len nil by (simp add: rle_resize_trailing_extent_def Let_def)
  next
    case 5
    then show ?thesis using rle_resize_grow [OF assms 5] len nil by auto
  qed
  then show "rle_resize_trailing_extent n r = None \<longleftrightarrow> rle_items r = [] \<and> 0 < n"
    and "rle_resize_trailing_extent n r = Some r' \<Longrightarrow> rle_ok r' \<and> length (rle_items r') = n
      \<and> rle_items r' = take n (rle_items r) @ replicate (n - length (rle_items r)) (last (rle_items r))"
    by auto
qed

subsection \<open>Iterators designate items\<close>

lemma rle_runs_ok_nth: "rle_runs_ok runs \<Longrightarrow> k < length runs \<Longrightarrow> 0 < snd (runs ! k)"
  by (simp add: rle_runs_ok_def list_all_length)

lemma rle_next_pos:
  assumes "rle_pos runs i it pos" and "i < sum_list (map snd runs)" and "rle_runs_ok runs"
  shows "\<exists>it' pos'. rle_next runs (it, pos) = Some (it', pos') \<and> rle_pos runs (i + 1) it' pos'"
proof -
  have it: "it < length runs" using assms by (simp add: rle_pos_less)
  show ?thesis
    using assms(1) it rle_runs_ok_nth [OF assms(3), of "Suc it"]
    by (auto simp: rle_next_def rle_pos_def take_Suc_conv_app_nth)
qed

lemma rle_prev_pos:
  assumes "rle_pos runs i it pos" and "0 < i" and "rle_runs_ok runs"
  shows "\<exists>it' pos'. rle_prev runs (it, pos) = Some (it', pos') \<and> rle_pos runs (i - 1) it' pos'"
proof (cases "pos = 0")
  case True
  then obtain k where k: "it = Suc k" using assms(1,2) by (cases it) (auto simp: rle_pos_def)
  have "0 < snd (runs ! k)"
    using assms(1,3) k by (auto simp: rle_runs_ok_nth rle_pos_def)
  moreover have "sum_list (map snd (take (Suc k) runs)) = i" and "k < length runs"
    using assms(1) k True by (auto simp: rle_pos_def)
  ultimately show ?thesis
    using True k by (auto simp: rle_prev_def rle_pos_def take_Suc_conv_app_nth)
next
  case False
  then show ?thesis using assms(1) by (auto simp: rle_prev_def rle_pos_def split: if_splits)
qed

lemma rle_forward_pos:
  assumes "rle_pos runs i it pos" and "i + move \<le> sum_list (map snd runs)" and "rle_runs_ok runs"
  shows "\<exists>it' pos'. rle_forward runs it pos move = Some (it', pos') \<and> rle_pos runs (i + move) it' pos'"
  using assms
proof (induction runs it pos move arbitrary: i rule: rle_forward.induct)
  case (1 runs it pos move)
  show ?case
  proof (cases "move = 0")
    case True
    with 1 show ?thesis by (simp add: rle_forward.simps)
  next
    case False
    then have it: "it < length runs" using "1.prems" by (simp add: rle_pos_less)
    let ?space = "snd (runs ! it) - pos"
    show ?thesis
    proof (cases "move < ?space")
      case True
      with 1 False it show ?thesis by (auto simp: rle_forward.simps [of runs it pos move] rle_pos_def)
    next
      case big: False
      have "rle_pos runs (i + ?space) (it + 1) 0"
        using "1.prems" it rle_runs_ok_nth [of runs "Suc it"] by (auto simp: rle_pos_def take_Suc_conv_app_nth)
      then show ?thesis
        using "1.IH" [of ?space "i + ?space"] "1.prems" False it big
        by (auto simp: rle_forward.simps [of runs it pos move] Let_def rle_pos_def)
    qed
  qed
qed

lemma rle_backward_pos:
  assumes "rle_pos runs i it pos" and "move \<le> i" and "rle_runs_ok runs"
  shows "\<exists>it' pos'. rle_backward runs it pos move = Some (it', pos') \<and> rle_pos runs (i - move) it' pos'"
  using assms
proof (induction runs it pos move arbitrary: i rule: rle_backward.induct)
  case (1 runs it pos move)
  consider "move = 0" | "0 < move" "move \<le> pos" | "pos < move" by linarith
  then show ?case
  proof cases
    case 1
    with "1.prems" show ?thesis by (simp add: rle_backward.simps)
  next
    case 2
    with "1.prems" show ?thesis
      by (auto simp: rle_backward.simps [of runs it pos move] rle_pos_def split: if_splits)
  next
    case 3
    then obtain k where k: "it = Suc k" using "1.prems"(1,2) by (cases it) (auto simp: rle_pos_def)
    have "sum_list (map snd (take (Suc k) runs)) = i - pos" and kl: "k < length runs" and "pos \<le> i"
      using "1.prems"(1) k by (auto simp: rle_pos_def)
    moreover have "0 < snd (runs ! k)" using "1.prems"(3) kl by (rule rle_runs_ok_nth)
    ultimately have "rle_pos runs (i - (pos + 1)) k (snd (runs ! k) - 1)"
      by (auto simp: rle_pos_def take_Suc_conv_app_nth)
    then show ?thesis
      using "1.IH" [of k "i - (pos + 1)"] "1.prems" 3 k
      by (auto simp: rle_backward.simps [of runs "Suc k" pos move])
  qed
qed

lemma rle_advance_pos:
  assumes "rle_pos runs i it pos" and "rle_runs_ok runs"
    and "0 \<le> int i + move" and "int i + move \<le> int (sum_list (map snd runs))"
  shows "\<exists>it' pos'. rle_advance runs (it, pos) move = Some (it', pos') \<and> rle_pos runs (nat (int i + move)) it' pos'"
proof (cases "move \<ge> 0")
  case True
  then have "nat (int i + move) = i + nat move" "i + nat move \<le> sum_list (map snd runs)" using assms(4) by auto
  with True show ?thesis using rle_forward_pos [OF assms(1) _ assms(2)] by (simp add: rle_advance_def)
next
  case False
  then have "nat (int i + move) = i - nat (- move)" "nat (- move) \<le> i" using assms(3) by auto
  with False show ?thesis using rle_backward_pos [OF assms(1) _ assms(2)] by (simp add: rle_advance_def)
qed

lemma rle_sum_between:
  assumes "a \<le> b"
  shows "sum_list (map snd (take b runs)) =
    sum_list (map snd (take a runs)) + sum_list (map snd (take (b - a) (drop a runs)))"
  using assms take_add [of a "b - a" runs] by simp

lemma rle_before_iff:
  assumes "rle_pos runs i it pos" and "rle_pos runs j it' pos'" and "rle_runs_ok runs"
  shows "rle_before (it, pos) (it', pos') \<longleftrightarrow> i < j"
proof -
  have less: "i < j" if "a < b" "rle_pos runs i a p" "rle_pos runs j b q" for a b p q i j
  proof -
    have a: "a < length runs" using that by (auto simp: rle_pos_def)
    have "sum_list (map snd (take (Suc a) runs)) \<le> sum_list (map snd (take b runs))"
      using rle_sum_between [of "Suc a" b runs] that(1) by simp
    then show ?thesis using that a by (auto simp: rle_pos_def take_Suc_conv_app_nth)
  qed
  consider "it < it'" | "it = it'" | "it' < it" by linarith
  then show ?thesis
  proof cases
    case 1
    then show ?thesis using less [OF 1 assms(1,2)] by (simp add: rle_before_def)
  next
    case 2
    then show ?thesis using assms(1,2) by (auto simp: rle_before_def rle_pos_def)
  next
    case 3
    then show ?thesis using less [OF 3 assms(2,1)] by (simp add: rle_before_def)
  qed
qed

lemma rle_distance_pos:
  assumes "rle_pos runs i it pos" and "rle_pos runs j it' pos'" and "rle_runs_ok runs"
  shows "rle_distance runs (it, pos) (it', pos') = int i - int j"
proof -
  have sum_int: "(\<Sum>run\<leftarrow>xs. int (snd run)) = int (sum_list (map snd xs))" for xs :: "'a rle_pair list"
    by (induction xs) simp_all
  have i: "i = sum_list (map snd (take it runs)) + pos" and j: "j = sum_list (map snd (take it' runs)) + pos'"
    using assms by (auto simp: rle_pos_def)
  show ?thesis
  proof (cases "i < j")
    case True
    then have "rle_before (it, pos) (it', pos')" using rle_before_iff [OF assms] by simp
    then show ?thesis
      using rle_sum_between [of it it' runs] i j
      by (auto simp: rle_distance_def Let_def sum_int rle_before_def)
  next
    case False
    then have "\<not> rle_before (it, pos) (it', pos')" using rle_before_iff [OF assms] by simp
    then show ?thesis
      using rle_sum_between [of it' it runs] i j
      by (auto simp: rle_distance_def Let_def sum_int rle_before_def)
  qed
qed

lemma rle_deref_pos:
  "rle_pos runs i it pos \<Longrightarrow> i < sum_list (map snd runs) \<Longrightarrow> rle_deref runs (it, pos) = Some (rle_expand runs ! i)"
  by (simp add: rle_deref_def rle_pos_less rle_expand_nth)

subsection \<open>The contract of a sequence with fill\<close>

text \<open>
  What the row of the text buffer relies on when it stores its attributes: reading gives the item,
  filling a range replaces these items and no other, and equal sequences have equal representations.
\<close>

locale item_sequence =
  fixes ok :: "'b \<Rightarrow> bool"
    and items :: "'b \<Rightarrow> 'a list"
    and fetch :: "'b \<Rightarrow> nat \<Rightarrow> 'a option"
    and fill :: "nat \<Rightarrow> nat \<Rightarrow> 'a \<Rightarrow> 'b \<Rightarrow> 'b option"
  assumes canonical: "ok x \<Longrightarrow> ok y \<Longrightarrow> items x = items y \<Longrightarrow> x = y"
    and fetch_items: "ok x \<Longrightarrow> fetch x k = (if k < length (items x) then Some (items x ! k) else None)"
    and fill_items: "ok x \<Longrightarrow> i < j \<Longrightarrow> j \<le> length (items x) \<Longrightarrow>
      \<exists>y. fill i j v x = Some y \<and> ok y \<and> items y = take i (items x) @ replicate (j - i) v @ drop j (items x)"
begin

lemma fill_items_nth:
  assumes "ok x" and "i < j" and "j \<le> length (items x)"
  obtains y where "fill i j v x = Some y" "ok y" "length (items y) = length (items x)"
    "\<And>k. k < length (items x) \<Longrightarrow> items y ! k = (if i \<le> k \<and> k < j then v else items x ! k)"
proof -
  obtain y where y: "fill i j v x = Some y" "ok y" "items y = take i (items x) @ replicate (j - i) v @ drop j (items x)"
    using fill_items [OF assms, of v] by auto
  show thesis
    by (rule that [OF y(1,2)]) (use assms(2,3) in \<open>auto simp: y(3) nth_append\<close>)
qed

lemma fetch_fill:
  assumes "ok x" and "i < j" and "j \<le> length (items x)"
  shows "\<exists>y. fill i j v x = Some y \<and> ok y
    \<and> (\<forall>k. fetch y k = (if i \<le> k \<and> k < j then Some v else fetch x k))"
  by (rule fill_items_nth [OF assms, of v]) (use assms in \<open>auto simp: fetch_items\<close>)

lemma same_items:
  assumes "ok x" and "ok y" and "length (items x) = length (items y)"
    and "\<And>k. k < length (items x) \<Longrightarrow> items x ! k = items y ! k"
  shows "x = y"
  using assms by (intro canonical nth_equalityI) auto

lemma fill_again:
  assumes "ok x" and "i < j" and "j \<le> length (items x)"
  shows "Option.bind (fill i j u x) (fill i j v) = fill i j v x"
proof -
  obtain y where y: "fill i j u x = Some y" "ok y" "length (items y) = length (items x)"
    "\<And>k. k < length (items x) \<Longrightarrow> items y ! k = (if i \<le> k \<and> k < j then u else items x ! k)"
    using fill_items_nth [OF assms, of u] by metis
  obtain z where z: "fill i j v y = Some z" "ok z" "length (items z) = length (items y)"
    "\<And>k. k < length (items y) \<Longrightarrow> items z ! k = (if i \<le> k \<and> k < j then v else items y ! k)"
    using fill_items_nth [OF y(2) assms(2), of v] assms(3) y(3) by metis
  obtain w where w: "fill i j v x = Some w" "ok w" "length (items w) = length (items x)"
    "\<And>k. k < length (items x) \<Longrightarrow> items w ! k = (if i \<le> k \<and> k < j then v else items x ! k)"
    using fill_items_nth [OF assms, of v] by metis
  have "z = w" using y z w by (intro same_items) auto
  then show ?thesis using y z w by simp
qed

lemma fill_commute:
  assumes "ok x" and "i < j" and "j \<le> i'" and "i' < j'" and "j' \<le> length (items x)"
  shows "Option.bind (fill i j u x) (fill i' j' v) = Option.bind (fill i' j' v x) (fill i j u)"
proof -
  have j: "j \<le> length (items x)" using assms by simp
  obtain y where y: "fill i j u x = Some y" "ok y" "length (items y) = length (items x)"
    "\<And>k. k < length (items x) \<Longrightarrow> items y ! k = (if i \<le> k \<and> k < j then u else items x ! k)"
    using fill_items_nth [OF assms(1,2) j, of u] by metis
  obtain z where z: "fill i' j' v y = Some z" "ok z" "length (items z) = length (items y)"
    "\<And>k. k < length (items y) \<Longrightarrow> items z ! k = (if i' \<le> k \<and> k < j' then v else items y ! k)"
    using fill_items_nth [OF y(2) assms(4), of v] assms(5) y(3) by metis
  obtain a where a: "fill i' j' v x = Some a" "ok a" "length (items a) = length (items x)"
    "\<And>k. k < length (items x) \<Longrightarrow> items a ! k = (if i' \<le> k \<and> k < j' then v else items x ! k)"
    using fill_items_nth [OF assms(1,4,5), of v] by metis
  obtain b where b: "fill i j u a = Some b" "ok b" "length (items b) = length (items a)"
    "\<And>k. k < length (items a) \<Longrightarrow> items b ! k = (if i \<le> k \<and> k < j then u else items a ! k)"
    using fill_items_nth [OF a(2) assms(2), of u] j a(3) by metis
  have "z = b" using y z a b assms(3) by (intro same_items) auto
  then show ?thesis using y z a b by simp
qed

end

lemma rle_canonical: "rle_ok r \<Longrightarrow> rle_ok r' \<Longrightarrow> rle_items r = rle_items r' \<Longrightarrow> r = r'"
  using rle_expand_inj [of "rle_runs r" "rle_runs r'"] by (simp add: rle_ok_def rle_items_def)

lemma rle_replace_value_items:
  assumes "rle_ok r" and "i < j" and "j \<le> length (rle_items r)"
  shows "\<exists>r'. rle_replace_value i j v r = Some r' \<and> rle_ok r'
    \<and> rle_items r' = take i (rle_items r) @ replicate (j - i) v @ drop j (rle_items r)"
  using assms rle_items_length [OF assms(1)] rle_replace_unchecked_items [OF assms(1), of i j "[(v, j - i)]"]
    rle_replace_unchecked_ok [OF assms(1), of i j "[(v, j - i)]"]
  by (simp add: rle_replace_value_def rle_check_indices_def)

interpretation rle_vector: item_sequence rle_ok rle_items rle_at rle_replace_value
proof
  show "rle_ok x \<Longrightarrow> rle_ok y \<Longrightarrow> rle_items x = rle_items y \<Longrightarrow> x = y" for x y :: "'a basic_rle"
    by (rule rle_canonical)
qed (simp_all add: rle_at_items rle_replace_value_items)

subsection \<open>Properties\<close>

text \<open>
  C24. Replacing a range refines the operation on sequences: for a vector in normal form, \<open>replace\<close>
  throws exactly for a start behind the clamped end, otherwise the items become those in front of the
  range, the replacements and those behind the range, and the runs are again non-empty and merged.
\<close>

theorem rle_replace_refines:
  assumes "rle_ok r" and "rle_runs_ok reps"
  shows "(rle_replace i j reps r = None \<longleftrightarrow> min j (rle_size r) < i) \<and>
    (\<forall>r'. rle_replace i j reps r = Some r' \<longrightarrow>
      rle_items r' = take i (rle_items r) @ rle_expand reps @ drop (min j (rle_size r)) (rle_items r) \<and> rle_ok r')"
proof (cases "min j (rle_size r) < i")
  case True
  then show ?thesis by (simp add: rle_replace_def rle_size_def rle_check_indices_def Let_def)
next
  case False
  then show ?thesis
    using rle_replace_unchecked_items [OF assms(1), of i "min j (rle_size r)"]
      rle_replace_unchecked_ok [OF assms(1) _ _ assms(2), of i "min j (rle_size r)"]
    by (simp add: rle_replace_def rle_size_def rle_check_indices_def Let_def not_less)
qed

theorem rle_replace_refines_witness:
  "rle_replace 2 5 [(1, 2), (4, 1), (2, 1)] (rle_of_runs [(1 :: nat, 3), (2, 3), (3, 3)])
     = Some (rle_of_runs [(1, 4), (4, 1), (2, 2), (3, 3)]) \<and>
   rle_items (rle_of_runs [(1 :: nat, 4), (4, 1), (2, 2), (3, 3)]) = [1, 1, 1, 1, 4, 2, 2, 3, 3, 3]"
proof -
  let ?r = "rle_of_runs [(1 :: nat, 3), (2, 3), (3, 3)]"
  have ok: "rle_ok ?r" by (simp add: rle_ok_def rle_of_runs_def rle_runs_ok_Cons)
  have "rle_replace 2 5 [(1, 2), (4, 1), (2, 1)] ?r = Some (rle_of_runs [(1, 4), (4, 1), (2, 2), (3, 3)])"
    by code_simp
  with rle_replace_refines [OF ok, of "[(1, 2), (4, 1), (2, 1)]" 2 5] show ?thesis
    by (simp add: rle_runs_ok_Cons rle_items_def rle_of_runs_def eval_nat_numeral)
qed

text \<open>
  Reading after filling a range: every item of the range has the new value, every other item the
  old one; filling the same range again overwrites the first fill, and fills of ranges that do not
  overlap commute, down to the representation.
\<close>

theorem rle_fill_fetch:
  assumes "rle_ok r" and "i < j" and "j \<le> rle_size r"
  shows "(\<exists>r'. rle_replace_value i j v r = Some r' \<and> rle_ok r'
      \<and> (\<forall>k. rle_at r' k = (if i \<le> k \<and> k < j then Some v else rle_at r k)))
    \<and> Option.bind (rle_replace_value i j u r) (rle_replace_value i j v) = rle_replace_value i j v r
    \<and> (\<forall>i' j'. j \<le> i' \<and> i' < j' \<and> j' \<le> rle_size r \<longrightarrow>
         Option.bind (rle_replace_value i j u r) (rle_replace_value i' j' v)
         = Option.bind (rle_replace_value i' j' v r) (rle_replace_value i j u))"
proof -
  have len: "rle_size r = length (rle_items r)" using assms(1) by (simp add: rle_size_def rle_items_length)
  show ?thesis
    using rle_vector.fetch_fill [OF assms(1,2), of v] rle_vector.fill_again [OF assms(1,2), of u v]
      rle_vector.fill_commute [OF assms(1,2)] assms(3) by (simp add: len)
qed

theorem rle_fill_fetch_witness:
  "\<exists>r'. rle_replace_value 1 3 (7 :: nat) (rle_of_value 4 5) = Some r' \<and> rle_at r' 2 = Some 7 \<and> rle_at r' 3 = Some 5"
proof -
  have "rle_ok (rle_of_value 4 (5 :: nat))" by (simp add: rle_ok_def rle_of_value_def)
  moreover have "rle_at (rle_of_value 4 (5 :: nat)) 3 = Some 5" by code_simp
  ultimately show ?thesis
    using rle_fill_fetch [of "rle_of_value 4 (5 :: nat)" 1 3 7 0] by (auto simp: rle_size_def rle_of_value_def)
qed

text \<open>
  Two vectors in normal form are equal, as \<open>operator==\<close> compares them, exactly when they hold the
  same items; and the other operations keep the normal form: \<open>slice\<close> is the sub-sequence,
  \<open>replace_values\<close> changes every item, \<open>resize_trailing_extent\<close> cuts off or repeats the last item, and
  fails only when there is no last item to repeat.
\<close>

theorem rle_operations:
  assumes "rle_ok r"
  shows "(rle_ok r' \<longrightarrow> (r = r' \<longleftrightarrow> rle_items r = rle_items r'))
    \<and> (rle_ok (rle_slice i j r) \<and> rle_items (rle_slice i j r) = take (j - i) (drop i (rle_items r)))
    \<and> (rle_ok (rle_replace_values u v r)
      \<and> rle_items (rle_replace_values u v r) = map (\<lambda>x. if x = u then v else x) (rle_items r))
    \<and> (case rle_resize_trailing_extent n r of
        None \<Rightarrow> rle_items r = [] \<and> 0 < n
      | Some r'' \<Rightarrow> rle_ok r'' \<and> length (rle_items r'') = n \<and>
          rle_items r'' = take n (rle_items r) @ replicate (n - length (rle_items r)) (last (rle_items r)))
    \<and> rle_at r k = (if k < rle_size r then Some (rle_items r ! k) else None)"
proof (intro conjI)
  show "rle_ok r' \<longrightarrow> (r = r' \<longleftrightarrow> rle_items r = rle_items r')" using rle_canonical [OF assms] by auto
  have "rle_ok (rle_slice i j r) \<and> rle_items (rle_slice i j r) = take (j - i) (drop i (rle_items r))"
  proof (cases "i < min j (rle_total_length r)")
    case True
    have "rle_slice i j r = rle_slice i (min j (rle_total_length r)) r" by (simp add: rle_slice_def)
    then show ?thesis using rle_slice_proper [OF assms True] rle_items_length [OF assms] by (simp add: min_def split: if_splits)
  next
    case False
    then show ?thesis using rle_items_length [OF assms] by (auto simp: rle_slice_def Let_def rle_ok_def rle_items_def min_def split: if_splits)
  qed
  then show "rle_ok (rle_slice i j r)"
    and "rle_items (rle_slice i j r) = take (j - i) (drop i (rle_items r))" by simp_all
  show "rle_ok (rle_replace_values u v r)"
    and "rle_items (rle_replace_values u v r) = map (\<lambda>x. if x = u then v else x) (rle_items r)"
    using rle_replace_values_items [OF assms] by simp_all
  show "(case rle_resize_trailing_extent n r of
        None \<Rightarrow> rle_items r = [] \<and> 0 < n
      | Some r'' \<Rightarrow> rle_ok r'' \<and> length (rle_items r'') = n \<and>
          rle_items r'' = take n (rle_items r) @ replicate (n - length (rle_items r)) (last (rle_items r)))"
    using rle_resize_items [OF assms, of n] by (auto split: option.split)
  show "rle_at r k = (if k < rle_size r then Some (rle_items r ! k) else None)"
    using rle_at_items [OF assms] rle_items_length [OF assms] by (simp add: rle_size_def)
qed

theorem rle_operations_witness:
  "rle_items (rle_slice 2 5 (rle_of_runs [(1 :: nat, 3), (2, 3)])) = [1, 2, 2]"
proof -
  have "rle_ok (rle_of_runs [(1 :: nat, 3), (2, 3)])" by (simp add: rle_ok_def rle_of_runs_def rle_runs_ok_Cons)
  from rle_operations [OF this, of _ 2 5] show ?thesis
    by (simp add: rle_items_def rle_of_runs_def eval_nat_numeral)
qed

text \<open>
  Iterators are random access: an iterator that designates item \<open>i\<close> reads that item, moving it by
  any distance that stays within the vector designates item \<open>i\<close> plus the distance, and the difference of
  two iterators is the difference of the positions they designate.
\<close>

theorem rle_iterator_random_access:
  assumes "rle_runs_ok runs" and "rle_pos runs i it pos"
    and "0 \<le> int i + move" and "int i + move \<le> int (length (rle_expand runs))"
  shows "\<exists>it' pos'. rle_advance runs (it, pos) move = Some (it', pos')
    \<and> rle_pos runs (nat (int i + move)) it' pos'
    \<and> rle_distance runs (it', pos') (it, pos) = move
    \<and> (int i + move < int (length (rle_expand runs)) \<longrightarrow>
         rle_deref runs (it', pos') = Some (rle_expand runs ! nat (int i + move)))"
proof -
  obtain it' pos' where a: "rle_advance runs (it, pos) move = Some (it', pos')"
    and p: "rle_pos runs (nat (int i + move)) it' pos'"
    using rle_advance_pos [OF assms(2,1,3)] assms(4) by auto
  have "rle_distance runs (it', pos') (it, pos) = move"
    using rle_distance_pos [OF p assms(2,1)] assms(3) by simp
  moreover have "rle_deref runs (it', pos') = Some (rle_expand runs ! nat (int i + move))"
    if "int i + move < int (length (rle_expand runs))"
    using rle_deref_pos [OF p] that assms(3) by (simp add: nat_less_iff)
  ultimately show ?thesis using a p by blast
qed

theorem rle_iterator_random_access_witness:
  "\<exists>it' pos'. rle_advance [(7 :: nat, 2), (8, 3)] (1, 1) (- 2) = Some (it', pos')
    \<and> rle_deref [(7 :: nat, 2), (8, 3)] (it', pos') = Some 7"
proof -
  have "rle_runs_ok [(7 :: nat, 2), (8, 3)]" and "rle_pos [(7 :: nat, 2), (8, 3)] 3 1 1"
    by (simp_all add: rle_runs_ok_Cons rle_pos_def)
  from rle_iterator_random_access [OF this, of "- 2"] show ?thesis by (auto simp: nth_append)
qed

text \<open>
  Filling an empty range, which \<open>replace\<close> permits, inserts a run of length zero: the vector is no
  longer equal to a vector with the same items, and stepping an iterator into that run and onwards
  stays in it.
\<close>

theorem rle_fill_empty_range:
  "rle_replace_value 1 1 v (rle_of_value 2 w) =
     Some (if v = w then rle_of_value 2 w else rle_of_runs [(w, 1), (v, 0), (w, 1)])
   \<and> rle_items (rle_of_runs [(w, 1), (v, 0), (w, 1)]) = rle_items (rle_of_value 2 w)
   \<and> rle_of_runs [(w, 1), (v, 0), (w, 1)] \<noteq> rle_of_value 2 w
   \<and> rle_next [(w, 1), (v, 0), (w, 1)] (0, 0) = Some (1, 0)
   \<and> rle_next [(w, 1), (v, 0), (w, 1)] (1, p) = Some (1, p + 1)"
  by (simp add: rle_replace_value_def rle_check_indices_def rle_of_value_def rle_of_runs_def rle_replace_unchecked_def
      rle_splice_def rle_splice_prepare_def rle_splice_copy_def rle_grow_def rle_copy_def rle_items_def rle_next_def
      eval_nat_numeral Let_def)

end
