(* ===== verification/Row.thy ===== *)
theory Row
  imports Codepoint_Width Til_Rle Text_Attribute
begin

text \<open>
  A row of the text buffer: \<open>ROW\<close> and \<open>CharToColumnMapper\<close> of \<open>src/src/buffer/out/Row.cpp\<close> and \<open>Row.hpp\<close>. A row
  has a fixed number of columns. Its text is one string of UTF-16 code units; for each column
  \<open>_charOffsets\<close> has the offset of the glyph that covers it, with the highest bit set on the columns
  behind the first one of a wide glyph, and one more entry for the end of the text.

  The operations here are the code's, with every access to the two arrays checked: an access outside
  ends in \<open>OutOfBounds\<close>, an exception in \<open>Thrown\<close>. Columns and offsets are natural numbers; conversions to
  \<open>uint16_t\<close> are written out. The memory of an enlarged text array, uninitialised in the code, is zero here.
  The image slice of a row is left out. The text measurement is the detector \<open>d\<close> of \<open>Codepoint_Width\<close>.
\<close>

subsection \<open>Outcomes and arrays\<close>

datatype 'a outcome = Done 'a | Thrown | OutOfBounds

fun obind :: "'a outcome \<Rightarrow> ('a \<Rightarrow> 'b outcome) \<Rightarrow> 'b outcome" where
  "obind (Done x) f = f x"
| "obind Thrown f = Thrown"
| "obind OutOfBounds f = OutOfBounds"

definition peek :: "'a list \<Rightarrow> nat \<Rightarrow> 'a outcome" where
  "peek xs i = (if i < length xs then Done (xs ! i) else OutOfBounds)"

definition poke :: "'a list \<Rightarrow> nat \<Rightarrow> 'a \<Rightarrow> 'a list outcome" where
  "poke xs i v = (if i < length xs then Done (xs[i := v]) else OutOfBounds)"

text \<open>A run of elements read or written from a position on (\<open>memcpy\<close>, \<open>copy_n\<close>, \<open>fill_n\<close>, \<open>iota_n\<close>).\<close>

definition peek_range :: "'a list \<Rightarrow> nat \<Rightarrow> nat \<Rightarrow> 'a list outcome" where
  "peek_range xs i n = (if i + n \<le> length xs then Done (take n (drop i xs)) else OutOfBounds)"

definition poke_range :: "'a list \<Rightarrow> nat \<Rightarrow> 'a list \<Rightarrow> 'a list outcome" where
  "poke_range xs i ys =
     (if i + length ys \<le> length xs then Done (take i xs @ ys @ drop (i + length ys) xs) else OutOfBounds)"

definition narrow16 :: "nat \<Rightarrow> nat" where
  "narrow16 n = n mod 65536"

definition sub16 :: "nat \<Rightarrow> nat \<Rightarrow> nat" where
  "sub16 a b = nat ((int a - int b) mod 65536)"

definition iota :: "nat \<Rightarrow> nat \<Rightarrow> wchar list" where
  "iota n val = map word_of_nat [val..<val + n]"

subsection \<open>The row\<close>

datatype LineRendition = SingleWidth | DoubleWidth | DoubleHeightTop | DoubleHeightBottom

datatype MarkCategory = CatDefault | CatError | CatWarning | CatSuccess | CatPrompt

record ScrollbarData =
  sd_category :: MarkCategory
  sd_color :: "u32 option"
  sd_exitCode :: "u32 option"

record ROW =
  row_chars :: wstring
  row_charOffsets :: "wchar list"
  row_attr :: "TextAttribute basic_rle"
  row_columnCount :: nat
  row_lineRendition :: LineRendition
  row_wrapForced :: bool
  row_doubleBytePadded :: bool
  row_promptData :: "ScrollbarData option"

abbreviation CharOffsetsTrailer :: wchar where "CharOffsetsTrailer \<equiv> 0x8000"
abbreviation CharOffsetsMask :: wchar where "CharOffsetsMask \<equiv> 0x7fff"

definition offset_of :: "wchar \<Rightarrow> nat" where
  "offset_of e = unat (e AND CharOffsetsMask)"

definition trailer_of :: "wchar \<Rightarrow> bool" where
  "trailer_of e \<longleftrightarrow> e AND CharOffsetsTrailer \<noteq> 0"

definition clamp :: "int \<Rightarrow> int \<Rightarrow> int \<Rightarrow> int" where
  "clamp value lo hi = (if value < lo then lo else if value > hi then hi else value)"

definition clampedColumn :: "nat \<Rightarrow> int \<Rightarrow> nat" where
  "clampedColumn columnCount v = nat (clamp v 0 (int columnCount - 1) mod 65536)"

definition clampedColumnInclusive :: "nat \<Rightarrow> int \<Rightarrow> nat" where
  "clampedColumnInclusive columnCount v = nat (clamp v 0 (int columnCount) mod 65536)"

definition uncheckedCharOffset :: "wchar list \<Rightarrow> nat \<Rightarrow> nat outcome" where
  "uncheckedCharOffset offs col = obind (peek offs col) (\<lambda>e. Done (offset_of e))"

definition uncheckedIsTrailer :: "wchar list \<Rightarrow> nat \<Rightarrow> bool outcome" where
  "uncheckedIsTrailer offs col = obind (peek offs col) (\<lambda>e. Done (trailer_of e))"

fun adjustBackward :: "wchar list \<Rightarrow> nat \<Rightarrow> nat outcome" where
  "adjustBackward offs column =
     obind (uncheckedIsTrailer offs column)
       (\<lambda>trailer. if trailer then (case column of 0 \<Rightarrow> OutOfBounds | Suc c \<Rightarrow> adjustBackward offs c) else Done column)"

function adjustForward :: "wchar list \<Rightarrow> nat \<Rightarrow> nat outcome" where
  "adjustForward offs column =
     (if column < length offs
      then (if trailer_of (offs ! column) then adjustForward offs (column + 1) else Done column)
      else OutOfBounds)"
  by pat_completeness auto
termination by (relation "measure (\<lambda>(offs, column). length offs - column)") auto

declare adjustBackward.simps [simp del] adjustForward.simps [simp del]

subsubsection \<open>Flags\<close>

definition SetWrapForced :: "bool \<Rightarrow> ROW \<Rightarrow> ROW" where
  "SetWrapForced wrap row = row\<lparr>row_wrapForced := wrap\<rparr>"

definition SetDoubleBytePadded :: "bool \<Rightarrow> ROW \<Rightarrow> ROW" where
  "SetDoubleBytePadded padded row = row\<lparr>row_doubleBytePadded := padded\<rparr>"

definition SetLineRendition :: "LineRendition \<Rightarrow> ROW \<Rightarrow> ROW" where
  "SetLineRendition lineRendition row = row\<lparr>row_lineRendition := lineRendition\<rparr>"

definition GetReadableColumnCount :: "ROW \<Rightarrow> int" where
  "GetReadableColumnCount row =
     (if row_lineRendition row = SingleWidth then int (row_columnCount row) - of_bool (row_doubleBytePadded row)
      else (int (row_columnCount row) - 2 * of_bool (row_doubleBytePadded row)) div 2)"

definition StartPrompt :: "ROW \<Rightarrow> ROW" where
  "StartPrompt row =
     (case row_promptData row of
        None \<Rightarrow> row\<lparr>row_promptData := Some \<lparr>sd_category = CatPrompt, sd_color = None, sd_exitCode = None\<rparr>\<rparr>
      | Some _ \<Rightarrow> row)"

definition EndOutput :: "u32 option \<Rightarrow> ROW \<Rightarrow> ROW" where
  "EndOutput error row =
     (case row_promptData row of
        None \<Rightarrow> row
      | Some p \<Rightarrow> row\<lparr>row_promptData := Some (case error of
            None \<Rightarrow> p\<lparr>sd_exitCode := None\<rparr>
          | Some e \<Rightarrow> p\<lparr>sd_exitCode := Some e, sd_category := (if e = 0 then CatSuccess else CatError)\<rparr>)\<rparr>)"

subsubsection \<open>Initialisation\<close>

text \<open>
  \<open>_init\<close> in the portable form, and its loops for SSE2 (the NEON loop is the same) and AVX2. The buffers have the
  sizes \<open>CalculateCharsBufferSize\<close> and \<open>CalculateCharOffsetsBufferSize\<close>, in elements of two bytes.
\<close>

definition CalculateCharsBufferSize :: "nat \<Rightarrow> nat" where
  "CalculateCharsBufferSize columns = (columns * 2 + 16) div 16 * 16"

definition init_plain :: "nat \<Rightarrow> wstring \<times> wchar list" where
  "init_plain columnCount = (replicate columnCount 0x20, iota (columnCount + 1) 0)"

definition store_lanes :: "nat \<Rightarrow> nat \<Rightarrow> nat \<Rightarrow> wstring \<times> wchar list \<Rightarrow> (wstring \<times> wchar list) outcome" where
  "store_lanes lanes pos val bufs =
     obind (poke_range (fst bufs) pos (replicate lanes 0x20))
       (\<lambda>chars. obind (poke_range (snd bufs) pos (iota lanes val)) (\<lambda>offs. Done (chars, offs)))"

function init_sse2_loop :: "nat \<Rightarrow> nat \<Rightarrow> wstring \<times> wchar list \<Rightarrow> (wstring \<times> wchar list) outcome" where
  "init_sse2_loop columnCount pos bufs =
     obind (store_lanes 8 pos pos bufs)
       (\<lambda>bufs. if pos + 8 \<le> columnCount then init_sse2_loop columnCount (pos + 8) bufs else Done bufs)"
  by pat_completeness auto
termination by (relation "measure (\<lambda>(columnCount, pos, bufs). columnCount - pos)") auto

definition init_sse2 :: "nat \<Rightarrow> wstring \<times> wchar list \<Rightarrow> (wstring \<times> wchar list) outcome" where
  "init_sse2 columnCount bufs = init_sse2_loop columnCount 0 bufs"

function init_avx2_loop :: "nat \<Rightarrow> nat \<Rightarrow> wstring \<times> wchar list \<Rightarrow> (wstring \<times> wchar list) outcome" where
  "init_avx2_loop endLoop pos bufs =
     (if pos < endLoop
      then obind (store_lanes 16 pos pos bufs) (\<lambda>bufs. init_avx2_loop endLoop (pos + 16) bufs)
      else Done bufs)"
  by pat_completeness auto
termination by (relation "measure (\<lambda>(endLoop, pos, bufs). endLoop - pos)") auto

declare init_sse2_loop.simps [simp del] init_avx2_loop.simps [simp del]

definition init_avx2 :: "nat \<Rightarrow> wstring \<times> wchar list \<Rightarrow> (wstring \<times> wchar list) outcome" where
  "init_avx2 columnCount bufs =
     (let tailColumnOffset = (columnCount - 8) div 8 * 8
      in obind (init_avx2_loop tailColumnOffset 0 bufs) (store_lanes 16 tailColumnOffset tailColumnOffset))"

definition row_init :: "nat \<Rightarrow> wstring \<times> wchar list \<Rightarrow> bool \<Rightarrow> (wstring \<times> wchar list) outcome" where
  "row_init columnCount bufs avx2 =
     (if avx2 \<and> columnCount \<ge> 15 then init_avx2 columnCount bufs else init_sse2 columnCount bufs)"

definition ROW_new :: "nat \<Rightarrow> TextAttribute \<Rightarrow> ROW" where
  "ROW_new rowWidth fillAttribute =
     \<lparr>row_chars = fst (init_plain rowWidth), row_charOffsets = snd (init_plain rowWidth),
      row_attr = rle_of_value rowWidth fillAttribute, row_columnCount = rowWidth, row_lineRendition = SingleWidth,
      row_wrapForced = False, row_doubleBytePadded = False, row_promptData = None\<rparr>"

definition row_Reset :: "TextAttribute \<Rightarrow> ROW \<Rightarrow> ROW" where
  "row_Reset attr row =
     row\<lparr>row_chars := fst (init_plain (row_columnCount row)), row_charOffsets := snd (init_plain (row_columnCount row)),
         row_attr := (row_attr row)\<lparr>rle_runs := [(attr, row_columnCount row)]\<rparr>, row_lineRendition := SingleWidth,
         row_wrapForced := False, row_doubleBytePadded := False, row_promptData := None\<rparr>"

subsection \<open>Writing text\<close>

record WriteHelper =
  wh_colBeg :: nat
  wh_colLimit :: nat
  wh_colEnd :: nat
  wh_colBegDirty :: nat
  wh_colEndDirty :: nat
  wh_chBeg :: nat
  wh_chBegDirty :: nat
  wh_leadingSpaces :: nat
  wh_charsConsumed :: nat

definition WriteHelper_new :: "ROW \<Rightarrow> int \<Rightarrow> int \<Rightarrow> WriteHelper outcome" where
  "WriteHelper_new row columnBegin columnLimit =
     (let colBeg = clampedColumnInclusive (row_columnCount row) columnBegin;
          colLimit = clampedColumnInclusive (row_columnCount row) columnLimit
      in obind (uncheckedCharOffset (row_charOffsets row) colBeg)
           (\<lambda>chBegDirty. obind (adjustBackward (row_charOffsets row) colBeg)
              (\<lambda>colBegDirty. Done
                 \<lparr>wh_colBeg = colBeg, wh_colLimit = colLimit, wh_colEnd = colBeg, wh_colBegDirty = colBegDirty,
                  wh_colEndDirty = 0, wh_chBeg = narrow16 (chBegDirty + sub16 colBeg colBegDirty), wh_chBegDirty = chBegDirty,
                  wh_leadingSpaces = sub16 colBeg colBegDirty, wh_charsConsumed = 0\<rparr>)))"

definition wh_IsValid :: "WriteHelper \<Rightarrow> wstring \<Rightarrow> bool" where
  "wh_IsValid h chars \<longleftrightarrow> wh_colBeg h < wh_colLimit h \<and> chars \<noteq> []"

text \<open>
  One glyph: the entry of its first column and the entries of its further columns, up to the column
  \<open>colEndNew\<close>.
\<close>

function put_trailers :: "wchar list \<Rightarrow> nat \<Rightarrow> nat \<Rightarrow> nat \<Rightarrow> wchar list outcome" where
  "put_trailers offs colEnd colEndNew ch =
     (if colEnd < colEndNew
      then obind (poke offs colEnd (word_of_nat ch OR CharOffsetsTrailer)) (\<lambda>offs. put_trailers offs (colEnd + 1) colEndNew ch)
      else Done offs)"
  by pat_completeness auto
termination by (relation "measure (\<lambda>(offs, colEnd, colEndNew, ch). colEndNew - colEnd)") auto

declare put_trailers.simps [simp del]

definition put_glyph :: "wchar list \<Rightarrow> nat \<Rightarrow> nat \<Rightarrow> nat \<Rightarrow> wchar list outcome" where
  "put_glyph offs colEnd colEndNew ch =
     obind (poke offs colEnd (word_of_nat ch)) (\<lambda>offs. put_trailers offs (colEnd + 1) colEndNew ch)"

definition wh_ReplaceCharacters :: "nat \<Rightarrow> wstring \<Rightarrow> ROW \<times> WriteHelper \<Rightarrow> (ROW \<times> WriteHelper) outcome" where
  "wh_ReplaceCharacters width chars rh =
     (let row = fst rh; h = snd rh; colEndNew = narrow16 (wh_colEnd h + width)
      in if colEndNew > wh_colLimit h then Done (row, h\<lparr>wh_colEndDirty := wh_colLimit h\<rparr>)
         else obind (put_glyph (row_charOffsets row) (wh_colEnd h) colEndNew (wh_chBeg h))
           (\<lambda>offs. let colEnd = max (wh_colEnd h + 1) colEndNew
                   in Done (row\<lparr>row_charOffsets := offs\<rparr>,
                            h\<lparr>wh_colEnd := colEnd, wh_colEndDirty := colEnd, wh_charsConsumed := length chars\<rparr>)))"

text \<open>
  \<open>_resizeChars\<close>: the text behind the changed part moves by the difference of its old and new end, in a larger
  array if need be, and so do the offsets behind it.
\<close>

definition resizeChars :: "nat \<Rightarrow> nat \<Rightarrow> nat \<Rightarrow> nat \<Rightarrow> ROW \<Rightarrow> ROW outcome" where
  "resizeChars colEndDirty chBegDirty chEndDirty chEndDirtyOld row =
     obind (peek (row_charOffsets row) (row_columnCount row)) (\<lambda>size_entry.
       (let diff = int chEndDirty - int chEndDirtyOld;
            currentLength = unat size_entry;
            newLength = nat ((int currentLength + diff) mod 2 ^ 64);
            capacity = length (row_chars row)
        in obind (peek_range (row_chars row) chEndDirtyOld (currentLength - chEndDirtyOld)) (\<lambda>rest.
           obind (if newLength \<le> capacity then poke_range (row_chars row) chEndDirty rest
                  else (let newCapacity = max newLength (min 65535 (capacity + capacity div 2))
                        in if newCapacity > 65535 then Thrown
                           else obind (peek_range (row_chars row) 0 chBegDirty) (\<lambda>front.
                                obind (poke_range (replicate newCapacity 0) 0 front) (\<lambda>chars.
                                poke_range chars chEndDirty rest)))) (\<lambda>chars.
           Done (row\<lparr>row_chars := chars,
                     row_charOffsets := take colEndDirty (row_charOffsets row) @
                       map (\<lambda>e. e + word_of_int diff) (drop colEndDirty (row_charOffsets row))\<rparr>)))))"

text \<open>
  \<open>Finish\<close>: the glyphs cut at both ends of the write become spaces, the text is moved and filled in, and
  \<open>_doubleBytePadded\<close> follows when the last column was written.
\<close>

definition wh_Finish :: "wstring \<Rightarrow> ROW \<times> WriteHelper \<Rightarrow> (ROW \<times> WriteHelper) outcome" where
  "wh_Finish chars rh =
     (let row = fst rh; h = snd rh
      in obind (adjustForward (row_charOffsets row) (wh_colEndDirty h)) (\<lambda>colEndDirty.
         obind (uncheckedCharOffset (row_charOffsets row) colEndDirty) (\<lambda>chEndDirtyOld.
         (let trailingSpaces = sub16 colEndDirty (wh_colEnd h);
              chEndDirty = wh_chBegDirty h + wh_charsConsumed h + wh_leadingSpaces h + trailingSpaces
          in obind (if chEndDirty \<noteq> chEndDirtyOld
                    then resizeChars colEndDirty (wh_chBegDirty h) chEndDirty chEndDirtyOld row else Done row) (\<lambda>row.
             obind (poke_range (row_chars row) (wh_chBeg h) (take (wh_charsConsumed h) chars)) (\<lambda>chars1.
             obind (poke_range chars1 (wh_chBegDirty h) (replicate (wh_leadingSpaces h) 0x20)) (\<lambda>chars2.
             obind (poke_range (row_charOffsets row) (wh_colBegDirty h)
                      (iota (wh_leadingSpaces h) (wh_chBegDirty h))) (\<lambda>offs1.
             obind (poke_range chars2 (wh_chBeg h + wh_charsConsumed h) (replicate trailingSpaces 0x20)) (\<lambda>chars3.
             obind (poke_range offs1 (wh_colEnd h) (iota trailingSpaces (wh_chBeg h + wh_charsConsumed h))) (\<lambda>offs2.
             Done ((let row = row\<lparr>row_chars := chars3, row_charOffsets := offs2\<rparr>
                    in if colEndDirty = row_columnCount row
                       then SetDoubleBytePadded (wh_colEnd h < row_columnCount row) row else row),
                   h\<lparr>wh_colEndDirty := colEndDirty\<rparr>)))))))))))"

text \<open>
  An exception inside a write resets the row before it is passed on: the row that is left and what was
  returned, if anything.
\<close>

definition on_exception :: "ROW \<Rightarrow> (ROW \<times> 'a) outcome \<Rightarrow> (ROW \<times> 'a option) outcome" where
  "on_exception row m =
     (case m of Done (row', x) \<Rightarrow> Done (row', Some x)
      | Thrown \<Rightarrow> Done (row_Reset TextAttribute_default row, None)
      | OutOfBounds \<Rightarrow> OutOfBounds)"

definition ReplaceCharacters :: "int \<Rightarrow> nat \<Rightarrow> wstring \<Rightarrow> ROW \<Rightarrow> (ROW \<times> unit option) outcome" where
  "ReplaceCharacters columnBegin width chars row =
     on_exception row
       (obind (WriteHelper_new row columnBegin (int (row_columnCount row))) (\<lambda>h.
          if \<not> wh_IsValid h chars then Done (row, ())
          else obind (wh_ReplaceCharacters width chars (row, h)) (\<lambda>rh.
               obind (wh_Finish chars rh) (\<lambda>rh. Done (fst rh, ())))))"

definition ClearCell :: "int \<Rightarrow> ROW \<Rightarrow> (ROW \<times> unit option) outcome" where
  "ClearCell column row = ReplaceCharacters column 1 [0x20] row"

subsubsection \<open>Text\<close>

text \<open>
  The fast loop for ASCII, which gives up at the first other code unit, and the loop over grapheme clusters,
  which gives up at the first one that does not fit. Its calls to \<open>GraphemeNext\<close> give the list \<open>clusters\<close> of lengths
  and widths.
\<close>

fun replaceText_ascii :: "wchar list \<Rightarrow> nat \<Rightarrow> nat \<Rightarrow> wstring \<Rightarrow> (wchar list \<times> nat \<times> nat \<times> bool) outcome" where
  "replaceText_ascii offs colEnd ch [] = Done (offs, colEnd, ch, False)"
| "replaceText_ascii offs colEnd ch (c # cs) =
     (if c \<ge> 0x80 then Done (offs, colEnd, ch, True)
      else obind (poke offs colEnd (word_of_nat ch)) (\<lambda>offs. replaceText_ascii offs (colEnd + 1) (ch + 1) cs))"

fun replaceText_clusters ::
  "nat \<Rightarrow> wchar list \<Rightarrow> nat \<Rightarrow> nat \<Rightarrow> (nat \<times> int) list \<Rightarrow> (wchar list \<times> nat \<times> nat \<times> nat) outcome" where
  "replaceText_clusters colLimit offs colEnd ch [] = Done (offs, colEnd, colEnd, ch)"
| "replaceText_clusters colLimit offs colEnd ch ((len, w) # cls) =
     (let colEndNew = narrow16 (colEnd + nat (max 1 w))
      in if colEndNew > colLimit then Done (offs, colEnd, colLimit, ch)
         else obind (put_glyph offs colEnd colEndNew ch) (\<lambda>offs.
                replaceText_clusters colLimit offs (max (colEnd + 1) colEndNew) (ch + len) cls))"

text \<open>The first column of the glyph in front of a column.\<close>

fun prevGlyph :: "wchar list \<Rightarrow> nat \<Rightarrow> nat outcome" where
  "prevGlyph offs 0 = Done 0"
| "prevGlyph offs (Suc c) =
     obind (uncheckedIsTrailer offs c) (\<lambda>trailer. if trailer then prevGlyph offs c else Done c)"

text \<open>
  The first part of \<open>_replaceTextUnicode\<close>: the text that joins with the glyph in front of it. The result has the
  new position in the text and whether the function has returned.
\<close>

definition joinPrevious ::
  "CodepointWidthDetector \<Rightarrow> wstring \<Rightarrow> nat \<Rightarrow> ROW \<times> WriteHelper \<Rightarrow> (ROW \<times> WriteHelper \<times> nat \<times> bool) outcome" where
  "joinPrevious d chars ch rh =
     (let row = fst rh; h = snd rh; offs = row_charOffsets row
      in obind (prevGlyph offs (wh_colBeg h)) (\<lambda>colPrev.
         obind (uncheckedCharOffset offs colPrev) (\<lambda>chPrev.
         obind (peek_range (row_chars row) chPrev (ch - chPrev)) (\<lambda>charsPrev.
         (let (len, width) = measure_join d charsPrev chars;
              h' = h\<lparr>wh_colBegDirty := colPrev, wh_colEnd := colPrev\<rparr>;
              colEndNew = narrow16 (colPrev + max 1 width)
          in if len > 0
             then if colEndNew > wh_colLimit h
                  then Done (row, h'\<lparr>wh_colEndDirty := wh_colLimit h, wh_charsConsumed := ch - wh_chBeg h\<rparr>, ch, True)
                  else obind (put_glyph offs colPrev colEndNew chPrev) (\<lambda>offs.
                         Done (row\<lparr>row_charOffsets := offs\<rparr>, h'\<lparr>wh_colEnd := max (colPrev + 1) colEndNew\<rparr>, ch + len, False))
             else Done (row, h, ch, False))))))"

definition replaceTextUnicode ::
  "CodepointWidthDetector \<Rightarrow> wstring \<Rightarrow> nat \<Rightarrow> ROW \<times> WriteHelper \<Rightarrow> (ROW \<times> WriteHelper) outcome" where
  "replaceTextUnicode d chars ch rh =
     obind (if ch - wh_chBeg (snd rh) = 0 then joinPrevious d chars ch rh
            else Done (fst rh, (snd rh)\<lparr>wh_colEnd := wh_colEnd (snd rh) - 1\<rparr>, ch - 1, False)) (\<lambda>(row, h, ch, returned).
       if returned then Done (row, h)
       else obind (replaceText_clusters (wh_colLimit h) (row_charOffsets row) (wh_colEnd h) ch
                    (clusters d (GraphemeState_init\<lparr>gs_beg := Some (ch - wh_chBeg h)\<rparr>) chars))
              (\<lambda>(offs, colEnd, colEndDirty, ch).
                 Done (row\<lparr>row_charOffsets := offs\<rparr>,
                       h\<lparr>wh_colEnd := colEnd, wh_colEndDirty := colEndDirty, wh_charsConsumed := ch - wh_chBeg h\<rparr>)))"

definition wh_ReplaceText ::
  "CodepointWidthDetector \<Rightarrow> wstring \<Rightarrow> ROW \<times> WriteHelper \<Rightarrow> (ROW \<times> WriteHelper) outcome" where
  "wh_ReplaceText d chars rh =
     (let row = fst rh; h = snd rh
      in obind (replaceText_ascii (row_charOffsets row) (wh_colEnd h) (wh_chBeg h)
                 (take (min (length chars) (wh_colLimit h - wh_colBeg h)) chars)) (\<lambda>(offs, colEnd, ch, stopped).
           (let row = row\<lparr>row_charOffsets := offs\<rparr>
            in if stopped then replaceTextUnicode d chars ch (row, h\<lparr>wh_colEnd := colEnd\<rparr>)
               else Done (row, h\<lparr>wh_colEnd := colEnd, wh_colEndDirty := colEnd, wh_charsConsumed := ch - wh_chBeg h\<rparr>))))"

record RowWriteState =
  rws_text :: wstring
  rws_columnBegin :: int
  rws_columnLimit :: int
  rws_columnEnd :: int
  rws_columnBeginDirty :: int
  rws_columnEndDirty :: int

definition ReplaceText ::
  "CodepointWidthDetector \<Rightarrow> RowWriteState \<Rightarrow> ROW \<Rightarrow> (ROW \<times> RowWriteState option) outcome" where
  "ReplaceText d st row =
     on_exception row
       (obind (WriteHelper_new row (rws_columnBegin st) (rws_columnLimit st)) (\<lambda>h.
          if \<not> wh_IsValid h (rws_text st)
          then Done (row, st\<lparr>rws_columnEnd := int (wh_colBeg h), rws_columnBeginDirty := int (wh_colBeg h),
                             rws_columnEndDirty := int (wh_colBeg h)\<rparr>)
          else obind (wh_ReplaceText d (rws_text st) (row, h)) (\<lambda>rh.
               obind (wh_Finish (rws_text st) rh) (\<lambda>(row, h).
               (let left = drop (wh_charsConsumed h) (rws_text st)
                in Done (row, st\<lparr>rws_text := left,
                                 rws_columnEnd := int (if left = [] then wh_colEnd h else wh_colLimit h),
                                 rws_columnBeginDirty := int (wh_colBegDirty h),
                                 rws_columnEndDirty := int (wh_colEndDirty h)\<rparr>))))))"

subsubsection \<open>Copying from another row\<close>

definition copyOffset :: "wchar \<Rightarrow> wchar \<Rightarrow> wchar" where
  "copyOffset offset ch = ((ch AND CharOffsetsMask) + offset) OR (ch AND CharOffsetsTrailer)"

definition copyOffsets :: "wchar list \<Rightarrow> nat \<Rightarrow> wchar list \<Rightarrow> nat \<Rightarrow> wchar \<Rightarrow> wchar list outcome" where
  "copyOffsets dst pos src n offset = obind (peek_range src 0 n) (\<lambda>es. poke_range dst pos (map (copyOffset offset) es))"

definition wh_CopyTextFrom :: "wchar list \<Rightarrow> ROW \<times> WriteHelper \<Rightarrow> (ROW \<times> WriteHelper) outcome" where
  "wh_CopyTextFrom charOffsets rh =
     (let row = fst rh; h = snd rh;
          colEndDirtyInput = min (narrow16 (wh_colLimit h - wh_colBeg h)) (length charOffsets - 1)
      in if length charOffsets - 1 > 65535 then Thrown
         else obind (adjustBackward charOffsets colEndDirtyInput) (\<lambda>colEndInput.
         obind (peek charOffsets 0) (\<lambda>baseOffset.
         obind (peek charOffsets colEndInput) (\<lambda>endOffset.
         obind (copyOffsets (row_charOffsets row) (wh_colEnd h) charOffsets colEndInput
                  (word_of_nat (wh_chBeg h) - baseOffset)) (\<lambda>offs.
         Done (row\<lparr>row_charOffsets := offs\<rparr>,
               h\<lparr>wh_colEnd := narrow16 (wh_colEnd h + colEndInput),
                 wh_colEndDirty := narrow16 (wh_colBeg h + colEndDirtyInput),
                 wh_charsConsumed := unat endOffset - unat baseOffset\<rparr>))))))"

record RowCopyTextFromState =
  rcs_columnBegin :: int
  rcs_columnLimit :: int
  rcs_sourceColumnBegin :: int
  rcs_sourceColumnLimit :: int
  rcs_columnEnd :: int
  rcs_columnBeginDirty :: int
  rcs_columnEndDirty :: int
  rcs_sourceColumnEnd :: int

definition RowCopyTextFromState_init :: RowCopyTextFromState where
  "RowCopyTextFromState_init =
     \<lparr>rcs_columnBegin = 0, rcs_columnLimit = int32_max, rcs_sourceColumnBegin = 0, rcs_sourceColumnLimit = int32_max,
      rcs_columnEnd = 0, rcs_columnBeginDirty = 0, rcs_columnEndDirty = 0, rcs_sourceColumnEnd = 0\<rparr>"

text \<open>The part of the source to copy; \<open>self\<close> says that the source is the row itself.\<close>

definition copySource :: "RowCopyTextFromState \<Rightarrow> ROW \<Rightarrow> (wchar list \<times> wstring) outcome" where
  "copySource st source =
     (let sourceColBeg = clampedColumnInclusive (row_columnCount source) (rcs_sourceColumnBegin st);
          sourceColLimit = clampedColumnInclusive (row_columnCount source) (rcs_sourceColumnLimit st)
      in if sourceColBeg < sourceColLimit
         then obind (peek_range (row_charOffsets source) sourceColBeg (sourceColLimit - sourceColBeg + 1)) (\<lambda>charOffsets.
              (let beg = offset_of (hd charOffsets); end_offset = offset_of (last charOffsets)
               in obind (peek_range (row_chars source) beg (end_offset - beg)) (\<lambda>chars. Done (charOffsets, chars))))
         else Done ([], []))"

definition CopyTextFrom ::
  "RowCopyTextFromState \<Rightarrow> ROW \<Rightarrow> bool \<Rightarrow> ROW \<Rightarrow> (ROW \<times> RowCopyTextFromState option) outcome" where
  "CopyTextFrom st source self row =
     on_exception row
       (obind (copySource st source) (\<lambda>(charOffsets, chars).
        obind (WriteHelper_new row (rcs_columnBegin st) (rcs_columnLimit st)) (\<lambda>h.
          if \<not> wh_IsValid h chars \<or> self \<or> length charOffsets < 2 \<or> trailer_of (hd charOffsets)
          then Done (row, st\<lparr>rcs_columnEnd := int (wh_colBeg h), rcs_columnBeginDirty := int (wh_colBeg h),
                             rcs_columnEndDirty := int (wh_colBeg h), rcs_sourceColumnEnd := int (row_columnCount source)\<rparr>)
          else obind (wh_CopyTextFrom charOffsets (row, h)) (\<lambda>rh.
               obind (wh_Finish chars rh) (\<lambda>(row, h).
               Done (row, st\<lparr>rcs_columnEnd := int (if wh_charsConsumed h = length chars then wh_colEnd h else wh_colLimit h),
                             rcs_columnBeginDirty := int (wh_colBegDirty h),
                             rcs_columnEndDirty := int (wh_colEndDirty h),
                             rcs_sourceColumnEnd :=
                               int (clampedColumnInclusive (row_columnCount source) (rcs_sourceColumnBegin st))
                               + int (wh_colEnd h) - int (wh_colBeg h)\<rparr>))))))"

text \<open>\<open>Expects\<close> in \<open>resize_trailing_extent\<close> ends the program; such an end is counted with the accesses out of bounds.\<close>

definition CopyFrom :: "ROW \<Rightarrow> bool \<Rightarrow> ROW \<Rightarrow> (ROW \<times> unit option) outcome" where
  "CopyFrom source self row =
     (let row = row\<lparr>row_lineRendition := row_lineRendition source, row_wrapForced := row_wrapForced source\<rparr>
      in obind (CopyTextFrom (RowCopyTextFromState_init\<lparr>rcs_sourceColumnLimit := GetReadableColumnCount source\<rparr>)
                 source self row) (\<lambda>(row, st).
         case st of
           None \<Rightarrow> Done (row, None)
         | Some _ \<Rightarrow> (case rle_resize_trailing_extent (row_columnCount row) (row_attr source) of
                       None \<Rightarrow> OutOfBounds
                     | Some attr \<Rightarrow> Done (row\<lparr>row_attr := attr\<rparr>, Some ()))))"

subsection \<open>Attributes and cells\<close>

text \<open>An index error of the attribute vector is an exception that leaves the row as it is.\<close>

definition set_attr :: "nat \<Rightarrow> nat \<Rightarrow> TextAttribute \<Rightarrow> ROW \<Rightarrow> ROW \<times> unit option" where
  "set_attr colBeg colEnd attr row =
     (case rle_replace_value colBeg colEnd attr (row_attr row) of
        None \<Rightarrow> (row, None)
      | Some a \<Rightarrow> (row\<lparr>row_attr := a\<rparr>, Some ()))"

definition SetAttrToEnd :: "int \<Rightarrow> TextAttribute \<Rightarrow> ROW \<Rightarrow> ROW \<times> unit option" where
  "SetAttrToEnd columnBegin attr row =
     set_attr (clampedColumnInclusive (row_columnCount row) columnBegin) (rle_size (row_attr row)) attr row"

definition ReplaceAttributes :: "int \<Rightarrow> int \<Rightarrow> TextAttribute \<Rightarrow> ROW \<Rightarrow> ROW \<times> unit option" where
  "ReplaceAttributes beginIndex endIndex newAttr row =
     set_attr (clampedColumnInclusive (row_columnCount row) beginIndex)
              (clampedColumnInclusive (row_columnCount row) endIndex) newAttr row"

definition GetAttrByColumn :: "int \<Rightarrow> ROW \<Rightarrow> TextAttribute option" where
  "GetAttrByColumn column row = rle_at (row_attr row) (clampedColumn (row_columnCount row) column)"

definition GetHyperlinks :: "ROW \<Rightarrow> wchar list" where
  "GetHyperlinks row = map (\<lambda>run. ta_hyperlinkId (fst run)) (filter (\<lambda>run. IsHyperlink (fst run)) (rle_runs (row_attr row)))"

datatype DbcsAttribute = Single | Leading | Trailing

datatype TextAttributeBehavior = Stored | Current | StoredOnly

record OutputCell =
  cell_chars :: wstring
  cell_dbcs :: DbcsAttribute
  cell_attr :: TextAttribute
  cell_behavior :: TextAttributeBehavior

text \<open>
  \<open>WriteCells\<close> takes its cells from an iterator, here the list of the cells it has still to give and the number
  of steps it has made. The text of one cell, then the loop.
\<close>

definition write_cell_text ::
  "OutputCell \<Rightarrow> nat \<Rightarrow> bool \<Rightarrow> bool \<Rightarrow> nat \<Rightarrow> ROW \<Rightarrow> (ROW \<times> bool option) outcome" where
  "write_cell_text cell currentIndex fillingFirstColumn fillingLastColumn position row =
     (case cell_dbcs cell of
        Leading \<Rightarrow>
          (if fillingLastColumn
           then obind (ClearCell (int currentIndex) row) (\<lambda>(row, r).
                  Done (case r of None \<Rightarrow> (row, None) | Some _ \<Rightarrow> (SetDoubleBytePadded True row, Some False)))
           else obind (ReplaceCharacters (int currentIndex) 2 (cell_chars cell) row) (\<lambda>(row, r).
                  Done (row, map_option (\<lambda>_. True) r)))
      | Trailing \<Rightarrow>
          (if fillingFirstColumn
           then obind (ClearCell (int currentIndex) row) (\<lambda>(row, r). Done (row, map_option (\<lambda>_. True) r))
           else if position = 0
           then obind (ReplaceCharacters (int currentIndex - 1) 2 (cell_chars cell) row) (\<lambda>(row, r).
                  Done (row, map_option (\<lambda>_. True) r))
           else Done (row, Some True))
      | Single \<Rightarrow>
          obind (ReplaceCharacters (int currentIndex) 1 (cell_chars cell) row) (\<lambda>(row, r).
            Done (row, map_option (\<lambda>_. True) r)))"

text \<open>The run of one colour that has not been stored yet.\<close>

record ColorRun =
  cr_color :: TextAttribute
  cr_uses :: nat
  cr_starts :: nat

definition write_cell_color :: "OutputCell \<Rightarrow> nat \<Rightarrow> ColorRun \<Rightarrow> ROW \<Rightarrow> ROW \<times> ColorRun option" where
  "write_cell_color cell currentIndex run row =
     (if cell_behavior cell = Current then (row, Some run)
      else if cr_color run = cell_attr cell then (row, Some (run\<lparr>cr_uses := narrow16 (cr_uses run + 1)\<rparr>))
      else (case set_attr (cr_starts run) currentIndex (cr_color run) row of
              (row, None) \<Rightarrow> (row, None)
            | (row, Some _) \<Rightarrow> (row, Some \<lparr>cr_color = cell_attr cell, cr_uses = 1, cr_starts = currentIndex\<rparr>)))"

function write_cells_loop ::
  "bool option \<Rightarrow> nat \<Rightarrow> OutputCell list \<Rightarrow> nat \<Rightarrow> nat \<Rightarrow> ColorRun \<Rightarrow> ROW \<Rightarrow> (ROW \<times> (OutputCell list \<times> nat \<times> ColorRun) option) outcome"
where
  "write_cells_loop wrap finalColumn cells position currentIndex run row =
     (if cells \<noteq> [] \<and> currentIndex \<le> finalColumn
      then (case write_cell_color (hd cells) currentIndex run row of
              (row, None) \<Rightarrow> Done (row, None)
            | (row, Some run) \<Rightarrow>
                (if cell_behavior (hd cells) = StoredOnly
                 then write_cells_loop wrap finalColumn (tl cells) (position + 1) (currentIndex + 1) run row
                 else obind (write_cell_text (hd cells) currentIndex (currentIndex = 0) (currentIndex = finalColumn) position row)
                        (\<lambda>(row, r).
                          (case r of
                             None \<Rightarrow> Done (row, None)
                           | Some consumed \<Rightarrow>
                               (let row = (case wrap of
                                      None \<Rightarrow> row
                                    | Some w \<Rightarrow> if currentIndex = finalColumn then SetWrapForced w row else row)
                                in write_cells_loop wrap finalColumn (if consumed then tl cells else cells)
                                     (if consumed then position + 1 else position) (currentIndex + 1) run row)))))
      else Done (row, Some (cells, currentIndex, run)))"
  by pat_completeness auto
termination by (relation "measure (\<lambda>(wrap, finalColumn, cells, position, currentIndex, run, row). Suc finalColumn - currentIndex)") auto

declare write_cells_loop.simps [simp del]

definition WriteCells ::
  "OutputCell list \<Rightarrow> nat \<Rightarrow> int \<Rightarrow> bool option \<Rightarrow> int option \<Rightarrow> ROW \<Rightarrow> (ROW \<times> OutputCell list option) outcome" where
  "WriteCells cells position columnBegin wrap limitRight row =
     (if columnBegin \<ge> int (row_columnCount row) \<or> (case limitRight of None \<Rightarrow> 0 | Some l \<Rightarrow> l) \<ge> int (row_columnCount row)
      then Done (row, None)
      else (let finalColumn = nat ((case limitRight of None \<Rightarrow> int (row_columnCount row) - 1 | Some l \<Rightarrow> l) mod 65536);
                start = nat (columnBegin mod 65536);
                color = (case cells of [] \<Rightarrow> TextAttribute_default | cell # _ \<Rightarrow> cell_attr cell)
            in obind (write_cells_loop wrap finalColumn cells position start
                        \<lparr>cr_color = color, cr_uses = 0, cr_starts = start\<rparr> row) (\<lambda>(row, r).
               case r of
                 None \<Rightarrow> Done (row, None)
               | Some (cells, currentIndex, run) \<Rightarrow>
                   if cr_uses run \<noteq> 0
                   then (case set_attr (cr_starts run) currentIndex (cr_color run) row of
                           (row, None) \<Rightarrow> Done (row, None)
                         | (row, Some _) \<Rightarrow> Done (row, Some cells))
                   else Done (row, Some cells))))"

subsection \<open>Reading\<close>

definition NavigateToPrevious :: "int \<Rightarrow> ROW \<Rightarrow> nat outcome" where
  "NavigateToPrevious column row = adjustBackward (row_charOffsets row) (clampedColumn (row_columnCount row) (column - 1))"

definition NavigateToNext :: "int \<Rightarrow> ROW \<Rightarrow> nat outcome" where
  "NavigateToNext column row = adjustForward (row_charOffsets row) (clampedColumnInclusive (row_columnCount row) (column + 1))"

definition AdjustToGlyphStart :: "int \<Rightarrow> ROW \<Rightarrow> nat outcome" where
  "AdjustToGlyphStart column row = adjustBackward (row_charOffsets row) (clampedColumn (row_columnCount row) column)"

definition AdjustToGlyphEnd :: "int \<Rightarrow> ROW \<Rightarrow> nat outcome" where
  "AdjustToGlyphEnd column row = adjustForward (row_charOffsets row) (clampedColumnInclusive (row_columnCount row) column)"

definition GlyphAt :: "int \<Rightarrow> ROW \<Rightarrow> wstring outcome" where
  "GlyphAt column row =
     (let col = clampedColumn (row_columnCount row) column
      in obind (uncheckedCharOffset (row_charOffsets row) col) (\<lambda>beg.
         obind (adjustForward (row_charOffsets row) (col + 1)) (\<lambda>col.
         obind (uncheckedCharOffset (row_charOffsets row) col) (\<lambda>end_offset.
         peek_range (row_chars row) beg (end_offset - beg)))))"

definition DbcsAttrAt :: "int \<Rightarrow> ROW \<Rightarrow> DbcsAttribute outcome" where
  "DbcsAttrAt column row =
     (let col = clampedColumn (row_columnCount row) column
      in obind (uncheckedIsTrailer (row_charOffsets row) col) (\<lambda>trailer.
         if trailer then Done Trailing
         else obind (uncheckedIsTrailer (row_charOffsets row) (col + 1)) (\<lambda>trailer.
              Done (if trailer then Leading else Single))))"

definition offset_at :: "ROW \<Rightarrow> int \<Rightarrow> nat outcome" where
  "offset_at row col = (if col < 0 then OutOfBounds else uncheckedCharOffset (row_charOffsets row) (nat col))"

definition GetText :: "ROW \<Rightarrow> wstring outcome" where
  "GetText row = obind (offset_at row (GetReadableColumnCount row)) (peek_range (row_chars row) 0)"

definition GetText_range :: "int \<Rightarrow> int \<Rightarrow> ROW \<Rightarrow> wstring outcome" where
  "GetText_range columnBegin columnEnd row =
     (let columns = GetReadableColumnCount row;
          colBeg = clamp columnBegin 0 columns;
          colEnd = clamp columnEnd colBeg columns
      in obind (offset_at row colBeg) (\<lambda>chBeg.
         obind (offset_at row colEnd) (\<lambda>chEnd.
         peek_range (row_chars row) chBeg (chEnd - chBeg))))"

definition GetCharOffset :: "int \<Rightarrow> ROW \<Rightarrow> nat outcome" where
  "GetCharOffset col row = offset_at row (clamp col 0 (GetReadableColumnCount row))"

definition GetLastNonSpaceColumn :: "ROW \<Rightarrow> int outcome" where
  "GetLastNonSpaceColumn row =
     obind (GetText row) (\<lambda>str. Done (GetReadableColumnCount row - int (length (takeWhile (\<lambda>c. c = 0x20) (rev str)))))"

definition MeasureLeft :: "ROW \<Rightarrow> int outcome" where
  "MeasureLeft row = obind (GetText row) (\<lambda>str. Done (int (length (takeWhile (\<lambda>c. c = 0x20) str))))"

definition MeasureRight :: "ROW \<Rightarrow> int outcome" where
  "MeasureRight row =
     (if row_wrapForced row then Done (int (row_columnCount row) - of_bool (row_doubleBytePadded row))
      else GetLastNonSpaceColumn row)"

definition ContainsText :: "ROW \<Rightarrow> bool outcome" where
  "ContainsText row = obind (GetText row) (\<lambda>str. Done (\<exists>c \<in> set str. c \<noteq> 0x20))"

datatype DelimiterClass = ControlChar | DelimiterChar | RegularChar

definition DelimiterClassAt :: "int \<Rightarrow> wstring \<Rightarrow> ROW \<Rightarrow> DelimiterClass outcome" where
  "DelimiterClassAt column wordDelimiters row =
     obind (uncheckedCharOffset (row_charOffsets row) (clampedColumn (row_columnCount row) column)) (\<lambda>off.
     obind (peek (row_chars row) off) (\<lambda>glyph.
     Done (if glyph \<le> 0x20 then ControlChar else if glyph \<in> set wordDelimiters then DelimiterChar else RegularChar)))"

subsubsection \<open>From text to columns\<close>

text \<open>\<open>CharToColumnMapper\<close>: a search forwards and one backwards, from the column of the last search.\<close>

record CharToColumnMapper =
  cm_charOffsets :: "wchar list"
  cm_charsLength :: int
  cm_currentColumn :: nat
  cm_columnCount :: nat

function mapper_forward :: "wchar list \<Rightarrow> int \<Rightarrow> nat \<Rightarrow> nat outcome" where
  "mapper_forward offs targetOffset col =
     (if col < length offs
      then (if targetOffset > int (offset_of (offs ! col)) then mapper_forward offs targetOffset (col + 1) else Done col)
      else OutOfBounds)"
  by pat_completeness auto
termination by (relation "measure (\<lambda>(offs, targetOffset, col). length offs - col)") auto

fun mapper_backward :: "wchar list \<Rightarrow> int \<Rightarrow> nat \<Rightarrow> nat outcome" where
  "mapper_backward offs targetOffset col =
     obind (peek offs col) (\<lambda>currentOffset.
       if targetOffset < int (unat currentOffset)
       then (case col of 0 \<Rightarrow> OutOfBounds | Suc c \<Rightarrow> mapper_backward offs targetOffset c) else Done col)"

declare mapper_forward.simps [simp del] mapper_backward.simps [simp del]

definition GetLeadingColumnAt :: "int \<Rightarrow> CharToColumnMapper \<Rightarrow> (CharToColumnMapper \<times> nat) outcome" where
  "GetLeadingColumnAt targetOffset m =
     (let targetOffset = clamp targetOffset 0 (cm_charsLength m)
      in obind (mapper_forward (cm_charOffsets m) targetOffset (cm_currentColumn m)) (\<lambda>col.
         obind (mapper_backward (cm_charOffsets m) targetOffset col) (\<lambda>col.
         Done (m\<lparr>cm_currentColumn := col\<rparr>, col))))"

definition GetTrailingColumnAt :: "int \<Rightarrow> CharToColumnMapper \<Rightarrow> (CharToColumnMapper \<times> nat) outcome" where
  "GetTrailingColumnAt offset m =
     obind (GetLeadingColumnAt offset m) (\<lambda>(m, col).
       if col < cm_columnCount m
       then obind (adjustForward (cm_charOffsets m) (col + 1)) (\<lambda>next_col. Done (m, next_col - 1))
       else Done (m, col))"

definition createCharToColumnMapper :: "int \<Rightarrow> ROW \<Rightarrow> CharToColumnMapper outcome" where
  "createCharToColumnMapper offset row =
     obind (peek (row_charOffsets row) (row_columnCount row)) (\<lambda>charsSize.
       Done \<lparr>cm_charOffsets = row_charOffsets row, cm_charsLength = int (unat charsSize),
             cm_currentColumn = nat (clamp offset 0 (int (row_columnCount row))), cm_columnCount = row_columnCount row\<rparr>)"

definition GetLeadingColumnAtCharOffset :: "int \<Rightarrow> ROW \<Rightarrow> nat outcome" where
  "GetLeadingColumnAtCharOffset offset row =
     obind (createCharToColumnMapper offset row) (\<lambda>m. obind (GetLeadingColumnAt offset m) (\<lambda>(m, col). Done col))"

definition GetTrailingColumnAtCharOffset :: "int \<Rightarrow> ROW \<Rightarrow> nat outcome" where
  "GetTrailingColumnAtCharOffset offset row =
     obind (createCharToColumnMapper offset row) (\<lambda>m. obind (GetTrailingColumnAt offset m) (\<lambda>(m, col). Done col))"

end
