(* ===== verification/Row_Refinement.thy ===== *)
theory Row_Refinement
  imports Row
begin

text \<open>
  What the operations on a row do, as operations on the list of its glyphs. A glyph is its text and its number of
  columns. \<open>row_repr r gs\<close> says that the two arrays of the row \<open>r\<close> represent the glyphs \<open>gs\<close>; every operation that writes
  keeps some representation and is described by the glyphs it leaves.
\<close>

subsection \<open>Glyphs and their offsets\<close>

type_synonym glyph = "wstring \<times> nat"

definition gtext :: "glyph list \<Rightarrow> wstring" where
  "gtext gs = concat (map fst gs)"

definition gwidth :: "glyph list \<Rightarrow> nat" where
  "gwidth gs = sum_list (map snd gs)"

abbreviation glen :: "glyph list \<Rightarrow> nat" where
  "glen gs \<equiv> length (gtext gs)"

definition glyphs_ok :: "glyph list \<Rightarrow> bool" where
  "glyphs_ok gs \<longleftrightarrow> (\<forall>(t, w) \<in> set gs. t \<noteq> [] \<and> 1 \<le> w \<and> w \<le> 2)"

fun offs_of :: "nat \<Rightarrow> glyph list \<Rightarrow> wchar list" where
  "offs_of n [] = []"
| "offs_of n ((t, w) # gs) =
     word_of_nat n # replicate (w - 1) (word_of_nat n OR CharOffsetsTrailer) @ offs_of (n + length t) gs"

definition full :: "nat \<Rightarrow> glyph list \<Rightarrow> wchar list" where
  "full n gs = offs_of n gs @ [word_of_nat (n + glen gs)]"

definition row_repr :: "ROW \<Rightarrow> glyph list \<Rightarrow> bool" where
  "row_repr row gs \<longleftrightarrow> glyphs_ok gs \<and> gwidth gs = row_columnCount row \<and> row_columnCount row \<le> 0x7fff \<and> glen gs \<le> 0x7fff
     \<and> row_charOffsets row = full 0 gs \<and> glen gs \<le> length (row_chars row) \<and> length (row_chars row) \<le> 0xffff
     \<and> take (glen gs) (row_chars row) = gtext gs"

lemma gtext_simps [simp]:
  "gtext [] = []" "gtext (g # gs) = fst g @ gtext gs" "gtext (gs @ hs) = gtext gs @ gtext hs"
  by (simp_all add: gtext_def)

lemma gwidth_simps [simp]:
  "gwidth [] = 0" "gwidth (g # gs) = snd g + gwidth gs" "gwidth (gs @ hs) = gwidth gs + gwidth hs"
  by (simp_all add: gwidth_def)

lemma glyphs_ok_simps [simp]:
  "glyphs_ok []" "glyphs_ok (g # gs) \<longleftrightarrow> fst g \<noteq> [] \<and> 1 \<le> snd g \<and> snd g \<le> 2 \<and> glyphs_ok gs"
  "glyphs_ok (gs @ hs) \<longleftrightarrow> glyphs_ok gs \<and> glyphs_ok hs"
  by (auto simp: glyphs_ok_def)

lemma offs_of_append [simp]: "offs_of n (gs @ hs) = offs_of n gs @ offs_of (n + glen gs) hs"
  by (induction n gs rule: offs_of.induct) (simp_all add: add.assoc)

lemma length_offs_of [simp]: "glyphs_ok gs \<Longrightarrow> length (offs_of n gs) = gwidth gs"
  by (induction n gs rule: offs_of.induct) simp_all

lemma length_full [simp]: "glyphs_ok gs \<Longrightarrow> length (full n gs) = Suc (gwidth gs)"
  by (simp add: full_def)

lemma full_append [simp]: "full n (gs @ hs) = offs_of n gs @ full (n + glen gs) hs"
  by (simp add: full_def add.assoc)

lemma full_hd: "full n gs = word_of_nat n # tl (full n gs)"
  by (cases gs) (auto simp: full_def)

subsubsection \<open>Entries\<close>

lemma trailer_of_bit: "trailer_of e \<longleftrightarrow> bit e 15"
  using and_exp_eq_0_iff_not_bit [of e 15] by (simp add: trailer_of_def)

lemma small_entry:
  assumes "n < 0x8000"
  shows "\<not> trailer_of (word_of_nat n)" and "offset_of (word_of_nat n) = n" and "unat (word_of_nat n :: wchar) = n"
proof -
  show u: "unat (word_of_nat n :: wchar) = n" using assms by (simp add: unat_of_nat)
  have "\<not> bit (unat (word_of_nat n :: wchar)) 15" unfolding u using assms by (simp add: bit_iff_odd)
  then show "\<not> trailer_of (word_of_nat n)" by (simp add: trailer_of_bit bit_unsigned_iff)
  have "uint (word_of_nat n :: wchar) < 2 ^ 15" unfolding uint_nat u using assms by simp
  then have "(word_of_nat n :: wchar) AND mask 15 = word_of_nat n" by (simp add: mask_eq_iff)
  then show "offset_of (word_of_nat n) = n" using u by (simp add: offset_of_def mask_eq_exp_minus_1)
qed

lemma trailer_entry:
  assumes "n < 0x8000"
  shows "trailer_of (word_of_nat n OR CharOffsetsTrailer)" and "offset_of (word_of_nat n OR CharOffsetsTrailer) = n"
    and "(word_of_nat n :: wchar) OR CharOffsetsTrailer = word_of_nat (n + 0x8000)"
proof -
  have "(word_of_nat n :: wchar) AND CharOffsetsTrailer = 0"
    using small_entry(1) [OF assms] by (simp add: trailer_of_def)
  then show "(word_of_nat n :: wchar) OR CharOffsetsTrailer = word_of_nat (n + 0x8000)"
    using word_plus_and_or [of "word_of_nat n :: wchar" CharOffsetsTrailer] by simp
  show "trailer_of (word_of_nat n OR CharOffsetsTrailer)"
    using and_exp_eq_0_iff_not_bit [of "CharOffsetsTrailer" 15] by (simp add: trailer_of_bit bit_or_iff)
  have "(CharOffsetsTrailer :: wchar) AND CharOffsetsMask = 0" by simp
  then show "offset_of (word_of_nat n OR CharOffsetsTrailer) = n"
    using small_entry(2) [OF assms] by (simp add: offset_of_def bit.conj_disj_distrib2)
qed

text \<open>The offsets behind a change move with the text.\<close>

lemma shift_offs:
  assumes "n + glen gs < 0x8000" "int m = int n + k" "m + glen gs < 0x8000"
  shows "map (\<lambda>e. e + word_of_int k) (offs_of n gs) = offs_of m gs"
  using assms
proof (induction n gs arbitrary: m rule: offs_of.induct)
  case (2 n t w gs)
  have eq: "(word_of_nat n :: wchar) + word_of_int k = word_of_nat m"
    using 2(3) by (metis of_int_add of_int_of_nat_eq)
  then have "(word_of_nat (n + 0x8000) :: wchar) + word_of_int k = word_of_nat (m + 0x8000)"
    by (simp add: ac_simps)
  moreover have "map (\<lambda>e. e + word_of_int k) (offs_of (n + length t) gs) = offs_of (m + length t) gs"
    using 2 by (intro 2(1)) auto
  ultimately show ?case using 2(2,4) eq by (simp add: trailer_entry(3))
qed simp

lemma shift_full:
  assumes "n + glen gs < 0x8000" "int m = int n + k" "m + glen gs < 0x8000"
  shows "map (\<lambda>e. e + word_of_int k) (full n gs) = full m gs"
proof -
  have "(word_of_nat (n + glen gs) :: wchar) + word_of_int k = word_of_nat (m + glen gs)"
    using assms(2) by (metis (no_types, opaque_lifting) add.assoc add.commute of_int_add of_int_of_nat_eq of_nat_add)
  then show ?thesis using shift_offs [OF assms] by (simp add: full_def)
qed

subsubsection \<open>The glyphs before and after a column\<close>

fun gbefore :: "nat \<Rightarrow> glyph list \<Rightarrow> glyph list" where
  "gbefore c [] = []"
| "gbefore c (g # gs) = (if snd g \<le> c then g # gbefore (c - snd g) gs else [])"

fun gafter :: "nat \<Rightarrow> glyph list \<Rightarrow> glyph list" where
  "gafter c [] = []"
| "gafter c (g # gs) = (if c = 0 then g # gs else gafter (c - snd g) gs)"

lemma gafter_0 [simp]: "gafter 0 gs = gs"
  by (cases gs) simp_all

lemma gsplit:
  assumes "glyphs_ok gs" "c \<le> gwidth gs"
  shows "(gs = gbefore c gs @ gafter c gs \<and> gwidth (gbefore c gs) = c) \<or>
    (\<exists>t. gs = gbefore c gs @ (t, 2) # gafter c gs \<and> t \<noteq> [] \<and> gwidth (gbefore c gs) + 1 = c)"
  using assms
proof (induction c gs rule: gbefore.induct)
  case (2 c g gs)
  consider "snd g \<le> c" | "c = 0" | "c = 1" "snd g = 2" using 2(2) by fastforce
  then show ?case
  proof cases
    case 1
    have "c \<noteq> 0" using 1 2(2) by auto
    from 1 2 have "(gs = gbefore (c - snd g) gs @ gafter (c - snd g) gs \<and> gwidth (gbefore (c - snd g) gs) = c - snd g) \<or>
      (\<exists>t. gs = gbefore (c - snd g) gs @ (t, 2) # gafter (c - snd g) gs \<and> t \<noteq> [] \<and> gwidth (gbefore (c - snd g) gs) + 1 = c - snd g)"
      by (intro 2(1)) auto
    then show ?thesis using 1 \<open>c \<noteq> 0\<close> by auto
  next
    case 2
    then show ?thesis using \<open>glyphs_ok (g # gs)\<close> by simp
  next
    case 3
    then show ?thesis using 2(2) by (cases g) simp
  qed
qed simp

lemma gsplit_cases:
  assumes "glyphs_ok gs" "c \<le> gwidth gs"
  obtains (boundary) "gs = gbefore c gs @ gafter c gs" "gwidth (gbefore c gs) = c"
  | (inside) t where "gs = gbefore c gs @ (t, 2) # gafter c gs" "t \<noteq> []" "gwidth (gbefore c gs) + 1 = c"
  using gsplit [OF assms] by blast

lemma gafter_suffix:
  assumes "glyphs_ok gs" "c \<le> gwidth gs"
  shows "\<exists>P. gs = P @ gafter c gs \<and> c \<le> gwidth P \<and> gwidth P \<le> c + 1"
  using assms
proof (cases rule: gsplit_cases)
  case boundary
  then show ?thesis by (intro exI [of _ "gbefore c gs"]) simp
next
  case (inside t)
  then show ?thesis by (intro exI [of _ "gbefore c gs @ [(t, 2)]"]) simp
qed

lemma glyphs_ok_before [simp]: "glyphs_ok gs \<Longrightarrow> glyphs_ok (gbefore c gs)"
  by (induction c gs rule: gbefore.induct) simp_all

lemma glyphs_ok_after [simp]: "glyphs_ok gs \<Longrightarrow> glyphs_ok (gafter c gs)"
  by (induction c gs rule: gafter.induct) simp_all

lemma gbefore_width: "gwidth (gbefore c gs) \<le> c"
  by (induction c gs rule: gbefore.induct) auto

lemma gbefore_len: "glen (gbefore c gs) \<le> glen gs" "gwidth (gbefore c gs) \<le> gwidth gs"
  by (induction c gs rule: gbefore.induct) auto

lemma gafter_len: "glen (gafter c gs) \<le> glen gs" "gwidth (gafter c gs) \<le> gwidth gs"
  by (induction c gs rule: gafter.induct) auto

lemma gbefore_append [simp]: "glyphs_ok gs \<Longrightarrow> gbefore (gwidth gs) (gs @ hs) = gs @ gbefore 0 hs"
  by (induction gs) simp_all

lemma gbefore_0 [simp]: "glyphs_ok gs \<Longrightarrow> gbefore 0 gs = []"
  by (cases gs) simp_all

lemma gafter_append [simp]: "glyphs_ok gs \<Longrightarrow> gafter (gwidth gs) (gs @ hs) = hs"
  by (induction gs) simp_all

subsection \<open>The searches for the ends of a glyph\<close>

lemma obind_Done [simp]: "obind m Done = m"
  by (cases m) simp_all

lemma adjustForward_eq:
  assumes "c \<le> j" "j < length offs" "\<And>i. c \<le> i \<Longrightarrow> i < j \<Longrightarrow> trailer_of (offs ! i)" "\<not> trailer_of (offs ! j)"
  shows "adjustForward offs c = Done j"
  using assms
proof (induction "j - c" arbitrary: c)
  case 0
  then show ?case by (subst adjustForward.simps) simp
next
  case (Suc n)
  have "adjustForward offs (c + 1) = Done j" using Suc(2-) by (intro Suc(1)) auto
  then show ?case using Suc(2-) by (subst adjustForward.simps) simp
qed

lemma adjustBackward_eq:
  assumes "j \<le> c" "c < length offs" "\<And>i. j < i \<Longrightarrow> i \<le> c \<Longrightarrow> trailer_of (offs ! i)" "\<not> trailer_of (offs ! j)"
  shows "adjustBackward offs c = Done j"
  using assms
proof (induction c)
  case 0
  then show ?case by (subst adjustBackward.simps) (simp add: uncheckedIsTrailer_def peek_def)
next
  case (Suc c)
  show ?case
  proof (cases "j = Suc c")
    case True
    then show ?thesis using Suc(3-) by (subst adjustBackward.simps) (simp add: uncheckedIsTrailer_def peek_def)
  next
    case False
    have "adjustBackward offs c = Done j" using Suc(2-) False by (intro Suc(1)) auto
    then show ?thesis using Suc(2-) False by (subst adjustBackward.simps) (simp add: uncheckedIsTrailer_def peek_def)
  qed
qed

lemma full_boundary: "glyphs_ok A \<Longrightarrow> full n (A @ B) ! gwidth A = word_of_nat (n + glen A)"
  by (subst full_append, subst full_hd) (simp add: nth_append)

lemma full_inside:
  "glyphs_ok A \<Longrightarrow> full n (A @ (t, 2) # B) ! (gwidth A + 1) = word_of_nat (n + glen A) OR CharOffsetsTrailer"
  by (simp add: full_def nth_append)

text \<open>The two searches on a row whose entries behind the column are still those of the glyphs.\<close>

lemma adjustForward_glyphs:
  assumes "glyphs_ok gs" "c \<le> gwidth gs" "glen gs < 0x8000"
    and "length offs = length (full 0 gs)" "drop c offs = drop c (full 0 gs)"
  shows "adjustForward offs c = Done (gwidth gs - gwidth (gafter c gs))"
    and "uncheckedCharOffset offs (gwidth gs - gwidth (gafter c gs)) = Done (glen gs - glen (gafter c gs))"
proof -
  have same: "offs ! i = full 0 gs ! i" if "c \<le> i" "i \<le> gwidth gs" for i
    using arg_cong [OF assms(5), of "\<lambda>xs. xs ! (i - c)"] assms(1,4) that by (simp add: nth_drop)
  obtain P where P: "gs = P @ gafter c gs" "c \<le> gwidth P" "gwidth P \<le> c + 1" using gafter_suffix [OF assms(1,2)] by auto
  have j: "gwidth gs - gwidth (gafter c gs) = gwidth P" "glen gs - glen (gafter c gs) = glen P"
    using arg_cong [OF P(1), of gwidth] arg_cong [OF P(1), of glen] by simp_all
  have ok: "glyphs_ok P" using assms(1) P(1) by (metis glyphs_ok_simps(3))
  have P_le: "glen P < 0x8000" "gwidth P \<le> gwidth gs"
    using arg_cong [OF P(1), of gwidth] arg_cong [OF P(1), of glen] assms(3) by simp_all
  have entry: "offs ! gwidth P = word_of_nat (glen P)"
    using same [OF P(2) P_le(2)] full_boundary [OF ok, of 0 "gafter c gs"] P(1) by simp
  show "uncheckedCharOffset offs (gwidth gs - gwidth (gafter c gs)) = Done (glen gs - glen (gafter c gs))"
    using entry P_le assms(1,4) small_entry(2) by (simp add: j uncheckedCharOffset_def peek_def)
  show "adjustForward offs c = Done (gwidth gs - gwidth (gafter c gs))"
    unfolding j
  proof (rule adjustForward_eq)
    show "trailer_of (offs ! i)" if "c \<le> i" "i < gwidth P" for i
    proof -
      have i: "i = c" "gwidth P = c + 1" using that P(3) by simp_all
      from assms(1,2) show ?thesis
      proof (cases rule: gsplit_cases)
        case boundary
        then have "gwidth P = c" using P(1) by (metis same_append_eq append_same_eq)
        then show ?thesis using i by simp
      next
        case (inside t)
        have "glen (gbefore c gs) < 0x8000" using gbefore_len(1) [of c gs] assms(3) by simp
        then show ?thesis
          using full_inside [of "gbefore c gs" 0 t "gafter c gs"] same [of c] assms(1,2) i inside
          by (simp add: trailer_entry(1))
      qed
    qed
  qed (use P P_le assms entry small_entry(1) in simp_all)
qed

lemma adjustBackward_full:
  assumes "glyphs_ok gs" "c \<le> gwidth gs" "n + glen gs < 0x8000" and same: "c < length offs" "\<And>i. i \<le> c \<Longrightarrow> offs ! i = full n gs ! i"
  shows "adjustBackward offs c = Done (gwidth (gbefore c gs))"
    and "uncheckedCharOffset offs c = Done (n + glen (gbefore c gs))"
    and "uncheckedIsTrailer offs c = Done (gwidth (gbefore c gs) < c)"
proof -
  have len: "n + glen (gbefore c gs) < 0x8000"
    using gbefore_len(1) [of c gs] assms(3) by simp
  note b = full_boundary [OF glyphs_ok_before [OF assms(1)], of n c] and i = full_inside [OF glyphs_ok_before [OF assms(1)], of n c]
  have "adjustBackward offs c = Done (gwidth (gbefore c gs)) \<and> uncheckedCharOffset offs c = Done (n + glen (gbefore c gs))
    \<and> uncheckedIsTrailer offs c = Done (gwidth (gbefore c gs) < c)"
    using assms(1,2)
  proof (cases rule: gsplit_cases)
    case boundary
    then have e: "offs ! c = word_of_nat (n + glen (gbefore c gs))" using b [of "gafter c gs"] same(2) [of c] by simp
    have "adjustBackward offs c = Done c"
      by (rule adjustBackward_eq) (use same e small_entry(1) [OF len] in simp_all)
    then show ?thesis
      using boundary(2) e same(1) small_entry(1,2) [OF len] by (simp add: uncheckedCharOffset_def uncheckedIsTrailer_def peek_def)
  next
    case (inside t)
    have e: "offs ! gwidth (gbefore c gs) = word_of_nat (n + glen (gbefore c gs))"
      using b [of "(t, 2) # gafter c gs"] inside same(2) [of "gwidth (gbefore c gs)"] by simp
    have e': "offs ! c = word_of_nat (n + glen (gbefore c gs)) OR CharOffsetsTrailer"
      using i [of t "gafter c gs"] inside same(2) [of c] by simp
    have "adjustBackward offs c = Done (gwidth (gbefore c gs))"
    proof (rule adjustBackward_eq)
      show "trailer_of (offs ! j)" if "gwidth (gbefore c gs) < j" "j \<le> c" for j
        using that inside(3) e' trailer_entry(1) [OF len] by (metis Suc_eq_plus1 le_antisym less_eq_Suc_le)
    qed (use same inside(3) e small_entry(1) [OF len] in simp_all)
    then show ?thesis
      using inside(3) e' same(1) trailer_entry(1,2) [OF len] by (simp add: uncheckedCharOffset_def uncheckedIsTrailer_def peek_def)
  qed
  then show "adjustBackward offs c = Done (gwidth (gbefore c gs))"
    and "uncheckedCharOffset offs c = Done (n + glen (gbefore c gs))"
    and "uncheckedIsTrailer offs c = Done (gwidth (gbefore c gs) < c)" by auto
qed

lemma adjustBackward_glyphs:
  assumes "glyphs_ok gs" "c \<le> gwidth gs" "glen gs < 0x8000"
  shows "adjustBackward (full 0 gs) c = Done (gwidth (gbefore c gs))"
    and "uncheckedCharOffset (full 0 gs) c = Done (glen (gbefore c gs))"
    and "uncheckedIsTrailer (full 0 gs) c = Done (gwidth (gbefore c gs) < c)"
  using adjustBackward_full [OF assms(1,2), of 0 "full 0 gs"] assms by simp_all

subsection \<open>Finishing a write\<close>

definition over :: "'a list \<Rightarrow> nat \<Rightarrow> 'a list \<Rightarrow> 'a list" where
  "over xs i ys = take i xs @ ys @ drop (i + length ys) xs"

lemma poke_range_over: "i + length ys \<le> length xs \<Longrightarrow> poke_range xs i ys = Done (over xs i ys)"
  by (simp add: poke_range_def over_def)

lemma length_over [simp]: "i + length ys \<le> length xs \<Longrightarrow> length (over xs i ys) = length xs"
  by (simp add: over_def)

lemma over_Nil [simp]: "over xs i [] = xs"
  by (simp add: over_def)

lemma over_middle: "length xs = i \<Longrightarrow> length ys = length vs \<Longrightarrow> over (xs @ ys @ zs) i vs = xs @ vs @ zs"
  by (simp add: over_def)

lemma take_over: "b \<le> i \<Longrightarrow> b \<le> length xs \<Longrightarrow> take b (over xs i ys) = take b xs"
  by (simp add: over_def)

lemma over_end: "i + length ys = length xs \<Longrightarrow> over xs i ys = take i xs @ ys"
  by (simp add: over_def)

lemma over_append: "i + length ys \<le> length xs \<Longrightarrow> over (xs @ zs) i ys = over xs i ys @ zs"
  by (simp add: over_def)

lemma over_three:
  assumes "b + length u + length v + length w \<le> length xs"
  shows "over (over (over xs (b + length u) v) b u) (b + length u + length v) w
    = take b xs @ u @ v @ w @ drop (b + length u + length v + length w) xs"
  using assms by (simp add: over_def take_add ac_simps)

lemma take_append_plus: "take (length xs + k) (xs @ ys) = xs @ take k ys"
  by simp

lemma length_iota [simp]: "length (iota n v) = n"
  by (simp add: iota_def)

lemma sub16_eq: "b \<le> a \<Longrightarrow> a < 65536 \<Longrightarrow> sub16 a b = a - b"
  by (simp add: sub16_def)

lemma narrow16_eq [simp]: "n < 65536 \<Longrightarrow> narrow16 n = n"
  by (simp add: narrow16_def)

lemma resizeChars_flat:
  assumes offs: "row_charOffsets row = P @ Q" "length P = E" "length (P @ Q) = Suc (row_columnCount row)" "Q \<noteq> []"
    and L: "unat (last Q) = L" "old \<le> L" "L \<le> length (row_chars row)" "length (row_chars row) \<le> 65535"
    and b: "b \<le> old" "b \<le> e" "L + e - old \<le> 0x7fff"
  shows "\<exists>chars. resizeChars E b e old row =
      Done (row\<lparr>row_chars := chars, row_charOffsets := P @ map (\<lambda>x. x + word_of_int (int e - int old)) Q\<rparr>)
    \<and> take b chars = take b (row_chars row) \<and> L + e - old \<le> length chars \<and> length chars \<le> 65535
    \<and> take (L - old) (drop e chars) = take (L - old) (drop old (row_chars row))"
proof -
  let ?xs = "row_chars row" and ?N = "L + e - old"
  let ?rest = "take (L - old) (drop old ?xs)"
  have size_entry: "peek (row_charOffsets row) (row_columnCount row) = Done (last Q)"
    using offs by (simp add: peek_def) (metis last_appendR last_conv_nth length_greater_0_conv append_is_Nil_conv diff_Suc_1 length_append)
  have "int L + (int e - int old) = int ?N" using L(2) by simp
  then have N: "nat ((int L + (int e - int old)) mod 2 ^ 64) = ?N" using b(3) by simp
  have rest: "peek_range ?xs old (L - old) = Done ?rest" using L by (simp add: peek_range_def)
  have len: "length ?rest = L - old" using L by simp
  let ?cap = "max ?N (min 65535 (length ?xs + length ?xs div 2))"
  define front where "front = over (replicate ?cap (0 :: wchar)) 0 (take b ?xs)"
  define chars where "chars = (if ?N \<le> length ?xs then over ?xs e ?rest else over front e ?rest)"
  have bound: "e + length ?rest \<le> ?N" using len L(2) by simp
  have cap: "?N \<le> ?cap" "?cap \<le> 65535" "b \<le> ?cap" using b L(2) by (auto simp: le_max_iff_disj)
  have front: "length front = ?cap" "take b front = take b ?xs" using b L cap by (simp_all add: front_def over_def)
  have "resizeChars E b e old row =
      Done (row\<lparr>row_chars := chars, row_charOffsets := P @ map (\<lambda>x. x + word_of_int (int e - int old)) Q\<rparr>)"
  proof (cases "?N \<le> length ?xs")
    case True
    then have "poke_range ?xs e ?rest = Done chars" using bound by (simp add: poke_range_over chars_def)
    then show ?thesis unfolding resizeChars_def size_entry obind.simps Let_def L(1) N rest using True offs by simp
  next
    case False
    have "peek_range ?xs 0 b = Done (take b ?xs)" using b L by (simp add: peek_range_def)
    moreover have "poke_range (replicate ?cap 0) 0 (take b ?xs) = Done front"
      using cap b L by (simp add: poke_range_over front_def)
    moreover have "e + length ?rest \<le> length front" using bound cap(1) front(1) by linarith
    then have "poke_range front e ?rest = Done chars" using False by (simp only: poke_range_over chars_def if_False)
    ultimately show ?thesis unfolding resizeChars_def size_entry obind.simps Let_def L(1) N rest
      using False offs cap(2) by (simp add: not_less)
  qed
  moreover have "take b chars = take b ?xs"
  proof -
    have "b \<le> length ?xs" "b \<le> length front" using b(1) L(2,3) cap(3) front(1) by linarith+
    then show ?thesis using b(2) front(2) by (simp add: chars_def take_over)
  qed
  moreover have "?N \<le> length chars" "length chars \<le> 65535"
  proof -
    have "e + length ?rest \<le> length front" using bound cap(1) front(1) by linarith
    then have "length chars = (if ?N \<le> length ?xs then length ?xs else ?cap)"
      using bound front(1) by (simp add: chars_def del: length_take)
    then show "?N \<le> length chars" "length chars \<le> 65535" using cap(1,2) L(4) by presburger+
  qed
  moreover have "take (L - old) (drop e chars) = ?rest"
  proof -
    have e: "e \<le> length front" "?N \<le> length ?xs \<Longrightarrow> e \<le> length ?xs" using bound cap(1) front(1) by linarith+
    have "take (L - old) (drop e (over ys e ?rest)) = ?rest" if "e \<le> length ys" for ys
      using that len by (simp add: over_def)
    then show ?thesis using e by (simp add: chars_def)
  qed
  ultimately show ?thesis by blast
qed

text \<open>
  What \<open>Finish\<close> does with the two arrays: the entries of the written columns are already there (in \<open>P\<close>), \<open>Q\<close> are the
  entries of the glyphs that stay behind them.
\<close>

lemma Finish_flat:
  assumes offs: "row_charOffsets row = P @ Q" "length P = E" "length (P @ Q) = Suc (row_columnCount row)" "Q \<noteq> []"
    and E: "adjustForward (P @ Q) (wh_colEndDirty h) = Done E" "uncheckedCharOffset (P @ Q) E = Done old"
    and L: "unat (last Q) = L" "old \<le> L" "L \<le> length (row_chars row)" "length (row_chars row) \<le> 65535"
    and h: "wh_colEnd h \<le> E" "E < 65536" "wh_chBeg h = wh_chBegDirty h + wh_leadingSpaces h" "wh_chBegDirty h \<le> old"
      "wh_colBegDirty h + wh_leadingSpaces h \<le> E" "wh_charsConsumed h \<le> length chars"
    and e: "e = wh_chBegDirty h + wh_charsConsumed h + wh_leadingSpaces h + (E - wh_colEnd h)" "L + e - old \<le> 0x7fff"
  shows "\<exists>row'. wh_Finish chars (row, h) = Done (row', h\<lparr>wh_colEndDirty := E\<rparr>)
    \<and> row_charOffsets row' =
        over (over P (wh_colBegDirty h) (iota (wh_leadingSpaces h) (wh_chBegDirty h)))
             (wh_colEnd h) (iota (E - wh_colEnd h) (wh_chBeg h + wh_charsConsumed h))
        @ map (\<lambda>x. x + word_of_int (int e - int old)) Q
    \<and> L + e - old \<le> length (row_chars row') \<and> length (row_chars row') \<le> 65535
    \<and> take (L + e - old) (row_chars row') =
        take (wh_chBegDirty h) (row_chars row) @ replicate (wh_leadingSpaces h) 0x20 @ take (wh_charsConsumed h) chars
        @ replicate (E - wh_colEnd h) 0x20 @ take (L - old) (drop old (row_chars row))
    \<and> row_columnCount row' = row_columnCount row \<and> row_attr row' = row_attr row
    \<and> row_doubleBytePadded row' =
        (if E = row_columnCount row then wh_colEnd h < row_columnCount row else row_doubleBytePadded row)
    \<and> row_lineRendition row' = row_lineRendition row \<and> row_wrapForced row' = row_wrapForced row
    \<and> row_promptData row' = row_promptData row"
proof -
  let ?b = "wh_chBegDirty h" and ?lead = "wh_leadingSpaces h" and ?n = "wh_charsConsumed h" and ?trail = "E - wh_colEnd h"
  define Q' where "Q' = map (\<lambda>x. x + word_of_int (int e - int old)) Q"
  have trail: "sub16 E (wh_colEnd h) = ?trail" using h by (simp add: sub16_eq)
  have be: "?b \<le> e" using e(1) by simp
  obtain cs where cs: "(if e \<noteq> old then resizeChars E ?b e old row else Done row) =
        Done (row\<lparr>row_chars := cs, row_charOffsets := P @ Q'\<rparr>)"
      "take ?b cs = take ?b (row_chars row)" "L + e - old \<le> length cs" "length cs \<le> 65535"
      "take (L - old) (drop e cs) = take (L - old) (drop old (row_chars row))"
  proof (cases "e = old")
    case True
    then have "row\<lparr>row_chars := row_chars row, row_charOffsets := P @ Q'\<rparr> = row" using offs(1) by (simp add: Q'_def)
    then show ?thesis using True L that [of "row_chars row"] by simp
  next
    case False
    then show ?thesis using resizeChars_flat [OF offs L h(4) be e(2)] that unfolding Q'_def by auto
  qed
  let ?u = "replicate ?lead (0x20 :: wchar)" and ?v = "take ?n chars" and ?w = "replicate ?trail (0x20 :: wchar)"
  have e': "e = ?b + length ?u + length ?v + length ?w" using e(1) h(6) by simp
  have e_le: "e \<le> length cs" using cs(3) L(2) by simp
  have lens: "?b + length ?u + length ?v + length ?w \<le> length cs" using e' e_le by simp
  define c1 where "c1 = over cs (?b + length ?u) ?v"
  define c2 where "c2 = over c1 ?b ?u"
  define c3 where "c3 = over c2 (?b + length ?u + length ?v) ?w"
  have l1: "length c1 = length cs" "length c2 = length cs" "length c3 = length cs"
    using lens by (simp_all add: c1_def c2_def c3_def)
  have pokes: "poke_range cs (wh_chBeg h) ?v = Done c1" "poke_range c1 ?b ?u = Done c2"
      "poke_range c2 (wh_chBeg h + ?n) ?w = Done c3"
    using lens l1 h(3,6) by (simp_all add: poke_range_over c1_def c2_def c3_def)
  have c3: "c3 = take ?b cs @ ?u @ ?v @ ?w @ drop e cs"
    unfolding c3_def c2_def c1_def e' by (rule over_three [OF lens])
  define o1 where "o1 = over (P @ Q') (wh_colBegDirty h) (iota ?lead ?b)"
  define o2 where "o2 = over o1 (wh_colEnd h) (iota ?trail (wh_chBeg h + ?n))"
  have opokes: "poke_range (P @ Q') (wh_colBegDirty h) (iota ?lead ?b) = Done o1"
      "poke_range o1 (wh_colEnd h) (iota ?trail (wh_chBeg h + ?n)) = Done o2"
    using h offs(2) by (simp_all add: poke_range_over o1_def o2_def)
  have o2: "o2 = over (over P (wh_colBegDirty h) (iota ?lead ?b)) (wh_colEnd h) (iota ?trail (wh_chBeg h + ?n)) @ Q'"
    using h offs(2) by (simp add: o1_def o2_def over_append)
  define row' where "row' = (let r = row\<lparr>row_chars := c3, row_charOffsets := o2\<rparr>
    in if E = row_columnCount r then SetDoubleBytePadded (wh_colEnd h < row_columnCount r) r else r)"
  have "wh_Finish chars (row, h) = Done (row', h\<lparr>wh_colEndDirty := E\<rparr>)"
    unfolding wh_Finish_def Let_def fst_conv snd_conv offs(1) E obind.simps trail e(1) [symmetric] cs(1)
    using pokes opokes by (simp add: row'_def Let_def)
  moreover have "take (L + e - old) c3 = take ?b (row_chars row) @ ?u @ ?v @ ?w @ take (L - old) (drop old (row_chars row))"
  proof -
    let ?X = "take ?b cs @ ?u @ ?v @ ?w"
    have "length ?X = e" using lens e' by simp
    moreover have "L + e - old = e + (L - old)" using L(2) by simp
    ultimately have "take (L + e - old) (?X @ drop e cs) = ?X @ take (L - old) (drop e cs)" by (metis take_append_plus)
    then show ?thesis using cs(2,5) by (simp add: c3)
  qed
  moreover have "row_chars row' = c3" "row_charOffsets row' = o2" "row_columnCount row' = row_columnCount row" "row_attr row' = row_attr row"
    "row_doubleBytePadded row' = (if E = row_columnCount row then wh_colEnd h < row_columnCount row else row_doubleBytePadded row)"
    "row_lineRendition row' = row_lineRendition row" "row_wrapForced row' = row_wrapForced row"
    "row_promptData row' = row_promptData row"
    by (simp_all add: row'_def Let_def SetDoubleBytePadded_def)
  ultimately show ?thesis using o2 cs(3,4) l1 unfolding Q'_def by auto
qed

subsubsection \<open>Glyphs in place of others\<close>

definition spaces :: "nat \<Rightarrow> glyph list" where
  "spaces n = replicate n ([0x20], 1)"

text \<open>
  The glyphs of a row whose first columns now hold \<open>hs\<close>, while the glyphs from the column \<open>e\<close> on stay; the rest of a glyph
  that was cut at \<open>e\<close>, and the columns up to \<open>e\<close> that \<open>hs\<close> does not reach, are spaces.
\<close>

definition place :: "glyph list \<Rightarrow> nat \<Rightarrow> glyph list \<Rightarrow> glyph list" where
  "place hs e gs = hs @ spaces (gwidth gs - gwidth (gafter e gs) - gwidth hs) @ gafter e gs"

lemma spaces_simps [simp]:
  "gtext (spaces n) = replicate n 0x20" "gwidth (spaces n) = n" "glyphs_ok (spaces n)" "spaces 0 = []"
  by (induction n) (simp_all add: spaces_def replicate_append_same)

lemma offs_of_spaces [simp]: "offs_of m (spaces n) = iota n m"
proof (induction n arbitrary: m)
  case (Suc n)
  then show ?case by (simp add: spaces_def iota_def upt_conv_Cons del: upt_Suc)
qed (simp add: iota_def)

lemma gbefore_prefix: "glyphs_ok (P @ Q) \<Longrightarrow> c \<le> gwidth P \<Longrightarrow> gbefore c (P @ Q) = gbefore c P"
  by (induction P arbitrary: c) (auto simp: le_diff_conv2)

lemma gafter_end:
  assumes "glyphs_ok gs" "e \<le> gwidth gs"
  defines "E \<equiv> gwidth gs - gwidth (gafter e gs)"
  shows "e \<le> E" and "E \<le> gwidth gs" and "c \<le> E \<Longrightarrow> glen (gbefore c gs) + glen (gafter e gs) \<le> glen gs"
    and "full 0 gs = take E (full 0 gs) @ full (glen gs - glen (gafter e gs)) (gafter e gs)"
proof -
  obtain P where P: "gs = P @ gafter e gs" "e \<le> gwidth P" using gafter_suffix [OF assms(1,2)] by auto
  have E: "E = gwidth P" "glen gs = glen P + glen (gafter e gs)" "gwidth gs = gwidth P + gwidth (gafter e gs)"
    using arg_cong [OF P(1), of gwidth] arg_cong [OF P(1), of glen] by (simp_all add: E_def)
  show "e \<le> E" "E \<le> gwidth gs" using P(2) E by simp_all
  have ok: "glyphs_ok (P @ gafter e gs)" using assms(1) P(1) by simp
  show "glen (gbefore c gs) + glen (gafter e gs) \<le> glen gs" if "c \<le> E"
    using gbefore_prefix [OF ok, of c] that E P(1) gbefore_len(1) [of c P] by simp
  have "full 0 (P @ gafter e gs) = take (gwidth P) (full 0 (P @ gafter e gs)) @ full (glen P) (gafter e gs)"
    using ok by simp
  then show "full 0 gs = take E (full 0 gs) @ full (glen gs - glen (gafter e gs)) (gafter e gs)"
    using E P(1) by simp
qed

lemma last_full [simp]: "last (full n gs) = word_of_nat (n + glen gs)"
  by (simp add: full_def)

lemma full_not_Nil [simp]: "full n gs \<noteq> []"
  by (simp add: full_def)

lemma drop_eq_mono: "drop e xs = drop e ys \<Longrightarrow> e \<le> k \<Longrightarrow> drop k xs = drop k ys"
  by (metis drop_drop le_add_diff_inverse2)

text \<open>
  \<open>Finish\<close> on a row whose columns in front of \<open>colEnd\<close> have the entries of the glyphs \<open>hs\<close>, but for the leading spaces,
  and whose columns behind \<open>colEndDirty\<close> still have those of the old glyphs \<open>gs\<close>.
\<close>

lemma Finish_place:
  fixes h :: WriteHelper
  assumes gs: "glyphs_ok gs" "gwidth gs = row_columnCount row" "row_columnCount row \<le> 0x7fff" "glen gs \<le> 0x7fff"
      "glen gs \<le> length (row_chars row)" "length (row_chars row) \<le> 0xffff" "take (glen gs) (row_chars row) = gtext gs"
    and offs: "length (row_charOffsets row) = Suc (row_columnCount row)"
      "drop (wh_colEndDirty h) (row_charOffsets row) = drop (wh_colEndDirty h) (full 0 gs)"
      "take (wh_colEnd h) (over (row_charOffsets row) (wh_colBegDirty h) (iota (wh_leadingSpaces h) (wh_chBegDirty h))) = offs_of 0 hs"
    and h: "wh_colEnd h \<le> wh_colEndDirty h" "wh_colEndDirty h \<le> row_columnCount row"
      "wh_colBegDirty h + wh_leadingSpaces h \<le> wh_colEnd h" "wh_chBeg h = wh_chBegDirty h + wh_leadingSpaces h"
      "wh_chBegDirty h + glen (gafter (wh_colEndDirty h) gs) \<le> glen gs" "wh_charsConsumed h \<le> length chars"
    and hs: "glyphs_ok hs" "gwidth hs = wh_colEnd h"
      "gtext hs = take (wh_chBegDirty h) (gtext gs) @ replicate (wh_leadingSpaces h) 0x20 @ take (wh_charsConsumed h) chars"
    and fits: "glen (place hs (wh_colEndDirty h) gs) \<le> 0x7fff"
  shows "\<exists>row'. wh_Finish chars (row, h) =
        Done (row', h\<lparr>wh_colEndDirty := gwidth gs - gwidth (gafter (wh_colEndDirty h) gs)\<rparr>)
    \<and> row_repr row' (place hs (wh_colEndDirty h) gs)
    \<and> row_columnCount row' = row_columnCount row \<and> row_attr row' = row_attr row
    \<and> row_doubleBytePadded row' =
        (if gafter (wh_colEndDirty h) gs = [] then wh_colEnd h < row_columnCount row else row_doubleBytePadded row)
    \<and> row_lineRendition row' = row_lineRendition row \<and> row_wrapForced row' = row_wrapForced row
    \<and> row_promptData row' = row_promptData row"
proof -
  let ?e = "wh_colEndDirty h" let ?C = "gafter ?e gs"
  define E where "E = gwidth gs - gwidth ?C"
  define old where "old = glen gs - glen ?C"
  define P where "P = take E (row_charOffsets row)"
  let ?Q = "full old ?C" and ?trail = "E - wh_colEnd h"
  have e: "?e \<le> gwidth gs" using h(2) gs(2) by simp
  note ends = gafter_end [OF gs(1) e, folded E_def old_def]
  have len: "length (row_charOffsets row) = length (full 0 gs)" using offs(1) gs(1,2) by simp
  have Q: "drop E (row_charOffsets row) = ?Q"
    using drop_eq_mono [OF offs(2) ends(1)] ends(2,4) gs(1) by (metis append_eq_conv_conj length_full length_take less_Suc_eq_le min.absorb4)
  have row: "row_charOffsets row = P @ ?Q" using Q by (metis P_def append_take_drop_id)
  have lenP: "length P = E" using ends(2) offs(1) gs(2) by (simp add: P_def)
  have oldC: "old + glen ?C = glen gs" using gafter_len(1) [of ?e gs] by (simp add: old_def)
  have Q_last: "unat (last ?Q) = glen gs" using oldC gs(4) small_entry(3) [of "glen gs"] by simp
  note adj = adjustForward_glyphs [OF gs(1) e _ len offs(2), folded E_def old_def, unfolded row]
  define e' where "e' = wh_chBegDirty h + wh_charsConsumed h + wh_leadingSpaces h + ?trail"
  have hs_len: "glen hs + ?trail = e'"
    using arg_cong [OF hs(3), of length] h(5,6) gafter_len(1) [of ?e gs] by (simp add: e'_def)
  have total: "glen (place hs ?e gs) = glen gs + e' - old"
    using hs_len hs(2) oldC by (simp add: place_def E_def)
  obtain row' where fin: "wh_Finish chars (row, h) = Done (row', h\<lparr>wh_colEndDirty := E\<rparr>)"
      "row_charOffsets row' = over (over P (wh_colBegDirty h) (iota (wh_leadingSpaces h) (wh_chBegDirty h)))
             (wh_colEnd h) (iota ?trail (wh_chBeg h + wh_charsConsumed h)) @ map (\<lambda>x. x + word_of_int (int e' - int old)) ?Q"
      "glen gs + e' - old \<le> length (row_chars row')" "length (row_chars row') \<le> 65535"
      "take (glen gs + e' - old) (row_chars row') =
        take (wh_chBegDirty h) (row_chars row) @ replicate (wh_leadingSpaces h) 0x20 @ take (wh_charsConsumed h) chars
        @ replicate ?trail 0x20 @ take (glen gs - old) (drop old (row_chars row))"
      "row_columnCount row' = row_columnCount row" "row_attr row' = row_attr row"
      "row_doubleBytePadded row' = (if E = row_columnCount row then wh_colEnd h < row_columnCount row else row_doubleBytePadded row)"
      "row_lineRendition row' = row_lineRendition row" "row_wrapForced row' = row_wrapForced row"
      "row_promptData row' = row_promptData row"
    using Finish_flat [OF row lenP _ _ adj Q_last _ gs(5), of chars e'] gs h ends lenP row offs(1) oldC total fits
    by (auto simp: e'_def)
  have "row_charOffsets row' = full 0 (place hs ?e gs)"
  proof -
    define P1 where "P1 = over P (wh_colBegDirty h) (iota (wh_leadingSpaces h) (wh_chBegDirty h))"
    have P1: "take (wh_colEnd h) P1 = offs_of 0 hs" "length P1 = E"
      using offs(3) h(1,3) ends(1) lenP unfolding row P1_def by (simp_all add: over_append)
    have "wh_chBeg h + wh_charsConsumed h = glen hs" using hs_len h(4) by (simp add: e'_def)
    then have "over P1 (wh_colEnd h) (iota ?trail (wh_chBeg h + wh_charsConsumed h)) = offs_of 0 hs @ iota ?trail (glen hs)"
      using h(1) ends(1) P1 by (simp add: over_end)
    moreover have "map (\<lambda>x. x + word_of_int (int e' - int old)) ?Q = full e' ?C"
      using oldC total fits gs(4) by (intro shift_full) simp_all
    ultimately show ?thesis using fin(2) hs_len hs(2) by (simp add: place_def E_def P1_def)
  qed
  moreover have "take (glen (place hs ?e gs)) (row_chars row') = gtext (place hs ?e gs)"
  proof -
    have "take (wh_chBegDirty h) (row_chars row) = take (wh_chBegDirty h) (gtext gs)"
      using gs(7) h(5) by (metis add_leD1 min.absorb1 take_take)
    moreover have "take (glen gs - old) (drop old (row_chars row)) = drop old (gtext gs)"
      using gs(7) by (metis drop_take)
    moreover have "drop old (gtext gs) = gtext ?C"
      using gafter_suffix [OF gs(1) e] oldC by (metis add_diff_cancel_right' append_eq_conv_conj gtext_simps(3) length_append)
    ultimately show ?thesis using fin(5) total hs(2,3) by (simp add: place_def E_def)
  qed
  moreover have "E = row_columnCount row \<longleftrightarrow> ?C = []"
  proof -
    have "gwidth gs - gwidth ?C = gwidth gs \<longleftrightarrow> gwidth ?C = 0" using gafter_len(2) [of ?e gs] by auto
    moreover have "gwidth ?C = 0 \<longleftrightarrow> ?C = []" using glyphs_ok_after [OF gs(1), of ?e] by (cases ?C) auto
    ultimately show ?thesis using gs(2) by (simp add: E_def)
  qed
  moreover have "gwidth (place hs ?e gs) = row_columnCount row"
    using hs(2) h(1) ends(1,2) gs(2) gafter_len(2) [of ?e gs] by (simp add: place_def E_def)
  moreover have "glyphs_ok (place hs ?e gs)" using hs(1) gs(1) by (simp add: place_def)
  ultimately show ?thesis using fin total fits gs(3) by (intro exI [of _ row']) (simp add: row_repr_def E_def)
qed

subsection \<open>Writing\<close>

text \<open>A row that differs from another in its text and in \<open>_doubleBytePadded\<close> only.\<close>

definition text_update :: "ROW \<Rightarrow> ROW \<Rightarrow> bool \<Rightarrow> bool" where
  "text_update row row' padded \<longleftrightarrow>
     row' = row\<lparr>row_chars := row_chars row', row_charOffsets := row_charOffsets row', row_doubleBytePadded := padded\<rparr>"

lemma clampedColumnInclusive_le: "cc \<le> 0x7fff \<Longrightarrow> clampedColumnInclusive cc v \<le> cc"
  by (auto simp: clampedColumnInclusive_def clamp_def)

lemma clampedColumnInclusive_eq: "cc \<le> 0x7fff \<Longrightarrow> c \<le> cc \<Longrightarrow> clampedColumnInclusive cc (int c) = c"
  by (auto simp: clampedColumnInclusive_def clamp_def)

lemma clampedColumn_less: "0 < cc \<Longrightarrow> cc \<le> 0x7fff \<Longrightarrow> clampedColumn cc v < cc"
  by (auto simp: clampedColumn_def clamp_def)

lemma clampedColumn_eq: "cc \<le> 0x7fff \<Longrightarrow> c < cc \<Longrightarrow> clampedColumn cc (int c) = c"
  by (auto simp: clampedColumn_def clamp_def)

definition start_helper :: "glyph list \<Rightarrow> nat \<Rightarrow> nat \<Rightarrow> WriteHelper" where
  "start_helper gs c l =
     (let A = gbefore c gs
      in \<lparr>wh_colBeg = c, wh_colLimit = l, wh_colEnd = c, wh_colBegDirty = gwidth A, wh_colEndDirty = 0,
          wh_chBeg = glen A + (c - gwidth A), wh_chBegDirty = glen A, wh_leadingSpaces = c - gwidth A, wh_charsConsumed = 0\<rparr>)"

lemma gbefore_lead: "glyphs_ok gs \<Longrightarrow> c \<le> gwidth gs \<Longrightarrow> c - gwidth (gbefore c gs) \<le> 1"
  using gsplit [of gs c] by auto

lemma WriteHelper_new_glyphs:
  assumes "row_repr row gs" "clampedColumnInclusive (row_columnCount row) columnBegin = c"
    "clampedColumnInclusive (row_columnCount row) columnLimit = l"
  shows "WriteHelper_new row columnBegin columnLimit = Done (start_helper gs c l)"
proof -
  have gs: "glyphs_ok gs" "glen gs < 0x8000" "row_charOffsets row = full 0 gs" using assms(1) by (auto simp: row_repr_def)
  have c: "c \<le> gwidth gs" "c < 65536"
    using assms(1,2) clampedColumnInclusive_le [of "row_columnCount row" columnBegin] by (auto simp: row_repr_def)
  note before = adjustBackward_glyphs [OF gs(1) c(1) gs(2)]
  have "glen (gbefore c gs) + (c - gwidth (gbefore c gs)) < 65536"
    using gbefore_len(1) [of c gs] gbefore_lead [OF gs(1) c(1)] gs(2) by simp
  then show ?thesis
    using assms(2,3) before gs(3) gbefore_width [of c gs] c(2)
    by (simp add: WriteHelper_new_def start_helper_def Let_def sub16_eq)
qed

lemma put_trailers_over:
  assumes "c \<le> c'" "c' \<le> length offs"
  shows "put_trailers offs c c' ch = Done (over offs c (replicate (c' - c) (word_of_nat ch OR CharOffsetsTrailer)))"
  using assms
proof (induction "c' - c" arbitrary: offs c)
  case 0
  then show ?case by (subst put_trailers.simps) simp
next
  case (Suc n)
  let ?t = "word_of_nat ch OR CharOffsetsTrailer :: wchar"
  have step: "poke offs c ?t = Done (offs[c := ?t])" using Suc(2,4) by (simp add: poke_def)
  have "put_trailers (offs[c := ?t]) (c + 1) c' ch = Done (over (offs[c := ?t]) (c + 1) (replicate (c' - (c + 1)) ?t))"
    using Suc(2-) by (intro Suc(1)) auto
  moreover have "over (offs[c := ?t]) (c + 1) (replicate (c' - (c + 1)) ?t) = over offs c (replicate (c' - c) ?t)"
    using Suc(2,4) by (simp add: over_def take_Suc_conv_app_nth Suc_diff_Suc replicate_app_Cons_same flip: replicate_Suc)
  ultimately show ?case using Suc(2) step by (subst put_trailers.simps) simp
qed

lemma put_glyph_over:
  assumes "c < c'" "c' \<le> length offs"
  shows "put_glyph offs c c' ch = Done (over offs c (offs_of ch [(t, c' - c)]))"
proof -
  have "poke offs c (word_of_nat ch) = Done (offs[c := word_of_nat ch])" using assms by (simp add: poke_def)
  then show ?thesis
    using assms by (simp add: put_glyph_def put_trailers_over) (simp add: over_def take_Suc_conv_app_nth)
qed

lemma over_extend:
  "c + length u + length v \<le> length xs \<Longrightarrow> over (over xs c u) (c + length u) v = over xs c (u @ v)"
  by (simp add: over_def ac_simps)

lemma drop_over: "c + length u \<le> e \<Longrightarrow> e \<le> length xs \<Longrightarrow> drop e (over xs c u) = drop e xs"
  by (simp add: over_def)

lemma take_gbefore_full:
  assumes "glyphs_ok gs" "c \<le> gwidth gs"
  shows "take (gwidth (gbefore c gs)) (full 0 gs) = offs_of 0 (gbefore c gs)"
    and "take (glen (gbefore c gs)) (gtext gs) = gtext (gbefore c gs)"
proof -
  obtain R where R: "gs = gbefore c gs @ R" using gsplit [OF assms] by blast
  have "take (gwidth (gbefore c gs)) (full 0 (gbefore c gs @ R)) = offs_of 0 (gbefore c gs)" using assms(1) by simp
  then show "take (gwidth (gbefore c gs)) (full 0 gs) = offs_of 0 (gbefore c gs)" using R by simp
  have "take (glen (gbefore c gs)) (gtext (gbefore c gs @ R)) = gtext (gbefore c gs)" by simp
  then show "take (glen (gbefore c gs)) (gtext gs) = gtext (gbefore c gs)" using R by simp
qed

text \<open>\<open>Finish\<close> after glyphs were written behind the column \<open>c\<close>.\<close>

lemma Finish_after:
  fixes l :: nat
  assumes repr: "row_repr row gs" and c: "c + gwidth new \<le> e" "e \<le> row_columnCount row"
    and new: "glyphs_ok new" "gtext new = take (glen new) chars"
    and fits: "glen (place (gbefore c gs @ spaces (c - gwidth (gbefore c gs)) @ new) e gs) \<le> 0x7fff"
  defines "h \<equiv> (start_helper gs c l)\<lparr>wh_colEnd := c + gwidth new, wh_colEndDirty := e, wh_charsConsumed := glen new\<rparr>"
    and "hs \<equiv> gbefore c gs @ spaces (c - gwidth (gbefore c gs)) @ new"
  shows "\<exists>row'. wh_Finish chars (row\<lparr>row_charOffsets := over (full 0 gs) c (offs_of (wh_chBeg (start_helper gs c l)) new)\<rparr>, h) =
        Done (row', h\<lparr>wh_colEndDirty := gwidth gs - gwidth (gafter e gs)\<rparr>)
    \<and> row_repr row' (place hs e gs)
    \<and> text_update row row' (if gafter e gs = [] then c + gwidth new < row_columnCount row else row_doubleBytePadded row)"
proof -
  let ?A = "gbefore c gs" and ?row = "row\<lparr>row_charOffsets := over (full 0 gs) c (offs_of (wh_chBeg (start_helper gs c l)) new)\<rparr>"
  have gs: "glyphs_ok gs" "gwidth gs = row_columnCount ?row" "row_columnCount ?row \<le> 0x7fff" "glen gs \<le> 0x7fff"
      "glen gs \<le> length (row_chars ?row)" "length (row_chars ?row) \<le> 0xffff" "take (glen gs) (row_chars ?row) = gtext gs"
    using repr by (auto simp: row_repr_def)
  have c': "c \<le> gwidth gs" "e \<le> gwidth gs" using c gs(2) by simp_all
  have h: "wh_colEnd h = c + gwidth new" "wh_colEndDirty h = e" "wh_charsConsumed h = glen new" "wh_colBegDirty h = gwidth ?A"
      "wh_chBeg h = glen ?A + (c - gwidth ?A)" "wh_chBegDirty h = glen ?A" "wh_leadingSpaces h = c - gwidth ?A"
    by (simp_all add: h_def start_helper_def Let_def)
  have lead: "gwidth ?A + (c - gwidth ?A) = c" using gbefore_width [of c gs] by simp
  have chBeg: "wh_chBeg (start_helper gs c l) = glen ?A + (c - gwidth ?A)" by (simp add: start_helper_def Let_def)
  have A_le: "glen ?A + glen (gafter e gs) \<le> glen gs"
    using gafter_end(3) [OF gs(1) c'(2), of c] gafter_end(1) [OF gs(1) c'(2)] c(1) by simp
  have n: "glen new \<le> length chars" using arg_cong [OF new(2), of length] by simp
  have take_final: "take (c + gwidth new)
      (over (over (full 0 gs) c (offs_of (glen ?A + (c - gwidth ?A)) new)) (gwidth ?A) (iota (c - gwidth ?A) (glen ?A))) = offs_of 0 hs"
  proof -
    have "over (over (full 0 gs) c (offs_of (glen ?A + (c - gwidth ?A)) new)) (gwidth ?A) (iota (c - gwidth ?A) (glen ?A))
      = take (gwidth ?A) (full 0 gs) @ iota (c - gwidth ?A) (glen ?A) @ offs_of (glen ?A + (c - gwidth ?A)) new
        @ drop (c + gwidth new) (full 0 gs)"
      using lead c c' gs(1) new(1) by (simp add: over_def)
    then show ?thesis
      using lead c' gs(1) new(1) take_gbefore_full(1) [OF gs(1) c'(1)] by (simp add: hs_def)
  qed
  have "\<exists>row'. wh_Finish chars (?row, h) = Done (row', h\<lparr>wh_colEndDirty := gwidth gs - gwidth (gafter (wh_colEndDirty h) gs)\<rparr>)
    \<and> row_repr row' (place hs (wh_colEndDirty h) gs)
    \<and> row_columnCount row' = row_columnCount ?row \<and> row_attr row' = row_attr ?row
    \<and> row_doubleBytePadded row' =
        (if gafter (wh_colEndDirty h) gs = [] then wh_colEnd h < row_columnCount ?row else row_doubleBytePadded ?row)
    \<and> row_lineRendition row' = row_lineRendition ?row \<and> row_wrapForced row' = row_wrapForced ?row
    \<and> row_promptData row' = row_promptData ?row"
    using gs c c' lead A_le n new fits take_final take_gbefore_full(2) [OF gs(1) c'(1)] gbefore_width [of c gs]
    by (intro Finish_place [OF gs]) (simp_all add: h chBeg drop_over hs_def)
  then show ?thesis unfolding h by (auto simp: text_update_def)
qed

subsubsection \<open>One glyph\<close>

text \<open>Glyphs written from the column \<open>c\<close> on; the front half of a glyph that is cut there becomes a space.\<close>

definition front :: "nat \<Rightarrow> glyph list \<Rightarrow> glyph list" where
  "front c gs = gbefore c gs @ spaces (c - gwidth (gbefore c gs))"

lemma front_props [simp]: "gwidth (front c gs) = c" "glyphs_ok gs \<Longrightarrow> glyphs_ok (front c gs)"
  using gbefore_width [of c gs] by (simp_all add: front_def)

lemma ReplaceCharacters_glyphs:
  assumes repr: "row_repr row gs" and c: "c < row_columnCount row" and w: "1 \<le> w" "w \<le> 2" and chars: "chars \<noteq> []"
  defines "new \<equiv> (if c + w \<le> row_columnCount row then [(chars, w)] else [])"
    and "e \<equiv> (if c + w \<le> row_columnCount row then c + w else row_columnCount row)"
  assumes fits: "glen (place (front c gs @ new) e gs) \<le> 0x7fff"
  shows "\<exists>row'. ReplaceCharacters (int c) w chars row = Done (row', Some ()) \<and> row_repr row' (place (front c gs @ new) e gs)
    \<and> text_update row row' (if gafter e gs = [] then c + gwidth new < row_columnCount row else row_doubleBytePadded row)"
proof -
  let ?cc = "row_columnCount row" let ?h = "start_helper gs c ?cc"
  have gs: "glyphs_ok gs" "gwidth gs = ?cc" "?cc \<le> 0x7fff" "row_charOffsets row = full 0 gs" using repr by (auto simp: row_repr_def)
  have new: "WriteHelper_new row (int c) (int ?cc) = Done ?h"
    using c gs(3) by (intro WriteHelper_new_glyphs [OF repr]) (simp_all add: clampedColumnInclusive_eq)
  have h: "wh_colBeg ?h = c" "wh_colLimit ?h = ?cc" "wh_colEnd ?h = c" by (simp_all add: start_helper_def Let_def)
  have narrow: "narrow16 (c + w) = c + w" using c w gs(3) by simp
  have put: "put_glyph (full 0 gs) c (c + w) (wh_chBeg ?h) = Done (over (full 0 gs) c (offs_of (wh_chBeg ?h) [(chars, w)]))"
    if "c + w \<le> ?cc" using that w gs(1,2) put_glyph_over [of c "c + w" "full 0 gs" "wh_chBeg ?h" chars] by simp
  have noop: "?h\<lparr>wh_colEndDirty := x\<rparr> = ?h\<lparr>wh_colEnd := c, wh_colEndDirty := x, wh_charsConsumed := 0\<rparr>" for x
    by (simp add: start_helper_def Let_def)
  have "row\<lparr>row_charOffsets := full 0 gs\<rparr> = row" using gs(4) by simp
  then have step: "wh_ReplaceCharacters w chars (row, ?h) =
      Done (row\<lparr>row_charOffsets := over (full 0 gs) c (offs_of (wh_chBeg ?h) new)\<rparr>,
            ?h\<lparr>wh_colEnd := c + gwidth new, wh_colEndDirty := e, wh_charsConsumed := glen new\<rparr>)"
    using w narrow put noop by (auto simp: wh_ReplaceCharacters_def Let_def h gs(4) new_def e_def max_def)
  have "glen (place (gbefore c gs @ spaces (c - gwidth (gbefore c gs)) @ new) e gs) \<le> 0x7fff"
    using fits by (simp add: front_def)
  moreover have "c + gwidth new \<le> e" "e \<le> ?cc" "glyphs_ok new" "gtext new = take (glen new) chars"
    using c w chars by (simp_all add: new_def e_def)
  ultimately obtain row' where fin: "wh_Finish chars (row\<lparr>row_charOffsets := over (full 0 gs) c (offs_of (wh_chBeg ?h) new)\<rparr>,
        ?h\<lparr>wh_colEnd := c + gwidth new, wh_colEndDirty := e, wh_charsConsumed := glen new\<rparr>) =
        Done (row', ?h\<lparr>wh_colEnd := c + gwidth new, wh_colEndDirty := e, wh_charsConsumed := glen new\<rparr>
          \<lparr>wh_colEndDirty := gwidth gs - gwidth (gafter e gs)\<rparr>)"
      "row_repr row' (place (front c gs @ new) e gs)"
      "text_update row row' (if gafter e gs = [] then c + gwidth new < ?cc else row_doubleBytePadded row)"
    using Finish_after [OF repr, of c new e chars ?cc] by (auto simp: front_def)
  have "ReplaceCharacters (int c) w chars row = Done (row', Some ())"
    using new step fin(1) h c chars by (simp add: ReplaceCharacters_def wh_IsValid_def on_exception_def)
  then show ?thesis using fin(2,3) by blast
qed

subsubsection \<open>Text\<close>

definition singles :: "wstring \<Rightarrow> glyph list" where
  "singles = map (\<lambda>x. ([x], 1))"

fun fit :: "nat \<Rightarrow> glyph list \<Rightarrow> glyph list" where
  "fit room [] = []"
| "fit room (g # gs) = (if snd g \<le> room then g # fit (room - snd g) gs else [])"

fun cluster_glyphs :: "wstring \<Rightarrow> (nat \<times> int) list \<Rightarrow> glyph list" where
  "cluster_glyphs str [] = []"
| "cluster_glyphs str ((n, w) # cls) = (take n str, nat (max 1 w)) # cluster_glyphs (drop n str) cls"

lemma singles_simps [simp]:
  "gtext (singles cs) = cs" "gwidth (singles cs) = length cs" "glyphs_ok (singles cs)" "singles (cs @ ds) = singles cs @ singles ds"
  "singles [] = []"
  by (induction cs) (simp_all add: singles_def)

lemma fit_props:
  "gwidth (fit room gs) \<le> room" "glyphs_ok gs \<Longrightarrow> glyphs_ok (fit room gs)" "gtext (fit room gs) = take (glen (fit room gs)) (gtext gs)"
  by (induction room gs rule: fit.induct) auto

lemma ascii_loop:
  assumes "c + gwidth new + length cs \<le> length xs" "glyphs_ok new"
  defines "k \<equiv> length (takeWhile (\<lambda>x. x < 0x80) cs)"
  shows "replaceText_ascii (over xs c (offs_of ch0 new)) (c + gwidth new) (ch0 + glen new) cs =
    Done (over xs c (offs_of ch0 (new @ singles (take k cs))), c + gwidth new + k, ch0 + glen new + k, k < length cs)"
  using assms(1,2) unfolding k_def
proof (induction cs arbitrary: new)
  case (Cons x cs)
  show ?case
  proof (cases "x < 0x80")
    case True
    let ?xs = "over xs c (offs_of ch0 new)" and ?new = "new @ [([x], 1)]"
    have "poke ?xs (c + gwidth new) (word_of_nat (ch0 + glen new)) = Done (over xs c (offs_of ch0 ?new))"
    proof -
      have "?xs[c + gwidth new := word_of_nat (ch0 + glen new)] = over ?xs (c + length (offs_of ch0 new)) [word_of_nat (ch0 + glen new)]"
        using Cons(2,3) by (simp add: over_def upd_conv_take_nth_drop)
      also have "\<dots> = over xs c (offs_of ch0 ?new)" using Cons(2,3) over_extend [of c "offs_of ch0 new" "[word_of_nat (ch0 + glen new)]" xs] by simp
      finally show ?thesis using Cons(2,3) by (simp add: poke_def)
    qed
    moreover have "replaceText_ascii (over xs c (offs_of ch0 ?new)) (c + gwidth ?new) (ch0 + glen ?new) cs =
      Done (over xs c (offs_of ch0 (?new @ singles (take (length (takeWhile (\<lambda>x. x < 0x80) cs)) cs))),
        c + gwidth ?new + length (takeWhile (\<lambda>x. x < 0x80) cs), ch0 + glen ?new + length (takeWhile (\<lambda>x. x < 0x80) cs),
        length (takeWhile (\<lambda>x. x < 0x80) cs) < length cs)"
      using Cons(2,3) by (intro Cons(1)) simp_all
    ultimately show ?thesis using True by (simp add: not_le singles_def)
  qed (simp add: not_less singles_def)
qed (simp add: singles_def)

lemma clusters_loop:
  assumes "c + gwidth new \<le> l" "l \<le> 0x7fff" "l \<le> length xs" "glyphs_ok new"
    and "sum_list (map fst cls) \<le> length str" "\<forall>(n, w) \<in> set cls. 0 < n \<and> 0 \<le> w \<and> w \<le> 2"
  defines "more_glyphs \<equiv> fit (l - (c + gwidth new)) (cluster_glyphs str cls)"
  shows "replaceText_clusters l (over xs c (offs_of ch0 new)) (c + gwidth new) (ch0 + glen new) cls =
      Done (over xs c (offs_of ch0 (new @ more_glyphs)), c + gwidth (new @ more_glyphs),
        (if glen more_glyphs = sum_list (map fst cls) then c + gwidth (new @ more_glyphs) else l), ch0 + glen (new @ more_glyphs))"
  using assms(1-6) unfolding more_glyphs_def
proof (induction cls arbitrary: new str)
  case (Cons cl cls)
  obtain n w where cl: "cl = (n, w)" by (cases cl)
  define W where "W = nat (max 1 w)"
  have w: "1 \<le> W" "W \<le> 2" "0 < n" "n \<le> length str" using Cons(6,7) by (auto simp: cl W_def)
  have narrow: "narrow16 (c + gwidth new + W) = c + gwidth new + W" using Cons(2,3) w(2) by simp
  show ?case
  proof (cases "c + gwidth new + W \<le> l")
    case True
    let ?xs = "over xs c (offs_of ch0 new)" and ?new = "new @ [(take n str, W)]"
    have len: "length ?xs = length xs" using Cons(2,4,5) by simp
    have "put_glyph ?xs (c + gwidth new) (c + gwidth new + W) (ch0 + glen new)
      = Done (over ?xs (c + length (offs_of ch0 new)) (offs_of (ch0 + glen new) [(take n str, W)]))"
      using put_glyph_over [of "c + gwidth new" "c + gwidth new + W" ?xs _ "take n str"] len True w Cons(4,5) by simp
    also have "\<dots> = Done (over xs c (offs_of ch0 ?new))"
      using True Cons(4,5) w(1) by (subst over_extend) simp_all
    finally have put: "put_glyph ?xs (c + gwidth new) (c + gwidth new + W) (ch0 + glen new) = Done (over xs c (offs_of ch0 ?new))" .
    let ?m = "fit (l - (c + gwidth ?new)) (cluster_glyphs (drop n str) cls)"
    have "replaceText_clusters l (over xs c (offs_of ch0 ?new)) (c + gwidth ?new) (ch0 + glen ?new) cls =
      Done (over xs c (offs_of ch0 (?new @ ?m)), c + gwidth (?new @ ?m),
        (if glen ?m = sum_list (map fst cls) then c + gwidth (?new @ ?m) else l), ch0 + glen (?new @ ?m))"
      using Cons(3-7) True w by (intro Cons(1)) (auto simp: cl)
    moreover have "max (c + gwidth new + 1) (c + gwidth new + W) = c + gwidth new + W" using w by simp
    moreover have "fit (l - (c + gwidth new)) (cluster_glyphs str (cl # cls)) = (take n str, W) # ?m"
      using True by (simp add: cl add.assoc flip: W_def)
    ultimately show ?thesis
      using put narrow True w by (simp add: cl Let_def add.assoc flip: W_def)
  next
    case False
    then show ?thesis using narrow w by (simp add: cl Let_def flip: W_def)
  qed
qed simp

end
