(* ===== verification/Row_Text.thy ===== *)
theory Row_Text
  imports Row_Refinement
begin

text \<open>
  \<open>ReplaceText\<close> and \<open>CopyTextFrom\<close> on the glyphs of a row: which glyphs a text is cut into, how much of it is
  written and which columns change; and the interface to a row that the text buffer works with.
\<close>

subsection \<open>Plain text\<close>

definition ascii_prefix :: "wstring \<Rightarrow> nat" where
  "ascii_prefix str = length (takeWhile (\<lambda>x. x < 0x80) str)"

definition clusters_from :: "CodepointWidthDetector \<Rightarrow> wstring \<Rightarrow> nat \<Rightarrow> glyph list" where
  "clusters_from d str p = cluster_glyphs (drop p str) (clusters d (GraphemeState_init\<lparr>gs_beg := Some p\<rparr>) str)"

text \<open>
  The glyphs of a text that are written in \<open>room\<close> columns: one per ASCII code unit, and from the last one in front of
  another code unit on the clusters that fit.
\<close>

definition text_glyphs :: "CodepointWidthDetector \<Rightarrow> nat \<Rightarrow> wstring \<Rightarrow> glyph list" where
  "text_glyphs d room str =
     (let k = ascii_prefix str
      in if min (length str) room \<le> k then singles (take room str)
         else singles (take (k - 1) str) @ fit (room - (k - 1)) (clusters_from d str (k - 1)))"

lemma clusters_at:
  assumes "cwd_ok d" "p \<le> length str"
  shows "sum_list (map fst (clusters d (GraphemeState_init\<lparr>gs_beg := Some p\<rparr>) str)) = length str - p"
    and "\<forall>(n, w) \<in> set (clusters d (GraphemeState_init\<lparr>gs_beg := Some p\<rparr>) str). 0 < n \<and> 0 \<le> w \<and> w \<le> 2"
proof -
  let ?s = "GraphemeState_init\<lparr>gs_beg := Some p\<rparr>"
  have "gs_state ?s = 0" "next_begin ?s str = p"
    using assms(2) by (simp_all add: GraphemeState_init_def next_begin_def resetIfOutOfRange_def)
  moreover have "(\<lambda>(n :: nat, w :: int). n) = fst" by auto
  ultimately show "sum_list (map fst (clusters d ?s str)) = length str - p"
    and "\<forall>(n, w) \<in> set (clusters d ?s str). 0 < n \<and> 0 \<le> w \<and> w \<le> 2"
    using clusters_partition [OF assms(1), of ?s str] assms(2) by simp_all
qed

lemma cluster_glyphs_props:
  assumes "sum_list (map fst cls) = length str" "\<forall>(n, w) \<in> set cls. 0 < n \<and> 0 \<le> w \<and> w \<le> 2"
  shows "gtext (cluster_glyphs str cls) = str \<and> glyphs_ok (cluster_glyphs str cls)"
  using assms by (induction str cls rule: cluster_glyphs.induct) auto

lemma clusters_from_props:
  assumes "cwd_ok d" "p \<le> length str"
  shows "gtext (clusters_from d str p) = drop p str" and "glyphs_ok (clusters_from d str p)"
    and "p < length str \<Longrightarrow> clusters_from d str p \<noteq> []"
proof -
  show whole: "gtext (clusters_from d str p) = drop p str" and "glyphs_ok (clusters_from d str p)"
    using cluster_glyphs_props [of "clusters d (GraphemeState_init\<lparr>gs_beg := Some p\<rparr>) str" "drop p str"] clusters_at [OF assms]
    by (simp_all add: clusters_from_def)
  show "clusters_from d str p \<noteq> []" if "p < length str" using whole that by auto
qed

lemma length_takeWhile_take: "length (takeWhile P (take n xs)) = min n (length (takeWhile P xs))"
  by (induction xs arbitrary: n) (auto simp: take_Cons' min_def)

lemma take_min_length: "take (min (length xs) n) xs = take n xs"
  by (simp add: min_def)

lemma text_glyphs_props:
  assumes "cwd_ok d"
  shows "glyphs_ok (text_glyphs d room str)" and "gwidth (text_glyphs d room str) \<le> room"
    and "gtext (text_glyphs d room str) = take (glen (text_glyphs d room str)) str"
proof -
  let ?k = "ascii_prefix str" let ?cs = "clusters_from d str (?k - 1)"
  have k: "?k - 1 \<le> length str" "?k \<le> length str"
    using length_takeWhile_le [of "\<lambda>x. x < 0x80" str] by (simp_all add: ascii_prefix_def)
  note cs = clusters_from_props [OF assms k(1)] and f = fit_props [where room = "room - (?k - 1)" and gs = ?cs]
  show "glyphs_ok (text_glyphs d room str)" using cs f by (simp add: text_glyphs_def Let_def)
  show "gwidth (text_glyphs d room str) \<le> room" using f(1) k
    by (cases "min (length str) room \<le> ?k") (simp add: text_glyphs_def Let_def, simp only: text_glyphs_def Let_def if_False gwidth_simps singles_simps length_take, linarith)
  have "gtext (fit (room - (?k - 1)) ?cs) = take (glen (fit (room - (?k - 1)) ?cs)) (drop (?k - 1) str)" using f(3) cs(1) by simp
  then have "take (?k - 1) str @ gtext (fit (room - (?k - 1)) ?cs) = take (?k - 1 + glen (fit (room - (?k - 1)) ?cs)) str"
    unfolding take_add by simp
  then show "gtext (text_glyphs d room str) = take (glen (text_glyphs d room str)) str"
    by (cases "min (length str) room \<le> ?k")
      (simp_all add: text_glyphs_def Let_def take_min_length)
qed

lemma over_over: "length v \<le> length u \<Longrightarrow> c + length v \<le> length xs \<Longrightarrow> over (over xs c v) c u = over xs c u"
  by (simp add: over_def add.commute)

lemma start_helper_simps [simp]:
  "wh_colBeg (start_helper gs c l) = c" "wh_colLimit (start_helper gs c l) = l" "wh_colEnd (start_helper gs c l) = c"
  "wh_chBeg (start_helper gs c l) = glen (gbefore c gs) + (c - gwidth (gbefore c gs))"
  "wh_chBegDirty (start_helper gs c l) = glen (gbefore c gs)" "wh_leadingSpaces (start_helper gs c l) = c - gwidth (gbefore c gs)"
  "wh_colBegDirty (start_helper gs c l) = gwidth (gbefore c gs)"
  by (simp_all add: start_helper_def Let_def)

text \<open>The loop over clusters after the last ASCII code unit was taken back.\<close>

lemma clusters_loop_from:
  fixes d :: CodepointWidthDetector
  assumes d: "cwd_ok d" and k: "k < length str" "k + 2 \<le> l - c" and l: "c < l" "l \<le> 0x7fff" "l \<le> length xs"
  defines "new \<equiv> singles (take k str) @ fit (l - (c + k)) (clusters_from d str k)"
  shows "replaceText_clusters l (over xs c (offs_of ch0 (singles (take (Suc k) str)))) (c + k) (ch0 + k)
      (clusters d (GraphemeState_init\<lparr>gs_beg := Some k\<rparr>) str)
    = Done (over xs c (offs_of ch0 new), c + gwidth new, (if glen new = length str then c + gwidth new else l), ch0 + glen new)"
proof -
  let ?xs = "over xs c (offs_of ch0 (singles (take (Suc k) str)))"
  let ?m = "fit (l - (c + k)) (clusters_from d str k)"
  note cs = clusters_from_props [OF d less_imp_le [OF k(1)]] and cl = clusters_at [OF d less_imp_le [OF k(1)]]
  have same: "over ?xs c (offs_of ch0 (singles (take k str))) = ?xs"
    using k l by (simp add: over_def take_Suc_conv_app_nth singles_def)
  have loop: "replaceText_clusters l (over ?xs c (offs_of ch0 (singles (take k str)))) (c + k) (ch0 + k)
      (clusters d (GraphemeState_init\<lparr>gs_beg := Some k\<rparr>) str)
    = Done (over ?xs c (offs_of ch0 new), c + gwidth new, (if glen ?m = length str - k then c + gwidth new else l), ch0 + glen new)"
    using clusters_loop [of c "singles (take k str)" l ?xs "clusters d (GraphemeState_init\<lparr>gs_beg := Some k\<rparr>) str" "drop k str" ch0]
      k l cl by (simp add: new_def clusters_from_def)
  have "1 \<le> gwidth ?m"
    using cs k by (cases "clusters_from d str k") auto
  then have "over ?xs c (offs_of ch0 new) = over xs c (offs_of ch0 new)"
    using k l cs(2) fit_props(2) [OF cs(2)] by (intro over_over) (simp_all add: new_def)
  moreover have "glen ?m = length str - k \<longleftrightarrow> glen new = length str" using k by (auto simp: new_def)
  ultimately show ?thesis using loop unfolding same by simp
qed

subsection \<open>Text that joins with the glyph in front of it\<close>

text \<open>
  The glyphs that stay in front, the text that is measured together with the new one, and the text that is kept: they
  differ when the column \<open>c\<close> cuts a wide glyph.
\<close>

definition join_parts :: "nat \<Rightarrow> glyph list \<Rightarrow> glyph list \<times> wstring \<times> wstring" where
  "join_parts c gs =
     (let A = gbefore c gs
      in if gwidth A < c then (A, take 1 (fst (gs ! length A)), [0x20])
         else if A = [] then ([], [], [])
         else (butlast A, fst (last A), fst (last A)))"

lemma prevGlyph_adjustBackward: "adjustBackward offs c = Done j \<Longrightarrow> prevGlyph offs (Suc c) = Done j"
proof (induction c arbitrary: j)
  case 0
  then show ?case by (subst (asm) adjustBackward.simps) (cases "uncheckedIsTrailer offs 0"; simp split: if_splits)
next
  case (Suc c)
  then show ?case
    by (subst (asm) (2) adjustBackward.simps) (cases "uncheckedIsTrailer offs (Suc c)"; simp split: if_splits)
qed

lemma gbefore_within: "glyphs_ok B \<Longrightarrow> k < snd p \<Longrightarrow> gbefore (gwidth B + k) (B @ p # R) = B"
  by (induction B) simp_all

lemma gafter_within: "glyphs_ok B \<Longrightarrow> 0 < k \<Longrightarrow> gafter (gwidth B + k) (B @ p # R) = gafter (k - snd p) R"
  by (induction B) simp_all

lemma peek_gtext:
  assumes "row_repr row gs" "gs = A @ R" "n \<le> glen R"
  shows "peek_range (row_chars row) (glen A) n = Done (take n (gtext R))"
proof -
  have repr: "take (glen gs) (row_chars row) = gtext gs" "glen gs \<le> length (row_chars row)" using assms(1) by (auto simp: row_repr_def)
  have "take n (drop (glen A) (row_chars row)) = take n (take (glen R) (drop (glen A) (row_chars row)))" using assms(3) by simp
  also have "take (glen R) (drop (glen A) (row_chars row)) = drop (glen A) (take (glen gs) (row_chars row))"
    using assms(2) by (simp add: drop_take)
  also have "\<dots> = gtext R" using repr(1) assms(2) by simp
  finally show ?thesis using repr(2) assms(2,3) by (simp add: peek_range_def)
qed

lemma join_parts_spec:
  assumes repr: "row_repr row gs" and c: "c \<le> gwidth gs" and parts: "join_parts c gs = (base, seen, kept)"
  shows "prevGlyph (full 0 gs) c = Done (gwidth base)" and "uncheckedCharOffset (full 0 gs) (gwidth base) = Done (glen base)"
    and "peek_range (row_chars row) (glen base) (glen (gbefore c gs) + (c - gwidth (gbefore c gs)) - glen base) = Done seen"
    and "glyphs_ok base" and "gtext base @ kept = take (glen (gbefore c gs)) (gtext gs) @ replicate (c - gwidth (gbefore c gs)) 0x20"
    and "if seen = [] then c = 0 \<and> base = [] \<and> kept = [] else kept \<noteq> [] \<and> gwidth base < c \<and> c \<le> gwidth base + 2"
    and "take (gwidth base) (full 0 gs) = offs_of 0 base"
    and "gwidth (gbefore c gs) < c \<Longrightarrow> base = gbefore c gs"
    and "gwidth base < e \<Longrightarrow> e \<le> gwidth gs \<Longrightarrow> c \<le> gwidth gs - gwidth (gafter e gs)"
    and "gbefore (gwidth base) gs = base"
proof -
  have gs: "glyphs_ok gs" "glen gs < 0x8000" using repr by (auto simp: row_repr_def)
  let ?A = "gbefore c gs"
  define R where "R = drop (length base) gs"
  consider (inside) t where "gs = ?A @ (t, 2) # gafter c gs" "t \<noteq> []" "gwidth ?A + 1 = c" "base = ?A" "seen = take 1 t" "kept = [0x20]"
    | (start) "c = 0" "?A = []" "base = []" "seen = []" "kept = []"
    | (boundary) p where "gs = (base @ [p]) @ gafter c gs" "?A = base @ [p]" "gwidth ?A = c" "seen = fst p" "kept = fst p"
    using gs(1) c
  proof (cases rule: gsplit_cases)
    case (inside t)
    then have "gs ! length ?A = (t, 2)" by (metis nth_append_length)
    then have "base = ?A" "seen = take 1 t" "kept = [0x20]"
      using inside(3) parts by (simp_all add: join_parts_def Let_def split: if_splits)
    then show ?thesis using that(1) [OF inside] by blast
  next
    case boundary
    show ?thesis
    proof (cases ?A rule: rev_cases)
      case Nil
      then have "c = 0" "base = []" "seen = []" "kept = []"
        using boundary(2) parts by (simp_all add: join_parts_def Let_def split: if_splits)
      then show ?thesis using that(2) Nil by blast
    next
      case (snoc B p)
      then have p: "base = B" "seen = fst p" "kept = fst p"
        using boundary(2) parts by (auto simp: join_parts_def Let_def split: if_splits)
      have "gs = (base @ [p]) @ gafter c gs" using boundary(1) unfolding snoc p(1) .
      then show ?thesis using that(3) p snoc boundary(2) by blast
    qed
  qed
  then have "prevGlyph (full 0 gs) c = Done (gwidth base)
    \<and> peek_range (row_chars row) (glen base) (glen ?A + (c - gwidth ?A) - glen base) = Done seen
    \<and> glyphs_ok base \<and> gtext base @ kept = take (glen ?A) (gtext gs) @ replicate (c - gwidth ?A) 0x20
    \<and> (if seen = [] then c = 0 \<and> base = [] \<and> kept = [] else kept \<noteq> [] \<and> gwidth base < c \<and> c \<le> gwidth base + 2)
    \<and> gbefore (gwidth base) gs = base \<and> (gwidth ?A < c \<longrightarrow> base = ?A)
    \<and> (gwidth base < e \<and> e \<le> gwidth gs \<longrightarrow> c \<le> gwidth gs - gwidth (gafter e gs))"
  proof cases
    case (inside t)
    have b: "gbefore (gwidth ?A) gs = ?A" using gbefore_within [of ?A 0 "(t, 2)" "gafter c gs"] inside(1) gs(1) by simp
    have "prevGlyph (full 0 gs) (Suc (gwidth ?A)) = Done (gwidth (gbefore (gwidth ?A) gs))"
      using inside(3) c by (intro prevGlyph_adjustBackward adjustBackward_glyphs(1) [OF gs(1) _ gs(2)]) simp
    then have "prevGlyph (full 0 gs) c = Done (gwidth ?A)" using b inside(3) by (simp del: prevGlyph.simps)
    moreover have "c \<le> gwidth gs - gwidth (gafter e gs)" if "gwidth ?A < e" "e \<le> gwidth gs"
      using gafter_end(1) [OF gs(1) that(2)] that(1) inside(3) by simp
    moreover have "c - gwidth ?A = 1" "gwidth ?A < c" "c \<le> gwidth ?A + 2" using inside(3) by simp_all
    moreover have "peek_range (row_chars row) (glen ?A) 1 = Done (take 1 t)"
      using peek_gtext [OF repr inside(1), of 1] inside(2) by (simp add: Suc_le_eq)
    ultimately show ?thesis
      using inside(2,4-6) b gs(1) take_gbefore_full(2) [OF gs(1) c] by simp
  next
    case start
    then show ?thesis using gs(1) by (simp add: peek_range_def)
  next
    case (boundary p)
    have ok: "glyphs_ok base" "fst p \<noteq> []" "1 \<le> snd p" "snd p \<le> 2"
      using glyphs_ok_before [OF gs(1), of c] boundary(2) by simp_all
    have split: "gs = base @ p # gafter c gs" using boundary(1) by simp
    have b: "gbefore (gwidth base + k) gs = base" if "k < snd p" for k
      using gbefore_within [OF ok(1) that, of "gafter c gs"] split by simp
    have cw: "c = Suc (gwidth base + (snd p - 1))" using boundary(2,3) ok(3) by auto
    have "prevGlyph (full 0 gs) (Suc (gwidth base + (snd p - 1))) = Done (gwidth (gbefore (gwidth base + (snd p - 1)) gs))"
      using c cw by (intro prevGlyph_adjustBackward adjustBackward_glyphs(1) [OF gs(1) _ gs(2)]) simp
    then have prev: "prevGlyph (full 0 gs) c = Done (gwidth base)" using b [of "snd p - 1"] ok(3) cw by simp
    have "peek_range (row_chars row) (glen base) (length (fst p)) = Done (fst p)"
      using peek_gtext [OF repr split, of "length (fst p)"] by simp
    moreover have "c \<le> gwidth gs - gwidth (gafter e gs)" if "gwidth base < e"
    proof -
      have "gafter e gs = gafter (e - gwidth base - snd p) (gafter c gs)"
        using gafter_within [OF ok(1), of "e - gwidth base" p "gafter c gs"] that split by simp
      then have "gwidth (gafter e gs) \<le> gwidth (gafter c gs)" using gafter_len(2) by metis
      moreover have "gwidth gs = gwidth base + (snd p + gwidth (gafter c gs))" using arg_cong [OF split, of gwidth] by simp
      moreover have "c = gwidth base + snd p" using cw ok(3) by simp
      ultimately show ?thesis by linarith
    qed
    moreover have "take (glen ?A) (gtext gs) = gtext base @ fst p"
      using take_gbefore_full(2) [OF gs(1) c] unfolding boundary(2) by simp
    moreover have "glen ?A = glen base + length (fst p)" "gwidth ?A = c" using boundary(2,3) by simp_all
    ultimately show ?thesis using prev ok b [of 0] boundary(4,5) cw by auto
  qed
  then have all: "prevGlyph (full 0 gs) c = Done (gwidth base)"
      "peek_range (row_chars row) (glen base) (glen ?A + (c - gwidth ?A) - glen base) = Done seen"
      "glyphs_ok base" "gtext base @ kept = take (glen ?A) (gtext gs) @ replicate (c - gwidth ?A) 0x20"
      "if seen = [] then c = 0 \<and> base = [] \<and> kept = [] else kept \<noteq> [] \<and> gwidth base < c \<and> c \<le> gwidth base + 2"
      "gbefore (gwidth base) gs = base" "gwidth ?A < c \<Longrightarrow> base = ?A"
      "gwidth base < e \<Longrightarrow> e \<le> gwidth gs \<Longrightarrow> c \<le> gwidth gs - gwidth (gafter e gs)" by auto
  have base: "gwidth base \<le> gwidth gs" using all(5) c by (simp split: if_splits)
  show "uncheckedCharOffset (full 0 gs) (gwidth base) = Done (glen base)"
    using adjustBackward_glyphs(2) [OF gs(1) base gs(2)] all(6) by simp
  show "take (gwidth base) (full 0 gs) = offs_of 0 base"
    using take_gbefore_full(1) [OF gs(1) base] all(6) by simp
  show "prevGlyph (full 0 gs) c = Done (gwidth base)"
    and "peek_range (row_chars row) (glen base) (glen ?A + (c - gwidth ?A) - glen base) = Done seen"
    and "glyphs_ok base" and "gtext base @ kept = take (glen ?A) (gtext gs) @ replicate (c - gwidth ?A) 0x20"
    and "if seen = [] then c = 0 \<and> base = [] \<and> kept = [] else kept \<noteq> [] \<and> gwidth base < c \<and> c \<le> gwidth base + 2"
    and "gwidth ?A < c \<Longrightarrow> base = ?A"
    and "gwidth base < e \<Longrightarrow> e \<le> gwidth gs \<Longrightarrow> c \<le> gwidth gs - gwidth (gafter e gs)"
    and "gbefore (gwidth base) gs = base" by (fact all)+
qed

subsection \<open>Writing text\<close>

text \<open>
  What \<open>ReplaceText\<close> does with a text at the column \<open>c\<close> of the glyphs \<open>gs\<close>, up to the column \<open>l\<close>: the glyphs of the
  columns up to the end of the write, the number of code units taken from the text, the first column that changes, and
  the column from which the old glyphs stay.
\<close>

definition plan_text ::
  "CodepointWidthDetector \<Rightarrow> nat \<Rightarrow> nat \<Rightarrow> wstring \<Rightarrow> glyph list \<Rightarrow> glyph list \<times> nat \<times> nat \<times> nat" where
  "plan_text d c l str gs =
     (let (base, seen, kept) = join_parts c gs;
          (n, w) = measure_join d seen str
      in if hd str \<ge> 0x80 \<and> 0 < n
         then (let new = fit (l - gwidth base) ((kept @ take n str, max 1 w) # clusters_from d str n);
                   consumed = glen new - length kept
               in (base @ new, consumed, gwidth base,
                   if consumed = length str then gwidth (base @ new) else l))
         else (let new = text_glyphs d (l - c) str
               in (front c gs @ new, glen new, gwidth (gbefore c gs),
                   if glen new = length str then c + gwidth new else l)))"

definition written :: "ROW \<Rightarrow> glyph list \<Rightarrow> nat \<Rightarrow> nat \<Rightarrow> WriteHelper \<Rightarrow> nat \<Rightarrow> nat \<Rightarrow> glyph list \<Rightarrow> nat \<Rightarrow> nat \<Rightarrow> ROW \<times> WriteHelper" where
  "written row gs c ch h b colEnd new e n =
     (row\<lparr>row_charOffsets := over (full 0 gs) c (offs_of ch new)\<rparr>,
      h\<lparr>wh_colBegDirty := b, wh_colEnd := colEnd, wh_colEndDirty := e, wh_charsConsumed := n\<rparr>)"

lemma ascii_prefix_0: "str \<noteq> [] \<Longrightarrow> ascii_prefix str = 0 \<longleftrightarrow> hd str \<ge> 0x80"
  by (cases str) (auto simp: ascii_prefix_def)

lemma ReplaceText_plain:
  assumes repr: "row_repr row gs" and d: "cwd_ok d" and c: "c < l" "l \<le> row_columnCount row" and str: "str \<noteq> []"
    and parts: "join_parts c gs = (base, seen, kept)" and no: "hd str < 0x80 \<or> fst (measure_join d seen str) = 0"
  defines "h \<equiv> start_helper gs c l" and "new \<equiv> text_glyphs d (l - c) str"
  shows "wh_ReplaceText d str (row, h) =
    Done (written row gs c (wh_chBeg h) h (gwidth (gbefore c gs)) (c + gwidth new) new
      (if glen new = length str then c + gwidth new else l) (glen new))"
proof -
  have gs: "glyphs_ok gs" "gwidth gs = row_columnCount row" "row_columnCount row \<le> 0x7fff" "row_charOffsets row = full 0 gs"
    using repr by (auto simp: row_repr_def)
  let ?k = "ascii_prefix str"
  define N where "N = min (length str) (l - c)"
  have N: "N \<le> length str" "c + N \<le> l" using c by (auto simp: N_def)
  have k: "?k \<le> length str" using length_takeWhile_le [of "\<lambda>x. x < 0x80" str] by (simp add: ascii_prefix_def)
  have ascii: "replaceText_ascii (full 0 gs) c (wh_chBeg h) (take N str) =
      Done (over (full 0 gs) c (offs_of (wh_chBeg h) (singles (take (min N ?k) str))), c + min N ?k, wh_chBeg h + min N ?k, ?k < N)"
  proof -
    have "length (takeWhile (\<lambda>x. x < 0x80) (take N str)) = min N ?k" by (simp add: length_takeWhile_take ascii_prefix_def)
    then show ?thesis
      using ascii_loop [of c "[]" "take N str" "full 0 gs" "wh_chBeg h"] c gs(1,2) N by (simp add: min_def)
  qed
  have len: "l \<le> length (full 0 gs)" "l \<le> 0x7fff" using c gs by simp_all
  let ?h = "h\<lparr>wh_colEnd := c + min N ?k\<rparr>"
  have start: "wh_ReplaceText d str (row, h) =
    (let row = row\<lparr>row_charOffsets := over (full 0 gs) c (offs_of (wh_chBeg h) (singles (take (min N ?k) str)))\<rparr>
     in if ?k < N then replaceTextUnicode d str (wh_chBeg h + min N ?k) (row, ?h)
        else Done (row, h\<lparr>wh_colEnd := c + min N ?k, wh_colEndDirty := c + min N ?k, wh_charsConsumed := min N ?k\<rparr>))"
    using ascii by (simp add: wh_ReplaceText_def Let_def h_def gs(4) N_def)
  have hb: "h\<lparr>wh_colBegDirty := gwidth (gbefore c gs)\<rparr> = h" by (simp add: h_def start_helper_def Let_def)
  consider (ascii) "N \<le> ?k" | (first) "?k < N" "?k = 0" | (later) j where "?k < N" "?k = Suc j" by (cases "N \<le> ?k"; cases ?k) auto
  then show ?thesis
  proof cases
    case ascii
    then have "new = singles (take N str)" by (simp add: new_def text_glyphs_def Let_def N_def take_min_length)
    moreover have "c + N = l" if "N \<noteq> length str" using that c by (simp add: N_def min_def split: if_splits)
    ultimately show ?thesis using ascii N start hb by (auto simp: written_def Let_def)
  next
    case first
    have new: "new = fit (l - c) (clusters_from d str 0)" using first(2) str c(1) by (auto simp: new_def text_glyphs_def Let_def min_def)
    have "\<not> hd str < 0x80" using first(2) str ascii_prefix_0 by fastforce
    then have no': "fst (measure_join d seen str) = 0" using no by simp
    have c': "c \<le> gwidth gs" using c gs(2) by simp
    note jp = join_parts_spec(1-3) [OF repr c' parts]
    have row0: "row\<lparr>row_charOffsets := full 0 gs\<rparr> = row" "h\<lparr>wh_colEnd := c\<rparr> = h"
      using gs(4) by (simp_all add: h_def start_helper_def Let_def)
    have "joinPrevious d str (wh_chBeg h) (row, h) = Done (row, h, wh_chBeg h, False)"
      using jp no' by (simp add: joinPrevious_def gs(4) h_def Let_def case_prod_beta)
    moreover have "replaceText_clusters l (full 0 gs) c (wh_chBeg h) (clusters d (GraphemeState_init\<lparr>gs_beg := Some 0\<rparr>) str) =
        Done (over (full 0 gs) c (offs_of (wh_chBeg h) new), c + gwidth new,
          (if glen new = length str then c + gwidth new else l), wh_chBeg h + glen new)"
      using clusters_loop [of c "[]" l "full 0 gs" _ str "wh_chBeg h"] clusters_at [OF d, of 0 str] c len
      by (simp add: new clusters_from_def)
    ultimately show ?thesis
      using first start hb by (simp add: Let_def replaceTextUnicode_def written_def gs(4) row0) (simp add: h_def)
  next
    case (later j)
    have j: "j < length str" "j + 2 \<le> l - c" using later N by simp_all
    have new: "new = singles (take j str) @ fit (l - (c + j)) (clusters_from d str j)"
      using later by (auto simp: new_def text_glyphs_def Let_def N_def min_def)
    have "replaceTextUnicode d str (wh_chBeg h + Suc j)
        (row\<lparr>row_charOffsets := over (full 0 gs) c (offs_of (wh_chBeg h) (singles (take (Suc j) str)))\<rparr>, h\<lparr>wh_colEnd := c + Suc j\<rparr>) =
      Done (written row gs c (wh_chBeg h) h (gwidth (gbefore c gs)) (c + gwidth new) new
        (if glen new = length str then c + gwidth new else l) (glen new))"
      using clusters_loop_from [OF d j c(1) len(2,1), of "wh_chBeg h", unfolded new [symmetric]] hb
      by (simp add: replaceTextUnicode_def written_def) (simp add: h_def)
    then show ?thesis using later start by (simp add: Let_def)
  qed
qed

lemma ReplaceText_joined:
  assumes repr: "row_repr row gs" and d: "cwd_ok d" and c: "c < l" "l \<le> row_columnCount row" and str: "str \<noteq> []"
    and parts: "join_parts c gs = (base, seen, kept)" and join: "measure_join d seen str = (n, w)" "hd str \<ge> 0x80" "0 < n"
  defines "h \<equiv> start_helper gs c l" and "new \<equiv> fit (l - gwidth base) ((kept @ take n str, max 1 w) # clusters_from d str n)"
  shows "wh_ReplaceText d str (row, h) =
    Done (written row gs (gwidth base) (glen base) h (gwidth base) (gwidth base + gwidth new) new
      (if glen new - length kept = length str then gwidth base + gwidth new else l) (glen new - length kept))"
    and "seen = [] \<or> new \<noteq> []" and "gtext new = kept @ take (glen new - length kept) str" and "glyphs_ok new"
    and "gwidth base + gwidth new \<le> l" and "new = [] \<Longrightarrow> kept = []"
proof -
  have gs: "glyphs_ok gs" "gwidth gs = row_columnCount row" "row_columnCount row \<le> 0x7fff" "row_charOffsets row = full 0 gs"
    using repr by (auto simp: row_repr_def)
  have c': "c \<le> gwidth gs" using c gs(2) by simp
  note jp = join_parts_spec [OF repr c' parts]
  have n: "n \<le> length str" "max 1 w \<le> 2" using measure_join_contract(1,2) [OF d str join(1)] by simp_all
  let ?W = "max 1 w" and ?g = "(kept @ take n str, max 1 w)"
  have base_l: "gwidth base \<le> l" using jp(6) c by (simp split: if_splits)
  have fits: "gwidth base + ?W \<le> l" if "seen \<noteq> []"
  proof -
    have "gwidth base < c" using jp(6) that by simp
    then show ?thesis using c(1) n(2) by linarith
  qed
  have chBeg: "wh_chBeg h = glen base + length kept"
    using arg_cong [OF jp(5), of length] gbefore_len(1) [of c gs] by (simp add: h_def)
  note cs = clusters_from_props [OF d n(1)]
  have ok: "glyphs_ok (?g # clusters_from d str n)" using cs(2) n join(3) str by simp
  show "glyphs_ok new" unfolding new_def using ok by (rule fit_props(2))
  show room: "gwidth base + gwidth new \<le> l"
    using fit_props(1) [of "l - gwidth base" "?g # clusters_from d str n"] base_l by (simp add: new_def del: fit.simps)
  have new_Nil: "new = [] \<longleftrightarrow> \<not> gwidth base + ?W \<le> l"
  proof -
    have "?W \<le> l - gwidth base \<longleftrightarrow> gwidth base + ?W \<le> l" using base_l by linarith
    then show ?thesis unfolding new_def fit.simps snd_conv by simp
  qed
  show "seen = [] \<or> new \<noteq> []" using fits new_Nil by blast
  show kept: "kept = []" if "new = []" using that fits new_Nil jp(6) by (auto split: if_splits)
  have whole: "gtext new = take (glen new) (kept @ str)"
    using fit_props(3) [of "l - gwidth base" "?g # clusters_from d str n"] cs(1) by (simp add: new_def del: fit.simps)
  have "length kept \<le> glen new" using kept by (cases "new = []") (auto simp: new_def split: if_splits)
  then show text_new: "gtext new = kept @ take (glen new - length kept) str" using whole by (simp add: take_append)
  have first: "ascii_prefix str = 0" using join(2) str ascii_prefix_0 by blast
  have "replaceText_ascii (full 0 gs) c (wh_chBeg h) (take (min (length str) (l - c)) str) = Done (full 0 gs, c, wh_chBeg h, True)"
    using join(2) str c by (cases str) (auto simp: take_Cons' min_def)
  moreover have row: "row\<lparr>row_charOffsets := full 0 gs\<rparr> = row" "h\<lparr>wh_colEnd := c\<rparr> = h"
    using gs(4) by (simp_all add: h_def start_helper_def Let_def)
  ultimately have start: "wh_ReplaceText d str (row, h) = replaceTextUnicode d str (wh_chBeg h) (row, h)"
    using c by (simp add: wh_ReplaceText_def Let_def gs(4)) (simp add: h_def row(1) row(2) [unfolded h_def])
  have narrow: "narrow16 (gwidth base + ?W) = gwidth base + ?W" using base_l c gs(3) n(2) by simp
  have chPrev: "uncheckedCharOffset (full 0 gs) (gwidth base) = Done (glen base)" by (rule jp(2))
  show "wh_ReplaceText d str (row, h) =
    Done (written row gs (gwidth base) (glen base) h (gwidth base) (gwidth base + gwidth new) new
      (if glen new - length kept = length str then gwidth base + gwidth new else l) (glen new - length kept))"
  proof (cases "gwidth base + ?W \<le> l")
    case False
    then have "new = []" "kept = []" using kept new_Nil by blast+
    moreover have "joinPrevious d str (wh_chBeg h) (row, h) =
        Done (row, h\<lparr>wh_colBegDirty := gwidth base, wh_colEnd := gwidth base, wh_colEndDirty := l, wh_charsConsumed := 0\<rparr>, wh_chBeg h, True)"
      using jp(1-3) join narrow False by (simp add: joinPrevious_def Let_def gs(4) h_def)
    ultimately show ?thesis using start str row by (simp add: replaceTextUnicode_def written_def)
  next
    case True
    let ?m = "fit (l - (gwidth base + ?W)) (clusters_from d str n)"
    have "l - gwidth base - ?W = l - (gwidth base + ?W)" "?W \<le> l - gwidth base" using True by linarith+
    then have new: "new = ?g # ?m" unfolding new_def fit.simps snd_conv by simp
    have "put_glyph (full 0 gs) (gwidth base) (gwidth base + ?W) (glen base)
        = Done (over (full 0 gs) (gwidth base) (offs_of (glen base) [?g]))"
      using put_glyph_over [of "gwidth base" "gwidth base + ?W" "full 0 gs" "glen base" "kept @ take n str"] True c gs(1,2) by simp
    moreover have "max (gwidth base + 1) (gwidth base + ?W) = gwidth base + ?W" by simp
    ultimately have joined: "joinPrevious d str (wh_chBeg h) (row, h) =
        Done (row\<lparr>row_charOffsets := over (full 0 gs) (gwidth base) (offs_of (glen base) [?g])\<rparr>,
          h\<lparr>wh_colBegDirty := gwidth base, wh_colEnd := gwidth base + ?W\<rparr>, wh_chBeg h + n, False)"
      using jp(1-3) join narrow True by (simp add: joinPrevious_def Let_def gs(4) h_def del: offs_of.simps)
    have "replaceText_clusters l (over (full 0 gs) (gwidth base) (offs_of (glen base) [?g])) (gwidth base + gwidth [?g])
        (glen base + glen [?g]) (clusters d (GraphemeState_init\<lparr>gs_beg := Some n\<rparr>) str) =
      Done (over (full 0 gs) (gwidth base) (offs_of (glen base) ([?g] @ ?m)), gwidth base + gwidth ([?g] @ ?m),
        (if glen ?m = length str - n then gwidth base + gwidth ([?g] @ ?m) else l), glen base + glen ([?g] @ ?m))"
      using clusters_loop [of "gwidth base" "[?g]" l "full 0 gs" "clusters d (GraphemeState_init\<lparr>gs_beg := Some n\<rparr>) str" "drop n str" "glen base"]
        clusters_at [OF d n(1)] True c gs n ok by (simp add: clusters_from_def del: offs_of.simps)
    moreover have "glen ?m = length str - n \<longleftrightarrow> glen new - length kept = length str" using n(1) by (auto simp: new)
    moreover have "glen base + glen [?g] = wh_chBeg h + n" "gwidth base + gwidth [?g] = gwidth base + ?W" "[?g] @ ?m = new"
      using n(1) chBeg new by simp_all
    ultimately have loop: "replaceText_clusters l (over (full 0 gs) (gwidth base) (offs_of (glen base) [?g])) (gwidth base + ?W)
        (wh_chBeg h + n) (clusters d (GraphemeState_init\<lparr>gs_beg := Some n\<rparr>) str) =
      Done (over (full 0 gs) (gwidth base) (offs_of (glen base) new), gwidth base + gwidth new,
        (if glen new - length kept = length str then gwidth base + gwidth new else l), glen base + glen new)"
      by (simp only:)
    have "glen base + glen new - wh_chBeg h = glen new - length kept" "wh_colLimit h = l" using chBeg by (simp_all add: h_def)
    then show ?thesis
      using start joined loop by (simp add: replaceTextUnicode_def written_def del: offs_of.simps)
  qed
qed

lemma over_first:
  assumes "xs = x # ys" "i < length zs"
  shows "over (over zs i xs) i [x] = over zs i xs"
  using assms by (simp add: over_def)

lemma Finish_joined:
  fixes l :: nat
  assumes repr: "row_repr row gs" and c: "c < l" "l \<le> row_columnCount row"
    and parts: "join_parts c gs = (base, seen, kept)"
    and new: "seen = [] \<or> new \<noteq> []" "gtext new = kept @ take n str" "n \<le> length str" "glyphs_ok new"
      "new = [] \<Longrightarrow> e = l" "gwidth base + gwidth new \<le> e" "e \<le> l"
    and fits: "glen (place (base @ new) e gs) \<le> 0x7fff"
  defines "h \<equiv> (start_helper gs c l)\<lparr>wh_colBegDirty := gwidth base, wh_colEnd := gwidth base + gwidth new, wh_colEndDirty := e,
      wh_charsConsumed := n\<rparr>"
  shows "\<exists>row'. wh_Finish str (row\<lparr>row_charOffsets := over (full 0 gs) (gwidth base) (offs_of (glen base) new)\<rparr>, h) =
        Done (row', h\<lparr>wh_colEndDirty := gwidth gs - gwidth (gafter e gs)\<rparr>)
    \<and> row_repr row' (place (base @ new) e gs)
    \<and> text_update row row' (if gafter e gs = [] then gwidth (base @ new) < row_columnCount row else row_doubleBytePadded row)"
proof -
  let ?A = "gbefore c gs" and ?row = "row\<lparr>row_charOffsets := over (full 0 gs) (gwidth base) (offs_of (glen base) new)\<rparr>"
  have gs: "glyphs_ok gs" "gwidth gs = row_columnCount ?row" "row_columnCount ?row \<le> 0x7fff" "glen gs \<le> 0x7fff"
      "glen gs \<le> length (row_chars ?row)" "length (row_chars ?row) \<le> 0xffff" "take (glen gs) (row_chars ?row) = gtext gs"
    using repr by (auto simp: row_repr_def)
  have c': "c \<le> gwidth gs" "e \<le> gwidth gs" using c gs(2) new(7) by simp_all
  note jp = join_parts_spec [OF repr c'(1) parts]
  have h: "wh_colEnd h = gwidth base + gwidth new" "wh_colEndDirty h = e" "wh_charsConsumed h = n" "wh_colBegDirty h = gwidth base"
      "wh_chBeg h = glen ?A + (c - gwidth ?A)" "wh_chBegDirty h = glen ?A" "wh_leadingSpaces h = c - gwidth ?A"
    by (simp_all add: h_def)
  have e: "gwidth base < e"
    using new(1,4,5,6) jp(6) c by (cases new) (auto split: if_splits)
  have E: "c \<le> gwidth gs - gwidth (gafter e gs)" by (rule jp(9) [OF e c'(2)])
  have A_le: "glen ?A + glen (gafter e gs) \<le> glen gs" by (rule gafter_end(3) [OF gs(1) c'(2) E])
  have lead: "c - gwidth ?A = 0 \<or> (c - gwidth ?A = 1 \<and> base = ?A \<and> new \<noteq> [])"
  proof (cases "gwidth ?A < c")
    case True
    then have "base = ?A" by (rule jp(8))
    moreover have "seen \<noteq> []" using jp(6) True by (auto split: if_splits)
    ultimately show ?thesis using gbefore_lead [OF gs(1) c'(1)] True new(1) by auto
  qed simp
  let ?o = "over (full 0 gs) (gwidth base) (offs_of (glen base) new)"
  have w: "gwidth base + gwidth new \<le> gwidth gs" using new(6) c'(2) by simp
  have leading: "over ?o (gwidth base) (iota (c - gwidth ?A) (glen ?A)) = ?o"
    using lead
  proof
    assume l1: "c - gwidth ?A = 1 \<and> base = ?A \<and> new \<noteq> []"
    then obtain ys where ys: "offs_of (glen base) new = word_of_nat (glen base) # ys" by (cases new) auto
    have "gwidth base < length (full 0 gs)" using w gs(1) by simp
    from over_first [OF ys this] show ?thesis using l1 by (simp add: iota_def)
  qed (simp add: iota_def)
  have taken: "take (gwidth base + gwidth new) ?o = offs_of 0 (base @ new)"
    using jp(4,7) w gs(1) new(4) by (simp add: over_def)
  have lead_end: "c - gwidth ?A \<le> gwidth new" using lead new(4) by (cases new) auto
  have text_hs: "gtext (base @ new) = take (glen ?A) (gtext gs) @ replicate (c - gwidth ?A) 0x20 @ take n str"
    using jp(5) new(2) by (metis append.assoc gtext_simps(3))
  have "\<exists>row'. wh_Finish str (?row, h) = Done (row', h\<lparr>wh_colEndDirty := gwidth gs - gwidth (gafter (wh_colEndDirty h) gs)\<rparr>)
    \<and> row_repr row' (place (base @ new) (wh_colEndDirty h) gs)
    \<and> row_columnCount row' = row_columnCount ?row \<and> row_attr row' = row_attr ?row
    \<and> row_doubleBytePadded row' =
        (if gafter (wh_colEndDirty h) gs = [] then wh_colEnd h < row_columnCount ?row else row_doubleBytePadded ?row)
    \<and> row_lineRendition row' = row_lineRendition ?row \<and> row_wrapForced row' = row_wrapForced ?row
    \<and> row_promptData row' = row_promptData ?row"
    using gs new c c' A_le fits jp(4) leading taken lead_end text_hs w
    by (intro Finish_place [OF gs]) (simp_all add: h drop_over)
  then show ?thesis unfolding h by (auto simp: text_update_def)
qed

theorem ReplaceText_glyphs:
  assumes repr: "row_repr row gs" and d: "cwd_ok d"
    and c: "clampedColumnInclusive (row_columnCount row) (rws_columnBegin st) = c"
      "clampedColumnInclusive (row_columnCount row) (rws_columnLimit st) = l" "c < l"
    and str: "rws_text st \<noteq> []"
    and plan: "plan_text d c l (rws_text st) gs = (hs, n, b, e)" and fits: "glen (place hs e gs) \<le> 0x7fff"
  shows "\<exists>row'. ReplaceText d st row =
      Done (row', Some (st\<lparr>rws_text := drop n (rws_text st),
        rws_columnEnd := int (if n = length (rws_text st) then gwidth hs else l),
        rws_columnBeginDirty := int b, rws_columnEndDirty := int (gwidth gs - gwidth (gafter e gs))\<rparr>))
    \<and> row_repr row' (place hs e gs)
    \<and> text_update row row' (if gafter e gs = [] then gwidth hs < row_columnCount row else row_doubleBytePadded row)"
proof -
  let ?str = "rws_text st" and ?h = "start_helper gs c l"
  have gs: "glyphs_ok gs" "row_columnCount row \<le> 0x7fff" using repr by (auto simp: row_repr_def)
  have l: "l \<le> row_columnCount row" using c(2) clampedColumnInclusive_le [OF gs(2)] by blast
  have start: "WriteHelper_new row (rws_columnBegin st) (rws_columnLimit st) = Done ?h"
    by (rule WriteHelper_new_glyphs [OF repr c(1,2)])
  have valid: "wh_IsValid ?h ?str" using c(3) str by (simp add: wh_IsValid_def)
  obtain base seen kept where parts: "join_parts c gs = (base, seen, kept)" by (cases "join_parts c gs")
  obtain m w where join: "measure_join d seen ?str = (m, w)" by (cases "measure_join d seen ?str")
  have "\<exists>row' h' row1 h1. wh_ReplaceText d ?str (row, ?h) = Done (row1, h1)
    \<and> wh_Finish ?str (row1, h1) = Done (row', h') \<and> wh_charsConsumed h' = n \<and> n \<le> length ?str \<and> wh_colEnd h' = gwidth hs
    \<and> wh_colLimit h' = l \<and> wh_colBegDirty h' = b \<and> wh_colEndDirty h' = gwidth gs - gwidth (gafter e gs)
    \<and> row_repr row' (place hs e gs)
    \<and> text_update row row' (if gafter e gs = [] then gwidth hs < row_columnCount row else row_doubleBytePadded row)"
  proof (cases "hd ?str \<ge> 0x80 \<and> 0 < m")
    case True
    define new where "new = fit (l - gwidth base) ((kept @ take m ?str, max 1 w) # clusters_from d ?str m)"
    have p: "hs = base @ new" "n = glen new - length kept" "b = gwidth base" "e = (if n = length ?str then gwidth (base @ new) else l)"
      using plan True parts join unfolding plan_text_def Let_def new_def by (auto simp del: fit.simps split: if_splits)
    note joined = ReplaceText_joined [OF repr d c(3) l str parts join conjunct1 [OF True] conjunct2 [OF True], folded new_def, folded p(2)]
    have n: "n \<le> length ?str" using arg_cong [OF joined(3), of length] p(2) by simp
    have "e = l" if "new = []" using that joined(6) str p(2,4) by simp
    moreover have "gwidth base + gwidth new \<le> e" "e \<le> l" using joined(5) p(4) by simp_all
    ultimately show ?thesis
      using Finish_joined [OF repr c(3) l parts joined(2,3) n joined(4), of e] fits joined(1) p n
      by (fastforce simp: written_def)
  next
    case False
    define new where "new = text_glyphs d (l - c) ?str"
    have p: "hs = front c gs @ new" "n = glen new" "b = gwidth (gbefore c gs)" "e = (if n = length ?str then c + gwidth new else l)"
      using plan False parts join by (auto simp: plan_text_def Let_def new_def split: if_splits)
    note tg = text_glyphs_props [OF d, of "l - c" ?str, folded new_def]
    have "hd ?str < 0x80 \<or> fst (measure_join d seen ?str) = 0" using False join by auto
    note plain = ReplaceText_plain [OF repr d c(3) l str parts this, folded new_def, folded p(2)]
    have "c + gwidth new \<le> l" using tg(2) c(3) by linarith
    then have "c + gwidth new \<le> e" "e \<le> row_columnCount row" using l p(4) by simp_all
    moreover have "n \<le> length ?str" using arg_cong [OF tg(3), of length] p(2) by simp
    moreover have "glen (place (gbefore c gs @ spaces (c - gwidth (gbefore c gs)) @ new) e gs) \<le> 0x7fff"
      using fits p(1) by (simp add: front_def)
    moreover have "written row gs c (wh_chBeg ?h) ?h (gwidth (gbefore c gs)) (c + gwidth new) new e n =
        (row\<lparr>row_charOffsets := over (full 0 gs) c (offs_of (wh_chBeg ?h) new)\<rparr>,
         ?h\<lparr>wh_colEnd := c + gwidth new, wh_colEndDirty := e, wh_charsConsumed := glen new\<rparr>)"
      using p(2) by (simp add: written_def start_helper_def Let_def)
    ultimately show ?thesis
      using Finish_after [OF repr _ _ tg(1,3), of c e l] plain gbefore_width [of c gs] unfolding p(4) [symmetric]
      by (auto simp: p(1-3) front_def)
  qed
  then show ?thesis
    using start valid by (auto simp: ReplaceText_def on_exception_def Let_def intro!: exI)
qed

text \<open>The glyphs in front of the first changed column stay.\<close>

lemma plan_text_frame:
  assumes "row_repr row gs" "c \<le> row_columnCount row" "plan_text d c l str gs = (hs, n, b, e)"
  shows "\<exists>new. hs = gbefore b gs @ new"
proof -
  have gs: "glyphs_ok gs" "gwidth gs = row_columnCount row" using assms(1) by (auto simp: row_repr_def)
  obtain base seen kept where parts: "join_parts c gs = (base, seen, kept)" by (cases "join_parts c gs")
  have base: "gbefore (gwidth base) gs = base" using join_parts_spec(10) [OF assms(1) _ parts] assms(2) gs(2) by simp
  obtain R where "gs = gbefore c gs @ R" using gsplit [OF gs(1), of c] assms(2) gs(2) by auto
  then have A: "gbefore (gwidth (gbefore c gs)) gs = gbefore c gs"
    using gbefore_append [of "gbefore c gs" R] gs(1) by (metis append_Nil2 gbefore_0 glyphs_ok_simps(3))
  show ?thesis
    using assms(3) base A unfolding plan_text_def Let_def parts
    by (auto simp: front_def simp del: fit.simps split: prod.splits if_splits)
qed

end
