(* ===== verification/Row_Copy.thy ===== *)
theory Row_Copy
  imports Row_Text
begin

text \<open>
  \<open>CopyTextFrom\<close>, \<open>CopyFrom\<close> and the functions that read a row, on the glyphs of the rows.
\<close>

subsection \<open>Copying\<close>

lemma offset_mask: "e AND CharOffsetsMask = word_of_nat (offset_of e)"
  by (simp add: offset_of_def)

lemma copy_offs:
  assumes "n + glen gs < 0x8000"
  shows "map (copyOffset (word_of_nat m - word_of_nat n)) (offs_of n gs) = offs_of m gs"
  using assms
proof (induction n gs arbitrary: m rule: offs_of.induct)
  case (2 n t w gs)
  have off: "copyOffset (word_of_nat m - word_of_nat n) (word_of_nat n) = word_of_nat m"
  proof -
    have "(word_of_nat n :: wchar) AND CharOffsetsMask = word_of_nat n" "(word_of_nat n :: wchar) AND CharOffsetsTrailer = 0"
      using 2(2) small_entry [of n] by (simp_all add: offset_mask trailer_of_def)
    then show ?thesis by (simp add: copyOffset_def)
  qed
  moreover have "copyOffset (word_of_nat m - word_of_nat n) (word_of_nat n OR CharOffsetsTrailer) = word_of_nat m OR CharOffsetsTrailer"
  proof -
    have "((word_of_nat n :: wchar) OR CharOffsetsTrailer) AND CharOffsetsMask = word_of_nat n"
      using 2(2) trailer_entry(2) [of n] unfolding offset_mask by simp
    moreover have "((word_of_nat n :: wchar) OR CharOffsetsTrailer) AND CharOffsetsTrailer = CharOffsetsTrailer"
      by (simp add: bit.conj_disj_distrib2)
    ultimately show ?thesis by (simp add: copyOffset_def)
  qed
  moreover have "map (copyOffset (word_of_nat m - word_of_nat n)) (offs_of (n + length t) gs) = offs_of (m + length t) gs"
    using 2(1) [of "m + length t"] 2(2) by simp
  ultimately show ?case by simp
qed simp

lemma gbefore_mono:
  assumes "glyphs_ok gs" "m \<le> k"
  shows "\<exists>R. gbefore k gs = gbefore m gs @ R"
  using assms
proof (induction k gs arbitrary: m rule: gbefore.induct)
  case (2 k g gs)
  then show ?case using 2(1) [of "m - snd g"] by (auto simp: diff_le_mono)
qed simp

text \<open>The source of a copy that starts at the first column of a glyph.\<close>

lemma copySource_glyphs:
  assumes src: "row_repr source sg"
    and sb: "clampedColumnInclusive (row_columnCount source) (rcs_sourceColumnBegin st) = sb"
    and sl: "clampedColumnInclusive (row_columnCount source) (rcs_sourceColumnLimit st) = sl" "sb < sl"
    and bound: "gwidth (gbefore sb sg) = sb"
  defines "S \<equiv> gafter sb sg" and "n \<equiv> glen (gbefore sb sg)"
  shows "copySource st source = Done (take (sl - sb + 1) (full n S), gtext (gbefore (sl - sb) S))"
    and "n + glen S < 0x8000" and "glyphs_ok S" and "sl - sb \<le> gwidth S"
proof -
  have sg: "glyphs_ok sg" "gwidth sg = row_columnCount source" "row_columnCount source \<le> 0x7fff" "glen sg < 0x8000"
      "row_charOffsets source = full 0 sg" using src by (auto simp: row_repr_def)
  have le: "sl \<le> gwidth sg" "sb \<le> gwidth sg" using sl sg(2) clampedColumnInclusive_le [OF sg(3)] by (metis, metis le_trans less_imp_le)
  have split: "sg = gbefore sb sg @ S" using gsplit [OF sg(1) le(2)] bound by (auto simp: S_def)
  have wd: "gwidth sg = sb + gwidth S" "glen sg = n + glen S"
    using arg_cong [OF split, of gwidth] arg_cong [OF split, of glen] bound by (simp_all add: n_def)
  show ok: "glyphs_ok S" and nS: "n + glen S < 0x8000" and slS: "sl - sb \<le> gwidth S"
    using sg(1,4) wd le by (simp_all add: S_def)
  have "drop sb (full 0 (gbefore sb sg @ S)) = full n S" using sg(1) bound by (simp add: n_def)
  then have tail: "drop sb (full 0 sg) = full n S" using split by simp
  have offs: "peek_range (row_charOffsets source) sb (sl - sb + 1) = Done (take (sl - sb + 1) (full n S))"
    using tail le sl(2) sg by (simp add: peek_range_def)
  have entry: "offset_of (full n S ! (sl - sb)) = n + glen (gbefore (sl - sb) S)"
    using adjustBackward_full(2) [OF ok slS nS, of "full n S"] ok slS by (simp add: uncheckedCharOffset_def peek_def)
  have "last (take (sl - sb + 1) (full n S)) = full n S ! (sl - sb)"
    using slS ok by (simp add: take_Suc_conv_app_nth)
  moreover have "hd (take (sl - sb + 1) (full n S)) = word_of_nat n" by (subst full_hd) simp
  moreover have "offset_of (word_of_nat n) = n" using nS small_entry(2) by simp
  moreover have "peek_range (row_chars source) n (glen (gbefore (sl - sb) S)) = Done (gtext (gbefore (sl - sb) S))"
    using peek_gtext [OF src split, of "glen (gbefore (sl - sb) S)"] gbefore_len(1) [of "sl - sb" S] take_gbefore_full(2) [OF ok slS]
    by (simp add: n_def)
  ultimately show "copySource st source = Done (take (sl - sb + 1) (full n S), gtext (gbefore (sl - sb) S))"
    using offs entry sb sl by (simp add: copySource_def Let_def)
qed

lemma wh_CopyTextFrom_glyphs:
  assumes repr: "row_repr row gs" and c: "c < l" "l \<le> row_columnCount row"
    and S: "glyphs_ok S" "n + glen S < 0x8000" "k \<le> gwidth S" "gwidth S \<le> 0x7fff" "0 < k"
  defines "h \<equiv> start_helper gs c l" and "m \<equiv> min (l - c) k"
  shows "wh_CopyTextFrom (take (k + 1) (full n S)) (row, h) =
    Done (row\<lparr>row_charOffsets := over (full 0 gs) c (offs_of (wh_chBeg h) (gbefore m S))\<rparr>,
      h\<lparr>wh_colEnd := c + gwidth (gbefore m S), wh_colEndDirty := c + m, wh_charsConsumed := glen (gbefore m S)\<rparr>)"
proof -
  let ?offs = "take (k + 1) (full n S)" and ?new = "gbefore m S"
  have gs: "glyphs_ok gs" "gwidth gs = row_columnCount row" "row_columnCount row \<le> 0x7fff" "row_charOffsets row = full 0 gs"
    using repr by (auto simp: row_repr_def)
  have len: "length ?offs = k + 1" using S by simp
  have m: "m \<le> k" "m \<le> l - c" "narrow16 (l - c) = l - c" using c gs(3) by (simp_all add: m_def)
  have same: "?offs ! i = full n S ! i" if "i \<le> m" for i using that m by simp
  have mS: "m \<le> gwidth S" using m(1) S(3) by simp
  have adj: "adjustBackward ?offs m = Done (gwidth ?new)"
    using len m(1) by (intro adjustBackward_full(1) [OF S(1) mS S(2)] same) simp_all
  obtain R where R: "S = ?new @ R" using gsplit [OF S(1) mS] by blast
  have w: "gwidth ?new \<le> m" by (rule gbefore_width)
  have front: "take (gwidth ?new) (full n S) = offs_of n ?new" 
  proof -
    have "take (gwidth ?new) (full n (?new @ R)) = offs_of n ?new" using S(1) by simp
    then show ?thesis using R by simp
  qed
  have e0: "peek ?offs 0 = Done (word_of_nat n)" using full_hd [of n S] len by (simp add: peek_def) (metis nth_Cons_0)
  have "full n (?new @ R) ! gwidth ?new = word_of_nat (n + glen ?new)" using S(1) by (intro full_boundary) simp
  then have e1: "peek ?offs (gwidth ?new) = Done (word_of_nat (n + glen ?new))" using R w m len by (simp add: peek_def)
  have lenS: "n + glen ?new < 0x8000" using gbefore_len(1) [of m S] S(2) by simp
  have consumed: "unat (word_of_nat (n + glen ?new) :: wchar) - unat (word_of_nat n :: wchar) = glen ?new"
    using small_entry(3) [OF lenS] small_entry(3) [of n] lenS by simp
  have "peek_range ?offs 0 (gwidth ?new) = Done (offs_of n ?new)" using front w m len by (simp add: peek_range_def min_def)
  moreover have "map (copyOffset (word_of_nat (wh_chBeg h) - word_of_nat n)) (offs_of n ?new) = offs_of (wh_chBeg h) ?new"
    by (rule copy_offs [OF lenS])
  moreover have "poke_range (full 0 gs) c (offs_of (wh_chBeg h) ?new) = Done (over (full 0 gs) c (offs_of (wh_chBeg h) ?new))"
    using w m c gs S(1) by (intro poke_range_over) simp
  ultimately have copy: "copyOffsets (full 0 gs) c ?offs (gwidth ?new) (word_of_nat (wh_chBeg h) - word_of_nat n)
      = Done (over (full 0 gs) c (offs_of (wh_chBeg h) ?new))"
    by (simp add: copyOffsets_def)
  have "narrow16 (c + gwidth ?new) = c + gwidth ?new" "narrow16 (c + m) = c + m" using w m c gs(3) by simp_all
  moreover have "wh_colBeg h = c" "wh_colLimit h = l" "wh_colEnd h = c" by (simp_all add: h_def)
  moreover have "min (narrow16 (l - c)) (length ?offs - 1) = m" "\<not> 65535 < length ?offs - 1"
    using len m(3) S by (simp_all add: m_def)
  ultimately show ?thesis
    using adj e0 e1 copy consumed by (simp only: wh_CopyTextFrom_def Let_def fst_conv snd_conv gs(4) obind.simps if_False)
qed

theorem CopyTextFrom_glyphs:
  assumes repr: "row_repr row gs" and src: "row_repr source sg"
    and c: "clampedColumnInclusive (row_columnCount row) (rcs_columnBegin st) = c"
      "clampedColumnInclusive (row_columnCount row) (rcs_columnLimit st) = l" "c < l"
    and sb: "clampedColumnInclusive (row_columnCount source) (rcs_sourceColumnBegin st) = sb"
    and sl: "clampedColumnInclusive (row_columnCount source) (rcs_sourceColumnLimit st) = sl" "sb < sl"
    and bound: "gwidth (gbefore sb sg) = sb" and some: "gbefore (sl - sb) (gafter sb sg) \<noteq> []"
  defines "m \<equiv> min (l - c) (sl - sb)"
  defines "new \<equiv> gbefore m (gafter sb sg)"
  assumes fits: "glen (place (front c gs @ new) (c + m) gs) \<le> 0x7fff"
  shows "\<exists>row'. CopyTextFrom st source False row =
      Done (row', Some (st\<lparr>rcs_columnEnd := int (if new = gbefore (sl - sb) (gafter sb sg) then c + gwidth new else l),
        rcs_columnBeginDirty := int (gwidth (gbefore c gs)), rcs_columnEndDirty := int (gwidth gs - gwidth (gafter (c + m) gs)),
        rcs_sourceColumnEnd := int (sb + gwidth new)\<rparr>))
    \<and> row_repr row' (place (front c gs @ new) (c + m) gs)
    \<and> text_update row row' (if gafter (c + m) gs = [] then c + gwidth new < row_columnCount row else row_doubleBytePadded row)"
proof -
  let ?S = "gafter sb sg" let ?all = "gbefore (sl - sb) ?S" and ?h = "start_helper gs c l"
  have gs: "glyphs_ok gs" "row_columnCount row \<le> 0x7fff" using repr by (auto simp: row_repr_def)
  have sg: "glyphs_ok sg" "gwidth sg \<le> 0x7fff" using src by (auto simp: row_repr_def)
  have l: "l \<le> row_columnCount row" using c(2) clampedColumnInclusive_le [OF gs(2)] by blast
  note S = copySource_glyphs [OF src sb sl bound]
  have Sw: "gwidth ?S \<le> 0x7fff" using gafter_len(2) [of sb sg] sg(2) by simp
  have start: "WriteHelper_new row (rcs_columnBegin st) (rcs_columnLimit st) = Done ?h" by (rule WriteHelper_new_glyphs [OF repr c(1,2)])
  have ok: "glyphs_ok ?all" "glyphs_ok new" using S(3) by (simp_all add: new_def)
  have valid: "wh_IsValid ?h (gtext ?all)" using c(3) some ok(1) by (cases ?all) (auto simp: wh_IsValid_def)
  obtain R where R: "?all = new @ R" using gbefore_mono [OF S(3), of m "sl - sb"] by (auto simp: m_def new_def)
  have "glyphs_ok R" using ok(1) R by simp
  then have allnew: "glen new = glen ?all \<longleftrightarrow> new = ?all" using R by (cases R) auto
  have front: "hd (take (sl - sb + 1) (full (glen (gbefore sb sg)) ?S)) = word_of_nat (glen (gbefore sb sg))" by (subst full_hd) simp
  have guard: "\<not> trailer_of (hd (take (sl - sb + 1) (full (glen (gbefore sb sg)) ?S)))" "\<not> length (take (sl - sb + 1) (full (glen (gbefore sb sg)) ?S)) < 2"
    using small_entry(1) [of "glen (gbefore sb sg)"] S(2-4) sl(2) front by simp_all
  have copy: "wh_CopyTextFrom (take (sl - sb + 1) (full (glen (gbefore sb sg)) ?S)) (row, ?h) =
      Done (row\<lparr>row_charOffsets := over (full 0 gs) c (offs_of (wh_chBeg ?h) new)\<rparr>,
        ?h\<lparr>wh_colEnd := c + gwidth new, wh_colEndDirty := c + m, wh_charsConsumed := glen new\<rparr>)"
    using wh_CopyTextFrom_glyphs [OF repr c(3) l S(3,2,4) Sw] sl(2) by (simp add: m_def new_def)
  have "gtext new = take (glen new) (gtext ?all)" using R by simp
  moreover have "c + gwidth new \<le> c + m" "c + m \<le> row_columnCount row" using gbefore_width [of m ?S] c(3) l by (simp_all add: new_def m_def)
  ultimately obtain row' where fin: "wh_Finish (gtext ?all) (row\<lparr>row_charOffsets := over (full 0 gs) c (offs_of (wh_chBeg ?h) new)\<rparr>,
        ?h\<lparr>wh_colEnd := c + gwidth new, wh_colEndDirty := c + m, wh_charsConsumed := glen new\<rparr>) =
      Done (row', ?h\<lparr>wh_colEnd := c + gwidth new, wh_colEndDirty := c + m, wh_charsConsumed := glen new\<rparr>
        \<lparr>wh_colEndDirty := gwidth gs - gwidth (gafter (c + m) gs)\<rparr>)"
      "row_repr row' (place (front c gs @ new) (c + m) gs)"
      "text_update row row' (if gafter (c + m) gs = [] then c + gwidth new < row_columnCount row else row_doubleBytePadded row)"
    using Finish_after [OF repr _ _ ok(2), of c "c + m" "gtext ?all" l] fits by (auto simp: front_def)
  have "CopyTextFrom st source False row =
      Done (row', Some (st\<lparr>rcs_columnEnd := int (if new = ?all then c + gwidth new else l),
        rcs_columnBeginDirty := int (gwidth (gbefore c gs)), rcs_columnEndDirty := int (gwidth gs - gwidth (gafter (c + m) gs)),
        rcs_sourceColumnEnd := int (sb + gwidth new)\<rparr>))"
    unfolding CopyTextFrom_def S(1) obind.simps prod.case start
    using valid guard copy fin(1) allnew sb by (simp add: on_exception_def)
  then show ?thesis using fin(2,3) by blast
qed

text \<open>A range of the source that starts inside of a wide glyph, or has no whole glyph, copies nothing; so does a copy onto itself.\<close>

lemma copySource_nothing:
  assumes src: "row_repr source sg"
    and sb: "clampedColumnInclusive (row_columnCount source) (rcs_sourceColumnBegin st) = sb"
    and sl: "clampedColumnInclusive (row_columnCount source) (rcs_sourceColumnLimit st) = sl"
    and none: "sl \<le> sb \<or> gwidth (gbefore sb sg) \<noteq> sb \<or> gbefore (sl - sb) (gafter sb sg) = []"
  shows "\<exists>offs chars. copySource st source = Done (offs, chars) \<and> (chars = [] \<or> trailer_of (hd offs))"
proof (cases "sb < sl \<and> gwidth (gbefore sb sg) \<noteq> sb")
  case True
  have sg: "glyphs_ok sg" "gwidth sg = row_columnCount source" "row_columnCount source \<le> 0x7fff" "glen sg < 0x8000"
      "row_charOffsets source = full 0 sg" "glen sg \<le> length (row_chars source)" using src by (auto simp: row_repr_def)
  have le: "sl \<le> gwidth sg" "sb \<le> gwidth sg" using True sl sg(2) clampedColumnInclusive_le [OF sg(3)] by (metis, metis le_trans less_imp_le)
  let ?offs = "take (sl - sb + 1) (drop sb (full 0 sg))"
  have offs: "peek_range (row_charOffsets source) sb (sl - sb + 1) = Done ?offs" using le True sg by (simp add: peek_range_def)
  have entry: "offset_of (full 0 sg ! k) = glen (gbefore k sg)" if "k \<le> gwidth sg" for k
    using adjustBackward_glyphs(2) [OF sg(1) that sg(4)] that sg(1) by (simp add: uncheckedCharOffset_def peek_def)
  have hd: "hd ?offs = full 0 sg ! sb" using le sg(1) by (simp add: hd_drop_conv_nth)
  have "trailer_of (full 0 sg ! sb)"
    using adjustBackward_glyphs(3) [OF sg(1) le(2) sg(4)] True le sg(1) gbefore_width [of sb sg] by (simp add: uncheckedIsTrailer_def peek_def)
  moreover have "sl - sb < Suc (gwidth sg) - sb" using le True by linarith
  then have last: "last ?offs = full 0 sg ! sl"
    using take_Suc_conv_app_nth [of "sl - sb" "drop sb (full 0 sg)"] le True sg(1) by simp
  have "glen (gbefore sb sg) + (glen (gbefore sl sg) - glen (gbefore sb sg)) \<le> length (row_chars source)"
    using gbefore_len(1) [of sl sg] gbefore_len(1) [of sb sg] sg(6) by simp
  then have "\<exists>chars. copySource st source = Done (?offs, chars)"
    using offs sb sl True entry [OF le(1)] entry [OF le(2)] hd last by (simp add: copySource_def Let_def peek_range_def)
  ultimately show ?thesis using hd by metis
next
  case False
  show ?thesis
  proof (cases "sb < sl")
    case True
    then have b: "gwidth (gbefore sb sg) = sb" "gbefore (sl - sb) (gafter sb sg) = []" using False none by auto
    show ?thesis using copySource_glyphs(1) [OF src sb sl True b(1)] b(2) by simp
  qed (use sb sl in \<open>simp add: copySource_def Let_def\<close>)
qed

subsection \<open>Reading\<close>

text \<open>The glyph a column belongs to: the first one that is not in front of the column as a whole.\<close>

definition glyph_at :: "nat \<Rightarrow> glyph list \<Rightarrow> glyph" where
  "glyph_at c gs = gs ! length (gbefore c gs)"

lemma glyph_at_split:
  assumes "glyphs_ok gs" "c < gwidth gs"
  shows "gs = gbefore c gs @ glyph_at c gs # gafter (c + 1) gs"
    and "gwidth (gbefore c gs) \<le> c" and "c < gwidth (gbefore c gs) + snd (glyph_at c gs)"
proof -
  have "gs = gbefore c gs @ glyph_at c gs # gafter (c + 1) gs \<and> c < gwidth (gbefore c gs) + snd (glyph_at c gs)"
    using assms
  proof (induction c gs rule: gbefore.induct)
    case (2 c g gs)
    consider "snd g \<le> c" | "c = 0" | "c = 1" "snd g = 2" using 2(2) by fastforce
    then show ?case
    proof cases
      case 1
      have "gs = gbefore (c - snd g) gs @ glyph_at (c - snd g) gs # gafter (c - snd g + 1) gs
          \<and> c - snd g < gwidth (gbefore (c - snd g) gs) + snd (glyph_at (c - snd g) gs)"
        using 1 2(2,3) by (intro 2(1)) auto
      moreover have "glyph_at c (g # gs) = glyph_at (c - snd g) gs" using 1 by (simp add: glyph_at_def)
      moreover have "c + 1 - snd g = c - snd g + 1" using 1 by simp
      ultimately show ?thesis using 1 2(2) by auto
    qed (use 2(2) in \<open>auto simp: glyph_at_def\<close>)
  qed simp
  then show "gs = gbefore c gs @ glyph_at c gs # gafter (c + 1) gs" "c < gwidth (gbefore c gs) + snd (glyph_at c gs)" by auto
  show "gwidth (gbefore c gs) \<le> c" by (rule gbefore_width)
qed

lemma row_repr_offs:
  assumes "row_repr row gs"
  shows "row_charOffsets row = full 0 gs" "glyphs_ok gs" "glen gs < 0x8000" "gwidth gs = row_columnCount row" "row_columnCount row \<le> 0x7fff"
  using assms by (auto simp: row_repr_def)

lemma adjustForward_row:
  assumes "row_repr row gs" "c \<le> row_columnCount row"
  shows "adjustForward (row_charOffsets row) c = Done (gwidth gs - gwidth (gafter c gs))"
    and "uncheckedCharOffset (row_charOffsets row) (gwidth gs - gwidth (gafter c gs)) = Done (glen gs - glen (gafter c gs))"
  using adjustForward_glyphs [of gs c "full 0 gs"] row_repr_offs [OF assms(1)] assms(2) by simp_all

lemma adjustBackward_row:
  assumes "row_repr row gs" "c \<le> row_columnCount row"
  shows "adjustBackward (row_charOffsets row) c = Done (gwidth (gbefore c gs))"
    and "uncheckedCharOffset (row_charOffsets row) c = Done (glen (gbefore c gs))"
    and "uncheckedIsTrailer (row_charOffsets row) c = Done (gwidth (gbefore c gs) < c)"
  using adjustBackward_glyphs [of gs c] row_repr_offs [OF assms(1)] assms(2) by simp_all

lemma GlyphAt_glyphs:
  assumes repr: "row_repr row gs" and c: "c < row_columnCount row"
  shows "GlyphAt (int c) row = Done (fst (glyph_at c gs))"
    and "DbcsAttrAt (int c) row = Done (if gwidth (gbefore c gs) < c then Trailing else if snd (glyph_at c gs) = 2 then Leading else Single)"
    and "AdjustToGlyphStart (int c) row = Done (gwidth (gbefore c gs))"
    and "NavigateToNext (int c) row = Done (gwidth (gbefore c gs) + snd (glyph_at c gs))"
proof -
  note r = row_repr_offs [OF repr]
  let ?g = "glyph_at c gs" let ?A = "gbefore c gs" and ?R = "gafter (c + 1) gs"
  note g = glyph_at_split [OF r(2), of c]
  have split: "gs = ?A @ ?g # ?R" "gwidth ?A \<le> c" "c < gwidth ?A + snd ?g" using g c r(4) by simp_all
  have ok: "snd ?g \<le> 2" "1 \<le> snd ?g" using r(2) split(1) by (metis glyphs_ok_simps(2,3))+
  have gw: "gwidth gs - gwidth ?R = gwidth ?A + snd ?g" "glen gs - glen ?R = glen ?A + length (fst ?g)"
    using arg_cong [OF split(1), of gwidth] arg_cong [OF split(1), of glen] by simp_all
  have clamp: "clampedColumn (row_columnCount row) (int c) = c" using clampedColumn_eq c r(5) by simp
  have c1: "c + 1 \<le> row_columnCount row" "c \<le> row_columnCount row" using c by simp_all
  note fwd = adjustForward_row [OF repr c1(1), unfolded gw] and bwd = adjustBackward_row [OF repr c1(2)]
  have "peek_range (row_chars row) (glen ?A) (length (fst ?g)) = Done (fst ?g)"
    using peek_gtext [OF repr split(1), of "length (fst ?g)"] by simp
  then show "GlyphAt (int c) row = Done (fst ?g)"
    using fwd bwd(2) clamp by (simp add: GlyphAt_def Let_def)
  show "AdjustToGlyphStart (int c) row = Done (gwidth ?A)" using bwd(1) clamp by (simp add: AdjustToGlyphStart_def)
  have "clampedColumnInclusive (row_columnCount row) (int c + 1) = c + 1"
    using clampedColumnInclusive_eq [OF r(5) c1(1)] by (simp add: add.commute)
  then show "NavigateToNext (int c) row = Done (gwidth ?A + snd ?g)" using fwd(1) by (simp add: NavigateToNext_def)
  have next_trailer: "uncheckedIsTrailer (row_charOffsets row) (c + 1) = Done (gwidth (gbefore (c + 1) gs) < c + 1)"
    by (rule adjustBackward_row(3) [OF repr c1(1)])
  have "gbefore (c + 1) gs = (if gwidth ?A = c \<and> snd ?g = 2 then ?A else ?A @ [?g])"
  proof (cases "gwidth ?A = c \<and> snd ?g = 2")
    case True
    then show ?thesis using gbefore_within [of ?A 1 ?g ?R] r(2) split(1) by simp
  next
    case False
    then have "gwidth (?A @ [?g]) = c + 1" using split(2,3) ok by auto
    then show ?thesis using gbefore_append [of "?A @ [?g]" ?R] r(2) split(1) False by (metis append.assoc append_Cons append_Nil gbefore_0 glyphs_ok_simps append_Nil2)
  qed
  then have "gwidth (gbefore (c + 1) gs) < c + 1 \<longleftrightarrow> snd ?g = 2" if "gwidth ?A = c" using that ok split(3) by auto
  then show "DbcsAttrAt (int c) row = Done (if gwidth ?A < c then Trailing else if snd ?g = 2 then Leading else Single)"
    using bwd(3) next_trailer clamp split(2) by (auto simp: DbcsAttrAt_def Let_def)
qed

lemma GetText_glyphs:
  assumes repr: "row_repr row gs" and n: "GetReadableColumnCount row = int n"
  shows "GetText row = Done (gtext (gbefore n gs))"
proof -
  note r = row_repr_offs [OF repr]
  have le: "n \<le> row_columnCount row" using n by (cases "row_doubleBytePadded row") (auto simp: GetReadableColumnCount_def split: if_splits)
  obtain R where R: "gs = gbefore n gs @ R" using gsplit [OF r(2), of n] le r(4) by auto
  have "peek_range (row_chars row) 0 (glen (gbefore n gs)) = Done (take (glen (gbefore n gs)) (gtext gs))"
    using peek_gtext [OF repr, of "[]" gs "glen (gbefore n gs)"] gbefore_len(1) [of n gs] by simp
  then show ?thesis
    using adjustBackward_row(2) [OF repr le] n R take_gbefore_full(2) [OF r(2), of n] le r(4)
    by (simp add: GetText_def offset_at_def)
qed

subsubsection \<open>From a position in the text to its column\<close>

lemma mapper_forward_exists:
  assumes "\<exists>k. c \<le> k \<and> k < length offs \<and> target \<le> int (offset_of (offs ! k))"
  shows "\<exists>j. mapper_forward offs target c = Done j \<and> c \<le> j \<and> j < length offs \<and> target \<le> int (offset_of (offs ! j))"
  using assms
proof (induction offs target c rule: mapper_forward.induct)
  case (1 offs target c)
  then obtain k where k: "c \<le> k" "k < length offs" "target \<le> int (offset_of (offs ! k))" by blast
  show ?case
  proof (cases "target > int (offset_of (offs ! c))")
    case True
    then have "c + 1 \<le> k" using k by (metis Suc_eq_plus1 le_neq_implies_less less_eq_Suc_le not_less)
    then have "\<exists>j. mapper_forward offs target (c + 1) = Done j \<and> c + 1 \<le> j \<and> j < length offs \<and> target \<le> int (offset_of (offs ! j))"
      using 1(1) [OF _ True] k by auto
    then show ?thesis using True k by (subst mapper_forward.simps) auto
  next
    case False
    then show ?thesis using k by (subst mapper_forward.simps) auto
  qed
qed

lemma mapper_backward_eq:
  assumes "j \<le> c" "c < length offs" "\<And>i. j < i \<Longrightarrow> i \<le> c \<Longrightarrow> target < int (unat (offs ! i))" "int (unat (offs ! j)) \<le> target"
  shows "mapper_backward offs target c = Done j"
  using assms
proof (induction c)
  case 0
  then show ?case by (subst mapper_backward.simps) (simp add: peek_def)
next
  case (Suc c)
  show ?case
  proof (cases "j = Suc c")
    case True
    then show ?thesis using Suc(3-) by (subst mapper_backward.simps) (simp add: peek_def)
  next
    case False
    have "mapper_backward offs target c = Done j" using Suc(2-) False by (intro Suc(1)) auto
    then show ?thesis using Suc(2-4) False by (subst mapper_backward.simps) (simp add: peek_def)
  qed
qed

lemma gbefore_strict:
  assumes "glyphs_ok (A @ R)" "c < gwidth A"
  shows "glen (gbefore c (A @ R)) < glen A"
  using assms
proof (induction A arbitrary: c)
  case (Cons g A)
  then show ?case using Cons(1) [of "c - snd g"] by auto
qed simp

text \<open>
  An entry as a number: behind the first column of a glyph it is larger than every position of the text of the glyphs up
  to that one.
\<close>

lemma entry_unat:
  assumes "glyphs_ok gs" "glen gs < 0x8000" "c \<le> gwidth gs"
  shows "offset_of (full 0 gs ! c) = glen (gbefore c gs)"
    and "unat (full 0 gs ! c) = (if gwidth (gbefore c gs) = c then glen (gbefore c gs) else glen (gbefore c gs) + 0x8000)"
proof -
  show "offset_of (full 0 gs ! c) = glen (gbefore c gs)"
    using adjustBackward_glyphs(2) [OF assms(1,3,2)] assms by (simp add: uncheckedCharOffset_def peek_def)
  have len: "glen (gbefore c gs) < 0x8000" using gbefore_len(1) [of c gs] assms(2) by simp
  note b = full_boundary [OF glyphs_ok_before [OF assms(1)], of 0 c] and i = full_inside [OF glyphs_ok_before [OF assms(1)], of 0 c]
  from assms(1,3) show "unat (full 0 gs ! c) = (if gwidth (gbefore c gs) = c then glen (gbefore c gs) else glen (gbefore c gs) + 0x8000)"
  proof (cases rule: gsplit_cases)
    case boundary
    then have "full 0 gs ! c = word_of_nat (glen (gbefore c gs))" using b [of "gafter c gs"] by simp
    then show ?thesis using boundary(2) small_entry(3) [OF len] by simp
  next
    case (inside t)
    then have "full 0 gs ! c = word_of_nat (glen (gbefore c gs) + 0x8000)"
      using i [of t "gafter c gs"] trailer_entry(3) [OF len] by simp
    moreover have "unat (word_of_nat (glen (gbefore c gs) + 0x8000) :: wchar) = glen (gbefore c gs) + 0x8000"
      using len by (subst unat_of_nat) simp
    ultimately show ?thesis using inside(3) by simp
  qed
qed

lemma GetLeadingColumnAt_glyphs:
  assumes gs: "glyphs_ok gs" "glen gs < 0x8000" "gs = A @ R" and start: "start \<le> gwidth gs"
    and t: "glen A \<le> t" "R = [] \<and> t = glen A \<or> R \<noteq> [] \<and> t < glen A + length (fst (hd R))"
  defines "m \<equiv> \<lparr>cm_charOffsets = full 0 gs, cm_charsLength = int (glen gs), cm_currentColumn = start, cm_columnCount = gwidth gs\<rparr>"
  shows "GetLeadingColumnAt (int t) m = Done (m\<lparr>cm_currentColumn := gwidth A\<rparr>, gwidth A)"
proof -
  let ?F = "full 0 gs"
  have len: "length ?F = Suc (gwidth gs)" using gs(1) by simp
  have tl: "t \<le> glen gs" using t(2) gs(3) by (cases R) auto
  have wA: "gwidth A \<le> gwidth gs" and okA: "glyphs_ok A" using gs by simp_all
  have clampt: "clamp (int t) 0 (int (glen gs)) = int t" using tl by (simp add: clamp_def)
  have "offset_of (?F ! gwidth gs) = glen gs"
    using entry_unat(1) [OF gs(1,2) le_refl] gbefore_append [OF gs(1), of "[]"] by simp
  then have "\<exists>k. start \<le> k \<and> k < length ?F \<and> int t \<le> int (offset_of (?F ! k))" using start len tl by auto
  then obtain j where j: "mapper_forward ?F (int t) start = Done j" "j < length ?F" "t \<le> offset_of (?F ! j)"
    using mapper_forward_exists [of start ?F "int t"] by auto
  have jw: "j \<le> gwidth gs" using j(2) len by simp
  have jA: "gwidth A \<le> j"
  proof (rule ccontr)
    assume "\<not> gwidth A \<le> j"
    then have "glen (gbefore j gs) < glen A" using gbefore_strict [of A R j] gs(1,3) by simp
    then show False using entry_unat(1) [OF gs(1,2) jw] j(3) t(1) by simp
  qed
  have "mapper_backward ?F (int t) j = Done (gwidth A)"
  proof (rule mapper_backward_eq [OF jA j(2)])
    have "gbefore (gwidth A) gs = A" using gbefore_append [OF okA, of R] gs by simp
    then show "int (unat (?F ! gwidth A)) \<le> int t" using entry_unat(2) [OF gs(1,2) wA] t(1) by simp
    show "int t < int (unat (?F ! i))" if i: "gwidth A < i" "i \<le> j" for i
    proof -
      have iw: "i \<le> gwidth gs" using i(2) jw by simp
      have "R \<noteq> []" using i iw gs(3) by auto
      then obtain g R' where R: "R = g # R'" by (cases R) auto
      show ?thesis
      proof (cases "gwidth (gbefore i gs) = i")
        case True
        have "snd g \<le> i - gwidth A"
        proof (rule ccontr)
          assume "\<not> snd g \<le> i - gwidth A"
          then have "gbefore (gwidth A + (i - gwidth A)) gs = A" using gbefore_within [OF okA, of "i - gwidth A" g R'] gs(3) R by simp
          then show False using True i(1) by simp
        qed
        then have "gwidth (A @ [g]) \<le> i" using i(1) by simp
        then obtain R2 where "gbefore i gs = (A @ [g]) @ R2"
          using gbefore_mono [OF gs(1), of "gwidth (A @ [g])" i] gbefore_append [of "A @ [g]" R'] i(1) gs(1,3) R by auto
        then have "glen A + length (fst g) \<le> glen (gbefore i gs)" by simp
        then show ?thesis using entry_unat(2) [OF gs(1,2) iw] True t(2) R by simp
      next
        case False
        then show ?thesis using entry_unat(2) [OF gs(1,2) iw] tl gs(2) by simp
      qed
    qed
  qed
  then show ?thesis using j(1) clampt by (simp add: GetLeadingColumnAt_def m_def)
qed

end
