(* ===== verification/Row_Properties.thy ===== *)
theory Row_Properties
  imports Row_Copy
begin

text \<open>
  The properties of a row: its vectorised initialisation, the interface the text buffer relies on (what a
  write leaves for a read), writing text, copying, the way from text positions to columns, and how much text a
  row can hold.
\<close>

subsection \<open>Initialisation\<close>

lemma over_cover:
  assumes "p \<le> k" "p + n \<le> length xs" "k \<le> length xs"
  shows "over (over xs 0 (map g [0..<k])) p (map g [p..<p + n]) = over xs 0 (map g [0..<max k (p + n)])"
proof (rule nth_equalityI)
  show "length (over (over xs 0 (map g [0..<k])) p (map g [p..<p + n])) = length (over xs 0 (map g [0..<max k (p + n)]))"
    using assms by (simp add: over_def)
  show "over (over xs 0 (map g [0..<k])) p (map g [p..<p + n]) ! i = over xs 0 (map g [0..<max k (p + n)]) ! i"
    if "i < length (over (over xs 0 (map g [0..<k])) p (map g [p..<p + n]))" for i
    using assms that by (auto simp: over_def nth_append min_def max_def)
qed

lemma iota_map: "iota n v = map word_of_nat [v..<v + n]" and spaces_map: "replicate n (0x20 :: wchar) = map (\<lambda>_. 0x20) [v..<v + n]"
  by (simp_all add: iota_def map_replicate_const)

text \<open>The buffers after the first \<open>k\<close> elements have been initialised.\<close>

definition initialised :: "wstring \<times> wchar list \<Rightarrow> nat \<Rightarrow> wstring \<times> wchar list" where
  "initialised bufs k = (over (fst bufs) 0 (replicate k 0x20), over (snd bufs) 0 (iota k 0))"

lemma store_lanes_initialised:
  assumes "p \<le> k" "p + n \<le> N" "k \<le> N" "length (fst bufs) = N" "length (snd bufs) = N"
  shows "store_lanes n p p (initialised bufs k) = Done (initialised bufs (max k (p + n)))"
proof -
  have "over (over (fst bufs) 0 (replicate k 0x20)) p (replicate n 0x20) = over (fst bufs) 0 (replicate (max k (p + n)) 0x20)"
    using over_cover [of p k n "fst bufs" "\<lambda>_. 0x20"] assms
      spaces_map [of k 0] spaces_map [of n p] spaces_map [of "max k (p + n)" 0] by simp
  moreover have "over (over (snd bufs) 0 (iota k 0)) p (iota n p) = over (snd bufs) 0 (iota (max k (p + n)) 0)"
    using over_cover [of p k n "snd bufs" word_of_nat] assms by (simp add: iota_map)
  ultimately show ?thesis
    using assms by (simp add: store_lanes_def initialised_def poke_range_over)
qed

lemma init_sse2_loop_initialised:
  assumes "8 dvd pos" "pos \<le> W" "length (fst bufs) = (W + 8) div 8 * 8" "length (snd bufs) = (W + 8) div 8 * 8"
  shows "init_sse2_loop W pos (initialised bufs pos) = Done (initialised bufs ((W + 8) div 8 * 8))"
  using assms
proof (induction "W - pos" arbitrary: pos rule: less_induct)
  case less
  have "pos + 8 \<le> (W + 8) div 8 * 8" using less(2,3) by presburger
  then have step: "store_lanes 8 pos pos (initialised bufs pos) = Done (initialised bufs (pos + 8))"
    using store_lanes_initialised [OF le_refl _ _ less(4,5), of pos 8] by simp
  show ?case
  proof (cases "pos + 8 \<le> W")
    case True
    then have "init_sse2_loop W (pos + 8) (initialised bufs (pos + 8)) = Done (initialised bufs ((W + 8) div 8 * 8))"
      using less(2-) by (intro less(1)) auto
    then show ?thesis using step True by (subst init_sse2_loop.simps) simp
  next
    case False
    then have "pos + 8 = (W + 8) div 8 * 8" using less(2,3) by presburger
    then show ?thesis using step False by (subst init_sse2_loop.simps) simp
  qed
qed

lemma init_avx2_loop_initialised:
  assumes "16 dvd pos" "8 dvd t" "t + 16 \<le> N" "pos \<le> t + 8" "length (fst bufs) = N" "length (snd bufs) = N"
  shows "\<exists>k. init_avx2_loop t pos (initialised bufs pos) = Done (initialised bufs k) \<and> t \<le> k \<and> k \<le> t + 8"
  using assms
proof (induction "t - pos" arbitrary: pos rule: less_induct)
  case less
  show ?case
  proof (cases "pos < t")
    case True
    then have le: "pos + 8 \<le> t" using less(2,3) by presburger
    then have "store_lanes 16 pos pos (initialised bufs pos) = Done (initialised bufs (pos + 16))"
      using store_lanes_initialised [OF le_refl _ _ less(6,7), of pos 16] less(4) by simp
    moreover have "\<exists>k. init_avx2_loop t (pos + 16) (initialised bufs (pos + 16)) = Done (initialised bufs k) \<and> t \<le> k \<and> k \<le> t + 8"
      using less(2-) True le by (intro less(1)) auto
    ultimately show ?thesis using True by (subst init_avx2_loop.simps) simp
  next
    case False
    then show ?thesis using less(5) by (subst init_avx2_loop.simps) auto
  qed
qed

lemma initialised_0: "initialised bufs 0 = bufs"
  by (simp add: initialised_def iota_def)

lemma row_init_initialised:
  assumes "length (fst bufs) = (W + 8) div 8 * 8" "length (snd bufs) = (W + 8) div 8 * 8"
  shows "row_init W bufs avx2 = Done (initialised bufs ((W + 8) div 8 * 8))"
proof (cases "avx2 \<and> W \<ge> 15")
  case True
  let ?t = "(W - 8) div 8 * 8" and ?N = "(W + 8) div 8 * 8"
  have t: "?t + 16 = ?N"
  proof -
    obtain V where "W = V + 8" using True le_Suc_ex [of 8 W] by (auto simp: add.commute)
    moreover have "(16 + V) div 8 = V div 8 + 2" using div_mult_self2 [of 8 V 2] by (simp add: add.commute)
    ultimately show ?thesis by simp
  qed
  obtain k where k: "init_avx2_loop ?t 0 (initialised bufs 0) = Done (initialised bufs k)" "?t \<le> k" "k \<le> ?t + 8"
    using init_avx2_loop_initialised [of 0 ?t ?N bufs] t assms by auto
  have "store_lanes 16 ?t ?t (initialised bufs k) = Done (initialised bufs ?N)"
    using store_lanes_initialised [OF k(2) _ _ assms] k(3) t by (simp add: max_def)
  then show ?thesis using k(1) True by (simp add: row_init_def init_avx2_def Let_def initialised_0)
next
  case False
  then show ?thesis
    using init_sse2_loop_initialised [of 0 W bufs] assms by (auto simp: row_init_def init_sse2_def initialised_0)
qed

lemma iota_full: "iota (Suc n) 0 = full 0 (spaces n)"
  by (simp add: full_def iota_def)

lemma init_plain_repr:
  assumes "row_columnCount row \<le> 0x7fff" "row_chars row = fst (init_plain (row_columnCount row))"
    "row_charOffsets row = snd (init_plain (row_columnCount row))"
  shows "row_repr row (spaces (row_columnCount row))"
  using assms by (simp add: row_repr_def init_plain_def iota_full)

lemma blank_row:
  "W \<le> 0x7fff \<Longrightarrow> row_repr (ROW_new W attr) (spaces W)"
  "row_columnCount row \<le> 0x7fff \<Longrightarrow> row_repr (row_Reset attr row) (spaces (row_columnCount row))"
  using init_plain_repr [of "ROW_new W attr"] init_plain_repr [of "row_Reset attr row"]
  by (simp_all add: ROW_new_def row_Reset_def)

subsection \<open>The interface to a row\<close>

text \<open>
  A row as its clients see it: glyphs can be put at a column and read at a column. The laws give what both do to the list
  of glyphs; what a client may rely on follows from them.
\<close>

definition put_glyphs :: "nat \<Rightarrow> wstring \<Rightarrow> nat \<Rightarrow> glyph list \<Rightarrow> glyph list" where
  "put_glyphs c t w gs = place (front c gs @ [(t, w)]) (c + w) gs"

lemma glyph_at_append:
  assumes "glyphs_ok A"
  shows "gwidth A \<le> c \<Longrightarrow> glyph_at c (A @ B) = glyph_at (c - gwidth A) B"
    and "c < gwidth A \<Longrightarrow> glyph_at c (A @ B) = glyph_at c A"
  using assms
proof (induction A arbitrary: c)
  case (Cons g A)
  { case 1 then show ?case using Cons(1) [of "c - snd g"] by (auto simp: glyph_at_def)
  next case 2 then show ?case using Cons(2) [of "c - snd g"] by (auto simp: glyph_at_def) }
qed simp_all

lemma glyph_at_Cons: "c < snd g \<Longrightarrow> glyph_at c (g # gs) = g"
  by (simp add: glyph_at_def)

lemma glyph_at_spaces: "c < n \<Longrightarrow> glyph_at c (spaces n) = ([0x20], 1)"
proof (induction n arbitrary: c)
  case (Suc n)
  then show ?case by (cases c) (simp_all add: spaces_def glyph_at_def)
qed simp

text \<open>What a column shows after a glyph was put.\<close>

lemma glyph_at_put:
  assumes "glyphs_ok gs" "c + w \<le> gwidth gs" "1 \<le> w" "w \<le> 2" "t \<noteq> []" "i < gwidth gs"
  defines "b \<equiv> gwidth (gbefore c gs)" and "E \<equiv> gwidth gs - gwidth (gafter (c + w) gs)"
  shows "glyph_at i (put_glyphs c t w gs) =
    (if i < b \<or> E \<le> i then glyph_at i gs else if c \<le> i \<and> i < c + w then (t, w) else ([0x20], 1))"
proof -
  let ?B = "gbefore c gs" and ?C = "gafter (c + w) gs"
  have b: "b \<le> c" using gbefore_width [of c gs] by (simp add: b_def)
  have E: "c + w \<le> E" "E \<le> gwidth gs" using gafter_end(1,2) [OF assms(1,2)] by (simp_all add: E_def)
  obtain P where P: "gs = P @ ?C" "gwidth P = E"
    using gafter_suffix [OF assms(1,2)] by (metis E_def add_diff_cancel_right' gwidth_simps(3))
  obtain R where R: "gs = ?B @ R" using gsplit [OF assms(1), of c] assms(2) by auto
  have okP: "glyphs_ok P" using assms(1) P(1) by (metis glyphs_ok_simps(3))
  define X where "X = ?B @ spaces (c - b)"
  define Y where "Y = spaces (E - (c + w))"
  have X: "glyphs_ok X" "gwidth X = c" using assms(1) b by (simp_all add: X_def b_def)
  have put: "put_glyphs c t w gs = X @ (t, w) # Y @ ?C"
    using gbefore_width [of c gs] by (simp add: put_glyphs_def place_def front_def X_def Y_def E_def b_def)
  consider "i < b" | "b \<le> i" "i < c" | "c \<le> i" "i < c + w" | "c + w \<le> i" "i < E" | "E \<le> i" by linarith
  then show ?thesis
  proof cases
    case 1
    have "glyph_at i (X @ (t, w) # Y @ ?C) = glyph_at i ?B"
      using 1 b X glyph_at_append(2) [of ?B i "spaces (c - b)"] glyph_at_append(2) [of X i] assms(1) by (simp add: X_def b_def)
    moreover have "glyph_at i gs = glyph_at i ?B" using 1 R glyph_at_append(2) [of ?B i R] assms(1) by (simp add: b_def)
    ultimately show ?thesis using 1 by (simp add: put)
  next
    case 2
    have "glyph_at i (X @ (t, w) # Y @ ?C) = glyph_at (i - b) (spaces (c - b))"
      using 2 X glyph_at_append(1) [of ?B i "spaces (c - b)"] glyph_at_append(2) [of X i] assms(1) by (simp add: X_def b_def)
    then show ?thesis using 2 E glyph_at_spaces [of "i - b" "c - b"] by (simp add: put)
  next
    case 3
    have "glyph_at i (X @ (t, w) # Y @ ?C) = (t, w)"
      using 3 X glyph_at_append(1) [of X i] glyph_at_Cons [of "i - c" "(t, w)"] by simp
    then show ?thesis using 3 b E by (simp add: put)
  next
    case 4
    have "glyph_at i (X @ (t, w) # Y @ ?C) = glyph_at (i - (c + w)) (spaces (E - (c + w)))"
      using 4 X assms(3-5) glyph_at_append(1) [of "X @ [(t, w)]" i] glyph_at_append(2) [of Y "i - (c + w)"] by (simp add: Y_def)
    then show ?thesis using 4 b glyph_at_spaces [of "i - (c + w)" "E - (c + w)"] by (simp add: put)
  next
    case 5
    have "glyph_at i (X @ (t, w) # Y @ ?C) = glyph_at (i - E) ?C"
      using 5 E X assms(3-5) glyph_at_append(1) [of "X @ (t, w) # Y" i ?C] by (simp add: Y_def)
    moreover have "glyph_at i gs = glyph_at (i - E) ?C" using 5 P glyph_at_append(1) [OF okP, of i ?C] by simp
    ultimately show ?thesis using 5 by (simp add: put)
  qed
qed

lemma glyphs_ok_put: "glyphs_ok gs \<Longrightarrow> 1 \<le> w \<Longrightarrow> w \<le> 2 \<Longrightarrow> t \<noteq> [] \<Longrightarrow> glyphs_ok (put_glyphs c t w gs)"
  by (simp add: put_glyphs_def place_def)

lemma put_glyphs_len:
  assumes "glyphs_ok gs" "c + w \<le> gwidth gs"
  shows "glen (put_glyphs c t w gs) \<le> glen gs + length t + 2"
proof -
  have "glen (gbefore c gs) + glen (gafter (c + w) gs) \<le> glen gs"
    using gafter_end(1) [OF assms] gafter_end(3) [OF assms, of c] by simp
  moreover have "gwidth gs - gwidth (gafter (c + w) gs) - (c + w) \<le> 1"
    using gafter_suffix [OF assms] by (metis Suc_eq_plus1 add_diff_cancel_right' diff_add_inverse diff_le_mono gwidth_simps(3))
  moreover have "c - gwidth (gbefore c gs) \<le> 1" using gbefore_lead [OF assms(1)] assms(2) by simp
  ultimately show ?thesis by (simp add: put_glyphs_def place_def front_def)
qed

lemma text_update_columns: "text_update r r' p \<Longrightarrow> row_columnCount r' = row_columnCount r"
  unfolding text_update_def by (drule arg_cong [of _ _ row_columnCount]) simp

locale glyph_row =
  fixes repr :: "'r \<Rightarrow> glyph list \<Rightarrow> bool"
    and columns :: "'r \<Rightarrow> nat"
    and put :: "int \<Rightarrow> nat \<Rightarrow> wstring \<Rightarrow> 'r \<Rightarrow> ('r \<times> unit option) outcome"
    and get :: "int \<Rightarrow> 'r \<Rightarrow> wstring outcome"
  assumes repr_glyphs: "repr r gs \<Longrightarrow> glyphs_ok gs \<and> gwidth gs = columns r"
    and put_law: "repr r gs \<Longrightarrow> c + w \<le> columns r \<Longrightarrow> 1 \<le> w \<Longrightarrow> w \<le> 2 \<Longrightarrow> t \<noteq> [] \<Longrightarrow> glen (put_glyphs c t w gs) \<le> 0x7fff \<Longrightarrow>
      \<exists>r'. put (int c) w t r = Done (r', Some ()) \<and> repr r' (put_glyphs c t w gs) \<and> columns r' = columns r"
    and get_law: "repr r gs \<Longrightarrow> c < columns r \<Longrightarrow> get (int c) r = Done (fst (glyph_at c gs))"
begin

lemma put_get:
  assumes r: "repr r gs" "c + w \<le> columns r" "1 \<le> w" "w \<le> 2" "t \<noteq> []" "glen gs + length t + 2 \<le> 0x7fff"
  shows "\<exists>r'. put (int c) w t r = Done (r', Some ()) \<and> columns r' = columns r
    \<and> (\<forall>i < columns r. get (int i) r' =
        (if i < gwidth (gbefore c gs) \<or> gwidth gs - gwidth (gafter (c + w) gs) \<le> i then get (int i) r
         else Done (if c \<le> i \<and> i < c + w then t else [0x20])))"
proof -
  have gs: "glyphs_ok gs" "gwidth gs = columns r" using repr_glyphs [OF r(1)] by simp_all
  have "glen (put_glyphs c t w gs) \<le> 0x7fff" using put_glyphs_len [OF gs(1), of c w t] r(2,6) gs(2) by simp
  then obtain r' where r': "put (int c) w t r = Done (r', Some ())" "repr r' (put_glyphs c t w gs)" "columns r' = columns r"
    using put_law [OF r(1-5)] by auto
  have "get (int i) r' = (if i < gwidth (gbefore c gs) \<or> gwidth gs - gwidth (gafter (c + w) gs) \<le> i then get (int i) r
         else Done (if c \<le> i \<and> i < c + w then t else [0x20]))" if i: "i < columns r" for i
    using get_law [OF r'(2), of i] get_law [OF r(1) i] glyph_at_put [OF gs(1) _ r(3-5), of c i] r(2) r'(3) i gs(2) by auto
  then show ?thesis using r' by blast
qed

text \<open>The last glyph put at a place is the one that is read; the first of the two leaves no trace inside its own columns.\<close>

lemma put_put_get:
  assumes r: "repr r gs" "c + w \<le> columns r" "1 \<le> w" "w \<le> 2" "t \<noteq> []" "u \<noteq> []" "glen gs + length t + length u + 4 \<le> 0x7fff"
  shows "\<exists>r1 r2. put (int c) w t r = Done (r1, Some ()) \<and> put (int c) w u r1 = Done (r2, Some ())
    \<and> (\<forall>i. c \<le> i \<and> i < c + w \<longrightarrow> get (int i) r2 = Done u)"
proof -
  have gs: "glyphs_ok gs" "gwidth gs = columns r" using repr_glyphs [OF r(1)] by simp_all
  have len: "glen (put_glyphs c t w gs) \<le> glen gs + length t + 2" using put_glyphs_len [OF gs(1), of c w t] r(2) gs(2) by simp
  then obtain r1 where r1: "put (int c) w t r = Done (r1, Some ())" "repr r1 (put_glyphs c t w gs)" "columns r1 = columns r"
    using put_law [OF r(1-5)] r(7) by auto
  let ?gs1 = "put_glyphs c t w gs"
  have c1: "c + w \<le> columns r1" "gwidth ?gs1 = columns r1" using r(2) r1(3) repr_glyphs [OF r1(2)] by simp_all
  obtain r2 where r2: "put (int c) w u r1 = Done (r2, Some ())"
      "\<forall>i < columns r1. get (int i) r2 =
        (if i < gwidth (gbefore c ?gs1) \<or> gwidth ?gs1 - gwidth (gafter (c + w) ?gs1) \<le> i then get (int i) r1
         else Done (if c \<le> i \<and> i < c + w then u else [0x20]))"
    using put_get [OF r1(2) c1(1) r(3,4,6)] len r(7) by auto
  have "gwidth (gbefore c ?gs1) \<le> c" "c + w \<le> gwidth ?gs1 - gwidth (gafter (c + w) ?gs1)"
    using gbefore_width gafter_end(1) [of ?gs1 "c + w"] glyphs_ok_put [OF gs(1) r(3-5)] c1 by simp_all
  then have "get (int i) r2 = Done u" if "c \<le> i" "i < c + w" for i
    using r2(2) that c1 by auto
  then show ?thesis using r1(1) r2(1) by blast
qed

end

interpretation row: glyph_row row_repr row_columnCount ReplaceCharacters GlyphAt
proof
  show "glyphs_ok gs \<and> gwidth gs = row_columnCount r" if "row_repr r gs" for r gs using that by (simp add: row_repr_def)
  show "GlyphAt (int c) r = Done (fst (glyph_at c gs))" if "row_repr r gs" "c < row_columnCount r" for r gs c
    by (rule GlyphAt_glyphs(1) [OF that])
  show "\<exists>r'. ReplaceCharacters (int c) w t r = Done (r', Some ()) \<and> row_repr r' (put_glyphs c t w gs) \<and> row_columnCount r' = row_columnCount r"
    if h: "row_repr r gs" "c + w \<le> row_columnCount r" "1 \<le> w" "w \<le> 2" "t \<noteq> []" "glen (put_glyphs c t w gs) \<le> 0x7fff" for r gs c w t
  proof -
    have c: "c < row_columnCount r" using h(2,3) by simp
    obtain r' p where "ReplaceCharacters (int c) w t r = Done (r', Some ())" "row_repr r' (put_glyphs c t w gs)" "text_update r r' p"
      using ReplaceCharacters_glyphs [OF h(1) c h(3-5)] h(2,6) by (auto simp: put_glyphs_def)
    moreover from this(3) have "row_columnCount r' = row_columnCount r" by (rule text_update_columns)
    ultimately show ?thesis by blast
  qed
qed

text \<open>A row without padding that is as wide as its columns is copied with everything but its prompt mark.\<close>

lemma CopyFrom_plain:
  assumes "row_repr row gs" "row_repr source sg" "row_columnCount row = row_columnCount source" "0 < row_columnCount source"
    and "GetReadableColumnCount source = int (row_columnCount source)" "rle_total_length (row_attr source) = row_columnCount source"
  shows "\<exists>row'. CopyFrom source False row = Done (row', Some ()) \<and> row_repr row' sg \<and> GetText row' = GetText source
    \<and> row_attr row' = row_attr source \<and> row_lineRendition row' = row_lineRendition source \<and> row_wrapForced row' = row_wrapForced source
    \<and> row_columnCount row' = row_columnCount row \<and> \<not> row_doubleBytePadded row' \<and> row_promptData row' = row_promptData row"
proof -
  let ?W = "row_columnCount source" and ?st = "RowCopyTextFromState_init\<lparr>rcs_sourceColumnLimit := GetReadableColumnCount source\<rparr>"
  let ?row = "row\<lparr>row_lineRendition := row_lineRendition source, row_wrapForced := row_wrapForced source\<rparr>"
  note rg = row_repr_offs [OF assms(1)] and rs = row_repr_offs [OF assms(2)]
  have repr: "row_repr ?row gs" using assms(1) by (simp add: row_repr_def)
  have cols: "clampedColumnInclusive (row_columnCount ?row) (rcs_columnBegin ?st) = 0"
      "clampedColumnInclusive (row_columnCount ?row) (rcs_columnLimit ?st) = ?W"
      "clampedColumnInclusive ?W (rcs_sourceColumnBegin ?st) = 0" "clampedColumnInclusive ?W (rcs_sourceColumnLimit ?st) = ?W"
    using assms(3,5) rs(5) by (simp_all add: RowCopyTextFromState_init_def clampedColumnInclusive_def clamp_def int32_max_def)
  have whole: "gbefore ?W sg = sg" "gafter ?W gs = []"
    using gbefore_append [OF rs(2), of "[]"] gafter_append [OF rg(2), of "[]"] rs(4) rg(4) assms(3) by simp_all
  have ne: "sg \<noteq> []" using rs(4) assms(4) by auto
  have "place (front 0 gs @ sg) (0 + ?W) gs = sg"
    using rg(2,4) rs(4) assms(3) by (simp add: place_def front_def whole(2))
  then obtain row1 st' where copy: "CopyTextFrom ?st source False ?row = Done (row1, Some st')" "row_repr row1 sg"
      "text_update ?row row1 False"
    using CopyTextFrom_glyphs [OF repr assms(2) cols(1,2) assms(4) cols(3,4) assms(4)] whole ne rs(2-4) assms(3) by auto
  have frame: "row_columnCount row1 = ?W" "row_lineRendition row1 = row_lineRendition source" "row_wrapForced row1 = row_wrapForced source"
      "row_doubleBytePadded row1 = False" "row_promptData row1 = row_promptData row"
    using copy(3) assms(3) unfolding text_update_def
    by (auto dest: arg_cong [of _ _ row_columnCount] arg_cong [of _ _ row_lineRendition] arg_cong [of _ _ row_wrapForced]
        arg_cong [of _ _ row_doubleBytePadded] arg_cong [of _ _ row_promptData])
  define row' where "row' = row1\<lparr>row_attr := row_attr source\<rparr>"
  have "rle_resize_trailing_extent (row_columnCount row1) (row_attr source) = Some (row_attr source)"
    using frame(1) assms(4,6) by (simp add: rle_resize_trailing_extent_def Let_def)
  then have "CopyFrom source False row = Done (row', Some ())"
    using copy(1) by (simp add: CopyFrom_def Let_def row'_def)
  moreover have repr': "row_repr row' sg" using copy(2) by (simp add: row'_def row_repr_def)
  moreover have "GetReadableColumnCount row' = int ?W"
    using assms(4,5) frame by (auto simp: GetReadableColumnCount_def row'_def of_bool_def split: if_splits)
  then have "GetText row' = GetText source" using GetText_glyphs [OF repr'] GetText_glyphs [OF assms(2,5)] by simp
  ultimately show ?thesis using frame assms(3) by (auto simp: row'_def)
qed

subsection \<open>Properties\<close>

text \<open>
  C10. The initialisation of a row with vector instructions stays within the two buffers, whose size is
  \<open>CalculateCharsBufferSize\<close>, for every width and with either loop, and leaves a row of spaces with one code unit per
  column, what the portable loop would do.
\<close>

theorem row_init_equivalent:
  assumes "length chars = CalculateCharsBufferSize W div 2" "length offs = CalculateCharsBufferSize W div 2"
  shows "\<exists>chars' offs'. row_init W (chars, offs) avx2 = Done (chars', offs') \<and> length chars' = length chars \<and> length offs' = length offs
    \<and> W + 1 \<le> length chars \<and> (take W chars', take (W + 1) offs') = init_plain W"
proof -
  let ?N = "(W + 8) div 8 * 8"
  have N: "CalculateCharsBufferSize W div 2 = ?N" unfolding CalculateCharsBufferSize_def by presburger
  have W: "W + 1 \<le> ?N" by presburger
  have "take (W + 1) (iota ?N 0) = iota (W + 1) 0" using W by (simp add: iota_def take_map)
  then have "(take W (fst (initialised (chars, offs) ?N)), take (W + 1) (snd (initialised (chars, offs) ?N))) = init_plain W"
    using W assms N by (simp add: initialised_def init_plain_def over_def)
  then show ?thesis
    using row_init_initialised [of "(chars, offs)" W avx2] assms N W by (simp add: initialised_def)
qed

theorem row_init_equivalent_witness:
  "\<exists>chars' offs'. row_init 20 (replicate 24 0, replicate 24 0) True = Done (chars', offs') \<and> take 20 chars' = replicate 20 0x20"
proof -
  have "length (replicate 24 (0 :: wchar)) = CalculateCharsBufferSize 20 div 2" by (simp add: CalculateCharsBufferSize_def)
  from row_init_equivalent [OF this this, of True] show ?thesis by (auto simp: init_plain_def)
qed

text \<open>
  C7. Writing and reading single glyphs: a glyph of one or two columns that is written at a column where it fits is read back
  at each of its columns; the wide glyphs it cuts on either side become spaces, and every other column reads as before.
\<close>

theorem row_write_read:
  assumes "row_repr row gs" "c + w \<le> row_columnCount row" "1 \<le> w" "w \<le> 2" "chars \<noteq> []" "glen gs + length chars + 2 \<le> 0x7fff"
  shows "\<exists>row'. ReplaceCharacters (int c) w chars row = Done (row', Some ()) \<and> row_columnCount row' = row_columnCount row
    \<and> (\<forall>i < row_columnCount row. GlyphAt (int i) row' =
        (if i < gwidth (gbefore c gs) \<or> gwidth gs - gwidth (gafter (c + w) gs) \<le> i then GlyphAt (int i) row
         else Done (if c \<le> i \<and> i < c + w then chars else [0x20])))"
  by (rule row.put_get [OF assms])

theorem row_write_read_witness:
  "\<exists>row'. ReplaceCharacters 1 2 [0x732B] (ROW_new 4 TextAttribute_default) = Done (row', Some ()) \<and> GlyphAt 2 row' = Done [0x732B]"
proof -
  obtain row' where "ReplaceCharacters (int 1) 2 [0x732B] (ROW_new 4 TextAttribute_default) = Done (row', Some ())"
      "\<forall>i < row_columnCount (ROW_new 4 TextAttribute_default). GlyphAt (int i) row' =
        (if i < gwidth (gbefore 1 (spaces 4)) \<or> gwidth (spaces 4) - gwidth (gafter (1 + 2) (spaces 4)) \<le> i
         then GlyphAt (int i) (ROW_new 4 TextAttribute_default) else Done (if 1 \<le> i \<and> i < 1 + 2 then [0x732B] else [0x20]))"
    using row_write_read [OF blank_row(1) [of 4 TextAttribute_default], of 1 2 "[0x732B]"] by (auto simp: ROW_new_def)
  moreover from this(2) [rule_format, of 2] have "GlyphAt 2 row' = Done [0x732B]"
    by (simp add: ROW_new_def spaces_def eval_nat_numeral)
  ultimately show ?thesis by auto
qed

text \<open>
  C6. \<open>ReplaceText\<close> as an operation on glyphs, for every text, start column and limit: it does not fail, writes the glyphs
  \<open>plan_text\<close> cuts the text into (text that combines with the glyph in front of it joins that glyph, a glyph that does not
  fit in front of the limit is left for the next row), replaces by spaces what is left of glyphs it cuts, leaves the glyphs
  in front of the first and behind the last changed column and everything but the text alone, and reports the rest of the
  text and the changed columns. The text of the row has to stay below 32768 code units.
\<close>

theorem row_replace_text:
  assumes "row_repr row gs" "cwd_ok d"
    and "clampedColumnInclusive (row_columnCount row) (rws_columnBegin st) = c"
    and "clampedColumnInclusive (row_columnCount row) (rws_columnLimit st) = l" "c < l" "rws_text st \<noteq> []"
    and "plan_text d c l (rws_text st) gs = (hs, n, b, e)" "glen (place hs e gs) \<le> 0x7fff"
  shows "(\<exists>row'. ReplaceText d st row =
      Done (row', Some (st\<lparr>rws_text := drop n (rws_text st),
        rws_columnEnd := int (if n = length (rws_text st) then gwidth hs else l),
        rws_columnBeginDirty := int b, rws_columnEndDirty := int (gwidth gs - gwidth (gafter e gs))\<rparr>))
    \<and> row_repr row' (place hs e gs)
    \<and> text_update row row' (if gafter e gs = [] then gwidth hs < row_columnCount row else row_doubleBytePadded row))
    \<and> (\<exists>new. hs = gbefore b gs @ new)"
proof -
  have "c \<le> row_columnCount row" using clampedColumnInclusive_le [OF row_repr_offs(5) [OF assms(1)]] assms(3) by blast
  then show ?thesis using ReplaceText_glyphs [OF assms] plan_text_frame [OF assms(1) _ assms(7)] by blast
qed

theorem row_replace_text_witness:
  "\<exists>row'. ReplaceText CodepointWidthDetector_init
      \<lparr>rws_text = [0x61, 0x62, 0x63], rws_columnBegin = 1, rws_columnLimit = 3, rws_columnEnd = 0, rws_columnBeginDirty = 0, rws_columnEndDirty = 0\<rparr>
      (ROW_new 4 TextAttribute_default) =
    Done (row', Some \<lparr>rws_text = [0x63], rws_columnBegin = 1, rws_columnLimit = 3, rws_columnEnd = 3, rws_columnBeginDirty = 1, rws_columnEndDirty = 3\<rparr>)
    \<and> row_repr row' [([0x20], 1), ([0x61], 1), ([0x62], 1), ([0x20], 1)]"
proof -
  let ?st = "\<lparr>rws_text = [0x61, 0x62, 0x63], rws_columnBegin = 1, rws_columnLimit = 3, rws_columnEnd = 0, rws_columnBeginDirty = 0, rws_columnEndDirty = 0\<rparr> :: RowWriteState"
  let ?row = "ROW_new 4 TextAttribute_default" and ?gs = "[([0x20], 1), ([0x20], 1), ([0x20], 1), ([0x20], 1)] :: glyph list"
  let ?hs = "[([0x20], 1), ([0x61], 1), ([0x62], 1)] :: glyph list"
  have repr: "row_repr ?row ?gs" using blank_row(1) [of 4 TextAttribute_default] by (simp add: spaces_def eval_nat_numeral)
  have cols: "clampedColumnInclusive (row_columnCount ?row) (rws_columnBegin ?st) = 1"
      "clampedColumnInclusive (row_columnCount ?row) (rws_columnLimit ?st) = 3"
    by (simp_all add: ROW_new_def clampedColumnInclusive_def clamp_def)
  have plan: "plan_text CodepointWidthDetector_init 1 3 (rws_text ?st) ?gs = (?hs, 2, 1, 3)"
    by (simp add: plan_text_def join_parts_def text_glyphs_def ascii_prefix_def front_def spaces_def singles_def split: prod.splits)
  have place: "place ?hs 3 ?gs = [([0x20], 1), ([0x61], 1), ([0x62], 1), ([0x20], 1)]" by (simp add: place_def spaces_def)
  show ?thesis
    using row_replace_text [OF repr cwd_ok_init cols _ _ plan] place by (auto simp: ROW_new_def eval_nat_numeral)
qed

text \<open>
  C8. Copying part of a row: the whole glyphs of the source range that fit are written at the column of the
  destination, whatever it held there, and the reported columns say how far both rows were used.
\<close>

theorem row_copy_text:
  assumes "row_repr row gs" "row_repr source sg"
    and "clampedColumnInclusive (row_columnCount row) (rcs_columnBegin st) = c"
    and "clampedColumnInclusive (row_columnCount row) (rcs_columnLimit st) = l" "c < l"
    and "clampedColumnInclusive (row_columnCount source) (rcs_sourceColumnBegin st) = sb"
    and "clampedColumnInclusive (row_columnCount source) (rcs_sourceColumnLimit st) = sl" "sb < sl"
    and "gwidth (gbefore sb sg) = sb" "gbefore (sl - sb) (gafter sb sg) \<noteq> []"
    and "m = min (l - c) (sl - sb)" "new = gbefore m (gafter sb sg)" "glen (place (front c gs @ new) (c + m) gs) \<le> 0x7fff"
  shows "\<exists>row'. CopyTextFrom st source False row =
      Done (row', Some (st\<lparr>rcs_columnEnd := int (if new = gbefore (sl - sb) (gafter sb sg) then c + gwidth new else l),
        rcs_columnBeginDirty := int (gwidth (gbefore c gs)), rcs_columnEndDirty := int (gwidth gs - gwidth (gafter (c + m) gs)),
        rcs_sourceColumnEnd := int (sb + gwidth new)\<rparr>))
    \<and> row_repr row' (place (front c gs @ new) (c + m) gs)
    \<and> text_update row row' (if gafter (c + m) gs = [] then c + gwidth new < row_columnCount row else row_doubleBytePadded row)"
  using CopyTextFrom_glyphs [OF assms(1-10)] assms(13) unfolding assms(12) assms(11) by blast

theorem row_copy_text_witness:
  "\<exists>row'. CopyTextFrom (RowCopyTextFromState_init\<lparr>rcs_columnBegin := 2\<rparr>) (ROW_new 2 TextAttribute_default) False (ROW_new 3 TextAttribute_default)
    = Done (row', Some (RowCopyTextFromState_init\<lparr>rcs_columnBegin := 2, rcs_columnEnd := 3, rcs_columnBeginDirty := 2,
        rcs_columnEndDirty := 3, rcs_sourceColumnEnd := 1\<rparr>))"
proof -
  let ?st = "RowCopyTextFromState_init\<lparr>rcs_columnBegin := 2\<rparr>"
  have cols: "clampedColumnInclusive (row_columnCount (ROW_new 3 TextAttribute_default)) (rcs_columnBegin ?st) = 2"
      "clampedColumnInclusive (row_columnCount (ROW_new 3 TextAttribute_default)) (rcs_columnLimit ?st) = 3" "(2 :: nat) < 3"
      "clampedColumnInclusive (row_columnCount (ROW_new 2 TextAttribute_default)) (rcs_sourceColumnBegin ?st) = 0"
      "clampedColumnInclusive (row_columnCount (ROW_new 2 TextAttribute_default)) (rcs_sourceColumnLimit ?st) = 2" "(0 :: nat) < 2"
    by (simp_all add: ROW_new_def RowCopyTextFromState_init_def clampedColumnInclusive_def clamp_def int32_max_def)
  have glyphs: "gwidth (gbefore 0 (spaces 2)) = 0" "gbefore (2 - 0) (gafter 0 (spaces 2)) \<noteq> []"
    by (simp_all add: spaces_def eval_nat_numeral)
  show ?thesis
    using row_copy_text [OF blank_row(1) [of 3] blank_row(1) [of 2] cols glyphs refl refl]
    by (auto simp: spaces_def place_def front_def eval_nat_numeral RowCopyTextFromState_init_def)
qed



text \<open>
  From the text of a row to its columns and back: a position in the text of a glyph, found from any column the search
  starts at, leads to the first and the last column of that glyph.
\<close>

theorem row_column_of_text:
  assumes "row_repr row (A @ g # R)" "glen A \<le> t" "t < glen A + length (fst g)"
  shows "GetLeadingColumnAtCharOffset (int t) row = Done (gwidth A)
    \<and> GetTrailingColumnAtCharOffset (int t) row = Done (gwidth A + snd g - 1)
    \<and> uncheckedCharOffset (row_charOffsets row) (gwidth A) = Done (glen A)"
proof -
  let ?gs = "A @ g # R" and ?cc = "row_columnCount row"
  note r = row_repr_offs [OF assms(1)]
  have ok: "glyphs_ok A" "1 \<le> snd g" "snd g \<le> 2" using r(2) by simp_all
  define start where "start = nat (clamp (int t) 0 (int ?cc))"
  define m where "m = \<lparr>cm_charOffsets = full 0 ?gs, cm_charsLength = int (glen ?gs), cm_currentColumn = start, cm_columnCount = gwidth ?gs\<rparr>"
  have start: "start \<le> gwidth ?gs" using r(4) by (auto simp: start_def clamp_def)
  have lead: "GetLeadingColumnAt (int t) m = Done (m\<lparr>cm_currentColumn := gwidth A\<rparr>, gwidth A)"
    unfolding m_def using assms(2,3) by (intro GetLeadingColumnAt_glyphs [OF r(2,3) refl start]) auto
  have "full 0 ?gs ! gwidth ?gs = word_of_nat (glen ?gs)" using full_boundary [OF r(2), of 0 "[]"] by simp
  then have "peek (row_charOffsets row) ?cc = Done (word_of_nat (glen ?gs))"
    unfolding r(1) r(4) [symmetric] using r(2) by (simp add: peek_def)
  moreover have "int (unat (word_of_nat (glen ?gs) :: wchar)) = int (glen ?gs)" by (simp only: small_entry(3) [OF r(3)])
  ultimately have mapper: "createCharToColumnMapper (int t) row = Done m"
    by (simp only: createCharToColumnMapper_def obind.simps m_def start_def r(1,4))
  have w: "gwidth A < ?cc" "gwidth A + 1 \<le> ?cc" using r(4) ok(2) by simp_all
  have "gafter (gwidth A + 1) ?gs = gafter (1 - snd g) R" using gafter_within [OF ok(1), of 1 g R] by simp
  then have "gafter (gwidth A + 1) ?gs = R" using ok(2) by simp
  then have "adjustForward (full 0 ?gs) (gwidth A + 1) = Done (gwidth A + snd g)"
    using adjustForward_row(1) [OF assms(1) w(2)] r(1) by simp
  then have "GetTrailingColumnAt (int t) m = Done (m\<lparr>cm_currentColumn := gwidth A\<rparr>, gwidth A + snd g - 1)"
    using lead w r(4) by (simp add: GetTrailingColumnAt_def m_def)
  moreover have "gbefore (gwidth A) ?gs = A" using gbefore_within [OF ok(1), of 0 g R] ok(2) by simp
  then have "uncheckedCharOffset (row_charOffsets row) (gwidth A) = Done (glen A)"
    using adjustBackward_row(2) [OF assms(1), of "gwidth A"] w by simp
  ultimately show ?thesis
    using mapper lead by (simp add: GetLeadingColumnAtCharOffset_def GetTrailingColumnAtCharOffset_def)
qed

theorem row_column_of_text_witness:
  "GetLeadingColumnAtCharOffset 2 (ROW_new 5 TextAttribute_default) = Done 2"
proof -
  have "row_repr (ROW_new 5 TextAttribute_default) ([([0x20], 1), ([0x20], 1)] @ ([0x20], 1) # [([0x20], 1), ([0x20], 1)])"
    using blank_row(1) [of 5 TextAttribute_default] by (simp add: spaces_def eval_nat_numeral)
  from row_column_of_text [OF this, of 2] show ?thesis by simp
qed

subsection \<open>Limits\<close>

text \<open>A long text in a row of one column.\<close>

lemma long_glyph:
  assumes repr: "row_repr row (spaces 1)" and row: "row_charOffsets row = [0, 1]" "row_chars row = [0x20]" "row_columnCount row = 1"
    and len: "0x8000 \<le> length chars" "length chars \<le> 0xffff"
  shows "\<exists>row'. ReplaceCharacters 0 1 chars row = Done (row', Some ()) \<and> NavigateToNext 0 row' = OutOfBounds"
proof -
  let ?n = "length chars"
  have new: "WriteHelper_new row 0 1 = Done (start_helper (spaces 1) 0 1)"
    by (rule WriteHelper_new_glyphs [OF repr]) (simp_all add: row clampedColumnInclusive_def clamp_def)
  have h: "start_helper (spaces 1) 0 1 = \<lparr>wh_colBeg = 0, wh_colLimit = 1, wh_colEnd = 0, wh_colBegDirty = 0, wh_colEndDirty = 0,
      wh_chBeg = 0, wh_chBegDirty = 0, wh_leadingSpaces = 0, wh_charsConsumed = 0\<rparr>"
    by (simp add: start_helper_def spaces_def)
  have put: "put_glyph [0, 1] 0 1 0 = Done [0, 1]" by (simp add: put_glyph_over [of _ _ _ _ "[]"] over_def)
  have fwd: "adjustForward [0, 1] 1 = Done 1" "uncheckedCharOffset [0, 1] 1 = Done 1"
    by (subst adjustForward.simps) (simp_all add: trailer_of_def uncheckedCharOffset_def peek_def offset_of_def)
  have size_entry: "nat ((int 1 + (int ?n - int 1)) mod 2 ^ 64) = ?n" using len by simp
  define row1 where "row1 = row\<lparr>row_chars := replicate ?n 0, row_charOffsets := [0, word_of_nat ?n]\<rparr>"
  have grow: "resizeChars 1 0 ?n 1 row = Done row1"
  proof -
    have "peek (row_charOffsets row) (row_columnCount row) = Done 1" by (simp add: row peek_def)
    moreover have "(1 :: wchar) + word_of_int (int ?n - int 1) = word_of_nat ?n" by simp
    ultimately show ?thesis
      using len size_entry by (simp add: resizeChars_def row peek_range_def poke_range_def Let_def row1_def)
  qed
  define row' where "row' = SetDoubleBytePadded False (row1\<lparr>row_chars := chars, row_charOffsets := [0, word_of_nat ?n]\<rparr>)"
  have "wh_Finish chars (row, start_helper (spaces 1) 0 1\<lparr>wh_colEnd := 1, wh_colEndDirty := 1, wh_charsConsumed := ?n\<rparr>) =
      Done (row', start_helper (spaces 1) 0 1\<lparr>wh_colEnd := 1, wh_colEndDirty := 1, wh_charsConsumed := ?n\<rparr>)"
    using len fwd grow
    by (simp add: wh_Finish_def Let_def row h sub16_def row'_def row1_def poke_range_def iota_def)
  moreover have "wh_ReplaceCharacters 1 chars (row, start_helper (spaces 1) 0 1) =
      Done (row, start_helper (spaces 1) 0 1\<lparr>wh_colEnd := 1, wh_colEndDirty := 1, wh_charsConsumed := ?n\<rparr>)"
    using put by (simp add: wh_ReplaceCharacters_def Let_def row h)
  ultimately have "ReplaceCharacters 0 1 chars row = Done (row', Some ())"
    using new len by (simp add: ReplaceCharacters_def row wh_IsValid_def h on_exception_def) (auto simp: h)
  moreover have "NavigateToNext 0 row' = OutOfBounds"
  proof -
    obtain m where m: "?n = m + 0x8000" "m < 0x8000" using len le_Suc_ex [OF len(1)] by (auto simp: add.commute)
    then have "trailer_of (word_of_nat ?n)" using trailer_entry(1,3) [OF m(2)] by metis
    then have "adjustForward [0, word_of_nat ?n] 1 = OutOfBounds"
      by (subst adjustForward.simps, subst adjustForward.simps) simp
    then show ?thesis
      by (simp add: NavigateToNext_def row'_def row1_def SetDoubleBytePadded_def row clampedColumnInclusive_def clamp_def)
  qed
  ultimately show ?thesis by blast
qed



text \<open>
  The fast loop for ASCII looks at as many code units as there are columns: a combining mark behind a letter in the last column
  is left for the next row.
\<close>

lemma mark_at_limit:
  assumes "cwd_ok d" "row_repr row (spaces 1)"
  shows "\<exists>row' st. ReplaceText d \<lparr>rws_text = [0x65, 0x301], rws_columnBegin = 0, rws_columnLimit = 1, rws_columnEnd = 0,
      rws_columnBeginDirty = 0, rws_columnEndDirty = 0\<rparr> row = Done (row', Some st)
    \<and> row_repr row' [([0x65], 1)] \<and> rws_text st = [0x301] \<and> rws_columnEnd st = 1"
proof -
  let ?st = "\<lparr>rws_text = [0x65, 0x301], rws_columnBegin = 0, rws_columnLimit = 1, rws_columnEnd = 0,
      rws_columnBeginDirty = 0, rws_columnEndDirty = 0\<rparr> :: RowWriteState"
  have repr: "row_repr row [([0x20], 1)]" using assms(2) by (simp add: spaces_def)
  then have "row_columnCount row = 1" by (simp add: row_repr_def)
  then have cols: "clampedColumnInclusive (row_columnCount row) (rws_columnBegin ?st) = 0"
      "clampedColumnInclusive (row_columnCount row) (rws_columnLimit ?st) = 1"
    by (simp_all add: clampedColumnInclusive_def clamp_def)
  have plan: "plan_text d 0 1 (rws_text ?st) [([0x20], 1)] = ([([0x65], 1)], 1, 0, 1)"
    by (simp add: plan_text_def join_parts_def text_glyphs_def ascii_prefix_def front_def singles_def split: prod.splits)
  have "place [([0x65], 1)] 1 [([0x20], 1)] = [([0x65], 1)]" by (simp add: place_def)
  then show ?thesis using ReplaceText_glyphs [OF repr assms(1) cols _ _ plan] by auto
qed

end
