(* ===== verification/Til_Geometry.thy ===== *)
theory Til_Geometry
  imports Prelude "HOL-Library.Signed_Division"
begin

text \<open>
  Points, sizes and rectangles of the terminal: \<open>point.h\<close>, \<open>size.h\<close> and \<open>rect.h\<close> of \<open>src/src/inc/til\<close>. A coordinate
  is an \<open>int32_t\<close>. The operations that the code computes with checked arithmetic give \<open>None\<close> where the
  result leaves the 32-bit range or an argument is refused (\<open>gsl::narrowing_error\<close>, \<open>std::invalid_argument\<close>,
  \<open>E_INVALIDARG\<close>); the others are exact, as overflow of a signed integer is not defined in C++.

  The locale \<open>region_algebra\<close> has the laws of the set operations on a kind of rectangle. \<open>til::rect\<close>, whose
  right and bottom edges are exclusive, is an instance; \<open>Viewport\<close> has another.
\<close>

subsection \<open>Checked arithmetic\<close>

definition checked_extract :: "int \<Rightarrow> int option" where
  "checked_extract v = (if in_int32 v then Some v else None)"

definition CheckAdd :: "int \<Rightarrow> int \<Rightarrow> int option" where
  "CheckAdd a b = checked_extract (a + b)"

definition CheckSub :: "int \<Rightarrow> int \<Rightarrow> int option" where
  "CheckSub a b = checked_extract (a - b)"

definition CheckMul :: "int \<Rightarrow> int \<Rightarrow> int option" where
  "CheckMul a b = checked_extract (a * b)"

definition CheckDiv :: "int \<Rightarrow> int \<Rightarrow> int option" where
  "CheckDiv a b = (if b = 0 then None else checked_extract (a sdiv b))"

text \<open>Two and four checked results as the parts of a value.\<close>

fun both :: "('a \<Rightarrow> 'a \<Rightarrow> 'b) \<Rightarrow> 'a option \<Rightarrow> 'a option \<Rightarrow> 'b option" where
  "both f (Some a) (Some b) = Some (f a b)"
| "both f _ _ = None"

fun all_four :: "('a \<Rightarrow> 'a \<Rightarrow> 'a \<Rightarrow> 'a \<Rightarrow> 'b) \<Rightarrow> 'a option \<Rightarrow> 'a option \<Rightarrow> 'a option \<Rightarrow> 'a option \<Rightarrow> 'b option" where
  "all_four f (Some a) (Some b) (Some c) (Some d) = Some (f a b c d)"
| "all_four f _ _ _ _ = None"

subsection \<open>Points\<close>

datatype point = Point (pt_x: int) (pt_y: int)

text \<open>Points are ordered the way text is read: by row, then by column.\<close>

instantiation point :: linorder
begin

definition less_point :: "point \<Rightarrow> point \<Rightarrow> bool" where
  "p < q \<longleftrightarrow> pt_y p < pt_y q \<or> (pt_y p = pt_y q \<and> pt_x p < pt_x q)"

definition less_eq_point :: "point \<Rightarrow> point \<Rightarrow> bool" where
  "p \<le> q \<longleftrightarrow> pt_y p < pt_y q \<or> (pt_y p = pt_y q \<and> pt_x p \<le> pt_x q)"

instance
  by standard (auto simp: less_point_def less_eq_point_def point.expand)

end

definition point_bool :: "point \<Rightarrow> bool" where
  "point_bool p \<longleftrightarrow> pt_x p \<ge> 0 \<and> pt_y p \<ge> 0"

definition point_add :: "point \<Rightarrow> point \<Rightarrow> point option" where
  "point_add p q = both Point (CheckAdd (pt_x p) (pt_x q)) (CheckAdd (pt_y p) (pt_y q))"

definition point_sub :: "point \<Rightarrow> point \<Rightarrow> point option" where
  "point_sub p q = both Point (CheckSub (pt_x p) (pt_x q)) (CheckSub (pt_y p) (pt_y q))"

definition point_mul :: "point \<Rightarrow> point \<Rightarrow> point option" where
  "point_mul p q = both Point (CheckMul (pt_x p) (pt_x q)) (CheckMul (pt_y p) (pt_y q))"

definition point_div :: "point \<Rightarrow> point \<Rightarrow> point option" where
  "point_div p q = both Point (CheckDiv (pt_x p) (pt_x q)) (CheckDiv (pt_y p) (pt_y q))"

definition point_scale :: "point \<Rightarrow> int \<Rightarrow> point option" where
  "point_scale p scale = both Point (CheckMul (pt_x p) scale) (CheckMul (pt_y p) scale)"

definition point_unscale :: "point \<Rightarrow> int \<Rightarrow> point option" where
  "point_unscale p scale = both Point (CheckDiv (pt_x p) scale) (CheckDiv (pt_y p) scale)"

text \<open>\<open>COORD\<close>s of the console API have 16-bit coordinates.\<close>

definition in_short :: "int \<Rightarrow> bool" where
  "in_short v \<longleftrightarrow> -32768 \<le> v \<and> v \<le> 32767"

definition unwrap_coord :: "point \<Rightarrow> (int \<times> int) option" where
  "unwrap_coord p = (if in_short (pt_x p) \<and> in_short (pt_y p) then Some (pt_x p, pt_y p) else None)"

definition clamp_short :: "int \<Rightarrow> int" where
  "clamp_short v = (if v < -32768 then -32768 else if v > 32767 then 32767 else v)"

definition unwrap_coord_clamped :: "point \<Rightarrow> int \<times> int" where
  "unwrap_coord_clamped p = (clamp_short (pt_x p), clamp_short (pt_y p))"

subsection \<open>Spans of points\<close>

datatype point_span = Span (ps_start: point) (ps_end: point)

definition std_clamp :: "int \<Rightarrow> int \<Rightarrow> int \<Rightarrow> int" where
  "std_clamp v lo hi = (if v < lo then lo else if hi < v then hi else v)"

text \<open>
  \<open>iterate_rows\<close> and \<open>iterate_rows_exclusive\<close> call a function with a row and its first and last column, for each
  row of a span. The list of those calls is the value here.
\<close>

definition span_rows :: "int \<Rightarrow> int \<Rightarrow> int \<Rightarrow> int \<Rightarrow> int \<Rightarrow> (int \<times> int \<times> int) list" where
  "span_rows w ax ay bx by' =
     map (\<lambda>y. (y, if y \<noteq> ay then 0 else ax, if y \<noteq> by' then w else bx)) [ay..by']"

definition iterate_rows :: "int \<Rightarrow> point_span \<Rightarrow> (int \<times> int \<times> int) list" where
  "iterate_rows width sp =
     (let w = width - 1
      in span_rows w (std_clamp (pt_x (ps_start sp)) 0 w) (pt_y (ps_start sp))
           (std_clamp (pt_x (ps_end sp)) 0 w) (pt_y (ps_end sp)))"

definition iterate_rows_exclusive :: "int \<Rightarrow> point_span \<Rightarrow> (int \<times> int \<times> int) list" where
  "iterate_rows_exclusive width sp =
     (let w = width;
          ax = std_clamp (pt_x (ps_start sp)) 0 w;
          ay = pt_y (ps_start sp);
          bx = std_clamp (pt_x (ps_end sp)) 0 w;
          by' = pt_y (ps_end sp);
          (ax, ay) = (if ax = w then (0, ay + 1) else (ax, ay));
          (bx, by') = (if bx = 0 then (w, by' - 1) else (bx, by'))
      in span_rows w ax ay bx by')"

subsection \<open>Sizes\<close>

datatype til_size = Size (sz_width: int) (sz_height: int)

definition size_bool :: "til_size \<Rightarrow> bool" where
  "size_bool s \<longleftrightarrow> sz_width s > 0 \<and> sz_height s > 0"

definition size_add :: "til_size \<Rightarrow> til_size \<Rightarrow> til_size option" where
  "size_add s t = both Size (CheckAdd (sz_width s) (sz_width t)) (CheckAdd (sz_height s) (sz_height t))"

definition size_sub :: "til_size \<Rightarrow> til_size \<Rightarrow> til_size option" where
  "size_sub s t = both Size (CheckSub (sz_width s) (sz_width t)) (CheckSub (sz_height s) (sz_height t))"

definition size_mul :: "til_size \<Rightarrow> til_size \<Rightarrow> til_size option" where
  "size_mul s t = both Size (CheckMul (sz_width s) (sz_width t)) (CheckMul (sz_height s) (sz_height t))"

definition size_div :: "til_size \<Rightarrow> til_size \<Rightarrow> til_size option" where
  "size_div s t = both Size (CheckDiv (sz_width s) (sz_width t)) (CheckDiv (sz_height s) (sz_height t))"

definition ceil_div :: "int \<Rightarrow> int \<Rightarrow> int" where
  "ceil_div a b = (if a \<noteq> 0 then (a - 1) sdiv b + 1 else 0)"

definition divide_ceil :: "til_size \<Rightarrow> til_size \<Rightarrow> til_size option" where
  "divide_ceil s t =
     (if sz_width s < 0 \<or> sz_height s < 0 \<or> sz_width t \<le> 0 \<or> sz_height t \<le> 0 then None
      else Some (Size (ceil_div (sz_width s) (sz_width t)) (ceil_div (sz_height s) (sz_height t))))"

definition size_area :: "til_size \<Rightarrow> int option" where
  "size_area s = checked_extract (sz_width s * sz_height s)"

subsection \<open>Rectangles\<close>

datatype inclusive_rect = IncRect (ir_left: int) (ir_top: int) (ir_right: int) (ir_bottom: int)

definition inclusive_rect_bool :: "inclusive_rect \<Rightarrow> bool" where
  "inclusive_rect_bool r \<longleftrightarrow> ir_left r \<ge> 0 \<and> ir_top r \<ge> 0 \<and> ir_right r \<ge> ir_left r \<and> ir_bottom r \<ge> ir_top r"

datatype rect = Rect (r_left: int) (r_top: int) (r_right: int) (r_bottom: int)

definition rect_bool :: "rect \<Rightarrow> bool" where
  "rect_bool r \<longleftrightarrow> r_left r \<ge> 0 \<and> r_top r \<ge> 0 \<and> r_right r > r_left r \<and> r_bottom r > r_top r"

definition rect_empty :: "rect \<Rightarrow> bool" where
  "rect_empty r \<longleftrightarrow> \<not> rect_bool r"

definition rect_zero :: rect where
  "rect_zero = Rect 0 0 0 0"

definition rect_of_size :: "til_size \<Rightarrow> rect" where
  "rect_of_size s = Rect 0 0 (sz_width s) (sz_height s)"

definition rect_of_points :: "point \<Rightarrow> point \<Rightarrow> rect" where
  "rect_of_points topLeft bottomRight = Rect (pt_x topLeft) (pt_y topLeft) (pt_x bottomRight) (pt_y bottomRight)"

definition rect_origin :: "rect \<Rightarrow> point" where
  "rect_origin r = Point (r_left r) (r_top r)"

definition rect_width :: "rect \<Rightarrow> int option" where
  "rect_width r = CheckSub (r_right r) (r_left r)"

definition rect_height :: "rect \<Rightarrow> int option" where
  "rect_height r = CheckSub (r_bottom r) (r_top r)"

definition rect_size :: "rect \<Rightarrow> til_size option" where
  "rect_size r = both Size (rect_width r) (rect_height r)"

definition rect_add_point :: "rect \<Rightarrow> point \<Rightarrow> rect option" where
  "rect_add_point r p = all_four Rect (CheckAdd (r_left r) (pt_x p)) (CheckAdd (r_top r) (pt_y p))
     (CheckAdd (r_right r) (pt_x p)) (CheckAdd (r_bottom r) (pt_y p))"

definition rect_sub_point :: "rect \<Rightarrow> point \<Rightarrow> rect option" where
  "rect_sub_point r p = all_four Rect (CheckSub (r_left r) (pt_x p)) (CheckSub (r_top r) (pt_y p))
     (CheckSub (r_right r) (pt_x p)) (CheckSub (r_bottom r) (pt_y p))"

definition to_origin :: "rect \<Rightarrow> point \<Rightarrow> rect option" where
  "to_origin r origin = all_four Rect (CheckSub (r_left r) (pt_x origin)) (CheckSub (r_top r) (pt_y origin))
     (CheckSub (r_right r) (pt_x origin)) (CheckSub (r_bottom r) (pt_y origin))"

definition rect_union :: "rect \<Rightarrow> rect \<Rightarrow> rect" where
  "rect_union r s =
     (if rect_empty r \<and> rect_empty s then rect_zero
      else if rect_empty r then s
      else if rect_empty s then r
      else Rect (min (r_left r) (r_left s)) (min (r_top r) (r_top s))
                (max (r_right r) (r_right s)) (max (r_bottom r) (r_bottom s)))"

definition rect_intersect :: "rect \<Rightarrow> rect \<Rightarrow> rect" where
  "rect_intersect r s =
     (let l = max (r_left r) (r_left s); rr = min (r_right r) (r_right s)
      in if l \<ge> rr then rect_zero
         else (let t = max (r_top r) (r_top s); b = min (r_bottom r) (r_bottom s)
               in if t \<ge> b then rect_zero else Rect l t rr b))"

definition rect_subtract :: "rect \<Rightarrow> rect \<Rightarrow> rect list" where
  "rect_subtract r other =
     (let i = rect_intersect r other
      in if rect_empty i then [r]
         else if r \<noteq> i
         then filter rect_bool
                [Rect (r_left r) (r_top r) (r_right r) (r_top i),
                 Rect (r_left r) (r_bottom i) (r_right r) (r_bottom r),
                 Rect (r_left r) (r_top i) (r_left i) (r_bottom i),
                 Rect (r_right i) (r_top i) (r_right r) (r_bottom i)]
         else [])"

definition scale_up :: "rect \<Rightarrow> til_size \<Rightarrow> rect option" where
  "scale_up r s = all_four Rect (CheckMul (r_left r) (sz_width s)) (CheckMul (r_top r) (sz_height s))
     (CheckMul (r_right r) (sz_width s)) (CheckMul (r_bottom r) (sz_height s))"

definition scale_down :: "rect \<Rightarrow> til_size \<Rightarrow> rect option" where
  "scale_down r s =
     (if r_left r < 0 \<or> r_top r < 0 \<or> r_right r < 0 \<or> r_bottom r < 0 \<or> sz_width s \<le> 0 \<or> sz_height s \<le> 0 then None
      else Some (Rect (r_left r sdiv sz_width s) (r_top r sdiv sz_height s)
                      (ceil_div (r_right r) (sz_width s)) (ceil_div (r_bottom r) (sz_height s))))"

definition rect_contains :: "rect \<Rightarrow> point \<Rightarrow> bool" where
  "rect_contains r p \<longleftrightarrow> pt_x p \<ge> r_left r \<and> pt_x p < r_right r \<and> pt_y p \<ge> r_top r \<and> pt_y p < r_bottom r"

definition rect_contains_rect :: "rect \<Rightarrow> rect \<Rightarrow> bool" where
  "rect_contains_rect r rc \<longleftrightarrow>
     r_left rc \<ge> r_left r \<and> r_top rc \<ge> r_top r \<and> r_right rc \<le> r_right r \<and> r_bottom rc \<le> r_bottom r"

definition rect_of_inclusive :: "inclusive_rect \<Rightarrow> rect" where
  "rect_of_inclusive r = Rect (ir_left r) (ir_top r) (ir_right r + 1) (ir_bottom r + 1)"

definition to_inclusive_rect :: "rect \<Rightarrow> inclusive_rect" where
  "to_inclusive_rect r = IncRect (r_left r) (r_top r) (r_right r - 1) (r_bottom r - 1)"

text \<open>
  The index of a point in reading order, and back. Every intermediate result of the checked computation has to
  be in range.
\<close>

definition index_of :: "rect \<Rightarrow> point \<Rightarrow> int option" where
  "index_of r p =
     (if \<not> rect_contains r p then None
      else Option.bind (CheckSub (pt_y p) (r_top r)) (\<lambda>rows.
           Option.bind (rect_width r) (\<lambda>w.
           Option.bind (CheckMul rows w) (\<lambda>i.
           Option.bind (CheckAdd i (pt_x p)) (\<lambda>i. CheckSub i (r_left r))))))"

definition point_at :: "rect \<Rightarrow> nat \<Rightarrow> point option" where
  "point_at r index =
     Option.bind (rect_width r) (\<lambda>w.
     Option.bind (rect_height r) (\<lambda>h.
       if w < 0 \<or> h < 0 then None
       else Option.bind (checked_extract (h * w)) (\<lambda>area.
         if int index \<ge> area then None
         else Some (Point (r_left r + int index mod w) (r_top r + int index div w)))))"

text \<open>The iterator over the points of a rectangle.\<close>

record rect_iterator =
  it_topLeft :: point
  it_bottomRight :: point
  it_current :: point

definition rect_begin :: "rect \<Rightarrow> rect_iterator" where
  "rect_begin r = \<lparr>it_topLeft = Point (r_left r) (r_top r), it_bottomRight = Point (r_right r) (r_bottom r),
                   it_current = Point (r_left r) (r_top r)\<rparr>"

definition rect_end :: "rect \<Rightarrow> rect_iterator" where
  "rect_end r = \<lparr>it_topLeft = Point (r_left r) (r_top r), it_bottomRight = Point (r_right r) (r_bottom r),
                 it_current = Point (r_left r) (r_bottom r)\<rparr>"

definition rect_iterator_next :: "rect_iterator \<Rightarrow> rect_iterator option" where
  "rect_iterator_next it =
     Option.bind (CheckAdd (pt_x (it_current it)) 1) (\<lambda>nextX.
       if nextX \<ge> pt_x (it_bottomRight it)
       then Option.bind (CheckAdd (pt_y (it_current it)) 1) (\<lambda>nextY.
              Some (it\<lparr>it_current := Point (pt_x (it_topLeft it)) nextY\<rparr>))
       else Some (it\<lparr>it_current := Point nextX (pt_y (it_current it))\<rparr>))"

text \<open>A loop over the points of a rectangle: the points it visits, with at most \<open>fuel\<close> steps.\<close>

fun rect_for :: "nat \<Rightarrow> rect_iterator \<Rightarrow> rect_iterator \<Rightarrow> point list option" where
  "rect_for 0 it end_it = (if it = end_it then Some [] else None)"
| "rect_for (Suc fuel) it end_it =
     (if it = end_it then Some []
      else Option.bind (rect_iterator_next it) (\<lambda>it'.
           Option.bind (rect_for fuel it' end_it) (\<lambda>ps. Some (it_current it # ps))))"

subsection \<open>Regions\<close>

text \<open>
  A kind of rectangle with its cells, an intersection and a difference. The difference of two rectangles is a
  list of rectangles that do not overlap.
\<close>

locale region_algebra =
  fixes cells :: "'r \<Rightarrow> point set"
    and valid :: "'r \<Rightarrow> bool"
    and meet :: "'r \<Rightarrow> 'r \<Rightarrow> 'r"
    and minus_of :: "'r \<Rightarrow> 'r \<Rightarrow> 'r list"
  assumes finite_cells: "finite (cells r)"
    and valid_cells: "valid r \<Longrightarrow> cells r \<noteq> {}"
    and meet_cells: "valid r \<Longrightarrow> cells (meet r s) = cells r \<inter> cells s"
    and minus_cells: "valid r \<Longrightarrow> (\<Union>q \<in> set (minus_of r s). cells q) = cells r - cells s"
    and minus_valid: "valid r \<Longrightarrow> q \<in> set (minus_of r s) \<Longrightarrow> valid q"
    and minus_disjoint: "valid r \<Longrightarrow> sorted_wrt (\<lambda>p q. cells p \<inter> cells q = {}) (minus_of r s)"
begin

lemma card_disjoint_list:
  "sorted_wrt (\<lambda>p q. cells p \<inter> cells q = {}) rs \<Longrightarrow> card (\<Union>q \<in> set rs. cells q) = (\<Sum>q\<leftarrow>rs. card (cells q))"
proof (induction rs)
  case (Cons r rs)
  have "cells r \<inter> (\<Union>q \<in> set rs. cells q) = {}"
    using Cons.prems by auto
  then have "card (cells r \<union> (\<Union>q \<in> set rs. cells q)) = card (cells r) + card (\<Union>q \<in> set rs. cells q)"
    by (intro card_Un_disjoint) (auto simp: finite_cells)
  then show ?case using Cons by simp
qed simp

text \<open>The area that is removed and the area that is left add up.\<close>

lemma area_split:
  assumes "valid r"
  shows "card (cells r) = card (cells (meet r s)) + (\<Sum>q\<leftarrow>minus_of r s. card (cells q))"
proof -
  have "card (cells r) = card (cells r \<inter> cells s) + card (cells r - cells s)"
    using card_Int_Diff [OF finite_cells] .
  then show ?thesis
    using card_disjoint_list [OF minus_disjoint [OF assms]] by (simp add: minus_cells meet_cells assms)
qed

text \<open>What is left has nothing in common with what was removed.\<close>

lemma minus_apart:
  assumes "valid r" and "q \<in> set (minus_of r s)"
  shows "cells (meet q s) = {}" and "cells q \<subseteq> cells r"
proof -
  have "cells q \<subseteq> cells r - cells s" using minus_cells [OF assms(1), of s] assms(2) by blast
  then show "cells (meet q s) = {}" and "cells q \<subseteq> cells r"
    using meet_cells [OF minus_valid [OF assms], of s] by auto
qed

end

definition rect_cells :: "rect \<Rightarrow> point set" where
  "rect_cells r = {p. rect_contains r p}"

lemma Collect_point: "{p. P (pt_x p) (pt_y p)} = (\<lambda>(x, y). Point x y) ` {(x, y). P x y}"
proof -
  have "p \<in> (\<lambda>(x, y). Point x y) ` {(x, y). P x y} \<longleftrightarrow> P (pt_x p) (pt_y p)" for p
    by (cases p) (auto simp: image_iff)
  then show ?thesis by auto
qed

lemma finite_box: "finite {p. a \<le> pt_x p \<and> pt_x p < b \<and> c \<le> pt_y p \<and> pt_y p < d}"
proof -
  have "{(x, y). a \<le> x \<and> x < b \<and> c \<le> y \<and> y < d} = {a..<b} \<times> {c..<d}" by auto
  then show ?thesis
    using Collect_point [of "\<lambda>x y. a \<le> x \<and> x < b \<and> c \<le> y \<and> y < d"] by simp
qed

lemma rect_cells_simp [geom_simps]:
  "p \<in> rect_cells r \<longleftrightarrow> r_left r \<le> pt_x p \<and> pt_x p < r_right r \<and> r_top r \<le> pt_y p \<and> pt_y p < r_bottom r"
  by (auto simp: rect_cells_def rect_contains_def)

lemmas rect_defs = rect_bool_def rect_empty_def rect_zero_def rect_intersect_def Let_def

lemma rect_intersect_cells: "rect_cells (rect_intersect r s) = rect_cells r \<inter> rect_cells s"
  by (auto simp: geom_simps rect_defs)

lemma rect_intersect_bool:
  assumes "rect_bool r" and "rect_bool (rect_intersect r s)"
  shows "r_left r \<le> r_left (rect_intersect r s)" and "r_top r \<le> r_top (rect_intersect r s)"
    and "r_right (rect_intersect r s) \<le> r_right r" and "r_bottom (rect_intersect r s) \<le> r_bottom r"
  using assms by (auto simp: rect_defs split: if_splits)

lemma rect_not_intersecting: "rect_bool r \<Longrightarrow> \<not> rect_bool (rect_intersect r s) \<Longrightarrow> rect_cells r \<inter> rect_cells s = {}"
  by (auto simp: geom_simps rect_defs split: if_splits)

text \<open>Around a rectangle inside another one there are four more: above, below, to the left and to the right.\<close>

definition rect_frame :: "rect \<Rightarrow> rect \<Rightarrow> rect list" where
  "rect_frame r i =
     [Rect (r_left r) (r_top r) (r_right r) (r_top i),
      Rect (r_left r) (r_bottom i) (r_right r) (r_bottom r),
      Rect (r_left r) (r_top i) (r_left i) (r_bottom i),
      Rect (r_right i) (r_top i) (r_right r) (r_bottom i)]"

lemma rect_frame_cells:
  assumes "r_left r \<le> r_left i" "r_top r \<le> r_top i" "r_right i \<le> r_right r" "r_bottom i \<le> r_bottom r"
    and "r_left i \<le> r_right i" "r_top i \<le> r_bottom i"
  shows "(\<exists>q \<in> set (rect_frame r i). p \<in> rect_cells q) \<longleftrightarrow> p \<in> rect_cells r \<and> p \<notin> rect_cells i"
  using assms unfolding rect_frame_def by (simp add: geom_simps) linarith

lemma rect_frame_disjoint:
  assumes "r_left i \<le> r_right i" "r_top i \<le> r_bottom i"
  shows "sorted_wrt (\<lambda>p q. rect_cells p \<inter> rect_cells q = {}) (rect_frame r i)"
proof -
  have "rect_cells p \<inter> rect_cells q = {}"
    if "r_bottom p \<le> r_top q \<or> r_bottom q \<le> r_top p \<or> r_right p \<le> r_left q" for p q
    using that by (auto simp: geom_simps)
  then show ?thesis using assms by (simp add: rect_frame_def)
qed

lemma rect_cells_bool: "p \<in> rect_cells q \<Longrightarrow> 0 \<le> r_left q \<Longrightarrow> 0 \<le> r_top q \<Longrightarrow> rect_bool q"
  by (simp add: geom_simps rect_bool_def)

lemma rect_subtract_frame:
  assumes "rect_bool r" and "rect_bool (rect_intersect r s)"
  shows "rect_subtract r s = filter rect_bool (rect_frame r (rect_intersect r s))"
proof -
  let ?i = "rect_intersect r s"
  have none: "filter rect_bool (rect_frame r r) = []" by (simp add: rect_frame_def rect_bool_def)
  have "rect_subtract r s = (if r \<noteq> ?i then filter rect_bool (rect_frame r ?i) else [])"
    using assms(2) by (simp only: rect_subtract_def rect_frame_def Let_def rect_empty_def not_True_eq_False if_False)
  then show ?thesis using none by (metis (full_types))
qed

interpretation rects: region_algebra rect_cells rect_bool rect_intersect rect_subtract
proof
  fix r s q :: rect
  let ?i = "rect_intersect r s"
  show "finite (rect_cells r)"
    using finite_box [of "r_left r" "r_right r" "r_top r" "r_bottom r"]
    by (rule rev_finite_subset) (auto simp: geom_simps)
  show "rect_cells (rect_intersect r s) = rect_cells r \<inter> rect_cells s" by (rule rect_intersect_cells)
  assume r: "rect_bool r"
  then have "Point (r_left r) (r_top r) \<in> rect_cells r" by (simp add: geom_simps rect_defs)
  then show "rect_cells r \<noteq> {}" by auto
  show "q \<in> set (rect_subtract r s) \<Longrightarrow> rect_bool q"
    using r by (auto simp: rect_subtract_def Let_def split: if_splits)
  show "(\<Union>q \<in> set (rect_subtract r s). rect_cells q) = rect_cells r - rect_cells s"
  proof (cases "rect_bool ?i")
    case False
    then show ?thesis
      using rect_not_intersecting [OF r False] by (auto simp: rect_subtract_def Let_def rect_empty_def)
  next
    case True
    note b = rect_intersect_bool [OF r True]
    have i: "r_left ?i \<le> r_right ?i" "r_top ?i \<le> r_bottom ?i" "0 \<le> r_left ?i" "0 \<le> r_top ?i"
      using True by (simp_all add: rect_bool_def)
    have "0 \<le> r_left q" "0 \<le> r_top q" if "q \<in> set (rect_frame r ?i)" for q
      using that i b r by (auto simp: rect_frame_def rect_bool_def)
    then have "(\<Union>q \<in> set (rect_subtract r s). rect_cells q) = (\<Union>q \<in> set (rect_frame r ?i). rect_cells q)"
      using rect_cells_bool by (auto simp: rect_subtract_frame [OF r True])
    also have "\<dots> = rect_cells r - rect_cells ?i" using rect_frame_cells [OF b i(1,2)] by auto
    finally show ?thesis by (auto simp: rect_intersect_cells)
  qed
  show "sorted_wrt (\<lambda>p q. rect_cells p \<inter> rect_cells q = {}) (rect_subtract r s)"
  proof (cases "rect_bool ?i")
    case True
    then show ?thesis
      by (simp add: rect_subtract_frame [OF r True] sorted_wrt_filter rect_frame_disjoint rect_bool_def)
  qed (simp add: rect_subtract_def Let_def rect_empty_def)
qed

subsection \<open>Iteration\<close>

lemma checked_simps [simp]:
  "in_int32 (a + b) \<Longrightarrow> CheckAdd a b = Some (a + b)"
  "in_int32 (a - b) \<Longrightarrow> CheckSub a b = Some (a - b)"
  "in_int32 (a * b) \<Longrightarrow> CheckMul a b = Some (a * b)"
  by (simp_all add: CheckAdd_def CheckSub_def CheckMul_def checked_extract_def)

lemma in_int32_between: "in_int32 a \<Longrightarrow> in_int32 b \<Longrightarrow> a \<le> x \<Longrightarrow> x \<le> b \<Longrightarrow> in_int32 x"
  by (simp add: in_int32_def)

definition rect_at :: "rect \<Rightarrow> int \<Rightarrow> int \<Rightarrow> rect_iterator" where
  "rect_at r x y = (rect_begin r)\<lparr>it_current := Point x y\<rparr>"

lemma rect_at_next:
  assumes "in_int32 (r_left r)" "in_int32 (r_right r)" "in_int32 (r_top r)" "in_int32 (r_bottom r)"
    and "r_left r \<le> x" "x < r_right r" "r_top r \<le> y" "y < r_bottom r"
  shows "rect_iterator_next (rect_at r x y) =
           Some (if x + 1 < r_right r then rect_at r (x + 1) y else rect_at r (r_left r) (y + 1))"
proof -
  have "in_int32 (x + 1)" by (rule in_int32_between [OF assms(1,2)]) (use assms in auto)
  moreover have "in_int32 (y + 1)" by (rule in_int32_between [OF assms(3,4)]) (use assms in auto)
  ultimately show ?thesis by (simp add: rect_iterator_next_def rect_at_def rect_begin_def)
qed

lemma rect_at_end [simp]: "rect_at r x y = rect_end r \<longleftrightarrow> x = r_left r \<and> y = r_bottom r"
  by (simp add: rect_at_def rect_begin_def rect_end_def)

lemma rect_at_current [simp]: "it_current (rect_at r x y) = Point x y"
  by (simp add: rect_at_def)

text \<open>From a column to the end of its row.\<close>

lemma rect_for_row:
  assumes "in_int32 (r_left r)" "in_int32 (r_right r)" "in_int32 (r_top r)" "in_int32 (r_bottom r)"
    and "r_left r \<le> x" "x < r_right r" "r_top r \<le> y" "y < r_bottom r"
    and "rect_for fuel (rect_at r (r_left r) (y + 1)) (rect_end r) = Some ps"
  shows "rect_for (nat (r_right r - x) + fuel) (rect_at r x y) (rect_end r) =
           Some (map (\<lambda>x. Point x y) [x..r_right r - 1] @ ps)"
  using assms(5,6)
proof (induction "nat (r_right r - x)" arbitrary: x)
  case (Suc n)
  have fuel: "nat (r_right r - x) + fuel = Suc (nat (r_right r - (x + 1)) + fuel)" using Suc.prems by simp
  have not_end: "rect_at r x y \<noteq> rect_end r" using assms(8) by simp
  have cols: "[x..r_right r - 1] = x # [x + 1..r_right r - 1]" using Suc.prems by (simp add: upto_rec1)
  have nxt: "rect_iterator_next (rect_at r x y) =
      Some (if x + 1 < r_right r then rect_at r (x + 1) y else rect_at r (r_left r) (y + 1))"
    using rect_at_next [OF assms(1-4) Suc.prems assms(7,8)] .
  show ?case
  proof (cases "x + 1 < r_right r")
    case True
    then show ?thesis
      using Suc(1) [of "x + 1"] Suc(2) Suc.prems not_end nxt unfolding fuel cols by simp
  next
    case False
    then have "nat (r_right r - (x + 1)) = 0" "[x + 1..r_right r - 1] = []" by simp_all
    then show ?thesis
      using False not_end nxt assms(9) unfolding fuel cols by simp
  qed
qed simp

lemma rect_for_rows:
  assumes "in_int32 (r_left r)" "in_int32 (r_right r)" "in_int32 (r_top r)" "in_int32 (r_bottom r)"
    and "r_left r < r_right r" "r_top r \<le> y" "y \<le> r_bottom r"
  shows "rect_for (nat (r_right r - r_left r) * nat (r_bottom r - y)) (rect_at r (r_left r) y) (rect_end r) =
           Some (concat (map (\<lambda>y. map (\<lambda>x. Point x y) [r_left r..r_right r - 1]) [y..r_bottom r - 1]))"
  using assms(6,7)
proof (induction "nat (r_bottom r - y)" arbitrary: y)
  case 0
  then show ?case by simp
next
  case (Suc n)
  have rows: "[y..r_bottom r - 1] = y # [y + 1..r_bottom r - 1]" using Suc(2) by (simp add: upto_rec1)
  have fuel: "nat (r_right r - r_left r) * nat (r_bottom r - y) =
      nat (r_right r - r_left r) + nat (r_right r - r_left r) * nat (r_bottom r - (y + 1))"
  proof -
    have "nat (r_bottom r - y) = Suc (nat (r_bottom r - (y + 1)))" using Suc(2) by linarith
    then show ?thesis by (simp only: mult_Suc_right)
  qed
  show ?case unfolding rows fuel list.map concat.simps
    by (rule rect_for_row [OF assms(1-4)]) (use Suc assms in auto)
qed

text \<open>An empty rectangle of some height has points for the iterator, though it contains none.\<close>

lemma rect_for_empty_width:
  "rect_for 3 (rect_begin (Rect 5 0 5 3)) (rect_end (Rect 5 0 5 3)) = Some [Point 5 0, Point 5 1, Point 5 2]"
  "rect_cells (Rect 5 0 5 3) = {}"
  by (simp_all add: numeral_3_eq_3 rect_begin_def rect_end_def rect_iterator_next_def CheckAdd_def
      checked_extract_def in_int32_def int32_min_def int32_max_def set_eq_iff geom_simps)

subsection \<open>Indices\<close>

lemma point_at_iff:
  assumes "rect_bool r" "in_int32 (r_right r)" "in_int32 (r_bottom r)"
    and "in_int32 ((r_right r - r_left r) * (r_bottom r - r_top r))"
  shows "point_at r i = Some p \<longleftrightarrow>
    int i < (r_right r - r_left r) * (r_bottom r - r_top r) \<and>
    p = Point (r_left r + int i mod (r_right r - r_left r)) (r_top r + int i div (r_right r - r_left r))"
proof -
  have "in_int32 (r_right r - r_left r)" "in_int32 (r_bottom r - r_top r)"
    using assms(1-3) by (auto simp: in_int32_def rect_bool_def int32_min_def)
  then show ?thesis
    using assms(1,4) by (auto simp: point_at_def rect_width_def rect_height_def checked_extract_def rect_bool_def mult.commute)
qed

lemma index_of_iff:
  assumes "rect_bool r" "in_int32 (r_right r)" "in_int32 (r_bottom r)"
    and "in_int32 (r_left r + (r_right r - r_left r) * (r_bottom r - r_top r))"
  shows "index_of r p = Some k \<longleftrightarrow>
    rect_contains r p \<and> k = (pt_y p - r_top r) * (r_right r - r_left r) + (pt_x p - r_left r)"
proof (cases "rect_contains r p")
  case True
  let ?w = "r_right r - r_left r" and ?h = "r_bottom r - r_top r" and ?rows = "pt_y p - r_top r"
  have p: "0 \<le> ?rows" "?rows + 1 \<le> ?h" "r_left r \<le> pt_x p" "pt_x p < r_right r" "0 \<le> r_left r" "0 \<le> r_top r" "0 < ?w"
    using True assms(1) by (auto simp: rect_contains_def rect_bool_def)
  have "(?rows + 1) * ?w \<le> ?h * ?w" using p(2,7) by (intro mult_right_mono) auto
  then have rows: "?rows * ?w + ?w \<le> ?w * ?h" by (simp add: algebra_simps)
  have pos: "0 \<le> ?rows * ?w" using p(1,7) by simp
  have max: "r_left r + ?w * ?h \<le> int32_max" "r_right r \<le> int32_max" "r_bottom r \<le> int32_max" "int32_min \<le> 0"
    using assms(2-4) by (auto simp: in_int32_def int32_min_def)
  have "in_int32 ?rows" "in_int32 ?w" using p max unfolding in_int32_def by linarith+
  moreover have "in_int32 (?rows * ?w)" using pos rows max p unfolding in_int32_def by linarith
  moreover have "in_int32 (?rows * ?w + pt_x p)" using pos rows max p unfolding in_int32_def by linarith
  moreover have "in_int32 (?rows * ?w + pt_x p - r_left r)" using pos rows max p unfolding in_int32_def by linarith
  ultimately show ?thesis using True by (auto simp: index_of_def rect_width_def)
qed (simp add: index_of_def)

lemma int_div_less_iff: "0 < w \<Longrightarrow> i div w < h \<longleftrightarrow> i < h * (w :: int)"
proof
  assume w: "0 < w"
  have i: "w * (i div w) + i mod w = i" "0 \<le> i mod w" "i mod w < w" using w by simp_all
  show "i < h * w" if "i div w < h"
  proof -
    have "w * (i div w) + w \<le> w * h" using mult_left_mono [of "i div w + 1" h w] that w by (simp add: distrib_left)
    then have "i < w * h" using i by linarith
    then show ?thesis by (simp add: mult.commute)
  qed
  show "i div w < h" if "i < h * w"
  proof (rule ccontr)
    assume "\<not> i div w < h"
    then have "w * h \<le> w * (i div w)" using w by (intro mult_left_mono) auto
    moreover have "i < w * h" using that by (simp add: mult.commute)
    ultimately show False using i by linarith
  qed
qed

lemma sdiv_nonneg: "0 \<le> a \<Longrightarrow> 0 < b \<Longrightarrow> a sdiv b = a div (b :: int)"
  by (cases "a = 0") (simp_all add: signed_divide_int_def)

lemma div_mod_row_major:
  fixes i w h x y :: int
  assumes "0 < w"
  shows "0 \<le> i \<and> i < w * h \<and> x = i mod w \<and> y = i div w \<longleftrightarrow> 0 \<le> x \<and> x < w \<and> 0 \<le> y \<and> y < h \<and> i = y * w + x"
proof
  assume l: "0 \<le> i \<and> i < w * h \<and> x = i mod w \<and> y = i div w"
  then have "i div w < h" using assms by (simp add: int_div_less_iff mult.commute)
  then show "0 \<le> x \<and> x < w \<and> 0 \<le> y \<and> y < h \<and> i = y * w + x"
    using l assms by (simp add: pos_imp_zdiv_nonneg_iff)
next
  assume r: "0 \<le> x \<and> x < w \<and> 0 \<le> y \<and> y < h \<and> i = y * w + x"
  then have "y * w + w \<le> h * w" using mult_right_mono [of "y + 1" h w] assms by (simp add: algebra_simps)
  then show "0 \<le> i \<and> i < w * h \<and> x = i mod w \<and> y = i div w"
    using r assms by (simp add: mult.commute)
qed

subsection \<open>Scaling\<close>

lemma ceil_div_le_iff:
  assumes "0 \<le> a" "0 < b"
  shows "ceil_div a b \<le> k \<longleftrightarrow> a \<le> k * b"
proof (cases "a = 0")
  case False
  then have "ceil_div a b = (a - 1) div b + 1" using assms by (simp add: ceil_div_def sdiv_nonneg)
  then have "ceil_div a b \<le> k \<longleftrightarrow> (a - 1) div b < k" by linarith
  also have "\<dots> \<longleftrightarrow> a - 1 < k * b" using assms(2) by (simp add: int_div_less_iff)
  finally show ?thesis by linarith
qed (use assms in \<open>simp add: ceil_div_def zero_le_mult_iff\<close>)

lemma sdiv_ge_iff: "0 \<le> a \<Longrightarrow> 0 < b \<Longrightarrow> k \<le> a sdiv b \<longleftrightarrow> k * b \<le> (a :: int)"
  using int_div_less_iff [of b a k] by (auto simp: sdiv_nonneg)

subsection \<open>Spans\<close>

definition span_points :: "(int \<times> int \<times> int) list \<Rightarrow> point set" where
  "span_points calls = {p. \<exists>(y, x1, x2) \<in> set calls. pt_y p = y \<and> x1 \<le> pt_x p \<and> pt_x p \<le> x2}"

lemma span_points_rows:
  assumes "ay \<le> by'" "0 \<le> ax" "bx < width"
  shows "span_points (span_rows (width - 1) ax ay bx by') =
    {p. Point ax ay \<le> p \<and> p \<le> Point bx by' \<and> 0 \<le> pt_x p \<and> pt_x p < width}"
proof (rule set_eqI)
  fix p
  have "p \<in> span_points (span_rows (width - 1) ax ay bx by') \<longleftrightarrow>
    ay \<le> pt_y p \<and> pt_y p \<le> by' \<and> (if pt_y p \<noteq> ay then 0 else ax) \<le> pt_x p \<and> pt_x p \<le> (if pt_y p \<noteq> by' then width - 1 else bx)"
    by (auto simp: span_points_def span_rows_def)
  also have "\<dots> \<longleftrightarrow> Point ax ay \<le> p \<and> p \<le> Point bx by' \<and> 0 \<le> pt_x p \<and> pt_x p < width"
    using assms by (cases "pt_y p = ay"; cases "pt_y p = by'") (auto simp: less_eq_point_def)
  finally show "p \<in> span_points (span_rows (width - 1) ax ay bx by') \<longleftrightarrow>
    p \<in> {p. Point ax ay \<le> p \<and> p \<le> Point bx by' \<and> 0 \<le> pt_x p \<and> pt_x p < width}" by simp
qed

subsection \<open>Properties\<close>



text \<open>
  A rectangle with a negative edge counts as empty (\<open>operator bool\<close> asks for \<open>left >= 0\<close> and \<open>top >= 0\<close>), so nothing is
  removed where the intersection has a negative edge, though there are common cells.
\<close>

lemma rect_subtract_negative:
  "rect_subtract (Rect (-2) 0 2 1) (Rect (-2) 0 0 1) = [Rect (-2) 0 2 1]"
  "Point (-1) 0 \<in> rect_cells (Rect (-2) 0 2 1) \<inter> rect_cells (Rect (-2) 0 0 1)"
  by (simp_all add: rect_subtract_def rect_defs geom_simps)

text \<open>
  A range-based loop over a rectangle that is not empty ends after as many steps as it has cells, without an overflow,
  and visits its points row by row from left to right, each one once.
\<close>

theorem rect_loop_points:
  assumes "rect_bool r" and "in_int32 (r_right r)" and "in_int32 (r_bottom r)"
  shows "rect_for (nat (r_right r - r_left r) * nat (r_bottom r - r_top r)) (rect_begin r) (rect_end r) =
           Some (concat (map (\<lambda>y. map (\<lambda>x. Point x y) [r_left r..r_right r - 1]) [r_top r..r_bottom r - 1]))"
proof -
  have start: "rect_begin r = rect_at r (r_left r) (r_top r)" by (simp add: rect_at_def rect_begin_def)
  have "in_int32 (r_left r)" "in_int32 (r_top r)"
    using assms by (auto simp: in_int32_def rect_bool_def int32_min_def)
  then show ?thesis unfolding start using assms by (intro rect_for_rows) (auto simp: rect_bool_def)
qed

theorem rect_loop_points_witness:
  "rect_for 4 (rect_begin (Rect 3 1 5 3)) (rect_end (Rect 3 1 5 3)) = Some [Point 3 1, Point 4 1, Point 3 2, Point 4 2]"
  using rect_loop_points [of "Rect 3 1 5 3"]
  by (simp add: rect_bool_def in_int32_def int32_min_def int32_max_def upto_rec1)

text \<open>
  \<open>index_of\<close> and \<open>point_at\<close> are inverse to each other: the point at an index is the one that has this index, where
  the left edge and the area of the rectangle add up to a 32-bit number.
\<close>

theorem rect_index_roundtrip:
  assumes "rect_bool r" "in_int32 (r_right r)" "in_int32 (r_bottom r)"
    and "in_int32 (r_left r + (r_right r - r_left r) * (r_bottom r - r_top r))"
  shows "point_at r i = Some p \<longleftrightarrow> index_of r p = Some (int i)"
proof -
  let ?w = "r_right r - r_left r" and ?h = "r_bottom r - r_top r"
  have w: "0 < ?w" "0 < ?h" using assms(1) by (simp_all add: rect_bool_def)
  then have "0 \<le> ?w * ?h" by simp
  then have area: "in_int32 (?w * ?h)"
    using assms(1,4) unfolding in_int32_def int32_min_def rect_bool_def by linarith
  have "point_at r i = Some p \<longleftrightarrow>
      0 \<le> int i \<and> int i < ?w * ?h \<and> pt_x p - r_left r = int i mod ?w \<and> pt_y p - r_top r = int i div ?w"
    unfolding point_at_iff [OF assms(1-3) area] by (cases p) auto
  also have "\<dots> \<longleftrightarrow> 0 \<le> pt_x p - r_left r \<and> pt_x p - r_left r < ?w \<and> 0 \<le> pt_y p - r_top r \<and> pt_y p - r_top r < ?h \<and>
      int i = (pt_y p - r_top r) * ?w + (pt_x p - r_left r)"
    by (rule div_mod_row_major [OF w(1)])
  also have "\<dots> \<longleftrightarrow> index_of r p = Some (int i)"
    unfolding index_of_iff [OF assms] rect_contains_def by auto
  finally show ?thesis .
qed

theorem rect_index_roundtrip_witness:
  "point_at (Rect 2 1 7 4) 8 = Some (Point 5 2) \<and> index_of (Rect 2 1 7 4) (Point 5 2) = Some 8"
  using rect_index_roundtrip [of "Rect 2 1 7 4" 8 "Point 5 2"]
  by (simp add: rect_bool_def in_int32_def int32_min_def int32_max_def point_at_def rect_width_def rect_height_def
      CheckSub_def checked_extract_def)

text \<open>
  The rectangle in cells that \<open>scale_down\<close> gives for one in pixels is the smallest one that covers it.
\<close>

lemma scale_down_least:
  assumes "scale_down r s = Some q"
  shows "scale_up q s = Some u \<Longrightarrow> rect_contains_rect u r"
    and "scale_up q' s = Some u' \<Longrightarrow> rect_contains_rect u' r \<Longrightarrow> rect_contains_rect q' q"
proof -
  have pos: "0 \<le> r_left r" "0 \<le> r_top r" "0 \<le> r_right r" "0 \<le> r_bottom r" "0 < sz_width s" "0 < sz_height s"
    and q: "q = Rect (r_left r sdiv sz_width s) (r_top r sdiv sz_height s)
              (ceil_div (r_right r) (sz_width s)) (ceil_div (r_bottom r) (sz_height s))"
    using assms by (auto simp: scale_down_def split: if_splits)
  have up: "u = Rect (r_left q * sz_width s) (r_top q * sz_height s) (r_right q * sz_width s) (r_bottom q * sz_height s)"
    if "scale_up q s = Some u" for q u
    using that by (auto simp: scale_up_def CheckMul_def checked_extract_def split: if_splits)
  show "scale_up q s = Some u \<Longrightarrow> rect_contains_rect u r"
    unfolding rect_contains_rect_def
    by (drule up) (simp add: q pos flip: ceil_div_le_iff sdiv_ge_iff)
  show "scale_up q' s = Some u' \<Longrightarrow> rect_contains_rect u' r \<Longrightarrow> rect_contains_rect q' q"
    unfolding rect_contains_rect_def
    by (drule up) (simp add: q pos ceil_div_le_iff sdiv_ge_iff)
qed

text \<open>
  The rows of a span of points, with both ends inside the width, cover exactly the points from its first to its last
  one; with the exclusive loop, where columns go up to the width, the points before its end.
\<close>

lemma iterate_rows_points:
  assumes "ps_start sp \<le> ps_end sp"
    and "0 \<le> pt_x (ps_start sp)" "pt_x (ps_start sp) < width" "0 \<le> pt_x (ps_end sp)" "pt_x (ps_end sp) < width"
  shows "span_points (iterate_rows width sp) =
           {p. ps_start sp \<le> p \<and> p \<le> ps_end sp \<and> 0 \<le> pt_x p \<and> pt_x p < width}"
proof -
  have rows: "pt_y (ps_start sp) \<le> pt_y (ps_end sp)" using assms(1) by (auto simp: less_eq_point_def)
  have "iterate_rows width sp = span_rows (width - 1) (pt_x (ps_start sp)) (pt_y (ps_start sp))
      (pt_x (ps_end sp)) (pt_y (ps_end sp))"
    using assms(2-) by (simp add: iterate_rows_def Let_def std_clamp_def)
  then show ?thesis using assms span_points_rows [OF rows] by simp
qed

lemma iterate_rows_exclusive_points:
  assumes "ps_start sp < ps_end sp" "0 < width"
    and "0 \<le> pt_x (ps_start sp)" "pt_x (ps_start sp) < width" "0 \<le> pt_x (ps_end sp)" "pt_x (ps_end sp) \<le> width"
  shows "span_points (map (\<lambda>(y, x1, x2). (y, x1, x2 - 1)) (iterate_rows_exclusive width sp)) =
           {p. ps_start sp \<le> p \<and> p < ps_end sp \<and> 0 \<le> pt_x p \<and> pt_x p < width}"
proof -
  let ?ax = "pt_x (ps_start sp)" and ?ay = "pt_y (ps_start sp)" and ?bx = "pt_x (ps_end sp)" and ?by = "pt_y (ps_end sp)"
  define bx where "bx = (if ?bx = 0 then width else ?bx)"
  define by' where "by' = (if ?bx = 0 then ?by - 1 else ?by)"
  have rows: "?ay \<le> by'" using assms by (auto simp: less_point_def by'_def)
  have it: "iterate_rows_exclusive width sp = span_rows width ?ax ?ay bx by'"
    using assms(3-) by (auto simp: iterate_rows_exclusive_def Let_def std_clamp_def bx_def by'_def)
  have "map (\<lambda>(y, x1, x2). (y, x1, x2 - 1)) (span_rows width ?ax ?ay bx by') = span_rows (width - 1) ?ax ?ay (bx - 1) by'"
    by (simp add: span_rows_def)
  then have "span_points (map (\<lambda>(y, x1, x2). (y, x1, x2 - 1)) (iterate_rows_exclusive width sp)) =
      {p. ps_start sp \<le> p \<and> p \<le> Point (bx - 1) by' \<and> 0 \<le> pt_x p \<and> pt_x p < width}"
    using span_points_rows [OF rows assms(3)] assms by (simp add: it bx_def)
  moreover have "p \<le> Point (bx - 1) by' \<longleftrightarrow> p < ps_end sp" if "0 \<le> pt_x p" "pt_x p < width" for p
    using that by (auto simp: less_eq_point_def less_point_def bx_def by'_def)
  ultimately show ?thesis by auto
qed

end
