(* ===== verification/Viewport.thy ===== *)
theory Viewport
  imports Til_Geometry
begin

text \<open>
  Viewports, rectangles of cells with inclusive edges, of \<open>src/src/types/viewport.cpp\<close>. The walks through a viewport
  divide by its width and clamp to its last position; they are \<open>None\<close> for a viewport without cells, where the code
  divides by zero or calls \<open>std::clamp\<close> with a lower bound above the upper one.
\<close>

datatype Viewport = Viewport (vp_sr: inclusive_rect)

subsection \<open>Construction and edges\<close>

definition Viewport_Empty :: Viewport where
  "Viewport_Empty = Viewport (IncRect 0 0 (-1) (-1))"

definition FromInclusive :: "inclusive_rect \<Rightarrow> Viewport" where
  "FromInclusive sr = Viewport sr"

definition FromExclusive :: "rect \<Rightarrow> Viewport" where
  "FromExclusive sr = FromInclusive (to_inclusive_rect sr)"

definition FromDimensions :: "point \<Rightarrow> til_size \<Rightarrow> Viewport" where
  "FromDimensions origin dimensions =
     Viewport (IncRect (pt_x origin) (pt_y origin)
       (pt_x origin + sz_width dimensions - 1) (pt_y origin + sz_height dimensions - 1))"

definition Left :: "Viewport \<Rightarrow> int" where
  "Left v = ir_left (vp_sr v)"

definition RightInclusive :: "Viewport \<Rightarrow> int" where
  "RightInclusive v = ir_right (vp_sr v)"

definition RightExclusive :: "Viewport \<Rightarrow> int" where
  "RightExclusive v = ir_right (vp_sr v) + 1"

definition Top :: "Viewport \<Rightarrow> int" where
  "Top v = ir_top (vp_sr v)"

definition BottomInclusive :: "Viewport \<Rightarrow> int" where
  "BottomInclusive v = ir_bottom (vp_sr v)"

definition BottomExclusive :: "Viewport \<Rightarrow> int" where
  "BottomExclusive v = ir_bottom (vp_sr v) + 1"

definition Height :: "Viewport \<Rightarrow> int" where
  "Height v = BottomExclusive v - Top v"

definition Width :: "Viewport \<Rightarrow> int" where
  "Width v = RightExclusive v - Left v"

definition Origin :: "Viewport \<Rightarrow> point" where
  "Origin v = Point (Left v) (Top v)"

definition BottomRightInclusive :: "Viewport \<Rightarrow> point" where
  "BottomRightInclusive v = Point (RightInclusive v) (BottomInclusive v)"

definition BottomRightExclusive :: "Viewport \<Rightarrow> point" where
  "BottomRightExclusive v = Point (RightExclusive v) (BottomExclusive v)"

definition BottomInclusiveRightExclusive :: "Viewport \<Rightarrow> point" where
  "BottomInclusiveRightExclusive v = Point (RightExclusive v) (BottomInclusive v)"

definition EndExclusive :: "Viewport \<Rightarrow> point" where
  "EndExclusive v = Point (Left v) (BottomExclusive v)"

definition Dimensions :: "Viewport \<Rightarrow> til_size" where
  "Dimensions v = Size (Width v) (Height v)"

definition IsValid :: "Viewport \<Rightarrow> bool" where
  "IsValid v = inclusive_rect_bool (vp_sr v)"

definition ToExclusive :: "Viewport \<Rightarrow> rect" where
  "ToExclusive v = Rect (Left v) (Top v) (RightExclusive v) (BottomExclusive v)"

definition ToInclusive :: "Viewport \<Rightarrow> inclusive_rect" where
  "ToInclusive v = IncRect (Left v) (Top v) (RightInclusive v) (BottomInclusive v)"

subsection \<open>Bounds\<close>

definition IsInBounds_viewport :: "Viewport \<Rightarrow> Viewport \<Rightarrow> bool" where
  "IsInBounds_viewport v other \<longleftrightarrow>
     Left other \<ge> Left v \<and> Left other \<le> RightInclusive v \<and>
     RightInclusive other \<ge> Left v \<and> RightInclusive other \<le> RightInclusive v \<and>
     Top other \<ge> Top v \<and> Top other \<le> BottomInclusive other \<and>
     BottomInclusive other \<ge> Top v \<and> BottomInclusive other \<le> BottomInclusive v"

definition IsInBounds :: "Viewport \<Rightarrow> point \<Rightarrow> bool \<Rightarrow> bool" where
  "IsInBounds v pos allowEndExclusive \<longleftrightarrow>
     (allowEndExclusive \<and> pos = EndExclusive v) \<or>
     (pt_x pos \<ge> Left v \<and> pt_x pos < RightExclusive v \<and> pt_y pos \<ge> Top v \<and> pt_y pos < BottomExclusive v)"

definition IsInExclusiveBounds :: "Viewport \<Rightarrow> point \<Rightarrow> bool" where
  "IsInExclusiveBounds v pos \<longleftrightarrow>
     pt_x pos \<ge> Left v \<and> pt_x pos \<le> RightExclusive v \<and> pt_y pos \<ge> Top v \<and> pt_y pos \<le> BottomInclusive v"

definition Clamp_point :: "Viewport \<Rightarrow> point \<Rightarrow> point option" where
  "Clamp_point v pos =
     (if \<not> IsValid v then None
      else Some (Point (std_clamp (pt_x pos) (Left v) (RightInclusive v)) (std_clamp (pt_y pos) (Top v) (BottomInclusive v))))"

definition Clamp_viewport :: "Viewport \<Rightarrow> Viewport \<Rightarrow> Viewport" where
  "Clamp_viewport v other = FromExclusive (rect_intersect (ToExclusive v) (ToExclusive other))"

subsection \<open>Walks\<close>

definition CompareInBounds :: "Viewport \<Rightarrow> point \<Rightarrow> point \<Rightarrow> int" where
  "CompareInBounds v first second = (pt_y first - pt_y second) * Width v + (pt_x first - pt_x second)"

definition CompareInExclusiveBounds :: "Viewport \<Rightarrow> point \<Rightarrow> point \<Rightarrow> int" where
  "CompareInExclusiveBounds v first second = (pt_y first - pt_y second) * Width v + (pt_x first - pt_x second)"

text \<open>A walk over the positions of an area: the new position, and whether it is the one that was asked for.\<close>

definition walk_area :: "int \<Rightarrow> int \<Rightarrow> int \<Rightarrow> int \<Rightarrow> point \<Rightarrow> int \<Rightarrow> (point \<times> bool) option" where
  "walk_area l t w last_off pos delta =
     (let off = w * (pt_y pos - t) + (pt_x pos - l) + delta
      in if w = 0 \<or> last_off < 0 then None
         else (let offClamped = std_clamp off 0 last_off
               in Some (Point (offClamped mod w + l) (offClamped div w + t), off = offClamped)))"

definition WalkInBounds :: "Viewport \<Rightarrow> point \<Rightarrow> int \<Rightarrow> bool \<Rightarrow> (point \<times> bool) option" where
  "WalkInBounds v pos delta allowEndExclusive =
     (let l = ir_left (vp_sr v); t = ir_top (vp_sr v);
          w = max 0 (ir_right (vp_sr v) - ir_left (vp_sr v) + 1);
          h = max 0 (ir_bottom (vp_sr v) - ir_top (vp_sr v) + 1)
      in walk_area l t w (w * h - of_bool (\<not> allowEndExclusive)) pos delta)"

definition IncrementInBounds :: "Viewport \<Rightarrow> point \<Rightarrow> bool \<Rightarrow> (point \<times> bool) option" where
  "IncrementInBounds v pos allowEndExclusive = WalkInBounds v pos 1 allowEndExclusive"

definition DecrementInBounds :: "Viewport \<Rightarrow> point \<Rightarrow> bool \<Rightarrow> (point \<times> bool) option" where
  "DecrementInBounds v pos allowEndExclusive = WalkInBounds v pos (-1) allowEndExclusive"

definition WalkInExclusiveBounds :: "Viewport \<Rightarrow> point \<Rightarrow> int \<Rightarrow> (point \<times> bool) option" where
  "WalkInExclusiveBounds v pos delta =
     (let l = ir_left (vp_sr v); t = ir_top (vp_sr v);
          w = max 0 (ir_right (vp_sr v) - ir_left (vp_sr v) + 2);
          h = max 0 (ir_bottom (vp_sr v) - ir_top (vp_sr v) + 1)
      in walk_area l t w (w * h) pos delta)"

definition IncrementInExclusiveBounds :: "Viewport \<Rightarrow> point \<Rightarrow> (point \<times> bool) option" where
  "IncrementInExclusiveBounds v pos = WalkInExclusiveBounds v pos 1"

definition DecrementInExclusiveBounds :: "Viewport \<Rightarrow> point \<Rightarrow> (point \<times> bool) option" where
  "DecrementInExclusiveBounds v pos = WalkInExclusiveBounds v pos (-1)"

definition GetWalkOrigin :: "Viewport \<Rightarrow> int \<Rightarrow> point" where
  "GetWalkOrigin v delta =
     Point (if delta \<ge> 0 then Left v else RightInclusive v) (if delta \<ge> 0 then Top v else BottomInclusive v)"

definition DetermineWalkDirection :: "Viewport \<Rightarrow> Viewport \<Rightarrow> int" where
  "DetermineWalkDirection source target = (if Origin target < Origin source then 1 else -1)"

subsection \<open>Conversions\<close>

definition TrimToViewport :: "Viewport \<Rightarrow> rect \<Rightarrow> rect \<times> bool" where
  "TrimToViewport v sr =
     (let sr = Rect (max (r_left sr) (Left v)) (max (r_top sr) (Top v))
                    (min (r_right sr) (RightExclusive v)) (min (r_bottom sr) (BottomExclusive v))
      in (sr, r_left sr < r_right sr \<and> r_top sr < r_bottom sr))"

definition ConvertToOrigin_rect :: "Viewport \<Rightarrow> rect \<Rightarrow> rect" where
  "ConvertToOrigin_rect v sr =
     (let dx = Left v; dy = Top v in Rect (r_left sr - dx) (r_top sr - dy) (r_right sr - dx) (r_bottom sr - dy))"

definition ConvertToOrigin_inclusive :: "Viewport \<Rightarrow> inclusive_rect \<Rightarrow> inclusive_rect" where
  "ConvertToOrigin_inclusive v sr =
     (let dx = Left v; dy = Top v in IncRect (ir_left sr - dx) (ir_top sr - dy) (ir_right sr - dx) (ir_bottom sr - dy))"

definition ConvertToOrigin_point :: "Viewport \<Rightarrow> point \<Rightarrow> point" where
  "ConvertToOrigin_point v p = Point (pt_x p - Left v) (pt_y p - Top v)"

definition ConvertFromOrigin_inclusive :: "Viewport \<Rightarrow> inclusive_rect \<Rightarrow> inclusive_rect" where
  "ConvertFromOrigin_inclusive v sr =
     (let dx = Left v; dy = Top v in IncRect (ir_left sr + dx) (ir_top sr + dy) (ir_right sr + dx) (ir_bottom sr + dy))"

definition ConvertFromOrigin_point :: "Viewport \<Rightarrow> point \<Rightarrow> point" where
  "ConvertFromOrigin_point v p = Point (pt_x p + Left v) (pt_y p + Top v)"

definition ToOrigin :: "Viewport \<Rightarrow> Viewport" where
  "ToOrigin v = Viewport (ConvertToOrigin_inclusive v (vp_sr v))"

definition ConvertToOrigin :: "Viewport \<Rightarrow> Viewport \<Rightarrow> Viewport" where
  "ConvertToOrigin v other = Viewport (ConvertToOrigin_inclusive v (vp_sr other))"

definition ConvertFromOrigin :: "Viewport \<Rightarrow> Viewport \<Rightarrow> Viewport" where
  "ConvertFromOrigin v other = Viewport (ConvertFromOrigin_inclusive v (vp_sr other))"

definition Offset :: "Viewport \<Rightarrow> point \<Rightarrow> Viewport" where
  "Offset original delta =
     Viewport (IncRect (ir_left (vp_sr original) + pt_x delta) (ir_top (vp_sr original) + pt_y delta)
                       (ir_right (vp_sr original) + pt_x delta) (ir_bottom (vp_sr original) + pt_y delta))"

subsection \<open>Set operations\<close>

definition Union_of :: "Viewport \<Rightarrow> Viewport \<Rightarrow> Viewport" where
  "Union_of lhs rhs =
     (let leftValid = IsValid lhs; rightValid = IsValid rhs
      in if \<not> leftValid \<and> \<not> rightValid then Viewport_Empty
         else if \<not> leftValid then rhs
         else if \<not> rightValid then lhs
         else Viewport (IncRect (min (Left lhs) (Left rhs)) (min (Top lhs) (Top rhs))
                (max (RightInclusive lhs) (RightInclusive rhs)) (max (BottomInclusive lhs) (BottomInclusive rhs))))"

definition Intersect :: "Viewport \<Rightarrow> Viewport \<Rightarrow> Viewport" where
  "Intersect lhs rhs =
     (let intersection = Viewport (IncRect (max (Left lhs) (Left rhs)) (max (Top lhs) (Top rhs))
            (min (RightInclusive lhs) (RightInclusive rhs)) (min (BottomInclusive lhs) (BottomInclusive rhs)))
      in if \<not> IsValid intersection then Viewport_Empty else intersection)"

definition Subtract :: "Viewport \<Rightarrow> Viewport \<Rightarrow> Viewport list" where
  "Subtract original removeMe =
     (let i = Intersect original removeMe
      in if \<not> IsValid original then []
         else if \<not> IsValid i then [original]
         else if original \<noteq> i
         then filter IsValid
                [Viewport (IncRect (Left original) (Top original) (RightInclusive original) (Top i - 1)),
                 Viewport (IncRect (Left original) (BottomExclusive i) (RightInclusive original) (BottomInclusive original)),
                 Viewport (IncRect (Left original) (Top i) (Left i - 1) (BottomInclusive i)),
                 Viewport (IncRect (RightExclusive i) (Top i) (RightInclusive original) (BottomInclusive i))]
         else [])"

subsection \<open>Viewports as exclusive rectangles\<close>

lemmas viewport_edges [geom_simps] =
  Left_def RightInclusive_def RightExclusive_def Top_def BottomInclusive_def BottomExclusive_def Width_def Height_def

lemma ToExclusive_inject: "ToExclusive v = ToExclusive w \<longleftrightarrow> v = w"
  by (cases v; cases w; cases "vp_sr v"; cases "vp_sr w") (simp add: ToExclusive_def geom_simps)

lemma IsValid_ToExclusive: "IsValid v \<longleftrightarrow> rect_bool (ToExclusive v)"
  by (simp add: IsValid_def inclusive_rect_bool_def rect_bool_def ToExclusive_def geom_simps)

lemma ToExclusive_FromExclusive: "ToExclusive (FromExclusive r) = r"
  by (simp add: ToExclusive_def FromExclusive_def FromInclusive_def to_inclusive_rect_def geom_simps)

lemma ToExclusive_Viewport:
  "ToExclusive (Viewport (IncRect a b c d)) = Rect a b (c + 1) (d + 1)"
  by (simp add: ToExclusive_def geom_simps)

lemma ToExclusive_Intersect:
  "ToExclusive (Intersect v w) =
     (let i = rect_intersect (ToExclusive v) (ToExclusive w) in if rect_bool i then i else rect_zero)"
proof -
  obtain a b c d a' b' c' d' where v: "v = Viewport (IncRect a b c d)" and w: "w = Viewport (IncRect a' b' c' d')"
    by (metis Viewport.exhaust inclusive_rect.exhaust)
  define l t r u where "l = max a a'" and "t = max b b'" and "r = min c c'" and "u = min d d'"
  have "min (c + 1) (c' + 1) = r + 1" "min (d + 1) (d' + 1) = u + 1" by (simp_all add: r_def u_def)
  then have "rect_intersect (ToExclusive v) (ToExclusive w) =
      (if l \<ge> r + 1 then rect_zero else if t \<ge> u + 1 then rect_zero else Rect l t (r + 1) (u + 1))"
    by (simp add: v w ToExclusive_Viewport rect_intersect_def Let_def l_def t_def)
  moreover have "Intersect v w =
      (if IsValid (Viewport (IncRect l t r u)) then Viewport (IncRect l t r u) else Viewport_Empty)"
    by (simp add: v w Intersect_def Let_def geom_simps l_def t_def r_def u_def)
  ultimately show ?thesis
    by (simp add: IsValid_ToExclusive ToExclusive_Viewport Viewport_Empty_def rect_zero_def rect_bool_def)
qed

definition viewport_cells :: "Viewport \<Rightarrow> point set" where
  "viewport_cells v = {p. IsInBounds v p False}"

lemma viewport_cells_ToExclusive: "viewport_cells v = rect_cells (ToExclusive v)"
  by (auto simp: viewport_cells_def IsInBounds_def geom_simps ToExclusive_def)

text \<open>\<open>Viewport::Subtract\<close> and \<open>til::rect\<close>'s \<open>operator-\<close> give the same rectangles.\<close>

definition viewport_frame :: "Viewport \<Rightarrow> Viewport \<Rightarrow> Viewport list" where
  "viewport_frame v i =
     [Viewport (IncRect (Left v) (Top v) (RightInclusive v) (Top i - 1)),
      Viewport (IncRect (Left v) (BottomExclusive i) (RightInclusive v) (BottomInclusive v)),
      Viewport (IncRect (Left v) (Top i) (Left i - 1) (BottomInclusive i)),
      Viewport (IncRect (RightExclusive i) (Top i) (RightInclusive v) (BottomInclusive i))]"

lemma viewport_frame_ToExclusive: "map ToExclusive (viewport_frame v i) = rect_frame (ToExclusive v) (ToExclusive i)"
  by (simp add: viewport_frame_def rect_frame_def ToExclusive_def geom_simps)

lemma filter_IsValid: "map ToExclusive (filter IsValid xs) = filter rect_bool (map ToExclusive xs)"
  by (induction xs) (simp_all add: IsValid_ToExclusive)

lemma Subtract_ToExclusive:
  assumes "IsValid v"
  shows "map ToExclusive (Subtract v w) = rect_subtract (ToExclusive v) (ToExclusive w)"
proof (cases "IsValid (Intersect v w)")
  case False
  then have "\<not> rect_bool (rect_intersect (ToExclusive v) (ToExclusive w))"
    by (auto simp: IsValid_ToExclusive ToExclusive_Intersect Let_def)
  then show ?thesis using assms False by (simp add: Subtract_def rect_subtract_def Let_def rect_empty_def)
next
  case True
  then have i: "ToExclusive (Intersect v w) = rect_intersect (ToExclusive v) (ToExclusive w)"
    and valid: "rect_bool (rect_intersect (ToExclusive v) (ToExclusive w))"
    by (auto simp: IsValid_ToExclusive ToExclusive_Intersect Let_def rect_bool_def rect_zero_def split: if_splits)
  have "filter rect_bool (rect_frame r r) = []" for r by (simp add: rect_frame_def rect_bool_def)
  then have "filter IsValid (viewport_frame v v) = []"
    using filter_IsValid [of "viewport_frame v v"] by (simp add: viewport_frame_ToExclusive)
  moreover have "Subtract v w = (if v \<noteq> Intersect v w then filter IsValid (viewport_frame v (Intersect v w)) else [])"
    using assms True by (simp only: Subtract_def viewport_frame_def Let_def not_True_eq_False if_False)
  ultimately have "Subtract v w = filter IsValid (viewport_frame v (Intersect v w))" by (metis (full_types))
  then show ?thesis
    using assms valid
    by (simp add: filter_IsValid viewport_frame_ToExclusive rect_subtract_frame IsValid_ToExclusive i)
qed

interpretation viewports: region_algebra viewport_cells IsValid Intersect Subtract
proof
  fix v w q :: Viewport
  show "finite (viewport_cells v)" by (simp add: viewport_cells_ToExclusive rects.finite_cells)
  assume v: "IsValid v"
  then have r: "rect_bool (ToExclusive v)" by (simp add: IsValid_ToExclusive)
  show "viewport_cells v \<noteq> {}" using rects.valid_cells [OF r] by (simp add: viewport_cells_ToExclusive)
  have "rect_cells rect_zero = {}" by (auto simp: geom_simps rect_zero_def)
  then show "viewport_cells (Intersect v w) = viewport_cells v \<inter> viewport_cells w"
    using rect_not_intersecting [OF r]
    by (auto simp: viewport_cells_ToExclusive ToExclusive_Intersect Let_def rect_intersect_cells)
  note sub = Subtract_ToExclusive [OF v, of w]
  have members: "ToExclusive ` set (Subtract v w) = set (rect_subtract (ToExclusive v) (ToExclusive w))"
    using sub by (metis list.set_map)
  show "(\<Union>q \<in> set (Subtract v w). viewport_cells q) = viewport_cells v - viewport_cells w"
    using rects.minus_cells [OF r, of "ToExclusive w"] by (simp add: viewport_cells_ToExclusive flip: members)
  show "q \<in> set (Subtract v w) \<Longrightarrow> IsValid q"
    using rects.minus_valid [OF r] members by (auto simp: IsValid_ToExclusive)
  show "sorted_wrt (\<lambda>p q. viewport_cells p \<inter> viewport_cells q = {}) (Subtract v w)"
    using rects.minus_disjoint [OF r, of "ToExclusive w"]
    by (simp add: viewport_cells_ToExclusive sorted_wrt_map flip: sub)
qed

subsection \<open>Walking\<close>

text \<open>The position of a point in reading order, and the walk as a movement on those positions.\<close>

definition vp_position :: "Viewport \<Rightarrow> point \<Rightarrow> int" where
  "vp_position v p = Width v * (pt_y p - Top v) + (pt_x p - Left v)"

definition last_position :: "Viewport \<Rightarrow> bool \<Rightarrow> int" where
  "last_position v allowEndExclusive = Width v * Height v - of_bool (\<not> allowEndExclusive)"

definition point_of_position :: "Viewport \<Rightarrow> int \<Rightarrow> point" where
  "point_of_position v k = Point (k mod Width v + Left v) (k div Width v + Top v)"

lemma CompareInBounds_position: "CompareInBounds v p q = vp_position v p - vp_position v q"
  by (simp add: CompareInBounds_def vp_position_def algebra_simps)

lemma IsValid_size: "IsValid v \<Longrightarrow> 0 < Width v" "IsValid v \<Longrightarrow> 0 < Height v"
  by (simp_all add: IsValid_def inclusive_rect_bool_def geom_simps)

lemma position_inverse:
  assumes "0 < Width v"
  shows "vp_position v (point_of_position v k) = k"
  using assms by (simp add: vp_position_def point_of_position_def)

lemma IsInBounds_position:
  assumes v: "IsValid v"
  shows "IsInBounds v p allow \<longleftrightarrow>
    0 \<le> vp_position v p \<and> vp_position v p \<le> last_position v allow \<and> p = point_of_position v (vp_position v p)"
proof -
  note size = IsValid_size [OF v]
  let ?k = "vp_position v p"
  have point: "p = point_of_position v ?k \<longleftrightarrow> pt_x p - Left v = ?k mod Width v \<and> pt_y p - Top v = ?k div Width v"
    by (cases p) (auto simp: point_of_position_def)
  have inside: "IsInBounds v p False \<longleftrightarrow> 0 \<le> ?k \<and> ?k < Width v * Height v \<and> p = point_of_position v ?k"
    unfolding point div_mod_row_major [OF size(1)] by (auto simp: IsInBounds_def vp_position_def geom_simps mult.commute)
  have "p = EndExclusive v \<longleftrightarrow> ?k = Width v * Height v \<and> p = point_of_position v ?k"
  proof
    assume "p = EndExclusive v"
    then show "?k = Width v * Height v \<and> p = point_of_position v ?k"
      using size by (simp add: EndExclusive_def vp_position_def point_of_position_def Height_def)
  next
    assume "?k = Width v * Height v \<and> p = point_of_position v ?k"
    then have "p = point_of_position v (Width v * Height v)" by metis
    then show "p = EndExclusive v" using size by (simp add: point_of_position_def EndExclusive_def Height_def)
  qed
  moreover have "IsInBounds v p True \<longleftrightarrow> p = EndExclusive v \<or> IsInBounds v p False" by (simp add: IsInBounds_def)
  moreover have "0 < Width v * Height v" using size by simp
  ultimately show ?thesis using inside by (cases allow) (auto simp: last_position_def)
qed

lemma IsInBounds_point_of_position:
  assumes "IsValid v" "0 \<le> k" "k \<le> last_position v allow"
  shows "IsInBounds v (point_of_position v k) allow"
  using assms IsInBounds_position [OF assms(1)] position_inverse [OF IsValid_size(1) [OF assms(1)]] by simp

lemma WalkInBounds_position:
  assumes v: "IsValid v"
  shows "WalkInBounds v p delta allow =
    (let k = vp_position v p + delta; k' = std_clamp k 0 (last_position v allow)
     in Some (point_of_position v k', k = k'))"
proof -
  note size = IsValid_size [OF v]
  have w: "max 0 (ir_right (vp_sr v) - ir_left (vp_sr v) + 1) = Width v"
    and h: "max 0 (ir_bottom (vp_sr v) - ir_top (vp_sr v) + 1) = Height v"
    using size by (simp_all add: geom_simps)
  have "WalkInBounds v p delta allow = walk_area (Left v) (Top v) (Width v) (last_position v allow) p delta"
    by (simp only: WalkInBounds_def Let_def w h last_position_def Left_def Top_def)
  moreover have "0 < Width v * Height v" using size by simp
  then have "0 \<le> last_position v allow" by (simp add: last_position_def)
  ultimately show ?thesis
    using size by (simp add: walk_area_def Let_def vp_position_def point_of_position_def)
qed

subsection \<open>Properties\<close>

text \<open>
  C36. A walk in a viewport ends at a position in bounds. It succeeds exactly if there is a position in bounds at the
  asked distance in reading order, as \<open>CompareInBounds\<close> measures it, and then ends there; otherwise it ends at the first
  or the last position. This holds with and without the exclusive end as a position.
\<close>

theorem viewport_walk_distance:
  assumes "IsValid v" and "IsInBounds v p allow"
  shows "\<exists>q ok. WalkInBounds v p delta allow = Some (q, ok) \<and> IsInBounds v q allow \<and>
           (ok \<longleftrightarrow> (\<exists>q'. IsInBounds v q' allow \<and> CompareInBounds v q' p = delta)) \<and>
           (if ok then CompareInBounds v q p = delta
            else vp_position v q = (if delta < 0 then 0 else last_position v allow))"
proof -
  let ?k = "vp_position v p + delta" and ?l = "last_position v allow"
  let ?k' = "std_clamp ?k 0 ?l"
  have p: "0 \<le> vp_position v p" "vp_position v p \<le> ?l" using assms IsInBounds_position by auto
  then have k': "0 \<le> ?k'" "?k' \<le> ?l" by (auto simp: std_clamp_def)
  have pos: "vp_position v (point_of_position v k) = k" for k
    by (rule position_inverse [OF IsValid_size(1) [OF assms(1)]])
  have "?k = ?k' \<longleftrightarrow> (\<exists>q'. IsInBounds v q' allow \<and> CompareInBounds v q' p = delta)"
  proof
    assume "?k = ?k'"
    then have "IsInBounds v (point_of_position v ?k) allow"
      using IsInBounds_point_of_position [OF assms(1)] k' by simp
    then show "\<exists>q'. IsInBounds v q' allow \<and> CompareInBounds v q' p = delta"
      by (auto simp: CompareInBounds_position pos)
  next
    assume "\<exists>q'. IsInBounds v q' allow \<and> CompareInBounds v q' p = delta"
    then obtain q' where "IsInBounds v q' allow" "vp_position v q' = ?k" by (auto simp: CompareInBounds_position)
    then show "?k = ?k'" using IsInBounds_position [OF assms(1), of q' allow] by (simp add: std_clamp_def)
  qed
  moreover have "IsInBounds v (point_of_position v ?k') allow"
    using IsInBounds_point_of_position [OF assms(1) k'] .
  moreover have "?k' = (if delta < 0 then 0 else ?l)" if "?k \<noteq> ?k'"
    using that p by (auto simp: std_clamp_def split: if_splits)
  ultimately show ?thesis
    unfolding WalkInBounds_position [OF assms(1)] Let_def by (auto simp: CompareInBounds_position pos)
qed

theorem viewport_walk_distance_witness:
  "WalkInBounds (Viewport (IncRect 2 1 5 3)) (Point 5 1) 3 False = Some (Point 4 2, True) \<and>
   (\<exists>q'. IsInBounds (Viewport (IncRect 2 1 5 3)) q' False \<and> CompareInBounds (Viewport (IncRect 2 1 5 3)) q' (Point 5 1) = 3)"
  using viewport_walk_distance [of "Viewport (IncRect 2 1 5 3)" "Point 5 1" False 3]
  by (simp add: WalkInBounds_def walk_area_def std_clamp_def IsValid_def inclusive_rect_bool_def IsInBounds_def geom_simps)

text \<open>
  \<open>WalkInExclusiveBounds\<close> does not stay in the exclusive bounds: from the last position, behind the last column of the
  last row, one step forward is reported as possible and leads to the row below the viewport.
\<close>

theorem walk_exclusive_leaves_bounds:
  assumes "IsValid v"
  shows "IsInExclusiveBounds v (BottomInclusiveRightExclusive v) \<and>
    IncrementInExclusiveBounds v (BottomInclusiveRightExclusive v) = Some (EndExclusive v, True) \<and>
    \<not> IsInExclusiveBounds v (EndExclusive v)"
proof (intro conjI)
  note size = IsValid_size [OF assms]
  then show "IsInExclusiveBounds v (BottomInclusiveRightExclusive v)" and "\<not> IsInExclusiveBounds v (EndExclusive v)"
    by (simp_all add: IsInExclusiveBounds_def BottomInclusiveRightExclusive_def EndExclusive_def geom_simps)
  have w: "max 0 (ir_right (vp_sr v) - ir_left (vp_sr v) + 2) = Width v + 1"
    and h: "max 0 (ir_bottom (vp_sr v) - ir_top (vp_sr v) + 1) = Height v"
    using size by (simp_all add: geom_simps)
  have off: "(Width v + 1) * (BottomInclusive v - Top v) + (RightExclusive v - Left v) + 1 = (Width v + 1) * Height v"
    by (simp add: geom_simps algebra_simps)
  have "IncrementInExclusiveBounds v (BottomInclusiveRightExclusive v) =
      walk_area (Left v) (Top v) (Width v + 1) ((Width v + 1) * Height v) (BottomInclusiveRightExclusive v) 1"
    by (simp only: IncrementInExclusiveBounds_def WalkInExclusiveBounds_def Let_def w h Left_def Top_def)
  then show "IncrementInExclusiveBounds v (BottomInclusiveRightExclusive v) = Some (EndExclusive v, True)"
    using size off
    by (simp add: walk_area_def std_clamp_def BottomInclusiveRightExclusive_def EndExclusive_def mult_less_0_iff)
      (simp add: Height_def)
qed

theorem walk_exclusive_leaves_bounds_witness:
  "IncrementInExclusiveBounds (Viewport (IncRect 0 0 79 24)) (Point 80 24) = Some (Point 0 25, True)"
  using walk_exclusive_leaves_bounds [of "Viewport (IncRect 0 0 79 24)"]
  by (simp add: IsValid_def inclusive_rect_bool_def BottomInclusiveRightExclusive_def EndExclusive_def geom_simps)

end
