(* ===== verification/Cursor.thy ===== *)
theory Cursor
  imports Til_Geometry
begin

text \<open>
  The cursor of a text buffer: \<open>src/src/buffer/out/cursor.cpp\<close>. \<open>cu_notified\<close> counts the calls of \<open>NotifyPaintFrame\<close> on
  the buffer the cursor belongs to.
\<close>

datatype CursorType = CursorLegacy | CursorVerticalBar | CursorUnderscore | CursorEmptyBox | CursorFullBox | CursorDoubleUnderscore

record Cursor =
  cu_mutationId :: u64
  cu_cPosition :: point
  cu_coordDelayedAt :: "point option"
  cu_ulSize :: u32
  cu_cursorType :: CursorType
  cu_isVisible :: bool
  cu_isBlinking :: bool
  cu_fIsDouble :: bool
  cu_notified :: nat

definition Cursor_new :: "u32 \<Rightarrow> Cursor" where
  "Cursor_new ulSize =
     \<lparr>cu_mutationId = 0, cu_cPosition = Point 0 0, cu_coordDelayedAt = None, cu_ulSize = ulSize, cu_cursorType = CursorLegacy,
      cu_isVisible = True, cu_isBlinking = True, cu_fIsDouble = False, cu_notified = 0\<rparr>"

definition redrawIfVisible :: "Cursor \<Rightarrow> Cursor" where
  "redrawIfVisible cu =
     (let cu = cu\<lparr>cu_mutationId := cu_mutationId cu + 1\<rparr>
      in if cu_isVisible cu then cu\<lparr>cu_notified := cu_notified cu + 1\<rparr> else cu)"

definition SetIsVisible :: "bool \<Rightarrow> Cursor \<Rightarrow> Cursor" where
  "SetIsVisible enable cu = (if cu_isVisible cu \<noteq> enable then redrawIfVisible (cu\<lparr>cu_isVisible := enable\<rparr>) else cu)"

definition SetIsBlinking :: "bool \<Rightarrow> Cursor \<Rightarrow> Cursor" where
  "SetIsBlinking enable cu = (if cu_isBlinking cu \<noteq> enable then redrawIfVisible (cu\<lparr>cu_isBlinking := enable\<rparr>) else cu)"

definition SetIsDouble :: "bool \<Rightarrow> Cursor \<Rightarrow> Cursor" where
  "SetIsDouble fIsDouble cu = (if cu_fIsDouble cu \<noteq> fIsDouble then redrawIfVisible (cu\<lparr>cu_fIsDouble := fIsDouble\<rparr>) else cu)"

definition SetSize :: "u32 \<Rightarrow> Cursor \<Rightarrow> Cursor" where
  "SetSize ulSize cu = (if cu_ulSize cu \<noteq> ulSize then redrawIfVisible (cu\<lparr>cu_ulSize := ulSize\<rparr>) else cu)"

definition SetStyle :: "u32 \<Rightarrow> CursorType \<Rightarrow> Cursor \<Rightarrow> Cursor" where
  "SetStyle ulSize type cu =
     (if cu_ulSize cu \<noteq> ulSize \<or> cu_cursorType cu \<noteq> type
      then redrawIfVisible (cu\<lparr>cu_ulSize := ulSize, cu_cursorType := type\<rparr>) else cu)"

definition SetType :: "CursorType \<Rightarrow> Cursor \<Rightarrow> Cursor" where
  "SetType type cu = cu\<lparr>cu_cursorType := type\<rparr>"

definition DelayEOLWrap :: "Cursor \<Rightarrow> Cursor" where
  "DelayEOLWrap cu = cu\<lparr>cu_coordDelayedAt := Some (cu_cPosition cu)\<rparr>"

definition ResetDelayEOLWrap :: "Cursor \<Rightarrow> Cursor" where
  "ResetDelayEOLWrap cu = cu\<lparr>cu_coordDelayedAt := None\<rparr>"

definition SetPosition :: "point \<Rightarrow> Cursor \<Rightarrow> Cursor" where
  "SetPosition cPosition cu =
     (let cu = ResetDelayEOLWrap cu
      in if cu_cPosition cu \<noteq> cPosition then redrawIfVisible (cu\<lparr>cu_cPosition := cPosition\<rparr>) else cu)"

definition SetXPosition :: "int \<Rightarrow> Cursor \<Rightarrow> Cursor" where
  "SetXPosition NewX cu =
     (let cu = ResetDelayEOLWrap cu
      in if pt_x (cu_cPosition cu) \<noteq> NewX
         then redrawIfVisible (cu\<lparr>cu_cPosition := Point NewX (pt_y (cu_cPosition cu))\<rparr>) else cu)"

definition SetYPosition :: "int \<Rightarrow> Cursor \<Rightarrow> Cursor" where
  "SetYPosition NewY cu =
     (let cu = ResetDelayEOLWrap cu
      in if pt_y (cu_cPosition cu) \<noteq> NewY
         then redrawIfVisible (cu\<lparr>cu_cPosition := Point (pt_x (cu_cPosition cu)) NewY\<rparr>) else cu)"

definition IncrementXPosition :: "int \<Rightarrow> Cursor \<Rightarrow> Cursor" where
  "IncrementXPosition DeltaX cu =
     (let cu = ResetDelayEOLWrap cu
      in if DeltaX \<noteq> 0
         then redrawIfVisible (cu\<lparr>cu_cPosition := Point (pt_x (cu_cPosition cu) + DeltaX) (pt_y (cu_cPosition cu))\<rparr>) else cu)"

definition IncrementYPosition :: "int \<Rightarrow> Cursor \<Rightarrow> Cursor" where
  "IncrementYPosition DeltaY cu =
     (let cu = ResetDelayEOLWrap cu
      in if DeltaY \<noteq> 0
         then redrawIfVisible (cu\<lparr>cu_cPosition := Point (pt_x (cu_cPosition cu)) (pt_y (cu_cPosition cu) + DeltaY)\<rparr>) else cu)"

definition DecrementXPosition :: "int \<Rightarrow> Cursor \<Rightarrow> Cursor" where
  "DecrementXPosition DeltaX cu =
     (let cu = ResetDelayEOLWrap cu
      in if DeltaX \<noteq> 0
         then redrawIfVisible (cu\<lparr>cu_cPosition := Point (pt_x (cu_cPosition cu) - DeltaX) (pt_y (cu_cPosition cu))\<rparr>) else cu)"

definition DecrementYPosition :: "int \<Rightarrow> Cursor \<Rightarrow> Cursor" where
  "DecrementYPosition DeltaY cu =
     (let cu = ResetDelayEOLWrap cu
      in if DeltaY \<noteq> 0
         then redrawIfVisible (cu\<lparr>cu_cPosition := Point (pt_x (cu_cPosition cu)) (pt_y (cu_cPosition cu) - DeltaY)\<rparr>) else cu)"

definition cursor_CopyProperties :: "Cursor \<Rightarrow> Cursor \<Rightarrow> Cursor" where
  "cursor_CopyProperties other cu =
     cu\<lparr>cu_cPosition := cu_cPosition other, cu_coordDelayedAt := cu_coordDelayedAt other, cu_ulSize := cu_ulSize other,
        cu_cursorType := cu_cursorType other, cu_isVisible := cu_isVisible other, cu_isBlinking := cu_isBlinking other,
        cu_fIsDouble := cu_fIsDouble other\<rparr>"

subsection \<open>What the operations change\<close>

text \<open>What a renderer draws of a cursor, the type set by \<open>SetType\<close> alone left out.\<close>

definition cursor_look :: "Cursor \<Rightarrow> point \<times> u32 \<times> bool \<times> bool \<times> bool" where
  "cursor_look cu = (cu_cPosition cu, cu_ulSize cu, cu_isVisible cu, cu_isBlinking cu, cu_fIsDouble cu)"

lemmas cursor_moves =
  SetPosition_def SetXPosition_def SetYPosition_def IncrementXPosition_def IncrementYPosition_def
  DecrementXPosition_def DecrementYPosition_def ResetDelayEOLWrap_def Let_def

lemma redrawIfVisible_simps [simp]:
  "cu_cPosition (redrawIfVisible cu) = cu_cPosition cu" "cu_coordDelayedAt (redrawIfVisible cu) = cu_coordDelayedAt cu"
  "cu_mutationId (redrawIfVisible cu) = cu_mutationId cu + 1" "cu_isVisible (redrawIfVisible cu) = cu_isVisible cu"
  "cu_ulSize (redrawIfVisible cu) = cu_ulSize cu" "cu_isBlinking (redrawIfVisible cu) = cu_isBlinking cu"
  "cu_fIsDouble (redrawIfVisible cu) = cu_fIsDouble cu"
  "cu_notified (redrawIfVisible cu) = cu_notified cu + of_bool (cu_isVisible cu)"
  by (simp_all add: redrawIfVisible_def Let_def)

text \<open>Every movement ends a delayed wrap, also one that stays where it is.\<close>

lemma cursor_moves_reset_wrap:
  "cu_coordDelayedAt (SetPosition p cu) = None" "cu_coordDelayedAt (SetXPosition x cu) = None"
  "cu_coordDelayedAt (SetYPosition y cu) = None" "cu_coordDelayedAt (IncrementXPosition x cu) = None"
  "cu_coordDelayedAt (IncrementYPosition y cu) = None" "cu_coordDelayedAt (DecrementXPosition x cu) = None"
  "cu_coordDelayedAt (DecrementYPosition y cu) = None"
  by (simp_all add: cursor_moves)

lemma SetPosition_position [simp]: "cu_cPosition (SetPosition p cu) = p"
  by (simp add: SetPosition_def ResetDelayEOLWrap_def Let_def)

text \<open>The mutation counter changes exactly if the look does.\<close>

lemma cursor_mutation:
  assumes "cu' \<in> {SetPosition p cu, SetXPosition x cu, SetYPosition y cu, SetIsVisible b cu, SetIsBlinking b cu,
                   SetIsDouble b cu, SetSize n cu, IncrementXPosition x cu, IncrementYPosition x cu,
                   DecrementXPosition x cu, DecrementYPosition x cu}"
  shows "cu_mutationId cu' = cu_mutationId cu + of_bool (cursor_look cu' \<noteq> cursor_look cu)"
proof -
  have split: "p = Point a b \<longleftrightarrow> pt_x p = a \<and> pt_y p = b" "Point a b = p \<longleftrightarrow> a = pt_x p \<and> b = pt_y p" for p a b
    by (cases p; simp)+
  show ?thesis using assms
    by (elim insertE emptyE)
      (auto simp: cursor_moves cursor_look_def SetIsVisible_def SetIsBlinking_def SetIsDouble_def SetSize_def split)
qed

end
