(* ===== verification/Text_Buffer.thy ===== *)
theory Text_Buffer
  imports Row_Properties Viewport Cursor
begin

text \<open>
  The text buffer, \<open>TextBuffer\<close> of \<open>src/src/buffer/out/textBuffer.cpp\<close>: its storage and the operations on its rows.

  The memory of the rows is an array of \<open>tb_slotCount\<close> slots, one more than there are rows. \<open>tb_slots\<close> has the rows
  between \<open>_buffer\<close> and \<open>_commitWatermark\<close>; the slots behind it are reserved, and constructed when they are first used,
  with 128 more. Slot 0 is the scratchpad, and row \<open>y\<close> is in slot \<open>(_firstRow + y) mod _height + 1\<close>. Addresses are
  counted in strides of rows.

  An operation is a function from a buffer to a buffer and a result, \<open>None\<close> for an exception, which leaves the buffer
  as it is at that moment; an access outside of an array is \<open>OutOfBounds\<close>, as for rows. The redraws an operation asks a
  renderer for are collected in \<open>tb_redraws\<close>. Images are left out, as in \<open>Row\<close>; memory can always be had.
\<close>

subsection \<open>State and effects\<close>

record TextBuffer =
  tb_slots :: "ROW list"
  tb_slotCount :: nat
  tb_initialAttributes :: TextAttribute
  tb_currentAttributes :: TextAttribute
  tb_width :: nat
  tb_height :: nat
  tb_firstRow :: int
  tb_lastMutationId :: u64
  tb_cursor :: Cursor
  tb_isActiveBuffer :: bool
  tb_hasRenderer :: bool
  tb_redraws :: "Viewport list"
  tb_hyperlinkMap :: "16 word \<rightharpoonup> wstring"
  tb_hyperlinkCustomIdMap :: "(wstring \<times> 16 word) list"
  tb_currentHyperlinkId :: "16 word"

type_synonym ('s, 'a) st_op = "'s \<Rightarrow> ('s \<times> 'a option) outcome"
type_synonym 'a tb_op = "(TextBuffer, 'a) st_op"

definition tb_return :: "'a \<Rightarrow> ('s, 'a) st_op" where
  "tb_return x tb = Done (tb, Some x)"

definition tb_throw :: "('s, 'a) st_op" where
  "tb_throw tb = Done (tb, None)"

definition tb_bind :: "('s, 'a) st_op \<Rightarrow> ('a \<Rightarrow> ('s, 'b) st_op) \<Rightarrow> ('s, 'b) st_op" where
  "tb_bind m f tb = obind (m tb) (\<lambda>(tb', r). case r of None \<Rightarrow> Done (tb', None) | Some x \<Rightarrow> f x tb')"

definition tb_get :: "('s \<Rightarrow> 'a) \<Rightarrow> ('s, 'a) st_op" where
  "tb_get f tb = Done (tb, Some (f tb))"

definition tb_modify :: "('s \<Rightarrow> 's) \<Rightarrow> ('s, unit) st_op" where
  "tb_modify f tb = Done (f tb, Some ())"

definition tb_read :: "'a outcome \<Rightarrow> ('s, 'a) st_op" where
  "tb_read m tb = obind m (\<lambda>x. Done (tb, Some x))"

text \<open>A loop over the values of its counter.\<close>

fun tb_for :: "'i list \<Rightarrow> ('i \<Rightarrow> ('s, unit) st_op) \<Rightarrow> ('s, unit) st_op" where
  "tb_for [] body = tb_return ()"
| "tb_for (i # is) body = tb_bind (body i) (\<lambda>_. tb_for is body)"

subsection \<open>Buffer management\<close>

definition reserve :: "til_size \<Rightarrow> TextAttribute \<Rightarrow> TextBuffer \<Rightarrow> TextBuffer option" where
  "reserve screenBufferSize defaultAttributes tb =
     (let w = sz_width screenBufferSize; h = sz_height screenBufferSize
      in if 0 \<le> w \<and> w \<le> 65535 \<and> 0 \<le> h \<and> h \<le> 65535
         then Some (tb\<lparr>tb_slots := [], tb_slotCount := nat h + 1, tb_initialAttributes := defaultAttributes,
                       tb_width := nat w, tb_height := nat h\<rparr>)
         else None)"

definition TextBuffer_new :: "til_size \<Rightarrow> TextAttribute \<Rightarrow> u32 \<Rightarrow> bool \<Rightarrow> bool \<Rightarrow> u64 \<Rightarrow> TextBuffer option" where
  "TextBuffer_new screenBufferSize defaultAttributes cursorSize isActiveBuffer hasRenderer initialMutationId =
     reserve (Size (max (sz_width screenBufferSize) 1) (max (sz_height screenBufferSize) 1)) defaultAttributes
       \<lparr>tb_slots = [], tb_slotCount = 0, tb_initialAttributes = TextAttribute_default, tb_currentAttributes = defaultAttributes,
        tb_width = 0, tb_height = 0, tb_firstRow = 0, tb_lastMutationId = initialMutationId, tb_cursor = Cursor_new cursorSize,
        tb_isActiveBuffer = isActiveBuffer, tb_hasRenderer = hasRenderer, tb_redraws = [], tb_hyperlinkMap = Map.empty,
        tb_hyperlinkCustomIdMap = [], tb_currentHyperlinkId = 1\<rparr>"

definition construct :: "nat \<Rightarrow> TextBuffer \<Rightarrow> TextBuffer" where
  "construct until tb =
     tb\<lparr>tb_slots := tb_slots tb @ replicate (until - length (tb_slots tb)) (ROW_new (tb_width tb) (tb_initialAttributes tb))\<rparr>"

abbreviation commitReadAheadRowCount :: nat where "commitReadAheadRowCount \<equiv> 128"

definition commit :: "nat \<Rightarrow> TextBuffer \<Rightarrow> TextBuffer" where
  "commit row tb =
     (let watermark = length (tb_slots tb);
          remaining = tb_slotCount tb - watermark;
          minimum = row + 1 - watermark;
          ideal = minimum + commitReadAheadRowCount;
          size = min remaining ideal
      in construct (watermark + size) tb)"

definition decommit :: "TextBuffer \<Rightarrow> TextBuffer" where
  "decommit tb = tb\<lparr>tb_slots := []\<rparr>"

definition getRowByOffsetDirect :: "nat \<Rightarrow> nat tb_op" where
  "getRowByOffsetDirect offset tb =
     (if offset \<ge> tb_slotCount tb then tb_throw tb
      else tb_return offset (if offset \<ge> length (tb_slots tb) then commit offset tb else tb))"

definition wrap_offset :: "int \<Rightarrow> TextBuffer \<Rightarrow> nat" where
  "wrap_offset y tb =
     (let offset = y smod int (tb_height tb)
      in nat (if offset < 0 then offset + int (tb_height tb) else offset))"

definition getRow :: "int \<Rightarrow> nat tb_op" where
  "getRow y tb = getRowByOffsetDirect (wrap_offset (tb_firstRow tb + y) tb + 1) tb"

definition estimateOffsetOfLastCommittedRow :: "TextBuffer \<Rightarrow> int" where
  "estimateOffsetOfLastCommittedRow tb = max 0 (int (length (tb_slots tb)) - 2)"

definition isRowCommitted :: "int \<Rightarrow> TextBuffer \<Rightarrow> bool" where
  "isRowCommitted y tb \<longleftrightarrow> wrap_offset (tb_firstRow tb + y + 1) tb < length (tb_slots tb)"

definition GetMutableRowByOffset :: "int \<Rightarrow> nat tb_op" where
  "GetMutableRowByOffset index =
     tb_bind (tb_modify (\<lambda>tb. tb\<lparr>tb_lastMutationId := tb_lastMutationId tb + 1\<rparr>)) (\<lambda>_. getRow index)"

text \<open>The row in a slot, read and changed.\<close>

definition slot_row :: "nat \<Rightarrow> ROW tb_op" where
  "slot_row s tb = obind (peek (tb_slots tb) s) (\<lambda>row. Done (tb, Some row))"

definition change_slot :: "nat \<Rightarrow> (ROW \<Rightarrow> (ROW \<times> 'a option) outcome) \<Rightarrow> 'a tb_op" where
  "change_slot s f tb =
     obind (peek (tb_slots tb) s) (\<lambda>row. obind (f row) (\<lambda>(row', r). Done (tb\<lparr>tb_slots := (tb_slots tb)[s := row']\<rparr>, r)))"

definition GetRowByOffset :: "int \<Rightarrow> ROW tb_op" where
  "GetRowByOffset index = tb_bind (getRow index) slot_row"

definition change_row :: "int \<Rightarrow> (ROW \<Rightarrow> (ROW \<times> 'a option) outcome) \<Rightarrow> 'a tb_op" where
  "change_row y f = tb_bind (GetMutableRowByOffset y) (\<lambda>s. change_slot s f)"

definition pure_change :: "(ROW \<Rightarrow> ROW) \<Rightarrow> ROW \<Rightarrow> (ROW \<times> unit option) outcome" where
  "pure_change f row = Done (f row, Some ())"

definition GetScratchpadRow :: "TextAttribute \<Rightarrow> nat tb_op" where
  "GetScratchpadRow attributes =
     tb_bind (getRowByOffsetDirect 0) (\<lambda>s.
     tb_bind (change_slot s (pure_change (row_Reset attributes))) (\<lambda>_. tb_return s))"

definition tb_GetSize :: "TextBuffer \<Rightarrow> Viewport" where
  "tb_GetSize tb = FromDimensions (Point 0 0) (Size (int (tb_width tb)) (int (tb_height tb)))"

definition tb_CopyProperties :: "TextBuffer \<Rightarrow> TextBuffer \<Rightarrow> TextBuffer" where
  "tb_CopyProperties OtherBuffer tb = tb\<lparr>tb_cursor := cursor_CopyProperties (tb_cursor OtherBuffer) (tb_cursor tb)\<rparr>"

definition TriggerRedraw :: "Viewport \<Rightarrow> unit tb_op" where
  "TriggerRedraw viewport =
     tb_modify (\<lambda>tb. if tb_isActiveBuffer tb \<and> tb_hasRenderer tb then tb\<lparr>tb_redraws := tb_redraws tb @ [viewport]\<rparr> else tb)"

subsection \<open>Measuring text\<close>

definition tb_GraphemeNext :: "CodepointWidthDetector \<Rightarrow> wstring \<Rightarrow> nat \<Rightarrow> nat" where
  "tb_GraphemeNext d chars position =
     (let (_, s, _) = GraphemeNext d (GraphemeState_init\<lparr>gs_beg := Some position\<rparr>) chars in position + gs_len s)"

definition tb_GraphemePrev :: "CodepointWidthDetector \<Rightarrow> wstring \<Rightarrow> nat \<Rightarrow> nat" where
  "tb_GraphemePrev d chars position =
     (let (_, s, _) = GraphemePrev d (GraphemeState_init\<lparr>gs_beg := Some position\<rparr>) chars in position - gs_len s)"

fun fit_clusters :: "int \<Rightarrow> nat \<Rightarrow> int \<Rightarrow> (nat \<times> int) list \<Rightarrow> nat \<times> int" where
  "fit_clusters columnLimit dist col [] = (dist, col)"
| "fit_clusters columnLimit dist col ((len, width) # cls) =
     (let col = col + width in if col > columnLimit then (dist, col) else fit_clusters columnLimit (dist + len) col cls)"

text \<open>The number of code units that fit, and the columns they need.\<close>

definition FitTextIntoColumns :: "CodepointWidthDetector \<Rightarrow> wstring \<Rightarrow> int \<Rightarrow> nat \<times> int" where
  "FitTextIntoColumns d chars columnLimit =
     (let columnLimit = max 0 columnLimit;
          asciiEnd = min (length chars) (nat columnLimit);
          dist = length (takeWhile (\<lambda>c. c < 0x80) (take asciiEnd chars))
      in if dist = asciiEnd then (dist, int dist)
         else (let dist = dist - 1
               in fit_clusters columnLimit dist (int dist)
                    (clusters d (GraphemeState_init\<lparr>gs_beg := Some dist\<rparr>) chars)))"

subsection \<open>Writing\<close>

definition Replace :: "CodepointWidthDetector \<Rightarrow> int \<Rightarrow> TextAttribute \<Rightarrow> RowWriteState \<Rightarrow> RowWriteState tb_op" where
  "Replace d row attributes state =
     tb_bind (GetMutableRowByOffset row) (\<lambda>s.
     tb_bind (change_slot s (ReplaceText d state)) (\<lambda>state.
     tb_bind (change_slot s (\<lambda>r. Done (ReplaceAttributes (rws_columnBegin state) (rws_columnEnd state) attributes r))) (\<lambda>_.
     tb_bind (TriggerRedraw (FromExclusive (Rect (rws_columnBeginDirty state) row (rws_columnEndDirty state) (row + 1)))) (\<lambda>_.
     tb_return state))))"

text \<open>The attributes behind inserted text, from the copy of the row; \<open>gsl::narrow<uint16_t>\<close> throws for other values.\<close>

definition in_uint16 :: "int \<Rightarrow> bool" where
  "in_uint16 v \<longleftrightarrow> 0 \<le> v \<and> v \<le> 65535"

definition restore_attributes :: "int \<Rightarrow> int \<Rightarrow> int \<Rightarrow> ROW \<Rightarrow> ROW \<Rightarrow> ROW \<times> unit option" where
  "restore_attributes sourceBegin columnBegin columnEnd scratch r =
     (let copyAmount = columnEnd - columnBegin
      in if copyAmount > 0
         then if in_uint16 sourceBegin \<and> in_uint16 (sourceBegin + copyAmount) \<and> in_uint16 columnBegin \<and> in_uint16 columnEnd
              then (case rle_replace (nat columnBegin) (nat columnEnd)
                           (rle_runs (rle_slice (nat sourceBegin) (nat (sourceBegin + copyAmount)) (row_attr scratch))) (row_attr r) of
                      None \<Rightarrow> (r, None)
                    | Some a \<Rightarrow> (r\<lparr>row_attr := a\<rparr>, Some ()))
              else (r, None)
         else (r, Some ()))"

definition Insert :: "CodepointWidthDetector \<Rightarrow> int \<Rightarrow> TextAttribute \<Rightarrow> RowWriteState \<Rightarrow> RowWriteState tb_op" where
  "Insert d row attributes state =
     tb_bind (GetMutableRowByOffset row) (\<lambda>s.
     tb_bind (tb_get tb_currentAttributes) (\<lambda>currentAttributes.
     tb_bind (GetScratchpadRow currentAttributes) (\<lambda>sp.
     tb_bind (slot_row s) (\<lambda>r.
     tb_bind (change_slot sp (CopyFrom r False)) (\<lambda>_.
     tb_bind (change_slot s (ReplaceText d state)) (\<lambda>state.
     tb_bind (change_slot s (\<lambda>r. Done (ReplaceAttributes (rws_columnBegin state) (rws_columnEnd state) attributes r))) (\<lambda>_.
     tb_bind (slot_row sp) (\<lambda>scratch.
     tb_bind (tb_read (GetText_range (rws_columnBegin state) (rws_columnLimit state) scratch)) (\<lambda>rest.
     tb_bind (change_slot s (ReplaceText d \<lparr>rws_text = rest, rws_columnBegin = rws_columnEnd state,
               rws_columnLimit = rws_columnLimit state, rws_columnEnd = 0, rws_columnBeginDirty = 0, rws_columnEndDirty = 0\<rparr>)) (\<lambda>restoreState.
     tb_bind (change_slot s (\<lambda>r. Done (restore_attributes (rws_columnBegin state) (rws_columnBegin restoreState)
               (rws_columnEnd restoreState) scratch r))) (\<lambda>_.
     tb_bind (TriggerRedraw (FromExclusive (Rect (rws_columnBeginDirty state) row (rws_columnEndDirty restoreState) (row + 1)))) (\<lambda>_.
     tb_return state))))))))))))"

text \<open>
  \<open>FillRect\<close> fills the scratchpad with copies of the text first, in a loop that goes on until the right edge is
  reached. \<open>None\<close> is a loop that does not end.
\<close>

partial_function (option) fill_loop ::
  "CodepointWidthDetector \<Rightarrow> wstring \<Rightarrow> int \<Rightarrow> RowWriteState \<Rightarrow> ROW \<Rightarrow> (ROW \<times> unit option) outcome option"
where
  "fill_loop d fill right state row =
     (if rws_columnEnd state < right
      then (case ReplaceText d (state\<lparr>rws_columnBegin := rws_columnEnd state, rws_text := fill\<rparr>) row of
              Done (row, Some state) \<Rightarrow> fill_loop d fill right state row
            | Done (row, None) \<Rightarrow> Some (Done (row, None))
            | Thrown \<Rightarrow> Some Thrown
            | OutOfBounds \<Rightarrow> Some OutOfBounds)
      else Some (Done (row, Some ())))"

definition fill_scratchpad :: "CodepointWidthDetector \<Rightarrow> wstring \<Rightarrow> rect \<Rightarrow> ROW \<Rightarrow> (ROW \<times> unit option) outcome option" where
  "fill_scratchpad d fill r row =
     (if fill \<noteq> [0x20]
      then fill_loop d fill (r_right r)
             \<lparr>rws_text = [], rws_columnBegin = 0, rws_columnLimit = r_right r, rws_columnEnd = r_left r,
              rws_columnBeginDirty = 0, rws_columnEndDirty = 0\<rparr> row
      else Some (Done (row, Some ())))"

definition fill_row :: "rect \<Rightarrow> TextAttribute \<Rightarrow> ROW \<Rightarrow> int \<Rightarrow> unit tb_op" where
  "fill_row r attributes scratchpad y =
     tb_bind (GetMutableRowByOffset y) (\<lambda>s.
     tb_bind (change_slot s (CopyTextFrom (RowCopyTextFromState_init\<lparr>rcs_columnBegin := r_left r, rcs_columnLimit := r_right r,
               rcs_sourceColumnBegin := r_left r\<rparr>) scratchpad False)) (\<lambda>state.
     tb_bind (change_slot s (\<lambda>row. Done (ReplaceAttributes (r_left r) (r_right r) attributes row))) (\<lambda>_.
     TriggerRedraw (FromExclusive (Rect (rcs_columnBeginDirty state) y (rcs_columnEndDirty state) (y + 1))))))"

definition FillRect :: "CodepointWidthDetector \<Rightarrow> rect \<Rightarrow> wstring \<Rightarrow> TextAttribute \<Rightarrow> TextBuffer \<Rightarrow> (TextBuffer \<times> unit option) outcome option" where
  "FillRect d r fill attributes tb =
     (if \<not> rect_bool r \<or> fill = [] then Some (tb_return () tb)
      else (case GetScratchpadRow attributes tb of
              Done (tb, Some sp) \<Rightarrow>
                (case peek (tb_slots tb) sp of
                   Done scratchpad \<Rightarrow>
                     map_option (\<lambda>filled. obind filled (\<lambda>(scratchpad, ok).
                        (let tb = tb\<lparr>tb_slots := (tb_slots tb)[sp := scratchpad]\<rparr>
                         in case ok of
                              None \<Rightarrow> Done (tb, None)
                            | Some _ \<Rightarrow> tb_for [r_top r..r_bottom r - 1] (fill_row r attributes scratchpad) tb)))
                       (fill_scratchpad d fill r scratchpad)
                 | Thrown \<Rightarrow> Some Thrown
                 | OutOfBounds \<Rightarrow> Some OutOfBounds)
            | Done (tb, None) \<Rightarrow> Some (Done (tb, None))
            | Thrown \<Rightarrow> Some Thrown
            | OutOfBounds \<Rightarrow> Some OutOfBounds))"

text \<open>\<open>WriteLine\<close> and \<open>Write\<close> take cells from an iterator, here the cells that are left and the steps it has made.\<close>

definition WriteLine :: "OutputCell list \<Rightarrow> nat \<Rightarrow> point \<Rightarrow> bool option \<Rightarrow> int option \<Rightarrow> (OutputCell list \<times> nat) tb_op" where
  "WriteLine cells pos target wrap limitRight =
     tb_bind (tb_get tb_GetSize) (\<lambda>size.
       if \<not> IsInBounds size target False then tb_return (cells, pos)
       else tb_bind (change_row (pt_y target) (WriteCells cells pos (pt_x target) wrap limitRight)) (\<lambda>cells'.
            (let written = length cells - length cells'
             in tb_bind (TriggerRedraw (FromDimensions target (Size (int written) 1))) (\<lambda>_.
                tb_return (cells', pos + written)))))"

function write_lines :: "OutputCell list \<Rightarrow> nat \<Rightarrow> point \<Rightarrow> bool option \<Rightarrow> int \<Rightarrow> (OutputCell list \<times> nat) tb_op" where
  "write_lines cells pos lineTarget wrap height =
     (if cells \<noteq> [] \<and> 0 \<le> pt_y lineTarget \<and> pt_y lineTarget < height
      then tb_bind (WriteLine cells pos lineTarget wrap None) (\<lambda>(cells, pos).
             write_lines cells pos (Point 0 (pt_y lineTarget + 1)) wrap height)
      else tb_return (cells, pos))"
  by pat_completeness auto
termination by (relation "measure (\<lambda>(cells, pos, lineTarget, wrap, height). nat (height - pt_y lineTarget))") auto

declare write_lines.simps [simp del]

definition tb_Write :: "OutputCell list \<Rightarrow> nat \<Rightarrow> point \<Rightarrow> bool option \<Rightarrow> (OutputCell list \<times> nat) tb_op" where
  "tb_Write cells pos target wrap =
     tb_bind (tb_get tb_GetSize) (\<lambda>size.
       if IsInBounds size target False then write_lines cells pos target wrap (BottomExclusive size)
       else tb_return (cells, pos))"

subsection \<open>Scrolling and copying\<close>

text \<open>\<open>CopyRow\<close> inside of one buffer, and from one buffer to another one.\<close>

definition CopyRow :: "int \<Rightarrow> int \<Rightarrow> unit tb_op" where
  "CopyRow srcRowIndex dstRowIndex =
     tb_bind (GetMutableRowByOffset dstRowIndex) (\<lambda>dst.
     tb_bind (getRow srcRowIndex) (\<lambda>src.
     tb_bind (slot_row src) (\<lambda>srcRow. change_slot dst (CopyFrom srcRow (src = dst)))))"

definition CopyRow_to :: "int \<Rightarrow> int \<Rightarrow> TextBuffer \<times> TextBuffer \<Rightarrow> ((TextBuffer \<times> TextBuffer) \<times> unit option) outcome" where
  "CopyRow_to srcRowIndex dstRowIndex bufs =
     obind (GetMutableRowByOffset dstRowIndex (snd bufs)) (\<lambda>(dstBuffer, dst).
     case dst of
       None \<Rightarrow> Done ((fst bufs, dstBuffer), None)
     | Some dst \<Rightarrow>
         obind (GetRowByOffset srcRowIndex (fst bufs)) (\<lambda>(srcBuffer, srcRow).
         case srcRow of
           None \<Rightarrow> Done ((srcBuffer, dstBuffer), None)
         | Some srcRow \<Rightarrow> obind (change_slot dst (CopyFrom srcRow False) dstBuffer) (\<lambda>(dstBuffer, ok).
             Done ((srcBuffer, dstBuffer), ok))))"

definition ScrollRows :: "int \<Rightarrow> int \<Rightarrow> int \<Rightarrow> unit tb_op" where
  "ScrollRows firstRow rowCount delta =
     (if delta = 0 then tb_return ()
      else (let rowCount = max 0 rowCount; rows = [firstRow..firstRow + rowCount - 1]
            in tb_for (if delta < 0 then rows else rev rows) (\<lambda>y. CopyRow y (y + delta))))"

subsection \<open>Line renditions\<close>

definition GetLineRendition :: "int \<Rightarrow> LineRendition tb_op" where
  "GetLineRendition row tb =
     (if \<not> isRowCommitted row tb then tb_return SingleWidth tb
      else tb_bind (GetRowByOffset row) (\<lambda>r. tb_return (row_lineRendition r)) tb)"

definition IsDoubleWidthLine :: "int \<Rightarrow> bool tb_op" where
  "IsDoubleWidthLine row = tb_bind (GetLineRendition row) (\<lambda>lr. tb_return (lr \<noteq> SingleWidth))"

definition line_scale :: "int \<Rightarrow> nat tb_op" where
  "line_scale row = tb_bind (IsDoubleWidthLine row) (\<lambda>dw. tb_return (if dw then 1 else 0))"

definition GetLineWidth :: "int \<Rightarrow> int tb_op" where
  "GetLineWidth row = tb_bind (line_scale row) (\<lambda>scale. tb_get (\<lambda>tb. drop_bit scale (Width (tb_GetSize tb))))"

definition ClampPositionWithinLine :: "point \<Rightarrow> point tb_op" where
  "ClampPositionWithinLine p =
     tb_bind (GetLineWidth (pt_y p)) (\<lambda>w. tb_return (Point (min (pt_x p) (w - 1)) (pt_y p)))"

definition ScreenToBufferPosition :: "point \<Rightarrow> point tb_op" where
  "ScreenToBufferPosition p =
     tb_bind (line_scale (pt_y p)) (\<lambda>scale. tb_return (Point (drop_bit scale (pt_x p)) (pt_y p)))"

definition BufferToScreenPosition :: "point \<Rightarrow> point tb_op" where
  "BufferToScreenPosition p =
     tb_bind (line_scale (pt_y p)) (\<lambda>scale. tb_return (Point (push_bit scale (pt_x p)) (pt_y p)))"

definition ResetLineRenditionRange :: "int \<Rightarrow> int \<Rightarrow> unit tb_op" where
  "ResetLineRenditionRange startRow endRow =
     tb_for [startRow..endRow - 1] (\<lambda>row. change_row row (pure_change (SetLineRendition SingleWidth)))"

definition opt_bind :: "'a tb_op \<Rightarrow> ('a \<Rightarrow> TextBuffer \<Rightarrow> (TextBuffer \<times> 'b option) outcome option) \<Rightarrow>
    TextBuffer \<Rightarrow> (TextBuffer \<times> 'b option) outcome option" where
  "opt_bind m f tb =
     (case m tb of
        Done (tb, Some x) \<Rightarrow> f x tb
      | Done (tb, None) \<Rightarrow> Some (Done (tb, None))
      | Thrown \<Rightarrow> Some Thrown
      | OutOfBounds \<Rightarrow> Some OutOfBounds)"

text \<open>With a new line rendition the right half of a row that is now twice as wide is cleared, and the cursor is kept in front of it.\<close>

definition SetCurrentLineRendition ::
  "CodepointWidthDetector \<Rightarrow> LineRendition \<Rightarrow> TextAttribute \<Rightarrow> TextBuffer \<Rightarrow> (TextBuffer \<times> unit option) outcome option" where
  "SetCurrentLineRendition d lineRendition fillAttributes tb =
     (let cursorPosition = cu_cPosition (tb_cursor tb); rowIndex = pt_y cursorPosition
      in opt_bind (tb_bind (GetMutableRowByOffset rowIndex) (\<lambda>s. tb_bind (slot_row s) (\<lambda>row. tb_return (s, row)))) (\<lambda>(s, row).
         if row_lineRendition row = lineRendition then (\<lambda>tb. Some (tb_return () tb))
         else opt_bind (change_slot s (pure_change (\<lambda>row. SetWrapForced False (SetLineRendition lineRendition row)))) (\<lambda>_ tb.
              map_option (\<lambda>done. obind done (\<lambda>(tb, ok). case ok of
                  None \<Rightarrow> Done (tb, None)
                | Some _ \<Rightarrow> TriggerRedraw (FromDimensions (Point 0 rowIndex) (Size (Width (tb_GetSize tb)) 1)) tb))
                (if lineRendition \<noteq> SingleWidth
                 then opt_bind (GetLineWidth rowIndex) (\<lambda>fillOffset tb.
                        map_option (\<lambda>done. obind done (\<lambda>(tb, ok). case ok of
                            None \<Rightarrow> Done (tb, None)
                          | Some _ \<Rightarrow> tb_bind (ClampPositionWithinLine cursorPosition) (\<lambda>p.
                                tb_modify (\<lambda>tb. tb\<lparr>tb_cursor := SetPosition p (tb_cursor tb)\<rparr>)) tb))
                          (FillRect d (Rect fillOffset rowIndex int32_max (rowIndex + 1)) [0x20] fillAttributes tb)) tb
                 else Some (tb_return () tb)))) tb)"

subsection \<open>Hyperlinks\<close>

text \<open>
  The custom ids are kept in a hash table, whose order is not specified; here it is the order of insertion. The hash of
  an address as text is the parameter \<open>hash\<close> of \<open>GetHyperlinkId\<close>.
\<close>

definition AddHyperlinkToMap :: "wstring \<Rightarrow> 16 word \<Rightarrow> TextBuffer \<Rightarrow> TextBuffer" where
  "AddHyperlinkToMap uri ident tb = tb\<lparr>tb_hyperlinkMap := (tb_hyperlinkMap tb)(ident \<mapsto> uri)\<rparr>"

definition GetHyperlinkUriFromId :: "16 word \<Rightarrow> TextBuffer \<Rightarrow> wstring option" where
  "GetHyperlinkUriFromId ident tb = tb_hyperlinkMap tb ident"

definition next_hyperlink_id :: "16 word \<Rightarrow> 16 word" where
  "next_hyperlink_id current = current + 1"

definition skip_zero_id :: "TextBuffer \<Rightarrow> TextBuffer" where
  "skip_zero_id tb =
     (if tb_currentHyperlinkId tb = 0 then tb\<lparr>tb_currentHyperlinkId := tb_currentHyperlinkId tb + 1\<rparr> else tb)"

definition GetHyperlinkId :: "(wstring \<Rightarrow> wstring) \<Rightarrow> wstring \<Rightarrow> wstring \<Rightarrow> TextBuffer \<Rightarrow> TextBuffer \<times> 16 word" where
  "GetHyperlinkId hash uri ident tb =
     (let current = tb_currentHyperlinkId tb;
          bumped = tb\<lparr>tb_currentHyperlinkId := next_hyperlink_id current\<rparr>
      in if ident = [] then (skip_zero_id bumped, current)
         else (let newId = ident @ [0x25] @ hash uri
               in case map_of (tb_hyperlinkCustomIdMap tb) newId of
                    None \<Rightarrow> (skip_zero_id (bumped\<lparr>tb_hyperlinkCustomIdMap := tb_hyperlinkCustomIdMap tb @ [(newId, current)]\<rparr>), current)
                  | Some n \<Rightarrow> (skip_zero_id tb, n)))"

fun remove_first_id :: "16 word \<Rightarrow> (wstring \<times> 16 word) list \<Rightarrow> (wstring \<times> 16 word) list" where
  "remove_first_id ident [] = []"
| "remove_first_id ident (p # ps) = (if snd p = ident then ps else p # remove_first_id ident ps)"

definition RemoveHyperlinkFromMap :: "16 word \<Rightarrow> TextBuffer \<Rightarrow> TextBuffer" where
  "RemoveHyperlinkFromMap ident tb =
     tb\<lparr>tb_hyperlinkMap := (tb_hyperlinkMap tb)(ident := None),
        tb_hyperlinkCustomIdMap := remove_first_id ident (tb_hyperlinkCustomIdMap tb)\<rparr>"

definition GetCustomIdFromId :: "16 word \<Rightarrow> TextBuffer \<Rightarrow> wstring" where
  "GetCustomIdFromId ident tb =
     (case filter (\<lambda>p. snd p = ident) (tb_hyperlinkCustomIdMap tb) of [] \<Rightarrow> [] | p # _ \<Rightarrow> fst p)"

definition CopyHyperlinkMaps :: "TextBuffer \<Rightarrow> TextBuffer \<Rightarrow> TextBuffer" where
  "CopyHyperlinkMaps other tb =
     tb\<lparr>tb_hyperlinkMap := tb_hyperlinkMap other, tb_hyperlinkCustomIdMap := tb_hyperlinkCustomIdMap other,
        tb_currentHyperlinkId := tb_currentHyperlinkId other\<rparr>"

text \<open>The references of the first row that no other row has.\<close>

fun prune_rows :: "int list \<Rightarrow> 16 word list \<Rightarrow> 16 word list tb_op" where
  "prune_rows [] refs = tb_return refs"
| "prune_rows (i # is) refs =
     tb_bind (GetRowByOffset i) (\<lambda>r.
       (let refs = filter (\<lambda>ident. ident \<notin> set (GetHyperlinks r)) refs
        in if refs = [] then tb_return [] else prune_rows is refs))"

definition PruneHyperlinks :: "unit tb_op" where
  "PruneHyperlinks =
     tb_bind (GetRowByOffset 0) (\<lambda>r.
       (let hyperlinks = GetHyperlinks r
        in if hyperlinks = [] then tb_return ()
           else tb_bind (tb_get (\<lambda>tb. [1..int (tb_height tb) - 1])) (\<lambda>rows.
                tb_bind (prune_rows rows (remdups hyperlinks)) (\<lambda>refs.
                tb_modify (fold RemoveHyperlinkFromMap refs)))))"

subsection \<open>The circular buffer\<close>

definition IncrementCircularBuffer :: "TextAttribute \<Rightarrow> unit tb_op" where
  "IncrementCircularBuffer fillAttributes =
     tb_bind PruneHyperlinks (\<lambda>_.
     tb_bind (change_row 0 (pure_change (row_Reset fillAttributes))) (\<lambda>_.
     tb_modify (\<lambda>tb. (let firstRow = tb_firstRow tb + 1
                      in tb\<lparr>tb_firstRow := (if firstRow \<ge> Height (tb_GetSize tb) then 0 else firstRow)\<rparr>))))"

definition tb_Reset :: "TextBuffer \<Rightarrow> TextBuffer" where
  "tb_Reset tb = (decommit tb)\<lparr>tb_initialAttributes := tb_currentAttributes tb\<rparr>"

definition clear_row_marks :: "ROW \<Rightarrow> ROW" where
  "clear_row_marks row =
     row\<lparr>row_promptData := None,
         row_attr := (row_attr row)\<lparr>rle_runs := map (\<lambda>(attr, len). (attr\<lparr>ta_markKind := MarkNone\<rparr>, len)) (rle_runs (row_attr row))\<rparr>\<rparr>"

definition ClearMarksInRange :: "point \<Rightarrow> point \<Rightarrow> unit tb_op" where
  "ClearMarksInRange start end_point =
     tb_bind (tb_get (\<lambda>tb. [std_clamp (min (pt_y start) (pt_y end_point)) 0 (int (tb_height tb) - 1)
                            ..std_clamp (max (pt_y start) (pt_y end_point)) 0 (estimateOffsetOfLastCommittedRow tb)])) (\<lambda>rows.
     tb_for rows (\<lambda>y. change_row y (pure_change clear_row_marks)))"

definition ClearAllMarks :: "unit tb_op" where
  "ClearAllMarks tb = ClearMarksInRange (Point 0 0) (Point (int (tb_width tb) - 1) (int (tb_height tb) - 1)) tb"

definition ClearScrollback :: "int \<Rightarrow> int \<Rightarrow> unit tb_op" where
  "ClearScrollback newFirstRow rowsToKeep =
     (if newFirstRow \<le> 0 then tb_return ()
      else if rowsToKeep \<le> 0 then tb_modify decommit
      else
        tb_bind (tb_get tb_width) (\<lambda>width.
        tb_bind (ClearMarksInRange (Point 0 0) (Point (int width) (max 0 (newFirstRow - 1)))) (\<lambda>_.
        tb_bind (tb_get (\<lambda>tb. tb_firstRow tb + newFirstRow)) (\<lambda>startAbsolute.
        tb_bind (tb_modify (\<lambda>tb. tb\<lparr>tb_firstRow := 0\<rparr>)) (\<lambda>_.
        tb_bind (ScrollRows startAbsolute rowsToKeep (- startAbsolute)) (\<lambda>_.
        tb_bind (tb_get (\<lambda>tb. (estimateOffsetOfLastCommittedRow tb, tb_initialAttributes tb))) (\<lambda>(end_row, initialAttributes).
        tb_for [rowsToKeep..end_row] (\<lambda>y. change_row y (pure_change (row_Reset initialAttributes))))))))))"

text \<open>\<open>ResizeTraditional\<close> copies the rows to a new buffer of the new size and takes over its memory.\<close>

fun resize_rows :: "(int \<times> int) list \<Rightarrow> TextBuffer \<times> TextBuffer \<Rightarrow> ((TextBuffer \<times> TextBuffer) \<times> unit option) outcome" where
  "resize_rows [] bufs = Done (bufs, Some ())"
| "resize_rows ((srcRow, dstRow) # rows) bufs =
     obind (CopyRow_to srcRow dstRow bufs) (\<lambda>(bufs, ok). case ok of None \<Rightarrow> Done (bufs, None) | Some _ \<Rightarrow> resize_rows rows bufs)"

definition ResizeTraditional :: "til_size \<Rightarrow> unit tb_op" where
  "ResizeTraditional newSize0 tb =
     (let newSize = Size (max (sz_width newSize0) 1) (max (sz_height newSize0) 1)
      in case TextBuffer_new newSize (tb_currentAttributes tb) 0 False (tb_hasRenderer tb) 0 of
           None \<Rightarrow> Done (tb, None)
         | Some newBuffer \<Rightarrow>
             (let cursorRow = pt_y (cu_cPosition (tb_cursor tb));
                  copyableRows = min (int (tb_height tb)) (sz_height newSize);
                  srcRow = (if cursorRow \<ge> sz_height newSize then cursorRow - sz_height newSize + 1 else 0)
              in obind (resize_rows (map (\<lambda>dstRow. (srcRow + dstRow, dstRow)) [0..copyableRows - 1]) (tb, newBuffer)) (\<lambda>((tb, newBuffer), ok).
                 case ok of
                   None \<Rightarrow> Done (tb, None)
                 | Some _ \<Rightarrow> Done (tb\<lparr>tb_slots := tb_slots newBuffer, tb_slotCount := tb_slotCount newBuffer,
                     tb_initialAttributes := tb_initialAttributes newBuffer, tb_width := tb_width newBuffer,
                     tb_height := tb_height newBuffer, tb_firstRow := 0\<rparr>, Some ()))))"

subsection \<open>Positions\<close>

function search_text_up :: "int \<Rightarrow> int \<Rightarrow> int \<Rightarrow> point tb_op" where
  "search_text_up viewportTop x y =
     (if x < 0 \<and> y > viewportTop
      then tb_bind (GetRowByOffset (y - 1)) (\<lambda>row.
           tb_bind (tb_read (MeasureRight row)) (\<lambda>right. search_text_up viewportTop (right - 1) (y - 1)))
      else tb_return (Point x y))"
  by pat_completeness auto
termination by (relation "measure (\<lambda>(viewportTop, x, y). nat (y - viewportTop))") auto

declare search_text_up.simps [simp del]

definition GetLastNonSpaceCharacter :: "Viewport option \<Rightarrow> point tb_op" where
  "GetLastNonSpaceCharacter viewOptional =
     tb_bind (tb_get (\<lambda>tb. (case viewOptional of Some v \<Rightarrow> v | None \<Rightarrow> tb_GetSize tb, estimateOffsetOfLastCommittedRow tb)))
       (\<lambda>(viewport, estimate).
         (let y = min (BottomInclusive viewport) estimate
          in tb_bind (GetRowByOffset y) (\<lambda>row.
             tb_bind (tb_read (MeasureRight row)) (\<lambda>right.
             tb_bind (search_text_up (Top viewport) (right - 1) y) (\<lambda>p.
             tb_return (Point (max (pt_x p) 0) (max (pt_y p) 0)))))))"

fun navigate_left :: "nat \<Rightarrow> int \<Rightarrow> int \<Rightarrow> ROW \<Rightarrow> point tb_op" where
  "navigate_left 0 x y row = tb_return (Point x y)"
| "navigate_left (Suc n) x y row =
     (if x > 0 then tb_bind (tb_read (NavigateToPrevious x row)) (\<lambda>x. navigate_left n (int x) y row)
      else if y \<le> 0 then tb_return (Point x y)
      else tb_bind (GetRowByOffset (y - 1)) (\<lambda>row. navigate_left n (GetReadableColumnCount row - 1) (y - 1) row))"

fun navigate_right :: "nat \<Rightarrow> int \<Rightarrow> int \<Rightarrow> int \<Rightarrow> ROW \<Rightarrow> point tb_op" where
  "navigate_right 0 maxY x y row = tb_return (Point x y)"
| "navigate_right (Suc n) maxY x y row =
     (if x < GetReadableColumnCount row
      then tb_bind (tb_read (NavigateToNext x row)) (\<lambda>x. navigate_right n maxY (int x) y row)
      else if y \<ge> maxY then tb_return (Point x y)
      else tb_bind (GetRowByOffset (y + 1)) (\<lambda>row. navigate_right n maxY 0 (y + 1) row))"

definition NavigateCursor :: "point \<Rightarrow> int \<Rightarrow> point tb_op" where
  "NavigateCursor pos distance =
     tb_bind (tb_get (\<lambda>tb. (int (tb_width tb) - 1, int (tb_height tb) - 1))) (\<lambda>(maxX, maxY).
       (let x = std_clamp (pt_x pos) 0 maxX; y = std_clamp (pt_y pos) 0 maxY
        in tb_bind (GetRowByOffset y) (\<lambda>row.
           if distance < 0 then navigate_left (nat (- distance)) x y row
           else navigate_right (nat distance) maxY x y row)))"

definition ContainsBlinkAttributeInRegion :: "Viewport \<Rightarrow> bool tb_op" where
  "ContainsBlinkAttributeInRegion region =
     tb_bind (tb_get (\<lambda>tb. [Top region..min (BottomInclusive region) (estimateOffsetOfLastCommittedRow tb) - 1])) (\<lambda>rows tb.
       (let blinking = (\<lambda>row. \<exists>run \<in> set (rle_runs (row_attr row)). IsBlinking (fst run))
        in fold (\<lambda>y m. tb_bind m (\<lambda>found. if found then tb_return True
                 else tb_bind (GetRowByOffset y) (\<lambda>row. tb_return (blinking row)))) rows (tb_return False) tb))"

definition IsGlyphDoubleWidthAt :: "point \<Rightarrow> bool tb_op" where
  "IsGlyphDoubleWidthAt p tb =
     (if \<not> isRowCommitted (pt_y p) tb then tb_return False tb
      else tb_bind (GetRowByOffset (pt_y p)) (\<lambda>row.
           tb_bind (tb_read (DbcsAttrAt (pt_x p) row)) (\<lambda>attr. tb_return (attr \<noteq> Single))) tb)"

end
