(* ===== verification/Text_Buffer_Ring.thy ===== *)
theory Text_Buffer_Ring
  imports Text_Buffer
begin

text \<open>
  The circular, partly committed array of rows refined to the list of its lines. \<open>tb_lines\<close> has the rows from the top
  to the bottom, \<open>tb_ok\<close> is the invariant of the buffer. The locale \<open>line_store\<close> is what the loops over rows rely on: a row
  can be changed by its index, which counts modulo the number of lines; \<open>line_copier\<close> adds the copy of one row over
  another. The loops of the buffer are proved once for both.
\<close>

subsection \<open>The interface to a store of lines\<close>

lemma tb_bind_simps [simp]:
  "m s = Done (s', Some x) \<Longrightarrow> tb_bind m f s = f x s'"
  "m s = Done (s', None) \<Longrightarrow> tb_bind m f s = Done (s', None)"
  by (simp_all add: tb_bind_def)

lemma tb_simps [simp]:
  "tb_return x s = Done (s, Some x)" "tb_get f s = Done (s, Some (f s))" "tb_modify g s = Done (g s, Some ())"
  "m = Done y \<Longrightarrow> tb_read m s = Done (s, Some y)"
  by (simp_all add: tb_return_def tb_get_def tb_modify_def tb_read_def)

locale line_store =
  fixes inv :: "'s \<Rightarrow> bool"
    and lines :: "'s \<Rightarrow> 'r list"
    and good :: "'s \<Rightarrow> 'r \<Rightarrow> bool"
    and frame :: "'s \<Rightarrow> 's \<Rightarrow> bool"
    and change :: "int \<Rightarrow> ('r \<Rightarrow> ('r \<times> unit option) outcome) \<Rightarrow> ('s, unit) st_op"
  assumes lines_good: "inv s \<Longrightarrow> r \<in> set (lines s) \<Longrightarrow> good s r"
    and frame_refl: "frame s s"
    and frame_trans: "frame s t \<Longrightarrow> frame t u \<Longrightarrow> frame s u"
    and frame_good: "frame s t \<Longrightarrow> good t = good s"
    and change_law: "inv s \<Longrightarrow> i = nat (y mod int (length (lines s))) \<Longrightarrow> f (lines s ! i) = Done (r, Some ()) \<Longrightarrow> good s r \<Longrightarrow>
      \<exists>t. change y f s = Done (t, Some ()) \<and> inv t \<and> frame s t \<and> lines t = (lines s)[i := r]"
    and lines_some: "inv s \<Longrightarrow> lines s \<noteq> []"
begin

definition index :: "'s \<Rightarrow> int \<Rightarrow> nat" where
  "index s y = nat (y mod int (length (lines s)))"

lemma index_less: "inv s \<Longrightarrow> index s y < length (lines s)"
  using lines_some [of s] by (simp add: index_def nat_less_iff)

text \<open>A loop that changes each row of a list of indices, none of them twice.\<close>

lemma change_each:
  assumes "inv s" and "distinct (map (index s) ys)" and "\<And>r. good s r \<Longrightarrow> good s (g r)"
  shows "\<exists>t. tb_for ys (\<lambda>y. change y (\<lambda>r. Done (g r, Some ()))) s = Done (t, Some ()) \<and> inv t \<and> frame s t \<and>
    length (lines t) = length (lines s) \<and>
    (\<forall>i < length (lines s). lines t ! i = (if i \<in> index s ` set ys then g (lines s ! i) else lines s ! i))"
  using assms
proof (induction ys arbitrary: s)
  case Nil
  then show ?case by (simp add: frame_refl)
next
  case (Cons y ys)
  let ?i = "index s y"
  have i: "?i < length (lines s)" using index_less [OF Cons.prems(1)] .
  have "good s (g (lines s ! ?i))" using Cons.prems(3) lines_good [OF Cons.prems(1)] i by simp
  then obtain u where u: "change y (\<lambda>r. Done (g r, Some ())) s = Done (u, Some ())" "inv u" "frame s u"
      "lines u = (lines s)[?i := g (lines s ! ?i)]"
    using change_law [OF Cons.prems(1), of ?i y "\<lambda>r. Done (g r, Some ())"] by (auto simp: index_def)
  have len: "length (lines u) = length (lines s)" by (simp add: u(4))
  then have idx: "index u = index s" by (simp add: index_def fun_eq_iff)
  obtain t where t: "tb_for ys (\<lambda>y. change y (\<lambda>r. Done (g r, Some ()))) u = Done (t, Some ())" "inv t" "frame u t"
      "length (lines t) = length (lines u)"
      "\<forall>i < length (lines u). lines t ! i = (if i \<in> index u ` set ys then g (lines u ! i) else lines u ! i)"
    using Cons.IH [OF u(2)] Cons.prems(2,3) idx frame_good [OF u(3)] by auto
  have "lines t ! j = (if j \<in> index s ` set (y # ys) then g (lines s ! j) else lines s ! j)" if "j < length (lines s)" for j
    using t(5) [rule_format, of j] that len idx u(4) Cons.prems(2) i by (auto simp: nth_list_update)
  then show ?case using t(1-4) u(1,3) len frame_trans by auto
qed

end

locale line_copier = line_store inv lines good frame change
  for inv :: "'s \<Rightarrow> bool"
    and lines :: "'s \<Rightarrow> 'r list"
    and good :: "'s \<Rightarrow> 'r \<Rightarrow> bool"
    and frame :: "'s \<Rightarrow> 's \<Rightarrow> bool"
    and change :: "int \<Rightarrow> ('r \<Rightarrow> ('r \<times> unit option) outcome) \<Rightarrow> ('s, unit) st_op" +
  fixes plain :: "'s \<Rightarrow> 'r \<Rightarrow> bool"
    and copied :: "'r \<Rightarrow> 'r \<Rightarrow> 'r \<Rightarrow> bool"
    and copy_line :: "int \<Rightarrow> int \<Rightarrow> ('s, unit) st_op"
  assumes frame_plain: "frame s t \<Longrightarrow> plain t = plain s"
    and copy_law: "inv s \<Longrightarrow> i = nat (y mod int (length (lines s))) \<Longrightarrow> j = nat (z mod int (length (lines s))) \<Longrightarrow> i \<noteq> j \<Longrightarrow>
      plain s (lines s ! i) \<Longrightarrow>
      \<exists>t r. copy_line y z s = Done (t, Some ()) \<and> inv t \<and> frame s t \<and> copied (lines s ! i) (lines s ! j) r \<and> lines t = (lines s)[j := r]"
begin

text \<open>
  A loop that copies rows over others, none of them twice: if no row is read after it was written, it has the effect of
  copying them all at once.
\<close>

lemma copy_each:
  assumes "inv s" and "distinct (map (index s \<circ> snd) ps)"
    and "sorted_wrt (\<lambda>p q. index s (snd p) \<noteq> index s (fst q)) ps"
    and "\<And>p. p \<in> set ps \<Longrightarrow> index s (fst p) \<noteq> index s (snd p) \<and> plain s (lines s ! index s (fst p))"
  shows "\<exists>t. tb_for ps (\<lambda>p. copy_line (fst p) (snd p)) s = Done (t, Some ()) \<and> inv t \<and> frame s t \<and>
    length (lines t) = length (lines s) \<and>
    (\<forall>p \<in> set ps. copied (lines s ! index s (fst p)) (lines s ! index s (snd p)) (lines t ! index s (snd p))) \<and>
    (\<forall>i < length (lines s). i \<notin> (index s \<circ> snd) ` set ps \<longrightarrow> lines t ! i = lines s ! i)"
  using assms
proof (induction ps arbitrary: s)
  case Nil
  then show ?case by (simp add: frame_refl)
next
  case (Cons p ps)
  let ?i = "index s (fst p)" and ?j = "index s (snd p)"
  have j: "?j < length (lines s)" using index_less [OF Cons.prems(1)] .
  obtain u r where u: "copy_line (fst p) (snd p) s = Done (u, Some ())" "inv u" "frame s u"
      "copied (lines s ! ?i) (lines s ! ?j) r" "lines u = (lines s)[?j := r]"
    using copy_law [OF Cons.prems(1), of ?i "fst p" ?j "snd p"] Cons.prems(4) [of p] by (auto simp: index_def)
  have len: "length (lines u) = length (lines s)" by (simp add: u(5))
  then have idx: "index u = index s" by (simp add: index_def fun_eq_iff)
  have read: "lines u ! index s (fst q) = lines s ! index s (fst q)" "lines u ! index s (snd q) = lines s ! index s (snd q)"
    if "q \<in> set ps" for q
  proof -
    have "?j \<noteq> index s (snd q)" "?j \<noteq> index s (fst q)" using Cons.prems(2,3) that by (auto simp: image_iff)
    then show "lines u ! index s (fst q) = lines s ! index s (fst q)" "lines u ! index s (snd q) = lines s ! index s (snd q)"
      by (simp_all add: u(5))
  qed
  have "index u (fst q) \<noteq> index u (snd q) \<and> plain u (lines u ! index u (fst q))" if "q \<in> set ps" for q
    using Cons.prems(4) [of q] that read frame_plain [OF u(3)] by (simp add: idx)
  then obtain t where t: "tb_for ps (\<lambda>p. copy_line (fst p) (snd p)) u = Done (t, Some ())" "inv t" "frame u t"
      "length (lines t) = length (lines u)"
      "\<forall>p \<in> set ps. copied (lines u ! index s (fst p)) (lines u ! index s (snd p)) (lines t ! index s (snd p))"
      "\<forall>i < length (lines u). i \<notin> (index s \<circ> snd) ` set ps \<longrightarrow> lines t ! i = lines u ! i"
    using Cons.IH [OF u(2)] Cons.prems(2,3) by (auto simp: idx)
  have "lines t ! ?j = r" using t(6) [rule_format, of ?j] j Cons.prems(2) len by (simp add: u(5))
  then have "\<forall>q \<in> set (p # ps). copied (lines s ! index s (fst q)) (lines s ! index s (snd q)) (lines t ! index s (snd q))"
    using t(5) read u(4) by simp
  moreover have "lines t ! i = lines s ! i" if "i < length (lines s)" "i \<notin> (index s \<circ> snd) ` set (p # ps)" for i
    using t(6) that len by (simp add: u(5))
  ultimately show ?case using t(1-4) u(1,3) len frame_trans by auto
qed

end

subsection \<open>The lines of a buffer\<close>

text \<open>A row of \<open>w\<close> columns: it has glyphs, and its attributes are runs that are not empty and as long as the row.\<close>

definition attr_ok :: "nat \<Rightarrow> TextAttribute basic_rle \<Rightarrow> bool" where
  "attr_ok w attr \<longleftrightarrow> rle_total_length attr = w \<and> sum_list (map snd (rle_runs attr)) = w \<and> list_all (\<lambda>run. 0 < snd run) (rle_runs attr)"

definition row_ok :: "nat \<Rightarrow> ROW \<Rightarrow> bool" where
  "row_ok w row \<longleftrightarrow> (\<exists>gs. row_repr row gs) \<and> row_columnCount row = w \<and> attr_ok w (row_attr row)"

definition tb_ok :: "TextBuffer \<Rightarrow> bool" where
  "tb_ok tb \<longleftrightarrow> 0 < tb_height tb \<and> tb_height tb \<le> 65535 \<and> 0 < tb_width tb \<and> tb_width tb \<le> 0x7fff \<and>
     tb_slotCount tb = tb_height tb + 1 \<and> length (tb_slots tb) \<le> tb_slotCount tb \<and>
     0 \<le> tb_firstRow tb \<and> tb_firstRow tb < int (tb_height tb) \<and> (\<forall>row \<in> set (tb_slots tb). row_ok (tb_width tb) row)"

text \<open>The row in a slot, also in one that is not committed yet.\<close>

definition slot_at :: "nat \<Rightarrow> TextBuffer \<Rightarrow> ROW" where
  "slot_at s tb = (if s < length (tb_slots tb) then tb_slots tb ! s else ROW_new (tb_width tb) (tb_initialAttributes tb))"

definition slot_of :: "int \<Rightarrow> TextBuffer \<Rightarrow> nat" where
  "slot_of y tb = nat ((tb_firstRow tb + y) mod int (tb_height tb)) + 1"

definition tb_lines :: "TextBuffer \<Rightarrow> ROW list" where
  "tb_lines tb = map (\<lambda>i. slot_at (slot_of (int i) tb) tb) [0..<tb_height tb]"

definition tb_frame :: "TextBuffer \<Rightarrow> TextBuffer \<Rightarrow> bool" where
  "tb_frame tb tb' \<longleftrightarrow> tb' = tb\<lparr>tb_slots := tb_slots tb', tb_lastMutationId := tb_lastMutationId tb'\<rparr> \<and>
     length (tb_slots tb) \<le> length (tb_slots tb')"

lemma length_tb_lines [simp]: "length (tb_lines tb) = tb_height tb"
  by (simp add: tb_lines_def)

lemma wrap_offset_mod:
  assumes "0 < tb_height tb"
  shows "wrap_offset y tb = nat (y mod int (tb_height tb))"
proof (cases "0 \<le> y")
  case True
  then have "y smod int (tb_height tb) = y mod int (tb_height tb)" by (cases "y = 0") (simp_all add: signed_modulo_int_def)
  moreover have "\<not> y mod int (tb_height tb) < 0" using assms pos_mod_sign [of "int (tb_height tb)" y] by linarith
  ultimately show ?thesis by (simp add: wrap_offset_def)
next
  case False
  then have "y smod int (tb_height tb) = - ((- y) mod int (tb_height tb))" by (simp add: signed_modulo_int_def)
  moreover have "0 < (- y) mod int (tb_height tb) \<or> (- y) mod int (tb_height tb) = 0"
    using assms pos_mod_sign [of "int (tb_height tb)" "- y"] by linarith
  ultimately show ?thesis
    using zmod_zminus1_eq_if [of "- y" "int (tb_height tb)"] by (auto simp: wrap_offset_def Let_def)
qed

lemma slot_of_range: "0 < tb_height tb \<Longrightarrow> 0 < slot_of y tb \<and> slot_of y tb \<le> tb_height tb"
  by (simp add: slot_of_def Suc_le_eq nat_less_iff)

lemma slot_of_eq_iff:
  assumes "0 < tb_height tb"
  shows "slot_of y tb = slot_of z tb \<longleftrightarrow> y mod int (tb_height tb) = z mod int (tb_height tb)"
proof -
  let ?h = "int (tb_height tb)"
  have "slot_of y tb = slot_of z tb \<longleftrightarrow> (tb_firstRow tb + y) mod ?h = (tb_firstRow tb + z) mod ?h"
    using assms by (simp add: slot_of_def eq_nat_nat_iff)
  also have "\<dots> \<longleftrightarrow> y mod ?h = z mod ?h"
    by (simp add: mod_eq_dvd_iff)
  finally show ?thesis .
qed

lemma slot_of_mod [simp]: "slot_of (y mod int (tb_height tb)) tb = slot_of y tb"
  by (simp add: slot_of_def mod_add_right_eq)

lemma tb_lines_nth:
  assumes "0 < tb_height tb"
  shows "tb_lines tb ! nat (y mod int (tb_height tb)) = slot_at (slot_of y tb) tb"
proof -
  have "0 \<le> y mod int (tb_height tb)" "y mod int (tb_height tb) < int (tb_height tb)" using assms by simp_all
  then have "nat (y mod int (tb_height tb)) < tb_height tb" "int (nat (y mod int (tb_height tb))) = y mod int (tb_height tb)"
    by linarith+
  then show ?thesis by (simp add: tb_lines_def)
qed

lemma ROW_new_ok: "0 < w \<Longrightarrow> w \<le> 0x7fff \<Longrightarrow> row_ok w (ROW_new w attr)"
  using blank_row(1) [of w attr]
  by (auto simp: row_ok_def ROW_new_def rle_of_value_def attr_ok_def)

lemma row_Reset_ok: "row_ok w row \<Longrightarrow> 0 < w \<Longrightarrow> w \<le> 0x7fff \<Longrightarrow> row_ok w (row_Reset attr row)"
  using blank_row(2) [of row attr]
  by (auto simp: row_ok_def row_Reset_def attr_ok_def)

lemma slot_at_ok: "tb_ok tb \<Longrightarrow> row_ok (tb_width tb) (slot_at s tb)"
  by (auto simp: tb_ok_def slot_at_def ROW_new_ok)

lemma tb_frame_refl [simp]: "tb_frame tb tb" by (simp add: tb_frame_def)

lemma tb_frame_simps:
  assumes "tb_frame tb tb'"
  shows "tb_height tb' = tb_height tb" "tb_width tb' = tb_width tb" "tb_slotCount tb' = tb_slotCount tb"
    "tb_firstRow tb' = tb_firstRow tb" "tb_initialAttributes tb' = tb_initialAttributes tb"
    "tb_currentAttributes tb' = tb_currentAttributes tb" "tb_cursor tb' = tb_cursor tb"
    "tb_hyperlinkMap tb' = tb_hyperlinkMap tb" "tb_hyperlinkCustomIdMap tb' = tb_hyperlinkCustomIdMap tb"
  using assms unfolding tb_frame_def
  by (auto dest: arg_cong [of _ _ tb_height] arg_cong [of _ _ tb_width] arg_cong [of _ _ tb_slotCount]
      arg_cong [of _ _ tb_firstRow] arg_cong [of _ _ tb_initialAttributes] arg_cong [of _ _ tb_currentAttributes]
      arg_cong [of _ _ tb_cursor] arg_cong [of _ _ tb_hyperlinkMap] arg_cong [of _ _ tb_hyperlinkCustomIdMap])

lemma tb_frame_slot_of: "tb_frame tb tb' \<Longrightarrow> slot_of y tb' = slot_of y tb"
  by (simp add: slot_of_def tb_frame_simps)

lemma tb_frame_trans: "tb_frame s t \<Longrightarrow> tb_frame t u \<Longrightarrow> tb_frame s u"
  unfolding tb_frame_def by (cases s; cases t; cases u) auto

subsection \<open>Rows by their index\<close>

lemma slot_at_construct: "slot_at i (construct n tb) = slot_at i tb"
proof (cases "i < length (tb_slots tb)")
  case False
  then have "i - length (tb_slots tb) < n - length (tb_slots tb) \<longleftrightarrow> i < n" by linarith
  then show ?thesis using False by (auto simp: slot_at_def construct_def nth_append)
qed (simp add: slot_at_def construct_def nth_append)

lemma commit_view:
  assumes "tb_ok tb" "s < tb_slotCount tb"
  shows "tb_ok (commit s tb)" "tb_frame tb (commit s tb)" "s < length (tb_slots (commit s tb))"
    "slot_at i (commit s tb) = slot_at i tb" "tb_lastMutationId (commit s tb) = tb_lastMutationId tb"
proof -
  show "slot_at i (commit s tb) = slot_at i tb" by (simp add: commit_def Let_def slot_at_construct)
  show "tb_ok (commit s tb)" "tb_frame tb (commit s tb)" "s < length (tb_slots (commit s tb))"
    "tb_lastMutationId (commit s tb) = tb_lastMutationId tb"
    using assms by (auto simp: tb_ok_def commit_def construct_def tb_frame_def Let_def ROW_new_ok)
qed

lemma getRow_view:
  assumes ok: "tb_ok tb"
  shows "\<exists>tb'. getRow y tb = Done (tb', Some (slot_of y tb)) \<and> tb_ok tb' \<and> tb_frame tb tb' \<and>
    slot_of y tb < length (tb_slots tb') \<and> (\<forall>i. slot_at i tb' = slot_at i tb) \<and> tb_lastMutationId tb' = tb_lastMutationId tb"
proof -
  have h: "0 < tb_height tb" using ok by (simp add: tb_ok_def)
  let ?s = "slot_of y tb"
  have s: "?s < tb_slotCount tb" using slot_of_range [OF h, of y] ok by (simp add: tb_ok_def)
  have "getRow y tb = Done (if ?s \<ge> length (tb_slots tb) then commit ?s tb else tb, Some ?s)"
    using s by (simp add: getRow_def getRowByOffsetDirect_def wrap_offset_mod [OF h] slot_of_def)
  then show ?thesis using commit_view [OF ok s] ok by (cases "?s \<ge> length (tb_slots tb)") auto
qed

lemma GetMutableRowByOffset_view:
  assumes ok: "tb_ok tb"
  shows "\<exists>tb'. GetMutableRowByOffset y tb = Done (tb', Some (slot_of y tb)) \<and> tb_ok tb' \<and> tb_frame tb tb' \<and>
    slot_of y tb < length (tb_slots tb') \<and> (\<forall>i. slot_at i tb' = slot_at i tb)"
proof -
  let ?tb = "tb\<lparr>tb_lastMutationId := tb_lastMutationId tb + 1\<rparr>"
  have "tb_ok ?tb" "slot_of y ?tb = slot_of y tb" "\<And>i. slot_at i ?tb = slot_at i tb" "tb_frame tb ?tb"
    using ok by (simp_all add: tb_ok_def slot_of_def slot_at_def tb_frame_def)
  then show ?thesis
    using getRow_view [of ?tb y] tb_frame_trans [of tb ?tb] by (auto simp: GetMutableRowByOffset_def)
qed

lemma GetRowByOffset_view:
  assumes ok: "tb_ok tb"
  shows "\<exists>tb'. GetRowByOffset y tb = Done (tb', Some (slot_at (slot_of y tb) tb)) \<and> tb_ok tb' \<and> tb_frame tb tb' \<and>
    (\<forall>i. slot_at i tb' = slot_at i tb) \<and> tb_lastMutationId tb' = tb_lastMutationId tb"
proof -
  obtain tb' where tb': "getRow y tb = Done (tb', Some (slot_of y tb))" "tb_ok tb'" "tb_frame tb tb'"
      "slot_of y tb < length (tb_slots tb')" "\<forall>i. slot_at i tb' = slot_at i tb" "tb_lastMutationId tb' = tb_lastMutationId tb"
    using getRow_view [OF ok] by blast
  then have "peek (tb_slots tb') (slot_of y tb) = Done (slot_at (slot_of y tb) tb)"
    by (metis peek_def slot_at_def)
  then show ?thesis using tb' by (auto simp: GetRowByOffset_def slot_row_def)
qed

lemma change_slot_view:
  assumes ok: "tb_ok tb" and s: "s < length (tb_slots tb)" and f: "f (slot_at s tb) = Done (row, r)" "row_ok (tb_width tb) row"
  shows "\<exists>tb'. change_slot s f tb = Done (tb', r) \<and> tb_ok tb' \<and> tb_frame tb tb' \<and> length (tb_slots tb') = length (tb_slots tb) \<and>
    (\<forall>i. slot_at i tb' = (if i = s then row else slot_at i tb))"
proof -
  have "peek (tb_slots tb) s = Done (slot_at s tb)" using s by (simp add: peek_def slot_at_def)
  then have "change_slot s f tb = Done (tb\<lparr>tb_slots := (tb_slots tb)[s := row]\<rparr>, r)"
    using f by (simp add: change_slot_def)
  moreover have "tb_ok (tb\<lparr>tb_slots := (tb_slots tb)[s := row]\<rparr>)"
    using ok f(2) set_update_subset_insert [of "tb_slots tb" s row] by (auto simp: tb_ok_def)
  ultimately show ?thesis using s by (auto simp: tb_frame_def slot_at_def)
qed

lemma lines_update:
  assumes "0 < tb_height tb" "tb_frame tb tb'" "\<forall>i. slot_at i tb' = (if i = slot_of y tb then row else slot_at i tb)"
  shows "tb_lines tb' = (tb_lines tb)[nat (y mod int (tb_height tb)) := row]"
proof (rule nth_equalityI)
  show "length (tb_lines tb') = length ((tb_lines tb)[nat (y mod int (tb_height tb)) := row])"
    using tb_frame_simps [OF assms(2)] by simp
  fix i assume "i < length (tb_lines tb')"
  then have i: "i < tb_height tb" using tb_frame_simps [OF assms(2)] by simp
  have "slot_of (int i) tb = slot_of y tb \<longleftrightarrow> i = nat (y mod int (tb_height tb))"
    using slot_of_eq_iff [OF assms(1), of "int i" y] i assms(1) by (auto simp: nat_eq_iff2)
  then show "tb_lines tb' ! i = (tb_lines tb)[nat (y mod int (tb_height tb)) := row] ! i"
    using assms(3) i tb_frame_simps [OF assms(2)] by (simp add: tb_lines_def nth_list_update tb_frame_slot_of [OF assms(2)])
qed

lemma lines_same:
  assumes "tb_frame tb tb'" "\<forall>i. slot_at i tb' = slot_at i tb"
  shows "tb_lines tb' = tb_lines tb"
  using assms tb_frame_simps [OF assms(1)] by (simp add: tb_lines_def tb_frame_slot_of)

lemma change_row_view:
  assumes ok: "tb_ok tb" and f: "f (slot_at (slot_of y tb) tb) = Done (row, r)" "row_ok (tb_width tb) row"
  shows "\<exists>tb'. change_row y f tb = Done (tb', r) \<and> tb_ok tb' \<and> tb_frame tb tb' \<and> tb_lines tb' = (tb_lines tb)[nat (y mod int (tb_height tb)) := row] \<and>
     (\<forall>i. slot_at i tb' = (if i = slot_of y tb then row else slot_at i tb))"
proof -
  obtain t where t: "GetMutableRowByOffset y tb = Done (t, Some (slot_of y tb))" "tb_ok t" "tb_frame tb t"
      "slot_of y tb < length (tb_slots t)" "\<forall>i. slot_at i t = slot_at i tb"
    using GetMutableRowByOffset_view [OF ok] by blast
  have "f (slot_at (slot_of y tb) t) = Done (row, r)" "row_ok (tb_width t) row"
    using f t(5) tb_frame_simps [OF t(3)] by simp_all
  then obtain tb' where tb': "change_slot (slot_of y tb) f t = Done (tb', r)" "tb_ok tb'" "tb_frame t tb'"
      "\<forall>i. slot_at i tb' = (if i = slot_of y tb then row else slot_at i t)"
    using change_slot_view [OF t(2,4), of f row r] by blast
  have h: "0 < tb_height tb" using ok by (simp add: tb_ok_def)
  have frame: "tb_frame tb tb'" using tb_frame_trans [OF t(3) tb'(3)] .
  have view: "\<forall>i. slot_at i tb' = (if i = slot_of y tb then row else slot_at i tb)" using tb'(4) t(5) by simp
  have "change_row y f tb = Done (tb', r)" using tb'(1) t(1) by (simp add: change_row_def)
  then show ?thesis using tb'(2) frame view lines_update [OF h frame view] by blast
qed

subsection \<open>The buffer as a store of lines\<close>

text \<open>
  A row that can be copied as a whole: of single width, or with its second half in use, and without padding. What a copy
  of it over another row has of both.
\<close>

definition plain_row :: "ROW \<Rightarrow> bool" where
  "plain_row row \<longleftrightarrow> GetReadableColumnCount row = int (row_columnCount row)"

definition line_copied :: "ROW \<Rightarrow> ROW \<Rightarrow> ROW \<Rightarrow> bool" where
  "line_copied src dst row \<longleftrightarrow> GetText row = GetText src \<and> (\<exists>gs. row_repr src gs \<and> row_repr row gs) \<and>
     row_attr row = row_attr src \<and> row_lineRendition row = row_lineRendition src \<and> row_wrapForced row = row_wrapForced src \<and>
     \<not> row_doubleBytePadded row \<and> row_promptData row = row_promptData dst"

lemma CopyFrom_ok:
  assumes "row_ok w src" "row_ok w dst" "0 < w" "plain_row src"
  shows "\<exists>row. CopyFrom src False dst = Done (row, Some ()) \<and> line_copied src dst row \<and> row_ok w row"
proof -
  obtain sg gs where "row_repr src sg" "row_repr dst gs" using assms(1,2) by (auto simp: row_ok_def)
  then show ?thesis
    using CopyFrom_plain [of dst gs src sg] assms by (fastforce simp: row_ok_def plain_row_def line_copied_def attr_ok_def)
qed

lemma CopyRow_view:
  assumes ok: "tb_ok tb" and ne: "slot_of y tb \<noteq> slot_of z tb" and plain: "plain_row (slot_at (slot_of y tb) tb)"
  shows "\<exists>tb' row. CopyRow y z tb = Done (tb', Some ()) \<and> tb_ok tb' \<and> tb_frame tb tb' \<and>
    line_copied (slot_at (slot_of y tb) tb) (slot_at (slot_of z tb) tb) row \<and>
    tb_lines tb' = (tb_lines tb)[nat (z mod int (tb_height tb)) := row] \<and>
    (\<forall>i. slot_at i tb' = (if i = slot_of z tb then row else slot_at i tb))"
proof -
  have h: "0 < tb_height tb" "0 < tb_width tb" using ok by (simp_all add: tb_ok_def)
  obtain t where t: "GetMutableRowByOffset z tb = Done (t, Some (slot_of z tb))" "tb_ok t" "tb_frame tb t"
      "slot_of z tb < length (tb_slots t)" "\<forall>i. slot_at i t = slot_at i tb"
    using GetMutableRowByOffset_view [OF ok] by blast
  have sy: "slot_of y t = slot_of y tb" by (rule tb_frame_slot_of [OF t(3)])
  obtain u where u: "getRow y t = Done (u, Some (slot_of y tb))" "tb_ok u" "tb_frame t u"
      "slot_of y tb < length (tb_slots u)" "\<forall>i. slot_at i u = slot_at i t"
    using getRow_view [OF t(2), of y] sy by auto
  have frame: "tb_frame tb u" using tb_frame_trans [OF t(3) u(3)] .
  have view: "\<forall>i. slot_at i u = slot_at i tb" using t(5) u(5) by simp
  have len: "length (tb_slots t) \<le> length (tb_slots u)" using u(3) by (simp add: tb_frame_def)
  obtain row where row: "CopyFrom (slot_at (slot_of y tb) tb) False (slot_at (slot_of z tb) tb) = Done (row, Some ())"
      "line_copied (slot_at (slot_of y tb) tb) (slot_at (slot_of z tb) tb) row" "row_ok (tb_width tb) row"
    using CopyFrom_ok [OF slot_at_ok [OF ok] slot_at_ok [OF ok] h(2) plain] by blast
  have "peek (tb_slots u) (slot_of y tb) = Done (slot_at (slot_of y tb) tb)"
    using u(4) view by (metis peek_def slot_at_def)
  then have src: "slot_row (slot_of y tb) u = Done (u, Some (slot_at (slot_of y tb) tb))" by (simp add: slot_row_def)
  have "CopyFrom (slot_at (slot_of y tb) tb) (slot_of y tb = slot_of z tb) (slot_at (slot_of z tb) u) = Done (row, Some ())"
    using row(1) ne view by simp
  moreover have "slot_of z tb < length (tb_slots u)" "row_ok (tb_width u) row"
    using t(4) len row(3) tb_frame_simps(2) [OF frame] by simp_all
  ultimately obtain tb' where tb': "change_slot (slot_of z tb) (CopyFrom (slot_at (slot_of y tb) tb) (slot_of y tb = slot_of z tb)) u = Done (tb', Some ())"
      "tb_ok tb'" "tb_frame u tb'" "\<forall>i. slot_at i tb' = (if i = slot_of z tb then row else slot_at i u)"
    using change_slot_view [OF u(2)] by blast
  have frame': "tb_frame tb tb'" using tb_frame_trans [OF frame tb'(3)] .
  have view': "\<forall>i. slot_at i tb' = (if i = slot_of z tb then row else slot_at i tb)" using tb'(4) view by simp
  have "CopyRow y z tb = Done (tb', Some ())" using t(1) u(1) src tb'(1) by (simp add: CopyRow_def)
  then show ?thesis using tb'(2) frame' row(2) view' lines_update [OF h(1) frame' view'] by blast
qed

interpretation buffer: line_copier tb_ok tb_lines "\<lambda>tb. row_ok (tb_width tb)" tb_frame change_row "\<lambda>_. plain_row" line_copied CopyRow
proof
  fix s t u :: TextBuffer and y z :: int and f and r :: ROW and i j :: nat
  show "tb_frame s s" by simp
  show "tb_frame s t \<Longrightarrow> tb_frame t u \<Longrightarrow> tb_frame s u" by (rule tb_frame_trans)
  show "tb_frame s t \<Longrightarrow> row_ok (tb_width t) = row_ok (tb_width s)" by (simp add: tb_frame_simps)
  show "tb_frame s t \<Longrightarrow> plain_row = plain_row" by simp
  assume ok: "tb_ok s"
  then have h: "0 < tb_height s" by (simp add: tb_ok_def)
  show "r \<in> set (tb_lines s) \<Longrightarrow> row_ok (tb_width s) r" using slot_at_ok [OF ok] by (auto simp: tb_lines_def)
  show "tb_lines s \<noteq> []" using h by (simp add: tb_lines_def)
  assume i: "i = nat (y mod int (length (tb_lines s)))"
  have line: "tb_lines s ! i = slot_at (slot_of y s) s" using tb_lines_nth [OF h] i by simp
  show "f (tb_lines s ! i) = Done (r, Some ()) \<Longrightarrow> row_ok (tb_width s) r \<Longrightarrow>
      \<exists>t. change_row y f s = Done (t, Some ()) \<and> tb_ok t \<and> tb_frame s t \<and> tb_lines t = (tb_lines s)[i := r]"
    using change_row_view [OF ok, of f y r "Some ()"] i line by auto
  assume j: "j = nat (z mod int (length (tb_lines s)))" and ne: "i \<noteq> j" and plain: "plain_row (tb_lines s ! i)"
  have "slot_of y s \<noteq> slot_of z s" using i j ne slot_of_eq_iff [OF h] by auto
  moreover have "tb_lines s ! j = slot_at (slot_of z s) s" using tb_lines_nth [OF h] j by simp
  ultimately show "\<exists>t r. CopyRow y z s = Done (t, Some ()) \<and> tb_ok t \<and> tb_frame s t \<and>
      line_copied (tb_lines s ! i) (tb_lines s ! j) r \<and> tb_lines t = (tb_lines s)[j := r]"
    using CopyRow_view [OF ok, of y z] plain line j by auto
qed

end
