(* ===== verification/Text_Buffer_Properties.thy ===== *)
theory Text_Buffer_Properties
  imports Text_Buffer_Ring
begin

text \<open>
  The operations on the lines of the text buffer, and the properties of the buffer: the circular increment with the
  hyperlinks it drops, scrolling, the removal of the scrollback, resizing, and reading through memory that is not
  committed yet.
\<close>

definition tb_line :: "int \<Rightarrow> TextBuffer \<Rightarrow> ROW" where
  "tb_line y tb = tb_lines tb ! nat (y mod int (tb_height tb))"

lemma tb_line_slot: "0 < tb_height tb \<Longrightarrow> tb_line y tb = slot_at (slot_of y tb) tb"
  by (simp add: tb_line_def tb_lines_nth)

lemma buffer_index: "buffer.index tb y = nat (y mod int (tb_height tb))"
  by (simp add: buffer.index_def)

lemma buffer_index_eq: "0 < tb_height tb \<Longrightarrow> buffer.index tb y = buffer.index tb z \<longleftrightarrow> y mod int (tb_height tb) = z mod int (tb_height tb)"
  by (simp add: buffer_index eq_nat_nat_iff)

lemma tb_ok_size: "tb_ok tb \<Longrightarrow> 0 < tb_height tb" "tb_ok tb \<Longrightarrow> 0 < tb_width tb" "tb_ok tb \<Longrightarrow> tb_width tb \<le> 0x7fff"
  by (simp_all add: tb_ok_def)

lemma tb_lines_line: "i < tb_height tb \<Longrightarrow> tb_lines tb ! i = tb_line (int i) tb"
  by (simp add: tb_line_def)

text \<open>A new buffer has blank lines, none of them committed.\<close>

lemma TextBuffer_new_lines:
  assumes "TextBuffer_new size0 attr c act rend m = Some tb" "sz_width size0 \<le> 0x7fff"
  shows "tb_ok tb" "tb_lines tb = replicate (tb_height tb) (ROW_new (tb_width tb) attr)"
    "tb_height tb = nat (max (sz_height size0) 1)" "tb_width tb = nat (max (sz_width size0) 1)" "tb_firstRow tb = 0"
  using assms by (auto simp: TextBuffer_new_def reserve_def Let_def tb_ok_def tb_lines_def slot_at_def map_replicate_const split: if_splits)

lemma row_ok_flags [simp]: "row_ok w (SetWrapForced b row) = row_ok w row" "row_ok w (SetLineRendition lr row) = row_ok w row"
  by (simp_all add: row_ok_def row_repr_def SetWrapForced_def SetLineRendition_def)

lemma plain_blank: "plain_row (ROW_new w attr)"
  by (simp add: plain_row_def GetReadableColumnCount_def ROW_new_def)

lemma plain_wrap [simp]: "plain_row (SetWrapForced b row) = plain_row row"
  by (simp add: plain_row_def GetReadableColumnCount_def SetWrapForced_def)

lemma TextBuffer_new_line:
  assumes "TextBuffer_new size0 attr c act rend m = Some tb" "sz_width size0 \<le> 0x7fff"
  shows "tb_line y tb = ROW_new (tb_width tb) attr"
proof -
  have "nat (y mod int (tb_height tb)) < tb_height tb"
    using tb_ok_size(1) [OF TextBuffer_new_lines(1) [OF assms]] by (simp add: nat_less_iff)
  then show ?thesis by (simp add: tb_line_def TextBuffer_new_lines(2) [OF assms])
qed

subsection \<open>Scrolling\<close>

lemma mod_apart: "0 < h \<Longrightarrow> 0 < \<bar>a - b\<bar> \<Longrightarrow> \<bar>a - b\<bar> < h \<Longrightarrow> a mod h \<noteq> b mod (h :: int)"
  by (metis abs_of_nonneg abs_zmult_eq_1 dvd_imp_le_int mod_eq_dvd_iff abs_dvd_iff dvd_abs_iff linorder_not_le zdvd_not_zless abs_ge_zero)

lemma tb_for_map: "tb_for (map f xs) body = tb_for xs (\<lambda>x. body (f x))"
  by (induction xs) simp_all

lemma scroll_loop:
  assumes ok: "tb_ok tb" and d: "delta \<noteq> 0" and fit: "n + \<bar>delta\<bar> \<le> int (tb_height tb)"
    and plain: "\<And>k. 0 \<le> k \<Longrightarrow> k < n \<Longrightarrow> plain_row (tb_line (first + k) tb)"
    and ys: "set ys \<subseteq> {first..first + n - 1}" "distinct ys"
      "sorted_wrt (\<lambda>p q. p + delta \<noteq> q \<and> \<bar>p + delta - q\<bar> < int (tb_height tb)) ys"
  shows "\<exists>tb'. tb_for ys (\<lambda>y. CopyRow y (y + delta)) tb = Done (tb', Some ()) \<and> tb_ok tb' \<and> tb_frame tb tb' \<and>
    (\<forall>y \<in> set ys. line_copied (tb_line y tb) (tb_line (y + delta) tb) (tb_line (y + delta) tb')) \<and>
    (\<forall>z. (\<forall>y \<in> set ys. z mod int (tb_height tb) \<noteq> (y + delta) mod int (tb_height tb)) \<longrightarrow> tb_line z tb' = tb_line z tb)"
proof -
  let ?h = "int (tb_height tb)" and ?ps = "map (\<lambda>y. (y, y + delta)) ys"
  note h = tb_ok_size(1) [OF ok]
  have near: "(y + delta) mod ?h \<noteq> (z + delta) mod ?h" if "y \<in> set ys" "z \<in> set ys" "y \<noteq> z" for y z
  proof -
    have "first \<le> y" "y < first + n" "first \<le> z" "z < first + n" using that(1,2) ys(1) by auto
    then show ?thesis using that(3) fit h by (intro mod_apart) auto
  qed
  have "distinct (map (\<lambda>y. buffer.index tb (y + delta)) ys)"
    using ys(2) near by (auto simp: distinct_map inj_on_def buffer_index_eq [OF h])
  moreover have "sorted_wrt (\<lambda>p q. buffer.index tb (p + delta) \<noteq> buffer.index tb q) ys"
    using ys(3) h by (elim sorted_wrt_mono_rel [rotated]) (use mod_apart in \<open>auto simp: buffer_index_eq [OF h]\<close>)
  moreover have "buffer.index tb y \<noteq> buffer.index tb (y + delta) \<and> plain_row (tb_lines tb ! buffer.index tb y)" if "y \<in> set ys" for y
  proof -
    have "0 \<le> y - first" "y - first < n" using that ys(1) by auto
    moreover from this have "y mod ?h \<noteq> (y + delta) mod ?h" using d fit h by (intro mod_apart) auto
    ultimately show ?thesis using plain [of "y - first"] by (simp add: buffer_index_eq [OF h]) (simp add: buffer_index tb_line_def)
  qed
  then have pairs: "\<And>p. p \<in> set ?ps \<Longrightarrow>
      buffer.index tb (fst p) \<noteq> buffer.index tb (snd p) \<and> plain_row (tb_lines tb ! buffer.index tb (fst p))" by auto
  ultimately have "\<exists>tb'. tb_for ?ps (\<lambda>p. CopyRow (fst p) (snd p)) tb = Done (tb', Some ()) \<and> tb_ok tb' \<and> tb_frame tb tb' \<and>
      length (tb_lines tb') = length (tb_lines tb) \<and>
      (\<forall>p \<in> set ?ps. line_copied (tb_lines tb ! buffer.index tb (fst p)) (tb_lines tb ! buffer.index tb (snd p)) (tb_lines tb' ! buffer.index tb (snd p))) \<and>
      (\<forall>i < length (tb_lines tb). i \<notin> (buffer.index tb \<circ> snd) ` set ?ps \<longrightarrow> tb_lines tb' ! i = tb_lines tb ! i)"
    by (intro buffer.copy_each [OF ok] pairs) (simp_all add: comp_def sorted_wrt_map)
  then obtain tb' where tb': "tb_for ?ps (\<lambda>p. CopyRow (fst p) (snd p)) tb = Done (tb', Some ())" "tb_ok tb'" "tb_frame tb tb'"
      "\<forall>p \<in> set ?ps. line_copied (tb_lines tb ! buffer.index tb (fst p)) (tb_lines tb ! buffer.index tb (snd p)) (tb_lines tb' ! buffer.index tb (snd p))"
      "\<forall>i < length (tb_lines tb). i \<notin> (buffer.index tb \<circ> snd) ` set ?ps \<longrightarrow> tb_lines tb' ! i = tb_lines tb ! i" by blast
  have height: "tb_height tb' = tb_height tb" using tb_frame_simps [OF tb'(3)] by simp
  have "tb_line z tb' = tb_line z tb" if "\<forall>y \<in> set ys. z mod ?h \<noteq> (y + delta) mod ?h" for z
  proof -
    have "buffer.index tb z \<notin> (buffer.index tb \<circ> snd) ` set ?ps" using that by (auto simp: buffer_index_eq [OF h])
    then show ?thesis using tb'(5) buffer.index_less [OF ok, of z] by (simp add: tb_line_def height buffer_index)
  qed
  then show ?thesis using tb'(1-4) by (auto simp: tb_for_map tb_line_def height buffer_index)
qed

lemma ScrollRows_lines:
  assumes ok: "tb_ok tb" and d: "delta \<noteq> 0" and n: "0 \<le> n" and fit: "n + \<bar>delta\<bar> \<le> int (tb_height tb)"
    and plain: "\<And>k. 0 \<le> k \<Longrightarrow> k < n \<Longrightarrow> plain_row (tb_line (first + k) tb)"
  shows "\<exists>tb'. ScrollRows first n delta tb = Done (tb', Some ()) \<and> tb_ok tb' \<and> tb_frame tb tb' \<and>
    (\<forall>y. first \<le> y \<and> y < first + n \<longrightarrow> line_copied (tb_line y tb) (tb_line (y + delta) tb) (tb_line (y + delta) tb')) \<and>
    (\<forall>z. (\<forall>y. first \<le> y \<and> y < first + n \<longrightarrow> z mod int (tb_height tb) \<noteq> (y + delta) mod int (tb_height tb)) \<longrightarrow> tb_line z tb' = tb_line z tb)"
proof -
  let ?rows = "[first..first + n - 1]"
  let ?ys = "if delta < 0 then ?rows else rev ?rows"
  have rows: "set ?ys = {first..first + n - 1}" "distinct ?ys" by auto
  have up: "sorted_wrt (<) ?rows" by (rule sorted_wrt_upto)
  then have down: "sorted_wrt (>) (rev ?rows)" by (simp add: sorted_wrt_rev)
  have "sorted_wrt (\<lambda>p q. p + delta \<noteq> q \<and> \<bar>p + delta - q\<bar> < int (tb_height tb)) ?ys"
  proof (cases "delta < 0")
    case True
    have "p + delta \<noteq> q \<and> \<bar>p + delta - q\<bar> < int (tb_height tb)" if "p \<in> set ?rows" "q \<in> set ?rows" "p < q" for p q
      using that True fit by auto
    then show ?thesis using True sorted_wrt_mono_rel [OF _ up, of "\<lambda>p q. p + delta \<noteq> q \<and> \<bar>p + delta - q\<bar> < int (tb_height tb)"] by simp
  next
    case False
    have "p + delta \<noteq> q \<and> \<bar>p + delta - q\<bar> < int (tb_height tb)" if "p \<in> set (rev ?rows)" "q \<in> set (rev ?rows)" "p > q" for p q
      using that False fit d by auto
    then show ?thesis using False sorted_wrt_mono_rel [OF _ down, of "\<lambda>p q. p + delta \<noteq> q \<and> \<bar>p + delta - q\<bar> < int (tb_height tb)"] by simp
  qed
  from scroll_loop [OF ok d fit plain _ rows(2) this] rows(1) show ?thesis
    using d n by (auto simp: ScrollRows_def Let_def)
qed

subsection \<open>The circular increment\<close>

lemma GetRowByOffset_line:
  assumes ok: "tb_ok tb"
  shows "\<exists>tb'. GetRowByOffset y tb = Done (tb', Some (tb_line y tb)) \<and> tb_ok tb' \<and> tb_frame tb tb' \<and> tb_lines tb' = tb_lines tb \<and>
    tb_lastMutationId tb' = tb_lastMutationId tb"
  using GetRowByOffset_view [OF ok, of y] lines_same tb_line_slot [OF tb_ok_size(1) [OF ok]] by metis

lemma tb_line_frame: "tb_frame tb tb' \<Longrightarrow> tb_lines tb' = tb_lines tb \<Longrightarrow> tb_line y tb' = tb_line y tb"
  by (simp add: tb_line_def tb_frame_simps)

lemma prune_rows_lines:
  assumes "tb_ok tb"
  shows "\<exists>tb'. prune_rows ys refs tb = Done (tb', Some (filter (\<lambda>ident. \<forall>y \<in> set ys. ident \<notin> set (GetHyperlinks (tb_line y tb))) refs)) \<and>
    tb_ok tb' \<and> tb_frame tb tb' \<and> tb_lines tb' = tb_lines tb"
  using assms
proof (induction ys arbitrary: tb refs)
  case Nil
  then show ?case by simp
next
  case (Cons y ys)
  obtain t where t: "GetRowByOffset y tb = Done (t, Some (tb_line y tb))" "tb_ok t" "tb_frame tb t" "tb_lines t = tb_lines tb"
    using GetRowByOffset_line [OF Cons.prems] by blast
  let ?refs = "filter (\<lambda>ident. ident \<notin> set (GetHyperlinks (tb_line y tb))) refs"
  let ?all = "filter (\<lambda>ident. \<forall>y \<in> set (y # ys). ident \<notin> set (GetHyperlinks (tb_line y tb))) refs"
  show ?case
  proof (cases "?refs = []")
    case True
    then have "?all = []" by (auto simp: filter_empty_conv)
    then show ?thesis using t True by simp
  next
    case False
    obtain u where u: "prune_rows ys ?refs t = Done (u, Some (filter (\<lambda>ident. \<forall>y \<in> set ys. ident \<notin> set (GetHyperlinks (tb_line y t))) ?refs))"
        "tb_ok u" "tb_frame t u" "tb_lines u = tb_lines t"
      using Cons.IH [OF t(2)] by blast
    have "filter (\<lambda>ident. \<forall>y \<in> set ys. ident \<notin> set (GetHyperlinks (tb_line y t))) ?refs = ?all"
      using tb_line_frame [OF t(3,4)] by (auto simp: conj_commute)
    then show ?thesis using t u False tb_frame_trans [OF t(3) u(3)] by (simp add: Let_def)
  qed
qed

definition obsolete_links :: "TextBuffer \<Rightarrow> 16 word set" where
  "obsolete_links tb =
     {ident. ident \<in> set (GetHyperlinks (hd (tb_lines tb))) \<and> (\<forall>row \<in> set (tl (tb_lines tb)). ident \<notin> set (GetHyperlinks row))}"

lemma RemoveHyperlink_simps [simp]:
  "tb_lines (RemoveHyperlinkFromMap i tb) = tb_lines tb" "tb_ok (RemoveHyperlinkFromMap i tb) = tb_ok tb"
  "tb_hyperlinkMap (RemoveHyperlinkFromMap i tb) = (tb_hyperlinkMap tb)(i := None)"
  "tb_firstRow (RemoveHyperlinkFromMap i tb) = tb_firstRow tb" "tb_height (RemoveHyperlinkFromMap i tb) = tb_height tb"
  "tb_width (RemoveHyperlinkFromMap i tb) = tb_width tb"
  by (simp_all add: RemoveHyperlinkFromMap_def tb_lines_def slot_at_def slot_of_def tb_ok_def)

lemma fold_RemoveHyperlink [simp]:
  "tb_lines (fold RemoveHyperlinkFromMap ids tb) = tb_lines tb" "tb_ok (fold RemoveHyperlinkFromMap ids tb) = tb_ok tb"
  "tb_hyperlinkMap (fold RemoveHyperlinkFromMap ids tb) ident = (if ident \<in> set ids then None else tb_hyperlinkMap tb ident)"
  "tb_firstRow (fold RemoveHyperlinkFromMap ids tb) = tb_firstRow tb" "tb_height (fold RemoveHyperlinkFromMap ids tb) = tb_height tb"
  "tb_width (fold RemoveHyperlinkFromMap ids tb) = tb_width tb"
  by (induction ids arbitrary: tb) simp_all

lemma tb_lines_split: "tb_ok tb \<Longrightarrow> hd (tb_lines tb) = tb_line 0 tb"
  "tb_ok tb \<Longrightarrow> set (tl (tb_lines tb)) = (\<lambda>y. tb_line y tb) ` {1..int (tb_height tb) - 1}"
proof -
  assume ok: "tb_ok tb"
  let ?h = "tb_height tb"
  have lines: "tb_lines tb = map (\<lambda>i. tb_line (int i) tb) [0..<?h]"
    by (rule nth_equalityI) (simp_all add: tb_lines_line)
  have split: "[0..<?h] = 0 # [1..<?h]" using tb_ok_size(1) [OF ok] by (simp add: upt_rec)
  show "hd (tb_lines tb) = tb_line 0 tb" unfolding lines split by simp
  have "int ` {1..<?h} = {1..int ?h - 1}"
  proof
    show "{1..int ?h - 1} \<subseteq> int ` {1..<?h}"
    proof
      fix y assume "y \<in> {1..int ?h - 1}"
      then have "nat y \<in> {1..<?h}" "y = int (nat y)" by auto
      then show "y \<in> int ` {1..<?h}" by blast
    qed
  qed auto
  then have "(\<lambda>i. tb_line (int i) tb) ` {1..<?h} = (\<lambda>y. tb_line y tb) ` {1..int ?h - 1}"
    using image_image [of "\<lambda>y. tb_line y tb" int "{1..<?h}"] by simp
  then show "set (tl (tb_lines tb)) = (\<lambda>y. tb_line y tb) ` {1..int ?h - 1}" unfolding lines split by simp
qed

lemma PruneHyperlinks_lines:
  assumes ok: "tb_ok tb"
  shows "\<exists>tb'. PruneHyperlinks tb = Done (tb', Some ()) \<and> tb_ok tb' \<and> tb_lines tb' = tb_lines tb \<and>
    tb_firstRow tb' = tb_firstRow tb \<and> tb_height tb' = tb_height tb \<and> tb_width tb' = tb_width tb \<and>
    (\<forall>ident. tb_hyperlinkMap tb' ident = (if ident \<in> obsolete_links tb then None else tb_hyperlinkMap tb ident))"
proof -
  obtain t where t: "GetRowByOffset 0 tb = Done (t, Some (tb_line 0 tb))" "tb_ok t" "tb_frame tb t" "tb_lines t = tb_lines tb"
    using GetRowByOffset_line [OF ok] by blast
  note f = tb_frame_simps [OF t(3)]
  show ?thesis
  proof (cases "GetHyperlinks (tb_line 0 tb) = []")
    case True
    then have "obsolete_links tb = {}" by (simp add: obsolete_links_def tb_lines_split(1) [OF ok])
    then show ?thesis using t True f by (simp add: PruneHyperlinks_def)
  next
    case False
    let ?rows = "[1..int (tb_height tb) - 1]" and ?refs = "remdups (GetHyperlinks (tb_line 0 tb))"
    let ?old = "filter (\<lambda>ident. \<forall>y \<in> set ?rows. ident \<notin> set (GetHyperlinks (tb_line y t))) ?refs"
    obtain u where u: "prune_rows ?rows ?refs t = Done (u, Some ?old)" "tb_ok u" "tb_frame t u" "tb_lines u = tb_lines t"
      using prune_rows_lines [OF t(2)] by blast
    note g = tb_frame_simps [OF u(3)]
    have "set ?old = obsolete_links tb"
      using tb_line_frame [OF t(3,4)] by (auto simp: obsolete_links_def tb_lines_split [OF ok])
    moreover have "PruneHyperlinks tb = Done (fold RemoveHyperlinkFromMap ?old u, Some ())"
      using t(1) u(1) False f by (simp add: PruneHyperlinks_def Let_def)
    ultimately show ?thesis
      using u t f g by auto
  qed
qed

text \<open>When the first row advances by one, the first line becomes the last one.\<close>

lemma lines_rotate:
  assumes ok: "tb_ok tb"
  defines "f \<equiv> (if tb_firstRow tb + 1 \<ge> int (tb_height tb) then 0 else tb_firstRow tb + 1)"
  shows "tb_lines (tb\<lparr>tb_firstRow := f\<rparr>) = tl (tb_lines tb) @ [hd (tb_lines tb)]" and "tb_ok (tb\<lparr>tb_firstRow := f\<rparr>)"
proof -
  let ?h = "tb_height tb" and ?t = "tb\<lparr>tb_firstRow := f\<rparr>"
  have h: "0 < ?h" and fr: "0 \<le> tb_firstRow tb" "tb_firstRow tb < int ?h" using ok by (simp_all add: tb_ok_def)
  have f: "f = (tb_firstRow tb + 1) mod int ?h"
  proof (cases "tb_firstRow tb + 1 \<ge> int ?h")
    case True
    then have "tb_firstRow tb + 1 = int ?h" using fr by simp
    then show ?thesis by (simp add: f_def)
  qed (use fr in \<open>simp add: f_def\<close>)
  then show "tb_ok ?t" using ok h by (simp add: tb_ok_def)
  have line: "tb_lines ?t ! i = tb_line (int i + 1) tb" if "i < ?h" for i
  proof -
    have "(f + int i) mod int ?h = (tb_firstRow tb + (int i + 1)) mod int ?h"
      unfolding f mod_add_left_eq by (simp add: ac_simps)
    then have "slot_of (int i) ?t = slot_of (int i + 1) tb" by (simp add: slot_of_def)
    then show ?thesis using that by (simp add: tb_lines_def tb_line_slot [OF h] slot_at_def)
  qed
  show "tb_lines ?t = tl (tb_lines tb) @ [hd (tb_lines tb)]"
  proof (rule nth_equalityI)
    show "length (tb_lines ?t) = length (tl (tb_lines tb) @ [hd (tb_lines tb)])" using h by simp
    fix i assume "i < length (tb_lines ?t)"
    then have i: "i < ?h" by simp
    show "tb_lines ?t ! i = (tl (tb_lines tb) @ [hd (tb_lines tb)]) ! i"
    proof (cases "i < ?h - 1")
      case True
      then show ?thesis using line [OF i] tb_lines_line [of "i + 1" tb] by (simp add: nth_append nth_tl add.commute)
    next
      case False
      then have "i = ?h - 1" "int i + 1 = int ?h" using i by auto
      then have "tb_line (int i + 1) tb = tb_line 0 tb" by (simp add: tb_line_def)
      then show ?thesis using line [OF i] False tb_lines_split(1) [OF ok] i by (simp add: nth_append)
    qed
  qed
qed

lemma IncrementCircularBuffer_lines:
  assumes ok: "tb_ok tb"
  shows "\<exists>tb'. IncrementCircularBuffer attr tb = Done (tb', Some ()) \<and> tb_ok tb' \<and>
    tb_lines tb' = tl (tb_lines tb) @ [row_Reset attr (hd (tb_lines tb))] \<and>
    (\<forall>ident. tb_hyperlinkMap tb' ident = (if ident \<in> obsolete_links tb then None else tb_hyperlinkMap tb ident))"
proof -
  obtain t where t: "PruneHyperlinks tb = Done (t, Some ())" "tb_ok t" "tb_lines t = tb_lines tb" "tb_height t = tb_height tb"
      "\<forall>ident. tb_hyperlinkMap t ident = (if ident \<in> obsolete_links tb then None else tb_hyperlinkMap tb ident)"
    using PruneHyperlinks_lines [OF ok] by blast
  note h = tb_ok_size [OF t(2)]
  have "row_ok (tb_width t) (row_Reset attr (slot_at (slot_of 0 t) t))" by (rule row_Reset_ok [OF slot_at_ok [OF t(2)] h(2,3)])
  then obtain u where u: "change_row 0 (pure_change (row_Reset attr)) t = Done (u, Some ())" "tb_ok u" "tb_frame t u"
      "tb_lines u = (tb_lines t)[0 := row_Reset attr (slot_at (slot_of 0 t) t)]"
    using change_row_view [OF t(2), of "pure_change (row_Reset attr)" 0] by (auto simp: pure_change_def)
  have hd: "slot_at (slot_of 0 t) t = hd (tb_lines tb)"
    using tb_lines_split(1) [OF t(2)] tb_line_slot [OF h(1)] t(3) by simp
  have ne: "tb_lines tb \<noteq> []" using buffer.lines_some [OF ok] .
  define f where "f = (if tb_firstRow u + 1 \<ge> int (tb_height u) then 0 else tb_firstRow u + 1)"
  have "Height (tb_GetSize u) = int (tb_height u)"
    by (simp add: tb_GetSize_def FromDimensions_def geom_simps)
  then have "IncrementCircularBuffer attr tb = Done (u\<lparr>tb_firstRow := f\<rparr>, Some ())"
    using t(1) u(1) by (simp add: IncrementCircularBuffer_def Let_def f_def)
  moreover have "tb_lines (u\<lparr>tb_firstRow := f\<rparr>) = tl (tb_lines tb) @ [row_Reset attr (hd (tb_lines tb))]"
    using lines_rotate(1) [OF u(2)] u(4) t(3) hd ne unfolding f_def by (cases "tb_lines tb") simp_all
  moreover have "tb_ok (u\<lparr>tb_firstRow := f\<rparr>)" using lines_rotate(2) [OF u(2)] unfolding f_def .
  ultimately show ?thesis using t(5) tb_frame_simps [OF u(3)] by auto
qed

subsection \<open>Clearing the scrollback\<close>

lemma clear_row_marks_ok: "row_ok w row \<Longrightarrow> row_ok w (clear_row_marks row)"
proof -
  assume ok: "row_ok w row"
  have "sum_list (map snd (map (\<lambda>(attr, len). (attr\<lparr>ta_markKind := MarkNone\<rparr>, len)) runs)) = sum_list (map snd runs) \<and>
      list_all (\<lambda>run. 0 < snd run) (map (\<lambda>(attr, len). (attr\<lparr>ta_markKind := MarkNone\<rparr>, len)) runs) =
      list_all (\<lambda>run. 0 < snd run) runs" for runs :: "(TextAttribute \<times> nat) list"
    by (induction runs) auto
  then have "attr_ok w (row_attr (clear_row_marks row)) = attr_ok w (row_attr row)"
    by (simp add: attr_ok_def clear_row_marks_def del: map_map)
  then show ?thesis using ok by (auto simp: row_ok_def clear_row_marks_def row_repr_def)
qed

text \<open>A loop that changes the rows of an interval inside of the buffer.\<close>

lemma change_interval:
  assumes ok: "tb_ok tb" and "0 \<le> a" "b < int (tb_height tb)" and g: "\<And>r. row_ok (tb_width tb) r \<Longrightarrow> row_ok (tb_width tb) (g r)"
  shows "\<exists>tb'. tb_for [a..b] (\<lambda>y. change_row y (pure_change g)) tb = Done (tb', Some ()) \<and> tb_ok tb' \<and> tb_frame tb tb' \<and>
    (\<forall>y. 0 \<le> y \<and> y < int (tb_height tb) \<longrightarrow> tb_line y tb' = (if a \<le> y \<and> y \<le> b then g (tb_line y tb) else tb_line y tb))"
proof -
  let ?h = "int (tb_height tb)"
  have idx: "buffer.index tb y = nat y" if "0 \<le> y" "y < ?h" for y using that by (simp add: buffer_index)
  then have "distinct (map (buffer.index tb) [a..b])" using assms(2,3) by (auto simp: distinct_map inj_on_def)
  moreover have "(\<lambda>y. change_row y (pure_change g)) = (\<lambda>y. change_row y (\<lambda>r. Done (g r, Some ())))"
    by (simp add: pure_change_def [abs_def])
  ultimately obtain tb' where tb': "tb_for [a..b] (\<lambda>y. change_row y (pure_change g)) tb = Done (tb', Some ())" "tb_ok tb'" "tb_frame tb tb'"
      "\<forall>i < length (tb_lines tb). tb_lines tb' ! i = (if i \<in> buffer.index tb ` set [a..b] then g (tb_lines tb ! i) else tb_lines tb ! i)"
    using buffer.change_each [OF ok, of "[a..b]" g] g by auto
  have "tb_line y tb' = (if a \<le> y \<and> y \<le> b then g (tb_line y tb) else tb_line y tb)" if y: "0 \<le> y" "y < ?h" for y
  proof -
    have "nat y \<in> buffer.index tb ` set [a..b] \<longleftrightarrow> a \<le> y \<and> y \<le> b"
      using y assms(2,3) idx by (force simp: image_iff)
    moreover have "nat y < tb_height tb" using y by linarith
    ultimately show ?thesis using tb'(4) y tb_frame_simps(1) [OF tb'(3)] by (simp add: tb_line_def)
  qed
  then show ?thesis using tb' by blast
qed

lemma estimate_bounds: "tb_ok tb \<Longrightarrow> 0 \<le> estimateOffsetOfLastCommittedRow tb \<and> estimateOffsetOfLastCommittedRow tb < int (tb_height tb)"
  by (auto simp: tb_ok_def estimateOffsetOfLastCommittedRow_def)

lemma ClearMarksInRange_lines:
  assumes ok: "tb_ok tb"
  shows "\<exists>tb'. ClearMarksInRange p q tb = Done (tb', Some ()) \<and> tb_ok tb' \<and> tb_frame tb tb' \<and>
    (\<forall>y. 0 \<le> y \<and> y < int (tb_height tb) \<longrightarrow>
       tb_line y tb' = (if std_clamp (min (pt_y p) (pt_y q)) 0 (int (tb_height tb) - 1) \<le> y \<and>
                           y \<le> std_clamp (max (pt_y p) (pt_y q)) 0 (estimateOffsetOfLastCommittedRow tb)
                        then clear_row_marks (tb_line y tb) else tb_line y tb))"
proof -
  have "0 \<le> std_clamp (min (pt_y p) (pt_y q)) 0 (int (tb_height tb) - 1)"
      "std_clamp (max (pt_y p) (pt_y q)) 0 (estimateOffsetOfLastCommittedRow tb) < int (tb_height tb)"
    using estimate_bounds [OF ok] tb_ok_size(1) [OF ok] by (auto simp: std_clamp_def)
  from change_interval [OF ok this, of clear_row_marks] clear_row_marks_ok show ?thesis by (simp add: ClearMarksInRange_def)
qed

lemma tb_line_firstRow:
  assumes "tb_ok tb"
  shows "tb_line (tb_firstRow tb + y) (tb\<lparr>tb_firstRow := 0\<rparr>) = tb_line y tb"
  using assms by (simp add: tb_line_slot tb_ok_def slot_of_def slot_at_def)

text \<open>A row that was never committed, in a buffer that starts at its first slot, is blank.\<close>

lemma tb_line_uncommitted:
  assumes "tb_ok tb" "tb_firstRow tb = 0" "estimateOffsetOfLastCommittedRow tb < y" "y < int (tb_height tb)"
  shows "tb_line y tb = ROW_new (tb_width tb) (tb_initialAttributes tb)"
proof -
  have "0 \<le> y" using assms(3) by (auto simp: estimateOffsetOfLastCommittedRow_def)
  then have "slot_of y tb = nat y + 1" using assms by (simp add: slot_of_def)
  moreover have "\<not> nat y + 1 < length (tb_slots tb)" using assms(3) by (auto simp: estimateOffsetOfLastCommittedRow_def)
  ultimately show ?thesis using tb_line_slot [OF tb_ok_size(1) [OF assms(1)]] by (simp add: slot_at_def)
qed

definition blank_line :: "TextAttribute \<Rightarrow> ROW \<Rightarrow> bool" where
  "blank_line attr row \<longleftrightarrow> row_repr row (spaces (row_columnCount row)) \<and> rle_runs (row_attr row) = [(attr, row_columnCount row)] \<and>
     row_lineRendition row = SingleWidth \<and> \<not> row_wrapForced row \<and> row_promptData row = None"

lemma blank_lines:
  "row_ok w row \<Longrightarrow> 0 < w \<Longrightarrow> w \<le> 0x7fff \<Longrightarrow> blank_line attr (row_Reset attr row)"
  "0 < w \<Longrightarrow> w \<le> 0x7fff \<Longrightarrow> blank_line attr (ROW_new w attr)"
  using blank_row(1) [of w attr] blank_row(2) [of row attr]
  by (auto simp: blank_line_def row_ok_def row_Reset_def ROW_new_def rle_of_value_def)

text \<open>The loop of \<open>ScrollRows\<close> upwards to the first slot, from rows that do not wrap around.\<close>

lemma scroll_to_top:
  assumes ok: "tb_ok tb" and s: "s = start mod int (tb_height tb)" "0 < s" "s + n \<le> int (tb_height tb)" "0 \<le> n" "0 < start"
    and plain: "\<And>k. 0 \<le> k \<Longrightarrow> k < n \<Longrightarrow> plain_row (tb_line (start + k) tb)"
  shows "\<exists>tb'. ScrollRows start n (- start) tb = Done (tb', Some ()) \<and> tb_ok tb' \<and> tb_frame tb tb' \<and>
    (\<forall>k. 0 \<le> k \<and> k < n \<longrightarrow> line_copied (tb_line (start + k) tb) (tb_line k tb) (tb_line k tb')) \<and>
    (\<forall>k. n \<le> k \<and> k < int (tb_height tb) \<longrightarrow> tb_line k tb' = tb_line k tb)"
proof -
  let ?h = "int (tb_height tb)" and ?ks = "[0..n - 1]"
  note h = tb_ok_size(1) [OF ok]
  let ?ps = "map (\<lambda>k. (start + k, k)) ?ks"
  have dst: "buffer.index tb k = nat k" if "0 \<le> k" "k < ?h" for k using that by (simp add: buffer_index)
  have src: "buffer.index tb (start + k) = nat (s + k)" if "0 \<le> k" "k < n" for k
  proof -
    have "(start + k) mod ?h = (s + k) mod ?h" by (simp add: s(1) mod_add_left_eq)
    then show ?thesis using that s by (simp add: buffer_index)
  qed
  have "distinct (map (buffer.index tb \<circ> snd) ?ps)" using dst s by (auto simp: distinct_map inj_on_def)
  moreover have "sorted_wrt (\<lambda>p q. buffer.index tb (snd p) \<noteq> buffer.index tb (fst q)) ?ps"
  proof -
    have "buffer.index tb p \<noteq> buffer.index tb (start + q)" if "p \<in> set ?ks" "q \<in> set ?ks" "p < q" for p q
      using that dst [of p] src [of q] s by auto
    then show ?thesis unfolding sorted_wrt_map
      using sorted_wrt_mono_rel [OF _ sorted_wrt_upto, of 0 "n - 1" "\<lambda>p q. buffer.index tb (snd (start + p, p)) \<noteq> buffer.index tb (fst (start + q, q))"]
      by simp
  qed
  moreover have pairs: "\<And>p. p \<in> set ?ps \<Longrightarrow>
      buffer.index tb (fst p) \<noteq> buffer.index tb (snd p) \<and> plain_row (tb_lines tb ! buffer.index tb (fst p))"
  proof -
    fix p assume "p \<in> set ?ps"
    then obtain k where k: "p = (start + k, k)" "0 \<le> k" "k < n" by auto
    then show "buffer.index tb (fst p) \<noteq> buffer.index tb (snd p) \<and> plain_row (tb_lines tb ! buffer.index tb (fst p))"
      using dst [of k] src [of k] s plain [of k] by (simp add: tb_line_def buffer_index)
  qed
  ultimately have "\<exists>tb'. tb_for ?ps (\<lambda>p. CopyRow (fst p) (snd p)) tb = Done (tb', Some ()) \<and> tb_ok tb' \<and> tb_frame tb tb' \<and>
      length (tb_lines tb') = length (tb_lines tb) \<and>
      (\<forall>p \<in> set ?ps. line_copied (tb_lines tb ! buffer.index tb (fst p)) (tb_lines tb ! buffer.index tb (snd p)) (tb_lines tb' ! buffer.index tb (snd p))) \<and>
      (\<forall>i < length (tb_lines tb). i \<notin> (buffer.index tb \<circ> snd) ` set ?ps \<longrightarrow> tb_lines tb' ! i = tb_lines tb ! i)"
    by (intro buffer.copy_each [OF ok] pairs) simp_all
  then obtain tb' where tb': "tb_for ?ps (\<lambda>p. CopyRow (fst p) (snd p)) tb = Done (tb', Some ())" "tb_ok tb'" "tb_frame tb tb'"
      "\<forall>p \<in> set ?ps. line_copied (tb_lines tb ! buffer.index tb (fst p)) (tb_lines tb ! buffer.index tb (snd p)) (tb_lines tb' ! buffer.index tb (snd p))"
      "\<forall>i < length (tb_lines tb). i \<notin> (buffer.index tb \<circ> snd) ` set ?ps \<longrightarrow> tb_lines tb' ! i = tb_lines tb ! i" by blast
  have height: "tb_height tb' = tb_height tb" using tb_frame_simps [OF tb'(3)] by simp
  have rows: "[start..start + n - 1] = map (\<lambda>k. start + k) ?ks"
    by (rule nth_equalityI) auto
  have "ScrollRows start n (- start) tb = Done (tb', Some ())"
    using tb'(1) s(4,5) by (simp add: ScrollRows_def Let_def rows tb_for_map)
  moreover have "line_copied (tb_line (start + k) tb) (tb_line k tb) (tb_line k tb')" if "0 \<le> k \<and> k < n" for k
    using tb'(4) that by (auto simp: tb_line_def height buffer_index)
  moreover have "tb_line k tb' = tb_line k tb" if k: "n \<le> k \<and> k < ?h" for k
  proof -
    have "nat k \<notin> (buffer.index tb \<circ> snd) ` set ?ps" using k s(4) dst by auto
    moreover have "nat k < length (tb_lines tb)" using k s(4) by auto
    ultimately show ?thesis using tb'(5) k s(4) by (simp add: tb_line_def height)
  qed
  ultimately show ?thesis using tb'(2,3) by blast
qed

text \<open>A row copied over itself stays as it is.\<close>

lemma CopyFrom_self:
  assumes "row_ok w row" "0 < w" "plain_row row"
  shows "CopyFrom row True row = Done (row, Some ())"
proof -
  obtain gs where repr: "row_repr row gs" using assms(1) by (auto simp: row_ok_def)
  have w: "row_columnCount row = w" "rle_total_length (row_attr row) = w" using assms(1) by (simp_all add: row_ok_def attr_ok_def)
  have le: "w \<le> 0x7fff" using repr w by (simp add: row_repr_def)
  let ?st = "RowCopyTextFromState_init\<lparr>rcs_sourceColumnLimit := GetReadableColumnCount row\<rparr>"
  have cols: "clampedColumnInclusive (row_columnCount row) (rcs_sourceColumnBegin ?st) = 0"
      "clampedColumnInclusive (row_columnCount row) (rcs_sourceColumnLimit ?st) = w"
      "clampedColumnInclusive (row_columnCount row) (rcs_columnBegin ?st) = 0"
      "clampedColumnInclusive (row_columnCount row) (rcs_columnLimit ?st) = w"
    using assms(3) le w by (simp_all add: RowCopyTextFromState_init_def clampedColumnInclusive_def clamp_def int32_max_def plain_row_def)
  have "gwidth (gbefore 0 gs) = 0" using repr by (simp add: row_repr_def)
  then obtain offs chars where "copySource ?st row = Done (offs, chars)"
    using copySource_glyphs(1) [OF repr cols(1,2) assms(2)] by blast
  moreover obtain h where "WriteHelper_new row (rcs_columnBegin ?st) (rcs_columnLimit ?st) = Done h"
    using WriteHelper_new_glyphs [OF repr cols(3,4)] by blast
  ultimately obtain st' where "CopyTextFrom ?st row True row = Done (row, Some st')"
    by (simp add: CopyTextFrom_def on_exception_def)
  moreover have "rle_resize_trailing_extent w (row_attr row) = Some (row_attr row)"
    using w assms(2) by (simp add: rle_resize_trailing_extent_def Let_def)
  ultimately show ?thesis using w by (simp add: CopyFrom_def)
qed

lemma CopyRow_self:
  assumes ok: "tb_ok tb" and eq: "slot_of y tb = slot_of z tb" and plain: "plain_row (slot_at (slot_of y tb) tb)"
  shows "\<exists>tb'. CopyRow y z tb = Done (tb', Some ()) \<and> tb_ok tb' \<and> tb_frame tb tb' \<and> tb_lines tb' = tb_lines tb"
proof -
  let ?s = "slot_of z tb"
  obtain t where t: "GetMutableRowByOffset z tb = Done (t, Some ?s)" "tb_ok t" "tb_frame tb t"
      "?s < length (tb_slots t)" "\<forall>i. slot_at i t = slot_at i tb"
    using GetMutableRowByOffset_view [OF ok] by blast
  have s: "slot_of y t = ?s" using tb_frame_slot_of [OF t(3)] eq by simp
  have get: "getRow y t = Done (t, Some ?s)"
    using t(2,4) s slot_of_range [of t y] wrap_offset_mod [of t "tb_firstRow t + y"]
    by (simp add: getRow_def getRowByOffsetDirect_def tb_ok_def slot_of_def)
  have row: "peek (tb_slots t) ?s = Done (slot_at ?s tb)" using t(4,5) by (metis peek_def slot_at_def)
  then have "CopyRow y z tb = change_slot ?s (CopyFrom (slot_at ?s tb) True) t"
    using t(1) get by (simp add: CopyRow_def slot_row_def)
  also have "\<dots> = Done (t\<lparr>tb_slots := (tb_slots t)[?s := slot_at ?s tb]\<rparr>, Some ())"
    using CopyFrom_self [OF slot_at_ok [OF ok, of ?s] tb_ok_size(2) [OF ok]] plain row eq by (simp add: change_slot_def)
  also have "(tb_slots t)[?s := slot_at ?s tb] = tb_slots t" using t(4,5) by (metis list_update_id slot_at_def)
  finally have "CopyRow y z tb = Done (t, Some ())" by simp
  then show ?thesis using t lines_same [OF t(3,5)] by blast
qed

lemma mod_shift: "d mod h = 0 \<Longrightarrow> (y + d) mod h = y mod (h :: int)" "d mod h = 0 \<Longrightarrow> (d + y) mod h = y mod (h :: int)"
  using mod_add_right_eq [of y d h] mod_add_left_eq [of d h y] by simp_all

lemma scroll_in_place:
  assumes "tb_ok tb" and "\<forall>y \<in> set ys. delta mod int (tb_height tb) = 0 \<and> plain_row (tb_line y tb)"
  shows "\<exists>tb'. tb_for ys (\<lambda>y. CopyRow y (y + delta)) tb = Done (tb', Some ()) \<and> tb_ok tb' \<and> tb_frame tb tb' \<and> tb_lines tb' = tb_lines tb"
  using assms
proof (induction ys arbitrary: tb)
  case (Cons y ys)
  note h = tb_ok_size(1) [OF Cons.prems(1)]
  have "(y + delta) mod int (tb_height tb) = y mod int (tb_height tb)" using Cons.prems(2) by (simp add: mod_shift)
  then have "slot_of y tb = slot_of (y + delta) tb" using slot_of_eq_iff [OF h] by simp
  moreover have "plain_row (slot_at (slot_of y tb) tb)" using Cons.prems(2) tb_line_slot [OF h] by simp
  ultimately obtain t where t: "CopyRow y (y + delta) tb = Done (t, Some ())" "tb_ok t" "tb_frame tb t" "tb_lines t = tb_lines tb"
    using CopyRow_self [OF Cons.prems(1)] by blast
  have "\<forall>y \<in> set ys. delta mod int (tb_height t) = 0 \<and> plain_row (tb_line y t)"
    using Cons.prems(2) tb_line_frame [OF t(3,4)] tb_frame_simps(1) [OF t(3)] by simp
  from Cons.IH [OF t(2) this] obtain u where "tb_for ys (\<lambda>y. CopyRow y (y + delta)) t = Done (u, Some ())" "tb_ok u" "tb_frame t u" "tb_lines u = tb_lines t"
    by blast
  then show ?case using t tb_frame_trans [OF t(3)] by auto
qed simp

lemma plain_clear_marks: "plain_row (clear_row_marks row) = plain_row row"
  by (simp add: plain_row_def clear_row_marks_def GetReadableColumnCount_def)

definition same_content :: "ROW \<Rightarrow> ROW \<Rightarrow> bool" where
  "same_content src row \<longleftrightarrow> GetText row = GetText src \<and> row_attr row = row_attr src \<and>
     row_lineRendition row = row_lineRendition src \<and> row_wrapForced row = row_wrapForced src"

lemma scroll_kept:
  assumes ok: "tb_ok tb" and s: "start mod int (tb_height tb) + n \<le> int (tb_height tb)" "0 \<le> n" "0 < start"
    and plain: "\<And>k. 0 \<le> k \<Longrightarrow> k < n \<Longrightarrow> plain_row (tb_line (start + k) tb)"
  shows "\<exists>tb'. ScrollRows start n (- start) tb = Done (tb', Some ()) \<and> tb_ok tb' \<and> tb_frame tb tb' \<and>
    (\<forall>k. 0 \<le> k \<and> k < n \<longrightarrow> same_content (tb_line (start + k) tb) (tb_line k tb')) \<and>
    (\<forall>k. n \<le> k \<and> k < int (tb_height tb) \<longrightarrow> tb_line k tb' = tb_line k tb)"
proof (cases "start mod int (tb_height tb) = 0")
  case True
  have "- start mod int (tb_height tb) = 0" using True by (simp add: zmod_zminus1_eq_if)
  then have "\<forall>y \<in> set [start..start + n - 1]. - start mod int (tb_height tb) = 0 \<and> plain_row (tb_line y tb)"
    using plain [of "_ - start"] by fastforce
  from scroll_in_place [OF ok this] obtain tb' where tb': "tb_for [start..start + n - 1] (\<lambda>y. CopyRow y (y + - start)) tb = Done (tb', Some ())"
      "tb_ok tb'" "tb_frame tb tb'" "tb_lines tb' = tb_lines tb" by blast
  have "tb_line (start + k) tb = tb_line k tb" for k
  proof -
    have "(start + k) mod int (tb_height tb) = k mod int (tb_height tb)" using True by (rule mod_shift(2))
    then show ?thesis by (simp add: tb_line_def)
  qed
  moreover have "ScrollRows start n (- start) tb = Done (tb', Some ())" using tb'(1) s(2,3) by (simp add: ScrollRows_def Let_def)
  ultimately show ?thesis using tb' tb_line_frame [OF tb'(3,4)] by (auto simp: same_content_def)
next
  case False
  then have "0 < start mod int (tb_height tb)" using tb_ok_size(1) [OF ok] pos_mod_sign [of "int (tb_height tb)" start] by linarith
  from scroll_to_top [OF ok refl this s plain] show ?thesis by (fastforce simp: line_copied_def same_content_def)
qed

text \<open>
  \<open>ClearScrollback\<close> around its call of \<open>ScrollRows\<close>: the buffer it is called on has the rows at their place in the array,
  and what it leaves behind stays, with blank rows below.
\<close>

lemma ClearScrollback_scrolls:
  assumes ok: "tb_ok tb" and n: "0 < newFirstRow" "0 < n" "newFirstRow + n \<le> int (tb_height tb)"
  defines "start \<equiv> tb_firstRow tb + newFirstRow"
  obtains t where "tb_ok t" "tb_height t = tb_height tb"
    "\<And>y. newFirstRow \<le> y \<Longrightarrow> y < int (tb_height tb) \<Longrightarrow> tb_line (tb_firstRow tb + y) t = tb_line y tb"
    "(\<And>y. plain_row (tb_line y tb)) \<Longrightarrow> (\<And>y. plain_row (tb_line y t))"
    "\<And>u. ScrollRows start n (- start) t = Done (u, Some ()) \<Longrightarrow> tb_ok u \<Longrightarrow> tb_frame t u \<Longrightarrow>
       \<exists>v. ClearScrollback newFirstRow n tb = Done (v, Some ()) \<and> tb_ok v \<and> tb_firstRow v = 0 \<and>
         (\<forall>k. 0 \<le> k \<and> k < n \<longrightarrow> tb_line k v = tb_line k u) \<and>
         (\<forall>k. n \<le> k \<and> k < int (tb_height tb) \<longrightarrow> blank_line (tb_initialAttributes tb) (tb_line k v))"
proof -
  let ?h = "int (tb_height tb)" and ?attr = "tb_initialAttributes tb"
  note h = tb_ok_size(1) [OF ok]
  obtain t where t: "ClearMarksInRange (Point 0 0) (Point (int (tb_width tb)) (newFirstRow - 1)) tb = Done (t, Some ())" "tb_ok t" "tb_frame tb t"
      and marks: "\<forall>y. 0 \<le> y \<and> y < ?h \<longrightarrow> tb_line y t = (if std_clamp (min 0 (newFirstRow - 1)) 0 (?h - 1) \<le> y \<and>
         y \<le> std_clamp (max 0 (newFirstRow - 1)) 0 (estimateOffsetOfLastCommittedRow tb) then clear_row_marks (tb_line y tb) else tb_line y tb)"
    using ClearMarksInRange_lines [OF ok, of "Point 0 0" "Point (int (tb_width tb)) (newFirstRow - 1)"] unfolding point.sel by blast
  note f = tb_frame_simps [OF t(3)]
  let ?t = "t\<lparr>tb_firstRow := 0\<rparr>"
  have ok_t: "tb_ok ?t" using t(2) tb_ok_size(1) [OF t(2)] by (simp add: tb_ok_def)
  have at: "tb_line (tb_firstRow tb + y) ?t = tb_line y t" for y using tb_line_firstRow [OF t(2)] f by simp
  have "std_clamp (max 0 (newFirstRow - 1)) 0 (estimateOffsetOfLastCommittedRow tb) < newFirstRow"
    using n(1) estimate_bounds [OF ok] by (auto simp: std_clamp_def)
  then have kept: "tb_line y t = tb_line y tb" if "newFirstRow \<le> y" "y < ?h" for y
    using marks [rule_format, of y] that n(1) by simp
  have plain: "plain_row (tb_line y ?t)" if "\<And>y. plain_row (tb_line y tb)" for y
  proof -
    let ?y = "(y - tb_firstRow tb) mod ?h"
    have "plain_row (tb_line ?y t)" using marks [rule_format, of ?y] that h by (simp add: plain_clear_marks)
    moreover have "tb_line ?y t = tb_line (y - tb_firstRow tb) t" by (simp add: tb_line_def f)
    ultimately show ?thesis using at [of "y - tb_firstRow tb"] by simp
  qed
  have finish: "\<exists>v. ClearScrollback newFirstRow n tb = Done (v, Some ()) \<and> tb_ok v \<and> tb_firstRow v = 0 \<and>
         (\<forall>k. 0 \<le> k \<and> k < n \<longrightarrow> tb_line k v = tb_line k u) \<and> (\<forall>k. n \<le> k \<and> k < ?h \<longrightarrow> blank_line ?attr (tb_line k v))"
    if u: "ScrollRows start n (- start) ?t = Done (u, Some ())" "tb_ok u" "tb_frame ?t u" for u
  proof -
    note g = tb_frame_simps [OF u(3)]
    let ?final = "estimateOffsetOfLastCommittedRow u"
    have "?final < int (tb_height u)" "0 \<le> n" using estimate_bounds [OF u(2)] n by simp_all
    from change_interval [OF u(2) this(2,1), of "row_Reset ?attr"] row_Reset_ok [OF _ tb_ok_size(2,3) [OF u(2)]]
    obtain v where v: "tb_for [n..?final] (\<lambda>y. change_row y (pure_change (row_Reset ?attr))) u = Done (v, Some ())" "tb_ok v" "tb_frame u v"
        "\<forall>y. 0 \<le> y \<and> y < int (tb_height u) \<longrightarrow> tb_line y v = (if n \<le> y \<and> y \<le> ?final then row_Reset ?attr (tb_line y u) else tb_line y u)"
      by blast
    have same: "tb_line k v = tb_line k u" if "0 \<le> k" "k < n" for k
      using v(4) [rule_format, of k] that n g f by simp
    have blank: "blank_line ?attr (tb_line k v)" if k: "n \<le> k" "k < ?h" for k
    proof (cases "k \<le> ?final")
      case True
      then show ?thesis
        using v(4) [rule_format, of k] k n g f blank_lines(1) [of "tb_width u" "tb_line k u" ?attr] tb_ok_size [OF u(2)] slot_at_ok [OF u(2)]
          tb_line_slot [OF tb_ok_size(1) [OF u(2)]] by simp
    next
      case False
      then have "tb_line k v = ROW_new (tb_width u) ?attr"
        using v(4) [rule_format, of k] tb_line_uncommitted [OF u(2)] k n g f by simp
      then show ?thesis using blank_lines(2) [of "tb_width u" ?attr] tb_ok_size [OF u(2)] by simp
    qed
    have mx: "max 0 (newFirstRow - 1) = newFirstRow - 1" using n by simp
    have "ClearScrollback newFirstRow n tb = Done (v, Some ())"
      using n t(1) u(1) v(1) f g mx by (simp add: ClearScrollback_def start_def)
    moreover have "tb_firstRow v = 0" using tb_frame_simps(4) [OF v(3)] g by simp
    ultimately show ?thesis using v(2) same blank by blast
  qed
  show ?thesis
  proof (rule that [of ?t])
    show "tb_height ?t = tb_height tb" using f by simp
    show "tb_line (tb_firstRow tb + y) ?t = tb_line y tb" if "newFirstRow \<le> y" "y < ?h" for y using at kept [OF that] by simp
  qed (use ok_t plain finish in blast)+
qed

lemma ClearScrollback_lines:
  assumes ok: "tb_ok tb" and n: "0 < newFirstRow" "0 < n" "newFirstRow + n \<le> int (tb_height tb)"
    and s: "(tb_firstRow tb + newFirstRow) mod int (tb_height tb) + n \<le> int (tb_height tb)"
    and plain: "\<And>k. 0 \<le> k \<Longrightarrow> k < n \<Longrightarrow> plain_row (tb_line (newFirstRow + k) tb)"
  shows "\<exists>tb'. ClearScrollback newFirstRow n tb = Done (tb', Some ()) \<and> tb_ok tb' \<and> tb_firstRow tb' = 0 \<and>
    (\<forall>k. 0 \<le> k \<and> k < n \<longrightarrow> same_content (tb_line (newFirstRow + k) tb) (tb_line k tb')) \<and>
    (\<forall>k. n \<le> k \<and> k < int (tb_height tb) \<longrightarrow> blank_line (tb_initialAttributes tb) (tb_line k tb'))"
proof -
  let ?start = "tb_firstRow tb + newFirstRow"
  show ?thesis
  proof (rule ClearScrollback_scrolls [OF ok n])
    fix t assume t: "tb_ok t" "tb_height t = tb_height tb"
      and at: "\<And>y. newFirstRow \<le> y \<Longrightarrow> y < int (tb_height tb) \<Longrightarrow> tb_line (tb_firstRow tb + y) t = tb_line y tb"
      and finish: "\<And>u. ScrollRows ?start n (- ?start) t = Done (u, Some ()) \<Longrightarrow> tb_ok u \<Longrightarrow> tb_frame t u \<Longrightarrow>
       \<exists>v. ClearScrollback newFirstRow n tb = Done (v, Some ()) \<and> tb_ok v \<and> tb_firstRow v = 0 \<and>
         (\<forall>k. 0 \<le> k \<and> k < n \<longrightarrow> tb_line k v = tb_line k u) \<and>
         (\<forall>k. n \<le> k \<and> k < int (tb_height tb) \<longrightarrow> blank_line (tb_initialAttributes tb) (tb_line k v))"
    have line: "tb_line (?start + k) t = tb_line (newFirstRow + k) tb" if "0 \<le> k" "k < n" for k
      using at [of "newFirstRow + k"] that n by (simp add: add.assoc)
    have start: "0 < ?start" using ok n by (simp add: tb_ok_def)
    have plain_t: "plain_row (tb_line (?start + k) t)" if "0 \<le> k" "k < n" for k using line plain that by simp
    have wrap: "?start mod int (tb_height t) + n \<le> int (tb_height t)" "0 \<le> n" using s n(2) unfolding t(2) by simp_all
    obtain u where u: "ScrollRows ?start n (- ?start) t = Done (u, Some ())" "tb_ok u" "tb_frame t u"
        "\<forall>k. 0 \<le> k \<and> k < n \<longrightarrow> same_content (tb_line (?start + k) t) (tb_line k u)"
      using scroll_kept [OF t(1) wrap start plain_t] by blast
    obtain v where v: "ClearScrollback newFirstRow n tb = Done (v, Some ())" "tb_ok v" "tb_firstRow v = 0"
        "\<forall>k. 0 \<le> k \<and> k < n \<longrightarrow> tb_line k v = tb_line k u"
        "\<forall>k. n \<le> k \<and> k < int (tb_height tb) \<longrightarrow> blank_line (tb_initialAttributes tb) (tb_line k v)"
      using finish [OF u(1-3)] by blast
    have "same_content (tb_line (newFirstRow + k) tb) (tb_line k v)" if "0 \<le> k" "k < n" for k
      using u(4) line v(4) that by simp
    then show ?thesis using v by blast
  qed
qed

text \<open>Copies of plain rows are plain, and change no other rows than those they are made over.\<close>

lemma line_copied_plain:
  assumes "row_ok w src" "row_ok w row" "0 < w" "plain_row src" "line_copied src dst row"
  shows "plain_row row"
proof -
  have "(c - 2 * of_bool b) div 2 \<noteq> c" if "0 < c" for c :: int and b using that by (cases b) auto
  then have "row_lineRendition src = SingleWidth" "\<not> row_doubleBytePadded src"
    using assms(1,3,4) by (auto simp: plain_row_def GetReadableColumnCount_def row_ok_def split: if_splits)
  then show ?thesis using assms(1,2,5) by (simp add: plain_row_def GetReadableColumnCount_def line_copied_def row_ok_def)
qed

lemma CopyRow_plain:
  assumes ok: "tb_ok tb" and plain: "\<And>y. plain_row (tb_line y tb)"
  shows "\<exists>tb'. CopyRow y z tb = Done (tb', Some ()) \<and> tb_ok tb' \<and> tb_frame tb tb' \<and> (\<forall>x. plain_row (tb_line x tb')) \<and>
    (\<forall>x. x mod int (tb_height tb) \<noteq> z mod int (tb_height tb) \<longrightarrow> tb_line x tb' = tb_line x tb) \<and>
    same_content (tb_line y tb) (tb_line z tb')"
proof (cases "slot_of y tb = slot_of z tb")
  case True
  note h = tb_ok_size(1) [OF ok]
  have "plain_row (slot_at (slot_of y tb) tb)" using plain [of y] tb_line_slot [OF h] by simp
  then obtain t where t: "CopyRow y z tb = Done (t, Some ())" "tb_ok t" "tb_frame tb t" "tb_lines t = tb_lines tb"
    using CopyRow_self [OF ok True] by blast
  moreover have "tb_line y tb = tb_line z tb" using True tb_line_slot [OF h] by simp
  ultimately show ?thesis using plain tb_line_frame [OF t(3,4)] by (auto simp: same_content_def)
next
  case False
  note h = tb_ok_size [OF ok]
  have src: "plain_row (slot_at (slot_of y tb) tb)" using plain [of y] tb_line_slot [OF h(1)] by simp
  obtain t row where t: "CopyRow y z tb = Done (t, Some ())" "tb_ok t" "tb_frame tb t"
      "line_copied (slot_at (slot_of y tb) tb) (slot_at (slot_of z tb) tb) row"
      "\<forall>i. slot_at i t = (if i = slot_of z tb then row else slot_at i tb)"
    using CopyRow_view [OF ok False src] by blast
  note f = tb_frame_simps [OF t(3)]
  have line: "tb_line x t = (if x mod int (tb_height tb) = z mod int (tb_height tb) then row else tb_line x tb)" for x
    using t(5) h(1) f by (simp add: tb_line_slot tb_frame_slot_of [OF t(3)] slot_of_eq_iff)
  have "row_ok (tb_width tb) row" using slot_at_ok [OF t(2), of "slot_of z tb"] t(5) f by simp
  then have "plain_row row" using line_copied_plain [OF slot_at_ok [OF ok] _ h(2) src t(4)] by blast
  moreover have "same_content (tb_line y tb) row" using t(4) tb_line_slot [OF h(1)] by (simp add: line_copied_def same_content_def)
  ultimately show ?thesis using t(1-3) line plain by auto
qed

lemma copies_frame:
  assumes "tb_ok tb" and "\<And>y. plain_row (tb_line y tb)"
  shows "\<exists>tb'. tb_for ys (\<lambda>y. CopyRow y (y + delta)) tb = Done (tb', Some ()) \<and> tb_ok tb' \<and> tb_frame tb tb' \<and> (\<forall>y. plain_row (tb_line y tb')) \<and>
    (\<forall>z. (\<forall>y \<in> set ys. z mod int (tb_height tb) \<noteq> (y + delta) mod int (tb_height tb)) \<longrightarrow> tb_line z tb' = tb_line z tb)"
  using assms
proof (induction ys arbitrary: tb)
  case (Cons y ys)
  note ok = Cons.prems(1) and h = tb_ok_size(1) [OF Cons.prems(1)]
  let ?h = "int (tb_height tb)"
  obtain t where t: "CopyRow y (y + delta) tb = Done (t, Some ())" "tb_ok t" "tb_frame tb t" "\<forall>y. plain_row (tb_line y t)"
      "\<forall>z. z mod ?h \<noteq> (y + delta) mod ?h \<longrightarrow> tb_line z t = tb_line z tb"
    using CopyRow_plain [OF Cons.prems] by blast
  note f = tb_frame_simps(1) [OF t(3)]
  obtain u where "tb_for ys (\<lambda>y. CopyRow y (y + delta)) t = Done (u, Some ())" "tb_ok u" "tb_frame t u" "\<forall>y. plain_row (tb_line y u)"
      "\<forall>z. (\<forall>y \<in> set ys. z mod ?h \<noteq> (y + delta) mod ?h) \<longrightarrow> tb_line z u = tb_line z t"
    using Cons.IH [OF t(2)] t(4) f by auto
  then show ?case using t tb_frame_trans [OF t(3)] by auto
qed simp

text \<open>
  Rows that wrap around the end of the array: the row at \<open>start\<close> is copied to the first slot before the row there, one of
  the rows to keep, has been read.
\<close>

lemma tb_bind_assoc: "tb_bind (tb_bind m f) g s = tb_bind m (\<lambda>x. tb_bind (f x) g) s"
  by (cases "m s") (auto simp: tb_bind_def split: option.splits)

lemma tb_for_append: "tb_for (xs @ ys) body s = tb_bind (tb_for xs body) (\<lambda>_. tb_for ys body) s"
proof (induction xs arbitrary: s)
  case (Cons x xs)
  have "tb_for (xs @ ys) body = tb_bind (tb_for xs body) (\<lambda>_. tb_for ys body)" by (rule ext) (rule Cons)
  then show ?case by (simp add: tb_bind_assoc)
qed simp

lemma scroll_wraps:
  assumes ok: "tb_ok tb" and plain: "\<And>y. plain_row (tb_line y tb)" and start: "0 < start" and n: "n \<le> int (tb_height tb)"
    and s: "s = start mod int (tb_height tb)" "0 < s" "int (tb_height tb) < s + n"
  shows "\<exists>tb'. ScrollRows start n (- start) tb = Done (tb', Some ()) \<and> tb_ok tb' \<and> tb_frame tb tb' \<and>
    same_content (tb_line start tb) (tb_line 0 tb') \<and> same_content (tb_line start tb) (tb_line (int (tb_height tb) - s) tb')"
proof -
  let ?h = "int (tb_height tb)" and ?copy = "\<lambda>y. CopyRow y (y + - start)"
  let ?m = "?h - s"
  have "s < ?h" using s(1) tb_ok_size(1) [OF ok] by simp
  then have m: "0 < ?m" "?m < n" using s(2,3) by simp_all
  have hs: "(start + ?m) mod ?h = 0" using mod_add_left_eq [of start ?h ?m] s(1) by simp
  obtain t where t: "CopyRow start 0 tb = Done (t, Some ())" "tb_ok t" "tb_frame tb t" "\<forall>x. plain_row (tb_line x t)"
      "same_content (tb_line start tb) (tb_line 0 t)"
    using CopyRow_plain [OF ok plain] by blast
  note ft = tb_frame_simps(1) [OF t(3)]
  obtain u where u: "tb_for [start + 1..start + ?m - 1] ?copy t = Done (u, Some ())" "tb_ok u" "tb_frame t u" "\<forall>x. plain_row (tb_line x u)"
      "\<forall>z. (\<forall>y \<in> set [start + 1..start + ?m - 1]. z mod ?h \<noteq> (y + - start) mod ?h) \<longrightarrow> tb_line z u = tb_line z t"
    using copies_frame [OF t(2), of "[start + 1..start + ?m - 1]" "- start"] t(4) ft by auto
  note fu = tb_frame_simps(1) [OF u(3)]
  have zero: "tb_line 0 u = tb_line 0 t" using u(5) m(1) s(2) by (auto simp: mod_pos_pos_trivial)
  obtain v where v: "CopyRow (start + ?m) ?m u = Done (v, Some ())" "tb_ok v" "tb_frame u v" "\<forall>x. plain_row (tb_line x v)"
      "\<forall>x. x mod ?h \<noteq> ?m mod ?h \<longrightarrow> tb_line x v = tb_line x u" "same_content (tb_line (start + ?m) u) (tb_line ?m v)"
    using CopyRow_plain [OF u(2), of "start + ?m" ?m] u(4) ft fu by auto
  note fv = tb_frame_simps(1) [OF v(3)]
  obtain w where w: "tb_for [start + ?m + 1..start + n - 1] ?copy v = Done (w, Some ())" "tb_ok w" "tb_frame v w"
      "\<forall>z. (\<forall>y \<in> set [start + ?m + 1..start + n - 1]. z mod ?h \<noteq> (y + - start) mod ?h) \<longrightarrow> tb_line z w = tb_line z v"
    using copies_frame [OF v(2), of "[start + ?m + 1..start + n - 1]" "- start"] v(4) ft fu fv by auto
  have "tb_line (start + ?m) u = tb_line 0 u" using hs ft fu by (simp add: tb_line_def)
  then have second: "same_content (tb_line start tb) (tb_line ?m v)" using v(6) zero t(5) by (simp add: same_content_def)
  have mm: "?m mod ?h = ?m" using m(1) s(2) by (intro mod_pos_pos_trivial) simp_all
  then have front: "tb_line 0 v = tb_line 0 u" using v(5) m(1) by (metis less_irrefl mod_0)
  have later: "tb_line z w = tb_line z v" if "z mod ?h \<le> ?m" for z
  proof (rule w(4) [rule_format])
    fix y assume "y \<in> set [start + ?m + 1..start + n - 1]"
    then have "?m < y - start" "y - start < ?h" using n by simp_all
    then show "z mod ?h \<noteq> (y + - start) mod ?h" using that m(1) by simp
  qed
  have "tb_line 0 w = tb_line 0 v" "tb_line ?m w = tb_line ?m v" using later [of 0] later [of ?m] mm m(1) by simp_all
  then have ends: "same_content (tb_line start tb) (tb_line 0 w)" "same_content (tb_line start tb) (tb_line ?m w)"
    using second t(5) zero front by simp_all
  have "[start..start + n - 1] = [start..start + ?m - 1] @ [start + ?m..start + n - 1]" using m by (simp add: upto_split1)
  also have "[start..start + ?m - 1] = start # [start + 1..start + ?m - 1]" using m by (simp add: upto_rec1)
  also have "[start + ?m..start + n - 1] = (start + ?m) # [start + ?m + 1..start + n - 1]" using m by (simp add: upto_rec1)
  finally have "ScrollRows start n (- start) tb = Done (w, Some ())"
    using t(1) u(1) v(1) w(1) start m by (simp add: ScrollRows_def Let_def tb_for_append)
  moreover have "tb_frame tb w" using tb_frame_trans t(3) u(3) v(3) w(3) by blast
  ultimately show ?thesis using w(2) ends by blast
qed

subsection \<open>Repeated increments\<close>

lemma no_links_reset: "\<not> IsHyperlink attr \<Longrightarrow> GetHyperlinks (row_Reset attr row) = []"
  by (simp add: GetHyperlinks_def row_Reset_def)

definition links_of :: "ROW list \<Rightarrow> 16 word set" where
  "links_of rows = (\<Union>row \<in> set rows. set (GetHyperlinks row))"

lemma links_of_simps [simp]:
  "links_of [] = {}" "links_of (row # rows) = set (GetHyperlinks row) \<union> links_of rows"
  "links_of (rows @ rows') = links_of rows \<union> links_of rows'"
  by (auto simp: links_of_def)

lemma links_of_reset: "\<not> IsHyperlink attr \<Longrightarrow> links_of (map (row_Reset attr) rows) = {}"
  by (simp add: links_of_def no_links_reset)

lemma obsolete_links_tl: "obsolete_links tb = set (GetHyperlinks (hd (tb_lines tb))) - links_of (tl (tb_lines tb))"
  by (auto simp: obsolete_links_def links_of_def)

fun increments :: "nat \<Rightarrow> TextAttribute \<Rightarrow> unit tb_op" where
  "increments 0 attr = tb_return ()"
| "increments (Suc k) attr = tb_bind (increments k attr) (\<lambda>_. IncrementCircularBuffer attr)"

subsection \<open>Rows that are not committed\<close>

text \<open>
  \<open>isRowCommitted\<close> looks at the slot in front of the right one for the row in the last slot. This can only commit a row
  that was not, which reads the same.
\<close>

lemma isRowCommitted_slot:
  assumes ok: "tb_ok tb" and no: "\<not> isRowCommitted y tb"
  shows "length (tb_slots tb) \<le> slot_of y tb"
proof -
  let ?h = "int (tb_height tb)" and ?s = "tb_firstRow tb + y"
  note h = tb_ok_size(1) [OF ok]
  have wrap: "length (tb_slots tb) \<le> nat ((?s + 1) mod ?h)" using no by (simp add: isRowCommitted_def wrap_offset_mod [OF h])
  have "(?s + 1) mod ?h \<le> ?s mod ?h + 1"
  proof -
    have "(?s + 1) mod ?h = (?s mod ?h + 1) mod ?h" by (simp add: mod_add_left_eq)
    also have "\<dots> \<le> ?s mod ?h + 1" using h pos_mod_sign [of ?h ?s] by (intro zmod_le_nonneg_dividend) simp
    finally show ?thesis .
  qed
  moreover have "0 \<le> ?s mod ?h" using h by simp
  ultimately show ?thesis using wrap by (simp add: slot_of_def nat_le_iff nat_add_distrib)
qed

lemma GetLineRendition_line:
  assumes ok: "tb_ok tb"
  shows "\<exists>tb'. GetLineRendition y tb = Done (tb', Some (row_lineRendition (tb_line y tb))) \<and> tb_ok tb' \<and> tb_frame tb tb' \<and> tb_lines tb' = tb_lines tb"
proof (cases "isRowCommitted y tb")
  case True
  obtain t where t: "GetRowByOffset y tb = Done (t, Some (tb_line y tb))" "tb_ok t" "tb_frame tb t" "tb_lines t = tb_lines tb"
    using GetRowByOffset_line [OF ok] by blast
  then show ?thesis using True by (simp add: GetLineRendition_def)
next
  case False
  have "\<not> slot_of y tb < length (tb_slots tb)" using isRowCommitted_slot [OF ok False] by simp
  then have "row_lineRendition (tb_line y tb) = SingleWidth"
    by (simp add: tb_line_slot [OF tb_ok_size(1) [OF ok]] slot_at_def ROW_new_def)
  then show ?thesis using False ok by (simp add: GetLineRendition_def)
qed

lemma line_scale_line:
  assumes ok: "tb_ok tb"
  shows "\<exists>tb'. line_scale y tb = Done (tb', Some (if row_lineRendition (tb_line y tb) = SingleWidth then 0 else 1)) \<and>
    tb_ok tb' \<and> tb_frame tb tb' \<and> tb_lines tb' = tb_lines tb"
proof -
  obtain t where "GetLineRendition y tb = Done (t, Some (row_lineRendition (tb_line y tb)))" "tb_ok t" "tb_frame tb t" "tb_lines t = tb_lines tb"
    using GetLineRendition_line [OF ok] by blast
  then show ?thesis by (simp add: line_scale_def IsDoubleWidthLine_def)
qed

lemma half_bounds: "drop_bit (Suc 0) (a :: int) = a div 2" "push_bit (Suc 0) (a :: int) = 2 * a"
  by (simp_all add: drop_bit_eq_div push_bit_eq_mult)

subsection \<open>Properties\<close>

text \<open>
  C18. Up to \<open>_height\<close> calls of \<open>IncrementCircularBuffer\<close>, the way output scrolls a full buffer: the lines move up by as
  many, the lines that leave at the top come back blank at the bottom, and of the hyperlinks exactly those are forgotten
  that only the lost lines referred to.
\<close>

theorem circular_increments:
  assumes ok: "tb_ok tb" and attr: "\<not> IsHyperlink attr" and "k \<le> tb_height tb"
  shows "\<exists>tb'. increments k attr tb = Done (tb', Some ()) \<and> tb_ok tb' \<and>
    tb_lines tb' = drop k (tb_lines tb) @ map (row_Reset attr) (take k (tb_lines tb)) \<and>
    (\<forall>ident. tb_hyperlinkMap tb' ident =
       (if ident \<in> links_of (take k (tb_lines tb)) - links_of (drop k (tb_lines tb)) then None else tb_hyperlinkMap tb ident))"
  using assms(3)
proof (induction k)
  case 0
  then show ?case using ok by simp
next
  case (Suc k)
  let ?L = "tb_lines tb"
  obtain t where t: "increments k attr tb = Done (t, Some ())" "tb_ok t" "tb_lines t = drop k ?L @ map (row_Reset attr) (take k ?L)"
      "\<forall>ident. tb_hyperlinkMap t ident = (if ident \<in> links_of (take k ?L) - links_of (drop k ?L) then None else tb_hyperlinkMap tb ident)"
    using Suc by auto
  obtain u where u: "IncrementCircularBuffer attr t = Done (u, Some ())" "tb_ok u"
      "tb_lines u = tl (tb_lines t) @ [row_Reset attr (hd (tb_lines t))]"
      "\<forall>ident. tb_hyperlinkMap u ident = (if ident \<in> obsolete_links t then None else tb_hyperlinkMap t ident)"
    using IncrementCircularBuffer_lines [OF t(2)] by blast
  have k: "k < length ?L" using Suc.prems by simp
  have split: "drop k ?L = ?L ! k # drop (Suc k) ?L" "take (Suc k) ?L = take k ?L @ [?L ! k]"
    using k by (simp_all add: Cons_nth_drop_Suc take_Suc_conv_app_nth)
  have "obsolete_links t = set (GetHyperlinks (?L ! k)) - links_of (drop (Suc k) ?L)"
    by (simp add: obsolete_links_tl t(3) split(1) links_of_reset [OF attr])
  then have "\<forall>ident. tb_hyperlinkMap u ident =
      (if ident \<in> links_of (take (Suc k) ?L) - links_of (drop (Suc k) ?L) then None else tb_hyperlinkMap tb ident)"
    using t(4) u(4) by (simp add: split)
  moreover have "tb_lines u = drop (Suc k) ?L @ map (row_Reset attr) (take (Suc k) ?L)"
    by (simp add: u(3) t(3) split)
  ultimately show ?case using t(1) u(1,2) by simp
qed
theorem circular_increments_witness:
  "\<exists>tb tb'. TextBuffer_new (Size 2 3) TextAttribute_default 25 True False 0 = Some tb \<and> increments 2 TextAttribute_default tb = Done (tb', Some ()) \<and>
    length (tb_lines tb') = 3"
proof -
  obtain tb where tb: "TextBuffer_new (Size 2 3) TextAttribute_default 25 True False 0 = Some tb"
    by (simp add: TextBuffer_new_def reserve_def)
  note new = TextBuffer_new_lines [OF tb]
  have "\<not> IsHyperlink TextAttribute_default" by code_simp
  then show ?thesis using circular_increments [of tb TextAttribute_default 2] new tb by fastforce
qed





text \<open>
  Positions on the screen and in the buffer, whose columns are twice as wide on some rows: a position of the buffer
  survives the way to the screen and back, on every row, also one that is not committed; a column of the screen comes back
  as itself, or as its left neighbour in the right half of a wide column. Neither changes a line.
\<close>

theorem screen_positions_roundtrip:
  assumes ok: "tb_ok tb"
  shows "(\<exists>t u q. BufferToScreenPosition p tb = Done (t, Some q) \<and> ScreenToBufferPosition q t = Done (u, Some p) \<and> tb_lines u = tb_lines tb) \<and>
    (\<exists>t u q r. ScreenToBufferPosition p tb = Done (t, Some q) \<and> BufferToScreenPosition q t = Done (u, Some r) \<and> tb_lines u = tb_lines tb \<and>
       pt_y r = pt_y p \<and> pt_x r = (if row_lineRendition (tb_line (pt_y p) tb) = SingleWidth then pt_x p else pt_x p - pt_x p mod 2))"
proof -
  let ?y = "pt_y p"
  let ?k = "(if row_lineRendition (tb_line ?y tb) = SingleWidth then 0 else 1) :: nat"
  obtain t where t: "line_scale ?y tb = Done (t, Some ?k)" "tb_ok t" "tb_frame tb t" "tb_lines t = tb_lines tb"
    using line_scale_line [OF ok] by blast
  obtain u where u: "line_scale ?y t = Done (u, Some ?k)" "tb_lines u = tb_lines t"
    using line_scale_line [OF t(2), of ?y] tb_line_frame [OF t(3,4)] by auto
  show ?thesis
    using t(1,4) u by (cases p) (auto simp: BufferToScreenPosition_def ScreenToBufferPosition_def half_bounds minus_mod_eq_mult_div)
qed

theorem screen_positions_roundtrip_witness:
  "\<exists>tb t u q. TextBuffer_new (Size 2 5) TextAttribute_default 25 True False 0 = Some tb \<and>
    BufferToScreenPosition (Point 1 4) tb = Done (t, Some q) \<and> ScreenToBufferPosition q t = Done (u, Some (Point 1 4))"
proof -
  obtain tb where tb: "TextBuffer_new (Size 2 5) TextAttribute_default 25 True False 0 = Some tb"
    by (simp add: TextBuffer_new_def reserve_def)
  show ?thesis using screen_positions_roundtrip [OF TextBuffer_new_lines(1) [OF tb], of "Point 1 4"] tb by auto
qed

text \<open>
  C21. \<open>ClearScrollback\<close> loses a row when the rows to keep wrap around the end of the array: the row that should follow the
  last one of the array is overwritten before it is read, and the first row of the viewport is shown twice.
\<close>

theorem clear_scrollback_repeats_row:
  assumes ok: "tb_ok tb" and n: "0 < newFirstRow" "newFirstRow + n \<le> int (tb_height tb)"
    and s: "s = (tb_firstRow tb + newFirstRow) mod int (tb_height tb)" "int (tb_height tb) < s + n"
    and plain: "\<And>y. plain_row (tb_line y tb)"
  shows "\<exists>tb'. ClearScrollback newFirstRow n tb = Done (tb', Some ()) \<and> tb_ok tb' \<and>
    same_content (tb_line newFirstRow tb) (tb_line 0 tb') \<and> same_content (tb_line newFirstRow tb) (tb_line (int (tb_height tb) - s) tb')"
proof -
  let ?start = "tb_firstRow tb + newFirstRow"
  have "s < int (tb_height tb)" using s(1) tb_ok_size(1) [OF ok] by simp
  then have pos: "0 < n" "0 < s" using s(2) n by linarith+
  show ?thesis
  proof (rule ClearScrollback_scrolls [OF ok n(1) pos(1) n(2)])
    fix t assume t: "tb_ok t" "tb_height t = tb_height tb"
      and at: "\<And>y. newFirstRow \<le> y \<Longrightarrow> y < int (tb_height tb) \<Longrightarrow> tb_line (tb_firstRow tb + y) t = tb_line y tb"
      and plain_t: "(\<And>y. plain_row (tb_line y tb)) \<Longrightarrow> (\<And>y. plain_row (tb_line y t))"
      and finish: "\<And>u. ScrollRows ?start n (- ?start) t = Done (u, Some ()) \<Longrightarrow> tb_ok u \<Longrightarrow> tb_frame t u \<Longrightarrow>
       \<exists>v. ClearScrollback newFirstRow n tb = Done (v, Some ()) \<and> tb_ok v \<and> tb_firstRow v = 0 \<and>
         (\<forall>k. 0 \<le> k \<and> k < n \<longrightarrow> tb_line k v = tb_line k u) \<and>
         (\<forall>k. n \<le> k \<and> k < int (tb_height tb) \<longrightarrow> blank_line (tb_initialAttributes tb) (tb_line k v))"
    have "0 < ?start" "n \<le> int (tb_height t)" using ok n t(2) by (simp_all add: tb_ok_def)
    then obtain u where u: "ScrollRows ?start n (- ?start) t = Done (u, Some ())" "tb_ok u" "tb_frame t u"
        "same_content (tb_line ?start t) (tb_line 0 u)" "same_content (tb_line ?start t) (tb_line (int (tb_height tb) - s) u)"
      using scroll_wraps [OF t(1) plain_t [OF plain], of ?start n s] s pos t(2) by auto
    obtain v where v: "ClearScrollback newFirstRow n tb = Done (v, Some ())" "tb_ok v" "\<forall>k. 0 \<le> k \<and> k < n \<longrightarrow> tb_line k v = tb_line k u"
      using finish [OF u(1-3)] by blast
    have "tb_line ?start t = tb_line newFirstRow tb" using at [of newFirstRow] n pos by simp
    then show ?thesis using u(4,5) v s(2) \<open>s < _\<close> pos by auto
  qed
qed

theorem clear_scrollback_repeats_row_witness:
  "\<exists>tb tb'. tb_ok tb \<and> row_wrapForced (tb_line 1 tb) \<and> \<not> row_wrapForced (tb_line 2 tb) \<and>
    ClearScrollback 1 2 tb = Done (tb', Some ()) \<and> row_wrapForced (tb_line 0 tb') \<and> row_wrapForced (tb_line 1 tb')"
proof -
  obtain new where new: "TextBuffer_new (Size 2 3) TextAttribute_default 25 True False 0 = Some new"
    by (simp add: TextBuffer_new_def reserve_def)
  let ?row = "ROW_new 2 TextAttribute_default"
  define tb where "tb = new\<lparr>tb_firstRow := 1, tb_slots := [?row, ?row, ?row, SetWrapForced True ?row]\<rparr>"
  note facts = TextBuffer_new_lines [OF new]
  have row: "row_ok 2 ?row" by (rule ROW_new_ok) simp_all
  have size: "tb_height tb = 3" "tb_width tb = 2" "tb_firstRow tb = 1" using facts by (simp_all add: tb_def)
  have ok: "tb_ok tb" using facts row by (simp add: tb_def tb_ok_def)
  have slot: "tb_line y tb = slot_at (slot_of y tb) tb" for y by (rule tb_line_slot) (simp add: size)
  have lines: "tb_line 1 tb = SetWrapForced True ?row" "tb_line 2 tb = ?row"
    unfolding slot slot_of_def size by (simp_all add: slot_at_def tb_def)
  have "slot_of y tb < length (tb_slots tb)" for y using slot_of_range [of tb y] size(1) by (simp add: tb_def)
  then have "tb_line y tb \<in> set (tb_slots tb)" for y unfolding slot slot_at_def by simp
  moreover have "\<forall>row \<in> set (tb_slots tb). plain_row row" using plain_blank [of 2 TextAttribute_default] by (simp add: tb_def)
  ultimately have plain: "plain_row (tb_line y tb)" for y by blast
  have prems: "(0 :: int) < 1" "1 + 2 \<le> int (tb_height tb)" "2 = (tb_firstRow tb + 1) mod int (tb_height tb)" "int (tb_height tb) < 2 + 2"
    by (simp_all add: size)
  have last: "int (tb_height tb) - 2 = 1" by (simp add: size)
  from clear_scrollback_repeats_row [OF ok prems plain] obtain tb' where
    tb': "ClearScrollback 1 2 tb = Done (tb', Some ())" "same_content (tb_line 1 tb) (tb_line 0 tb')" "same_content (tb_line 1 tb) (tb_line 1 tb')"
    unfolding last by blast
  moreover have "row_wrapForced (tb_line 1 tb)" "\<not> row_wrapForced (tb_line 2 tb)" by (simp_all add: lines SetWrapForced_def ROW_new_def)
  ultimately show ?thesis using ok unfolding same_content_def by metis
qed

end
