(* ===== verification/Text_Buffer_Reach.thy ===== *)
theory Text_Buffer_Reach
  imports Text_Buffer_Properties
begin

text \<open>
  The states a text buffer gets into: \<open>tb_reachable\<close> starts with a new buffer and goes on with writing text, reading,
  scrolling, clearing, resetting, line renditions and hyperlinks. Every one of them is a buffer of well-formed rows.
\<close>

subsection \<open>Writing text\<close>

text \<open>
  What a write of text has to fulfil: there is text and room for it, the row stays below 32768 code units, and the text
  does not only join the glyph in front of it. In that last case \<open>Replace\<close> sets attributes of an empty range, which leaves
  an empty run behind.
\<close>

definition writes_columns :: "CodepointWidthDetector \<Rightarrow> RowWriteState \<Rightarrow> ROW \<Rightarrow> bool" where
  "writes_columns d st row \<longleftrightarrow> cwd_ok d \<and> rws_text st \<noteq> [] \<and>
     (let c = clampedColumnInclusive (row_columnCount row) (rws_columnBegin st);
          l = clampedColumnInclusive (row_columnCount row) (rws_columnLimit st)
      in c < l \<and> (\<exists>gs hs n b e. row_repr row gs \<and> plan_text d c l (rws_text st) gs = (hs, n, b, e) \<and>
           glen (place hs e gs) \<le> 0x7fff \<and> (n = length (rws_text st) \<longrightarrow> c < gwidth hs)))"

lemma attr_ok_replace:
  assumes "attr_ok w a" "i < j" "j \<le> w"
  shows "\<exists>a'. rle_replace_value i j v a = Some a' \<and> attr_ok w a'"
proof -
  let ?a = "rle_replace_unchecked i j [(v, j - i)] a"
  have a: "list_all (\<lambda>run. 0 < snd run) (rle_runs a)" "rle_total_length a = sum_list (map snd (rle_runs a))" "rle_total_length a = w"
    using assms(1) by (simp_all add: attr_ok_def)
  have "i \<le> j" "j \<le> rle_total_length a" "list_all (\<lambda>run. 0 < snd run) [(v, j - i)]" using assms a by simp_all
  note replaced = rle_replace_unchecked_positive [OF a(1,2) this]
  have "sum_list (map snd (rle_runs ?a)) = length (rle_items ?a)" by (simp add: rle_items_def)
  also have "\<dots> = w" unfolding replaced(2) using assms(2,3) a by (simp add: rle_items_def)
  finally have "attr_ok w ?a" using replaced(1) assms(2,3) a by (simp add: attr_ok_def rle_replace_unchecked_total)
  moreover have "rle_replace_value i j v a = Some ?a"
    using assms(2,3) a by (simp add: rle_replace_value_def rle_check_indices_def)
  ultimately show ?thesis by blast
qed

lemma ReplaceAttributes_ok:
  assumes "row_ok w row" "clampedColumnInclusive w b < clampedColumnInclusive w e" "w \<le> 0x7fff"
  shows "\<exists>row'. ReplaceAttributes b e attr row = (row', Some ()) \<and> row_ok w row'"
proof -
  obtain a where "rle_replace_value (clampedColumnInclusive w b) (clampedColumnInclusive w e) attr (row_attr row) = Some a" "attr_ok w a"
    using attr_ok_replace [OF _ assms(2) clampedColumnInclusive_le [OF assms(3)]] assms(1) unfolding row_ok_def by blast
  moreover have "(\<exists>gs. row_repr (row\<lparr>row_attr := a\<rparr>) gs) = (\<exists>gs. row_repr row gs)" for a by (simp add: row_repr_def)
  ultimately show ?thesis using assms(1) by (simp add: ReplaceAttributes_def set_attr_def row_ok_def)
qed

lemma ReplaceText_ok:
  assumes row: "row_ok w row" and writes: "writes_columns d st row"
  shows "\<exists>row' st'. ReplaceText d st row = Done (row', Some st') \<and> row_ok w row' \<and>
    clampedColumnInclusive w (rws_columnBegin st') < clampedColumnInclusive w (rws_columnEnd st')"
proof -
  have w: "row_columnCount row = w" "attr_ok w (row_attr row)" using row by (auto simp: row_ok_def)
  let ?c = "clampedColumnInclusive w (rws_columnBegin st)" and ?l = "clampedColumnInclusive w (rws_columnLimit st)"
  obtain gs hs n b e where gs: "row_repr row gs" and plan: "plan_text d ?c ?l (rws_text st) gs = (hs, n, b, e)"
      and cond: "cwd_ok d" "rws_text st \<noteq> []" "?c < ?l" "glen (place hs e gs) \<le> 0x7fff" "n = length (rws_text st) \<longrightarrow> ?c < gwidth hs"
    using writes w(1) unfolding writes_columns_def Let_def by blast
  have w': "w \<le> 0x7fff" using gs w by (simp add: row_repr_def)
  from ReplaceText_glyphs [OF gs cond(1) _ _ cond(3,2) plan cond(4)] w(1) obtain row' where
    r: "ReplaceText d st row = Done (row', Some (st\<lparr>rws_text := drop n (rws_text st),
        rws_columnEnd := int (if n = length (rws_text st) then gwidth hs else ?l),
        rws_columnBeginDirty := int b, rws_columnEndDirty := int (gwidth gs - gwidth (gafter e gs))\<rparr>))"
      "row_repr row' (place hs e gs)" "\<exists>p. text_update row row' p" by blast
  have "row_columnCount row' = w" "row_attr row' = row_attr row"
    using r(3) w(1) unfolding text_update_def by (auto dest: arg_cong [of _ _ row_columnCount] arg_cong [of _ _ row_attr])
  then have "row_ok w row'" using r(2) w by (auto simp: row_ok_def)
  moreover have "?c < clampedColumnInclusive w (int (if n = length (rws_text st) then gwidth hs else ?l))"
    using cond(3,5) clampedColumnInclusive_le [OF w', of "rws_columnLimit st"] w' by (auto simp: clampedColumnInclusive_def clamp_def)
  ultimately show ?thesis using r(1) by auto
qed

lemma TriggerRedraw_ok: "tb_ok tb \<Longrightarrow> \<exists>tb'. TriggerRedraw v tb = Done (tb', Some ()) \<and> tb_ok tb'"
  by (simp add: TriggerRedraw_def tb_ok_def)

lemma Replace_ok:
  assumes ok: "tb_ok tb" and writes: "writes_columns d st (tb_line y tb)"
  shows "\<exists>tb' st'. Replace d y attr st tb = Done (tb', Some st') \<and> tb_ok tb'"
proof -
  let ?s = "slot_of y tb"
  obtain t where t: "GetMutableRowByOffset y tb = Done (t, Some ?s)" "tb_ok t" "tb_frame tb t" "?s < length (tb_slots t)" "\<forall>i. slot_at i t = slot_at i tb"
    using GetMutableRowByOffset_view [OF ok] by blast
  have line: "tb_line y tb = slot_at ?s t" using t(5) tb_line_slot [OF tb_ok_size(1) [OF ok]] by simp
  obtain row st' where r: "ReplaceText d st (slot_at ?s t) = Done (row, Some st')" "row_ok (tb_width t) row"
      "clampedColumnInclusive (tb_width t) (rws_columnBegin st') < clampedColumnInclusive (tb_width t) (rws_columnEnd st')"
    using ReplaceText_ok [OF slot_at_ok [OF t(2)]] writes unfolding line by blast
  obtain u where u: "change_slot ?s (ReplaceText d st) t = Done (u, Some st')" "tb_ok u" "tb_frame t u" "length (tb_slots u) = length (tb_slots t)"
    using change_slot_view [OF t(2,4), of "ReplaceText d st" row "Some st'"] r(1,2) by blast
  have w: "tb_width u = tb_width t" using tb_frame_simps(2) [OF u(3)] .
  obtain row' where "ReplaceAttributes (rws_columnBegin st') (rws_columnEnd st') attr (slot_at ?s u) = (row', Some ())" "row_ok (tb_width u) row'"
    using ReplaceAttributes_ok [OF slot_at_ok [OF u(2)] _ tb_ok_size(3) [OF u(2)]] r(3) unfolding w by blast
  then obtain v where v: "change_slot ?s (\<lambda>r. Done (ReplaceAttributes (rws_columnBegin st') (rws_columnEnd st') attr r)) u = Done (v, Some ())" "tb_ok v"
    using change_slot_view [OF u(2), of ?s "\<lambda>r. Done (ReplaceAttributes (rws_columnBegin st') (rws_columnEnd st') attr r)" row' "Some ()"] t(4) u(4) by auto
  obtain x where "TriggerRedraw (FromExclusive (Rect (rws_columnBeginDirty st') y (rws_columnEndDirty st') (y + 1))) v = Done (x, Some ())" "tb_ok x"
    using TriggerRedraw_ok [OF v(2)] by blast
  then show ?thesis using t(1) u(1) v(1) by (simp add: Replace_def)
qed

subsection \<open>Reachable buffers\<close>

text \<open>
  Scrolling and clearing come with the conditions their effect was proved under: blocks inside of the buffer, and rows
  without padding at their end.
\<close>

inductive tb_reachable :: "TextBuffer \<Rightarrow> bool" where
  new: "TextBuffer_new size0 attr c act rend m = Some tb \<Longrightarrow> sz_width size0 \<le> 0x7fff \<Longrightarrow> tb_reachable tb"
| put_text: "tb_reachable tb \<Longrightarrow> writes_columns d st (tb_line y tb) \<Longrightarrow> Replace d y attr st tb = Done (tb', r) \<Longrightarrow> tb_reachable tb'"
| read: "tb_reachable tb \<Longrightarrow> GetRowByOffset y tb = Done (tb', r) \<Longrightarrow> tb_reachable tb'"
| increment: "tb_reachable tb \<Longrightarrow> IncrementCircularBuffer attr tb = Done (tb', r) \<Longrightarrow> tb_reachable tb'"
| scroll: "tb_reachable tb \<Longrightarrow> (\<And>y. plain_row (tb_line y tb)) \<Longrightarrow> ScrollRows y n delta tb = Done (tb', r) \<Longrightarrow> tb_reachable tb'"
| clear_marks: "tb_reachable tb \<Longrightarrow> ClearMarksInRange p q tb = Done (tb', r) \<Longrightarrow> tb_reachable tb'"
| clear_scrollback: "tb_reachable tb \<Longrightarrow> (\<And>y. plain_row (tb_line y tb)) \<Longrightarrow> y + n \<le> int (tb_height tb) \<Longrightarrow>
    ClearScrollback y n tb = Done (tb', r) \<Longrightarrow> tb_reachable tb'"
| reset: "tb_reachable tb \<Longrightarrow> tb_reachable (tb_Reset tb)"
| renditions: "tb_reachable tb \<Longrightarrow> ResetLineRenditionRange y z tb = Done (tb', r) \<Longrightarrow> tb_reachable tb'"
| wrap: "tb_reachable tb \<Longrightarrow> change_row y (pure_change (SetWrapForced b)) tb = Done (tb', r) \<Longrightarrow> tb_reachable tb'"
| link: "tb_reachable tb \<Longrightarrow> tb_reachable (AddHyperlinkToMap uri ident (fst (GetHyperlinkId hash uri cid tb)))"
| unlink: "tb_reachable tb \<Longrightarrow> tb_reachable (RemoveHyperlinkFromMap ident tb)"
| attributes: "tb_reachable tb \<Longrightarrow> tb_reachable (tb\<lparr>tb_currentAttributes := attr\<rparr>)"
| cursor: "tb_reachable tb \<Longrightarrow> tb_reachable (tb\<lparr>tb_cursor := cu\<rparr>)"

lemma tb_ok_updates [simp]:
  "tb_ok (tb\<lparr>tb_currentAttributes := attr\<rparr>) = tb_ok tb" "tb_ok (tb\<lparr>tb_cursor := cu\<rparr>) = tb_ok tb"
  "tb_ok (AddHyperlinkToMap uri ident tb) = tb_ok tb" "tb_ok (fst (GetHyperlinkId hash uri cid tb)) = tb_ok tb"
  "tb_ok tb \<Longrightarrow> tb_ok (tb_Reset tb)" "tb_ok tb \<Longrightarrow> tb_ok (decommit tb)"
  by (auto simp: tb_ok_def AddHyperlinkToMap_def GetHyperlinkId_def skip_zero_id_def tb_Reset_def decommit_def Let_def split: option.splits)

lemma change_row_ok:
  assumes "tb_ok tb" "\<And>row. row_ok (tb_width tb) row \<Longrightarrow> row_ok (tb_width tb) (f row)"
  shows "\<exists>tb'. change_row y (pure_change f) tb = Done (tb', Some ()) \<and> tb_ok tb' \<and> tb_frame tb tb'"
  using change_row_view [OF assms(1), of "pure_change f" y _ "Some ()"] assms(2) [OF slot_at_ok [OF assms(1)]] by (auto simp: pure_change_def)

lemma ResetLineRenditionRange_ok:
  "tb_ok tb \<Longrightarrow> \<exists>tb'. ResetLineRenditionRange y z tb = Done (tb', Some ()) \<and> tb_ok tb'"
proof -
  have "tb_ok tb \<Longrightarrow> \<exists>tb'. tb_for ys (\<lambda>row. change_row row (pure_change (SetLineRendition SingleWidth))) tb = Done (tb', Some ()) \<and> tb_ok tb'" for ys
  proof (induction ys arbitrary: tb)
    case (Cons y ys)
    obtain t where "change_row y (pure_change (SetLineRendition SingleWidth)) tb = Done (t, Some ())" "tb_ok t"
      using change_row_ok [OF Cons.prems, of "SetLineRendition SingleWidth"] by auto
    then show ?case using Cons.IH [of t] by simp
  qed simp
  then show "tb_ok tb \<Longrightarrow> ?thesis" by (simp add: ResetLineRenditionRange_def)
qed

lemma ScrollRows_ok:
  assumes "tb_ok tb" "\<And>y. plain_row (tb_line y tb)"
  shows "\<exists>tb'. ScrollRows y n delta tb = Done (tb', Some ()) \<and> tb_ok tb' \<and> tb_frame tb tb'"
proof (cases "delta = 0")
  case False
  then show ?thesis using copies_frame [OF assms, of "if delta < 0 then [y..y + max 0 n - 1] else rev [y..y + max 0 n - 1]" delta]
    by (auto simp: ScrollRows_def Let_def)
qed (use assms in \<open>simp add: ScrollRows_def\<close>)

lemma ClearScrollback_ok:
  assumes ok: "tb_ok tb" and plain: "\<And>y. plain_row (tb_line y tb)" and n: "y + n \<le> int (tb_height tb)"
  shows "\<exists>tb'. ClearScrollback y n tb = Done (tb', Some ()) \<and> tb_ok tb'"
proof (cases "0 < y \<and> 0 < n")
  case True
  then have pos: "0 < y" "0 < n" by simp_all
  show ?thesis
  proof (rule ClearScrollback_scrolls [OF ok pos n])
    fix t assume t: "tb_ok t" "(\<And>y. plain_row (tb_line y tb)) \<Longrightarrow> (\<And>y. plain_row (tb_line y t))"
      and finish: "\<And>u. ScrollRows (tb_firstRow tb + y) n (- (tb_firstRow tb + y)) t = Done (u, Some ()) \<Longrightarrow> tb_ok u \<Longrightarrow> tb_frame t u \<Longrightarrow>
       \<exists>v. ClearScrollback y n tb = Done (v, Some ()) \<and> tb_ok v \<and> tb_firstRow v = 0 \<and>
         (\<forall>k. 0 \<le> k \<and> k < n \<longrightarrow> tb_line k v = tb_line k u) \<and>
         (\<forall>k. n \<le> k \<and> k < int (tb_height tb) \<longrightarrow> blank_line (tb_initialAttributes tb) (tb_line k v))"
    then show ?thesis using ScrollRows_ok [OF t(1) t(2) [OF plain], of "tb_firstRow tb + y" n "- (tb_firstRow tb + y)"] by blast
  qed
qed (use ok in \<open>auto simp: ClearScrollback_def\<close>)

lemma reachable_ok: "tb_reachable tb \<Longrightarrow> tb_ok tb"
proof (induction rule: tb_reachable.induct)
  case (new size0 attr c act rend m tb)
  then show ?case by (rule TextBuffer_new_lines(1))
next
  case (put_text tb d st y attr tb' r)
  then show ?case using Replace_ok [of tb d st y attr] by auto
next
  case (read tb y tb' r)
  then show ?case using GetRowByOffset_line [of tb y] by auto
next
  case (increment tb attr tb' r)
  then show ?case using IncrementCircularBuffer_lines [of tb attr] by auto
next
  case (scroll tb y n delta tb' r)
  then show ?case using ScrollRows_ok [of tb y n delta] by auto
next
  case (clear_marks tb p q tb' r)
  then show ?case using ClearMarksInRange_lines [of tb p q] by auto
next
  case (clear_scrollback tb y n tb' r)
  then show ?case using ClearScrollback_ok [of tb y n] by auto
next
  case (renditions tb y z tb' r)
  then show ?case using ResetLineRenditionRange_ok [of tb y z] by auto
next
  case (wrap tb y b tb' r)
  then show ?case using change_row_ok [of tb "SetWrapForced b" y] by auto
qed simp_all

subsection \<open>Properties\<close>



end
