(* ===== verification/Char_Sets.thy ===== *)
theory Char_Sets
  imports Prelude
begin

text \<open>
  The translation tables of the character sets a terminal can designate, \<open>src/src/terminal/adapter/charsets.hpp\<close>. A set is
  the characters from its base character on, with some of them replaced. The sets of 94 characters have 95 entries: the
  first one is the blank in front of the set.

  In the sources tables are compared by their addresses; \<open>CharSetName\<close> has one name for each of them.
\<close>

definition CharSet :: "wchar \<Rightarrow> nat \<Rightarrow> (wchar \<times> wchar) list \<Rightarrow> wstring" where
  "CharSet BaseChar Size replacements =
     fold (\<lambda>(first, second) translationTable. translationTable[unat (first - BaseChar) := second]) replacements
       (map (\<lambda>i. BaseChar + of_nat i) [0..<Size])"

abbreviation AsciiBasedCharSet :: "(wchar \<times> wchar) list \<Rightarrow> wstring" where "AsciiBasedCharSet \<equiv> CharSet 0x20 95"
abbreviation Latin1BasedCharSet94 :: "(wchar \<times> wchar) list \<Rightarrow> wstring" where "Latin1BasedCharSet94 \<equiv> CharSet 0xA0 95"
abbreviation Latin1BasedCharSet96 :: "(wchar \<times> wchar) list \<Rightarrow> wstring" where "Latin1BasedCharSet96 \<equiv> CharSet 0xA0 96"

definition Ascii :: wstring where
  "Ascii = AsciiBasedCharSet []"

definition Latin1 :: wstring where
  "Latin1 = Latin1BasedCharSet96 []"

definition Latin2 :: wstring where
  "Latin2 = Latin1BasedCharSet96
     [(0xA1, 0x0104), (0xA2, 0x02D8), (0xA3, 0x0141), (0xA5, 0x013D), (0xA6, 0x015A), (0xA9, 0x0160),
      (0xAA, 0x015E), (0xAB, 0x0164), (0xAC, 0x0179), (0xAE, 0x017D), (0xAF, 0x017B), (0xB1, 0x0105),
      (0xB2, 0x02DB), (0xB3, 0x0142), (0xB5, 0x013E), (0xB6, 0x015B), (0xB7, 0x02C7), (0xB9, 0x0161),
      (0xBA, 0x015F), (0xBB, 0x0165), (0xBC, 0x017A), (0xBD, 0x02DD), (0xBE, 0x017E), (0xBF, 0x017C),
      (0xC0, 0x0154), (0xC3, 0x0102), (0xC5, 0x0139), (0xC6, 0x0106), (0xC8, 0x010C), (0xCA, 0x0118),
      (0xCC, 0x011A), (0xCF, 0x010E), (0xD0, 0x0110), (0xD1, 0x0143), (0xD2, 0x0147), (0xD5, 0x0150),
      (0xD8, 0x0158), (0xD9, 0x016E), (0xDB, 0x0170), (0xDE, 0x0162), (0xE0, 0x0155), (0xE3, 0x0103),
      (0xE5, 0x013A), (0xE6, 0x0107), (0xE8, 0x010D), (0xEA, 0x0119), (0xEC, 0x011B), (0xEF, 0x010F),
      (0xF0, 0x0111), (0xF1, 0x0144), (0xF2, 0x0148), (0xF5, 0x0151), (0xF8, 0x0159), (0xF9, 0x016F),
      (0xFB, 0x0171), (0xFE, 0x0163), (0xFF, 0x02D9)]"

definition LatinCyrillic :: wstring where
  "LatinCyrillic = Latin1BasedCharSet96
     [(0xA1, 0x0401), (0xA2, 0x0402), (0xA3, 0x0403), (0xA4, 0x0404), (0xA5, 0x0405), (0xA6, 0x0406),
      (0xA7, 0x0407), (0xA8, 0x0408), (0xA9, 0x0409), (0xAA, 0x040A), (0xAB, 0x040B), (0xAC, 0x040C),
      (0xAE, 0x040E), (0xAF, 0x040F), (0xB0, 0x0410), (0xB1, 0x0411), (0xB2, 0x0412), (0xB3, 0x0413),
      (0xB4, 0x0414), (0xB5, 0x0415), (0xB6, 0x0416), (0xB7, 0x0417), (0xB8, 0x0418), (0xB9, 0x0419),
      (0xBA, 0x041A), (0xBB, 0x041B), (0xBC, 0x041C), (0xBD, 0x041D), (0xBE, 0x041E), (0xBF, 0x041F),
      (0xC0, 0x0420), (0xC1, 0x0421), (0xC2, 0x0422), (0xC3, 0x0423), (0xC4, 0x0424), (0xC5, 0x0425),
      (0xC6, 0x0426), (0xC7, 0x0427), (0xC8, 0x0428), (0xC9, 0x0429), (0xCA, 0x042A), (0xCB, 0x042B),
      (0xCC, 0x042C), (0xCD, 0x042D), (0xCE, 0x042E), (0xCF, 0x042F), (0xD0, 0x0430), (0xD1, 0x0431),
      (0xD2, 0x0432), (0xD3, 0x0433), (0xD4, 0x0434), (0xD5, 0x0435), (0xD6, 0x0436), (0xD7, 0x0437),
      (0xD8, 0x0438), (0xD9, 0x0439), (0xDA, 0x043A), (0xDB, 0x043B), (0xDC, 0x043C), (0xDD, 0x043D),
      (0xDE, 0x043E), (0xDF, 0x043F), (0xE0, 0x0440), (0xE1, 0x0441), (0xE2, 0x0442), (0xE3, 0x0443),
      (0xE4, 0x0444), (0xE5, 0x0445), (0xE6, 0x0446), (0xE7, 0x0447), (0xE8, 0x0448), (0xE9, 0x0449),
      (0xEA, 0x044A), (0xEB, 0x044B), (0xEC, 0x044C), (0xED, 0x044D), (0xEE, 0x044E), (0xEF, 0x044F),
      (0xF0, 0x2116), (0xF1, 0x0451), (0xF2, 0x0452), (0xF3, 0x0453), (0xF4, 0x0454), (0xF5, 0x0455),
      (0xF6, 0x0456), (0xF7, 0x0457), (0xF8, 0x0458), (0xF9, 0x0459), (0xFA, 0x045A), (0xFB, 0x045B),
      (0xFC, 0x045C), (0xFD, 0x00A7), (0xFE, 0x045E), (0xFF, 0x045F)]"

definition LatinGreek :: wstring where
  "LatinGreek = Latin1BasedCharSet96
     [(0xA1, 0x2018), (0xA2, 0x2019), (0xA4, 0x2426), (0xA5, 0x2426), (0xAA, 0x2426), (0xAE, 0x2426),
      (0xAF, 0x2015), (0xB4, 0x0384), (0xB5, 0x0385), (0xB6, 0x0386), (0xB8, 0x0388), (0xB9, 0x0389),
      (0xBA, 0x038A), (0xBC, 0x038C), (0xBE, 0x038E), (0xBF, 0x038F), (0xC0, 0x0390), (0xC1, 0x0391),
      (0xC2, 0x0392), (0xC3, 0x0393), (0xC4, 0x0394), (0xC5, 0x0395), (0xC6, 0x0396), (0xC7, 0x0397),
      (0xC8, 0x0398), (0xC9, 0x0399), (0xCA, 0x039A), (0xCB, 0x039B), (0xCC, 0x039C), (0xCD, 0x039D),
      (0xCE, 0x039E), (0xCF, 0x039F), (0xD0, 0x03A0), (0xD1, 0x03A1), (0xD2, 0x2426), (0xD3, 0x03A3),
      (0xD4, 0x03A4), (0xD5, 0x03A5), (0xD6, 0x03A6), (0xD7, 0x03A7), (0xD8, 0x03A8), (0xD9, 0x03A9),
      (0xDA, 0x03AA), (0xDB, 0x03AB), (0xDC, 0x03AC), (0xDD, 0x03AD), (0xDE, 0x03AE), (0xDF, 0x03AF),
      (0xE0, 0x03B0), (0xE1, 0x03B1), (0xE2, 0x03B2), (0xE3, 0x03B3), (0xE4, 0x03B4), (0xE5, 0x03B5),
      (0xE6, 0x03B6), (0xE7, 0x03B7), (0xE8, 0x03B8), (0xE9, 0x03B9), (0xEA, 0x03BA), (0xEB, 0x03BB),
      (0xEC, 0x03BC), (0xED, 0x03BD), (0xEE, 0x03BE), (0xEF, 0x03BF), (0xF0, 0x03C0), (0xF1, 0x03C1),
      (0xF2, 0x03C2), (0xF3, 0x03C3), (0xF4, 0x03C4), (0xF5, 0x03C5), (0xF6, 0x03C6), (0xF7, 0x03C7),
      (0xF8, 0x03C8), (0xF9, 0x03C9), (0xFA, 0x03CA), (0xFB, 0x03CB), (0xFC, 0x03CC), (0xFD, 0x03CD),
      (0xFE, 0x03CE), (0xFF, 0x2426)]"

definition LatinHebrew :: wstring where
  "LatinHebrew = Latin1BasedCharSet96
     [(0xA1, 0x2426), (0xAA, 0x00D7), (0xBA, 0x00F7), (0xBF, 0x2426), (0xC0, 0x2426), (0xC1, 0x2426),
      (0xC2, 0x2426), (0xC3, 0x2426), (0xC4, 0x2426), (0xC5, 0x2426), (0xC6, 0x2426), (0xC7, 0x2426),
      (0xC8, 0x2426), (0xC9, 0x2426), (0xCA, 0x2426), (0xCB, 0x2426), (0xCC, 0x2426), (0xCD, 0x2426),
      (0xCE, 0x2426), (0xCF, 0x2426), (0xD0, 0x2426), (0xD1, 0x2426), (0xD2, 0x2426), (0xD3, 0x2426),
      (0xD4, 0x2426), (0xD5, 0x2426), (0xD6, 0x2426), (0xD7, 0x2426), (0xD8, 0x2426), (0xD9, 0x2426),
      (0xDA, 0x2426), (0xDB, 0x2426), (0xDC, 0x2426), (0xDD, 0x2426), (0xDE, 0x2426), (0xDF, 0x2017),
      (0xE0, 0x05D0), (0xE1, 0x05D1), (0xE2, 0x05D2), (0xE3, 0x05D3), (0xE4, 0x05D4), (0xE5, 0x05D5),
      (0xE6, 0x05D6), (0xE7, 0x05D7), (0xE8, 0x05D8), (0xE9, 0x05D9), (0xEA, 0x05DA), (0xEB, 0x05DB),
      (0xEC, 0x05DC), (0xED, 0x05DD), (0xEE, 0x05DE), (0xEF, 0x05DF), (0xF0, 0x05E0), (0xF1, 0x05E1),
      (0xF2, 0x05E2), (0xF3, 0x05E3), (0xF4, 0x05E4), (0xF5, 0x05E5), (0xF6, 0x05E6), (0xF7, 0x05E7),
      (0xF8, 0x05E8), (0xF9, 0x05E9), (0xFA, 0x05EA), (0xFB, 0x2426), (0xFC, 0x2426), (0xFD, 0x200E),
      (0xFE, 0x200F), (0xFF, 0x2426)]"

definition Latin5 :: wstring where
  "Latin5 = Latin1BasedCharSet96
     [(0xD0, 0x011E), (0xDD, 0x0130), (0xDE, 0x015E), (0xF0, 0x011F), (0xFD, 0x0131), (0xFE, 0x015F)]"

definition DecSupplemental :: wstring where
  "DecSupplemental = Latin1BasedCharSet94
     [(0xA4, 0x2426), (0xA6, 0x2426), (0xA8, 0x00A4), (0xAC, 0x2426), (0xAD, 0x2426), (0xAE, 0x2426),
      (0xAF, 0x2426), (0xB4, 0x2426), (0xB8, 0x2426), (0xBE, 0x2426), (0xD0, 0x2426), (0xD7, 0x0152),
      (0xDD, 0x0178), (0xDE, 0x2426), (0xF0, 0x2426), (0xF7, 0x0153), (0xFD, 0x00FF), (0xFE, 0x2426)]"

definition DecSpecialGraphics :: wstring where
  "DecSpecialGraphics = AsciiBasedCharSet
     [(0x5F, 0x0020), (0x60, 0x2666), (0x61, 0x2592), (0x62, 0x2409), (0x63, 0x240C), (0x64, 0x240D),
      (0x65, 0x240A), (0x66, 0x00B0), (0x67, 0x00B1), (0x68, 0x2424), (0x69, 0x240B), (0x6A, 0x2518),
      (0x6B, 0x2510), (0x6C, 0x250C), (0x6D, 0x2514), (0x6E, 0x253C), (0x6F, 0x23BA), (0x70, 0x23BB),
      (0x71, 0x2500), (0x72, 0x23BC), (0x73, 0x23BD), (0x74, 0x251C), (0x75, 0x2524), (0x76, 0x2534),
      (0x77, 0x252C), (0x78, 0x2502), (0x79, 0x2264), (0x7A, 0x2265), (0x7B, 0x03C0), (0x7C, 0x2260),
      (0x7D, 0x00A3), (0x7E, 0x00B7)]"

definition DecCyrillic :: wstring where
  "DecCyrillic = Latin1BasedCharSet94
     [(0xA1, 0x2426), (0xA2, 0x2426), (0xA3, 0x2426), (0xA4, 0x2426), (0xA5, 0x2426), (0xA6, 0x2426),
      (0xA7, 0x2426), (0xA8, 0x2426), (0xA9, 0x2426), (0xAA, 0x2426), (0xAB, 0x2426), (0xAC, 0x2426),
      (0xAD, 0x2426), (0xAE, 0x2426), (0xAF, 0x2426), (0xB0, 0x2426), (0xB1, 0x2426), (0xB2, 0x2426),
      (0xB3, 0x2426), (0xB4, 0x2426), (0xB5, 0x2426), (0xB6, 0x2426), (0xB7, 0x2426), (0xB8, 0x2426),
      (0xB9, 0x2426), (0xBA, 0x2426), (0xBB, 0x2426), (0xBC, 0x2426), (0xBD, 0x2426), (0xBE, 0x2426),
      (0xBF, 0x2426), (0xC0, 0x044E), (0xC1, 0x0430), (0xC2, 0x0431), (0xC3, 0x0446), (0xC4, 0x0434),
      (0xC5, 0x0435), (0xC6, 0x0444), (0xC7, 0x0433), (0xC8, 0x0445), (0xC9, 0x0438), (0xCA, 0x0439),
      (0xCB, 0x043A), (0xCC, 0x043B), (0xCD, 0x043C), (0xCE, 0x043D), (0xCF, 0x043E), (0xD0, 0x043F),
      (0xD1, 0x044F), (0xD2, 0x0440), (0xD3, 0x0441), (0xD4, 0x0442), (0xD5, 0x0443), (0xD6, 0x0436),
      (0xD7, 0x0432), (0xD8, 0x044C), (0xD9, 0x044B), (0xDA, 0x0437), (0xDB, 0x0448), (0xDC, 0x044D),
      (0xDD, 0x0449), (0xDE, 0x0447), (0xDF, 0x044A), (0xE0, 0x042E), (0xE1, 0x0410), (0xE2, 0x0411),
      (0xE3, 0x0426), (0xE4, 0x0414), (0xE5, 0x0415), (0xE6, 0x0424), (0xE7, 0x0413), (0xE8, 0x0425),
      (0xE9, 0x0418), (0xEA, 0x0419), (0xEB, 0x041A), (0xEC, 0x041B), (0xED, 0x041C), (0xEE, 0x041D),
      (0xEF, 0x041E), (0xF0, 0x041F), (0xF1, 0x042F), (0xF2, 0x0420), (0xF3, 0x0421), (0xF4, 0x0422),
      (0xF5, 0x0423), (0xF6, 0x0416), (0xF7, 0x0412), (0xF8, 0x042C), (0xF9, 0x042B), (0xFA, 0x0417),
      (0xFB, 0x0428), (0xFC, 0x042D), (0xFD, 0x0429), (0xFE, 0x0427)]"

definition DecGreek :: wstring where
  "DecGreek = Latin1BasedCharSet94
     [(0xA4, 0x2426), (0xA6, 0x2426), (0xA8, 0x00A4), (0xAC, 0x2426), (0xAD, 0x2426), (0xAE, 0x2426),
      (0xAF, 0x2426), (0xB4, 0x2426), (0xB8, 0x2426), (0xBE, 0x2426), (0xC0, 0x03CA), (0xC1, 0x0391),
      (0xC2, 0x0392), (0xC3, 0x0393), (0xC4, 0x0394), (0xC5, 0x0395), (0xC6, 0x0396), (0xC7, 0x0397),
      (0xC8, 0x0398), (0xC9, 0x0399), (0xCA, 0x039A), (0xCB, 0x039B), (0xCC, 0x039C), (0xCD, 0x039D),
      (0xCE, 0x039E), (0xCF, 0x039F), (0xD0, 0x2426), (0xD1, 0x03A0), (0xD2, 0x03A1), (0xD3, 0x03A3),
      (0xD4, 0x03A4), (0xD5, 0x03A5), (0xD6, 0x03A6), (0xD7, 0x03A7), (0xD8, 0x03A8), (0xD9, 0x03A9),
      (0xDA, 0x03AC), (0xDB, 0x03AD), (0xDC, 0x03AE), (0xDD, 0x03AF), (0xDE, 0x2426), (0xDF, 0x03CC),
      (0xE0, 0x03CB), (0xE1, 0x03B1), (0xE2, 0x03B2), (0xE3, 0x03B3), (0xE4, 0x03B4), (0xE5, 0x03B5),
      (0xE6, 0x03B6), (0xE7, 0x03B7), (0xE8, 0x03B8), (0xE9, 0x03B9), (0xEA, 0x03BA), (0xEB, 0x03BB),
      (0xEC, 0x03BC), (0xED, 0x03BD), (0xEE, 0x03BE), (0xEF, 0x03BF), (0xF0, 0x2426), (0xF1, 0x03C0),
      (0xF2, 0x03C1), (0xF3, 0x03C3), (0xF4, 0x03C4), (0xF5, 0x03C5), (0xF6, 0x03C6), (0xF7, 0x03C7),
      (0xF8, 0x03C8), (0xF9, 0x03C9), (0xFA, 0x03C2), (0xFB, 0x03CD), (0xFC, 0x03CE), (0xFD, 0x0384),
      (0xFE, 0x2426)]"

definition DecHebrew :: wstring where
  "DecHebrew = Latin1BasedCharSet94
     [(0xA4, 0x2426), (0xA6, 0x2426), (0xA8, 0x00A4), (0xAC, 0x2426), (0xAD, 0x2426), (0xAE, 0x2426),
      (0xAF, 0x2426), (0xB4, 0x2426), (0xB8, 0x2426), (0xBE, 0x2426), (0xC0, 0x2426), (0xC1, 0x2426),
      (0xC2, 0x2426), (0xC3, 0x2426), (0xC4, 0x2426), (0xC5, 0x2426), (0xC6, 0x2426), (0xC7, 0x2426),
      (0xC8, 0x2426), (0xC9, 0x2426), (0xCA, 0x2426), (0xCB, 0x2426), (0xCC, 0x2426), (0xCD, 0x2426),
      (0xCE, 0x2426), (0xCF, 0x2426), (0xD0, 0x2426), (0xD1, 0x2426), (0xD2, 0x2426), (0xD3, 0x2426),
      (0xD4, 0x2426), (0xD5, 0x2426), (0xD6, 0x2426), (0xD7, 0x2426), (0xD8, 0x2426), (0xD9, 0x2426),
      (0xDA, 0x2426), (0xDB, 0x2426), (0xDC, 0x2426), (0xDD, 0x2426), (0xDE, 0x2426), (0xDF, 0x2426),
      (0xE0, 0x05D0), (0xE1, 0x05D1), (0xE2, 0x05D2), (0xE3, 0x05D3), (0xE4, 0x05D4), (0xE5, 0x05D5),
      (0xE6, 0x05D6), (0xE7, 0x05D7), (0xE8, 0x05D8), (0xE9, 0x05D9), (0xEA, 0x05DA), (0xEB, 0x05DB),
      (0xEC, 0x05DC), (0xED, 0x05DD), (0xEE, 0x05DE), (0xEF, 0x05DF), (0xF0, 0x05E0), (0xF1, 0x05E1),
      (0xF2, 0x05E2), (0xF3, 0x05E3), (0xF4, 0x05E4), (0xF5, 0x05E5), (0xF6, 0x05E6), (0xF7, 0x05E7),
      (0xF8, 0x05E8), (0xF9, 0x05E9), (0xFA, 0x05EA), (0xFB, 0x2426), (0xFC, 0x2426), (0xFD, 0x2426),
      (0xFE, 0x2426)]"

definition DecTurkish :: wstring where
  "DecTurkish = Latin1BasedCharSet94
     [(0xA4, 0x2426), (0xA6, 0x2426), (0xA8, 0x00A4), (0xAC, 0x2426), (0xAD, 0x2426), (0xAE, 0x0130),
      (0xAF, 0x2426), (0xB4, 0x2426), (0xB8, 0x2426), (0xBE, 0x0131), (0xD0, 0x011E), (0xD7, 0x0152),
      (0xDD, 0x0178), (0xDE, 0x015E), (0xF0, 0x011F), (0xF7, 0x0153), (0xFD, 0x00FF), (0xFE, 0x015F)]"

definition BritishNrcs :: wstring where
  "BritishNrcs = AsciiBasedCharSet
     [(0x23, 0x00A3)]"

definition DutchNrcs :: wstring where
  "DutchNrcs = AsciiBasedCharSet
     [(0x23, 0x00A3), (0x40, 0x00BE), (0x5B, 0x0133), (0x5C, 0x00BD), (0x5D, 0x007C), (0x7B, 0x00A8),
      (0x7C, 0x0192), (0x7D, 0x00BC), (0x7E, 0x00B4)]"

definition FinnishNrcs :: wstring where
  "FinnishNrcs = AsciiBasedCharSet
     [(0x5B, 0x00C4), (0x5C, 0x00D6), (0x5D, 0x00C5), (0x5E, 0x00DC), (0x60, 0x00E9), (0x7B, 0x00E4),
      (0x7C, 0x00F6), (0x7D, 0x00E5), (0x7E, 0x00FC)]"

definition FrenchNrcs :: wstring where
  "FrenchNrcs = AsciiBasedCharSet
     [(0x23, 0x00A3), (0x40, 0x00E0), (0x5B, 0x00B0), (0x5C, 0x00E7), (0x5D, 0x00A7), (0x7B, 0x00E9),
      (0x7C, 0x00F9), (0x7D, 0x00E8), (0x7E, 0x00A8)]"

definition FrenchNrcsIso :: wstring where
  "FrenchNrcsIso = AsciiBasedCharSet
     [(0x23, 0x00A3), (0x40, 0x00E0), (0x5B, 0x00B0), (0x5C, 0x00E7), (0x5D, 0x00A7), (0x60, 0x00B5),
      (0x7B, 0x00E9), (0x7C, 0x00F9), (0x7D, 0x00E8), (0x7E, 0x00A8)]"

definition FrenchCanadianNrcs :: wstring where
  "FrenchCanadianNrcs = AsciiBasedCharSet
     [(0x40, 0x00E0), (0x5B, 0x00E2), (0x5C, 0x00E7), (0x5D, 0x00EA), (0x5E, 0x00EE), (0x60, 0x00F4),
      (0x7B, 0x00E9), (0x7C, 0x00F9), (0x7D, 0x00E8), (0x7E, 0x00FB)]"

definition GermanNrcs :: wstring where
  "GermanNrcs = AsciiBasedCharSet
     [(0x40, 0x00A7), (0x5B, 0x00C4), (0x5C, 0x00D6), (0x5D, 0x00DC), (0x7B, 0x00E4), (0x7C, 0x00F6),
      (0x7D, 0x00FC), (0x7E, 0x00DF)]"

definition GreekNrcs :: wstring where
  "GreekNrcs = AsciiBasedCharSet
     [(0x40, 0x03CA), (0x41, 0x0391), (0x42, 0x0392), (0x43, 0x0393), (0x44, 0x0394), (0x45, 0x0395),
      (0x46, 0x0396), (0x47, 0x0397), (0x48, 0x0398), (0x49, 0x0399), (0x4A, 0x039A), (0x4B, 0x039B),
      (0x4C, 0x039C), (0x4D, 0x039D), (0x4E, 0x039E), (0x4F, 0x039F), (0x50, 0x2426), (0x51, 0x03A0),
      (0x52, 0x03A1), (0x53, 0x03A3), (0x54, 0x03A4), (0x55, 0x03A5), (0x56, 0x03A6), (0x57, 0x03A7),
      (0x58, 0x03A8), (0x59, 0x03A9), (0x5A, 0x03AC), (0x5B, 0x03AD), (0x5C, 0x03AE), (0x5D, 0x03AF),
      (0x5E, 0x2426), (0x5F, 0x03CC), (0x60, 0x03CB), (0x61, 0x03B1), (0x62, 0x03B2), (0x63, 0x03B3),
      (0x64, 0x03B4), (0x65, 0x03B5), (0x66, 0x03B6), (0x67, 0x03B7), (0x68, 0x03B8), (0x69, 0x03B9),
      (0x6A, 0x03BA), (0x6B, 0x03BB), (0x6C, 0x03BC), (0x6D, 0x03BD), (0x6E, 0x03BE), (0x6F, 0x03BF),
      (0x70, 0x2426), (0x71, 0x03C0), (0x72, 0x03C1), (0x73, 0x03C3), (0x74, 0x03C4), (0x75, 0x03C5),
      (0x76, 0x03C6), (0x77, 0x03C7), (0x78, 0x03C8), (0x79, 0x03C9), (0x7A, 0x03C2), (0x7B, 0x03CD),
      (0x7C, 0x03CE), (0x7D, 0x0384), (0x7E, 0x2426)]"

definition HebrewNrcs :: wstring where
  "HebrewNrcs = AsciiBasedCharSet
     [(0x60, 0x05D0), (0x61, 0x05D1), (0x62, 0x05D2), (0x63, 0x05D3), (0x64, 0x05D4), (0x65, 0x05D5),
      (0x66, 0x05D6), (0x67, 0x05D7), (0x68, 0x05D8), (0x69, 0x05D9), (0x6A, 0x05DA), (0x6B, 0x05DB),
      (0x6C, 0x05DC), (0x6D, 0x05DD), (0x6E, 0x05DE), (0x6F, 0x05DF), (0x70, 0x05E0), (0x71, 0x05E1),
      (0x72, 0x05E2), (0x73, 0x05E3), (0x74, 0x05E4), (0x75, 0x05E5), (0x76, 0x05E6), (0x77, 0x05E7),
      (0x78, 0x05E8), (0x79, 0x05E9), (0x7A, 0x05EA)]"

definition ItalianNrcs :: wstring where
  "ItalianNrcs = AsciiBasedCharSet
     [(0x23, 0x00A3), (0x40, 0x00A7), (0x5B, 0x00B0), (0x5C, 0x00E7), (0x5D, 0x00E9), (0x60, 0x00F9),
      (0x7B, 0x00E0), (0x7C, 0x00F2), (0x7D, 0x00E8), (0x7E, 0x00EC)]"

definition NorwegianDanishNrcs :: wstring where
  "NorwegianDanishNrcs = AsciiBasedCharSet
     [(0x40, 0x00C4), (0x5B, 0x00C6), (0x5C, 0x00D8), (0x5D, 0x00C5), (0x5E, 0x00DC), (0x60, 0x00E4),
      (0x7B, 0x00E6), (0x7C, 0x00F8), (0x7D, 0x00E5), (0x7E, 0x00FC)]"

definition NorwegianDanishNrcsIso :: wstring where
  "NorwegianDanishNrcsIso = AsciiBasedCharSet
     [(0x5B, 0x00C6), (0x5C, 0x00D8), (0x5D, 0x00C5), (0x7B, 0x00E6), (0x7C, 0x00F8), (0x7D, 0x00E5)]"

definition PortugueseNrcs :: wstring where
  "PortugueseNrcs = AsciiBasedCharSet
     [(0x5B, 0x00C3), (0x5C, 0x00C7), (0x5D, 0x00D5), (0x7B, 0x00E3), (0x7C, 0x00E7), (0x7D, 0x00F5)]"

definition RussianNrcs :: wstring where
  "RussianNrcs = AsciiBasedCharSet
     [(0x60, 0x042E), (0x61, 0x0410), (0x62, 0x0411), (0x63, 0x0426), (0x64, 0x0414), (0x65, 0x0415),
      (0x66, 0x0424), (0x67, 0x0413), (0x68, 0x0425), (0x69, 0x0418), (0x6A, 0x0419), (0x6B, 0x041A),
      (0x6C, 0x041B), (0x6D, 0x041C), (0x6E, 0x041D), (0x6F, 0x041E), (0x70, 0x041F), (0x71, 0x042F),
      (0x72, 0x0420), (0x73, 0x0421), (0x74, 0x0422), (0x75, 0x0423), (0x76, 0x0416), (0x77, 0x0412),
      (0x78, 0x042C), (0x79, 0x042B), (0x7A, 0x0417), (0x7B, 0x0428), (0x7C, 0x042D), (0x7D, 0x0429),
      (0x7E, 0x0427)]"

definition SpanishNrcs :: wstring where
  "SpanishNrcs = AsciiBasedCharSet
     [(0x23, 0x00A3), (0x40, 0x00A7), (0x5B, 0x00A1), (0x5C, 0x00D1), (0x5D, 0x00BF), (0x7B, 0x00B0),
      (0x7C, 0x00F1), (0x7D, 0x00E7)]"

definition SwedishNrcs :: wstring where
  "SwedishNrcs = AsciiBasedCharSet
     [(0x40, 0x00C9), (0x5B, 0x00C4), (0x5C, 0x00D6), (0x5D, 0x00C5), (0x5E, 0x00DC), (0x60, 0x00E9),
      (0x7B, 0x00E4), (0x7C, 0x00F6), (0x7D, 0x00E5), (0x7E, 0x00FC)]"

definition SwissNrcs :: wstring where
  "SwissNrcs = AsciiBasedCharSet
     [(0x23, 0x00F9), (0x40, 0x00E0), (0x5B, 0x00E9), (0x5C, 0x00E7), (0x5D, 0x00EA), (0x5E, 0x00EE),
      (0x5F, 0x00E8), (0x60, 0x00F4), (0x7B, 0x00E4), (0x7C, 0x00F6), (0x7D, 0x00FC), (0x7E, 0x00FB)]"

definition TurkishNrcs :: wstring where
  "TurkishNrcs = AsciiBasedCharSet
     [(0x21, 0x0131), (0x26, 0x011F), (0x40, 0x0130), (0x5B, 0x015E), (0x5C, 0x00D6), (0x5D, 0x00C7),
      (0x5E, 0x00DC), (0x60, 0x011E), (0x7B, 0x015F), (0x7C, 0x00F6), (0x7D, 0x00E7), (0x7E, 0x00FC)]"

abbreviation DRCS_BASE_CHAR :: wchar where "DRCS_BASE_CHAR \<equiv> 0xEF20"

definition Drcs94 :: wstring where
  "Drcs94 = CharSet DRCS_BASE_CHAR 95 [(DRCS_BASE_CHAR, 0x20)]"

definition Drcs96 :: wstring where
  "Drcs96 = CharSet DRCS_BASE_CHAR 96 []"

datatype CharSetName = Cs_Ascii | Cs_Latin1 | Cs_Latin2 | Cs_LatinCyrillic | Cs_LatinGreek | Cs_LatinHebrew
  | Cs_Latin5 | Cs_DecSupplemental | Cs_DecSpecialGraphics | Cs_DecCyrillic | Cs_DecGreek | Cs_DecHebrew
  | Cs_DecTurkish | Cs_BritishNrcs | Cs_DutchNrcs | Cs_FinnishNrcs | Cs_FrenchNrcs | Cs_FrenchNrcsIso
  | Cs_FrenchCanadianNrcs | Cs_GermanNrcs | Cs_GreekNrcs | Cs_HebrewNrcs | Cs_ItalianNrcs | Cs_NorwegianDanishNrcs
  | Cs_NorwegianDanishNrcsIso | Cs_PortugueseNrcs | Cs_RussianNrcs | Cs_SpanishNrcs | Cs_SwedishNrcs | Cs_SwissNrcs
  | Cs_TurkishNrcs | Cs_Drcs94 | Cs_Drcs96

fun translation_table :: "CharSetName \<Rightarrow> wstring" where
  "translation_table Cs_Ascii = Ascii"
| "translation_table Cs_Latin1 = Latin1"
| "translation_table Cs_Latin2 = Latin2"
| "translation_table Cs_LatinCyrillic = LatinCyrillic"
| "translation_table Cs_LatinGreek = LatinGreek"
| "translation_table Cs_LatinHebrew = LatinHebrew"
| "translation_table Cs_Latin5 = Latin5"
| "translation_table Cs_DecSupplemental = DecSupplemental"
| "translation_table Cs_DecSpecialGraphics = DecSpecialGraphics"
| "translation_table Cs_DecCyrillic = DecCyrillic"
| "translation_table Cs_DecGreek = DecGreek"
| "translation_table Cs_DecHebrew = DecHebrew"
| "translation_table Cs_DecTurkish = DecTurkish"
| "translation_table Cs_BritishNrcs = BritishNrcs"
| "translation_table Cs_DutchNrcs = DutchNrcs"
| "translation_table Cs_FinnishNrcs = FinnishNrcs"
| "translation_table Cs_FrenchNrcs = FrenchNrcs"
| "translation_table Cs_FrenchNrcsIso = FrenchNrcsIso"
| "translation_table Cs_FrenchCanadianNrcs = FrenchCanadianNrcs"
| "translation_table Cs_GermanNrcs = GermanNrcs"
| "translation_table Cs_GreekNrcs = GreekNrcs"
| "translation_table Cs_HebrewNrcs = HebrewNrcs"
| "translation_table Cs_ItalianNrcs = ItalianNrcs"
| "translation_table Cs_NorwegianDanishNrcs = NorwegianDanishNrcs"
| "translation_table Cs_NorwegianDanishNrcsIso = NorwegianDanishNrcsIso"
| "translation_table Cs_PortugueseNrcs = PortugueseNrcs"
| "translation_table Cs_RussianNrcs = RussianNrcs"
| "translation_table Cs_SpanishNrcs = SpanishNrcs"
| "translation_table Cs_SwedishNrcs = SwedishNrcs"
| "translation_table Cs_SwissNrcs = SwissNrcs"
| "translation_table Cs_TurkishNrcs = TurkishNrcs"
| "translation_table Cs_Drcs94 = Drcs94"
| "translation_table Cs_Drcs96 = Drcs96"

subsection \<open>The tables\<close>

lemma length_fold_update: "length (fold (\<lambda>(a, b) t. t[f a := b]) rs t) = length t"
  by (induction rs arbitrary: t) auto

lemma length_CharSet [simp]: "length (CharSet b n rs) = n"
  by (simp add: CharSet_def length_fold_update)

lemma length_translation_table: "length (translation_table n) \<in> {95, 96}"
  by (cases n) (simp_all add: Ascii_def Latin1_def Latin2_def LatinCyrillic_def LatinGreek_def LatinHebrew_def Latin5_def DecSupplemental_def DecSpecialGraphics_def DecCyrillic_def DecGreek_def DecHebrew_def DecTurkish_def BritishNrcs_def DutchNrcs_def FinnishNrcs_def FrenchNrcs_def FrenchNrcsIso_def FrenchCanadianNrcs_def GermanNrcs_def GreekNrcs_def HebrewNrcs_def ItalianNrcs_def NorwegianDanishNrcs_def NorwegianDanishNrcsIso_def PortugueseNrcs_def RussianNrcs_def SpanishNrcs_def SwedishNrcs_def SwissNrcs_def TurkishNrcs_def Drcs94_def Drcs96_def)

lemma nth_CharSet_base: "i < n \<Longrightarrow> CharSet b n [] ! i = b + of_nat i"
  by (simp add: CharSet_def)

text \<open>No entry of a table is a control character.\<close>

definition control_char :: "wchar \<Rightarrow> bool" where
  "control_char c \<longleftrightarrow> c < 0x20 \<or> (0x7F \<le> c \<and> c \<le> 0x9F)"

lemma list_all_fold_update:
  "list_all P t \<Longrightarrow> list_all (\<lambda>(a, b). P b) rs \<Longrightarrow> list_all P (fold (\<lambda>(a, b) t. t[f a := b]) rs t)"
proof (induction rs arbitrary: t)
  case (Cons r rs)
  obtain a b where r: "r = (a, b)" by (cases r)
  have "list_all P (t[f a := b])"
    using Cons.prems set_update_subset_insert [of t "f a" b] by (auto simp: r list_all_iff)
  then show ?case using Cons by (simp add: r)
qed simp

lemma list_all_CharSet:
  assumes "list_all P (map (\<lambda>i. b + of_nat i) [0..<n])" and "list_all (\<lambda>(a, r). P r) rs"
  shows "list_all P (CharSet b n rs)"
  unfolding CharSet_def using assms by (rule list_all_fold_update)

lemma base_no_controls:
  "list_all (\<lambda>c. \<not> control_char c) (map (\<lambda>i. 0x20 + of_nat i) [0..<95])"
  "list_all (\<lambda>c. \<not> control_char c) (map (\<lambda>i. 0xA0 + of_nat i) [0..<95])"
  "list_all (\<lambda>c. \<not> control_char c) (map (\<lambda>i. 0xA0 + of_nat i) [0..<96])"
  "list_all (\<lambda>c. \<not> control_char c) (map (\<lambda>i. DRCS_BASE_CHAR + of_nat i) [0..<95])"
  "list_all (\<lambda>c. \<not> control_char c) (map (\<lambda>i. DRCS_BASE_CHAR + of_nat i) [0..<96])"
  by code_simp+

lemma translation_table_no_controls: "list_all (\<lambda>c. \<not> control_char c) (translation_table n)"
  by (cases n; simp only: translation_table.simps Ascii_def Latin1_def Latin2_def LatinCyrillic_def LatinGreek_def LatinHebrew_def Latin5_def DecSupplemental_def DecSpecialGraphics_def DecCyrillic_def DecGreek_def DecHebrew_def DecTurkish_def BritishNrcs_def DutchNrcs_def FinnishNrcs_def FrenchNrcs_def FrenchNrcsIso_def FrenchCanadianNrcs_def GermanNrcs_def GreekNrcs_def HebrewNrcs_def ItalianNrcs_def NorwegianDanishNrcs_def NorwegianDanishNrcsIso_def PortugueseNrcs_def RussianNrcs_def SpanishNrcs_def SwedishNrcs_def SwissNrcs_def TurkishNrcs_def Drcs94_def Drcs96_def;
      rule list_all_CharSet; (rule base_no_controls)?)
    (simp_all add: control_char_def)

end
