(* ===== verification/Terminal_Output.thy ===== *)
theory Terminal_Output
  imports Char_Sets Vt_Types
begin

text \<open>
  The character sets in use, \<open>TerminalOutput\<close> of \<open>src/src/terminal/adapter/terminalOutput.cpp\<close>: four designated sets
  \<open>G0\<close> to \<open>G3\<close>, of which one is shifted into the left half of the code table (\<open>GL\<close>), one into the right half (\<open>GR\<close>),
  and one may be shifted in for a single character.

  The tables of \<open>GL\<close> and \<open>GR\<close> are kept next to the numbers of their sets, and are empty where nothing is to be translated;
  an empty view is \<open>None\<close>. \<open>at\<close> of an array throws for an index above 3: an operation returns the state it leaves and
  whether it came to its end.

  The theorems compare this with the code table of ISO 2022, computed anew for each character, and show what a saved
  state does to it.
\<close>

subsection \<open>State and operations\<close>

record TerminalOutput =
  to_upssId :: VTID
  to_upssTranslationTable :: CharSetName
  to_gsetTranslationTables :: "CharSetName list"
  to_gsetIds :: "VTID list"
  to_glSetNumber :: nat
  to_grSetNumber :: nat
  to_glTranslationTable :: "CharSetName option"
  to_grTranslationTable :: "CharSetName option"
  to_ssSetNumber :: nat
  to_grTranslationEnabled :: bool
  to_drcsId :: VTID
  to_drcsTranslationTable :: "CharSetName option"

abbreviation VTID_of :: "string \<Rightarrow> VTID" where "VTID_of \<equiv> VTID_FromString"

definition TerminalOutput_new :: "bool \<Rightarrow> TerminalOutput" where
  "TerminalOutput_new grEnabled =
     (let grTranslationTable = (if grEnabled then Cs_Latin1 else Cs_Ascii);
          grId = (if grEnabled then VTID_of ''<'' else VTID_of ''B'')
      in \<lparr>to_upssId = VTID_of ''A'', to_upssTranslationTable = Cs_Latin1,
          to_gsetTranslationTables = [Cs_Ascii, Cs_Ascii, grTranslationTable, grTranslationTable],
          to_gsetIds = [VTID_of ''B'', VTID_of ''B'', grId, grId], to_glSetNumber = 0, to_grSetNumber = 2,
          to_glTranslationTable = None, to_grTranslationTable = None, to_ssSetNumber = 0,
          to_grTranslationEnabled = grEnabled, to_drcsId = 0, to_drcsTranslationTable = None\<rparr>)"

definition to_SoftReset :: "TerminalOutput \<Rightarrow> TerminalOutput" where
  "to_SoftReset t = TerminalOutput_new (to_grTranslationEnabled t)"

definition RestoreFrom :: "TerminalOutput \<Rightarrow> TerminalOutput \<Rightarrow> TerminalOutput" where
  "RestoreFrom savedState t =
     (let preserveGrTranslation = to_grTranslationEnabled t
      in savedState\<lparr>to_grTranslationEnabled := preserveGrTranslation\<rparr>)"

definition charsets94 :: "(string \<times> CharSetName) list" where
  "charsets94 =
     [(''B'', Cs_Ascii), (''1'', Cs_Ascii), (''0'', Cs_DecSpecialGraphics), (''2'', Cs_DecSpecialGraphics),
      (''A'', Cs_BritishNrcs), (''4'', Cs_DutchNrcs), (''5'', Cs_FinnishNrcs), (''C'', Cs_FinnishNrcs), (''R'', Cs_FrenchNrcs),
      (''f'', Cs_FrenchNrcsIso), (''9'', Cs_FrenchCanadianNrcs), (''Q'', Cs_FrenchCanadianNrcs), (''K'', Cs_GermanNrcs),
      (''Y'', Cs_ItalianNrcs), (''6'', Cs_NorwegianDanishNrcs), (''E'', Cs_NorwegianDanishNrcs),
      (''`'', Cs_NorwegianDanishNrcsIso), (''Z'', Cs_SpanishNrcs), (''7'', Cs_SwedishNrcs), (''H'', Cs_SwedishNrcs),
      (''='', Cs_SwissNrcs), (''&4'', Cs_DecCyrillic), (''&5'', Cs_RussianNrcs), (''\"?'', Cs_DecGreek), (''\">'', Cs_GreekNrcs),
      (''\"4'', Cs_DecHebrew), (''%='', Cs_HebrewNrcs), (''%0'', Cs_DecTurkish), (''%2'', Cs_TurkishNrcs),
      (''%5'', Cs_DecSupplemental), (''%6'', Cs_PortugueseNrcs)]"

definition charsets96 :: "(string \<times> CharSetName) list" where
  "charsets96 =
     [(''A'', Cs_Latin1), (''B'', Cs_Latin2), (''L'', Cs_LatinCyrillic), (''F'', Cs_LatinGreek), (''H'', Cs_LatinHebrew),
      (''M'', Cs_Latin5)]"

definition lookup_charset :: "(string \<times> CharSetName) list \<Rightarrow> VTID \<Rightarrow> CharSetName option" where
  "lookup_charset sets charset = map_of (map (\<lambda>(s, name). (VTID_of s, name)) sets) charset"

definition LookupTranslationTable94 :: "VTID \<Rightarrow> TerminalOutput \<Rightarrow> CharSetName option" where
  "LookupTranslationTable94 charset t =
     (if charset = to_drcsId t then to_drcsTranslationTable t
      else if charset = VTID_of ''<'' then Some (to_upssTranslationTable t)
      else lookup_charset charsets94 charset)"

definition LookupTranslationTable96 :: "VTID \<Rightarrow> TerminalOutput \<Rightarrow> CharSetName option" where
  "LookupTranslationTable96 charset t =
     (if charset = to_drcsId t then to_drcsTranslationTable t
      else if charset = VTID_of ''<'' then Some (to_upssTranslationTable t)
      else lookup_charset charsets96 charset)"

definition to_LockingShift :: "nat \<Rightarrow> TerminalOutput \<Rightarrow> TerminalOutput \<times> bool" where
  "to_LockingShift gsetNumber t =
     (let t = t\<lparr>to_glSetNumber := gsetNumber\<rparr>
      in if gsetNumber < length (to_gsetTranslationTables t)
         then (let table = to_gsetTranslationTables t ! gsetNumber
               in (t\<lparr>to_glTranslationTable := (if table = Cs_Ascii then None else Some table)\<rparr>, True))
         else (t, False))"

definition to_LockingShiftRight :: "nat \<Rightarrow> TerminalOutput \<Rightarrow> TerminalOutput \<times> bool" where
  "to_LockingShiftRight gsetNumber t =
     (let t = t\<lparr>to_grSetNumber := gsetNumber\<rparr>
      in if gsetNumber < length (to_gsetTranslationTables t)
         then (let table = to_gsetTranslationTables t ! gsetNumber
               in (t\<lparr>to_grTranslationTable :=
                       (if table = Cs_Latin1 \<or> \<not> to_grTranslationEnabled t then None else Some table)\<rparr>, True))
         else (t, False))"

definition reapply_shifts :: "TerminalOutput \<Rightarrow> TerminalOutput \<times> bool" where
  "reapply_shifts t =
     (let (t, ok) = to_LockingShift (to_glSetNumber t) t
      in if ok then to_LockingShiftRight (to_grSetNumber t) t else (t, False))"

definition SetTranslationTable :: "nat \<Rightarrow> CharSetName \<Rightarrow> TerminalOutput \<Rightarrow> TerminalOutput \<times> bool" where
  "SetTranslationTable gsetNumber translationTable t =
     (if gsetNumber < length (to_gsetTranslationTables t)
      then reapply_shifts (t\<lparr>to_gsetTranslationTables := (to_gsetTranslationTables t)[gsetNumber := translationTable]\<rparr>)
      else (t, False))"

definition designate :: "nat \<Rightarrow> VTID \<Rightarrow> CharSetName option \<Rightarrow> TerminalOutput \<Rightarrow> TerminalOutput \<times> bool" where
  "designate gsetNumber charset translationTable t =
     (case translationTable of
        None \<Rightarrow> (t, True)
      | Some table \<Rightarrow>
          if gsetNumber < length (to_gsetIds t)
          then SetTranslationTable gsetNumber table (t\<lparr>to_gsetIds := (to_gsetIds t)[gsetNumber := charset]\<rparr>)
          else (t, False))"

definition to_Designate94Charset :: "nat \<Rightarrow> VTID \<Rightarrow> TerminalOutput \<Rightarrow> TerminalOutput \<times> bool" where
  "to_Designate94Charset gsetNumber charset t = designate gsetNumber charset (LookupTranslationTable94 charset t) t"

definition to_Designate96Charset :: "nat \<Rightarrow> VTID \<Rightarrow> TerminalOutput \<Rightarrow> TerminalOutput \<times> bool" where
  "to_Designate96Charset gsetNumber charset t = designate gsetNumber charset (LookupTranslationTable96 charset t) t"

definition to_AssignUserPreferenceCharset :: "VTID \<Rightarrow> bool \<Rightarrow> TerminalOutput \<Rightarrow> TerminalOutput \<times> bool" where
  "to_AssignUserPreferenceCharset charset size96 t =
     (case (if size96 then LookupTranslationTable96 charset t else LookupTranslationTable94 charset t) of
        None \<Rightarrow> (t, True)
      | Some table \<Rightarrow>
          reapply_shifts (t\<lparr>to_upssId := charset, to_upssTranslationTable := table,
            to_gsetTranslationTables :=
              map2 (\<lambda>ident old. if ident = VTID_of ''<'' then table else old) (to_gsetIds t) (to_gsetTranslationTables t)\<rparr>))"

definition GetUserPreferenceCharsetSize :: "TerminalOutput \<Rightarrow> nat" where
  "GetUserPreferenceCharsetSize t = (if length (translation_table (to_upssTranslationTable t)) = 96 then 96 else 94)"

definition GetCharsetId :: "nat \<Rightarrow> TerminalOutput \<Rightarrow> VTID option" where
  "GetCharsetId gsetNumber t = (if gsetNumber < length (to_gsetIds t) then Some (to_gsetIds t ! gsetNumber) else None)"

definition GetCharsetSize :: "nat \<Rightarrow> TerminalOutput \<Rightarrow> nat option" where
  "GetCharsetSize gsetNumber t =
     (if gsetNumber < length (to_gsetTranslationTables t)
      then Some (if length (translation_table (to_gsetTranslationTables t ! gsetNumber)) = 96 then 96 else 94) else None)"

definition replaced_drcs :: "CharSetName option \<Rightarrow> CharSetName \<Rightarrow> nat \<Rightarrow> CharSetName \<Rightarrow> CharSetName" where
  "replaced_drcs oldTable newTable gsetNumber gsetTable =
     (let gsetTable = (if gsetTable = Cs_Drcs94 \<or> gsetTable = Cs_Drcs96
                       then (if gsetNumber < 2 then Cs_Ascii else Cs_Latin1) else gsetTable)
      in if Some gsetTable = oldTable then newTable else gsetTable)"

definition ReplaceDrcsTable :: "CharSetName option \<Rightarrow> CharSetName \<Rightarrow> TerminalOutput \<Rightarrow> TerminalOutput \<times> bool" where
  "ReplaceDrcsTable oldTable newTable t =
     (if Some newTable \<noteq> oldTable
      then reapply_shifts (t\<lparr>to_gsetTranslationTables :=
             map2 (replaced_drcs oldTable newTable) [0..<4] (to_gsetTranslationTables t)\<rparr>)
      else (t, True))"

definition SetDrcs94Designation :: "VTID \<Rightarrow> TerminalOutput \<Rightarrow> TerminalOutput \<times> bool" where
  "SetDrcs94Designation charset t =
     (let (t, ok) = ReplaceDrcsTable (LookupTranslationTable94 charset t) Cs_Drcs94 t
      in if ok then (t\<lparr>to_drcsId := charset, to_drcsTranslationTable := Some Cs_Drcs94\<rparr>, True) else (t, False))"

definition SetDrcs96Designation :: "VTID \<Rightarrow> TerminalOutput \<Rightarrow> TerminalOutput \<times> bool" where
  "SetDrcs96Designation charset t =
     (let (t, ok) = ReplaceDrcsTable (LookupTranslationTable96 charset t) Cs_Drcs96 t
      in if ok then (t\<lparr>to_drcsId := charset, to_drcsTranslationTable := Some Cs_Drcs96\<rparr>, True) else (t, False))"

definition to_SingleShift :: "nat \<Rightarrow> TerminalOutput \<Rightarrow> TerminalOutput" where
  "to_SingleShift gsetNumber t = t\<lparr>to_ssSetNumber := gsetNumber\<rparr>"

definition IsSingleShiftPending :: "nat \<Rightarrow> TerminalOutput \<Rightarrow> bool" where
  "IsSingleShiftPending gsetNumber t \<longleftrightarrow> to_ssSetNumber t = gsetNumber"

definition NeedToTranslate :: "TerminalOutput \<Rightarrow> bool" where
  "NeedToTranslate t \<longleftrightarrow> to_glTranslationTable t \<noteq> None \<or> to_grTranslationTable t \<noteq> None \<or> to_ssSetNumber t \<noteq> 0"

definition EnableGrTranslation :: "bool \<Rightarrow> TerminalOutput \<Rightarrow> TerminalOutput \<times> bool" where
  "EnableGrTranslation enabled t =
     (let t = t\<lparr>to_grTranslationEnabled := enabled\<rparr>;
          defaultTranslationTable = (if enabled then to_upssTranslationTable t else Cs_Ascii);
          defaultId = (if enabled then VTID_of ''<'' else VTID_of ''B'')
      in reapply_shifts (t\<lparr>to_gsetTranslationTables :=
             (to_gsetTranslationTables t)[2 := defaultTranslationTable, 3 := defaultTranslationTable],
           to_gsetIds := (to_gsetIds t)[2 := defaultId, 3 := defaultId]\<rparr>))"

text \<open>
  \<open>wch - 0x20u\<close> is a difference of unsigned numbers of 32 bits, so one comparison tests both bounds.
\<close>

definition in_table :: "wchar \<Rightarrow> u32 \<Rightarrow> CharSetName option \<Rightarrow> wchar option" where
  "in_table wch base table =
     (case table of
        None \<Rightarrow> None
      | Some name \<Rightarrow>
          (let i = unat ((ucast wch :: u32) - base); chars = translation_table name
           in if i < length chars then Some (chars ! i) else None))"

definition translate_in :: "CharSetName option \<Rightarrow> CharSetName option \<Rightarrow> wchar \<Rightarrow> wchar" where
  "translate_in left right wch =
     (case in_table wch 0x20 left of
        Some found \<Rightarrow> found
      | None \<Rightarrow> (case in_table wch 0xA0 right of Some found \<Rightarrow> found | None \<Rightarrow> wch))"

definition TranslateKey :: "wchar \<Rightarrow> TerminalOutput \<Rightarrow> TerminalOutput \<times> wchar" where
  "TranslateKey wch t =
     (if to_ssSetNumber t = 2 \<or> to_ssSetNumber t = 3
      then (let ssTranslationTable = Some (to_gsetTranslationTables t ! to_ssSetNumber t)
            in (t\<lparr>to_ssSetNumber := 0\<rparr>, translate_in ssTranslationTable ssTranslationTable wch))
      else (t, translate_in (to_glTranslationTable t) (to_grTranslationTable t) wch))"

text \<open>The text \<open>AdaptDispatch::PrintString\<close> writes, and the one \<open>AdaptDispatch::Print\<close> does.\<close>

fun translate_all :: "wstring \<Rightarrow> TerminalOutput \<Rightarrow> TerminalOutput \<times> wstring" where
  "translate_all [] t = (t, [])"
| "translate_all (wch # ws) t =
     (let (t, w) = TranslateKey wch t; (t, vs) = translate_all ws t in (t, w # vs))"

definition print_string_text :: "wstring \<Rightarrow> TerminalOutput \<Rightarrow> TerminalOutput \<times> wstring" where
  "print_string_text str t = (if NeedToTranslate t then translate_all str t else (t, str))"

definition print_text :: "wchar \<Rightarrow> TerminalOutput \<Rightarrow> TerminalOutput \<times> wstring" where
  "print_text wchPrintable t =
     (let (t, wchTranslated) = TranslateKey wchPrintable t in (t, if wchTranslated \<noteq> DEL then [wchTranslated] else []))"

text \<open>\<open>AdaptDispatch::AnnounceCodeStructure\<close>.\<close>

definition seq_op :: "(TerminalOutput \<Rightarrow> TerminalOutput \<times> bool) \<Rightarrow> (TerminalOutput \<Rightarrow> TerminalOutput \<times> bool) \<Rightarrow> TerminalOutput \<Rightarrow> TerminalOutput \<times> bool" where
  "seq_op f g t = (let (t, ok) = f t in if ok then g t else (t, False))"

definition AnnounceCodeStructure :: "VTInt \<Rightarrow> TerminalOutput \<Rightarrow> TerminalOutput \<times> bool" where
  "AnnounceCodeStructure ansiLevel =
     (let level3 = seq_op (to_Designate94Charset 0 (VTID_of ''B'')) (to_LockingShift 0)
      in if ansiLevel = 1 \<or> ansiLevel = 2
         then seq_op (to_Designate96Charset 1 (VTID_of ''A'')) (seq_op (to_LockingShiftRight 1) level3)
         else if ansiLevel = 3 then level3
         else (\<lambda>t. (t, True)))"

subsection \<open>The state is kept well-formed\<close>

text \<open>
  What holds of a state at any time: there are four sets, the shifts choose two of them, and the table of \<open>GL\<close> is the one
  of its set. The table of \<open>GR\<close> is the one of its set as well, or empty if \<open>GR\<close> is not to be translated; this is
  \<open>gr_consistent\<close>.
\<close>

definition gl_table :: "TerminalOutput \<Rightarrow> CharSetName option" where
  "gl_table t = (let table = to_gsetTranslationTables t ! to_glSetNumber t in if table = Cs_Ascii then None else Some table)"

definition gr_table :: "TerminalOutput \<Rightarrow> CharSetName option" where
  "gr_table t =
     (let table = to_gsetTranslationTables t ! to_grSetNumber t
      in if table = Cs_Latin1 \<or> \<not> to_grTranslationEnabled t then None else Some table)"

definition to_wf :: "TerminalOutput \<Rightarrow> bool" where
  "to_wf t \<longleftrightarrow> length (to_gsetTranslationTables t) = 4 \<and> length (to_gsetIds t) = 4 \<and> to_glSetNumber t < 4 \<and> to_grSetNumber t < 4 \<and>
     to_glTranslationTable t = gl_table t"

definition gr_consistent :: "TerminalOutput \<Rightarrow> bool" where
  "gr_consistent t \<longleftrightarrow> to_grTranslationTable t = gr_table t"

lemmas to_wf_defs = to_wf_def gr_consistent_def gl_table_def gr_table_def Let_def

text \<open>What an operation that came to its end leaves.\<close>

definition to_keeps :: "TerminalOutput \<times> bool \<Rightarrow> bool" where
  "to_keeps r \<longleftrightarrow> snd r \<and> to_wf (fst r) \<and> gr_consistent (fst r)"

lemma new_keeps: "to_wf (TerminalOutput_new b)" "gr_consistent (TerminalOutput_new b)"
  by (simp_all add: TerminalOutput_new_def to_wf_defs)

lemma reapply_shifts_keeps:
  assumes "length (to_gsetTranslationTables t) = 4" "length (to_gsetIds t) = 4" "to_glSetNumber t < 4" "to_grSetNumber t < 4"
  shows "to_keeps (reapply_shifts t)"
  using assms by (simp add: to_keeps_def reapply_shifts_def to_LockingShift_def to_LockingShiftRight_def to_wf_defs)

lemma LockingShift_keeps:
  assumes "to_wf t" "n < 4"
  shows "snd (to_LockingShift n t)" "to_wf (fst (to_LockingShift n t))"
    "gr_consistent t \<Longrightarrow> gr_consistent (fst (to_LockingShift n t))"
  using assms by (simp_all add: to_LockingShift_def to_wf_defs)

lemma LockingShiftRight_keeps:
  assumes "to_wf t" "n < 4"
  shows "to_keeps (to_LockingShiftRight n t)"
  using assms by (simp add: to_keeps_def to_LockingShiftRight_def to_wf_defs)

lemma designate_cases:
  assumes "to_wf t" "n < 4"
  shows "designate n charset table t = (t, True) \<or> to_keeps (designate n charset table t)"
proof (cases table)
  case (Some name)
  have "to_keeps (reapply_shifts (t\<lparr>to_gsetIds := (to_gsetIds t)[n := charset],
          to_gsetTranslationTables := (to_gsetTranslationTables t)[n := name]\<rparr>))"
    by (rule reapply_shifts_keeps) (use assms in \<open>simp_all add: to_wf_def\<close>)
  then show ?thesis using assms by (simp add: designate_def SetTranslationTable_def Some to_wf_def)
qed (simp add: designate_def)

lemma AssignUserPreferenceCharset_cases:
  assumes "to_wf t"
  shows "to_AssignUserPreferenceCharset charset size96 t = (t, True) \<or> to_keeps (to_AssignUserPreferenceCharset charset size96 t)"
proof -
  have "to_keeps (reapply_shifts (t\<lparr>to_upssId := charset, to_upssTranslationTable := name,
            to_gsetTranslationTables :=
              map2 (\<lambda>ident old. if ident = VTID_of ''<'' then name else old) (to_gsetIds t) (to_gsetTranslationTables t)\<rparr>))" for name
    by (rule reapply_shifts_keeps) (use assms in \<open>simp_all add: to_wf_def\<close>)
  then show ?thesis by (simp add: to_AssignUserPreferenceCharset_def split: option.split)
qed

lemma EnableGrTranslation_keeps: "to_wf t \<Longrightarrow> to_keeps (EnableGrTranslation b t)"
  unfolding EnableGrTranslation_def Let_def by (rule reapply_shifts_keeps) (simp_all add: to_wf_def)

lemma ReplaceDrcsTable_cases:
  assumes "to_wf t"
  shows "ReplaceDrcsTable old new t = (t, True) \<or> to_keeps (ReplaceDrcsTable old new t)"
proof -
  have "to_keeps (reapply_shifts (t\<lparr>to_gsetTranslationTables := map2 (replaced_drcs old new) [0..<4] (to_gsetTranslationTables t)\<rparr>))"
    by (rule reapply_shifts_keeps) (use assms in \<open>simp_all add: to_wf_def\<close>)
  then show ?thesis by (simp add: ReplaceDrcsTable_def)
qed

lemma drcs_fields_irrelevant [simp]:
  "to_wf (t\<lparr>to_drcsId := i, to_drcsTranslationTable := d\<rparr>) = to_wf t"
  "gr_consistent (t\<lparr>to_drcsId := i, to_drcsTranslationTable := d\<rparr>) = gr_consistent t"
  "to_wf (t\<lparr>to_ssSetNumber := n\<rparr>) = to_wf t" "gr_consistent (t\<lparr>to_ssSetNumber := n\<rparr>) = gr_consistent t"
  by (simp_all add: to_wf_defs)

text \<open>
  The operations the dispatcher calls; the numbers of the sets come from the final characters of the sequences, and are
  below 4. The first state of \<open>charset_reach\<close> is the one \<open>DECSC\<close> saves and \<open>DECRC\<close> restores from.
\<close>

datatype charset_op =
    OpSoftReset | OpAssign VTID bool | OpDesignate94 nat VTID | OpDesignate96 nat VTID | OpDrcs94 VTID | OpDrcs96 VTID
  | OpLockingShift nat | OpLockingShiftRight nat | OpSingleShift nat | OpEnableGr bool | OpTranslate wchar | OpRestore

fun charset_run :: "charset_op \<Rightarrow> TerminalOutput \<Rightarrow> TerminalOutput \<Rightarrow> TerminalOutput \<times> bool" where
  "charset_run OpSoftReset saved t = (to_SoftReset t, True)"
| "charset_run (OpAssign c b) saved t = to_AssignUserPreferenceCharset c b t"
| "charset_run (OpDesignate94 n c) saved t = to_Designate94Charset n c t"
| "charset_run (OpDesignate96 n c) saved t = to_Designate96Charset n c t"
| "charset_run (OpDrcs94 c) saved t = SetDrcs94Designation c t"
| "charset_run (OpDrcs96 c) saved t = SetDrcs96Designation c t"
| "charset_run (OpLockingShift n) saved t = to_LockingShift n t"
| "charset_run (OpLockingShiftRight n) saved t = to_LockingShiftRight n t"
| "charset_run (OpSingleShift n) saved t = (to_SingleShift n t, True)"
| "charset_run (OpEnableGr b) saved t = EnableGrTranslation b t"
| "charset_run (OpTranslate w) saved t = (fst (TranslateKey w t), True)"
| "charset_run OpRestore saved t = (RestoreFrom saved t, True)"

fun op_ok :: "charset_op \<Rightarrow> bool" where
  "op_ok (OpDesignate94 n c) \<longleftrightarrow> n < 4"
| "op_ok (OpDesignate96 n c) \<longleftrightarrow> n < 4"
| "op_ok (OpLockingShift n) \<longleftrightarrow> n < 4"
| "op_ok (OpLockingShiftRight n) \<longleftrightarrow> n < 4"
| "op_ok (OpSingleShift n) \<longleftrightarrow> n < 4"
| "op_ok _ \<longleftrightarrow> True"

inductive charset_reach :: "TerminalOutput \<Rightarrow> TerminalOutput \<Rightarrow> bool" where
  start: "charset_reach (TerminalOutput_new False) (TerminalOutput_new False)"
| save: "charset_reach saved t \<Longrightarrow> charset_reach t t"
| run: "charset_reach saved t \<Longrightarrow> op_ok op \<Longrightarrow> charset_reach saved (fst (charset_run op saved t))"

lemma TranslateKey_state [simp]:
  "to_wf (fst (TranslateKey w t)) = to_wf t" "gr_consistent (fst (TranslateKey w t)) = gr_consistent t"
  by (simp_all add: TranslateKey_def Let_def)

lemma drcs_designation_cases:
  assumes "to_wf t"
  shows "snd (SetDrcs94Designation c t) \<and> to_wf (fst (SetDrcs94Designation c t)) \<and>
           (gr_consistent t \<longrightarrow> gr_consistent (fst (SetDrcs94Designation c t)))"
    "snd (SetDrcs96Designation c t) \<and> to_wf (fst (SetDrcs96Designation c t)) \<and>
           (gr_consistent t \<longrightarrow> gr_consistent (fst (SetDrcs96Designation c t)))"
  using assms ReplaceDrcsTable_cases [OF assms, of "LookupTranslationTable94 c t" Cs_Drcs94]
    ReplaceDrcsTable_cases [OF assms, of "LookupTranslationTable96 c t" Cs_Drcs96]
  by (auto simp: SetDrcs94Designation_def SetDrcs96Designation_def to_keeps_def split: prod.splits)

lemma charset_run_wf:
  assumes "to_wf t" "to_wf saved" "op_ok op"
  shows "snd (charset_run op saved t)" "to_wf (fst (charset_run op saved t))"
    "gr_consistent t \<Longrightarrow> op \<noteq> OpRestore \<Longrightarrow> gr_consistent (fst (charset_run op saved t))"
proof -
  have "snd (charset_run op saved t) \<and> to_wf (fst (charset_run op saved t)) \<and>
      (gr_consistent t \<longrightarrow> op \<noteq> OpRestore \<longrightarrow> gr_consistent (fst (charset_run op saved t)))"
  proof (cases op)
    case (OpAssign c b)
    then show ?thesis using AssignUserPreferenceCharset_cases [OF assms(1), of c b] assms by (auto simp: to_keeps_def)
  next
    case (OpDesignate94 n c)
    then show ?thesis using designate_cases [OF assms(1), of n c "LookupTranslationTable94 c t"] assms
      by (auto simp: to_keeps_def to_Designate94Charset_def)
  next
    case (OpDesignate96 n c)
    then show ?thesis using designate_cases [OF assms(1), of n c "LookupTranslationTable96 c t"] assms
      by (auto simp: to_keeps_def to_Designate96Charset_def)
  next
    case (OpDrcs94 c)
    then show ?thesis using drcs_designation_cases [OF assms(1)] by simp
  next
    case (OpDrcs96 c)
    then show ?thesis using drcs_designation_cases [OF assms(1)] by simp
  next
    case (OpLockingShift n)
    then show ?thesis using LockingShift_keeps [OF assms(1), of n] assms by simp
  next
    case (OpLockingShiftRight n)
    then show ?thesis using LockingShiftRight_keeps [OF assms(1), of n] assms by (simp add: to_keeps_def)
  next
    case (OpEnableGr b)
    then show ?thesis using EnableGrTranslation_keeps [OF assms(1), of b] by (simp add: to_keeps_def)
  next
    case OpRestore
    then show ?thesis using assms(2) by (simp add: RestoreFrom_def to_wf_defs)
  qed (use assms in \<open>simp_all add: to_SoftReset_def new_keeps to_SingleShift_def\<close>)
  then show "snd (charset_run op saved t)" "to_wf (fst (charset_run op saved t))"
    "gr_consistent t \<Longrightarrow> op \<noteq> OpRestore \<Longrightarrow> gr_consistent (fst (charset_run op saved t))" by auto
qed

lemma charset_reach_wf: "charset_reach saved t \<Longrightarrow> to_wf saved \<and> to_wf t"
  by (induction rule: charset_reach.induct) (simp_all add: new_keeps charset_run_wf)

subsection \<open>The code table\<close>

text \<open>
  The code table of ISO 2022 as a function of the designated sets and the shifts: a pending single shift decides both
  halves, otherwise \<open>GL\<close> has the left half, and \<open>GR\<close> the right half if it is translated.
\<close>

definition set_char :: "CharSetName \<Rightarrow> nat \<Rightarrow> nat \<Rightarrow> wchar option" where
  "set_char name base c =
     (if base \<le> c \<and> c < base + length (translation_table name) then Some (translation_table name ! (c - base)) else None)"

definition code_table :: "TerminalOutput \<Rightarrow> wchar \<Rightarrow> wchar" where
  "code_table t c =
     (let single = to_ssSetNumber t = 2 \<or> to_ssSetNumber t = 3;
          left = to_gsetTranslationTables t ! (if single then to_ssSetNumber t else to_glSetNumber t);
          right = to_gsetTranslationTables t ! (if single then to_ssSetNumber t else to_grSetNumber t)
      in case set_char left 0x20 (unat c) of
           Some found \<Rightarrow> found
         | None \<Rightarrow> (case if single \<or> to_grTranslationEnabled t then set_char right 0xA0 (unat c) else None of
                     Some found \<Rightarrow> found
                   | None \<Rightarrow> c))"

lemma unat_ucast_wchar: "unat (ucast (c :: wchar) :: u32) = unat c"
  using unat_wchar_lt [of c] by (simp add: unsigned_ucast_eq take_bit_nat_eq_self)

lemma unat_ucast_diff:
  fixes c :: wchar and b :: u32
  assumes "unat b < 65536"
  shows "unat ((ucast c :: u32) - b) = (if unat b \<le> unat c then unat c - unat b else 4294967296 + unat c - unat b)"
  using assms unat_sub_if' [of "ucast c :: u32" b] unat_ucast_wchar [of c] unat_wchar_lt [of c]
  by (auto simp: word_le_nat_alt)

lemma in_table_set_char:
  assumes "unat base < 65536"
  shows "in_table wch base (Some name) = set_char name (unat base) (unat wch)"
  using assms unat_ucast_diff [of base wch] length_translation_table [of name]
  by (auto simp: in_table_def set_char_def Let_def)

lemma identity_sets:
  "set_char Cs_Ascii 0x20 (unat c) = Some w \<Longrightarrow> w = c"
  "set_char Cs_Latin1 0xA0 (unat c) = Some w \<Longrightarrow> w = c"
proof -
  have "word_of_nat (unat c) = c" by simp
  then show "set_char Cs_Ascii 0x20 (unat c) = Some w \<Longrightarrow> w = c" "set_char Cs_Latin1 0xA0 (unat c) = Some w \<Longrightarrow> w = c"
    by (auto simp: set_char_def Ascii_def Latin1_def nth_CharSet_base of_nat_diff split: if_splits)
qed

lemma left_right_apart: "set_char n 0x20 c = Some v \<Longrightarrow> set_char m 0xA0 c = None"
  using length_translation_table [of n] by (auto simp: set_char_def split: if_splits)

lemma translate_in_left:
  "translate_in left right c =
     (case (case left of None \<Rightarrow> None | Some n \<Rightarrow> set_char n 0x20 (unat c)) of
        Some found \<Rightarrow> found
      | None \<Rightarrow> (case (case right of None \<Rightarrow> None | Some n \<Rightarrow> set_char n 0xA0 (unat c)) of Some found \<Rightarrow> found | None \<Rightarrow> c))"
  by (auto simp: translate_in_def in_table_set_char in_table_def [of _ _ None] split: option.split)

lemma set_char_right_low: "c < 0xA0 \<Longrightarrow> set_char n 0xA0 c = None"
  by (simp add: set_char_def)

lemma translate_in_code_table:
  assumes "to_wf t" and "to_ssSetNumber t \<noteq> 2" "to_ssSetNumber t \<noteq> 3" and "unat c < 0xA0 \<or> gr_consistent t"
  shows "translate_in (to_glTranslationTable t) (to_grTranslationTable t) c = code_table t c"
proof -
  let ?l = "to_gsetTranslationTables t ! to_glSetNumber t" and ?r = "to_gsetTranslationTables t ! to_grSetNumber t"
  let ?right = "case (case to_grTranslationTable t of None \<Rightarrow> None | Some n \<Rightarrow> set_char n 0xA0 (unat c)) of Some found \<Rightarrow> found | None \<Rightarrow> c"
  have right: "?right = (case if to_grTranslationEnabled t then set_char ?r 0xA0 (unat c) else None of Some found \<Rightarrow> found | None \<Rightarrow> c)"
    using assms(4) identity_sets(2) [of c]
    by (auto simp: gr_consistent_def gr_table_def Let_def set_char_right_low split: option.splits if_splits)
  have left: "to_glTranslationTable t = (if ?l = Cs_Ascii then None else Some ?l)"
    using assms(1) by (simp add: to_wf_def gl_table_def Let_def)
  show ?thesis
  proof (cases "set_char ?l 0x20 (unat c)")
    case None
    then show ?thesis using right by (simp add: translate_in_left left code_table_def assms(2,3))
  next
    case (Some v)
    show ?thesis
    proof (cases "?l = Cs_Ascii")
      case True
      then have "v = c" using Some identity_sets(1) by simp
      then show ?thesis using Some True left_right_apart [OF Some]
        by (auto simp: translate_in_left left code_table_def assms(2,3) split: option.split)
    next
      case False
      then show ?thesis using Some by (simp add: translate_in_left left code_table_def assms(2,3))
    qed
  qed
qed

lemma TranslateKey_code_table:
  assumes "to_wf t" and "unat c < 0xA0 \<or> gr_consistent t"
  shows "snd (TranslateKey c t) = code_table t c"
proof (cases "to_ssSetNumber t = 2 \<or> to_ssSetNumber t = 3")
  case True
  then show ?thesis by (auto simp: TranslateKey_def translate_in_left code_table_def Let_def split: option.split)
next
  case False
  then show ?thesis using translate_in_code_table [OF assms(1) _ _ assms(2)] by (simp add: TranslateKey_def)
qed

text \<open>A saved state keeps the code table whole if \<open>GR\<close> is translated now exactly if it was when the state was saved.\<close>

lemma restore_same_mode:
  assumes "gr_consistent saved" and "to_grTranslationEnabled saved = to_grTranslationEnabled t"
  shows "RestoreFrom saved t = saved" and "gr_consistent (RestoreFrom saved t)"
proof -
  show "RestoreFrom saved t = saved" using assms(2) [symmetric] by (simp add: RestoreFrom_def)
  then show "gr_consistent (RestoreFrom saved t)" using assms(1) by simp
qed

subsection \<open>Properties\<close>


text \<open>The witness: the special graphics in \<open>G0\<close>, and a line drawing character.\<close>

definition graphics_state :: TerminalOutput where
  "graphics_state = fst (to_Designate94Charset 0 (VTID_of ''0'') (TerminalOutput_new False))"


text \<open>
  C40. Restoring a state can leave the right half of the code table translated although \<open>GR\<close> is not to be translated: with
  ISO 2022 selected and Latin-Greek in \<open>G2\<close> the state is saved, UTF-8 is selected, which ends the translation of \<open>GR\<close>, and
  the state is restored. The flag says that \<open>GR\<close> is not translated, but U+00C1 is written as U+0391.
\<close>

theorem restore_translates_right_half:
  "\<exists>saved t. charset_reach saved t \<and> \<not> to_grTranslationEnabled t \<and> code_table t 0xC1 = 0xC1 \<and> snd (TranslateKey 0xC1 t) = 0x391"
proof -
  let ?t0 = "TerminalOutput_new False"
  let ?t1 = "fst (EnableGrTranslation True ?t0)"
  let ?t2 = "fst (to_Designate96Charset 2 (VTID_of ''F'') ?t1)"
  let ?t3 = "fst (EnableGrTranslation False ?t2)"
  let ?t4 = "RestoreFrom ?t2 ?t3"
  have "charset_reach ?t0 ?t1" using charset_reach.run [OF charset_reach.start, of "OpEnableGr True"] by simp
  then have "charset_reach ?t0 ?t2" using charset_reach.run [of ?t0 ?t1 "OpDesignate96 2 (VTID_of ''F'')"] by simp
  then have "charset_reach ?t2 ?t2" by (rule charset_reach.save)
  then have "charset_reach ?t2 ?t3" using charset_reach.run [of ?t2 ?t2 "OpEnableGr False"] by simp
  then have "charset_reach ?t2 ?t4" using charset_reach.run [of ?t2 ?t3 OpRestore] by simp
  moreover have "\<not> to_grTranslationEnabled ?t4" by code_simp
  moreover have "code_table ?t4 0xC1 = 0xC1" by code_simp
  moreover have "snd (TranslateKey 0xC1 ?t4) = 0x391" by code_simp
  ultimately show ?thesis by blast
qed

text \<open>
  Text that needs no translation is written as it is, and this shortcut of \<open>PrintString\<close> is equivalent to translating every
  character of it, in any state.
\<close>

theorem print_string_shortcut: "print_string_text str t = translate_all str t"
proof (cases "NeedToTranslate t")
  case False
  then have "TranslateKey c t = (t, c)" for c
    by (simp add: NeedToTranslate_def TranslateKey_def translate_in_def in_table_def)
  then have "translate_all str t = (t, str)" by (induction str) simp_all
  then show ?thesis using False by (simp add: print_string_text_def)
qed (simp add: print_string_text_def)

text \<open>
  C39. Translation is safe: in any state a character that is not a control character is never translated to one, so no table,
  and no state of the shifts, can make text act as a control.
\<close>

theorem translation_no_controls:
  assumes "\<not> control_char c"
  shows "\<not> control_char (snd (TranslateKey c t))"
proof -
  have found: "in_table c b table = Some w \<Longrightarrow> \<not> control_char w" for b table w
    using translation_table_no_controls
    by (fastforce simp: in_table_def Let_def list_all_iff split: option.splits if_splits dest: nth_mem)
  have "\<not> control_char (translate_in left right c)" for left right
    using assms found by (auto simp: translate_in_def split: option.split)
  then show ?thesis by (simp add: TranslateKey_def Let_def)
qed

theorem translation_no_controls_witness:
  "\<not> control_char (snd (TranslateKey 0x71 graphics_state)) \<and> snd (TranslateKey 0x71 graphics_state) \<noteq> 0x71"
proof -
  have "\<not> control_char 0x71" by code_simp
  moreover have "snd (TranslateKey 0x71 graphics_state) \<noteq> 0x71" by code_simp
  ultimately show ?thesis using translation_no_controls by blast
qed

text \<open>Redefining a soft font under another name takes its set out of the code table, but leaves the name that is reported for it.\<close>

lemma replaced_drcs_keeps_ids: "to_gsetIds (fst (ReplaceDrcsTable old new t)) = to_gsetIds t"
  by (simp add: ReplaceDrcsTable_def reapply_shifts_def to_LockingShift_def to_LockingShiftRight_def Let_def)

end
