(* ===== verification/Adapt_State.thy ===== *)
theory Adapt_State
  imports Text_Buffer_Reach Terminal_Output Til_Enumset
begin

text \<open>
  The state the dispatcher of the output engine works on, \<open>AdaptDispatch\<close> of \<open>src/src/terminal/adapter/adaptDispatch.cpp\<close>,
  and what it reaches from there: the buffers and the viewport of the terminal, behind the interface \<open>ITerminalApi\<close> as
  \<open>src/src/cascadia/TerminalCore/TerminalApi.cpp\<close> implements it, and the pages of
  \<open>src/src/terminal/adapter/PageManager.cpp\<close>.

  A \<open>Page\<close> of the sources has a reference to a text buffer. Here it has a name for it, \<open>VisibleBuffer\<close> or a page buffer by
  its index, and the buffers are in the state, so two pages that share a buffer see each other's changes. A null pointer
  that is used is \<open>OutOfBounds\<close>.

  The notifications of the terminal to its control, and the redraws the page manager asks a renderer for, are left out.
\<close>

subsection \<open>State\<close>

record CursorState =
  cs_Row :: VTInt
  cs_Column :: VTInt
  cs_Page :: VTInt
  cs_IsDelayedEOLWrap :: bool
  cs_IsOriginModeRelative :: bool
  cs_Attributes :: TextAttribute
  cs_TermOutput :: TerminalOutput

definition CursorState_init :: CursorState where
  "CursorState_init =
     \<lparr>cs_Row = 1, cs_Column = 1, cs_Page = 1, cs_IsDelayedEOLWrap = False, cs_IsOriginModeRelative = False,
      cs_Attributes = TextAttribute_default, cs_TermOutput = TerminalOutput_new False\<rparr>"

record DispatchState =
  ad_mainBuffer :: TextBuffer
  ad_altBuffer :: "TextBuffer option"
  ad_mutableViewport :: Viewport
  ad_altBufferSize :: til_size
  ad_systemMode :: enumset
  ad_scrollOffset :: int
  ad_selectionActive :: bool
  ad_mutationIds :: u64
  ad_activePageNumber :: int
  ad_visiblePageNumber :: int
  ad_pageBuffers :: "TextBuffer option list"
  ad_tabStopColumns :: "bool list"
  ad_initDefaultTabStops :: bool
  ad_termOutput :: TerminalOutput
  ad_savedCursorState :: "CursorState list"
  ad_usingAltBuffer :: bool
  ad_scrollMargins :: inclusive_rect
  ad_modes :: enumset

type_synonym 'a ad_op = "(DispatchState, 'a) st_op"

abbreviation (input) ModeInsertReplace :: nat where "ModeInsertReplace \<equiv> 0"
abbreviation (input) ModeOrigin :: nat where "ModeOrigin \<equiv> 1"
abbreviation (input) ModeColumn :: nat where "ModeColumn \<equiv> 2"
abbreviation (input) ModeAllowDECCOLM :: nat where "ModeAllowDECCOLM \<equiv> 3"
abbreviation (input) ModeAllowDECSLRM :: nat where "ModeAllowDECSLRM \<equiv> 4"
abbreviation (input) ModeSixelDisplay :: nat where "ModeSixelDisplay \<equiv> 5"
abbreviation (input) ModeEraseColor :: nat where "ModeEraseColor \<equiv> 6"
abbreviation (input) ModeRectangularChangeExtent :: nat where "ModeRectangularChangeExtent \<equiv> 7"
abbreviation (input) ModePageCursorCoupling :: nat where "ModePageCursorCoupling \<equiv> 8"

abbreviation (input) SystemAutoWrap :: nat where "SystemAutoWrap \<equiv> 0"
abbreviation (input) SystemLineFeed :: nat where "SystemLineFeed \<equiv> 1"
abbreviation (input) SystemBracketedPaste :: nat where "SystemBracketedPaste \<equiv> 2"

abbreviation mode_set :: "nat \<Rightarrow> DispatchState \<Rightarrow> bool" where
  "mode_set m s \<equiv> enumset_test (ad_modes s) m"

text \<open>A dispatcher with its terminal, before any output.\<close>

definition DispatchState_new :: "TextBuffer \<Rightarrow> Viewport \<Rightarrow> u64 \<Rightarrow> DispatchState" where
  "DispatchState_new mainBuffer viewport mutationIds =
     \<lparr>ad_mainBuffer = mainBuffer, ad_altBuffer = None, ad_mutableViewport = viewport, ad_altBufferSize = Size 0 0,
      ad_systemMode = enumset_of [SystemAutoWrap], ad_scrollOffset = 0, ad_selectionActive = False, ad_mutationIds = mutationIds,
      ad_activePageNumber = 1, ad_visiblePageNumber = 1, ad_pageBuffers = replicate 6 None, ad_tabStopColumns = [],
      ad_initDefaultTabStops = True, ad_termOutput = TerminalOutput_new False,
      ad_savedCursorState = [CursorState_init, CursorState_init], ad_usingAltBuffer = False,
      ad_scrollMargins = IncRect 0 0 0 0, ad_modes = enumset_of [ModePageCursorCoupling]\<rparr>"

subsection \<open>The terminal\<close>

definition inAltBuffer :: "DispatchState \<Rightarrow> bool" where
  "inAltBuffer s \<longleftrightarrow> ad_altBuffer s \<noteq> None"

definition activeBuffer :: "DispatchState \<Rightarrow> TextBuffer" where
  "activeBuffer s = (case ad_altBuffer s of Some alt \<Rightarrow> alt | None \<Rightarrow> ad_mainBuffer s)"

definition set_activeBuffer :: "TextBuffer \<Rightarrow> DispatchState \<Rightarrow> DispatchState" where
  "set_activeBuffer tb s =
     (case ad_altBuffer s of Some _ \<Rightarrow> s\<lparr>ad_altBuffer := Some tb\<rparr> | None \<Rightarrow> s\<lparr>ad_mainBuffer := tb\<rparr>)"

definition GetMutableViewport :: "DispatchState \<Rightarrow> Viewport" where
  "GetMutableViewport s = (if inAltBuffer s then FromDimensions (Point 0 0) (ad_altBufferSize s) else ad_mutableViewport s)"

text \<open>\<open>GetBufferAndViewport\<close> without the buffer, which is \<open>VisibleBuffer\<close> here.\<close>

definition GetBufferAndViewport :: "DispatchState \<Rightarrow> rect \<times> bool" where
  "GetBufferAndViewport s = (rect_of_inclusive (ToInclusive (GetMutableViewport s)), \<not> inAltBuffer s)"

definition PreserveUserScrollOffset :: "int \<Rightarrow> DispatchState \<Rightarrow> DispatchState" where
  "PreserveUserScrollOffset viewportDelta s =
     (if viewportDelta > 0 \<and> (ad_selectionActive s \<or> ad_scrollOffset s \<noteq> 0)
      then (let maxScrollOffset = Height (tb_GetSize (activeBuffer s)) - Height (ad_mutableViewport s)
            in s\<lparr>ad_scrollOffset := min (ad_scrollOffset s + viewportDelta) maxScrollOffset\<rparr>)
      else s)"

definition SetViewportPosition :: "point \<Rightarrow> DispatchState \<Rightarrow> DispatchState" where
  "SetViewportPosition p s =
     (if \<not> inAltBuffer s
      then (let bufferSize = Dimensions (tb_GetSize (ad_mainBuffer s));
                viewSize = Dimensions (GetMutableViewport s);
                x = std_clamp (pt_x p) 0 (sz_width bufferSize - sz_width viewSize);
                y = std_clamp (pt_y p) 0 (sz_height bufferSize - sz_height viewSize);
                viewportDelta = y - pt_y (Origin (GetMutableViewport s))
            in PreserveUserScrollOffset viewportDelta (s\<lparr>ad_mutableViewport := FromDimensions (Point x y) viewSize\<rparr>))
      else s)"

definition GetSystemMode :: "nat \<Rightarrow> DispatchState \<Rightarrow> bool" where
  "GetSystemMode m s = enumset_test (ad_systemMode s) m"

definition SetSystemMode :: "nat \<Rightarrow> bool \<Rightarrow> DispatchState \<Rightarrow> DispatchState" where
  "SetSystemMode m enabled s = s\<lparr>ad_systemMode := enumset_set_val m enabled (ad_systemMode s)\<rparr>"

text \<open>Entering and leaving the alternate buffer. A resize that was put off meanwhile is not modelled.\<close>

definition UseAlternateScreenBuffer :: "TextAttribute \<Rightarrow> unit ad_op" where
  "UseAlternateScreenBuffer attrs s =
     (let altBufferSize = Dimensions (ad_mutableViewport s);
          myCursor = tb_cursor (ad_mainBuffer s);
          s = s\<lparr>ad_altBufferSize := altBufferSize, ad_mutationIds := ad_mutationIds s + 0x100000000\<rparr>
      in case TextBuffer_new altBufferSize attrs (cu_ulSize myCursor) True (tb_hasRenderer (ad_mainBuffer s)) (ad_mutationIds s - 0x100000000) of
           None \<Rightarrow> tb_throw s
         | Some alt \<Rightarrow>
             (let tgtCursor = SetPosition (Point (pt_x (cu_cPosition myCursor)) (pt_y (cu_cPosition myCursor) - Top (ad_mutableViewport s)))
                    (SetIsBlinking (cu_isBlinking myCursor) (SetIsVisible (cu_isVisible myCursor)
                      (SetStyle (cu_ulSize myCursor) (cu_cursorType myCursor) (tb_cursor alt))))
              in tb_return () (s\<lparr>ad_altBuffer := Some (alt\<lparr>tb_cursor := tgtCursor\<rparr>),
                    ad_mainBuffer := (ad_mainBuffer s)\<lparr>tb_isActiveBuffer := False\<rparr>\<rparr>)))"

definition UseMainScreenBuffer :: "DispatchState \<Rightarrow> DispatchState" where
  "UseMainScreenBuffer s =
     (case ad_altBuffer s of
        None \<Rightarrow> s
      | Some altBuffer \<Rightarrow>
          (let altCursor = tb_cursor altBuffer; main = ad_mainBuffer s;
               mainCursor = SetPosition (Point (pt_x (cu_cPosition altCursor)) (pt_y (cu_cPosition altCursor) + Top (ad_mutableViewport s)))
                 (SetIsBlinking (cu_isBlinking altCursor) (SetIsVisible (cu_isVisible altCursor)
                   (SetStyle (cu_ulSize altCursor) (cu_cursorType altCursor) (tb_cursor main))))
           in s\<lparr>ad_altBuffer := None, ad_mainBuffer := main\<lparr>tb_isActiveBuffer := True, tb_cursor := mainCursor\<rparr>\<rparr>))"

subsection \<open>Pages\<close>

datatype BufferRef = VisibleBuffer | PageBuffer nat

record Page =
  pg_buffer :: BufferRef
  pg_viewport :: rect
  pg_number :: int

definition buffer_at :: "BufferRef \<Rightarrow> DispatchState \<Rightarrow> TextBuffer outcome" where
  "buffer_at ref s =
     (case ref of
        VisibleBuffer \<Rightarrow> Done (activeBuffer s)
      | PageBuffer i \<Rightarrow> if i < length (ad_pageBuffers s)
          then (case ad_pageBuffers s ! i of Some tb \<Rightarrow> Done tb | None \<Rightarrow> OutOfBounds) else OutOfBounds)"

definition set_buffer_at :: "BufferRef \<Rightarrow> TextBuffer \<Rightarrow> DispatchState \<Rightarrow> DispatchState" where
  "set_buffer_at ref tb s =
     (case ref of
        VisibleBuffer \<Rightarrow> set_activeBuffer tb s
      | PageBuffer i \<Rightarrow> s\<lparr>ad_pageBuffers := (ad_pageBuffers s)[i := Some tb]\<rparr>)"

text \<open>An operation of a text buffer, on the buffer that is referred to.\<close>

definition on_buffer :: "BufferRef \<Rightarrow> 'a tb_op \<Rightarrow> 'a ad_op" where
  "on_buffer ref m s =
     obind (buffer_at ref s) (\<lambda>tb. obind (m tb) (\<lambda>(tb', r). Done (set_buffer_at ref tb' s, r)))"

definition on_page :: "Page \<Rightarrow> 'a tb_op \<Rightarrow> 'a ad_op" where
  "on_page page = on_buffer (pg_buffer page)"

definition page_Cursor :: "Page \<Rightarrow> Cursor ad_op" where
  "page_Cursor page = on_page page (tb_get tb_cursor)"

definition move_cursor :: "Page \<Rightarrow> (Cursor \<Rightarrow> Cursor) \<Rightarrow> unit ad_op" where
  "move_cursor page f = on_page page (tb_modify (\<lambda>tb. tb\<lparr>tb_cursor := f (tb_cursor tb)\<rparr>))"

definition page_Attributes :: "Page \<Rightarrow> TextAttribute ad_op" where
  "page_Attributes page = on_page page (tb_get tb_currentAttributes)"

definition page_SetAttributes :: "Page \<Rightarrow> TextAttribute \<Rightarrow> unit ad_op" where
  "page_SetAttributes page attr = on_page page (tb_modify (\<lambda>tb. tb\<lparr>tb_currentAttributes := attr\<rparr>))"

definition page_Top :: "Page \<Rightarrow> int" where
  "page_Top page = r_top (pg_viewport page)"

definition page_Bottom :: "Page \<Rightarrow> int" where
  "page_Bottom page = r_bottom (pg_viewport page)"

definition page_Width :: "Page \<Rightarrow> int ad_op" where
  "page_Width page = on_page page (tb_get (\<lambda>tb. Width (tb_GetSize tb)))"

definition page_Height :: "Page \<Rightarrow> int" where
  "page_Height page = page_Bottom page - page_Top page"

definition page_BufferHeight :: "Page \<Rightarrow> int ad_op" where
  "page_BufferHeight page = on_page page (tb_get (\<lambda>tb. Height (tb_GetSize tb)))"

definition page_XPanOffset :: "Page \<Rightarrow> int" where
  "page_XPanOffset page = r_left (pg_viewport page)"

definition MoveViewportDown :: "Page \<Rightarrow> Page" where
  "MoveViewportDown page =
     (let v = pg_viewport page in page\<lparr>pg_viewport := Rect (r_left v) (r_top v + 1) (r_right v) (r_bottom v + 1)\<rparr>)"

subsection \<open>The page manager\<close>

abbreviation MAX_PAGES :: int where "MAX_PAGES \<equiv> 6"

definition clamp_page :: "int \<Rightarrow> int" where
  "clamp_page pageNumber = min (max pageNumber 1) MAX_PAGES"

definition PageManager_Reset :: "DispatchState \<Rightarrow> DispatchState" where
  "PageManager_Reset s = s\<lparr>ad_activePageNumber := 1, ad_visiblePageNumber := 1, ad_pageBuffers := replicate 6 None\<rparr>"

text \<open>\<open>_getBuffer\<close>: the buffers of the pages are created when they are first used.\<close>

definition getBuffer :: "int \<Rightarrow> til_size \<Rightarrow> BufferRef ad_op" where
  "getBuffer pageNumber pageSize s =
     (let i = nat (pageNumber - 1)
      in if \<not> i < length (ad_pageBuffers s) then OutOfBounds
         else case ad_pageBuffers s ! i of
           None \<Rightarrow>
             (let s = s\<lparr>ad_mutationIds := ad_mutationIds s + 0x100000000\<rparr>
              in case TextBuffer_new pageSize TextAttribute_default 0 False (tb_hasRenderer (ad_mainBuffer s)) (ad_mutationIds s - 0x100000000) of
                   None \<Rightarrow> tb_throw s
                 | Some tb \<Rightarrow> tb_return (PageBuffer i) (s\<lparr>ad_pageBuffers := (ad_pageBuffers s)[i := Some tb]\<rparr>))
         | Some tb \<Rightarrow>
             (if Dimensions (tb_GetSize tb) \<noteq> pageSize
              then tb_bind (on_buffer (PageBuffer i) (ResizeTraditional pageSize)) (\<lambda>_. tb_return (PageBuffer i)) s
              else tb_return (PageBuffer i) s))"

text \<open>The size of a rectangle; a difference that leaves the range of \<open>int32_t\<close> throws.\<close>

definition size_of_rect :: "rect \<Rightarrow> til_size ad_op" where
  "size_of_rect r = (case rect_size r of Some sz \<Rightarrow> tb_return sz | None \<Rightarrow> tb_throw)"

definition PageManager_Get :: "int \<Rightarrow> Page ad_op" where
  "PageManager_Get pageNumber s =
     (let requestedPageNumber = clamp_page pageNumber; (visibleViewport, isMainBuffer) = GetBufferAndViewport s
      in if \<not> isMainBuffer then tb_return \<lparr>pg_buffer = VisibleBuffer, pg_viewport = visibleViewport, pg_number = 1\<rparr> s
         else if requestedPageNumber = ad_visiblePageNumber s
         then tb_return \<lparr>pg_buffer = VisibleBuffer, pg_viewport = visibleViewport, pg_number = ad_visiblePageNumber s\<rparr> s
         else tb_bind (size_of_rect visibleViewport) (\<lambda>pageSize.
              tb_bind (getBuffer requestedPageNumber pageSize) (\<lambda>ref.
              tb_return \<lparr>pg_buffer = ref, pg_viewport = rect_of_size pageSize, pg_number = requestedPageNumber\<rparr>)) s)"

definition ActivePage :: "Page ad_op" where
  "ActivePage s = PageManager_Get (ad_activePageNumber s) s"

definition VisiblePage :: "Page ad_op" where
  "VisiblePage s = PageManager_Get (ad_visiblePageNumber s) s"

text \<open>\<open>CopyRow\<close> from one buffer to another one.\<close>

definition copy_row_between :: "BufferRef \<Rightarrow> int \<Rightarrow> BufferRef \<Rightarrow> int \<Rightarrow> unit ad_op" where
  "copy_row_between src srcRow dst dstRow s =
     obind (buffer_at src s) (\<lambda>srcBuffer. obind (buffer_at dst s) (\<lambda>dstBuffer.
     obind (CopyRow_to srcRow dstRow (srcBuffer, dstBuffer)) (\<lambda>((srcBuffer, dstBuffer), ok).
     Done (set_buffer_at dst dstBuffer (set_buffer_at src srcBuffer s), ok))))"

definition swap_pages :: "int \<Rightarrow> til_size \<Rightarrow> int \<Rightarrow> unit ad_op" where
  "swap_pages newPageNumber pageSize visibleTop =
     tb_bind (getBuffer newPageNumber pageSize) (\<lambda>newBuffer.
     tb_bind (tb_get ad_visiblePageNumber) (\<lambda>visiblePageNumber.
     tb_bind (getBuffer visiblePageNumber pageSize) (\<lambda>saveBuffer.
     tb_bind (tb_for [0..sz_height pageSize - 1] (\<lambda>i. copy_row_between VisibleBuffer (visibleTop + i) saveBuffer i)) (\<lambda>_.
     tb_bind (tb_for [0..sz_height pageSize - 1] (\<lambda>i. copy_row_between newBuffer i VisibleBuffer (visibleTop + i))) (\<lambda>_.
     tb_modify (\<lambda>s. s\<lparr>ad_visiblePageNumber := newPageNumber\<rparr>))))))"

definition copy_page_properties :: "bool \<Rightarrow> bool \<Rightarrow> BufferRef \<Rightarrow> BufferRef \<Rightarrow> int \<Rightarrow> unit ad_op" where
  "copy_page_properties wasVisible isVisible oldBuffer newBuffer visibleTop =
     (if oldBuffer \<noteq> newBuffer
      then (let oldTop = (if wasVisible then visibleTop else 0); newTop = (if isVisible then visibleTop else 0)
            in tb_bind (on_buffer oldBuffer (tb_get id)) (\<lambda>old.
               (let p = cu_cPosition (tb_cursor old); position1 = Point (pt_x p) (pt_y p - oldTop + newTop)
                in on_buffer newBuffer (tb_modify (\<lambda>tb.
                     (let tb = tb_CopyProperties old (tb\<lparr>tb_currentAttributes := tb_currentAttributes old\<rparr>)
                      in tb\<lparr>tb_cursor := SetPosition position1 (tb_cursor tb)\<rparr>))))))
      else tb_return ())"

definition MoveTo :: "int \<Rightarrow> bool \<Rightarrow> unit ad_op" where
  "MoveTo pageNumber makeVisible s =
     (let (visibleViewport, isMainBuffer) = GetBufferAndViewport s
      in if \<not> isMainBuffer then tb_return () s
         else tb_bind (size_of_rect visibleViewport) (\<lambda>pageSize s.
           (let visibleTop = r_top visibleViewport;
                wasVisible = ad_activePageNumber s = ad_visiblePageNumber s;
                newPageNumber = clamp_page pageNumber
            in tb_bind (if makeVisible \<and> ad_visiblePageNumber s \<noteq> newPageNumber
                        then swap_pages newPageNumber pageSize visibleTop else tb_return ()) (\<lambda>_ s.
               (let isVisible = newPageNumber = ad_visiblePageNumber s
                in tb_bind (if \<not> wasVisible \<or> \<not> isVisible
                            then tb_bind (if wasVisible then tb_return VisibleBuffer else getBuffer (ad_activePageNumber s) pageSize) (\<lambda>oldBuffer.
                                 tb_bind (if isVisible then tb_return VisibleBuffer else getBuffer newPageNumber pageSize) (\<lambda>newBuffer.
                                 tb_bind (copy_page_properties wasVisible isVisible oldBuffer newBuffer visibleTop) (\<lambda>_.
                                 if wasVisible \<and> \<not> isVisible
                                 then on_buffer VisibleBuffer (tb_modify (\<lambda>tb. tb\<lparr>tb_cursor := SetIsVisible False (tb_cursor tb)\<rparr>))
                                 else tb_return ())))
                            else tb_return ()) (\<lambda>_.
                   tb_modify (\<lambda>s. s\<lparr>ad_activePageNumber := newPageNumber\<rparr>)) s)) s)) s)"

definition MoveRelative :: "int \<Rightarrow> bool \<Rightarrow> unit ad_op" where
  "MoveRelative pageCount makeVisible s = MoveTo (ad_activePageNumber s + pageCount) makeVisible s"

definition MakeActivePageVisible :: "unit ad_op" where
  "MakeActivePageVisible s =
     (if ad_activePageNumber s \<noteq> ad_visiblePageNumber s then MoveTo (ad_activePageNumber s) True s else tb_return () s)"

end
