(* ===== verification/Adapt_Cursor.thy ===== *)
theory Adapt_Cursor
  imports Adapt_State
begin

text \<open>
  The operations of \<open>AdaptDispatch\<close> that move the cursor: \<open>src/src/terminal/adapter/adaptDispatch.cpp\<close>, with the margins,
  the saved cursor, the pages and the tab stops. The numbers in sequences are at most 32767, so the sums of \<open>int32_t\<close>
  coordinates are sums of integers here.
\<close>

subsection \<open>Margins\<close>

definition set_margin_rows :: "int \<Rightarrow> int \<Rightarrow> DispatchState \<Rightarrow> DispatchState" where
  "set_margin_rows top1 bottom1 s =
     (let m = ad_scrollMargins s in s\<lparr>ad_scrollMargins := IncRect (ir_left m) top1 (ir_right m) bottom1\<rparr>)"

definition set_margin_columns :: "int \<Rightarrow> int \<Rightarrow> DispatchState \<Rightarrow> DispatchState" where
  "set_margin_columns left1 right1 s =
     (let m = ad_scrollMargins s in s\<lparr>ad_scrollMargins := IncRect left1 (ir_top m) right1 (ir_bottom m)\<rparr>)"

definition GetVerticalMargins :: "Page \<Rightarrow> bool \<Rightarrow> (int \<times> int) ad_op" where
  "GetVerticalMargins page absolute s =
     (let bottommostRow = page_Height page - 1;
          s = (if ir_top (ad_scrollMargins s) \<ge> bottommostRow then set_margin_rows 0 0 s else s);
          m = ad_scrollMargins s;
          marginsSet = ir_top m < ir_bottom m;
          topMargin = (if marginsSet then ir_top m else 0);
          bottomMargin = (if marginsSet then ir_bottom m else bottommostRow);
          bottomMargin = min bottomMargin bottommostRow
      in tb_return (if absolute then (topMargin + page_Top page, bottomMargin + page_Top page) else (topMargin, bottomMargin)) s)"

definition GetHorizontalMargins :: "int \<Rightarrow> (int \<times> int) ad_op" where
  "GetHorizontalMargins pageWidth s =
     (let rightmostColumn = pageWidth - 1;
          s = (if ir_left (ad_scrollMargins s) \<ge> rightmostColumn then set_margin_columns 0 0 s else s);
          m = ad_scrollMargins s;
          marginsSet = ir_left m < ir_right m;
          leftMargin = (if marginsSet then ir_left m else 0);
          rightMargin = (if marginsSet then ir_right m else rightmostColumn)
      in tb_return (leftMargin, min rightMargin rightmostColumn) s)"

subsection \<open>Moving the cursor\<close>

record MoveOffset =
  of_Value :: VTInt
  of_IsAbsolute :: bool

definition Offset_Absolute :: "VTInt \<Rightarrow> MoveOffset" where
  "Offset_Absolute value1 = \<lparr>of_Value = value1 - 1, of_IsAbsolute = True\<rparr>"

definition Offset_Forward :: "VTInt \<Rightarrow> MoveOffset" where
  "Offset_Forward value1 = \<lparr>of_Value = value1, of_IsAbsolute = False\<rparr>"

definition Offset_Backward :: "VTInt \<Rightarrow> MoveOffset" where
  "Offset_Backward value1 = \<lparr>of_Value = - value1, of_IsAbsolute = False\<rparr>"

definition Offset_Unchanged :: MoveOffset where
  "Offset_Unchanged = Offset_Forward 0"

definition keep_within :: "bool \<Rightarrow> int \<Rightarrow> bool \<Rightarrow> int \<Rightarrow> int \<Rightarrow> int" where
  "keep_within low first1 high last1 v =
     (let v = (if low then max v first1 else v) in if high then min v last1 else v)"

text \<open>The position \<open>_CursorMovePosition\<close> computes from the page, the margins, the mode and the position it starts from.\<close>

definition move_target :: "MoveOffset \<Rightarrow> MoveOffset \<Rightarrow> bool \<Rightarrow> bool \<Rightarrow> Page \<Rightarrow> int \<Rightarrow> int \<times> int \<Rightarrow> int \<times> int \<Rightarrow> point \<Rightarrow> point" where
  "move_target rowOffset colOffset clampInMargins origin page pageWidth vertical horizontal cursorPosition =
     (let (topMargin, bottomMargin) = vertical; (leftMargin, rightMargin) = horizontal;
          row = (if of_IsAbsolute rowOffset then (if origin then topMargin else page_Top page) else pt_y cursorPosition);
          col = (if of_IsAbsolute colOffset then (if origin then leftMargin else 0) else pt_x cursorPosition);
          row = std_clamp (row + of_Value rowOffset) (page_Top page) (page_Bottom page - 1);
          col = std_clamp (col + of_Value colOffset) 0 (pageWidth - 1)
      in if clampInMargins \<or> origin
         then (let inColumns = pt_x cursorPosition \<ge> leftMargin \<and> pt_x cursorPosition \<le> rightMargin;
                   row = keep_within (inColumns \<and> pt_y cursorPosition \<ge> topMargin) topMargin
                           (inColumns \<and> pt_y cursorPosition \<le> bottomMargin) bottomMargin row;
                   inRows = row \<ge> topMargin \<and> row \<le> bottomMargin;
                   col = keep_within (inRows \<and> pt_x cursorPosition \<ge> leftMargin) leftMargin
                           (inRows \<and> pt_x cursorPosition \<le> rightMargin) rightMargin col
               in Point col row)
         else Point col row)"

definition CursorMovePosition :: "MoveOffset \<Rightarrow> MoveOffset \<Rightarrow> bool \<Rightarrow> unit ad_op" where
  "CursorMovePosition rowOffset colOffset clampInMargins =
     tb_bind ActivePage (\<lambda>page.
     tb_bind (page_Width page) (\<lambda>pageWidth.
     tb_bind (page_Cursor page) (\<lambda>cursor.
     tb_bind (GetVerticalMargins page True) (\<lambda>vertical.
     tb_bind (GetHorizontalMargins pageWidth) (\<lambda>horizontal.
     tb_bind (tb_get (mode_set ModeOrigin)) (\<lambda>origin.
     tb_bind (on_page page (ClampPositionWithinLine
       (move_target rowOffset colOffset clampInMargins origin page pageWidth vertical horizontal (cu_cPosition cursor)))) (\<lambda>p.
     move_cursor page (SetPosition p))))))))"

definition CursorUp :: "VTInt \<Rightarrow> unit ad_op" where
  "CursorUp dist = CursorMovePosition (Offset_Backward dist) Offset_Unchanged True"

definition CursorDown :: "VTInt \<Rightarrow> unit ad_op" where
  "CursorDown dist = CursorMovePosition (Offset_Forward dist) Offset_Unchanged True"

definition CursorForward :: "VTInt \<Rightarrow> unit ad_op" where
  "CursorForward dist = CursorMovePosition Offset_Unchanged (Offset_Forward dist) True"

definition CursorBackward :: "VTInt \<Rightarrow> unit ad_op" where
  "CursorBackward dist = CursorMovePosition Offset_Unchanged (Offset_Backward dist) True"

definition CursorNextLine :: "VTInt \<Rightarrow> unit ad_op" where
  "CursorNextLine dist = CursorMovePosition (Offset_Forward dist) (Offset_Absolute 1) True"

definition CursorPrevLine :: "VTInt \<Rightarrow> unit ad_op" where
  "CursorPrevLine dist = CursorMovePosition (Offset_Backward dist) (Offset_Absolute 1) True"

definition CursorHorizontalPositionAbsolute :: "VTInt \<Rightarrow> unit ad_op" where
  "CursorHorizontalPositionAbsolute column = CursorMovePosition Offset_Unchanged (Offset_Absolute column) False"

definition VerticalLinePositionAbsolute :: "VTInt \<Rightarrow> unit ad_op" where
  "VerticalLinePositionAbsolute line = CursorMovePosition (Offset_Absolute line) Offset_Unchanged False"

definition HorizontalPositionRelative :: "VTInt \<Rightarrow> unit ad_op" where
  "HorizontalPositionRelative dist = CursorMovePosition Offset_Unchanged (Offset_Forward dist) False"

definition VerticalPositionRelative :: "VTInt \<Rightarrow> unit ad_op" where
  "VerticalPositionRelative dist = CursorMovePosition (Offset_Forward dist) Offset_Unchanged False"

definition CursorPosition :: "VTInt \<Rightarrow> VTInt \<Rightarrow> unit ad_op" where
  "CursorPosition line column = CursorMovePosition (Offset_Absolute line) (Offset_Absolute column) False"

definition CarriageReturn :: "unit ad_op" where
  "CarriageReturn = CursorMovePosition Offset_Unchanged (Offset_Absolute 1) True"

subsection \<open>Pages\<close>

definition PagePositionAbsolute :: "VTInt \<Rightarrow> unit ad_op" where
  "PagePositionAbsolute page s = MoveTo page (mode_set ModePageCursorCoupling s) s"

definition PagePositionRelative :: "VTInt \<Rightarrow> unit ad_op" where
  "PagePositionRelative pageCount s = MoveRelative pageCount (mode_set ModePageCursorCoupling s) s"

definition PagePositionBack :: "VTInt \<Rightarrow> unit ad_op" where
  "PagePositionBack pageCount s = MoveRelative (- pageCount) (mode_set ModePageCursorCoupling s) s"

definition NextPage :: "VTInt \<Rightarrow> unit ad_op" where
  "NextPage pageCount = tb_bind (PagePositionRelative pageCount) (\<lambda>_. CursorPosition 1 1)"

definition PrecedingPage :: "VTInt \<Rightarrow> unit ad_op" where
  "PrecedingPage pageCount = tb_bind (PagePositionBack pageCount) (\<lambda>_. CursorPosition 1 1)"

subsection \<open>The saved cursor\<close>

definition saved_index :: "DispatchState \<Rightarrow> nat" where
  "saved_index s = (if ad_usingAltBuffer s then 1 else 0)"

definition CursorSaveState :: "unit ad_op" where
  "CursorSaveState =
     tb_bind ActivePage (\<lambda>page.
     tb_bind (page_Cursor page) (\<lambda>cursor.
     tb_bind (tb_get (mode_set ModeOrigin)) (\<lambda>origin.
     tb_bind (page_Width page) (\<lambda>width.
     tb_bind (if origin then tb_bind (GetHorizontalMargins width) (\<lambda>(left1, _).
                tb_bind (GetVerticalMargins page False) (\<lambda>(top1, _). tb_return (Point left1 top1)))
              else tb_return (Point 0 0)) (\<lambda>home.
     tb_bind (page_Attributes page) (\<lambda>attributes.
     (let p = cu_cPosition cursor
      in tb_modify (\<lambda>s. s\<lparr>ad_savedCursorState := (ad_savedCursorState s)[saved_index s :=
           \<lparr>cs_Row = pt_y p - page_Top page - pt_y home + 1, cs_Column = pt_x p - pt_x home + 1, cs_Page = pg_number page,
            cs_IsDelayedEOLWrap = (cu_coordDelayedAt cursor \<noteq> None), cs_IsOriginModeRelative = origin,
            cs_Attributes = attributes, cs_TermOutput = ad_termOutput s\<rparr>]\<rparr>))))))))"

definition set_mode :: "nat \<Rightarrow> bool \<Rightarrow> unit ad_op" where
  "set_mode m enabled = tb_modify (\<lambda>s. s\<lparr>ad_modes := enumset_set_val m enabled (ad_modes s)\<rparr>)"

definition CursorRestoreState :: "unit ad_op" where
  "CursorRestoreState =
     tb_bind (tb_get (\<lambda>s. ad_savedCursorState s ! saved_index s)) (\<lambda>savedCursorState.
     tb_bind (set_mode ModeOrigin (cs_IsOriginModeRelative savedCursorState)) (\<lambda>_.
     tb_bind (PagePositionAbsolute (cs_Page savedCursorState)) (\<lambda>_.
     tb_bind (CursorPosition (cs_Row savedCursorState) (cs_Column savedCursorState)) (\<lambda>_.
     tb_bind ActivePage (\<lambda>page.
     tb_bind (if cs_IsDelayedEOLWrap savedCursorState then move_cursor page DelayEOLWrap else tb_return ()) (\<lambda>_.
     tb_bind (page_SetAttributes page (cs_Attributes savedCursorState)) (\<lambda>_.
     tb_modify (\<lambda>s. s\<lparr>ad_termOutput := RestoreFrom (cs_TermOutput savedCursorState) (ad_termOutput s)\<rparr>))))))))"

subsection \<open>Setting the margins\<close>

text \<open>The new margins of a page of a given extent for the numbers in the sequence, \<open>None\<close> if they are not valid.\<close>

definition requested_margins :: "VTInt \<Rightarrow> VTInt \<Rightarrow> int \<Rightarrow> (int \<times> int) option" where
  "requested_margins first1 last1 extent =
     (let actualFirst = (if first1 = 0 then 1 else first1); actualLast = (if last1 = 0 then extent else last1)
      in if actualFirst < actualLast \<and> actualLast \<le> extent
         then Some (if actualFirst = 1 \<and> actualLast = extent then (0, 0) else (actualFirst - 1, actualLast - 1))
         else None)"

definition DoSetTopBottomScrollingMargins :: "VTInt \<Rightarrow> VTInt \<Rightarrow> bool \<Rightarrow> unit ad_op" where
  "DoSetTopBottomScrollingMargins topMargin bottomMargin homeCursor =
     tb_bind ActivePage (\<lambda>page.
       case requested_margins topMargin bottomMargin (page_Height page) of
         None \<Rightarrow> tb_return ()
       | Some (top1, bottom1) \<Rightarrow>
           tb_bind (tb_modify (set_margin_rows top1 bottom1)) (\<lambda>_. if homeCursor then CursorPosition 1 1 else tb_return ()))"

definition SetTopBottomScrollingMargins :: "VTInt \<Rightarrow> VTInt \<Rightarrow> unit ad_op" where
  "SetTopBottomScrollingMargins topMargin bottomMargin = DoSetTopBottomScrollingMargins topMargin bottomMargin True"

definition DoSetLeftRightScrollingMargins :: "VTInt \<Rightarrow> VTInt \<Rightarrow> bool \<Rightarrow> unit ad_op" where
  "DoSetLeftRightScrollingMargins leftMargin rightMargin homeCursor =
     tb_bind ActivePage (\<lambda>page.
     tb_bind (page_Width page) (\<lambda>pageWidth.
       case requested_margins leftMargin rightMargin pageWidth of
         None \<Rightarrow> tb_return ()
       | Some (left1, right1) \<Rightarrow>
           tb_bind (tb_modify (set_margin_columns left1 right1)) (\<lambda>_. if homeCursor then CursorPosition 1 1 else tb_return ())))"

definition SetLeftRightScrollingMargins :: "VTInt \<Rightarrow> VTInt \<Rightarrow> unit ad_op" where
  "SetLeftRightScrollingMargins leftMargin rightMargin s =
     (if mode_set ModeAllowDECSLRM s then DoSetLeftRightScrollingMargins leftMargin rightMargin True s else CursorSaveState s)"

subsection \<open>Tab stops\<close>

definition default_tab_stops :: "nat \<Rightarrow> bool list \<Rightarrow> bool list" where
  "default_tab_stops initialWidth stops =
     fold (\<lambda>column stops. if column \<ge> initialWidth then stops[column := True] else stops)
       (filter (\<lambda>column. column mod 8 = 0) [8..<length stops]) stops"

text \<open>\<open>gsl::narrow\<close> throws for a negative width.\<close>

definition InitTabStopsForWidth :: "int \<Rightarrow> unit ad_op" where
  "InitTabStopsForWidth width s =
     (if width < 0 then tb_throw s
      else (let screenWidth = nat width; initialWidth = length (ad_tabStopColumns s)
            in if screenWidth > initialWidth
               then (let stops = ad_tabStopColumns s @ replicate (screenWidth - initialWidth) False
                     in tb_return () (s\<lparr>ad_tabStopColumns := (if ad_initDefaultTabStops s then default_tab_stops initialWidth stops else stops)\<rparr>))
               else tb_return () s))"

text \<open>\<open>at\<close> of the vector of tab stops throws for a column outside of it.\<close>

definition set_tab_stop :: "int \<Rightarrow> bool \<Rightarrow> unit ad_op" where
  "set_tab_stop column stop s =
     (if 0 \<le> column \<and> nat column < length (ad_tabStopColumns s)
      then tb_return () (s\<lparr>ad_tabStopColumns := (ad_tabStopColumns s)[nat column := stop]\<rparr>) else tb_throw s)"

definition tab_stop_here :: "bool \<Rightarrow> unit ad_op" where
  "tab_stop_here stop =
     tb_bind ActivePage (\<lambda>page.
     tb_bind (page_Cursor page) (\<lambda>cursor.
     tb_bind (page_Width page) (\<lambda>width.
     tb_bind (InitTabStopsForWidth width) (\<lambda>_. set_tab_stop (pt_x (cu_cPosition cursor)) stop))))"

definition HorizontalTabSet :: "unit ad_op" where
  "HorizontalTabSet = tab_stop_here True"

text \<open>The loops of the tabs; \<open>til::at\<close> does not check its index.\<close>

function tab_forward :: "bool list \<Rightarrow> int \<Rightarrow> int \<Rightarrow> int \<Rightarrow> int outcome" where
  "tab_forward stops maxColumn column tabs =
     (if column < maxColumn \<and> 0 < tabs
      then obind (if 0 \<le> column + 1 then peek stops (nat (column + 1)) else OutOfBounds)
             (\<lambda>stop. tab_forward stops maxColumn (column + 1) (if stop then tabs - 1 else tabs))
      else Done column)"
  by pat_completeness auto
termination by (relation "measure (\<lambda>(stops, maxColumn, column, tabs). nat (maxColumn - column))") auto

function tab_backward :: "bool list \<Rightarrow> int \<Rightarrow> int \<Rightarrow> int \<Rightarrow> int outcome" where
  "tab_backward stops minColumn column tabs =
     (if column > minColumn \<and> 0 < tabs
      then obind (if 0 \<le> column - 1 then peek stops (nat (column - 1)) else OutOfBounds)
             (\<lambda>stop. tab_backward stops minColumn (column - 1) (if stop then tabs - 1 else tabs))
      else Done column)"
  by pat_completeness auto
termination by (relation "measure (\<lambda>(stops, minColumn, column, tabs). nat (column - minColumn))") auto

declare tab_forward.simps [simp del] tab_backward.simps [simp del]

definition ForwardTab :: "VTInt \<Rightarrow> unit ad_op" where
  "ForwardTab numTabs =
     tb_bind ActivePage (\<lambda>page.
     tb_bind (page_Cursor page) (\<lambda>cursor.
     (let column = pt_x (cu_cPosition cursor); row = pt_y (cu_cPosition cursor)
      in tb_bind (on_page page (GetLineWidth row)) (\<lambda>width.
         tb_bind (GetVerticalMargins page True) (\<lambda>(topMargin, bottomMargin).
         tb_bind (GetHorizontalMargins width) (\<lambda>(leftMargin, rightMargin).
         (let clampToMargin = row \<ge> topMargin \<and> row \<le> bottomMargin \<and> column \<le> rightMargin;
              maxColumn = (if clampToMargin then rightMargin else width - 1)
          in tb_bind (InitTabStopsForWidth width) (\<lambda>_.
             tb_bind (tb_get ad_tabStopColumns) (\<lambda>stops.
             tb_bind (tb_read (tab_forward stops maxColumn column numTabs)) (\<lambda>column.
             tb_bind (move_cursor page (SetXPosition column)) (\<lambda>_.
             if cu_coordDelayedAt cursor \<noteq> None then move_cursor page DelayEOLWrap else tb_return ())))))))))))"

definition BackwardsTab :: "VTInt \<Rightarrow> unit ad_op" where
  "BackwardsTab numTabs =
     tb_bind ActivePage (\<lambda>page.
     tb_bind (page_Cursor page) (\<lambda>cursor.
     (let column = pt_x (cu_cPosition cursor); row = pt_y (cu_cPosition cursor)
      in tb_bind (on_page page (GetLineWidth row)) (\<lambda>width.
         tb_bind (GetVerticalMargins page True) (\<lambda>(topMargin, bottomMargin).
         tb_bind (GetHorizontalMargins width) (\<lambda>(leftMargin, rightMargin).
         (let clampToMargin = row \<ge> topMargin \<and> row \<le> bottomMargin \<and> column \<ge> leftMargin;
              minColumn = (if clampToMargin then leftMargin else 0)
          in tb_bind (InitTabStopsForWidth width) (\<lambda>_.
             tb_bind (tb_get ad_tabStopColumns) (\<lambda>stops.
             tb_bind (tb_read (tab_backward stops minColumn column numTabs)) (\<lambda>column.
             move_cursor page (SetXPosition column)))))))))))"

definition ClearSingleTabStop :: "unit ad_op" where
  "ClearSingleTabStop = tab_stop_here False"

definition ClearAllTabStops :: "DispatchState \<Rightarrow> DispatchState" where
  "ClearAllTabStops s = s\<lparr>ad_tabStopColumns := [], ad_initDefaultTabStops := False\<rparr>"

text \<open>The parameters of \<open>TBC\<close>: 0 is \<open>ClearCurrentColumn\<close>, 3 is \<open>ClearAllColumns\<close>; the one of \<open>DECST8C\<close>: 5 is \<open>SetEvery8Columns\<close>.\<close>

definition TabClear :: "VTInt \<Rightarrow> unit ad_op" where
  "TabClear clearType =
     (if clearType = 0 then ClearSingleTabStop
      else if clearType = 3 then tb_modify ClearAllTabStops
      else tb_return ())"

definition TabSet :: "VTParameter \<Rightarrow> DispatchState \<Rightarrow> DispatchState" where
  "TabSet setType s =
     (if VTParameter_value_or setType 5 = 5 then s\<lparr>ad_tabStopColumns := [], ad_initDefaultTabStops := True\<rparr> else s)"

end
