(* ===== verification/Adapt_Moves.thy ===== *)
theory Adapt_Moves
  imports Adapt_Cursor
begin

text \<open>
  What the movements of the cursor do: they come to their end, keep the cursor in the page and in its line, and change
  nothing else of the screen.
\<close>

subsection \<open>The active page and its buffer\<close>

text \<open>
  The page \<open>ActivePage\<close> returns and its buffer: the visible one, or the one of a page in the background that already has
  the size of the screen.
\<close>

definition page_here :: "DispatchState \<Rightarrow> Page \<Rightarrow> TextBuffer \<Rightarrow> bool" where
  "page_here s page tb \<longleftrightarrow>
     (let (viewport, isMain) = GetBufferAndViewport s; n = ad_activePageNumber s
      in 1 \<le> n \<and> n \<le> MAX_PAGES \<and>
         (if \<not> isMain \<or> n = ad_visiblePageNumber s
          then page = \<lparr>pg_buffer = VisibleBuffer, pg_viewport = viewport, pg_number = if isMain then n else 1\<rparr> \<and> tb = activeBuffer s
          else rect_size viewport = Some (Dimensions (tb_GetSize tb)) \<and>
            page = \<lparr>pg_buffer = PageBuffer (nat (n - 1)), pg_viewport = rect_of_size (Dimensions (tb_GetSize tb)), pg_number = n\<rparr> \<and>
            nat (n - 1) < length (ad_pageBuffers s) \<and> ad_pageBuffers s ! nat (n - 1) = Some tb))"

lemma activeBuffer_set [simp]: "activeBuffer (set_activeBuffer tb s) = tb"
  by (simp add: activeBuffer_def set_activeBuffer_def split: option.split)

lemma set_buffer_at_simps [simp]:
  "GetBufferAndViewport (set_buffer_at ref tb s) = GetBufferAndViewport s"
  "ad_activePageNumber (set_buffer_at ref tb s) = ad_activePageNumber s"
  "ad_visiblePageNumber (set_buffer_at ref tb s) = ad_visiblePageNumber s"
  "ad_scrollMargins (set_buffer_at ref tb s) = ad_scrollMargins s" "ad_modes (set_buffer_at ref tb s) = ad_modes s"
  "ad_tabStopColumns (set_buffer_at ref tb s) = ad_tabStopColumns s"
  "ad_initDefaultTabStops (set_buffer_at ref tb s) = ad_initDefaultTabStops s"
  "ad_savedCursorState (set_buffer_at ref tb s) = ad_savedCursorState s" "ad_usingAltBuffer (set_buffer_at ref tb s) = ad_usingAltBuffer s"
  "ad_termOutput (set_buffer_at ref tb s) = ad_termOutput s" "ad_systemMode (set_buffer_at ref tb s) = ad_systemMode s"
  "activeBuffer (set_buffer_at VisibleBuffer tb s) = tb"
  "ad_pageBuffers (set_buffer_at (PageBuffer i) tb s) = (ad_pageBuffers s)[i := Some tb]"
  "length (ad_pageBuffers (set_buffer_at ref tb s)) = length (ad_pageBuffers s)"
  by (auto simp: set_buffer_at_def set_activeBuffer_def GetBufferAndViewport_def GetMutableViewport_def inAltBuffer_def activeBuffer_def
      split: BufferRef.split option.split)

lemma buffer_at_set: "buffer_at ref s = Done tb0 \<Longrightarrow> buffer_at ref (set_buffer_at ref tb s) = Done tb"
  by (auto simp: buffer_at_def set_buffer_at_def split: BufferRef.splits if_splits)

lemma set_buffer_at_twice [simp]: "set_buffer_at ref tb (set_buffer_at ref tb0 s) = set_buffer_at ref tb s"
  by (auto simp: set_buffer_at_def set_activeBuffer_def split: BufferRef.split option.split)

lemma size_of_rect_cases: "size_of_rect r s = (case rect_size r of Some sz \<Rightarrow> Done (s, Some sz) | None \<Rightarrow> Done (s, None))"
  by (simp add: size_of_rect_def tb_throw_def split: option.split)

lemma page_here_page:
  assumes "page_here s page tb"
  shows "ActivePage s = Done (s, Some page)" and "buffer_at (pg_buffer page) s = Done tb"
proof -
  obtain viewport isMain where pair: "GetBufferAndViewport s = (viewport, isMain)" by (cases "GetBufferAndViewport s")
  have "ActivePage s = Done (s, Some page) \<and> buffer_at (pg_buffer page) s = Done tb"
  proof (cases "\<not> isMain \<or> ad_activePageNumber s = ad_visiblePageNumber s")
    case True
    then show ?thesis using assms by (auto simp: page_here_def pair ActivePage_def PageManager_Get_def clamp_page_def buffer_at_def Let_def)
  next
    case False
    then show ?thesis using assms
      by (auto simp: page_here_def pair ActivePage_def PageManager_Get_def clamp_page_def buffer_at_def getBuffer_def size_of_rect_cases Let_def)
  qed
  then show "ActivePage s = Done (s, Some page)" "buffer_at (pg_buffer page) s = Done tb" by auto
qed

lemma page_here_set:
  assumes "page_here s page tb" and "tb_GetSize tb' = tb_GetSize tb"
  shows "page_here (set_buffer_at (pg_buffer page) tb' s) page tb'"
  using assms by (cases "GetBufferAndViewport s") (auto simp: page_here_def Let_def split: if_splits)

lemma page_here_other:
  assumes "page_here s page tb" and "GetBufferAndViewport s' = GetBufferAndViewport s" "activeBuffer s' = activeBuffer s"
    "ad_activePageNumber s' = ad_activePageNumber s" "ad_visiblePageNumber s' = ad_visiblePageNumber s" "ad_pageBuffers s' = ad_pageBuffers s"
  shows "page_here s' page tb"
  using assms unfolding page_here_def by (simp only:)

lemma screen_fields [simp]:
  "GetBufferAndViewport (s\<lparr>ad_scrollMargins := m\<rparr>) = GetBufferAndViewport s" "activeBuffer (s\<lparr>ad_scrollMargins := m\<rparr>) = activeBuffer s"
  "GetBufferAndViewport (s\<lparr>ad_modes := e\<rparr>) = GetBufferAndViewport s" "activeBuffer (s\<lparr>ad_modes := e\<rparr>) = activeBuffer s"
  "GetBufferAndViewport (s\<lparr>ad_tabStopColumns := t\<rparr>) = GetBufferAndViewport s" "activeBuffer (s\<lparr>ad_tabStopColumns := t\<rparr>) = activeBuffer s"
  "GetBufferAndViewport (s\<lparr>ad_initDefaultTabStops := i\<rparr>) = GetBufferAndViewport s" "activeBuffer (s\<lparr>ad_initDefaultTabStops := i\<rparr>) = activeBuffer s"
  "GetBufferAndViewport (s\<lparr>ad_savedCursorState := c\<rparr>) = GetBufferAndViewport s" "activeBuffer (s\<lparr>ad_savedCursorState := c\<rparr>) = activeBuffer s"
  "GetBufferAndViewport (s\<lparr>ad_termOutput := x\<rparr>) = GetBufferAndViewport s" "activeBuffer (s\<lparr>ad_termOutput := x\<rparr>) = activeBuffer s"
  by (simp_all add: GetBufferAndViewport_def GetMutableViewport_def inAltBuffer_def activeBuffer_def split: option.split)

lemma page_here_fields [simp]:
  "page_here (s\<lparr>ad_scrollMargins := m\<rparr>) = page_here s" "page_here (s\<lparr>ad_modes := e\<rparr>) = page_here s"
  "page_here (s\<lparr>ad_tabStopColumns := t\<rparr>) = page_here s" "page_here (s\<lparr>ad_initDefaultTabStops := i\<rparr>) = page_here s"
  "page_here (s\<lparr>ad_savedCursorState := c\<rparr>) = page_here s" "page_here (s\<lparr>ad_termOutput := x\<rparr>) = page_here s"
  by (simp_all add: page_here_def fun_eq_iff)

text \<open>An operation of the buffer, on the active page.\<close>

lemma on_page_run:
  assumes "page_here s page tb" and "m tb = Done (tb', r)"
  shows "on_page page m s = Done (set_buffer_at (pg_buffer page) tb' s, r)"
  using page_here_page(2) [OF assms(1)] assms(2) by (simp add: on_page_def on_buffer_def)

lemma set_buffer_at_same:
  assumes "page_here s page tb"
  shows "set_buffer_at (pg_buffer page) tb s = s"
  using assms
  by (cases "GetBufferAndViewport s")
    (auto simp: page_here_def set_buffer_at_def set_activeBuffer_def activeBuffer_def list_update_same_conv Let_def split: if_splits option.splits)

lemma page_reads:
  assumes "page_here s page tb"
  shows "page_Width page s = Done (s, Some (int (tb_width tb)))" "page_BufferHeight page s = Done (s, Some (int (tb_height tb)))"
    "page_Cursor page s = Done (s, Some (tb_cursor tb))" "page_Attributes page s = Done (s, Some (tb_currentAttributes tb))"
proof -
  have "on_page page (tb_get f) s = Done (s, Some (f tb))" for f :: "TextBuffer \<Rightarrow> 'a"
    using on_page_run [OF assms, of "tb_get f" tb "Some (f tb)"] set_buffer_at_same [OF assms] by simp
  then show "page_Width page s = Done (s, Some (int (tb_width tb)))" "page_BufferHeight page s = Done (s, Some (int (tb_height tb)))"
    "page_Cursor page s = Done (s, Some (tb_cursor tb))" "page_Attributes page s = Done (s, Some (tb_currentAttributes tb))"
    by (simp_all add: page_Width_def page_BufferHeight_def page_Cursor_def page_Attributes_def tb_GetSize_def FromDimensions_def
        Width_def Height_def RightExclusive_def Left_def BottomExclusive_def Top_def RightInclusive_def BottomInclusive_def)
qed

subsection \<open>Margins\<close>

text \<open>The margins of a page in coordinates of its buffer, and the columns between the margins.\<close>

definition row_margins :: "Page \<Rightarrow> DispatchState \<Rightarrow> int \<times> int" where
  "row_margins page s =
     (let m = ad_scrollMargins s; h = page_Height page
      in if ir_top m < h - 1 \<and> ir_top m < ir_bottom m then (page_Top page + ir_top m, page_Top page + min (ir_bottom m) (h - 1))
         else (page_Top page, page_Bottom page - 1))"

definition column_margins :: "int \<Rightarrow> DispatchState \<Rightarrow> int \<times> int" where
  "column_margins w s =
     (let m = ad_scrollMargins s
      in if ir_left m < w - 1 \<and> ir_left m < ir_right m then (ir_left m, min (ir_right m) (w - 1)) else (0, w - 1))"

text \<open>Margins that do not fit are forgotten when they are asked for.\<close>

definition fit_rows :: "Page \<Rightarrow> DispatchState \<Rightarrow> DispatchState" where
  "fit_rows page s = (if ir_top (ad_scrollMargins s) \<ge> page_Height page - 1 then set_margin_rows 0 0 s else s)"

definition fit_columns :: "int \<Rightarrow> DispatchState \<Rightarrow> DispatchState" where
  "fit_columns w s = (if ir_left (ad_scrollMargins s) \<ge> w - 1 then set_margin_columns 0 0 s else s)"

lemma GetVerticalMargins_run:
  "GetVerticalMargins page absolute s = Done (fit_rows page s, Some (if absolute then row_margins page s
     else (fst (row_margins page s) - page_Top page, snd (row_margins page s) - page_Top page)))"
  by (auto simp: GetVerticalMargins_def fit_rows_def row_margins_def set_margin_rows_def page_Height_def Let_def)

lemma GetHorizontalMargins_run: "GetHorizontalMargins w s = Done (fit_columns w s, Some (column_margins w s))"
  by (auto simp: GetHorizontalMargins_def fit_columns_def column_margins_def set_margin_columns_def Let_def)

lemma fit_simps [simp]:
  "page_here (fit_rows page' s) = page_here s" "page_here (fit_columns w s) = page_here s"
  "ad_modes (fit_rows page s) = ad_modes s" "ad_modes (fit_columns w s) = ad_modes s"
  "ad_tabStopColumns (fit_rows page s) = ad_tabStopColumns s" "ad_tabStopColumns (fit_columns w s) = ad_tabStopColumns s"
  "ad_savedCursorState (fit_rows page s) = ad_savedCursorState s" "ad_savedCursorState (fit_columns w s) = ad_savedCursorState s"
  "ad_usingAltBuffer (fit_rows page s) = ad_usingAltBuffer s" "ad_usingAltBuffer (fit_columns w s) = ad_usingAltBuffer s"
  "ad_termOutput (fit_rows page s) = ad_termOutput s" "ad_termOutput (fit_columns w s) = ad_termOutput s"
  "ad_initDefaultTabStops (fit_rows page s) = ad_initDefaultTabStops s" "ad_initDefaultTabStops (fit_columns w s) = ad_initDefaultTabStops s"
  "column_margins w (fit_rows page s) = column_margins w s" "row_margins page (fit_columns w s) = row_margins page s"
  by (auto simp: fit_rows_def fit_columns_def set_margin_rows_def set_margin_columns_def column_margins_def row_margins_def Let_def)

definition margins_ok :: "DispatchState \<Rightarrow> bool" where
  "margins_ok s \<longleftrightarrow> 0 \<le> ir_top (ad_scrollMargins s) \<and> 0 \<le> ir_left (ad_scrollMargins s)"

lemma fit_margins [simp]:
  "margins_ok s \<Longrightarrow> margins_ok (fit_rows page s)" "margins_ok s \<Longrightarrow> margins_ok (fit_columns w s)"
  by (simp_all add: margins_ok_def fit_rows_def fit_columns_def set_margin_rows_def set_margin_columns_def Let_def)

lemma row_margins_bounds:
  assumes "margins_ok s" "page_Top page < page_Bottom page" "row_margins page s = (t, b)"
  shows "page_Top page \<le> t" "t \<le> b" "b < page_Bottom page"
  using assms by (auto simp: row_margins_def margins_ok_def page_Height_def Let_def split: if_splits)

lemma column_margins_bounds:
  assumes "margins_ok s" "0 < w" "column_margins w s = (l, r)"
  shows "0 \<le> l" "l \<le> r" "r < w"
  using assms by (auto simp: column_margins_def margins_ok_def Let_def split: if_splits)

subsection \<open>Movements\<close>

text \<open>The width of a line: half of the columns, if its characters are twice as wide.\<close>

definition line_width :: "int \<Rightarrow> TextBuffer \<Rightarrow> int" where
  "line_width y tb = (if row_lineRendition (tb_line y tb) = SingleWidth then int (tb_width tb) else int (tb_width tb) div 2)"

definition clamp_in_line :: "point \<Rightarrow> TextBuffer \<Rightarrow> point" where
  "clamp_in_line p tb = Point (min (pt_x p) (line_width (pt_y p) tb - 1)) (pt_y p)"

lemma GetLineWidth_line:
  assumes "tb_ok tb"
  shows "\<exists>tb'. GetLineWidth y tb = Done (tb', Some (line_width y tb)) \<and> tb_ok tb' \<and> tb_frame tb tb' \<and> tb_lines tb' = tb_lines tb"
proof -
  obtain t where t: "line_scale y tb = Done (t, Some (if row_lineRendition (tb_line y tb) = SingleWidth then 0 else 1))"
      "tb_ok t" "tb_frame tb t" "tb_lines t = tb_lines tb"
    using line_scale_line [OF assms] by blast
  have "Width (tb_GetSize t) = int (tb_width tb)"
    using tb_frame_simps(2) [OF t(3)]
    by (simp add: tb_GetSize_def FromDimensions_def Width_def RightExclusive_def Left_def RightInclusive_def)
  then show ?thesis using t by (auto simp: GetLineWidth_def line_width_def half_bounds)
qed

lemma ClampPositionWithinLine_line:
  assumes "tb_ok tb"
  shows "\<exists>tb'. ClampPositionWithinLine p tb = Done (tb', Some (clamp_in_line p tb)) \<and> tb_ok tb' \<and> tb_frame tb tb' \<and> tb_lines tb' = tb_lines tb"
proof -
  obtain t where "GetLineWidth (pt_y p) tb = Done (t, Some (line_width (pt_y p) tb))" "tb_ok t" "tb_frame tb t" "tb_lines t = tb_lines tb"
    using GetLineWidth_line [OF assms] by blast
  then show ?thesis by (auto simp: ClampPositionWithinLine_def clamp_in_line_def)
qed

text \<open>On a page of a single column a line of double width has no column at all, and the clamped cursor is left of it.\<close>

lemma narrow_line_position:
  "tb_width tb = 1 \<Longrightarrow> row_lineRendition (tb_line y tb) \<noteq> SingleWidth \<Longrightarrow> 0 \<le> x \<Longrightarrow> clamp_in_line (Point x y) tb = Point (- 1) y"
  by (simp add: clamp_in_line_def line_width_def)

definition page_ok :: "Page \<Rightarrow> TextBuffer \<Rightarrow> bool" where
  "page_ok page tb \<longleftrightarrow> tb_ok tb \<and> 2 \<le> tb_width tb \<and> 0 \<le> page_Top page \<and> page_Top page < page_Bottom page \<and> page_Bottom page \<le> int (tb_height tb)"

definition cursor_in_page :: "Page \<Rightarrow> TextBuffer \<Rightarrow> bool" where
  "cursor_in_page page tb \<longleftrightarrow>
     (let p = cu_cPosition (tb_cursor tb)
      in page_Top page \<le> pt_y p \<and> pt_y p < page_Bottom page \<and> 0 \<le> pt_x p \<and> pt_x p < line_width (pt_y p) tb)"

lemma std_clamp_bounds: "lo \<le> hi \<Longrightarrow> lo \<le> std_clamp v lo hi \<and> std_clamp v lo hi \<le> hi"
  by (simp add: std_clamp_def)

lemma keep_within_bounds:
  "lo \<le> v \<Longrightarrow> v \<le> hi \<Longrightarrow> lo \<le> a \<Longrightarrow> a \<le> hi \<Longrightarrow> lo \<le> b \<Longrightarrow> b \<le> hi \<Longrightarrow> lo \<le> keep_within A a B b v \<and> keep_within A a B b v \<le> hi"
  by (auto simp: keep_within_def)

lemma move_target_bounds:
  assumes "page_Top page < page_Bottom page" "0 < w" "page_Top page \<le> t" "t \<le> b" "b < page_Bottom page" "0 \<le> l" "l \<le> r" "r < w"
    "q = move_target ro co cl og page w (t, b) (l, r) p"
  shows "page_Top page \<le> pt_y q" "pt_y q < page_Bottom page" "0 \<le> pt_x q" "pt_x q < w"
proof -
  let ?row = "std_clamp ((if of_IsAbsolute ro then (if og then t else page_Top page) else pt_y p) + of_Value ro) (page_Top page) (page_Bottom page - 1)"
  let ?col = "std_clamp ((if of_IsAbsolute co then (if og then l else 0) else pt_x p) + of_Value co) 0 (w - 1)"
  have row: "page_Top page \<le> ?row \<and> ?row \<le> page_Bottom page - 1" and col: "0 \<le> ?col \<and> ?col \<le> w - 1"
    using assms(1,2) by (intro std_clamp_bounds, simp)+
  have row': "page_Top page \<le> keep_within A t B b ?row \<and> keep_within A t B b ?row \<le> page_Bottom page - 1" for A B
    using assms(3-5) row by (intro keep_within_bounds) auto
  have col': "0 \<le> keep_within A l B r ?col \<and> keep_within A l B r ?col \<le> w - 1" for A B
    using assms(6-8) col by (intro keep_within_bounds) auto
  have "page_Top page \<le> pt_y q \<and> pt_y q \<le> page_Bottom page - 1 \<and> 0 \<le> pt_x q \<and> pt_x q \<le> w - 1"
  proof (cases "cl \<or> og")
    case True
    have "\<exists>A B C D. q = Point (keep_within C l D r ?col) (keep_within A t B b ?row)"
      unfolding assms(9) move_target_def Let_def prod.case if_P [OF True] by (intro exI, rule refl)
    then obtain A B C D where "q = Point (keep_within C l D r ?col) (keep_within A t B b ?row)" by blast
    then show ?thesis using row' [of A B] col' [of C D] by (simp only: point.sel)
  next
    case False
    have "q = Point ?col ?row" unfolding assms(9) move_target_def Let_def prod.case if_not_P [OF False] by (rule refl)
    then show ?thesis using row col by (simp only: point.sel)
  qed
  then show "page_Top page \<le> pt_y q" "pt_y q < page_Bottom page" "0 \<le> pt_x q" "pt_x q < w" by auto
qed

text \<open>What a movement leaves of the state: a buffer with the same lines and another cursor, and the same modes and tab stops.\<close>

definition same_screen :: "TextBuffer \<Rightarrow> TextBuffer \<Rightarrow> bool" where
  "same_screen tb tb' \<longleftrightarrow> tb_ok tb' \<and> tb_lines tb' = tb_lines tb \<and> tb_width tb' = tb_width tb \<and> tb_height tb' = tb_height tb \<and>
     tb_currentAttributes tb' = tb_currentAttributes tb"

lemma same_screen_trans: "same_screen s t \<Longrightarrow> same_screen t u \<Longrightarrow> same_screen s u"
  by (simp add: same_screen_def)

lemma same_screen_frame: "tb_ok tb' \<Longrightarrow> tb_frame tb tb' \<Longrightarrow> tb_lines tb' = tb_lines tb \<Longrightarrow> same_screen tb tb'"
  by (simp add: same_screen_def tb_frame_simps)

lemma tb_lines_cursor [simp]: "tb_lines (tb\<lparr>tb_cursor := c\<rparr>) = tb_lines tb" "tb_lines (tb\<lparr>tb_currentAttributes := a\<rparr>) = tb_lines tb"
  by (simp_all add: tb_lines_def slot_at_def slot_of_def)

lemma same_screen_cursor [simp]: "same_screen tb (tb'\<lparr>tb_cursor := c\<rparr>) = same_screen tb tb'"
  by (simp add: same_screen_def)

lemma same_screen_views:
  assumes "same_screen tb tb'"
  shows "line_width y tb' = line_width y tb" "clamp_in_line p tb' = clamp_in_line p tb" "tb_GetSize tb' = tb_GetSize tb"
    "page_ok page tb \<Longrightarrow> page_ok page tb'"
  using assms by (simp_all add: same_screen_def line_width_def clamp_in_line_def tb_line_def tb_GetSize_def page_ok_def)

lemma move_cursor_run:
  assumes "page_here s page tb"
  shows "move_cursor page f s = Done (set_buffer_at (pg_buffer page) (tb\<lparr>tb_cursor := f (tb_cursor tb)\<rparr>) s, Some ())"
  unfolding move_cursor_def by (rule on_page_run [OF assms]) simp

lemma CursorMovePosition_run:
  assumes here: "page_here s page tb" and ok: "page_ok page tb"
  shows "\<exists>tb'. CursorMovePosition ro co cl s = Done (set_buffer_at (pg_buffer page) tb' (fit_columns (int (tb_width tb)) (fit_rows page s)), Some ()) \<and>
    same_screen tb tb' \<and> tb_cursor tb' = SetPosition (clamp_in_line (move_target ro co cl (mode_set ModeOrigin s) page (int (tb_width tb))
      (row_margins page s) (column_margins (int (tb_width tb)) s) (cu_cPosition (tb_cursor tb))) tb) (tb_cursor tb)"
proof -
  let ?w = "int (tb_width tb)"
  let ?s = "fit_columns ?w (fit_rows page s)"
  let ?p = "move_target ro co cl (mode_set ModeOrigin s) page ?w (row_margins page s) (column_margins ?w s) (cu_cPosition (tb_cursor tb))"
  have here': "page_here ?s page tb" using here by simp
  obtain t where t: "ClampPositionWithinLine ?p tb = Done (t, Some (clamp_in_line ?p tb))" "tb_ok t" "tb_frame tb t" "tb_lines t = tb_lines tb"
    using ClampPositionWithinLine_line ok unfolding page_ok_def by blast
  have same: "same_screen tb t" by (rule same_screen_frame [OF t(2-4)])
  let ?s' = "set_buffer_at (pg_buffer page) t ?s"
  have clamp: "on_page page (ClampPositionWithinLine ?p) ?s = Done (?s', Some (clamp_in_line ?p tb))"
    by (rule on_page_run [OF here']) (rule t(1))
  have here'': "page_here ?s' page t" by (rule page_here_set [OF here' same_screen_views(3) [OF same]])
  have "CursorMovePosition ro co cl s = Done (set_buffer_at (pg_buffer page) (t\<lparr>tb_cursor := SetPosition (clamp_in_line ?p tb) (tb_cursor t)\<rparr>) ?s, Some ())"
    using page_here_page(1) [OF here] page_reads [OF here] clamp move_cursor_run [OF here'']
    by (simp add: CursorMovePosition_def GetVerticalMargins_run GetHorizontalMargins_run)
  moreover have "tb_cursor t = tb_cursor tb" using t(3) by (rule tb_frame_simps)
  ultimately show ?thesis using same by (intro exI [of _ "t\<lparr>tb_cursor := SetPosition (clamp_in_line ?p tb) (tb_cursor t)\<rparr>"]) simp
qed

subsection \<open>Operations that keep an invariant\<close>

text \<open>
  The interface between a state and the operations on it: an invariant, and a relation between the states before and
  after that can be composed. An operation keeps them if it comes to its end, with the invariant, in a related state.
\<close>

locale kept_invariant =
  fixes inv :: "'s \<Rightarrow> bool"
    and related :: "'s \<Rightarrow> 's \<Rightarrow> bool"
  assumes related_refl: "inv s \<Longrightarrow> related s s"
    and related_trans: "related s t \<Longrightarrow> related t u \<Longrightarrow> related s u"
begin

definition keeps :: "('s, 'a) st_op \<Rightarrow> bool" where
  "keeps m \<longleftrightarrow> (\<forall>s. inv s \<longrightarrow> (\<exists>s' x. m s = Done (s', Some x) \<and> inv s' \<and> related s s'))"

lemma keepsI: "(\<And>s. inv s \<Longrightarrow> \<exists>s' x. m s = Done (s', Some x) \<and> inv s' \<and> related s s') \<Longrightarrow> keeps m"
  by (simp add: keeps_def)

lemma keepsD: "keeps m \<Longrightarrow> inv s \<Longrightarrow> \<exists>s' x. m s = Done (s', Some x) \<and> inv s' \<and> related s s'"
  by (simp add: keeps_def)

lemma keeps_return: "keeps (tb_return x)"
  by (rule keepsI) (simp add: related_refl)

lemma keeps_modify: "(\<And>s. inv s \<Longrightarrow> inv (f s) \<and> related s (f s)) \<Longrightarrow> keeps (tb_modify f)"
  by (rule keepsI) simp

lemma keeps_bind:
  assumes "keeps m" and "\<And>x. keeps (f x)"
  shows "keeps (tb_bind m f)"
proof (rule keepsI)
  fix s assume "inv s"
  then obtain t x where t: "m s = Done (t, Some x)" "inv t" "related s t" using keepsD [OF assms(1)] by blast
  obtain u y where "f x t = Done (u, Some y)" "inv u" "related t u" using keepsD [OF assms(2) t(2)] by blast
  then show "\<exists>s' x. tb_bind m f s = Done (s', Some x) \<and> inv s' \<and> related s s'" using t related_trans by auto
qed

lemma keeps_for: "(\<And>i. keeps (body i)) \<Longrightarrow> keeps (tb_for is body)"
  by (induction "is") (simp_all only: tb_for.simps keeps_return keeps_bind)

end

subsection \<open>The invariant of the screen\<close>

definition screen_ok :: "DispatchState \<Rightarrow> bool" where
  "screen_ok s \<longleftrightarrow> margins_ok s \<and> (\<exists>page tb. page_here s page tb \<and> page_ok page tb \<and> cursor_in_page page tb)"

definition same_page :: "DispatchState \<Rightarrow> DispatchState \<Rightarrow> bool" where
  "same_page s s' \<longleftrightarrow> (\<exists>page tb tb'. page_here s page tb \<and> page_here s' page tb' \<and> same_screen tb tb')"

lemma page_here_unique: "page_here s page tb \<Longrightarrow> page_here s page' tb' \<Longrightarrow> page' = page \<and> tb' = tb"
  using page_here_page [of s page tb] page_here_page [of s page' tb'] by simp

interpretation screen: kept_invariant screen_ok same_page
proof
  fix s assume "screen_ok s"
  then obtain page tb where "page_here s page tb" "page_ok page tb" unfolding screen_ok_def by blast
  then show "same_page s s" by (auto simp: same_page_def same_screen_def page_ok_def)
next
  fix s t u assume "same_page s t" "same_page t u"
  then show "same_page s u" unfolding same_page_def using page_here_unique same_screen_trans by metis
qed

text \<open>How the invariant is established again, after an operation of the active page.\<close>

lemma screen_okI:
  assumes here: "page_here s page tb" and ok: "page_ok page tb" and rest: "page_here s' page t" "margins_ok s'"
    and size: "tb_GetSize t = tb_GetSize tb" and same: "same_screen tb tb'" and cursor: "cursor_in_page page tb'"
  shows "screen_ok (set_buffer_at (pg_buffer page) tb' s') \<and> same_page s (set_buffer_at (pg_buffer page) tb' s')"
proof -
  let ?s = "set_buffer_at (pg_buffer page) tb' s'"
  have "page_here ?s page tb'" using page_here_set [OF rest(1)] same_screen_views(3) [OF same] size by simp
  moreover have "margins_ok ?s" using rest(2) by (simp add: margins_ok_def)
  ultimately show ?thesis using here ok same same_screen_views(4) [OF same ok] cursor unfolding screen_ok_def same_page_def by blast
qed

text \<open>Changes of margins, modes, tab stops and the saved cursor.\<close>

lemma screen_ok_other:
  assumes "screen_ok s" and "page_here s' = page_here s" "margins_ok s'"
  shows "screen_ok s' \<and> same_page s s'"
proof -
  obtain page tb where "page_here s page tb" "page_ok page tb" "cursor_in_page page tb" using assms(1) unfolding screen_ok_def by blast
  moreover have "same_screen tb tb" using calculation(2) by (simp add: same_screen_def page_ok_def)
  ultimately show ?thesis using assms(2,3) unfolding screen_ok_def same_page_def by metis
qed

lemma line_width_bounds: "page_ok page tb \<Longrightarrow> 0 < line_width y tb \<and> line_width y tb \<le> int (tb_width tb)"
  by (auto simp: page_ok_def line_width_def)

lemma cursor_moved_in_page:
  assumes "page_ok page tb" "same_screen tb tb'" "page_Top page \<le> pt_y p" "pt_y p < page_Bottom page" "0 \<le> pt_x p"
    "cu_cPosition (tb_cursor tb') = clamp_in_line p tb"
  shows "cursor_in_page page tb'"
  using assms(3-6) line_width_bounds [OF assms(1), of "pt_y p"]
  by (simp add: cursor_in_page_def same_screen_views(1) [OF assms(2)] clamp_in_line_def)

lemma CursorMovePosition_keeps: "screen.keeps (CursorMovePosition ro co cl)"
proof (rule screen.keepsI)
  fix s assume "screen_ok s"
  then obtain page tb where m: "margins_ok s" and here: "page_here s page tb" and ok: "page_ok page tb" and c: "cursor_in_page page tb"
    unfolding screen_ok_def by blast
  let ?w = "int (tb_width tb)" and ?s = "fit_columns (int (tb_width tb)) (fit_rows page s)"
  obtain t b l r where marg: "row_margins page s = (t, b)" "column_margins ?w s = (l, r)" by (metis prod.exhaust)
  let ?p = "move_target ro co cl (mode_set ModeOrigin s) page ?w (t, b) (l, r) (cu_cPosition (tb_cursor tb))"
  obtain tb' where run: "CursorMovePosition ro co cl s = Done (set_buffer_at (pg_buffer page) tb' ?s, Some ())"
      and same: "same_screen tb tb'" and cur: "tb_cursor tb' = SetPosition (clamp_in_line ?p tb) (tb_cursor tb)"
    using CursorMovePosition_run [OF here ok, of ro co cl] unfolding marg by blast
  have size: "page_Top page < page_Bottom page" "0 < ?w" using ok by (simp_all add: page_ok_def)
  note bounds = move_target_bounds [OF size row_margins_bounds [OF m size(1) marg(1)] column_margins_bounds [OF m size(2) marg(2)] refl]
  have "cursor_in_page page tb'"
    by (rule cursor_moved_in_page [OF ok same, of ?p]) (use bounds cur in simp_all)
  then have "screen_ok (set_buffer_at (pg_buffer page) tb' ?s) \<and> same_page s (set_buffer_at (pg_buffer page) tb' ?s)"
    using here m by (intro screen_okI [OF here ok _ _ refl same]) simp_all
  then show "\<exists>s' x. CursorMovePosition ro co cl s = Done (s', Some x) \<and> screen_ok s' \<and> same_page s s'" using run by blast
qed

lemma set_margins_simps [simp]:
  "page_here (set_margin_rows t b s) = page_here s" "page_here (set_margin_columns l r s) = page_here s"
  "margins_ok s \<Longrightarrow> 0 \<le> t \<Longrightarrow> margins_ok (set_margin_rows t b s)" "margins_ok s \<Longrightarrow> 0 \<le> l \<Longrightarrow> margins_ok (set_margin_columns l r s)"
  by (simp_all add: set_margin_rows_def set_margin_columns_def margins_ok_def Let_def)

lemma requested_margins_bounds:
  "0 \<le> a \<Longrightarrow> requested_margins a b n = Some (x, y) \<Longrightarrow> 0 \<le> x \<and> x \<le> y \<and> (y = 0 \<or> x < y \<and> y < n)"
  by (auto simp: requested_margins_def Let_def split: if_splits)

lemma margin_request_keeps:
  assumes set: "\<And>s x y. screen_ok s \<Longrightarrow> 0 \<le> x \<Longrightarrow> screen_ok (upd x y s) \<and> same_page s (upd x y s)" and a: "0 \<le> a"
  shows "screen.keeps (case requested_margins a b n of None \<Rightarrow> tb_return ()
    | Some (x, y) \<Rightarrow> tb_bind (tb_modify (upd x y)) (\<lambda>_. if home then CursorPosition 1 1 else tb_return ()))"
proof (cases "requested_margins a b n")
  case (Some p)
  obtain x y where p: "p = (x, y)" by (cases p)
  have "0 \<le> x" using requested_margins_bounds [OF a] Some p by blast
  then have "screen.keeps (tb_modify (upd x y))" by (intro screen.keeps_modify set)
  then show ?thesis unfolding Some p option.case prod.case
    by (rule screen.keeps_bind) (simp add: CursorPosition_def CursorMovePosition_keeps screen.keeps_return)
qed (simp add: screen.keeps_return)

lemma screen_ok_rows: "screen_ok s \<Longrightarrow> 0 \<le> x \<Longrightarrow> screen_ok (set_margin_rows x y s) \<and> same_page s (set_margin_rows x y s)"
  and screen_ok_columns: "screen_ok s \<Longrightarrow> 0 \<le> x \<Longrightarrow> screen_ok (set_margin_columns x y s) \<and> same_page s (set_margin_columns x y s)"
  by (rule screen_ok_other; simp add: screen_ok_def)+

lemma active_page_keeps:
  assumes "\<And>s page tb. page_here s page tb \<Longrightarrow> page_ok page tb \<Longrightarrow> cursor_in_page page tb \<Longrightarrow> margins_ok s \<Longrightarrow>
    \<exists>s' x. m page s = Done (s', Some x) \<and> screen_ok s' \<and> same_page s s'"
  shows "screen.keeps (tb_bind ActivePage m)"
proof (rule screen.keepsI)
  fix s assume "screen_ok s"
  then obtain page tb where p: "margins_ok s" "page_here s page tb" "page_ok page tb" "cursor_in_page page tb"
    unfolding screen_ok_def by blast
  then show "\<exists>s' x. tb_bind ActivePage m s = Done (s', Some x) \<and> screen_ok s' \<and> same_page s s'"
    using assms [OF p(2-4,1)] page_here_page(1) [OF p(2)] by simp
qed

lemma DoSetTopBottomScrollingMargins_keeps:
  assumes "0 \<le> a"
  shows "screen.keeps (DoSetTopBottomScrollingMargins a b home)"
  unfolding DoSetTopBottomScrollingMargins_def
proof (rule active_page_keeps)
  fix s page tb assume "page_here s page tb" "page_ok page tb" "cursor_in_page page tb" "margins_ok s"
  then have "screen_ok s" unfolding screen_ok_def by blast
  then show "\<exists>s' x. (case requested_margins a b (page_Height page) of None \<Rightarrow> tb_return ()
      | Some (top1, bottom1) \<Rightarrow> tb_bind (tb_modify (set_margin_rows top1 bottom1)) (\<lambda>_. if home then CursorPosition 1 1 else tb_return ())) s =
      Done (s', Some x) \<and> screen_ok s' \<and> same_page s s'"
    using screen.keepsD [OF margin_request_keeps [where upd = set_margin_rows and b = b and n = "page_Height page" and home = home, OF screen_ok_rows assms]] by simp
qed

lemma DoSetLeftRightScrollingMargins_keeps:
  assumes "0 \<le> a"
  shows "screen.keeps (DoSetLeftRightScrollingMargins a b home)"
  unfolding DoSetLeftRightScrollingMargins_def
proof (rule active_page_keeps)
  fix s page tb assume here: "page_here s page tb" and "page_ok page tb" "cursor_in_page page tb" "margins_ok s"
  then have "screen_ok s" unfolding screen_ok_def by blast
  then show "\<exists>s' x. tb_bind (page_Width page) (\<lambda>pageWidth. case requested_margins a b pageWidth of None \<Rightarrow> tb_return ()
      | Some (left1, right1) \<Rightarrow> tb_bind (tb_modify (set_margin_columns left1 right1)) (\<lambda>_. if home then CursorPosition 1 1 else tb_return ())) s =
      Done (s', Some x) \<and> screen_ok s' \<and> same_page s s'"
    using page_reads(1) [OF here]
      screen.keepsD [OF margin_request_keeps [where upd = set_margin_columns and b = b and n = "int (tb_width tb)" and home = home, OF screen_ok_columns assms]] by simp
qed

subsection \<open>Saving the cursor\<close>

definition margin_home :: "DispatchState \<Rightarrow> Page \<Rightarrow> TextBuffer \<Rightarrow> point" where
  "margin_home s page tb =
     (if mode_set ModeOrigin s then Point (fst (column_margins (int (tb_width tb)) s)) (fst (row_margins page s) - page_Top page) else Point 0 0)"

definition saved_state :: "DispatchState \<Rightarrow> Page \<Rightarrow> TextBuffer \<Rightarrow> CursorState" where
  "saved_state s page tb =
     (let p = cu_cPosition (tb_cursor tb); home = margin_home s page tb
      in \<lparr>cs_Row = pt_y p - page_Top page - pt_y home + 1, cs_Column = pt_x p - pt_x home + 1, cs_Page = pg_number page,
          cs_IsDelayedEOLWrap = (cu_coordDelayedAt (tb_cursor tb) \<noteq> None), cs_IsOriginModeRelative = mode_set ModeOrigin s,
          cs_Attributes = tb_currentAttributes tb, cs_TermOutput = ad_termOutput s\<rparr>)"

lemma saved_index_fit [simp]:
  "saved_index (fit_rows page s) = saved_index s" "saved_index (fit_columns w s) = saved_index s"
  by (simp_all add: saved_index_def)

lemma CursorSaveState_run:
  assumes here: "page_here s page tb"
  shows "\<exists>s1 \<in> {s, fit_rows page (fit_columns (int (tb_width tb)) s)}.
    CursorSaveState s = Done (s1\<lparr>ad_savedCursorState := (ad_savedCursorState s)[saved_index s := saved_state s page tb]\<rparr>, Some ())"
proof (cases "mode_set ModeOrigin s")
  case True
  let ?s = "fit_rows page (fit_columns (int (tb_width tb)) s)"
  obtain l r where lr: "column_margins (int (tb_width tb)) s = (l, r)" by (cases "column_margins (int (tb_width tb)) s")
  have "page_here ?s page tb" using here by simp
  note reads = page_reads [OF this]
  have "CursorSaveState s = Done (?s\<lparr>ad_savedCursorState := (ad_savedCursorState s)[saved_index s := saved_state s page tb]\<rparr>, Some ())"
    using True page_here_page(1) [OF here] page_reads [OF here] reads(4)
    by (simp add: CursorSaveState_def GetHorizontalMargins_run GetVerticalMargins_run lr saved_state_def margin_home_def Let_def)
  then show ?thesis by blast
next
  case False
  have "CursorSaveState s = Done (s\<lparr>ad_savedCursorState := (ad_savedCursorState s)[saved_index s := saved_state s page tb]\<rparr>, Some ())"
    using False page_here_page(1) [OF here] page_reads [OF here]
    by (simp add: CursorSaveState_def saved_state_def margin_home_def Let_def)
  then show ?thesis by blast
qed

lemma CursorSaveState_keeps: "screen.keeps CursorSaveState"
proof (rule screen.keepsI)
  fix s assume ok: "screen_ok s"
  then obtain page tb where m: "margins_ok s" and here: "page_here s page tb" unfolding screen_ok_def by blast
  obtain s1 where s1: "s1 \<in> {s, fit_rows page (fit_columns (int (tb_width tb)) s)}"
      "CursorSaveState s = Done (s1\<lparr>ad_savedCursorState := (ad_savedCursorState s)[saved_index s := saved_state s page tb]\<rparr>, Some ())"
    using CursorSaveState_run [OF here] by blast
  let ?s = "s1\<lparr>ad_savedCursorState := (ad_savedCursorState s)[saved_index s := saved_state s page tb]\<rparr>"
  have "page_here ?s = page_here s" "margins_ok ?s" using s1(1) m by (auto simp: margins_ok_def [of "_\<lparr>ad_savedCursorState := _\<rparr>"] margins_ok_def [symmetric])
  then show "\<exists>s' x. CursorSaveState s = Done (s', Some x) \<and> screen_ok s' \<and> same_page s s'"
    using screen_ok_other [OF ok] s1(2) by blast
qed

subsection \<open>Tab stops\<close>

lemma default_tab_stops_length [simp]: "length (default_tab_stops n stops) = length stops"
proof -
  have "length (fold (\<lambda>column stops. if column \<ge> n then stops[column := True] else stops) cs stops) = length stops" for cs stops
    by (induction cs arbitrary: stops) simp_all
  then show ?thesis by (simp add: default_tab_stops_def)
qed

definition tab_stops_for :: "nat \<Rightarrow> DispatchState \<Rightarrow> bool list" where
  "tab_stops_for w s =
     (let old = ad_tabStopColumns s; stops = old @ replicate (w - length old) False
      in if length old < w \<and> ad_initDefaultTabStops s then default_tab_stops (length old) stops else stops)"

lemma tab_stops_for_length: "w \<le> length (tab_stops_for w s)"
  by (auto simp: tab_stops_for_def Let_def)

lemma InitTabStopsForWidth_run:
  "0 \<le> w \<Longrightarrow> InitTabStopsForWidth w s = Done (s\<lparr>ad_tabStopColumns := tab_stops_for (nat w) s\<rparr>, Some ())"
  by (auto simp: InitTabStopsForWidth_def tab_stops_for_def Let_def)

text \<open>The loops end inside of the line.\<close>

lemma tab_forward_bounds:
  assumes "0 \<le> c" "mx < int (length stops)"
  shows "\<exists>d. tab_forward stops mx c n = Done d \<and> c \<le> d \<and> d \<le> max c mx"
  using assms
proof (induction stops mx c n rule: tab_forward.induct)
  case (1 stops mx c n)
  show ?case
  proof (cases "c < mx \<and> 0 < n")
    case True
    let ?n = "if stops ! nat (c + 1) then n - 1 else n"
    have p: "peek stops (nat (c + 1)) = Done (stops ! nat (c + 1))" using True 1(2,3) by (simp add: peek_def nat_less_iff)
    have "\<exists>d. tab_forward stops mx (c + 1) ?n = Done d \<and> c + 1 \<le> d \<and> d \<le> max (c + 1) mx"
      using 1(1) [OF True, of "stops ! nat (c + 1)"] 1(2,3) by simp
    then obtain d where "tab_forward stops mx (c + 1) ?n = Done d" "c + 1 \<le> d" "d \<le> max (c + 1) mx" by blast
    then show ?thesis using True p 1(2) by (subst tab_forward.simps) auto
  next
    case False
    then show ?thesis by (subst tab_forward.simps) auto
  qed
qed

lemma tab_backward_bounds:
  assumes "0 \<le> mn" "c < int (length stops)" "0 \<le> c"
  shows "\<exists>d. tab_backward stops mn c n = Done d \<and> min c mn \<le> d \<and> d \<le> c"
  using assms
proof (induction stops mn c n rule: tab_backward.induct)
  case (1 stops mn c n)
  show ?case
  proof (cases "mn < c \<and> 0 < n")
    case True
    let ?n = "if stops ! nat (c - 1) then n - 1 else n"
    have p: "peek stops (nat (c - 1)) = Done (stops ! nat (c - 1))" using True 1(2,3) by (simp add: peek_def nat_less_iff)
    have "\<exists>d. tab_backward stops mn (c - 1) ?n = Done d \<and> min (c - 1) mn \<le> d \<and> d \<le> c - 1"
      using 1(1) [OF True, of "stops ! nat (c - 1)"] 1(2-4) True by simp
    then obtain d where "tab_backward stops mn (c - 1) ?n = Done d" "min (c - 1) mn \<le> d" "d \<le> c - 1" by blast
    then show ?thesis using True p 1(2) by (subst tab_backward.simps) auto
  next
    case False
    then show ?thesis by (subst tab_backward.simps) auto
  qed
qed

definition tab_limit :: "DispatchState \<Rightarrow> Page \<Rightarrow> int \<Rightarrow> point \<Rightarrow> int" where
  "tab_limit s page w p =
     (let (t, b) = row_margins page s; (l, r) = column_margins w s
      in if t \<le> pt_y p \<and> pt_y p \<le> b \<and> pt_x p \<le> r then r else w - 1)"

definition tab_start :: "DispatchState \<Rightarrow> Page \<Rightarrow> int \<Rightarrow> point \<Rightarrow> int" where
  "tab_start s page w p =
     (let (t, b) = row_margins page s; (l, r) = column_margins w s
      in if t \<le> pt_y p \<and> pt_y p \<le> b \<and> l \<le> pt_x p then l else 0)"

lemma row_margins_fields [simp]:
  "row_margins page (set_buffer_at ref tb s) = row_margins page s" "column_margins w (set_buffer_at ref tb s) = column_margins w s"
  "margins_ok (set_buffer_at ref tb s) = margins_ok s" "margins_ok (s\<lparr>ad_tabStopColumns := x\<rparr>) = margins_ok s"
  "tab_stops_for k (set_buffer_at ref tb s) = tab_stops_for k s" "tab_stops_for k (fit_rows page s) = tab_stops_for k s"
  "tab_stops_for k (fit_columns u s) = tab_stops_for k s"
  by (simp_all add: row_margins_def column_margins_def margins_ok_def tab_stops_for_def)

text \<open>Both tabs read the width of the line, the margins and the tab stops in the same way.\<close>

lemma tab_prefix:
  assumes here: "page_here s page tb" and ok: "page_ok page tb" and y: "pt_y p = y"
  shows "\<exists>t. on_page page (GetLineWidth y) s = Done (set_buffer_at (pg_buffer page) t s, Some (line_width y tb)) \<and>
    same_screen tb t \<and> tb_cursor t = tb_cursor tb \<and>
    page_here ((fit_columns (line_width y tb) (fit_rows page (set_buffer_at (pg_buffer page) t s)))\<lparr>ad_tabStopColumns := st\<rparr>) page t"
proof -
  obtain t where t: "GetLineWidth y tb = Done (t, Some (line_width y tb))" "tb_ok t" "tb_frame tb t" "tb_lines t = tb_lines tb"
    using GetLineWidth_line ok unfolding page_ok_def by blast
  have same: "same_screen tb t" by (rule same_screen_frame [OF t(2-4)])
  have "on_page page (GetLineWidth y) s = Done (set_buffer_at (pg_buffer page) t s, Some (line_width y tb))"
    by (rule on_page_run [OF here]) (rule t(1))
  moreover have "page_here (set_buffer_at (pg_buffer page) t s) page t" by (rule page_here_set [OF here same_screen_views(3) [OF same]])
  ultimately show ?thesis using same tb_frame_simps(7) [OF t(3)] by auto
qed

lemma ForwardTab_run:
  assumes here: "page_here s page tb" and ok: "page_ok page tb" and c: "cursor_in_page page tb" and m: "margins_ok s"
    and p: "cu_cPosition (tb_cursor tb) = Point x y" and lw: "lw = line_width y tb"
  shows "\<exists>t s2 d. ForwardTab n s = Done (set_buffer_at (pg_buffer page) (t\<lparr>tb_cursor := (if cu_coordDelayedAt (tb_cursor tb) = None then id
        else DelayEOLWrap) (SetXPosition d (tb_cursor tb))\<rparr>) s2, Some ()) \<and> same_screen tb t \<and> page_here s2 page t \<and> margins_ok s2 \<and>
      tab_forward (tab_stops_for (nat lw) s) (tab_limit s page lw (Point x y)) x n = Done d \<and> x \<le> d \<and> d < lw"
proof -
  let ?st = "tab_stops_for (nat lw) s"
  obtain t where t: "on_page page (GetLineWidth y) s = Done (set_buffer_at (pg_buffer page) t s, Some lw)" "same_screen tb t" "tb_cursor t = tb_cursor tb"
      "page_here ((fit_columns lw (fit_rows page (set_buffer_at (pg_buffer page) t s)))\<lparr>ad_tabStopColumns := ?st\<rparr>) page t"
    using tab_prefix [OF here ok, of "Point x y" y ?st] unfolding lw [symmetric] by auto
  let ?s2 = "(fit_columns lw (fit_rows page (set_buffer_at (pg_buffer page) t s)))\<lparr>ad_tabStopColumns := ?st\<rparr>"
  obtain a b l r where marg: "row_margins page s = (a, b)" "column_margins lw s = (l, r)" by (metis prod.exhaust)
  have lw': "0 < lw" using line_width_bounds [OF ok] lw by simp
  have x: "0 \<le> x" "x < lw" using c p lw by (simp_all add: cursor_in_page_def)
  have lim: "tab_limit s page lw (Point x y) < lw"
    using column_margins_bounds [OF m lw' marg(2)] by (simp add: tab_limit_def marg)
  have "tab_limit s page lw (Point x y) < int (length ?st)" using lim tab_stops_for_length [of "nat lw" s] lw' by linarith
  then obtain d where d: "tab_forward ?st (tab_limit s page lw (Point x y)) x n = Done d" "x \<le> d" "d \<le> max x (tab_limit s page lw (Point x y))"
    using tab_forward_bounds [OF x(1)] by blast
  have mv: "move_cursor page f ?s2 = Done (set_buffer_at (pg_buffer page) (t\<lparr>tb_cursor := f (tb_cursor t)\<rparr>) ?s2, Some ())" for f
    by (rule move_cursor_run [OF t(4)])
  let ?t' = "t\<lparr>tb_cursor := SetXPosition d (tb_cursor t)\<rparr>"
  have "page_here (set_buffer_at (pg_buffer page) ?t' ?s2) page ?t'" by (rule page_here_set [OF t(4)]) (simp add: tb_GetSize_def)
  note mv' = move_cursor_run [OF this]
  have "ForwardTab n s = Done (set_buffer_at (pg_buffer page) (t\<lparr>tb_cursor := (if cu_coordDelayedAt (tb_cursor tb) = None then id
        else DelayEOLWrap) (SetXPosition d (tb_cursor tb))\<rparr>) ?s2, Some ())"
    using page_here_page(1) [OF here] page_reads(3) [OF here] t(1,3) d(1) lw' mv mv' marg
    by (simp add: ForwardTab_def p GetVerticalMargins_run GetHorizontalMargins_run InitTabStopsForWidth_run tab_limit_def Let_def)
  moreover have "margins_ok ?s2" using m by simp
  moreover have "d < lw" using d(3) x(2) lim by simp
  ultimately show ?thesis using t(2,4) d(1,2) by blast
qed

lemma BackwardsTab_run:
  assumes here: "page_here s page tb" and ok: "page_ok page tb" and c: "cursor_in_page page tb" and m: "margins_ok s"
    and p: "cu_cPosition (tb_cursor tb) = Point x y" and lw: "lw = line_width y tb"
  shows "\<exists>t s2 d. BackwardsTab n s = Done (set_buffer_at (pg_buffer page) (t\<lparr>tb_cursor := SetXPosition d (tb_cursor tb)\<rparr>) s2, Some ()) \<and>
      same_screen tb t \<and> page_here s2 page t \<and> margins_ok s2 \<and>
      tab_backward (tab_stops_for (nat lw) s) (tab_start s page lw (Point x y)) x n = Done d \<and> 0 \<le> d \<and> d \<le> x"
proof -
  let ?st = "tab_stops_for (nat lw) s"
  obtain t where t: "on_page page (GetLineWidth y) s = Done (set_buffer_at (pg_buffer page) t s, Some lw)" "same_screen tb t" "tb_cursor t = tb_cursor tb"
      "page_here ((fit_columns lw (fit_rows page (set_buffer_at (pg_buffer page) t s)))\<lparr>ad_tabStopColumns := ?st\<rparr>) page t"
    using tab_prefix [OF here ok, of "Point x y" y ?st] unfolding lw [symmetric] by auto
  let ?s2 = "(fit_columns lw (fit_rows page (set_buffer_at (pg_buffer page) t s)))\<lparr>ad_tabStopColumns := ?st\<rparr>"
  obtain a b l r where marg: "row_margins page s = (a, b)" "column_margins lw s = (l, r)" by (metis prod.exhaust)
  have lw': "0 < lw" using line_width_bounds [OF ok] lw by simp
  have x: "0 \<le> x" "x < lw" using c p lw by (simp_all add: cursor_in_page_def)
  have lim: "0 \<le> tab_start s page lw (Point x y)"
    using column_margins_bounds [OF m lw' marg(2)] by (simp add: tab_start_def marg)
  have "x < int (length ?st)" using x(2) tab_stops_for_length [of "nat lw" s] lw' by linarith
  then obtain d where d: "tab_backward ?st (tab_start s page lw (Point x y)) x n = Done d" "min x (tab_start s page lw (Point x y)) \<le> d" "d \<le> x"
    using tab_backward_bounds [OF lim _ x(1)] by blast
  have "BackwardsTab n s = Done (set_buffer_at (pg_buffer page) (t\<lparr>tb_cursor := SetXPosition d (tb_cursor tb)\<rparr>) ?s2, Some ())"
    using page_here_page(1) [OF here] page_reads(3) [OF here] t(1,3) d(1) lw' marg move_cursor_run [OF t(4)]
    by (simp add: BackwardsTab_def p GetVerticalMargins_run GetHorizontalMargins_run InitTabStopsForWidth_run tab_start_def Let_def)
  moreover have "margins_ok ?s2" using m by simp
  moreover have "0 \<le> d" using d(2) x(1) lim by simp
  ultimately show ?thesis using t(2,4) d(1,3) by blast
qed

lemma tab_cursor [simp]:
  "cu_cPosition (SetXPosition d c) = Point d (pt_y (cu_cPosition c))" "cu_cPosition (DelayEOLWrap c) = cu_cPosition c"
  by (cases "cu_cPosition c"; simp add: SetXPosition_def ResetDelayEOLWrap_def DelayEOLWrap_def Let_def)+

lemma tab_moved:
  assumes here: "page_here s page tb" and ok: "page_ok page tb" and c: "cursor_in_page page tb"
    and t: "same_screen tb t" "page_here s2 page t" "margins_ok s2"
    and q: "cu_cPosition q = Point d (pt_y (cu_cPosition (tb_cursor tb)))" "0 \<le> d" "d < line_width (pt_y (cu_cPosition (tb_cursor tb))) tb"
  shows "screen_ok (set_buffer_at (pg_buffer page) (t\<lparr>tb_cursor := q\<rparr>) s2) \<and> same_page s (set_buffer_at (pg_buffer page) (t\<lparr>tb_cursor := q\<rparr>) s2)"
proof (rule screen_okI [OF here ok t(2,3) same_screen_views(3) [OF t(1)]])
  show same: "same_screen tb (t\<lparr>tb_cursor := q\<rparr>)" using t(1) by simp
  show "cursor_in_page page (t\<lparr>tb_cursor := q\<rparr>)"
    using q c by (simp add: cursor_in_page_def same_screen_views(1) [OF same] Let_def)
qed

lemma ForwardTab_keeps: "screen.keeps (ForwardTab n)"
proof (rule screen.keepsI)
  fix s assume "screen_ok s"
  then obtain page tb where m: "margins_ok s" and here: "page_here s page tb" and ok: "page_ok page tb" and c: "cursor_in_page page tb"
    unfolding screen_ok_def by blast
  obtain x y where p: "cu_cPosition (tb_cursor tb) = Point x y" by (cases "cu_cPosition (tb_cursor tb)")
  let ?q = "\<lambda>d. (if cu_coordDelayedAt (tb_cursor tb) = None then id else DelayEOLWrap) (SetXPosition d (tb_cursor tb))"
  obtain t s2 d where r: "ForwardTab n s = Done (set_buffer_at (pg_buffer page) (t\<lparr>tb_cursor := ?q d\<rparr>) s2, Some ())"
      "same_screen tb t" "page_here s2 page t" "margins_ok s2" "x \<le> d" "d < line_width y tb"
    using ForwardTab_run [OF here ok c m p refl, of n] by blast
  have "0 \<le> x" using c p by (simp add: cursor_in_page_def)
  then show "\<exists>s' x. ForwardTab n s = Done (s', Some x) \<and> screen_ok s' \<and> same_page s s'"
    using r tab_moved [OF here ok c r(2-4), of "?q d" d] p by (intro exI [of _ "set_buffer_at (pg_buffer page) (t\<lparr>tb_cursor := ?q d\<rparr>) s2"]) auto
qed

lemma BackwardsTab_keeps: "screen.keeps (BackwardsTab n)"
proof (rule screen.keepsI)
  fix s assume "screen_ok s"
  then obtain page tb where m: "margins_ok s" and here: "page_here s page tb" and ok: "page_ok page tb" and c: "cursor_in_page page tb"
    unfolding screen_ok_def by blast
  obtain x y where p: "cu_cPosition (tb_cursor tb) = Point x y" by (cases "cu_cPosition (tb_cursor tb)")
  obtain t s2 d where r: "BackwardsTab n s = Done (set_buffer_at (pg_buffer page) (t\<lparr>tb_cursor := SetXPosition d (tb_cursor tb)\<rparr>) s2, Some ())"
      "same_screen tb t" "page_here s2 page t" "margins_ok s2" "0 \<le> d" "d \<le> x"
    using BackwardsTab_run [OF here ok c m p refl, of n] by blast
  have "x < line_width y tb" using c p by (simp add: cursor_in_page_def)
  then show "\<exists>s' x. BackwardsTab n s = Done (s', Some x) \<and> screen_ok s' \<and> same_page s s'"
    using r tab_moved [OF here ok c r(2-4), of "SetXPosition d (tb_cursor tb)" d] p
    by (intro exI [of _ "set_buffer_at (pg_buffer page) (t\<lparr>tb_cursor := SetXPosition d (tb_cursor tb)\<rparr>) s2"]) auto
qed

lemma tab_stop_here_run:
  assumes here: "page_here s page tb" and ok: "page_ok page tb" and c: "cursor_in_page page tb"
  shows "tab_stop_here b s = Done (s\<lparr>ad_tabStopColumns := (tab_stops_for (tb_width tb) s)[nat (pt_x (cu_cPosition (tb_cursor tb))) := b]\<rparr>, Some ())"
proof -
  have "0 \<le> pt_x (cu_cPosition (tb_cursor tb))" "pt_x (cu_cPosition (tb_cursor tb)) < int (tb_width tb)"
    using c line_width_bounds [OF ok, of "pt_y (cu_cPosition (tb_cursor tb))"] by (auto simp: cursor_in_page_def Let_def)
  then have "nat (pt_x (cu_cPosition (tb_cursor tb))) < length (tab_stops_for (tb_width tb) s)"
    using tab_stops_for_length [of "tb_width tb" s] by linarith
  then show ?thesis using \<open>0 \<le> pt_x (cu_cPosition (tb_cursor tb))\<close> page_here_page(1) [OF here] page_reads [OF here]
    by (simp add: tab_stop_here_def InitTabStopsForWidth_run set_tab_stop_def)
qed

lemma tab_stop_here_keeps: "screen.keeps (tab_stop_here b)"
proof (rule screen.keepsI)
  fix s assume s: "screen_ok s"
  then obtain page tb where m: "margins_ok s" and here: "page_here s page tb" and ok: "page_ok page tb" and c: "cursor_in_page page tb"
    unfolding screen_ok_def by blast
  let ?s = "s\<lparr>ad_tabStopColumns := (tab_stops_for (tb_width tb) s)[nat (pt_x (cu_cPosition (tb_cursor tb))) := b]\<rparr>"
  have "screen_ok ?s \<and> same_page s ?s" by (rule screen_ok_other [OF s]) (simp_all add: m)
  then show "\<exists>s' x. tab_stop_here b s = Done (s', Some x) \<and> screen_ok s' \<and> same_page s s'"
    using tab_stop_here_run [OF here ok c] by blast
qed

end
