(* ===== verification/Adapt_Properties.thy ===== *)
theory Adapt_Properties
  imports Adapt_Moves
begin

text \<open>
  The properties of the cursor: it stays in the page, goes where it is sent, respects the margins, comes back when it is
  restored, and stops at the tab stops.
\<close>

subsection \<open>Commands\<close>

text \<open>The control functions that move the cursor, or set what decides about its movements, by their names.\<close>

datatype cursor_command =
    CUU VTInt | CUD VTInt | CUF VTInt | CUB VTInt | CNL VTInt | CPL VTInt | CHA VTInt | VPA VTInt | HPR VTInt | VPR VTInt
  | CUP VTInt VTInt | CR_command | DECSTBM VTInt VTInt | DECSLRM VTInt VTInt | DECSC | HTS | CHT VTInt | CBT VTInt | TBC VTInt
  | DECST8C VTParameter

fun run_command :: "cursor_command \<Rightarrow> unit ad_op" where
  "run_command (CUU n) = CursorUp n"
| "run_command (CUD n) = CursorDown n"
| "run_command (CUF n) = CursorForward n"
| "run_command (CUB n) = CursorBackward n"
| "run_command (CNL n) = CursorNextLine n"
| "run_command (CPL n) = CursorPrevLine n"
| "run_command (CHA n) = CursorHorizontalPositionAbsolute n"
| "run_command (VPA n) = VerticalLinePositionAbsolute n"
| "run_command (HPR n) = HorizontalPositionRelative n"
| "run_command (VPR n) = VerticalPositionRelative n"
| "run_command (CUP r c) = CursorPosition r c"
| "run_command CR_command = CarriageReturn"
| "run_command (DECSTBM t b) = SetTopBottomScrollingMargins t b"
| "run_command (DECSLRM l r) = SetLeftRightScrollingMargins l r"
| "run_command DECSC = CursorSaveState"
| "run_command HTS = HorizontalTabSet"
| "run_command (CHT n) = ForwardTab n"
| "run_command (CBT n) = BackwardsTab n"
| "run_command (TBC n) = TabClear n"
| "run_command (DECST8C p) = tb_modify (TabSet p)"

text \<open>Numbers in a sequence are not negative; only the first margin needs it.\<close>

fun command_ok :: "cursor_command \<Rightarrow> bool" where
  "command_ok (DECSTBM t b) \<longleftrightarrow> 0 \<le> t"
| "command_ok (DECSLRM l r) \<longleftrightarrow> 0 \<le> l"
| "command_ok _ \<longleftrightarrow> True"

lemma tab_setting_keeps: "screen.keeps (tb_modify (TabSet p))" "screen.keeps (tb_modify ClearAllTabStops)"
proof -
  have "screen_ok s \<Longrightarrow> screen_ok (s\<lparr>ad_tabStopColumns := x, ad_initDefaultTabStops := b\<rparr>) \<and> same_page s (s\<lparr>ad_tabStopColumns := x, ad_initDefaultTabStops := b\<rparr>)" for s x b
    by (rule screen_ok_other) (auto simp: screen_ok_def margins_ok_def)
  then show "screen.keeps (tb_modify (TabSet p))" "screen.keeps (tb_modify ClearAllTabStops)"
    using screen.related_refl by (auto intro!: screen.keeps_modify simp: TabSet_def ClearAllTabStops_def)
qed

lemma SetLeftRightScrollingMargins_keeps: "0 \<le> l \<Longrightarrow> screen.keeps (SetLeftRightScrollingMargins l r)"
  using screen.keepsD [OF DoSetLeftRightScrollingMargins_keeps] screen.keepsD [OF CursorSaveState_keeps]
  by (intro screen.keepsI) (simp add: SetLeftRightScrollingMargins_def)

lemma run_command_keeps: "command_ok c \<Longrightarrow> screen.keeps (run_command c)"
  by (cases c)
    (simp_all add: CursorUp_def CursorDown_def CursorForward_def CursorBackward_def CursorNextLine_def CursorPrevLine_def
      CursorHorizontalPositionAbsolute_def VerticalLinePositionAbsolute_def HorizontalPositionRelative_def VerticalPositionRelative_def
      CursorPosition_def CarriageReturn_def SetTopBottomScrollingMargins_def HorizontalTabSet_def TabClear_def ClearSingleTabStop_def
      CursorMovePosition_keeps DoSetTopBottomScrollingMargins_keeps SetLeftRightScrollingMargins_keeps CursorSaveState_keeps
      tab_stop_here_keeps ForwardTab_keeps BackwardsTab_keeps tab_setting_keeps screen.keeps_return)

lemma run_commands_keep: "list_all command_ok cs \<Longrightarrow> screen.keeps (tb_for cs run_command)"
  by (induction cs) (simp_all add: screen.keeps_return screen.keeps_bind run_command_keeps)

subsection \<open>A screen\<close>

text \<open>The screen the witnesses use: 80 columns and 30 rows, with 10 rows of scrollback above them.\<close>

definition plain_buffer :: TextBuffer where
  "plain_buffer = the (TextBuffer_new (Size 80 40) TextAttribute_default 25 True False 0)"

definition plain_screen :: DispatchState where
  "plain_screen = DispatchState_new (plain_buffer\<lparr>tb_cursor := SetPosition (Point 20 15) (tb_cursor plain_buffer)\<rparr>)
     (FromDimensions (Point 0 10) (Size 80 30)) 0"

lemma plain_buffer_new: "TextBuffer_new (Size 80 40) TextAttribute_default 25 True False 0 = Some plain_buffer"
  by (simp add: plain_buffer_def TextBuffer_new_def reserve_def)

lemmas plain_buffer_lines = TextBuffer_new_lines [OF plain_buffer_new, simplified]

definition plain_page :: Page where
  "plain_page = \<lparr>pg_buffer = VisibleBuffer, pg_viewport = Rect 0 10 80 40, pg_number = 1\<rparr>"

lemma plain_page_edges [simp]: "page_Top plain_page = 10" "page_Bottom plain_page = 40" "page_Height plain_page = 30" "pg_buffer plain_page = VisibleBuffer"
  by (simp_all add: plain_page_def page_Top_def page_Bottom_def page_Height_def)

lemma plain_line_width: "line_width y plain_buffer = 80"
  using TextBuffer_new_line [OF plain_buffer_new, of y] plain_buffer_lines by (simp add: line_width_def ROW_new_def)

lemma plain_screen_page: "page_here plain_screen plain_page (activeBuffer plain_screen)"
  by (simp add: page_here_def plain_screen_def DispatchState_new_def plain_page_def GetBufferAndViewport_def GetMutableViewport_def
      inAltBuffer_def rect_of_inclusive_def ToInclusive_def FromDimensions_def Left_def Top_def RightInclusive_def BottomInclusive_def)

lemma plain_screen_buffer: "activeBuffer plain_screen = plain_buffer\<lparr>tb_cursor := SetPosition (Point 20 15) (tb_cursor plain_buffer)\<rparr>"
  by (simp add: plain_screen_def DispatchState_new_def activeBuffer_def)

lemma plain_screen_fields [simp]:
  "ad_scrollMargins plain_screen = IncRect 0 0 0 0" "ad_tabStopColumns plain_screen = []" "ad_initDefaultTabStops plain_screen"
  "\<not> mode_set ModeOrigin plain_screen" "length (ad_savedCursorState plain_screen) = 2" "\<not> ad_usingAltBuffer plain_screen"
  by (simp_all add: plain_screen_def DispatchState_new_def)

lemma plain_screen_facts:
  "page_ok plain_page (activeBuffer plain_screen)" "cursor_in_page plain_page (activeBuffer plain_screen)" "margins_ok plain_screen"
  "screen_ok plain_screen" "cu_cPosition (tb_cursor (activeBuffer plain_screen)) = Point 20 15"
  "tb_width (activeBuffer plain_screen) = 80" "line_width y (activeBuffer plain_screen) = 80"
proof -
  have same: "same_screen plain_buffer (activeBuffer plain_screen)"
    using plain_buffer_lines by (simp add: plain_screen_buffer same_screen_def)
  have "page_ok plain_page plain_buffer" using plain_buffer_lines by (simp add: page_ok_def)
  then show ok: "page_ok plain_page (activeBuffer plain_screen)" by (rule same_screen_views(4) [OF same])
  show lw: "line_width y (activeBuffer plain_screen) = 80" for y using same_screen_views(1) [OF same] plain_line_width by simp
  show pos: "cu_cPosition (tb_cursor (activeBuffer plain_screen)) = Point 20 15" by (simp add: plain_screen_buffer)
  show c: "cursor_in_page plain_page (activeBuffer plain_screen)" by (simp add: cursor_in_page_def pos lw)
  show m: "margins_ok plain_screen" by (simp add: margins_ok_def plain_screen_def DispatchState_new_def)
  show "screen_ok plain_screen" unfolding screen_ok_def using m plain_screen_page ok c by blast
  show "tb_width (activeBuffer plain_screen) = 80" using same plain_buffer_lines by (simp add: same_screen_def)
qed

subsection \<open>Properties\<close>

text \<open>
  C13. Whatever control functions move the cursor, set margins, set, clear or use tab stops, or save the cursor, in any order and
  with any numbers: each of them comes to its end without an exception or an access outside of an array, the page stays
  the same, its lines are left alone, and the cursor stays in the page and inside of its line, also where lines are
  twice as wide.
\<close>

theorem cursor_stays_in_page:
  assumes "screen_ok s" and "list_all command_ok cs"
  shows "\<exists>s' page tb tb'. tb_for cs run_command s = Done (s', Some ()) \<and> screen_ok s' \<and> page_here s page tb \<and> page_here s' page tb' \<and>
    tb_lines tb' = tb_lines tb \<and> cursor_in_page page tb'"
proof -
  obtain s' where s': "tb_for cs run_command s = Done (s', Some ())" "screen_ok s'" "same_page s s'"
    using screen.keepsD [OF run_commands_keep [OF assms(2)] assms(1)] by auto
  then obtain page tb tb' where "page_here s page tb" "page_here s' page tb'" "same_screen tb tb'" unfolding same_page_def by blast
  moreover have "cursor_in_page page tb'"
    using s'(2) page_here_unique [OF calculation(2)] unfolding screen_ok_def by blast
  ultimately show ?thesis using s'(1,2) unfolding same_screen_def by blast
qed

theorem cursor_stays_in_page_witness:
  "\<exists>s'. tb_for [DECSTBM 3 10, CUD 500, CHT 3, HTS, CUP 999 999, DECSC, CBT 2, CUU 77] run_command plain_screen = Done (s', Some ()) \<and> screen_ok s'"
proof -
  have "list_all command_ok [DECSTBM 3 10, CUD 500, CHT 3, HTS, CUP 999 999, DECSC, CBT 2, CUU 77]" by simp
  from cursor_stays_in_page [OF plain_screen_facts(4) this] show ?thesis by blast
qed

text \<open>Where the cursor can be addressed: between the margins with the origin mode, anywhere in the page without it.\<close>

definition address_rows :: "DispatchState \<Rightarrow> Page \<Rightarrow> int \<times> int" where
  "address_rows s page = (if mode_set ModeOrigin s then row_margins page s else (page_Top page, page_Bottom page - 1))"

definition address_columns :: "DispatchState \<Rightarrow> int \<Rightarrow> int \<times> int" where
  "address_columns s w = (if mode_set ModeOrigin s then column_margins w s else (0, w - 1))"

definition inside_margins :: "DispatchState \<Rightarrow> Page \<Rightarrow> TextBuffer \<Rightarrow> bool" where
  "inside_margins s page tb \<longleftrightarrow>
     (let p = cu_cPosition (tb_cursor tb); (t, b) = row_margins page s; (l, r) = column_margins (int (tb_width tb)) s
      in t \<le> pt_y p \<and> pt_y p \<le> b \<and> l \<le> pt_x p \<and> pt_x p \<le> r)"

lemma move_target_absolute:
  assumes "page_Top page \<le> t" "t \<le> b" "b < page_Bottom page" "0 \<le> l" "l \<le> r" "r < w" "1 \<le> line" "1 \<le> column"
    and "og \<Longrightarrow> t \<le> pt_y p \<and> pt_y p \<le> b \<and> l \<le> pt_x p \<and> pt_x p \<le> r"
  shows "move_target (Offset_Absolute line) (Offset_Absolute column) False og page w (t, b) (l, r) p =
    Point (min ((if og then l else 0) + column - 1) (if og then r else w - 1)) (min ((if og then t else page_Top page) + line - 1) (if og then b else page_Bottom page - 1))"
proof (cases og)
  case True
  have "std_clamp (t + (line - 1)) (page_Top page) (page_Bottom page - 1) = min (t + line - 1) (page_Bottom page - 1)"
    "std_clamp (l + (column - 1)) 0 (w - 1) = min (l + column - 1) (w - 1)"
    using assms(1-8) by (auto simp: std_clamp_def)
  moreover have "keep_within True t True b (min (t + line - 1) (page_Bottom page - 1)) = min (t + line - 1) b"
    "keep_within True l True r (min (l + column - 1) (w - 1)) = min (l + column - 1) r"
    using assms(1-8) by (auto simp: keep_within_def)
  moreover have "t \<le> min (t + line - 1) b" "min (t + line - 1) b \<le> b" using assms(2,7) by auto
  ultimately show ?thesis using True assms(9) by (simp add: move_target_def Offset_Absolute_def Let_def)
next
  case False
  then show ?thesis using assms(1-8) by (auto simp: move_target_def Offset_Absolute_def std_clamp_def Let_def)
qed

text \<open>The state after a movement, as far as the cursor goes.\<close>

definition cursor_at :: "DispatchState \<Rightarrow> Page \<Rightarrow> TextBuffer \<Rightarrow> point \<Rightarrow> bool" where
  "cursor_at s page tb p \<longleftrightarrow> (\<exists>tb'. page_here s page tb' \<and> same_screen tb tb' \<and> cu_cPosition (tb_cursor tb') = p \<and> cu_coordDelayedAt (tb_cursor tb') = None)"

lemma move_effect:
  assumes here: "page_here s page tb" and ok: "page_ok page tb"
    and q: "move_target ro co cl (mode_set ModeOrigin s) page (int (tb_width tb)) (row_margins page s) (column_margins (int (tb_width tb)) s)
      (cu_cPosition (tb_cursor tb)) = q"
  shows "\<exists>s'. CursorMovePosition ro co cl s = Done (s', Some ()) \<and> cursor_at s' page tb (clamp_in_line q tb)"
proof -
  let ?s = "fit_columns (int (tb_width tb)) (fit_rows page s)"
  obtain tb' where run: "CursorMovePosition ro co cl s = Done (set_buffer_at (pg_buffer page) tb' ?s, Some ())"
      and same: "same_screen tb tb'" and cur: "tb_cursor tb' = SetPosition (clamp_in_line q tb) (tb_cursor tb)"
    using CursorMovePosition_run [OF here ok, of ro co cl] unfolding q by blast
  have "page_here ?s page tb" using here by simp
  then have "page_here (set_buffer_at (pg_buffer page) tb' ?s) page tb'" by (rule page_here_set) (rule same_screen_views(3) [OF same])
  then show ?thesis using run same cur by (auto simp: cursor_at_def cursor_moves_reset_wrap)
qed

text \<open>
  C14. \<open>CUP\<close> goes to the line and column it names, counted from 1 and from the top left corner of the area that can be
  addressed: the page, or with origin mode the area between the margins, in which the cursor then has to be already. A
  line or column that is too large means the last one of the area, and on a line of double width the last one of the
  line. A delayed wrap is over.
\<close>

theorem cursor_position_absolute:
  assumes here: "page_here s page tb" and ok: "page_ok page tb" and m: "margins_ok s" and num: "1 \<le> line" "1 \<le> column"
    and inside: "mode_set ModeOrigin s \<Longrightarrow> inside_margins s page tb"
    and area: "address_rows s page = (t, b)" "address_columns s (int (tb_width tb)) = (l, r)"
  shows "\<exists>s'. CursorPosition line column s = Done (s', Some ()) \<and>
    cursor_at s' page tb (Point (min (min (l + column - 1) r) (line_width (min (t + line - 1) b) tb - 1)) (min (t + line - 1) b))"
proof -
  let ?og = "mode_set ModeOrigin s" and ?w = "int (tb_width tb)"
  obtain t' b' l' r' where marg: "row_margins page s = (t', b')" "column_margins ?w s = (l', r')" by (metis prod.exhaust)
  have size: "page_Top page < page_Bottom page" "0 < ?w" using ok by (simp_all add: page_ok_def)
  have "?og \<Longrightarrow> t' \<le> pt_y (cu_cPosition (tb_cursor tb)) \<and> pt_y (cu_cPosition (tb_cursor tb)) \<le> b' \<and> l' \<le> pt_x (cu_cPosition (tb_cursor tb)) \<and>
      pt_x (cu_cPosition (tb_cursor tb)) \<le> r'" using inside by (simp add: inside_margins_def marg Let_def)
  from move_target_absolute [OF row_margins_bounds [OF m size(1) marg(1)] column_margins_bounds [OF m size(2) marg(2)] num this]
  have "move_target (Offset_Absolute line) (Offset_Absolute column) False ?og page ?w (row_margins page s) (column_margins ?w s) (cu_cPosition (tb_cursor tb)) =
      Point (min (l + column - 1) r) (min (t + line - 1) b)"
    using area marg by (cases ?og) (simp_all add: address_rows_def address_columns_def)
  from move_effect [OF here ok this] show ?thesis by (simp add: CursorPosition_def clamp_in_line_def)
qed

theorem cursor_position_absolute_witness:
  "\<exists>s'. CursorPosition 5 200 plain_screen = Done (s', Some ()) \<and> cursor_at s' plain_page (activeBuffer plain_screen) (Point 79 14)"
proof -
  have og: "\<not> mode_set ModeOrigin plain_screen" by (simp add: plain_screen_def DispatchState_new_def)
  then have "address_rows plain_screen plain_page = (10, 39)" "address_columns plain_screen (int (tb_width (activeBuffer plain_screen))) = (0, 79)"
    by (simp_all add: address_rows_def address_columns_def plain_screen_facts)
  from cursor_position_absolute [OF plain_screen_page plain_screen_facts(1,3) _ _ _ this, of 5 200] og
  show ?thesis by (simp add: plain_screen_facts)
qed

lemma move_target_vertical:
  assumes "page_Top page \<le> t" "t \<le> b" "b < page_Bottom page" "0 \<le> l" "l \<le> r" "r < w" "0 \<le> n"
    and "page_Top page \<le> y" "y < page_Bottom page" "0 \<le> x" "x < w"
  shows "move_target (Offset_Backward n) Offset_Unchanged True og page w (t, b) (l, r) (Point x y) =
      Point x (max (y - n) (if l \<le> x \<and> x \<le> r \<and> t \<le> y then t else page_Top page))"
    and "move_target (Offset_Forward n) Offset_Unchanged True og page w (t, b) (l, r) (Point x y) =
      Point x (min (y + n) (if l \<le> x \<and> x \<le> r \<and> y \<le> b then b else page_Bottom page - 1))"
proof -
  have col: "std_clamp x 0 (w - 1) = x" using assms by (simp add: std_clamp_def)
  have keep: "(A \<Longrightarrow> l \<le> x) \<Longrightarrow> (B \<Longrightarrow> x \<le> r) \<Longrightarrow> keep_within A l B r x = x" for A B by (auto simp: keep_within_def)
  have up: "std_clamp (y - n) (page_Top page) (page_Bottom page - 1) = max (y - n) (page_Top page)"
    and down: "std_clamp (y + n) (page_Top page) (page_Bottom page - 1) = min (y + n) (page_Bottom page - 1)"
    using assms by (auto simp: std_clamp_def)
  let ?C = "l \<le> x \<and> x \<le> r"
  have "keep_within (?C \<and> t \<le> y) t (?C \<and> y \<le> b) b (max (y - n) (page_Top page)) = max (y - n) (if ?C \<and> t \<le> y then t else page_Top page)"
    using assms by (auto simp: keep_within_def Let_def)
  then show "move_target (Offset_Backward n) Offset_Unchanged True og page w (t, b) (l, r) (Point x y) =
      Point x (max (y - n) (if l \<le> x \<and> x \<le> r \<and> t \<le> y then t else page_Top page))"
    by (simp add: move_target_def Offset_Backward_def Offset_Unchanged_def Offset_Forward_def Let_def col up keep split del: if_split)
  have "keep_within (?C \<and> t \<le> y) t (?C \<and> y \<le> b) b (min (y + n) (page_Bottom page - 1)) = min (y + n) (if ?C \<and> y \<le> b then b else page_Bottom page - 1)"
    using assms by (auto simp: keep_within_def Let_def)
  then show "move_target (Offset_Forward n) Offset_Unchanged True og page w (t, b) (l, r) (Point x y) =
      Point x (min (y + n) (if l \<le> x \<and> x \<le> r \<and> y \<le> b then b else page_Bottom page - 1))"
    by (simp add: move_target_def Offset_Unchanged_def Offset_Forward_def Let_def col down keep split del: if_split)
qed

text \<open>
  C15. \<open>CUU\<close> and \<open>CUD\<close> stop at the margins, as the manual of the VT510 says: the cursor stops at the top margin, or at the top
  line if it is above the margin already, and likewise at the bottom; margins count only between the left and right
  margin. The column is kept, unless the line it gets to is shorter.
\<close>

theorem vertical_moves_stop_at_margins:
  assumes here: "page_here s page tb" and ok: "page_ok page tb" and c: "cursor_in_page page tb" and m: "margins_ok s" and n: "0 \<le> n"
    and p: "cu_cPosition (tb_cursor tb) = Point x y" and marg: "row_margins page s = (t, b)" "column_margins (int (tb_width tb)) s = (l, r)"
    and up: "up = max (y - n) (if l \<le> x \<and> x \<le> r \<and> t \<le> y then t else page_Top page)"
    and down: "down = min (y + n) (if l \<le> x \<and> x \<le> r \<and> y \<le> b then b else page_Bottom page - 1)"
  shows "(\<exists>s'. CursorUp n s = Done (s', Some ()) \<and> cursor_at s' page tb (Point (min x (line_width up tb - 1)) up)) \<and>
    (\<exists>s'. CursorDown n s = Done (s', Some ()) \<and> cursor_at s' page tb (Point (min x (line_width down tb - 1)) down))"
proof -
  let ?w = "int (tb_width tb)"
  have size: "page_Top page < page_Bottom page" "0 < ?w" using ok by (simp_all add: page_ok_def)
  have pos: "page_Top page \<le> y" "y < page_Bottom page" "0 \<le> x" "x < ?w"
    using c p line_width_bounds [OF ok, of y] by (simp_all add: cursor_in_page_def)
  note targets = move_target_vertical [OF row_margins_bounds [OF m size(1) marg(1)] column_margins_bounds [OF m size(2) marg(2)] n pos,
      of "mode_set ModeOrigin s", folded up down]
  show ?thesis using move_effect [OF here ok, unfolded marg p, OF targets(1)] move_effect [OF here ok, unfolded marg p, OF targets(2)]
    by (simp add: CursorUp_def CursorDown_def clamp_in_line_def)
qed

theorem vertical_moves_stop_at_margins_witness:
  "\<exists>s'. CursorUp 9 plain_screen = Done (s', Some ()) \<and> cursor_at s' plain_page (activeBuffer plain_screen) (Point 20 10)"
proof -
  have "row_margins plain_page plain_screen = (10, 39)" "column_margins (int (tb_width (activeBuffer plain_screen))) plain_screen = (0, 79)"
    by (simp_all add: row_margins_def column_margins_def plain_screen_facts)
  from vertical_moves_stop_at_margins [OF plain_screen_page plain_screen_facts(1-3) _ plain_screen_facts(5) this refl refl, of 9]
  show ?thesis by (simp add: plain_screen_facts)
qed

text \<open>The tab stop a number of tabs leads to: that one of the stops behind the cursor, or the limit if there are not so many.\<close>

definition tab_target :: "bool list \<Rightarrow> int \<Rightarrow> int \<Rightarrow> int \<Rightarrow> int" where
  "tab_target stops mx c n =
     (let cs = filter (\<lambda>i. stops ! nat i) [c + 1..mx]
      in if n \<le> 0 \<or> mx \<le> c then c else if nat n \<le> length cs then cs ! (nat n - 1) else mx)"

lemma tab_target_step:
  assumes "c < mx" "0 < n"
  shows "tab_target stops mx c n = tab_target stops mx (c + 1) (if stops ! nat (c + 1) then n - 1 else n)"
proof -
  let ?cs = "filter (\<lambda>i. stops ! nat i) [c + 1 + 1..mx]"
  have cs: "filter (\<lambda>i. stops ! nat i) [c + 1..mx] = (if stops ! nat (c + 1) then (c + 1) # ?cs else ?cs)"
    using assms by (subst upto.simps) simp
  have nat_n: "nat n = Suc (nat (n - 1))" using assms by simp
  have empty: "mx \<le> c + 1 \<Longrightarrow> ?cs = []" by (subst upto.simps) simp
  show ?thesis
  proof (cases "stops ! nat (c + 1)")
    case True
    then show ?thesis using assms empty
      by (cases "n = 1") (auto simp: tab_target_def cs nat_n nth_Cons' Let_def)
  next
    case False
    then show ?thesis using assms empty by (auto simp: tab_target_def cs Let_def)
  qed
qed

lemma tab_forward_target: "0 \<le> c \<Longrightarrow> mx < int (length stops) \<Longrightarrow> tab_forward stops mx c n = Done (tab_target stops mx c n)"
proof (induction stops mx c n rule: tab_forward.induct)
  case (1 stops mx c n)
  show ?case
  proof (cases "c < mx \<and> 0 < n")
    case True
    let ?n = "if stops ! nat (c + 1) then n - 1 else n"
    have p: "peek stops (nat (c + 1)) = Done (stops ! nat (c + 1))" using True 1(2,3) by (simp add: peek_def nat_less_iff)
    have "tab_forward stops mx (c + 1) ?n = Done (tab_target stops mx (c + 1) ?n)"
      using 1(1) [OF True, of "stops ! nat (c + 1)"] 1(2,3) by simp
    then show ?thesis using True p 1(2) tab_target_step [of c mx n stops] by (subst tab_forward.simps) simp
  next
    case False
    then show ?thesis by (subst tab_forward.simps) (auto simp: tab_target_def Let_def)
  qed
qed

text \<open>Tab stops that were never set are at the multiples of 8.\<close>

lemma update_stop: "c < length st \<Longrightarrow> st[a := True] ! c \<longleftrightarrow> st ! c \<or> a = c"
  by (cases "a = c") simp_all

lemma fold_stops: "c < length st \<Longrightarrow> fold (\<lambda>column stops. if column \<ge> n then stops[column := True] else stops) cs st ! c \<longleftrightarrow> st ! c \<or> (n \<le> c \<and> c \<in> set cs)"
  by (induction cs arbitrary: st) (auto simp: update_stop)

lemma default_stops:
  assumes "ad_tabStopColumns s = []" "ad_initDefaultTabStops s" "c < w"
  shows "tab_stops_for w s ! c \<longleftrightarrow> 8 \<le> c \<and> c mod 8 = 0"
  using assms fold_stops [of c "replicate w False" 0 "filter (\<lambda>column. column mod 8 = 0) [8..<w]"]
  by (auto simp: tab_stops_for_def default_tab_stops_def)



subsection \<open>Restoring the cursor\<close>

text \<open>The page that is on the screen already.\<close>

definition on_screen :: "DispatchState \<Rightarrow> Page \<Rightarrow> bool" where
  "on_screen s page \<longleftrightarrow> pg_buffer page = VisibleBuffer \<and> rect_size (fst (GetBufferAndViewport s)) \<noteq> None"

lemma MoveTo_on_screen:
  assumes here: "page_here s page tb" and vis: "on_screen s page"
  shows "MoveTo (pg_number page) makeVisible s = Done (s, Some ())"
proof -
  obtain viewport isMain where pair: "GetBufferAndViewport s = (viewport, isMain)" by (cases "GetBufferAndViewport s")
  show ?thesis
  proof (cases isMain)
    case False
    then show ?thesis by (simp add: MoveTo_def pair)
  next
    case True
    obtain sz where sz: "rect_size viewport = Some sz" using vis by (auto simp: on_screen_def pair)
    have n: "ad_activePageNumber s = ad_visiblePageNumber s" "pg_number page = ad_activePageNumber s" "clamp_page (pg_number page) = pg_number page"
      using here vis True by (auto simp: page_here_def pair on_screen_def clamp_page_def Let_def split: if_splits)
    then show ?thesis using True sz by (simp add: MoveTo_def pair size_of_rect_cases Let_def)
  qed
qed

lemma page_here_modes: "page_here (s\<lparr>ad_modes := e, ad_termOutput := x\<rparr>) = page_here s"
  by (simp add: page_here_fields)

lemma PagePositionAbsolute_on_screen:
  assumes "page_here s page tb" "on_screen s page"
  shows "PagePositionAbsolute (pg_number page) s = Done (s, Some ())"
  using MoveTo_on_screen [OF assms] by (simp add: PagePositionAbsolute_def)

text \<open>\<open>DECRC\<close> with a saved position in the page and without origin mode.\<close>

lemma CursorRestoreState_run:
  assumes here: "page_here s page tb" and ok: "page_ok page tb" and m: "margins_ok s" and vis: "on_screen s page"
    and cs: "ad_savedCursorState s ! saved_index s = cs" "cs_Page cs = pg_number page" "\<not> cs_IsOriginModeRelative cs"
    and pos: "cs_Row cs = y - page_Top page + 1" "cs_Column cs = x + 1" "page_Top page \<le> y" "y < page_Bottom page" "0 \<le> x" "x < line_width y tb"
  shows "\<exists>s' tb'. CursorRestoreState s = Done (s', Some ()) \<and> page_here s' page tb' \<and> tb_lines tb' = tb_lines tb \<and>
    cu_cPosition (tb_cursor tb') = Point x y \<and> cu_coordDelayedAt (tb_cursor tb') = (if cs_IsDelayedEOLWrap cs then Some (Point x y) else None) \<and>
    tb_currentAttributes tb' = cs_Attributes cs \<and> \<not> mode_set ModeOrigin s' \<and> ad_termOutput s' = RestoreFrom (cs_TermOutput cs) (ad_termOutput s)"
proof -
  let ?w = "int (tb_width tb)" and ?s1 = "s\<lparr>ad_modes := enumset_set_val ModeOrigin False (ad_modes s)\<rparr>"
  have here1: "page_here ?s1 page tb" using here by simp
  have vis1: "on_screen ?s1 page" using vis by (simp add: on_screen_def)
  have og: "\<not> mode_set ModeOrigin ?s1" by simp
  have w: "0 < ?w" "x < ?w" using ok pos(6) line_width_bounds [OF ok, of y] by (auto simp: page_ok_def)
  let ?p = "move_target (Offset_Absolute (cs_Row cs)) (Offset_Absolute (cs_Column cs)) False False page ?w (row_margins page ?s1) (column_margins ?w ?s1)
    (cu_cPosition (tb_cursor tb))"
  have p: "?p = Point x y" using pos w
    by (cases "row_margins page ?s1"; cases "column_margins ?w ?s1") (auto simp: move_target_def Offset_Absolute_def std_clamp_def)
  have "clamp_in_line (Point x y) tb = Point x y" using pos(6) by (simp add: clamp_in_line_def)
  then obtain tb1 where cup: "CursorPosition (cs_Row cs) (cs_Column cs) ?s1 =
        Done (set_buffer_at (pg_buffer page) tb1 (fit_columns ?w (fit_rows page ?s1)), Some ())"
      and same: "same_screen tb tb1" and cur: "tb_cursor tb1 = SetPosition (Point x y) (tb_cursor tb)"
    using CursorMovePosition_run [OF here1 ok, of "Offset_Absolute (cs_Row cs)" "Offset_Absolute (cs_Column cs)" False] og p
    unfolding CursorPosition_def by auto
  let ?s2 = "set_buffer_at (pg_buffer page) tb1 (fit_columns ?w (fit_rows page ?s1))"
  have here2: "page_here ?s2 page tb1" using here1 by (intro page_here_set [where tb = tb] same_screen_views(3) [OF same]) simp
  let ?tb2 = "if cs_IsDelayedEOLWrap cs then tb1\<lparr>tb_cursor := DelayEOLWrap (tb_cursor tb1)\<rparr> else tb1"
  let ?s3 = "set_buffer_at (pg_buffer page) ?tb2 ?s2"
  have delay: "(if cs_IsDelayedEOLWrap cs then move_cursor page DelayEOLWrap else tb_return ()) ?s2 = Done (?s3, Some ())"
    using move_cursor_run [OF here2] set_buffer_at_same [OF here2] by simp
  have here3: "page_here ?s3 page ?tb2" by (rule page_here_set [OF here2]) (simp add: tb_GetSize_def)
  let ?tb3 = "?tb2\<lparr>tb_currentAttributes := cs_Attributes cs\<rparr>"
  let ?s4 = "set_buffer_at (pg_buffer page) ?tb3 ?s3"
  have attr: "page_SetAttributes page (cs_Attributes cs) ?s3 = Done (?s4, Some ())"
    unfolding page_SetAttributes_def by (rule on_page_run [OF here3]) simp
  have here4: "page_here ?s4 page ?tb3" by (rule page_here_set [OF here3]) (simp add: tb_GetSize_def)
  let ?s5 = "?s4\<lparr>ad_termOutput := RestoreFrom (cs_TermOutput cs) (ad_termOutput ?s4)\<rparr>"
  have "CursorRestoreState s = Done (?s5, Some ())"
    using cs cup delay attr PagePositionAbsolute_on_screen [OF here1 vis1] page_here_page(1) [OF here2]
    by (simp add: CursorRestoreState_def set_mode_def del: set_buffer_at_twice)
  moreover have "page_here ?s5 page ?tb3" using here4 by simp
  moreover have "tb_lines ?tb3 = tb_lines tb" using same by (simp add: same_screen_def)
  moreover have "cu_cPosition (tb_cursor ?tb3) = Point x y" using cur by simp
  moreover have "cu_coordDelayedAt (tb_cursor ?tb3) = (if cs_IsDelayedEOLWrap cs then Some (Point x y) else None)"
    using cur by (simp add: DelayEOLWrap_def cursor_moves_reset_wrap)
  moreover have "\<not> mode_set ModeOrigin ?s5" by simp
  moreover have "ad_termOutput ?s5 = RestoreFrom (cs_TermOutput cs) (ad_termOutput s)" by simp
  ultimately show ?thesis by (intro exI [of _ ?s5] exI [of _ ?tb3]) simp
qed



end
