(* ===== verification/Ticket_Lock.thy ===== *)
theory Ticket_Lock
  imports Prelude
begin

text \<open>
  The fair lock of \<open>src/src/inc/til/ticket_lock.h\<close>, which guards the console and the terminal. Threads
  are numbers below a bound. Each atomic access of \<open>lock\<close> and \<open>unlock\<close> is one step of one thread, and a
  scheduler interleaves the steps arbitrarily. \<open>WaitOnAddress\<close> behind \<open>atomic_wait\<close> compares and falls
  asleep in one step, may wake up for no reason, and sleepers wake at \<open>WakeByAddressAll\<close>. Tickets are
  32-bit words that wrap around.

  The lemmas show that the tickets in use are always the ones from \<open>_now_serving\<close> up to
  \<open>_next_ticket\<close>, one per thread; mutual exclusion and freedom from starvation follow. The recursive
  lock is built on the contract of the inner one, stated as a locale.
\<close>

subsection \<open>Steps\<close>

record ticket_lock =
  tl_next_ticket :: u32
  tl_now_serving :: u32

text \<open>
  Where a thread is: outside; in \<open>lock\<close> with its ticket, before the load; before \<open>atomic_wait\<close>, with the
  value it loaded; asleep in it; in possession of the lock; in \<open>unlock\<close> before \<open>atomic_notify_all\<close>.
\<close>

datatype tl_pc = Outside | Loading u32 | Waiting u32 u32 | Asleep u32 u32 | Inside | Notifying

record tl_state = ticket_lock +
  tl_pcs :: "nat \<Rightarrow> tl_pc"

definition tl_init :: tl_state where
  "tl_init = \<lparr>tl_next_ticket = 0, tl_now_serving = 0, tl_pcs = (\<lambda>_. Outside)\<rparr>"

definition tl_goto :: "nat \<Rightarrow> tl_pc \<Rightarrow> tl_state \<Rightarrow> tl_state" where
  "tl_goto t pc s = s\<lparr>tl_pcs := (tl_pcs s)(t := pc)\<rparr>"

definition tl_wake :: "tl_pc \<Rightarrow> tl_pc" where
  "tl_wake pc = (case pc of Asleep ticket current \<Rightarrow> Loading ticket | _ \<Rightarrow> pc)"

definition tl_lock_step :: "nat \<Rightarrow> tl_state \<Rightarrow> tl_state" where
  "tl_lock_step t s =
     (case tl_pcs s t of
        Outside \<Rightarrow> tl_goto t (Loading (tl_next_ticket s)) (s\<lparr>tl_next_ticket := tl_next_ticket s + 1\<rparr>)
      | Loading ticket \<Rightarrow>
          tl_goto t (if tl_now_serving s = ticket then Inside else Waiting ticket (tl_now_serving s)) s
      | Waiting ticket current \<Rightarrow>
          tl_goto t (if tl_now_serving s = current then Asleep ticket current else Loading ticket) s
      | _ \<Rightarrow> s)"

definition tl_unlock_step :: "nat \<Rightarrow> tl_state \<Rightarrow> tl_state" where
  "tl_unlock_step t s =
     (case tl_pcs s t of
        Inside \<Rightarrow> tl_goto t Notifying (s\<lparr>tl_now_serving := tl_now_serving s + 1\<rparr>)
      | Notifying \<Rightarrow> s\<lparr>tl_pcs := (tl_wake \<circ> tl_pcs s)(t := Outside)\<rparr>
      | _ \<Rightarrow> s)"

text \<open>A scheduler lets a thread take its next step, or wakes a sleeper for no reason.\<close>

datatype tl_action = Run nat | Spurious nat

definition tl_exec :: "tl_action \<Rightarrow> tl_state \<Rightarrow> tl_state" where
  "tl_exec a s =
     (case a of
        Run t \<Rightarrow> (if tl_pcs s t = Inside \<or> tl_pcs s t = Notifying then tl_unlock_step t s else tl_lock_step t s)
      | Spurious t \<Rightarrow> tl_goto t (tl_wake (tl_pcs s t)) s)"

primrec tl_thread :: "tl_action \<Rightarrow> nat" where
  "tl_thread (Run t) = t"
| "tl_thread (Spurious t) = t"

inductive tl_reachable :: "nat \<Rightarrow> tl_state \<Rightarrow> bool" for N where
  reachable_init: "tl_reachable N tl_init"
| reachable_exec: "tl_reachable N s \<Longrightarrow> tl_thread a < N \<Longrightarrow> tl_reachable N (tl_exec a s)"

lemmas tl_defs = tl_exec_def tl_lock_step_def tl_unlock_step_def tl_goto_def tl_wake_def

subsection \<open>The invariant\<close>

definition tl_ticket :: "tl_state \<Rightarrow> nat \<Rightarrow> u32 option" where
  "tl_ticket s t =
     (case tl_pcs s t of
        Loading k \<Rightarrow> Some k | Waiting k c \<Rightarrow> Some k | Asleep k c \<Rightarrow> Some k
      | Inside \<Rightarrow> Some (tl_now_serving s) | _ \<Rightarrow> None)"

text \<open>How many threads are served before the holder of ticket \<open>k\<close>.\<close>

definition tl_ahead :: "tl_state \<Rightarrow> u32 \<Rightarrow> nat" where
  "tl_ahead s k = unat (k - tl_now_serving s)"

definition tl_ok :: "nat \<Rightarrow> tl_state \<Rightarrow> bool" where
  "tl_ok N s \<longleftrightarrow>
     (\<forall>t. N \<le> t \<longrightarrow> tl_pcs s t = Outside)
     \<and> (\<forall>t t' k. tl_ticket s t = Some k \<and> tl_ticket s t' = Some k \<longrightarrow> t = t')
     \<and> (\<forall>k. (\<exists>t. tl_ticket s t = Some k) \<longleftrightarrow> tl_ahead s k < tl_ahead s (tl_next_ticket s))
     \<and> (\<forall>t k c. tl_pcs s t = Waiting k c \<or> tl_pcs s t = Asleep k c \<longrightarrow> c \<noteq> k)
     \<and> (\<forall>t k c. tl_pcs s t = Asleep k c \<longrightarrow> c = tl_now_serving s \<or> (\<exists>t'. tl_pcs s t' = Notifying))"

lemma tl_okD:
  assumes "tl_ok N s"
  shows "N \<le> t \<Longrightarrow> tl_pcs s t = Outside"
    and "tl_ticket s t = Some k \<Longrightarrow> tl_ticket s t' = Some k \<Longrightarrow> t = t'"
    and "(\<exists>t. tl_ticket s t = Some k) \<longleftrightarrow> tl_ahead s k < tl_ahead s (tl_next_ticket s)"
    and "tl_pcs s t = Waiting k c \<Longrightarrow> c \<noteq> k"
    and "tl_pcs s t = Asleep k c \<Longrightarrow> c \<noteq> k"
    and "tl_pcs s t = Asleep k c \<Longrightarrow> c = tl_now_serving s \<or> (\<exists>t'. tl_pcs s t' = Notifying)"
  using assms unfolding tl_ok_def by metis+

lemma tl_okI:
  assumes "\<And>t. N \<le> t \<Longrightarrow> tl_pcs s t = Outside"
    and "\<And>t t' k. tl_ticket s t = Some k \<Longrightarrow> tl_ticket s t' = Some k \<Longrightarrow> t = t'"
    and "\<And>k. (\<exists>t. tl_ticket s t = Some k) \<longleftrightarrow> tl_ahead s k < tl_ahead s (tl_next_ticket s)"
    and "\<And>t k c. tl_pcs s t = Waiting k c \<Longrightarrow> c \<noteq> k"
    and "\<And>t k c. tl_pcs s t = Asleep k c \<Longrightarrow> c \<noteq> k"
    and "\<And>t k c. tl_pcs s t = Asleep k c \<Longrightarrow> c = tl_now_serving s \<or> (\<exists>t'. tl_pcs s t' = Notifying)"
  shows "tl_ok N s"
  using assms unfolding tl_ok_def by blast

lemma tl_ahead_inj: "tl_ahead s k = tl_ahead s k' \<longleftrightarrow> k = k'"
  by (simp add: tl_ahead_def word_unat_eq_iff [symmetric])

text \<open>The threads with a ticket correspond to the numbers below the length of the queue.\<close>

lemma tl_queue_length:
  assumes "tl_ok N s"
  shows "tl_ahead s (tl_next_ticket s) = card {t. tl_ticket s t \<noteq> None}"
proof -
  let ?A = "{t. tl_ticket s t \<noteq> None}" and ?f = "\<lambda>t. tl_ahead s (the (tl_ticket s t))"
  have inj: "inj_on ?f ?A"
  proof (rule inj_onI)
    fix t t' assume "t \<in> ?A" "t' \<in> ?A" "?f t = ?f t'"
    then show "t = t'" using tl_okD(2) [OF assms] by (auto simp: tl_ahead_inj)
  qed
  have "?f ` ?A = {..<tl_ahead s (tl_next_ticket s)}"
  proof
    show "?f ` ?A \<subseteq> {..<tl_ahead s (tl_next_ticket s)}" using tl_okD(3) [OF assms] by fastforce
    show "{..<tl_ahead s (tl_next_ticket s)} \<subseteq> ?f ` ?A"
    proof
      fix n assume n: "n \<in> {..<tl_ahead s (tl_next_ticket s)}"
      let ?k = "tl_now_serving s + word_of_nat n"
      have "n < 2 ^ 32" using n unsigned_less [of "tl_next_ticket s - tl_now_serving s", where ?'a = nat]
        by (auto simp: tl_ahead_def)
      then have k: "tl_ahead s ?k = n" by (simp add: tl_ahead_def unat_of_nat)
      with n obtain t where "tl_ticket s t = Some ?k" using tl_okD(3) [OF assms, of ?k] by auto
      with k show "n \<in> ?f ` ?A" by (intro image_eqI [of _ _ t]) auto
    qed
  qed
  with inj show ?thesis by (metis card_image card_lessThan)
qed

lemma tl_ticket_less: "tl_ok N s \<Longrightarrow> tl_ticket s t \<noteq> None \<Longrightarrow> t < N"
  using tl_okD(1) [of N s t] by (cases "N \<le> t") (auto simp: tl_ticket_def)

lemma tl_queue_room:
  assumes ok: "tl_ok N s" and t: "t < N" "tl_pcs s t = Outside" and N: "N < 2 ^ 32"
  shows "tl_ahead s (tl_next_ticket s + 1) = Suc (tl_ahead s (tl_next_ticket s))"
proof -
  have "{t. tl_ticket s t \<noteq> None} \<subseteq> {..<N} - {t}"
    using tl_ticket_less [OF ok] t(2) by (auto simp: tl_ticket_def)
  then have "card {t. tl_ticket s t \<noteq> None} \<le> card ({..<N} - {t})" by (intro card_mono) auto
  also have "\<dots> = N - 1" using t(1) by simp
  finally have less: "Suc (tl_ahead s (tl_next_ticket s)) < 2 ^ 32"
    using tl_queue_length [OF ok] N t(1) by simp
  define w where "w = tl_next_ticket s - tl_now_serving s"
  have "tl_next_ticket s + 1 - tl_now_serving s = w + 1" by (simp add: w_def)
  moreover have "unat (w + 1) = Suc (unat w)"
    using less by (simp add: tl_ahead_def w_def [symmetric] unat_word_ariths)
  ultimately show ?thesis by (metis tl_ahead_def w_def)
qed

lemma tl_ticket_cong:
  "tl_pcs s' t = tl_pcs s t \<Longrightarrow> tl_now_serving s' = tl_now_serving s \<Longrightarrow> tl_ticket s' t = tl_ticket s t"
  by (simp add: tl_ticket_def split: tl_pc.splits)

lemma tl_init_ok: "tl_ok N tl_init"
  by (simp add: tl_ok_def tl_init_def tl_ticket_def tl_ahead_def)

text \<open>Steps that change neither counter keep the queue when they keep every thread's ticket.\<close>

lemma tl_ok_same_tickets:
  assumes ok: "tl_ok N s" and same: "\<And>t. tl_ticket s' t = tl_ticket s t"
    and counters: "tl_next_ticket s' = tl_next_ticket s" "tl_now_serving s' = tl_now_serving s"
    and "\<And>t. N \<le> t \<Longrightarrow> tl_pcs s' t = Outside"
    and "\<And>t k c. tl_pcs s' t = Waiting k c \<Longrightarrow> c \<noteq> k"
    and "\<And>t k c. tl_pcs s' t = Asleep k c \<Longrightarrow> c \<noteq> k"
    and "\<And>t k c. tl_pcs s' t = Asleep k c \<Longrightarrow> c = tl_now_serving s' \<or> (\<exists>t'. tl_pcs s' t' = Notifying)"
  shows "tl_ok N s'"
proof -
  have ahead: "tl_ahead s' k = tl_ahead s k" for k by (simp add: tl_ahead_def counters)
  show ?thesis
    by (rule tl_okI) (use assms(5-8) tl_okD(2,3) [OF ok] in \<open>simp_all add: same counters ahead\<close>)
qed

lemma tl_ok_take:
  assumes ok: "tl_ok N s" and t: "t < N" "tl_pcs s t = Outside" and N: "N < 2 ^ 32"
  shows "tl_ok N (tl_exec (Run t) s)"
proof -
  let ?s = "tl_exec (Run t) s"
  have s: "tl_pcs ?s = (tl_pcs s)(t := Loading (tl_next_ticket s))" "tl_now_serving ?s = tl_now_serving s"
    "tl_next_ticket ?s = tl_next_ticket s + 1"
    using t by (simp_all add: tl_defs)
  have ticket: "tl_ticket ?s = (tl_ticket s)(t := Some (tl_next_ticket s))"
  proof
    fix u show "tl_ticket ?s u = ((tl_ticket s)(t := Some (tl_next_ticket s))) u"
      using tl_ticket_cong [of ?s u s] by (cases "u = t") (simp_all add: s, simp add: tl_ticket_def s)
  qed
  have ahead: "tl_ahead ?s k = tl_ahead s k" for k by (simp add: tl_ahead_def s)
  have new: "tl_ahead s (tl_next_ticket s + 1) = Suc (tl_ahead s (tl_next_ticket s))"
    by (rule tl_queue_room [OF ok t N])
  have fresh: "tl_ticket s t' \<noteq> Some (tl_next_ticket s)" for t'
    using tl_okD(3) [OF ok, of "tl_next_ticket s"] by auto
  have old: "tl_ticket s t = None" using t by (simp add: tl_ticket_def)
  have "(\<exists>u. tl_ticket ?s u = Some k) \<longleftrightarrow> k = tl_next_ticket s \<or> (\<exists>u. tl_ticket s u = Some k)" for k
    unfolding ticket using old by (metis fun_upd_apply option.distinct(1) option.inject)
  then have "(\<exists>u. tl_ticket ?s u = Some k) \<longleftrightarrow> tl_ahead ?s k < tl_ahead ?s (tl_next_ticket ?s)" for k
    unfolding ahead s(3) new less_Suc_eq using tl_okD(3) [OF ok] by (simp add: tl_ahead_inj disj_commute)
  moreover have "u = u'" if "tl_ticket ?s u = Some k" "tl_ticket ?s u' = Some k" for u u' k
    using that fresh tl_okD(2) [OF ok] by (auto simp: ticket split: if_splits)
  moreover have "c = tl_now_serving ?s \<or> (\<exists>t'. tl_pcs ?s t' = Notifying)" if "tl_pcs ?s u = Asleep k c" for u k c
  proof -
    from that have "tl_pcs s u = Asleep k c" by (simp add: s split: if_splits)
    then consider "c = tl_now_serving s" | t' where "tl_pcs s t' = Notifying" using tl_okD(6) [OF ok] by blast
    then show ?thesis
    proof cases
      case (2 t')
      with t(2) have "tl_pcs ?s t' = Notifying" by (auto simp: s)
      then show ?thesis by blast
    qed (simp add: s)
  qed
  ultimately show ?thesis
    using tl_okD(1,4,5) [OF ok] t by (intro tl_okI) (auto simp: s split: if_splits)
qed

lemma tl_ok_unlock:
  assumes ok: "tl_ok N s" and t: "tl_pcs s t = Inside"
  shows "tl_ok N (tl_exec (Run t) s)"
proof -
  let ?s = "tl_exec (Run t) s"
  have s: "tl_pcs ?s = (tl_pcs s)(t := Notifying)" "tl_now_serving ?s = tl_now_serving s + 1"
    "tl_next_ticket ?s = tl_next_ticket s"
    using t by (simp_all add: tl_defs)
  have serving: "tl_ticket s t = Some (tl_now_serving s)" using t by (simp add: tl_ticket_def)
  have other: "tl_ticket s u \<noteq> Some (tl_now_serving s)" if "u \<noteq> t" for u
    using tl_okD(2) [OF ok serving] that by auto
  have ticket: "tl_ticket ?s = (tl_ticket s)(t := None)"
  proof
    fix u show "tl_ticket ?s u = ((tl_ticket s)(t := None)) u"
      using other [of u] by (cases "u = t") (auto simp: tl_ticket_def s split: tl_pc.splits)
  qed
  have ahead: "tl_ahead ?s k = tl_ahead s k - 1" if "k \<noteq> tl_now_serving s" for k
  proof -
    have "k - (tl_now_serving s + 1) = (k - tl_now_serving s) - 1" by simp
    moreover have "k - tl_now_serving s \<noteq> 0" using that by simp
    ultimately show ?thesis unfolding tl_ahead_def s by (metis unat_minus_one)
  qed
  have here: "tl_ahead s (tl_now_serving s) = 0" by (simp add: tl_ahead_def)
  have pos: "0 < tl_ahead s (tl_next_ticket s)" using tl_okD(3) [OF ok] serving here by metis
  then have busy: "tl_next_ticket s \<noteq> tl_now_serving s" using here by auto
  have "(\<exists>u. tl_ticket ?s u = Some k) \<longleftrightarrow> tl_ahead ?s k < tl_ahead ?s (tl_next_ticket ?s)" for k
  proof (cases "k = tl_now_serving s")
    case True
    have "tl_ahead ?s k = unat (- 1 :: u32)" by (simp add: tl_ahead_def s True)
    moreover have "tl_ahead ?s (tl_next_ticket ?s) \<le> unat (- 1 :: u32)"
      unfolding tl_ahead_def word_le_nat_alt [symmetric] by simp
    ultimately have "\<not> tl_ahead ?s k < tl_ahead ?s (tl_next_ticket ?s)" by simp
    moreover have "\<not> (\<exists>u. tl_ticket ?s u = Some k)" using other True by (auto simp: ticket)
    ultimately show ?thesis by blast
  next
    case False
    have "0 < tl_ahead s k" using False here tl_ahead_inj [of s k "tl_now_serving s"] by linarith
    moreover have "(\<exists>u. tl_ticket ?s u = Some k) \<longleftrightarrow> (\<exists>u. tl_ticket s u = Some k)"
      unfolding ticket using False serving by (metis fun_upd_apply option.distinct(1) option.inject)
    ultimately show ?thesis using ahead [OF False] ahead [OF busy] tl_okD(3) [OF ok, of k] by (simp add: s less_diff_iff) linarith
  qed
  moreover have "u = u'" if "tl_ticket ?s u = Some k" "tl_ticket ?s u' = Some k" for u u' k
    using that tl_okD(2) [OF ok] by (auto simp: ticket split: if_splits)
  ultimately show ?thesis
    using tl_okD(1,4,5) [OF ok] t by (intro tl_okI) (auto simp: s split: if_splits)
qed

lemma tl_ok_goto:
  assumes ok: "tl_ok N s" and t: "t < N" "tl_pcs s t \<noteq> Notifying"
    and ticket: "tl_ticket (tl_goto t pc s) t = tl_ticket s t"
    and waiting: "\<And>k c. pc = Waiting k c \<or> pc = Asleep k c \<Longrightarrow> c \<noteq> k"
    and asleep: "\<And>k c. pc = Asleep k c \<Longrightarrow> c = tl_now_serving s"
  shows "tl_ok N (tl_goto t pc s)"
proof (rule tl_ok_same_tickets [OF ok])
  let ?s = "tl_goto t pc s"
  have pcs: "tl_pcs ?s = (tl_pcs s)(t := pc)" and serving: "tl_now_serving ?s = tl_now_serving s"
    by (simp_all add: tl_goto_def)
  then show "tl_ticket ?s u = tl_ticket s u" for u
    using ticket tl_ticket_cong [of ?s u s] by (cases "u = t") simp_all
  show "N \<le> u \<Longrightarrow> tl_pcs ?s u = Outside" for u using tl_okD(1) [OF ok, of u] t(1) by (simp add: pcs)
  show "tl_pcs ?s u = Waiting k c \<Longrightarrow> c \<noteq> k" "tl_pcs ?s u = Asleep k c \<Longrightarrow> c \<noteq> k" for u k c
    using tl_okD(4,5) [OF ok] waiting by (auto simp: pcs split: if_splits)
  show "c = tl_now_serving ?s \<or> (\<exists>t'. tl_pcs ?s t' = Notifying)" if "tl_pcs ?s u = Asleep k c" for u k c
    using that tl_okD(6) [OF ok, of u k c] asleep t(2) unfolding pcs serving by (metis fun_upd_apply)
qed (simp_all add: tl_goto_def)

lemma tl_ok_notify:
  assumes ok: "tl_ok N s" and t: "tl_pcs s t = Notifying"
  shows "tl_ok N (tl_exec (Run t) s)"
proof (rule tl_ok_same_tickets [OF ok])
  let ?s = "tl_exec (Run t) s"
  have pcs: "tl_pcs ?s = (tl_wake \<circ> tl_pcs s)(t := Outside)" and counters: "tl_now_serving ?s = tl_now_serving s"
    "tl_next_ticket ?s = tl_next_ticket s"
    using t by (simp_all add: tl_exec_def tl_unlock_step_def)
  show "tl_next_ticket ?s = tl_next_ticket s" "tl_now_serving ?s = tl_now_serving s" using counters by simp_all
  show "tl_ticket ?s u = tl_ticket s u" for u
    using t by (cases "u = t"; cases "tl_pcs s u") (simp_all add: tl_ticket_def pcs counters tl_wake_def)
  show "N \<le> u \<Longrightarrow> tl_pcs ?s u = Outside" for u using tl_okD(1) [OF ok, of u] by (simp add: pcs tl_wake_def)
  have awake: "tl_pcs ?s u \<noteq> Asleep k c" for u k c
    by (cases "u = t"; cases "tl_pcs s u") (simp_all add: pcs tl_wake_def)
  then show "tl_pcs ?s u = Asleep k c \<Longrightarrow> c \<noteq> k"
    "tl_pcs ?s u = Asleep k c \<Longrightarrow> c = tl_now_serving ?s \<or> (\<exists>t'. tl_pcs ?s t' = Notifying)" for u k c
    by simp_all
  have "tl_pcs ?s u = Waiting k c \<Longrightarrow> tl_pcs s u = Waiting k c" for u k c
    by (cases "u = t"; cases "tl_pcs s u") (simp_all add: pcs tl_wake_def)
  then show "tl_pcs ?s u = Waiting k c \<Longrightarrow> c \<noteq> k" for u k c using tl_okD(4) [OF ok] by blast
qed

lemma tl_ok_exec:
  assumes ok: "tl_ok N s" and a: "tl_thread a < N" and N: "N < 2 ^ 32"
  shows "tl_ok N (tl_exec a s)"
proof (cases a)
  case (Spurious t)
  show ?thesis
  proof (cases "tl_pcs s t")
    case (Asleep k c)
    have "tl_ok N (tl_goto t (Loading k) s)"
      by (rule tl_ok_goto [OF ok]) (use a Spurious Asleep in \<open>auto simp: tl_ticket_def tl_goto_def\<close>)
    then show ?thesis by (simp add: Spurious Asleep tl_exec_def tl_wake_def)
  qed (use ok in \<open>simp_all add: Spurious tl_exec_def tl_wake_def tl_goto_def fun_upd_idem\<close>)
next
  case (Run t)
  show ?thesis
  proof (cases "tl_pcs s t")
    case Outside
    then show ?thesis using tl_ok_take [OF ok _ _ N] a Run by simp
  next
    case Inside
    then show ?thesis using tl_ok_unlock [OF ok] Run by simp
  next
    case Notifying
    then show ?thesis using tl_ok_notify [OF ok] Run by simp
  next
    case (Loading k)
    have "tl_ok N (tl_goto t (if tl_now_serving s = k then Inside else Waiting k (tl_now_serving s)) s)"
      by (rule tl_ok_goto [OF ok]) (use a Run Loading in \<open>auto simp: tl_ticket_def tl_goto_def split: if_splits\<close>)
    then show ?thesis by (simp add: Run Loading tl_exec_def tl_lock_step_def)
  next
    case (Waiting k c)
    have "tl_ok N (tl_goto t (if tl_now_serving s = c then Asleep k c else Loading k) s)"
      by (rule tl_ok_goto [OF ok])
        (use a Run Waiting tl_okD(4) [OF ok] in \<open>auto simp: tl_ticket_def tl_goto_def split: if_splits\<close>)
    then show ?thesis by (simp add: Run Waiting tl_exec_def tl_lock_step_def)
  next
    case (Asleep k c)
    then show ?thesis using ok by (simp add: Run tl_exec_def tl_lock_step_def)
  qed
qed

lemma tl_reachable_ok: "tl_reachable N s \<Longrightarrow> N < 2 ^ 32 \<Longrightarrow> tl_ok N s"
  by (induction rule: tl_reachable.induct) (simp_all add: tl_init_ok tl_ok_exec)

subsection \<open>Executions\<close>

text \<open>
  An infinite execution under a scheduler, and fairness: a thread that is not outside is scheduled
  again, so in particular whoever has the lock releases it at some time.
\<close>

definition tl_execution :: "nat \<Rightarrow> (nat \<Rightarrow> tl_state) \<Rightarrow> (nat \<Rightarrow> tl_action) \<Rightarrow> bool" where
  "tl_execution N s sched \<longleftrightarrow>
     s 0 = tl_init \<and> (\<forall>n. tl_thread (sched n) < N \<and> s (Suc n) = tl_exec (sched n) (s n))"

definition tl_fair :: "(nat \<Rightarrow> tl_state) \<Rightarrow> (nat \<Rightarrow> tl_action) \<Rightarrow> bool" where
  "tl_fair s sched \<longleftrightarrow> (\<forall>t n. tl_pcs (s n) t \<noteq> Outside \<longrightarrow> (\<exists>m\<ge>n. sched m = Run t))"

lemma tl_execution_reachable: "tl_execution N s sched \<Longrightarrow> tl_reachable N (s n)"
  by (induction n) (auto simp: tl_execution_def intro: tl_reachable.intros)

lemma tl_execution_step: "tl_execution N s sched \<Longrightarrow> s (Suc n) = tl_exec (sched n) (s n)"
  by (simp add: tl_execution_def)

lemma persists_until:
  fixes n :: nat
  assumes "P n" and "\<And>m. n \<le> m \<Longrightarrow> P m \<Longrightarrow> \<not> Q m \<Longrightarrow> P (Suc m)" and "\<exists>m\<ge>n. Q m"
  shows "\<exists>m\<ge>n. P m \<and> Q m"
proof -
  define m where "m = (LEAST m. n \<le> m \<and> Q m)"
  have m: "n \<le> m" "Q m" using assms(3) unfolding m_def by (metis (mono_tags, lifting) LeastI)+
  have least: "\<not> Q j" if "n \<le> j" "j < m" for j using not_less_Least [of j] that unfolding m_def by blast
  have "j \<le> m \<longrightarrow> P j" if "n \<le> j" for j
    using that by (induction rule: dec_induct) (use assms(1,2) least in auto)
  then show ?thesis using m by blast
qed

text \<open>What one step changes.\<close>

lemma tl_exec_serving:
  "tl_now_serving (tl_exec a s) =
     (case a of Run t \<Rightarrow> if tl_pcs s t = Inside then tl_now_serving s + 1 else tl_now_serving s
      | Spurious t \<Rightarrow> tl_now_serving s)"
  by (auto simp: tl_defs split: tl_action.splits tl_pc.splits)

lemma tl_exec_pcs:
  "tl_pcs (tl_exec (Run t) s) u =
     (if u = t then
        (case tl_pcs s t of
           Outside \<Rightarrow> Loading (tl_next_ticket s)
         | Loading k \<Rightarrow> (if tl_now_serving s = k then Inside else Waiting k (tl_now_serving s))
         | Waiting k c \<Rightarrow> (if tl_now_serving s = c then Asleep k c else Loading k)
         | Asleep k c \<Rightarrow> Asleep k c
         | Inside \<Rightarrow> Notifying
         | Notifying \<Rightarrow> Outside)
      else if tl_pcs s t = Notifying then tl_wake (tl_pcs s u) else tl_pcs s u)"
  "tl_pcs (tl_exec (Spurious t) s) u = (if u = t then tl_wake (tl_pcs s u) else tl_pcs s u)"
  by (auto simp: tl_exec_def tl_lock_step_def tl_unlock_step_def tl_goto_def split: tl_pc.splits)

lemma tl_exec_other: "a \<noteq> Run t \<Longrightarrow> tl_pcs (tl_exec a s) t = tl_pcs s t \<or> tl_pcs (tl_exec a s) t = tl_wake (tl_pcs s t)"
  by (cases a) (auto simp: tl_exec_pcs)

lemma tl_serving_kept:
  assumes ok: "tl_ok N s" and k: "tl_ticket s t = Some (tl_now_serving s)" and t: "tl_pcs s t \<noteq> Inside"
  shows "tl_now_serving (tl_exec a s) = tl_now_serving s"
proof (cases a)
  case (Run u)
  have "tl_pcs s u \<noteq> Inside" using tl_okD(2) [OF ok k, of u] t by (auto simp: tl_ticket_def)
  then show ?thesis by (simp add: tl_exec_serving Run)
qed (simp add: tl_exec_serving)

lemma tl_ticket_kept:
  assumes "tl_ticket s t = Some k" and "tl_pcs s t \<noteq> Inside"
  shows "tl_ticket (tl_exec a s) t = Some k"
  using assms
  by (cases a; cases "tl_pcs s t") (auto simp: tl_ticket_def tl_exec_pcs tl_exec_serving tl_wake_def split: if_splits)

lemma tl_ahead_step:
  assumes ok: "tl_ok N s" and k: "tl_ticket s t = Some k" and t: "tl_pcs s t \<noteq> Inside"
  shows "tl_ahead (tl_exec a s) k = (case a of Run u \<Rightarrow> if tl_pcs s u = Inside then tl_ahead s k - 1 else tl_ahead s k
    | Spurious u \<Rightarrow> tl_ahead s k)"
    and "a = Run u \<Longrightarrow> tl_pcs s u = Inside \<Longrightarrow> 0 < tl_ahead s k"
proof -
  have ne: "k \<noteq> tl_now_serving s" if "tl_pcs s u = Inside" for u
    using tl_okD(2) [OF ok k, of u] that t by (auto simp: tl_ticket_def)
  have "unat (k - (tl_now_serving s + 1)) = tl_ahead s k - 1" if "tl_pcs s u = Inside" for u
  proof -
    have "k - (tl_now_serving s + 1) = (k - tl_now_serving s) - 1" by simp
    moreover have "k - tl_now_serving s \<noteq> 0" using ne [OF that] by simp
    ultimately show ?thesis unfolding tl_ahead_def by (metis unat_minus_one)
  qed
  then show "tl_ahead (tl_exec a s) k = (case a of Run u \<Rightarrow> if tl_pcs s u = Inside then tl_ahead s k - 1 else tl_ahead s k
    | Spurious u \<Rightarrow> tl_ahead s k)"
    by (auto simp: tl_ahead_def [of "tl_exec a s"] tl_exec_serving tl_ahead_def split: tl_action.split)
  show "a = Run u \<Longrightarrow> tl_pcs s u = Inside \<Longrightarrow> 0 < tl_ahead s k"
    using ne by (auto simp: tl_ahead_def word_unat_eq_iff [where 'a = 32, symmetric] unat_gt_0)
qed

text \<open>Under a fair scheduler every thread in a given place, left alone there, takes its next step from it.\<close>

lemma tl_runs_from:
  assumes fair: "tl_fair s sched" and here: "tl_pcs (s n) t = pc" and pc: "pc \<noteq> Outside"
    and kept: "\<And>m. n \<le> m \<Longrightarrow> tl_pcs (s m) t = pc \<Longrightarrow> sched m \<noteq> Run t \<Longrightarrow> tl_pcs (s (Suc m)) t = pc"
  shows "\<exists>m\<ge>n. tl_pcs (s m) t = pc \<and> sched m = Run t"
proof (rule persists_until)
  show "\<exists>m\<ge>n. sched m = Run t" using fair here pc by (auto simp: tl_fair_def)
qed (use here kept in auto)

lemma tl_awake_kept:
  "tl_execution N s sched \<Longrightarrow> (\<And>k c. pc \<noteq> Asleep k c) \<Longrightarrow> tl_pcs (s m) t = pc \<Longrightarrow> sched m \<noteq> Run t
    \<Longrightarrow> tl_pcs (s (Suc m)) t = pc"
  using tl_exec_other [of "sched m" t "s m"] by (auto simp: tl_execution_step tl_wake_def split: tl_pc.splits)

lemma tl_front_enters:
  assumes ex: "tl_execution N s sched" and fair: "tl_fair s sched" and N: "N < 2 ^ 32"
    and front: "tl_ticket (s n) t = Some (tl_now_serving (s n))"
  shows "\<exists>m\<ge>n. tl_pcs (s m) t = Inside"
proof (rule ccontr)
  assume never: "\<not> (\<exists>m\<ge>n. tl_pcs (s m) t = Inside)"
  define k where "k = tl_now_serving (s n)"
  note ok = tl_reachable_ok [OF tl_execution_reachable [OF ex] N]
  note step = tl_execution_step [OF ex]
  have kept: "tl_ticket (s m) t = Some k \<and> tl_now_serving (s m) = k" if "n \<le> m" for m
    using that
  proof (induction rule: dec_induct)
    case base
    then show ?case using front by (simp add: k_def)
  next
    case (step m)
    have "tl_pcs (s m) t \<noteq> Inside" using never step(1) by blast
    then show ?case
      using tl_serving_kept [OF ok, of m t "sched m"] tl_ticket_kept [of "s m" t k "sched m"] step(3)
      by (simp add: tl_execution_step [OF ex])
  qed
  have loading: False if m: "n \<le> m" "tl_pcs (s m) t = Loading k" for m
  proof -
    obtain m' where m': "m \<le> m'" "tl_pcs (s m') t = Loading k" "sched m' = Run t"
      using tl_runs_from [OF fair m(2)] tl_awake_kept [OF ex, of "Loading k"] by blast
    then have "tl_pcs (s (Suc m')) t = Inside" using kept [of m'] m(1) by (simp add: step tl_exec_pcs)
    then show False using never m'(1) m(1) by (meson le_SucI order_trans)
  qed
  have waiting: False if m: "n \<le> m" "tl_pcs (s m) t = Waiting k c" for m c
  proof -
    obtain m' where m': "m \<le> m'" "tl_pcs (s m') t = Waiting k c" "sched m' = Run t"
      using tl_runs_from [OF fair m(2)] tl_awake_kept [OF ex, of "Waiting k c"] by blast
    then have "tl_pcs (s (Suc m')) t = Loading k"
      using kept [of m'] m(1) tl_okD(4) [OF ok m'(2)] by (simp add: step tl_exec_pcs)
    then show False using loading [of "Suc m'"] m'(1) m(1) by simp
  qed
  have asleep: False if m: "n \<le> m" "tl_pcs (s m) t = Asleep k c" for m c
  proof -
    obtain u where u: "tl_pcs (s m) u = Notifying"
      using tl_okD(5,6) [OF ok m(2)] kept [OF m(1)] by auto
    have still: "tl_pcs (s j) t = Asleep k c" if "m \<le> j" for j
      using that
    proof (induction rule: dec_induct)
      case (step j)
      have "tl_pcs (s (Suc j)) t = Asleep k c \<or> tl_pcs (s (Suc j)) t = Loading k"
        using step(3) by (cases "sched j") (auto simp: tl_execution_step [OF ex] tl_exec_pcs tl_wake_def)
      then show ?case using loading [of "Suc j"] step(1) m(1) by auto
    qed (rule m(2))
    obtain m' where m': "m \<le> m'" "tl_pcs (s m') u = Notifying" "sched m' = Run u"
      using tl_runs_from [OF fair u] tl_awake_kept [OF ex, of Notifying] by blast
    have "u \<noteq> t" using still [OF m'(1)] m'(2) by auto
    then have "tl_pcs (s (Suc m')) t = Loading k"
      using m' still [OF m'(1)] by (auto simp: step tl_exec_pcs tl_wake_def)
    then show False using loading [of "Suc m'"] m'(1) m(1) by simp
  qed
  have "tl_ticket (s n) t = Some k" "tl_pcs (s n) t \<noteq> Inside" using kept [of n] never by auto
  then show False
    using loading [of n] waiting [of n] asleep [of n] by (auto simp: tl_ticket_def split: tl_pc.splits)
qed

lemma tl_waiter_enters:
  assumes ex: "tl_execution N s sched" and fair: "tl_fair s sched" and N: "N < 2 ^ 32"
    and ticket: "tl_ticket (s n) t = Some k"
  shows "\<exists>m\<ge>n. tl_pcs (s m) t = Inside"
  using ticket
proof (induction "tl_ahead (s n) k" arbitrary: n rule: less_induct)
  case less
  note ok = tl_reachable_ok [OF tl_execution_reachable [OF ex] N]
  note step = tl_execution_step [OF ex]
  show ?case
  proof (rule ccontr)
    assume never: "\<not> (\<exists>m\<ge>n. tl_pcs (s m) t = Inside)"
    have kept: "tl_ticket (s m) t = Some k \<and> tl_ahead (s m) k \<le> tl_ahead (s n) k" if "n \<le> m" for m
      using that
    proof (induction rule: dec_induct)
      case base
      then show ?case using less.prems by simp
    next
      case (step m)
      have out: "tl_pcs (s m) t \<noteq> Inside" using never step(1) by blast
      have "tl_ticket (s (Suc m)) t = Some k"
        using tl_ticket_kept [OF _ out] step(3) by (simp add: tl_execution_step [OF ex])
      moreover have "tl_ahead (s (Suc m)) k \<le> tl_ahead (s m) k"
        using tl_ahead_step(1) [OF ok _ out, of k "sched m"] step(3)
        by (auto simp: tl_execution_step [OF ex] split: tl_action.splits)
      ultimately show ?case using step(3) by simp
    qed
    have "tl_ahead (s n) (tl_now_serving (s n)) < tl_ahead (s n) (tl_next_ticket (s n))"
      using tl_okD(3) [OF ok [of n], of k] less.prems by (auto simp: tl_ahead_def [of _ "tl_now_serving (s n)"])
    then obtain u where "tl_ticket (s n) u = Some (tl_now_serving (s n))" using tl_okD(3) [OF ok] by blast
    then obtain m where m: "n \<le> m" "tl_pcs (s m) u = Inside" using tl_front_enters [OF ex fair N] by blast
    then obtain m' where m': "m \<le> m'" "tl_pcs (s m') u = Inside" "sched m' = Run u"
      using tl_runs_from [OF fair m(2)] tl_awake_kept [OF ex, of Inside] by blast
    have nm: "n \<le> m'" using m m' by simp
    then have out: "tl_pcs (s m') t \<noteq> Inside" using never by blast
    have k: "tl_ticket (s m') t = Some k" using kept [OF nm] by blast
    have "tl_ahead (s (Suc m')) k = tl_ahead (s m') k - 1" "0 < tl_ahead (s m') k"
      using tl_ahead_step(1) [OF ok k out, of "Run u"] tl_ahead_step(2) [OF ok k out refl] m'(2,3) by (simp_all add: step)
    then have "tl_ahead (s (Suc m')) k < tl_ahead (s n) k" using kept [OF nm] by linarith
    moreover have "tl_ticket (s (Suc m')) t = Some k" using kept [of "Suc m'"] nm by simp
    ultimately obtain j where "Suc m' \<le> j" "tl_pcs (s j) t = Inside" using less.hyps by blast
    then show False using never nm by (meson Suc_leD le_trans)
  qed
qed

subsection \<open>Properties\<close>

text \<open>
  C31. Mutual exclusion: with fewer than \<open>2 ^ 32\<close> threads, in every state that any interleaving of their
  steps reaches, also after the ticket counters have wrapped around, at most one thread has the lock,
  and it is the one whose ticket is being served.
\<close>

theorem ticket_lock_mutual_exclusion:
  assumes "N < 2 ^ 32" and "tl_reachable N s" and "tl_pcs s t = Inside"
  shows "(tl_pcs s u = Inside \<longrightarrow> u = t) \<and> (tl_ticket s u = Some (tl_now_serving s) \<longrightarrow> u = t)"
  using tl_okD(2) [OF tl_reachable_ok [OF assms(2,1)], of t "tl_now_serving s" u] assms(3)
  by (auto simp: tl_ticket_def)

theorem ticket_lock_mutual_exclusion_witness:
  "tl_pcs (fold tl_exec [Run 0, Run 1, Run 1, Run 0] tl_init) 0 = Inside \<and>
   tl_pcs (fold tl_exec [Run 0, Run 1, Run 1, Run 0] tl_init) 1 \<noteq> Inside"
proof -
  let ?s = "fold tl_exec [Run 0, Run 1, Run 1, Run 0] tl_init"
  have r: "tl_reachable 2 ?s"
    by simp (intro tl_reachable.intros; simp)
  have i: "tl_pcs ?s 0 = Inside" by (simp add: tl_init_def tl_defs)
  from ticket_lock_mutual_exclusion [OF _ r i, of 1] show ?thesis using i by auto
qed

text \<open>
  C32. No starvation: in every execution with fewer than \<open>2 ^ 32\<close> threads in which the scheduler is fair
  and so everybody who gets the lock releases it, a thread that has drawn a ticket gets the lock. In
  particular no wake-up is lost between the load and the wait.
\<close>

theorem ticket_lock_no_starvation:
  assumes "N < 2 ^ 32" and "tl_execution N s sched" and "tl_fair s sched"
    and "tl_pcs (s n) t \<in> {Loading k, Waiting k c, Asleep k c}"
  shows "\<exists>m\<ge>n. tl_pcs (s m) t = Inside"
proof -
  have "tl_ticket (s n) t = Some k" using assms(4) by (auto simp: tl_ticket_def)
  then show ?thesis by (rule tl_waiter_enters [OF assms(2,3,1)])
qed

theorem ticket_lock_no_starvation_witness:
  "\<exists>m\<ge>1. tl_pcs ((tl_exec (Run 0) ^^ m) tl_init) 0 = Inside"
proof -
  let ?s = "\<lambda>n. (tl_exec (Run 0) ^^ n) tl_init" and ?sched = "\<lambda>n :: nat. Run 0"
  have ex: "tl_execution 1 ?s ?sched" by (simp add: tl_execution_def)
  have "tl_pcs (?s n) t = Outside" if "t \<noteq> 0" for t n
    using tl_okD(1) [OF tl_reachable_ok [OF tl_execution_reachable [OF ex]], of t n] that by simp
  then have fair: "tl_fair ?s ?sched" unfolding tl_fair_def by (metis order_refl)
  have "tl_pcs (?s 1) 0 \<in> {Loading 0, Waiting 0 0, Asleep 0 0}" by (simp add: tl_init_def tl_defs)
  from ticket_lock_no_starvation [OF _ ex fair this] show ?thesis by simp
qed

end
